(* ===== verification/Prelude.thy ===== *)
theory Prelude
  imports Main "HOL-Library.Word"
begin

text \<open>
  Shared vocabulary of the development: the machine integers of the Rust source with the
  operations of the standard library the source calls on them (checked, saturating and
  wrapping arithmetic), fallible and panicking results, methods that take \<open>&mut self\<close>,
  and the generic lemmas and \<open>named_theorems\<close> collections every component uses.

  Conventions.
  \<^item> \<open>Result<T, E>\<close> is the sum \<open>'e + 't\<close> with \<open>Inl\<close> for \<open>Err\<close>.
  \<^item> A call that can also panic (an arithmetic operator of the decimal package, a slice
    index) has the three-way type \<open>outcome\<close>.
  \<^item> A method on \<open>&mut self\<close> is a function from the state to the result and the state
    \<^emph>\<open>after\<close> the call: Rust does not undo the writes made before an early return, so
    the state comes with errors too.
  \<^item> Each reading of the clock (\<open>Timestamp::now()\<close>, \<open>Instant::now()\<close>) is an argument.
\<close>

named_theorems op_defs "definitions of the operations, unfolded when a component is analysed"
named_theorems inv_intros "introduction rules for the invariants of the components"

section \<open>Machine integers\<close>

type_synonym u8 = "8 word"
type_synonym u16 = "16 word"
type_synonym u32 = "32 word"
type_synonym u64 = "64 word"

definition sat_add :: "'w::len word \<Rightarrow> 'w word \<Rightarrow> 'w word" where
  "sat_add a b = (if unat a + unat b < 2 ^ LENGTH('w) then a + b else - 1)"

definition w_checked_add :: "'w::len word \<Rightarrow> 'w word \<Rightarrow> 'w word option" where
  "w_checked_add a b = (if unat a + unat b < 2 ^ LENGTH('w) then Some (a + b) else None)"

definition w_checked_sub :: "'w::len word \<Rightarrow> 'w word \<Rightarrow> 'w word option" where
  "w_checked_sub a b = (if b \<le> a then Some (a - b) else None)"

definition w_checked_mul :: "'w::len word \<Rightarrow> 'w word \<Rightarrow> 'w word option" where
  "w_checked_mul a b = (if unat a * unat b < 2 ^ LENGTH('w) then Some (a * b) else None)"

definition w_checked_div :: "'w::len word \<Rightarrow> 'w word \<Rightarrow> 'w word option" where
  "w_checked_div a b = (if b = 0 then None else Some (a div b))"

text \<open>Signed words: the value read in two's complement; \<open>s_checked\<close> is \<open>None\<close> outside the range.\<close>

definition s_checked :: "'w::len itself \<Rightarrow> int \<Rightarrow> 'w word option" where
  "s_checked _ n = (if - (2 ^ (LENGTH('w) - 1)) \<le> n \<and> n < 2 ^ (LENGTH('w) - 1)
     then Some (word_of_int n) else None)"

text \<open>Rust's signed division truncates towards zero.\<close>

definition trunc_div :: "int \<Rightarrow> int \<Rightarrow> int" where
  "trunc_div a b = sgn a * sgn b * (\<bar>a\<bar> div \<bar>b\<bar>)"

definition trunc_mod :: "int \<Rightarrow> int \<Rightarrow> int" where
  "trunc_mod a b = a - b * trunc_div a b"

lemma unat_add_no_wrap:
  "unat a + unat b < 2 ^ LENGTH('w) \<Longrightarrow> unat (a + b) = unat a + unat b" for a b :: "'w::len word"
  by (simp add: unat_word_ariths)

lemma unat_of_nat_small: "k < 2 ^ LENGTH('w) \<Longrightarrow> unat (of_nat k :: 'w::len word) = k"
  by (simp add: unat_of_nat take_bit_nat_eq_self)

lemma w_checked_add_Some:
  "w_checked_add a b = Some c \<Longrightarrow> unat c = unat a + unat b"
  by (auto simp: w_checked_add_def unat_add_no_wrap split: if_splits)

lemma unat_sub_no_wrap: "b \<le> a \<Longrightarrow> unat (a - b) = unat a - unat b" for a b :: "'w::len word"
  by (simp add: unat_sub)

lemma w_checked_sub_Some:
  "w_checked_sub a b = Some c \<Longrightarrow> unat c + unat b = unat a"
  by (auto simp: w_checked_sub_def unat_sub_no_wrap word_le_nat_alt split: if_splits)

lemma unat_sat_add: "unat (sat_add a b) = min (unat a + unat b) (2 ^ LENGTH('w) - 1)"
  for a b :: "'w::len word"
  by (auto simp: sat_add_def unat_add_no_wrap unsigned_minus_1_eq_mask mask_eq_exp_minus_1)

lemma sat_add_mono: "a \<le> sat_add a b"
proof -
  have "unat a < 2 ^ LENGTH('a)" by (rule unsigned_less)
  then have "unat a \<le> 2 ^ LENGTH('a) - 1" by linarith
  then show ?thesis by (simp add: word_le_nat_alt unat_sat_add)
qed

section \<open>Results\<close>

datatype ('e, 'a) outcome = Ret 'a | Err 'e | Panic

text \<open>\<open>?\<close> on an outcome.\<close>

fun obind :: "('e, 'a) outcome \<Rightarrow> ('a \<Rightarrow> ('e, 'b) outcome) \<Rightarrow> ('e, 'b) outcome" where
  "obind (Ret a) f = f a"
| "obind (Err e) f = Err e"
| "obind Panic f = Panic"

text \<open>An arithmetic operator that panics where the checked operation returns \<open>None\<close>.\<close>

fun or_panic :: "'a option \<Rightarrow> ('e, 'a) outcome" where
  "or_panic (Some a) = Ret a"
| "or_panic None = Panic"

fun of_result :: "'e + 'a \<Rightarrow> ('e, 'a) outcome" where
  "of_result (Inl e) = Err e"
| "of_result (Inr a) = Ret a"

text \<open>\<open>ok_or\<close> on an option.\<close>

fun ok_or :: "'e \<Rightarrow> 'a option \<Rightarrow> 'e + 'a" where
  "ok_or e (Some a) = Inr a"
| "ok_or e None = Inl e"

text \<open>\<open>?\<close> on a \<open>Result\<close>.\<close>

fun rbind :: "'e + 'a \<Rightarrow> ('a \<Rightarrow> 'e + 'b) \<Rightarrow> 'e + 'b" where
  "rbind (Inl e) f = Inl e"
| "rbind (Inr a) f = f a"

lemma obind_Ret_iff [simp]: "obind m f = Ret b \<longleftrightarrow> (\<exists>a. m = Ret a \<and> f a = Ret b)"
  by (cases m) auto

lemma or_panic_Ret_iff [simp]: "or_panic x = Ret a \<longleftrightarrow> x = Some a"
  by (cases x) auto

lemma or_panic_not_Err [simp]: "or_panic x \<noteq> Err e"
  by (cases x) auto

lemma ok_or_Inr_iff [simp]: "ok_or e x = Inr a \<longleftrightarrow> x = Some a"
  by (cases x) auto

lemma ok_or_Inl_iff [simp]: "ok_or e x = Inl e' \<longleftrightarrow> x = None \<and> e' = e"
  by (cases x) auto

lemma rbind_Inr_iff [simp]: "rbind m f = Inr b \<longleftrightarrow> (\<exists>a. m = Inr a \<and> f a = Inr b)"
  by (cases m) auto

lemma rbind_Inl_iff [simp]:
  "rbind m f = Inl e \<longleftrightarrow> m = Inl e \<or> (\<exists>a. m = Inr a \<and> f a = Inl e)"
  by (cases m) auto

section \<open>Methods on \<open>&mut self\<close>\<close>

type_synonym ('s, 'e, 'a) op = "'s \<Rightarrow> ('e + 'a) \<times> 's"

text \<open>Sequencing with \<open>?\<close>: the second call runs on the state the first left, unless it failed.\<close>

definition op_then :: "('s, 'e, 'a) op \<Rightarrow> ('a \<Rightarrow> ('s, 'e, 'b) op) \<Rightarrow> ('s, 'e, 'b) op" where
  "op_then m f = (\<lambda>s. case m s of (Inl e, s') \<Rightarrow> (Inl e, s') | (Inr a, s') \<Rightarrow> f a s')"

definition op_ret :: "'a \<Rightarrow> ('s, 'e, 'a) op" where
  "op_ret a = (\<lambda>s. (Inr a, s))"

definition op_fail :: "'e \<Rightarrow> ('s, 'e, 'a) op" where
  "op_fail e = (\<lambda>s. (Inl e, s))"

lemma op_then_simps [simp]:
  "m s = (Inl e, s') \<Longrightarrow> op_then m f s = (Inl e, s')"
  "m s = (Inr a, s') \<Longrightarrow> op_then m f s = f a s'"
  by (simp_all add: op_then_def)

text \<open>Methods that may also panic; the state is where the panic left it.\<close>

type_synonym ('s, 'e, 'a) pop = "'s \<Rightarrow> ('e, 'a) outcome \<times> 's"

definition pop_then :: "('s, 'e, 'a) pop \<Rightarrow> ('a \<Rightarrow> ('s, 'e, 'b) pop) \<Rightarrow> ('s, 'e, 'b) pop" where
  "pop_then m f = (\<lambda>s. case m s of
       (Ret a, s') \<Rightarrow> f a s' | (Err e, s') \<Rightarrow> (Err e, s') | (Panic, s') \<Rightarrow> (Panic, s'))"

definition pop_ret :: "'a \<Rightarrow> ('s, 'e, 'a) pop" where
  "pop_ret a = (\<lambda>s. (Ret a, s))"

text \<open>A computation that only reads the state.\<close>

definition pop_read :: "('s \<Rightarrow> ('e, 'a) outcome) \<Rightarrow> ('s, 'e, 'a) pop" where
  "pop_read m = (\<lambda>s. (m s, s))"

definition pop_modify :: "('s \<Rightarrow> 's) \<Rightarrow> ('s, 'e, unit) pop" where
  "pop_modify m = (\<lambda>s. (Ret (), m s))"

lemma pop_then_Ret_iff:
  "pop_then m f s = (Ret b, s'') \<longleftrightarrow> (\<exists>a s'. m s = (Ret a, s') \<and> f a s' = (Ret b, s''))"
  by (auto simp: pop_then_def split: prod.splits outcome.splits)

lemma pop_simps [simp]:
  "pop_ret a s = (Ret b, s') \<longleftrightarrow> b = a \<and> s' = s"
  "pop_read r s = (x, s') \<longleftrightarrow> x = r s \<and> s' = s"
  "pop_modify m s = (y, s') \<longleftrightarrow> y = Ret () \<and> s' = m s"
  by (auto simp: pop_ret_def pop_read_def pop_modify_def)

text \<open>A history of calls: every call runs, whatever the ones before it returned.\<close>

fun run_ops :: "('c \<Rightarrow> ('s, 'e, 'a) op) \<Rightarrow> 'c list \<Rightarrow> 's \<Rightarrow> 's" where
  "run_ops ap [] s = s"
| "run_ops ap (c # cs) s = run_ops ap cs (snd (ap c s))"

lemma run_ops_append [simp]: "run_ops ap (xs @ ys) s = run_ops ap ys (run_ops ap xs s)"
  by (induction xs arbitrary: s) auto

lemma run_ops_invariant:
  assumes "\<And>c s. P s \<Longrightarrow> P (snd (ap c s))" and "P s"
  shows "P (run_ops ap cs s)"
  using assms(2) by (induction cs arbitrary: s) (auto intro: assms(1))

section \<open>Lists\<close>

lemma find_Some_iff_mem: "find P xs = Some x \<Longrightarrow> x \<in> set xs \<and> P x"
  by (induction xs) (auto split: if_splits)

lemma find_None_all: "find P xs = None \<longleftrightarrow> (\<forall>x\<in>set xs. \<not> P x)"
  by (induction xs) auto

text \<open>Each element and the one before it, as a loop over \<open>last()\<close> maintains it.\<close>

fun chained :: "('a \<Rightarrow> 'a \<Rightarrow> bool) \<Rightarrow> 'a list \<Rightarrow> bool" where
  "chained R [] \<longleftrightarrow> True"
| "chained R [x] \<longleftrightarrow> True"
| "chained R (x # y # zs) \<longleftrightarrow> R x y \<and> chained R (y # zs)"

lemma chained_snoc:
  "chained R (xs @ [x]) \<longleftrightarrow> chained R xs \<and> (xs = [] \<or> R (last xs) x)"
  by (induction R xs rule: chained.induct) auto

lemma chained_snoc2: "chained R (xs @ [x, y]) \<longleftrightarrow> chained R (xs @ [x]) \<and> R x y"
  using chained_snoc [of R "xs @ [x]" y] by simp

lemma butlast_snoc2 [simp]: "butlast (xs @ [x, y]) = xs @ [x]"
  by (simp add: butlast_append)

lemma chained_sorted_wrt: "transp R \<Longrightarrow> chained R xs \<Longrightarrow> sorted_wrt R xs"
  by (induction R xs rule: chained.induct) (auto dest: transpD)

end
