(* ===== verification/Values.thy ===== *)
theory Values
  imports Prelude
begin

text \<open>
  The value objects of \<open>src/domain/value_objects\<close> that every component uses: the checked
  arithmetic of \<open>arithmetic.rs\<close>, \<open>Price\<close> and \<open>Quantity\<close> (\<open>price.rs\<close>, \<open>quantity.rs\<close>),
  identifiers and timestamps.

  The decimal type is the package \<open>rust_decimal\<close>, which is not part of the repository. It
  is a parameter: a record of the operations the source calls, over an arbitrary type of
  values. Where a lemma needs more than the control flow of the source it names the
  documented laws it uses: \<open>dec_order\<close> (comparison is a total order on values, up to equal
  values with different representations) and \<open>dec_signs\<close> (the sign flag agrees with the
  order, except for a negative zero).
\<close>

section \<open>The decimal package\<close>

record 'd dec =
  dzero :: 'd
  d_one :: 'd
  dle :: "'d \<Rightarrow> 'd \<Rightarrow> bool"                        \<comment> \<open>\<open>a.cmp(&b) != Greater\<close>\<close>
  dneg_sign :: "'d \<Rightarrow> bool"                          \<comment> \<open>\<open>is_sign_negative\<close>\<close>
  dis_zero :: "'d \<Rightarrow> bool"
  dadd :: "'d \<Rightarrow> 'd \<Rightarrow> 'd option"                   \<comment> \<open>\<open>checked_add\<close>\<close>
  dsub :: "'d \<Rightarrow> 'd \<Rightarrow> 'd option"
  dmul :: "'d \<Rightarrow> 'd \<Rightarrow> 'd option"
  ddiv :: "'d \<Rightarrow> 'd \<Rightarrow> 'd option"                   \<comment> \<open>\<open>None\<close> also for a zero divisor\<close>
  dtrunc :: "'d \<Rightarrow> 'd"
  dround :: "'d \<Rightarrow> 'd"
  dnegate :: "'d \<Rightarrow> 'd"
  dof_int :: "int \<Rightarrow> 'd"                            \<comment> \<open>\<open>Decimal::from\<close>\<close>
  dto_u32 :: "'d \<Rightarrow> u32 option"
  dmantissa :: "'d \<Rightarrow> int"                          \<comment> \<open>an \<open>i128\<close>\<close>
  dscale :: "'d \<Rightarrow> nat"                             \<comment> \<open>number of decimal places, at most 28\<close>
  dnew :: "int \<Rightarrow> nat \<Rightarrow> 'd option"               \<comment> \<open>\<open>Decimal::new\<close>; \<open>None\<close> where it panics\<close>

definition dlt :: "'d dec \<Rightarrow> 'd \<Rightarrow> 'd \<Rightarrow> bool" where
  "dlt D a b \<longleftrightarrow> \<not> dle D b a"

definition deq :: "'d dec \<Rightarrow> 'd \<Rightarrow> 'd \<Rightarrow> bool" where
  "deq D a b \<longleftrightarrow> dle D a b \<and> dle D b a"

definition dmax :: "'d dec \<Rightarrow> 'd \<Rightarrow> 'd \<Rightarrow> 'd" where
  "dmax D a b = (if dlt D b a then a else b)"

text \<open>\<open>abs\<close>.\<close>

definition dabs :: "'d dec \<Rightarrow> 'd \<Rightarrow> 'd" where
  "dabs D a = (if dneg_sign D a then dnegate D a else a)"

text \<open>Documented laws of the package, used as named hypotheses.\<close>

definition dec_order :: "'d dec \<Rightarrow> bool" where
  "dec_order D \<longleftrightarrow> (\<forall>a b. dle D a b \<or> dle D b a)
     \<and> (\<forall>a b c. dle D a b \<longrightarrow> dle D b c \<longrightarrow> dle D a c)"

definition dec_signs :: "'d dec \<Rightarrow> bool" where
  "dec_signs D \<longleftrightarrow> (\<forall>a. dis_zero D a \<longleftrightarrow> deq D a (dzero D))
     \<and> (\<forall>a. dlt D a (dzero D) \<longrightarrow> dneg_sign D a)
     \<and> (\<forall>a. dneg_sign D a \<longrightarrow> dle D a (dzero D))"

text \<open>Addition and subtraction are monotone where they have a result (rounding is, too).\<close>

definition dec_mono :: "'d dec \<Rightarrow> bool" where
  "dec_mono D \<longleftrightarrow>
     (\<forall>a b c r r'. dle D a b \<longrightarrow> dadd D a c = Some r \<longrightarrow> dadd D b c = Some r' \<longrightarrow> dle D r r')
     \<and> (\<forall>a b r. dle D (dzero D) b \<longrightarrow> dsub D a b = Some r \<longrightarrow> dle D r a)
     \<and> (\<forall>a b r. dle D (dzero D) b \<longrightarrow> dadd D a b = Some r \<longrightarrow> dle D a r)"

text \<open>The operators \<open>+ - * /\<close>, which panic where the checked operation has no result.\<close>

definition dplus :: "'d dec \<Rightarrow> 'd \<Rightarrow> 'd \<Rightarrow> ('e, 'd) outcome" where
  "dplus D a b = or_panic (dadd D a b)"

definition dminus :: "'d dec \<Rightarrow> 'd \<Rightarrow> 'd \<Rightarrow> ('e, 'd) outcome" where
  "dminus D a b = or_panic (dsub D a b)"

definition dtimes :: "'d dec \<Rightarrow> 'd \<Rightarrow> 'd \<Rightarrow> ('e, 'd) outcome" where
  "dtimes D a b = or_panic (dmul D a b)"

definition dover :: "'d dec \<Rightarrow> 'd \<Rightarrow> 'd \<Rightarrow> ('e, 'd) outcome" where
  "dover D a b = or_panic (ddiv D a b)"

lemma dec_order_refl: "dec_order D \<Longrightarrow> dle D a a"
  by (auto simp: dec_order_def)

lemma dec_order_trans: "dec_order D \<Longrightarrow> dle D a b \<Longrightarrow> dle D b c \<Longrightarrow> dle D a c"
  by (auto simp: dec_order_def)

lemma dlt_trans: "dec_order D \<Longrightarrow> dlt D a b \<Longrightarrow> dlt D b c \<Longrightarrow> dlt D a c"
  unfolding dlt_def dec_order_def by blast

lemma dlt_irrefl: "dec_order D \<Longrightarrow> \<not> dlt D a a"
  by (simp add: dlt_def dec_order_refl)

lemma transp_dlt: "dec_order D \<Longrightarrow> transp (dlt D)"
  by (rule transpI) (rule dlt_trans)

lemma dmax_ge: "dec_order D \<Longrightarrow> dle D a (dmax D a b)" "dec_order D \<Longrightarrow> dle D b (dmax D a b)"
  by (auto simp: dmax_def dlt_def dec_order_def)

section \<open>Checked arithmetic (\<open>arithmetic.rs\<close>)\<close>

datatype arithmetic_error = AeOverflow | AeUnderflow | AeDivisionByZero | AeInvalidValue string

datatype rounding = RoundDown | RoundUp

definition div_round :: "'d dec \<Rightarrow> 'd \<Rightarrow> 'd \<Rightarrow> rounding \<Rightarrow> (arithmetic_error, 'd) outcome" where
  "div_round D numerator denominator rnd =
     (if dis_zero D denominator then Err AeDivisionByZero
      else obind (dover D numerator denominator) (\<lambda>quotient.
        case rnd of
          RoundDown \<Rightarrow> Ret (dtrunc D quotient)
        | RoundUp \<Rightarrow>
            let truncated = dtrunc D quotient in
            if deq D quotient truncated then Ret truncated
            else if \<not> dneg_sign D quotient then dplus D truncated (d_one D)
            else dminus D truncated (d_one D)))"

definition dec_safe_add :: "'d dec \<Rightarrow> 'd \<Rightarrow> 'd \<Rightarrow> arithmetic_error + 'd" where
  "dec_safe_add D a b = ok_or AeOverflow (dadd D a b)"

definition dec_safe_sub :: "'d dec \<Rightarrow> 'd \<Rightarrow> 'd \<Rightarrow> arithmetic_error + 'd" where
  "dec_safe_sub D a b = ok_or AeUnderflow (dsub D a b)"

definition dec_safe_mul :: "'d dec \<Rightarrow> 'd \<Rightarrow> 'd \<Rightarrow> arithmetic_error + 'd" where
  "dec_safe_mul D a b = ok_or AeOverflow (dmul D a b)"

definition dec_safe_div :: "'d dec \<Rightarrow> 'd \<Rightarrow> 'd \<Rightarrow> arithmetic_error + 'd" where
  "dec_safe_div D a b =
     (if dis_zero D b then Inl AeDivisionByZero else ok_or AeOverflow (ddiv D a b))"

definition u64_safe_add :: "u64 \<Rightarrow> u64 \<Rightarrow> arithmetic_error + u64" where
  "u64_safe_add a b = ok_or AeOverflow (w_checked_add a b)"

definition u64_safe_sub :: "u64 \<Rightarrow> u64 \<Rightarrow> arithmetic_error + u64" where
  "u64_safe_sub a b = ok_or AeUnderflow (w_checked_sub a b)"

definition u64_safe_mul :: "u64 \<Rightarrow> u64 \<Rightarrow> arithmetic_error + u64" where
  "u64_safe_mul a b = ok_or AeOverflow (w_checked_mul a b)"

definition u64_safe_div :: "u64 \<Rightarrow> u64 \<Rightarrow> arithmetic_error + u64" where
  "u64_safe_div a b = ok_or AeDivisionByZero (w_checked_div a b)"

definition i64_safe_add :: "64 word \<Rightarrow> 64 word \<Rightarrow> arithmetic_error + 64 word" where
  "i64_safe_add a b = ok_or AeOverflow (s_checked TYPE(64) (sint a + sint b))"

definition i64_safe_sub :: "64 word \<Rightarrow> 64 word \<Rightarrow> arithmetic_error + 64 word" where
  "i64_safe_sub a b = ok_or AeUnderflow (s_checked TYPE(64) (sint a - sint b))"

definition i64_safe_mul :: "64 word \<Rightarrow> 64 word \<Rightarrow> arithmetic_error + 64 word" where
  "i64_safe_mul a b = ok_or AeOverflow (s_checked TYPE(64) (sint a * sint b))"

definition i64_safe_div :: "64 word \<Rightarrow> 64 word \<Rightarrow> arithmetic_error + 64 word" where
  "i64_safe_div a b =
     (if b = 0 then Inl AeDivisionByZero
      else ok_or AeOverflow (s_checked TYPE(64) (trunc_div (sint a) (sint b))))"

section \<open>\<open>Price\<close> and \<open>Quantity\<close>\<close>

text \<open>Newtypes over a decimal (\<open>pub struct Price(Decimal)\<close>).\<close>

datatype 'd price = Price (price_get: 'd)
datatype 'd quantity = Quantity (quantity_get: 'd)

definition price_from_decimal :: "'d dec \<Rightarrow> 'd \<Rightarrow> arithmetic_error + 'd price" where
  "price_from_decimal D v =
     (if dneg_sign D v then Inl (AeInvalidValue ''price cannot be negative'') else Inr (Price v))"

definition price_zero :: "'d dec \<Rightarrow> 'd price" where
  "price_zero D = Price (dzero D)"

definition price_is_zero :: "'d dec \<Rightarrow> 'd price \<Rightarrow> bool" where
  "price_is_zero D p = dis_zero D (price_get p)"

definition price_is_positive :: "'d dec \<Rightarrow> 'd price \<Rightarrow> bool" where
  "price_is_positive D p \<longleftrightarrow> \<not> dneg_sign D (price_get p) \<and> \<not> dis_zero D (price_get p)"

definition price_safe_add :: "'d dec \<Rightarrow> 'd price \<Rightarrow> 'd price \<Rightarrow> arithmetic_error + 'd price" where
  "price_safe_add D a b =
     rbind (dec_safe_add D (price_get a) (price_get b)) (\<lambda>r. Inr (Price r))"

definition price_safe_sub :: "'d dec \<Rightarrow> 'd price \<Rightarrow> 'd price \<Rightarrow> arithmetic_error + 'd price" where
  "price_safe_sub D a b =
     rbind (dec_safe_sub D (price_get a) (price_get b))
       (\<lambda>r. if dneg_sign D r then Inl AeUnderflow else Inr (Price r))"

definition price_safe_mul :: "'d dec \<Rightarrow> 'd price \<Rightarrow> 'd \<Rightarrow> arithmetic_error + 'd price" where
  "price_safe_mul D a factor =
     rbind (dec_safe_mul D (price_get a) factor)
       (\<lambda>r. if dneg_sign D r
            then Inl (AeInvalidValue ''multiplication result cannot be negative'')
            else Inr (Price r))"

definition price_safe_div :: "'d dec \<Rightarrow> 'd price \<Rightarrow> 'd \<Rightarrow> arithmetic_error + 'd price" where
  "price_safe_div D a divisor =
     rbind (dec_safe_div D (price_get a) divisor)
       (\<lambda>r. if dneg_sign D r
            then Inl (AeInvalidValue ''division result cannot be negative'')
            else Inr (Price r))"

definition price_min :: "'d dec \<Rightarrow> 'd price \<Rightarrow> 'd price \<Rightarrow> 'd price" where
  "price_min D a b = (if dle D (price_get a) (price_get b) then a else b)"

definition price_max :: "'d dec \<Rightarrow> 'd price \<Rightarrow> 'd price \<Rightarrow> 'd price" where
  "price_max D a b = (if dle D (price_get b) (price_get a) then a else b)"

definition price_lt :: "'d dec \<Rightarrow> 'd price \<Rightarrow> 'd price \<Rightarrow> bool" where
  "price_lt D a b = dlt D (price_get a) (price_get b)"

definition price_le :: "'d dec \<Rightarrow> 'd price \<Rightarrow> 'd price \<Rightarrow> bool" where
  "price_le D a b = dle D (price_get a) (price_get b)"

definition quantity_from_decimal :: "'d dec \<Rightarrow> 'd \<Rightarrow> arithmetic_error + 'd quantity" where
  "quantity_from_decimal D v =
     (if dneg_sign D v then Inl (AeInvalidValue ''quantity cannot be negative'')
      else Inr (Quantity v))"

definition quantity_zero :: "'d dec \<Rightarrow> 'd quantity" where
  "quantity_zero D = Quantity (dzero D)"

definition quantity_is_zero :: "'d dec \<Rightarrow> 'd quantity \<Rightarrow> bool" where
  "quantity_is_zero D q = dis_zero D (quantity_get q)"

definition quantity_is_positive :: "'d dec \<Rightarrow> 'd quantity \<Rightarrow> bool" where
  "quantity_is_positive D q \<longleftrightarrow>
     \<not> dneg_sign D (quantity_get q) \<and> \<not> dis_zero D (quantity_get q)"

definition quantity_safe_add ::
    "'d dec \<Rightarrow> 'd quantity \<Rightarrow> 'd quantity \<Rightarrow> arithmetic_error + 'd quantity" where
  "quantity_safe_add D a b =
     rbind (dec_safe_add D (quantity_get a) (quantity_get b)) (\<lambda>r. Inr (Quantity r))"

definition quantity_safe_sub ::
    "'d dec \<Rightarrow> 'd quantity \<Rightarrow> 'd quantity \<Rightarrow> arithmetic_error + 'd quantity" where
  "quantity_safe_sub D a b =
     rbind (dec_safe_sub D (quantity_get a) (quantity_get b))
       (\<lambda>r. if dneg_sign D r then Inl AeUnderflow else Inr (Quantity r))"

definition quantity_safe_mul ::
    "'d dec \<Rightarrow> 'd quantity \<Rightarrow> 'd \<Rightarrow> arithmetic_error + 'd quantity" where
  "quantity_safe_mul D a factor =
     rbind (dec_safe_mul D (quantity_get a) factor)
       (\<lambda>r. if dneg_sign D r
            then Inl (AeInvalidValue ''multiplication result cannot be negative'')
            else Inr (Quantity r))"

definition quantity_safe_div ::
    "'d dec \<Rightarrow> 'd quantity \<Rightarrow> 'd \<Rightarrow> arithmetic_error + 'd quantity" where
  "quantity_safe_div D a divisor =
     rbind (dec_safe_div D (quantity_get a) divisor)
       (\<lambda>r. if dneg_sign D r
            then Inl (AeInvalidValue ''division result cannot be negative'')
            else Inr (Quantity r))"

text \<open>What is left of an order after a fill; the subtraction is the panicking operator.\<close>

definition quantity_remaining_after ::
    "'d dec \<Rightarrow> 'd quantity \<Rightarrow> 'd quantity \<Rightarrow> ('e, 'd quantity) outcome" where
  "quantity_remaining_after D q filled =
     (if dle D (quantity_get q) (quantity_get filled) then Ret (quantity_zero D)
      else obind (dminus D (quantity_get q) (quantity_get filled)) (\<lambda>r. Ret (Quantity r)))"

definition quantity_fill_ratio ::
    "'d dec \<Rightarrow> 'd quantity \<Rightarrow> 'd quantity \<Rightarrow> ('e, 'd) outcome" where
  "quantity_fill_ratio D q filled =
     (if quantity_is_zero D q then Ret (d_one D)
      else obind (dover D (quantity_get filled) (quantity_get q)) (\<lambda>ratio.
        if dlt D (d_one D) ratio then Ret (d_one D) else Ret ratio))"

lemmas price_op_defs [op_defs] =
  price_safe_add_def price_safe_sub_def price_safe_mul_def price_safe_div_def
  dec_safe_add_def dec_safe_sub_def dec_safe_mul_def dec_safe_div_def

text \<open>A constructed price is never below zero, and neither is a difference or product.\<close>

lemma price_from_decimal_nonneg:
  "dec_signs D \<Longrightarrow> price_from_decimal D v = Inr p \<Longrightarrow> price_get p = v \<and> dle D (dzero D) v"
  by (auto simp: price_from_decimal_def dec_signs_def dlt_def split: if_splits)

lemma price_safe_sub_nonneg:
  "dec_signs D \<Longrightarrow> price_safe_sub D a b = Inr p \<Longrightarrow> dle D (dzero D) (price_get p)"
  by (auto simp: op_defs dec_signs_def dlt_def split: if_splits)

lemma price_positive_gt_zero:
  "dec_order D \<Longrightarrow> dec_signs D \<Longrightarrow> price_is_positive D p \<Longrightarrow> dlt D (dzero D) (price_get p)"
  by (auto simp: price_is_positive_def dec_signs_def dec_order_def dlt_def deq_def)

lemma fill_ratio_le_one:
  "dec_order D \<Longrightarrow> quantity_fill_ratio D q f = Ret r \<Longrightarrow> dle D r (d_one D)"
  by (auto simp: quantity_fill_ratio_def dlt_def dec_order_refl split: if_splits)

section \<open>Identifiers and time\<close>

text \<open>
  \<open>RfqId\<close>, \<open>QuoteId\<close>, \<open>TradeId\<close>, \<open>NegotiationId\<close> and \<open>LockHolderId\<close> are newtypes over
  a UUID, a 128-bit value the source only compares, copies and prints; a fresh UUID
  (\<open>new_v4\<close>) is an argument. \<open>VenueId\<close> and \<open>CounterpartyId\<close> are newtypes over a string.
  A \<open>Timestamp\<close> is a point on the time line in nanoseconds; the source compares two of
  them and adds spans.
\<close>

type_synonym uuid = "128 word"
type_synonym venue_id = string
type_synonym counterparty_id = string
type_synonym timestamp = int

text \<open>\<open>is_expired\<close>: strictly before the clock reading \<open>now\<close>.\<close>

definition ts_is_expired :: "timestamp \<Rightarrow> timestamp \<Rightarrow> bool" where
  "ts_is_expired now t \<longleftrightarrow> t < now"

definition ts_add_secs :: "timestamp \<Rightarrow> int \<Rightarrow> timestamp" where
  "ts_add_secs t secs = t + secs * 1000000000"

definition ts_add_millis :: "timestamp \<Rightarrow> int \<Rightarrow> timestamp" where
  "ts_add_millis t ms = t + ms * 1000000"

definition ts_sub_secs :: "timestamp \<Rightarrow> int \<Rightarrow> timestamp" where
  "ts_sub_secs t secs = t - secs * 1000000000"

text \<open>The span until another time, zero when that lies in the past.\<close>

definition ts_duration_until :: "timestamp \<Rightarrow> timestamp \<Rightarrow> nat" where
  "ts_duration_until t other = nat (other - t)"

datatype order_side = Buy | Sell

definition side_opposite :: "order_side \<Rightarrow> order_side" where
  "side_opposite s = (case s of Buy \<Rightarrow> Sell | Sell \<Rightarrow> Buy)"

section \<open>A concrete decimal\<close>

text \<open>
  Whole numbers of at most 96 bits, an instance of the parameter on which hypotheses about
  it can be discharged and examples evaluated.
\<close>

definition whole_fit :: "int \<Rightarrow> int option" where
  "whole_fit n = (if \<bar>n\<bar> < 79228162514264337593543950336 then Some n else None)"

definition whole_dec :: "int dec" where
  "whole_dec = \<lparr> dzero = 0, d_one = 1, dle = (\<le>), dneg_sign = (\<lambda>a. a < 0),
     dis_zero = (\<lambda>a. a = 0), dadd = (\<lambda>a b. whole_fit (a + b)),
     dsub = (\<lambda>a b. whole_fit (a - b)), dmul = (\<lambda>a b. whole_fit (a * b)),
     ddiv = (\<lambda>a b. if b = 0 then None else whole_fit (trunc_div a b)),
     dtrunc = (\<lambda>a. a), dround = (\<lambda>a. a), dnegate = uminus, dof_int = (\<lambda>n. n),
     dto_u32 = (\<lambda>a. if 0 \<le> a \<and> a < 4294967296 then Some (word_of_int a) else None),
     dmantissa = (\<lambda>a. a), dscale = (\<lambda>_. 0),
     dnew = (\<lambda>m s. if s = 0 then Some m else None) \<rparr>"

lemma whole_dec_sel [simp]:
  "dzero whole_dec = 0" "d_one whole_dec = 1" "dle whole_dec = (\<le>)"
  "dneg_sign whole_dec = (\<lambda>a. a < 0)" "dis_zero whole_dec = (\<lambda>a. a = 0)"
  "dadd whole_dec a b = whole_fit (a + b)" "dsub whole_dec a b = whole_fit (a - b)"
  "dmul whole_dec a b = whole_fit (a * b)" "dround whole_dec a = a"
  "dmantissa whole_dec a = a" "dscale whole_dec a = 0"
  "dnew whole_dec m s = (if s = 0 then Some m else None)"
  by (simp_all add: whole_dec_def)

lemma whole_dec_order: "dec_order whole_dec"
  by (auto simp: dec_order_def)

lemma whole_dec_mono: "dec_mono whole_dec"
  by (auto simp: dec_mono_def whole_fit_def split: if_splits)

lemma whole_dec_signs: "dec_signs whole_dec"
  by (auto simp: dec_signs_def deq_def dlt_def)

end
