(* ===== verification/Lifecycle.thy ===== *)
theory Lifecycle
  imports Values
begin

text \<open>
  The state enumerations of the aggregates and their transition tables
  (\<open>rfq_state.rs\<close>, \<open>negotiation_state.rs\<close>, \<open>SettlementState\<close> of \<open>trade.rs\<close>), and the
  contracts they share:
  \<^item> \<open>lifecycle\<close>: terminal states have no successor, the others have one;
  \<^item> \<open>acyclic_lifecycle\<close>: moreover some rank falls along every transition, so a state once
    left is never entered again;
  \<^item> \<open>coded_enum\<close>: the numeric code of a state and the fallible conversion back;
  \<^item> \<open>aggregate\<close>: an entity whose methods only move its state along the table.
\<close>

section \<open>Contracts\<close>

locale lifecycle =
  fixes can :: "'s \<Rightarrow> 's \<Rightarrow> bool" and terminal :: "'s \<Rightarrow> bool"
  assumes terminal_stuck: "terminal s \<Longrightarrow> \<not> can s t"
    and progress: "\<not> terminal s \<Longrightarrow> \<exists>t. can s t"
begin

lemma terminal_iff: "terminal s \<longleftrightarrow> (\<forall>t. \<not> can s t)"
  using terminal_stuck progress by blast

lemma terminal_absorbing: "can\<^sup>*\<^sup>* s t \<Longrightarrow> terminal s \<Longrightarrow> t = s"
  by (induction rule: converse_rtranclp_induct) (auto simp: terminal_stuck)

end

locale acyclic_lifecycle = lifecycle can terminal for can :: "'s \<Rightarrow> 's \<Rightarrow> bool" and terminal +
  fixes rank :: "'s \<Rightarrow> nat"
  assumes rank_falls: "can s t \<Longrightarrow> rank t < rank s"
begin

lemma rank_falls_plus: "can\<^sup>+\<^sup>+ s t \<Longrightarrow> rank t < rank s"
  by (induction rule: tranclp_induct) (auto dest: rank_falls)

lemma never_reentered: "\<not> can\<^sup>+\<^sup>+ s s"
  using rank_falls_plus by blast

lemma path_length: "(can ^^ n) s t \<Longrightarrow> n + rank t \<le> rank s"
  by (induction n arbitrary: t) (fastforce dest: rank_falls)+

lemma reaches_terminal: "\<exists>t. can\<^sup>*\<^sup>* s t \<and> terminal t"
proof (induction "rank s" arbitrary: s rule: less_induct)
  case less
  show ?case
  proof (cases "terminal s")
    case False
    then obtain u where "can s u" using progress by blast
    with less[OF rank_falls[OF this]] show ?thesis
      by (meson converse_rtranclp_into_rtranclp)
  qed auto
qed

end

locale coded_enum =
  fixes as_u8 :: "'s \<Rightarrow> u8" and try_from :: "u8 \<Rightarrow> 'e + 's"
  assumes of_code: "try_from (as_u8 s) = Inr s"
    and code_of: "try_from v = Inr s \<Longrightarrow> as_u8 s = v"
begin

lemma code_inj: "as_u8 s = as_u8 t \<longleftrightarrow> s = t"
  by (metis of_code sum.inject(2))

lemma decode_fails_iff: "(\<exists>e. try_from v = Inl e) \<longleftrightarrow> v \<notin> range as_u8"
  by (metis code_of of_code old.sum.exhaust rangeE rangeI sum.distinct(1))

end

locale aggregate = lifecycle can terminal for can :: "'s \<Rightarrow> 's \<Rightarrow> bool" and terminal +
  fixes ap :: "'c \<Rightarrow> ('a, 'e, unit) op" and st :: "'a \<Rightarrow> 's"
  assumes moves: "st (snd (ap c a)) = st a \<or> can (st a) (st (snd (ap c a)))"
begin

lemma run_reach: "can\<^sup>*\<^sup>* (st a) (st (run_ops ap cs a))"
proof (induction cs arbitrary: a)
  case (Cons c cs)
  have "can\<^sup>*\<^sup>* (st a) (st (snd (ap c a)))" using moves [of c a] by auto
  with Cons.IH show ?case by (auto intro: rtranclp_trans)
qed simp

lemma terminal_run: "terminal (st a) \<Longrightarrow> st (run_ops ap cs a) = st a"
  using run_reach terminal_absorbing by blast

end

section \<open>\<open>RfqState\<close>\<close>

datatype rfq_state = Created | QuoteRequesting | QuotesReceived | ClientSelecting | Executing
  | Executed | Failed | Cancelled | Expired | Negotiating

fun rs_is_terminal :: "rfq_state \<Rightarrow> bool" where
  "rs_is_terminal Executed = True"
| "rs_is_terminal Failed = True"
| "rs_is_terminal Cancelled = True"
| "rs_is_terminal Expired = True"
| "rs_is_terminal _ = False"

definition rs_can_transition_to :: "rfq_state \<Rightarrow> rfq_state \<Rightarrow> bool" where
  "rs_can_transition_to s target \<longleftrightarrow> (s, target) \<in> set
     [(Created, QuoteRequesting), (Created, Cancelled), (Created, Expired),
      (QuoteRequesting, QuotesReceived), (QuoteRequesting, Failed),
      (QuoteRequesting, Cancelled), (QuoteRequesting, Expired),
      (QuotesReceived, ClientSelecting), (QuotesReceived, Negotiating),
      (QuotesReceived, Failed), (QuotesReceived, Cancelled), (QuotesReceived, Expired),
      (Negotiating, ClientSelecting), (Negotiating, Failed),
      (Negotiating, Cancelled), (Negotiating, Expired),
      (ClientSelecting, Executing), (ClientSelecting, Failed),
      (ClientSelecting, Cancelled), (ClientSelecting, Expired),
      (Executing, Executed), (Executing, Failed)]"

fun rs_valid_transitions :: "rfq_state \<Rightarrow> rfq_state list" where
  "rs_valid_transitions Created = [QuoteRequesting, Cancelled, Expired]"
| "rs_valid_transitions QuoteRequesting = [QuotesReceived, Failed, Cancelled, Expired]"
| "rs_valid_transitions QuotesReceived =
     [ClientSelecting, Negotiating, Failed, Cancelled, Expired]"
| "rs_valid_transitions Negotiating = [ClientSelecting, Failed, Cancelled, Expired]"
| "rs_valid_transitions ClientSelecting = [Executing, Failed, Cancelled, Expired]"
| "rs_valid_transitions Executing = [Executed, Failed]"
| "rs_valid_transitions _ = []"

definition rs_is_active :: "rfq_state \<Rightarrow> bool" where
  "rs_is_active s = (\<not> rs_is_terminal s)"

definition rs_is_awaiting_quotes :: "rfq_state \<Rightarrow> bool" where
  "rs_is_awaiting_quotes s \<longleftrightarrow> s = QuoteRequesting"

definition rs_has_quotes :: "rfq_state \<Rightarrow> bool" where
  "rs_has_quotes s \<longleftrightarrow>
     s \<in> set [QuotesReceived, Negotiating, ClientSelecting, Executing, Executed]"

definition rs_is_negotiating :: "rfq_state \<Rightarrow> bool" where
  "rs_is_negotiating s \<longleftrightarrow> s = Negotiating"

definition rs_is_success :: "rfq_state \<Rightarrow> bool" where
  "rs_is_success s \<longleftrightarrow> s = Executed"

definition rs_is_failure :: "rfq_state \<Rightarrow> bool" where
  "rs_is_failure s \<longleftrightarrow> s \<in> set [Failed, Cancelled, Expired]"

fun rs_as_u8 :: "rfq_state \<Rightarrow> u8" where
  "rs_as_u8 Created = 0"
| "rs_as_u8 QuoteRequesting = 1"
| "rs_as_u8 QuotesReceived = 2"
| "rs_as_u8 ClientSelecting = 3"
| "rs_as_u8 Executing = 4"
| "rs_as_u8 Executed = 5"
| "rs_as_u8 Failed = 6"
| "rs_as_u8 Cancelled = 7"
| "rs_as_u8 Expired = 8"
| "rs_as_u8 Negotiating = 9"

datatype invalid_rfq_state_error = InvalidRfqStateError u8

definition rs_try_from :: "u8 \<Rightarrow> invalid_rfq_state_error + rfq_state" where
  "rs_try_from v =
     (if v = 0 then Inr Created
      else if v = 1 then Inr QuoteRequesting
      else if v = 2 then Inr QuotesReceived
      else if v = 3 then Inr ClientSelecting
      else if v = 4 then Inr Executing
      else if v = 5 then Inr Executed
      else if v = 6 then Inr Failed
      else if v = 7 then Inr Cancelled
      else if v = 8 then Inr Expired
      else if v = 9 then Inr Negotiating
      else Inl (InvalidRfqStateError v))"

fun rs_display :: "rfq_state \<Rightarrow> string" where
  "rs_display Created = ''CREATED''"
| "rs_display QuoteRequesting = ''QUOTE_REQUESTING''"
| "rs_display QuotesReceived = ''QUOTES_RECEIVED''"
| "rs_display ClientSelecting = ''CLIENT_SELECTING''"
| "rs_display Executing = ''EXECUTING''"
| "rs_display Executed = ''EXECUTED''"
| "rs_display Failed = ''FAILED''"
| "rs_display Cancelled = ''CANCELLED''"
| "rs_display Expired = ''EXPIRED''"
| "rs_display Negotiating = ''NEGOTIATING''"

instantiation rfq_state :: enum
begin

definition enum_rfq_state :: "rfq_state list" where
  "enum_rfq_state = [Created, QuoteRequesting, QuotesReceived, ClientSelecting, Executing,
     Executed, Failed, Cancelled, Expired, Negotiating]"

definition enum_all_rfq_state :: "(rfq_state \<Rightarrow> bool) \<Rightarrow> bool" where
  "enum_all_rfq_state P \<longleftrightarrow> list_all P enum_class.enum"

definition enum_ex_rfq_state :: "(rfq_state \<Rightarrow> bool) \<Rightarrow> bool" where
  "enum_ex_rfq_state P \<longleftrightarrow> list_ex P enum_class.enum"

instance
proof
  show u: "(UNIV :: rfq_state set) = set enum_class.enum"
  proof (rule UNIV_eq_I)
    show "s \<in> set enum_class.enum" for s :: rfq_state
      by (cases s) (simp_all add: enum_rfq_state_def)
  qed
  show "distinct (enum_class.enum :: rfq_state list)"
    by (simp add: enum_rfq_state_def)
  show "enum_class.enum_all P \<longleftrightarrow> Ball UNIV P" for P :: "rfq_state \<Rightarrow> bool"
    by (simp add: u enum_all_rfq_state_def list_all_iff)
  show "enum_class.enum_ex P \<longleftrightarrow> Bex UNIV P" for P :: "rfq_state \<Rightarrow> bool"
    by (simp add: u enum_ex_rfq_state_def list_ex_iff)
qed

end

text \<open>How many transitions a request can still make at most.\<close>

fun rs_rank :: "rfq_state \<Rightarrow> nat" where
  "rs_rank Created = 6"
| "rs_rank QuoteRequesting = 5"
| "rs_rank QuotesReceived = 4"
| "rs_rank Negotiating = 3"
| "rs_rank ClientSelecting = 2"
| "rs_rank Executing = 1"
| "rs_rank _ = 0"

lemma rs_can_iff_valid: "rs_can_transition_to s t \<longleftrightarrow> t \<in> set (rs_valid_transitions s)"
  by (cases s) (auto simp: rs_can_transition_to_def)

interpretation rs: acyclic_lifecycle rs_can_transition_to rs_is_terminal rs_rank
proof
  show "\<not> rs_can_transition_to s t" if "rs_is_terminal s" for s t
    using that by (cases s) (auto simp: rs_can_iff_valid)
  show "\<exists>t. rs_can_transition_to s t" if "\<not> rs_is_terminal s" for s
    using that by (cases s) (auto simp: rs_can_iff_valid)
  show "rs_rank t < rs_rank s" if "rs_can_transition_to s t" for s t
    using that by (cases s) (auto simp: rs_can_iff_valid)
qed

interpretation rs_code: coded_enum rs_as_u8 rs_try_from
proof
  show "rs_try_from (rs_as_u8 s) = Inr s" for s
    by (cases s) (simp_all add: rs_try_from_def)
  show "rs_as_u8 s = v" if "rs_try_from v = Inr s" for v s
    using that by (auto simp: rs_try_from_def split: if_splits)
qed

section \<open>\<open>NegotiationState\<close>\<close>

datatype negotiation_state = NsOpen | NsCounterPending | NsAccepted | NsRejected | NsExpired

definition ns_is_terminal :: "negotiation_state \<Rightarrow> bool" where
  "ns_is_terminal s \<longleftrightarrow> s \<in> set [NsAccepted, NsRejected, NsExpired]"

definition ns_can_transition_to :: "negotiation_state \<Rightarrow> negotiation_state \<Rightarrow> bool" where
  "ns_can_transition_to s target \<longleftrightarrow> (s, target) \<in> set
     [(NsOpen, NsCounterPending), (NsOpen, NsAccepted), (NsOpen, NsRejected),
      (NsOpen, NsExpired),
      (NsCounterPending, NsOpen), (NsCounterPending, NsAccepted),
      (NsCounterPending, NsRejected), (NsCounterPending, NsExpired)]"

fun ns_valid_transitions :: "negotiation_state \<Rightarrow> negotiation_state list" where
  "ns_valid_transitions NsOpen = [NsCounterPending, NsAccepted, NsRejected, NsExpired]"
| "ns_valid_transitions NsCounterPending = [NsOpen, NsAccepted, NsRejected, NsExpired]"
| "ns_valid_transitions _ = []"

definition ns_is_active :: "negotiation_state \<Rightarrow> bool" where
  "ns_is_active s = (\<not> ns_is_terminal s)"

definition ns_is_pending :: "negotiation_state \<Rightarrow> bool" where
  "ns_is_pending s \<longleftrightarrow> s = NsCounterPending"

fun ns_as_u8 :: "negotiation_state \<Rightarrow> u8" where
  "ns_as_u8 NsOpen = 0"
| "ns_as_u8 NsCounterPending = 1"
| "ns_as_u8 NsAccepted = 2"
| "ns_as_u8 NsRejected = 3"
| "ns_as_u8 NsExpired = 4"

datatype invalid_negotiation_state_error = InvalidNegotiationStateError u8

definition ns_try_from :: "u8 \<Rightarrow> invalid_negotiation_state_error + negotiation_state" where
  "ns_try_from v =
     (if v = 0 then Inr NsOpen
      else if v = 1 then Inr NsCounterPending
      else if v = 2 then Inr NsAccepted
      else if v = 3 then Inr NsRejected
      else if v = 4 then Inr NsExpired
      else Inl (InvalidNegotiationStateError v))"

lemma ns_can_iff_valid: "ns_can_transition_to s t \<longleftrightarrow> t \<in> set (ns_valid_transitions s)"
  by (cases s) (auto simp: ns_can_transition_to_def)

interpretation ns: lifecycle ns_can_transition_to ns_is_terminal
proof
  show "\<not> ns_can_transition_to s t" if "ns_is_terminal s" for s t
    using that by (cases s) (auto simp: ns_can_iff_valid ns_is_terminal_def)
  show "\<exists>t. ns_can_transition_to s t" if "\<not> ns_is_terminal s" for s
    using that by (cases s) (auto simp: ns_can_iff_valid ns_is_terminal_def)
qed

interpretation ns_code: coded_enum ns_as_u8 ns_try_from
proof
  show "ns_try_from (ns_as_u8 s) = Inr s" for s
    by (cases s) (simp_all add: ns_try_from_def)
  show "ns_as_u8 s = v" if "ns_try_from v = Inr s" for v s
    using that by (auto simp: ns_try_from_def split: if_splits)
qed

section \<open>\<open>SettlementState\<close> of a trade\<close>

datatype settlement_state = SsPending | SsInProgress | SsSettled | SsFailed

definition ss_is_terminal :: "settlement_state \<Rightarrow> bool" where
  "ss_is_terminal s \<longleftrightarrow> s \<in> set [SsSettled, SsFailed]"

definition ss_can_transition_to :: "settlement_state \<Rightarrow> settlement_state \<Rightarrow> bool" where
  "ss_can_transition_to s target \<longleftrightarrow> (s, target) \<in> set
     [(SsPending, SsInProgress), (SsInProgress, SsSettled), (SsInProgress, SsFailed)]"

fun ss_as_u8 :: "settlement_state \<Rightarrow> u8" where
  "ss_as_u8 SsPending = 0"
| "ss_as_u8 SsInProgress = 1"
| "ss_as_u8 SsSettled = 2"
| "ss_as_u8 SsFailed = 3"

datatype invalid_settlement_state_error = InvalidSettlementStateError u8

definition ss_try_from :: "u8 \<Rightarrow> invalid_settlement_state_error + settlement_state" where
  "ss_try_from v =
     (if v = 0 then Inr SsPending
      else if v = 1 then Inr SsInProgress
      else if v = 2 then Inr SsSettled
      else if v = 3 then Inr SsFailed
      else Inl (InvalidSettlementStateError v))"

fun ss_rank :: "settlement_state \<Rightarrow> nat" where
  "ss_rank SsPending = 2"
| "ss_rank SsInProgress = 1"
| "ss_rank _ = 0"

interpretation ss: acyclic_lifecycle ss_can_transition_to ss_is_terminal ss_rank
proof
  show "\<not> ss_can_transition_to s t" if "ss_is_terminal s" for s t
    using that by (cases s) (auto simp: ss_can_transition_to_def ss_is_terminal_def)
  show "\<exists>t. ss_can_transition_to s t" if "\<not> ss_is_terminal s" for s
    using that by (cases s) (auto simp: ss_can_transition_to_def ss_is_terminal_def)
  show "ss_rank t < ss_rank s" if "ss_can_transition_to s t" for s t
    using that by (cases s) (auto simp: ss_can_transition_to_def)
qed

interpretation ss_code: coded_enum ss_as_u8 ss_try_from
proof
  show "ss_try_from (ss_as_u8 s) = Inr s" for s
    by (cases s) (simp_all add: ss_try_from_def)
  show "ss_as_u8 s = v" if "ss_try_from v = Inr s" for v s
    using that by (auto simp: ss_try_from_def split: if_splits)
qed

end
