(* ===== verification/Errors.thy ===== *)
theory Errors
  imports Lifecycle
begin

text \<open>
  \<open>DomainError\<close> of \<open>src/domain/errors/domain_error.rs\<close>. A message built with \<open>format!\<close> is
  kept as its format string and arguments: how identifiers and decimals print is the
  business of the packages that own them.
\<close>

datatype 'd arg = ArgStr string | ArgNat nat | ArgUuid uuid | ArgDec 'd
    | ArgPrice "'d price" | ArgQuantity "'d quantity"
    | ArgRfqState rfq_state | ArgNegotiationState negotiation_state
    | ArgSettlementState settlement_state | ArgMsg "'d msg"
and 'd msg = Txt string | Fmt string "'d arg list"

datatype (plugins del: quickcheck_random quickcheck_exhaustive quickcheck_full_exhaustive
    quickcheck_narrowing quickcheck_bounded_forall size transfer lifting) 'd domain_error =
    InvalidQuantity "'d msg"
  | InvalidPrice "'d msg"
  | ValidationError "'d msg"
  | QuoteExpired "'d msg"
  | QuoteNotFound "'d msg"
  | InsufficientLiquidity "'d quantity" "'d quantity"
  | MinQuantityNotMet "'d quantity" "'d quantity"
  | AllocationMismatch "'d quantity" "'d quantity"
  | NoReferencePrice
  | DivisionByZero
  | PriceOutOfBounds "'d price" "'d price" 'd 'd
  | InvalidStateTransition rfq_state rfq_state
  | GenericStateTransitionError "'d msg" "'d msg"
  | InvalidState "'d msg"
  | OperationNotAllowed "'d msg"
  | InvalidTradeStateForExecution "'d msg" "'d msg"
  | QuoteLocked "'d msg"
  | LockAcquisitionFailed "'d msg"
  | ConflictDetected "'d msg"
  | RiskCheckFailed "'d msg"
  | UnauthorizedCounterparty "'d msg"
  | ValidationFailed "'d msg"
  | InvalidNegotiationStateTransition negotiation_state negotiation_state
  | MaxNegotiationRoundsReached u8
  | NoPriceImprovement "'d price" "'d price"
  | LastLookRejected "'d msg"
  | LastLookTimeout "'d msg"
  | AcceptanceTimeout "'d msg"
  | CollateralLockFailed "'d msg"
  | SettlementFailed "'d msg"
  | PositionUpdateFailed "'d msg"
  | PriceBoundsVerificationFailed "'d msg"
  | InvalidPackageQuote "'d msg"
  | InconsistentLegPrices nat "'d msg"
  | MultiLegExecutionFailed nat "'d msg" "'d msg" nat
  | RollbackFailed "'d msg" "'d msg" nat
  | LegExecutionTimeout nat "'d msg" u64
  | CapacityExceeded "'d msg" "'d msg"
  | ReservationNotFound "'d msg" "'d msg"
  | CapacityRepositoryError "'d msg"
  | CapacityOverflow "'d msg"
  | CapacityUnderflow "'d msg"
  | FeeCalculationFailed "'d msg"
  | ConfirmationFailed "'d msg" "'d msg"
  | InvalidNotificationPreferences "'d msg"
  | SchemaNotFound "'d msg" "'d msg"
  | SchemaAlreadyRegistered "'d msg" "'d msg"
  | SchemaGenerationFailed "'d msg"

text \<open>\<open>Display for DomainError\<close>.\<close>

primrec de_display :: "'d domain_error \<Rightarrow> 'd msg" where
  "de_display (InvalidQuantity m) = Fmt ''invalid quantity: {}'' [ArgMsg m]"
| "de_display (InvalidPrice m) = Fmt ''invalid price: {}'' [ArgMsg m]"
| "de_display (ValidationError m) = Fmt ''validation error: {}'' [ArgMsg m]"
| "de_display (QuoteExpired m) = Fmt ''quote expired: {}'' [ArgMsg m]"
| "de_display (QuoteNotFound m) = Fmt ''quote not found: {}'' [ArgMsg m]"
| "de_display (InsufficientLiquidity a b) =
     Fmt ''insufficient liquidity: requested {}, available {}'' [ArgQuantity a, ArgQuantity b]"
| "de_display (MinQuantityNotMet a b) =
     Fmt ''minimum quantity not met: filled {}, minimum {}'' [ArgQuantity a, ArgQuantity b]"
| "de_display (AllocationMismatch a b) =
     Fmt ''allocation mismatch: allocated {}, target {}'' [ArgQuantity a, ArgQuantity b]"
| "de_display NoReferencePrice = Txt ''no reference price available''"
| "de_display DivisionByZero = Txt ''division by zero''"
| "de_display (PriceOutOfBounds a b c d) = Fmt
     ''price out of bounds: proposed {}, reference {}, deviation {}%, max tolerance {}%''
     [ArgPrice a, ArgPrice b, ArgDec c, ArgDec d]"
| "de_display (InvalidStateTransition a b) =
     Fmt ''invalid state transition from {} to {}'' [ArgRfqState a, ArgRfqState b]"
| "de_display (GenericStateTransitionError a b) =
     Fmt ''invalid state transition from {} to {}'' [ArgMsg a, ArgMsg b]"
| "de_display (InvalidState m) = Fmt ''invalid state: {}'' [ArgMsg m]"
| "de_display (OperationNotAllowed m) = Fmt ''operation not allowed: {}'' [ArgMsg m]"
| "de_display (InvalidTradeStateForExecution a b) =
     Fmt ''invalid trade state for execution: expected {}, got {}'' [ArgMsg a, ArgMsg b]"
| "de_display (QuoteLocked m) = Fmt ''quote locked: {}'' [ArgMsg m]"
| "de_display (LockAcquisitionFailed m) = Fmt ''lock acquisition failed: {}'' [ArgMsg m]"
| "de_display (ConflictDetected m) = Fmt ''conflict detected: {}'' [ArgMsg m]"
| "de_display (RiskCheckFailed m) = Fmt ''risk check failed: {}'' [ArgMsg m]"
| "de_display (UnauthorizedCounterparty m) = Fmt ''unauthorized counterparty: {}'' [ArgMsg m]"
| "de_display (ValidationFailed m) = Fmt ''validation failed: {}'' [ArgMsg m]"
| "de_display (InvalidNegotiationStateTransition a b) = Fmt
     ''invalid negotiation state transition from {} to {}''
     [ArgNegotiationState a, ArgNegotiationState b]"
| "de_display (MaxNegotiationRoundsReached k) =
     Fmt ''maximum negotiation rounds ({}) reached'' [ArgNat (unat k)]"
| "de_display (NoPriceImprovement a b) =
     Fmt ''no price improvement: previous {}, proposed {}'' [ArgPrice a, ArgPrice b]"
| "de_display (LastLookRejected m) = Fmt ''last-look rejected: {}'' [ArgMsg m]"
| "de_display (LastLookTimeout m) = Fmt ''last-look timeout: {}'' [ArgMsg m]"
| "de_display (AcceptanceTimeout m) = Fmt ''acceptance timeout: {}'' [ArgMsg m]"
| "de_display (CollateralLockFailed m) = Fmt ''collateral lock failed: {}'' [ArgMsg m]"
| "de_display (SettlementFailed m) = Fmt ''settlement failed: {}'' [ArgMsg m]"
| "de_display (PositionUpdateFailed m) = Fmt ''position update failed: {}'' [ArgMsg m]"
| "de_display (PriceBoundsVerificationFailed m) =
     Fmt ''price bounds verification failed: {}'' [ArgMsg m]"
| "de_display (InvalidPackageQuote m) = Fmt ''invalid package quote: {}'' [ArgMsg m]"
| "de_display (InconsistentLegPrices i m) =
     Fmt ''inconsistent leg prices at index {}: {}'' [ArgNat i, ArgMsg m]"
| "de_display (MultiLegExecutionFailed i ins m k) = Fmt
     ''multi-leg execution failed at leg {} ({}): {}, rolled back {} legs''
     [ArgNat i, ArgMsg ins, ArgMsg m, ArgNat k]"
| "de_display (RollbackFailed a b k) = Fmt
     (''rollback failed: original error '' @ [CHR 0x27] @ ''{}'' @ [CHR 0x27] @ '', rollback error ''
       @ [CHR 0x27] @ ''{}'' @ [CHR 0x27] @ '', {} legs partially rolled back'')
     [ArgMsg a, ArgMsg b, ArgNat k]"
| "de_display (LegExecutionTimeout i ins t) =
     Fmt ''leg {} ({}) execution timed out after {}ms'' [ArgNat i, ArgMsg ins, ArgNat (unat t)]"
| "de_display (CapacityExceeded m r) =
     Fmt ''capacity exceeded for MM {}: {}'' [ArgMsg m, ArgMsg r]"
| "de_display (ReservationNotFound m r) =
     Fmt ''reservation not found for MM {} and RFQ {}'' [ArgMsg m, ArgMsg r]"
| "de_display (CapacityRepositoryError m) = Fmt ''capacity repository error: {}'' [ArgMsg m]"
| "de_display (CapacityOverflow m) = Fmt ''capacity counter overflow: {}'' [ArgMsg m]"
| "de_display (CapacityUnderflow m) = Fmt ''capacity counter underflow: {}'' [ArgMsg m]"
| "de_display (FeeCalculationFailed m) = Fmt ''fee calculation failed: {}'' [ArgMsg m]"
| "de_display (ConfirmationFailed c r) =
     Fmt ''confirmation failed on channel {}: {}'' [ArgMsg c, ArgMsg r]"
| "de_display (InvalidNotificationPreferences m) =
     Fmt ''invalid notification preferences: {}'' [ArgMsg m]"
| "de_display (SchemaNotFound a b) = Fmt ''schema not found: {} v{}'' [ArgMsg a, ArgMsg b]"
| "de_display (SchemaAlreadyRegistered a b) =
     Fmt ''schema already registered: {} v{}'' [ArgMsg a, ArgMsg b]"
| "de_display (SchemaGenerationFailed m) = Fmt ''schema generation failed: {}'' [ArgMsg m]"

text \<open>An arithmetic error, printed and converted by \<open>?\<close> (\<open>From<ArithmeticError>\<close>).\<close>

definition arith_error_display :: "arithmetic_error \<Rightarrow> 'd msg" where
  "arith_error_display e = (case e of
       AeOverflow \<Rightarrow> Txt ''arithmetic overflow''
     | AeUnderflow \<Rightarrow> Txt ''arithmetic underflow''
     | AeDivisionByZero \<Rightarrow> Txt ''division by zero''
     | AeInvalidValue s \<Rightarrow> Fmt ''invalid value: {}'' [ArgStr s])"

definition de_of_arith :: "arithmetic_error + 'a \<Rightarrow> 'd domain_error + 'a" where
  "de_of_arith r = (case r of Inl e \<Rightarrow> Inl (ValidationError (arith_error_display e)) | Inr a \<Rightarrow> Inr a)"

lemma de_of_arith_Inr_iff [simp]: "de_of_arith r = Inr a \<longleftrightarrow> r = Inr a"
  by (cases r) (auto simp: de_of_arith_def)

type_synonym ('s, 'd) mutation = "('s, 'd domain_error, unit) op"

end
