(* ===== verification/Instruments.thy ===== *)
theory Instruments
  imports Values
begin

text \<open>
  \<open>symbol.rs\<close>, \<open>instrument.rs\<close> and the enumerations of \<open>enums.rs\<close> and \<open>anonymity.rs\<close> an
  RFQ carries. Strings are lists of ASCII characters; case conversion and trimming are
  the ASCII part of Rust's Unicode-aware functions.
\<close>

section \<open>Characters\<close>

definition code :: "char \<Rightarrow> nat" where
  "code c = of_char c"

definition is_lower :: "char \<Rightarrow> bool" where
  "is_lower c \<longleftrightarrow> 97 \<le> code c \<and> code c \<le> 122"

definition is_upper :: "char \<Rightarrow> bool" where
  "is_upper c \<longleftrightarrow> 65 \<le> code c \<and> code c \<le> 90"

definition is_digit :: "char \<Rightarrow> bool" where
  "is_digit c \<longleftrightarrow> 48 \<le> code c \<and> code c \<le> 57"

definition is_alnum :: "char \<Rightarrow> bool" where
  "is_alnum c \<longleftrightarrow> is_lower c \<or> is_upper c \<or> is_digit c"

definition is_space :: "char \<Rightarrow> bool" where
  "is_space c \<longleftrightarrow> code c = 32 \<or> (9 \<le> code c \<and> code c \<le> 13)"

definition to_upper :: "char \<Rightarrow> char" where
  "to_upper c = (if is_lower c then char_of (code c - 32) else c)"

definition trim :: "string \<Rightarrow> string" where
  "trim s = rev (dropWhile is_space (rev (dropWhile is_space s)))"

lemma code_slash [simp]: "code CHR ''/'' = 47"
  by (simp add: code_def)

lemma code_to_upper: "code (to_upper c) = (if is_lower c then code c - 32 else code c)"
proof -
  have "code c < 256" by (simp add: code_def)
  then have "(code c - 32) mod 256 = code c - 32" by simp
  then show ?thesis by (simp add: to_upper_def code_def)
qed

lemma is_alnum_not_space: "is_alnum c \<Longrightarrow> \<not> is_space c"
  by (auto simp: is_alnum_def is_lower_def is_upper_def is_digit_def is_space_def)

lemma to_upper_not_lower: "\<not> is_lower (to_upper c)"
  by (auto simp: is_lower_def code_to_upper)

lemma to_upper_id: "\<not> is_lower c \<Longrightarrow> to_upper c = c"
  by (simp add: to_upper_def)

lemma map_to_upper_id: "\<forall>c\<in>set s. \<not> is_lower c \<Longrightarrow> map to_upper s = s"
  by (induction s) (simp_all add: to_upper_id)

lemma trim_id:
  assumes "s \<noteq> []" "\<not> is_space (hd s)" "\<not> is_space (last s)"
  shows "trim s = s"
proof -
  have "dropWhile is_space s = s" using assms by (cases s) auto
  moreover have "dropWhile is_space (rev s) = rev s"
    using assms by (cases s rule: rev_cases) auto
  ultimately show ?thesis by (simp add: trim_def)
qed

section \<open>\<open>Symbol\<close>\<close>

datatype symbol_error = SymEmpty | SymInvalidFormat string | SymEmptyBaseAsset
  | SymEmptyQuoteAsset | SymInvalidCharacters string

record symbol =
  sym_value :: string
  sym_separator_index :: nat

definition separator :: char where
  "separator = CHR ''/''"

definition symbol_new :: "string \<Rightarrow> symbol_error + symbol" where
  "symbol_new raw =
     (let value = trim raw in
      if value = [] then Inl SymEmpty
      else
        let normalized = map to_upper value in
        if count_list normalized separator \<noteq> 1 then Inl (SymInvalidFormat value)
        else
          let sep = length (takeWhile (\<lambda>c. c \<noteq> separator) normalized);
              base = take sep normalized;
              quoted = drop (sep + 1) normalized in
          if base = [] then Inl SymEmptyBaseAsset
          else if quoted = [] then Inl SymEmptyQuoteAsset
          else if \<not> list_all is_alnum base then Inl (SymInvalidCharacters base)
          else if \<not> list_all is_alnum quoted then Inl (SymInvalidCharacters quoted)
          else Inr \<lparr> sym_value = normalized, sym_separator_index = sep \<rparr>)"

definition base_asset :: "symbol \<Rightarrow> string" where
  "base_asset s = take (sym_separator_index s) (sym_value s)"

definition quote_asset :: "symbol \<Rightarrow> string" where
  "quote_asset s = drop (sym_separator_index s + 1) (sym_value s)"

definition symbol_invert :: "symbol \<Rightarrow> symbol" where
  "symbol_invert s =
     \<lparr> sym_value = quote_asset s @ ''/'' @ base_asset s,
       sym_separator_index = length (sym_value s) - sym_separator_index s - 1 \<rparr>"

text \<open>What every constructed symbol satisfies: two upper-case alphanumeric names and a slash.\<close>

definition asset_name :: "string \<Rightarrow> bool" where
  "asset_name a \<longleftrightarrow> a \<noteq> [] \<and> (\<forall>c\<in>set a. is_alnum c \<and> \<not> is_lower c)"

definition symbol_wf :: "symbol \<Rightarrow> bool" where
  "symbol_wf s \<longleftrightarrow> (\<exists>b q. asset_name b \<and> asset_name q
     \<and> s = \<lparr> sym_value = b @ [separator] @ q, sym_separator_index = length b \<rparr>)"

lemma asset_name_no_separator: "asset_name a \<Longrightarrow> separator \<notin> set a"
  by (auto simp: asset_name_def separator_def is_alnum_def is_lower_def is_upper_def is_digit_def)

lemma count_one_split:
  "count_list s x = 1 \<Longrightarrow> s = takeWhile (\<lambda>c. c \<noteq> x) s @ [x]
     @ drop (length (takeWhile (\<lambda>c. c \<noteq> x) s) + 1) s
   \<and> x \<notin> set (drop (length (takeWhile (\<lambda>c. c \<noteq> x) s) + 1) s)"
  by (induction s) (auto simp: count_list_0_iff split: if_splits)

lemma takeWhile_take: "take (length (takeWhile P s)) s = takeWhile P s"
  by (metis takeWhile_eq_take)

lemma symbol_new_wf:
  assumes "symbol_new raw = Inr s"
  shows "symbol_wf s"
proof -
  let ?n = "map to_upper (trim raw)"
  let ?k = "length (takeWhile (\<lambda>c. c \<noteq> separator) ?n)"
  let ?b = "take ?k ?n" and ?q = "drop (?k + 1) ?n"
  from assms have one: "count_list ?n separator = 1"
    and b: "?b \<noteq> []" "list_all is_alnum ?b" and q: "?q \<noteq> []" "list_all is_alnum ?q"
    and s: "s = \<lparr> sym_value = ?n, sym_separator_index = ?k \<rparr>"
    by (auto simp: symbol_new_def Let_def split: if_splits)
  have up: "\<forall>c\<in>set ?n. \<not> is_lower c" by (auto simp: to_upper_not_lower)
  have "asset_name ?b" "asset_name ?q"
    using b q up set_take_subset [of ?k ?n] set_drop_subset [of "?k + 1" ?n]
    by (auto simp: asset_name_def list_all_iff dest!: subsetD)
  moreover have "?n = ?b @ [separator] @ ?q" "?k = length ?b"
    using count_one_split [OF one] by (simp_all add: takeWhile_take)
  ultimately show ?thesis unfolding symbol_wf_def using s by metis
qed

text \<open>Parsing what a symbol prints gives the symbol back.\<close>

lemma symbol_wf_reparses:
  assumes "symbol_wf s"
  shows "symbol_new (sym_value s) = Inr s"
proof -
  obtain b q where b: "asset_name b" and q: "asset_name q"
    and s: "s = \<lparr> sym_value = b @ [separator] @ q, sym_separator_index = length b \<rparr>"
    using assms by (auto simp: symbol_wf_def)
  let ?v = "b @ [separator] @ q"
  have ends: "hd ?v \<in> set b" "last ?v \<in> set q" using b q by (auto simp: asset_name_def hd_append)
  have t: "trim ?v = ?v"
    using ends b q by (intro trim_id) (auto simp: asset_name_def dest: is_alnum_not_space)
  have u: "map to_upper ?v = ?v"
    using b q by (intro map_to_upper_id) (auto simp: asset_name_def separator_def is_lower_def)
  have nb: "separator \<notin> set b" and nq: "separator \<notin> set q"
    using b q by (auto dest: asset_name_no_separator)
  have c: "count_list ?v separator = 1" using nb nq by simp
  have w: "takeWhile (\<lambda>c. c \<noteq> separator) ?v = b" using nb by (induction b) auto
  have "list_all is_alnum b" "list_all is_alnum q" "b \<noteq> []" "q \<noteq> []"
    using b q by (auto simp: asset_name_def list_all_iff)
  then show ?thesis
    unfolding s symbol_new_def by (simp add: t [simplified] u [simplified] c [simplified] w [simplified])
qed

lemma symbol_invert_wf: "symbol_wf s \<Longrightarrow> symbol_wf (symbol_invert s)"
  by (auto simp: symbol_wf_def symbol_invert_def base_asset_def quote_asset_def separator_def)

lemma symbol_invert_swaps:
  assumes "symbol_wf s"
  shows "base_asset (symbol_invert s) = quote_asset s"
    and "quote_asset (symbol_invert s) = base_asset s"
  using assms by (auto simp: symbol_wf_def symbol_invert_def base_asset_def quote_asset_def)

lemma symbol_invert_involutive: "symbol_wf s \<Longrightarrow> symbol_invert (symbol_invert s) = s"
  by (auto simp: symbol_wf_def symbol_invert_def base_asset_def quote_asset_def separator_def)

section \<open>Enumerations\<close>

datatype asset_class = CryptoSpot | CryptoDerivs | Stock | Forex | Commodity

datatype blockchain = Ethereum | Polygon | Arbitrum | Optimism | BaseChain

definition chain_id :: "blockchain \<Rightarrow> u64" where
  "chain_id c = (case c of Ethereum \<Rightarrow> 1 | Polygon \<Rightarrow> 137 | Arbitrum \<Rightarrow> 42161 | Optimism \<Rightarrow> 10
     | BaseChain \<Rightarrow> 8453)"

definition from_chain_id :: "u64 \<Rightarrow> blockchain option" where
  "from_chain_id v =
     (if v = 1 then Some Ethereum
      else if v = 137 then Some Polygon
      else if v = 42161 then Some Arbitrum
      else if v = 10 then Some Optimism
      else if v = 8453 then Some BaseChain
      else None)"

definition blockchain_as_u8 :: "blockchain \<Rightarrow> u8" where
  "blockchain_as_u8 c = (case c of Ethereum \<Rightarrow> 0 | Polygon \<Rightarrow> 1 | Arbitrum \<Rightarrow> 2 | Optimism \<Rightarrow> 3
     | BaseChain \<Rightarrow> 4)"

definition blockchain_from_u8 :: "u8 \<Rightarrow> blockchain option" where
  "blockchain_from_u8 v =
     (if v = 0 then Some Ethereum
      else if v = 1 then Some Polygon
      else if v = 2 then Some Arbitrum
      else if v = 3 then Some Optimism
      else if v = 4 then Some BaseChain
      else None)"

lemma from_chain_id_chain_id [simp]: "from_chain_id (chain_id c) = Some c"
  by (cases c) (simp_all add: chain_id_def from_chain_id_def)

lemma blockchain_from_u8_as_u8 [simp]: "blockchain_from_u8 (blockchain_as_u8 c) = Some c"
  by (cases c) (simp_all add: blockchain_as_u8_def blockchain_from_u8_def)

datatype settlement_method = OnChain blockchain | OffChain

definition settlement_method_default :: settlement_method where
  "settlement_method_default = OnChain Ethereum"

datatype anonymity_level = Transparent | SemiAnonymous | FullAnonymous

definition al_is_anonymous :: "anonymity_level \<Rightarrow> bool" where
  "al_is_anonymous l \<longleftrightarrow> l \<noteq> Transparent"

section \<open>\<open>Instrument\<close>\<close>

record 'd instrument =
  ins_symbol :: symbol
  ins_asset_class :: asset_class
  ins_settlement_method :: settlement_method
  ins_min_quantity :: "'d quantity option"
  ins_price_decimals :: "u8 option"

definition instrument_new ::
    "symbol \<Rightarrow> asset_class \<Rightarrow> settlement_method \<Rightarrow> 'd instrument" where
  "instrument_new s a m = \<lparr> ins_symbol = s, ins_asset_class = a, ins_settlement_method = m,
     ins_min_quantity = None, ins_price_decimals = None \<rparr>"

text \<open>\<open>Instrument::builder(symbol, class).build()\<close> with the builder's defaults.\<close>

definition instrument_default_build :: "symbol \<Rightarrow> asset_class \<Rightarrow> 'd instrument" where
  "instrument_default_build s a = \<lparr> ins_symbol = s, ins_asset_class = a,
     ins_settlement_method = settlement_method_default,
     ins_min_quantity = None, ins_price_decimals = None \<rparr>"

text \<open>
  A symbol that was parsed is canonical: it is a non-empty alphanumeric base, one slash and a
  non-empty alphanumeric quote asset, with the index of the slash, in upper case; and its
  text parses to the same symbol again.
\<close>

theorem parsed_symbol_is_canonical:
  assumes "symbol_new raw = Inr s"
  shows "symbol_wf s \<and> symbol_new (sym_value s) = Inr s"
  using symbol_new_wf [OF assms] symbol_wf_reparses by blast

lemma parsed_symbol_is_canonical_witness:
  "\<exists>s. symbol_new '' btc/usd '' = Inr s \<and> symbol_wf s \<and> symbol_new (sym_value s) = Inr s"
proof -
  have "symbol_new '' btc/usd '' = Inr \<lparr> sym_value = ''BTC/USD'', sym_separator_index = 3 \<rparr>" by code_simp
  from parsed_symbol_is_canonical [OF this] this show ?thesis by blast
qed

end
