(* ===== verification/Quotes.thy ===== *)
theory Quotes
  imports Errors Instruments
begin

text \<open>
  \<open>src/domain/entities/quote.rs\<close> and \<open>counter_quote.rs\<close>: the offers of venues and the
  counter-offers of a negotiation, with their validating constructors. A fresh UUID and
  the readings of the clock are arguments: \<open>now_check\<close> for the expiry check, \<open>now_created\<close>
  for the creation stamp.
\<close>

section \<open>\<open>Quote\<close>\<close>

text \<open>The metadata of a quote, a hash map of strings.\<close>

type_synonym quote_metadata = "string \<rightharpoonup> string"

record 'd quote =
  quote_id :: uuid
  quote_rfq_id :: uuid
  quote_venue_id :: venue_id
  quote_price :: "'d price"
  quote_quantity :: "'d quantity"
  quote_commission :: "'d price option"
  quote_valid_until :: timestamp
  quote_metadata :: "quote_metadata option"
  quote_created_at :: timestamp
  quote_last_look_required :: bool

definition quote_validate_price :: "'d dec \<Rightarrow> 'd price \<Rightarrow> 'd domain_error + unit" where
  "quote_validate_price D p =
     (if \<not> price_is_positive D p then Inl (InvalidPrice (Txt ''price must be positive''))
      else Inr ())"

definition quote_validate_quantity :: "'d dec \<Rightarrow> 'd quantity \<Rightarrow> 'd domain_error + unit" where
  "quote_validate_quantity D q =
     (if \<not> quantity_is_positive D q
      then Inl (InvalidQuantity (Txt ''quantity must be positive''))
      else Inr ())"

definition quote_validate_expiry :: "timestamp \<Rightarrow> timestamp \<Rightarrow> 'd domain_error + unit" where
  "quote_validate_expiry now t =
     (if ts_is_expired now t then Inl (QuoteExpired (Txt ''valid_until must be in the future''))
      else Inr ())"

definition quote_new :: "'d dec \<Rightarrow> uuid \<Rightarrow> timestamp \<Rightarrow> timestamp \<Rightarrow> uuid \<Rightarrow> venue_id
    \<Rightarrow> 'd price \<Rightarrow> 'd quantity \<Rightarrow> timestamp \<Rightarrow> 'd domain_error + 'd quote" where
  "quote_new D fresh now_check now_created rid venue p q valid_until =
     rbind (quote_validate_price D p) (\<lambda>_.
     rbind (quote_validate_quantity D q) (\<lambda>_.
     rbind (quote_validate_expiry now_check valid_until) (\<lambda>_.
       Inr \<lparr> quote_id = fresh, quote_rfq_id = rid, quote_venue_id = venue, quote_price = p,
         quote_quantity = q, quote_commission = None, quote_valid_until = valid_until,
         quote_metadata = None, quote_created_at = now_created,
         quote_last_look_required = False \<rparr>)))"

definition quote_is_expired :: "timestamp \<Rightarrow> 'd quote \<Rightarrow> bool" where
  "quote_is_expired now q = ts_is_expired now (quote_valid_until q)"

definition quote_with_last_look_required :: "'d quote \<Rightarrow> bool \<Rightarrow> 'd quote" where
  "quote_with_last_look_required q b = q\<lparr>quote_last_look_required := b\<rparr>"

definition quote_time_to_expiry :: "timestamp \<Rightarrow> 'd quote \<Rightarrow> nat" where
  "quote_time_to_expiry now q = ts_duration_until now (quote_valid_until q)"

text \<open>\<open>.ok()\<close> forgets the arithmetic error.\<close>

definition res_ok :: "'e + 'a \<Rightarrow> 'a option" where
  "res_ok r = (case r of Inl _ \<Rightarrow> None | Inr a \<Rightarrow> Some a)"

definition quote_total_cost :: "'d dec \<Rightarrow> 'd quote \<Rightarrow> 'd price option" where
  "quote_total_cost D q =
     (case res_ok (price_safe_mul D (quote_price q) (quantity_get (quote_quantity q))) of
        None \<Rightarrow> None
      | Some base_cost \<Rightarrow>
          (case quote_commission q of
             Some comm \<Rightarrow> res_ok (price_safe_add D base_cost comm)
           | None \<Rightarrow> Some base_cost))"

section \<open>\<open>QuoteBuilder\<close>\<close>

record 'd quote_builder =
  qb_rfq_id :: uuid
  qb_venue_id :: venue_id
  qb_price :: "'d price"
  qb_quantity :: "'d quantity"
  qb_valid_until :: timestamp
  qb_commission :: "'d price option"
  qb_metadata :: "quote_metadata option"

definition qb_new ::
    "uuid \<Rightarrow> venue_id \<Rightarrow> 'd price \<Rightarrow> 'd quantity \<Rightarrow> timestamp \<Rightarrow> 'd quote_builder" where
  "qb_new rid venue p q valid_until = \<lparr> qb_rfq_id = rid, qb_venue_id = venue, qb_price = p,
     qb_quantity = q, qb_valid_until = valid_until, qb_commission = None, qb_metadata = None \<rparr>"

definition qb_with_commission :: "'d quote_builder \<Rightarrow> 'd price \<Rightarrow> 'd quote_builder" where
  "qb_with_commission b c = b\<lparr>qb_commission := Some c\<rparr>"

definition qb_with_metadata :: "'d quote_builder \<Rightarrow> quote_metadata \<Rightarrow> 'd quote_builder" where
  "qb_with_metadata b m = b\<lparr>qb_metadata := Some m\<rparr>"

definition qb_build :: "uuid \<Rightarrow> timestamp \<Rightarrow> 'd quote_builder \<Rightarrow> 'd quote" where
  "qb_build fresh now_created b = \<lparr> quote_id = fresh, quote_rfq_id = qb_rfq_id b,
     quote_venue_id = qb_venue_id b, quote_price = qb_price b, quote_quantity = qb_quantity b,
     quote_commission = qb_commission b, quote_valid_until = qb_valid_until b,
     quote_metadata = qb_metadata b, quote_created_at = now_created,
     quote_last_look_required = False \<rparr>"

definition qb_try_build :: "'d dec \<Rightarrow> uuid \<Rightarrow> timestamp \<Rightarrow> timestamp \<Rightarrow> 'd quote_builder
    \<Rightarrow> 'd domain_error + 'd quote" where
  "qb_try_build D fresh now_check now_created b =
     rbind (quote_validate_price D (qb_price b)) (\<lambda>_.
     rbind (quote_validate_quantity D (qb_quantity b)) (\<lambda>_.
     rbind (quote_validate_expiry now_check (qb_valid_until b)) (\<lambda>_.
       Inr \<lparr> quote_id = fresh, quote_rfq_id = qb_rfq_id b,
         quote_venue_id = qb_venue_id b, quote_price = qb_price b,
         quote_quantity = qb_quantity b, quote_commission = qb_commission b,
         quote_valid_until = qb_valid_until b, quote_metadata = qb_metadata b,
         quote_created_at = now_created, quote_last_look_required = False \<rparr>)))"

lemmas quote_validators [op_defs] =
  quote_validate_price_def quote_validate_quantity_def quote_validate_expiry_def

lemma quote_new_Inr_iff:
  "(\<exists>q. quote_new D fresh n1 n2 rid venue p qty t = Inr q) \<longleftrightarrow>
     price_is_positive D p \<and> quantity_is_positive D qty \<and> n1 \<le> t"
  by (auto simp: quote_new_def op_defs ts_is_expired_def)

lemma quote_total_cost_commission:
  "quote_total_cost D q = Some c \<Longrightarrow> \<exists>base. price_safe_mul D (quote_price q)
     (quantity_get (quote_quantity q)) = Inr base
   \<and> (case quote_commission q of None \<Rightarrow> c = base | Some k \<Rightarrow> price_safe_add D base k = Inr c)"
  by (auto simp: quote_total_cost_def res_ok_def split: option.splits sum.splits)

section \<open>\<open>CounterQuote\<close>\<close>

record 'd counter_quote =
  cq_id :: uuid
  cq_original_quote_id :: uuid
  cq_rfq_id :: uuid
  cq_from_account :: counterparty_id
  cq_price :: "'d price"
  cq_quantity :: "'d quantity"
  cq_valid_until :: timestamp
  cq_round :: u8
  cq_created_at :: timestamp

definition cq_validate_price :: "'d dec \<Rightarrow> 'd price \<Rightarrow> 'd domain_error + unit" where
  "cq_validate_price D p =
     (if \<not> price_is_positive D p
      then Inl (InvalidPrice (Txt ''counter price must be positive'')) else Inr ())"

definition cq_validate_quantity :: "'d dec \<Rightarrow> 'd quantity \<Rightarrow> 'd domain_error + unit" where
  "cq_validate_quantity D q =
     (if \<not> quantity_is_positive D q
      then Inl (InvalidQuantity (Txt ''counter quantity must be positive'')) else Inr ())"

definition cq_validate_expiry :: "timestamp \<Rightarrow> timestamp \<Rightarrow> 'd domain_error + unit" where
  "cq_validate_expiry now t =
     (if ts_is_expired now t
      then Inl (QuoteExpired (Txt ''counter-quote valid_until must be in the future''))
      else Inr ())"

definition cq_validate_round :: "u8 \<Rightarrow> 'd domain_error + unit" where
  "cq_validate_round r =
     (if r = 0 then Inl (ValidationError (Txt ''round must be >= 1'')) else Inr ())"

definition cq_new :: "'d dec \<Rightarrow> uuid \<Rightarrow> timestamp \<Rightarrow> timestamp \<Rightarrow> uuid \<Rightarrow> uuid
    \<Rightarrow> counterparty_id \<Rightarrow> 'd price \<Rightarrow> 'd quantity \<Rightarrow> timestamp \<Rightarrow> u8
    \<Rightarrow> 'd domain_error + 'd counter_quote" where
  "cq_new D fresh now_check now_created original rid from_account p q valid_until rnd =
     rbind (cq_validate_price D p) (\<lambda>_.
     rbind (cq_validate_quantity D q) (\<lambda>_.
     rbind (cq_validate_expiry now_check valid_until) (\<lambda>_.
     rbind (cq_validate_round rnd) (\<lambda>_.
       Inr \<lparr> cq_id = fresh, cq_original_quote_id = original, cq_rfq_id = rid,
         cq_from_account = from_account, cq_price = p, cq_quantity = q,
         cq_valid_until = valid_until, cq_round = rnd, cq_created_at = now_created \<rparr>))))"

definition cq_is_expired :: "timestamp \<Rightarrow> 'd counter_quote \<Rightarrow> bool" where
  "cq_is_expired now c = ts_is_expired now (cq_valid_until c)"

lemmas cq_validators [op_defs] =
  cq_validate_price_def cq_validate_quantity_def cq_validate_expiry_def cq_validate_round_def

lemma cq_new_Inr_iff:
  "(\<exists>c. cq_new D fresh n1 n2 original rid acc p qty t rnd = Inr c) \<longleftrightarrow>
     price_is_positive D p \<and> quantity_is_positive D qty \<and> n1 \<le> t \<and> rnd \<noteq> 0"
  by (auto simp: cq_new_def op_defs ts_is_expired_def)

end
