(* ===== verification/Rfq_Aggregate.thy ===== *)
theory Rfq_Aggregate
  imports Quotes
begin

text \<open>
  \<open>src/domain/entities/rfq.rs\<close>: the RFQ aggregate, its builder and every method that
  changes it, with the invariant that ties its state to its quotes and its selection.
  Each method takes the readings of the clock it makes, in the order it makes them.
\<close>

section \<open>State\<close>

record compliance_result =
  cr_passed :: bool
  cr_reason :: "string option"
  cr_checked_at :: timestamp

definition compliance_passed :: "timestamp \<Rightarrow> compliance_result" where
  "compliance_passed now = \<lparr> cr_passed = True, cr_reason = None, cr_checked_at = now \<rparr>"

definition compliance_failed :: "timestamp \<Rightarrow> string \<Rightarrow> compliance_result" where
  "compliance_failed now reason =
     \<lparr> cr_passed = False, cr_reason = Some reason, cr_checked_at = now \<rparr>"

record 'd rfq =
  rfq_id :: uuid
  rfq_client_id :: counterparty_id
  rfq_instrument :: "'d instrument"
  rfq_side :: order_side
  rfq_quantity :: "'d quantity"
  rfq_min_quantity :: "'d quantity option"
  rfq_anonymity_level :: anonymity_level
  rfq_state :: rfq_state
  rfq_expires_at :: timestamp
  rfq_quotes :: "'d quote list"
  rfq_selected_quote_id :: "uuid option"
  rfq_compliance_result :: "compliance_result option"
  rfq_failure_reason :: "string option"
  rfq_version :: u64
  rfq_created_at :: timestamp
  rfq_updated_at :: timestamp

section \<open>Construction\<close>

definition rfq_validate_quantity :: "'d dec \<Rightarrow> 'd quantity \<Rightarrow> 'd domain_error + unit" where
  "rfq_validate_quantity D q =
     (if \<not> quantity_is_positive D q
      then Inl (InvalidQuantity (Txt ''quantity must be positive'')) else Inr ())"

definition rfq_validate_expiry :: "timestamp \<Rightarrow> timestamp \<Rightarrow> 'd domain_error + unit" where
  "rfq_validate_expiry now t =
     (if ts_is_expired now t
      then Inl (ValidationError (Txt ''expires_at must be in the future'')) else Inr ())"

definition rfq_new :: "'d dec \<Rightarrow> uuid \<Rightarrow> timestamp \<Rightarrow> timestamp \<Rightarrow> counterparty_id
    \<Rightarrow> 'd instrument \<Rightarrow> order_side \<Rightarrow> 'd quantity \<Rightarrow> timestamp
    \<Rightarrow> 'd domain_error + 'd rfq" where
  "rfq_new D fresh now_check now client ins side q expires_at =
     rbind (rfq_validate_quantity D q) (\<lambda>_.
     rbind (rfq_validate_expiry now_check expires_at) (\<lambda>_.
       Inr \<lparr> rfq_id = fresh, rfq_client_id = client, rfq_instrument = ins, rfq_side = side,
         rfq_quantity = q, rfq_min_quantity = None, rfq_anonymity_level = Transparent,
         rfq_state = Created, rfq_expires_at = expires_at, rfq_quotes = [],
         rfq_selected_quote_id = None, rfq_compliance_result = None,
         rfq_failure_reason = None, rfq_version = 1, rfq_created_at = now,
         rfq_updated_at = now \<rparr>))"

record 'd rfq_builder =
  rb_client_id :: counterparty_id
  rb_instrument :: "'d instrument"
  rb_side :: order_side
  rb_quantity :: "'d quantity"
  rb_min_quantity :: "'d quantity option"
  rb_anonymity_level :: anonymity_level
  rb_expires_at :: timestamp

definition rb_new :: "counterparty_id \<Rightarrow> 'd instrument \<Rightarrow> order_side \<Rightarrow> 'd quantity
    \<Rightarrow> timestamp \<Rightarrow> 'd rfq_builder" where
  "rb_new client ins side q expires_at = \<lparr> rb_client_id = client, rb_instrument = ins,
     rb_side = side, rb_quantity = q, rb_min_quantity = None,
     rb_anonymity_level = Transparent, rb_expires_at = expires_at \<rparr>"

definition rb_with_min_quantity :: "'d rfq_builder \<Rightarrow> 'd quantity \<Rightarrow> 'd rfq_builder" where
  "rb_with_min_quantity b q = b\<lparr>rb_min_quantity := Some q\<rparr>"

definition rb_with_anonymity_level :: "'d rfq_builder \<Rightarrow> anonymity_level \<Rightarrow> 'd rfq_builder" where
  "rb_with_anonymity_level b l = b\<lparr>rb_anonymity_level := l\<rparr>"

definition rb_anonymous :: "'d rfq_builder \<Rightarrow> 'd rfq_builder" where
  "rb_anonymous b = b\<lparr>rb_anonymity_level := FullAnonymous\<rparr>"

definition rb_build :: "uuid \<Rightarrow> timestamp \<Rightarrow> 'd rfq_builder \<Rightarrow> 'd rfq" where
  "rb_build fresh now b = \<lparr> rfq_id = fresh, rfq_client_id = rb_client_id b,
     rfq_instrument = rb_instrument b, rfq_side = rb_side b, rfq_quantity = rb_quantity b,
     rfq_min_quantity = rb_min_quantity b, rfq_anonymity_level = rb_anonymity_level b,
     rfq_state = Created, rfq_expires_at = rb_expires_at b, rfq_quotes = [],
     rfq_selected_quote_id = None, rfq_compliance_result = None,
     rfq_failure_reason = None, rfq_version = 1, rfq_created_at = now,
     rfq_updated_at = now \<rparr>"

definition rb_try_build :: "'d dec \<Rightarrow> uuid \<Rightarrow> timestamp \<Rightarrow> timestamp \<Rightarrow> 'd rfq_builder
    \<Rightarrow> 'd domain_error + 'd rfq" where
  "rb_try_build D fresh now_check now b =
     rbind (rfq_validate_quantity D (rb_quantity b)) (\<lambda>_.
     rbind (rfq_validate_expiry now_check (rb_expires_at b)) (\<lambda>_.
       Inr \<lparr> rfq_id = fresh, rfq_client_id = rb_client_id b,
         rfq_instrument = rb_instrument b, rfq_side = rb_side b,
         rfq_quantity = rb_quantity b, rfq_min_quantity = rb_min_quantity b,
         rfq_anonymity_level = rb_anonymity_level b, rfq_state = Created,
         rfq_expires_at = rb_expires_at b, rfq_quotes = [], rfq_selected_quote_id = None,
         rfq_compliance_result = None, rfq_failure_reason = None, rfq_version = 1,
         rfq_created_at = now, rfq_updated_at = now \<rparr>))"

section \<open>Methods\<close>

definition rfq_transition_to :: "timestamp \<Rightarrow> rfq_state \<Rightarrow> ('d rfq, 'd) mutation" where
  "rfq_transition_to now target r =
     (if \<not> rs_can_transition_to (rfq_state r) target
      then (Inl (InvalidStateTransition (rfq_state r) target), r)
      else (Inr (), r\<lparr> rfq_state := target, rfq_updated_at := now,
                      rfq_version := sat_add (rfq_version r) 1 \<rparr>))"

definition rfq_selected_quote :: "'d rfq \<Rightarrow> 'd quote option" where
  "rfq_selected_quote r =
     (case rfq_selected_quote_id r of
        None \<Rightarrow> None
      | Some i \<Rightarrow> find (\<lambda>q. quote_id q = i) (rfq_quotes r))"

definition rfq_is_expired :: "timestamp \<Rightarrow> 'd rfq \<Rightarrow> bool" where
  "rfq_is_expired now r = ts_is_expired now (rfq_expires_at r)"

definition rfq_start_quote_collection :: "timestamp \<Rightarrow> ('d rfq, 'd) mutation" where
  "rfq_start_quote_collection now = rfq_transition_to now QuoteRequesting"

definition rfq_receive_quote ::
    "timestamp \<Rightarrow> timestamp \<Rightarrow> 'd quote \<Rightarrow> ('d rfq, 'd) mutation" where
  "rfq_receive_quote now_check now q r =
     (if quote_rfq_id q \<noteq> rfq_id r
      then (Inl (ValidationError (Txt ''quote does not belong to this RFQ'')), r)
      else if quote_is_expired now_check q
      then (Inl (QuoteExpired (Txt ''cannot receive expired quote'')), r)
      else case rfq_state r of
        QuoteRequesting \<Rightarrow>
          rfq_transition_to now QuotesReceived (r\<lparr>rfq_quotes := rfq_quotes r @ [q]\<rparr>)
      | QuotesReceived \<Rightarrow>
          (Inr (), r\<lparr> rfq_quotes := rfq_quotes r @ [q], rfq_updated_at := now,
                     rfq_version := sat_add (rfq_version r) 1 \<rparr>)
      | _ \<Rightarrow> (Inl (InvalidStateTransition (rfq_state r) QuotesReceived), r))"

definition rfq_select_quote ::
    "timestamp \<Rightarrow> timestamp \<Rightarrow> uuid \<Rightarrow> ('d rfq, 'd) mutation" where
  "rfq_select_quote now_check now i r =
     (case find (\<lambda>q. quote_id q = i) (rfq_quotes r) of
        None \<Rightarrow> (Inl (QuoteNotFound (Fmt ''{}'' [ArgUuid i])), r)
      | Some q \<Rightarrow>
          if quote_is_expired now_check q
          then (Inl (QuoteExpired (Txt ''cannot select expired quote'')), r)
          else op_then (rfq_transition_to now ClientSelecting)
                 (\<lambda>_ s. (Inr (), s\<lparr>rfq_selected_quote_id := Some i\<rparr>)) r)"

definition rfq_start_execution :: "timestamp \<Rightarrow> timestamp \<Rightarrow> ('d rfq, 'd) mutation" where
  "rfq_start_execution now_check now r =
     (case rfq_selected_quote_id r of
        None \<Rightarrow> (Inl (ValidationError (Txt ''no quote selected for execution'')), r)
      | Some i \<Rightarrow>
          (case find (\<lambda>q. quote_id q = i) (rfq_quotes r) of
             None \<Rightarrow> (Inl (QuoteNotFound (Fmt ''{}'' [ArgUuid i])), r)
           | Some q \<Rightarrow>
               if quote_is_expired now_check q
               then (Inl (QuoteExpired (Txt ''selected quote has expired'')), r)
               else rfq_transition_to now Executing r))"

definition rfq_mark_executed :: "timestamp \<Rightarrow> ('d rfq, 'd) mutation" where
  "rfq_mark_executed now = rfq_transition_to now Executed"

text \<open>The reason is written before the transition is checked.\<close>

definition rfq_mark_failed :: "timestamp \<Rightarrow> string \<Rightarrow> ('d rfq, 'd) mutation" where
  "rfq_mark_failed now reason r =
     rfq_transition_to now Failed (r\<lparr>rfq_failure_reason := Some reason\<rparr>)"

definition rfq_cancel :: "timestamp \<Rightarrow> ('d rfq, 'd) mutation" where
  "rfq_cancel now = rfq_transition_to now Cancelled"

definition rfq_expire :: "timestamp \<Rightarrow> ('d rfq, 'd) mutation" where
  "rfq_expire now = rfq_transition_to now Expired"

definition rfq_set_compliance_result ::
    "timestamp \<Rightarrow> compliance_result \<Rightarrow> ('d rfq, 'd) mutation" where
  "rfq_set_compliance_result now c r =
     (Inr (), r\<lparr> rfq_compliance_result := Some c, rfq_updated_at := now,
                rfq_version := sat_add (rfq_version r) 1 \<rparr>)"

text \<open>The public methods as commands, to speak of histories of calls.\<close>

datatype 'd rfq_cmd =
    StartQuoteCollection timestamp
  | ReceiveQuote timestamp timestamp "'d quote"
  | SelectQuote timestamp timestamp uuid
  | StartExecution timestamp timestamp
  | MarkExecuted timestamp
  | MarkFailed timestamp string
  | Cancel timestamp
  | Expire timestamp
  | SetCompliance timestamp compliance_result

fun rfq_apply :: "'d rfq_cmd \<Rightarrow> ('d rfq, 'd) mutation" where
  "rfq_apply (StartQuoteCollection t) = rfq_start_quote_collection t"
| "rfq_apply (ReceiveQuote t u q) = rfq_receive_quote t u q"
| "rfq_apply (SelectQuote t u i) = rfq_select_quote t u i"
| "rfq_apply (StartExecution t u) = rfq_start_execution t u"
| "rfq_apply (MarkExecuted t) = rfq_mark_executed t"
| "rfq_apply (MarkFailed t m) = rfq_mark_failed t m"
| "rfq_apply (Cancel t) = rfq_cancel t"
| "rfq_apply (Expire t) = rfq_expire t"
| "rfq_apply (SetCompliance t c) = rfq_set_compliance_result t c"

lemmas rfq_op_defs =
  rfq_start_quote_collection_def rfq_receive_quote_def rfq_select_quote_def
  rfq_start_execution_def rfq_mark_executed_def rfq_mark_failed_def rfq_cancel_def
  rfq_expire_def rfq_set_compliance_result_def rfq_transition_to_def op_then_def

section \<open>Invariant\<close>

definition rfq_inv :: "'d rfq \<Rightarrow> bool" where
  "rfq_inv r \<longleftrightarrow>
     (\<forall>q\<in>set (rfq_quotes r). quote_rfq_id q = rfq_id r)
   \<and> (rfq_state r \<in> {Created, QuoteRequesting} \<longrightarrow> rfq_quotes r = [])
   \<and> (rfq_state r \<in> {Created, QuoteRequesting, QuotesReceived} \<longrightarrow>
        rfq_selected_quote_id r = None)
   \<and> (rs_has_quotes (rfq_state r) \<longrightarrow> rfq_quotes r \<noteq> [])
   \<and> (rfq_state r \<in> {ClientSelecting, Executing, Executed} \<longrightarrow>
        rfq_selected_quote_id r \<noteq> None)
   \<and> (\<forall>i. rfq_selected_quote_id r = Some i \<longrightarrow> i \<in> quote_id ` set (rfq_quotes r))
   \<and> (rfq_state r = Failed \<longrightarrow> rfq_failure_reason r \<noteq> None)
   \<and> rfq_state r \<noteq> Negotiating"

lemma rfq_apply_inv: "rfq_inv r \<Longrightarrow> rfq_inv (snd (rfq_apply c r))"
  by (cases c; cases "rfq_state r")
    (auto simp: rfq_inv_def rfq_op_defs rs_can_transition_to_def rs_has_quotes_def
      dest!: find_Some_iff_mem split: option.splits)

lemma rfq_new_inv: "rfq_new D f n1 n2 cl ins sd q t = Inr r \<Longrightarrow> rfq_inv r"
  by (auto simp: rfq_new_def rfq_inv_def rs_has_quotes_def)

lemma rfq_run_inv: "rfq_inv r \<Longrightarrow> rfq_inv (run_ops rfq_apply cs r)"
  by (rule run_ops_invariant) (rule rfq_apply_inv)

lemma rfq_apply_moves:
  "rfq_state (snd (rfq_apply c r)) = rfq_state r
   \<or> rs_can_transition_to (rfq_state r) (rfq_state (snd (rfq_apply c r)))"
  by (cases c) (auto simp: rfq_op_defs split: option.splits rfq_state.splits)

interpretation rfq_agg: aggregate rs_can_transition_to rs_is_terminal rfq_apply rfq_state
  by unfold_locales (rule rfq_apply_moves)

text \<open>Fields no method writes.\<close>

lemma rfq_apply_frame:
  "rfq_id (snd (rfq_apply c r)) = rfq_id r"
  "rfq_client_id (snd (rfq_apply c r)) = rfq_client_id r"
  "rfq_quantity (snd (rfq_apply c r)) = rfq_quantity r"
  "rfq_expires_at (snd (rfq_apply c r)) = rfq_expires_at r"
  by (cases c; auto simp: rfq_op_defs split: option.splits rfq_state.splits)+

lemma rfq_apply_ok_version:
  "rfq_apply c r = (Inr x, r') \<Longrightarrow> rfq_version r' = sat_add (rfq_version r) 1"
  by (cases c) (auto simp: rfq_op_defs split: option.splits rfq_state.splits if_splits)

lemma rfq_apply_error:
  "rfq_apply c r = (Inl e, r') \<Longrightarrow> r' = r
   \<or> (\<exists>t m. c = MarkFailed t m \<and> r' = r\<lparr>rfq_failure_reason := Some m\<rparr>)"
  by (cases c)
    (auto simp: rfq_op_defs rs_can_transition_to_def
      split: option.splits rfq_state.splits if_splits)

lemma rfq_apply_error_version: "rfq_apply c r = (Inl e, r') \<Longrightarrow> rfq_version r' = rfq_version r"
  by (auto dest!: rfq_apply_error)

lemma rfq_apply_terminal:
  assumes "rs_is_terminal (rfq_state r)"
  shows "snd (rfq_apply c r) = r\<lparr>
      rfq_failure_reason := rfq_failure_reason (snd (rfq_apply c r)),
      rfq_compliance_result := rfq_compliance_result (snd (rfq_apply c r)),
      rfq_updated_at := rfq_updated_at (snd (rfq_apply c r)),
      rfq_version := rfq_version (snd (rfq_apply c r)) \<rparr>"
  using assms rs.terminal_stuck [OF assms]
  by (cases c) (auto simp: rfq_op_defs split: option.splits rfq_state.splits)

text \<open>Entering execution: only through a successful \<open>start_execution\<close>.\<close>

definition rfq_in_execution :: "'d rfq \<Rightarrow> bool" where
  "rfq_in_execution r \<longleftrightarrow> rfq_state r \<in> {Executing, Executed}"

lemma rfq_start_execution_Inr:
  "rfq_start_execution n u r = (Inr x, r') \<Longrightarrow> \<exists>q\<in>set (rfq_quotes r).
     rfq_selected_quote_id r = Some (quote_id q) \<and> n \<le> quote_valid_until q
     \<and> rfq_state r = ClientSelecting \<and> rfq_state r' = Executing"
  by (auto simp: rfq_op_defs rs_can_transition_to_def quote_is_expired_def ts_is_expired_def
      dest!: find_Some_iff_mem split: option.splits if_splits)

lemma rfq_enters_execution:
  assumes "\<not> rfq_in_execution r" "rfq_in_execution (snd (rfq_apply c r))"
  shows "\<exists>n u. c = StartExecution n u \<and> fst (rfq_start_execution n u r) = Inr ()"
  using assms
  by (cases c) (auto simp: rfq_in_execution_def rfq_op_defs rs_can_transition_to_def
      split: option.splits rfq_state.splits if_splits)

lemma rfq_selection_kept:
  assumes "rfq_inv r" "rfq_selected_quote_id r = Some i"
  shows "rfq_selected_quote_id (snd (rfq_apply c r)) = Some i"
  using assms
  by (cases c; cases "rfq_state r")
    (auto simp: rfq_inv_def rfq_op_defs rs_can_transition_to_def split: option.splits)

lemma rfq_selection_kept_run:
  assumes "rfq_inv r" "rfq_selected_quote_id r = Some i"
  shows "rfq_selected_quote_id (run_ops rfq_apply cs r) = Some i"
proof -
  have "rfq_inv (run_ops rfq_apply cs r) \<and> rfq_selected_quote_id (run_ops rfq_apply cs r) = Some i"
    by (rule run_ops_invariant) (use assms in \<open>auto intro: rfq_apply_inv rfq_selection_kept\<close>)
  then show ?thesis ..
qed

lemma rfq_start_execution_selection:
  "rfq_selected_quote_id (snd (rfq_start_execution n u r)) = rfq_selected_quote_id r"
  by (auto simp: rfq_op_defs split: option.splits)

lemma rfq_execution_history:
  assumes "rfq_inv r" "\<not> rfq_in_execution r" "rfq_in_execution (run_ops rfq_apply cs r)"
  shows "\<exists>as n u bs. cs = as @ StartExecution n u # bs
     \<and> fst (rfq_start_execution n u (run_ops rfq_apply as r)) = Inr ()"
  using assms(3)
proof (induction cs rule: rev_induct)
  case (snoc c cs)
  show ?case
  proof (cases "rfq_in_execution (run_ops rfq_apply cs r)")
    case True
    with snoc.IH show ?thesis by force
  next
    case False
    with snoc.prems show ?thesis
      using rfq_enters_execution [of "run_ops rfq_apply cs r" c] by fastforce
  qed
qed (use assms(2) in simp)

section \<open>Properties\<close>

definition sample_symbol :: symbol where
  "sample_symbol = \<lparr> sym_value = ''BTC/USD'', sym_separator_index = 3 \<rparr>"

definition sample_rfq :: "int rfq" where
  "sample_rfq = rb_build 7 100 (rb_new ''client'' (instrument_default_build sample_symbol CryptoSpot)
     Buy (Quantity 5) 900)"

definition sample_quote :: "uuid \<Rightarrow> int \<Rightarrow> timestamp \<Rightarrow> int quote" where
  "sample_quote i p t = qb_build i 110 (qb_new 7 ''venue'' (Price p) (Quantity 5) t)"

lemma sample_rfq_new:
  "rfq_new whole_dec 7 99 100 ''client'' (instrument_default_build sample_symbol CryptoSpot)
     Buy (Quantity 5) 900 = Inr sample_rfq"
  by (simp add: rfq_new_def rfq_validate_quantity_def rfq_validate_expiry_def
      quantity_is_positive_def ts_is_expired_def sample_rfq_def rb_build_def rb_new_def)

text \<open>
  C2. Whatever methods are called on a constructed RFQ, in whatever order and at whatever
  clock readings, and whether they succeed or fail: every stored quote was made for this RFQ;
  there is no quote before \<open>QuotesReceived\<close> and at least one in each state for which \<open>has_quotes\<close>
  says so; no quote is selected before \<open>ClientSelecting\<close>, one is in \<open>ClientSelecting\<close>, \<open>Executing\<close> and
  \<open>Executed\<close>, and a selected identifier is always that of a stored quote; a failed RFQ carries a
  reason; and the state is never \<open>Negotiating\<close>. (A reason alone says nothing about the state:
  \<open>mark_failed\<close> writes it before the transition is checked.)
\<close>
theorem rfq_history_keeps_invariant:
  assumes "rfq_new D fresh n1 n2 client ins side q expires_at = Inr r"
  shows "rfq_inv (run_ops rfq_apply cs r)"
  using rfq_new_inv [OF assms] by (rule rfq_run_inv)

lemma rfq_history_keeps_invariant_witness:
  "rfq_inv (run_ops rfq_apply [StartQuoteCollection 101,
     ReceiveQuote 102 103 (sample_quote 1 50 300), SelectQuote 104 105 1] sample_rfq)"
  by (rule rfq_history_keeps_invariant [OF sample_rfq_new])

text \<open>
  C1. An RFQ is executed only on a live, selected quote: if some history of calls brings a
  newly constructed RFQ to \<open>Executing\<close> or \<open>Executed\<close>, then one of the calls was a successful
  \<open>start_execution\<close>, made when a quote of this RFQ was selected whose validity had not run
  out at that call's clock reading, and that quote is still the selected one at the end.
\<close>
theorem rfq_executes_only_live_selected_quote:
  assumes "rfq_new D fresh n1 n2 client ins side qty expires_at = Inr r"
    and "rfq_state (run_ops rfq_apply cs r) \<in> {Executing, Executed}"
  shows "\<exists>as n u bs q. cs = as @ StartExecution n u # bs
     \<and> fst (rfq_start_execution n u (run_ops rfq_apply as r)) = Inr ()
     \<and> q \<in> set (rfq_quotes (run_ops rfq_apply as r))
     \<and> quote_rfq_id q = rfq_id r \<and> n \<le> quote_valid_until q
     \<and> rfq_selected_quote_id (run_ops rfq_apply cs r) = Some (quote_id q)"
proof -
  have inv: "rfq_inv r" using assms(1) by (rule rfq_new_inv)
  have start: "\<not> rfq_in_execution r"
    using assms(1) by (auto simp: rfq_new_def rfq_in_execution_def)
  obtain as n u bs where cs: "cs = as @ StartExecution n u # bs"
    and ok: "fst (rfq_start_execution n u (run_ops rfq_apply as r)) = Inr ()"
    using rfq_execution_history [OF inv start assms(2) [folded rfq_in_execution_def]] by blast
  let ?s = "run_ops rfq_apply as r"
  obtain q where q: "q \<in> set (rfq_quotes ?s)" "rfq_selected_quote_id ?s = Some (quote_id q)"
    "n \<le> quote_valid_until q"
    using rfq_start_execution_Inr [of n u ?s "()" "snd (rfq_start_execution n u ?s)"] ok
    by (metis prod.collapse)
  have inv_s: "rfq_inv ?s" using inv by (rule rfq_run_inv)
  have "rfq_id ?s = rfq_id r"
    by (rule run_ops_invariant [where P = "\<lambda>x. rfq_id x = rfq_id r"]) (simp_all add: rfq_apply_frame)
  then have "quote_rfq_id q = rfq_id r" using inv_s q(1) by (simp add: rfq_inv_def)
  moreover have "rfq_selected_quote_id (run_ops rfq_apply cs r) = Some (quote_id q)"
    using rfq_selection_kept_run [OF rfq_apply_inv [OF inv_s], of "StartExecution n u"] q(2)
    by (simp add: cs rfq_start_execution_selection)
  ultimately show ?thesis using cs ok q by blast
qed

lemma rfq_executes_only_live_selected_quote_witness:
  "\<exists>as n u bs q. [StartQuoteCollection 101, ReceiveQuote 102 103 (sample_quote 1 50 300),
       SelectQuote 104 105 1, StartExecution 106 107, MarkExecuted 108] = as @ StartExecution n u # bs
     \<and> fst (rfq_start_execution n u (run_ops rfq_apply as sample_rfq)) = Inr ()
     \<and> q \<in> set (rfq_quotes (run_ops rfq_apply as sample_rfq))
     \<and> quote_rfq_id q = rfq_id sample_rfq \<and> n \<le> quote_valid_until q
     \<and> rfq_selected_quote_id (run_ops rfq_apply [StartQuoteCollection 101,
         ReceiveQuote 102 103 (sample_quote 1 50 300), SelectQuote 104 105 1,
         StartExecution 106 107, MarkExecuted 108] sample_rfq) = Some (quote_id q)"
  by (rule rfq_executes_only_live_selected_quote [OF sample_rfq_new])
    (simp add: rfq_op_defs rs_can_transition_to_def sample_rfq_def rb_build_def rb_new_def
      sample_quote_def qb_build_def qb_new_def quote_is_expired_def ts_is_expired_def)

text \<open>
  Terminal states are final for the whole entity: from \<open>Executed\<close>, \<open>Failed\<close>,
  \<open>Cancelled\<close> or \<open>Expired\<close> no history of calls changes anything but the failure reason,
  the compliance result, the update time and the version.
\<close>
theorem rfq_terminal_is_frozen:
  assumes "rs_is_terminal (rfq_state r)"
  shows "\<exists>reason compliance t v. run_ops rfq_apply cs r = r\<lparr> rfq_failure_reason := reason,
     rfq_compliance_result := compliance, rfq_updated_at := t, rfq_version := v \<rparr>"
proof (rule run_ops_invariant)
  let ?P = "\<lambda>x. \<exists>reason compliance t v. x = r\<lparr> rfq_failure_reason := reason,
     rfq_compliance_result := compliance, rfq_updated_at := t, rfq_version := v \<rparr>"
  have "r = r\<lparr> rfq_failure_reason := rfq_failure_reason r,
     rfq_compliance_result := rfq_compliance_result r, rfq_updated_at := rfq_updated_at r,
     rfq_version := rfq_version r \<rparr>" by simp
  then show "?P r" by blast
  show "?P (snd (rfq_apply c x))" if frozen: "?P x" for c x
  proof -
    obtain a b t v where x: "x = r\<lparr> rfq_failure_reason := a, rfq_compliance_result := b,
      rfq_updated_at := t, rfq_version := v \<rparr>" using frozen by blast
    then have "rs_is_terminal (rfq_state x)" using assms by simp
    from rfq_apply_terminal [OF this, of c] x show ?thesis by fastforce
  qed
qed

lemma rfq_terminal_is_frozen_witness:
  "\<exists>reason compliance t v. run_ops rfq_apply [Expire 5, MarkFailed 6 ''late'']
     (sample_rfq\<lparr>rfq_state := Executed\<rparr>) = (sample_rfq\<lparr>rfq_state := Executed\<rparr>)\<lparr>
       rfq_failure_reason := reason, rfq_compliance_result := compliance,
       rfq_updated_at := t, rfq_version := v \<rparr>"
  by (rule rfq_terminal_is_frozen) simp

text \<open>
  C38. A failing call has no effect, with one exception: a call that returns an error leaves
  the RFQ exactly as it was, unless it is \<open>mark_failed\<close>, which has by then overwritten the
  failure reason (and nothing else).
\<close>
theorem rfq_errors_have_no_effect:
  assumes "rfq_apply c r = (Inl e, r')"
  shows "r' = r \<or> (\<exists>t m. c = MarkFailed t m \<and> r' = r\<lparr>rfq_failure_reason := Some m\<rparr>)"
  using assms by (rule rfq_apply_error)

lemma rfq_errors_have_no_effect_witness:
  "snd (rfq_apply (Cancel 5) (sample_rfq\<lparr>rfq_state := Executing\<rparr>))
     = sample_rfq\<lparr>rfq_state := Executing\<rparr>"
  using rfq_errors_have_no_effect [of "Cancel 5" "sample_rfq\<lparr>rfq_state := Executing\<rparr>"
      "InvalidStateTransition Executing Cancelled" "sample_rfq\<lparr>rfq_state := Executing\<rparr>"]
  by (auto simp: rfq_op_defs rs_can_transition_to_def)

text \<open>
  The exception is observable on finished RFQs: \<open>mark_failed\<close> on an RFQ in a terminal
  state returns \<open>InvalidStateTransition\<close> and still records the failure reason, so an executed
  RFQ can carry one.
\<close>
theorem rfq_mark_failed_writes_reason_on_terminal:
  assumes "rs_is_terminal (rfq_state r)"
  shows "rfq_mark_failed now reason r =
     (Inl (InvalidStateTransition (rfq_state r) Failed), r\<lparr>rfq_failure_reason := Some reason\<rparr>)"
  using rs.terminal_stuck [OF assms] by (simp add: rfq_op_defs)

lemma rfq_mark_failed_writes_reason_on_terminal_witness:
  "rfq_mark_failed 5 ''late'' (sample_rfq\<lparr>rfq_state := Executed\<rparr>) =
     (Inl (InvalidStateTransition Executed Failed),
      sample_rfq\<lparr>rfq_state := Executed, rfq_failure_reason := Some ''late''\<rparr>)"
  using rfq_mark_failed_writes_reason_on_terminal [of "sample_rfq\<lparr>rfq_state := Executed\<rparr>" 5 "''late''"]
  by simp

text \<open>The number of calls of a history that succeed.\<close>

fun rfq_successes :: "'d rfq_cmd list \<Rightarrow> 'd rfq \<Rightarrow> nat" where
  "rfq_successes [] r = 0"
| "rfq_successes (c # cs) r =
     (case rfq_apply c r of (Inr _, r') \<Rightarrow> Suc (rfq_successes cs r')
      | (Inl _, r') \<Rightarrow> rfq_successes cs r')"

text \<open>
  The version counts the successful changes: after any history it is the initial version
  plus the number of calls that succeeded, stopping at the largest 64-bit value instead of
  wrapping.
\<close>
theorem rfq_version_counts_changes:
  "unat (rfq_version (run_ops rfq_apply cs r))
     = min (unat (rfq_version r) + rfq_successes cs r) (2 ^ 64 - 1)"
proof (induction cs arbitrary: r)
  case Nil
  have "unat (rfq_version r) < 2 ^ LENGTH(64)" by (rule unsigned_less)
  then show ?case by simp
next
  case (Cons c cs)
  show ?case
  proof (cases "rfq_apply c r")
    case (Pair res r')
    then show ?thesis
      using Cons.IH [of r'] rfq_apply_ok_version [of c r _ r'] rfq_apply_error_version [of c r _ r']
      by (cases res) (auto simp: unat_sat_add)
  qed
qed

text \<open>
  The checked builder and the constructor agree: building from a builder without
  optional settings returns the same RFQ or the same error as \<open>Rfq::new\<close>.
\<close>
theorem rfq_try_build_is_new:
  "rb_try_build D fresh now_check now (rb_new client ins side q expires_at)
     = rfq_new D fresh now_check now client ins side q expires_at"
  by (simp add: rb_try_build_def rfq_new_def rb_new_def)

end
