(* ===== verification/Negotiations.thy ===== *)
theory Negotiations
  imports Quotes
begin

text \<open>
  \<open>src/domain/entities/negotiation.rs\<close>: the multi-round bargaining between the requester
  and one market maker. Methods take their clock readings in the order they make them.
\<close>

section \<open>State\<close>

record 'd neg_round =
  nr_round_number :: u8
  nr_counter_quote :: "'d counter_quote"
  nr_responded_at :: "timestamp option"
  nr_accepted :: "bool option"

definition nr_new :: "u8 \<Rightarrow> 'd counter_quote \<Rightarrow> 'd neg_round" where
  "nr_new n c = \<lparr> nr_round_number = n, nr_counter_quote = c, nr_responded_at = None,
     nr_accepted = None \<rparr>"

definition nr_is_responded :: "'d neg_round \<Rightarrow> bool" where
  "nr_is_responded x \<longleftrightarrow> nr_responded_at x \<noteq> None"

definition nr_respond :: "timestamp \<Rightarrow> bool \<Rightarrow> 'd neg_round \<Rightarrow> 'd neg_round" where
  "nr_respond now accepted x = x\<lparr> nr_responded_at := Some now, nr_accepted := Some accepted \<rparr>"

record 'd negotiation =
  neg_id :: uuid
  neg_rfq_id :: uuid
  neg_requester :: counterparty_id
  neg_mm_account :: counterparty_id
  neg_side :: order_side
  neg_rounds :: "'d neg_round list"
  neg_max_rounds :: u8
  neg_state :: negotiation_state
  neg_created_at :: timestamp
  neg_updated_at :: timestamp

definition MAX_ALLOWED_ROUNDS :: u8 where
  "MAX_ALLOWED_ROUNDS = 10"

definition neg_new :: "uuid \<Rightarrow> timestamp \<Rightarrow> uuid \<Rightarrow> counterparty_id \<Rightarrow> counterparty_id
    \<Rightarrow> order_side \<Rightarrow> u8 \<Rightarrow> 'd domain_error + 'd negotiation" where
  "neg_new fresh now rid requester mm side max_rounds =
     (if max_rounds = 0 then Inl (ValidationError (Txt ''max_rounds must be >= 1''))
      else if MAX_ALLOWED_ROUNDS < max_rounds
      then Inl (ValidationError (Fmt ''max_rounds must be <= {}'' [ArgNat (unat MAX_ALLOWED_ROUNDS)]))
      else Inr \<lparr> neg_id = fresh, neg_rfq_id = rid, neg_requester = requester,
             neg_mm_account = mm, neg_side = side, neg_rounds = [],
             neg_max_rounds = max_rounds, neg_state = NsOpen,
             neg_created_at = now, neg_updated_at = now \<rparr>)"

section \<open>Methods\<close>

definition neg_transition_to :: "timestamp \<Rightarrow> negotiation_state \<Rightarrow> ('d negotiation, 'd) mutation" where
  "neg_transition_to now target n =
     (if \<not> ns_can_transition_to (neg_state n) target
      then (Inl (InvalidNegotiationStateTransition (neg_state n) target), n)
      else (Inr (), n\<lparr> neg_state := target, neg_updated_at := now \<rparr>))"

definition neg_latest_price :: "'d negotiation \<Rightarrow> 'd price option" where
  "neg_latest_price n = (if neg_rounds n = [] then None
     else Some (cq_price (nr_counter_quote (last (neg_rounds n)))))"

definition neg_improves :: "'d dec \<Rightarrow> order_side \<Rightarrow> 'd price \<Rightarrow> 'd price \<Rightarrow> bool" where
  "neg_improves D side previous proposed =
     (case side of Buy \<Rightarrow> price_lt D proposed previous | Sell \<Rightarrow> price_lt D previous proposed)"

definition neg_validate_price_improvement ::
    "'d dec \<Rightarrow> 'd negotiation \<Rightarrow> 'd price \<Rightarrow> 'd price \<Rightarrow> 'd domain_error + unit" where
  "neg_validate_price_improvement D n previous proposed =
     (if \<not> neg_improves D (neg_side n) previous proposed
      then Inl (NoPriceImprovement previous proposed) else Inr ())"

text \<open>\<open>rounds.last_mut()\<close> updated in place.\<close>

definition update_last :: "('a \<Rightarrow> 'a) \<Rightarrow> 'a list \<Rightarrow> 'a list" where
  "update_last f xs = (if xs = [] then [] else butlast xs @ [f (last xs)])"

text \<open>\<open>last.respond(accepted)\<close> if the last round is still pending.\<close>

definition neg_close_pending :: "timestamp \<Rightarrow> 'd negotiation \<Rightarrow> 'd negotiation" where
  "neg_close_pending now n = n\<lparr> neg_rounds := update_last
     (\<lambda>x. if nr_is_responded x then x else nr_respond now False x) (neg_rounds n) \<rparr>"

text \<open>\<open>len.checked_add(1)\<close>, then \<open>u8::try_from\<close>; the lengths of vectors are below the word size.\<close>

definition neg_next_round_number :: "'d negotiation \<Rightarrow> u8 option" where
  "neg_next_round_number n = (let k = length (neg_rounds n) + 1 in
     if k < 256 then Some (of_nat k) else None)"

definition neg_submit_counter :: "'d dec \<Rightarrow> timestamp \<Rightarrow> timestamp \<Rightarrow> timestamp \<Rightarrow> timestamp
    \<Rightarrow> 'd counter_quote \<Rightarrow> ('d negotiation, 'd) mutation" where
  "neg_submit_counter D now_check now_respond now1 now2 counter n =
     (if ns_is_terminal (neg_state n)
      then (Inl (InvalidNegotiationStateTransition (neg_state n) NsCounterPending), n)
      else if cq_is_expired now_check counter
      then (Inl (QuoteExpired (Txt ''counter-quote has expired'')), n)
      else if cq_from_account counter \<noteq> neg_requester n
           \<and> cq_from_account counter \<noteq> neg_mm_account n
      then (Inl (ValidationError (Txt ''submitter is not a participant in this negotiation'')), n)
      else if unat (neg_max_rounds n) \<le> length (neg_rounds n)
      then (Inl (MaxNegotiationRoundsReached (neg_max_rounds n)), n)
      else case (case neg_latest_price n of
                   None \<Rightarrow> Inr ()
                 | Some previous \<Rightarrow> neg_validate_price_improvement D n previous (cq_price counter)) of
        Inl e \<Rightarrow> (Inl e, n)
      | Inr _ \<Rightarrow>
          let n1 = neg_close_pending now_respond n in
          (case neg_next_round_number n1 of
             None \<Rightarrow> (Inl (ValidationError (Txt ''round number overflow'')), n1)
           | Some k \<Rightarrow>
               let n2 = n1\<lparr> neg_rounds := neg_rounds n1 @ [nr_new k counter] \<rparr> in
               (case neg_state n2 of
                  NsOpen \<Rightarrow> neg_transition_to now1 NsCounterPending n2
                | NsCounterPending \<Rightarrow>
                    op_then (neg_transition_to now1 NsOpen)
                      (\<lambda>_. neg_transition_to now2 NsCounterPending) n2
                | _ \<Rightarrow> (Inl (InvalidNegotiationStateTransition (neg_state n2) NsCounterPending),
                        n2))))"

text \<open>The last round is answered before the transition is checked.\<close>

definition neg_accept :: "timestamp \<Rightarrow> timestamp \<Rightarrow> ('d negotiation, 'd) mutation" where
  "neg_accept now_respond now n =
     (if neg_rounds n = []
      then (Inl (ValidationError (Txt ''cannot accept with no counter-quotes'')), n)
      else neg_transition_to now NsAccepted
             (n\<lparr> neg_rounds := update_last (nr_respond now_respond True) (neg_rounds n) \<rparr>))"

definition neg_reject :: "timestamp \<Rightarrow> timestamp \<Rightarrow> ('d negotiation, 'd) mutation" where
  "neg_reject now_respond now n = neg_transition_to now NsRejected (neg_close_pending now_respond n)"

definition neg_expire :: "timestamp \<Rightarrow> ('d negotiation, 'd) mutation" where
  "neg_expire now = neg_transition_to now NsExpired"

datatype 'd neg_cmd =
    SubmitCounter timestamp timestamp timestamp timestamp "'d counter_quote"
  | AcceptNeg timestamp timestamp
  | RejectNeg timestamp timestamp
  | ExpireNeg timestamp

fun neg_apply :: "'d dec \<Rightarrow> 'd neg_cmd \<Rightarrow> ('d negotiation, 'd) mutation" where
  "neg_apply D (SubmitCounter a b c d q) = neg_submit_counter D a b c d q"
| "neg_apply D (AcceptNeg a b) = neg_accept a b"
| "neg_apply D (RejectNeg a b) = neg_reject a b"
| "neg_apply D (ExpireNeg a) = neg_expire a"

section \<open>Analysis of the methods\<close>

lemma update_last_simps [simp]:
  "update_last f [] = []" "update_last f (xs @ [x]) = xs @ [f x]"
  by (simp_all add: update_last_def)

lemma update_last_props [simp]:
  "length (update_last f xs) = length xs"
  "update_last f xs = [] \<longleftrightarrow> xs = []"
  "butlast (update_last f xs) = butlast xs"
  by (cases xs rule: rev_cases; simp)+

lemma map_update_last: "(\<And>x. g (f x) = g x) \<Longrightarrow> map g (update_last f xs) = map g xs"
  by (cases xs rule: rev_cases) simp_all

text \<open>What a counter-quote needs to be taken, and what taking it does.\<close>

definition neg_admits :: "'d dec \<Rightarrow> timestamp \<Rightarrow> 'd counter_quote \<Rightarrow> 'd negotiation \<Rightarrow> bool" where
  "neg_admits D now counter n \<longleftrightarrow>
     neg_state n \<in> {NsOpen, NsCounterPending}
   \<and> now \<le> cq_valid_until counter
   \<and> cq_from_account counter \<in> {neg_requester n, neg_mm_account n}
   \<and> length (neg_rounds n) < unat (neg_max_rounds n)
   \<and> (\<forall>p. neg_latest_price n = Some p \<longrightarrow> neg_improves D (neg_side n) p (cq_price counter))"

definition neg_extended :: "timestamp \<Rightarrow> timestamp \<Rightarrow> 'd counter_quote \<Rightarrow> 'd negotiation
    \<Rightarrow> 'd negotiation" where
  "neg_extended now_respond now counter n = n\<lparr>
     neg_rounds := neg_rounds (neg_close_pending now_respond n)
       @ [nr_new (of_nat (length (neg_rounds n) + 1)) counter],
     neg_state := NsCounterPending, neg_updated_at := now \<rparr>"

lemma unat_u8_less: "unat (w :: u8) < 256"
  using unsigned_less [of w] by simp

lemma neg_close_pending_sel [simp]:
  "neg_state (neg_close_pending t n) = neg_state n"
  "length (neg_rounds (neg_close_pending t n)) = length (neg_rounds n)"
  "(neg_close_pending t n)\<lparr>neg_rounds := xs\<rparr> = n\<lparr>neg_rounds := xs\<rparr>"
  by (simp_all add: neg_close_pending_def)

lemma neg_next_round_number_close:
  "length (neg_rounds n) < unat (neg_max_rounds n) \<Longrightarrow>
     neg_next_round_number (neg_close_pending t n) = Some (of_nat (length (neg_rounds n) + 1))"
  using unat_u8_less [of "neg_max_rounds n"] by (simp add: neg_next_round_number_def)

lemma neg_submit_counter_admitted:
  assumes "neg_admits D a q n"
  shows "neg_submit_counter D a b c d q n =
     (Inr (), neg_extended b (if neg_state n = NsOpen then c else d) q n)"
proof -
  have st: "neg_state n = NsOpen \<or> neg_state n = NsCounterPending"
    and chk: "\<not> cq_is_expired a q"
      "\<not> (cq_from_account q \<noteq> neg_requester n \<and> cq_from_account q \<noteq> neg_mm_account n)"
      "\<not> unat (neg_max_rounds n) \<le> length (neg_rounds n)"
    and price: "(case neg_latest_price n of None \<Rightarrow> Inr ()
      | Some p \<Rightarrow> neg_validate_price_improvement D n p (cq_price q)) = Inr ()"
    using assms by (auto simp: neg_admits_def cq_is_expired_def ts_is_expired_def
        neg_validate_price_improvement_def split: option.split)
  have num: "neg_next_round_number (neg_close_pending b n)
      = Some (of_nat (length (neg_rounds n) + 1))"
    using chk(3) by (simp add: neg_next_round_number_close)
  show ?thesis
    unfolding neg_submit_counter_def Let_def
    using st chk by (elim disjE)
      (simp_all add: price num ns_is_terminal_def neg_transition_to_def ns_can_transition_to_def
        op_then_def neg_extended_def)
qed

lemma neg_submit_counter_refused:
  assumes "\<not> neg_admits D a q n"
  shows "\<exists>e. neg_submit_counter D a b c d q n = (Inl e, n)"
proof (cases "neg_state n \<in> {NsOpen, NsCounterPending} \<and> a \<le> cq_valid_until q
    \<and> cq_from_account q \<in> {neg_requester n, neg_mm_account n}
    \<and> length (neg_rounds n) < unat (neg_max_rounds n)")
  case True
  with assms obtain p where "neg_latest_price n = Some p"
    "\<not> neg_improves D (neg_side n) p (cq_price q)" by (auto simp: neg_admits_def)
  then have "(case neg_latest_price n of None \<Rightarrow> Inr ()
      | Some p \<Rightarrow> neg_validate_price_improvement D n p (cq_price q))
      = Inl (NoPriceImprovement p (cq_price q))"
    by (simp add: neg_validate_price_improvement_def)
  then show ?thesis unfolding neg_submit_counter_def by simp
next
  case False
  then show ?thesis
    by (cases "neg_state n")
      (auto simp: neg_submit_counter_def ns_is_terminal_def cq_is_expired_def ts_is_expired_def)
qed

lemma neg_submit_counter_ok_iff:
  "fst (neg_submit_counter D a b c d q n) = Inr () \<longleftrightarrow> neg_admits D a q n"
proof (cases "neg_admits D a q n")
  case False
  then show ?thesis using neg_submit_counter_refused [OF False, of b c d] by auto
qed (simp add: neg_submit_counter_admitted)

section \<open>Invariant\<close>

definition neg_prices :: "'d negotiation \<Rightarrow> 'd price list" where
  "neg_prices n = map (\<lambda>x. cq_price (nr_counter_quote x)) (neg_rounds n)"

definition neg_inv :: "'d dec \<Rightarrow> 'd negotiation \<Rightarrow> bool" where
  "neg_inv D n \<longleftrightarrow>
     1 \<le> unat (neg_max_rounds n) \<and> unat (neg_max_rounds n) \<le> 10
   \<and> length (neg_rounds n) \<le> unat (neg_max_rounds n)
   \<and> map nr_round_number (neg_rounds n) = map of_nat [1..<Suc (length (neg_rounds n))]
   \<and> chained (neg_improves D (neg_side n)) (neg_prices n)
   \<and> (\<forall>x\<in>set (neg_rounds n).
        cq_from_account (nr_counter_quote x) \<in> {neg_requester n, neg_mm_account n})
   \<and> (\<forall>x\<in>set (butlast (neg_rounds n)). nr_accepted x = Some False)
   \<and> (neg_state n = NsOpen \<longrightarrow> neg_rounds n = [])
   \<and> (neg_state n = NsCounterPending \<longrightarrow>
        neg_rounds n \<noteq> [] \<and> \<not> nr_is_responded (last (neg_rounds n)))
   \<and> (neg_state n = NsAccepted \<longrightarrow>
        neg_rounds n \<noteq> [] \<and> nr_accepted (last (neg_rounds n)) = Some True)
   \<and> (neg_rounds n \<noteq> [] \<longrightarrow> nr_is_responded (last (neg_rounds n))
        = (nr_accepted (last (neg_rounds n)) \<noteq> None))"

lemma nr_simps [simp]:
  "nr_counter_quote (nr_respond t b x) = nr_counter_quote x"
  "nr_round_number (nr_respond t b x) = nr_round_number x"
  "nr_accepted (nr_respond t b x) = Some b" "nr_is_responded (nr_respond t b x)"
  "nr_counter_quote (nr_new k c) = c" "nr_round_number (nr_new k c) = k"
  "nr_accepted (nr_new k c) = None" "\<not> nr_is_responded (nr_new k c)"
  by (simp_all add: nr_respond_def nr_new_def nr_is_responded_def)

lemma neg_inv_updated [simp]: "neg_inv D (n\<lparr>neg_updated_at := u\<rparr>) = neg_inv D n"
  by (simp add: neg_inv_def neg_prices_def)

lemma neg_inv_updated' [simp]:
  "neg_inv D (n\<lparr>neg_state := s, neg_updated_at := u\<rparr>) = neg_inv D (n\<lparr>neg_state := s\<rparr>)"
  "neg_inv D (n\<lparr>neg_rounds := xs, neg_state := s, neg_updated_at := u\<rparr>)
     = neg_inv D (n\<lparr>neg_rounds := xs, neg_state := s\<rparr>)"
  by (simp_all add: neg_inv_def neg_prices_def)

text \<open>Answering the last round keeps everything but its answer.\<close>

lemma neg_answer_last_inv:
  assumes inv: "neg_inv D n" and f: "\<And>x. f x = x \<or> f x = nr_respond t b x"
    and st: "neg_state n = NsAccepted \<Longrightarrow> nr_accepted (f (last (neg_rounds n))) = Some True"
    and tgt: "s = NsAccepted \<Longrightarrow>
      neg_rounds n \<noteq> [] \<and> nr_accepted (f (last (neg_rounds n))) = Some True"
    and s: "s = neg_state n \<and> ns_is_terminal s \<or> ns_is_terminal s"
  shows "neg_inv D (n\<lparr> neg_rounds := update_last f (neg_rounds n), neg_state := s \<rparr>)"
proof -
  have cq: "nr_counter_quote (f x) = nr_counter_quote x"
    and num: "nr_round_number (f x) = nr_round_number x" for x
    using f [of x] by auto
  have resp: "nr_is_responded (f x) = (nr_accepted (f x) \<noteq> None)"
    if "nr_is_responded x = (nr_accepted x \<noteq> None)" for x
    using f [of x] that by auto
  show ?thesis
    using inv st tgt s
    by (cases "neg_rounds n" rule: rev_cases)
      (auto simp: neg_inv_def neg_prices_def cq num resp ns_is_terminal_def)
qed

lemma neg_extended_inv:
  assumes inv: "neg_inv D n" and ok: "neg_admits D a q n"
  shows "neg_inv D (neg_extended b u q n)"
proof -
  let ?f = "\<lambda>x. if nr_is_responded x then x else nr_respond b False x"
  have cq: "nr_counter_quote (?f x) = nr_counter_quote x"
    and num: "nr_round_number (?f x) = nr_round_number x" for x by auto
  have st: "neg_state n = NsOpen \<and> neg_rounds n = []
     \<or> neg_rounds n \<noteq> [] \<and> \<not> nr_is_responded (last (neg_rounds n))"
    using inv ok by (auto simp: neg_inv_def neg_admits_def)
  show ?thesis
  proof (cases "neg_rounds n" rule: rev_cases)
    case Nil
    then show ?thesis
      using inv ok by (auto simp: neg_inv_def neg_extended_def neg_close_pending_def
          neg_prices_def neg_admits_def)
  next
    case (snoc xs x)
    with st have "\<not> nr_is_responded x" by simp
    then show ?thesis
      using inv ok snoc
      by (auto simp: neg_inv_def neg_extended_def neg_close_pending_def neg_prices_def
          neg_admits_def neg_latest_price_def chained_snoc chained_snoc2)
  qed
qed

lemma neg_refused_transition [simp]:
  "ns_is_terminal (neg_state n) \<Longrightarrow> neg_transition_to t tgt n
     = (Inl (InvalidNegotiationStateTransition (neg_state n) tgt), n)"
  by (simp add: neg_transition_to_def ns.terminal_stuck)

lemma neg_terminal_target [simp]:
  "\<not> ns_is_terminal (neg_state n) \<Longrightarrow> ns_is_terminal tgt \<Longrightarrow>
     neg_transition_to t tgt n = (Inr (), n\<lparr> neg_state := tgt, neg_updated_at := t \<rparr>)"
  by (cases "neg_state n"; cases tgt)
    (simp_all add: neg_transition_to_def ns_can_transition_to_def ns_is_terminal_def)

lemma neg_accept_inv:
  assumes inv: "neg_inv D n"
  shows "neg_inv D (snd (neg_accept a b n))"
proof (cases "neg_rounds n = []")
  case False
  let ?xs = "update_last (nr_respond a True) (neg_rounds n)"
  have upd: "neg_inv D (n\<lparr> neg_rounds := ?xs, neg_state := s \<rparr>)" if "ns_is_terminal s" for s
    by (rule neg_answer_last_inv [OF inv]) (use False that in auto)
  show ?thesis
  proof (cases "ns_is_terminal (neg_state n)")
    case True
    then show ?thesis using upd [OF True] False by (simp add: neg_accept_def)
  next
    case False
    then show ?thesis using upd [of NsAccepted] \<open>neg_rounds n \<noteq> []\<close>
      by (simp add: neg_accept_def ns_is_terminal_def)
  qed
qed (use inv in \<open>simp add: neg_accept_def\<close>)

lemma neg_reject_inv:
  assumes inv: "neg_inv D n"
  shows "neg_inv D (snd (neg_reject a b n))"
proof -
  let ?f = "\<lambda>x. if nr_is_responded x then x else nr_respond a False x"
  let ?xs = "update_last ?f (neg_rounds n)"
  have acc: "neg_rounds n \<noteq> [] \<and> nr_accepted (?f (last (neg_rounds n))) = Some True"
    if "neg_state n = NsAccepted"
    using that inv by (auto simp: neg_inv_def)
  show ?thesis
  proof (cases "ns_is_terminal (neg_state n)")
    case True
    have "neg_inv D (n\<lparr> neg_rounds := ?xs, neg_state := neg_state n \<rparr>)"
      by (rule neg_answer_last_inv [OF inv]) (use True acc in auto)
    with True show ?thesis by (simp add: neg_reject_def neg_close_pending_def)
  next
    case False
    have "neg_inv D (n\<lparr> neg_rounds := ?xs, neg_state := NsRejected \<rparr>)"
      by (rule neg_answer_last_inv [OF inv]) (use acc in \<open>auto simp: ns_is_terminal_def\<close>)
    with False show ?thesis
      by (simp add: neg_reject_def neg_close_pending_def ns_is_terminal_def)
  qed
qed

lemma neg_expire_inv: "neg_inv D n \<Longrightarrow> neg_inv D (snd (neg_expire a n))"
  by (cases "ns_is_terminal (neg_state n)")
    (auto simp: neg_expire_def neg_inv_def neg_prices_def ns_is_terminal_def)

lemma neg_apply_inv: "neg_inv D n \<Longrightarrow> neg_inv D (snd (neg_apply D c n))"
proof (cases c)
  case (SubmitCounter a b c d q)
  assume inv: "neg_inv D n"
  show ?thesis
  proof (cases "neg_admits D a q n")
    case True
    then show ?thesis
      using SubmitCounter neg_extended_inv [OF inv True] by (simp add: neg_submit_counter_admitted)
  next
    case False
    then show ?thesis
      using SubmitCounter inv neg_submit_counter_refused [OF False, of b c d] by auto
  qed
qed (simp_all add: neg_accept_inv neg_reject_inv neg_expire_inv)

lemma neg_new_inv: "neg_new f now rid rq mm side k = Inr n \<Longrightarrow> neg_inv D n"
  by (auto simp: neg_new_def neg_inv_def neg_prices_def MAX_ALLOWED_ROUNDS_def not_less
      word_le_nat_alt unat_gt_0 Suc_le_eq split: if_splits)

lemma neg_run_inv: "neg_inv D n \<Longrightarrow> neg_inv D (run_ops (neg_apply D) cs n)"
  by (rule run_ops_invariant) (rule neg_apply_inv)

lemma neg_apply_moves:
  "neg_state (snd (neg_apply D c n)) = neg_state n
   \<or> ns_can_transition_to (neg_state n) (neg_state (snd (neg_apply D c n)))"
proof (cases c)
  case (SubmitCounter a b c' d q)
  then show ?thesis
  proof (cases "neg_admits D a q n")
    case True
    then have "neg_state n \<in> {NsOpen, NsCounterPending}" by (simp add: neg_admits_def)
    then show ?thesis using SubmitCounter True
      by (auto simp: neg_submit_counter_admitted neg_extended_def ns_can_transition_to_def)
  next
    case False
    then show ?thesis using SubmitCounter neg_submit_counter_refused [OF False, of b c' d] by auto
  qed
qed (auto simp: neg_accept_def neg_reject_def neg_expire_def neg_transition_to_def)

interpretation neg_agg: aggregate ns_can_transition_to ns_is_terminal "neg_apply D" neg_state
  for D :: "'d dec"
  by unfold_locales (rule neg_apply_moves)

lemma neg_apply_frame:
  "neg_max_rounds (snd (neg_apply D c n)) = neg_max_rounds n"
  "neg_side (snd (neg_apply D c n)) = neg_side n"
proof -
  have t: "neg_max_rounds (snd (neg_transition_to a s x)) = neg_max_rounds x"
    "neg_side (snd (neg_transition_to a s x)) = neg_side x" for a s and x :: "'a negotiation"
    by (simp_all add: neg_transition_to_def)
  have s: "neg_max_rounds (snd (neg_submit_counter D a b c d q n)) = neg_max_rounds n
      \<and> neg_side (snd (neg_submit_counter D a b c d q n)) = neg_side n" for a b c d q
    using neg_submit_counter_refused [of D a q n b c d]
    by (cases "neg_admits D a q n") (auto simp: neg_submit_counter_admitted neg_extended_def)
  show "neg_max_rounds (snd (neg_apply D c n)) = neg_max_rounds n"
    "neg_side (snd (neg_apply D c n)) = neg_side n"
    by (cases c; simp add: s neg_accept_def neg_reject_def neg_expire_def t neg_close_pending_def)+
qed

text \<open>The counter-quotes taken by a history of calls.\<close>

fun neg_taken :: "'d dec \<Rightarrow> 'd neg_cmd list \<Rightarrow> 'd negotiation \<Rightarrow> nat" where
  "neg_taken D [] n = 0"
| "neg_taken D (SubmitCounter a b c d q # cs) n =
     (case neg_submit_counter D a b c d q n of
        (Inr _, n') \<Rightarrow> Suc (neg_taken D cs n')
      | (Inl _, n') \<Rightarrow> neg_taken D cs n')"
| "neg_taken D (c # cs) n = neg_taken D cs (snd (neg_apply D c n))"

lemma neg_rounds_length:
  "length (neg_rounds (run_ops (neg_apply D) cs n)) = length (neg_rounds n) + neg_taken D cs n"
proof (induction D cs n rule: neg_taken.induct)
  case (2 D a b c d q cs n)
  show ?case
  proof (cases "neg_admits D a q n")
    case True
    then show ?thesis using 2 by (simp add: neg_submit_counter_admitted neg_extended_def)
  next
    case False
    then show ?thesis using 2 neg_submit_counter_refused [OF False, of b c d] by auto
  qed
qed (simp_all add: neg_accept_def neg_reject_def neg_expire_def neg_transition_to_def)

section \<open>Properties\<close>

definition sample_negotiation :: "int negotiation" where
  "sample_negotiation = \<lparr> neg_id = 3, neg_rfq_id = 7, neg_requester = ''client'',
     neg_mm_account = ''mm'', neg_side = Buy, neg_rounds = [], neg_max_rounds = 3,
     neg_state = NsOpen, neg_created_at = 100, neg_updated_at = 100 \<rparr>"

definition sample_counter :: "counterparty_id \<Rightarrow> int \<Rightarrow> uuid \<Rightarrow> int counter_quote" where
  "sample_counter acc p rid = \<lparr> cq_id = 4, cq_original_quote_id = 1, cq_rfq_id = rid,
     cq_from_account = acc, cq_price = Price p, cq_quantity = Quantity 5,
     cq_valid_until = 900, cq_round = 1, cq_created_at = 110 \<rparr>"

lemma sample_negotiation_new:
  "neg_new 3 100 7 ''client'' ''mm'' Buy 3 = Inr sample_negotiation"
  by (simp add: neg_new_def MAX_ALLOWED_ROUNDS_def sample_negotiation_def)

lemma transp_neg_improves: "dec_order D \<Longrightarrow> transp (neg_improves D side)"
  by (cases side) (auto simp: neg_improves_def price_lt_def intro!: transpI dest: dlt_trans)

text \<open>
  C21. Bargaining makes progress: after any history of calls on a constructed negotiation,
  every offer improves on every earlier one for the requester (a buyer's offers strictly
  fall, a seller's strictly rise), all come from the two participants, they are numbered
  from 1 without gaps, there are at most \<open>max_rounds\<close> and never more than 10 of them, all
  but the last are marked as not accepted, and an accepted negotiation has its last offer
  accepted.
\<close>
theorem negotiation_offers_improve:
  assumes "dec_order D" and "neg_new fresh now rid requester mm side max_rounds = Inr n"
    and "m = run_ops (neg_apply D) cs n"
  shows "sorted_wrt (neg_improves D side) (neg_prices m)
    \<and> (\<forall>x\<in>set (neg_rounds m). cq_from_account (nr_counter_quote x) \<in> {neg_requester m, neg_mm_account m})
    \<and> map nr_round_number (neg_rounds m) = map of_nat [1..<Suc (length (neg_rounds m))]
    \<and> (length (neg_rounds m) \<le> unat max_rounds \<and> length (neg_rounds m) \<le> 10)
    \<and> (\<forall>x\<in>set (butlast (neg_rounds m)). nr_accepted x = Some False)
    \<and> (neg_state m = NsAccepted \<longrightarrow>
           neg_rounds m \<noteq> [] \<and> nr_accepted (last (neg_rounds m)) = Some True)"
proof -
  have "neg_inv D n" using assms(2) by (rule neg_new_inv)
  then have inv: "neg_inv D m" using assms(3) neg_run_inv by blast
  have fr: "neg_side m = neg_side n \<and> neg_max_rounds m = neg_max_rounds n" unfolding assms(3)
    by (rule run_ops_invariant [where P = "\<lambda>x. neg_side x = neg_side n
        \<and> neg_max_rounds x = neg_max_rounds n"]) (simp_all add: neg_apply_frame)
  have n: "neg_side n = side" "neg_max_rounds n = max_rounds"
    using assms(2) by (auto simp: neg_new_def split: if_splits)
  have "chained (neg_improves D side) (neg_prices m)" using inv fr n by (simp add: neg_inv_def)
  with transp_neg_improves [OF assms(1)]
  have improve: "sorted_wrt (neg_improves D side) (neg_prices m)" by (rule chained_sorted_wrt)
  have rounds: "\<forall>x\<in>set (neg_rounds m). cq_from_account (nr_counter_quote x) \<in> {neg_requester m, neg_mm_account m}"
    "map nr_round_number (neg_rounds m) = map of_nat [1..<Suc (length (neg_rounds m))]"
    "\<forall>x\<in>set (butlast (neg_rounds m)). nr_accepted x = Some False"
    "neg_state m = NsAccepted \<longrightarrow>
       neg_rounds m \<noteq> [] \<and> nr_accepted (last (neg_rounds m)) = Some True"
    using inv unfolding neg_inv_def by blast+
  have few: "length (neg_rounds m) \<le> unat max_rounds \<and> length (neg_rounds m) \<le> 10"
    using inv fr n by (auto simp: neg_inv_def)
  from improve rounds few show ?thesis by blast
qed

lemma negotiation_offers_improve_witness:
  "sorted_wrt (neg_improves whole_dec Buy) (neg_prices (run_ops (neg_apply whole_dec)
     [SubmitCounter 101 102 103 104 (sample_counter ''mm'' 50 7),
      SubmitCounter 105 106 107 108 (sample_counter ''client'' 49 7)] sample_negotiation))"
  by (rule negotiation_offers_improve [OF whole_dec_order sample_negotiation_new refl, THEN conjunct1])

text \<open>
  Exactly the admissible counter-quotes are taken: \<open>submit_counter\<close> succeeds if and only
  if the negotiation is open or pending, the counter-quote has not expired, its sender is
  one of the two participants, a round is left and its price improves on the last one; the
  error for an overflowing round number cannot occur. It then appends one round and
  leaves the negotiation pending, and a refused counter-quote changes nothing.
\<close>
theorem submit_counter_exactly_admissible:
  "(fst (neg_submit_counter D a b c d q n) = Inr () \<longleftrightarrow>
     neg_state n \<in> {NsOpen, NsCounterPending} \<and> a \<le> cq_valid_until q
     \<and> cq_from_account q \<in> {neg_requester n, neg_mm_account n}
     \<and> length (neg_rounds n) < unat (neg_max_rounds n)
     \<and> \<not> (\<exists>p. neg_latest_price n = Some p \<and> \<not> neg_improves D (neg_side n) p (cq_price q)))
   \<and> snd (neg_submit_counter D a b c d q n) =
     (if neg_admits D a q n
      then neg_extended b (if neg_state n = NsOpen then c else d) q n else n)"
proof (rule conjI)
  show "fst (neg_submit_counter D a b c d q n) = Inr () \<longleftrightarrow>
     neg_state n \<in> {NsOpen, NsCounterPending} \<and> a \<le> cq_valid_until q
     \<and> cq_from_account q \<in> {neg_requester n, neg_mm_account n}
     \<and> length (neg_rounds n) < unat (neg_max_rounds n)
     \<and> \<not> (\<exists>p. neg_latest_price n = Some p \<and> \<not> neg_improves D (neg_side n) p (cq_price q))"
    unfolding neg_submit_counter_ok_iff neg_admits_def by blast
  show "snd (neg_submit_counter D a b c d q n) =
     (if neg_admits D a q n
      then neg_extended b (if neg_state n = NsOpen then c else d) q n else n)"
    using neg_submit_counter_refused [of D a q n b c d]
    by (auto simp: neg_submit_counter_admitted)
qed

text \<open>
  Bargaining ends: in any history of calls on a constructed negotiation at most
  \<open>max_rounds\<close>, hence at most 10, counter-quotes are taken.
\<close>
theorem negotiation_takes_boundedly_many:
  assumes "neg_new fresh now rid requester mm side max_rounds = Inr n"
  shows "neg_taken D cs n \<le> unat max_rounds \<and> unat max_rounds \<le> 10"
proof -
  let ?m = "run_ops (neg_apply D) cs n"
  have n: "neg_rounds n = []" "neg_max_rounds n = max_rounds"
    using assms by (auto simp: neg_new_def split: if_splits)
  have "neg_inv D ?m" using neg_run_inv [OF neg_new_inv [OF assms]] .
  moreover have "neg_max_rounds ?m = neg_max_rounds n"
    by (rule run_ops_invariant [where P = "\<lambda>x. neg_max_rounds x = neg_max_rounds n"])
      (simp_all add: neg_apply_frame)
  ultimately show ?thesis
    using n neg_rounds_length [of D cs n] by (simp add: neg_inv_def)
qed

lemma negotiation_takes_boundedly_many_witness:
  "neg_taken whole_dec [SubmitCounter 101 102 103 104 (sample_counter ''mm'' 50 7)]
     sample_negotiation \<le> unat (3 :: u8) \<and> unat (3 :: u8) \<le> 10"
  by (rule negotiation_takes_boundedly_many [OF sample_negotiation_new])

text \<open>
  A rejected negotiation can be made to read as accepted: \<open>accept\<close> on a negotiation that
  has already ended returns an error, but by then it has re-stamped the last round and set
  it to accepted, whatever it was before.
\<close>
theorem accept_after_end_rewrites_last_round:
  assumes "ns_is_terminal (neg_state n)" and "neg_rounds n \<noteq> []"
  shows "fst (neg_accept t u n) = Inl (InvalidNegotiationStateTransition (neg_state n) NsAccepted)
    \<and> neg_state (snd (neg_accept t u n)) = neg_state n
    \<and> nr_accepted (last (neg_rounds (snd (neg_accept t u n)))) = Some True
    \<and> nr_responded_at (last (neg_rounds (snd (neg_accept t u n)))) = Some t"
  using assms by (simp_all add: neg_accept_def update_last_def nr_respond_def)

lemma accept_after_end_rewrites_last_round_witness:
  "nr_accepted (last (neg_rounds (snd (neg_accept 120 121 (run_ops (neg_apply whole_dec)
     [SubmitCounter 101 102 103 104 (sample_counter ''mm'' 50 7), RejectNeg 110 111]
     sample_negotiation))))) = Some True"
  by (rule accept_after_end_rewrites_last_round [THEN conjunct2, THEN conjunct2, THEN conjunct1])
    (simp_all add: neg_submit_counter_admitted neg_admits_def sample_negotiation_def
      sample_counter_def neg_latest_price_def neg_extended_def neg_close_pending_def
      neg_reject_def neg_transition_to_def ns_can_transition_to_def ns_is_terminal_def)

text \<open>
  The RFQ a counter-quote was made for is not looked at: a counter-quote naming any other
  RFQ is taken or refused exactly as the same offer for the RFQ under negotiation, unlike a
  quote, which \<open>Rfq::receive_quote\<close> refuses.
\<close>
theorem submit_counter_ignores_rfq:
  "fst (neg_submit_counter D a b c d (q\<lparr>cq_rfq_id := other\<rparr>) n) = Inr ()
     \<longleftrightarrow> fst (neg_submit_counter D a b c d q n) = Inr ()"
  by (simp add: neg_submit_counter_ok_iff neg_admits_def)

end
