(* ===== verification/Trades.thy ===== *)
theory Trades
  imports Errors
begin

text \<open>
  \<open>src/domain/entities/trade.rs\<close>: a trade and its settlement.
\<close>

section \<open>State\<close>

record 'd fee_breakdown =
  fb_taker_fee :: 'd
  fb_maker_fee :: 'd
  fb_net_fee :: 'd
  fb_volume_discount_applied :: "u8 option"

record 'd trade =
  trade_id :: uuid
  trade_rfq_id :: uuid
  trade_quote_id :: uuid
  trade_venue_id :: venue_id
  trade_price :: "'d price"
  trade_quantity :: "'d quantity"
  trade_venue_execution_ref :: "string option"
  trade_settlement_state :: settlement_state
  trade_settlement_tx_ref :: "string option"
  trade_failure_reason :: "string option"
  trade_version :: u64
  trade_created_at :: timestamp
  trade_updated_at :: timestamp
  trade_taker_fee :: "'d option"
  trade_maker_fee :: "'d option"
  trade_net_fee :: "'d option"

definition trade_new :: "uuid \<Rightarrow> timestamp \<Rightarrow> uuid \<Rightarrow> uuid \<Rightarrow> venue_id \<Rightarrow> 'd price
    \<Rightarrow> 'd quantity \<Rightarrow> 'd trade" where
  "trade_new fresh now rid qid venue p q = \<lparr> trade_id = fresh, trade_rfq_id = rid,
     trade_quote_id = qid, trade_venue_id = venue, trade_price = p, trade_quantity = q,
     trade_venue_execution_ref = None, trade_settlement_state = SsPending,
     trade_settlement_tx_ref = None, trade_failure_reason = None, trade_version = 1,
     trade_created_at = now, trade_updated_at = now, trade_taker_fee = None,
     trade_maker_fee = None, trade_net_fee = None \<rparr>"

definition trade_with_venue_ref :: "uuid \<Rightarrow> timestamp \<Rightarrow> uuid \<Rightarrow> uuid \<Rightarrow> venue_id
    \<Rightarrow> 'd price \<Rightarrow> 'd quantity \<Rightarrow> string \<Rightarrow> 'd trade" where
  "trade_with_venue_ref fresh now rid qid venue p q execution_ref =
     (trade_new fresh now rid qid venue p q)\<lparr>trade_venue_execution_ref := Some execution_ref\<rparr>"

section \<open>Methods\<close>

definition trade_transition_to :: "timestamp \<Rightarrow> settlement_state \<Rightarrow> ('d trade, 'd) mutation" where
  "trade_transition_to now target t =
     (if \<not> ss_can_transition_to (trade_settlement_state t) target
      then (Inl (InvalidState (Fmt ''cannot transition from {} to {}''
              [ArgSettlementState (trade_settlement_state t), ArgSettlementState target])), t)
      else (Inr (), t\<lparr> trade_settlement_state := target, trade_updated_at := now,
                      trade_version := sat_add (trade_version t) 1 \<rparr>))"

definition trade_start_settlement :: "timestamp \<Rightarrow> ('d trade, 'd) mutation" where
  "trade_start_settlement now = trade_transition_to now SsInProgress"

text \<open>The reference, or the reason, is written before the transition is checked.\<close>

definition trade_confirm_settlement :: "timestamp \<Rightarrow> string \<Rightarrow> ('d trade, 'd) mutation" where
  "trade_confirm_settlement now tx_ref t =
     trade_transition_to now SsSettled (t\<lparr>trade_settlement_tx_ref := Some tx_ref\<rparr>)"

definition trade_fail_settlement :: "timestamp \<Rightarrow> string \<Rightarrow> ('d trade, 'd) mutation" where
  "trade_fail_settlement now reason t =
     trade_transition_to now SsFailed (t\<lparr>trade_failure_reason := Some reason\<rparr>)"

definition trade_set_fees :: "'d fee_breakdown \<Rightarrow> ('d trade, 'd) mutation" where
  "trade_set_fees b t = (Inr (), t\<lparr> trade_taker_fee := Some (fb_taker_fee b),
     trade_maker_fee := Some (fb_maker_fee b), trade_net_fee := Some (fb_net_fee b) \<rparr>)"

definition trade_has_fees :: "'d trade \<Rightarrow> bool" where
  "trade_has_fees t \<longleftrightarrow> trade_taker_fee t \<noteq> None"

definition trade_total_value :: "'d dec \<Rightarrow> 'd trade \<Rightarrow> 'd price option" where
  "trade_total_value D t =
     (case price_safe_mul D (trade_price t) (quantity_get (trade_quantity t)) of
        Inl _ \<Rightarrow> None | Inr p \<Rightarrow> Some p)"

datatype 'd trade_cmd =
    StartSettlement timestamp
  | ConfirmSettlement timestamp string
  | FailSettlement timestamp string
  | SetFees "'d fee_breakdown"

fun trade_apply :: "'d trade_cmd \<Rightarrow> ('d trade, 'd) mutation" where
  "trade_apply (StartSettlement t) = trade_start_settlement t"
| "trade_apply (ConfirmSettlement t r) = trade_confirm_settlement t r"
| "trade_apply (FailSettlement t r) = trade_fail_settlement t r"
| "trade_apply (SetFees b) = trade_set_fees b"

lemmas trade_op_defs =
  trade_start_settlement_def trade_confirm_settlement_def trade_fail_settlement_def
  trade_set_fees_def trade_transition_to_def ss_can_transition_to_def

section \<open>Invariant\<close>

text \<open>
  A settled trade names its settlement transaction, a failed one its reason, and a trade is
  never both; fees are set together.
\<close>

definition trade_inv :: "'d trade \<Rightarrow> bool" where
  "trade_inv t \<longleftrightarrow>
     (trade_settlement_state t = SsSettled \<longrightarrow> trade_settlement_tx_ref t \<noteq> None)
   \<and> (trade_settlement_state t = SsFailed \<longrightarrow> trade_failure_reason t \<noteq> None)
   \<and> (trade_taker_fee t = None \<longleftrightarrow> trade_maker_fee t = None)
   \<and> (trade_taker_fee t = None \<longleftrightarrow> trade_net_fee t = None)"

lemma trade_apply_inv: "trade_inv t \<Longrightarrow> trade_inv (snd (trade_apply c t))"
  by (cases c; cases "trade_settlement_state t") (auto simp: trade_inv_def trade_op_defs)

lemma trade_new_inv: "trade_inv (trade_new fresh now rid qid v p q)"
  by (simp add: trade_inv_def trade_new_def)

lemma trade_apply_moves:
  "trade_settlement_state (snd (trade_apply c t)) = trade_settlement_state t
   \<or> ss_can_transition_to (trade_settlement_state t)
       (trade_settlement_state (snd (trade_apply c t)))"
  by (cases c) (auto simp: trade_op_defs)

interpretation trade_agg: aggregate ss_can_transition_to ss_is_terminal trade_apply
    trade_settlement_state
  by unfold_locales (rule trade_apply_moves)

lemma trade_apply_frame:
  "trade_id (snd (trade_apply c t)) = trade_id t"
  "trade_rfq_id (snd (trade_apply c t)) = trade_rfq_id t"
  "trade_quote_id (snd (trade_apply c t)) = trade_quote_id t"
  "trade_price (snd (trade_apply c t)) = trade_price t"
  "trade_quantity (snd (trade_apply c t)) = trade_quantity t"
  by (cases c; auto simp: trade_op_defs)+

section \<open>Properties\<close>

definition sample_trade :: "int trade" where
  "sample_trade = trade_new 9 100 7 1 ''venue'' (Price 50) (Quantity 5)"

text \<open>
  Settlement is a one-way street: after any history of calls a new trade has kept its
  identity, price and quantity, its settlement state is one the table reaches from pending,
  a settled trade carries a transaction reference, a failed one a reason, and once settled
  or failed no further call changes the outcome.
\<close>
theorem trade_settlement_history:
  assumes "m = run_ops trade_apply cs (trade_new fresh now rid qid venue p q)"
  shows "trade_inv m
    \<and> (trade_id m = fresh \<and> trade_rfq_id m = rid \<and> trade_quote_id m = qid
       \<and> trade_price m = p \<and> trade_quantity m = q)
    \<and> ss_can_transition_to\<^sup>*\<^sup>* SsPending (trade_settlement_state m)
    \<and> (trade_settlement_state m \<in> {SsSettled, SsFailed} \<longrightarrow>
       trade_settlement_state (run_ops trade_apply later m) = trade_settlement_state m)"
proof -
  let ?n = "trade_new fresh now rid qid venue p q"
  have inv: "trade_inv m" unfolding assms
    by (rule run_ops_invariant) (simp_all add: trade_apply_inv trade_new_inv)
  have kept: "trade_id m = fresh \<and> trade_rfq_id m = rid \<and> trade_quote_id m = qid
       \<and> trade_price m = p \<and> trade_quantity m = q" unfolding assms
    by (rule run_ops_invariant [where P = "\<lambda>t. trade_id t = fresh \<and> trade_rfq_id t = rid
        \<and> trade_quote_id t = qid \<and> trade_price t = p \<and> trade_quantity t = q"])
      (simp_all add: trade_apply_frame, simp add: trade_new_def)
  have reach: "ss_can_transition_to\<^sup>*\<^sup>* SsPending (trade_settlement_state m)"
    using trade_agg.run_reach [of ?n cs] by (simp add: assms trade_new_def)
  have final: "trade_settlement_state m \<in> {SsSettled, SsFailed} \<longrightarrow>
       trade_settlement_state (run_ops trade_apply later m) = trade_settlement_state m"
    using trade_agg.terminal_run [of m later] by (auto simp: ss_is_terminal_def)
  from inv kept reach final show ?thesis by simp
qed

lemma trade_settlement_history_witness:
  "trade_inv (run_ops trade_apply [StartSettlement 101, ConfirmSettlement 102 ''0xab'']
     (trade_new 9 100 7 1 ''venue'' (Price 50) (Quantity (5::int))))"
  by (rule trade_settlement_history [OF refl, THEN conjunct1])

text \<open>
  The proof of settlement can be overwritten: \<open>confirm_settlement\<close> on a trade that is
  already settled (or failed, or not yet in progress) returns an error and changes only the
  transaction reference, which it has replaced by the new one; \<open>fail_settlement\<close> does the
  same to the failure reason.
\<close>
theorem confirm_settlement_overwrites_reference:
  assumes "trade_settlement_state t \<noteq> SsInProgress"
  shows "trade_confirm_settlement now tx_ref t =
      (Inl (InvalidState (Fmt ''cannot transition from {} to {}''
         [ArgSettlementState (trade_settlement_state t), ArgSettlementState SsSettled])),
       t\<lparr>trade_settlement_tx_ref := Some tx_ref\<rparr>)
    \<and> trade_fail_settlement now reason t =
      (Inl (InvalidState (Fmt ''cannot transition from {} to {}''
         [ArgSettlementState (trade_settlement_state t), ArgSettlementState SsFailed])),
       t\<lparr>trade_failure_reason := Some reason\<rparr>)"
  using assms by (cases "trade_settlement_state t"; simp add: trade_op_defs)

lemma confirm_settlement_overwrites_reference_witness:
  "snd (trade_confirm_settlement 110 ''0xcd'' (sample_trade\<lparr>
       trade_settlement_state := SsSettled, trade_settlement_tx_ref := Some ''0xab''\<rparr>))
     = sample_trade\<lparr>trade_settlement_state := SsSettled, trade_settlement_tx_ref := Some ''0xcd''\<rparr>"
  using confirm_settlement_overwrites_reference [of "sample_trade\<lparr>
       trade_settlement_state := SsSettled, trade_settlement_tx_ref := Some ''0xab''\<rparr>" 110 "''0xcd''"]
  by simp

end
