(* ===== verification/Float64.thy ===== *)
theory Float64
  imports Complex_Main "HOL-Library.Log_Nat"
begin

text \<open>
  Rust's \<open>f64\<close>: IEEE 754 double precision with rounding to nearest, ties to even, as executable
  definitions over rational numbers. A finite value is the rational it denotes; the two zeros
  are one value (the modelled code neither divides by a zero nor asks for its sign), and all
  NaNs are one.
\<close>

section \<open>Rounding\<close>

text \<open>The greatest \<open>e\<close> with \<open>2 ^ e \<le> x\<close>, for positive \<open>x\<close>.\<close>

definition binexp :: "rat \<Rightarrow> int" where
  "binexp x = (let (p, q) = quotient_of x;
     k = int (floorlog 2 (nat p)) - int (floorlog 2 (nat q)) in
     if 2 powi k \<le> x then k else k - 1)"

definition half_even :: "rat \<Rightarrow> int" where
  "half_even x = (let f = \<lfloor>x\<rfloor>; d = x - of_int f in
     if d < 1 / 2 then f else if 1 / 2 < d then f + 1 else if even f then f else f + 1)"

text \<open>The distance of neighbouring values at \<open>x\<close>: 53 bits of precision, subnormal below \<open>2 ^ - 1022\<close>.\<close>

definition unit_exp :: "rat \<Rightarrow> int" where
  "unit_exp x = max (binexp \<bar>x\<bar> - 52) (- 1074)"

definition rnd :: "rat \<Rightarrow> rat" where
  "rnd x = (if x = 0 then 0 else of_int (half_even (x / 2 powi unit_exp x)) * 2 powi unit_exp x)"

datatype f64 = NaN | Inf bool | Fin rat

text \<open>\<open>Inf True\<close> is minus infinity.\<close>

definition rnd64 :: "rat \<Rightarrow> f64" where
  "rnd64 x = (let r = rnd x in if 2 ^ 1024 \<le> \<bar>r\<bar> then Inf (r < 0) else Fin r)"

section \<open>Operations\<close>

text \<open>The comparison \<open><\<close>; \<open>partial_cmp\<close> is \<open>None\<close> where NaN is involved.\<close>

fun f_lt :: "f64 \<Rightarrow> f64 \<Rightarrow> bool" where
  "f_lt NaN b \<longleftrightarrow> False"
| "f_lt a NaN \<longleftrightarrow> False"
| "f_lt (Fin a) (Fin b) \<longleftrightarrow> a < b"
| "f_lt (Inf n) (Inf m) \<longleftrightarrow> n \<and> \<not> m"
| "f_lt (Inf n) (Fin b) \<longleftrightarrow> n"
| "f_lt (Fin a) (Inf m) \<longleftrightarrow> \<not> m"

fun f_eq :: "f64 \<Rightarrow> f64 \<Rightarrow> bool" where
  "f_eq NaN b \<longleftrightarrow> False"
| "f_eq a NaN \<longleftrightarrow> False"
| "f_eq a b \<longleftrightarrow> a = b"

definition f_le :: "f64 \<Rightarrow> f64 \<Rightarrow> bool" where
  "f_le a b \<longleftrightarrow> f_lt a b \<or> f_eq a b"

fun f_finite :: "f64 \<Rightarrow> bool" where
  "f_finite (Fin x) = True"
| "f_finite _ = False"

fun f_neg :: "f64 \<Rightarrow> f64" where
  "f_neg NaN = NaN"
| "f_neg (Inf n) = Inf (\<not> n)"
| "f_neg (Fin a) = Fin (- a)"

fun f_abs :: "f64 \<Rightarrow> f64" where
  "f_abs NaN = NaN"
| "f_abs (Inf n) = Inf False"
| "f_abs (Fin a) = Fin \<bar>a\<bar>"

fun f_add :: "f64 \<Rightarrow> f64 \<Rightarrow> f64" where
  "f_add NaN b = NaN"
| "f_add a NaN = NaN"
| "f_add (Fin a) (Fin b) = rnd64 (a + b)"
| "f_add (Inf n) (Inf m) = (if n = m then Inf n else NaN)"
| "f_add (Inf n) (Fin b) = Inf n"
| "f_add (Fin a) (Inf m) = Inf m"

definition f_sub :: "f64 \<Rightarrow> f64 \<Rightarrow> f64" where
  "f_sub a b = f_add a (f_neg b)"

fun f_mul :: "f64 \<Rightarrow> f64 \<Rightarrow> f64" where
  "f_mul NaN b = NaN"
| "f_mul a NaN = NaN"
| "f_mul (Fin a) (Fin b) = rnd64 (a * b)"
| "f_mul (Inf n) (Inf m) = Inf (n \<noteq> m)"
| "f_mul (Inf n) (Fin b) = (if b = 0 then NaN else Inf (n \<noteq> (b < 0)))"
| "f_mul (Fin a) (Inf m) = (if a = 0 then NaN else Inf (m \<noteq> (a < 0)))"

text \<open>A divisor that is zero is taken as plus zero.\<close>

fun f_div :: "f64 \<Rightarrow> f64 \<Rightarrow> f64" where
  "f_div NaN b = NaN"
| "f_div a NaN = NaN"
| "f_div (Fin a) (Fin b) = (if b = 0 then if a = 0 then NaN else Inf (a < 0) else rnd64 (a / b))"
| "f_div (Inf n) (Inf m) = NaN"
| "f_div (Inf n) (Fin b) = Inf (n \<noteq> (b < 0))"
| "f_div (Fin a) (Inf m) = Fin 0"

text \<open>\<open>f64::min\<close> and \<open>f64::max\<close> ignore a NaN.\<close>

fun f_min :: "f64 \<Rightarrow> f64 \<Rightarrow> f64" where
  "f_min NaN b = b"
| "f_min a NaN = a"
| "f_min a b = (if f_lt b a then b else a)"

fun f_max :: "f64 \<Rightarrow> f64 \<Rightarrow> f64" where
  "f_max NaN b = b"
| "f_max a NaN = a"
| "f_max a b = (if f_lt a b then b else a)"

definition f_clamp :: "f64 \<Rightarrow> f64 \<Rightarrow> f64 \<Rightarrow> f64" where
  "f_clamp a lo hi = (if f_lt a lo then lo else if f_lt hi a then hi else a)"

text \<open>The fractional part, with the sign of the value.\<close>

fun f_fract :: "f64 \<Rightarrow> f64" where
  "f_fract (Fin a) = Fin (if 0 \<le> a then a - of_int \<lfloor>a\<rfloor> else a - of_int \<lceil>a\<rceil>)"
| "f_fract a = NaN"

text \<open>A decimal literal, and an integer cast.\<close>

abbreviation lit :: "rat \<Rightarrow> f64" where
  "lit \<equiv> rnd64"

abbreviation f_of_int :: "int \<Rightarrow> f64" where
  "f_of_int n \<equiv> rnd64 (of_int n)"

definition f_epsilon :: f64 where
  "f_epsilon = Fin (1 / 2 ^ 52)"

section \<open>Facts of rounding\<close>

lemma half_even_int [simp]: "half_even (of_int n) = n"
  by (simp add: half_even_def)

lemma half_even_numeral [simp]: "half_even 0 = 0" "half_even 1 = 1" "half_even (numeral k) = numeral k"
  using half_even_int [of 0] half_even_int [of 1] half_even_int [of "numeral k"] by simp_all

lemma half_even_bounds: "\<lfloor>x\<rfloor> \<le> half_even x" "half_even x \<le> \<lfloor>x\<rfloor> + 1" "half_even x \<le> \<lceil>x\<rceil>"
proof -
  show "\<lfloor>x\<rfloor> \<le> half_even x" "half_even x \<le> \<lfloor>x\<rfloor> + 1" by (auto simp: half_even_def Let_def)
  show "half_even x \<le> \<lceil>x\<rceil>"
  proof (cases "x = of_int \<lfloor>x\<rfloor>")
    case True
    then show ?thesis by (metis half_even_int ceiling_of_int order_refl)
  next
    case False
    then have "\<lceil>x\<rceil> = \<lfloor>x\<rfloor> + 1" by (simp add: ceiling_altdef)
    then show ?thesis by (simp add: half_even_def Let_def)
  qed
qed

lemma half_even_mono:
  assumes "x \<le> y"
  shows "half_even x \<le> half_even y"
proof (cases "\<lfloor>x\<rfloor> = \<lfloor>y\<rfloor>")
  case True
  then have "x - of_int \<lfloor>x\<rfloor> \<le> y - of_int \<lfloor>y\<rfloor>" using assms by simp
  then show ?thesis using True by (auto simp: half_even_def Let_def)
next
  case False
  then have "\<lfloor>x\<rfloor> + 1 \<le> \<lfloor>y\<rfloor>" using floor_mono [OF assms] by simp
  then show ?thesis using half_even_bounds(2) [of x] half_even_bounds(1) [of y] by linarith
qed

lemma floorlog_powi:
  assumes "0 < p"
  shows "2 powi (int (floorlog 2 (nat p)) - 1) \<le> (of_int p :: rat)"
    and "(of_int p :: rat) < 2 powi int (floorlog 2 (nat p))"
proof -
  let ?l = "floorlog 2 (nat p)"
  have b: "2 ^ (?l - 1) \<le> nat p" "nat p < 2 ^ ?l"
    using floorlog_bounds [of "nat p" 2] assms by simp_all
  have "?l \<noteq> 0" using assms by (simp add: floorlog_eq_zero_iff)
  then have l: "int ?l - 1 = int (?l - 1)" by simp
  have p: "(of_int p :: rat) = of_nat (nat p)" using assms by simp
  have "(2 ^ (?l - 1) :: rat) \<le> of_nat (nat p)" "of_nat (nat p) < (2 ^ ?l :: rat)"
    using b by (metis of_nat_le_iff of_nat_numeral of_nat_power, metis of_nat_less_iff of_nat_numeral of_nat_power)
  then show "2 powi (int ?l - 1) \<le> (of_int p :: rat)" "(of_int p :: rat) < 2 powi int ?l"
    unfolding l p by simp_all
qed

lemma binexp_bounds:
  assumes "0 < x"
  shows "2 powi binexp x \<le> x" "x < 2 powi (binexp x + 1)"
proof -
  obtain p q where pq: "quotient_of x = (p, q)" by fastforce
  then have x: "x = of_int p / of_int q" "0 < q" by (simp_all add: quotient_of_div quotient_of_denom_pos)
  then have "0 < p" using assms by (simp add: zero_less_divide_iff)
  let ?lp = "int (floorlog 2 (nat p))" and ?lq = "int (floorlog 2 (nat q))"
  note p = floorlog_powi [OF \<open>0 < p\<close>] and q = floorlog_powi [OF \<open>0 < q\<close>]
  have pos: "0 < (2 :: rat) powi n" for n by simp
  have "x < 2 powi ?lp / 2 powi (?lq - 1)"
    unfolding x(1) using p(2) q(1) pos by (intro frac_less) (use \<open>0 < p\<close> in simp_all)
  also have "\<dots> = 2 powi (?lp - (?lq - 1))" by (rule power_int_diff [symmetric]) simp
  finally have up: "x < 2 powi (?lp - ?lq + 1)" by (simp only: diff_diff_eq2 add_diff_eq) (simp add: algebra_simps)
  have "2 powi (?lp - 1) / 2 powi ?lq \<le> x"
    unfolding x(1) using p(1) q(2) pos \<open>0 < q\<close> \<open>0 < p\<close> by (intro frac_le) simp_all
  moreover have "2 powi (?lp - 1) / 2 powi ?lq = (2 :: rat) powi (?lp - 1 - ?lq)"
    by (rule power_int_diff [symmetric]) simp
  ultimately have low: "2 powi (?lp - ?lq - 1) \<le> x" by (simp only: algebra_simps)
  show "2 powi binexp x \<le> x" "x < 2 powi (binexp x + 1)"
    using up low by (auto simp: binexp_def pq Let_def)
qed

lemma binexp_mono:
  assumes "0 < x" "x \<le> y"
  shows "binexp x \<le> binexp y"
proof (rule ccontr)
  assume "\<not> binexp x \<le> binexp y"
  then have "binexp y + 1 \<le> binexp x" by simp
  then have "(2 :: rat) powi (binexp y + 1) \<le> 2 powi binexp x" by (intro power_int_increasing) simp_all
  then show False using binexp_bounds [of x] binexp_bounds [of y] assms by simp
qed

text \<open>A multiple of the unit bounds the rounded value on the same side.\<close>

lemma powi_int_multiple: "0 \<le> n \<Longrightarrow> \<exists>k::int. (2 :: rat) powi n = of_int k"
  by (rule exI [of _ "2 ^ nat n"]) (simp add: power_int_def)

lemma rnd_le_bound:
  assumes "0 < x" "x \<le> 2 powi e" "unit_exp x \<le> e"
  shows "rnd x \<le> 2 powi e"
proof -
  let ?u = "2 powi unit_exp x :: rat"
  obtain k where k: "(2 :: rat) powi (e - unit_exp x) = of_int k"
    using powi_int_multiple [of "e - unit_exp x"] assms(3) by auto
  have e: "2 powi e / ?u = of_int k" unfolding k [symmetric] by (rule power_int_diff [symmetric]) simp
  have "half_even (x / ?u) \<le> half_even (2 powi e / ?u)"
    by (intro half_even_mono divide_right_mono assms(2)) simp
  then have "of_int (half_even (x / ?u)) * ?u \<le> of_int k * ?u"
    by (intro mult_right_mono) (simp_all add: e)
  also have "of_int k * ?u = 2 powi e" unfolding e [symmetric] by simp
  finally show ?thesis using assms(1) by (simp add: rnd_def)
qed

lemma rnd_ge_bound:
  assumes "0 < x" "2 powi e \<le> x" "unit_exp x \<le> e"
  shows "2 powi e \<le> rnd x"
proof -
  let ?u = "2 powi unit_exp x :: rat"
  obtain k where k: "(2 :: rat) powi (e - unit_exp x) = of_int k"
    using powi_int_multiple [of "e - unit_exp x"] assms(3) by auto
  have e: "2 powi e / ?u = of_int k" unfolding k [symmetric] by (rule power_int_diff [symmetric]) simp
  have "half_even (2 powi e / ?u) \<le> half_even (x / ?u)"
    by (intro half_even_mono divide_right_mono assms(2)) simp
  then have "of_int k * ?u \<le> of_int (half_even (x / ?u)) * ?u"
    by (intro mult_right_mono) (simp_all add: e)
  moreover have "of_int k * ?u = 2 powi e" unfolding e [symmetric] by simp
  ultimately show ?thesis using assms(1) by (simp add: rnd_def)
qed

lemma rnd_nonneg: "0 \<le> x \<Longrightarrow> 0 \<le> rnd x"
  using half_even_mono [of 0 "x / 2 powi unit_exp x"] by (simp add: rnd_def)

lemma rnd_mono_pos:
  assumes "0 < x" "x \<le> y"
  shows "rnd x \<le> rnd y"
proof (cases "unit_exp x = unit_exp y")
  case True
  let ?u = "2 powi unit_exp y :: rat"
  have "half_even (x / ?u) \<le> half_even (y / ?u)"
    by (intro half_even_mono divide_right_mono assms(2)) simp
  then show ?thesis using assms True by (simp add: rnd_def mult_right_mono)
next
  case False
  have "binexp x \<le> binexp y" by (rule binexp_mono [OF assms])
  then have e: "unit_exp x < unit_exp y" "unit_exp y = binexp y - 52"
    using False assms by (auto simp: unit_exp_def)
  then have "binexp x < binexp y" using assms by (auto simp: unit_exp_def)
  then have "(2 :: rat) powi (binexp x + 1) \<le> 2 powi binexp y" by (intro power_int_increasing) simp_all
  then have "x \<le> 2 powi binexp y" using binexp_bounds(2) [OF assms(1)] by simp
  then have "rnd x \<le> 2 powi binexp y" using assms(1) e by (intro rnd_le_bound) simp_all
  also have "\<dots> \<le> rnd y" using assms e(2) binexp_bounds(1) [of y] by (intro rnd_ge_bound) simp_all
  finally show ?thesis .
qed

lemma half_even_uminus: "half_even (- x) = - half_even x"
proof (cases "x = of_int \<lfloor>x\<rfloor>")
  case True
  then obtain n where "x = of_int n" by blast
  then show ?thesis using half_even_int [of n] half_even_int [of "- n"] by simp
next
  case False
  then have "\<lceil>x\<rceil> = \<lfloor>x\<rfloor> + 1" by (simp add: ceiling_altdef)
  then have "\<lfloor>- x\<rfloor> = - \<lfloor>x\<rfloor> - 1" by (simp add: floor_minus)
  then show ?thesis by (auto simp: half_even_def Let_def)
qed

lemma rnd_uminus [simp]: "rnd (- x) = - rnd x"
  by (simp add: rnd_def unit_exp_def half_even_uminus)

lemma rnd_0 [simp]: "rnd 0 = 0"
  by (simp add: rnd_def)

text \<open>Rounding is monotone.\<close>

lemma rnd_mono: "x \<le> y \<Longrightarrow> rnd x \<le> rnd y"
proof -
  assume "x \<le> y"
  consider "0 < x" | "x \<le> 0" "0 \<le> y" | "y < 0" by linarith
  then show ?thesis
  proof cases
    case 2
    then show ?thesis using rnd_nonneg [of y] rnd_nonneg [of "- x"] by simp
  next
    case 3
    then show ?thesis using rnd_mono_pos [of "- y" "- x"] \<open>x \<le> y\<close> by simp
  qed (rule rnd_mono_pos [OF _ \<open>x \<le> y\<close>])
qed

text \<open>Integers of at most 53 bits are exact.\<close>

lemma rnd_int:
  assumes "\<bar>n\<bar> < 2 ^ 53"
  shows "rnd (of_int n) = of_int n"
proof (cases "n = 0")
  case False
  let ?x = "of_int n :: rat"
  have "2 powi binexp \<bar>?x\<bar> \<le> \<bar>?x\<bar>" using False by (intro binexp_bounds) simp
  also have "\<dots> < 2 powi 53"
  proof -
    have "(of_int \<bar>n\<bar> :: rat) < of_int (2 ^ 53)" using assms by (simp only: of_int_less_iff)
    then show ?thesis by simp
  qed
  finally have less: "(2 :: rat) powi binexp \<bar>?x\<bar> < 2 powi 53" .
  have "binexp \<bar>?x\<bar> < 53"
    by (rule ccontr) (use less power_int_increasing [of 53 "binexp \<bar>?x\<bar>" "2 :: rat"] in simp)
  then have u: "unit_exp ?x \<le> 0" by (simp add: unit_exp_def)
  then obtain k where k: "(2 :: rat) powi (- unit_exp ?x) = of_int k"
    using powi_int_multiple [of "- unit_exp ?x"] by auto
  have exact: "?x / 2 powi unit_exp ?x = of_int (n * k)"
    unfolding of_int_mult k [symmetric] by (simp add: power_int_minus field_simps)
  then have "rnd ?x = of_int (n * k) * 2 powi unit_exp ?x" using False exact
    by (simp add: rnd_def del: of_int_mult)
  also have "\<dots> = ?x" unfolding of_int_mult k [symmetric] by (simp add: power_int_minus field_simps)
  finally show ?thesis .
qed simp

end
