(* ===== verification/Retrying.thy ===== *)
theory Retrying
  imports Prelude Float64
begin

text \<open>
  \<open>src/application/services/retry.rs\<close>: the retry policy with its exponential back-off in \<open>f64\<close>, and the retry loop with
  the pauses it sleeps. The operation is a closure that may answer differently at each call, so it is the
  sequence of its answers. The power function of the standard library, whose precision is not specified, and the
  random numbers of the jitter are parameters. Durations are whole milliseconds, as a \<open>u64\<close>.
\<close>

section \<open>The policy\<close>

record retry_policy =
  rtp_max_retries :: u32
  rtp_initial_delay_ms :: u64
  rtp_max_delay_ms :: u64
  rtp_backoff_multiplier :: f64
  rtp_jitter_factor :: f64

definition rtp_default :: retry_policy where
  "rtp_default = \<lparr> rtp_max_retries = 3, rtp_initial_delay_ms = 100, rtp_max_delay_ms = 10000,
     rtp_backoff_multiplier = lit 2, rtp_jitter_factor = lit (1 / 10) \<rparr>"

definition rtp_new :: "u32 \<Rightarrow> u64 \<Rightarrow> u64 \<Rightarrow> f64 \<Rightarrow> f64 \<Rightarrow> retry_policy" where
  "rtp_new max_retries initial_delay_ms max_delay_ms backoff_multiplier jitter_factor =
     \<lparr> rtp_max_retries = max_retries, rtp_initial_delay_ms = initial_delay_ms, rtp_max_delay_ms = max_delay_ms,
       rtp_backoff_multiplier = backoff_multiplier, rtp_jitter_factor = f_clamp jitter_factor (lit 0) (lit 1) \<rparr>"

definition rtp_no_retry :: retry_policy where
  "rtp_no_retry = rtp_default\<lparr> rtp_max_retries := 0 \<rparr>"

definition rtp_aggressive :: retry_policy where
  "rtp_aggressive = \<lparr> rtp_max_retries = 5, rtp_initial_delay_ms = 50, rtp_max_delay_ms = 5000,
     rtp_backoff_multiplier = lit (3 / 2), rtp_jitter_factor = lit (2 / 10) \<rparr>"

definition rtp_conservative :: retry_policy where
  "rtp_conservative = \<lparr> rtp_max_retries = 2, rtp_initial_delay_ms = 500, rtp_max_delay_ms = 30000,
     rtp_backoff_multiplier = lit 3, rtp_jitter_factor = lit (1 / 10) \<rparr>"

text \<open>\<open>as u64\<close>, which saturates and takes NaN to zero.\<close>

fun f_to_u64 :: "f64 \<Rightarrow> u64" where
  "f_to_u64 (Fin r) = (let n = (if r < 0 then 0 else \<lfloor>r\<rfloor>) in if n < 2 ^ 64 then word_of_int n else - 1)"
| "f_to_u64 (Inf negative) = (if negative then 0 else - 1)"
| "f_to_u64 NaN = 0"

definition calculate_delay :: "(f64 \<Rightarrow> int \<Rightarrow> f64) \<Rightarrow> retry_policy \<Rightarrow> u32 \<Rightarrow> u64" where
  "calculate_delay power_fn p attempt =
     (let base_delay = f_mul (f_of_int (uint (rtp_initial_delay_ms p))) (power_fn (rtp_backoff_multiplier p) (sint attempt));
          capped_delay = f_min base_delay (f_of_int (uint (rtp_max_delay_ms p))) in
      f_to_u64 capped_delay)"

text \<open>\<open>jitter\<close> is the random number in \<open>[0, 1)\<close>, drawn only where the jitter factor is positive.\<close>

definition calculate_delay_with_jitter :: "(f64 \<Rightarrow> int \<Rightarrow> f64) \<Rightarrow> retry_policy \<Rightarrow> u32 \<Rightarrow> f64 \<Rightarrow> u64" where
  "calculate_delay_with_jitter power_fn p attempt jitter =
     (let base_delay = calculate_delay power_fn p attempt in
      if f_le (rtp_jitter_factor p) (lit 0) then base_delay
      else
        let jitter_multiplier = f_sub (lit 1) (f_mul (rtp_jitter_factor p) jitter);
            jittered_ms = f_mul (f_of_int (uint base_delay)) jitter_multiplier in
        f_to_u64 (f_max jittered_ms (lit 1)))"

definition retry_should_retry :: "retry_policy \<Rightarrow> u32 \<Rightarrow> bool" where
  "retry_should_retry p attempts_made \<longleftrightarrow> attempts_made < rtp_max_retries p"

section \<open>The loop\<close>

datatype 'e retry_error = MaxRetriesExceeded 'e u32 | NonRetryable 'e u32

definition retry_into_inner :: "'e retry_error \<Rightarrow> 'e" where
  "retry_into_inner x = (case x of MaxRetriesExceeded e _ \<Rightarrow> e | NonRetryable e _ \<Rightarrow> e)"

definition retry_attempts :: "'e retry_error \<Rightarrow> u32" where
  "retry_attempts x = (case x of MaxRetriesExceeded _ n \<Rightarrow> n | NonRetryable _ n \<Rightarrow> n)"

text \<open>
  \<open>execute_with_retry\<close> from the head of its loop: \<open>attempts\<close> is the counter, \<open>slept\<close> the pauses so far, one between any two
  calls of the operation. The result comes with all pauses.
\<close>

function retry_loop :: "(f64 \<Rightarrow> int \<Rightarrow> f64) \<Rightarrow> retry_policy \<Rightarrow> ('e \<Rightarrow> bool) \<Rightarrow> (nat \<Rightarrow> 'e + 'a) \<Rightarrow> (nat \<Rightarrow> f64) \<Rightarrow> u32
    \<Rightarrow> u64 list \<Rightarrow> ('e retry_error + 'a) \<times> u64 list" where
  "retry_loop power_fn p is_retryable operation jitter attempts slept =
     (let attempts' = sat_add attempts 1 in
      case operation (length slept) of
        Inr result \<Rightarrow> (Inr result, slept)
      | Inl error \<Rightarrow>
          if \<not> is_retryable error then (Inl (NonRetryable error attempts'), slept)
          else if \<not> retry_should_retry p attempts'
          then (Inl (MaxRetriesExceeded error attempts'), slept)
          else
            let delay = calculate_delay_with_jitter power_fn p (if attempts' = 0 then 0 else attempts' - 1) (jitter (length slept)) in
            retry_loop power_fn p is_retryable operation jitter attempts' (slept @ [delay]))"
  by pat_completeness auto
termination
proof (relation "measure (\<lambda>(_, p, _, _, _, a, _). unat (rtp_max_retries p) - unat a)", simp, clarsimp)
  fix p :: retry_policy and a :: u32
  assume "retry_should_retry p (sat_add a 1)"
  then have "unat (sat_add a 1) < unat (rtp_max_retries p)" by (simp add: retry_should_retry_def word_less_nat_alt)
  moreover have "unat (rtp_max_retries p) < 2 ^ LENGTH(32)" by (rule unsigned_less)
  ultimately show "unat (rtp_max_retries p) - unat (sat_add a 1) < unat (rtp_max_retries p) - unat a"
    by (simp add: unat_sat_add min_def split: if_splits)
qed

declare retry_loop.simps [simp del]

definition execute_with_retry :: "(f64 \<Rightarrow> int \<Rightarrow> f64) \<Rightarrow> retry_policy \<Rightarrow> ('e \<Rightarrow> bool) \<Rightarrow> (nat \<Rightarrow> 'e + 'a) \<Rightarrow> (nat \<Rightarrow> f64)
    \<Rightarrow> ('e retry_error + 'a) \<times> u64 list" where
  "execute_with_retry power_fn p is_retryable operation jitter = retry_loop power_fn p is_retryable operation jitter 0 []"

section \<open>Reference semantics\<close>

text \<open>
  The first answer that settles the matter, a success or a final error, among the first
  \<open>max 1 max_retries\<close>; the last of these if there is none. Between the calls lie the delays of the policy.
\<close>

definition retry_settles :: "('e \<Rightarrow> bool) \<Rightarrow> 'e + 'a \<Rightarrow> bool" where
  "retry_settles is_retryable r = (case r of Inr _ \<Rightarrow> True | Inl e \<Rightarrow> \<not> is_retryable e)"

definition retry_budget :: "retry_policy \<Rightarrow> nat" where
  "retry_budget p = max 1 (unat (rtp_max_retries p))"

definition retry_pauses :: "(f64 \<Rightarrow> int \<Rightarrow> f64) \<Rightarrow> retry_policy \<Rightarrow> (nat \<Rightarrow> f64) \<Rightarrow> nat \<Rightarrow> u64 list" where
  "retry_pauses power_fn p jitter k = map (\<lambda>i. calculate_delay_with_jitter power_fn p (of_nat i) (jitter i)) [0..<k]"

definition retry_spec :: "retry_policy \<Rightarrow> ('e \<Rightarrow> bool) \<Rightarrow> (nat \<Rightarrow> 'e + 'a) \<Rightarrow> ('e retry_error + 'a) \<times> nat" where
  "retry_spec p is_retryable operation =
     (case find (\<lambda>i. retry_settles is_retryable (operation i)) [0..<retry_budget p] of
        Some i \<Rightarrow>
          (case operation i of
             Inr r \<Rightarrow> (Inr r, i)
           | Inl e \<Rightarrow> (Inl (NonRetryable e (of_nat (i + 1))), i))
      | None \<Rightarrow>
          (case operation (retry_budget p - 1) of
             Inr r \<Rightarrow> (Inr r, retry_budget p - 1)
           | Inl e \<Rightarrow> (Inl (MaxRetriesExceeded e (of_nat (retry_budget p))), retry_budget p - 1)))"

lemma retry_budget_bounds: "1 \<le> retry_budget p" "retry_budget p < 2 ^ 32"
  using unsigned_less [of "rtp_max_retries p"] by (auto simp: retry_budget_def)

lemma unat_of_nat_u32: "k < 2 ^ 32 \<Longrightarrow> unat (of_nat k :: u32) = k"
  by (simp add: unat_of_nat take_bit_nat_eq_self)

lemma sat_add_of_nat_u32: "k + 1 < 2 ^ 32 \<Longrightarrow> sat_add (of_nat k :: u32) 1 = of_nat (k + 1)"
  by (simp add: sat_add_def unat_of_nat_u32)

text \<open>One turn of the loop, with the counters in step.\<close>

lemma retry_loop_step:
  assumes "k < retry_budget p"
  shows "retry_loop power_fn p rt op j (of_nat k) (retry_pauses power_fn p j k) =
     (if retry_settles rt (op k) then
        (case op k of Inr r \<Rightarrow> (Inr r, retry_pauses power_fn p j k)
         | Inl e \<Rightarrow> (Inl (NonRetryable e (of_nat (k + 1))), retry_pauses power_fn p j k))
      else if k + 1 < retry_budget p then retry_loop power_fn p rt op j (of_nat (k + 1)) (retry_pauses power_fn p j (k + 1))
      else (case op k of Inr r \<Rightarrow> (Inr r, retry_pauses power_fn p j k)
            | Inl e \<Rightarrow> (Inl (MaxRetriesExceeded e (of_nat (k + 1))), retry_pauses power_fn p j k)))"
proof -
  have lt: "k + 1 < 2 ^ 32" using assms retry_budget_bounds(2) [of p] by linarith
  have nxt: "sat_add (of_nat k :: u32) 1 = of_nat (k + 1)" using lt by (rule sat_add_of_nat_u32)
  have should: "retry_should_retry p (of_nat (k + 1)) \<longleftrightarrow> k + 1 < retry_budget p"
    unfolding retry_should_retry_def word_less_nat_alt unat_of_nat_u32 [OF lt]
    by (auto simp: retry_budget_def)
  have nonzero: "(of_nat (k + 1) :: u32) \<noteq> 0"
    using unat_of_nat_u32 [OF lt] by (metis add_is_0 unsigned_0 zero_neq_one)
  have less_one: "(of_nat (k + 1) :: u32) - 1 = of_nat k" by simp
  have len: "length (retry_pauses power_fn p j k) = k" by (simp add: retry_pauses_def)
  have more: "retry_pauses power_fn p j k @ [calculate_delay_with_jitter power_fn p (of_nat k) (j k)] = retry_pauses power_fn p j (k + 1)"
    by (simp add: retry_pauses_def)
  show ?thesis
    by (subst retry_loop.simps, unfold Let_def nxt should len less_one if_not_P [OF nonzero] more)
      (simp add: retry_settles_def split: sum.split)
qed

lemma retry_loop_spec:
  assumes "k < retry_budget p" "\<forall>i<k. \<not> retry_settles rt (op i)"
  shows "retry_loop power_fn p rt op j (of_nat k) (retry_pauses power_fn p j k)
    = map_prod id (retry_pauses power_fn p j) (retry_spec p rt op)"
  using assms
proof (induction "retry_budget p - k" arbitrary: k rule: less_induct)
  case less
  have split: "[0..<retry_budget p] = [0..<k] @ k # [Suc k..<retry_budget p]"
    using less.prems(1) upt_add_eq_append [of 0 k "retry_budget p - k"] by (simp add: upt_conv_Cons)
  have none: "find (\<lambda>i. retry_settles rt (op i)) [0..<k] = None"
    using less.prems(2) by (simp add: find_None_all)
  have find_app: "find P (xs @ ys) = (case find P xs of None \<Rightarrow> find P ys | Some x \<Rightarrow> Some x)"
    for P :: "nat \<Rightarrow> bool" and xs ys by (induction xs) auto
  show ?case
  proof (cases "retry_settles rt (op k)")
    case True
    then show ?thesis
      using less.prems(1)
      by (simp add: retry_loop_step retry_spec_def split find_app none del: of_nat_add of_nat_Suc split: sum.split)
  next
    case False
    show ?thesis
    proof (cases "k + 1 < retry_budget p")
      case True
      have "\<forall>i<k + 1. \<not> retry_settles rt (op i)" using less.prems(2) False by (simp add: less_Suc_eq)
      moreover have "retry_budget p - (k + 1) < retry_budget p - k" using less.prems(1) by linarith
      ultimately have "retry_loop power_fn p rt op j (of_nat (k + 1)) (retry_pauses power_fn p j (k + 1))
          = map_prod id (retry_pauses power_fn p j) (retry_spec p rt op)"
        using less.hyps [OF _ True] by blast
      then show ?thesis using False True by (simp only: retry_loop_step [OF less.prems(1)] if_False if_True)
    next
      case last: False
      with less.prems(1) have b: "retry_budget p = k + 1" by simp
      then have none_all: "find (\<lambda>i. retry_settles rt (op i)) [0..<k + 1] = None"
        using False none by (simp add: find_app)
      show ?thesis
        unfolding retry_loop_step [OF less.prems(1)] retry_spec_def b none_all
        using False by (simp split: sum.split)
    qed
  qed
qed

lemma retry_spec_calls: "snd (retry_spec p rt op) < retry_budget p"
  using retry_budget_bounds(1) [of p]
  by (auto simp: retry_spec_def dest!: find_Some_iff_mem split: option.split sum.split)

lemma execute_with_retry_eq:
  "execute_with_retry power_fn p rt op j = map_prod id (retry_pauses power_fn p j) (retry_spec p rt op)"
  using retry_loop_spec [of 0 p rt op power_fn j] retry_budget_bounds(1) [of p]
  by (simp add: execute_with_retry_def retry_pauses_def)

lemma retry_spec_always_failing: "snd (retry_spec p (\<lambda>_. True) (\<lambda>_. Inl e)) + 1 = retry_budget p"
  using retry_budget_bounds(1) [of p]
  by (auto simp: retry_spec_def retry_settles_def dest!: find_Some_iff_mem split: option.split)

text \<open>What the specification says of the last call and of those before it.\<close>

lemma retry_unsettled: "\<not> retry_settles rt r \<longleftrightarrow> (\<exists>e. r = Inl e \<and> rt e)"
  by (auto simp: retry_settles_def split: sum.split)

lemma find_upt_Some:
  "find P [0..<n] = Some k \<Longrightarrow> k < n \<and> P k \<and> (\<forall>i<k. \<not> P i)"
  by (auto simp: find_Some_iff)

lemma retry_spec_answers:
  assumes "retry_spec p rt op = (result, k)"
  shows "(\<forall>i<k. \<not> retry_settles rt (op i)) \<and> (case result of
      Inr r \<Rightarrow> op k = Inr r
    | Inl (NonRetryable e n) \<Rightarrow> op k = Inl e \<and> \<not> rt e \<and> n = of_nat (k + 1)
    | Inl (MaxRetriesExceeded e n) \<Rightarrow> op k = Inl e \<and> rt e \<and> n = of_nat (k + 1) \<and> k + 1 = retry_budget p)"
proof (cases "find (\<lambda>i. retry_settles rt (op i)) [0..<retry_budget p]")
  case None
  then have fails: "\<not> retry_settles rt (op i)" if "i < retry_budget p" for i using that by (simp add: find_None_all)
  have "retry_budget p - 1 < retry_budget p" using retry_budget_bounds(1) [of p] by linarith
  from fails [OF this] obtain e where "op (retry_budget p - 1) = Inl e" "rt e" by (auto simp: retry_unsettled)
  moreover have "retry_budget p - 1 + 1 = retry_budget p" using retry_budget_bounds(1) [of p] by linarith
  ultimately show ?thesis
    using assms None fails unfolding retry_spec_def by (auto simp del: of_nat_diff)
next
  case (Some i)
  from find_upt_Some [OF Some] show ?thesis
    using assms Some by (auto simp: retry_spec_def retry_settles_def split: sum.splits)
qed

section \<open>The delays\<close>

lemma rnd_le_nat: "x \<le> of_int n \<Longrightarrow> \<bar>n\<bar> < 2 ^ 53 \<Longrightarrow> rnd x \<le> of_int n"
  using rnd_mono [of x "of_int n"] rnd_int [of n] by simp

lemma rnd64_le_int:
  assumes "x \<le> of_int n" "0 \<le> n" "n < 2 ^ 53"
  shows "rnd64 x = Inf True \<or> (\<exists>r. rnd64 x = Fin r \<and> r \<le> of_int n)"
proof -
  have le: "rnd x \<le> of_int n" using assms by (intro rnd_le_nat) simp_all
  have "(of_int n :: rat) < 2 ^ 1024" 
  proof -
    have "(of_int n :: rat) < of_int (2 ^ 53)" using assms(3) by (simp only: of_int_less_iff)
    also have "\<dots> \<le> 2 ^ 1024" by simp
    finally show ?thesis .
  qed
  then show ?thesis using le by (auto simp: rnd64_def Let_def abs_if split: if_splits)
qed

lemma f_of_int_exact: "0 \<le> n \<Longrightarrow> n < 2 ^ 53 \<Longrightarrow> f_of_int n = Fin (of_int n)"
  using rnd64_le_int [of "of_int n" n] rnd_int [of n] by (auto simp: rnd64_def Let_def split: if_splits)

lemma f_to_u64_Fin:
  assumes "r \<le> of_int n" "0 \<le> n" "n < 2 ^ 53"
  shows "uint (f_to_u64 (Fin r)) \<le> n"
proof (cases "r < 0")
  case False
  have le: "\<lfloor>r\<rfloor> \<le> n" using assms(1) by (simp add: floor_le_iff)
  also have "n < 2 ^ 53" by (rule assms(3))
  also have "(2 :: int) ^ 53 < 2 ^ 64" by simp
  finally have small: "\<lfloor>r\<rfloor> < 2 ^ 64" .
  have "uint (word_of_int \<lfloor>r\<rfloor> :: u64) = \<lfloor>r\<rfloor> mod 2 ^ 64" by (simp add: uint_word_of_int)
  also have "\<dots> = \<lfloor>r\<rfloor>" using False small by (intro mod_pos_pos_trivial) simp_all
  finally show ?thesis using False small le by (simp only: f_to_u64.simps Let_def if_False if_True)
qed (use assms(2) in simp)

lemma f_to_u64_le:
  assumes "v = NaN \<or> v = Inf True \<or> (\<exists>r. v = Fin r \<and> r \<le> of_int n)" "0 \<le> n" "n < 2 ^ 53"
  shows "uint (f_to_u64 v) \<le> n"
  using assms(1)
proof (elim disjE exE conjE)
  fix r assume "v = Fin r" "r \<le> of_int n"
  then show ?thesis using f_to_u64_Fin [OF _ assms(2,3)] by simp
qed (use assms(2) in simp_all)

lemma calculate_delay_capped:
  assumes "rtp_max_delay_ms p < 2 ^ 53"
  shows "calculate_delay power_fn p attempt \<le> rtp_max_delay_ms p"
proof -
  let ?m = "uint (rtp_max_delay_ms p)"
  have m: "0 \<le> ?m" "?m < 2 ^ 53" using assms by (simp_all add: word_less_def)
  have "f_min v (Fin (of_int ?m)) = Inf True \<or> (\<exists>r. f_min v (Fin (of_int ?m)) = Fin r \<and> r \<le> of_int ?m)" for v
    by (cases v) auto
  then have "uint (calculate_delay power_fn p attempt) \<le> ?m"
    unfolding calculate_delay_def Let_def f_of_int_exact [OF m] by (intro f_to_u64_le) (use m in auto)
  then show ?thesis by (simp add: word_le_def)
qed

text \<open>The jitter only shortens a delay, though not below one millisecond.\<close>

lemma jittered_le:
  assumes "0 \<le> b" "b < 2 ^ 53" "0 \<le> j" "\<not> f_le factor (lit 0)"
  shows "uint (f_to_u64 (f_max (f_mul (f_of_int b) (f_sub (lit 1) (f_mul factor (Fin j)))) (lit 1))) \<le> max 1 b"
proof -
  have one: "lit 1 = Fin 1" and zero: "lit 0 = Fin 0"
    using f_of_int_exact [of 1] f_of_int_exact [of 0] by simp_all
  let ?v = "f_sub (lit 1) (f_mul factor (Fin j))"
  have shrinks: "?v = NaN \<or> ?v = Inf True \<or> (\<exists>r. ?v = Fin r \<and> r \<le> 1)"
  proof (cases factor)
    case (Fin x)
    then have "0 \<le> x * j" using assms(3,4) by (simp add: zero f_le_def not_less)
    then have "0 \<le> rnd (x * j)" by (rule rnd_nonneg)
    then show ?thesis
      using rnd64_le_int [of "1 - rnd (x * j)" 1] by (auto simp: Fin one f_sub_def rnd64_def [of "x * j"] Let_def)
  qed (use assms(3,4) in \<open>auto simp: one zero f_sub_def f_le_def\<close>)
  have "f_mul (Fin (of_int b)) ?v = NaN \<or> f_mul (Fin (of_int b)) ?v = Inf True
      \<or> (\<exists>r. f_mul (Fin (of_int b)) ?v = Fin r \<and> r \<le> of_int b)"
    using shrinks
  proof (elim disjE exE conjE)
    fix r assume r: "?v = Fin r" "r \<le> 1"
    have "of_int b * r \<le> (of_int b :: rat)" using r(2) assms(1) by (simp add: mult_left_le)
    then show ?thesis using rnd64_le_int [of "of_int b * r" b] assms(1,2) by (auto simp: r(1))
  qed (use assms(1) in auto)
  then have "f_max (f_mul (Fin (of_int b)) ?v) (Fin 1) = Fin 1
      \<or> (\<exists>r. f_max (f_mul (Fin (of_int b)) ?v) (Fin 1) = Fin r \<and> r \<le> of_int (max 1 b))"
    by (auto simp: max_def)
  then show ?thesis
    unfolding f_of_int_exact [OF assms(1,2)] one by (intro f_to_u64_le) (use assms(1,2) in \<open>auto simp: max_def\<close>)
qed

lemma delay_with_jitter_capped:
  assumes "rtp_max_delay_ms p < 2 ^ 53" "0 \<le> j"
  shows "calculate_delay_with_jitter power_fn p attempt (Fin j) \<le> max 1 (rtp_max_delay_ms p)"
proof -
  let ?b = "calculate_delay power_fn p attempt"
  have capped: "?b \<le> rtp_max_delay_ms p" by (rule calculate_delay_capped [OF assms(1)])
  then have small: "uint ?b < 2 ^ 53" using assms(1) by (simp add: word_less_def word_le_def)
  show ?thesis
  proof (cases "f_le (rtp_jitter_factor p) (lit 0)")
    case True
    then show ?thesis using capped by (simp add: calculate_delay_with_jitter_def Let_def le_max_iff_disj)
  next
    case False
    from jittered_le [OF _ small assms(2) False]
    have "uint (calculate_delay_with_jitter power_fn p attempt (Fin j)) \<le> max 1 (uint ?b)"
      using False by (simp add: calculate_delay_with_jitter_def Let_def)
    then show ?thesis using capped by (auto simp: word_le_def max_def split: if_splits)
  qed
qed

section \<open>Properties\<close>

text \<open>
  C37. An operation run with retries, under any policy whose cap is below \<open>2 ^ 53\<close> milliseconds. Each call but the last failed
  with a retryable error, and the result is the answer of the last: its value, its error where that is not retryable,
  or its error where it is and at least \<open>max_retries\<close> attempts were made, with the true number of attempts. At most \<open>max_retries\<close>
  calls followed the first, after one pause each: the back-off with jitter of that retry, which never exceeds the cap of the policy (one
  millisecond, where the cap is zero).
\<close>
theorem execute_with_retry_contract:
  assumes "rtp_max_delay_ms p < 2 ^ 53" "\<forall>i. \<exists>j. jitter i = Fin j \<and> 0 \<le> j \<and> j < 1"
    and "execute_with_retry power_fn p is_retryable operation jitter = (result, pauses)"
  shows "(\<forall>i<length pauses. \<exists>e. operation i = Inl e \<and> is_retryable e)
    \<and> (case result of
        Inr r \<Rightarrow> operation (length pauses) = Inr r
      | Inl (NonRetryable e n) \<Rightarrow> operation (length pauses) = Inl e \<and> \<not> is_retryable e \<and> unat n = length pauses + 1
      | Inl (MaxRetriesExceeded e n) \<Rightarrow> operation (length pauses) = Inl e \<and> is_retryable e
          \<and> unat n = length pauses + 1 \<and> rtp_max_retries p \<le> n)
    \<and> length pauses \<le> unat (rtp_max_retries p)
    \<and> (\<forall>i<length pauses. pauses ! i = calculate_delay_with_jitter power_fn p (of_nat i) (jitter i)
        \<and> pauses ! i \<le> max 1 (rtp_max_delay_ms p))"
proof -
  obtain k where spec: "retry_spec p is_retryable operation = (result, k)" and pauses: "pauses = retry_pauses power_fn p jitter k"
    using assms(3) by (cases "retry_spec p is_retryable operation") (auto simp: execute_with_retry_eq)
  have len: "length pauses = k" by (simp add: pauses retry_pauses_def)
  have k: "k < retry_budget p" using retry_spec_calls [of p is_retryable operation] spec by simp
  then have "k + 1 < 2 ^ 32" using retry_budget_bounds(2) [of p] by linarith
  then have count: "unat (of_nat (k + 1) :: u32) = k + 1" by (rule unat_of_nat_u32)
  have enough: "rtp_max_retries p \<le> of_nat (k + 1)" if "k + 1 = retry_budget p"
    using that count by (simp only: word_le_nat_alt) (simp add: retry_budget_def)
  have unsettled: "\<exists>e. operation i = Inl e \<and> is_retryable e" if "i < k" for i
    using retry_spec_answers [OF spec] that by (simp add: retry_unsettled)
  have answered: "case result of Inr r \<Rightarrow> operation k = Inr r
      | Inl (NonRetryable e n) \<Rightarrow> operation k = Inl e \<and> \<not> is_retryable e \<and> unat n = k + 1
      | Inl (MaxRetriesExceeded e n) \<Rightarrow> operation k = Inl e \<and> is_retryable e \<and> unat n = k + 1 \<and> rtp_max_retries p \<le> n"
    using retry_spec_answers [OF spec] count enough by (auto split: sum.splits retry_error.splits simp del: of_nat_add of_nat_Suc)
  have slept: "pauses ! i = calculate_delay_with_jitter power_fn p (of_nat i) (jitter i) \<and> pauses ! i \<le> max 1 (rtp_max_delay_ms p)"
    if "i < k" for i
  proof -
    obtain j where "jitter i = Fin j" "0 \<le> j" using assms(2) by blast
    then show ?thesis using that delay_with_jitter_capped [OF assms(1), of j power_fn "of_nat i"] by (simp add: pauses retry_pauses_def)
  qed
  have "k \<le> unat (rtp_max_retries p)" using k by (simp add: retry_budget_def)
  then show ?thesis unfolding len using unsettled answered slept by blast
qed

lemma execute_with_retry_contract_witness:
  fixes p :: retry_policy
  defines "p \<equiv> \<lparr> rtp_max_retries = 3, rtp_initial_delay_ms = 100, rtp_max_delay_ms = 150, rtp_backoff_multiplier = Fin 2,
    rtp_jitter_factor = Fin 0 \<rparr>"
  shows "\<exists>pause. execute_with_retry (\<lambda>x n. Fin (2 ^ nat n)) p (\<lambda>_. True) (\<lambda>i. if i = 0 then Inl ''busy'' else Inr (7 :: int)) (\<lambda>_. Fin 0)
      = (Inr 7, [pause]) \<and> pause \<le> 150"
proof -
  let ?op = "\<lambda>i. if i = 0 then Inl ''busy'' else Inr (7 :: int)"
  obtain result pauses where run: "execute_with_retry (\<lambda>x n. Fin (2 ^ nat n)) p (\<lambda>_. True) ?op (\<lambda>_. Fin 0) = (result, pauses)"
    by fastforce
  have cap: "rtp_max_delay_ms p < 2 ^ 53" "rtp_max_delay_ms p = 150" by (simp_all add: p_def)
  have "retry_spec p (\<lambda>_. True) ?op = (Inr 7, 1)"
    by (simp add: retry_spec_def retry_budget_def p_def retry_settles_def upt_rec)
  then have "result = Inr 7" "length pauses = 1" using run by (auto simp: execute_with_retry_eq retry_pauses_def)
  then obtain pause where "result = Inr 7" "pauses = [pause]" by (auto simp: length_Suc_conv)
  moreover have "\<forall>i<length pauses. pauses ! i \<le> max 1 (rtp_max_delay_ms p)"
    using execute_with_retry_contract [OF cap(1) _ run] by fastforce
  ultimately show ?thesis using run cap(2) by (auto simp: max_def split: if_splits)
qed

text \<open>
  \<open>max_retries\<close> bounds the attempts, not the retries: at most \<open>max 1 max_retries\<close> calls are
  made, and an operation that always fails with a retryable error is called exactly that
  often. So a policy of one retry never retries, and one of \<open>n\<close> retries \<open>n - 1\<close> times.
\<close>
theorem retry_attempts_not_retries:
  "length (snd (execute_with_retry power_fn p is_retryable operation jitter)) < max 1 (unat (rtp_max_retries p))
   \<and> length (snd (execute_with_retry power_fn p (\<lambda>_. True) (\<lambda>_. Inl e) jitter)) + 1 = max 1 (unat (rtp_max_retries p))"
  using retry_spec_calls [of p is_retryable operation] retry_spec_always_failing [of p e]
  by (simp add: execute_with_retry_eq retry_pauses_def retry_budget_def)

end
