(* ===== verification/Circuit_Breaking.thy ===== *)
theory Circuit_Breaking
  imports Prelude
begin

text \<open>
  \<open>src/application/services/circuit_breaker.rs\<close>: the breaker that shields the venues. The
  model is one caller at a time: each method runs to its end before the next starts. Times
  are readings of the monotonic clock in nanoseconds; the counters are the 32-bit atomics
  of the source, whose increments wrap.
\<close>

section \<open>State\<close>

datatype circuit_state = CbClosed | CbOpen | CbHalfOpen

datatype circuit_breaker_error = CircuitOpen "u64 option" | HalfOpenLimitReached u32

record circuit_breaker_config =
  cbc_failure_threshold :: u32
  cbc_success_threshold :: u32
  cbc_reset_timeout_ms :: u64
  cbc_half_open_max_requests :: u32

definition cbc_default :: circuit_breaker_config where
  "cbc_default = \<lparr> cbc_failure_threshold = 5, cbc_success_threshold = 3,
     cbc_reset_timeout_ms = 30000, cbc_half_open_max_requests = 3 \<rparr>"

definition cbc_aggressive :: circuit_breaker_config where
  "cbc_aggressive = \<lparr> cbc_failure_threshold = 3, cbc_success_threshold = 2,
     cbc_reset_timeout_ms = 10000, cbc_half_open_max_requests = 1 \<rparr>"

definition cbc_lenient :: circuit_breaker_config where
  "cbc_lenient = \<lparr> cbc_failure_threshold = 10, cbc_success_threshold = 5,
     cbc_reset_timeout_ms = 60000, cbc_half_open_max_requests = 5 \<rparr>"

record circuit_breaker =
  cb_name :: string
  cb_state :: circuit_state
  cb_failure_count :: u32
  cb_success_count :: u32
  cb_half_open_requests :: u32
  cb_last_failure_time :: u64
  cb_opened_at :: "int option"
  cb_config :: circuit_breaker_config

definition cb_new :: "string \<Rightarrow> circuit_breaker_config \<Rightarrow> circuit_breaker" where
  "cb_new name config = \<lparr> cb_name = name, cb_state = CbClosed, cb_failure_count = 0,
     cb_success_count = 0, cb_half_open_requests = 0, cb_last_failure_time = 0,
     cb_opened_at = None, cb_config = config \<rparr>"

section \<open>Methods\<close>

text \<open>Nanoseconds since an instant, and the reset time-out in nanoseconds.\<close>

definition elapsed :: "int \<Rightarrow> int \<Rightarrow> int" where
  "elapsed now since = max 0 (now - since)"

definition cb_timeout :: "circuit_breaker \<Rightarrow> int" where
  "cb_timeout b = uint (cbc_reset_timeout_ms (cb_config b)) * 1000000"

definition cb_should_transition_to_half_open :: "int \<Rightarrow> circuit_breaker \<Rightarrow> bool" where
  "cb_should_transition_to_half_open now b =
     (case cb_opened_at b of
        Some t \<Rightarrow> cb_timeout b \<le> elapsed now t
      | None \<Rightarrow> False)"

definition cb_time_until_half_open :: "int \<Rightarrow> circuit_breaker \<Rightarrow> u64 option" where
  "cb_time_until_half_open now b =
     (case cb_opened_at b of
        Some t \<Rightarrow>
          if elapsed now t < cb_timeout b
          then Some (word_of_int ((cb_timeout b - elapsed now t) div 1000000))
          else Some 0
      | None \<Rightarrow> None)"

definition cb_transition_to_open :: "int \<Rightarrow> circuit_breaker \<Rightarrow> circuit_breaker" where
  "cb_transition_to_open now b = b\<lparr> cb_state := CbOpen, cb_success_count := 0,
     cb_half_open_requests := 0, cb_opened_at := Some now \<rparr>"

definition cb_transition_to_half_open :: "circuit_breaker \<Rightarrow> circuit_breaker" where
  "cb_transition_to_half_open b =
     b\<lparr> cb_state := CbHalfOpen, cb_success_count := 0, cb_half_open_requests := 0 \<rparr>"

definition cb_transition_to_closed :: "circuit_breaker \<Rightarrow> circuit_breaker" where
  "cb_transition_to_closed b = b\<lparr> cb_state := CbClosed, cb_failure_count := 0,
     cb_success_count := 0, cb_half_open_requests := 0, cb_opened_at := None \<rparr>"

text \<open>\<open>can_execute\<close> reads the clock once to decide and, when it refuses, once for the error.\<close>

definition cb_can_execute ::
    "int \<Rightarrow> int \<Rightarrow> (circuit_breaker, circuit_breaker_error, unit) op" where
  "cb_can_execute now now_err b =
     (case cb_state b of
        CbClosed \<Rightarrow> (Inr (), b)
      | CbOpen \<Rightarrow>
          if cb_should_transition_to_half_open now b
          then let b' = cb_transition_to_half_open b in
            (Inr (), b'\<lparr> cb_half_open_requests := cb_half_open_requests b' + 1 \<rparr>)
          else (Inl (CircuitOpen (cb_time_until_half_open now_err b)), b)
      | CbHalfOpen \<Rightarrow>
          if cb_half_open_requests b < cbc_half_open_max_requests (cb_config b)
          then (Inr (), b\<lparr> cb_half_open_requests := cb_half_open_requests b + 1 \<rparr>)
          else (Inl (HalfOpenLimitReached (cbc_half_open_max_requests (cb_config b))), b))"

definition cb_record_success :: "circuit_breaker \<Rightarrow> circuit_breaker" where
  "cb_record_success b =
     (case cb_state b of
        CbClosed \<Rightarrow> b\<lparr> cb_failure_count := 0 \<rparr>
      | CbHalfOpen \<Rightarrow>
          let new_count = cb_success_count b + 1;
              b' = b\<lparr> cb_success_count := new_count \<rparr> in
          if cbc_success_threshold (cb_config b) \<le> new_count
          then cb_transition_to_closed b' else b'
      | CbOpen \<Rightarrow> b)"

text \<open>\<open>wall\<close> is the wall-clock time in milliseconds, \<open>now\<close> the instant stored on opening.\<close>

definition cb_record_failure :: "u64 \<Rightarrow> int \<Rightarrow> circuit_breaker \<Rightarrow> circuit_breaker" where
  "cb_record_failure wall now b =
     (case cb_state b of
        CbClosed \<Rightarrow>
          let new_count = cb_failure_count b + 1;
              b' = b\<lparr> cb_failure_count := new_count, cb_last_failure_time := wall \<rparr> in
          if cbc_failure_threshold (cb_config b) \<le> new_count
          then cb_transition_to_open now b' else b'
      | CbHalfOpen \<Rightarrow> cb_transition_to_open now (b\<lparr> cb_last_failure_time := wall \<rparr>)
      | CbOpen \<Rightarrow> b\<lparr> cb_last_failure_time := wall \<rparr>)"

definition cb_reset :: "circuit_breaker \<Rightarrow> circuit_breaker" where
  "cb_reset b = b\<lparr> cb_state := CbClosed, cb_failure_count := 0, cb_success_count := 0,
     cb_half_open_requests := 0, cb_last_failure_time := 0, cb_opened_at := None \<rparr>"

datatype cb_cmd =
    CanExecute int int
  | RecordSuccess
  | RecordFailure u64 int
  | ResetBreaker

fun cb_apply :: "cb_cmd \<Rightarrow> (circuit_breaker, circuit_breaker_error, unit) op" where
  "cb_apply (CanExecute n m) = cb_can_execute n m"
| "cb_apply RecordSuccess = (\<lambda>b. (Inr (), cb_record_success b))"
| "cb_apply (RecordFailure w n) = (\<lambda>b. (Inr (), cb_record_failure w n b))"
| "cb_apply ResetBreaker = (\<lambda>b. (Inr (), cb_reset b))"

lemmas cb_defs = cb_can_execute_def cb_record_success_def cb_record_failure_def cb_reset_def
  cb_transition_to_open_def cb_transition_to_half_open_def cb_transition_to_closed_def
  cb_should_transition_to_half_open_def Let_def

lemma cb_config_kept [simp]: "cb_config (snd (cb_apply c b)) = cb_config b"
  by (cases c) (auto simp: cb_defs split: circuit_state.split option.split)

section \<open>Invariant\<close>

text \<open>
  Below its threshold a closed breaker has recorded fewer failures than trip it; the
  opening instant is known exactly when the breaker is not closed; at most
  \<open>max 1 half_open_max_requests\<close> probes have been let through a half-open breaker, which has
  recorded fewer successes than close it.
\<close>

definition cb_inv :: "circuit_breaker \<Rightarrow> bool" where
  "cb_inv b \<longleftrightarrow>
     (case cb_state b of
        CbClosed \<Rightarrow> cb_opened_at b = None \<and> cb_half_open_requests b = 0 \<and> cb_success_count b = 0
          \<and> cb_failure_count b < cbc_failure_threshold (cb_config b)
      | CbOpen \<Rightarrow> cb_opened_at b \<noteq> None \<and> cb_half_open_requests b = 0 \<and> cb_success_count b = 0
      | CbHalfOpen \<Rightarrow> cb_opened_at b \<noteq> None
          \<and> 1 \<le> cb_half_open_requests b
          \<and> cb_half_open_requests b \<le> max 1 (cbc_half_open_max_requests (cb_config b))
          \<and> cb_success_count b < cbc_success_threshold (cb_config b))"

text \<open>Thresholds of zero are excluded: the breaker then trips or closes on the first report.\<close>

definition cb_sane :: "circuit_breaker_config \<Rightarrow> bool" where
  "cb_sane k \<longleftrightarrow> 0 < cbc_failure_threshold k \<and> 0 < cbc_success_threshold k"

lemma word_inc_le: "a < b \<Longrightarrow> a + 1 \<le> b" for a b :: "'w::len word"
  by (simp add: inc_le)

lemma word_inc_pos: "a < b \<Longrightarrow> 1 \<le> a + 1" for a b :: "'w::len word"
proof -
  assume "a < b"
  moreover have "unat b < 2 ^ LENGTH('w)" by (rule unsigned_less)
  ultimately have "unat a + 1 < 2 ^ LENGTH('w)"
    unfolding word_less_nat_alt by linarith
  then show ?thesis by (simp add: word_le_nat_alt unat_add_no_wrap)
qed

lemma cb_apply_inv:
  assumes "cb_sane (cb_config b)" "cb_inv b"
  shows "cb_inv (snd (cb_apply c b))"
  using assms
  by (cases c; cases "cb_state b")
    (auto simp: cb_inv_def cb_defs cb_sane_def word_inc_pos max_def not_le
      intro: word_inc_le order_trans split: option.split)

lemma cb_new_inv: "cb_sane k \<Longrightarrow> cb_inv (cb_new name k)"
  by (simp add: cb_inv_def cb_new_def cb_sane_def)

lemma cb_run_inv:
  assumes "cb_sane (cb_config b)" "cb_inv b"
  shows "cb_inv (run_ops cb_apply cs b) \<and> cb_config (run_ops cb_apply cs b) = cb_config b"
  by (rule run_ops_invariant [where P = "\<lambda>x. cb_inv x \<and> cb_config x = cb_config b"])
    (use assms cb_apply_inv in auto)

section \<open>Tripping, rejecting, probing\<close>

definition cb_failures :: "(u64 \<times> int) list \<Rightarrow> cb_cmd list" where
  "cb_failures fs = map (\<lambda>(w, t). RecordFailure w t) fs"

lemma cb_failures_simps [simp]:
  "cb_failures [] = []" "cb_failures (f # fs) = RecordFailure (fst f) (snd f) # cb_failures fs"
  by (simp_all add: cb_failures_def split_beta)

lemma cb_open_ignores_reports:
  "cb_state b = CbOpen \<Longrightarrow> cb_state (run_ops cb_apply (cb_failures fs) b) = CbOpen"
  by (induction fs arbitrary: b) (simp_all add: cb_record_failure_def)

lemma cb_trips_at_threshold:
  assumes "cb_state b = CbClosed" "cb_failure_count b < cbc_failure_threshold (cb_config b)"
  shows "cb_state (run_ops cb_apply (cb_failures fs) b) =
    (if unat (cb_failure_count b) + length fs < unat (cbc_failure_threshold (cb_config b))
     then CbClosed else CbOpen)"
  using assms
proof (induction fs arbitrary: b)
  case (Cons f fs)
  define b' where "b' = cb_record_failure (fst f) (snd f) b"
  have inc: "unat (cb_failure_count b + 1) = Suc (unat (cb_failure_count b))"
    using Cons.prems(2) word_inc_pos [OF Cons.prems(2)]
    by (metis add.commute add_cancel_right_right unatSuc word_less_1 not_less zero_neq_one)
  show ?case
  proof (cases "cbc_failure_threshold (cb_config b) \<le> cb_failure_count b + 1")
    case True
    then have "cb_state b' = CbOpen" using Cons.prems(1) by (simp add: b'_def cb_defs)
    then show ?thesis
      using True inc by (simp add: cb_open_ignores_reports b'_def [symmetric] word_le_nat_alt)
  next
    case False
    then have "cb_state b' = CbClosed" "cb_failure_count b' = cb_failure_count b + 1"
        "cb_config b' = cb_config b"
      using Cons.prems(1) by (simp_all add: b'_def cb_defs)
    then show ?thesis
      using Cons.IH [of b'] False inc by (simp add: b'_def [symmetric] not_le)
  qed
qed (auto simp: word_less_nat_alt)

text \<open>What cannot end the rejecting phase before its deadline.\<close>

definition cb_quiet :: "int \<Rightarrow> cb_cmd \<Rightarrow> bool" where
  "cb_quiet deadline c =
     (case c of CanExecute n _ \<Rightarrow> n < deadline | ResetBreaker \<Rightarrow> False | _ \<Rightarrow> True)"

lemma cb_quiet_step:
  assumes "cb_state b = CbOpen" "cb_opened_at b = Some t"
    "cb_quiet (t + cb_timeout b) c" "0 < cb_timeout b"
  shows "cb_state (snd (cb_apply c b)) = CbOpen \<and> cb_opened_at (snd (cb_apply c b)) = Some t
    \<and> (\<forall>n m. c = CanExecute n m \<longrightarrow> (\<exists>w. fst (cb_apply c b) = Inl (CircuitOpen w)))"
  using assms
  by (cases c) (auto simp: cb_quiet_def cb_defs elapsed_def max_def split: if_splits)

lemma cb_timeout_kept [simp]: "cb_timeout (snd (cb_apply c b)) = cb_timeout b"
  by (simp add: cb_timeout_def)

lemma cb_quiet_run:
  assumes "cb_state b = CbOpen" "cb_opened_at b = Some t" "0 < cb_timeout b"
    "\<forall>c\<in>set cs. cb_quiet (t + cb_timeout b) c"
  shows "cb_state (run_ops cb_apply cs b) = CbOpen
    \<and> cb_opened_at (run_ops cb_apply cs b) = Some t
    \<and> cb_timeout (run_ops cb_apply cs b) = cb_timeout b"
  using assms
proof (induction cs arbitrary: b)
  case (Cons c cs)
  then show ?case using cb_quiet_step [of b t c] by simp
qed simp

text \<open>
  The documented use: ask, run the request if allowed, report how it went. \<open>probe\<close> is that for
  one request: the two clock readings of \<open>can_execute\<close>, whether the request succeeds, and the
  readings of a failure report.
\<close>

record probe =
  pr_now :: int
  pr_now_err :: int
  pr_succeeds :: bool
  pr_wall :: u64
  pr_fail_at :: int

definition cb_guarded ::
    "probe \<Rightarrow> (circuit_breaker, circuit_breaker_error, unit) op" where
  "cb_guarded p = op_then (cb_can_execute (pr_now p) (pr_now_err p))
     (\<lambda>_ b. (Inr (), if pr_succeeds p then cb_record_success b
                     else cb_record_failure (pr_wall p) (pr_fail_at p) b))"

text \<open>A half-open breaker whose probes are all used up and were not enough.\<close>

definition cb_exhausted :: "circuit_breaker \<Rightarrow> bool" where
  "cb_exhausted b \<longleftrightarrow> cb_state b = CbHalfOpen
     \<and> cbc_half_open_max_requests (cb_config b) \<le> cb_half_open_requests b"

lemma cb_exhausted_stuck:
  assumes "cb_exhausted b"
  shows "cb_guarded p b =
    (Inl (HalfOpenLimitReached (cbc_half_open_max_requests (cb_config b))), b)"
  using assms by (simp add: cb_exhausted_def cb_guarded_def op_then_def cb_can_execute_def not_less)

lemma cb_exhausted_run:
  "cb_exhausted b \<Longrightarrow> run_ops cb_guarded ps b = b"
  by (induction ps) (simp_all add: cb_exhausted_stuck)

text \<open>Successful probes of a half-open breaker: the two counters advance together.\<close>

lemma cb_half_open_success:
  assumes "cb_state b = CbHalfOpen" "pr_succeeds p"
    "cb_half_open_requests b < cbc_half_open_max_requests (cb_config b)"
  shows "cb_guarded p b = (Inr (),
    (if cbc_success_threshold (cb_config b) \<le> cb_success_count b + 1
     then cb_transition_to_closed
       (b\<lparr> cb_half_open_requests := cb_half_open_requests b + 1,
          cb_success_count := cb_success_count b + 1 \<rparr>)
     else b\<lparr> cb_half_open_requests := cb_half_open_requests b + 1,
            cb_success_count := cb_success_count b + 1 \<rparr>))"
  using assms by (simp add: cb_guarded_def op_then_def cb_can_execute_def cb_record_success_def)

lemma cb_open_success:
  assumes "cb_state b = CbOpen" "pr_succeeds p" "cb_should_transition_to_half_open (pr_now p) b"
  shows "cb_guarded p b = (Inr (),
    (let b' = b\<lparr> cb_state := CbHalfOpen, cb_half_open_requests := 1, cb_success_count := 1 \<rparr> in
     if cbc_success_threshold (cb_config b) \<le> 1 then cb_transition_to_closed b' else b'))"
  using assms
  by (simp add: cb_guarded_def op_then_def cb_can_execute_def cb_record_success_def
      cb_transition_to_half_open_def cb_transition_to_closed_def Let_def)

lemma unat_of_nat_Suc_word:
  "Suc k < 2 ^ LENGTH('w) \<Longrightarrow> unat (of_nat k + 1 :: 'w::len word) = Suc k"
  using unat_of_nat_small [of "Suc k", where 'w = 'w] by (simp add: add.commute)

text \<open>\<open>k\<close> successes into the half-open phase.\<close>

lemma cb_half_open_recovers:
  assumes "cb_state b = CbHalfOpen"
    "cb_half_open_requests b = of_nat k" "cb_success_count b = of_nat k"
    "k < unat (cbc_success_threshold (cb_config b))"
    "unat (cbc_success_threshold (cb_config b)) \<le> unat (cbc_half_open_max_requests (cb_config b))"
    "\<forall>p\<in>set ps. pr_succeeds p"
    "length ps = unat (cbc_success_threshold (cb_config b)) - k"
  shows "cb_state (run_ops cb_guarded ps b) = CbClosed"
  using assms
proof (induction ps arbitrary: b k)
  case (Cons p ps)
  let ?T = "cbc_success_threshold (cb_config b)"
  have T: "unat ?T < 2 ^ LENGTH(32)" by (rule unsigned_less)
  then have k: "unat (of_nat k :: u32) = k" "unat (of_nat k + 1 :: u32) = Suc k"
    using Cons.prems(4) unat_of_nat_small [of k, where 'w = 32] unat_of_nat_Suc_word [of k, where 'w = 32]
    by linarith+
  have slot: "cb_half_open_requests b < cbc_half_open_max_requests (cb_config b)"
    using Cons.prems(2,4,5) k by (simp add: word_less_nat_alt)
  note step = cb_half_open_success [OF Cons.prems(1) _ slot]
  show ?case
  proof (cases "?T \<le> of_nat k + 1")
    case True
    then have "unat ?T \<le> Suc k" using k by (simp add: word_le_nat_alt)
    moreover have "Suc (length ps) = unat ?T - k" using Cons.prems(7) by simp
    ultimately have "length ps = 0" by arith
    then have "ps = []" by simp
    then show ?thesis
      using True Cons.prems by (simp add: step cb_transition_to_closed_def)
  next
    case False
    define b' where "b' = b\<lparr> cb_half_open_requests := of_nat (Suc k),
      cb_success_count := of_nat (Suc k) \<rparr>"
    have "snd (cb_guarded p b) = b'"
      using False Cons.prems by (simp add: step b'_def add.commute)
    moreover have "cb_state (run_ops cb_guarded ps b') = CbClosed"
      using False Cons.prems k
      by (intro Cons.IH [of b' "Suc k"]) (auto simp: b'_def word_le_nat_alt)
    ultimately show ?thesis by simp
  qed
qed simp

section \<open>Properties\<close>

text \<open>
  From a new breaker with positive thresholds, every history of calls keeps the
  invariant: below the failure threshold while closed, opening time known exactly when not
  closed, at most \<open>max 1 half_open_max_requests\<close> probes let through in half-open.
\<close>
theorem breaker_history_keeps_invariant:
  assumes "cb_sane config"
  shows "cb_inv (run_ops cb_apply cs (cb_new name config))"
  using cb_run_inv [of "cb_new name config" cs] cb_new_inv [OF assms] assms
  by (simp add: cb_new_def)

lemma breaker_history_keeps_invariant_witness:
  "cb_inv (run_ops cb_apply [RecordFailure 1 2, RecordSuccess, CanExecute 5 6] (cb_new ''LP1'' cbc_default))"
  by (rule breaker_history_keeps_invariant) (simp add: cb_sane_def cbc_default_def)

text \<open>
  A new breaker trips with the \<open>failure_threshold\<close>-th consecutive failure, not before,
  and stays open however many more are reported; a threshold of zero acts as one.
\<close>
theorem breaker_trips_at_threshold:
  "cb_state (run_ops cb_apply (cb_failures fs) (cb_new name config)) =
     (if length fs < max 1 (unat (cbc_failure_threshold config)) then CbClosed else CbOpen)"
proof (cases "cbc_failure_threshold config = 0")
  case True
  then show ?thesis
    by (cases fs) (simp_all add: cb_new_def cb_open_ignores_reports cb_defs)
next
  case False
  then have pos: "0 < unat (cbc_failure_threshold config)" by (simp add: unat_gt_0)
  then show ?thesis
    using cb_trips_at_threshold [of "cb_new name config" fs] False
    by (simp add: cb_new_def word_neq_0_conv max_def)
qed

text \<open>
  An open breaker shields the venue for its whole time-out: whatever is asked or
  reported in between, short of a manual reset, it stays open and refuses each request
  whose clock reading is before the opening instant plus the time-out.
\<close>
theorem breaker_open_rejects_until_timeout:
  assumes "cb_state b = CbOpen" "cb_opened_at b = Some t" "0 < cb_timeout b"
    and "\<forall>c\<in>set cs. cb_quiet (t + cb_timeout b) c"
    and "n < t + cb_timeout b"
  shows "\<exists>w. fst (cb_can_execute n m (run_ops cb_apply cs b)) = Inl (CircuitOpen w)"
  using cb_quiet_run [OF assms(1-4)] assms(5,3)
    cb_quiet_step [of "run_ops cb_apply cs b" t "CanExecute n m"]
  by (simp add: cb_quiet_def)

lemma breaker_open_rejects_until_timeout_witness:
  "\<exists>b. cb_state b = CbOpen \<and> (\<exists>w. fst (cb_can_execute 20 21
     (run_ops cb_apply [RecordSuccess, CanExecute 15 16, RecordFailure 3 17] b)) = Inl (CircuitOpen w))"
proof (intro exI conjI)
  let ?b = "cb_transition_to_open 10 (cb_new ''LP1'' cbc_default)"
  show "cb_state ?b = CbOpen" by (simp add: cb_transition_to_open_def)
  have "\<exists>w. fst (cb_can_execute 20 21
     (run_ops cb_apply [RecordSuccess, CanExecute 15 16, RecordFailure 3 17] ?b)) = Inl (CircuitOpen w)"
    by (rule breaker_open_rejects_until_timeout [where t = 10])
      (simp_all add: cb_transition_to_open_def cb_new_def cb_timeout_def cbc_default_def cb_quiet_def)
  then show "fst (cb_can_execute 20 21 (run_ops cb_apply
      [RecordSuccess, CanExecute 15 16, RecordFailure 3 17] ?b))
    = Inl (CircuitOpen (SOME w. fst (cb_can_execute 20 21 (run_ops cb_apply
      [RecordSuccess, CanExecute 15 16, RecordFailure 3 17] ?b)) = Inl (CircuitOpen w)))"
    by (rule someI_ex)
qed

text \<open>
  C39. Recovery: once the time-out has passed, \<open>success_threshold\<close> successful requests in a row
  close an open breaker, provided the half-open phase admits that many.
\<close>
theorem breaker_recovers:
  assumes "cb_state b = CbOpen" "cb_opened_at b = Some t" "t + cb_timeout b \<le> pr_now p"
    and "0 < cbc_success_threshold (cb_config b)"
    and "cbc_success_threshold (cb_config b) \<le> cbc_half_open_max_requests (cb_config b)"
    and "\<forall>q\<in>set (p # ps). pr_succeeds q"
    and "length (p # ps) = unat (cbc_success_threshold (cb_config b))"
  shows "cb_state (run_ops cb_guarded (p # ps) b) = CbClosed"
proof -
  have "cb_should_transition_to_half_open (pr_now p) b"
    using assms(2,3) by (simp add: cb_should_transition_to_half_open_def elapsed_def)
  then have step: "snd (cb_guarded p b) =
    (let b' = b\<lparr> cb_state := CbHalfOpen, cb_half_open_requests := 1, cb_success_count := 1 \<rparr> in
     if cbc_success_threshold (cb_config b) \<le> 1 then cb_transition_to_closed b' else b')"
    using cb_open_success [of b p] assms by simp
  show ?thesis
  proof (cases "cbc_success_threshold (cb_config b) \<le> 1")
    case True
    then have "ps = []" using assms(7) by (cases ps) (auto simp: word_le_nat_alt)
    then show ?thesis using True step by (simp add: cb_transition_to_closed_def)
  next
    case False
    then show ?thesis
      using assms step cb_half_open_recovers [where k = 1 and ps = ps
          and b = "b\<lparr> cb_state := CbHalfOpen, cb_half_open_requests := 1, cb_success_count := 1 \<rparr>"]
      by (auto simp: word_le_nat_alt)
  qed
qed

text \<open>A request at \<open>n\<close> that the venue answers.\<close>

definition good_probe :: "int \<Rightarrow> probe" where
  "good_probe n = \<lparr> pr_now = n, pr_now_err = n, pr_succeeds = True, pr_wall = 0, pr_fail_at = n \<rparr>"

lemma breaker_recovers_witness:
  "cb_state (run_ops cb_guarded [good_probe 30000000010, good_probe 30000000020, good_probe 30000000030]
    (cb_transition_to_open 10 (cb_new ''LP1'' cbc_default))) = CbClosed"
  by (rule breaker_recovers [where t = 10])
    (simp_all add: cb_transition_to_open_def cb_new_def cbc_default_def cb_timeout_def good_probe_def)

text \<open>
  The \<open>aggressive\<close> preset cannot recover: it admits one half-open probe but wants two
  successes. After its time-out one successful request leaves it half-open with the probe
  used up, and from then on every request at any later time is refused and changes
  nothing, so no success can ever be reported again by its documented use.
\<close>
theorem breaker_aggressive_never_recovers:
  assumes "cb_config b = cbc_aggressive" "cb_state b = CbOpen" "cb_opened_at b = Some t"
    and "t + cb_timeout b \<le> pr_now p" "pr_succeeds p"
    and "b' = snd (cb_guarded p b)"
  shows "cb_state b' = CbHalfOpen \<and> run_ops cb_guarded ps b' = b'
    \<and> cb_guarded q b' = (Inl (HalfOpenLimitReached 1), b')"
proof -
  have "cb_should_transition_to_half_open (pr_now p) b"
    using assms(3,4) by (simp add: cb_should_transition_to_half_open_def elapsed_def)
  then have b': "b' = b\<lparr> cb_state := CbHalfOpen, cb_half_open_requests := 1, cb_success_count := 1 \<rparr>"
    using cb_open_success [of b p] assms by (simp add: cbc_aggressive_def Let_def word_le_nat_alt)
  then have "cb_exhausted b'" using assms(1) by (simp add: cb_exhausted_def cbc_aggressive_def)
  then show ?thesis
    using cb_exhausted_run [of b' ps] cb_exhausted_stuck [of b' q] b' assms(1)
    by (simp add: cbc_aggressive_def)
qed

lemma breaker_aggressive_never_recovers_witness:
  "cb_state (snd (cb_guarded (good_probe 10000000010)
    (cb_transition_to_open 10 (cb_new ''LP1'' cbc_aggressive)))) = CbHalfOpen"
  by (rule conjunct1 [OF breaker_aggressive_never_recovers
        [where t = 10 and ps = "[]" and q = "good_probe 0"]])
    (simp_all add: cb_transition_to_open_def cb_new_def cbc_aggressive_def cb_timeout_def good_probe_def)

end
