(* ===== verification/Lock_Manager.thy ===== *)
theory Lock_Manager
  imports Errors Instruments "HOL-Library.Product_Lexorder" "HOL-Library.List_Lexorder" "HOL-Library.Char_ord"
  "HOL-Library.Multiset"
begin

text \<open>
  \<open>src/domain/services/resource_lock.rs\<close> and \<open>lock_manager.rs\<close>: named locks with an owner
  and a time to live, taken together in a global order. How a UUID prints is a parameter
  \<open>U\<close>. Times are nanoseconds. The write lock around the table makes \<open>try_acquire_one\<close>,
  \<open>release_one\<close> and \<open>cleanup_expired\<close> atomic; between two of them other tasks run, which the
  step relation \<open>lock_step\<close> describes.
\<close>

section \<open>Resources and their order\<close>

datatype 'd resource_lock = RlQuote uuid | RlAccount counterparty_id | RlInstrument "'d instrument"

definition rl_category :: "'d resource_lock \<Rightarrow> nat" where
  "rl_category r = (case r of RlQuote _ \<Rightarrow> 0 | RlAccount _ \<Rightarrow> 1 | RlInstrument _ \<Rightarrow> 2)"

definition rl_sort_key :: "(uuid \<Rightarrow> string) \<Rightarrow> 'd resource_lock \<Rightarrow> string" where
  "rl_sort_key U r =
     (case r of RlQuote q \<Rightarrow> U q | RlAccount a \<Rightarrow> a | RlInstrument i \<Rightarrow> sym_value (ins_symbol i))"

definition rl_display :: "(uuid \<Rightarrow> string) \<Rightarrow> 'd resource_lock \<Rightarrow> string" where
  "rl_display U r =
     (case r of
        RlQuote q \<Rightarrow> ''Quote('' @ U q @ '')''
      | RlAccount a \<Rightarrow> ''Account('' @ a @ '')''
      | RlInstrument i \<Rightarrow> ''Instrument('' @ sym_value (ins_symbol i) @ '')'')"

text \<open>\<open>Ord\<close>: by category, then by key; \<open>sort\<close> is stable.\<close>

definition rl_rank :: "(uuid \<Rightarrow> string) \<Rightarrow> 'd resource_lock \<Rightarrow> nat \<times> string" where
  "rl_rank U r = (rl_category r, rl_sort_key U r)"

definition sort_locks :: "(uuid \<Rightarrow> string) \<Rightarrow> 'd resource_lock list \<Rightarrow> 'd resource_lock list" where
  "sort_locks U locks = sort_key (rl_rank U) locks"

section \<open>The table\<close>

record lock_manager_config =
  lmc_default_timeout :: nat
  lmc_max_timeout :: nat
  lmc_lock_ttl :: nat
  lmc_retry_interval :: nat

definition lmc_default :: lock_manager_config where
  "lmc_default = \<lparr> lmc_default_timeout = 100 * 1000000, lmc_max_timeout = 5 * 1000000000,
     lmc_lock_ttl = 10 * 1000000000, lmc_retry_interval = 5 * 1000000 \<rparr>"

definition effective_timeout :: "lock_manager_config \<Rightarrow> nat option \<Rightarrow> nat" where
  "effective_timeout c requested =
     min (case requested of Some t \<Rightarrow> t | None \<Rightarrow> lmc_default_timeout c) (lmc_max_timeout c)"

record 'd lock_info =
  lki_resource :: "'d resource_lock"
  lki_holder_id :: uuid
  lki_acquired_at :: timestamp
  lki_expires_at :: timestamp

text \<open>The millisecond count of the time to live is clamped to \<open>i64::MAX\<close>.\<close>

definition lki_new :: "timestamp \<Rightarrow> 'd resource_lock \<Rightarrow> uuid \<Rightarrow> nat \<Rightarrow> 'd lock_info" where
  "lki_new now r h ttl = \<lparr> lki_resource = r, lki_holder_id = h, lki_acquired_at = now,
     lki_expires_at = ts_add_millis now (int (min (ttl div 1000000) (2 ^ 63 - 1))) \<rparr>"

definition lki_is_expired :: "timestamp \<Rightarrow> 'd lock_info \<Rightarrow> bool" where
  "lki_is_expired now i \<longleftrightarrow> lki_expires_at i \<le> now"

type_synonym 'd lock_table = "string \<rightharpoonup> 'd lock_info"

definition lock_key :: "(uuid \<Rightarrow> string) \<Rightarrow> 'd resource_lock \<Rightarrow> string" where
  "lock_key U r = rl_display U r"

text \<open>\<open>now1\<close> is read by \<open>is_expired\<close>, \<open>now2\<close> by \<open>LockInfo::new\<close>.\<close>

definition try_acquire_one :: "(uuid \<Rightarrow> string) \<Rightarrow> lock_manager_config \<Rightarrow> timestamp \<Rightarrow> timestamp
    \<Rightarrow> uuid \<Rightarrow> 'd resource_lock \<Rightarrow> ('d lock_table, 'd) mutation" where
  "try_acquire_one U cfg now1 now2 h r T =
     (let taken = (case T (lock_key U r) of
            Some i \<Rightarrow> \<not> lki_is_expired now1 i \<and> lki_holder_id i \<noteq> h
          | None \<Rightarrow> False) in
      if taken
      then (Inl (LockAcquisitionFailed (Fmt ''resource {} is locked by another holder''
              [ArgStr (rl_display U r)])), T)
      else (Inr (), T(lock_key U r \<mapsto> lki_new now2 r h (lmc_lock_ttl cfg))))"

definition release_one :: "(uuid \<Rightarrow> string) \<Rightarrow> timestamp \<Rightarrow> uuid \<Rightarrow> 'd resource_lock
    \<Rightarrow> ('d lock_table, 'd) mutation" where
  "release_one U now h r T =
     (case T (lock_key U r) of
        Some i \<Rightarrow>
          if lki_holder_id i = h \<or> lki_is_expired now i then (Inr (), T(lock_key U r := None))
          else (Inl (LockAcquisitionFailed (Fmt
             ''cannot release resource {}: lock is held by a different holder''
             [ArgStr (rl_display U r)])), T)
      | None \<Rightarrow> (Inr (), T))"

text \<open>\<open>retain\<close> reads the clock once for each entry.\<close>

definition cleanup_expired :: "(string \<Rightarrow> timestamp) \<Rightarrow> 'd lock_table \<Rightarrow> 'd lock_table" where
  "cleanup_expired clk T = (\<lambda>k. case T k of
       Some i \<Rightarrow> if lki_is_expired (clk k) i then None else Some i
     | None \<Rightarrow> None)"

definition get_lock_info :: "(uuid \<Rightarrow> string) \<Rightarrow> timestamp \<Rightarrow> 'd resource_lock \<Rightarrow> 'd lock_table
    \<Rightarrow> 'd lock_info option" where
  "get_lock_info U now r T =
     (case T (lock_key U r) of
        Some i \<Rightarrow> if lki_is_expired now i then None else Some i
      | None \<Rightarrow> None)"

text \<open>\<open>release_all\<close>: from the last lock to the first, until one cannot be released.\<close>

fun release_each :: "(uuid \<Rightarrow> string) \<Rightarrow> (nat \<Rightarrow> timestamp) \<Rightarrow> nat \<Rightarrow> uuid \<Rightarrow> 'd resource_lock list
    \<Rightarrow> ('d lock_table, 'd) mutation" where
  "release_each U clk n h [] = op_ret ()"
| "release_each U clk n h (r # rs) =
     op_then (release_one U (clk n) h r) (\<lambda>_. release_each U clk (Suc n) h rs)"

definition release_all :: "(uuid \<Rightarrow> string) \<Rightarrow> (nat \<Rightarrow> timestamp) \<Rightarrow> uuid \<Rightarrow> 'd resource_lock list
    \<Rightarrow> ('d lock_table, 'd) mutation" where
  "release_all U clk h locks = release_each U clk 0 h (rev locks)"

record 'd lock_guard =
  lg_locks :: "'d resource_lock list"
  lg_holder_id :: uuid
  lg_released :: bool

definition lg_release :: "(uuid \<Rightarrow> string) \<Rightarrow> (nat \<Rightarrow> timestamp) \<Rightarrow> 'd lock_guard
    \<Rightarrow> ('d lock_table, 'd) mutation" where
  "lg_release U clk g =
     (if \<not> lg_released g then release_all U clk (lg_holder_id g) (lg_locks g) else op_ret ())"

section \<open>The acquisition, one table access at a time\<close>

text \<open>
  \<open>acquire_all\<close> is a loop over the sorted resources. Its states: the resources still wanted
  and those acquired; the roll-back after a failure with the locks still to release; the
  guard; the error. A guard that is being released and its outcome complete the life of a
  holder.
\<close>

datatype 'd lock_task =
    Acquiring "'d resource_lock list" "'d resource_lock list"
  | Undoing "'d resource_lock list" "'d domain_error"
  | Granted "'d lock_guard"
  | Refused "'d domain_error"
  | Releasing "'d resource_lock list"
  | Released "'d domain_error + unit"

definition acquire_begin :: "(uuid \<Rightarrow> string) \<Rightarrow> uuid \<Rightarrow> 'd resource_lock list \<Rightarrow> 'd lock_task" where
  "acquire_begin U h resources =
     (if resources = [] then Granted \<lparr> lg_locks = [], lg_holder_id = h, lg_released = True \<rparr>
      else Acquiring (sort_locks U resources) [])"

text \<open>\<open>in_time\<close>: the instant read after a failed attempt is before the deadline.\<close>

fun acquire_step :: "(uuid \<Rightarrow> string) \<Rightarrow> lock_manager_config \<Rightarrow> uuid \<Rightarrow> timestamp \<Rightarrow> timestamp \<Rightarrow> bool
    \<Rightarrow> 'd lock_task \<Rightarrow> 'd lock_table \<Rightarrow> 'd lock_task \<times> 'd lock_table" where
  "acquire_step U cfg h now1 now2 in_time (Acquiring (r # todo) got) T =
     (case try_acquire_one U cfg now1 now2 h r T of
        (Inr _, T') \<Rightarrow>
          (if todo = []
           then Granted \<lparr> lg_locks = got @ [r], lg_holder_id = h, lg_released = False \<rparr>
           else Acquiring todo (got @ [r]), T')
      | (Inl e, T') \<Rightarrow>
          if in_time then (Acquiring (r # todo) got, T')
          else
            (let err = LockAcquisitionFailed (Fmt ''failed to acquire lock on {}: {}''
                   [ArgStr (rl_display U r), ArgMsg (de_display e)]) in
             (if got = [] then Refused err else Undoing got err, T')))"
| "acquire_step U cfg h now1 now2 in_time (Undoing (r # rs) err) T =
     (if rs = [] then Refused err else Undoing rs err, snd (release_one U now1 h r T))"
| "acquire_step U cfg h now1 now2 in_time a T = (a, T)"

text \<open>One \<open>release_one\<close> of \<open>release_all\<close>, with its early return.\<close>

fun release_step :: "(uuid \<Rightarrow> string) \<Rightarrow> uuid \<Rightarrow> timestamp \<Rightarrow> 'd lock_task \<Rightarrow> 'd lock_table
    \<Rightarrow> 'd lock_task \<times> 'd lock_table" where
  "release_step U h now (Releasing (r # rs)) T =
     (case release_one U now h r T of
        (Inr _, T') \<Rightarrow> (if rs = [] then Released (Inr ()) else Releasing rs, T')
      | (Inl e, T') \<Rightarrow> (Released (Inl e), T'))"
| "release_step U h now a T = (a, T)"

lemmas lock_ops = try_acquire_one_def release_one_def cleanup_expired_def Let_def

section \<open>Many tasks\<close>

text \<open>
  The holders' states, the table, the time, and a history variable: until when a holder was
  promised each key it has acquired.
\<close>

record 'd lock_world =
  lw_now :: timestamp
  lw_table :: "'d lock_table"
  lw_tasks :: "uuid \<rightharpoonup> 'd lock_task"
  lw_promised :: "uuid \<Rightarrow> string \<rightharpoonup> timestamp"

definition lock_init :: "timestamp \<Rightarrow> 'd lock_world" where
  "lock_init t = \<lparr> lw_now = t, lw_table = Map.empty, lw_tasks = Map.empty,
     lw_promised = (\<lambda>_. Map.empty) \<rparr>"

text \<open>What a successful attempt of \<open>h\<close> adds to the history.\<close>

definition promise_after :: "(uuid \<Rightarrow> string) \<Rightarrow> uuid \<Rightarrow> 'd lock_task \<Rightarrow> 'd lock_task \<Rightarrow> 'd lock_table
    \<Rightarrow> (string \<rightharpoonup> timestamp) \<Rightarrow> (string \<rightharpoonup> timestamp)" where
  "promise_after U h before after T p =
     (case (before, after) of
        (Acquiring (r # todo) got, Acquiring todo' got') \<Rightarrow>
          if got' = got then p else p(lock_key U r := map_option lki_expires_at (T (lock_key U r)))
      | (Acquiring (r # todo) got, Granted g) \<Rightarrow>
          p(lock_key U r := map_option lki_expires_at (T (lock_key U r)))
      | _ \<Rightarrow> Map.empty)"

inductive lock_step :: "(uuid \<Rightarrow> string) \<Rightarrow> lock_manager_config
    \<Rightarrow> 'd lock_world \<Rightarrow> 'd lock_world \<Rightarrow> bool" for U cfg where
  begin_acquire: "lw_tasks w h = None \<Longrightarrow>
    lock_step U cfg w (w\<lparr> lw_tasks := (lw_tasks w)(h \<mapsto> acquire_begin U h resources) \<rparr>)"
| acquire: "lw_tasks w h = Some a \<Longrightarrow> (\<exists>r todo got. a = Acquiring (r # todo) got) \<or> (\<exists>rs e. a = Undoing rs e) \<Longrightarrow>
    lw_now w \<le> now1 \<Longrightarrow> now1 \<le> now2 \<Longrightarrow>
    acquire_step U cfg h now1 now2 in_time a (lw_table w) = (a', T') \<Longrightarrow>
    lock_step U cfg w \<lparr> lw_now = now2, lw_table = T', lw_tasks = (lw_tasks w)(h \<mapsto> a'),
      lw_promised = (lw_promised w)(h := promise_after U h a a' T' (lw_promised w h)) \<rparr>"
| begin_release: "lw_tasks w h = Some (Granted g) \<Longrightarrow> \<not> lg_released g \<Longrightarrow>
    lock_step U cfg w (w\<lparr> lw_tasks := (lw_tasks w)(h \<mapsto> Releasing (rev (lg_locks g))),
      lw_promised := (lw_promised w)(h := Map.empty) \<rparr>)"
| release: "lw_tasks w h = Some (Releasing rs) \<Longrightarrow> lw_now w \<le> now \<Longrightarrow>
    release_step U h now (Releasing rs) (lw_table w) = (a', T') \<Longrightarrow>
    lock_step U cfg w (w\<lparr> lw_now := now, lw_table := T', lw_tasks := (lw_tasks w)(h \<mapsto> a') \<rparr>)"
| cleanup: "(\<forall>k. lw_now w \<le> clk k \<and> clk k \<le> now) \<Longrightarrow>
    lock_step U cfg w (w\<lparr> lw_now := now, lw_table := cleanup_expired clk (lw_table w) \<rparr>)"
| wait: "lw_now w \<le> now \<Longrightarrow> lock_step U cfg w (w\<lparr> lw_now := now \<rparr>)"

inductive lock_reachable :: "(uuid \<Rightarrow> string) \<Rightarrow> lock_manager_config \<Rightarrow> 'd lock_world \<Rightarrow> bool"
  for U cfg where
  start: "lock_reachable U cfg (lock_init t)"
| move: "lock_reachable U cfg w \<Longrightarrow> lock_step U cfg w w' \<Longrightarrow> lock_reachable U cfg w'"

section \<open>The contract of the table\<close>

text \<open>
  What a task may rely on: as long as its entry has not expired at any clock reading of the
  other tasks' calls, these leave the entry alone.
\<close>

locale lock_store =
  fixes call :: "'c \<Rightarrow> 't \<Rightarrow> 't"
    and owner :: "'t \<Rightarrow> 'k \<Rightarrow> (uuid \<times> timestamp) option"
    and actor :: "'c \<Rightarrow> uuid option"
    and before :: "timestamp \<Rightarrow> 'c \<Rightarrow> bool"
  assumes respects: "owner T k = Some (h, e) \<Longrightarrow> actor c \<noteq> Some h \<Longrightarrow> before e c
    \<Longrightarrow> owner (call c T) k = Some (h, e)"
begin

lemma respects_all:
  assumes "owner T k = Some (h, e)" "\<forall>c\<in>set cs. actor c \<noteq> Some h \<and> before e c"
  shows "owner (fold call cs T) k = Some (h, e)"
  using assms by (induction cs arbitrary: T) (auto simp: respects)

lemma never_two_owners:
  assumes "owner T k = Some (h, e)" "\<forall>c\<in>set cs. actor c \<noteq> Some h \<and> before e c" "h' \<noteq> h"
  shows "owner (fold call cs T) k \<noteq> Some (h', e')"
  using respects_all [OF assms(1,2)] assms(3) by auto

end

datatype 'd store_call =
    TryAcquire timestamp timestamp uuid "'d resource_lock"
  | ReleaseOne timestamp uuid "'d resource_lock"
  | Sweep "string \<Rightarrow> timestamp"

fun store_apply :: "(uuid \<Rightarrow> string) \<Rightarrow> lock_manager_config \<Rightarrow> 'd store_call \<Rightarrow> 'd lock_table
    \<Rightarrow> 'd lock_table" where
  "store_apply U cfg (TryAcquire now1 now2 h r) T = snd (try_acquire_one U cfg now1 now2 h r T)"
| "store_apply U cfg (ReleaseOne now h r) T = snd (release_one U now h r T)"
| "store_apply U cfg (Sweep clk) T = cleanup_expired clk T"

definition store_owner :: "'d lock_table \<Rightarrow> string \<Rightarrow> (uuid \<times> timestamp) option" where
  "store_owner T k = map_option (\<lambda>i. (lki_holder_id i, lki_expires_at i)) (T k)"

fun store_actor :: "'d store_call \<Rightarrow> uuid option" where
  "store_actor (TryAcquire _ _ h _) = Some h"
| "store_actor (ReleaseOne _ h _) = Some h"
| "store_actor (Sweep _) = None"

fun store_before :: "timestamp \<Rightarrow> 'd store_call \<Rightarrow> bool" where
  "store_before e (TryAcquire now1 _ _ _) \<longleftrightarrow> now1 < e"
| "store_before e (ReleaseOne now _ _) \<longleftrightarrow> now < e"
| "store_before e (Sweep clk) \<longleftrightarrow> (\<forall>k. clk k < e)"

lemma store_respects:
  assumes "store_owner T k = Some (h, e)" "store_actor c \<noteq> Some h" "store_before e c"
  shows "store_owner (store_apply U cfg c T) k = Some (h, e)"
  using assms
  by (cases c) (auto simp: store_owner_def lock_ops lki_is_expired_def not_le[symmetric] split: option.split)

interpretation store: lock_store "store_apply U cfg" store_owner store_actor store_before
  for U cfg
  by unfold_locales (rule store_respects)

section \<open>Invariant of the tasks\<close>

text \<open>The keys of which a task in each state may own the entry.\<close>

abbreviation keys_of :: "(uuid \<Rightarrow> string) \<Rightarrow> 'd resource_lock list \<Rightarrow> string set" where
  "keys_of U rs \<equiv> lock_key U ` set rs"

fun may_own :: "(uuid \<Rightarrow> string) \<Rightarrow> 'd lock_task \<Rightarrow> string set" where
  "may_own U (Acquiring todo got) = keys_of U got"
| "may_own U (Undoing rs e) = keys_of U rs"
| "may_own U (Granted g) = keys_of U (lg_locks g)"
| "may_own U (Refused e) = {}"
| "may_own U (Releasing rs) = keys_of U rs"
| "may_own U (Released (Inr u)) = {}"
| "may_own U (Released (Inl e)) = UNIV"

fun in_order :: "(uuid \<Rightarrow> string) \<Rightarrow> 'd lock_task \<Rightarrow> bool" where
  "in_order U (Acquiring todo got) \<longleftrightarrow> todo \<noteq> [] \<and> sorted (map (rl_rank U) (got @ todo))"
| "in_order U (Granted g) \<longleftrightarrow> sorted (map (rl_rank U) (lg_locks g))"
| "in_order U a \<longleftrightarrow> True"

fun is_active :: "'d lock_task \<Rightarrow> bool" where
  "is_active (Acquiring todo got) \<longleftrightarrow> True"
| "is_active (Granted g) \<longleftrightarrow> True"
| "is_active _ \<longleftrightarrow> False"

definition owners_inv :: "(uuid \<Rightarrow> string) \<Rightarrow> 'd lock_world \<Rightarrow> bool" where
  "owners_inv U w \<longleftrightarrow> (\<forall>k i. lw_table w k = Some i \<longrightarrow>
     (\<exists>a. lw_tasks w (lki_holder_id i) = Some a \<and> k \<in> may_own U a))"

definition order_inv :: "(uuid \<Rightarrow> string) \<Rightarrow> 'd lock_world \<Rightarrow> bool" where
  "order_inv U w \<longleftrightarrow> (\<forall>h a. lw_tasks w h = Some a \<longrightarrow> in_order U a)"

definition promise_inv :: "'d lock_world \<Rightarrow> bool" where
  "promise_inv w \<longleftrightarrow> (\<forall>h k e. lw_promised w h k = Some e \<longrightarrow>
     (\<exists>a. lw_tasks w h = Some a \<and> is_active a)
     \<and> (lw_now w < e \<longrightarrow> store_owner (lw_table w) k = Some (h, e)))"

text \<open>One access by one task: what it does to the entries.\<close>

lemma acquire_step_calls:
  assumes "acquire_step U cfg h now1 now2 b a T = (a', T')"
  shows "T' = T \<or> (\<exists>r. T' = store_apply U cfg (TryAcquire now1 now2 h r) T)
    \<or> (\<exists>r. T' = store_apply U cfg (ReleaseOne now1 h r) T)"
  using assms
  by (cases "(U, cfg, h, now1, now2, b, a, T)" rule: acquire_step.cases)
    (auto simp: Let_def split: prod.splits sum.splits if_splits, (metis snd_conv)+)

lemma release_step_calls:
  assumes "release_step U h now a T = (a', T')"
  shows "T' = T \<or> (\<exists>r. T' = store_apply U cfg (ReleaseOne now h r) T)"
  using assms
  by (cases "(U, h, now, a, T)" rule: release_step.cases)
    (auto split: prod.splits sum.splits if_splits, (metis snd_conv)+)

lemma sort_locks_sorted: "sorted (map (rl_rank U) (sort_locks U rs))"
  by (simp add: sort_locks_def)

lemma sort_locks_mset [simp]: "mset (sort_locks U rs) = mset rs"
  by (simp add: sort_locks_def)

lemma sort_locks_Nil [simp]: "sort_locks U rs = [] \<longleftrightarrow> rs = []"
  using sort_locks_mset [of U rs] by (cases rs) (auto simp del: sort_locks_mset simp: sort_locks_def)

lemma acquire_begin_in_order: "in_order U (acquire_begin U h rs)"
  by (simp add: acquire_begin_def sort_locks_sorted)

lemma acquire_step_in_order:
  "acquire_step U cfg h now1 now2 b a T = (a', T') \<Longrightarrow> in_order U a \<Longrightarrow> in_order U a'"
  by (cases "(U, cfg, h, now1, now2, b, a, T)" rule: acquire_step.cases)
    (auto simp: Let_def split: prod.splits sum.splits if_splits)

lemma release_step_in_order:
  "release_step U h now a T = (a', T') \<Longrightarrow> in_order U a \<Longrightarrow> in_order U a'"
  by (cases "(U, h, now, a, T)" rule: release_step.cases)
    (auto split: prod.splits sum.splits if_splits)

lemma order_inv_step: "lock_step U cfg w w' \<Longrightarrow> order_inv U w \<Longrightarrow> order_inv U w'"
proof (induction rule: lock_step.induct)
  case (acquire w h a now1 now2 in_time a' T')
  then show ?case by (auto simp: order_inv_def dest: acquire_step_in_order)
next
  case (release w h rs now a' T')
  then show ?case by (auto simp: order_inv_def dest: release_step_in_order)
qed (auto simp: order_inv_def acquire_begin_in_order)

text \<open>Entries appear only for the acting task, and it may own what it has an entry for.\<close>

definition owns_within :: "(uuid \<Rightarrow> string) \<Rightarrow> uuid \<Rightarrow> 'd lock_task \<Rightarrow> 'd lock_table \<Rightarrow> bool" where
  "owns_within U h a T \<longleftrightarrow> (\<forall>k i. T k = Some i \<longrightarrow> lki_holder_id i = h \<longrightarrow> k \<in> may_own U a)"

definition others_kept :: "uuid \<Rightarrow> 'd lock_table \<Rightarrow> 'd lock_table \<Rightarrow> bool" where
  "others_kept h T T' \<longleftrightarrow> (\<forall>k i. T' k = Some i \<longrightarrow> lki_holder_id i \<noteq> h \<longrightarrow> T k = Some i)"

lemma try_acquire_owns:
  assumes "try_acquire_one U cfg now1 now2 h r T = (x, T')"
  shows "others_kept h T T'" "x = Inl e \<Longrightarrow> T' = T"
    "x = Inr u \<Longrightarrow> T' = T(lock_key U r \<mapsto> lki_new now2 r h (lmc_lock_ttl cfg))"
  using assms by (auto simp: try_acquire_one_def others_kept_def lki_new_def split: if_splits)

lemma release_one_owns:
  assumes "release_one U now h r T = (x, T')"
  shows "others_kept h T T'" "T' = T \<or> T' = T(lock_key U r := None)"
    "T' (lock_key U r) = Some i \<Longrightarrow> lki_holder_id i \<noteq> h" "x = Inr u \<Longrightarrow> T' (lock_key U r) = None"
  using assms by (auto simp: release_one_def others_kept_def split: if_splits option.splits)

lemma release_one_owns_within:
  assumes "release_one U now h r T = (x, T')" "owns_within U h a T"
    "may_own U a \<subseteq> insert (lock_key U r) (may_own U a')"
  shows "owns_within U h a' T'"
  using release_one_owns(2,3) [OF assms(1)] assms(2,3)
  by (fastforce simp: owns_within_def split: if_splits)

lemma acquire_step_owns:
  assumes "acquire_step U cfg h now1 now2 b a T = (a', T')" "owns_within U h a T"
  shows "owns_within U h a' T' \<and> others_kept h T T'"
proof (cases a)
  case (Acquiring todo got)
  show ?thesis
  proof (cases todo)
    case Nil
    then show ?thesis using assms Acquiring by (auto simp: others_kept_def)
  next
    case (Cons r rest)
    obtain x T1 where acq: "try_acquire_one U cfg now1 now2 h r T = (x, T1)" by fastforce
    note eff = try_acquire_owns [OF acq]
    show ?thesis
    proof (cases x)
      case (Inl e)
      then show ?thesis using assms eff(1,2) Acquiring Cons acq
        by (auto simp: owns_within_def Let_def split: if_splits)
    next
      case (Inr u)
      then show ?thesis using assms eff(1,3) Acquiring Cons acq
        by (auto simp: owns_within_def split: if_splits)
    qed
  qed
next
  case (Undoing rs err)
  show ?thesis
  proof (cases rs)
    case Nil
    then show ?thesis using assms Undoing by (auto simp: others_kept_def)
  next
    case (Cons r rest)
    obtain x T1 where rel: "release_one U now1 h r T = (x, T1)" by fastforce
    moreover have "may_own U a \<subseteq> insert (lock_key U r) (may_own U a')"
      using assms(1) Undoing Cons by (auto split: if_splits)
    ultimately show ?thesis
      using assms Undoing Cons release_one_owns(1) [OF rel] release_one_owns_within [OF rel assms(2)]
      by auto
  qed
qed (use assms in \<open>auto simp: others_kept_def\<close>)

lemma release_step_owns:
  assumes "release_step U h now (Releasing rs) T = (a', T')" "owns_within U h (Releasing rs) T"
  shows "owns_within U h a' T' \<and> others_kept h T T'"
proof (cases rs)
  case Nil
  then show ?thesis using assms by (auto simp: others_kept_def)
next
  case (Cons r rest)
  obtain x T1 where rel: "release_one U now h r T = (x, T1)" by fastforce
  moreover have "may_own U (Releasing rs) \<subseteq> insert (lock_key U r) (may_own U a')"
    using assms(1) Cons rel by (auto split: if_splits sum.splits)
  moreover have "T' = T1" using assms(1) Cons rel by (auto split: if_splits sum.splits)
  ultimately show ?thesis
    using release_one_owns(1) [OF rel] release_one_owns_within [OF rel assms(2)] by blast
qed

lemma owners_inv_within:
  "owners_inv U w \<Longrightarrow> lw_tasks w h = Some a \<Longrightarrow> owns_within U h a (lw_table w)"
  by (fastforce simp: owners_inv_def owns_within_def)

text \<open>A step of one task keeps the owners' invariant if it respects the two clauses above.\<close>

lemma owners_inv_update:
  assumes "owners_inv U w" "owns_within U h a' T'"
    "others_kept h (lw_table w) T'"
    "lw_table w' = T'" "lw_tasks w' = (lw_tasks w)(h \<mapsto> a')"
  shows "owners_inv U w'"
  using assms by (fastforce simp: owners_inv_def owns_within_def others_kept_def)

lemma owners_inv_step: "lock_step U cfg w w' \<Longrightarrow> owners_inv U w \<Longrightarrow> owners_inv U w'"
proof (induction rule: lock_step.induct)
  case (begin_acquire w h resources)
  then show ?case by (fastforce simp: owners_inv_def)
next
  case (acquire w h a now1 now2 in_time a' T')
  then show ?case
    using acquire_step_owns [OF acquire.hyps(5)] owners_inv_within [OF acquire.prems acquire.hyps(1)]
    by (intro owners_inv_update [OF acquire.prems, of h a' T']) auto
next
  case (begin_release w h g)
  then show ?case
    using owners_inv_within [OF begin_release.prems begin_release.hyps(1)]
    by (intro owners_inv_update [OF begin_release.prems, of h _ "lw_table w"])
      (auto simp: owns_within_def others_kept_def)
next
  case (release w h rs now a' T')
  then show ?case
    using release_step_owns [OF release.hyps(3)] owners_inv_within [OF release.prems release.hyps(1)]
    by (intro owners_inv_update [OF release.prems, of h a' T']) auto
next
  case (cleanup w clk now)
  then show ?case
    by (auto simp: owners_inv_def cleanup_expired_def split: option.splits if_splits)
qed (simp add: owners_inv_def)

text \<open>The promises made to a task are kept by the others' steps until they expire.\<close>

lemma promise_inv_other:
  assumes "promise_inv w" "store_actor c \<noteq> Some h" "\<forall>e. lw_now w' < e \<longrightarrow> store_before e c"
    "lw_table w' = store_apply U cfg c (lw_table w)" "lw_now w \<le> lw_now w'"
    "lw_promised w h k = Some e" "lw_now w' < e"
  shows "store_owner (lw_table w') k = Some (h, e)"
proof -
  have "lw_now w < e" using assms(5,7) by linarith
  then have "store_owner (lw_table w) k = Some (h, e)"
    using assms(1,6) by (simp add: promise_inv_def)
  then show ?thesis using store_respects [of "lw_table w" k h e c U cfg] assms by simp
qed

lemma promise_kept_by_calls:
  assumes "promise_inv w" "h' \<noteq> h" "lw_promised w h' k = Some e" "t2 < e" "lw_now w \<le> t1" "t1 \<le> t2"
    and "T' = lw_table w \<or> (\<exists>r. T' = store_apply U cfg (TryAcquire t1 t2 h r) (lw_table w))
      \<or> (\<exists>r. T' = store_apply U cfg (ReleaseOne t1 h r) (lw_table w))"
  shows "store_owner T' k = Some (h', e)"
proof -
  have own: "store_owner (lw_table w) k = Some (h', e)"
    using assms(1,3-6) by (simp add: promise_inv_def)
  have "t1 < e" using assms(4,6) by linarith
  then show ?thesis
    using assms(2,7) own store_respects [OF own, of "TryAcquire t1 t2 h _" U cfg]
      store_respects [OF own, of "ReleaseOne t1 h _" U cfg] by auto
qed

lemma promise_after_own:
  assumes "acquire_step U cfg h t1 t2 b a T = (a', T')"
    and "\<And>k e. p k = Some e \<Longrightarrow> t2 < e \<Longrightarrow> store_owner T k = Some (h, e)"
    and "promise_after U h a a' T' p k = Some e" "t2 < e"
  shows "store_owner T' k = Some (h, e) \<and> is_active a'"
proof (cases "(U, cfg, h, t1, t2, b, a, T)" rule: acquire_step.cases)
  case (1 _ _ _ _ _ _ r todo got _)
  obtain x T1 where acq: "try_acquire_one U cfg t1 t2 h r T = (x, T1)" by fastforce
  note eff = try_acquire_owns [OF acq]
  show ?thesis
  proof (cases x)
    case (Inl e)
    then show ?thesis using assms eff(2) 1 acq
      by (auto simp: promise_after_def Let_def split: if_splits)
  next
    case (Inr u)
    then show ?thesis using assms eff(3) 1 acq
      by (auto simp: promise_after_def store_owner_def lki_new_def split: if_splits)
  qed
qed (use assms in \<open>auto simp: promise_after_def split: if_splits lock_task.splits list.splits\<close>)

lemma promise_inv_step: "lock_step U cfg w w' \<Longrightarrow> promise_inv w \<Longrightarrow> promise_inv w'"
proof (induction rule: lock_step.induct)
  case (begin_acquire w h resources)
  then show ?case by (fastforce simp: promise_inv_def)
next
  case (acquire w h a now1 now2 in_time a' T')
  note calls = acquire_step_calls [OF acquire.hyps(5)]
  have own: "store_owner T' k = Some (h, e) \<and> is_active a'"
    if "promise_after U h a a' T' (lw_promised w h) k = Some e" "now2 < e" for k e
    using acquire.hyps(3,4) acquire.prems
    by (intro promise_after_own [OF acquire.hyps(5) _ that]) (auto simp: promise_inv_def)
  have active: "is_active a'" if "promise_after U h a a' T' (lw_promised w h) k = Some e" for k e
    using that by (auto simp: promise_after_def split: lock_task.splits list.splits)
  have other: "store_owner T' k = Some (h', e)"
    if "h' \<noteq> h" "lw_promised w h' k = Some e" "now2 < e" for h' k e
    using promise_kept_by_calls [OF acquire.prems that acquire.hyps(3,4) calls] .
  show ?case using own active other acquire.prems by (auto simp: promise_inv_def)
next
  case (begin_release w h g)
  then show ?case by (auto simp: promise_inv_def)
next
  case (release w h rs now a' T')
  note calls = release_step_calls [OF release.hyps(3), of cfg]
  have none: "lw_promised w h k = None" for k
  proof (cases "lw_promised w h k")
    case (Some e)
    then obtain a where "lw_tasks w h = Some a" "is_active a"
      using release.prems unfolding promise_inv_def by blast
    then show ?thesis using release.hyps(1) by auto
  qed
  have "store_owner T' k = Some (h', e)"
    if "lw_promised w h' k = Some e" "now < e" for h' k e
    using promise_kept_by_calls [OF release.prems _ that release.hyps(2) order_refl, of h T' U cfg]
      calls none that(1) by (cases "h' = h") auto
  then show ?case using release.prems none by (auto simp: promise_inv_def)
next
  case (cleanup w clk now)
  have now: "lw_now w \<le> now" using cleanup.hyps by (meson order_trans)
  have "store_owner (cleanup_expired clk (lw_table w)) k = Some (h, e)"
    if "lw_promised w h k = Some e" "now < e" for h k e
  proof -
    have "store_owner (lw_table w) k = Some (h, e)"
      using cleanup.prems that now by (auto simp: promise_inv_def)
    then show ?thesis
      using store_respects [of "lw_table w" k h e "Sweep clk" U cfg] that(2) cleanup.hyps
      by (auto intro: le_less_trans)
  qed
  then show ?case using cleanup.prems by (auto simp: promise_inv_def)
next
  case (wait w now)
  then show ?case by (fastforce simp: promise_inv_def)
qed

lemma lock_reachable_inv:
  "lock_reachable U cfg w \<Longrightarrow> owners_inv U w \<and> order_inv U w \<and> promise_inv w"
proof (induction rule: lock_reachable.induct)
  case (start t)
  then show ?case by (simp add: lock_init_def owners_inv_def order_inv_def promise_inv_def)
next
  case (move w w')
  then show ?case using owners_inv_step order_inv_step promise_inv_step by blast
qed

section \<open>Waiting\<close>

text \<open>
  \<open>h\<close> waits for \<open>h'\<close>: the next resource \<open>h\<close> wants has a live entry of \<open>h'\<close>, so that its
  attempt would be refused.
\<close>

definition lock_waits :: "(uuid \<Rightarrow> string) \<Rightarrow> 'd lock_world \<Rightarrow> uuid \<Rightarrow> uuid \<Rightarrow> bool" where
  "lock_waits U w h h' \<longleftrightarrow> (\<exists>r todo got i. lw_tasks w h = Some (Acquiring (r # todo) got)
     \<and> lw_table w (lock_key U r) = Some i \<and> \<not> lki_is_expired (lw_now w) i
     \<and> lki_holder_id i = h' \<and> h' \<noteq> h)"

definition wanted_rank :: "(uuid \<Rightarrow> string) \<Rightarrow> 'd lock_world \<Rightarrow> uuid \<Rightarrow> nat \<times> string" where
  "wanted_rank U w h = (case lw_tasks w h of Some (Acquiring (r # _) _) \<Rightarrow> rl_rank U r | _ \<Rightarrow> (0, []))"

text \<open>The table key and the rank of a resource determine each other.\<close>

lemma lock_key_eq_iff: "lock_key U r = lock_key U r' \<longleftrightarrow> rl_rank U r = rl_rank U r'"
  by (cases r; cases r')
    (auto simp: lock_key_def rl_display_def rl_rank_def rl_category_def rl_sort_key_def)

lemma waits_ascends:
  assumes inv: "owners_inv U w" "order_inv U w"
    and "lock_waits U w h h'" "lock_waits U w h' h''"
  shows "wanted_rank U w h < wanted_rank U w h'"
proof -
  obtain r todo got i where a: "lw_tasks w h = Some (Acquiring (r # todo) got)"
      "lw_table w (lock_key U r) = Some i" "lki_holder_id i = h'"
    using assms(3) by (auto simp: lock_waits_def)
  obtain r' todo' got' i' where b: "lw_tasks w h' = Some (Acquiring (r' # todo') got')"
      "lw_table w (lock_key U r') = Some i'" "lki_holder_id i' \<noteq> h'"
    using assms(4) by (auto simp: lock_waits_def)
  have "lock_key U r \<in> keys_of U got'"
    using inv(1) a b(1) by (fastforce simp: owners_inv_def)
  then obtain s where s: "s \<in> set got'" "rl_rank U s = rl_rank U r"
    by (auto simp: lock_key_eq_iff)
  have "in_order U (Acquiring (r' # todo') got')" using inv(2) b(1) unfolding order_inv_def by blast
  then have "rl_rank U s \<le> rl_rank U r'" using s(1) by (auto simp: sorted_append)
  moreover have "rl_rank U r \<noteq> rl_rank U r'" using a b by (auto simp flip: lock_key_eq_iff)
  ultimately show ?thesis using a(1) b(1) s(2) by (simp add: wanted_rank_def order.strict_iff_order)
qed

lemma waits_acyclic:
  assumes "owners_inv U w" "order_inv U w"
  shows "acyclic {(h, h'). lock_waits U w h h'}"
proof -
  let ?R = "{(h, h'). lock_waits U w h h'}"
  have "wanted_rank U w h < wanted_rank U w h'" if "(h, h') \<in> ?R\<^sup>+" "h' \<in> Domain ?R" for h h'
    using that
  proof (induction rule: trancl_induct)
    case (base y)
    then show ?case using waits_ascends [OF assms] by auto
  next
    case (step y z)
    then have "wanted_rank U w h < wanted_rank U w y" by blast
    also have "\<dots> < wanted_rank U w z" using step waits_ascends [OF assms] by auto
    finally show ?case .
  qed
  moreover have "h \<in> Domain ?R" if "(h, h) \<in> ?R\<^sup>+" for h
    using that by (meson DomainI tranclD)
  ultimately show ?thesis unfolding acyclic_def by (meson less_irrefl)
qed

section \<open>One acquisition among any interference\<close>

text \<open>
  The accesses of one holder from \<open>acquire_begin\<close> on; before each, the table may have been
  changed by others in any way.
\<close>

definition acquire_run :: "(uuid \<Rightarrow> string) \<Rightarrow> lock_manager_config \<Rightarrow> uuid \<Rightarrow> 'd resource_lock list
    \<Rightarrow> (timestamp \<times> timestamp \<times> bool \<times> 'd lock_table) list \<Rightarrow> 'd lock_task" where
  "acquire_run U cfg h resources sched =
     fold (\<lambda>(n1, n2, b, T) a. fst (acquire_step U cfg h n1 n2 b a T)) sched
       (acquire_begin U h resources)"

definition requested :: "'d lock_task \<Rightarrow> 'd resource_lock multiset \<Rightarrow> bool" where
  "requested a M \<longleftrightarrow> (case a of
       Acquiring todo got \<Rightarrow> mset (got @ todo) = M
     | Granted g \<Rightarrow> mset (lg_locks g) = M
     | _ \<Rightarrow> True)"

lemma acquire_step_requested:
  "requested a M \<Longrightarrow> in_order U a \<Longrightarrow> requested (fst (acquire_step U cfg h n1 n2 b a T)) M
    \<and> in_order U (fst (acquire_step U cfg h n1 n2 b a T))"
  using acquire_step_in_order [of U cfg h n1 n2 b a T]
  by (cases "(U, cfg, h, n1, n2, b, a, T)" rule: acquire_step.cases)
    (auto simp: requested_def Let_def ac_simps split: prod.splits sum.splits)

lemma acquire_run_requested:
  "requested (acquire_run U cfg h rs sched) (mset rs) \<and> in_order U (acquire_run U cfg h rs sched)"
proof -
  have run: "requested (fold (\<lambda>(n1, n2, b, T) a. fst (acquire_step U cfg h n1 n2 b a T)) sched a) M
      \<and> in_order U (fold (\<lambda>(n1, n2, b, T) a. fst (acquire_step U cfg h n1 n2 b a T)) sched a)"
    if "requested a M" "in_order U a" for a M
    using that
  proof (induction sched arbitrary: a)
    case (Cons x xs)
    then show ?case using acquire_step_requested [of a M U] by (cases x) auto
  qed simp
  have "requested (acquire_begin U h rs) (mset rs)"
    by (simp add: requested_def acquire_begin_def)
  from run [OF this acquire_begin_in_order] show ?thesis by (simp add: acquire_run_def)
qed

section \<open>Properties\<close>

text \<open>The lock manager on a sample: two accounts, two holders.\<close>

definition sample_U :: "uuid \<Rightarrow> string" where
  "sample_U u = (if u = 1 then ''one'' else ''other'')"

definition world_a_granted :: "int lock_world" where
  "world_a_granted = \<lparr> lw_now = 5,
     lw_table = Map.empty(''Account(A)'' \<mapsto> lki_new 5 (RlAccount ''A'') 1 (lmc_lock_ttl lmc_default)),
     lw_tasks = Map.empty(1 \<mapsto> Granted \<lparr> lg_locks = [RlAccount ''A''], lg_holder_id = 1, lg_released = False \<rparr>),
     lw_promised = (\<lambda>_. Map.empty)(1 := Map.empty(''Account(A)'' \<mapsto> 10000000005)) \<rparr>"

lemma world_a_granted_reachable: "lock_reachable sample_U lmc_default world_a_granted"
proof -
  let ?w0 = "lock_init 0 :: int lock_world"
  let ?w1 = "?w0\<lparr> lw_tasks := (lw_tasks ?w0)(1 \<mapsto> acquire_begin sample_U 1 [RlAccount ''A'']) \<rparr>"
  have "lock_reachable sample_U lmc_default ?w1"
    by (rule lock_reachable.move [OF lock_reachable.start lock_step.begin_acquire])
      (simp add: lock_init_def)
  moreover have "lock_step sample_U lmc_default ?w1 world_a_granted"
  proof -
    let ?a = "Acquiring [RlAccount ''A''] [] :: int lock_task"
    let ?g = "Granted \<lparr> lg_locks = [RlAccount ''A''], lg_holder_id = 1, lg_released = False \<rparr> :: int lock_task"
    let ?T = "Map.empty(''Account(A)'' \<mapsto> lki_new 5 (RlAccount ''A'') 1 (lmc_lock_ttl lmc_default)) :: int lock_table"
    have eq: "acquire_step sample_U lmc_default 1 5 5 True ?a (lw_table ?w1) = (?g, ?T)"
      by (simp add: lock_init_def try_acquire_one_def lock_key_def rl_display_def)
    have "lock_step sample_U lmc_default ?w1 \<lparr> lw_now = 5, lw_table = ?T,
        lw_tasks = (lw_tasks ?w1)(1 \<mapsto> ?g),
        lw_promised = (lw_promised ?w1)(1 := promise_after sample_U 1 ?a ?g ?T (lw_promised ?w1 1)) \<rparr>"
      by (rule lock_step.acquire [OF _ _ _ _ eq])
        (simp_all add: lock_init_def acquire_begin_def sort_locks_def)
    moreover have "promise_after sample_U 1 ?a ?g ?T (lw_promised ?w1 1)
        = Map.empty(''Account(A)'' \<mapsto> 10000000005)"
      by (simp add: promise_after_def lock_init_def lock_key_def rl_display_def lki_new_def
          ts_add_millis_def lmc_default_def)
    ultimately show ?thesis by (simp add: world_a_granted_def lock_init_def)
  qed
  ultimately show ?thesis by (rule lock_reachable.move)
qed

text \<open>
  C3. Mutual exclusion with time to live: in every reachable state, whatever the
  interleaving of acquisitions, retries, roll-backs, releases and sweeps, no two holders
  have a promise on the same key that is still running; and while a holder's promise runs,
  the table names that holder.
\<close>
theorem lock_mutual_exclusion:
  assumes "lock_reachable U cfg w" "lw_promised w h k = Some e" "lw_now w < e"
  shows "map_option lki_holder_id (lw_table w k) = Some h
    \<and> (\<forall>h' e'. h' \<noteq> h \<longrightarrow> lw_promised w h' k = Some e' \<longrightarrow> e' \<le> lw_now w)"
proof (intro conjI allI impI)
  have inv: "promise_inv w" using lock_reachable_inv [OF assms(1)] by simp
  have own: "store_owner (lw_table w) k = Some (h, e)"
    using inv assms(2,3) unfolding promise_inv_def by blast
  then show "map_option lki_holder_id (lw_table w k) = Some h"
    by (auto simp: store_owner_def)
  fix h' e' assume other: "h' \<noteq> h" "lw_promised w h' k = Some e'"
  show "e' \<le> lw_now w"
  proof (rule ccontr)
    assume "\<not> e' \<le> lw_now w"
    then have "store_owner (lw_table w) k = Some (h', e')"
      using inv other(2) unfolding promise_inv_def by (meson not_le)
    then show False using own other(1) by simp
  qed
qed

lemma lock_mutual_exclusion_witness:
  "map_option lki_holder_id (lw_table world_a_granted ''Account(A)'') = Some 1"
  by (rule lock_mutual_exclusion [OF world_a_granted_reachable, where e = 10000000005, THEN conjunct1])
    (simp_all add: world_a_granted_def)

text \<open>
  C28. No deadlock: in every reachable state the waits-for relation between holders is
  acyclic, because each holder takes its locks in the global order of category and key.
\<close>
theorem lock_waits_acyclic:
  assumes "lock_reachable U cfg w"
  shows "acyclic {(h, h'). lock_waits U w h h'}"
  using lock_reachable_inv [OF assms] by (blast intro: waits_acyclic)

lemma lock_waits_acyclic_witness: "acyclic {(h, h'). lock_waits sample_U world_a_granted h h'}"
  by (rule lock_waits_acyclic [OF world_a_granted_reachable])

text \<open>
  A refused acquisition leaves nothing behind: once a holder's request has failed and its
  roll-back is done, no entry of the table carries its identifier; the same holds after a
  release that reported success.
\<close>
theorem refused_holds_nothing:
  assumes "lock_reachable U cfg w"
    and "lw_tasks w h = Some (Refused err) \<or> lw_tasks w h = Some (Released (Inr ()))"
  shows "lw_table w k = Some i \<Longrightarrow> lki_holder_id i \<noteq> h"
  using lock_reachable_inv [OF assms(1)] assms(2) by (fastforce simp: owners_inv_def)

lemma refused_holds_nothing_witness:
  "\<exists>w :: int lock_world. lw_tasks w 1 = Some (Released (Inr ())) \<and> (\<forall>k i. lw_table w k = Some i \<longrightarrow> lki_holder_id i \<noteq> 1)"
proof -
  let ?w0 = world_a_granted
  let ?w1 = "?w0\<lparr> lw_tasks := (lw_tasks ?w0)(1 \<mapsto> Releasing (rev [RlAccount ''A''])),
      lw_promised := (lw_promised ?w0)(1 := Map.empty) \<rparr>"
  let ?w2 = "?w1\<lparr> lw_now := 6, lw_table := (lw_table ?w1)(''Account(A)'' := None),
      lw_tasks := (lw_tasks ?w1)(1 \<mapsto> Released (Inr ())) \<rparr>"
  have "lock_step sample_U lmc_default ?w0 ?w1"
    using lock_step.begin_release [of ?w0 1
      "\<lparr> lg_locks = [RlAccount ''A''], lg_holder_id = 1, lg_released = False \<rparr>" sample_U lmc_default]
    by (simp add: world_a_granted_def)
  then have "lock_reachable sample_U lmc_default ?w1"
    by (rule lock_reachable.move [OF world_a_granted_reachable])
  moreover have "lock_step sample_U lmc_default ?w1 ?w2"
    by (rule lock_step.release [where rs = "[RlAccount ''A'']"])
      (simp_all add: world_a_granted_def release_one_def lock_key_def rl_display_def lki_new_def)
  ultimately have "lock_reachable sample_U lmc_default ?w2" by (rule lock_reachable.move)
  moreover have "lw_tasks ?w2 1 = Some (Released (Inr ()))" by simp
  ultimately show ?thesis using refused_holds_nothing [of sample_U lmc_default ?w2 1] by blast
qed

text \<open>
  A granted guard covers exactly the requested resources, with multiplicity, in the
  global order, whatever the other tasks did to the table between the accesses.
\<close>
theorem granted_guard_covers_request:
  assumes "acquire_run U cfg h resources sched = Granted g"
  shows "mset (lg_locks g) = mset resources \<and> sorted (map (rl_rank U) (lg_locks g))"
  using acquire_run_requested [of U cfg h resources sched] assms by (simp add: requested_def)

lemma granted_guard_covers_request_witness:
  "mset [RlAccount ''A'', RlAccount ''B''] = mset [RlAccount ''B'', RlAccount ''A'' :: int resource_lock]
   \<and> sorted (map (rl_rank sample_U) [RlAccount ''A'', RlAccount ''B'' :: int resource_lock])"
proof -
  have "acquire_run sample_U lmc_default 1 [RlAccount ''B'', RlAccount ''A'' :: int resource_lock]
      [(0, 0, True, Map.empty), (1, 1, True, Map.empty)]
    = Granted \<lparr> lg_locks = [RlAccount ''A'', RlAccount ''B''], lg_holder_id = 1, lg_released = False \<rparr>"
    by (simp add: acquire_run_def acquire_begin_def sort_locks_def rl_rank_def rl_category_def
        rl_sort_key_def try_acquire_one_def lock_key_def rl_display_def less_list_code
        less_eq_list_code)
  from granted_guard_covers_request [OF this] show ?thesis by simp
qed

text \<open>
  A holder's entry outlives any calls of other holders and any sweeps whose clock
  readings precede its expiry: nobody takes, refreshes or removes it before.
\<close>
theorem entry_respected_until_expiry:
  assumes "store_owner T k = Some (h, e)"
    and "\<forall>c\<in>set calls. store_actor c \<noteq> Some h \<and> store_before e c"
  shows "store_owner (fold (store_apply U cfg) calls T) k = Some (h, e)"
  by (rule store.respects_all [OF assms])

lemma entry_respected_until_expiry_witness:
  "store_owner (fold (store_apply sample_U lmc_default)
     [TryAcquire 7 8 2 (RlAccount ''A''), ReleaseOne 9 2 (RlAccount ''A''), Sweep (\<lambda>_. 10)]
     (lw_table world_a_granted)) ''Account(A)'' = Some (1, 10000000005)"
  by (rule entry_respected_until_expiry)
    (simp_all add: world_a_granted_def store_owner_def lki_new_def ts_add_millis_def lmc_default_def)

text \<open>
  \<open>release_all\<close> gives up at the first lock it has lost: if the last lock of the guard has
  meanwhile expired and been taken by another holder, none of the other locks is released,
  although the caller still owns them.
\<close>
theorem release_all_abandons_rest:
  assumes "T (lock_key U r) = Some i" "lki_holder_id i \<noteq> h" "\<not> lki_is_expired (clk 0) i"
  shows "\<exists>err. release_all U clk h (locks @ [r]) T = (Inl err, T)"
  using assms by (simp add: release_all_def release_one_def op_then_def)

lemma release_all_abandons_rest_witness:
  "\<exists>err. release_all sample_U (\<lambda>_. 6) 2 ([RlAccount ''0''] @ [RlAccount ''A'']) (lw_table world_a_granted)
     = (Inl err, lw_table world_a_granted)"
  by (rule release_all_abandons_rest
        [where i = "lki_new 5 (RlAccount ''A'') 1 (lmc_lock_ttl lmc_default)"])
    (simp_all add: world_a_granted_def lock_key_def rl_display_def lki_new_def ts_add_millis_def
      lki_is_expired_def lmc_default_def)

end
