(* ===== verification/Capacity.thy ===== *)
theory Capacity
  imports Errors Instruments
begin

text \<open>
  Market-maker capacity: \<open>src/domain/entities/mm_capacity.rs\<close> (limits, reservations, the
  counters) and \<open>src/domain/services/capacity_manager.rs\<close> (check, reserve, release, adjust
  over a repository). The repository is a parameter, a record of its four operations on a
  state \<open>'r\<close>. The operations of one market maker exclude each other through its mutex, so
  each is one step. Events carry their payload without the fresh identifier and time stamp.
\<close>

section \<open>Limits\<close>

record 'd mm_capacity_config =
  mcc_max_concurrent_quotes :: u32
  mcc_max_notional :: 'd
  mcc_per_instrument_limits :: "symbol \<rightharpoonup> 'd"
  mcc_dynamic_adjustment_enabled :: bool

definition mcc_new :: "u32 \<Rightarrow> 'd \<Rightarrow> 'd mm_capacity_config" where
  "mcc_new q n = \<lparr> mcc_max_concurrent_quotes = q, mcc_max_notional = n,
     mcc_per_instrument_limits = Map.empty, mcc_dynamic_adjustment_enabled = True \<rparr>"

definition mcc_set_instrument_limit :: "symbol \<Rightarrow> 'd \<Rightarrow> 'd mm_capacity_config \<Rightarrow> 'd mm_capacity_config" where
  "mcc_set_instrument_limit s l c =
     c\<lparr> mcc_per_instrument_limits := (mcc_per_instrument_limits c)(s \<mapsto> l) \<rparr>"

definition mcc_remove_instrument_limit :: "symbol \<Rightarrow> 'd mm_capacity_config
    \<Rightarrow> 'd option \<times> 'd mm_capacity_config" where
  "mcc_remove_instrument_limit s c = (mcc_per_instrument_limits c s,
     c\<lparr> mcc_per_instrument_limits := (mcc_per_instrument_limits c)(s := None) \<rparr>)"

text \<open>\<open>round().to_u32().unwrap_or(1).max(1)\<close> after two panicking operators.\<close>

definition mcc_adjust_max_quotes :: "'d dec \<Rightarrow> 'd \<Rightarrow> ('d mm_capacity_config, 'e, u32) pop" where
  "mcc_adjust_max_quotes D pct c =
     (let m = dof_int D (uint (mcc_max_concurrent_quotes c)) in
      case obind (dtimes D m pct) (\<lambda>adjustment. dplus D m adjustment) of
        Ret new_value \<Rightarrow>
          let q = max 1 (case dto_u32 D (dround D new_value) of Some u \<Rightarrow> u | None \<Rightarrow> 1) in
          (Ret q, c\<lparr> mcc_max_concurrent_quotes := q \<rparr>)
      | Err e \<Rightarrow> (Err e, c)
      | Panic \<Rightarrow> (Panic, c))"

definition mcc_adjust_max_notional :: "'d dec \<Rightarrow> 'd \<Rightarrow> ('d mm_capacity_config, 'e, 'd) pop" where
  "mcc_adjust_max_notional D pct c =
     (case obind (dtimes D (mcc_max_notional c) pct) (\<lambda>adjustment. dplus D (mcc_max_notional c) adjustment) of
        Ret v \<Rightarrow> (Ret (dmax D v (d_one D)), c\<lparr> mcc_max_notional := dmax D v (d_one D) \<rparr>)
      | Err e \<Rightarrow> (Err e, c)
      | Panic \<Rightarrow> (Panic, c))"

section \<open>Reservations and counters\<close>

record 'd capacity_reservation =
  cres_rfq_id :: uuid
  cres_instrument :: symbol
  cres_notional :: 'd
  cres_reserved_at :: timestamp

definition cres_new :: "timestamp \<Rightarrow> uuid \<Rightarrow> symbol \<Rightarrow> 'd \<Rightarrow> 'd capacity_reservation" where
  "cres_new now rfq ins n =
     \<lparr> cres_rfq_id = rfq, cres_instrument = ins, cres_notional = n, cres_reserved_at = now \<rparr>"

record 'd mm_capacity_state =
  mcs_mm_id :: counterparty_id
  mcs_active_quotes :: u32
  mcs_current_notional :: 'd
  mcs_per_instrument_usage :: "symbol \<rightharpoonup> 'd"
  mcs_reservations :: "uuid \<rightharpoonup> 'd capacity_reservation"
  mcs_updated_at :: timestamp

definition mcs_new :: "'d dec \<Rightarrow> timestamp \<Rightarrow> counterparty_id \<Rightarrow> 'd mm_capacity_state" where
  "mcs_new D now mm = \<lparr> mcs_mm_id = mm, mcs_active_quotes = 0, mcs_current_notional = dzero D,
     mcs_per_instrument_usage = Map.empty, mcs_reservations = Map.empty, mcs_updated_at = now \<rparr>"

definition mcs_instrument_usage :: "'d dec \<Rightarrow> 'd mm_capacity_state \<Rightarrow> symbol \<Rightarrow> 'd" where
  "mcs_instrument_usage D s ins =
     (case mcs_per_instrument_usage s ins of Some u \<Rightarrow> u | None \<Rightarrow> dzero D)"

text \<open>
  Taking a reservation out of the counters, the sequence \<open>add_reservation\<close> runs on a
  reservation it replaces and \<open>remove_reservation\<close> on the one it removes.
\<close>

definition mcs_revert_counters :: "'d dec \<Rightarrow> 'd capacity_reservation
    \<Rightarrow> ('d mm_capacity_state, 'd domain_error, unit) pop" where
  "mcs_revert_counters D r s =
     (case w_checked_sub (mcs_active_quotes s) 1 of
        None \<Rightarrow> (Err (CapacityUnderflow (Txt ''active_quotes'')), s)
      | Some q \<Rightarrow>
          let s = s\<lparr> mcs_active_quotes := q \<rparr> in
          (case dminus D (mcs_current_notional s) (cres_notional r) of
             Ret n \<Rightarrow>
               let s = s\<lparr> mcs_current_notional := dmax D n (dzero D) \<rparr> in
               (case mcs_per_instrument_usage s (cres_instrument r) of
                  None \<Rightarrow> (Ret (), s)
                | Some usage \<Rightarrow>
                    (case dminus D usage (cres_notional r) of
                       Ret u \<Rightarrow>
                         let u = dmax D u (dzero D) in
                         (Ret (), s\<lparr> mcs_per_instrument_usage := (mcs_per_instrument_usage s)
                             (cres_instrument r := if deq D u (dzero D) then None else Some u) \<rparr>)
                     | Err e \<Rightarrow> (Err e, s)
                     | Panic \<Rightarrow> (Panic, s)))
           | Err e \<Rightarrow> (Err e, s)
           | Panic \<Rightarrow> (Panic, s)))"

text \<open>The rest of \<open>add_reservation\<close>: each counter is written before the next is computed.\<close>

definition mcs_add_counters :: "'d dec \<Rightarrow> timestamp \<Rightarrow> 'd capacity_reservation
    \<Rightarrow> ('d mm_capacity_state, 'd domain_error, unit) pop" where
  "mcs_add_counters D now r s =
     (case w_checked_add (mcs_active_quotes s) 1 of
        None \<Rightarrow> (Err (CapacityOverflow (Txt ''active_quotes'')), s)
      | Some q \<Rightarrow>
          let s = s\<lparr> mcs_active_quotes := q \<rparr> in
          (case dadd D (mcs_current_notional s) (cres_notional r) of
             None \<Rightarrow> (Err (CapacityOverflow (Txt ''current_notional'')), s)
           | Some n \<Rightarrow>
               let entry = mcs_instrument_usage D s (cres_instrument r);
                   s = s\<lparr> mcs_current_notional := n,
                         mcs_per_instrument_usage :=
                           (mcs_per_instrument_usage s)(cres_instrument r \<mapsto> entry) \<rparr> in
               (case dadd D entry (cres_notional r) of
                  None \<Rightarrow> (Err (CapacityOverflow (Txt ''per_instrument_usage'')), s)
                | Some u \<Rightarrow>
                    (Ret (), s\<lparr> mcs_per_instrument_usage :=
                               (mcs_per_instrument_usage s)(cres_instrument r \<mapsto> u),
                             mcs_reservations := (mcs_reservations s)(cres_rfq_id r \<mapsto> r),
                             mcs_updated_at := now \<rparr>))))"

definition mcs_add_reservation :: "'d dec \<Rightarrow> timestamp \<Rightarrow> 'd capacity_reservation
    \<Rightarrow> ('d mm_capacity_state, 'd domain_error, unit) pop" where
  "mcs_add_reservation D now r =
     pop_then (\<lambda>s. case mcs_reservations s (cres_rfq_id r) of
                     Some existing \<Rightarrow> mcs_revert_counters D existing s
                   | None \<Rightarrow> (Ret (), s))
       (\<lambda>_. mcs_add_counters D now r)"

definition mcs_remove_reservation :: "'d dec \<Rightarrow> timestamp \<Rightarrow> uuid
    \<Rightarrow> ('d mm_capacity_state, 'd domain_error, 'd capacity_reservation option) pop" where
  "mcs_remove_reservation D now rfq s =
     (case mcs_reservations s rfq of
        None \<Rightarrow> (Ret None, s)
      | Some r \<Rightarrow>
          pop_then (mcs_revert_counters D r)
            (\<lambda>_. pop_then (pop_modify (\<lambda>s. s\<lparr> mcs_updated_at := now \<rparr>)) (\<lambda>_. pop_ret (Some r)))
            (s\<lparr> mcs_reservations := (mcs_reservations s)(rfq := None) \<rparr>))"

definition mcs_clear :: "'d dec \<Rightarrow> timestamp \<Rightarrow> 'd mm_capacity_state \<Rightarrow> 'd mm_capacity_state" where
  "mcs_clear D now s = s\<lparr> mcs_active_quotes := 0, mcs_current_notional := dzero D,
     mcs_per_instrument_usage := Map.empty, mcs_reservations := Map.empty, mcs_updated_at := now \<rparr>"

section \<open>The manager\<close>

datatype 'd capacity_check_result =
    CapAvailable
  | AtMaxQuotes u32 u32
  | AtMaxNotional 'd 'd
  | AtInstrumentLimit symbol 'd 'd

definition ccr_reason :: "'d capacity_check_result \<Rightarrow> 'd msg" where
  "ccr_reason r = (case r of
       CapAvailable \<Rightarrow> Txt ''capacity available''
     | AtMaxQuotes c m \<Rightarrow> Fmt ''at max quotes: {}/{}'' [ArgNat (unat c), ArgNat (unat m)]
     | AtMaxNotional c m \<Rightarrow> Fmt ''at max notional: {}/{}'' [ArgDec c, ArgDec m]
     | AtInstrumentLimit i c m \<Rightarrow> Fmt ''at instrument limit for {}: {}/{}''
         [ArgStr (sym_value i), ArgDec c, ArgDec m])"

record ('r, 'd) capacity_repo =
  cr_get_config :: "'r \<Rightarrow> counterparty_id \<Rightarrow> 'd domain_error + 'd mm_capacity_config option"
  cr_save_config :: "counterparty_id \<Rightarrow> 'd mm_capacity_config \<Rightarrow> ('r, 'd domain_error, unit) op"
  cr_get_state :: "'r \<Rightarrow> counterparty_id \<Rightarrow> 'd domain_error + 'd mm_capacity_state"
  cr_save_state :: "'d mm_capacity_state \<Rightarrow> ('r, 'd domain_error, unit) op"

definition of_op :: "('s, 'e, 'a) op \<Rightarrow> ('s, 'e, 'a) pop" where
  "of_op m = (\<lambda>s. case m s of (x, s') \<Rightarrow> (of_result x, s'))"

definition get_or_default_config :: "('r, 'd) capacity_repo \<Rightarrow> 'd mm_capacity_config
    \<Rightarrow> 'r \<Rightarrow> counterparty_id \<Rightarrow> 'd domain_error + 'd mm_capacity_config" where
  "get_or_default_config R dflt rs mm =
     rbind (cr_get_config R rs mm) (\<lambda>c. Inr (case c of Some c \<Rightarrow> c | None \<Rightarrow> dflt))"

definition capacity_within :: "'d dec \<Rightarrow> 'd mm_capacity_config \<Rightarrow> 'd mm_capacity_state \<Rightarrow> symbol \<Rightarrow> 'd
    \<Rightarrow> ('d domain_error, 'd capacity_check_result) outcome" where
  "capacity_within D config state ins notional =
     (if mcc_max_concurrent_quotes config \<le> mcs_active_quotes state
      then Ret (AtMaxQuotes (mcs_active_quotes state) (mcc_max_concurrent_quotes config))
      else obind (dplus D (mcs_current_notional state) notional) (\<lambda>new_total.
        if dlt D (mcc_max_notional config) new_total
        then Ret (AtMaxNotional (mcs_current_notional state) (mcc_max_notional config))
        else (case mcc_per_instrument_limits config ins of
            None \<Rightarrow> Ret CapAvailable
          | Some limit \<Rightarrow>
              obind (dplus D (mcs_instrument_usage D state ins) notional) (\<lambda>new_instrument_total.
                if dlt D limit new_instrument_total
                then Ret (AtInstrumentLimit ins (mcs_instrument_usage D state ins) limit)
                else Ret CapAvailable))))"

definition check_capacity :: "'d dec \<Rightarrow> ('r, 'd) capacity_repo \<Rightarrow> 'd mm_capacity_config
    \<Rightarrow> counterparty_id \<Rightarrow> symbol \<Rightarrow> 'd \<Rightarrow> 'r \<Rightarrow> ('d domain_error, 'd capacity_check_result) outcome" where
  "check_capacity D R dflt mm ins notional rs =
     (if dle D notional (dzero D)
      then Err (ValidationError (Txt ''notional must be positive''))
      else obind (of_result (get_or_default_config R dflt rs mm)) (\<lambda>config.
        obind (of_result (cr_get_state R rs mm)) (\<lambda>state.
          capacity_within D config state ins notional)))"

record 'd capacity_reserved =
  ev_mm_id :: counterparty_id
  ev_rfq_id :: uuid
  ev_instrument :: symbol
  ev_notional :: 'd

text \<open>The local copy of the state is changed first, and saved only if that succeeded.\<close>

definition reserve_capacity :: "'d dec \<Rightarrow> ('r, 'd) capacity_repo \<Rightarrow> 'd mm_capacity_config
    \<Rightarrow> timestamp \<Rightarrow> counterparty_id \<Rightarrow> uuid \<Rightarrow> symbol \<Rightarrow> 'd
    \<Rightarrow> ('r, 'd domain_error, 'd capacity_reserved) pop" where
  "reserve_capacity D R dflt now mm rfq ins notional rs =
     (if dle D notional (dzero D)
      then (Err (ValidationError (Txt ''notional must be positive'')), rs)
      else (case check_capacity D R dflt mm ins notional rs of
          Err e \<Rightarrow> (Err e, rs)
        | Panic \<Rightarrow> (Panic, rs)
        | Ret r \<Rightarrow>
            if r \<noteq> CapAvailable then (Err (CapacityExceeded (Txt mm) (ccr_reason r)), rs)
            else (case cr_get_state R rs mm of
                Inl e \<Rightarrow> (Err e, rs)
              | Inr state \<Rightarrow>
                  (case mcs_add_reservation D now (cres_new now rfq ins notional) state of
                     (Err e, _) \<Rightarrow> (Err e, rs)
                   | (Panic, _) \<Rightarrow> (Panic, rs)
                   | (Ret _, state') \<Rightarrow>
                       pop_then (of_op (cr_save_state R state'))
                         (\<lambda>_. pop_ret \<lparr> ev_mm_id = mm, ev_rfq_id = rfq, ev_instrument = ins,
                                        ev_notional = notional \<rparr>) rs))))"

text \<open>The event of a release: market maker, RFQ, notional, reason.\<close>

definition release_capacity :: "'d dec \<Rightarrow> ('r, 'd) capacity_repo \<Rightarrow> timestamp \<Rightarrow> counterparty_id
    \<Rightarrow> uuid \<Rightarrow> string \<Rightarrow> ('r, 'd domain_error, (counterparty_id \<times> uuid \<times> 'd \<times> string) option) pop" where
  "release_capacity D R now mm rfq reason rs =
     (case cr_get_state R rs mm of
        Inl e \<Rightarrow> (Err e, rs)
      | Inr state \<Rightarrow>
          (case mcs_remove_reservation D now rfq state of
             (Err e, _) \<Rightarrow> (Err e, rs)
           | (Panic, _) \<Rightarrow> (Panic, rs)
           | (Ret None, _) \<Rightarrow> (Ret None, rs)
           | (Ret (Some r), state') \<Rightarrow>
               pop_then (of_op (cr_save_state R state'))
                 (\<lambda>_. pop_ret (Some (mm, rfq, cres_notional r, reason))) rs))"

text \<open>
  \<open>adjust_capacity\<close>: \<open>rate\<close> is \<open>None\<close> without data, else the outcomes of the two floating-point
  comparisons of the response rate with the increase and the decrease threshold.
\<close>

definition adjust_capacity :: "'d dec \<Rightarrow> ('r, 'd) capacity_repo \<Rightarrow> 'd mm_capacity_config \<Rightarrow> 'd
    \<Rightarrow> counterparty_id \<Rightarrow> (bool \<times> bool) option
    \<Rightarrow> ('r, 'd domain_error, (u32 \<times> u32 \<times> 'd \<times> 'd) option) pop" where
  "adjust_capacity D R dflt pct mm rate rs =
     (case get_or_default_config R dflt rs mm of
        Inl e \<Rightarrow> (Err e, rs)
      | Inr config \<Rightarrow>
          if \<not> mcc_dynamic_adjustment_enabled config then (Ret None, rs)
          else (case rate of
              None \<Rightarrow> (Ret None, rs)
            | Some (high, low) \<Rightarrow>
                if \<not> high \<and> \<not> low then (Ret None, rs)
                else
                  let p = (if high then pct else dnegate D pct) in
                  (case pop_then (mcc_adjust_max_quotes D p) (\<lambda>_. mcc_adjust_max_notional D p) config of
                     (Err e, _) \<Rightarrow> (Err e, rs)
                   | (Panic, _) \<Rightarrow> (Panic, rs)
                   | (Ret _, config') \<Rightarrow>
                       pop_then (of_op (cr_save_config R mm config'))
                         (\<lambda>_. pop_ret (Some (mcc_max_concurrent_quotes config,
                            mcc_max_concurrent_quotes config', mcc_max_notional config,
                            mcc_max_notional config'))) rs)))"

section \<open>Invariant\<close>

text \<open>
  The quote counter is the number of reservations, each filed under its RFQ; no notional is
  negative.
\<close>

definition mcs_inv :: "'d dec \<Rightarrow> 'd mm_capacity_state \<Rightarrow> bool" where
  "mcs_inv D s \<longleftrightarrow> finite (dom (mcs_reservations s))
     \<and> unat (mcs_active_quotes s) = card (dom (mcs_reservations s))
     \<and> (\<forall>k r. mcs_reservations s k = Some r \<longrightarrow> cres_rfq_id r = k \<and> dle D (dzero D) (cres_notional r))
     \<and> dle D (dzero D) (mcs_current_notional s)
     \<and> (\<forall>i u. mcs_per_instrument_usage s i = Some u \<longrightarrow> dle D (dzero D) u)"

lemma mcs_new_inv: "dec_order D \<Longrightarrow> mcs_inv D (mcs_new D now mm)"
  by (simp add: mcs_inv_def mcs_new_def dec_order_refl)

lemma mcs_clear_inv: "dec_order D \<Longrightarrow> mcs_inv D (mcs_clear D now s)"
  by (simp add: mcs_inv_def mcs_clear_def dec_order_refl)

text \<open>Taking a reservation out: one quote fewer, no counter below zero and none larger.\<close>

lemma revert_counters_Ret:
  assumes "mcs_revert_counters D r s = (Ret x, s')"
  shows "unat (mcs_active_quotes s') + 1 = unat (mcs_active_quotes s)"
    "mcs_reservations s' = mcs_reservations s"
    "\<exists>n. dsub D (mcs_current_notional s) (cres_notional r) = Some n
      \<and> mcs_current_notional s' = dmax D n (dzero D)"
    "mcs_per_instrument_usage s' i = mcs_per_instrument_usage s i
      \<or> i = cres_instrument r \<and> (\<exists>u v. mcs_per_instrument_usage s i = Some u
          \<and> dsub D u (cres_notional r) = Some v
          \<and> (mcs_per_instrument_usage s' i = None \<or> mcs_per_instrument_usage s' i = Some (dmax D v (dzero D))))"
  using assms
  by (auto simp: mcs_revert_counters_def Let_def dminus_def dest!: w_checked_sub_Some
      split: option.splits outcome.splits if_splits)

lemma dec_mono_sub: "dec_mono D \<Longrightarrow> dle D (dzero D) b \<Longrightarrow> dsub D a b = Some r \<Longrightarrow> dle D r a"
  unfolding dec_mono_def by (drule conjunct2, drule conjunct1) blast

lemma dec_mono_add:
  "dec_mono D \<Longrightarrow> dle D a b \<Longrightarrow> dadd D a c = Some r \<Longrightarrow> dadd D b c = Some r' \<Longrightarrow> dle D r r'"
  unfolding dec_mono_def by (drule conjunct1) blast

lemma dmax_zero_le:
  "dec_order D \<Longrightarrow> dec_mono D \<Longrightarrow> dle D (dzero D) a \<Longrightarrow> dle D (dzero D) b \<Longrightarrow> dsub D a b = Some n
    \<Longrightarrow> dle D (dmax D n (dzero D)) a"
  by (simp add: dmax_def dec_mono_sub)

lemma revert_counters_smaller:
  assumes "mcs_revert_counters D r s = (Ret x, s')" "dec_order D" "dec_mono D"
    "dle D (dzero D) (cres_notional r)" "dle D (dzero D) (mcs_current_notional s)"
    "\<forall>i u. mcs_per_instrument_usage s i = Some u \<longrightarrow> dle D (dzero D) u"
  shows "dle D (dzero D) (mcs_current_notional s')"
    "dle D (mcs_current_notional s') (mcs_current_notional s)"
    "\<forall>i u. mcs_per_instrument_usage s' i = Some u \<longrightarrow> dle D (dzero D) u"
    "dle D (mcs_instrument_usage D s' i) (mcs_instrument_usage D s i)"
proof -
  obtain n where n: "dsub D (mcs_current_notional s) (cres_notional r) = Some n"
      "mcs_current_notional s' = dmax D n (dzero D)"
    using revert_counters_Ret(3) [OF assms(1)] by blast
  show "dle D (dzero D) (mcs_current_notional s')" using n(2) dmax_ge(2) [OF assms(2)] by simp
  show "dle D (mcs_current_notional s') (mcs_current_notional s)"
    using n dmax_zero_le [OF assms(2,3,5,4) n(1)] by simp
  show "\<forall>i u. mcs_per_instrument_usage s' i = Some u \<longrightarrow> dle D (dzero D) u"
  proof (intro allI impI)
    fix i u
    assume "mcs_per_instrument_usage s' i = Some u"
    then show "dle D (dzero D) u"
      using revert_counters_Ret(4) [OF assms(1), of i] assms(6) dmax_ge(2) [OF assms(2)] by auto
  qed
  show "dle D (mcs_instrument_usage D s' i) (mcs_instrument_usage D s i)"
    using revert_counters_Ret(4) [OF assms(1), of i]
  proof
    assume "mcs_per_instrument_usage s' i = mcs_per_instrument_usage s i"
    then show ?thesis using dec_order_refl [OF assms(2)] by (simp add: mcs_instrument_usage_def)
  next
    assume "i = cres_instrument r \<and> (\<exists>u v. mcs_per_instrument_usage s i = Some u
        \<and> dsub D u (cres_notional r) = Some v
        \<and> (mcs_per_instrument_usage s' i = None \<or> mcs_per_instrument_usage s' i = Some (dmax D v (dzero D))))"
    then show ?thesis
      using assms(6) dmax_zero_le [OF assms(2,3) _ assms(4)] by (auto simp: mcs_instrument_usage_def)
  qed
qed

lemma add_counters_Ret:
  assumes "mcs_add_counters D now r s = (Ret x, s')"
  shows "unat (mcs_active_quotes s') = unat (mcs_active_quotes s) + 1"
    "dadd D (mcs_current_notional s) (cres_notional r) = Some (mcs_current_notional s')"
    "\<exists>u. dadd D (mcs_instrument_usage D s (cres_instrument r)) (cres_notional r) = Some u
      \<and> mcs_per_instrument_usage s' = (mcs_per_instrument_usage s)(cres_instrument r \<mapsto> u)"
    "mcs_reservations s' = (mcs_reservations s)(cres_rfq_id r \<mapsto> r)"
  using assms
  by (auto simp: mcs_add_counters_def Let_def mcs_instrument_usage_def
      dest!: w_checked_add_Some split: option.splits)

text \<open>The state on which a new reservation is counted: the replaced one, if any, taken out.\<close>

lemma add_reservation_Ret:
  assumes "mcs_add_reservation D now r s = (Ret x, s')" "mcs_inv D s" "dec_order D" "dec_mono D"
  obtains s0 where "mcs_add_counters D now r s0 = (Ret x, s')"
    "mcs_reservations s0 = mcs_reservations s"
    "unat (mcs_active_quotes s0) + (if mcs_reservations s (cres_rfq_id r) = None then 0 else 1)
       = unat (mcs_active_quotes s)"
    "dle D (dzero D) (mcs_current_notional s0)"
    "dle D (mcs_current_notional s0) (mcs_current_notional s)"
    "\<forall>i u. mcs_per_instrument_usage s0 i = Some u \<longrightarrow> dle D (dzero D) u"
    "\<forall>i. dle D (mcs_instrument_usage D s0 i) (mcs_instrument_usage D s i)"
proof (cases "mcs_reservations s (cres_rfq_id r)")
  case None
  then show ?thesis
    using assms that [of s] by (auto simp: mcs_add_reservation_def pop_then_Ret_iff mcs_inv_def dec_order_refl)
next
  case (Some old)
  then obtain y s0 where rev: "mcs_revert_counters D old s = (Ret y, s0)"
      and add: "mcs_add_counters D now r s0 = (Ret x, s')"
    using assms(1) by (auto simp: mcs_add_reservation_def pop_then_Ret_iff)
  have "dle D (dzero D) (cres_notional old)" "dle D (dzero D) (mcs_current_notional s)"
      "\<forall>i u. mcs_per_instrument_usage s i = Some u \<longrightarrow> dle D (dzero D) u"
    using assms(2) Some by (auto simp: mcs_inv_def)
  note small = revert_counters_smaller [OF rev assms(3,4) this]
  show ?thesis
    using that [OF add] revert_counters_Ret(1,2) [OF rev] small Some by simp
qed

lemma add_reservation_inv:
  assumes "mcs_add_reservation D now r s = (Ret x, s')" "mcs_inv D s" "dec_order D" "dec_mono D"
    "dle D (dzero D) (cres_notional r)"
  shows "mcs_inv D s'"
proof -
  obtain s0 where add: "mcs_add_counters D now r s0 = (Ret x, s')"
    and s0: "mcs_reservations s0 = mcs_reservations s"
      "unat (mcs_active_quotes s0) + (if mcs_reservations s (cres_rfq_id r) = None then 0 else 1)
         = unat (mcs_active_quotes s)"
      "dle D (dzero D) (mcs_current_notional s0)"
      "\<forall>i u. mcs_per_instrument_usage s0 i = Some u \<longrightarrow> dle D (dzero D) u"
    using add_reservation_Ret [OF assms(1-4)] by metis
  note eff = add_counters_Ret [OF add]
  have up: "dle D a b" if "dadd D a (cres_notional r) = Some b" for a b
    using assms(4,5) that unfolding dec_mono_def by blast
  have usage: "dle D (dzero D) (mcs_instrument_usage D s0 i)" for i
    using s0(4) dec_order_refl [OF assms(3)] by (simp add: mcs_instrument_usage_def split: option.split)
  have "card (dom (mcs_reservations s')) = unat (mcs_active_quotes s')"
    using assms(2) eff(1,4) s0(1,2)
    by (auto simp: mcs_inv_def card_insert_if domIff split: if_splits)
  moreover have "dle D (dzero D) (mcs_current_notional s')"
    using up [OF eff(2)] s0(3) dec_order_trans [OF assms(3)] by blast
  moreover have "dle D (dzero D) u" if "mcs_per_instrument_usage s' i = Some u" for i u
    using eff(3) s0(4) that usage up dec_order_trans [OF assms(3)] by (fastforce split: if_splits)
  ultimately show ?thesis
    using assms(2,5) eff(4) s0(1) by (auto simp: mcs_inv_def split: if_splits)
qed

lemma remove_reservation_inv:
  assumes "mcs_remove_reservation D now rfq s = (Ret x, s')" "mcs_inv D s" "dec_order D" "dec_mono D"
  shows "mcs_inv D s' \<and> x = mcs_reservations s rfq
    \<and> mcs_reservations s' = (mcs_reservations s)(rfq := None)"
proof (cases "mcs_reservations s rfq")
  case None
  then show ?thesis using assms by (auto simp: mcs_remove_reservation_def fun_upd_idem)
next
  case (Some r)
  let ?s = "s\<lparr> mcs_reservations := (mcs_reservations s)(rfq := None) \<rparr>"
  obtain y s0 where rev: "mcs_revert_counters D r ?s = (Ret y, s0)"
      and s': "s' = s0\<lparr> mcs_updated_at := now \<rparr>" "x = Some r"
    using assms(1) Some by (auto simp: mcs_remove_reservation_def pop_then_Ret_iff)
  have "dle D (dzero D) (cres_notional r)" "dle D (dzero D) (mcs_current_notional ?s)"
      "\<forall>i u. mcs_per_instrument_usage ?s i = Some u \<longrightarrow> dle D (dzero D) u"
    using assms(2) Some by (auto simp: mcs_inv_def)
  note small = revert_counters_smaller [OF rev assms(3,4) this]
  have "card (dom (mcs_reservations s)) = Suc (card (dom (mcs_reservations s) - {rfq}))"
    using assms(2) Some by (intro card.remove) (auto simp: mcs_inv_def)
  then show ?thesis
    using assms(2) small(1,3) revert_counters_Ret(1,2) [OF rev] s' Some by (auto simp: mcs_inv_def)
qed

text \<open>
  The manager's use of a state: a call that fails is not saved, so the state before it
  stays.
\<close>

datatype 'd cap_cmd =
    Reserve timestamp uuid symbol 'd
  | Unreserve timestamp uuid
  | ClearAll timestamp

definition keep_if_ret :: "('e, 'a) outcome \<times> 's \<Rightarrow> 's \<Rightarrow> 's" where
  "keep_if_ret x s = (case x of (Ret _, s') \<Rightarrow> s' | _ \<Rightarrow> s)"

fun cap_apply :: "'d dec \<Rightarrow> 'd cap_cmd \<Rightarrow> 'd mm_capacity_state \<Rightarrow> 'd mm_capacity_state" where
  "cap_apply D (Reserve now rfq ins n) s =
     (if dle D n (dzero D) then s
      else keep_if_ret (mcs_add_reservation D now (cres_new now rfq ins n) s) s)"
| "cap_apply D (Unreserve now rfq) s = keep_if_ret (mcs_remove_reservation D now rfq s) s"
| "cap_apply D (ClearAll now) s = mcs_clear D now s"

lemma keep_if_ret_cases:
  "(\<And>a s'. x = (Ret a, s') \<Longrightarrow> P s') \<Longrightarrow> P s \<Longrightarrow> P (keep_if_ret x s)"
  by (auto simp: keep_if_ret_def split: prod.split outcome.split)

lemma not_dle_zero: "dec_order D \<Longrightarrow> \<not> dle D n (dzero D) \<Longrightarrow> dle D (dzero D) n"
  unfolding dec_order_def by blast

lemma cap_apply_inv:
  assumes "dec_order D" "dec_mono D" "mcs_inv D s"
  shows "mcs_inv D (cap_apply D c s)"
proof (cases c)
  case (Reserve now rfq ins n)
  show ?thesis
  proof (cases "dle D n (dzero D)")
    case True
    then show ?thesis using assms(3) Reserve by simp
  next
    case False
    then have "dle D (dzero D) (cres_notional (cres_new now rfq ins n))"
      using not_dle_zero [OF assms(1)] by (simp add: cres_new_def)
    then have "mcs_inv D (keep_if_ret (mcs_add_reservation D now (cres_new now rfq ins n) s) s)"
      using add_reservation_inv [OF _ assms(3,1,2)] assms(3)
      by (intro keep_if_ret_cases [where P = "mcs_inv D"])
    then show ?thesis using Reserve False by simp
  qed
next
  case (Unreserve now rfq)
  have "mcs_inv D (keep_if_ret (mcs_remove_reservation D now rfq s) s)"
    using remove_reservation_inv [OF _ assms(3,1,2)] assms(3)
    by (intro keep_if_ret_cases [where P = "mcs_inv D"]) blast+
  then show ?thesis using Unreserve by simp
qed (use assms in \<open>simp add: mcs_clear_inv\<close>)

lemma cap_run_inv:
  "dec_order D \<Longrightarrow> dec_mono D \<Longrightarrow> mcs_inv D s \<Longrightarrow> mcs_inv D (fold (cap_apply D) cs s)"
  by (induction cs arbitrary: s) (auto simp: cap_apply_inv)

section \<open>Reserving within the limits\<close>

lemma capacity_within_available:
  assumes "capacity_within D c s ins n = Ret CapAvailable"
  shows "mcs_active_quotes s < mcc_max_concurrent_quotes c"
    "\<exists>t. dadd D (mcs_current_notional s) n = Some t \<and> dle D t (mcc_max_notional c)"
    "mcc_per_instrument_limits c ins = Some limit \<Longrightarrow>
      \<exists>t. dadd D (mcs_instrument_usage D s ins) n = Some t \<and> dle D t limit"
  using assms
  by (auto simp: capacity_within_def dplus_def dlt_def not_le split: if_splits option.splits)

definition within_limits :: "'d dec \<Rightarrow> 'd mm_capacity_config \<Rightarrow> symbol \<Rightarrow> 'd mm_capacity_state \<Rightarrow> bool" where
  "within_limits D c ins s \<longleftrightarrow> mcs_active_quotes s \<le> mcc_max_concurrent_quotes c
     \<and> dle D (mcs_current_notional s) (mcc_max_notional c)
     \<and> (\<forall>limit. mcc_per_instrument_limits c ins = Some limit \<longrightarrow> dle D (mcs_instrument_usage D s ins) limit)"

lemma checked_add_within_limits:
  assumes "capacity_within D c s ins n = Ret CapAvailable"
    "mcs_add_reservation D now (cres_new now rfq ins n) s = (Ret x, s')"
    "mcs_inv D s" "dec_order D" "dec_mono D"
  shows "within_limits D c ins s'"
proof -
  let ?r = "cres_new now rfq ins n"
  obtain s0 where add: "mcs_add_counters D now ?r s0 = (Ret x, s')"
    and q: "unat (mcs_active_quotes s0) \<le> unat (mcs_active_quotes s)"
    and n0: "dle D (mcs_current_notional s0) (mcs_current_notional s)"
    and u0: "\<forall>i. dle D (mcs_instrument_usage D s0 i) (mcs_instrument_usage D s i)"
    using add_reservation_Ret [OF assms(2-5)] by (metis le_add1)
  note eff = add_counters_Ret [OF add]
  note ok = capacity_within_available [OF assms(1)]
  have "mcs_active_quotes s' \<le> mcc_max_concurrent_quotes c"
    using ok(1) q eff(1) by (simp add: word_le_nat_alt word_less_nat_alt)
  moreover have "dle D (mcs_current_notional s') (mcc_max_notional c)"
    using ok(2) eff(2) dec_mono_add [OF assms(5) n0] dec_order_trans [OF assms(4)]
    by (fastforce simp: cres_new_def)
  moreover have "dle D (mcs_instrument_usage D s' ins) limit"
    if limit: "mcc_per_instrument_limits c ins = Some limit" for limit
  proof -
    obtain t where t: "dadd D (mcs_instrument_usage D s ins) n = Some t" "dle D t limit"
      using ok(3) [OF limit] by blast
    obtain u where u: "dadd D (mcs_instrument_usage D s0 ins) n = Some u"
        "mcs_instrument_usage D s' ins = u"
      using eff(3) by (auto simp: cres_new_def mcs_instrument_usage_def)
    then show ?thesis
      using t dec_mono_add [OF assms(5) u0 [rule_format] u(1) t(1)] dec_order_trans [OF assms(4)] by metis
  qed
  ultimately show ?thesis by (simp add: within_limits_def)
qed

text \<open>What a successful \<open>reserve_capacity\<close> did, step by step.\<close>

lemma reserve_capacity_Ret:
  assumes "reserve_capacity D R dflt now mm rfq ins n rs = (Ret ev, rs')"
  obtains config s x s' where "\<not> dle D n (dzero D)"
    "get_or_default_config R dflt rs mm = Inr config" "cr_get_state R rs mm = Inr s"
    "capacity_within D config s ins n = Ret CapAvailable"
    "mcs_add_reservation D now (cres_new now rfq ins n) s = (Ret x, s')"
    "cr_save_state R s' rs = (Inr (), rs')"
proof -
  have pos: "\<not> dle D n (dzero D)" using assms by (auto simp: reserve_capacity_def)
  moreover have check: "check_capacity D R dflt mm ins n rs = Ret CapAvailable"
    using assms pos by (auto simp: reserve_capacity_def split: outcome.splits if_splits)
  moreover obtain s where s: "cr_get_state R rs mm = Inr s"
    using assms pos check by (auto simp: reserve_capacity_def split: sum.splits)
  moreover obtain config where config: "get_or_default_config R dflt rs mm = Inr config"
      "capacity_within D config s ins n = Ret CapAvailable"
    using check s pos
    by (cases "get_or_default_config R dflt rs mm") (auto simp: check_capacity_def)
  moreover obtain x s' where add: "mcs_add_reservation D now (cres_new now rfq ins n) s = (Ret x, s')"
    using assms pos check s by (auto simp: reserve_capacity_def split: prod.splits outcome.splits)
  moreover have "cr_save_state R s' rs = (Inr (), rs')"
  proof (cases "cr_save_state R s' rs")
    case (Pair y rs1)
    then show ?thesis
      using assms pos check s add
      by (cases y) (auto simp: reserve_capacity_def pop_then_def of_op_def pop_ret_def)
  qed
  ultimately show ?thesis using that by blast
qed

text \<open>A repository in memory, with every write succeeding.\<close>

type_synonym mem_repo =
  "(counterparty_id \<rightharpoonup> int mm_capacity_config) \<times> (counterparty_id \<rightharpoonup> int mm_capacity_state)"

definition mem_repo :: "(mem_repo, int) capacity_repo" where
  "mem_repo = \<lparr> cr_get_config = (\<lambda>(c, _) mm. Inr (c mm)),
     cr_save_config = (\<lambda>mm cfg (c, s). (Inr (), (c(mm \<mapsto> cfg), s))),
     cr_get_state = (\<lambda>(_, s) mm. Inr (case s mm of Some x \<Rightarrow> x | None \<Rightarrow> mcs_new whole_dec 0 mm)),
     cr_save_state = (\<lambda>x (c, s). (Inr (), (c, s(mcs_mm_id x \<mapsto> x)))) \<rparr>"

definition btc_usd :: symbol where
  "btc_usd = \<lparr> sym_value = ''BTC/USD'', sym_separator_index = 3 \<rparr>"

section \<open>Properties\<close>

text \<open>
  C24. A granted reservation respects every limit: if \<open>reserve_capacity\<close> succeeds on a
  well-formed state, also when it replaces an earlier reservation of the same RFQ, the state
  it saves has at most the configured quotes, notional and per-instrument notional, is
  well-formed, and files the reservation under its RFQ.
\<close>
theorem reserve_respects_limits:
  assumes "reserve_capacity D R dflt now mm rfq ins n rs = (Ret ev, rs')"
    and "cr_get_state R rs mm = Inr s" "mcs_inv D s" "dec_order D" "dec_mono D"
  shows "\<exists>config s'. get_or_default_config R dflt rs mm = Inr config
    \<and> cr_save_state R s' rs = (Inr (), rs')
    \<and> within_limits D config ins s' \<and> mcs_inv D s'
    \<and> mcs_reservations s' = (mcs_reservations s)(rfq \<mapsto> cres_new now rfq ins n)"
proof -
  obtain config s1 x s' where pos: "\<not> dle D n (dzero D)"
    and config: "get_or_default_config R dflt rs mm = Inr config" and s1: "cr_get_state R rs mm = Inr s1"
    and ok: "capacity_within D config s1 ins n = Ret CapAvailable"
    and add: "mcs_add_reservation D now (cres_new now rfq ins n) s1 = (Ret x, s')"
    and save: "cr_save_state R s' rs = (Inr (), rs')"
    by (rule reserve_capacity_Ret [OF assms(1)])
  have s: "s1 = s" using s1 assms(2) by simp
  obtain s0 where "mcs_add_counters D now (cres_new now rfq ins n) s0 = (Ret x, s')"
      "mcs_reservations s0 = mcs_reservations s"
    using add_reservation_Ret [OF add [unfolded s] assms(3-5)] by metis
  then have "mcs_reservations s' = (mcs_reservations s)(rfq \<mapsto> cres_new now rfq ins n)"
    using add_counters_Ret(4) by (fastforce simp: cres_new_def)
  moreover have "mcs_inv D s'"
    using add_reservation_inv [OF add [unfolded s] assms(3-5)] not_dle_zero [OF assms(4) pos]
    by (simp add: cres_new_def)
  ultimately show ?thesis
    using config save checked_add_within_limits [OF ok add] assms(3-5) s by blast
qed

lemma reserve_respects_limits_witness:
  "\<exists>config s'. get_or_default_config mem_repo (mcc_new 2 100) (Map.empty, Map.empty) ''MM1'' = Inr config
    \<and> within_limits whole_dec config btc_usd s'
    \<and> mcs_reservations s' = Map.empty(7 \<mapsto> cres_new 5 7 btc_usd 60)"
proof -
  have "\<exists>ev rs'. reserve_capacity whole_dec mem_repo (mcc_new 2 100) 5 ''MM1'' 7 btc_usd 60
      (Map.empty, Map.empty) = (Ret ev, rs')"
    by (simp add: reserve_capacity_def check_capacity_def get_or_default_config_def mem_repo_def
        capacity_within_def mcc_new_def mcs_new_def dplus_def dlt_def whole_fit_def
        mcs_add_reservation_def pop_then_def mcs_add_counters_def w_checked_add_def cres_new_def
        mcs_instrument_usage_def of_op_def pop_ret_def)
  then obtain ev rs' where "reserve_capacity whole_dec mem_repo (mcc_new 2 100) 5 ''MM1'' 7 btc_usd 60
      (Map.empty, Map.empty) = (Ret ev, rs')" by blast
  from reserve_respects_limits [OF this _ mcs_new_inv whole_dec_order whole_dec_mono, of 0 "''MM1''"]
  show ?thesis by (auto simp: mem_repo_def mcs_new_def whole_dec_order)
qed

text \<open>
  Over any history of reservations, releases and clears from a new state, with failed
  calls discarded as the manager does, the quote counter equals the number of reservations
  and no notional is negative.
\<close>
theorem capacity_history_keeps_invariant:
  assumes "dec_order D" "dec_mono D"
  shows "mcs_inv D (fold (cap_apply D) cs (mcs_new D now mm))"
  using cap_run_inv [OF assms mcs_new_inv [OF assms(1)]] .

lemma capacity_history_keeps_invariant_witness:
  "mcs_inv whole_dec (fold (cap_apply whole_dec)
     [Reserve 1 7 btc_usd 60, Reserve 2 7 btc_usd 20, Unreserve 3 7, ClearAll 4]
     (mcs_new whole_dec 0 ''MM1''))"
  by (rule capacity_history_keeps_invariant [OF whole_dec_order whole_dec_mono])

text \<open>
  Releasing never reports an underflow on a well-formed state: it either panics in the
  decimal subtraction or removes the reservation, giving it back, or finds none.
\<close>
theorem release_never_underflows:
  assumes "mcs_inv D s"
  shows "fst (mcs_remove_reservation D now rfq s) \<noteq> Err e"
proof (cases "mcs_reservations s rfq")
  case None
  then show ?thesis by (simp add: mcs_remove_reservation_def)
next
  case (Some r)
  then have "0 < card (dom (mcs_reservations s))"
    using assms by (auto simp: mcs_inv_def card_gt_0_iff)
  then have "1 \<le> mcs_active_quotes s"
    using assms by (simp add: mcs_inv_def word_le_nat_alt)
  then show ?thesis
    using Some
    by (auto simp: mcs_remove_reservation_def pop_then_def pop_modify_def pop_ret_def
        mcs_revert_counters_def w_checked_sub_def Let_def dminus_def split: outcome.splits option.splits
        prod.splits)
qed

lemma release_never_underflows_witness:
  "fst (mcs_remove_reservation whole_dec 3 7 (mcs_new whole_dec 0 ''MM1''))
     \<noteq> Err (CapacityUnderflow (Txt ''active_quotes''))"
  by (rule release_never_underflows) (rule mcs_new_inv [OF whole_dec_order])

text \<open>
  Round trip: a reservation for an RFQ that had none, taken back, is returned as it was
  made, and the reservations and the quote counter are as before.
\<close>
theorem release_undoes_reserve:
  assumes "mcs_inv D s" "dec_order D" "dec_mono D" "dle D (dzero D) n"
    and "mcs_reservations s rfq = None"
    and "mcs_add_reservation D now (cres_new now rfq ins n) s = (Ret x, s')"
    and "mcs_remove_reservation D now' rfq s' = (Ret y, s'')"
  shows "y = Some (cres_new now rfq ins n) \<and> mcs_reservations s'' = mcs_reservations s
    \<and> mcs_active_quotes s'' = mcs_active_quotes s"
proof -
  obtain s0 where "mcs_add_counters D now (cres_new now rfq ins n) s0 = (Ret x, s')"
      "mcs_reservations s0 = mcs_reservations s"
    using add_reservation_Ret [OF assms(6,1-3)] by metis
  then have res: "mcs_reservations s' = (mcs_reservations s)(rfq \<mapsto> cres_new now rfq ins n)"
    using add_counters_Ret(4) by (fastforce simp: cres_new_def)
  have "mcs_inv D s'"
    using add_reservation_inv [OF assms(6,1-3)] assms(4) by (simp add: cres_new_def)
  then have rem: "mcs_inv D s''" "y = mcs_reservations s' rfq"
      "mcs_reservations s'' = (mcs_reservations s')(rfq := None)"
    using remove_reservation_inv [OF assms(7) _ assms(2,3)] by simp_all
  then have same: "mcs_reservations s'' = mcs_reservations s" using res assms(5) by auto
  then have "unat (mcs_active_quotes s'') = unat (mcs_active_quotes s)"
    using rem(1) assms(1) by (simp add: mcs_inv_def)
  then show ?thesis using rem res same by (simp add: word_unat_eq_iff)
qed

lemma release_undoes_reserve_witness:
  "fst (mcs_remove_reservation whole_dec 6 7
     (snd (mcs_add_reservation whole_dec 5 (cres_new 5 7 btc_usd 60) (mcs_new whole_dec 0 ''MM1''))))
   = Ret (Some (cres_new 5 7 btc_usd 60))"
proof -
  let ?s = "mcs_new whole_dec 0 ''MM1''"
  let ?s1 = "snd (mcs_add_reservation whole_dec 5 (cres_new 5 7 btc_usd 60) ?s)"
  let ?s2 = "snd (mcs_remove_reservation whole_dec 6 7 ?s1)"
  have add: "mcs_add_reservation whole_dec 5 (cres_new 5 7 btc_usd 60) ?s = (Ret (), ?s1)"
    by (simp add: mcs_add_reservation_def mcs_new_def pop_then_def mcs_add_counters_def
        w_checked_add_def cres_new_def mcs_instrument_usage_def whole_fit_def)
  have "\<exists>y. mcs_remove_reservation whole_dec 6 7 ?s1 = (Ret y, ?s2)"
    by (simp add: mcs_add_reservation_def mcs_new_def pop_then_def mcs_add_counters_def
        w_checked_add_def cres_new_def mcs_instrument_usage_def whole_fit_def
        mcs_remove_reservation_def mcs_revert_counters_def w_checked_sub_def dminus_def dmax_def
        dlt_def pop_modify_def pop_ret_def)
  then obtain y where y: "mcs_remove_reservation whole_dec 6 7 ?s1 = (Ret y, ?s2)" by blast
  have "y = Some (cres_new 5 7 btc_usd 60)"
    using release_undoes_reserve [OF mcs_new_inv whole_dec_order whole_dec_mono _ _ add y] whole_dec_order
    by (simp add: mcs_new_def)
  then show ?thesis using y by (metis fst_conv)
qed

text \<open>
  An increase can collapse the limit: where the raised number of quotes no longer fits
  32 bits, \<open>adjust_max_quotes\<close> sets the limit to 1 instead of saturating.
\<close>
theorem adjust_overflow_collapses_limit:
  assumes "dmul D (dof_int D (uint (mcc_max_concurrent_quotes c))) pct = Some adjustment"
    and "dadd D (dof_int D (uint (mcc_max_concurrent_quotes c))) adjustment = Some v"
    and "dto_u32 D (dround D v) = None"
  shows "mcc_adjust_max_quotes D pct c = (Ret 1, c\<lparr> mcc_max_concurrent_quotes := 1 \<rparr>)"
  using assms by (simp add: mcc_adjust_max_quotes_def dtimes_def dplus_def Let_def)

lemma adjust_overflow_collapses_limit_witness:
  "mcc_adjust_max_quotes whole_dec 1 (mcc_new 4000000000 5)
     = (Ret 1, (mcc_new 4000000000 5)\<lparr> mcc_max_concurrent_quotes := 1 \<rparr>)"
  by (rule adjust_overflow_collapses_limit [where adjustment = 4000000000 and v = 8000000000])
    (simp_all add: mcc_new_def whole_dec_def whole_fit_def)

text \<open>
  \<open>add_reservation\<close> is not atomic on errors: when the notional total overflows, the quote
  counter stays incremented although no reservation is filed. Only the manager's discarding
  of its copy hides it.
\<close>
theorem add_reservation_error_inflates_counter:
  assumes "mcs_reservations s (cres_rfq_id r) = None"
    and "w_checked_add (mcs_active_quotes s) 1 = Some q"
    and "dadd D (mcs_current_notional s) (cres_notional r) = None"
  shows "mcs_add_reservation D now r s =
    (Err (CapacityOverflow (Txt ''current_notional'')), s\<lparr> mcs_active_quotes := q \<rparr>)"
  using assms by (simp add: mcs_add_reservation_def pop_then_def mcs_add_counters_def Let_def)

lemma add_reservation_error_inflates_counter_witness:
  "mcs_add_reservation whole_dec 5 (cres_new 5 7 btc_usd (2 ^ 96)) (mcs_new whole_dec 0 ''MM1'') =
    (Err (CapacityOverflow (Txt ''current_notional'')),
     (mcs_new whole_dec 0 ''MM1'')\<lparr> mcs_active_quotes := 1 \<rparr>)"
  by (rule add_reservation_error_inflates_counter)
    (simp_all add: mcs_new_def cres_new_def whole_fit_def w_checked_add_def)

end
