(* ===== verification/Packages.thy ===== *)
theory Packages
  imports Quotes Instruments
begin

text \<open>
  Multi-leg strategies and the quotes on them: \<open>src/domain/value_objects/strategy.rs\<close> and
  \<open>src/domain/entities/package_quote.rs\<close>.
\<close>

section \<open>Strategies\<close>

datatype strategy_type = Spread | Straddle | Strangle | IronCondor | Butterfly | CustomStrategy

definition st_min_legs :: "strategy_type \<Rightarrow> nat" where
  "st_min_legs t = (case t of Spread \<Rightarrow> 2 | Straddle \<Rightarrow> 2 | Strangle \<Rightarrow> 2 | Butterfly \<Rightarrow> 3
     | IronCondor \<Rightarrow> 4 | CustomStrategy \<Rightarrow> 1)"

definition st_expected_legs :: "strategy_type \<Rightarrow> nat option" where
  "st_expected_legs t = (case t of Spread \<Rightarrow> Some 2 | Straddle \<Rightarrow> Some 2 | Strangle \<Rightarrow> Some 2
     | Butterfly \<Rightarrow> Some 3 | IronCondor \<Rightarrow> Some 4 | CustomStrategy \<Rightarrow> None)"

definition st_is_standard :: "strategy_type \<Rightarrow> bool" where
  "st_is_standard t \<longleftrightarrow> t \<noteq> CustomStrategy"

definition st_display :: "strategy_type \<Rightarrow> string" where
  "st_display t = (case t of Spread \<Rightarrow> ''SPREAD'' | Straddle \<Rightarrow> ''STRADDLE'' | Strangle \<Rightarrow> ''STRANGLE''
     | IronCondor \<Rightarrow> ''IRON_CONDOR'' | Butterfly \<Rightarrow> ''BUTTERFLY'' | CustomStrategy \<Rightarrow> ''CUSTOM'')"

definition st_from_str :: "string \<Rightarrow> string + strategy_type" where
  "st_from_str s =
     (let u = map (\<lambda>c. if c = CHR ''-'' then CHR ''_'' else c) (map to_upper s) in
      if u = ''SPREAD'' then Inr Spread
      else if u = ''STRADDLE'' then Inr Straddle
      else if u = ''STRANGLE'' then Inr Strangle
      else if u = ''IRON_CONDOR'' \<or> u = ''IRONCONDOR'' then Inr IronCondor
      else if u = ''BUTTERFLY'' then Inr Butterfly
      else if u = ''CUSTOM'' then Inr CustomStrategy
      else Inl s)"

record 'd strategy_leg =
  sl_instrument :: "'d instrument"
  sl_side :: order_side
  sl_ratio :: u32

definition sl_new :: "'d instrument \<Rightarrow> order_side \<Rightarrow> u32 \<Rightarrow> 'd domain_error + 'd strategy_leg" where
  "sl_new i side ratio =
     (if ratio = 0 then Inl (ValidationError (Txt ''strategy leg ratio must be > 0''))
      else Inr \<lparr> sl_instrument = i, sl_side = side, sl_ratio = ratio \<rparr>)"

definition sl_underlying :: "'d strategy_leg \<Rightarrow> string" where
  "sl_underlying l = base_asset (ins_symbol (sl_instrument l))"

record 'd strategy =
  str_strategy_type :: strategy_type
  str_legs :: "'d strategy_leg list"
  str_underlying :: string
  str_description :: "string option"

definition str_leg_count :: "'d strategy \<Rightarrow> nat" where
  "str_leg_count s = length (str_legs s)"

definition str_validate_legs ::
    "'d strategy_leg list \<Rightarrow> strategy_type \<Rightarrow> string \<Rightarrow> 'd domain_error + unit" where
  "str_validate_legs legs t underlying =
     (if legs = [] then Inl (ValidationError (Txt ''strategy must have at least one leg''))
      else if length legs < st_min_legs t
      then Inl (ValidationError (Fmt ''strategy type {} requires at least {} legs, got {}''
             [ArgStr (st_display t), ArgNat (st_min_legs t), ArgNat (length legs)]))
      else (case find (\<lambda>l. sl_underlying l \<noteq> underlying) legs of
          Some l \<Rightarrow> Inl (ValidationError (Fmt
            (''leg underlying '' @ [CHR 0x27] @ ''{}'' @ [CHR 0x27] @ '' does not match strategy underlying ''
              @ [CHR 0x27] @ ''{}'' @ [CHR 0x27])
            [ArgStr (sl_underlying l), ArgStr underlying]))
        | None \<Rightarrow> Inr ()))"

definition str_new :: "strategy_type \<Rightarrow> 'd strategy_leg list \<Rightarrow> string \<Rightarrow> string option
    \<Rightarrow> 'd domain_error + 'd strategy" where
  "str_new t legs underlying description =
     rbind (str_validate_legs legs t underlying) (\<lambda>_.
       Inr \<lparr> str_strategy_type = t, str_legs = legs, str_underlying = underlying,
         str_description = description \<rparr>)"

text \<open>The legs of a predefined constructor, the first invalid one ending the construction.\<close>

fun sl_build :: "('d instrument \<times> order_side \<times> u32) list \<Rightarrow> 'd domain_error + 'd strategy_leg list" where
  "sl_build [] = Inr []"
| "sl_build ((i, side, ratio) # rest) =
     rbind (sl_new i side ratio) (\<lambda>l. rbind (sl_build rest) (\<lambda>ls. Inr (l # ls)))"

definition str_vertical_spread ::
    "'d instrument \<Rightarrow> 'd instrument \<Rightarrow> string \<Rightarrow> 'd domain_error + 'd strategy" where
  "str_vertical_spread long_leg short_leg u =
     rbind (sl_build [(long_leg, Buy, 1), (short_leg, Sell, 1)]) (\<lambda>legs.
       str_new Spread legs u (Some ''Vertical Spread''))"

definition str_straddle ::
    "'d instrument \<Rightarrow> 'd instrument \<Rightarrow> string \<Rightarrow> 'd domain_error + 'd strategy" where
  "str_straddle calls puts u =
     rbind (sl_build [(calls, Buy, 1), (puts, Buy, 1)]) (\<lambda>legs.
       str_new Straddle legs u (Some ''Straddle''))"

definition str_strangle ::
    "'d instrument \<Rightarrow> 'd instrument \<Rightarrow> string \<Rightarrow> 'd domain_error + 'd strategy" where
  "str_strangle calls puts u =
     rbind (sl_build [(calls, Buy, 1), (puts, Buy, 1)]) (\<lambda>legs.
       str_new Strangle legs u (Some ''Strangle''))"

definition str_iron_condor :: "'d instrument \<Rightarrow> 'd instrument \<Rightarrow> 'd instrument \<Rightarrow> 'd instrument
    \<Rightarrow> string \<Rightarrow> 'd domain_error + 'd strategy" where
  "str_iron_condor buy_put sell_put sell_call buy_call u =
     rbind (sl_build [(buy_put, Buy, 1), (sell_put, Sell, 1), (sell_call, Sell, 1), (buy_call, Buy, 1)])
       (\<lambda>legs. str_new IronCondor legs u (Some ''Iron Condor''))"

definition str_butterfly :: "'d instrument \<Rightarrow> 'd instrument \<Rightarrow> 'd instrument
    \<Rightarrow> string \<Rightarrow> 'd domain_error + 'd strategy" where
  "str_butterfly low mid high u =
     rbind (sl_build [(low, Buy, 1), (mid, Sell, 2), (high, Buy, 1)]) (\<lambda>legs.
       str_new Butterfly legs u (Some ''Butterfly''))"

text \<open>What every constructed strategy satisfies.\<close>

definition str_wf :: "'d strategy \<Rightarrow> bool" where
  "str_wf s \<longleftrightarrow> str_legs s \<noteq> [] \<and> st_min_legs (str_strategy_type s) \<le> length (str_legs s)
     \<and> (\<forall>l\<in>set (str_legs s). sl_underlying l = str_underlying s)"

lemma str_validate_iff:
  "str_validate_legs legs t u = Inr x \<longleftrightarrow>
     legs \<noteq> [] \<and> st_min_legs t \<le> length legs \<and> (\<forall>l\<in>set legs. sl_underlying l = u)"
  by (auto simp: str_validate_legs_def find_None_all split: option.splits dest: find_Some_iff_mem)

lemma str_new_wf: "str_new t legs u d = Inr s \<Longrightarrow> str_wf s \<and> str_legs s = legs \<and> str_strategy_type s = t"
  by (auto simp: str_new_def str_validate_iff str_wf_def)

section \<open>Package quotes\<close>

record 'd leg_price =
  lp_instrument :: "'d instrument"
  lp_side :: order_side
  lp_price :: "'d price"
  lp_quantity :: "'d quantity"

definition lp_new :: "'d dec \<Rightarrow> 'd instrument \<Rightarrow> order_side \<Rightarrow> 'd price \<Rightarrow> 'd quantity
    \<Rightarrow> 'd domain_error + 'd leg_price" where
  "lp_new D i side p q =
     (if \<not> price_is_positive D p then Inl (InvalidPrice (Txt ''leg price must be positive''))
      else if \<not> quantity_is_positive D q
      then Inl (InvalidQuantity (Txt ''leg quantity must be positive''))
      else Inr \<lparr> lp_instrument = i, lp_side = side, lp_price = p, lp_quantity = q \<rparr>)"

definition lp_notional :: "'d dec \<Rightarrow> 'd leg_price \<Rightarrow> 'd price option" where
  "lp_notional D l = res_ok (price_safe_mul D (lp_price l) (quantity_get (lp_quantity l)))"

definition lp_signed_notional :: "'d dec \<Rightarrow> 'd leg_price \<Rightarrow> 'd option" where
  "lp_signed_notional D l =
     map_option (\<lambda>n. case lp_side l of Buy \<Rightarrow> dnegate D (price_get n) | Sell \<Rightarrow> price_get n)
       (lp_notional D l)"

record 'd package_quote =
  pq_id :: uuid
  pq_rfq_id :: uuid
  pq_venue_id :: venue_id
  pq_strategy :: "'d strategy"
  pq_net_price :: 'd
  pq_leg_prices :: "'d leg_price list"
  pq_valid_until :: timestamp
  pq_created_at :: timestamp

definition pq_validate_legs :: "'d leg_price list \<Rightarrow> 'd strategy \<Rightarrow> 'd domain_error + unit" where
  "pq_validate_legs legs s =
     (if legs = [] then Inl (InvalidPackageQuote (Txt ''package quote must have at least one leg price''))
      else if length legs \<noteq> str_leg_count s
      then Inl (InvalidPackageQuote (Fmt
             ''leg price count ({}) does not match strategy leg count ({})''
             [ArgNat (length legs), ArgNat (str_leg_count s)]))
      else Inr ())"

definition pq_validate_expiry :: "timestamp \<Rightarrow> timestamp \<Rightarrow> 'd domain_error + unit" where
  "pq_validate_expiry now valid_until =
     (if ts_is_expired now valid_until
      then Inl (InvalidPackageQuote (Txt ''valid_until must be in the future'')) else Inr ())"

definition pq_new :: "uuid \<Rightarrow> timestamp \<Rightarrow> timestamp \<Rightarrow> uuid \<Rightarrow> venue_id \<Rightarrow> 'd strategy \<Rightarrow> 'd
    \<Rightarrow> 'd leg_price list \<Rightarrow> timestamp \<Rightarrow> 'd domain_error + 'd package_quote" where
  "pq_new fresh now now' rfq venue strat net legs valid_until =
     rbind (pq_validate_legs legs strat) (\<lambda>_.
     rbind (pq_validate_expiry now valid_until) (\<lambda>_.
       Inr \<lparr> pq_id = fresh, pq_rfq_id = rfq, pq_venue_id = venue, pq_strategy = strat,
         pq_net_price = net, pq_leg_prices = legs, pq_valid_until = valid_until,
         pq_created_at = now' \<rparr>))"

definition pq_is_debit :: "'d dec \<Rightarrow> 'd package_quote \<Rightarrow> bool" where
  "pq_is_debit D p \<longleftrightarrow> dlt D (dzero D) (pq_net_price p)"

definition pq_is_credit :: "'d dec \<Rightarrow> 'd package_quote \<Rightarrow> bool" where
  "pq_is_credit D p \<longleftrightarrow> dlt D (pq_net_price p) (dzero D)"

text \<open>A leg whose quantity cannot be added is skipped.\<close>

definition pq_total_quantity :: "'d dec \<Rightarrow> 'd package_quote \<Rightarrow> 'd quantity" where
  "pq_total_quantity D p =
     foldl (\<lambda>acc l. case quantity_safe_add D acc (lp_quantity l) of Inr q \<Rightarrow> q | Inl _ \<Rightarrow> acc)
       (quantity_zero D) (pq_leg_prices p)"

text \<open>The sum uses the panicking operator.\<close>

fun net_from_legs :: "'d dec \<Rightarrow> 'd \<Rightarrow> 'd leg_price list \<Rightarrow> ('e, 'd option) outcome" where
  "net_from_legs D acc [] = Ret (Some acc)"
| "net_from_legs D acc (l # ls) =
     (case lp_signed_notional D l of
        None \<Rightarrow> Ret None
      | Some s \<Rightarrow> obind (dplus D acc s) (\<lambda>t. net_from_legs D t ls))"

definition pq_calculated_net_from_legs :: "'d dec \<Rightarrow> 'd package_quote \<Rightarrow> ('e, 'd option) outcome" where
  "pq_calculated_net_from_legs D p = net_from_legs D (dzero D) (pq_leg_prices p)"

record 'd package_quote_builder =
  pqb_rfq_id :: uuid
  pqb_venue_id :: venue_id
  pqb_strategy :: "'d strategy"
  pqb_net_price :: 'd
  pqb_leg_prices :: "'d leg_price list"
  pqb_valid_until :: timestamp

definition pqb_new :: "uuid \<Rightarrow> venue_id \<Rightarrow> 'd strategy \<Rightarrow> 'd \<Rightarrow> timestamp \<Rightarrow> 'd package_quote_builder" where
  "pqb_new rfq venue strat net valid_until = \<lparr> pqb_rfq_id = rfq, pqb_venue_id = venue,
     pqb_strategy = strat, pqb_net_price = net, pqb_leg_prices = [], pqb_valid_until = valid_until \<rparr>"

definition pqb_leg_price :: "'d package_quote_builder \<Rightarrow> 'd leg_price \<Rightarrow> 'd package_quote_builder" where
  "pqb_leg_price b l = b\<lparr> pqb_leg_prices := pqb_leg_prices b @ [l] \<rparr>"

definition pqb_with_leg_prices :: "'d package_quote_builder \<Rightarrow> 'd leg_price list \<Rightarrow> 'd package_quote_builder" where
  "pqb_with_leg_prices b ls = b\<lparr> pqb_leg_prices := ls \<rparr>"

definition pqb_build :: "uuid \<Rightarrow> timestamp \<Rightarrow> timestamp \<Rightarrow> 'd package_quote_builder
    \<Rightarrow> 'd domain_error + 'd package_quote" where
  "pqb_build fresh now now' b = pq_new fresh now now' (pqb_rfq_id b) (pqb_venue_id b)
     (pqb_strategy b) (pqb_net_price b) (pqb_leg_prices b) (pqb_valid_until b)"

section \<open>Properties\<close>

lemma sl_build_Inr:
  "\<forall>(i, side, ratio)\<in>set xs. ratio \<noteq> 0 \<Longrightarrow>
    sl_build xs = Inr (map (\<lambda>(i, side, ratio). \<lparr> sl_instrument = i, sl_side = side, sl_ratio = ratio \<rparr>) xs)"
  by (induction xs rule: sl_build.induct) (auto simp: sl_new_def)

lemma standard_strategies_aux:
  assumes "rbind (sl_build xs) (\<lambda>legs. str_new t legs u d) = Inr s"
    "\<forall>(i, side, ratio)\<in>set xs. ratio \<noteq> 0"
  shows "str_wf s \<and> str_underlying s = u \<and> str_strategy_type s = t \<and> str_leg_count s = length xs"
proof -
  let ?legs = "map (\<lambda>(i, side, ratio). \<lparr> sl_instrument = i, sl_side = side, sl_ratio = ratio \<rparr>) xs"
  have new: "str_new t ?legs u d = Inr s" using assms(1) unfolding sl_build_Inr [OF assms(2)] by simp
  then have "str_underlying s = u" by (auto simp: str_new_def)
  then show ?thesis using str_new_wf [OF new] by (simp add: str_leg_count_def)
qed

text \<open>
  Every predefined constructor that succeeds yields a well-formed strategy on the given
  underlying with exactly the number of legs expected of its type.
\<close>
theorem standard_strategies_wf:
  assumes "str_vertical_spread a b u = Inr s \<or> str_straddle a b u = Inr s \<or> str_strangle a b u = Inr s
    \<or> str_iron_condor a b c d u = Inr s \<or> str_butterfly a b c u = Inr s"
  shows "str_wf s \<and> str_underlying s = u
    \<and> st_expected_legs (str_strategy_type s) = Some (str_leg_count s)"
  using assms
  by (auto simp: str_vertical_spread_def str_straddle_def str_strangle_def str_iron_condor_def
      str_butterfly_def st_expected_legs_def simp del: rbind_Inr_iff sl_build.simps
      dest!: standard_strategies_aux)

definition sample_leg_instrument :: "int instrument" where
  "sample_leg_instrument =
     instrument_default_build \<lparr> sym_value = ''BTC/USD'', sym_separator_index = 3 \<rparr> CryptoDerivs"

lemma standard_strategies_wf_witness:
  "\<exists>s. str_straddle sample_leg_instrument sample_leg_instrument ''BTC'' = Inr s \<and> str_wf s
    \<and> str_leg_count s = 2"
proof -
  let ?i = "sample_leg_instrument"
  obtain s where s: "str_straddle ?i ?i ''BTC'' = Inr s"
    by (simp add: str_straddle_def sl_new_def str_new_def str_validate_legs_def st_min_legs_def
        sl_underlying_def base_asset_def sample_leg_instrument_def instrument_default_build_def)
  then have "str_wf s" "st_expected_legs (str_strategy_type s) = Some (str_leg_count s)"
    using standard_strategies_wf [of ?i ?i "''BTC''" s ?i ?i] by simp_all
  moreover have "str_strategy_type s = Straddle"
    using s by (auto simp: str_straddle_def str_new_def)
  ultimately show ?thesis using s by (simp add: st_expected_legs_def)
qed

text \<open>
  Printing a strategy type and parsing the result gives the type back.
\<close>
theorem strategy_type_roundtrip: "st_from_str (st_display t) = Inr t"
  by (cases t) (simp_all add: st_from_str_def st_display_def to_upper_def is_lower_def code_def)

end
