(* ===== verification/Multi_Leg.thy ===== *)
theory Multi_Leg
  imports Packages
begin

text \<open>
  Execution of the legs of a package with roll-back: \<open>src/domain/services/multi_leg_executor.rs\<close>
  and \<open>compensating_trade.rs\<close>, with the events of
  \<open>src/domain/events/multi_leg_execution_events.rs\<close>. The venue behind the trait \<open>LegExecutor\<close>
  is a parameter, two calls on a state \<open>'x\<close>. An asynchronous computation takes the number
  of calls that complete before the overall timer fires; when they are used up the future
  is dropped where it stands, which is the outcome \<open>None\<close>.
\<close>

section \<open>Cancellable computations\<close>

type_synonym ('x, 'a) async = "nat \<times> 'x \<Rightarrow> 'a option \<times> nat \<times> 'x"

definition a_ret :: "'a \<Rightarrow> ('x, 'a) async" where
  "a_ret a = (\<lambda>s. (Some a, s))"

definition a_bind :: "('x, 'a) async \<Rightarrow> ('a \<Rightarrow> ('x, 'b) async) \<Rightarrow> ('x, 'b) async" where
  "a_bind m f = (\<lambda>s. case m s of (None, s') \<Rightarrow> (None, s') | (Some a, s') \<Rightarrow> f a s')"

definition await :: "('x \<Rightarrow> 'a \<times> 'x) \<Rightarrow> ('x, 'a) async" where
  "await m = (\<lambda>(n, x). case n of
       0 \<Rightarrow> (None, 0, x)
     | Suc k \<Rightarrow> (case m x of (a, x') \<Rightarrow> (Some a, k, x')))"

lemma a_bind_Some:
  "a_bind m f s = (Some b, s'') \<longleftrightarrow> (\<exists>a s'. m s = (Some a, s') \<and> f a s' = (Some b, s''))"
  by (auto simp: a_bind_def split: prod.splits option.splits)

lemma await_Some:
  "await m (n, x) = (Some a, n', x') \<longleftrightarrow> n = Suc n' \<and> m x = (a, x')"
  by (auto simp: await_def split: nat.splits prod.splits)

lemma a_ret_iff [simp]: "a_ret a s = (y, s') \<longleftrightarrow> y = Some a \<and> s' = s"
  by (auto simp: a_ret_def)

section \<open>Compensating trades\<close>

record 'd leg_result =
  lr_leg_index :: nat
  lr_instrument :: "'d instrument"
  lr_side :: order_side
  lr_price :: "'d price"
  lr_quantity :: "'d quantity"
  lr_execution_id :: string
  lr_executed_at :: timestamp

record 'd compensating_trade =
  ct_original_leg_index :: nat
  ct_original_execution_id :: string
  ct_instrument :: "'d instrument"
  ct_compensating_side :: order_side
  ct_compensating_price :: "'d price"
  ct_quantity :: "'d quantity"
  ct_reason :: string
  ct_generated_at :: timestamp

definition ct_default_reason :: string where
  "ct_default_reason = ''multi-leg execution rollback''"

definition generate_with_reason ::
    "timestamp \<Rightarrow> 'd leg_result \<Rightarrow> string \<Rightarrow> 'd compensating_trade" where
  "generate_with_reason now executed reason = \<lparr>
     ct_original_leg_index = lr_leg_index executed,
     ct_original_execution_id = lr_execution_id executed,
     ct_instrument = lr_instrument executed,
     ct_compensating_side = (case lr_side executed of Buy \<Rightarrow> Sell | Sell \<Rightarrow> Buy),
     ct_compensating_price = lr_price executed, ct_quantity = lr_quantity executed,
     ct_reason = reason, ct_generated_at = now \<rparr>"

definition generate_all_with_reason ::
    "(nat \<Rightarrow> timestamp) \<Rightarrow> 'd leg_result list \<Rightarrow> string \<Rightarrow> 'd compensating_trade list" where
  "generate_all_with_reason clk legs reason =
     map (\<lambda>(i, l). generate_with_reason (clk i) l reason) (enumerate 0 (rev legs))"

definition generate_all ::
    "(nat \<Rightarrow> timestamp) \<Rightarrow> 'd leg_result list \<Rightarrow> 'd compensating_trade list" where
  "generate_all clk legs = generate_all_with_reason clk legs ct_default_reason"

section \<open>The executor\<close>

record multi_leg_config =
  mlc_leg_timeout :: nat
  mlc_overall_timeout :: nat
  mlc_max_rollback_attempts :: u32

definition mlc_default :: multi_leg_config where
  "mlc_default = \<lparr> mlc_leg_timeout = 5 * 1000000000, mlc_overall_timeout = 30 * 1000000000,
     mlc_max_rollback_attempts = 3 \<rparr>"

datatype multi_leg_state =
    MlPending
  | MlInProgress nat nat
  | MlCompleted
  | MlRollingBack nat nat
  | MlRolledBack
  | MlPartialFailure nat nat nat

datatype 'd multi_leg_event =
    MleStarted string uuid nat 'd timestamp
  | MleLegExecuted string nat "'d instrument" order_side "'d price" "'d quantity" string timestamp
  | MleLegFailed string nat "'d instrument" "'d msg" nat timestamp
  | MleRollbackStarted string "'d msg" nat timestamp
  | MleRollbackCompleted string nat timestamp
  | MleCompleted string uuid nat 'd nat timestamp
  | MlePartialFailure string nat nat nat "'d msg" "'d msg" timestamp

record 'd multi_leg_result =
  mlr_execution_id :: string
  mlr_legs :: "'d leg_result list"
  mlr_net_price :: 'd
  mlr_state :: multi_leg_state
  mlr_started_at :: timestamp
  mlr_completed_at :: timestamp
  mlr_events :: "'d multi_leg_event list"

record ('x, 'd) leg_venue =
  lv_execute_leg :: "'d leg_price \<Rightarrow> nat \<Rightarrow> nat \<Rightarrow> ('x, 'd domain_error, 'd leg_result) op"
  lv_execute_compensating :: "'d compensating_trade \<Rightarrow> ('x, 'd domain_error, unit) op"

text \<open>Where a run reads the clock; each place is passed at most once.\<close>

datatype ml_clock = AtStart | AtEvent nat | AtDuration | AtCompletion | AtCompensation nat

text \<open>
  The attempts at one compensating trade, \<open>k\<close> of them left: whether it went through, and the
  last error.
\<close>

fun compensate_attempts :: "('x, 'd) leg_venue \<Rightarrow> nat \<Rightarrow> 'd compensating_trade
    \<Rightarrow> 'd domain_error option \<Rightarrow> ('x, bool \<times> 'd domain_error option) async" where
  "compensate_attempts E 0 c last_error = a_ret (False, last_error)"
| "compensate_attempts E (Suc k) c last_error =
     a_bind (await (lv_execute_compensating E c)) (\<lambda>r. case r of
         Inr _ \<Rightarrow> a_ret (True, None)
       | Inl e \<Rightarrow> compensate_attempts E k c (Some e))"

fun rollback_loop :: "('x, 'd) leg_venue \<Rightarrow> multi_leg_config \<Rightarrow> 'd msg
    \<Rightarrow> 'd compensating_trade list \<Rightarrow> nat \<Rightarrow> ('x, 'd domain_error + nat) async" where
  "rollback_loop E cfg original [] rolled_back = a_ret (Inr rolled_back)"
| "rollback_loop E cfg original (c # cs) rolled_back =
     a_bind (compensate_attempts E (unat (mlc_max_rollback_attempts cfg)) c None)
       (\<lambda>(ok, last_error).
         let rolled_back = (if ok then rolled_back + 1 else rolled_back) in
         (case last_error of
            Some e \<Rightarrow> a_ret (Inl (RollbackFailed original (de_display e) rolled_back))
          | None \<Rightarrow> rollback_loop E cfg original cs rolled_back))"

definition rollback_all :: "('x, 'd) leg_venue \<Rightarrow> multi_leg_config \<Rightarrow> (ml_clock \<Rightarrow> timestamp)
    \<Rightarrow> 'd leg_result list \<Rightarrow> 'd msg \<Rightarrow> ('x, 'd domain_error + nat) async" where
  "rollback_all E cfg clk executed original =
     rollback_loop E cfg original (generate_all (\<lambda>i. clk (AtCompensation i)) executed) 0"

definition handle_failure :: "('x, 'd) leg_venue \<Rightarrow> multi_leg_config \<Rightarrow> (ml_clock \<Rightarrow> timestamp)
    \<Rightarrow> string \<Rightarrow> 'd leg_result list \<Rightarrow> nat \<Rightarrow> string \<Rightarrow> 'd msg \<Rightarrow> 'd multi_leg_event list \<Rightarrow> 'd
    \<Rightarrow> ('x, 'd domain_error + 'd multi_leg_result) async" where
  "handle_failure E cfg clk eid executed failed_index failed_instrument reason events net =
     (let enriched = Fmt ''Leg {} ({}) failed: {}''
            [ArgNat failed_index, ArgStr failed_instrument, ArgMsg reason];
          finish = (\<lambda>legs state events. \<lparr> mlr_execution_id = eid, mlr_legs = legs,
            mlr_net_price = net, mlr_state = state, mlr_started_at = clk AtStart,
            mlr_completed_at = clk AtCompletion, mlr_events = events \<rparr>) in
      if executed = [] then a_ret (Inr (finish [] MlRolledBack events))
      else
        let events = events @ [MleRollbackStarted eid enriched (length executed)
              (clk (AtEvent (length events)))] in
        a_bind (rollback_all E cfg clk executed enriched) (\<lambda>r. case r of
            Inr n \<Rightarrow>
              a_ret (Inr (finish executed MlRolledBack
                (events @ [MleRollbackCompleted eid n (clk (AtEvent (length events)))])))
          | Inl e \<Rightarrow>
              let part = (case e of RollbackFailed _ _ p \<Rightarrow> p | _ \<Rightarrow> 0) in
              a_ret (Inr (finish executed
                (MlPartialFailure (length executed) part (length executed - part))
                (events @ [MlePartialFailure eid (length executed) part (length executed - part)
                  enriched (de_display e) (clk (AtEvent (length events)))])))))"

fun execute_legs :: "('x, 'd) leg_venue \<Rightarrow> multi_leg_config \<Rightarrow> (ml_clock \<Rightarrow> timestamp) \<Rightarrow> string
    \<Rightarrow> 'd package_quote \<Rightarrow> nat \<Rightarrow> 'd leg_price list \<Rightarrow> 'd leg_result list
    \<Rightarrow> 'd multi_leg_event list \<Rightarrow> ('x, 'd domain_error + 'd multi_leg_result) async" where
  "execute_legs E cfg clk eid p i [] executed events =
     a_ret (Inr \<lparr> mlr_execution_id = eid, mlr_legs = executed, mlr_net_price = pq_net_price p,
       mlr_state = MlCompleted, mlr_started_at = clk AtStart, mlr_completed_at = clk AtCompletion,
       mlr_events = events @ [MleCompleted eid (pq_id p) (length (pq_leg_prices p)) (pq_net_price p)
         (ts_duration_until (clk AtStart) (clk AtDuration) div 1000000)
         (clk (AtEvent (length events)))] \<rparr>)"
| "execute_legs E cfg clk eid p i (leg # legs) executed events =
     a_bind (await (lv_execute_leg E leg i (mlc_leg_timeout cfg))) (\<lambda>r. case r of
         Inr res \<Rightarrow>
           execute_legs E cfg clk eid p (Suc i) legs (executed @ [res])
             (events @ [MleLegExecuted eid i (lp_instrument leg) (lp_side leg) (lp_price leg)
               (lp_quantity leg) (lr_execution_id res) (clk (AtEvent (length events)))])
       | Inl e \<Rightarrow>
           handle_failure E cfg clk eid executed i (sym_value (ins_symbol (lp_instrument leg)))
             (de_display e)
             (events @ [MleLegFailed eid i (lp_instrument leg) (de_display e) (length executed)
               (clk (AtEvent (length events)))])
             (pq_net_price p))"

definition execute_inner :: "('x, 'd) leg_venue \<Rightarrow> 'd dec \<Rightarrow> multi_leg_config \<Rightarrow> (ml_clock \<Rightarrow> timestamp)
    \<Rightarrow> string \<Rightarrow> 'd package_quote \<Rightarrow> ('x, 'd domain_error + 'd multi_leg_result) async" where
  "execute_inner E D cfg clk eid p =
     (if pq_leg_prices p = []
      then a_ret (Inr \<lparr> mlr_execution_id = eid, mlr_legs = [], mlr_net_price = dzero D,
        mlr_state = MlCompleted, mlr_started_at = clk AtStart, mlr_completed_at = clk AtCompletion,
        mlr_events = [] \<rparr>)
      else execute_legs E cfg clk eid p 0 (pq_leg_prices p) []
        [MleStarted eid (pq_id p) (length (pq_leg_prices p)) (pq_net_price p) (clk (AtEvent 0))])"

definition execute :: "('x, 'd) leg_venue \<Rightarrow> 'd dec \<Rightarrow> multi_leg_config \<Rightarrow> (ml_clock \<Rightarrow> timestamp)
    \<Rightarrow> string \<Rightarrow> 'd package_quote \<Rightarrow> nat \<Rightarrow> ('x, 'd domain_error, 'd multi_leg_result) op" where
  "execute E D cfg clk eid p calls x =
     (case execute_inner E D cfg clk eid p (calls, x) of
        (Some r, _, x') \<Rightarrow> (r, x')
      | (None, _, x') \<Rightarrow> (Inl (LegExecutionTimeout 0 (Txt ''overall execution'')
          (of_nat (mlc_overall_timeout cfg div 1000000))), x'))"

section \<open>What reached the venue\<close>

text \<open>The same venue with a log of its answers, against which results are judged.\<close>

datatype 'd venue_call =
    LegDone "'d leg_result"
  | LegRefused nat
  | Undone "'d compensating_trade"
  | UndoRefused "'d compensating_trade"

definition logged :: "('x, 'd) leg_venue \<Rightarrow> ('x \<times> 'd venue_call list, 'd) leg_venue" where
  "logged E = \<lparr>
     lv_execute_leg = (\<lambda>leg i t (x, log). case lv_execute_leg E leg i t x of
         (Inr r, x') \<Rightarrow> (Inr r, (x', log @ [LegDone r]))
       | (Inl e, x') \<Rightarrow> (Inl e, (x', log @ [LegRefused i]))),
     lv_execute_compensating = (\<lambda>c (x, log). case lv_execute_compensating E c x of
         (Inr u, x') \<Rightarrow> (Inr u, (x', log @ [Undone c]))
       | (Inl e, x') \<Rightarrow> (Inl e, (x', log @ [UndoRefused c]))) \<rparr>"

fun legs_done :: "'d venue_call list \<Rightarrow> 'd leg_result list" where
  "legs_done [] = []"
| "legs_done (LegDone r # cs) = r # legs_done cs"
| "legs_done (_ # cs) = legs_done cs"

fun undone :: "'d venue_call list \<Rightarrow> 'd compensating_trade list" where
  "undone [] = []"
| "undone (Undone c # cs) = c # undone cs"
| "undone (_ # cs) = undone cs"

lemma legs_done_append [simp]: "legs_done (xs @ ys) = legs_done xs @ legs_done ys"
  by (induction xs rule: legs_done.induct) auto

lemma undone_append [simp]: "undone (xs @ ys) = undone xs @ undone ys"
  by (induction xs rule: undone.induct) auto

lemma logged_leg:
  assumes "lv_execute_leg (logged E) leg i t (x, log) = (r, x', log')"
  shows "undone log' = undone log
    \<and> legs_done log' = legs_done log @ (case r of Inr res \<Rightarrow> [res] | Inl _ \<Rightarrow> [])"
  using assms by (auto simp: logged_def split: prod.splits sum.splits)

lemma logged_compensating:
  assumes "lv_execute_compensating (logged E) c (x, log) = (r, x', log')"
  shows "legs_done log' = legs_done log
    \<and> undone log' = undone log @ (case r of Inr _ \<Rightarrow> [c] | Inl _ \<Rightarrow> [])"
  using assms by (auto simp: logged_def split: prod.splits sum.splits)

lemma compensate_attempts_log:
  assumes "compensate_attempts (logged E) k c last_error (n, x, log) = (Some (ok, err), n', x', log')"
  shows "legs_done log' = legs_done log \<and> undone log' = undone log @ (if ok then [c] else [])
    \<and> (if ok then err = None else if k = 0 then err = last_error else err \<noteq> None)"
  using assms
proof (induction k arbitrary: last_error n x log)
  case (Suc k)
  obtain r n1 x1 log1 where call: "lv_execute_compensating (logged E) c (x, log) = (r, x1, log1)"
      "n = Suc n1"
    and rest: "(case r of Inr _ \<Rightarrow> a_ret (True, None) | Inl e \<Rightarrow> compensate_attempts (logged E) k c (Some e))
      (n1, x1, log1) = (Some (ok, err), n', x', log')"
    using Suc.prems by (fastforce simp: a_bind_Some await_Some)
  show ?case
  proof (cases r)
    case (Inl e)
    then show ?thesis
      using Suc.IH [of "Some e" n1 x1 log1] rest logged_compensating [OF call(1)]
      by (auto split: if_splits)
  next
    case (Inr u)
    then show ?thesis using rest logged_compensating [OF call(1)] by auto
  qed
qed auto

lemma rollback_loop_log:
  assumes "rollback_loop (logged E) cfg orig cs k (n, x, log) = (Some r, n', x', log')"
    "0 < mlc_max_rollback_attempts cfg"
  shows "legs_done log' = legs_done log
    \<and> (case r of
        Inr m \<Rightarrow> m = k + length cs \<and> undone log' = undone log @ cs
      | Inl e \<Rightarrow> (\<exists>d m. e = RollbackFailed orig d (k + m) \<and> m < length cs
          \<and> undone log' = undone log @ take m cs))"
  using assms(1)
proof (induction cs arbitrary: k n x log)
  case (Cons c cs)
  have pos: "unat (mlc_max_rollback_attempts cfg) \<noteq> 0" using assms(2) by (simp add: unat_eq_0 word_neq_0_conv)
  obtain ok err n1 x1 log1 where
    tries: "compensate_attempts (logged E) (unat (mlc_max_rollback_attempts cfg)) c None (n, x, log)
       = (Some (ok, err), n1, x1, log1)"
    and rest: "(let k = (if ok then k + 1 else k) in
        (case err of Some e \<Rightarrow> a_ret (Inl (RollbackFailed orig (de_display e) k))
         | None \<Rightarrow> rollback_loop (logged E) cfg orig cs k)) (n1, x1, log1) = (Some r, n', x', log')"
    using Cons.prems by (fastforce simp: a_bind_Some)
  note eff = compensate_attempts_log [OF tries]
  show ?case
  proof (cases err)
    case None
    then have ok: ok using eff pos by (auto split: if_splits)
    then have "rollback_loop (logged E) cfg orig cs (k + 1) (n1, x1, log1) = (Some r, n', x', log')"
      using rest None by simp
    note ih = Cons.IH [OF this]
    show ?thesis
    proof (cases r)
      case (Inl e)
      then obtain d m where "e = RollbackFailed orig d (k + 1 + m)" "m < length cs"
          "undone log' = undone log1 @ take m cs" "legs_done log' = legs_done log1"
        using ih by auto
      then show ?thesis using eff ok Inl by (auto intro!: exI [of _ "Suc m"])
    next
      case (Inr m)
      then show ?thesis using ih eff ok by auto
    qed
  next
    case (Some e)
    then have "\<not> ok" using eff by (auto split: if_splits)
    then show ?thesis using rest Some eff by (auto intro!: exI [of _ 0])
  qed
qed auto

text \<open>Every outcome of a run, judged by the log and the generated trades.\<close>

definition as_generated :: "(nat \<Rightarrow> timestamp) \<Rightarrow> 'd leg_result list \<Rightarrow> 'd compensating_trade list
    \<Rightarrow> 'd multi_leg_result \<Rightarrow> bool" where
  "as_generated clk ls us res \<longleftrightarrow> mlr_legs res = ls \<and>
     (case mlr_state res of
        MlCompleted \<Rightarrow> us = []
      | MlRolledBack \<Rightarrow> us = generate_all clk ls
      | MlPartialFailure e b f \<Rightarrow> e = length ls \<and> b < e \<and> f = e - b
          \<and> us = take b (generate_all clk ls)
      | _ \<Rightarrow> False)"

lemma generate_all_Nil [simp]: "generate_all clk [] = []"
  by (simp add: generate_all_def generate_all_with_reason_def)

lemma generate_all_length [simp]: "length (generate_all clk legs) = length legs"
  by (simp add: generate_all_def generate_all_with_reason_def)

lemma handle_failure_log:
  assumes "handle_failure (logged E) cfg clk eid executed i ins reason events net (n, x, log)
      = (Some r, n', x', log')"
    "0 < mlc_max_rollback_attempts cfg" "legs_done log = executed" "undone log = []"
  shows "\<exists>res. r = Inr res \<and> legs_done log' = executed
    \<and> as_generated (\<lambda>i. clk (AtCompensation i)) executed (undone log') res"
proof (cases "executed = []")
  case True
  then show ?thesis using assms by (auto simp: handle_failure_def as_generated_def)
next
  case False
  obtain q n1 x1 log1 where roll: "rollback_all (logged E) cfg clk executed
        (Fmt ''Leg {} ({}) failed: {}'' [ArgNat i, ArgStr ins, ArgMsg reason]) (n, x, log)
      = (Some q, n1, x1, log1)"
    using assms(1) False by (fastforce simp: handle_failure_def Let_def a_bind_Some)
  note eff = rollback_loop_log [OF roll [unfolded rollback_all_def] assms(2)]
  show ?thesis
    using assms(1,3,4) False eff
    by (cases q) (auto simp: handle_failure_def Let_def a_bind_def roll as_generated_def)
qed

lemma handle_failure_Inr:
  assumes "handle_failure E cfg clk eid executed i ins reason events net s = (Some r, s')"
  shows "\<exists>res. r = Inr res \<and> mlr_state res \<noteq> MlCompleted"
proof (cases "executed = []")
  case True
  then show ?thesis using assms by (auto simp: handle_failure_def)
next
  case False
  then obtain q s1 where "(case q of
      Inr n \<Rightarrow> \<exists>res. r = Inr res \<and> mlr_state res = MlRolledBack
    | Inl e \<Rightarrow> \<exists>res a b c. r = Inr res \<and> mlr_state res = MlPartialFailure a b c)"
    using assms by (fastforce simp: handle_failure_def Let_def a_bind_Some split: sum.splits)
  then show ?thesis by (auto split: sum.splits)
qed

lemma execute_legs_Inr:
  "execute_legs E cfg clk eid p i legs executed events s = (Some r, s') \<Longrightarrow> \<exists>res. r = Inr res"
proof (induction legs arbitrary: i executed events s)
  case (Cons leg legs)
  obtain q s1 where rest: "(case q of
      Inr res \<Rightarrow> execute_legs E cfg clk eid p (Suc i) legs (executed @ [res])
        (events @ [MleLegExecuted eid i (lp_instrument leg) (lp_side leg) (lp_price leg)
          (lp_quantity leg) (lr_execution_id res) (clk (AtEvent (length events)))])
    | Inl e \<Rightarrow> handle_failure E cfg clk eid executed i (sym_value (ins_symbol (lp_instrument leg)))
        (de_display e) (events @ [MleLegFailed eid i (lp_instrument leg) (de_display e) (length executed)
          (clk (AtEvent (length events)))]) (pq_net_price p)) s1 = (Some r, s')"
    using Cons.prems by (auto simp: a_bind_Some)
  show ?case
  proof (cases q)
    case (Inl e)
    then show ?thesis using rest handle_failure_Inr by fastforce
  next
    case (Inr res)
    then show ?thesis using rest Cons.IH by simp
  qed
qed auto

lemma execute_legs_log:
  assumes "execute_legs (logged E) cfg clk eid p i legs executed events (n, x, log) = (Some r, n', x', log')"
    "0 < mlc_max_rollback_attempts cfg" "legs_done log = executed" "undone log = []"
  shows "\<exists>res. r = Inr res \<and> as_generated (\<lambda>i. clk (AtCompensation i)) (legs_done log') (undone log') res
    \<and> (mlr_state res = MlCompleted \<longrightarrow> length (mlr_legs res) = length executed + length legs)"
  using assms
proof (induction legs arbitrary: i executed events n x log)
  case Nil
  then show ?case by (auto simp: as_generated_def)
next
  case (Cons leg legs)
  obtain q n1 x1 log1 where call: "lv_execute_leg (logged E) leg i (mlc_leg_timeout cfg) (x, log) = (q, x1, log1)"
    and n: "n = Suc n1"
    using Cons.prems(1) by (fastforce simp: a_bind_Some await_Some)
  note eff = logged_leg [OF call]
  show ?case
  proof (cases q)
    case (Inl e)
    then have fail: "handle_failure (logged E) cfg clk eid executed i (sym_value (ins_symbol (lp_instrument leg)))
        (de_display e) (events @ [MleLegFailed eid i (lp_instrument leg) (de_display e) (length executed)
          (clk (AtEvent (length events)))]) (pq_net_price p) (n1, x1, log1) = (Some r, n', x', log')"
      using Cons.prems(1) call n by (simp add: a_bind_def await_def)
    obtain res where res: "r = Inr res" "legs_done log' = executed"
        "as_generated (\<lambda>i. clk (AtCompensation i)) executed (undone log') res"
      using handle_failure_log [OF fail Cons.prems(2)] eff Inl Cons.prems(3,4) by auto
    moreover have "mlr_state res \<noteq> MlCompleted"
      using handle_failure_Inr [OF fail] res(1) by auto
    ultimately show ?thesis by simp
  next
    case (Inr res)
    then show ?thesis
      using Cons.IH [OF _ Cons.prems(2), of "Suc i" "executed @ [res]" _ n1 x1 log1]
        Cons.prems(1,3,4) call n eff
      by (fastforce simp: a_bind_def await_def)
  qed
qed

section \<open>How many calls a run makes\<close>

lemma await_runs: "n \<noteq> 0 \<Longrightarrow> \<exists>a x'. m x = (a, x') \<and> await m (n, x) = (Some a, n - 1, x')"
  by (cases n; cases "m x") (auto simp: await_def)

lemma compensate_attempts_runs:
  "k \<le> n \<Longrightarrow> \<exists>r n' x'. compensate_attempts E k c l (n, x) = (Some r, n', x') \<and> n \<le> n' + k"
proof (induction k arbitrary: l n x)
  case (Suc k)
  then obtain a x1 where call: "await (lv_execute_compensating E c) (n, x) = (Some a, n - 1, x1)"
    using await_runs [of n "lv_execute_compensating E c" x] by auto
  show ?case
  proof (cases a)
    case (Inl e)
    have "k \<le> n - 1" using Suc.prems by simp
    from Suc.IH [OF this, of "Some e" x1] show ?thesis
      using call Inl by (fastforce simp: a_bind_def)
  next
    case (Inr u)
    then show ?thesis using call Suc.prems by (auto simp: a_bind_def a_ret_def)
  qed
qed (auto simp: a_ret_def)

lemma rollback_loop_runs:
  "length cs * unat (mlc_max_rollback_attempts cfg) \<le> n \<Longrightarrow>
    \<exists>r s'. rollback_loop E cfg orig cs k (n, x) = (Some r, s')"
proof (induction cs arbitrary: k n x)
  case (Cons c cs)
  let ?m = "unat (mlc_max_rollback_attempts cfg)"
  obtain q n1 x1 where tries: "compensate_attempts E ?m c None (n, x) = (Some q, n1, x1)" "n \<le> n1 + ?m"
    using compensate_attempts_runs [of ?m n E c None x] Cons.prems by auto
  obtain ok err where q: "q = (ok, err)" by fastforce
  have "length cs * ?m \<le> n1" using Cons.prems tries(2) by simp
  note ih = Cons.IH [OF this, of "if ok then k + 1 else k" x1]
  then show ?case using tries(1) q
    by (cases err) (auto simp: a_bind_def a_ret_def Let_def)
qed (auto simp: a_ret_def)

lemma handle_failure_runs:
  "length executed * unat (mlc_max_rollback_attempts cfg) \<le> n \<Longrightarrow>
    \<exists>r s'. handle_failure E cfg clk eid executed i ins reason events net (n, x) = (Some r, s')"
proof -
  assume "length executed * unat (mlc_max_rollback_attempts cfg) \<le> n"
  then obtain r s' where "rollback_all E cfg clk executed
      (Fmt ''Leg {} ({}) failed: {}'' [ArgNat i, ArgStr ins, ArgMsg reason]) (n, x) = (Some r, s')"
    using rollback_loop_runs [where cs = "generate_all (\<lambda>i. clk (AtCompensation i)) executed"]
    by (fastforce simp: rollback_all_def)
  then show ?thesis
    by (cases r) (auto simp: handle_failure_def Let_def a_bind_def a_ret_def)
qed

lemma execute_legs_runs:
  "length legs + (length executed + length legs) * unat (mlc_max_rollback_attempts cfg) \<le> n \<Longrightarrow>
    \<exists>r s'. execute_legs E cfg clk eid p i legs executed events (n, x) = (Some r, s')"
proof (induction legs arbitrary: i executed events n x)
  case (Cons leg legs)
  let ?m = "unat (mlc_max_rollback_attempts cfg)"
  obtain a x1 where call:
      "await (lv_execute_leg E leg i (mlc_leg_timeout cfg)) (n, x) = (Some a, n - 1, x1)"
    using await_runs [of n "lv_execute_leg E leg i (mlc_leg_timeout cfg)" x] Cons.prems by auto
  show ?case
  proof (cases a)
    case (Inl e)
    have "length executed * ?m \<le> n - 1" using Cons.prems by (simp add: algebra_simps)
    from handle_failure_runs [OF this] show ?thesis
      using call Inl by (auto simp: a_bind_def)
  next
    case (Inr res)
    have "length legs + (length (executed @ [res]) + length legs) * ?m \<le> n - 1"
      using Cons.prems by (simp add: algebra_simps)
    from Cons.IH [OF this] show ?thesis using call Inr by (auto simp: a_bind_def)
  qed
qed (auto simp: a_ret_def)

text \<open>A venue that executes every leg: cut off after \<open>n\<close> calls, \<open>n\<close> legs stand.\<close>

lemma execute_legs_cut:
  assumes "\<And>leg i t x. \<exists>r x'. lv_execute_leg E leg i t x = (Inr r, x')" "n < length legs"
  shows "\<exists>x' log'. execute_legs (logged E) cfg clk eid p i legs executed events (n, x, log) = (None, 0, x', log')
    \<and> length (legs_done log') = length (legs_done log) + n \<and> undone log' = undone log"
  using assms(2)
proof (induction legs arbitrary: i executed events n x log)
  case (Cons leg legs)
  show ?case
  proof (cases n)
    case 0
    then show ?thesis by (auto simp: a_bind_def await_def)
  next
    case (Suc k)
    obtain r x1 where "lv_execute_leg E leg i (mlc_leg_timeout cfg) x = (Inr r, x1)"
      using assms(1) by blast
    then have call: "lv_execute_leg (logged E) leg i (mlc_leg_timeout cfg) (x, log)
        = (Inr r, x1, log @ [LegDone r])" by (simp add: logged_def)
    have "k < length legs" using Cons.prems Suc by simp
    from Cons.IH [OF this, of "Suc i" "executed @ [r]" _ x1 "log @ [LegDone r]"]
    show ?thesis using call Suc by (fastforce simp: a_bind_def await_def)
  qed
qed simp

section \<open>Properties\<close>

text \<open>
  What a result claims of the legs \<open>ls\<close> executed and the compensations \<open>us\<close> confirmed by
  the venue, in the order of the calls.
\<close>

definition undoes :: "'d compensating_trade \<Rightarrow> 'd leg_result \<Rightarrow> bool" where
  "undoes c l \<longleftrightarrow> ct_original_leg_index c = lr_leg_index l
     \<and> ct_original_execution_id c = lr_execution_id l \<and> ct_instrument c = lr_instrument l
     \<and> ct_compensating_side c \<noteq> lr_side l \<and> ct_compensating_price c = lr_price l
     \<and> ct_quantity c = lr_quantity l"

definition truthful :: "'d leg_result list \<Rightarrow> 'd compensating_trade list
    \<Rightarrow> 'd multi_leg_result \<Rightarrow> bool" where
  "truthful ls us res \<longleftrightarrow> mlr_legs res = ls \<and>
     (case mlr_state res of
        MlCompleted \<Rightarrow> us = []
      | MlRolledBack \<Rightarrow> list_all2 undoes us (rev ls)
      | MlPartialFailure e b f \<Rightarrow> e = length ls \<and> b < e \<and> f = e - b
          \<and> list_all2 undoes us (take b (rev ls))
      | _ \<Rightarrow> False)"

lemma generate_all_undoes: "list_all2 undoes (generate_all clk ls) (rev ls)"
  by (auto simp: generate_all_def generate_all_with_reason_def generate_with_reason_def
      list_all2_conv_all_nth nth_enumerate_eq undoes_def split: order_side.split)

lemma as_generated_truthful: "as_generated clk ls us res \<Longrightarrow> truthful ls us res"
  unfolding as_generated_def truthful_def
  by (auto simp: generate_all_undoes list_all2_takeI split: multi_leg_state.splits)


text \<open>Two legs, and a venue scripted by lists of answers.\<close>

definition sample_leg :: "order_side \<Rightarrow> int leg_price" where
  "sample_leg side = \<lparr> lp_instrument = sample_leg_instrument, lp_side = side, lp_price = Price 100,
     lp_quantity = Quantity 2 \<rparr>"

definition sample_package :: "int package_quote" where
  "sample_package = \<lparr> pq_id = 1, pq_rfq_id = 2, pq_venue_id = ''V'', pq_strategy =
     \<lparr> str_strategy_type = Spread, str_legs = [], str_underlying = ''BTC'', str_description = None \<rparr>,
     pq_net_price = 0, pq_leg_prices = [sample_leg Buy, sample_leg Sell], pq_valid_until = 10,
     pq_created_at = 0 \<rparr>"

definition sample_result :: "int leg_result" where
  "sample_result = \<lparr> lr_leg_index = 0, lr_instrument = sample_leg_instrument, lr_side = Buy,
     lr_price = Price 100, lr_quantity = Quantity 2, lr_execution_id = ''X'', lr_executed_at = 0 \<rparr>"

definition scripted :: "(bool list \<times> bool list, int) leg_venue" where
  "scripted = \<lparr>
     lv_execute_leg = (\<lambda>leg i t (ls, us). (case ls of
         True # _ \<Rightarrow> Inr \<lparr> lr_leg_index = i, lr_instrument = lp_instrument leg, lr_side = lp_side leg,
           lr_price = lp_price leg, lr_quantity = lp_quantity leg, lr_execution_id = ''X'', lr_executed_at = 0 \<rparr>
       | _ \<Rightarrow> Inl NoReferencePrice, (tl ls, us))),
     lv_execute_compensating = (\<lambda>c (ls, us). (case us of True # _ \<Rightarrow> Inr () | _ \<Rightarrow> Inl NoReferencePrice,
       (ls, tl us))) \<rparr>"

lemmas scripted_defs = execute_def execute_inner_def sample_package_def a_bind_def await_def a_ret_def
  logged_def scripted_def mlc_default_def handle_failure_def rollback_all_def generate_all_def
  generate_all_with_reason_def

text \<open>
  C27. The result of a multi-leg execution tells what happened at the venue, provided at least
  one roll-back attempt is configured: \<open>Completed\<close> means every leg was executed and none
  compensated; \<open>RolledBack\<close> that every executed leg was compensated, in reverse order, by
  the opposite trade; \<open>PartialFailure\<close> counts exactly the compensations that went through.
\<close>
theorem multi_leg_result_truthful:
  assumes "execute (logged E) D cfg clk eid p calls (x, []) = (Inr res, (x', log))"
    and "0 < mlc_max_rollback_attempts cfg"
  shows "truthful (legs_done log) (undone log) res
    \<and> (mlr_state res = MlCompleted \<longrightarrow> length (legs_done log) = length (pq_leg_prices p))"
proof -
  obtain r n' where run: "execute_inner (logged E) D cfg clk eid p (calls, x, []) = (Some r, n', x', log)"
      "r = Inr res"
    using assms(1) by (auto simp: execute_def split: prod.splits option.splits)
  show ?thesis
  proof (cases "pq_leg_prices p = []")
    case True
    then show ?thesis using run by (auto simp: execute_inner_def truthful_def)
  next
    case False
    then have "execute_legs (logged E) cfg clk eid p 0 (pq_leg_prices p) []
        [MleStarted eid (pq_id p) (length (pq_leg_prices p)) (pq_net_price p) (clk (AtEvent 0))]
        (calls, x, []) = (Some r, n', x', log)"
      using run(1) by (simp add: execute_inner_def)
    from execute_legs_log [OF this assms(2)]
    have "as_generated (\<lambda>i. clk (AtCompensation i)) (legs_done log) (undone log) res"
      "mlr_state res = MlCompleted \<longrightarrow> length (mlr_legs res) = length (pq_leg_prices p)"
      using run(2) by auto
    moreover have "mlr_legs res = legs_done log" using calculation(1) by (simp add: as_generated_def)
    ultimately show ?thesis by (simp add: as_generated_truthful)
  qed
qed

definition two_attempts :: multi_leg_config where
  "two_attempts = \<lparr> mlc_leg_timeout = 1, mlc_overall_timeout = 1, mlc_max_rollback_attempts = 2 \<rparr>"

lemma multi_leg_result_truthful_witness:
  "\<exists>res x' log. execute (logged scripted) whole_dec two_attempts (\<lambda>_. 0) ''E'' sample_package
      (Suc (Suc (Suc (Suc 0)))) (([True, False], [False, True]), []) = (Inr res, (x', log))
    \<and> mlr_state res = MlRolledBack
    \<and> truthful (legs_done log) (undone log) res"
proof -
  have two: "unat (mlc_max_rollback_attempts two_attempts) = Suc (Suc 0)"
    by (simp add: two_attempts_def)
  obtain res x' log where run: "execute (logged scripted) whole_dec two_attempts (\<lambda>_. 0) ''E''
      sample_package (Suc (Suc (Suc (Suc 0)))) (([True, False], [False, True]), []) = (Inr res, (x', log))"
      "mlr_state res = MlRolledBack"
    by (simp add: scripted_defs two Let_def)
  from multi_leg_result_truthful [OF run(1)] run show ?thesis by (auto simp: two_attempts_def)
qed

text \<open>
  With \<open>max_rollback_attempts = 0\<close> nothing is ever compensated, yet a failure after
  executed legs is reported as \<open>RolledBack\<close>.
\<close>
theorem zero_attempts_rolls_nothing_back:
  assumes "mlc_max_rollback_attempts cfg = 0" "executed \<noteq> []"
    and "handle_failure E cfg clk eid executed i ins reason events net (n, x) = (Some r, n', x')"
  shows "x' = x \<and> (\<exists>res. r = Inr res \<and> mlr_state res = MlRolledBack \<and> mlr_legs res = executed)"
proof -
  have "rollback_loop E cfg orig cs k (n, x) = (Some (Inr k), n, x)" for orig cs k
    using assms(1) by (induction cs) (simp_all add: a_ret_def a_bind_def)
  then show ?thesis
    using assms(2,3) by (auto simp: handle_failure_def Let_def a_bind_def rollback_all_def)
qed

lemma zero_attempts_rolls_nothing_back_witness:
  "\<exists>r n' x'. handle_failure scripted (mlc_default\<lparr> mlc_max_rollback_attempts := 0 \<rparr>) (\<lambda>_. 0) ''E''
      [sample_result] 1 ''BTC/USD'' (Txt ''no'') [] 0 (9, [], [True]) = (Some r, n', x')
    \<and> x' = ([], [True])"
proof -
  let ?cfg = "mlc_default\<lparr> mlc_max_rollback_attempts := 0 \<rparr>"
  obtain r n' x' where run: "handle_failure scripted ?cfg (\<lambda>_. 0) ''E''
      [sample_result] 1 ''BTC/USD'' (Txt ''no'') [] 0 (9, [], [True]) = (Some r, n', x')"
    using handle_failure_runs [of "[sample_result]" ?cfg 9 scripted] by fastforce
  with zero_attempts_rolls_nothing_back [OF _ _ run] show ?thesis by auto
qed

text \<open>
  The overall time-out breaks atomicity: if it fires after \<open>calls\<close> of the legs, on a venue
  that executes every leg, the caller gets a time-out error for leg 0 while \<open>calls\<close> legs
  stand executed and no compensation was sent.
\<close>
theorem overall_timeout_leaves_legs_executed:
  assumes "\<And>leg i t x. \<exists>r x'. lv_execute_leg E leg i t x = (Inr r, x')"
    and "calls < length (pq_leg_prices p)"
  shows "\<exists>t x' log. execute (logged E) D cfg clk eid p calls (x, []) =
      (Inl (LegExecutionTimeout 0 (Txt ''overall execution'') t), (x', log))
    \<and> length (legs_done log) = calls \<and> undone log = []"
proof -
  have "pq_leg_prices p \<noteq> []" using assms(2) by auto
  moreover obtain x' log where "execute_legs (logged E) cfg clk eid p 0 (pq_leg_prices p) []
      [MleStarted eid (pq_id p) (length (pq_leg_prices p)) (pq_net_price p) (clk (AtEvent 0))]
      (calls, x, []) = (None, 0, x', log)" "length (legs_done log) = calls" "undone log = []"
    using execute_legs_cut [OF assms, of cfg clk eid p 0 "[]"
        "[MleStarted eid (pq_id p) (length (pq_leg_prices p)) (pq_net_price p) (clk (AtEvent 0))]" x "[]"]
    by auto
  ultimately show ?thesis by (simp add: execute_def execute_inner_def)
qed

definition obliging :: "(unit, int) leg_venue" where
  "obliging = \<lparr>
     lv_execute_leg = (\<lambda>leg i t x. (Inr \<lparr> lr_leg_index = i, lr_instrument = lp_instrument leg,
       lr_side = lp_side leg, lr_price = lp_price leg, lr_quantity = lp_quantity leg,
       lr_execution_id = ''X'', lr_executed_at = 0 \<rparr>, x)),
     lv_execute_compensating = (\<lambda>c x. (Inr (), x)) \<rparr>"

lemma overall_timeout_leaves_legs_executed_witness:
  "\<exists>t x' log. execute (logged obliging) whole_dec mlc_default (\<lambda>_. 0) ''E'' sample_package 1 ((), []) =
      (Inl (LegExecutionTimeout 0 (Txt ''overall execution'') t), (x', log))
    \<and> length (legs_done log) = 1 \<and> undone log = []"
  by (rule overall_timeout_leaves_legs_executed) (simp_all add: obliging_def sample_package_def)

text \<open>
  The only error \<open>execute\<close> returns is the overall time-out; failures of legs and of
  roll-backs are reported in the state of an \<open>Ok\<close> result.
\<close>
theorem execute_errors_only_by_timeout:
  assumes "execute E D cfg clk eid p calls x = (Inl e, x')"
  shows "e = LegExecutionTimeout 0 (Txt ''overall execution'')
    (of_nat (mlc_overall_timeout cfg div 1000000))"
proof (cases "execute_inner E D cfg clk eid p (calls, x)")
  case (fields r n x1)
  have "\<exists>res. q = Inr res" if "r = Some q" for q
    using fields that execute_legs_Inr by (fastforce simp: execute_inner_def split: if_splits)
  then show ?thesis using assms fields by (cases r) (auto simp: execute_def)
qed

lemma execute_errors_only_by_timeout_witness:
  "fst (execute obliging whole_dec mlc_default (\<lambda>_. 0) ''E'' sample_package 1 ()) =
     Inl (LegExecutionTimeout 0 (Txt ''overall execution'') 30000)"
proof -
  obtain e x' where run: "execute obliging whole_dec mlc_default (\<lambda>_. 0) ''E'' sample_package 1 () = (Inl e, x')"
    by (simp add: scripted_defs obliging_def)
  from execute_errors_only_by_timeout [OF run] run show ?thesis by (simp add: mlc_default_def)
qed

text \<open>
  A run makes at most one call per leg and \<open>max_rollback_attempts\<close> per leg more: if that
  many complete before the overall time-out, the execution comes to its end.
\<close>
theorem multi_leg_terminates:
  assumes "length (pq_leg_prices p) * (1 + unat (mlc_max_rollback_attempts cfg)) \<le> calls"
  shows "\<exists>res x'. execute E D cfg clk eid p calls x = (Inr res, x')"
proof -
  obtain r s' where run: "execute_inner E D cfg clk eid p (calls, x) = (Some r, s')"
    using execute_legs_runs [of "pq_leg_prices p" "[]" cfg calls E clk eid p 0
        "[MleStarted eid (pq_id p) (length (pq_leg_prices p)) (pq_net_price p) (clk (AtEvent 0))]" x] assms
    by (fastforce simp: execute_inner_def a_ret_def)
  have "\<exists>res. r = Inr res"
    using run execute_legs_Inr by (fastforce simp: execute_inner_def split: if_splits)
  then show ?thesis using run by (auto simp: execute_def split: prod.split)
qed

lemma multi_leg_terminates_witness:
  "\<exists>res x'. execute scripted whole_dec mlc_default (\<lambda>_. 0) ''E'' sample_package 8 ([True], []) = (Inr res, x')"
  by (rule multi_leg_terminates) (simp add: sample_package_def mlc_default_def)

end
