(* ===== verification/Byte_Codec.thy ===== *)
theory Byte_Codec
  imports Values
begin

text \<open>
  Bytes, little-endian integers, UTF-8 and the two ways the binary codec touches a buffer:
  writing at an offset of a mutable slice, and reading from an offset, either of which
  panics outside the slice. The lemmas turn a sequence of writes at successive offsets into
  a concatenation of byte strings.
\<close>

type_synonym bytes = "u8 list"

section \<open>Little-endian integers\<close>

fun le_of_nat :: "nat \<Rightarrow> nat \<Rightarrow> bytes" where
  "le_of_nat 0 n = []"
| "le_of_nat (Suc k) n = of_nat n # le_of_nat k (n div 256)"

fun nat_of_le :: "bytes \<Rightarrow> nat" where
  "nat_of_le [] = 0"
| "nat_of_le (b # bs) = unat b + 256 * nat_of_le bs"

lemma length_le_of_nat [simp]: "length (le_of_nat k n) = k"
  by (induction k arbitrary: n) auto

lemma unat_of_nat_u8: "unat (of_nat n :: u8) = n mod 256"
  by (simp add: unat_of_nat take_bit_eq_mod)

lemma nat_of_le_of_nat: "nat_of_le (le_of_nat k n) = n mod 256 ^ k"
proof (induction k arbitrary: n)
  case (Suc k)
  have "n mod 256 + 256 * (n div 256 mod 256 ^ k) = n mod (256 * 256 ^ k)"
    by (simp add: mod_mult2_eq)
  then show ?case by (simp add: Suc.IH unat_of_nat_u8)
qed simp

lemma nat_of_le_less: "nat_of_le bs < 256 ^ length bs"
proof (induction bs)
  case (Cons b bs)
  have "unat b < 2 ^ LENGTH(8)" by (rule unsigned_less)
  then show ?case using Cons.IH by simp
qed simp

lemma le_of_nat_of_le: "le_of_nat (length bs) (nat_of_le bs) = bs"
proof (induction bs)
  case (Cons b bs)
  have b: "unat b < 256" using unsigned_less [of b, where 'a = nat] by simp
  then have "(of_nat (unat b + 256 * nat_of_le bs) :: u8) = b"
    by (simp add: word_unat_eq_iff unat_of_nat_u8 del: of_nat_add of_nat_mult)
  moreover have "(unat b + 256 * nat_of_le bs) div 256 = nat_of_le bs" using b by simp
  ultimately show ?case using Cons.IH by (simp del: of_nat_add of_nat_mult)
qed simp

text \<open>\<open>to_le_bytes\<close> and \<open>from_le_bytes\<close> of an integer of \<open>LENGTH('w) / 8\<close> bytes.\<close>

definition to_le_bytes :: "'w::len word \<Rightarrow> bytes" where
  "to_le_bytes w = le_of_nat (LENGTH('w) div 8) (unat w)"

definition from_le_bytes :: "bytes \<Rightarrow> 'w::len word" where
  "from_le_bytes bs = of_nat (nat_of_le bs)"

lemma length_to_le_bytes [simp]:
  "length (to_le_bytes (a :: u16)) = 2" "length (to_le_bytes (b :: u32)) = 4"
  "length (to_le_bytes (c :: u64)) = 8"
  by (simp_all add: to_le_bytes_def)

lemma from_to_le_bytes:
  fixes w :: "'w::len word"
  assumes "8 dvd LENGTH('w)"
  shows "from_le_bytes (to_le_bytes w) = w"
proof -
  obtain k where k: "LENGTH('w) = 8 * k" using assms by (rule dvdE)
  have "unat w < 2 ^ LENGTH('w)" by (rule unsigned_less)
  then have "unat w < 256 ^ (LENGTH('w) div 8)" by (simp add: k power_mult)
  then show ?thesis by (simp add: from_le_bytes_def to_le_bytes_def nat_of_le_of_nat)
qed

lemma from_to_le_bytes_sizes [simp]:
  "from_le_bytes (to_le_bytes (a :: u16)) = a" "from_le_bytes (to_le_bytes (b :: u32)) = b"
  "from_le_bytes (to_le_bytes (c :: u64)) = c"
  by (simp_all add: from_to_le_bytes)

lemma to_from_le_bytes:
  assumes "LENGTH('w) = 8 * length bs"
  shows "to_le_bytes (from_le_bytes bs :: 'w::len word) = bs"
proof -
  have "nat_of_le bs < 2 ^ LENGTH('w)"
    using nat_of_le_less [of bs] by (simp add: assms power_mult)
  then show ?thesis
    by (simp add: to_le_bytes_def from_le_bytes_def unat_of_nat_small assms le_of_nat_of_le)
qed

section \<open>UTF-8\<close>

text \<open>A Rust string is a byte string that passes this test; here a character is a byte.\<close>

definition utf8_cont :: "u8 \<Rightarrow> bool" where
  "utf8_cont b \<longleftrightarrow> 0x80 \<le> b \<and> b \<le> 0xBF"

fun utf8_valid :: "bytes \<Rightarrow> bool" where
  "utf8_valid [] \<longleftrightarrow> True"
| "utf8_valid (a # bs) \<longleftrightarrow>
     (if a \<le> 0x7F then utf8_valid bs
      else case bs of
        [] \<Rightarrow> False
      | b # cs \<Rightarrow>
          if 0xC2 \<le> a \<and> a \<le> 0xDF then utf8_cont b \<and> utf8_valid cs
          else case cs of
            [] \<Rightarrow> False
          | c # ds \<Rightarrow>
              if 0xE0 \<le> a \<and> a \<le> 0xEF
              then utf8_cont b \<and> utf8_cont c \<and> (a = 0xE0 \<longrightarrow> 0xA0 \<le> b) \<and> (a = 0xED \<longrightarrow> b \<le> 0x9F)
                \<and> utf8_valid ds
              else case ds of
                [] \<Rightarrow> False
              | d # es \<Rightarrow> 0xF0 \<le> a \<and> a \<le> 0xF4 \<and> utf8_cont b \<and> utf8_cont c \<and> utf8_cont d
                  \<and> (a = 0xF0 \<longrightarrow> 0x90 \<le> b) \<and> (a = 0xF4 \<longrightarrow> b \<le> 0x8F) \<and> utf8_valid es)"

definition str_bytes :: "string \<Rightarrow> bytes" where
  "str_bytes s = map (\<lambda>c. of_nat (of_char c)) s"

definition bytes_str :: "bytes \<Rightarrow> string" where
  "bytes_str bs = map (\<lambda>b. char_of (unat b)) bs"

lemma length_str_bytes [simp]: "length (str_bytes s) = length s"
  by (simp add: str_bytes_def)

lemma bytes_str_of_str_bytes [simp]: "bytes_str (str_bytes s) = s"
  by (simp add: bytes_str_def str_bytes_def o_def unat_of_nat_u8 map_idI)

lemma utf8_valid_ascii: "\<forall>c\<in>set s. (of_char c :: nat) < 128 \<Longrightarrow> utf8_valid (str_bytes s)"
proof (induction s)
  case (Cons c s)
  then have "(of_char c :: nat) < 128" by simp
  then have "(of_nat (of_char c) :: u8) \<le> 0x7F" by (simp add: word_le_nat_alt unat_of_nat_u8)
  then show ?case using Cons by (simp add: str_bytes_def)
qed (simp add: str_bytes_def)

section \<open>Writing into a buffer\<close>

text \<open>\<open>buffer[off..off + n].copy_from_slice(bs)\<close>.\<close>

definition put_bytes :: "nat \<Rightarrow> bytes \<Rightarrow> (bytes, 'e, unit) pop" where
  "put_bytes off bs buf =
     (if off + length bs \<le> length buf
      then (Ret (), take off buf @ bs @ drop (off + length bs) buf) else (Panic, buf))"

text \<open>A call on \<open>&mut buffer[off..]\<close>.\<close>

definition at_offset :: "nat \<Rightarrow> (bytes, 'e, 'a) pop \<Rightarrow> (bytes, 'e, 'a) pop" where
  "at_offset off m buf =
     (if off \<le> length buf
      then (case m (drop off buf) of (r, rest) \<Rightarrow> (r, take off buf @ rest)) else (Panic, buf))"

text \<open>\<open>m\<close> writes \<open>bs\<close> at \<open>off\<close>, leaves the rest alone and returns \<open>a\<close>.\<close>

definition writes :: "nat \<Rightarrow> (bytes, 'e, 'a) pop \<Rightarrow> bytes \<Rightarrow> 'a \<Rightarrow> bool" where
  "writes off m bs a \<longleftrightarrow> (\<forall>buf. off + length bs \<le> length buf \<longrightarrow>
     m buf = (Ret a, take off buf @ bs @ drop (off + length bs) buf))"

named_theorems writes_intros "what the writing operations write"

lemma writes_put [writes_intros]: "writes off (put_bytes off bs) bs ()"
  by (simp add: writes_def put_bytes_def)

lemma writes_at [writes_intros]: "writes 0 m bs a \<Longrightarrow> writes off (at_offset off m) bs a"
  by (auto simp: writes_def at_offset_def add.commute)

lemma writes_ret: "writes off (pop_ret a) [] a"
  by (simp add: writes_def pop_ret_def)

lemma writes_then:
  assumes "writes off m bs a" "off' = off + length bs" "writes off' (f a) bs' b"
  shows "writes off (pop_then m f) (bs @ bs') b"
  unfolding writes_def
proof (intro allI impI)
  fix buf :: bytes
  assume len: "off + length (bs @ bs') \<le> length buf"
  let ?buf = "take off buf @ bs @ drop (off + length bs) buf"
  have m: "m buf = (Ret a, ?buf)" using assms(1) len by (simp add: writes_def)
  have "off' + length bs' \<le> length ?buf" using assms(2) len by simp
  then have "f a ?buf = (Ret b, take off' ?buf @ bs' @ drop (off' + length bs') ?buf)"
    using assms(3) by (simp add: writes_def)
  moreover have "take off' ?buf = take off buf @ bs" using assms(2) len by simp
  moreover have "drop (off' + length bs') ?buf = drop (off + length (bs @ bs')) buf"
    using assms(2) len by (simp add: ac_simps)
  ultimately show "pop_then m f buf = (Ret b, take off buf @ (bs @ bs') @ drop (off + length (bs @ bs')) buf)"
    using m by (simp add: pop_then_def)
qed

lemma writes_apply:
  "writes 0 m bs a \<Longrightarrow> length bs \<le> length buf \<Longrightarrow> m buf = (Ret a, bs @ drop (length bs) buf)"
  by (simp add: writes_def)

section \<open>Reading from a buffer\<close>

definition slice_from :: "nat \<Rightarrow> bytes \<Rightarrow> ('e, bytes) outcome" where
  "slice_from off buf = (if off \<le> length buf then Ret (drop off buf) else Panic)"

definition slice :: "nat \<Rightarrow> nat \<Rightarrow> bytes \<Rightarrow> ('e, bytes) outcome" where
  "slice off n buf = (if off + n \<le> length buf then Ret (take n (drop off buf)) else Panic)"

definition byte_at :: "nat \<Rightarrow> bytes \<Rightarrow> ('e, u8) outcome" where
  "byte_at off buf = (if off < length buf then Ret (buf ! off) else Panic)"

lemma slice_from_append [simp]:
  "length pre = off \<Longrightarrow> slice_from off (pre @ rest) = Ret rest"
  by (auto simp: slice_from_def)

lemma slice_append:
  "length pre = off \<Longrightarrow> length mid = n \<Longrightarrow> slice off n (pre @ mid @ rest) = Ret mid"
  by (auto simp: slice_def)

lemma byte_at_append: "length pre = off \<Longrightarrow> byte_at off (pre @ b # rest) = Ret b"
  by (auto simp: byte_at_def)

end
