(* ===== verification/Events.thy ===== *)
theory Events
  imports Errors Instruments
begin

text \<open>
  The domain events the use cases publish and the binary codec carries:
  \<open>src/domain/events/domain_event.rs\<close>, and of \<open>rfq_events.rs\<close> and \<open>trade_events.rs\<close> the events
  \<open>RfqCreated\<close>, \<open>QuoteReceived\<close>, \<open>TradeExecuted\<close> with its builder, and \<open>PositionUpdated\<close>. Each
  constructor draws a fresh event identifier and reads the clock once; both are arguments.
\<close>

section \<open>Records\<close>

record event_metadata =
  em_event_id :: uuid
  em_rfq_id :: "uuid option"
  em_timestamp :: timestamp
  em_schema_version :: "nat \<times> nat \<times> nat"

definition em_for_rfq :: "uuid \<Rightarrow> uuid \<Rightarrow> timestamp \<Rightarrow> event_metadata" where
  "em_for_rfq event_id rfq now = \<lparr> em_event_id = event_id, em_rfq_id = Some rfq, em_timestamp = now,
     em_schema_version = (1, 0, 0) \<rparr>"

record 'd rfq_created =
  rc_metadata :: event_metadata
  rc_client_id :: counterparty_id
  rc_instrument :: "'d instrument"
  rc_side :: order_side
  rc_quantity :: "'d quantity"
  rc_expires_at :: timestamp

record 'd quote_received =
  qr_metadata :: event_metadata
  qr_quote_id :: uuid
  qr_venue_id :: venue_id
  qr_price :: "'d price"
  qr_quantity :: "'d quantity"
  qr_valid_until :: timestamp

record 'd trade_executed =
  te_metadata :: event_metadata
  te_trade_id :: uuid
  te_quote_id :: uuid
  te_venue_id :: venue_id
  te_counterparty_id :: counterparty_id
  te_price :: "'d price"
  te_quantity :: "'d quantity"
  te_settlement_method :: settlement_method
  te_taker_fee :: "'d option"
  te_maker_fee :: "'d option"
  te_net_fee :: "'d option"

record 'd position_updated =
  pu_metadata :: event_metadata
  pu_trade_id :: uuid
  pu_requester_id :: counterparty_id
  pu_requester_side :: order_side
  pu_mm_id :: venue_id
  pu_mm_side :: order_side
  pu_instrument :: "'d instrument"
  pu_asset_class :: asset_class
  pu_quantity :: "'d quantity"
  pu_price :: "'d price"

section \<open>Constructors\<close>

definition rc_new :: "uuid \<Rightarrow> timestamp \<Rightarrow> uuid \<Rightarrow> counterparty_id \<Rightarrow> 'd instrument \<Rightarrow> order_side
    \<Rightarrow> 'd quantity \<Rightarrow> timestamp \<Rightarrow> 'd rfq_created" where
  "rc_new event_id now rfq client ins side q expires_at = \<lparr>
     rc_metadata = em_for_rfq event_id rfq now, rc_client_id = client, rc_instrument = ins,
     rc_side = side, rc_quantity = q, rc_expires_at = expires_at \<rparr>"

definition qr_new :: "uuid \<Rightarrow> timestamp \<Rightarrow> uuid \<Rightarrow> uuid \<Rightarrow> venue_id \<Rightarrow> 'd price \<Rightarrow> 'd quantity
    \<Rightarrow> timestamp \<Rightarrow> 'd quote_received" where
  "qr_new event_id now rfq quote venue p q valid_until = \<lparr>
     qr_metadata = em_for_rfq event_id rfq now, qr_quote_id = quote, qr_venue_id = venue,
     qr_price = p, qr_quantity = q, qr_valid_until = valid_until \<rparr>"

definition pu_new :: "uuid \<Rightarrow> timestamp \<Rightarrow> uuid \<Rightarrow> uuid \<Rightarrow> counterparty_id \<Rightarrow> order_side \<Rightarrow> venue_id
    \<Rightarrow> order_side \<Rightarrow> 'd instrument \<Rightarrow> 'd quantity \<Rightarrow> 'd price \<Rightarrow> 'd position_updated" where
  "pu_new event_id now rfq trade requester rside mm mside ins q p = \<lparr>
     pu_metadata = em_for_rfq event_id rfq now, pu_trade_id = trade, pu_requester_id = requester,
     pu_requester_side = rside, pu_mm_id = mm, pu_mm_side = mside, pu_instrument = ins,
     pu_asset_class = ins_asset_class ins, pu_quantity = q, pu_price = p \<rparr>"

section \<open>\<open>TradeExecutedBuilder\<close>\<close>

record 'd trade_executed_builder =
  teb_rfq_id :: "uuid option"
  teb_trade_id :: "uuid option"
  teb_quote_id :: "uuid option"
  teb_venue_id :: "venue_id option"
  teb_counterparty_id :: "counterparty_id option"
  teb_price :: "'d price option"
  teb_quantity :: "'d quantity option"
  teb_settlement_method :: "settlement_method option"
  teb_taker_fee :: "'d option"
  teb_maker_fee :: "'d option"
  teb_net_fee :: "'d option"

definition teb_default :: "'d trade_executed_builder" where
  "teb_default = \<lparr> teb_rfq_id = None, teb_trade_id = None, teb_quote_id = None, teb_venue_id = None,
     teb_counterparty_id = None, teb_price = None, teb_quantity = None,
     teb_settlement_method = None, teb_taker_fee = None, teb_maker_fee = None, teb_net_fee = None \<rparr>"

text \<open>\<open>build\<close> panics where \<open>try_build\<close> names the first required field that is missing.\<close>

definition teb_missing :: "string \<Rightarrow> 'd domain_error" where
  "teb_missing field = ValidationError (Fmt ''{} is required'' [ArgStr field])"

definition teb_try_build :: "uuid \<Rightarrow> timestamp \<Rightarrow> 'd trade_executed_builder
    \<Rightarrow> 'd domain_error + 'd trade_executed" where
  "teb_try_build event_id now b =
     rbind (ok_or (teb_missing ''rfq_id'') (teb_rfq_id b)) (\<lambda>rfq.
     rbind (ok_or (teb_missing ''trade_id'') (teb_trade_id b)) (\<lambda>trade.
     rbind (ok_or (teb_missing ''quote_id'') (teb_quote_id b)) (\<lambda>quote.
     rbind (ok_or (teb_missing ''venue_id'') (teb_venue_id b)) (\<lambda>venue.
     rbind (ok_or (teb_missing ''counterparty_id'') (teb_counterparty_id b)) (\<lambda>cp.
     rbind (ok_or (teb_missing ''price'') (teb_price b)) (\<lambda>p.
     rbind (ok_or (teb_missing ''quantity'') (teb_quantity b)) (\<lambda>q.
     rbind (ok_or (teb_missing ''settlement_method'') (teb_settlement_method b)) (\<lambda>sm.
       Inr \<lparr> te_metadata = em_for_rfq event_id rfq now, te_trade_id = trade, te_quote_id = quote,
         te_venue_id = venue, te_counterparty_id = cp, te_price = p, te_quantity = q,
         te_settlement_method = sm, te_taker_fee = teb_taker_fee b,
         te_maker_fee = teb_maker_fee b, te_net_fee = teb_net_fee b \<rparr>))))))))"

definition teb_build :: "uuid \<Rightarrow> timestamp \<Rightarrow> 'd trade_executed_builder
    \<Rightarrow> ('e, 'd trade_executed) outcome" where
  "teb_build event_id now b =
     (case teb_try_build event_id now b of Inl _ \<Rightarrow> Panic | Inr e \<Rightarrow> Ret e)"

end
