(* ===== verification/Sbe_Codec.thy ===== *)
theory Sbe_Codec
  imports Byte_Codec Events
begin

text \<open>
  The Simple Binary Encoding of three domain events: \<open>src/infrastructure/sbe/types.rs\<close> and
  \<open>codecs.rs\<close>, with the parts of the events and of \<open>Timestamp\<close> they use. Encoders write into a
  buffer in place; decoders read and may panic on a slice outside the buffer.
\<close>

section \<open>Errors\<close>

text \<open>What the formatted messages say: a text, the error they quote, or the parts of the format.\<close>

datatype sbe_detail = DetailText string | DetailArith arithmetic_error | DetailSymbol symbol_error
  | DetailUtf8 | DetailFmt string arithmetic_error | DetailNumber string nat

datatype sbe_error =
    BufferTooSmall nat nat
  | InvalidHeader sbe_detail
  | UnknownTemplateId u16
  | InvalidFieldValue sbe_detail
  | InvalidString sbe_detail
  | InvalidEnumValue u8
  | InvalidUuid
  | InvalidDecimal sbe_detail
  | InvalidTimestamp sbe_detail
  | OffsetOverflow  \<comment> \<open>\<open>Overflow\<close>\<close>

type_synonym 'a reads = "(sbe_error, 'a) outcome"
type_synonym 'a sbe_write = "(bytes, sbe_error, 'a) pop"

section \<open>\<open>SbeUuid\<close>\<close>

text \<open>The bytes of a UUID are the big-endian bytes of its 128-bit value.\<close>

definition uuid_bytes :: "uuid \<Rightarrow> bytes" where
  "uuid_bytes u = rev (le_of_nat 16 (unat u))"

definition uuid_from_bytes :: "bytes \<Rightarrow> uuid" where
  "uuid_from_bytes bs = of_nat (nat_of_le (rev bs))"

record sbe_uuid =
  su_high :: u64
  su_low :: u64

definition su_from_uuid :: "uuid \<Rightarrow> sbe_uuid" where
  "su_from_uuid u = \<lparr> su_high = from_le_bytes (take 8 (uuid_bytes u)),
     su_low = from_le_bytes (drop 8 (uuid_bytes u)) \<rparr>"

definition su_to_uuid :: "sbe_uuid \<Rightarrow> uuid" where
  "su_to_uuid s = uuid_from_bytes (to_le_bytes (su_high s) @ to_le_bytes (su_low s))"

definition su_encode :: "sbe_uuid \<Rightarrow> unit sbe_write" where
  "su_encode s buf =
     (if length buf < 16 then (Err (BufferTooSmall 16 (length buf)), buf)
      else pop_then (put_bytes 0 (to_le_bytes (su_high s)))
             (\<lambda>_. put_bytes 8 (to_le_bytes (su_low s))) buf)"

definition su_decode :: "bytes \<Rightarrow> sbe_uuid reads" where
  "su_decode buf =
     (if length buf < 16 then Err (BufferTooSmall 16 (length buf))
      else Ret \<lparr> su_high = from_le_bytes (take 8 buf), su_low = from_le_bytes (take 8 (drop 8 buf)) \<rparr>)"

section \<open>\<open>SbeDecimal\<close>\<close>

record sbe_decimal =
  sd_mantissa :: u64      \<comment> \<open>an \<open>i64\<close> in two's complement\<close>
  sd_exponent :: u8       \<comment> \<open>an \<open>i8\<close> in two's complement\<close>

text \<open>\<open>mantissa as i64\<close> keeps the low 64 bits of the 128-bit mantissa.\<close>

definition sd_from_decimal :: "'d dec \<Rightarrow> 'd \<Rightarrow> sbe_decimal" where
  "sd_from_decimal D d = \<lparr> sd_mantissa = word_of_int (dmantissa D d),
     sd_exponent = - of_nat (dscale D d) \<rparr>"

definition checked_pow10 :: "nat \<Rightarrow> u64 option" where
  "checked_pow10 e = s_checked TYPE(64) (10 ^ e)"

definition sd_to_decimal :: "'d dec \<Rightarrow> sbe_decimal \<Rightarrow> 'd reads" where
  "sd_to_decimal D s =
     (if 0 < sint (sd_exponent s)
      then (case checked_pow10 (nat (sint (sd_exponent s))) of
          None \<Rightarrow> Err (InvalidDecimal (DetailText ''exponent overflow''))
        | Some multiplier \<Rightarrow>
            (case s_checked TYPE(64) (sint (sd_mantissa s) * sint multiplier) of
               None \<Rightarrow> Err (InvalidDecimal (DetailText ''mantissa overflow''))
             | Some m \<Rightarrow> or_panic (dnew D (sint m) 0)))
      else or_panic (dnew D (sint (sd_mantissa s)) (unat (scast (- sd_exponent s) :: u32))))"

definition sd_encode :: "sbe_decimal \<Rightarrow> unit sbe_write" where
  "sd_encode s buf =
     (if length buf < 9 then (Err (BufferTooSmall 9 (length buf)), buf)
      else pop_then (put_bytes 0 (to_le_bytes (sd_mantissa s)))
             (\<lambda>_. put_bytes 8 [sd_exponent s]) buf)"

definition sd_decode :: "bytes \<Rightarrow> sbe_decimal reads" where
  "sd_decode buf =
     (if length buf < 9 then Err (BufferTooSmall 9 (length buf))
      else Ret \<lparr> sd_mantissa = from_le_bytes (take 8 buf), sd_exponent = buf ! 8 \<rparr>)"

section \<open>Strings\<close>

definition encode_var_string :: "string \<Rightarrow> nat sbe_write" where
  "encode_var_string s buf =
     (let bs = str_bytes s; total_size = 4 + length bs in
      if length buf < total_size then (Err (BufferTooSmall total_size (length buf)), buf)
      else pop_then (put_bytes 0 (to_le_bytes (of_nat (length bs) :: u32)))
             (\<lambda>_. pop_then (put_bytes 4 bs) (\<lambda>_. pop_ret total_size)) buf)"

definition decode_var_string :: "bytes \<Rightarrow> (string \<times> nat) reads" where
  "decode_var_string buf =
     (if length buf < 4 then Err (BufferTooSmall 4 (length buf))
      else
        let len = unat (from_le_bytes (take 4 buf) :: u32); total_size = 4 + len in
        if length buf < total_size then Err (BufferTooSmall total_size (length buf))
        else
          let bs = take len (drop 4 buf) in
          if utf8_valid bs then Ret (bytes_str bs, total_size) else Err (InvalidString DetailUtf8))"

section \<open>Headers and small fields\<close>

definition encode_header :: "u16 \<Rightarrow> u16 \<Rightarrow> unit sbe_write" where
  "encode_header block_length template_id buf =
     (if length buf < 8 then (Err (BufferTooSmall 8 (length buf)), buf)
      else pop_then (put_bytes 0 (to_le_bytes block_length)) (\<lambda>_.
           pop_then (put_bytes 2 (to_le_bytes template_id)) (\<lambda>_.
           pop_then (put_bytes 4 (to_le_bytes (1 :: u16))) (\<lambda>_.
             put_bytes 6 (to_le_bytes (2 :: u16))))) buf)"

definition decode_header :: "bytes \<Rightarrow> (u16 \<times> u16 \<times> u16 \<times> u16) reads" where
  "decode_header buf =
     (if length buf < 8 then Err (BufferTooSmall 8 (length buf))
      else Ret (from_le_bytes (take 2 buf), from_le_bytes (take 2 (drop 2 buf)),
        from_le_bytes (take 2 (drop 4 buf)), from_le_bytes (take 2 (drop 6 buf))))"

definition encode_order_side :: "order_side \<Rightarrow> u8" where
  "encode_order_side s = (case s of Buy \<Rightarrow> 0 | Sell \<Rightarrow> 1)"

definition decode_order_side :: "u8 \<Rightarrow> order_side reads" where
  "decode_order_side v =
     (if v = 0 then Ret Buy else if v = 1 then Ret Sell else Err (InvalidEnumValue v))"

definition encode_settlement_method :: "settlement_method \<Rightarrow> bytes" where
  "encode_settlement_method m = (case m of OffChain \<Rightarrow> [0, 0] | OnChain chain \<Rightarrow> [1, blockchain_as_u8 chain])"

definition decode_settlement_method :: "u8 \<Rightarrow> u8 \<Rightarrow> settlement_method reads" where
  "decode_settlement_method a b =
     (if a = 0 then Ret OffChain
      else if a = 1 then of_result (ok_or (InvalidEnumValue b) (map_option OnChain (blockchain_from_u8 b)))
      else Err (InvalidEnumValue a))"

definition encode_optional_fee :: "'d dec \<Rightarrow> 'd option \<Rightarrow> unit sbe_write" where
  "encode_optional_fee D fee buf =
     (if length buf < 10 then (Err (BufferTooSmall 10 (length buf)), buf)
      else (case fee of
          None \<Rightarrow> pop_then (put_bytes 0 [0]) (\<lambda>_. put_bytes 1 (replicate 9 0)) buf
        | Some d \<Rightarrow> pop_then (put_bytes 0 [1]) (\<lambda>_. at_offset 1 (sd_encode (sd_from_decimal D d))) buf))"

definition decode_optional_fee :: "'d dec \<Rightarrow> bytes \<Rightarrow> 'd option reads" where
  "decode_optional_fee D buf =
     (if length buf < 10 then Err (BufferTooSmall 10 (length buf))
      else if buf ! 0 = 0 then Ret None
      else if buf ! 0 = 1
      then obind (sd_decode (drop 1 buf)) (\<lambda>s. obind (sd_to_decimal D s) (\<lambda>d. Ret (Some d)))
      else Err (InvalidEnumValue (buf ! 0)))"

section \<open>Time stamps\<close>

text \<open>\<open>timestamp_nanos().unwrap_or(0) as u64\<close>: zero outside the range of an \<open>i64\<close>.\<close>

definition ts_nanos :: "timestamp \<Rightarrow> u64" where
  "ts_nanos t = (case s_checked TYPE(64) t of Some w \<Rightarrow> w | None \<Rightarrow> 0)"

text \<open>
  \<open>from_nanos\<close>: the remainder of the truncating division becomes an unsigned 32-bit count of
  nanoseconds, which must be below one second.
\<close>

definition ts_from_nanos :: "int \<Rightarrow> timestamp option" where
  "ts_from_nanos n =
     (let secs = trunc_div n 1000000000;
          nsecs = uint (word_of_int (trunc_mod n 1000000000) :: u32) in
      if nsecs < 1000000000 then Some (secs * 1000000000 + nsecs) else None)"

text \<open>Eight indexed bytes, then \<open>from_nanos(nanos as i64)\<close>.\<close>

definition u64_at :: "nat \<Rightarrow> bytes \<Rightarrow> u64 reads" where
  "u64_at off buf = obind (slice off 8 buf) (\<lambda>bs. Ret (from_le_bytes bs))"

definition ts_at :: "nat \<Rightarrow> string \<Rightarrow> bytes \<Rightarrow> timestamp reads" where
  "ts_at off what buf =
     obind (u64_at off buf) (\<lambda>n.
       of_result (ok_or (InvalidTimestamp (DetailText what)) (ts_from_nanos (sint n))))"

section \<open>Messages\<close>

text \<open>An encoder first checks that the whole message fits.\<close>

definition sized :: "nat \<Rightarrow> nat sbe_write \<Rightarrow> nat sbe_write" where
  "sized needed m buf =
     (if length buf < needed then (Err (BufferTooSmall needed (length buf)), buf) else m buf)"

definition put_uuid :: "nat \<Rightarrow> uuid \<Rightarrow> unit sbe_write" where
  "put_uuid off u = at_offset off (su_encode (su_from_uuid u))"

definition put_rfq_id :: "nat \<Rightarrow> uuid option \<Rightarrow> unit sbe_write" where
  "put_rfq_id off u = (case u of Some u \<Rightarrow> put_uuid off u | None \<Rightarrow> put_bytes off (replicate 16 0))"

definition put_decimal :: "'d dec \<Rightarrow> nat \<Rightarrow> 'd \<Rightarrow> unit sbe_write" where
  "put_decimal D off d = at_offset off (sd_encode (sd_from_decimal D d))"

definition put_u64 :: "nat \<Rightarrow> u64 \<Rightarrow> unit sbe_write" where
  "put_u64 off w = put_bytes off (to_le_bytes w)"

definition rc_encoded_size :: "'d rfq_created \<Rightarrow> nat" where
  "rc_encoded_size e = 8 + 58 + 4 + length (rc_client_id e) + 4
     + length (sym_value (ins_symbol (rc_instrument e)))"

definition rc_encode :: "'d dec \<Rightarrow> 'd rfq_created \<Rightarrow> nat sbe_write" where
  "rc_encode D e = sized (rc_encoded_size e)
     (pop_then (at_offset 0 (encode_header 58 1)) (\<lambda>_.
      pop_then (put_uuid 8 (em_event_id (rc_metadata e))) (\<lambda>_.
      pop_then (put_rfq_id 24 (em_rfq_id (rc_metadata e))) (\<lambda>_.
      pop_then (put_bytes 40 [encode_order_side (rc_side e)]) (\<lambda>_.
      pop_then (put_decimal D 41 (quantity_get (rc_quantity e))) (\<lambda>_.
      pop_then (put_u64 50 (ts_nanos (rc_expires_at e))) (\<lambda>_.
      pop_then (put_u64 58 (ts_nanos (em_timestamp (rc_metadata e)))) (\<lambda>_.
      pop_then (at_offset 66 (encode_var_string (rc_client_id e))) (\<lambda>client_size.
      pop_then (at_offset (66 + client_size)
          (encode_var_string (sym_value (ins_symbol (rc_instrument e))))) (\<lambda>symbol_size.
        pop_ret (66 + client_size + symbol_size)))))))))))"

definition uuid_at :: "nat \<Rightarrow> bytes \<Rightarrow> uuid reads" where
  "uuid_at off buf = obind (slice_from off buf) (\<lambda>b. obind (su_decode b) (\<lambda>s. Ret (su_to_uuid s)))"

definition decimal_at :: "'d dec \<Rightarrow> nat \<Rightarrow> bytes \<Rightarrow> 'd reads" where
  "decimal_at D off buf = obind (slice_from off buf) (\<lambda>b. obind (sd_decode b) (sd_to_decimal D))"

definition as_decimal_error :: "arithmetic_error + 'a \<Rightarrow> 'a reads" where
  "as_decimal_error r = (case r of Inl e \<Rightarrow> Err (InvalidDecimal (DetailArith e)) | Inr a \<Rightarrow> Ret a)"

definition price_at :: "'d dec \<Rightarrow> nat \<Rightarrow> bytes \<Rightarrow> 'd price reads" where
  "price_at D off buf = obind (decimal_at D off buf) (\<lambda>d. as_decimal_error (price_from_decimal D d))"

definition quantity_at :: "'d dec \<Rightarrow> nat \<Rightarrow> bytes \<Rightarrow> 'd quantity reads" where
  "quantity_at D off buf =
     obind (decimal_at D off buf) (\<lambda>d. as_decimal_error (quantity_from_decimal D d))"

definition var_string_at :: "nat \<Rightarrow> bytes \<Rightarrow> (string \<times> nat) reads" where
  "var_string_at off buf = obind (slice_from off buf) decode_var_string"

definition rc_decode :: "'d dec \<Rightarrow> bytes \<Rightarrow> 'd rfq_created reads" where
  "rc_decode D buf =
     obind (decode_header buf) (\<lambda>(block_length, template_id, _, _).
     if template_id \<noteq> 1 then Err (UnknownTemplateId template_id) else
     obind (uuid_at 8 buf) (\<lambda>event_id.
     obind (uuid_at 24 buf) (\<lambda>rfq_id.
     obind (byte_at 40 buf) (\<lambda>b. obind (decode_order_side b) (\<lambda>side.
     obind (quantity_at D 41 buf) (\<lambda>quantity.
     obind (ts_at 50 ''invalid expires_at'' buf) (\<lambda>expires_at.
     obind (ts_at 58 ''invalid created_at'' buf) (\<lambda>created_at.
     obind (var_string_at (8 + unat block_length) buf) (\<lambda>(client_id, client_size).
     obind (var_string_at (8 + unat block_length + client_size) buf) (\<lambda>(symbol_str, _).
     (case symbol_new symbol_str of
        Inl e \<Rightarrow> Err (InvalidFieldValue (DetailSymbol e))
      | Inr symb \<Rightarrow>
          Ret \<lparr> rc_metadata = em_for_rfq event_id rfq_id created_at, rc_client_id = client_id,
            rc_instrument = instrument_default_build symb CryptoSpot, rc_side = side,
            rc_quantity = quantity, rc_expires_at = expires_at \<rparr>)))))))))))"

definition qr_encoded_size :: "'d quote_received \<Rightarrow> nat" where
  "qr_encoded_size e = 8 + 82 + 4 + length (qr_venue_id e)"

definition qr_encode :: "'d dec \<Rightarrow> 'd quote_received \<Rightarrow> nat sbe_write" where
  "qr_encode D e = sized (qr_encoded_size e)
     (pop_then (at_offset 0 (encode_header 82 2)) (\<lambda>_.
      pop_then (put_uuid 8 (em_event_id (qr_metadata e))) (\<lambda>_.
      pop_then (put_rfq_id 24 (em_rfq_id (qr_metadata e))) (\<lambda>_.
      pop_then (put_uuid 40 (qr_quote_id e)) (\<lambda>_.
      pop_then (put_decimal D 56 (price_get (qr_price e))) (\<lambda>_.
      pop_then (put_decimal D 65 (quantity_get (qr_quantity e))) (\<lambda>_.
      pop_then (put_u64 74 (ts_nanos (qr_valid_until e))) (\<lambda>_.
      pop_then (put_u64 82 (ts_nanos (em_timestamp (qr_metadata e)))) (\<lambda>_.
      pop_then (at_offset 90 (encode_var_string (qr_venue_id e))) (\<lambda>venue_size.
        pop_ret (90 + venue_size)))))))))))"

definition qr_decode :: "'d dec \<Rightarrow> bytes \<Rightarrow> 'd quote_received reads" where
  "qr_decode D buf =
     obind (decode_header buf) (\<lambda>(block_length, template_id, _, _).
     if template_id \<noteq> 2 then Err (UnknownTemplateId template_id) else
     obind (uuid_at 8 buf) (\<lambda>event_id.
     obind (uuid_at 24 buf) (\<lambda>rfq_id.
     obind (uuid_at 40 buf) (\<lambda>quote_id.
     obind (price_at D 56 buf) (\<lambda>price.
     obind (quantity_at D 65 buf) (\<lambda>quantity.
     obind (ts_at 74 ''invalid valid_until'' buf) (\<lambda>valid_until.
     obind (ts_at 82 ''invalid received_at'' buf) (\<lambda>received_at.
     obind (var_string_at (8 + unat block_length) buf) (\<lambda>(venue_id, _).
       Ret \<lparr> qr_metadata = em_for_rfq event_id rfq_id received_at, qr_quote_id = quote_id,
         qr_venue_id = venue_id, qr_price = price, qr_quantity = quantity,
         qr_valid_until = valid_until \<rparr>)))))))))"

definition te_encoded_size :: "'d trade_executed \<Rightarrow> nat" where
  "te_encoded_size e = 8 + 122 + 4 + length (te_venue_id e) + 4 + length (te_counterparty_id e)"

definition te_encode :: "'d dec \<Rightarrow> 'd trade_executed \<Rightarrow> nat sbe_write" where
  "te_encode D e = sized (te_encoded_size e)
     (pop_then (at_offset 0 (encode_header 122 3)) (\<lambda>_.
      pop_then (put_uuid 8 (em_event_id (te_metadata e))) (\<lambda>_.
      pop_then (put_rfq_id 24 (em_rfq_id (te_metadata e))) (\<lambda>_.
      pop_then (put_uuid 40 (te_trade_id e)) (\<lambda>_.
      pop_then (put_uuid 56 (te_quote_id e)) (\<lambda>_.
      pop_then (put_decimal D 72 (price_get (te_price e))) (\<lambda>_.
      pop_then (put_decimal D 81 (quantity_get (te_quantity e))) (\<lambda>_.
      pop_then (put_u64 90 (ts_nanos (em_timestamp (te_metadata e)))) (\<lambda>_.
      pop_then (at_offset 98 (encode_optional_fee D (te_taker_fee e))) (\<lambda>_.
      pop_then (at_offset 108 (encode_optional_fee D (te_maker_fee e))) (\<lambda>_.
      pop_then (at_offset 118 (encode_optional_fee D (te_net_fee e))) (\<lambda>_.
      pop_then (put_bytes 128 (encode_settlement_method (te_settlement_method e))) (\<lambda>_.
      pop_then (at_offset 130 (encode_var_string (te_venue_id e))) (\<lambda>venue_size.
      pop_then (at_offset (130 + venue_size) (encode_var_string (te_counterparty_id e))) (\<lambda>cp_size.
        pop_ret (130 + venue_size + cp_size))))))))))))))))"

text \<open>The fields that version 2 of the schema added.\<close>

definition te_decode_v2 :: "'d dec \<Rightarrow> u16 \<Rightarrow> bytes
    \<Rightarrow> ('d option \<times> 'd option \<times> 'd option \<times> settlement_method) reads" where
  "te_decode_v2 D version buf =
     (if 2 \<le> version
      then
        obind (obind (slice_from 98 buf) (decode_optional_fee D)) (\<lambda>taker_fee.
        obind (obind (slice_from 108 buf) (decode_optional_fee D)) (\<lambda>maker_fee.
        obind (obind (slice_from 118 buf) (decode_optional_fee D)) (\<lambda>net_fee.
        if length buf < 128 + 2
        then Err (InvalidTimestamp (DetailText ''buffer too short for settlement_method''))
        else obind (decode_settlement_method (buf ! 128) (buf ! 129)) (\<lambda>m.
          Ret (taker_fee, maker_fee, net_fee, m)))))
      else Ret (None, None, None, OffChain))"

definition te_decode :: "'d dec \<Rightarrow> bytes \<Rightarrow> 'd trade_executed reads" where
  "te_decode D buf =
     obind (decode_header buf) (\<lambda>(block_length, template_id, _, version).
     if template_id \<noteq> 3 then Err (UnknownTemplateId template_id) else
     obind (uuid_at 8 buf) (\<lambda>event_id.
     obind (uuid_at 24 buf) (\<lambda>rfq_id.
     obind (uuid_at 40 buf) (\<lambda>trade_id.
     obind (uuid_at 56 buf) (\<lambda>quote_id.
     obind (price_at D 72 buf) (\<lambda>price.
     obind (quantity_at D 81 buf) (\<lambda>quantity.
     obind (ts_at 90 ''invalid executed_at'' buf) (\<lambda>executed_at.
     obind (te_decode_v2 D version buf) (\<lambda>(taker_fee, maker_fee, net_fee, settlement_method).
     obind (var_string_at (8 + unat block_length) buf) (\<lambda>(venue_id, venue_size).
     obind (var_string_at (8 + unat block_length + venue_size) buf) (\<lambda>(counterparty_id, _).
       Ret \<lparr> te_metadata = em_for_rfq event_id rfq_id executed_at, te_trade_id = trade_id,
         te_quote_id = quote_id, te_venue_id = venue_id, te_counterparty_id = counterparty_id,
         te_price = price, te_quantity = quantity, te_settlement_method = settlement_method,
         te_taker_fee = taker_fee, te_maker_fee = maker_fee, te_net_fee = net_fee \<rparr>)))))))))))"

text \<open>\<open>encode_to_vec\<close>: into a fresh vector of zeros.\<close>

definition encode_to_vec :: "('e \<Rightarrow> nat) \<Rightarrow> ('e \<Rightarrow> nat sbe_write) \<Rightarrow> 'e \<Rightarrow> bytes reads" where
  "encode_to_vec encoded_size encode e =
     (case encode e (replicate (encoded_size e) 0) of
        (Ret _, buf) \<Rightarrow> Ret buf | (Err x, _) \<Rightarrow> Err x | (Panic, _) \<Rightarrow> Panic)"

section \<open>What the encoders write\<close>

definition sd_bytes :: "'d dec \<Rightarrow> 'd \<Rightarrow> bytes" where
  "sd_bytes D d = to_le_bytes (sd_mantissa (sd_from_decimal D d)) @ [sd_exponent (sd_from_decimal D d)]"

definition var_bytes :: "string \<Rightarrow> bytes" where
  "var_bytes s = to_le_bytes (of_nat (length s) :: u32) @ str_bytes s"

definition header_bytes :: "u16 \<Rightarrow> u16 \<Rightarrow> bytes" where
  "header_bytes b t = to_le_bytes b @ to_le_bytes t @ to_le_bytes (1 :: u16) @ to_le_bytes (2 :: u16)"

definition rfq_id_bytes :: "uuid option \<Rightarrow> bytes" where
  "rfq_id_bytes u = uuid_bytes (case u of Some u \<Rightarrow> u | None \<Rightarrow> 0)"

definition fee_bytes :: "'d dec \<Rightarrow> 'd option \<Rightarrow> bytes" where
  "fee_bytes D fee = (case fee of None \<Rightarrow> replicate 10 0 | Some d \<Rightarrow> 1 # sd_bytes D d)"

definition rc_bytes :: "'d dec \<Rightarrow> 'd rfq_created \<Rightarrow> bytes" where
  "rc_bytes D e = header_bytes 58 1 @ uuid_bytes (em_event_id (rc_metadata e))
     @ rfq_id_bytes (em_rfq_id (rc_metadata e)) @ [encode_order_side (rc_side e)]
     @ sd_bytes D (quantity_get (rc_quantity e)) @ to_le_bytes (ts_nanos (rc_expires_at e))
     @ to_le_bytes (ts_nanos (em_timestamp (rc_metadata e))) @ var_bytes (rc_client_id e)
     @ var_bytes (sym_value (ins_symbol (rc_instrument e)))"

definition qr_bytes :: "'d dec \<Rightarrow> 'd quote_received \<Rightarrow> bytes" where
  "qr_bytes D e = header_bytes 82 2 @ uuid_bytes (em_event_id (qr_metadata e))
     @ rfq_id_bytes (em_rfq_id (qr_metadata e)) @ uuid_bytes (qr_quote_id e)
     @ sd_bytes D (price_get (qr_price e)) @ sd_bytes D (quantity_get (qr_quantity e))
     @ to_le_bytes (ts_nanos (qr_valid_until e))
     @ to_le_bytes (ts_nanos (em_timestamp (qr_metadata e))) @ var_bytes (qr_venue_id e)"

definition te_bytes :: "'d dec \<Rightarrow> 'd trade_executed \<Rightarrow> bytes" where
  "te_bytes D e = header_bytes 122 3 @ uuid_bytes (em_event_id (te_metadata e))
     @ rfq_id_bytes (em_rfq_id (te_metadata e)) @ uuid_bytes (te_trade_id e)
     @ uuid_bytes (te_quote_id e) @ sd_bytes D (price_get (te_price e))
     @ sd_bytes D (quantity_get (te_quantity e)) @ to_le_bytes (ts_nanos (em_timestamp (te_metadata e)))
     @ fee_bytes D (te_taker_fee e) @ fee_bytes D (te_maker_fee e) @ fee_bytes D (te_net_fee e)
     @ encode_settlement_method (te_settlement_method e) @ var_bytes (te_venue_id e)
     @ var_bytes (te_counterparty_id e)"

lemma length_uuid_bytes [simp]: "length (uuid_bytes u) = 16"
  by (simp add: uuid_bytes_def)

lemma length_sd_bytes [simp]: "length (sd_bytes D d) = 9"
  by (simp add: sd_bytes_def)

lemma length_var_bytes [simp]: "length (var_bytes s) = 4 + length s"
  by (simp add: var_bytes_def)

lemma length_header_bytes [simp]: "length (header_bytes b t) = 8"
  by (simp add: header_bytes_def)

lemma length_rfq_id_bytes [simp]: "length (rfq_id_bytes u) = 16"
  by (simp add: rfq_id_bytes_def)

lemma length_fee_bytes [simp]: "length (fee_bytes D f) = 10"
  by (simp add: fee_bytes_def split: option.split)

lemma length_settlement_bytes [simp]: "length (encode_settlement_method m) = 2"
  by (simp add: encode_settlement_method_def split: settlement_method.split)

lemma writes_guard:
  "writes off m bs a \<Longrightarrow> n \<le> off + length bs \<Longrightarrow>
    writes off (\<lambda>buf. if length buf < n then X buf else m buf) bs a"
  by (simp add: writes_def)

lemma su_bytes: "to_le_bytes (su_high (su_from_uuid u)) @ to_le_bytes (su_low (su_from_uuid u)) = uuid_bytes u"
  by (simp add: su_from_uuid_def to_from_le_bytes)

lemma writes_su: "writes 0 (su_encode (su_from_uuid u)) (uuid_bytes u) ()"
  unfolding su_encode_def [abs_def] su_bytes [symmetric]
  by (rule writes_guard, rule writes_then [OF writes_put _ writes_put]) simp_all

lemma writes_uuid [writes_intros]: "writes off (put_uuid off u) (uuid_bytes u) ()"
  unfolding put_uuid_def by (rule writes_at [OF writes_su])

lemma uuid_bytes_nil: "uuid_bytes 0 = replicate 16 0"
proof -
  have "le_of_nat k 0 = replicate k 0" for k by (induction k) auto
  then show ?thesis by (simp add: uuid_bytes_def)
qed

lemma writes_rfq_id [writes_intros]: "writes off (put_rfq_id off u) (rfq_id_bytes u) ()"
  by (cases u) (auto simp: put_rfq_id_def rfq_id_bytes_def uuid_bytes_nil intro: writes_intros)

lemma writes_sd: "writes 0 (sd_encode (sd_from_decimal D d)) (sd_bytes D d) ()"
  unfolding sd_encode_def [abs_def] sd_bytes_def
  by (rule writes_guard, rule writes_then [OF writes_put _ writes_put]) simp_all

lemma writes_decimal [writes_intros]: "writes off (put_decimal D off d) (sd_bytes D d) ()"
  unfolding put_decimal_def by (rule writes_at [OF writes_sd])

lemma writes_u64 [writes_intros]: "writes off (put_u64 off w) (to_le_bytes w) ()"
  unfolding put_u64_def by (rule writes_put)

lemma writes_header [writes_intros]: "writes 0 (encode_header b t) (header_bytes b t) ()"
  unfolding encode_header_def [abs_def] header_bytes_def
  by (rule writes_guard, rule writes_then [OF writes_put _ writes_then [OF writes_put _
        writes_then [OF writes_put _ writes_put]]]) simp_all

lemma writes_var [writes_intros]: "writes 0 (encode_var_string s) (var_bytes s) (4 + length s)"
proof -
  have "writes 0 (pop_then (put_bytes 0 (to_le_bytes (of_nat (length s) :: u32)))
      (\<lambda>_. pop_then (put_bytes 4 (str_bytes s)) (\<lambda>_. pop_ret (4 + length s))))
    (to_le_bytes (of_nat (length s) :: u32) @ str_bytes s @ []) (4 + length s)"
    by (rule writes_then [OF writes_put _ writes_then [OF writes_put _ writes_ret]]) simp_all
  then show ?thesis
    unfolding encode_var_string_def [abs_def] var_bytes_def Let_def
    by (intro writes_guard) simp_all
qed

lemma writes_fee [writes_intros]: "writes 0 (encode_optional_fee D f) (fee_bytes D f) ()"
proof (cases f)
  case None
  have "writes 0 (pop_then (put_bytes 0 [0]) (\<lambda>_. put_bytes 1 (replicate 9 0)))
      ([0] @ replicate 9 (0 :: u8)) ()"
    by (rule writes_then [OF writes_put _ writes_put]) simp
  then show ?thesis
    unfolding encode_optional_fee_def [abs_def] fee_bytes_def None option.case
    by (intro writes_guard) (simp_all add: eval_nat_numeral)
next
  case (Some d)
  have "writes 0 (pop_then (put_bytes 0 [1]) (\<lambda>_. at_offset 1 (sd_encode (sd_from_decimal D d))))
      ([1] @ sd_bytes D d) ()"
    by (rule writes_then [OF writes_put _ writes_at [OF writes_sd]]) simp
  then show ?thesis
    unfolding encode_optional_fee_def [abs_def] fee_bytes_def Some option.case
    by (intro writes_guard) simp_all
qed

lemma writes_sized: "writes 0 m bs a \<Longrightarrow> length bs = n \<Longrightarrow> writes 0 (sized n m) bs a"
  unfolding sized_def [abs_def] by (rule writes_guard) simp_all

lemma rc_bytes_length [simp]: "length (rc_bytes D e) = rc_encoded_size e"
  by (simp add: rc_bytes_def rc_encoded_size_def)

lemma qr_bytes_length [simp]: "length (qr_bytes D e) = qr_encoded_size e"
  by (simp add: qr_bytes_def qr_encoded_size_def)

lemma te_bytes_length [simp]: "length (te_bytes D e) = te_encoded_size e"
  by (simp add: te_bytes_def te_encoded_size_def)

lemma writes_last:
  assumes "writes off m bs a" "off' = off" "f a = pop_ret b"
  shows "writes off' (pop_then m f) bs b"
  using assms by (auto simp: writes_def pop_then_def pop_ret_def)

lemmas writes_var_then = writes_then [OF writes_at [OF writes_var]]
lemmas writes_var_last = writes_last [OF writes_at [OF writes_var]]
lemmas writes_header_then = writes_then [OF writes_at [OF writes_header]]

lemma writes_rc: "writes 0 (rc_encode D e) (rc_bytes D e) (rc_encoded_size e)"
  unfolding rc_encode_def rc_bytes_def
  apply (rule writes_sized, rule writes_header_then, simp)
   apply (rule writes_then, rule writes_uuid, simp)
   apply (rule writes_then, rule writes_rfq_id, simp)
   apply (rule writes_then, rule writes_put, simp)
   apply (rule writes_then, rule writes_decimal, simp)
   apply (rule writes_then, rule writes_u64, simp)
   apply (rule writes_then, rule writes_u64, simp)
   apply (rule writes_var_then, simp)
   apply (rule writes_var_last)
   apply (simp_all add: rc_encoded_size_def add.assoc)
  done

lemma writes_qr: "writes 0 (qr_encode D e) (qr_bytes D e) (qr_encoded_size e)"
  unfolding qr_encode_def qr_bytes_def
  apply (rule writes_sized, rule writes_header_then, simp)
   apply (rule writes_then, rule writes_uuid, simp)
   apply (rule writes_then, rule writes_rfq_id, simp)
   apply (rule writes_then, rule writes_uuid, simp)
   apply (rule writes_then, rule writes_decimal, simp)
   apply (rule writes_then, rule writes_decimal, simp)
   apply (rule writes_then, rule writes_u64, simp)
   apply (rule writes_then, rule writes_u64, simp)
   apply (rule writes_var_last)
   apply (simp_all add: qr_encoded_size_def)
  done

lemma writes_te: "writes 0 (te_encode D e) (te_bytes D e) (te_encoded_size e)"
  unfolding te_encode_def te_bytes_def
  apply (rule writes_sized, rule writes_header_then, simp)
   apply (rule writes_then, rule writes_uuid, simp)
   apply (rule writes_then, rule writes_rfq_id, simp)
   apply (rule writes_then, rule writes_uuid, simp)
   apply (rule writes_then, rule writes_uuid, simp)
   apply (rule writes_then, rule writes_decimal, simp)
   apply (rule writes_then, rule writes_decimal, simp)
   apply (rule writes_then, rule writes_u64, simp)
   apply (rule writes_then, rule writes_at, rule writes_fee, simp)
   apply (rule writes_then, rule writes_at, rule writes_fee, simp)
   apply (rule writes_then, rule writes_at, rule writes_fee, simp)
   apply (rule writes_then, rule writes_put, simp)
   apply (rule writes_var_then, simp)
   apply (rule writes_var_last)
   apply (simp_all add: te_encoded_size_def add.assoc)
  done

section \<open>Reading it back\<close>

lemma uuid_from_to_bytes: "uuid_from_bytes (uuid_bytes u) = u"
proof -
  have "unat u < 2 ^ LENGTH(128)" by (rule unsigned_less)
  then have "nat_of_le (le_of_nat 16 (unat u)) = unat u" by (simp add: nat_of_le_of_nat)
  then show ?thesis by (simp add: uuid_from_bytes_def uuid_bytes_def)
qed

lemma uuid_to_from_bytes: "length bs = 16 \<Longrightarrow> uuid_bytes (uuid_from_bytes bs) = bs"
proof -
  assume len: "length bs = 16"
  then have "nat_of_le (rev bs) < 2 ^ LENGTH(128)" using nat_of_le_less [of "rev bs"] by simp
  then show ?thesis
    using le_of_nat_of_le [of "rev bs"] len
    by (simp add: uuid_from_bytes_def uuid_bytes_def unat_of_nat_small)
qed

lemma su_roundtrip [simp]: "su_to_uuid (su_from_uuid u) = u"
  unfolding su_to_uuid_def su_bytes by (rule uuid_from_to_bytes)

lemma su_decode_bytes [simp]: "su_decode (uuid_bytes u @ rest) = Ret (su_from_uuid u)"
  by (simp add: su_decode_def su_from_uuid_def)

lemma uuid_at_bytes:
  "off \<le> length buf \<Longrightarrow> drop off buf = uuid_bytes u @ rest \<Longrightarrow> uuid_at off buf = Ret u"
  by (simp add: uuid_at_def slice_from_def)

lemma rfq_id_at_bytes:
  "off \<le> length buf \<Longrightarrow> drop off buf = rfq_id_bytes u @ rest \<Longrightarrow>
    uuid_at off buf = Ret (case u of Some u \<Rightarrow> u | None \<Rightarrow> 0)"
  unfolding rfq_id_bytes_def by (rule uuid_at_bytes)

text \<open>A decimal the encoding is made for: a mantissa of 64 bits and a proper scale.\<close>

definition dec_fits :: "'d dec \<Rightarrow> 'd \<Rightarrow> bool" where
  "dec_fits D d \<longleftrightarrow> - (2 ^ 63) \<le> dmantissa D d \<and> dmantissa D d < 2 ^ 63 \<and> dscale D d \<le> 28
     \<and> dnew D (dmantissa D d) (dscale D d) = Some d"

lemma sint_small_u64: "- (2 ^ 63) \<le> n \<Longrightarrow> n < 2 ^ 63 \<Longrightarrow> sint (word_of_int n :: u64) = n"
  by (simp add: signed_of_int signed_take_bit_int_eq_self)

lemma exponent_of_scale:
  assumes "k \<le> 28"
  shows "sint (- of_nat k :: u8) = - int k" "unat (scast (of_nat k :: u8) :: u32) = k"
proof -
  have "sint (word_of_int (- int k) :: u8) = - int k"
    unfolding signed_of_int using assms by (subst signed_take_bit_int_eq_self) simp_all
  moreover have "(word_of_int (- int k) :: u8) = - of_nat k" by simp
  ultimately show "sint (- of_nat k :: u8) = - int k" by (simp only:)
  have "sint (of_nat k :: u8) = int k"
    using assms by (simp add: signed_of_nat signed_take_bit_int_eq_self)
  then have "(scast (of_nat k :: u8) :: u32) = of_nat k" by (simp add: scast_eq)
  then show "unat (scast (of_nat k :: u8) :: u32) = k"
    using assms by (simp add: unat_of_nat_small)
qed

lemma sd_roundtrip: "dec_fits D d \<Longrightarrow> sd_to_decimal D (sd_from_decimal D d) = Ret d"
  by (simp add: sd_to_decimal_def sd_from_decimal_def dec_fits_def exponent_of_scale sint_small_u64)

lemma sd_decode_bytes [simp]: "sd_decode (sd_bytes D d @ rest) = Ret (sd_from_decimal D d)"
  by (simp add: sd_decode_def sd_bytes_def nth_append)

lemma decimal_at_bytes:
  "off \<le> length buf \<Longrightarrow> drop off buf = sd_bytes D d @ rest \<Longrightarrow> dec_fits D d \<Longrightarrow> decimal_at D off buf = Ret d"
  by (simp add: decimal_at_def slice_from_def sd_roundtrip)

lemma price_at_bytes:
  "off \<le> length buf \<Longrightarrow> drop off buf = sd_bytes D (price_get p) @ rest \<Longrightarrow> dec_fits D (price_get p)
    \<Longrightarrow> \<not> dneg_sign D (price_get p) \<Longrightarrow> price_at D off buf = Ret p"
  by (cases p) (simp add: price_at_def decimal_at_bytes as_decimal_error_def price_from_decimal_def)

lemma quantity_at_bytes:
  "off \<le> length buf \<Longrightarrow> drop off buf = sd_bytes D (quantity_get q) @ rest \<Longrightarrow> dec_fits D (quantity_get q)
    \<Longrightarrow> \<not> dneg_sign D (quantity_get q) \<Longrightarrow> quantity_at D off buf = Ret q"
  by (cases q) (simp add: quantity_at_def decimal_at_bytes as_decimal_error_def quantity_from_decimal_def)

lemma fee_bytes_decode:
  "(\<forall>d. fee = Some d \<longrightarrow> dec_fits D d) \<Longrightarrow> decode_optional_fee D (fee_bytes D fee @ rest) = Ret fee"
  by (cases fee) (simp_all add: decode_optional_fee_def fee_bytes_def sd_roundtrip nth_append)

text \<open>A time stamp that survives: in the range of an \<open>i64\<close>, and not between seconds before 1970.\<close>

definition ts_fits :: "timestamp \<Rightarrow> bool" where
  "ts_fits t \<longleftrightarrow> - (2 ^ 63) \<le> t \<and> t < 2 ^ 63 \<and> (0 \<le> t \<or> 1000000000 dvd t)"

lemma ts_from_nanos_fits: "0 \<le> n \<or> 1000000000 dvd n \<Longrightarrow> ts_from_nanos n = Some n"
proof -
  assume "0 \<le> n \<or> 1000000000 dvd n"
  then have eq: "trunc_mod n 1000000000 = n mod 1000000000 \<and> trunc_div n 1000000000 = n div 1000000000"
  proof
    assume "0 \<le> n"
    then show ?thesis by (cases "n = 0") (simp_all add: trunc_mod_def trunc_div_def minus_mult_div_eq_mod)
  next
    assume "1000000000 dvd n"
    then obtain k where "n = 1000000000 * k" by (rule dvdE)
    then show ?thesis by (simp add: trunc_mod_def trunc_div_def abs_mult sgn_mult mult_sgn_abs)
  qed
  have "uint (word_of_int (n mod 1000000000) :: u32) = n mod 1000000000"
    using pos_mod_bound [of 1000000000 n] pos_mod_sign [of 1000000000 n]
    by (simp add: uint_word_of_int mod_pos_pos_trivial take_bit_int_eq_self)
  then show ?thesis using eq by (simp add: ts_from_nanos_def Let_def)
qed

lemma ts_nanos_fits: "ts_fits t \<Longrightarrow> sint (ts_nanos t) = t"
  by (simp add: ts_fits_def ts_nanos_def s_checked_def sint_small_u64)

lemma ts_at_bytes:
  "off + 8 \<le> length buf \<Longrightarrow> drop off buf = to_le_bytes (ts_nanos t) @ rest \<Longrightarrow> ts_fits t
    \<Longrightarrow> ts_at off what buf = Ret t"
  by (simp add: ts_at_def u64_at_def slice_def ts_nanos_fits)
    (simp add: ts_fits_def ts_from_nanos_fits)

text \<open>A Rust string of less than 4 GiB.\<close>

definition str_fits :: "string \<Rightarrow> bool" where
  "str_fits s \<longleftrightarrow> length s < 2 ^ 32 \<and> utf8_valid (str_bytes s)"

lemma decode_var_bytes: "str_fits s \<Longrightarrow> decode_var_string (var_bytes s @ rest) = Ret (s, 4 + length s)"
  by (simp add: decode_var_string_def var_bytes_def str_fits_def unat_of_nat_small Let_def)

lemma var_string_at_bytes:
  "off \<le> length buf \<Longrightarrow> drop off buf = var_bytes s @ rest \<Longrightarrow> str_fits s
    \<Longrightarrow> var_string_at off buf = Ret (s, 4 + length s)"
  by (simp add: var_string_at_def slice_from_def decode_var_bytes)

lemma var_string_at_append:
  "length pre = off \<Longrightarrow> str_fits s
    \<Longrightarrow> var_string_at off (pre @ var_bytes s @ rest) = Ret (s, 4 + length s)"
  by (rule var_string_at_bytes) simp_all

lemma header_bytes_decode [simp]: "decode_header (header_bytes b t @ rest) = Ret (b, t, 1, 2)"
  by (simp add: decode_header_def header_bytes_def)

lemma order_side_roundtrip [simp]: "decode_order_side (encode_order_side s) = Ret s"
  by (cases s) (simp_all add: decode_order_side_def encode_order_side_def)

lemma settlement_roundtrip:
  "decode_settlement_method (encode_settlement_method m ! 0) (encode_settlement_method m ! 1) = Ret m"
  by (cases m) (simp_all add: decode_settlement_method_def encode_settlement_method_def)

section \<open>Messages\<close>

text \<open>
  What a decoded event keeps of the encoded one: an absent RFQ identifier comes back as the
  nil UUID, the schema version is reset, and the instrument is rebuilt from its symbol with
  the defaults of a spot instrument.
\<close>

definition em_view :: "event_metadata \<Rightarrow> event_metadata" where
  "em_view m = em_for_rfq (em_event_id m) (case em_rfq_id m of Some u \<Rightarrow> u | None \<Rightarrow> 0) (em_timestamp m)"

definition rc_view :: "'d rfq_created \<Rightarrow> 'd rfq_created" where
  "rc_view e = e\<lparr> rc_metadata := em_view (rc_metadata e),
     rc_instrument := instrument_default_build (ins_symbol (rc_instrument e)) CryptoSpot \<rparr>"

definition qr_view :: "'d quote_received \<Rightarrow> 'd quote_received" where
  "qr_view e = e\<lparr> qr_metadata := em_view (qr_metadata e) \<rparr>"

definition te_view :: "'d trade_executed \<Rightarrow> 'd trade_executed" where
  "te_view e = e\<lparr> te_metadata := em_view (te_metadata e) \<rparr>"

definition price_fits :: "'d dec \<Rightarrow> 'd price \<Rightarrow> bool" where
  "price_fits D p \<longleftrightarrow> dec_fits D (price_get p) \<and> \<not> dneg_sign D (price_get p)"

definition quantity_fits :: "'d dec \<Rightarrow> 'd quantity \<Rightarrow> bool" where
  "quantity_fits D q \<longleftrightarrow> dec_fits D (quantity_get q) \<and> \<not> dneg_sign D (quantity_get q)"

definition fee_fits :: "'d dec \<Rightarrow> 'd option \<Rightarrow> bool" where
  "fee_fits D f \<longleftrightarrow> (\<forall>d. f = Some d \<longrightarrow> dec_fits D d)"

definition rc_fits :: "'d dec \<Rightarrow> 'd rfq_created \<Rightarrow> bool" where
  "rc_fits D e \<longleftrightarrow> quantity_fits D (rc_quantity e) \<and> ts_fits (rc_expires_at e)
     \<and> ts_fits (em_timestamp (rc_metadata e)) \<and> str_fits (rc_client_id e)
     \<and> symbol_wf (ins_symbol (rc_instrument e)) \<and> length (sym_value (ins_symbol (rc_instrument e))) < 2 ^ 32"

definition qr_fits :: "'d dec \<Rightarrow> 'd quote_received \<Rightarrow> bool" where
  "qr_fits D e \<longleftrightarrow> price_fits D (qr_price e) \<and> quantity_fits D (qr_quantity e)
     \<and> ts_fits (qr_valid_until e) \<and> ts_fits (em_timestamp (qr_metadata e)) \<and> str_fits (qr_venue_id e)"

definition te_fits :: "'d dec \<Rightarrow> 'd trade_executed \<Rightarrow> bool" where
  "te_fits D e \<longleftrightarrow> price_fits D (te_price e) \<and> quantity_fits D (te_quantity e)
     \<and> ts_fits (em_timestamp (te_metadata e)) \<and> fee_fits D (te_taker_fee e)
     \<and> fee_fits D (te_maker_fee e) \<and> fee_fits D (te_net_fee e)
     \<and> str_fits (te_venue_id e) \<and> str_fits (te_counterparty_id e)"

lemma is_alnum_ascii: "is_alnum c \<Longrightarrow> (of_char c :: nat) < 128"
  by (auto simp: is_alnum_def is_lower_def is_upper_def is_digit_def code_def)

lemma symbol_wf_fits: "symbol_wf s \<Longrightarrow> length (sym_value s) < 2 ^ 32 \<Longrightarrow> str_fits (sym_value s)"
  unfolding str_fits_def
  by (intro conjI utf8_valid_ascii)
    (auto simp: symbol_wf_def asset_name_def separator_def, (meson is_alnum_ascii)+)

lemma rc_decode_bytes:
  assumes "rc_fits D e"
  shows "rc_decode D (rc_bytes D e @ rest) = Ret (rc_view e)"
proof -
  note fits = assms [unfolded rc_fits_def quantity_fits_def]
  have s: "str_fits (sym_value (ins_symbol (rc_instrument e)))"
    using fits by (intro symbol_wf_fits) simp_all
  let ?pre = "header_bytes 58 1 @ uuid_bytes (em_event_id (rc_metadata e))
     @ rfq_id_bytes (em_rfq_id (rc_metadata e)) @ [encode_order_side (rc_side e)]
     @ sd_bytes D (quantity_get (rc_quantity e)) @ to_le_bytes (ts_nanos (rc_expires_at e))
     @ to_le_bytes (ts_nanos (em_timestamp (rc_metadata e))) @ var_bytes (rc_client_id e)"
  have v: "var_string_at (70 + length (rc_client_id e))
      (?pre @ var_bytes (sym_value (ins_symbol (rc_instrument e))) @ rest)
    = Ret (sym_value (ins_symbol (rc_instrument e)), 4 + length (sym_value (ins_symbol (rc_instrument e))))"
    by (rule var_string_at_append [OF _ s]) simp
  show ?thesis
    unfolding rc_decode_def rc_bytes_def
    using fits v
    by (simp add: uuid_at_bytes rfq_id_at_bytes byte_at_def nth_append quantity_at_bytes ts_at_bytes
        var_string_at_bytes symbol_wf_reparses rc_view_def em_view_def)
qed

lemma qr_decode_bytes: "qr_fits D e \<Longrightarrow> qr_decode D (qr_bytes D e @ rest) = Ret (qr_view e)"
  unfolding qr_decode_def qr_bytes_def qr_fits_def quantity_fits_def price_fits_def
  by (simp add: uuid_at_bytes rfq_id_at_bytes price_at_bytes quantity_at_bytes ts_at_bytes
      var_string_at_bytes qr_view_def em_view_def)

lemma te_decode_v2_bytes:
  assumes "drop 98 buf = fee_bytes D a @ fee_bytes D b @ fee_bytes D c @ encode_settlement_method m @ rest"
    "98 \<le> length buf" "fee_fits D a" "fee_fits D b" "fee_fits D c"
  shows "te_decode_v2 D 2 buf = Ret (a, b, c, m)"
proof -
  have split: "drop (98 + k) buf
      = drop k (fee_bytes D a @ fee_bytes D b @ fee_bytes D c @ encode_settlement_method m @ rest)" for k
    by (simp add: assms(1) flip: drop_drop [of k 98] add.commute)
  have "length (drop 98 buf) = 32 + length rest" by (simp add: assms(1))
  then have len: "length buf = 130 + length rest" using assms(2) by simp
  have nth: "buf ! (98 + k)
      = (fee_bytes D a @ fee_bytes D b @ fee_bytes D c @ encode_settlement_method m @ rest) ! k" for k
    using assms(2) by (simp add: nth_drop [of 98 buf k, unfolded assms(1), symmetric])
  have m: "buf ! 128 = encode_settlement_method m ! 0" "buf ! 129 = encode_settlement_method m ! 1"
    using nth [of 30] nth [of 31] by (simp_all add: nth_append)
  show ?thesis
    using assms(3-5) split [of 10] split [of 20] m settlement_roundtrip [of m]
    by (simp add: te_decode_v2_def slice_from_def assms(1) len fee_bytes_decode fee_fits_def)
qed

lemma te_decode_bytes: "te_fits D e \<Longrightarrow> te_decode D (te_bytes D e @ rest) = Ret (te_view e)"
  unfolding te_decode_def te_bytes_def te_fits_def quantity_fits_def price_fits_def
  by (simp add: uuid_at_bytes rfq_id_at_bytes price_at_bytes quantity_at_bytes ts_at_bytes
      te_decode_v2_bytes var_string_at_bytes te_view_def em_view_def)

section \<open>The contract of \<open>SbeEncode\<close> and \<open>SbeDecode\<close>\<close>

text \<open>
  An encoder refuses a buffer smaller than its size without touching it and otherwise writes
  a message of exactly that size; the decoder recovers the view of an event that fits,
  whatever follows the message.
\<close>

locale sbe_codec =
  fixes encoded_size :: "'e \<Rightarrow> nat"
    and encode :: "'e \<Rightarrow> nat sbe_write"
    and decode :: "bytes \<Rightarrow> 'v reads"
    and message :: "'e \<Rightarrow> bytes"
    and fits :: "'e \<Rightarrow> bool"
    and view :: "'e \<Rightarrow> 'v"
  assumes too_small: "length buf < encoded_size e \<Longrightarrow>
      encode e buf = (Err (BufferTooSmall (encoded_size e) (length buf)), buf)"
    and writes_message: "writes 0 (encode e) (message e) (encoded_size e)"
    and message_size: "length (message e) = encoded_size e"
    and decode_message: "fits e \<Longrightarrow> decode (message e @ rest) = Ret (view e)"
begin

lemma encode_ok:
  "encoded_size e \<le> length buf \<Longrightarrow> encode e buf = (Ret (encoded_size e), message e @ drop (encoded_size e) buf)"
  using writes_apply [OF writes_message, of e buf] by (simp add: message_size)

lemma encode_never_panics: "fst (encode e buf) \<noteq> Panic"
  using too_small [of buf e] encode_ok [of e buf] by (cases "length buf < encoded_size e") auto

lemma encode_decode:
  "encoded_size e \<le> length buf \<Longrightarrow> fits e \<Longrightarrow>
    fst (encode e buf) = Ret (encoded_size e) \<and> decode (snd (encode e buf)) = Ret (view e)
    \<and> length (snd (encode e buf)) = length buf"
  by (simp add: encode_ok decode_message message_size)

lemma to_vec: "encode_to_vec encoded_size encode e = Ret (message e)"
  by (simp add: encode_to_vec_def encode_ok)

text \<open>Messages one after the other in a buffer, each decoded where the last one ended.\<close>

lemma stream_next:
  "fits e \<Longrightarrow> decode (drop (encoded_size e') (message e' @ message e @ rest)) = Ret (view e)"
  by (simp add: message_size [symmetric] decode_message)

end

lemma sized_too_small:
  "length buf < n \<Longrightarrow> sized n m buf = (Err (BufferTooSmall n (length buf)), buf)"
  by (simp add: sized_def)

interpretation rc: sbe_codec rc_encoded_size "rc_encode D" "rc_decode D" "rc_bytes D" "rc_fits D" rc_view
  for D
  by unfold_locales
    (simp_all add: writes_rc rc_decode_bytes, simp add: rc_encode_def sized_too_small)

interpretation qr: sbe_codec qr_encoded_size "qr_encode D" "qr_decode D" "qr_bytes D" "qr_fits D" qr_view
  for D
  by unfold_locales
    (simp_all add: writes_qr qr_decode_bytes, simp add: qr_encode_def sized_too_small)

interpretation te: sbe_codec te_encoded_size "te_encode D" "te_decode D" "te_bytes D" "te_fits D" te_view
  for D
  by unfold_locales
    (simp_all add: writes_te te_decode_bytes, simp add: te_encode_def sized_too_small)

section \<open>Properties\<close>

definition sample_metadata :: event_metadata where
  "sample_metadata = \<lparr> em_event_id = 1, em_rfq_id = Some 2, em_timestamp = 1000,
     em_schema_version = (1, 0, 0) \<rparr>"

definition sample_rfq_created :: "int rfq_created" where
  "sample_rfq_created = \<lparr> rc_metadata = sample_metadata, rc_client_id = ''ACME'',
     rc_instrument = instrument_default_build \<lparr> sym_value = ''BTC/USD'', sym_separator_index = 3 \<rparr> CryptoSpot,
     rc_side = Sell, rc_quantity = Quantity 5, rc_expires_at = 2000 \<rparr>"

definition sample_quote_received :: "int quote_received" where
  "sample_quote_received = \<lparr> qr_metadata = sample_metadata, qr_quote_id = 3, qr_venue_id = ''V1'',
     qr_price = Price 100, qr_quantity = Quantity 5, qr_valid_until = 2000 \<rparr>"

definition sample_trade_executed :: "int trade_executed" where
  "sample_trade_executed = \<lparr> te_metadata = sample_metadata, te_trade_id = 4, te_quote_id = 3,
     te_venue_id = ''V1'', te_counterparty_id = ''ACME'', te_price = Price 100, te_quantity = Quantity 5,
     te_settlement_method = OnChain Polygon, te_taker_fee = Some 3, te_maker_fee = Some (- 1),
     te_net_fee = None \<rparr>"

lemma whole_dec_fits: "- (2 ^ 63) \<le> d \<Longrightarrow> d < 2 ^ 63 \<Longrightarrow> dec_fits whole_dec d"
  by (simp add: dec_fits_def)

lemma str_fits_sample: "str_fits ''ACME''" "str_fits ''V1''"
  by (simp_all add: str_fits_def utf8_valid_ascii)

text \<open>
  C36. Round trip of \<open>RfqCreated\<close> in place: into any buffer of at least the encoded size, with
  anything behind the message, \<open>encode\<close> succeeds with that size and \<open>decode\<close> of the buffer
  gives an event with the same client, symbol, side, quantity, expiry, event identifier, time stamp and RFQ. It is the very
  event where the instrument is a spot instrument with the defaults and the metadata are those of an event of an RFQ: the format
  carries neither the asset class, the settlement method and the other attributes of the instrument nor a schema version.
\<close>
theorem rfq_created_roundtrip:
  assumes "rc_encoded_size e \<le> length buf" "rc_fits D e"
  shows "fst (rc_encode D e buf) = Ret (rc_encoded_size e)
    \<and> length (snd (rc_encode D e buf)) = length buf
    \<and> (\<exists>e'. rc_decode D (snd (rc_encode D e buf)) = Ret e'
        \<and> rc_client_id e' = rc_client_id e \<and> ins_symbol (rc_instrument e') = ins_symbol (rc_instrument e)
        \<and> rc_side e' = rc_side e \<and> rc_quantity e' = rc_quantity e \<and> rc_expires_at e' = rc_expires_at e
        \<and> em_event_id (rc_metadata e') = em_event_id (rc_metadata e)
        \<and> em_timestamp (rc_metadata e') = em_timestamp (rc_metadata e)
        \<and> (em_rfq_id (rc_metadata e) \<noteq> None \<longrightarrow> em_rfq_id (rc_metadata e') = em_rfq_id (rc_metadata e))
        \<and> (rc_instrument e = instrument_default_build (ins_symbol (rc_instrument e)) CryptoSpot
           \<and> (\<exists>event i now. rc_metadata e = em_for_rfq event i now) \<longrightarrow> e' = e))"
proof -
  have same: "rc_view e = e" if "rc_instrument e = instrument_default_build (ins_symbol (rc_instrument e)) CryptoSpot"
      "rc_metadata e = em_for_rfq event i now" for event i now
    using that by (cases e) (simp add: rc_view_def em_view_def em_for_rfq_def)
  have view: "rc_client_id (rc_view e) = rc_client_id e" "ins_symbol (rc_instrument (rc_view e)) = ins_symbol (rc_instrument e)"
      "rc_side (rc_view e) = rc_side e" "rc_quantity (rc_view e) = rc_quantity e" "rc_expires_at (rc_view e) = rc_expires_at e"
      "em_event_id (rc_metadata (rc_view e)) = em_event_id (rc_metadata e)"
      "em_timestamp (rc_metadata (rc_view e)) = em_timestamp (rc_metadata e)"
      "em_rfq_id (rc_metadata e) \<noteq> None \<longrightarrow> em_rfq_id (rc_metadata (rc_view e)) = em_rfq_id (rc_metadata e)"
    by (auto simp: rc_view_def em_view_def em_for_rfq_def instrument_default_build_def)
  show ?thesis
    using rc.encode_decode [OF assms] view same by blast
qed

lemma sample_rfq_created_fits: "rc_fits whole_dec sample_rfq_created"
proof -
  have "symbol_wf \<lparr> sym_value = ''BTC/USD'', sym_separator_index = 3 \<rparr>"
    unfolding symbol_wf_def
    by (intro exI [of _ "''BTC''"] exI [of _ "''USD''"])
      (simp add: asset_name_def is_alnum_def is_lower_def is_upper_def code_def separator_def)
  then show ?thesis
    by (simp add: rc_fits_def sample_rfq_created_def sample_metadata_def quantity_fits_def
        whole_dec_fits ts_fits_def str_fits_sample instrument_default_build_def)
qed

lemma rfq_created_roundtrip_witness:
  "rc_decode whole_dec (snd (rc_encode whole_dec sample_rfq_created (replicate 100 7)))
     = Ret sample_rfq_created"
proof -
  have room: "rc_encoded_size sample_rfq_created \<le> length (replicate 100 (7 :: u8))"
    by (simp add: rc_encoded_size_def sample_rfq_created_def instrument_default_build_def)
  have "rc_instrument sample_rfq_created = instrument_default_build (ins_symbol (rc_instrument sample_rfq_created)) CryptoSpot"
    by (simp add: sample_rfq_created_def instrument_default_build_def)
  moreover have "rc_metadata sample_rfq_created = em_for_rfq (em_event_id sample_metadata)
      (the (em_rfq_id sample_metadata)) (em_timestamp sample_metadata)"
    by (simp add: sample_rfq_created_def sample_metadata_def em_for_rfq_def)
  ultimately show ?thesis
    using rfq_created_roundtrip [OF room sample_rfq_created_fits] by blast
qed

text \<open>
  Round trip of \<open>QuoteReceived\<close> in place, as for \<open>RfqCreated\<close>.
\<close>
theorem quote_received_roundtrip:
  assumes "qr_encoded_size e \<le> length buf" "qr_fits D e"
  shows "fst (qr_encode D e buf) = Ret (qr_encoded_size e)
    \<and> qr_decode D (snd (qr_encode D e buf)) = Ret (qr_view e)
    \<and> length (snd (qr_encode D e buf)) = length buf"
  by (rule qr.encode_decode [OF assms])

lemma quote_received_roundtrip_witness:
  "qr_decode whole_dec (snd (qr_encode whole_dec sample_quote_received (replicate 96 0)))
     = Ret (qr_view sample_quote_received)"
  by (rule quote_received_roundtrip [THEN conjunct2, THEN conjunct1])
    (simp_all add: qr_encoded_size_def sample_quote_received_def qr_fits_def sample_metadata_def
      price_fits_def quantity_fits_def whole_dec_fits ts_fits_def str_fits_sample)

text \<open>
  Round trip of \<open>TradeExecuted\<close> in place, with its optional fees and settlement method.
\<close>
theorem trade_executed_roundtrip:
  assumes "te_encoded_size e \<le> length buf" "te_fits D e"
  shows "fst (te_encode D e buf) = Ret (te_encoded_size e)
    \<and> te_decode D (snd (te_encode D e buf)) = Ret (te_view e)
    \<and> length (snd (te_encode D e buf)) = length buf"
  by (rule te.encode_decode [OF assms])

lemma trade_executed_roundtrip_witness:
  "te_decode whole_dec (snd (te_encode whole_dec sample_trade_executed (replicate 150 9)))
     = Ret (te_view sample_trade_executed)"
  by (rule trade_executed_roundtrip [THEN conjunct2, THEN conjunct1])
    (simp_all add: te_encoded_size_def sample_trade_executed_def te_fits_def sample_metadata_def
      price_fits_def quantity_fits_def fee_fits_def whole_dec_fits ts_fits_def str_fits_sample)

text \<open>
  Encoding is total and all-or-nothing: for each of the three messages it never panics,
  and on a buffer that is too small it reports the size needed and leaves the buffer as it
  was.
\<close>
theorem sbe_encode_total:
  "(fst (rc_encode D e buf) \<noteq> Panic \<and> fst (qr_encode D q buf) \<noteq> Panic \<and> fst (te_encode D t buf) \<noteq> Panic)
   \<and> (length buf < rc_encoded_size e \<longrightarrow>
     rc_encode D e buf = (Err (BufferTooSmall (rc_encoded_size e) (length buf)), buf))
   \<and> (length buf < qr_encoded_size q \<longrightarrow>
     qr_encode D q buf = (Err (BufferTooSmall (qr_encoded_size q) (length buf)), buf))
   \<and> (length buf < te_encoded_size t \<longrightarrow>
     te_encode D t buf = (Err (BufferTooSmall (te_encoded_size t) (length buf)), buf))"
  by (intro conjI impI rc.encode_never_panics qr.encode_never_panics te.encode_never_panics
      rc.too_small qr.too_small te.too_small)

lemma sbe_encode_total_witness:
  "qr_encode whole_dec sample_quote_received [1, 2, 3] = (Err (BufferTooSmall 96 3), [1, 2, 3])"
  using sbe_encode_total [of whole_dec sample_rfq_created "[1, 2, 3]" sample_quote_received sample_trade_executed]
  by (simp add: qr_encoded_size_def sample_quote_received_def)

text \<open>
  A decimal whose mantissa does not fit 64 bits is silently changed: two decimals of the
  same scale whose mantissas agree modulo \<open>2^64\<close> have the same encoding, so at most one of
  them is decoded back.
\<close>
theorem sbe_decimal_truncates:
  assumes "dscale D a = dscale D b" "dmantissa D a mod 2 ^ 64 = dmantissa D b mod 2 ^ 64"
  shows "sd_from_decimal D a = sd_from_decimal D b"
proof -
  have "(word_of_int (dmantissa D a) :: u64) = word_of_int (dmantissa D b)"
    using assms(2) by (simp add: word_of_int_eq_iff take_bit_eq_mod)
  then show ?thesis using assms(1) by (simp add: sd_from_decimal_def)
qed

lemma sbe_decimal_truncates_witness:
  "sd_to_decimal whole_dec (sd_from_decimal whole_dec 18446744073709551617) = Ret 1"
proof -
  have "sd_from_decimal whole_dec 18446744073709551617 = sd_from_decimal whole_dec 1"
    by (rule sbe_decimal_truncates) simp_all
  then show ?thesis by (simp add: sd_roundtrip whole_dec_fits)
qed

text \<open>
  Decoding can panic on received bytes: a message with the right template identifier
  whose body ends within the fixed block before the side byte's position, after the
  identifiers, makes \<open>RfqCreated\<close>'s decoder index outside the buffer instead of
  reporting \<open>BufferTooSmall\<close>.
\<close>
theorem rfq_created_decode_panics_on_truncation:
  assumes "length body = 32"
  shows "rc_decode D (header_bytes block_length 1 @ body) = Panic"
proof -
  let ?buf = "header_bytes block_length 1 @ body"
  have "\<exists>u. uuid_at 8 ?buf = Ret u" "\<exists>u. uuid_at 24 ?buf = Ret u"
    using assms by (simp_all add: uuid_at_def slice_from_def su_decode_def)
  then obtain u v where "uuid_at 8 ?buf = Ret u" "uuid_at 24 ?buf = Ret v" by blast
  moreover have "byte_at 40 ?buf = (Panic :: u8 reads)" using assms by (simp add: byte_at_def)
  ultimately show ?thesis by (simp add: rc_decode_def)
qed

lemma rfq_created_decode_panics_on_truncation_witness:
  "rc_decode whole_dec (header_bytes 58 1 @ replicate 32 0) = Panic"
  by (rule rfq_created_decode_panics_on_truncation) simp

text \<open>
  The block length of the header is trusted: whatever well-formed fixed block precedes,
  a block length pointing behind the end of the buffer makes the decoder of
  \<open>QuoteReceived\<close> panic.
\<close>
theorem quote_received_decode_panics_on_block_length:
  assumes "qr_fits D e" "length (qr_bytes D e) < 8 + unat block_length"
  shows "qr_decode D (header_bytes block_length 2 @ drop 8 (qr_bytes D e)) = Panic"
proof -
  let ?rest = "var_bytes (qr_venue_id e)"
  note fits = assms(1) [unfolded qr_fits_def quantity_fits_def price_fits_def]
  have "(var_string_at (8 + unat block_length) (header_bytes block_length 2 @ drop 8 (qr_bytes D e)))
      = Panic"
    using assms(2) by (simp add: var_string_at_def slice_from_def qr_encoded_size_def)
  then show ?thesis
    unfolding qr_decode_def qr_bytes_def
    using fits
    by (simp add: uuid_at_bytes rfq_id_at_bytes price_at_bytes quantity_at_bytes ts_at_bytes
        del: obind_Ret_iff)
qed

lemma quote_received_decode_panics_on_block_length_witness:
  "qr_decode whole_dec (header_bytes 65535 2 @ drop 8 (qr_bytes whole_dec sample_quote_received)) = Panic"
  by (rule quote_received_decode_panics_on_block_length)
    (simp_all add: qr_encoded_size_def sample_quote_received_def qr_fits_def sample_metadata_def
      price_fits_def quantity_fits_def whole_dec_fits ts_fits_def str_fits_sample)

text \<open>
  A time stamp between whole seconds before 1970 is encoded but never decoded:
  \<open>from_nanos\<close> casts the negative remainder to an unsigned count above one second and
  rejects it.
\<close>
theorem negative_nanos_rejected:
  assumes "n < 0" "\<not> 1000000000 dvd n"
  shows "ts_from_nanos n = None"
proof -
  have "\<bar>n\<bar> mod 1000000000 \<noteq> 0" using assms(2) by (simp add: mod_eq_0_iff_dvd)
  moreover have "trunc_mod n 1000000000 = - (\<bar>n\<bar> mod 1000000000)"
    using assms(1) by (simp add: trunc_mod_def trunc_div_def minus_mult_div_eq_mod [symmetric])
  moreover have "0 \<le> \<bar>n\<bar> mod 1000000000" "\<bar>n\<bar> mod 1000000000 < 1000000000" by simp_all
  ultimately obtain r where r: "trunc_mod n 1000000000 = - r" "0 < r" "r < 1000000000" by force
  then have "uint (word_of_int (- r) :: u32) = 4294967296 - r"
    unfolding uint_word_of_int by (simp add: zmod_zminus1_eq_if)
  then show ?thesis using r by (simp add: ts_from_nanos_def Let_def)
qed

lemma negative_nanos_rejected_witness: "ts_from_nanos (- 1) = None"
  by (rule negative_nanos_rejected) simp_all

end
