(* ===== verification/Repositories.thy ===== *)
theory Repositories
  imports Rfq_Aggregate Trades
begin

text \<open>
  The in-memory repositories for RFQs and trades,
  \<open>src/infrastructure/persistence/in_memory/rfq_repository.rs\<close> and \<open>trade_repository.rs\<close>, with
  \<open>RepositoryError\<close> of \<open>src/infrastructure/persistence/traits.rs\<close>. The lock around the map makes
  each operation one step. The order in which a hash map is walked is not determined by its
  contents: it is an argument \<open>order\<close>, the keys in that order.

  Both repositories promise the contract \<open>versioned_store\<close>: a save is taken if the key is new
  or the version has grown, and refused otherwise.
\<close>

section \<open>Errors\<close>

datatype 'd repository_error =
    RepoNotFound string "'d msg"
  | RepoDuplicate string "'d msg"
  | RepoVersionConflict string "'d msg" u64 u64
  | RepoConnection string
  | RepoQuery string
  | RepoSerialization string
  | RepoInternal string

definition re_is_not_found :: "'d repository_error \<Rightarrow> bool" where
  "re_is_not_found e = (case e of RepoNotFound _ _ \<Rightarrow> True | _ \<Rightarrow> False)"

definition re_is_duplicate :: "'d repository_error \<Rightarrow> bool" where
  "re_is_duplicate e = (case e of RepoDuplicate _ _ \<Rightarrow> True | _ \<Rightarrow> False)"

definition re_is_version_conflict :: "'d repository_error \<Rightarrow> bool" where
  "re_is_version_conflict e = (case e of RepoVersionConflict _ _ _ _ \<Rightarrow> True | _ \<Rightarrow> False)"

text \<open>\<open>Display\<close>, as \<open>thiserror\<close> derives it.\<close>

definition re_display :: "'d repository_error \<Rightarrow> 'd msg" where
  "re_display e = (case e of
       RepoNotFound t i \<Rightarrow> Fmt ''Entity not found: {} with id {}'' [ArgStr t, ArgMsg i]
     | RepoDuplicate t i \<Rightarrow> Fmt ''Duplicate entity: {} with id {} already exists'' [ArgStr t, ArgMsg i]
     | RepoVersionConflict t i _ _ \<Rightarrow>
         Fmt ''Version conflict: {} with id {} has been modified'' [ArgStr t, ArgMsg i]
     | RepoConnection m \<Rightarrow> Fmt ''Connection error: {}'' [ArgStr m]
     | RepoQuery m \<Rightarrow> Fmt ''Query error: {}'' [ArgStr m]
     | RepoSerialization m \<Rightarrow> Fmt ''Serialization error: {}'' [ArgStr m]
     | RepoInternal m \<Rightarrow> Fmt ''Internal error: {}'' [ArgStr m])"

definition walk :: "'k list \<Rightarrow> ('k \<rightharpoonup> 'a) \<Rightarrow> ('a \<Rightarrow> bool) \<Rightarrow> 'a list" where
  "walk order S P = filter P (List.map_filter S order)"

section \<open>RFQs\<close>

type_synonym 'd rfq_store = "uuid \<rightharpoonup> 'd rfq"

definition rr_save :: "'d rfq \<Rightarrow> ('d rfq_store, 'd repository_error, unit) op" where
  "rr_save r S =
     (case S (rfq_id r) of
        Some existing \<Rightarrow>
          if rfq_version r \<le> rfq_version existing
          then (Inl (RepoVersionConflict ''Rfq'' (Fmt ''{}'' [ArgUuid (rfq_id r)])
                  (rfq_version r) (rfq_version existing)), S)
          else (Inr (), S(rfq_id r \<mapsto> r))
      | None \<Rightarrow> (Inr (), S(rfq_id r \<mapsto> r)))"

definition rr_get :: "uuid \<Rightarrow> 'd rfq_store \<Rightarrow> 'd repository_error + 'd rfq option" where
  "rr_get i S = Inr (S i)"

definition rr_find_active :: "uuid list \<Rightarrow> 'd rfq_store \<Rightarrow> 'd repository_error + 'd rfq list" where
  "rr_find_active order S = Inr (walk order S (\<lambda>r. rfq_state r \<in>
     {Created, QuoteRequesting, QuotesReceived, ClientSelecting, Executing}))"

definition rr_find_by_client ::
    "uuid list \<Rightarrow> counterparty_id \<Rightarrow> 'd rfq_store \<Rightarrow> 'd repository_error + 'd rfq list" where
  "rr_find_by_client order client S = Inr (walk order S (\<lambda>r. rfq_client_id r = client))"

definition rr_find_by_venue ::
    "uuid list \<Rightarrow> venue_id \<Rightarrow> 'd rfq_store \<Rightarrow> 'd repository_error + 'd rfq list" where
  "rr_find_by_venue order venue S =
     Inr (walk order S (\<lambda>r. list_ex (\<lambda>q. quote_venue_id q = venue) (rfq_quotes r)))"

definition rr_delete :: "uuid \<Rightarrow> ('d rfq_store, 'd repository_error, bool) op" where
  "rr_delete i S = (Inr (S i \<noteq> None), S(i := None))"

definition rr_count :: "uuid list \<Rightarrow> 'd rfq_store \<Rightarrow> 'd repository_error + u64" where
  "rr_count order S = Inr (of_nat (length (walk order S (\<lambda>_. True))))"

definition rr_count_active :: "uuid list \<Rightarrow> 'd rfq_store \<Rightarrow> 'd repository_error + u64" where
  "rr_count_active order S =
     rbind (rr_find_active order S) (\<lambda>active. Inr (of_nat (length active)))"

section \<open>Trades\<close>

type_synonym 'd trade_store = "uuid \<rightharpoonup> 'd trade"

definition tr_save :: "'d trade \<Rightarrow> ('d trade_store, 'd repository_error, unit) op" where
  "tr_save t S =
     (case S (trade_id t) of
        Some existing \<Rightarrow>
          if trade_version t \<le> trade_version existing
          then (Inl (RepoVersionConflict ''Trade'' (Fmt ''{}'' [ArgUuid (trade_id t)])
                  (trade_version t) (trade_version existing)), S)
          else (Inr (), S(trade_id t \<mapsto> t))
      | None \<Rightarrow> (Inr (), S(trade_id t \<mapsto> t)))"

definition tr_get :: "uuid \<Rightarrow> 'd trade_store \<Rightarrow> 'd repository_error + 'd trade option" where
  "tr_get i S = Inr (S i)"

definition tr_get_by_rfq ::
    "uuid list \<Rightarrow> uuid \<Rightarrow> 'd trade_store \<Rightarrow> 'd repository_error + 'd trade option" where
  "tr_get_by_rfq order rid S =
     Inr (find (\<lambda>t. trade_rfq_id t = rid) (List.map_filter S order))"

definition tr_find_by_settlement ::
    "settlement_state \<Rightarrow> uuid list \<Rightarrow> 'd trade_store \<Rightarrow> 'd repository_error + 'd trade list" where
  "tr_find_by_settlement st order S = Inr (walk order S (\<lambda>t. trade_settlement_state t = st))"

definition tr_find_pending_settlement ::
    "uuid list \<Rightarrow> 'd trade_store \<Rightarrow> 'd repository_error + 'd trade list" where
  "tr_find_pending_settlement = tr_find_by_settlement SsPending"

definition tr_find_settled ::
    "uuid list \<Rightarrow> 'd trade_store \<Rightarrow> 'd repository_error + 'd trade list" where
  "tr_find_settled = tr_find_by_settlement SsSettled"

definition tr_find_failed ::
    "uuid list \<Rightarrow> 'd trade_store \<Rightarrow> 'd repository_error + 'd trade list" where
  "tr_find_failed = tr_find_by_settlement SsFailed"

definition tr_find_by_venue ::
    "uuid list \<Rightarrow> venue_id \<Rightarrow> 'd trade_store \<Rightarrow> 'd repository_error + 'd trade list" where
  "tr_find_by_venue order venue S = Inr (walk order S (\<lambda>t. trade_venue_id t = venue))"

definition tr_delete :: "uuid \<Rightarrow> ('d trade_store, 'd repository_error, bool) op" where
  "tr_delete i S = (Inr (S i \<noteq> None), S(i := None))"

definition tr_count :: "uuid list \<Rightarrow> 'd trade_store \<Rightarrow> 'd repository_error + u64" where
  "tr_count order S = Inr (of_nat (length (walk order S (\<lambda>_. True))))"

definition tr_count_pending_settlement ::
    "uuid list \<Rightarrow> 'd trade_store \<Rightarrow> 'd repository_error + u64" where
  "tr_count_pending_settlement order S =
     rbind (tr_find_pending_settlement order S) (\<lambda>pending. Inr (of_nat (length pending)))"

section \<open>The contract\<close>

text \<open>
  What a client may rely on: \<open>look\<close> reads a key, \<open>save\<close> files an entity under its key if the
  version is newer than the stored one. Nothing else of the store changes.
\<close>

locale versioned_store =
  fixes key :: "'a \<Rightarrow> 'k" and ver :: "'a \<Rightarrow> 'v::linorder"
    and save :: "'a \<Rightarrow> ('k \<rightharpoonup> 'a, 'e, unit) op"
  assumes save_newer: "(\<And>b. S (key a) = Some b \<Longrightarrow> ver b < ver a) \<Longrightarrow> save a S = (Inr (), S(key a \<mapsto> a))"
    and save_older: "S (key a) = Some b \<Longrightarrow> ver a \<le> ver b \<Longrightarrow> \<exists>e. save a S = (Inl e, S)"
begin

lemma save_cases:
  obtains (taken) "save a S = (Inr (), S(key a \<mapsto> a))" "\<And>b. S (key a) = Some b \<Longrightarrow> ver b < ver a"
  | (refused) e b where "save a S = (Inl e, S)" "S (key a) = Some b" "ver a \<le> ver b"
proof (cases "\<forall>b. S (key a) = Some b \<longrightarrow> ver b < ver a")
  case True
  then show ?thesis using taken save_newer by metis
next
  case False
  then obtain b where "S (key a) = Some b" "ver a \<le> ver b" by (metis not_less)
  then show ?thesis using refused save_older by metis
qed

text \<open>A save that reports success can be read back; a refused one changes nothing.\<close>

lemma save_result: "fst (save a S) = Inr () \<Longrightarrow> snd (save a S) (key a) = Some a"
  by (cases rule: save_cases [of a S]) auto

text \<open>Once stored, a key stays, at this version or a later one.\<close>

lemma save_keeps_newer:
  assumes "S k = Some b"
  shows "\<exists>c. snd (save a S) k = Some c \<and> ver b \<le> ver c"
  using assms by (cases rule: save_cases [of a S]) (force split: if_splits)+

lemma saves_keep_newer:
  "S k = Some b \<Longrightarrow> \<exists>c. run_ops save as S k = Some c \<and> ver b \<le> ver c"
proof (induction "as" arbitrary: S b)
  case (Cons a as)
  obtain c where "snd (save a S) k = Some c" "ver b \<le> ver c"
    using save_keeps_newer [where S = S and k = k and b = b and a = a] Cons.prems by blast
  with Cons.IH [of "snd (save a S)" c] show ?case by force
qed simp

text \<open>Of two entities at the same version only the first is stored.\<close>

lemma second_save_refused:
  assumes "fst (save a S) = Inr ()" "key b = key a" "ver b = ver a"
  shows "\<exists>e. save b (run_ops save as (snd (save a S))) = (Inl e, run_ops save as (snd (save a S)))"
proof -
  have "snd (save a S) (key b) = Some a" using assms(1,2) save_result by metis
  then obtain c where "run_ops save as (snd (save a S)) (key b) = Some c" "ver a \<le> ver c"
    using saves_keep_newer by blast
  then show ?thesis using save_older assms(3) by metis
qed

text \<open>But the version is not compared with the one the writer started from.\<close>

lemma more_changes_win:
  assumes "S (key a) = Some b" "ver b < ver a"
  shows "save a S = (Inr (), S(key a \<mapsto> a))"
  using assms by (intro save_newer) auto

text \<open>The store keeps entities under their own keys.\<close>

lemma saves_keyed:
  assumes "\<And>k a. S k = Some a \<Longrightarrow> key a = k" "run_ops save as S k = Some b"
  shows "key b = k"
  using assms
proof (induction "as" arbitrary: S)
  case (Cons a as)
  have "key c = l" if "snd (save a S) l = Some c" for l c
    using that Cons.prems(1) by (cases rule: save_cases [of a S]) (auto split: if_splits)
  then show ?case using Cons.IH [of "snd (save a S)"] Cons.prems(2) by simp
qed simp

end

interpretation rfqs: versioned_store rfq_id rfq_version rr_save
  by unfold_locales (auto simp: rr_save_def split: option.split)

interpretation trades: versioned_store trade_id trade_version tr_save
  by unfold_locales (auto simp: tr_save_def split: option.split)

end
