(* ===== verification/Effects.thy ===== *)
theory Effects
  imports Prelude
begin

text \<open>
  Calls on a state of the world, as the services make them behind their traits: converting their
  errors, guarding them, and entering them in a log, with the rules for the calls that a
  computation logs.
\<close>

section \<open>Errors and guards\<close>

text \<open>\<open>map_err\<close> on a call.\<close>

definition map_err :: "('e \<Rightarrow> 'f) \<Rightarrow> ('s, 'e, 'a) op \<Rightarrow> ('s, 'f, 'a) op" where
  "map_err f m = (\<lambda>s. case m s of (Inl e, s') \<Rightarrow> (Inl (f e), s') | (Inr a, s') \<Rightarrow> (Inr a, s'))"

text \<open>A fallible computation that touches no state.\<close>

definition lift_result :: "'e + 'a \<Rightarrow> ('s, 'e, 'a) op" where
  "lift_result r = (\<lambda>s. (r, s))"

lemma op_then_Inr_iff:
  "op_then m f s = (Inr b, s'') \<longleftrightarrow> (\<exists>a s'. m s = (Inr a, s') \<and> f a s' = (Inr b, s''))"
  by (auto simp: op_then_def split: prod.splits sum.splits)

lemma map_err_Inr_iff [simp]: "map_err f m s = (Inr a, s') \<longleftrightarrow> m s = (Inr a, s')"
  by (auto simp: map_err_def split: prod.splits sum.splits)

lemma map_err_Inl_iff: "map_err f m s = (Inl e, s') \<longleftrightarrow> (\<exists>e'. m s = (Inl e', s') \<and> e = f e')"
  by (auto simp: map_err_def split: prod.splits sum.splits)

lemma lift_result_simps [simp]: "lift_result r s = (x, s') \<longleftrightarrow> r = x \<and> s' = s"
  by (auto simp: lift_result_def)

lemma op_ret_iff [simp]: "op_ret a s = (x, s') \<longleftrightarrow> x = Inr a \<and> s' = s"
  by (auto simp: op_ret_def)

lemma op_fail_iff [simp]: "op_fail e s = (x, s') \<longleftrightarrow> x = Inl e \<and> s' = s"
  by (auto simp: op_fail_def)

definition guard_or :: "bool \<Rightarrow> 'e \<Rightarrow> ('s, 'e, unit) op" where
  "guard_or ok e = (if ok then op_ret () else op_fail e)"

section \<open>Logging the calls\<close>

text \<open>A call that is entered in a log, whatever it returns, and one that is not.\<close>

definition log_op :: "'c \<Rightarrow> ('x, 'e, 'a) op \<Rightarrow> ('x \<times> 'c list, 'e, 'a) op" where
  "log_op c m = (\<lambda>(x, log). case m x of (a, x') \<Rightarrow> (a, x', log @ [c]))"

definition plain_op :: "('x, 'e, 'a) op \<Rightarrow> ('x \<times> 'c list, 'e, 'a) op" where
  "plain_op m = (\<lambda>(x, log). case m x of (a, x') \<Rightarrow> (a, x', log))"

lemma log_op_iff [simp]:
  "log_op c m (x, log) = (a, x', log') \<longleftrightarrow> m x = (a, x') \<and> log' = log @ [c]"
  by (auto simp: log_op_def split: prod.split)

lemma plain_op_iff [simp]:
  "plain_op m (x, log) = (a, x', log') \<longleftrightarrow> m x = (a, x') \<and> log' = log"
  by (auto simp: plain_op_def split: prod.split)

text \<open>
  A computation logs \<open>cs\<close>: it enters the calls \<open>cs\<close> in this order, all of them if it succeeds
  and the first few if it fails.
\<close>

definition logs :: "'c list \<Rightarrow> ('x \<times> 'c list, 'e, 'a) op \<Rightarrow> bool" where
  "logs cs m \<longleftrightarrow> (\<forall>x log a x' log'. m (x, log) = (a, x', log') \<longrightarrow>
     (\<exists>n. log' = log @ take n cs \<and> (\<forall>v. a = Inr v \<longrightarrow> n = length cs)))"

named_theorems logging "rules for the calls a computation logs"

lemma logs_log_op [logging]: "logs [c] (log_op c m)"
  by (fastforce simp: logs_def intro: exI [of _ 1])

lemma logs_plain_op [logging]: "logs [] (plain_op m)"
  by (auto simp: logs_def)

lemma logs_op_ret [logging]: "logs [] (op_ret a)" "logs [] (op_fail e)" "logs [] (lift_result r)"
  by (auto simp: logs_def)

lemma logs_map_err [logging]: "logs cs m \<Longrightarrow> logs cs (map_err f m)"
  unfolding logs_def by (fastforce simp: map_err_def split: prod.splits sum.splits)

lemma logs_silent [logging]: "(\<And>x log. \<exists>v x'. m (x, log) = (Inr v, x', log)) \<Longrightarrow> logs [] m"
  unfolding logs_def by (metis Pair_inject append_Nil2 list.size(3) take_Nil)

lemma logs_op_then:
  assumes "logs cs m" "\<And>v. logs ds (f v)"
  shows "logs (cs @ ds) (op_then m f)"
  unfolding logs_def
proof (intro allI impI)
  fix x log a x' log' assume run: "op_then m f (x, log) = (a, x', log')"
  obtain b x1 log1 where m: "m (x, log) = (b, x1, log1)" by (cases "m (x, log)") auto
  then obtain n where n: "log1 = log @ take n cs" "\<forall>v. b = Inr v \<longrightarrow> n = length cs"
    using assms(1) unfolding logs_def by blast
  show "\<exists>n. log' = log @ take n (cs @ ds) \<and> (\<forall>v. a = Inr v \<longrightarrow> n = length (cs @ ds))"
  proof (cases b)
    case (Inl e)
    then show ?thesis using run m n by (intro exI [of _ "min n (length cs)"]) (auto simp: min_def)
  next
    case (Inr v)
    then have "f v (x1, log1) = (a, x', log')" using run m by simp
    then obtain k where "log' = log1 @ take k ds" "\<forall>v. a = Inr v \<longrightarrow> k = length ds"
      using assms(2) unfolding logs_def by blast
    then show ?thesis using n Inr by (intro exI [of _ "length cs + k"]) auto
  qed
qed

lemma logs_cons [logging]:
  assumes "logs [c] m" "\<And>v. logs ds (f v)"
  shows "logs (c # ds) (op_then m f)"
  using logs_op_then [OF assms] by simp

lemma logs_skip: "logs [] m \<Longrightarrow> (\<And>v. logs ds (f v)) \<Longrightarrow> logs ds (op_then m f)"
  using logs_op_then [of "[]" m ds f] by simp

lemma logsD:
  assumes "logs cs m" "m (x, log) = (a, x', log')"
  shows "\<exists>n. log' = log @ take n cs \<and> (\<forall>v. a = Inr v \<longrightarrow> n = length cs)"
  using assms unfolding logs_def by blast

lemma op_then_cases:
  assumes "op_then m f s = (b, s'')"
  obtains (failed) e where "m s = (Inl e, s'')" "b = Inl e"
  | (went_on) a s' where "m s = (Inr a, s')" "f a s' = (b, s'')"
  using assms by (cases "m s") (auto simp: op_then_def split: sum.splits)

lemma logs_guard_or [logging]: "logs [] (guard_or ok e)"
  by (simp add: guard_or_def logs_op_ret)

end
