(* ===== verification/Application_Errors.thy ===== *)
theory Application_Errors
  imports Repositories Effects
begin

text \<open>
  The errors of the outer layers: \<open>VenueError\<close> (\<open>src/infrastructure/venues/error.rs\<close>), and
  \<open>InfrastructureError\<close> and \<open>ApplicationError\<close> (\<open>src/application/error.rs\<close>), with their
  classifications and the conversion of an error to text where the use cases need it.
\<close>

section \<open>Venues\<close>

datatype 'd venue_error =
    VeTimeout "'d msg" "u64 option"
  | VeConnection "'d msg"
  | VeAuthentication "'d msg"
  | VeRateLimited "'d msg" "u64 option"
  | VeInvalidRequest "'d msg"
  | VeQuoteUnavailable "'d msg"
  | VeInsufficientLiquidity "'d msg"
  | VeExecutionFailed "'d msg" "string option"
  | VeQuoteExpired "'d msg"
  | VeVenueUnavailable venue_id "'d msg"
  | VeProtocolError "'d msg"
  | VeInternalError "'d msg"
  | VeUnknown "'d msg"
  | VeUnsupportedOperation "'d msg"

primrec ve_display :: "'d venue_error \<Rightarrow> 'd msg" where
  "ve_display (VeTimeout m _) = Fmt ''venue timeout: {}'' [ArgMsg m]"
| "ve_display (VeConnection m) = Fmt ''venue connection error: {}'' [ArgMsg m]"
| "ve_display (VeAuthentication m) = Fmt ''venue authentication error: {}'' [ArgMsg m]"
| "ve_display (VeRateLimited m _) = Fmt ''venue rate limit exceeded: {}'' [ArgMsg m]"
| "ve_display (VeInvalidRequest m) = Fmt ''venue invalid request: {}'' [ArgMsg m]"
| "ve_display (VeQuoteUnavailable m) = Fmt ''venue quote unavailable: {}'' [ArgMsg m]"
| "ve_display (VeInsufficientLiquidity m) = Fmt ''venue insufficient liquidity: {}'' [ArgMsg m]"
| "ve_display (VeExecutionFailed m _) = Fmt ''venue execution failed: {}'' [ArgMsg m]"
| "ve_display (VeQuoteExpired m) = Fmt ''venue quote expired: {}'' [ArgMsg m]"
| "ve_display (VeVenueUnavailable v m) = Fmt ''venue unavailable: {} - {}'' [ArgStr v, ArgMsg m]"
| "ve_display (VeProtocolError m) = Fmt ''venue protocol error: {}'' [ArgMsg m]"
| "ve_display (VeInternalError m) = Fmt ''venue internal error: {}'' [ArgMsg m]"
| "ve_display (VeUnknown m) = Fmt ''venue unknown error: {}'' [ArgMsg m]"
| "ve_display (VeUnsupportedOperation m) = Fmt ''venue unsupported operation: {}'' [ArgMsg m]"

definition ve_is_retryable :: "'d venue_error \<Rightarrow> bool" where
  "ve_is_retryable e = (case e of VeTimeout _ _ \<Rightarrow> True | VeConnection _ \<Rightarrow> True
     | VeRateLimited _ _ \<Rightarrow> True | VeVenueUnavailable _ _ \<Rightarrow> True | _ \<Rightarrow> False)"

definition ve_is_client_error :: "'d venue_error \<Rightarrow> bool" where
  "ve_is_client_error e = (case e of VeInvalidRequest _ \<Rightarrow> True | VeAuthentication _ \<Rightarrow> True
     | VeQuoteExpired _ \<Rightarrow> True | _ \<Rightarrow> False)"

definition ve_is_venue_error :: "'d venue_error \<Rightarrow> bool" where
  "ve_is_venue_error e = (case e of VeInternalError _ \<Rightarrow> True | VeProtocolError _ \<Rightarrow> True
     | VeVenueUnavailable _ _ \<Rightarrow> True | _ \<Rightarrow> False)"

definition ve_retry_after_ms :: "'d venue_error \<Rightarrow> u64 option" where
  "ve_retry_after_ms e = (case e of VeRateLimited _ ms \<Rightarrow> ms | _ \<Rightarrow> None)"

definition ve_error_code :: "'d venue_error \<Rightarrow> string option" where
  "ve_error_code e = (case e of VeExecutionFailed _ c \<Rightarrow> c | _ \<Rightarrow> None)"

lemma ve_classes_disjoint:
  "ve_is_client_error e \<Longrightarrow> \<not> ve_is_retryable e \<and> \<not> ve_is_venue_error e"
  by (cases e) (simp_all add: ve_is_client_error_def ve_is_retryable_def ve_is_venue_error_def)

section \<open>Infrastructure and application\<close>

datatype 'd infrastructure_error =
    IeDatabase "'d msg"
  | IeNetwork "'d msg"
  | IeMessageQueue "'d msg"
  | IeCache "'d msg"
  | IeExternalService "'d msg" "'d msg"
  | IeConfiguration "'d msg"
  | IeSerialization "'d msg"
  | IeTimeout "'d msg"
  | IeRepository "'d repository_error"

definition ie_is_retryable :: "'d infrastructure_error \<Rightarrow> bool" where
  "ie_is_retryable e = (case e of IeNetwork _ \<Rightarrow> True | IeTimeout _ \<Rightarrow> True
     | IeMessageQueue _ \<Rightarrow> True | _ \<Rightarrow> False)"

datatype 'd application_error =
    AppDomain "'d domain_error"
  | AppInfrastructure "'d infrastructure_error"
  | AppVenue "'d venue_error"
  | AppValidation "'d msg"
  | AppNotFound "'d msg" "'d msg"
  | AppUnauthorized
  | AppClientNotFound "'d msg"
  | AppClientNotActive "'d msg"
  | AppInstrumentNotSupported "'d msg"
  | AppComplianceFailed "'d msg"
  | AppRepositoryError "'d msg"
  | AppEventPublishError "'d msg"
  | AppInternal "'d msg"
  | AppRfqNotFound "'d msg"
  | AppQuoteNotFound "'d msg"
  | AppQuoteExpired "'d msg"
  | AppInvalidState "'d msg"
  | AppVenueNotAvailable "'d msg"
  | AppExecutionFailed "'d msg"

definition app_is_retryable :: "'d application_error \<Rightarrow> bool" where
  "app_is_retryable e = (case e of AppInfrastructure i \<Rightarrow> ie_is_retryable i
     | AppVenue v \<Rightarrow> ve_is_retryable v | _ \<Rightarrow> False)"

definition app_is_not_found :: "'d application_error \<Rightarrow> bool" where
  "app_is_not_found e = (case e of AppNotFound _ _ \<Rightarrow> True | AppClientNotFound _ \<Rightarrow> True
     | AppRfqNotFound _ \<Rightarrow> True | AppQuoteNotFound _ \<Rightarrow> True | _ \<Rightarrow> False)"

definition app_is_validation :: "'d application_error \<Rightarrow> bool" where
  "app_is_validation e = (case e of AppValidation _ \<Rightarrow> True | _ \<Rightarrow> False)"

definition app_is_unauthorized :: "'d application_error \<Rightarrow> bool" where
  "app_is_unauthorized e = (case e of AppUnauthorized \<Rightarrow> True | _ \<Rightarrow> False)"

end
