(* ===== verification/Use_Cases.thy ===== *)
theory Use_Cases
  imports Application_Errors Events
begin

text \<open>
  The three use cases of \<open>src/application/use_cases\<close>: \<open>create_rfq.rs\<close>, \<open>collect_quotes.rs\<close> and
  \<open>execute_trade.rs\<close>, with the request of \<open>src/application/dto/rfq_dto.rs\<close> and the execution
  result of \<open>src/infrastructure/venues/traits.rs\<close>.

  The repositories, registries, publishers and venues are traits: a record of their calls on
  a state \<open>'x\<close> of the world. Between two calls other tasks may run; what they do to the world
  is part of the effect of the calls. Fresh identifiers and clock readings are arguments.
\<close>

section \<open>Creating an RFQ\<close>

text \<open>
  The quantity of a request is an \<open>f64\<close>. Its type is a parameter \<open>'f\<close>, with the comparison
  \<open>q <= 0.0\<close> and the conversion \<open>Decimal::try_from\<close> of the decimal package.
\<close>

record ('f, 'd) float_ops =
  fl_not_positive :: "'f \<Rightarrow> bool"
  fl_to_decimal :: "'f \<Rightarrow> 'd option"

record 'f create_rfq_request =
  crq_client_id :: string
  crq_base_asset :: string
  crq_quote_asset :: string
  crq_side :: order_side
  crq_quantity :: 'f
  crq_expiry_seconds :: u64
  crq_anonymous :: bool

definition crq_anonymity_level :: "'f create_rfq_request \<Rightarrow> anonymity_level" where
  "crq_anonymity_level q = (if crq_anonymous q then FullAnonymous else Transparent)"

definition crq_validate :: "('f, 'd) float_ops \<Rightarrow> 'f create_rfq_request \<Rightarrow> 'd msg + unit" where
  "crq_validate F q =
     (if crq_client_id q = [] then Inl (Txt ''client_id cannot be empty'')
      else if crq_base_asset q = [] then Inl (Txt ''base_asset cannot be empty'')
      else if crq_quote_asset q = [] then Inl (Txt ''quote_asset cannot be empty'')
      else if fl_not_positive F (crq_quantity q) then Inl (Txt ''quantity must be positive'')
      else if crq_expiry_seconds q = 0 then Inl (Txt ''expiry_seconds must be greater than 0'')
      else Inr ())"

text \<open>How the errors of symbols print.\<close>

definition sym_error_display :: "symbol_error \<Rightarrow> 'd msg" where
  "sym_error_display e = (case e of
       SymEmpty \<Rightarrow> Txt ''symbol cannot be empty''
     | SymInvalidFormat s \<Rightarrow> Fmt (''invalid symbol format: expected BASE/QUOTE, got '{}'' @ [CHR 0x27]) [ArgStr s]
     | SymEmptyBaseAsset \<Rightarrow> Txt ''base asset cannot be empty''
     | SymEmptyQuoteAsset \<Rightarrow> Txt ''quote asset cannot be empty''
     | SymInvalidCharacters s \<Rightarrow> Fmt (''symbol contains invalid characters: '{}'' @ [CHR 0x27]) [ArgStr s])"

text \<open>\<open>Quantity::new\<close>.\<close>

definition quantity_of_float ::
    "'d dec \<Rightarrow> ('f, 'd) float_ops \<Rightarrow> 'f \<Rightarrow> arithmetic_error + 'd quantity" where
  "quantity_of_float D F x =
     rbind (ok_or (AeInvalidValue ''invalid float'') (fl_to_decimal F x)) (quantity_from_decimal D)"

text \<open>\<open>expiry_seconds as i64\<close> reads the 64 bits as a signed number.\<close>

definition crq_to_domain_types :: "'d dec \<Rightarrow> ('f, 'd) float_ops \<Rightarrow> timestamp \<Rightarrow> 'f create_rfq_request
    \<Rightarrow> 'd msg + 'd instrument \<times> 'd quantity \<times> timestamp" where
  "crq_to_domain_types D F now q =
     (case symbol_new (crq_base_asset q @ ''/'' @ crq_quote_asset q) of
        Inl e \<Rightarrow> Inl (sym_error_display e)
      | Inr symbol \<Rightarrow>
          (case quantity_of_float D F (crq_quantity q) of
             Inl e \<Rightarrow> Inl (arith_error_display e)
           | Inr quantity \<Rightarrow>
               Inr (instrument_new symbol CryptoSpot settlement_method_default, quantity,
                 ts_add_secs now (sint (crq_expiry_seconds q)))))"

record ('f, 'x, 'd) create_env =
  ce_client_exists :: "string \<Rightarrow> ('x, 'd msg, bool) op"
  ce_client_active :: "string \<Rightarrow> ('x, 'd msg, bool) op"
  ce_is_supported :: "string \<Rightarrow> string \<Rightarrow> ('x, 'd msg, bool) op"
  ce_pre_check :: "counterparty_id \<Rightarrow> string \<Rightarrow> string \<Rightarrow> 'f \<Rightarrow> ('x, 'd msg, compliance_result) op"
  ce_save_rfq :: "'d rfq \<Rightarrow> ('x, 'd msg, unit) op"
  ce_publish_rfq_created :: "'d rfq_created \<Rightarrow> ('x, 'd msg, unit) op"

record create_inputs =
  ci_now_types :: timestamp
  ci_now_check :: timestamp
  ci_now_build :: timestamp
  ci_now_event :: timestamp
  ci_rfq_id :: uuid
  ci_event_id :: uuid

record create_rfq_response =
  crr_rfq_id :: uuid
  crr_state :: rfq_state
  crr_created_at :: timestamp
  crr_expires_at :: timestamp

definition file_rfq :: "('f, 'x, 'd) create_env \<Rightarrow> create_inputs \<Rightarrow> 'd rfq
    \<Rightarrow> ('x, 'd application_error, create_rfq_response) op" where
  "file_rfq E i r =
     op_then (map_err AppRepositoryError (ce_save_rfq E r)) (\<lambda>_.
     op_then (map_err AppEventPublishError (ce_publish_rfq_created E
         (rc_new (ci_event_id i) (ci_now_event i) (rfq_id r) (rfq_client_id r) (rfq_instrument r)
           (rfq_side r) (rfq_quantity r) (rfq_expires_at r)))) (\<lambda>_.
       op_ret \<lparr> crr_rfq_id = rfq_id r, crr_state = rfq_state r, crr_created_at = rfq_created_at r,
         crr_expires_at = rfq_expires_at r \<rparr>))"

definition create_rfq :: "'d dec \<Rightarrow> ('f, 'd) float_ops \<Rightarrow> ('f, 'x, 'd) create_env \<Rightarrow> create_inputs
    \<Rightarrow> 'f create_rfq_request \<Rightarrow> ('x, 'd application_error, create_rfq_response) op" where
  "create_rfq D F E i q =
     op_then (map_err AppValidation (lift_result (crq_validate F q))) (\<lambda>_.
     op_then (map_err AppRepositoryError (ce_client_exists E (crq_client_id q))) (\<lambda>client_exists.
     op_then (guard_or client_exists (AppClientNotFound (Txt (crq_client_id q)))) (\<lambda>_.
     op_then (map_err AppRepositoryError (ce_client_active E (crq_client_id q))) (\<lambda>client_active.
     op_then (guard_or client_active (AppClientNotActive (Txt (crq_client_id q)))) (\<lambda>_.
     op_then (map_err AppRepositoryError
         (ce_is_supported E (crq_base_asset q) (crq_quote_asset q))) (\<lambda>supported.
     op_then (guard_or supported (AppInstrumentNotSupported
         (Fmt ''{}/{}'' [ArgStr (crq_base_asset q), ArgStr (crq_quote_asset q)]))) (\<lambda>_.
     op_then (map_err AppValidation
         (lift_result (crq_to_domain_types D F (ci_now_types i) q))) (\<lambda>(ins, quantity, expires_at).
     op_then (map_err AppRepositoryError (ce_pre_check E (crq_client_id q) (crq_base_asset q)
         (crq_quote_asset q) (crq_quantity q))) (\<lambda>compliance.
     op_then (guard_or (cr_passed compliance) (AppComplianceFailed
         (case cr_reason compliance of Some s \<Rightarrow> Txt s | None \<Rightarrow> Txt ''unknown reason''))) (\<lambda>_.
     op_then (map_err AppDomain (lift_result
         (rb_try_build D (ci_rfq_id i) (ci_now_check i) (ci_now_build i)
           (rb_with_anonymity_level
             (rb_new (crq_client_id q) ins (crq_side q) quantity expires_at)
             (crq_anonymity_level q))))) (file_rfq E i)))))))))))"

section \<open>Collecting quotes\<close>

text \<open>What comes of the task that asks one venue.\<close>

datatype 'd venue_answer = Answered "'d quote" | Refused "'d venue_error" | TimedOut | TaskPanicked

record 'd venue_adapter =
  va_venue_id :: venue_id
  va_timeout_ms :: u64
  va_request_quote :: "u64 \<Rightarrow> 'd rfq \<Rightarrow> 'd venue_answer"

record 'd venue_quote_result =
  vqr_venue_id :: venue_id
  vqr_quote :: "'d quote option"
  vqr_error :: "'d msg option"

definition vqr_success :: "venue_id \<Rightarrow> 'd quote \<Rightarrow> 'd venue_quote_result" where
  "vqr_success v q = \<lparr> vqr_venue_id = v, vqr_quote = Some q, vqr_error = None \<rparr>"

definition vqr_failure :: "venue_id \<Rightarrow> 'd msg \<Rightarrow> 'd venue_quote_result" where
  "vqr_failure v m = \<lparr> vqr_venue_id = v, vqr_quote = None, vqr_error = Some m \<rparr>"

definition vqr_is_success :: "'d venue_quote_result \<Rightarrow> bool" where
  "vqr_is_success r \<longleftrightarrow> vqr_quote r \<noteq> None"

record collect_config =
  cqc_default_timeout_ms :: u64
  cqc_min_quotes :: nat

definition cqc_default :: collect_config where
  "cqc_default = \<lparr> cqc_default_timeout_ms = 5000, cqc_min_quotes = 0 \<rparr>"

definition cqc_with_timeout :: "u64 \<Rightarrow> collect_config" where
  "cqc_with_timeout t = cqc_default\<lparr> cqc_default_timeout_ms := t \<rparr>"

definition cqc_with_min_quotes :: "nat \<Rightarrow> collect_config \<Rightarrow> collect_config" where
  "cqc_with_min_quotes n c = c\<lparr> cqc_min_quotes := n \<rparr>"

definition venue_timeout :: "collect_config \<Rightarrow> 'd venue_adapter \<Rightarrow> u64" where
  "venue_timeout cfg v = (if 0 < va_timeout_ms v
     then min (va_timeout_ms v) (cqc_default_timeout_ms cfg) else cqc_default_timeout_ms cfg)"

text \<open>The answers in the order of the venues, without the tasks that panicked.\<close>

definition collect_quotes_from_venues ::
    "collect_config \<Rightarrow> 'd rfq \<Rightarrow> 'd venue_adapter list \<Rightarrow> 'd venue_quote_result list" where
  "collect_quotes_from_venues cfg r venues =
     List.map_filter (\<lambda>v. case va_request_quote v (venue_timeout cfg v) r of
         Answered q \<Rightarrow> Some (vqr_success (va_venue_id v) q)
       | Refused e \<Rightarrow> Some (vqr_failure (va_venue_id v) (ve_display e))
       | TimedOut \<Rightarrow> Some (vqr_failure (va_venue_id v) (Txt ''request timed out''))
       | TaskPanicked \<Rightarrow> None) venues"

record ('x, 'd) collect_env =
  qe_find_rfq :: "uuid \<Rightarrow> ('x, 'd msg, 'd rfq option) op"
  qe_save_rfq :: "'d rfq \<Rightarrow> ('x, 'd msg, unit) op"
  qe_available_venues :: "'x \<Rightarrow> 'd venue_adapter list \<times> 'x"
  qe_publish_quote_received :: "'d quote_received \<Rightarrow> ('x, 'd msg, unit) op"

record 'd collect_response =
  cqr_rfq_id :: uuid
  cqr_quotes :: "'d quote list"
  cqr_failures :: "'d venue_quote_result list"
  cqr_venues_queried :: nat

text \<open>Quote \<open>n\<close> is received at \<open>ki_check n\<close> and \<open>ki_now n\<close>; its event gets \<open>ki_event n\<close>.\<close>

record collect_inputs =
  ki_now_start :: timestamp
  ki_check :: "nat \<Rightarrow> timestamp"
  ki_now :: "nat \<Rightarrow> timestamp"
  ki_event :: "nat \<Rightarrow> uuid \<times> timestamp"

text \<open>A quote the RFQ refuses is logged and skipped.\<close>

fun receive_all :: "collect_inputs \<Rightarrow> nat \<Rightarrow> 'd quote list \<Rightarrow> 'd rfq \<Rightarrow> 'd rfq" where
  "receive_all i n [] r = r"
| "receive_all i n (q # qs) r =
     receive_all i (Suc n) qs (snd (rfq_receive_quote (ki_check i n) (ki_now i n) q r))"

definition quote_event :: "collect_inputs \<Rightarrow> nat \<Rightarrow> uuid \<Rightarrow> 'd quote \<Rightarrow> 'd quote_received" where
  "quote_event i n rid q = qr_new (fst (ki_event i n)) (snd (ki_event i n)) rid (quote_id q)
     (quote_venue_id q) (quote_price q) (quote_quantity q) (quote_valid_until q)"

text \<open>A failure to publish is logged and skipped.\<close>

fun publish_all :: "('x, 'd) collect_env \<Rightarrow> collect_inputs \<Rightarrow> uuid \<Rightarrow> nat \<Rightarrow> 'd quote list \<Rightarrow> 'x \<Rightarrow> 'x" where
  "publish_all E i rid n [] x = x"
| "publish_all E i rid n (q # qs) x =
     publish_all E i rid (Suc n) qs (snd (qe_publish_quote_received E (quote_event i n rid q) x))"

definition collect_quotes :: "('x, 'd) collect_env \<Rightarrow> collect_config \<Rightarrow> collect_inputs \<Rightarrow> uuid
    \<Rightarrow> ('x, 'd application_error, 'd collect_response) op" where
  "collect_quotes E cfg i rid =
     op_then (map_err AppRepositoryError (qe_find_rfq E rid)) (\<lambda>found.
     op_then (lift_result (ok_or (AppValidation (Fmt ''RFQ not found: {}'' [ArgUuid rid])) found)) (\<lambda>r0.
     (case rfq_start_quote_collection (ki_now_start i) r0 of
        (Inl e, _) \<Rightarrow> op_fail (AppDomain e)
      | (Inr _, r) \<Rightarrow>
          (\<lambda>x. let (venues, x) = qe_available_venues E x in
             if venues = [] then (Inl (AppValidation (Txt ''no venues available'')), x)
             else
               let results = collect_quotes_from_venues cfg r venues;
                   quotes = List.map_filter vqr_quote results;
                   failures = filter (\<lambda>v. \<not> vqr_is_success v) results in
               if length quotes < cqc_min_quotes cfg
               then (Inl (AppValidation (Fmt ''insufficient quotes: got {}, need {}''
                      [ArgNat (length quotes), ArgNat (cqc_min_quotes cfg)])), x)
               else op_then (map_err AppRepositoryError (qe_save_rfq E (receive_all i 0 quotes r)))
                 (\<lambda>_ x. (Inr \<lparr> cqr_rfq_id = rid, cqr_quotes = quotes, cqr_failures = failures,
                            cqr_venues_queried = length venues \<rparr>,
                         publish_all E i rid 0 quotes x)) x))))"

section \<open>Executing a trade\<close>

record 'd execution_result =
  er_trade_id :: uuid
  er_quote_id :: uuid
  er_venue_id :: venue_id
  er_execution_price :: "'d price"
  er_executed_quantity :: "'d quantity"
  er_settlement_method :: settlement_method
  er_venue_execution_id :: "string option"
  er_tx_hash :: "string option"
  er_executed_at :: timestamp

definition er_new :: "uuid \<Rightarrow> timestamp \<Rightarrow> uuid \<Rightarrow> venue_id \<Rightarrow> 'd price \<Rightarrow> 'd quantity
    \<Rightarrow> settlement_method \<Rightarrow> 'd execution_result" where
  "er_new fresh now qid v p q m = \<lparr> er_trade_id = fresh, er_quote_id = qid, er_venue_id = v,
     er_execution_price = p, er_executed_quantity = q, er_settlement_method = m,
     er_venue_execution_id = None, er_tx_hash = None, er_executed_at = now \<rparr>"

datatype trade_participant = ParticipantCounterparty counterparty_id | ParticipantVenue venue_id

record 'd trade_confirmation =
  tc_trade_id :: uuid
  tc_rfq_id :: uuid
  tc_price :: "'d price"
  tc_quantity :: "'d quantity"
  tc_taker_fee :: 'd
  tc_maker_fee :: 'd
  tc_net_fee :: 'd
  tc_settlement_method :: settlement_method
  tc_buyer :: trade_participant
  tc_seller :: trade_participant
  tc_timestamp :: timestamp

definition tc_new :: "timestamp \<Rightarrow> uuid \<Rightarrow> uuid \<Rightarrow> 'd price \<Rightarrow> 'd quantity \<Rightarrow> 'd \<Rightarrow> 'd \<Rightarrow> 'd
    \<Rightarrow> settlement_method \<Rightarrow> trade_participant \<Rightarrow> trade_participant \<Rightarrow> 'd trade_confirmation" where
  "tc_new now trade rfq p q taker maker net m buyer seller = \<lparr> tc_trade_id = trade, tc_rfq_id = rfq,
     tc_price = p, tc_quantity = q, tc_taker_fee = taker, tc_maker_fee = maker, tc_net_fee = net,
     tc_settlement_method = m, tc_buyer = buyer, tc_seller = seller, tc_timestamp = now \<rparr>"

text \<open>
  A venue adapter is found by its identifier; \<open>'a\<close> is the type of adapters. The confirmation
  service is optional and comes with the repository of counterparties, of which only the
  notification preferences \<open>'p\<close> are used; sending is a task of its own, started by
  \<open>cs_spawn_send\<close>.
\<close>

record ('x, 'p, 'd) confirmations =
  cs_preferences :: "counterparty_id \<Rightarrow> ('x, 'd msg, 'p option) op"
  cs_spawn_send :: "'d trade_confirmation \<Rightarrow> 'p \<Rightarrow> 'x \<Rightarrow> 'x"

record ('a, 'x, 'p, 'd) trade_env =
  xe_find_rfq :: "uuid \<Rightarrow> ('x, 'd msg, 'd rfq option) op"
  xe_save_rfq :: "'d rfq \<Rightarrow> ('x, 'd msg, unit) op"
  xe_save_trade :: "'d trade \<Rightarrow> ('x, 'd application_error, unit) op"
  xe_get_venue :: "venue_id \<Rightarrow> 'x \<Rightarrow> 'a option \<times> 'x"
  xe_execute :: "'a \<Rightarrow> 'd quote \<Rightarrow> ('x, 'd venue_error, 'd execution_result) op"
  xe_publish_trade_executed :: "'d trade_executed \<Rightarrow> ('x, 'd application_error, unit) op"
  xe_publish_position_updated :: "'d position_updated \<Rightarrow> ('x, 'd application_error, unit) op"
  xe_confirmations :: "('x, 'p, 'd) confirmations option"

record trade_inputs =
  xi_now_quote :: timestamp
  xi_now_select_check :: timestamp
  xi_now_select :: timestamp
  xi_now_start_check :: timestamp
  xi_now_start :: timestamp
  xi_trade_id :: uuid
  xi_now_trade :: timestamp
  xi_now_mark :: timestamp
  xi_event :: "uuid \<times> timestamp"
  xi_position :: "uuid \<times> timestamp"
  xi_now_confirmation :: timestamp
  xi_elapsed_ms :: u64

record 'd execute_response =
  xr_trade :: "'d trade"
  xr_rfq_id :: uuid
  xr_execution_time_ms :: u64

definition create_trade_from_result ::
    "trade_inputs \<Rightarrow> 'd rfq \<Rightarrow> 'd execution_result \<Rightarrow> 'd trade" where
  "create_trade_from_result i r res =
     (case er_venue_execution_id res of
        Some venue_ref \<Rightarrow> trade_with_venue_ref (xi_trade_id i) (xi_now_trade i) (rfq_id r)
          (er_quote_id res) (er_venue_id res) (er_execution_price res) (er_executed_quantity res) venue_ref
      | None \<Rightarrow> trade_new (xi_trade_id i) (xi_now_trade i) (rfq_id r)
          (er_quote_id res) (er_venue_id res) (er_execution_price res) (er_executed_quantity res))"

definition send_trade_confirmations :: "'d dec \<Rightarrow> timestamp \<Rightarrow> 'd trade \<Rightarrow> 'd trade_executed \<Rightarrow> 'd rfq
    \<Rightarrow> ('x, 'p, 'd) confirmations \<Rightarrow> 'x \<Rightarrow> 'x" where
  "send_trade_confirmations D now t e r C x =
     (case cs_preferences C (rfq_client_id r) x of
        (Inr (Some preferences), x) \<Rightarrow>
          let client = ParticipantCounterparty (rfq_client_id r); venue = ParticipantVenue (te_venue_id e);
              (buyer, seller) = (case rfq_side r of Buy \<Rightarrow> (client, venue) | Sell \<Rightarrow> (venue, client));
              fee = (\<lambda>f. case f of Some d \<Rightarrow> d | None \<Rightarrow> dzero D) in
          cs_spawn_send C (tc_new now (trade_id t) (trade_rfq_id t) (trade_price t) (trade_quantity t)
            (fee (te_taker_fee e)) (fee (te_maker_fee e)) (fee (te_net_fee e))
            (te_settlement_method e) buyer seller) preferences x
      | (_, x) \<Rightarrow> x)"

definition executed_event :: "trade_inputs \<Rightarrow> 'd rfq \<Rightarrow> 'd quote \<Rightarrow> 'd trade \<Rightarrow> 'd execution_result
    \<Rightarrow> 'd trade_executed" where
  "executed_event i r q t res = \<lparr> te_metadata = em_for_rfq (fst (xi_event i)) (rfq_id r) (snd (xi_event i)),
     te_trade_id = trade_id t, te_quote_id = quote_id q, te_venue_id = quote_venue_id q,
     te_counterparty_id = rfq_client_id r, te_price = trade_price t, te_quantity = trade_quantity t,
     te_settlement_method = er_settlement_method res, te_taker_fee = None, te_maker_fee = None,
     te_net_fee = None \<rparr>"

definition position_event :: "trade_inputs \<Rightarrow> 'd rfq \<Rightarrow> 'd quote \<Rightarrow> 'd trade \<Rightarrow> 'd position_updated" where
  "position_event i r q t = pu_new (fst (xi_position i)) (snd (xi_position i)) (rfq_id r) (trade_id t)
     (rfq_client_id r) (rfq_side r) (quote_venue_id q) (side_opposite (rfq_side r)) (rfq_instrument r)
     (trade_quantity t) (trade_price t)"

text \<open>From the venue's answer on.\<close>

definition settle_execution :: "'d dec \<Rightarrow> ('a, 'x, 'p, 'd) trade_env \<Rightarrow> trade_inputs \<Rightarrow> 'd rfq
    \<Rightarrow> 'd quote \<Rightarrow> 'd execution_result \<Rightarrow> ('x, 'd application_error, 'd execute_response) op" where
  "settle_execution D E i r quote res =
     (let t = create_trade_from_result i r res in
      case rfq_mark_executed (xi_now_mark i) r of
        (Inl e, _) \<Rightarrow> op_fail (AppInvalidState (de_display e))
      | (Inr _, r) \<Rightarrow>
          op_then (xe_save_trade E t) (\<lambda>_.
          op_then (map_err AppRepositoryError (xe_save_rfq E r)) (\<lambda>_.
          op_then (xe_publish_trade_executed E (executed_event i r quote t res)) (\<lambda>_.
          op_then (xe_publish_position_updated E (position_event i r quote t)) (\<lambda>_ x.
            (Inr \<lparr> xr_trade = t, xr_rfq_id = rfq_id r, xr_execution_time_ms = xi_elapsed_ms i \<rparr>,
             case xe_confirmations E of
               None \<Rightarrow> x
             | Some C \<Rightarrow> send_trade_confirmations D (xi_now_confirmation i) t
                 (executed_event i r quote t res) r C x))))))"

text \<open>The checks and the two transitions before the venue is asked.\<close>

definition prepare_execution :: "trade_inputs \<Rightarrow> uuid \<Rightarrow> 'd rfq
    \<Rightarrow> 'd application_error + 'd quote \<times> 'd rfq" where
  "prepare_execution i qid r =
     (case find (\<lambda>q. quote_id q = qid) (rfq_quotes r) of
        None \<Rightarrow> Inl (AppQuoteNotFound (Fmt ''{}'' [ArgUuid qid]))
      | Some quote \<Rightarrow>
          if quote_is_expired (xi_now_quote i) quote
          then Inl (AppQuoteExpired (Fmt ''{}'' [ArgUuid qid]))
          else (case rfq_select_quote (xi_now_select_check i) (xi_now_select i) qid r of
             (Inl e, _) \<Rightarrow> Inl (AppInvalidState (de_display e))
           | (Inr _, r) \<Rightarrow>
               (case rfq_start_execution (xi_now_start_check i) (xi_now_start i) r of
                  (Inl e, _) \<Rightarrow> Inl (AppInvalidState (de_display e))
                | (Inr _, r) \<Rightarrow> Inr (quote, r))))"

definition execute_trade :: "'d dec \<Rightarrow> ('a, 'x, 'p, 'd) trade_env \<Rightarrow> trade_inputs \<Rightarrow> uuid \<Rightarrow> uuid
    \<Rightarrow> ('x, 'd application_error, 'd execute_response) op" where
  "execute_trade D E i rid qid =
     op_then (map_err AppRepositoryError (xe_find_rfq E rid)) (\<lambda>found.
     op_then (lift_result (ok_or (AppRfqNotFound (Fmt ''{}'' [ArgUuid rid])) found)) (\<lambda>r.
     op_then (lift_result (prepare_execution i qid r)) (\<lambda>(quote, r) x.
       (case xe_get_venue E (quote_venue_id quote) x of
          (None, x) \<Rightarrow> (Inl (AppVenueNotAvailable (Txt (quote_venue_id quote))), x)
        | (Some venue, x) \<Rightarrow>
            op_then (map_err (AppExecutionFailed \<circ> ve_display) (xe_execute E venue quote))
              (settle_execution D E i r quote) x))))"

text \<open>The event is what the builder builds; all required fields are set, so \<open>build\<close> does not panic.\<close>

lemma executed_event_built:
  "teb_build (fst (xi_event i)) (snd (xi_event i)) (teb_default\<lparr>
     teb_rfq_id := Some (rfq_id r), teb_trade_id := Some (trade_id t),
     teb_quote_id := Some (quote_id q), teb_venue_id := Some (quote_venue_id q),
     teb_counterparty_id := Some (rfq_client_id r), teb_price := Some (trade_price t),
     teb_quantity := Some (trade_quantity t),
     teb_settlement_method := Some (er_settlement_method res) \<rparr>) = Ret (executed_event i r q t res)"
  by (simp add: teb_build_def teb_try_build_def teb_default_def executed_event_def)

end
