(* ===== verification/Orchestration.thy ===== *)
theory Orchestration
  imports Use_Cases
begin

text \<open>
  What the use cases of \<open>Use_Cases\<close> do to the world: which repositories, venues and publishers
  they call, in which order and with what.
\<close>

section \<open>Executing a trade\<close>

datatype 'd exec_call =
    CallVenue "'d quote"
  | CallSaveTrade "'d trade"
  | CallSaveRfq "'d rfq"
  | CallPublishExecuted "'d trade_executed"
  | CallPublishPosition "'d position_updated"

definition logged_confirmations ::
    "('x, 'p, 'd) confirmations \<Rightarrow> ('x \<times> 'd exec_call list, 'p, 'd) confirmations" where
  "logged_confirmations C = \<lparr> cs_preferences = (\<lambda>c. plain_op (cs_preferences C c)),
     cs_spawn_send = (\<lambda>t p (x, log). (cs_spawn_send C t p x, log)) \<rparr>"

definition logged_env ::
    "('a, 'x, 'p, 'd) trade_env \<Rightarrow> ('a, 'x \<times> 'd exec_call list, 'p, 'd) trade_env" where
  "logged_env E = \<lparr> xe_find_rfq = (\<lambda>i. plain_op (xe_find_rfq E i)),
     xe_save_rfq = (\<lambda>r. log_op (CallSaveRfq r) (xe_save_rfq E r)),
     xe_save_trade = (\<lambda>t. log_op (CallSaveTrade t) (xe_save_trade E t)),
     xe_get_venue = (\<lambda>v (x, log). case xe_get_venue E v x of (a, x') \<Rightarrow> (a, x', log)),
     xe_execute = (\<lambda>a q. log_op (CallVenue q) (xe_execute E a q)),
     xe_publish_trade_executed = (\<lambda>e. log_op (CallPublishExecuted e) (xe_publish_trade_executed E e)),
     xe_publish_position_updated =
       (\<lambda>e. log_op (CallPublishPosition e) (xe_publish_position_updated E e)),
     xe_confirmations = map_option logged_confirmations (xe_confirmations E) \<rparr>"

lemma logged_env_sel [simp]:
  "xe_find_rfq (logged_env E) i = plain_op (xe_find_rfq E i)"
  "xe_save_rfq (logged_env E) r = log_op (CallSaveRfq r) (xe_save_rfq E r)"
  "xe_save_trade (logged_env E) t = log_op (CallSaveTrade t) (xe_save_trade E t)"
  "xe_execute (logged_env E) a q = log_op (CallVenue q) (xe_execute E a q)"
  "xe_publish_trade_executed (logged_env E) e =
     log_op (CallPublishExecuted e) (xe_publish_trade_executed E e)"
  "xe_publish_position_updated (logged_env E) p =
     log_op (CallPublishPosition p) (xe_publish_position_updated E p)"
  "xe_confirmations (logged_env E) = map_option logged_confirmations (xe_confirmations E)"
  by (simp_all add: logged_env_def)

lemma send_confirmations_logged:
  "send_trade_confirmations D now t e r (logged_confirmations C) (x, log)
     = (send_trade_confirmations D now t e r C x, log)"
  by (auto simp: send_trade_confirmations_def logged_confirmations_def plain_op_def Let_def
      split: prod.split sum.split option.split order_side.split)

text \<open>What the checks before the venue establish.\<close>

lemma prepare_execution_Inr:
  assumes "prepare_execution i qid r = Inr (q, r1)"
  shows "q \<in> set (rfq_quotes r)" "quote_id q = qid" "rfq_state r \<in> {QuotesReceived, Negotiating}"
    and "xi_now_quote i \<le> quote_valid_until q" "xi_now_start_check i \<le> quote_valid_until q"
    and "r1 = r\<lparr> rfq_state := Executing, rfq_selected_quote_id := Some qid,
      rfq_updated_at := xi_now_start i,
      rfq_version := sat_add (sat_add (rfq_version r) 1) 1 \<rparr>"
proof -
  have "find (\<lambda>q. quote_id q = qid) (rfq_quotes r) = Some q"
    using assms by (auto simp: prepare_execution_def split: option.splits if_splits prod.splits sum.splits)
  note found = find_Some_iff_mem [OF this] and at = this
  show "q \<in> set (rfq_quotes r)" "quote_id q = qid" using found by simp_all
  have state: "rfq_state r \<in> {QuotesReceived, Negotiating}"
    using assms at by (auto simp: prepare_execution_def rfq_op_defs rs_can_transition_to_def
        split: option.splits if_splits prod.splits sum.splits rfq_state.splits)
  show "rfq_state r \<in> {QuotesReceived, Negotiating}" by (rule state)
  then show "xi_now_quote i \<le> quote_valid_until q" "xi_now_start_check i \<le> quote_valid_until q"
    and "r1 = r\<lparr> rfq_state := Executing, rfq_selected_quote_id := Some qid,
      rfq_updated_at := xi_now_start i,
      rfq_version := sat_add (sat_add (rfq_version r) 1) 1 \<rparr>"
    using assms at by (auto simp: prepare_execution_def rfq_op_defs rs_can_transition_to_def
        quote_is_expired_def ts_is_expired_def split: if_splits)
qed

text \<open>The RFQ the use case saves.\<close>

definition executed_rfq :: "trade_inputs \<Rightarrow> uuid \<Rightarrow> 'd rfq \<Rightarrow> 'd rfq" where
  "executed_rfq i qid r = r\<lparr> rfq_state := Executed, rfq_selected_quote_id := Some qid,
      rfq_updated_at := xi_now_mark i,
      rfq_version := sat_add (sat_add (sat_add (rfq_version r) 1) 1) 1 \<rparr>"

lemma prepare_then_mark:
  assumes "prepare_execution i qid r = Inr (q, r1)"
  shows "rfq_mark_executed (xi_now_mark i) r1 = (Inr (), executed_rfq i qid r)"
  by (simp add: prepare_execution_Inr(6) [OF assms] rfq_op_defs rs_can_transition_to_def
      executed_rfq_def)

text \<open>The calls after the checks, all of them if nothing fails.\<close>

definition planned_calls :: "trade_inputs \<Rightarrow> 'd rfq \<Rightarrow> 'd rfq \<Rightarrow> 'd quote \<Rightarrow> 'd execution_result
    \<Rightarrow> 'd exec_call list" where
  "planned_calls i r1 r2 q res = (let t = create_trade_from_result i r1 res in
     [CallVenue q, CallSaveTrade t, CallSaveRfq r2, CallPublishExecuted (executed_event i r2 q t res),
      CallPublishPosition (position_event i r2 q t)])"

lemma settle_execution_logs:
  assumes "rfq_mark_executed (xi_now_mark i) r1 = (Inr (), r2)"
  shows "logs (tl (planned_calls i r1 r2 q res)) (settle_execution D (logged_env E) i r1 q res)"
  unfolding planned_calls_def settle_execution_def assms Let_def list.sel sum.case prod.case logged_env_sel
  by (intro logs_cons logs_log_op logs_map_err logs_silent)
    (auto simp: send_confirmations_logged split: option.splits)

lemma settle_execution_trade:
  assumes "settle_execution D E i r1 q res x = (Inr resp, x')"
  shows "xr_trade resp = create_trade_from_result i r1 res"
  using assms by (auto simp: settle_execution_def Let_def op_then_Inr_iff split: prod.splits sum.splits)

lemma execute_trade_log:
  assumes run: "execute_trade D (logged_env E) i rid qid (x, []) = (a, x', log)"
  shows "(log = [] \<and> (\<exists>e. a = Inl e)) \<or>
    (\<exists>r x1 q r1 res n. xe_find_rfq E rid x = (Inr (Some r), x1)
      \<and> prepare_execution i qid r = Inr (q, r1)
      \<and> log = take n (planned_calls i r1 (executed_rfq i qid r) q res)
      \<and> (\<forall>resp. a = Inr resp \<longrightarrow> n = 5 \<and> xr_trade resp = create_trade_from_result i r1 res))"
proof (cases "log = [] \<and> (\<exists>e. a = Inl e)")
  case False
  obtain found x1 where find: "xe_find_rfq E rid x = (Inr found, x1)"
    using run False by (cases "xe_find_rfq E rid x")
      (auto simp: execute_trade_def op_then_def map_err_def plain_op_def split: sum.splits)
  then obtain r where "found = Some r"
    using run False by (cases found)
      (auto simp: execute_trade_def op_then_def map_err_def plain_op_def lift_result_def)
  moreover obtain q r1 where prep: "prepare_execution i qid r = Inr (q, r1)"
    using run False find \<open>found = Some r\<close> by (cases "prepare_execution i qid r")
      (auto simp: execute_trade_def op_then_def map_err_def plain_op_def lift_result_def)
  moreover obtain v x2 where venue: "xe_get_venue E (quote_venue_id q) x1 = (Some v, x2)"
    using run False find \<open>found = Some r\<close> prep by (cases "xe_get_venue E (quote_venue_id q) x1"; cases "fst (xe_get_venue E (quote_venue_id q) x1)")
      (auto simp: execute_trade_def op_then_def map_err_def plain_op_def lift_result_def logged_env_def)
  ultimately have call: "op_then (map_err (AppExecutionFailed \<circ> ve_display) (xe_execute (logged_env E) v q))
      (settle_execution D (logged_env E) i r1 q) (x2, []) = (a, x', log)"
    using run find
    by (simp add: execute_trade_def op_then_def [of "lift_result _"] op_then_def [of "map_err AppRepositoryError _"]
        map_err_def [of AppRepositoryError] plain_op_def lift_result_def logged_env_def)
  let ?calls = "planned_calls i r1 (executed_rfq i qid r) q"
  have "\<exists>res n. log = take n (?calls res)
      \<and> (\<forall>resp. a = Inr resp \<longrightarrow> n = 5 \<and> xr_trade resp = create_trade_from_result i r1 res)"
    using call
  proof (cases rule: op_then_cases)
    case (failed e)
    then have "log = [CallVenue q]" by (auto simp: map_err_Inl_iff)
    then show ?thesis using failed(2)
      by (auto simp: planned_calls_def Let_def intro!: exI [of _ "Suc 0"])
  next
    case (went_on res s3)
    obtain x3 where s3: "s3 = (x3, [CallVenue q])" using went_on(1) by (cases s3) auto
    obtain n where n: "log = [CallVenue q] @ take n (tl (?calls res))"
        "\<forall>resp. a = Inr resp \<longrightarrow> n = length (tl (?calls res))"
      using logsD [OF settle_execution_logs [OF prepare_then_mark [OF prep]] went_on(2) [unfolded s3]]
      by blast
    have "log = take (Suc n) (?calls res)" using n(1) by (simp add: planned_calls_def Let_def)
    moreover have "n = 4" if "a = Inr resp" for resp
      using n(2) that by (simp add: planned_calls_def Let_def)
    ultimately show ?thesis using went_on(2) settle_execution_trade by fastforce
  qed
  then show ?thesis using find \<open>found = Some r\<close> prep by blast
qed simp

lemma created_trade_sel [simp]:
  "trade_id (create_trade_from_result i r res) = xi_trade_id i"
  "trade_rfq_id (create_trade_from_result i r res) = rfq_id r"
  by (simp_all add: create_trade_from_result_def trade_new_def trade_with_venue_ref_def
      split: option.split)

lemma executed_rfq_sel [simp]:
  "rfq_id (executed_rfq i qid r) = rfq_id r" "rfq_state (executed_rfq i qid r) = Executed"
  "rfq_version (executed_rfq i qid r) = sat_add (sat_add (sat_add (rfq_version r) 1) 1) 1"
  by (simp_all add: executed_rfq_def)

section \<open>Properties of the execution\<close>

definition quoted_rfq :: "int rfq" where
  "quoted_rfq = run_ops rfq_apply [StartQuoteCollection 101, ReceiveQuote 102 103 (sample_quote 1 50 300)]
     sample_rfq"

definition sample_inputs :: "uuid \<Rightarrow> trade_inputs" where
  "sample_inputs i = \<lparr> xi_now_quote = 110, xi_now_select_check = 111, xi_now_select = 112,
     xi_now_start_check = 113, xi_now_start = 114, xi_trade_id = i, xi_now_trade = 120,
     xi_now_mark = 121, xi_event = (31, 122), xi_position = (32, 123), xi_now_confirmation = 124,
     xi_elapsed_ms = 1 \<rparr>"

definition sample_fill :: "int quote \<Rightarrow> int execution_result" where
  "sample_fill q = er_new 77 119 (quote_id q) (quote_venue_id q) (quote_price q) (quote_quantity q) OffChain"

text \<open>Services that find the RFQ and accept everything.\<close>

definition sample_env :: "(venue_id, unit, unit, int) trade_env" where
  "sample_env = \<lparr> xe_find_rfq = (\<lambda>_. op_ret (Some quoted_rfq)), xe_save_rfq = (\<lambda>_. op_ret ()), xe_save_trade = (\<lambda>_. op_ret ()),
     xe_get_venue = (\<lambda>v x. (Some v, x)), xe_execute = (\<lambda>_ q. op_ret (sample_fill q)),
     xe_publish_trade_executed = (\<lambda>_. op_ret ()), xe_publish_position_updated = (\<lambda>_. op_ret ()), xe_confirmations = None \<rparr>"

lemma quoted_rfq_sel:
  "rfq_id quoted_rfq = 7" "rfq_state quoted_rfq = QuotesReceived" "rfq_version quoted_rfq = 3"
  "rfq_quotes quoted_rfq = [sample_quote 1 50 300]"
  by (simp_all add: quoted_rfq_def rfq_op_defs rs_can_transition_to_def sample_rfq_def rb_build_def
      rb_new_def sample_quote_def qb_build_def qb_new_def quote_is_expired_def ts_is_expired_def
      sat_add_def)

lemma sample_prepare:
  "\<exists>r1. prepare_execution (sample_inputs i) 1 quoted_rfq = Inr (sample_quote 1 50 300, r1)"
  by (simp add: prepare_execution_def quoted_rfq_sel rfq_op_defs rs_can_transition_to_def
      sample_quote_def qb_build_def qb_new_def quote_is_expired_def ts_is_expired_def sample_inputs_def)

text \<open>
  C7. The use case executes what was asked for, in order and at most once: it either fails
  before any call that changes something, or its calls are an initial part of the sequence
  execute the requested, still valid quote of the stored RFQ at the venue, save the trade,
  save the RFQ as executed with this quote selected, publish the trade, publish the position,
  and all of the sequence if it succeeds.
\<close>
theorem execute_trade_effects:
  assumes "execute_trade D (logged_env E) i rid qid (x, []) = (a, x', log)"
  shows "(log = [] \<and> (\<exists>e. a = Inl e)) \<or>
    (\<exists>r q t r' ev pv n. fst (xe_find_rfq E rid x) = Inr (Some r)
      \<and> q \<in> set (rfq_quotes r) \<and> quote_id q = qid \<and> xi_now_start_check i \<le> quote_valid_until q
      \<and> trade_rfq_id t = rfq_id r
      \<and> rfq_id r' = rfq_id r \<and> rfq_state r' = Executed \<and> rfq_selected_quote_id r' = Some qid
      \<and> rfq_quotes r' = rfq_quotes r
      \<and> log = take n [CallVenue q, CallSaveTrade t, CallSaveRfq r', CallPublishExecuted ev,
                      CallPublishPosition pv]
      \<and> (\<forall>resp. a = Inr resp \<longrightarrow> n = 5 \<and> xr_trade resp = t))"
proof (cases "log = [] \<and> (\<exists>e. a = Inl e)")
  case False
  then obtain r x1 q r1 res n where run: "xe_find_rfq E rid x = (Inr (Some r), x1)"
      "prepare_execution i qid r = Inr (q, r1)"
      "log = take n (planned_calls i r1 (executed_rfq i qid r) q res)"
      "\<forall>resp. a = Inr resp \<longrightarrow> n = 5 \<and> xr_trade resp = create_trade_from_result i r1 res"
    using execute_trade_log [OF assms] by blast
  note prep = prepare_execution_Inr [OF run(2)]
  let ?t = "create_trade_from_result i r1 res" and ?r' = "executed_rfq i qid r"
  have "trade_rfq_id ?t = rfq_id r" by (simp add: prep(6))
  moreover have "rfq_selected_quote_id ?r' = Some qid" "rfq_quotes ?r' = rfq_quotes r"
    by (simp_all add: executed_rfq_def)
  moreover have "fst (xe_find_rfq E rid x) = Inr (Some r)" by (simp add: run(1))
  ultimately show ?thesis
    using run(4) prep(1,2,5) run(3) [unfolded planned_calls_def Let_def]
      executed_rfq_sel(1,2) [of i qid r]
    by - (intro disjI2 exI conjI, assumption+)
qed blast

lemma execute_trade_effects_witness:
  "\<exists>resp w' log. execute_trade whole_dec (logged_env sample_env) (sample_inputs 51) 7 1 ((), []) = (Inr resp, w', log)
    \<and> hd log = CallVenue (sample_quote 1 50 300) \<and> length log = 5"
proof -
  obtain r1 where prep: "prepare_execution (sample_inputs 51) 1 quoted_rfq
      = Inr (sample_quote 1 50 300, r1)" using sample_prepare by blast
  obtain resp w' log where run: "execute_trade whole_dec (logged_env sample_env) (sample_inputs 51) 7 1
      ((), []) = (Inr resp, w', log)"
    by (simp add: execute_trade_def logged_env_def sample_env_def lift_result_def map_err_def
        op_then_def settle_execution_def prep prepare_then_mark [OF prep] op_ret_def Let_def
        log_op_def plain_op_def)
  obtain r q t r' ev pv where "fst (xe_find_rfq sample_env 7 ()) = Inr (Some r)" "q \<in> set (rfq_quotes r)"
      "log = take 5 [CallVenue q, CallSaveTrade t, CallSaveRfq r', CallPublishExecuted ev, CallPublishPosition pv]"
    using execute_trade_effects [OF run] by auto
  then show ?thesis using run by (simp add: sample_env_def op_ret_def quoted_rfq_sel)
qed

end
