(* ===== verification/Intake.thy ===== *)
theory Intake
  imports Use_Cases
begin

text \<open>
  What the use cases that create an RFQ and collect quotes for it do to the world: the calls
  they make, in which order, and what the saved RFQ has to do with the events published.
\<close>

section \<open>Creating an RFQ\<close>

datatype 'd create_call = CreateSave "'d rfq" | CreatePublish "'d rfq_created"

definition logged_create :: "('f, 'x, 'd) create_env \<Rightarrow> ('f, 'x \<times> 'd create_call list, 'd) create_env" where
  "logged_create E = \<lparr> ce_client_exists = (\<lambda>c. plain_op (ce_client_exists E c)),
     ce_client_active = (\<lambda>c. plain_op (ce_client_active E c)),
     ce_is_supported = (\<lambda>b q. plain_op (ce_is_supported E b q)),
     ce_pre_check = (\<lambda>c b q n. plain_op (ce_pre_check E c b q n)),
     ce_save_rfq = (\<lambda>r. log_op (CreateSave r) (ce_save_rfq E r)),
     ce_publish_rfq_created = (\<lambda>e. log_op (CreatePublish e) (ce_publish_rfq_created E e)) \<rparr>"

lemma logged_create_sel [simp]:
  "ce_client_exists (logged_create E) c = plain_op (ce_client_exists E c)"
  "ce_client_active (logged_create E) c = plain_op (ce_client_active E c)"
  "ce_is_supported (logged_create E) b q = plain_op (ce_is_supported E b q)"
  "ce_pre_check (logged_create E) c b q n = plain_op (ce_pre_check E c b q n)"
  "ce_save_rfq (logged_create E) r = log_op (CreateSave r) (ce_save_rfq E r)"
  "ce_publish_rfq_created (logged_create E) e = log_op (CreatePublish e) (ce_publish_rfq_created E e)"
  by (simp_all add: logged_create_def)

text \<open>The calls are the first few of one of several sequences, or none in case of an error.\<close>

definition logs_one_of :: "'c list set \<Rightarrow> ('x \<times> 'c list, 'e, 'a) op \<Rightarrow> bool" where
  "logs_one_of C m \<longleftrightarrow> (\<forall>x log a x' log'. m (x, log) = (a, x', log') \<longrightarrow>
     (log' = log \<and> (\<exists>e. a = Inl e)) \<or>
     (\<exists>cs\<in>C. \<exists>n. log' = log @ take n cs \<and> (\<forall>v. a = Inr v \<longrightarrow> n = length cs)))"

lemma logs_one_of_skip:
  assumes "logs [] m" "\<And>v s s'. m s = (Inr v, s') \<Longrightarrow> logs_one_of C (f v)"
  shows "logs_one_of C (op_then m f)"
  unfolding logs_one_of_def
proof (intro allI impI)
  fix x log a x' log' assume run: "op_then m f (x, log) = (a, x', log')"
  obtain b x1 log1 where m: "m (x, log) = (b, x1, log1)" by (cases "m (x, log)") auto
  then have "log1 = log" using logsD [OF assms(1)] by fastforce
  then show "(log' = log \<and> (\<exists>e. a = Inl e)) \<or>
      (\<exists>cs\<in>C. \<exists>n. log' = log @ take n cs \<and> (\<forall>v. a = Inr v \<longrightarrow> n = length cs))"
    using run m assms(2) unfolding logs_one_of_def by (cases b) auto
qed

lemma logs_one_of_member: "logs cs m \<Longrightarrow> cs \<in> C \<Longrightarrow> logs_one_of C m"
  unfolding logs_def logs_one_of_def by blast

text \<open>What the request determines of the RFQ.\<close>

definition created_for :: "'d dec \<Rightarrow> ('f, 'd) float_ops \<Rightarrow> 'f create_rfq_request \<Rightarrow> create_inputs \<Rightarrow> 'd rfq \<Rightarrow> bool" where
  "created_for D F q i r \<longleftrightarrow> rfq_inv r \<and> rfq_state r = Created \<and> rfq_id r = ci_rfq_id i
     \<and> rfq_client_id r = crq_client_id q \<and> rfq_side r = crq_side q \<and> rfq_quotes r = []
     \<and> (\<exists>symbol. symbol_new (crq_base_asset q @ ''/'' @ crq_quote_asset q) = Inr symbol
         \<and> rfq_instrument r = instrument_new symbol CryptoSpot settlement_method_default)
     \<and> (\<exists>amount. fl_to_decimal F (crq_quantity q) = Some amount \<and> rfq_quantity r = Quantity amount)
     \<and> quantity_is_positive D (rfq_quantity r)
     \<and> rfq_anonymity_level r = (if crq_anonymous q then FullAnonymous else Transparent)
     \<and> rfq_expires_at r = ts_add_secs (ci_now_types i) (sint (crq_expiry_seconds q))
     \<and> ci_now_check i \<le> rfq_expires_at r"

definition created_event :: "create_inputs \<Rightarrow> 'd rfq \<Rightarrow> 'd rfq_created" where
  "created_event i r = rc_new (ci_event_id i) (ci_now_event i) (rfq_id r) (rfq_client_id r)
     (rfq_instrument r) (rfq_side r) (rfq_quantity r) (rfq_expires_at r)"

lemma try_build_created:
  assumes "rb_try_build D (ci_rfq_id i) (ci_now_check i) (ci_now_build i)
      (rb_with_anonymity_level (rb_new (crq_client_id q) ins (crq_side q) quantity expires_at) (crq_anonymity_level q)) = Inr r"
    and "crq_to_domain_types D F (ci_now_types i) q = Inr (ins, quantity, expires_at)"
  shows "created_for D F q i r"
  using assms
  by (auto simp: rb_try_build_def rb_with_anonymity_level_def rb_new_def created_for_def rfq_inv_def
      rs_has_quotes_def crq_to_domain_types_def rfq_validate_expiry_def ts_is_expired_def rfq_validate_quantity_def
      crq_anonymity_level_def quantity_of_float_def quantity_from_decimal_def
      split: sum.splits if_splits option.splits)

lemma file_rfq_logs: "logs [CreateSave r, CreatePublish (created_event i r)] (file_rfq (logged_create E) i r)"
  unfolding file_rfq_def logged_create_sel created_event_def [symmetric]
  by (intro logs_cons logs_map_err logs_log_op logs_op_ret)

lemma create_rfq_logs:
  "logs_one_of {[CreateSave r, CreatePublish (created_event i r)] | r. created_for D F q i r}
     (create_rfq D F (logged_create E) i q)"
  unfolding create_rfq_def logged_create_sel
  by (intro logs_one_of_skip logs_map_err logs_plain_op logs_op_ret logs_guard_or,
      simp_all split: prod.split,
      intro allI impI logs_one_of_skip logs_map_err logs_plain_op logs_op_ret logs_guard_or
        logs_one_of_member [OF file_rfq_logs])
    (auto dest: try_build_created)

section \<open>Collecting quotes\<close>

datatype 'd collect_call = CollectSave "'d rfq" | CollectPublish "'d quote_received"

definition logged_collect :: "('x, 'd) collect_env \<Rightarrow> ('x \<times> 'd collect_call list, 'd) collect_env" where
  "logged_collect E = \<lparr> qe_find_rfq = (\<lambda>i. plain_op (qe_find_rfq E i)),
     qe_save_rfq = (\<lambda>r. log_op (CollectSave r) (qe_save_rfq E r)),
     qe_available_venues = (\<lambda>(x, log). case qe_available_venues E x of (vs, x') \<Rightarrow> (vs, x', log)),
     qe_publish_quote_received =
       (\<lambda>e. log_op (CollectPublish e) (qe_publish_quote_received E e)) \<rparr>"

lemma logged_collect_sel [simp]:
  "qe_find_rfq (logged_collect E) i = plain_op (qe_find_rfq E i)"
  "qe_save_rfq (logged_collect E) r = log_op (CollectSave r) (qe_save_rfq E r)"
  "qe_available_venues (logged_collect E) (x, log) = (fst (qe_available_venues E x), snd (qe_available_venues E x), log)"
  "qe_publish_quote_received (logged_collect E) e = log_op (CollectPublish e) (qe_publish_quote_received E e)"
  by (simp_all add: logged_collect_def split: prod.split)

text \<open>The quotes the RFQ takes: made for it, and still valid at the reading of the clock.\<close>

fun accepted :: "collect_inputs \<Rightarrow> nat \<Rightarrow> uuid \<Rightarrow> 'd quote list \<Rightarrow> 'd quote list" where
  "accepted i n rid [] = []"
| "accepted i n rid (q # qs) =
     (if quote_rfq_id q = rid \<and> ki_check i n \<le> quote_valid_until q then [q] else [])
       @ accepted i (Suc n) rid qs"

lemma receive_all_quotes:
  "rfq_state r \<in> {QuoteRequesting, QuotesReceived} \<Longrightarrow>
     rfq_quotes (receive_all i n qs r) = rfq_quotes r @ accepted i n (rfq_id r) qs
   \<and> rfq_id (receive_all i n qs r) = rfq_id r
   \<and> rfq_state (receive_all i n qs r) =
       (if accepted i n (rfq_id r) qs = [] then rfq_state r else QuotesReceived)"
proof (induction qs arbitrary: n r)
  case (Cons q qs)
  let ?r = "snd (rfq_receive_quote (ki_check i n) (ki_now i n) q r)"
  have r: "rfq_state ?r \<in> {QuoteRequesting, QuotesReceived}" "rfq_id ?r = rfq_id r"
    "rfq_quotes ?r = rfq_quotes r @
       (if quote_rfq_id q = rfq_id r \<and> ki_check i n \<le> quote_valid_until q then [q] else [])"
    "rfq_state ?r = (if quote_rfq_id q = rfq_id r \<and> ki_check i n \<le> quote_valid_until q
       then QuotesReceived else rfq_state r)"
    using Cons.prems by (auto simp: rfq_op_defs rs_can_transition_to_def quote_is_expired_def
        ts_is_expired_def)
  show ?case using Cons.IH [OF r(1), of "Suc n"] r by auto
qed simp

definition published :: "collect_inputs \<Rightarrow> uuid \<Rightarrow> 'd quote list \<Rightarrow> 'd collect_call list" where
  "published i rid qs = map (\<lambda>(n, q). CollectPublish (quote_event i n rid q)) (enumerate 0 qs)"

lemma publish_all_log:
  "\<exists>x'. publish_all (logged_collect E) i rid n qs (x, log) =
     (x', log @ map (\<lambda>(n, q). CollectPublish (quote_event i n rid q)) (enumerate n qs))"
proof (induction qs arbitrary: n x log)
  case (Cons q qs)
  obtain a y where call: "qe_publish_quote_received E (quote_event i n rid q) x = (a, y)" by fastforce
  show ?case
    using Cons.IH [of "Suc n" y "log @ [CollectPublish (quote_event i n rid q)]"] call
    by (simp add: log_op_def)
qed simp

lemma start_collection_Inr:
  "rfq_start_quote_collection t r = (Inr u, r') \<Longrightarrow> rfq_state r = Created \<and> rfq_state r' = QuoteRequesting
     \<and> rfq_quotes r' = rfq_quotes r \<and> rfq_id r' = rfq_id r"
  by (auto simp: rfq_op_defs rs_can_transition_to_def split: if_splits rfq_state.splits)

lemma collect_quotes_Inr:
  assumes "collect_quotes E cfg i rid x = (Inr resp, x')"
  obtains r0 x1 r venues x2 x3 where "qe_find_rfq E rid x = (Inr (Some r0), x1)"
    "rfq_start_quote_collection (ki_now_start i) r0 = (Inr (), r)"
    "qe_available_venues E x1 = (venues, x2)"
    "qe_save_rfq E (receive_all i 0 (cqr_quotes resp) r) x2 = (Inr (), x3)"
    "x' = publish_all E i rid 0 (cqr_quotes resp) x3"
    "cqr_quotes resp = List.map_filter vqr_quote (collect_quotes_from_venues cfg r venues)"
    "cqc_min_quotes cfg \<le> length (cqr_quotes resp)"
proof -
  obtain r0 x1 where find: "qe_find_rfq E rid x = (Inr (Some r0), x1)"
    using assms by (auto simp: collect_quotes_def op_then_Inr_iff)
  obtain u r where start: "rfq_start_quote_collection (ki_now_start i) r0 = (Inr u, r)"
    using assms find by (cases "rfq_start_quote_collection (ki_now_start i) r0"; cases "fst (rfq_start_quote_collection (ki_now_start i) r0)")
      (auto simp: collect_quotes_def op_then_Inr_iff)
  obtain venues x2 where venues: "qe_available_venues E x1 = (venues, x2)" by fastforce
  let ?quotes = "List.map_filter vqr_quote (collect_quotes_from_venues cfg r venues)"
  have rest: "venues \<noteq> [] \<and> cqc_min_quotes cfg \<le> length ?quotes \<and> cqr_quotes resp = ?quotes
      \<and> (\<exists>x3. qe_save_rfq E (receive_all i 0 ?quotes r) x2 = (Inr (), x3)
          \<and> x' = publish_all E i rid 0 ?quotes x3)"
    using assms find start venues
    by (auto simp: collect_quotes_def op_then_Inr_iff Let_def not_less split: if_splits)
  then obtain x3 where "qe_save_rfq E (receive_all i 0 ?quotes r) x2 = (Inr (), x3)"
      "x' = publish_all E i rid 0 ?quotes x3" by blast
  then show thesis using that [OF find _ venues] start rest by simp
qed

lemma collect_quotes_saves:
  assumes "collect_quotes (logged_collect E) cfg i rid (x, []) = (Inr resp, x', log)"
  shows "\<exists>r r'. fst (qe_find_rfq E rid x) = Inr (Some r) \<and> rfq_state r = Created
    \<and> log = CollectSave r' # published i rid (cqr_quotes resp)
    \<and> rfq_quotes r' = rfq_quotes r @ accepted i 0 (rfq_id r) (cqr_quotes resp)
    \<and> rfq_state r' = (if accepted i 0 (rfq_id r) (cqr_quotes resp) = [] then QuoteRequesting
        else QuotesReceived)
    \<and> cqc_min_quotes cfg \<le> length (cqr_quotes resp)"
proof -
  obtain r0 x1 r venues x2 x3 where find: "plain_op (qe_find_rfq E rid) (x, []) = (Inr (Some r0), x1)"
    and start: "rfq_start_quote_collection (ki_now_start i) r0 = (Inr (), r)"
    and venues: "qe_available_venues (logged_collect E) x1 = (venues, x2)"
    and save: "log_op (CollectSave (receive_all i 0 (cqr_quotes resp) r))
        (qe_save_rfq E (receive_all i 0 (cqr_quotes resp) r)) x2 = (Inr (), x3)"
    and pub: "(x', log) = publish_all (logged_collect E) i rid 0 (cqr_quotes resp) x3"
    and min: "cqc_min_quotes cfg \<le> length (cqr_quotes resp)"
    using collect_quotes_Inr [OF assms] unfolding logged_collect_sel by metis
  have found: "fst (qe_find_rfq E rid x) = Inr (Some r0)" "snd x1 = []"
    using find by (cases x1, simp)+
  then have "snd x2 = []" using venues by (cases x1) auto
  then have "snd x3 = [CollectSave (receive_all i 0 (cqr_quotes resp) r)]"
    using save by (cases x2; cases x3) simp
  then have "log = CollectSave (receive_all i 0 (cqr_quotes resp) r) # published i rid (cqr_quotes resp)"
    using pub publish_all_log [of E i rid 0 "cqr_quotes resp" "fst x3" "snd x3"] unfolding published_def
    by (cases x3) auto
  moreover note start_collection_Inr [OF start]
  ultimately show ?thesis using found min receive_all_quotes [of r i 0 "cqr_quotes resp"]
    by (metis insertI1)
qed

section \<open>Properties\<close>

definition sample_floats :: "(int, int) float_ops" where
  "sample_floats = \<lparr> fl_not_positive = (\<lambda>x. x \<le> 0), fl_to_decimal = Some \<rparr>"

definition sample_request :: "int create_rfq_request" where
  "sample_request = \<lparr> crq_client_id = ''C'', crq_base_asset = ''A'', crq_quote_asset = ''B'',
     crq_side = Buy, crq_quantity = 5, crq_expiry_seconds = 60, crq_anonymous = False \<rparr>"

definition sample_create_env :: "(int, unit, int) create_env" where
  "sample_create_env = \<lparr> ce_client_exists = (\<lambda>_. op_ret True), ce_client_active = (\<lambda>_. op_ret True),
     ce_is_supported = (\<lambda>_ _. op_ret True), ce_pre_check = (\<lambda>_ _ _ _. op_ret (compliance_passed 1)),
     ce_save_rfq = (\<lambda>_. op_ret ()), ce_publish_rfq_created = (\<lambda>_. op_ret ()) \<rparr>"

definition sample_create_inputs :: create_inputs where
  "sample_create_inputs = \<lparr> ci_now_types = 100, ci_now_check = 101, ci_now_build = 102,
     ci_now_event = 103, ci_rfq_id = 7, ci_event_id = 8 \<rparr>"

text \<open>Two venues; the second answers with a quote for another RFQ.\<close>

definition sample_venue :: "venue_id \<Rightarrow> uuid \<Rightarrow> int venue_adapter" where
  "sample_venue v rid = \<lparr> va_venue_id = v, va_timeout_ms = 0, va_request_quote = (\<lambda>_ _.
     Answered ((sample_quote 1 50 300)\<lparr> quote_rfq_id := rid \<rparr>)) \<rparr>"

definition sample_collect_env :: "int venue_adapter list \<Rightarrow> int rfq \<Rightarrow> (unit, int) collect_env" where
  "sample_collect_env venues r = \<lparr> qe_find_rfq = (\<lambda>_. op_ret (Some r)), qe_save_rfq = (\<lambda>_. op_ret ()),
     qe_available_venues = Pair venues, qe_publish_quote_received = (\<lambda>_. op_ret ()) \<rparr>"

definition sample_collect_inputs :: collect_inputs where
  "sample_collect_inputs = \<lparr> ki_now_start = 101, ki_check = (\<lambda>_. 102), ki_now = (\<lambda>_. 103),
     ki_event = (\<lambda>n. (of_nat n, 104)) \<rparr>"

lemma sample_rfq_state: "rfq_state sample_rfq = Created" "rfq_quotes sample_rfq = []" "rfq_id sample_rfq = 7"
  by (simp_all add: sample_rfq_def rb_build_def rb_new_def)

lemma sample_collection:
  "\<exists>resp x' log. collect_quotes (logged_collect (sample_collect_env
        [sample_venue ''V'' 7, sample_venue ''W'' 9] sample_rfq)) cqc_default sample_collect_inputs 7 ((), [])
      = (Inr resp, x', log)
    \<and> cqr_quotes resp = [sample_quote 1 50 300, (sample_quote 1 50 300)\<lparr> quote_rfq_id := 9 \<rparr>]"
proof -
  have "(sample_quote 1 50 300)\<lparr> quote_rfq_id := 7 \<rparr> = sample_quote 1 50 300"
    by (simp add: sample_quote_def qb_build_def qb_new_def)
  then have quotes: "List.map_filter vqr_quote (collect_quotes_from_venues cqc_default r
      [sample_venue ''V'' 7, sample_venue ''W'' 9])
      = [sample_quote 1 50 300, (sample_quote 1 50 300)\<lparr> quote_rfq_id := 9 \<rparr>]" for r
    by (simp add: collect_quotes_from_venues_def sample_venue_def vqr_success_def List.map_filter_def)
  have min: "cqc_min_quotes cqc_default = 0" by (simp add: cqc_default_def)
  obtain r where start: "rfq_start_quote_collection 101 sample_rfq = (Inr (), r)"
    by (simp add: rfq_op_defs sample_rfq_state rs_can_transition_to_def)
  show ?thesis
    using publish_all_log [of "sample_collect_env [sample_venue ''V'' 7, sample_venue ''W'' 9] sample_rfq"]
    by (simp add: collect_quotes_def sample_collect_env_def [of _ sample_rfq] op_then_def map_err_def plain_op_def
        lift_result_def op_ret_def log_op_def logged_collect_def Let_def quotes min
        sample_collect_inputs_def start)
qed

text \<open>
  C10. A created RFQ is what was asked for: either nothing was saved or published and the call
  failed, or its calls are an initial part of: save one RFQ, new, consistent, in state
  \<open>Created\<close>, of this client, for this side, for the instrument of the two assets that were named and for exactly the
  quantity that was asked, which is positive, as anonymous as asked, expiring when asked and not expired yet; then
  publish the event that describes this RFQ; and both of them if it succeeds.
\<close>
theorem create_rfq_effects:
  assumes "create_rfq D F (logged_create E) i q (x, []) = (a, x', log)"
  shows "(log = [] \<and> (\<exists>e. a = Inl e)) \<or>
    (\<exists>r ev n. created_for D F q i r \<and> log = take n [CreateSave r, CreatePublish ev]
      \<and> em_rfq_id (rc_metadata ev) = Some (rfq_id r) \<and> rc_client_id ev = rfq_client_id r
      \<and> rc_instrument ev = rfq_instrument r \<and> rc_side ev = rfq_side r
      \<and> rc_quantity ev = rfq_quantity r \<and> rc_expires_at ev = rfq_expires_at r
      \<and> (\<forall>resp. a = Inr resp \<longrightarrow> n = 2))"
proof (cases "log = [] \<and> (\<exists>e. a = Inl e)")
  case False
  then obtain r n where "created_for D F q i r" "log = take n [CreateSave r, CreatePublish (created_event i r)]"
      "\<forall>resp. a = Inr resp \<longrightarrow> n = 2"
    using create_rfq_logs [where i = i and q = q and D = D and F = F and E = E] assms unfolding logs_one_of_def by fastforce
  moreover have "em_rfq_id (rc_metadata (created_event i r)) = Some (rfq_id r)"
    "rc_client_id (created_event i r) = rfq_client_id r" "rc_instrument (created_event i r) = rfq_instrument r"
    "rc_side (created_event i r) = rfq_side r" "rc_quantity (created_event i r) = rfq_quantity r"
    "rc_expires_at (created_event i r) = rfq_expires_at r"
    by (simp_all add: created_event_def rc_new_def em_for_rfq_def)
  ultimately show ?thesis by blast
qed blast

lemma create_rfq_effects_witness:
  "\<exists>resp x' r ev. create_rfq whole_dec sample_floats (logged_create sample_create_env) sample_create_inputs
      sample_request ((), []) = (Inr resp, x', [CreateSave r, CreatePublish ev])
    \<and> created_for whole_dec sample_floats sample_request sample_create_inputs r"
proof -
  have "symbol_new ''A/B'' = Inr \<lparr> sym_value = ''A/B'', sym_separator_index = 1 \<rparr>"
    by code_simp
  then obtain resp x' log where run: "create_rfq whole_dec sample_floats (logged_create sample_create_env)
      sample_create_inputs sample_request ((), []) = (Inr resp, x', log)"
    by (simp add: create_rfq_def logged_create_def sample_create_env_def op_then_def map_err_def plain_op_def
        log_op_def lift_result_def op_ret_def guard_or_def file_rfq_def crq_validate_def sample_request_def
        sample_floats_def crq_to_domain_types_def quantity_of_float_def quantity_from_decimal_def
        rb_try_build_def rb_new_def rb_with_anonymity_level_def rfq_validate_quantity_def
        rfq_validate_expiry_def quantity_is_positive_def ts_is_expired_def ts_add_secs_def
        sample_create_inputs_def compliance_passed_def)
  then obtain r ev where "created_for whole_dec sample_floats sample_request sample_create_inputs r"
      "log = take 2 [CreateSave r, CreatePublish ev]"
    using create_rfq_effects [OF run] by auto
  then show ?thesis using run by auto
qed

text \<open>
  C11. What is announced is not what is stored: a successful collection saves one RFQ, holding
  those answered quotes that were made for it and had not expired, and then publishes an
  event for every answered quote, refused ones included. These also count towards the
  required minimum and are returned to the caller.
\<close>
theorem collect_quotes_effects:
  assumes "collect_quotes (logged_collect E) cfg i rid (x, []) = (Inr resp, x', log)"
  shows "\<exists>r r'. fst (qe_find_rfq E rid x) = Inr (Some r) \<and> rfq_state r = Created
    \<and> log = CollectSave r' # published i rid (cqr_quotes resp)
    \<and> rfq_quotes r' = rfq_quotes r @ accepted i 0 (rfq_id r) (cqr_quotes resp)
    \<and> rfq_state r' = (if accepted i 0 (rfq_id r) (cqr_quotes resp) = [] then QuoteRequesting
        else QuotesReceived)
    \<and> cqc_min_quotes cfg \<le> length (cqr_quotes resp)"
  by (rule collect_quotes_saves [OF assms])

lemma collect_quotes_effects_witness:
  "\<exists>resp x' r' ev ev'. collect_quotes (logged_collect (sample_collect_env
        [sample_venue ''V'' 7, sample_venue ''W'' 9] sample_rfq)) cqc_default sample_collect_inputs 7 ((), [])
      = (Inr resp, x', [CollectSave r', CollectPublish ev, CollectPublish ev'])
    \<and> rfq_quotes r' = [sample_quote 1 50 300]"
proof -
  obtain resp x' log where run: "collect_quotes (logged_collect (sample_collect_env
        [sample_venue ''V'' 7, sample_venue ''W'' 9] sample_rfq)) cqc_default sample_collect_inputs 7 ((), [])
      = (Inr resp, x', log)"
    and quotes: "cqr_quotes resp = [sample_quote 1 50 300, (sample_quote 1 50 300)\<lparr> quote_rfq_id := 9 \<rparr>]"
    using sample_collection by blast
  from collect_quotes_effects [OF run] show ?thesis using run
    by (auto simp: quotes published_def sample_collect_env_def op_ret_def sample_rfq_state
        sample_quote_def qb_build_def qb_new_def sample_collect_inputs_def)
qed

text \<open>
  Quotes are collected once: whatever the outcome of the first collection, also when no
  venue answered, collecting again for the saved RFQ fails without asking any venue.
\<close>
theorem collection_happens_once:
  assumes "collect_quotes (logged_collect E) cfg i rid (x, []) = (Inr resp, x', log)"
    and "hd log = CollectSave r'" "qe_find_rfq E' rid y = (Inr (Some r'), y')"
  shows "\<exists>s. s \<in> {QuoteRequesting, QuotesReceived}
    \<and> collect_quotes E' cfg' j rid y = (Inl (AppDomain (InvalidStateTransition s QuoteRequesting)), y')"
proof -
  have "rfq_state r' \<in> {QuoteRequesting, QuotesReceived}"
    using collect_quotes_saves [OF assms(1)] assms(2) by (auto split: if_splits)
  then show ?thesis
    using assms(3) by (auto simp: collect_quotes_def op_then_def map_err_def lift_result_def op_fail_def
        rfq_op_defs rs_can_transition_to_def)
qed

lemma collection_happens_once_witness:
  "\<exists>r' s. s \<in> {QuoteRequesting, QuotesReceived}
    \<and> collect_quotes (sample_collect_env [] r') cqc_default sample_collect_inputs 7 ()
      = (Inl (AppDomain (InvalidStateTransition s QuoteRequesting)), ())"
proof -
  let ?E = "sample_collect_env [sample_venue ''V'' 7, sample_venue ''W'' 9] sample_rfq"
  obtain resp x' log where run: "collect_quotes (logged_collect ?E) cqc_default sample_collect_inputs 7
      ((), []) = (Inr resp, x', log)" using sample_collection by blast
  then obtain r' where "hd log = CollectSave r'" using collect_quotes_saves [OF run] by auto
  from collection_happens_once [OF run this, of "sample_collect_env [] r'" "()" "()" cqc_default sample_collect_inputs]
  show ?thesis by (auto simp: sample_collect_env_def op_ret_def)
qed

end
