(* ===== verification/Quote_Locks.thy ===== *)
theory Quote_Locks
  imports Errors
begin

text \<open>
  \<open>src/domain/services/quote_lock.rs\<close> and the service of
  \<open>src/infrastructure/persistence/in_memory/quote_lock_repository.rs\<close>: at most one holder may
  work on a quote, for a limited time. The contract of the trait is the locale
  \<open>quote_lock_service\<close>; what follows for a holder among any number of others is proved there.
  Spans are nanoseconds. A mutex may be poisoned: then every call reports it.
\<close>

section \<open>Locks\<close>

record quote_lock =
  ql_quote_id :: uuid
  ql_holder_id :: uuid
  ql_locked_at :: timestamp
  ql_expires_at :: timestamp

text \<open>A span in milliseconds, clamped to \<open>i64::MAX\<close>.\<close>

definition clamped_millis :: "nat \<Rightarrow> int" where
  "clamped_millis ttl = int (min (ttl div 1000000) (2 ^ 63 - 1))"

definition ql_new :: "uuid \<Rightarrow> uuid \<Rightarrow> timestamp \<Rightarrow> nat \<Rightarrow> quote_lock" where
  "ql_new q h locked_at ttl = \<lparr> ql_quote_id = q, ql_holder_id = h, ql_locked_at = locked_at,
     ql_expires_at = ts_add_millis locked_at (clamped_millis ttl) \<rparr>"

definition ql_new_with_expiry :: "uuid \<Rightarrow> uuid \<Rightarrow> timestamp \<Rightarrow> timestamp \<Rightarrow> quote_lock" where
  "ql_new_with_expiry q h locked_at expires_at = \<lparr> ql_quote_id = q, ql_holder_id = h,
     ql_locked_at = locked_at, ql_expires_at = expires_at \<rparr>"

definition ql_is_expired :: "timestamp \<Rightarrow> quote_lock \<Rightarrow> bool" where
  "ql_is_expired now l \<longleftrightarrow> ql_expires_at l \<le> now"

text \<open>The time left, in whole milliseconds of the two instants.\<close>

definition ql_remaining_ttl :: "timestamp \<Rightarrow> quote_lock \<Rightarrow> nat" where
  "ql_remaining_ttl now l =
     (if ql_expires_at l \<le> now then 0
      else nat (ql_expires_at l div 1000000 - now div 1000000) * 1000000)"

record quote_lock_config =
  qlc_default_ttl :: nat
  qlc_max_ttl :: nat

definition qlc_default :: quote_lock_config where
  "qlc_default = \<lparr> qlc_default_ttl = 1000 * 1000000, qlc_max_ttl = 5 * 1000000000 \<rparr>"

definition qlc_effective_ttl :: "quote_lock_config \<Rightarrow> nat option \<Rightarrow> nat" where
  "qlc_effective_ttl c requested =
     min (case requested of Some t \<Rightarrow> t | None \<Rightarrow> qlc_default_ttl c) (qlc_max_ttl c)"

lemma ql_new_sel [simp]:
  "ql_quote_id (ql_new q h t ttl) = q" "ql_holder_id (ql_new q h t ttl) = h"
  "ql_locked_at (ql_new q h t ttl) = t"
  by (simp_all add: ql_new_def)

lemma ql_new_expiry:
  "ql_expires_at (ql_new q h t ttl) \<le> t + int ttl"
  "ttl div 1000000 < 2 ^ 63 \<Longrightarrow> ql_expires_at (ql_new q h t ttl) = t + int (ttl div 1000000 * 1000000)"
proof -
  have "int (min (ttl div 1000000) (2 ^ 63 - 1)) * 1000000 \<le> int (ttl div 1000000) * 1000000"
    by (intro mult_right_mono) simp_all
  also have "\<dots> \<le> int ttl" by linarith
  finally show "ql_expires_at (ql_new q h t ttl) \<le> t + int ttl"
    by (simp add: ql_new_def ts_add_millis_def clamped_millis_def)
  show "ql_expires_at (ql_new q h t ttl) = t + int (ttl div 1000000 * 1000000)"
    if "ttl div 1000000 < 2 ^ 63"
    using that by (simp add: ql_new_def ts_add_millis_def clamped_millis_def min_def)
qed

lemma remaining_ttl_le: "int (ql_remaining_ttl now l) < max 1 (ql_expires_at l - now) + 1000000"
proof -
  have "a div 1000000 * 1000000 - b div 1000000 * 1000000 < a - b + 1000000" for a b :: int
    using pos_mod_sign [of 1000000 a] pos_mod_bound [of 1000000 b]
    by (simp add: minus_mod_eq_div_mult [symmetric])
  from this [of "ql_expires_at l" now] show ?thesis
    by (auto simp: ql_remaining_ttl_def left_diff_distrib max_def)
qed

section \<open>The in-memory service\<close>

record lock_repo =
  lr_locks :: "uuid \<rightharpoonup> quote_lock"
  lr_poisoned :: bool

definition lr_new :: lock_repo where
  "lr_new = \<lparr> lr_locks = Map.empty, lr_poisoned = False \<rparr>"

text \<open>
  The clock readings of one call: one for each entry of the sweep, then \<open>qc_check\<close> for the
  expiry of the entry and \<open>qc_stamp\<close> after it, \<open>qc_late\<close> where a third reading is made.
\<close>

record lock_clock =
  qc_sweep :: "uuid \<Rightarrow> timestamp"
  qc_check :: timestamp
  qc_stamp :: timestamp
  qc_late :: timestamp

definition lr_cleanup_expired :: "(uuid \<Rightarrow> timestamp) \<Rightarrow> lock_repo \<Rightarrow> lock_repo" where
  "lr_cleanup_expired clk R =
     (if lr_poisoned R then R
      else R\<lparr> lr_locks := (\<lambda>q. case lr_locks R q of
         Some l \<Rightarrow> if \<not> ql_is_expired (clk q) l then Some l else None
       | None \<Rightarrow> None) \<rparr>)"

definition lr_active_lock_count :: "lock_clock \<Rightarrow> lock_repo \<Rightarrow> nat \<times> lock_repo" where
  "lr_active_lock_count c R =
     (let R = lr_cleanup_expired (qc_sweep c) R in
      (if lr_poisoned R then 0 else card (dom (lr_locks R)), R))"

definition lr_lock :: "lock_clock \<Rightarrow> uuid \<Rightarrow> uuid \<Rightarrow> nat \<Rightarrow> (lock_repo, 'd domain_error, quote_lock) op" where
  "lr_lock c q h ttl R =
     (let R = lr_cleanup_expired (qc_sweep c) R in
      if lr_poisoned R then (Inl (LockAcquisitionFailed (Txt ''Lock mutex poisoned'')), R)
      else
        let taken = (case lr_locks R q of
               Some existing \<Rightarrow> \<not> ql_is_expired (qc_check c) existing \<and> ql_holder_id existing \<noteq> h
             | None \<Rightarrow> False) in
        if taken
        then (Inl (QuoteLocked (Fmt ''Quote {} is already locked by another holder'' [ArgUuid q])), R)
        else let l = ql_new q h (qc_stamp c) ttl in
          (Inr l, R\<lparr> lr_locks := (lr_locks R)(q \<mapsto> l) \<rparr>))"

definition lr_release :: "quote_lock \<Rightarrow> (lock_repo, 'd) mutation" where
  "lr_release l R =
     (if lr_poisoned R then (Inl (LockAcquisitionFailed (Txt ''Lock mutex poisoned'')), R)
      else (Inr (),
        case lr_locks R (ql_quote_id l) of
          Some existing \<Rightarrow>
            if ql_holder_id existing = ql_holder_id l
            then R\<lparr> lr_locks := (lr_locks R)(ql_quote_id l := None) \<rparr> else R
        | None \<Rightarrow> R))"

definition lr_is_locked :: "lock_clock \<Rightarrow> uuid \<Rightarrow> lock_repo \<Rightarrow> quote_lock option \<times> lock_repo" where
  "lr_is_locked c q R =
     (let R = lr_cleanup_expired (qc_sweep c) R in
      (if lr_poisoned R then None
       else (case lr_locks R q of
          Some l \<Rightarrow> if \<not> ql_is_expired (qc_check c) l then Some l else None
        | None \<Rightarrow> None), R))"

definition lr_extend :: "lock_clock \<Rightarrow> quote_lock \<Rightarrow> nat \<Rightarrow> (lock_repo, 'd domain_error, quote_lock) op" where
  "lr_extend c l additional_ttl R =
     (if lr_poisoned R then (Inl (LockAcquisitionFailed (Txt ''Lock mutex poisoned'')), R)
      else (case lr_locks R (ql_quote_id l) of
        Some existing \<Rightarrow>
          if ql_is_expired (qc_check c) existing
          then (Inl (LockAcquisitionFailed (Txt ''Lock has expired'')), R)
          else if ql_holder_id existing \<noteq> ql_holder_id l
          then (Inl (LockAcquisitionFailed (Txt ''Lock held by different holder'')), R)
          else
            let base_time = (if qc_stamp c < ql_expires_at existing then ql_expires_at existing
                   else qc_late c);
                new_lock = ql_new_with_expiry (ql_quote_id l) (ql_holder_id l) (ql_locked_at existing)
                   (ts_add_millis base_time (clamped_millis additional_ttl)) in
            (Inr new_lock, R\<lparr> lr_locks := (lr_locks R)(ql_quote_id l \<mapsto> new_lock) \<rparr>)
      | None \<Rightarrow> (Inl (LockAcquisitionFailed (Txt ''Lock not found'')), R)))"

lemmas lr_defs = lr_cleanup_expired_def lr_lock_def lr_release_def lr_is_locked_def lr_extend_def
  ql_is_expired_def Let_def

section \<open>Calls of the service\<close>

text \<open>The calls other tasks make, with the clock they read.\<close>

datatype lock_call =
    Lock lock_clock uuid uuid nat
  | Release quote_lock
  | Extend lock_clock quote_lock nat
  | IsLocked lock_clock uuid
  | ActiveLockCount lock_clock

text \<open>All readings of a call come before an instant.\<close>

definition clock_before :: "timestamp \<Rightarrow> lock_clock \<Rightarrow> bool" where
  "clock_before t c \<longleftrightarrow> (\<forall>q. qc_sweep c q < t) \<and> qc_check c < t \<and> qc_stamp c < t \<and> qc_late c < t"

primrec call_before :: "timestamp \<Rightarrow> lock_call \<Rightarrow> bool" where
  "call_before t (Lock c q h ttl) \<longleftrightarrow> clock_before t c"
| "call_before t (Release l) \<longleftrightarrow> True"
| "call_before t (Extend c l ttl) \<longleftrightarrow> clock_before t c"
| "call_before t (IsLocked c q) \<longleftrightarrow> clock_before t c"
| "call_before t (ActiveLockCount c) \<longleftrightarrow> clock_before t c"

text \<open>The holder and the quote a call acts for; a question acts for nobody.\<close>

primrec call_by :: "uuid \<Rightarrow> uuid \<Rightarrow> lock_call \<Rightarrow> bool" where
  "call_by h q (Lock c q' h' ttl) \<longleftrightarrow> h' = h \<and> q' = q"
| "call_by h q (Release l) \<longleftrightarrow> ql_holder_id l = h \<and> ql_quote_id l = q"
| "call_by h q (Extend c l ttl) \<longleftrightarrow> ql_holder_id l = h \<and> ql_quote_id l = q"
| "call_by h q (IsLocked c q') \<longleftrightarrow> False"
| "call_by h q (ActiveLockCount c) \<longleftrightarrow> False"

text \<open>A granted lock of the quote, in the answer to a call.\<close>

definition grants :: "uuid \<Rightarrow> lock_call \<times> ('e + quote_lock option) \<Rightarrow> bool" where
  "grants q x \<longleftrightarrow> (\<exists>l. snd x = Inr (Some l) \<and> ql_quote_id l = q)"

text \<open>The answers to a list of calls, and the state after it.\<close>

fun call_trace :: "('c \<Rightarrow> ('s, 'e, 'a) op) \<Rightarrow> 'c list \<Rightarrow> 's \<Rightarrow> ('c \<times> ('e + 'a)) list \<times> 's" where
  "call_trace call [] s = ([], s)"
| "call_trace call (c # cs) s =
     (case call c s of (a, s) \<Rightarrow> case call_trace call cs s of (xs, s) \<Rightarrow> ((c, a) # xs, s))"

text \<open>One call on the in-memory service; only granted locks matter of the results.\<close>

primrec lr_apply :: "lock_call \<Rightarrow> (lock_repo, 'd domain_error, quote_lock option) op" where
  "lr_apply (Lock c q h ttl) R = (case lr_lock c q h ttl R of
      (Inl e, R) \<Rightarrow> (Inl e, R) | (Inr l, R) \<Rightarrow> (Inr (Some l), R))"
| "lr_apply (Release l) R = (case lr_release l R of
      (Inl e, R) \<Rightarrow> (Inl e, R) | (Inr _, R) \<Rightarrow> (Inr None, R))"
| "lr_apply (Extend c l ttl) R = (case lr_extend c l ttl R of
      (Inl e, R) \<Rightarrow> (Inl e, R) | (Inr l, R) \<Rightarrow> (Inr (Some l), R))"
| "lr_apply (IsLocked c q) R = (case lr_is_locked c q R of (_, R) \<Rightarrow> (Inr None, R))"
| "lr_apply (ActiveLockCount c) R = (case lr_active_lock_count c R of (_, R) \<Rightarrow> (Inr None, R))"

lemmas call_defs = lr_defs lr_active_lock_count_def clock_before_def grants_def

section \<open>The contract of the trait\<close>

text \<open>
  What a client of \<open>QuoteLockService\<close> relies on: a lock that has not expired is changed by its
  holder only, nobody else is granted the quote, and a release by the holder frees it.
\<close>

locale quote_lock_service =
  fixes held :: "'s \<Rightarrow> uuid \<Rightarrow> quote_lock option"
    and call :: "lock_call \<Rightarrow> ('s, 'e, quote_lock option) op"
  assumes lock_granted: "call (Lock k q h ttl) s = (Inr (Some l), s')
      \<Longrightarrow> held s' q = Some l \<and> ql_quote_id l = q \<and> ql_holder_id l = h"
    and others_keep: "held s q = Some l \<Longrightarrow> \<not> call_by (ql_holder_id l) q c
      \<Longrightarrow> call_before (ql_expires_at l) c \<Longrightarrow> held (snd (call c s)) q = Some l"
    and others_refused: "held s q = Some l \<Longrightarrow> \<not> call_by (ql_holder_id l) q c
      \<Longrightarrow> call_before (ql_expires_at l) c \<Longrightarrow> \<not> grants q (c, fst (call c s))"
    and holder_releases: "call (Release r) s = (Inr a, s') \<Longrightarrow> held s (ql_quote_id r) = Some l
      \<Longrightarrow> ql_holder_id l = ql_holder_id r \<Longrightarrow> held s' (ql_quote_id r) = None"
begin

lemma protected:
  assumes "held s q = Some l"
    and "\<forall>c\<in>set cs. \<not> call_by (ql_holder_id l) q c \<and> call_before (ql_expires_at l) c"
    and "call_trace call cs s = (xs, s')"
  shows "held s' q = Some l \<and> (\<forall>x\<in>set xs. \<not> grants q x)"
  using assms
proof (induction cs arbitrary: s xs s')
  case (Cons c cs)
  obtain a s1 where c: "call c s = (a, s1)" by fastforce
  obtain ys where rest: "call_trace call cs s1 = (ys, s')" "xs = (c, a) # ys"
    using Cons.prems(3) c by (auto split: prod.splits)
  have "held s1 q = Some l" "\<not> grants q (c, a)"
    using others_keep [OF Cons.prems(1), of c] others_refused [OF Cons.prems(1), of c] Cons.prems(2) c
    by simp_all
  then show ?case using Cons.IH [of s1 ys s'] Cons.prems(2) rest by simp
qed simp

lemma granted_is_exclusive:
  assumes "call (Lock k q h ttl) s = (Inr (Some l), s1)"
    and "\<forall>c\<in>set cs. \<not> call_by h q c \<and> call_before (ql_expires_at l) c"
    and "call_trace call cs s1 = (xs, s')"
  shows "held s' q = Some l \<and> (\<forall>x\<in>set xs. \<not> grants q x)"
  using protected [of s1 q l cs xs s'] lock_granted [OF assms(1)] assms(2,3) by blast

text \<open>The holder's release frees the quote, and one by an earlier holder does not.\<close>

lemma release_after_work:
  assumes "call (Lock k q h ttl) s = (Inr (Some l), s1)"
    and "\<forall>c\<in>set cs. \<not> call_by h q c \<and> call_before (ql_expires_at l) c"
    and "call_trace call cs s1 = (xs, s2)" "call (Release l) s2 = (Inr a, s')"
  shows "held s' q = None"
  using holder_releases [OF assms(4)] granted_is_exclusive [OF assms(1-3)] lock_granted [OF assms(1)]
  by fastforce

lemma stale_release:
  assumes "held s q = Some l" "ql_holder_id r \<noteq> ql_holder_id l"
  shows "held (snd (call (Release r) s)) q = Some l"
  using others_keep [OF assms(1), of "Release r"] assms(2) by simp

end

text \<open>The in-memory service keeps the contract.\<close>

lemma lr_sweep_keeps:
  "lr_locks R q = Some l \<Longrightarrow> clk q < ql_expires_at l \<Longrightarrow> lr_locks (lr_cleanup_expired clk R) q = Some l"
  by (simp add: lr_cleanup_expired_def ql_is_expired_def)

lemma lr_sweep_poisoned [simp]: "lr_poisoned (lr_cleanup_expired clk R) = lr_poisoned R"
  by (simp add: lr_cleanup_expired_def)

interpretation lr: quote_lock_service lr_locks "lr_apply :: _ \<Rightarrow> (_, 'd domain_error, _) op"
proof unfold_locales
  fix c q h ttl and s :: lock_repo and l s' assume "(lr_apply (Lock c q h ttl) :: (_, 'd domain_error, _) op) s = (Inr (Some l), s')"
  then show "lr_locks s' q = Some l \<and> ql_quote_id l = q \<and> ql_holder_id l = h"
    by (auto simp: lr_lock_def Let_def split: if_splits)
next
  fix s :: lock_repo and q l c assume h: "lr_locks s q = Some l" "\<not> call_by (ql_holder_id l) q c" "call_before (ql_expires_at l) c"
  show "lr_locks (snd ((lr_apply c :: (_, 'd domain_error, _) op) s)) q = Some l"
  proof (cases c)
    case (Lock k p g ttl)
    then show ?thesis using h lr_sweep_keeps [OF h(1), of "qc_sweep k"]
      by (auto simp: lr_lock_def Let_def clock_before_def ql_is_expired_def)
  qed (use h lr_sweep_keeps [OF h(1)] in \<open>auto simp: lr_release_def lr_extend_def lr_is_locked_def
      lr_active_lock_count_def clock_before_def ql_is_expired_def Let_def split: option.splits\<close>)
  show "\<not> grants q (c, fst ((lr_apply c :: (_, 'd domain_error, _) op) s))"
  proof (cases c)
    case (Lock k p g ttl)
    then show ?thesis using h lr_sweep_keeps [OF h(1), of "qc_sweep k"]
      by (auto simp: lr_lock_def Let_def clock_before_def ql_is_expired_def grants_def)
  qed (use h in \<open>auto simp: lr_release_def lr_extend_def lr_is_locked_def ql_new_with_expiry_def
      lr_active_lock_count_def grants_def Let_def split: option.splits\<close>)
next
  fix r and s :: lock_repo and a s' l
  assume "(lr_apply (Release r) :: (_, 'd domain_error, _) op) s = (Inr a, s')"
    "lr_locks s (ql_quote_id r) = Some l" "ql_holder_id l = ql_holder_id r"
  then show "lr_locks s' (ql_quote_id r) = None"
    by (auto simp: lr_release_def split: if_splits)
qed

text \<open>No call poisons the mutex.\<close>

lemma lr_apply_poisoned [simp]:
  "lr_poisoned (snd ((lr_apply c :: (_, 'd domain_error, _) op) R)) = lr_poisoned R"
  by (cases c) (auto simp: lr_release_def lr_extend_def lr_is_locked_def lr_lock_def
      lr_active_lock_count_def Let_def split: option.splits)

lemma call_trace_poisoned:
  "call_trace (lr_apply :: _ \<Rightarrow> (_, 'd domain_error, _) op) cs R = (xs, R') \<Longrightarrow> lr_poisoned R' = lr_poisoned R"
proof (induction cs arbitrary: R xs)
  case (Cons c cs)
  from Cons.prems obtain ys where
    "call_trace (lr_apply :: _ \<Rightarrow> (_, 'd domain_error, _) op) cs
       (snd ((lr_apply c :: (_, 'd domain_error, _) op) R)) = (ys, R')"
    by (auto split: prod.splits)
  then show ?case using Cons.IH by simp
qed simp

section \<open>Properties\<close>

text \<open>
  A granted lock is exclusive until it expires: whatever calls other holders make on the
  service before that instant, none of them is granted the quote, the lock stays as it was
  granted, and the holder's release then frees the quote.
\<close>

theorem quote_lock_exclusive:
  assumes "(lr_lock c q h ttl R :: ('d domain_error + _) \<times> _) = (Inr l, R1)"
    and "\<forall>k\<in>set cs. \<not> call_by h q k \<and> call_before (ql_expires_at l) k"
    and "call_trace (lr_apply :: _ \<Rightarrow> (_, 'd domain_error, _) op) cs R1 = (xs, R2)"
  shows "lr_locks R2 q = Some l \<and> (\<forall>x\<in>set xs. \<not> grants q x)
    \<and> lr_locks (snd (lr_release l R2 :: ('d domain_error + _) \<times> _)) q = None"
proof -
  have lock: "(lr_apply (Lock c q h ttl) R :: ('d domain_error + _) \<times> _) = (Inr (Some l), R1)"
    by (simp add: assms(1))
  have free: "\<not> lr_poisoned R1" using assms(1) by (auto simp: lr_lock_def Let_def split: if_splits)
  then have "(lr_apply (Release l) R2 :: ('d domain_error + _) \<times> _)
      = (Inr None, snd (lr_release l R2 :: ('d domain_error + _) \<times> _))"
    using call_trace_poisoned [OF assms(3)] by (simp add: lr_release_def)
  then show ?thesis
    using lr.granted_is_exclusive [OF lock assms(2,3)] lr.release_after_work [OF lock assms(2,3)] by blast
qed

definition sample_clock :: "timestamp \<Rightarrow> lock_clock" where
  "sample_clock t = \<lparr> qc_sweep = (\<lambda>_. t), qc_check = t, qc_stamp = t, qc_late = t \<rparr>"

lemma quote_lock_exclusive_witness:
  "let l = ql_new 1 7 100 (5 * 1000000); R1 = \<lparr> lr_locks = [1 \<mapsto> l], lr_poisoned = False \<rparr>;
       tr = call_trace (lr_apply :: _ \<Rightarrow> (_, int domain_error, _) op)
         [Lock (sample_clock 200) 1 8 1000000, IsLocked (sample_clock 300) 1] R1 in
   lr_locks (snd tr) 1 = Some l \<and> (\<forall>x\<in>set (fst tr). \<not> grants 1 x)"
proof -
  let ?l = "ql_new 1 7 100 (5 * 1000000)" and ?R1 = "\<lparr> lr_locks = [1 \<mapsto> ql_new 1 7 100 (5 * 1000000)], lr_poisoned = False \<rparr>"
  have granted: "(lr_lock (sample_clock 100) 1 7 (5 * 1000000) lr_new :: (int domain_error + _) \<times> _)
      = (Inr ?l, ?R1)"
    by (simp add: lr_lock_def lr_cleanup_expired_def lr_new_def sample_clock_def fun_eq_iff Let_def)
  have others: "\<forall>k\<in>set [Lock (sample_clock 200) 1 8 1000000, IsLocked (sample_clock 300) 1].
      \<not> call_by 7 1 k \<and> call_before (ql_expires_at ?l) k"
    by (simp add: clock_before_def sample_clock_def ql_new_def ts_add_millis_def clamped_millis_def)
  show ?thesis
    using quote_lock_exclusive [OF granted others surjective_pairing]
    by (auto simp: Let_def)
qed

end
