(* ===== verification/Acceptance.thy ===== *)
theory Acceptance
  imports Quote_Locks Use_Cases
begin

text \<open>
  The acceptance of a quote: \<open>src/domain/services/acceptance_flow.rs\<close> with the results of
  \<open>risk_check.rs\<close> and \<open>last_look.rs\<close>. Lock the quote, check risk, ask the market maker for a last
  look, execute, release the lock. The four services are traits, given as a record of calls on
  a state \<open>'x\<close> of the world, as in \<open>Use_Cases\<close>. Spans are nanoseconds; each reading of the
  elapsed time is an argument.
\<close>

section \<open>Risk checks\<close>

record 'd risk_result =
  rk_passed :: bool
  rk_rfq_id :: uuid
  rk_quote_id :: uuid
  rk_margin_available :: "'d option"
  rk_collateral_required :: "'d option"
  rk_current_position :: "'d option"
  rk_position_limit :: "'d option"
  rk_warnings :: "string list"
  rk_failure_reason :: "string option"

definition rk_pass :: "uuid \<Rightarrow> uuid \<Rightarrow> 'd risk_result" where
  "rk_pass r q = \<lparr> rk_passed = True, rk_rfq_id = r, rk_quote_id = q, rk_margin_available = None,
     rk_collateral_required = None, rk_current_position = None, rk_position_limit = None,
     rk_warnings = [], rk_failure_reason = None \<rparr>"

definition rk_failed :: "uuid \<Rightarrow> uuid \<Rightarrow> string \<Rightarrow> 'd risk_result" where
  "rk_failed r q reason = \<lparr> rk_passed = False, rk_rfq_id = r, rk_quote_id = q,
     rk_margin_available = None, rk_collateral_required = None, rk_current_position = None,
     rk_position_limit = None, rk_warnings = [], rk_failure_reason = Some reason \<rparr>"

definition rk_with_warning :: "string \<Rightarrow> 'd risk_result \<Rightarrow> 'd risk_result" where
  "rk_with_warning w r = r\<lparr> rk_warnings := rk_warnings r @ [w] \<rparr>"

definition rk_to_error :: "'d risk_result \<Rightarrow> 'd domain_error option" where
  "rk_to_error r =
     (if rk_passed r then None
      else Some (RiskCheckFailed (Txt (case rk_failure_reason r of
             Some reason \<Rightarrow> reason | None \<Rightarrow> ''Unknown risk check failure''))))"

record 'd risk_check_config =
  rcc_enabled :: bool
  rcc_default_margin_requirement :: 'd
  rcc_default_position_limit :: "'d option"
  rcc_fail_on_warnings :: bool

text \<open>\<open>Decimal::new(10, 2)\<close>, 10%; \<open>None\<close> where the package's constructor panics.\<close>

definition rcc_default :: "'d dec \<Rightarrow> 'd risk_check_config option" where
  "rcc_default D = map_option (\<lambda>m. \<lparr> rcc_enabled = True, rcc_default_margin_requirement = m,
     rcc_default_position_limit = None, rcc_fail_on_warnings = False \<rparr>) (dnew D 10 2)"

section \<open>Last look\<close>

datatype last_look_reject_reason = PriceMoved | CapacityExceededLook | RiskLimit | TimeoutLook | OtherReason string

definition ll_reason_display :: "last_look_reject_reason \<Rightarrow> 'd msg" where
  "ll_reason_display r = (case r of
       PriceMoved \<Rightarrow> Txt ''price_moved''
     | CapacityExceededLook \<Rightarrow> Txt ''capacity_exceeded''
     | RiskLimit \<Rightarrow> Txt ''risk_limit''
     | TimeoutLook \<Rightarrow> Txt ''timeout''
     | OtherReason s \<Rightarrow> Fmt ''other: {reason}'' [ArgStr s])"

datatype last_look_result =
    LookConfirmed (ll_quote_id: uuid) timestamp
  | LookRejected (ll_quote_id: uuid) last_look_reject_reason timestamp
  | LookTimeout (ll_quote_id: uuid) nat timestamp

definition ll_is_confirmed :: "last_look_result \<Rightarrow> bool" where
  "ll_is_confirmed l = (case l of LookConfirmed _ _ \<Rightarrow> True | _ \<Rightarrow> False)"

definition ll_to_error :: "last_look_result \<Rightarrow> 'd domain_error option" where
  "ll_to_error l = (case l of
       LookConfirmed _ _ \<Rightarrow> None
     | LookRejected _ reason _ \<Rightarrow> Some (LastLookRejected (ll_reason_display reason))
     | LookTimeout _ timeout _ \<Rightarrow> Some (LastLookTimeout
         (Fmt ''Last-look timed out after {}ms'' [ArgNat (timeout div 1000000)])))"

record last_look_config =
  llc_default_timeout :: nat
  llc_max_timeout :: nat
  llc_skip_if_not_required :: bool

definition llc_default :: last_look_config where
  "llc_default = \<lparr> llc_default_timeout = 200 * 1000000, llc_max_timeout = 500 * 1000000,
     llc_skip_if_not_required = True \<rparr>"

definition llc_effective_timeout :: "last_look_config \<Rightarrow> nat option \<Rightarrow> nat" where
  "llc_effective_timeout c requested =
     min (case requested of Some t \<Rightarrow> t | None \<Rightarrow> llc_default_timeout c) (llc_max_timeout c)"

text \<open>The market makers' statistics, in saturating 64-bit counters.\<close>

record last_look_stats =
  lls_total_requests :: u64
  lls_confirmations :: u64
  lls_rejections :: u64
  lls_timeouts :: u64

definition lls_new :: last_look_stats where
  "lls_new = \<lparr> lls_total_requests = 0, lls_confirmations = 0, lls_rejections = 0, lls_timeouts = 0 \<rparr>"

definition lls_record_confirmation :: "last_look_stats \<Rightarrow> last_look_stats" where
  "lls_record_confirmation s = s\<lparr> lls_total_requests := sat_add (lls_total_requests s) 1,
     lls_confirmations := sat_add (lls_confirmations s) 1 \<rparr>"

definition lls_record_rejection :: "last_look_stats \<Rightarrow> last_look_stats" where
  "lls_record_rejection s = s\<lparr> lls_total_requests := sat_add (lls_total_requests s) 1,
     lls_rejections := sat_add (lls_rejections s) 1 \<rparr>"

definition lls_record_timeout :: "last_look_stats \<Rightarrow> last_look_stats" where
  "lls_record_timeout s = s\<lparr> lls_total_requests := sat_add (lls_total_requests s) 1,
     lls_timeouts := sat_add (lls_timeouts s) 1 \<rparr>"

section \<open>The flow\<close>

record 'd acceptance_result =
  ar_rfq_id :: uuid
  ar_quote_id :: uuid
  ar_risk_result :: "'d risk_result"
  ar_last_look_result :: "last_look_result option"
  ar_duration :: nat

datatype acceptance_failure_reason =
    AfQuoteLocked
  | AfLockAcquisitionFailed string
  | AfRiskCheckFailed string
  | AfLastLookRejected string
  | AfLastLookTimeout
  | AfAcceptanceTimeout
  | AfExecutionFailed string

definition af_to_error :: "acceptance_failure_reason \<Rightarrow> 'd domain_error" where
  "af_to_error f = (case f of
       AfQuoteLocked \<Rightarrow> QuoteLocked (Txt ''Quote is already locked'')
     | AfLockAcquisitionFailed m \<Rightarrow> LockAcquisitionFailed (Txt m)
     | AfRiskCheckFailed m \<Rightarrow> RiskCheckFailed (Txt m)
     | AfLastLookRejected m \<Rightarrow> LastLookRejected (Txt m)
     | AfLastLookTimeout \<Rightarrow> LastLookTimeout (Txt ''Timed out'')
     | AfAcceptanceTimeout \<Rightarrow> AcceptanceTimeout (Txt ''Timed out'')
     | AfExecutionFailed m \<Rightarrow> InvalidState (Txt m))"

record 'd acceptance_flow_config =
  afc_total_timeout :: nat
  afc_lock_config :: quote_lock_config
  afc_risk_config :: "'d risk_check_config"
  afc_last_look_config :: last_look_config

definition afc_new :: "'d dec \<Rightarrow> nat \<Rightarrow> 'd acceptance_flow_config option" where
  "afc_new D total_timeout = map_option (\<lambda>k. \<lparr> afc_total_timeout = total_timeout,
     afc_lock_config = qlc_default, afc_risk_config = k, afc_last_look_config = llc_default \<rparr>)
     (rcc_default D)"

definition afc_default :: "'d dec \<Rightarrow> 'd acceptance_flow_config option" where
  "afc_default D = afc_new D (500 * 1000000)"

definition afc_remaining_time :: "'d acceptance_flow_config \<Rightarrow> nat \<Rightarrow> nat" where
  "afc_remaining_time cfg elapsed = afc_total_timeout cfg - elapsed"

definition afc_is_timed_out :: "'d acceptance_flow_config \<Rightarrow> nat \<Rightarrow> bool" where
  "afc_is_timed_out cfg elapsed \<longleftrightarrow> afc_total_timeout cfg \<le> elapsed"

text \<open>The calls of the four traits the flow makes.\<close>

record ('x, 'd) accept_env =
  ae_lock :: "uuid \<Rightarrow> uuid \<Rightarrow> nat \<Rightarrow> ('x, 'd domain_error, quote_lock) op"
  ae_release :: "quote_lock \<Rightarrow> ('x, 'd) mutation"
  ae_check_risk :: "'d rfq \<Rightarrow> 'd quote \<Rightarrow> 'x \<Rightarrow> 'd risk_result \<times> 'x"
  ae_requires_last_look :: "venue_id \<Rightarrow> 'x \<Rightarrow> bool"
  ae_request_look :: "'d quote \<Rightarrow> nat \<Rightarrow> 'x \<Rightarrow> last_look_result \<times> 'x"
  ae_record_look :: "venue_id \<Rightarrow> last_look_result \<Rightarrow> 'x \<Rightarrow> 'x"
  ae_execute :: "'d rfq \<Rightarrow> 'd quote \<Rightarrow> 'd risk_result \<Rightarrow> ('x, 'd domain_error, 'd trade) op"

text \<open>The fresh holder and the elapsed times, in the order they are read.\<close>

record accept_inputs =
  ai_at_lock :: nat
  ai_holder :: uuid
  ai_at_risk :: nat
  ai_at_look :: nat
  ai_remaining_at :: nat
  ai_at_execution :: nat
  ai_at_end :: nat

definition af_acquire_lock :: "('x, 'd) accept_env \<Rightarrow> 'd acceptance_flow_config \<Rightarrow> accept_inputs
    \<Rightarrow> uuid \<Rightarrow> ('x, 'd domain_error, quote_lock) op" where
  "af_acquire_lock E cfg i qid =
     (if afc_is_timed_out cfg (ai_at_lock i)
      then op_fail (AcceptanceTimeout (Txt ''Timeout before lock''))
      else ae_lock E qid (ai_holder i) (qlc_effective_ttl (afc_lock_config cfg) None))"

definition af_perform_last_look :: "('x, 'd) accept_env \<Rightarrow> 'd acceptance_flow_config \<Rightarrow> accept_inputs
    \<Rightarrow> 'd quote \<Rightarrow> ('x, 'd domain_error, last_look_result option) op" where
  "af_perform_last_look E cfg i quote x =
     (if llc_skip_if_not_required (afc_last_look_config cfg)
         \<and> \<not> ae_requires_last_look E (quote_venue_id quote) x
      then (Inr None, x)
      else if afc_is_timed_out cfg (ai_at_look i)
      then (Inl (AcceptanceTimeout (Txt ''Timeout before last-look'')), x)
      else
        let remaining = afc_remaining_time cfg (ai_remaining_at i);
            requested = min remaining (llc_default_timeout (afc_last_look_config cfg));
            timeout = llc_effective_timeout (afc_last_look_config cfg) (Some requested);
            (res, x) = ae_request_look E quote timeout x;
            x = ae_record_look E (quote_venue_id quote) res x in
        (case res of
           LookConfirmed _ _ \<Rightarrow> Inr (Some res)
         | LookRejected _ reason _ \<Rightarrow> Inl (LastLookRejected (ll_reason_display reason))
         | LookTimeout _ t _ \<Rightarrow> Inl (LastLookTimeout
             (Fmt ''Timed out after {}ms'' [ArgNat (t div 1000000)])), x))"

definition af_execute_with_lock :: "('x, 'd) accept_env \<Rightarrow> 'd acceptance_flow_config \<Rightarrow> accept_inputs
    \<Rightarrow> 'd rfq \<Rightarrow> 'd quote \<Rightarrow> ('x, 'd domain_error, 'd trade \<times> 'd acceptance_result) op" where
  "af_execute_with_lock E cfg i r quote x =
     (if afc_is_timed_out cfg (ai_at_risk i)
      then (Inl (AcceptanceTimeout (Txt ''Timeout before risk check'')), x)
      else
        let (risk, x) = ae_check_risk E r quote x in
        case rk_to_error risk of
          Some err \<Rightarrow> (Inl err, x)
        | None \<Rightarrow>
            op_then (af_perform_last_look E cfg i quote) (\<lambda>look x.
              if afc_is_timed_out cfg (ai_at_execution i)
              then (Inl (AcceptanceTimeout (Txt ''Timeout before execution'')), x)
              else op_then (ae_execute E r quote risk) (\<lambda>trade.
                op_ret (trade, \<lparr> ar_rfq_id = rfq_id r, ar_quote_id = quote_id quote,
                  ar_risk_result = risk, ar_last_look_result = look,
                  ar_duration = ai_at_end i \<rparr>)) x) x)"

text \<open>The lock is released whatever the steps returned, and the answer to that is dropped.\<close>

definition af_accept :: "('x, 'd) accept_env \<Rightarrow> 'd acceptance_flow_config \<Rightarrow> accept_inputs
    \<Rightarrow> 'd rfq \<Rightarrow> 'd quote \<Rightarrow> ('x, 'd domain_error, 'd trade \<times> 'd acceptance_result) op" where
  "af_accept E cfg i r quote =
     op_then (af_acquire_lock E cfg i (quote_id quote)) (\<lambda>lock x.
       let (res, x) = af_execute_with_lock E cfg i r quote x;
           (_, x) = ae_release E lock x in
       (res, x))"

section \<open>What the flow asks for\<close>

text \<open>The calls of the flow with what the services answered.\<close>

datatype 'd accept_call =
    AskedLock uuid uuid nat
  | AskedRisk "'d risk_result"
  | AskedLook nat last_look_result
  | RecordedLook venue_id last_look_result
  | AskedExecution "'d risk_result"
  | AskedRelease quote_lock

definition logged_accept :: "('x, 'd) accept_env \<Rightarrow> ('x \<times> 'd accept_call list, 'd) accept_env" where
  "logged_accept E = \<lparr>
     ae_lock = (\<lambda>q h ttl. log_op (AskedLock q h ttl) (ae_lock E q h ttl)),
     ae_release = (\<lambda>l. log_op (AskedRelease l) (ae_release E l)),
     ae_check_risk = (\<lambda>r q (x, log). case ae_check_risk E r q x of (k, x) \<Rightarrow> (k, x, log @ [AskedRisk k])),
     ae_requires_last_look = (\<lambda>v (x, log). ae_requires_last_look E v x),
     ae_request_look = (\<lambda>q t (x, log). case ae_request_look E q t x of (k, x) \<Rightarrow> (k, x, log @ [AskedLook t k])),
     ae_record_look = (\<lambda>v k (x, log). (ae_record_look E v k x, log @ [RecordedLook v k])),
     ae_execute = (\<lambda>r q k. log_op (AskedExecution k) (ae_execute E r q k)) \<rparr>"

lemma logged_accept_sel [simp]:
  "ae_lock (logged_accept E) q h ttl = log_op (AskedLock q h ttl) (ae_lock E q h ttl)"
  "ae_release (logged_accept E) l = log_op (AskedRelease l) (ae_release E l)"
  "ae_check_risk (logged_accept E) r q' (x, log) =
     (case ae_check_risk E r q' x of (k, x) \<Rightarrow> (k, x, log @ [AskedRisk k]))"
  "ae_requires_last_look (logged_accept E) v (x, log) = ae_requires_last_look E v x"
  "ae_request_look (logged_accept E) q' t (x, log) =
     (case ae_request_look E q' t x of (k, x) \<Rightarrow> (k, x, log @ [AskedLook t k]))"
  "ae_record_look (logged_accept E) v l' (x, log) = (ae_record_look E v l' x, log @ [RecordedLook v l'])"
  "ae_execute (logged_accept E) r q' k = log_op (AskedExecution k) (ae_execute E r q' k)"
  by (simp_all add: logged_accept_def)

text \<open>The calls between lock and release, if nothing fails.\<close>

definition look_calls :: "venue_id \<Rightarrow> nat \<Rightarrow> last_look_result option \<Rightarrow> 'd accept_call list" where
  "look_calls v t look = (case look of None \<Rightarrow> [] | Some k \<Rightarrow> [AskedLook t k, RecordedLook v k])"

definition steps_with_lock :: "venue_id \<Rightarrow> nat \<Rightarrow> 'd risk_result \<Rightarrow> last_look_result option
    \<Rightarrow> 'd accept_call list" where
  "steps_with_lock v t risk look = AskedRisk risk # look_calls v t look @ [AskedExecution risk]"

definition look_timeout :: "'d acceptance_flow_config \<Rightarrow> accept_inputs \<Rightarrow> nat" where
  "look_timeout cfg i = llc_effective_timeout (afc_last_look_config cfg)
     (Some (min (afc_remaining_time cfg (ai_remaining_at i)) (llc_default_timeout (afc_last_look_config cfg))))"

definition look_settled :: "'d acceptance_flow_config \<Rightarrow> last_look_result option \<Rightarrow> bool" where
  "look_settled cfg look \<longleftrightarrow> (case look of
       None \<Rightarrow> llc_skip_if_not_required (afc_last_look_config cfg) | Some k \<Rightarrow> ll_is_confirmed k)"

text \<open>A last look enters its two calls, or none; it succeeds when settled.\<close>

lemma last_look_log:
  assumes "af_perform_last_look (logged_accept E) cfg i q (x, log) = (a, x', log')"
  shows "\<exists>look. log' = log @ look_calls (quote_venue_id q) (look_timeout cfg i) look
    \<and> (\<forall>v. a = Inr v \<longrightarrow> v = look \<and> look_settled cfg look)"
proof -
  obtain k y where look: "ae_request_look E q (look_timeout cfg i) x = (k, y)" by fastforce
  show ?thesis
  proof (cases "log' = log")
    case True
    have "v = None \<and> look_settled cfg None" if "a = Inr v" for v
      using assms that True look by (auto simp: af_perform_last_look_def look_settled_def
          Let_def look_timeout_def [symmetric] split: if_splits prod.splits)
    then show ?thesis using True by (intro exI [of _ None]) (simp add: look_calls_def)
  next
    case False
    then have "log' = log @ [AskedLook (look_timeout cfg i) k, RecordedLook (quote_venue_id q) k]
        \<and> (\<forall>v. a = Inr v \<longrightarrow> v = Some k \<and> ll_is_confirmed k)"
      using assms look by (auto simp: af_perform_last_look_def ll_is_confirmed_def
          Let_def look_timeout_def [symmetric] split: if_splits last_look_result.splits)
    then show ?thesis by (intro exI [of _ "Some k"]) (auto simp: look_calls_def look_settled_def)
  qed
qed

lemma execute_with_lock_log:
  fixes E :: "('x, 'd) accept_env"
  assumes run: "af_execute_with_lock (logged_accept E) cfg i r q (x, log) = (a, x', log')"
  shows "\<exists>risk look n. log' = log @ take n (steps_with_lock (quote_venue_id q) (look_timeout cfg i) risk look)
    \<and> (AskedExecution risk \<in> set (take n (steps_with_lock (quote_venue_id q) (look_timeout cfg i) risk look))
        \<longrightarrow> rk_passed risk \<and> look_settled cfg look \<and> ai_at_execution i < afc_total_timeout cfg)
    \<and> (\<forall>t res. a = Inr (t, res) \<longrightarrow> ar_risk_result res = risk \<and> ar_last_look_result res = look
        \<and> n = length (steps_with_lock (quote_venue_id q) (look_timeout cfg i) risk look))"
    (is "\<exists>risk look n. ?P risk look n")
proof -
  let ?steps = "steps_with_lock (quote_venue_id q) (look_timeout cfg i)"
  obtain risk y where risk: "ae_check_risk E r q x = (risk, y)" by fastforce
  consider "afc_is_timed_out cfg (ai_at_risk i)" | e where "\<not> afc_is_timed_out cfg (ai_at_risk i)" "rk_to_error risk = Some (e :: 'd domain_error)"
    | "\<not> afc_is_timed_out cfg (ai_at_risk i)" "rk_to_error risk = None" by fastforce
  then show ?thesis
  proof cases
    case 1
    then have "?P risk None 0" using run by (auto simp: af_execute_with_lock_def)
    then show ?thesis by blast
  next
    case 2
    then have "?P risk None 1" using run risk
      by (auto simp: af_execute_with_lock_def steps_with_lock_def)
    then show ?thesis by blast
  next
    case 3
    obtain b z log1 where look: "af_perform_last_look (logged_accept E) cfg i q (y, log @ [AskedRisk risk]) = (b, z, log1)"
      by (metis prod_cases3)
    obtain lk where lk: "log1 = log @ AskedRisk risk # look_calls (quote_venue_id q) (look_timeout cfg i) lk"
        "\<forall>v. b = Inr v \<longrightarrow> v = lk \<and> look_settled cfg lk"
      using last_look_log [OF look] by auto
    let ?k = "Suc (length (look_calls (quote_venue_id q) (look_timeout cfg i) lk :: 'd accept_call list))"
    have upto: "take ?k (?steps risk lk) = AskedRisk risk # look_calls (quote_venue_id q) (look_timeout cfg i) lk"
      by (simp add: steps_with_lock_def)
    have none: "AskedExecution risk \<notin> set (look_calls (quote_venue_id q) (look_timeout cfg i) lk)"
      by (simp add: look_calls_def split: option.split)
    have rest: "op_then (\<lambda>_. (b, z, log1)) (\<lambda>look x.
              if afc_is_timed_out cfg (ai_at_execution i)
              then (Inl (AcceptanceTimeout (Txt ''Timeout before execution'')), x)
              else op_then (ae_execute (logged_accept E) r q risk) (\<lambda>trade.
                op_ret (trade, \<lparr> ar_rfq_id = rfq_id r, ar_quote_id = quote_id q,
                  ar_risk_result = risk, ar_last_look_result = look,
                  ar_duration = ai_at_end i \<rparr>)) x) (y, log @ [AskedRisk risk]) = (a, x', log')"
      using run 3 risk look by (simp add: af_execute_with_lock_def op_then_def)
    show ?thesis
    proof (cases "(\<exists>e. b = Inl e) \<or> afc_is_timed_out cfg (ai_at_execution i)")
      case True
      then have "log' = log1 \<and> (\<exists>e. a = Inl e)" using rest by (auto simp: op_then_def split: sum.splits)
      then have "?P risk lk ?k" using upto none lk(1) by auto
      then show ?thesis by blast
    next
      case False
      then obtain v where v: "b = Inr v" by (cases b) auto
      then have "v = lk" "look_settled cfg lk" using lk(2) by simp_all
      then have "log' = log1 @ [AskedExecution risk]
          \<and> (\<forall>t res. a = Inr (t, res) \<longrightarrow> ar_risk_result res = risk \<and> ar_last_look_result res = lk)"
        using rest v False by (auto simp: op_then_def op_ret_def split: sum.splits prod.splits)
      moreover have "rk_passed risk" using 3 by (simp add: rk_to_error_def split: if_splits)
      moreover have "ai_at_execution i < afc_total_timeout cfg" using False by (simp add: afc_is_timed_out_def)
      ultimately have "?P risk lk (length (?steps risk lk))"
        using lk(1) \<open>look_settled cfg lk\<close> by (simp add: steps_with_lock_def)
      then show ?thesis by blast
    qed
  qed
qed

lemma accept_log:
  assumes run: "af_accept (logged_accept E) cfg i r q (x, []) = (a, x', log)"
  defines "ttl \<equiv> qlc_effective_ttl (afc_lock_config cfg) None"
  shows "if afc_is_timed_out cfg (ai_at_lock i) then log = [] \<and> x' = x \<and> (\<exists>e. a = Inl e)
    else (case ae_lock E (quote_id q) (ai_holder i) ttl x of
        (Inl e, y) \<Rightarrow> log = [AskedLock (quote_id q) (ai_holder i) ttl] \<and> x' = y \<and> a = Inl e
      | (Inr l, y) \<Rightarrow> (\<exists>z log1. af_execute_with_lock (logged_accept E) cfg i r q
            (y, [AskedLock (quote_id q) (ai_holder i) ttl]) = (a, z, log1) \<and> log = log1 @ [AskedRelease l]))"
proof (cases "afc_is_timed_out cfg (ai_at_lock i)")
  case True
  then show ?thesis using run by (auto simp: af_accept_def af_acquire_lock_def op_fail_def op_then_def)
next
  case False
  obtain b y where lock: "ae_lock E (quote_id q) (ai_holder i) ttl x = (b, y)" by fastforce
  show ?thesis
  proof (cases b)
    case (Inl e)
    then show ?thesis using run False lock
      by (auto simp: af_accept_def af_acquire_lock_def op_then_def log_op_def ttl_def)
  next
    case (Inr l)
    obtain res z log1 where work: "af_execute_with_lock (logged_accept E) cfg i r q
        (y, [AskedLock (quote_id q) (ai_holder i) ttl]) = (res, z, log1)" by (metis prod_cases3)
    obtain b2 z2 where "ae_release E l z = (b2, z2)" by fastforce
    then have "a = res \<and> log = log1 @ [AskedRelease l]"
      using run False lock Inr work
      by (auto simp: af_accept_def af_acquire_lock_def op_then_def log_op_def ttl_def)
    then show ?thesis using False lock Inr work by simp
  qed
qed

section \<open>Properties of the flow\<close>

definition sample_flow_config :: "int acceptance_flow_config" where
  "sample_flow_config = \<lparr> afc_total_timeout = 500 * 1000000, afc_lock_config = qlc_default,
     afc_risk_config = \<lparr> rcc_enabled = True, rcc_default_margin_requirement = 0,
       rcc_default_position_limit = None, rcc_fail_on_warnings = False \<rparr>,
     afc_last_look_config = llc_default \<rparr>"

definition sample_accept_inputs :: "uuid \<Rightarrow> accept_inputs" where
  "sample_accept_inputs h = \<lparr> ai_at_lock = 0, ai_holder = h, ai_at_risk = 1000, ai_at_look = 2000,
     ai_remaining_at = 2500, ai_at_execution = 3000, ai_at_end = 4000 \<rparr>"

text \<open>Services without a state: the lock is stamped at 50, the market maker confirms.\<close>

definition sample_services :: "(unit, int) accept_env" where
  "sample_services = \<lparr> ae_lock = (\<lambda>q h ttl. op_ret (ql_new q h 50 ttl)), ae_release = (\<lambda>_. op_ret ()),
     ae_check_risk = (\<lambda>r q x. (rk_pass (rfq_id r) (quote_id q), x)), ae_requires_last_look = (\<lambda>_ _. True),
     ae_request_look = (\<lambda>q t x. (LookConfirmed (quote_id q) 7, x)), ae_record_look = (\<lambda>_ _ x. x),
     ae_execute = (\<lambda>_ _ _. op_ret sample_trade) \<rparr>"

lemma sample_acceptance:
  "\<exists>v x' l. af_accept (logged_accept sample_services) sample_flow_config (sample_accept_inputs 5)
      sample_rfq (sample_quote 1 50 300) ((), [])
    = (Inr v, x', [AskedLock 1 5 1000000000, AskedRisk (rk_pass 7 1),
        AskedLook 200000000 (LookConfirmed 1 7), RecordedLook ''venue'' (LookConfirmed 1 7),
        AskedExecution (rk_pass 7 1), AskedRelease l])"
  by (simp add: af_accept_def af_acquire_lock_def af_execute_with_lock_def af_perform_last_look_def
      sample_services_def logged_accept_def log_op_def op_then_def op_ret_def afc_is_timed_out_def
      sample_flow_config_def sample_accept_inputs_def rk_pass_def rk_to_error_def qlc_default_def
      qlc_effective_ttl_def llc_default_def llc_effective_timeout_def afc_remaining_time_def
      sample_quote_def qb_build_def qb_new_def sample_rfq_def rb_build_def rb_new_def)



text \<open>
  With a total time no longer than the lock's time to live the execution is asked for while
  the lock is alive: \<open>t0\<close> is the clock when the flow starts, and every lock the service grants
  is stamped no earlier.
\<close>

theorem execution_starts_under_lock:
  assumes "af_accept (logged_accept E) cfg i r q (x, []) = (a, x', log)" "AskedExecution k \<in> set log"
    and "\<And>p h ttl y l y'. ae_lock E p h ttl y = (Inr l, y') \<Longrightarrow> \<exists>s\<ge>t0. l = ql_new p h s ttl"
    and "afc_total_timeout cfg \<le> qlc_effective_ttl (afc_lock_config cfg) None div 1000000 * 1000000"
    and "qlc_effective_ttl (afc_lock_config cfg) None div 1000000 < 2 ^ 63"
  shows "\<exists>l. AskedRelease l \<in> set log \<and> t0 + int (ai_at_execution i) < ql_expires_at l"
proof -
  let ?ttl = "qlc_effective_ttl (afc_lock_config cfg) None"
  obtain l y z log1 where flow: "ae_lock E (quote_id q) (ai_holder i) ?ttl x = (Inr l, y)"
      "af_execute_with_lock (logged_accept E) cfg i r q (y, [AskedLock (quote_id q) (ai_holder i) ?ttl]) = (a, z, log1)"
      "log = log1 @ [AskedRelease l]"
    using accept_log [OF assms(1)] assms(2) by (auto split: if_splits prod.splits sum.splits)
  obtain risk look n where steps: "log1 = [AskedLock (quote_id q) (ai_holder i) ?ttl]
        @ take n (steps_with_lock (quote_venue_id q) (look_timeout cfg i) risk look)"
      "AskedExecution risk \<in> set (take n (steps_with_lock (quote_venue_id q) (look_timeout cfg i) risk look))
        \<longrightarrow> ai_at_execution i < afc_total_timeout cfg"
    using execute_with_lock_log [OF flow(2)] by blast
  have asked: "AskedExecution k \<in> set (take n (steps_with_lock (quote_venue_id q) (look_timeout cfg i) risk look))"
    using assms(2) flow(3) steps(1) by auto
  then have "k = risk"
    by (auto simp: steps_with_lock_def look_calls_def dest!: in_set_takeD split: option.splits)
  then have "ai_at_execution i < afc_total_timeout cfg" using asked steps(2) by simp
  moreover obtain s where "t0 \<le> s" "l = ql_new (quote_id q) (ai_holder i) s ?ttl" using assms(3) [OF flow(1)] by blast
  moreover have "AskedRelease l \<in> set log" by (simp add: flow(3))
  ultimately show ?thesis
    using ql_new_expiry(2) [OF assms(5), of "quote_id q" "ai_holder i" s] assms(4)
    by (intro exI [of _ l]) (simp del: of_nat_mult)
qed

lemma execution_starts_under_lock_witness:
  "\<exists>a x' log l. af_accept (logged_accept sample_services) sample_flow_config (sample_accept_inputs 5)
      sample_rfq (sample_quote 1 50 300) ((), []) = (a, x', log)
    \<and> AskedRelease l \<in> set log \<and> 50 + int (ai_at_execution (sample_accept_inputs 5)) < ql_expires_at l"
proof -
  obtain v x' l where run: "af_accept (logged_accept sample_services) sample_flow_config (sample_accept_inputs 5)
      sample_rfq (sample_quote 1 50 300) ((), [])
    = (Inr v, x', [AskedLock 1 5 1000000000, AskedRisk (rk_pass 7 1),
        AskedLook 200000000 (LookConfirmed 1 7), RecordedLook ''venue'' (LookConfirmed 1 7),
        AskedExecution (rk_pass 7 1), AskedRelease l])"
    using sample_acceptance by blast
  have lock: "ae_lock sample_services p h ttl y = (Inr m, y') \<Longrightarrow> \<exists>s\<ge>50. m = ql_new p h s ttl" for p h ttl y m y'
    by (auto simp: sample_services_def op_ret_def)
  have "\<exists>m. AskedRelease m \<in> set [AskedLock 1 5 1000000000, AskedRisk (rk_pass 7 1),
        AskedLook 200000000 (LookConfirmed 1 7), RecordedLook ''venue'' (LookConfirmed 1 7),
        AskedExecution (rk_pass 7 1 :: int risk_result), AskedRelease l]
      \<and> 50 + int (ai_at_execution (sample_accept_inputs 5)) < ql_expires_at m"
    by (rule execution_starts_under_lock [OF run _ lock])
      (simp_all add: sample_flow_config_def qlc_default_def qlc_effective_ttl_def)
  then show ?thesis using run by blast
qed

section \<open>Two acceptances of one quote\<close>

text \<open>The flow on the in-memory service; the other services share a state with it.\<close>

definition with_lock_repo :: "lock_clock \<Rightarrow> (lock_repo \<times> 'y, 'd) accept_env
    \<Rightarrow> (lock_repo \<times> 'y, 'd) accept_env" where
  "with_lock_repo c E = E\<lparr>
     ae_lock := (\<lambda>q h ttl (R, y). case lr_lock c q h ttl R of (a, R) \<Rightarrow> (a, R, y)),
     ae_release := (\<lambda>l (R, y). case lr_release l R of (a, R) \<Rightarrow> (a, R, y)) \<rparr>"

lemma with_lock_repo_sel [simp]:
  "ae_lock (with_lock_repo c E) q h ttl (R, y) = (case lr_lock c q h ttl R of (a, R) \<Rightarrow> (a, R, y))"
  "ae_release (with_lock_repo c E) l (R, y) = (case lr_release l R of (a, R) \<Rightarrow> (a, R, y))"
  "ae_check_risk (with_lock_repo c E) = ae_check_risk E"
  "ae_requires_last_look (with_lock_repo c E) = ae_requires_last_look E"
  "ae_request_look (with_lock_repo c E) = ae_request_look E"
  "ae_record_look (with_lock_repo c E) = ae_record_look E"
  "ae_execute (with_lock_repo c E) = ae_execute E"
  by (simp_all add: with_lock_repo_def)

lemma accept_refused:
  fixes E :: "(lock_repo \<times> 'y, 'd) accept_env"
  assumes "lr_locks R (quote_id q) = Some l" "ql_holder_id l \<noteq> ai_holder i" "clock_before (ql_expires_at l) c"
  shows "\<exists>e R'. af_accept (with_lock_repo c E) cfg i r q (R, y) = (Inl e, R', y)
    \<and> lr_locks R' (quote_id q) = Some l"
proof (cases "afc_is_timed_out cfg (ai_at_lock i)")
  case True
  then show ?thesis using assms(1) by (simp add: af_accept_def af_acquire_lock_def op_fail_def op_then_def)
next
  case False
  let ?c = "Lock c (quote_id q) (ai_holder i) (qlc_effective_ttl (afc_lock_config cfg) None)"
  obtain a R' where lock: "(lr_lock c (quote_id q) (ai_holder i) (qlc_effective_ttl (afc_lock_config cfg) None) R
      :: ('d domain_error + _) \<times> _) = (a, R')" by fastforce
  have held: "lr_locks R' (quote_id q) = Some l"
    using lr.others_keep [OF assms(1), of ?c, where 'd = 'd] assms(2,3) lock by (simp split: sum.splits)
  moreover have "a \<noteq> Inr v" for v
    using lr.lock_granted [where 'd = 'd and k = c and q = "quote_id q" and h = "ai_holder i" and s = R
        and ttl = "qlc_effective_ttl (afc_lock_config cfg) None" and l = v and s' = R'] assms(2) held lock by auto
  ultimately show ?thesis using lock False
    by (cases a) (auto simp: af_accept_def af_acquire_lock_def op_then_def)
qed

text \<open>
  C4. While one acceptance works, no other executes the same quote: after it was granted the
  lock and any calls of other holders were made on the service, another acceptance of this
  quote whose clock has not reached the expiry fails without asking for a risk check, a last
  look or an execution, and the lock stands.
\<close>

theorem acceptance_is_exclusive:
  assumes "(lr_lock c (quote_id q) h ttl R :: ('d domain_error + _) \<times> _) = (Inr l, R1)"
    and "\<forall>k\<in>set cs. \<not> call_by h (quote_id q) k \<and> call_before (ql_expires_at l) k"
    and "call_trace (lr_apply :: _ \<Rightarrow> (_, 'd domain_error, _) op) cs R1 = (xs, R2)"
    and "ai_holder i \<noteq> h" "clock_before (ql_expires_at l) c'"
  shows "\<exists>e R3. af_accept (with_lock_repo c' (E :: (_, 'd) accept_env)) cfg i r q (R2, y) = (Inl e, R3, y)
    \<and> lr_locks R3 (quote_id q) = Some l"
proof -
  have lock: "(lr_apply (Lock c (quote_id q) h ttl) R :: ('d domain_error + _) \<times> _) = (Inr (Some l), R1)"
    by (simp add: assms(1))
  have "lr_locks R2 (quote_id q) = Some l" "ql_holder_id l = h"
    using lr.granted_is_exclusive [OF lock assms(2,3)] lr.lock_granted [OF lock] by simp_all
  then show ?thesis using accept_refused [of R2 q l i c'] assms(4,5) by simp
qed

text \<open>Services that pass the risk check and want no last look.\<close>

definition passing_env :: "lock_clock \<Rightarrow> ('d rfq \<Rightarrow> 'd quote \<Rightarrow> (lock_repo \<times> uuid list, 'd domain_error, 'd trade) op)
    \<Rightarrow> (lock_repo \<times> uuid list, 'd) accept_env" where
  "passing_env c exec = with_lock_repo c \<lparr> ae_lock = (\<lambda>_ _ _. op_fail NoReferencePrice),
     ae_release = (\<lambda>_. op_ret ()), ae_check_risk = (\<lambda>r q x. (rk_pass (rfq_id r) (quote_id q), x)),
     ae_requires_last_look = (\<lambda>_ _. False), ae_request_look = (\<lambda>q t x. (LookTimeout (quote_id q) t 0, x)),
     ae_record_look = (\<lambda>_ _ x. x), ae_execute = (\<lambda>r q _. exec r q) \<rparr>"

lemma passing_env_sel [simp]:
  "ae_lock (passing_env c exec) q h ttl (R, y) = (case lr_lock c q h ttl R of (a, R) \<Rightarrow> (a, R, y))"
  "ae_release (passing_env c exec) l (R, y) = (case lr_release l R of (a, R) \<Rightarrow> (a, R, y))"
  "ae_check_risk (passing_env c exec) r q' x = (rk_pass (rfq_id r) (quote_id q'), x)"
  "ae_requires_last_look (passing_env c exec) v x = False"
  "ae_execute (passing_env c exec) r q' k = exec r q'"
  by (simp_all add: passing_env_def)

text \<open>An executor that keeps a list of the quotes it executed, at once and after another task ran.\<close>

definition exec_at_once :: "'d trade \<Rightarrow> 'd rfq \<Rightarrow> 'd quote \<Rightarrow> (lock_repo \<times> uuid list, 'd domain_error, 'd trade) op" where
  "exec_at_once t r q = (\<lambda>(R, done_quotes). (Inr t, R, done_quotes @ [quote_id q]))"

definition exec_after :: "(lock_repo \<times> uuid list, 'd domain_error, 'a) op \<Rightarrow> 'd trade \<Rightarrow> 'd rfq \<Rightarrow> 'd quote
    \<Rightarrow> (lock_repo \<times> uuid list, 'd domain_error, 'd trade) op" where
  "exec_after other t r q x = exec_at_once t r q (snd (other x))"

definition in_time :: "'d acceptance_flow_config \<Rightarrow> accept_inputs \<Rightarrow> bool" where
  "in_time cfg i \<longleftrightarrow> ai_at_lock i < afc_total_timeout cfg \<and> ai_at_risk i < afc_total_timeout cfg
     \<and> ai_at_execution i < afc_total_timeout cfg"

lemma acceptance_is_exclusive_witness:
  "\<exists>e R'. af_accept (with_lock_repo (sample_clock 300) (passing_env (sample_clock 300) (exec_at_once sample_trade)))
      sample_flow_config (sample_accept_inputs 8) sample_rfq (sample_quote 1 50 300)
      (\<lparr> lr_locks = [1 \<mapsto> ql_new 1 7 100 5000000], lr_poisoned = False \<rparr>, []) = (Inl e, R', [])
    \<and> lr_locks R' 1 = Some (ql_new 1 7 100 5000000)"
proof -
  let ?R1 = "\<lparr> lr_locks = [1 \<mapsto> ql_new 1 7 100 5000000], lr_poisoned = False \<rparr>"
  have q: "quote_id (sample_quote 1 50 300) = 1" by (simp add: sample_quote_def qb_build_def qb_new_def)
  have granted: "(lr_lock (sample_clock 100) (quote_id (sample_quote 1 50 300)) 7 5000000 lr_new
      :: (int domain_error + _) \<times> _) = (Inr (ql_new 1 7 100 5000000), ?R1)"
    by (simp add: q lr_lock_def lr_cleanup_expired_def lr_new_def sample_clock_def fun_eq_iff Let_def)
  show ?thesis
    using acceptance_is_exclusive [OF granted, of "[]" "[]" ?R1 "sample_accept_inputs 8" "sample_clock 300"
      "passing_env (sample_clock 300) (exec_at_once sample_trade)" sample_flow_config sample_rfq "[]"]
    by (simp add: q clock_before_def sample_clock_def ql_new_def ts_add_millis_def clamped_millis_def
        sample_accept_inputs_def)
qed

lemma accept_passing:
  fixes r :: "'d rfq"
  assumes "in_time cfg i" "llc_skip_if_not_required (afc_last_look_config cfg)" "\<not> lr_poisoned R"
    and "lr_locks R (quote_id q) = None \<or> (\<exists>l. lr_locks R (quote_id q) = Some l \<and> ql_expires_at l \<le> qc_check c)"
  defines "l \<equiv> ql_new (quote_id q) (ai_holder i) (qc_stamp c) (qlc_effective_ttl (afc_lock_config cfg) None)"
  obtains R1 where "lr_locks R1 (quote_id q) = Some l" "\<not> lr_poisoned R1"
    "\<And>t x2. exec r q (R1, y) = (Inr t, x2) \<Longrightarrow>
      \<exists>v. af_accept (passing_env c exec) cfg i r q (R, y)
        = (Inr v, (case lr_release l (fst x2) :: ('d domain_error + _) \<times> _ of (_, R3) \<Rightarrow> (R3, snd x2)))"
proof -
  let ?R1 = "(lr_cleanup_expired (qc_sweep c) R)\<lparr> lr_locks :=
      (lr_locks (lr_cleanup_expired (qc_sweep c) R))(quote_id q \<mapsto> l) \<rparr>"
  have "(lr_lock c (quote_id q) (ai_holder i) (qlc_effective_ttl (afc_lock_config cfg) None) R :: ('d domain_error + _) \<times> _)
      = (Inr l, ?R1)"
    using assms(3,4) by (auto simp: lr_lock_def l_def Let_def lr_cleanup_expired_def ql_is_expired_def split: if_splits option.splits)
  then have "\<exists>v. af_accept (passing_env c exec) cfg i r q (R, y)
        = (Inr v, (case lr_release l (fst x2) :: ('d domain_error + _) \<times> _ of (_, R3) \<Rightarrow> (R3, snd x2)))"
    if "exec r q (?R1, y) = (Inr t, x2)" for t x2
    using that assms(1,2)
    by (cases x2) (auto simp: af_accept_def af_acquire_lock_def af_execute_with_lock_def af_perform_last_look_def
        op_then_def op_ret_def afc_is_timed_out_def in_time_def rk_pass_def rk_to_error_def not_le
        split: prod.split)
  then show ?thesis using that [of ?R1] assms(3) by simp
qed

text \<open>
  The executor is not bounded by the total time nor by the lock: when its work outlasts the
  lock's time to live, a second acceptance of the same quote made meanwhile is granted the lock,
  and both acceptances succeed: the quote is executed twice.
\<close>

theorem expired_lock_executes_twice:
  assumes "in_time cfg i" "in_time cfg j" "llc_skip_if_not_required (afc_last_look_config cfg)"
    and "\<not> lr_poisoned R" "lr_locks R (quote_id q) = None"
    and "ql_expires_at (ql_new (quote_id q) (ai_holder i) (qc_stamp c) (qlc_effective_ttl (afc_lock_config cfg) None))
      \<le> qc_check d"
  shows "\<exists>v R'. af_accept (passing_env c
        (exec_after (af_accept (passing_env d (exec_at_once t)) cfg j r q) u)) cfg i r q (R, y)
      = (Inr v, R', y @ [quote_id q, quote_id q])"
proof -
  let ?l = "ql_new (quote_id q) (ai_holder i) (qc_stamp c) (qlc_effective_ttl (afc_lock_config cfg) None)"
  let ?other = "af_accept (passing_env d (exec_at_once t)) cfg j r q"
  obtain R1 where first: "lr_locks R1 (quote_id q) = Some ?l" "\<not> lr_poisoned R1"
    "\<And>t x2. exec_after ?other u r q (R1, y) = (Inr t, x2) \<Longrightarrow>
      \<exists>v R3. af_accept (passing_env c (exec_after ?other u)) cfg i r q (R, y) = (Inr v, R3, snd x2)"
    using accept_passing [OF assms(1,3,4), of q c "exec_after ?other u" r y] assms(5)
    by (metis (no_types, lifting) case_prod_unfold)
  obtain v R2 where other: "?other (R1, y) = (Inr v, R2, y @ [quote_id q])"
    using accept_passing [OF assms(2,3) first(2), of q d "exec_at_once t" r y] assms(6) first(1)
    by (fastforce simp: exec_at_once_def split: prod.splits)
  show ?thesis using first(3) [of u "(R2, y @ [quote_id q, quote_id q])"] other
    by (simp add: exec_after_def exec_at_once_def)
qed

lemma expired_lock_executes_twice_witness:
  "\<exists>v R'. af_accept (passing_env (sample_clock 100)
        (exec_after (af_accept (passing_env (sample_clock 2000000000) (exec_at_once sample_trade))
           sample_flow_config (sample_accept_inputs 8) sample_rfq (sample_quote 1 50 300)) sample_trade))
      sample_flow_config (sample_accept_inputs 7) sample_rfq (sample_quote 1 50 300) (lr_new, [])
      = (Inr v, R', [1, 1])"
proof -
  have q: "quote_id (sample_quote 1 50 300) = 1" by (simp add: sample_quote_def qb_build_def qb_new_def)
  have "\<exists>v R'. af_accept (passing_env (sample_clock 100)
        (exec_after (af_accept (passing_env (sample_clock 2000000000) (exec_at_once sample_trade))
           sample_flow_config (sample_accept_inputs 8) sample_rfq (sample_quote 1 50 300)) sample_trade))
      sample_flow_config (sample_accept_inputs 7) sample_rfq (sample_quote 1 50 300) (lr_new, [])
      = (Inr v, R', [] @ [quote_id (sample_quote 1 50 300), quote_id (sample_quote 1 50 300)])"
    by (rule expired_lock_executes_twice)
      (simp_all add: in_time_def sample_flow_config_def sample_accept_inputs_def qlc_default_def
        qlc_effective_ttl_def llc_default_def lr_new_def sample_clock_def ql_new_def ts_add_millis_def
        clamped_millis_def)
  then show ?thesis by (simp only: q append_Nil)
qed

end
