(* ===== verification/Matching.thy ===== *)
theory Matching
  imports Lock_Manager Quotes Rfq_Aggregate Use_Cases
begin

text \<open>
  Conflicts over a quote and execution under locks:
  \<open>src/domain/services/conflict_resolver.rs\<close> with the resolutions of
  \<open>src/domain/events/conflict_events.rs\<close>, and \<open>src/domain/services/atomic_matcher.rs\<close>, whose
  lock manager is a trait here and the one of \<open>Lock_Manager\<close> in the last section.
\<close>

section \<open>Conflicts\<close>

datatype conflict_type = QuoteAlreadyTaken | SimultaneousAcceptance | ExpiredMidTransaction | CounterCrossing

datatype 'd resolution =
    FirstCommitWins uuid
  | RetryAfter nat u8
  | CancelResolution "'d msg"
  | NotifyResolution "'d msg"
  | AcceptBetterPrice "'d price"

definition res_allows_proceed :: "'d resolution \<Rightarrow> bool" where
  "res_allows_proceed r = (case r of AcceptBetterPrice _ \<Rightarrow> True | _ \<Rightarrow> False)"

definition res_requires_followup :: "'d resolution \<Rightarrow> bool" where
  "res_requires_followup r = (case r of RetryAfter _ _ \<Rightarrow> True | NotifyResolution _ \<Rightarrow> True | _ \<Rightarrow> False)"

definition res_can_proceed_as :: "uuid \<Rightarrow> 'd resolution \<Rightarrow> bool" where
  "res_can_proceed_as requester r = (case r of
       FirstCommitWins winner \<Rightarrow> winner = requester
     | AcceptBetterPrice _ \<Rightarrow> True
     | RetryAfter _ _ \<Rightarrow> False | CancelResolution _ \<Rightarrow> False | NotifyResolution _ \<Rightarrow> False)"

record 'd counter_price_info =
  cpi_requester_price :: "'d price"
  cpi_existing_price :: "'d price"
  cpi_side :: order_side

definition cpi_new :: "'d price \<Rightarrow> 'd price \<Rightarrow> order_side \<Rightarrow> 'd counter_price_info" where
  "cpi_new p e s = \<lparr> cpi_requester_price = p, cpi_existing_price = e, cpi_side = s \<rparr>"

definition cpi_better_price :: "'d dec \<Rightarrow> 'd counter_price_info \<Rightarrow> 'd price" where
  "cpi_better_price D i = (case cpi_side i of
       Buy \<Rightarrow> if price_le D (cpi_requester_price i) (cpi_existing_price i)
          then cpi_requester_price i else cpi_existing_price i
     | Sell \<Rightarrow> if price_le D (cpi_existing_price i) (cpi_requester_price i)
          then cpi_requester_price i else cpi_existing_price i)"

record 'd conflict_context =
  cc_quote_id :: uuid
  cc_requester_id :: uuid
  cc_existing_holder :: "uuid option"
  cc_quote_expires_at :: "timestamp option"
  cc_counter_prices :: "'d counter_price_info option"

definition cc_new :: "uuid \<Rightarrow> uuid \<Rightarrow> 'd conflict_context" where
  "cc_new q r = \<lparr> cc_quote_id = q, cc_requester_id = r, cc_existing_holder = None,
     cc_quote_expires_at = None, cc_counter_prices = None \<rparr>"

definition cc_with_existing_holder :: "uuid \<Rightarrow> 'd conflict_context \<Rightarrow> 'd conflict_context" where
  "cc_with_existing_holder h c = c\<lparr> cc_existing_holder := Some h \<rparr>"

definition cc_with_quote_expires_at :: "timestamp \<Rightarrow> 'd conflict_context \<Rightarrow> 'd conflict_context" where
  "cc_with_quote_expires_at t c = c\<lparr> cc_quote_expires_at := Some t \<rparr>"

definition cc_with_counter_prices :: "'d price \<Rightarrow> 'd price \<Rightarrow> order_side \<Rightarrow> 'd conflict_context
    \<Rightarrow> 'd conflict_context" where
  "cc_with_counter_prices p e s c = c\<lparr> cc_counter_prices := Some (cpi_new p e s) \<rparr>"

definition resolve_conflict :: "'d dec \<Rightarrow> conflict_type \<Rightarrow> 'd conflict_context
    \<Rightarrow> 'd domain_error + 'd resolution" where
  "resolve_conflict D conflict c =
     (case conflict of
        ExpiredMidTransaction \<Rightarrow> Inr (CancelResolution (Fmt ''quote {} expired'' [ArgUuid (cc_quote_id c)]))
      | CounterCrossing \<Rightarrow> (case cc_counter_prices c of
          Some info \<Rightarrow> Inr (AcceptBetterPrice (cpi_better_price D info))
        | None \<Rightarrow> Inl (ConflictDetected (Txt ''counter-crossing requires prices'')))
      | _ \<Rightarrow> (case cc_existing_holder c of
          Some holder \<Rightarrow> Inr (FirstCommitWins holder)
        | None \<Rightarrow> Inl (ConflictDetected
            (Txt ''existing holder is required for first-commit conflicts''))))"

lemma better_price_best:
  assumes "dec_order D" "cpi_better_price D \<lparr> cpi_requester_price = p, cpi_existing_price = e, cpi_side = s \<rparr> = b"
  shows "b \<in> {p, e}"
    and "s = Buy \<Longrightarrow> price_le D b p \<and> price_le D b e" "s = Sell \<Longrightarrow> price_le D p b \<and> price_le D e b"
  using assms by (auto simp: cpi_better_price_def price_le_def dec_order_def split: order_side.splits if_splits)

section \<open>Execution under locks\<close>

text \<open>The lock manager's calls, on a state \<open>'x\<close> of the world.\<close>

record ('x, 'd) matcher_env =
  mx_acquire_all :: "'d resource_lock list \<Rightarrow> nat \<Rightarrow> ('x, 'd domain_error, 'd lock_guard) op"
  mx_release :: "'d lock_guard \<Rightarrow> ('x, 'd) mutation"
  mx_get_lock_info :: "'d resource_lock \<Rightarrow> 'x \<Rightarrow> 'd lock_info option \<times> 'x"

record atomic_matcher_config =
  amc_lock_timeout :: nat

definition amc_default :: atomic_matcher_config where
  "amc_default = \<lparr> amc_lock_timeout = 100 * 1000000 \<rparr>"

record 'a atomic_result =
  amr_result :: 'a
  amr_execution_time_ms :: u64
  amr_resources_locked :: nat

definition build_trade_locks :: "'d rfq \<Rightarrow> 'd quote \<Rightarrow> 'd resource_lock list" where
  "build_trade_locks r q = [RlQuote (quote_id q), RlAccount (rfq_client_id r),
     RlAccount (quote_venue_id q), RlInstrument (rfq_instrument r)]"

text \<open>\<open>elapsed\<close> is read after the operation; the outcome of the release is only logged.\<close>

definition execute_with_locks :: "('x, 'd) matcher_env \<Rightarrow> atomic_matcher_config \<Rightarrow> u64
    \<Rightarrow> 'd resource_lock list \<Rightarrow> ('x, 'd domain_error, 'a) op \<Rightarrow> ('x, 'd domain_error, 'a atomic_result) op" where
  "execute_with_locks M cfg elapsed resources operation =
     op_then (mx_acquire_all M resources (amc_lock_timeout cfg)) (\<lambda>guard x.
       let (result, x) = operation x;
           (_, x) = mx_release M guard x in
       (case result of
          Inr v \<Rightarrow> Inr \<lparr> amr_result = v, amr_execution_time_ms = elapsed,
            amr_resources_locked = length resources \<rparr>
        | Inl e \<Rightarrow> Inl e, x))"

definition am_execute_trade :: "('x, 'd) matcher_env \<Rightarrow> atomic_matcher_config \<Rightarrow> u64 \<Rightarrow> 'd rfq \<Rightarrow> 'd quote
    \<Rightarrow> ('x, 'd domain_error, 'a) op \<Rightarrow> ('x, 'd domain_error, 'a atomic_result) op" where
  "am_execute_trade M cfg elapsed r q = execute_with_locks M cfg elapsed (build_trade_locks r q)"

definition am_acquire_locks :: "('x, 'd) matcher_env \<Rightarrow> atomic_matcher_config \<Rightarrow> 'd resource_lock list
    \<Rightarrow> ('x, 'd domain_error, 'd lock_guard) op" where
  "am_acquire_locks M cfg resources = mx_acquire_all M resources (amc_lock_timeout cfg)"

fun are_resources_available :: "('x, 'd) matcher_env \<Rightarrow> 'd resource_lock list \<Rightarrow> 'x \<Rightarrow> bool \<times> 'x" where
  "are_resources_available M [] x = (True, x)"
| "are_resources_available M (r # rs) x = (case mx_get_lock_info M r x of
     (Some _, x) \<Rightarrow> (False, x) | (None, x) \<Rightarrow> are_resources_available M rs x)"

text \<open>The calls, with the answers that matter.\<close>

datatype ('d, 'a) matcher_call =
    AcquiredAll "'d resource_lock list" "'d domain_error + 'd lock_guard"
  | Operated "'d domain_error + 'a"
  | ReleasedGuard "'d lock_guard"

definition answer_op :: "(('e + 'a) \<Rightarrow> 'c) \<Rightarrow> ('x, 'e, 'a) op \<Rightarrow> ('x \<times> 'c list, 'e, 'a) op" where
  "answer_op c m = (\<lambda>(x, log). case m x of (a, x') \<Rightarrow> (a, x', log @ [c a]))"

definition logged_matcher :: "('x, 'd) matcher_env \<Rightarrow> ('x \<times> ('d, 'a) matcher_call list, 'd) matcher_env" where
  "logged_matcher M = \<lparr> mx_acquire_all = (\<lambda>rs t. answer_op (AcquiredAll rs) (mx_acquire_all M rs t)),
     mx_release = (\<lambda>g. log_op (ReleasedGuard g) (mx_release M g)),
     mx_get_lock_info = (\<lambda>r (x, log). case mx_get_lock_info M r x of (i, x) \<Rightarrow> (i, x, log)) \<rparr>"

section \<open>The guards of running trades\<close>

text \<open>A task that has its guard was promised each key of it.\<close>

fun promised_keys :: "(uuid \<Rightarrow> string) \<Rightarrow> 'd lock_task \<Rightarrow> string set" where
  "promised_keys U (Acquiring todo got) = keys_of U got"
| "promised_keys U (Granted g) = keys_of U (lg_locks g)"
| "promised_keys U _ = {}"

definition guard_inv :: "(uuid \<Rightarrow> string) \<Rightarrow> 'd lock_world \<Rightarrow> bool" where
  "guard_inv U w \<longleftrightarrow> (\<forall>h a. lw_tasks w h = Some a \<longrightarrow> (\<forall>k\<in>promised_keys U a. lw_promised w h k \<noteq> None))"

lemma acquire_step_promised:
  assumes "acquire_step U cfg h now1 now2 b a T = (a', T')"
    and "(\<exists>r todo got. a = Acquiring (r # todo) got) \<or> (\<exists>rs e. a = Undoing rs e)"
    and "\<forall>k\<in>promised_keys U a. p k \<noteq> None"
  shows "\<forall>k\<in>promised_keys U a'. promise_after U h a a' T' p k \<noteq> None"
  using assms(2)
proof (elim disjE exE)
  fix rs e assume "a = Undoing rs e"
  then show ?thesis using assms(1) by (cases rs) (auto split: if_splits)
next
  fix r todo got assume "a = Acquiring (r # todo) got"
  then show ?thesis using assms(1,3)
    by (auto simp: promise_after_def try_acquire_one_def Let_def split: if_splits)
qed

lemma guard_inv_step: "lock_step U cfg w w' \<Longrightarrow> guard_inv U w \<Longrightarrow> guard_inv U w'"
proof (induction rule: lock_step.induct)
  case (begin_acquire w h resources)
  then show ?case by (auto simp: guard_inv_def acquire_begin_def)
next
  case (acquire w h a now1 now2 in_time a' T')
  then show ?case using acquire_step_promised [OF acquire.hyps(5,2), of "lw_promised w h"]
    by (auto simp: guard_inv_def)
next
  case (release w h rs now a' T')
  then show ?case by (cases rs) (auto simp: guard_inv_def split: if_splits prod.splits sum.splits)
qed (auto simp: guard_inv_def)

lemma reachable_guard_inv: "lock_reachable U cfg w \<Longrightarrow> guard_inv U w"
proof (induction rule: lock_reachable.induct)
  case (start t)
  then show ?case by (simp add: guard_inv_def lock_init_def)
qed (rule guard_inv_step)

lemma guard_owns:
  assumes "lock_reachable U cfg w" "lw_tasks w h = Some (Granted g)" "l \<in> set (lg_locks g)"
    and "\<forall>k e. lw_promised w h k = Some e \<longrightarrow> lw_now w < e"
  shows "\<exists>e. store_owner (lw_table w) (lock_key U l) = Some (h, e)"
proof -
  have "lw_promised w h (lock_key U l) \<noteq> None"
    using reachable_guard_inv [OF assms(1)] assms(2,3) by (force simp: guard_inv_def)
  then show ?thesis
    using lock_reachable_inv [OF assms(1)] assms(4) unfolding promise_inv_def by blast
qed

text \<open>A request nobody else's entry stands against can be granted at once.\<close>

definition open_for :: "uuid \<Rightarrow> 'd lock_table \<Rightarrow> string set \<Rightarrow> bool" where
  "open_for h T K \<longleftrightarrow> (\<forall>k\<in>K. \<forall>i. T k = Some i \<longrightarrow> lki_holder_id i = h)"

definition granted_from :: "(uuid \<Rightarrow> string) \<Rightarrow> uuid \<Rightarrow> 'd resource_lock list \<Rightarrow> 'd resource_lock set
    \<Rightarrow> 'd lock_world \<Rightarrow> 'd lock_world \<Rightarrow> bool" where
  "granted_from U h rs new w w' \<longleftrightarrow> lw_now w' = lw_now w
     \<and> lw_tasks w' = (lw_tasks w)(h \<mapsto> Granted \<lparr> lg_locks = rs, lg_holder_id = h, lg_released = False \<rparr>)
     \<and> (\<forall>k. k \<notin> lock_key U ` new \<longrightarrow> lw_table w' k = lw_table w k)
     \<and> (\<forall>h'. h' \<noteq> h \<longrightarrow> lw_promised w' h' = lw_promised w h')
     \<and> (\<forall>k e. lw_promised w' h k = Some e \<longrightarrow> lw_promised w h k = Some e \<or> lw_now w < e)"

lemma lki_new_runs: "1000000 \<le> ttl \<Longrightarrow> now < lki_expires_at (lki_new now r h ttl)"
proof -
  assume "1000000 \<le> ttl"
  then have "0 < ttl div 1000000" by (simp add: div_greater_zero_iff)
  then show ?thesis by (simp add: lki_new_def ts_add_millis_def min_def)
qed

lemma uncontended_acquisition:
  assumes "lock_reachable U cfg w" "lw_tasks w h = Some (Acquiring (r # todo) got)"
    and "open_for h (lw_table w) (keys_of U (r # todo))" "1000000 \<le> lmc_lock_ttl cfg"
  shows "\<exists>w'. lock_reachable U cfg w' \<and> granted_from U h (got @ r # todo) (set (r # todo)) w w'"
  using assms
proof (induction todo arbitrary: w r got)
  case Nil
  let ?i = "lki_new (lw_now w) r h (lmc_lock_ttl cfg)"
  have "acquire_step U cfg h (lw_now w) (lw_now w) True (Acquiring [r] got) (lw_table w)
      = (Granted \<lparr> lg_locks = got @ [r], lg_holder_id = h, lg_released = False \<rparr>, (lw_table w)(lock_key U r \<mapsto> ?i))"
    using Nil.prems(3) by (auto simp: try_acquire_one_def open_for_def Let_def split: option.splits)
  from lock_step.acquire [OF Nil.prems(2) _ order_refl order_refl this]
  have "lock_reachable U cfg \<lparr> lw_now = lw_now w, lw_table = (lw_table w)(lock_key U r \<mapsto> ?i),
      lw_tasks = (lw_tasks w)(h \<mapsto> Granted \<lparr> lg_locks = got @ [r], lg_holder_id = h, lg_released = False \<rparr>),
      lw_promised = (lw_promised w)(h := (lw_promised w h)(lock_key U r \<mapsto> lki_expires_at ?i)) \<rparr>"
    using Nil.prems(1) by (simp add: promise_after_def lock_reachable.move)
  moreover have "lw_now w < lki_expires_at ?i"
    by (rule lki_new_runs) (rule Nil.prems(4))
  ultimately show ?case by - (intro exI conjI, assumption, simp add: granted_from_def)
next
  case (Cons r2 todo)
  let ?i = "lki_new (lw_now w) r h (lmc_lock_ttl cfg)"
  let ?w = "\<lparr> lw_now = lw_now w, lw_table = (lw_table w)(lock_key U r \<mapsto> ?i),
      lw_tasks = (lw_tasks w)(h \<mapsto> Acquiring (r2 # todo) (got @ [r])),
      lw_promised = (lw_promised w)(h := (lw_promised w h)(lock_key U r \<mapsto> lki_expires_at ?i)) \<rparr>"
  have "acquire_step U cfg h (lw_now w) (lw_now w) True (Acquiring (r # r2 # todo) got) (lw_table w)
      = (Acquiring (r2 # todo) (got @ [r]), (lw_table w)(lock_key U r \<mapsto> ?i))"
    using Cons.prems(3) by (auto simp: try_acquire_one_def open_for_def Let_def split: option.splits)
  from lock_step.acquire [OF Cons.prems(2) _ order_refl order_refl this]
  have "lock_reachable U cfg ?w"
    using Cons.prems(1) by (simp add: promise_after_def lock_reachable.move)
  moreover have "open_for h (lw_table ?w) (keys_of U (r2 # todo))"
    using Cons.prems(3) by (auto simp: open_for_def lki_new_def)
  moreover have "lw_tasks ?w h = Some (Acquiring (r2 # todo) (got @ [r]))" by simp
  ultimately obtain w' where w': "lock_reachable U cfg w'"
      "granted_from U h ((got @ [r]) @ r2 # todo) (set (r2 # todo)) ?w w'"
    using Cons.IH [OF _ _ _ Cons.prems(4)] by blast
  moreover have "lw_now w < lki_expires_at ?i"
    by (rule lki_new_runs) (rule Cons.prems(4))
  ultimately have "granted_from U h (got @ r # r2 # todo) (set (r # r2 # todo)) w w'"
    by (auto simp: granted_from_def split: if_splits)
  then show ?case using w'(1) by blast
qed

lemma uncontended_request:
  assumes "lock_reachable U cfg w" "lw_tasks w h = None" "rs \<noteq> []"
    and "open_for h (lw_table w) (keys_of U rs)" "1000000 \<le> lmc_lock_ttl cfg"
  shows "\<exists>w'. lock_reachable U cfg w' \<and> granted_from U h (sort_locks U rs) (set rs) w w'"
proof -
  obtain r todo where sorted: "sort_locks U rs = r # todo" using assms(3) by (cases "sort_locks U rs") auto
  then have same: "set (r # todo) = set rs" by (metis set_mset_mset sort_locks_mset)
  let ?w = "w\<lparr> lw_tasks := (lw_tasks w)(h \<mapsto> Acquiring (r # todo) []) \<rparr>"
  have "lock_reachable U cfg ?w"
    using lock_step.begin_acquire [OF assms(2), of U cfg rs] assms(1,3) sorted
    by (simp add: acquire_begin_def lock_reachable.move)
  from uncontended_acquisition [OF this, of h r todo "[]"] obtain w'
    where w': "lock_reachable U cfg w'" "granted_from U h (r # todo) (set (r # todo)) ?w w'"
    using assms(4,5) same by (auto simp flip: image_insert)
  then have "granted_from U h (sort_locks U rs) (set rs) w w'"
    unfolding sorted same by (simp add: granted_from_def)
  then show ?thesis using w'(1) by blast
qed

section \<open>Properties\<close>

text \<open>
  C6. Trades executed under the matcher's locks do not overlap on what they touch: in every
  reachable state of the lock manager, two holders whose guards cover the locks of two trades
  and whose promises are all still running have different quotes, clients, venues and
  instruments, and neither's client account is the other's venue account.
\<close>

theorem concurrent_trades_touch_nothing_in_common:
  assumes "lock_reachable U cfg w" "h \<noteq> h'"
    and "lw_tasks w h = Some (Granted g)" "set (lg_locks g) = set (build_trade_locks r q)"
    and "lw_tasks w h' = Some (Granted g')" "set (lg_locks g') = set (build_trade_locks r' q')"
    and "\<forall>k e. lw_promised w h k = Some e \<or> lw_promised w h' k = Some e \<longrightarrow> lw_now w < e"
  shows "quote_id q \<noteq> quote_id q' \<and> rfq_client_id r \<noteq> rfq_client_id r'
    \<and> quote_venue_id q \<noteq> quote_venue_id q' \<and> rfq_client_id r \<noteq> quote_venue_id q'
    \<and> quote_venue_id q \<noteq> rfq_client_id r'
    \<and> sym_value (ins_symbol (rfq_instrument r)) \<noteq> sym_value (ins_symbol (rfq_instrument r'))"
proof -
  have "lock_key U l \<noteq> lock_key U l'" if "l \<in> set (build_trade_locks r q)" "l' \<in> set (build_trade_locks r' q')" for l l'
    using guard_owns [OF assms(1,3), of l] guard_owns [OF assms(1,5), of l'] assms(2,4,6,7) that by fastforce
  note apart = this [unfolded build_trade_locks_def lock_key_eq_iff rl_rank_def rl_category_def rl_sort_key_def]
  show ?thesis
    using apart [of "RlQuote (quote_id q)" "RlQuote (quote_id q')"]
      apart [of "RlAccount (rfq_client_id r)" "RlAccount (rfq_client_id r')"]
      apart [of "RlAccount (quote_venue_id q)" "RlAccount (quote_venue_id q')"]
      apart [of "RlAccount (rfq_client_id r)" "RlAccount (quote_venue_id q')"]
      apart [of "RlAccount (quote_venue_id q)" "RlAccount (rfq_client_id r')"]
      apart [of "RlInstrument (rfq_instrument r)" "RlInstrument (rfq_instrument r')"]
    by auto
qed

lemma concurrent_trades_touch_nothing_in_common_witness:
  fixes r' :: "int rfq" and q' :: "int quote"
  defines "r' \<equiv> sample_rfq\<lparr> rfq_client_id := ''other client'', rfq_instrument :=
      (rfq_instrument sample_rfq)\<lparr> ins_symbol := \<lparr> sym_value = ''ETH/USD'', sym_separator_index = 3 \<rparr> \<rparr> \<rparr>"
    and "q' \<equiv> (sample_quote 2 50 300)\<lparr> quote_venue_id := ''other venue'' \<rparr>"
  shows "\<exists>w g g'. lock_reachable sample_U lmc_default w
    \<and> lw_tasks w 1 = Some (Granted g) \<and> set (lg_locks g) = set (build_trade_locks sample_rfq (sample_quote 1 50 300))
    \<and> lw_tasks w 2 = Some (Granted g') \<and> set (lg_locks g') = set (build_trade_locks r' q')
    \<and> rfq_client_id sample_rfq \<noteq> rfq_client_id r'"
proof -
  let ?ls = "build_trade_locks sample_rfq (sample_quote 1 50 300)" and ?ls' = "build_trade_locks r' q'"
  have ttl: "1000000 \<le> lmc_lock_ttl lmc_default" by (simp add: lmc_default_def)
  have perm: "set (sort_locks sample_U rs) = set rs" for rs :: "int resource_lock list"
    by (metis set_mset_mset sort_locks_mset)
  have apart: "keys_of sample_U ?ls \<inter> keys_of sample_U ?ls' = {}"
    by (simp add: build_trade_locks_def r'_def q'_def lock_key_def rl_display_def sample_U_def sample_rfq_def
        rb_build_def rb_new_def sample_quote_def qb_build_def qb_new_def instrument_default_build_def
        sample_symbol_def)
  obtain w1 where w1: "lock_reachable sample_U lmc_default w1"
      "granted_from sample_U 1 (sort_locks sample_U ?ls) (set ?ls) (lock_init 0) w1"
    using uncontended_request [OF lock_reachable.start [where t = 0 and U = sample_U], of 1 ?ls lmc_default] ttl
    by (auto simp: lock_init_def open_for_def build_trade_locks_def)
  have free: "lw_table w1 k = None" if "k \<in> keys_of sample_U ?ls'" for k
  proof -
    have "k \<notin> keys_of sample_U ?ls" using apart that by blast
    then have "lw_table w1 k = lw_table (lock_init 0 :: int lock_world) k"
      using w1(2) unfolding granted_from_def by blast
    then show ?thesis by (simp add: lock_init_def)
  qed
  have "lw_tasks w1 2 = None" using w1(2) by (simp add: granted_from_def lock_init_def)
  moreover have "open_for 2 (lw_table w1) (keys_of sample_U ?ls')" unfolding open_for_def
    by (intro ballI allI impI) (simp only: free option.distinct)
  ultimately obtain w2 where w2: "lock_reachable sample_U lmc_default w2"
      "granted_from sample_U 2 (sort_locks sample_U ?ls') (set ?ls') w1 w2"
    using uncontended_request [OF w1(1) _ _ _ ttl, of 2 ?ls'] by (auto simp: build_trade_locks_def)
  let ?g = "\<lparr> lg_locks = sort_locks sample_U ?ls, lg_holder_id = 1, lg_released = False \<rparr>"
    and ?g' = "\<lparr> lg_locks = sort_locks sample_U ?ls', lg_holder_id = 2, lg_released = False \<rparr>"
  have tasks: "lw_tasks w2 1 = Some (Granted ?g)" "lw_tasks w2 2 = Some (Granted ?g')"
    using w1(2) w2(2) by (simp_all add: granted_from_def)
  have running: "\<forall>k e. lw_promised w2 1 k = Some e \<or> lw_promised w2 2 k = Some e \<longrightarrow> lw_now w2 < e"
    using w1(2) w2(2) by (auto simp: granted_from_def lock_init_def)
  have "rfq_client_id sample_rfq \<noteq> rfq_client_id r'"
    using concurrent_trades_touch_nothing_in_common [OF w2(1) _ tasks(1) _ tasks(2) _ running,
        of sample_rfq "sample_quote 1 50 300" r' q'] by (simp add: perm)
  then show ?thesis using w2(1) tasks
    by (intro exI [of _ w2] exI [of _ ?g] exI [of _ ?g'] conjI) (simp_all add: perm)
qed

text \<open>
  The matcher brackets the operation: it fails without running it when the locks are refused;
  otherwise it runs it exactly once, between the acquisition and the release of the guard it
  got, returns the operation's own value or error whatever the release returned, and keeps the
  effects of the operation even when that failed.
\<close>

theorem matcher_brackets_operation:
  assumes "execute_with_locks (logged_matcher M) cfg ms rs (answer_op Operated f) (x, []) = (a, x', log)"
  shows "(\<exists>e. mx_acquire_all M rs (amc_lock_timeout cfg) x = (Inl e, x') \<and> a = Inl e
        \<and> log = [AcquiredAll rs (Inl e)])
    \<or> (\<exists>g x1 b x2. mx_acquire_all M rs (amc_lock_timeout cfg) x = (Inr g, x1) \<and> f x1 = (b, x2)
        \<and> log = [AcquiredAll rs (Inr g), Operated b, ReleasedGuard g]
        \<and> x' = snd (mx_release M g x2)
        \<and> a = map_sum id (\<lambda>v. \<lparr> amr_result = v, amr_execution_time_ms = ms,
            amr_resources_locked = length rs \<rparr>) b)"
proof (cases "mx_acquire_all M rs (amc_lock_timeout cfg) x")
  case (Pair c x1)
  show ?thesis
  proof (cases c)
    case (Inl e)
    then show ?thesis using assms Pair
      by (auto simp: execute_with_locks_def logged_matcher_def answer_op_def op_then_def)
  next
    case (Inr g)
    obtain b x2 where "f x1 = (b, x2)" by fastforce
    then show ?thesis using assms Pair Inr
      by (cases b) (auto simp: execute_with_locks_def logged_matcher_def answer_op_def op_then_def log_op_def
          split: prod.splits)
  qed
qed

lemma matcher_brackets_operation_witness:
  "execute_with_locks (logged_matcher \<lparr> mx_acquire_all = (\<lambda>rs t. op_ret \<lparr> lg_locks = rs, lg_holder_id = 1, lg_released = False \<rparr>),
      mx_release = (\<lambda>g. op_fail NoReferencePrice), mx_get_lock_info = (\<lambda>r x. (None, x)) \<rparr>) amc_default 3 [RlQuote 1]
      (answer_op Operated (\<lambda>n. (Inl DivisionByZero, n + 1))) (5 :: nat, [])
    = (Inl DivisionByZero :: int domain_error + int atomic_result, 6,
       [AcquiredAll [RlQuote 1] (Inr \<lparr> lg_locks = [RlQuote 1], lg_holder_id = 1, lg_released = False \<rparr>),
        Operated (Inl DivisionByZero), ReleasedGuard \<lparr> lg_locks = [RlQuote 1], lg_holder_id = 1, lg_released = False \<rparr>])"
    (is "?run = _")
proof -
  obtain a x' log where run: "?run = (a, x', log)" by (metis prod_cases3)
  from matcher_brackets_operation [OF run] show ?thesis unfolding run by (auto simp: op_ret_def op_fail_def)
qed

text \<open>
  A resolution settles who may proceed: of two acceptances only the holder that came first,
  nobody once the quote expired, and with crossing counter-offers both sides, at one of
  the two prices, which is the better for the taker; the other side's resolver finds an equal one.
\<close>

theorem resolution_settles_conflict:
  assumes "dec_order D" "resolve_conflict D k c = Inr res"
  shows "(case k of
      ExpiredMidTransaction \<Rightarrow> \<forall>x. \<not> res_can_proceed_as x res
    | CounterCrossing \<Rightarrow> (\<forall>x. res_can_proceed_as x res)
        \<and> (\<exists>i p. cc_counter_prices c = Some i \<and> res = AcceptBetterPrice p
          \<and> p \<in> {cpi_requester_price i, cpi_existing_price i}
          \<and> (\<forall>other\<in>{cpi_requester_price i, cpi_existing_price i}.
               if cpi_side i = Buy then price_le D p other else price_le D other p)
          \<and> deq D (price_get p) (price_get (cpi_better_price D
               (cpi_new (cpi_existing_price i) (cpi_requester_price i) (cpi_side i)))))
    | _ \<Rightarrow> \<exists>h. cc_existing_holder c = Some h \<and> (\<forall>x. res_can_proceed_as x res \<longleftrightarrow> x = h))"
proof (cases k)
  case CounterCrossing
  then obtain i where i: "cc_counter_prices c = Some i" "res = AcceptBetterPrice (cpi_better_price D i)"
    using assms(2) by (auto simp: resolve_conflict_def split: option.splits)
  let ?p = "price_get (cpi_requester_price i)" and ?e = "price_get (cpi_existing_price i)"
  have "dle D ?p ?e \<or> dle D ?e ?p" "dle D ?p ?p" "dle D ?e ?e"
    using assms(1) dec_order_refl by (auto simp: dec_order_def)
  then show ?thesis using CounterCrossing i
    by (cases "cpi_side i"; cases "dle D ?p ?e"; cases "dle D ?e ?p")
      (simp_all add: res_can_proceed_as_def cpi_better_price_def cpi_new_def price_le_def deq_def)
qed (use assms(2) in \<open>auto simp: resolve_conflict_def res_can_proceed_as_def split: option.splits\<close>)

lemma resolution_settles_conflict_witness:
  "res_can_proceed_as 5 (FirstCommitWins 5 :: int resolution) \<and> \<not> res_can_proceed_as 6 (FirstCommitWins 5 :: int resolution)"
proof -
  have "resolve_conflict whole_dec QuoteAlreadyTaken (cc_with_existing_holder 5 (cc_new 1 6)) = Inr (FirstCommitWins 5)"
    by (simp add: resolve_conflict_def cc_with_existing_holder_def cc_new_def)
  from resolution_settles_conflict [OF whole_dec_order this] show ?thesis
    by (auto simp: cc_with_existing_holder_def cc_new_def)
qed

end
