(* ===== verification/Stable_Sorting.thy ===== *)
theory Stable_Sorting
  imports Prelude "HOL-Library.Multiset"
begin

text \<open>The stable sort of the standard library, shared by the components that order quotes.\<close>

section \<open>Stable sorting\<close>

text \<open>
  \<open>slice::sort_by\<close> is stable. \<open>before a b\<close>: the comparison puts \<open>a\<close> strictly before \<open>b\<close>. The
  standard library leaves the order open when the comparison is not a total order.
\<close>

fun insert_stable :: "('a \<Rightarrow> 'a \<Rightarrow> bool) \<Rightarrow> 'a \<Rightarrow> 'a list \<Rightarrow> 'a list" where
  "insert_stable before x [] = [x]"
| "insert_stable before x (y # ys) = (if before y x then y # insert_stable before x ys else x # y # ys)"

definition sort_stable :: "('a \<Rightarrow> 'a \<Rightarrow> bool) \<Rightarrow> 'a list \<Rightarrow> 'a list" where
  "sort_stable before xs = foldr (insert_stable before) xs []"

lemma mset_insert_stable [simp]: "mset (insert_stable before x ys) = add_mset x (mset ys)"
  by (induction ys) auto

lemma mset_sort_stable [simp]: "mset (sort_stable before xs) = mset xs"
  by (induction xs) (auto simp: sort_stable_def)

lemma set_sort_stable [simp]: "set (sort_stable before xs) = set xs"
  by (metis mset_sort_stable set_mset_mset)

lemma length_sort_stable [simp]: "length (sort_stable before xs) = length xs"
  by (metis mset_sort_stable size_mset)

text \<open>Elements of which none is before another keep their order.\<close>

lemma filter_insert_stable:
  assumes "\<forall>y\<in>set ys. P x \<longrightarrow> P y \<longrightarrow> \<not> before y x"
  shows "filter P (insert_stable before x ys) = filter P (x # ys)"
  using assms by (induction ys) auto

lemma sort_stable_is_stable:
  assumes "\<forall>x\<in>set xs. \<forall>y\<in>set xs. P x \<longrightarrow> P y \<longrightarrow> \<not> before x y"
  shows "filter P (sort_stable before xs) = filter P xs"
  using assms
proof (induction xs)
  case (Cons x xs)
  have "filter P (sort_stable before (x # xs)) = filter P (insert_stable before x (sort_stable before xs))"
    by (simp add: sort_stable_def)
  also have "\<dots> = filter P (x # sort_stable before xs)"
    using Cons.prems by (intro filter_insert_stable) auto
  finally show ?case using Cons by simp
qed (simp add: sort_stable_def)

text \<open>With a comparison that is a total order on the elements the result is sorted.\<close>

locale sorting_order =
  fixes ok :: "'a \<Rightarrow> bool" and before :: "'a \<Rightarrow> 'a \<Rightarrow> bool"
  assumes asym: "before a b \<Longrightarrow> \<not> before b a"
    and neg_trans: "ok a \<Longrightarrow> ok b \<Longrightarrow> ok c \<Longrightarrow> \<not> before a b \<Longrightarrow> \<not> before b c \<Longrightarrow> \<not> before a c"
begin

lemma sorted_insert_stable:
  assumes "sorted_wrt (\<lambda>a b. \<not> before b a) ys" "ok x" "\<forall>y\<in>set ys. ok y"
  shows "sorted_wrt (\<lambda>a b. \<not> before b a) (insert_stable before x ys)"
  using assms
proof (induction ys)
  case (Cons y ys)
  have elems: "set (insert_stable before x ys) = insert x (set ys)"
    by (metis mset_insert_stable set_mset_mset set_mset_add_mset_insert)
  show ?case
  proof (cases "before y x")
    case True
    then show ?thesis using Cons elems asym by auto
  next
    case False
    have "\<not> before z x" if "z \<in> set ys" for z
      using neg_trans [of z y x] Cons.prems that False by auto
    then show ?thesis using Cons.prems False by auto
  qed
qed simp

lemma sorted_sort_stable:
  "\<forall>x\<in>set xs. ok x \<Longrightarrow> sorted_wrt (\<lambda>a b. \<not> before b a) (sort_stable before xs)"
proof (induction xs)
  case (Cons x xs)
  then show ?case
    using sorted_insert_stable [of "sort_stable before xs" x] by (simp add: sort_stable_def [of before "x # xs"] flip: sort_stable_def)
qed (simp add: sort_stable_def)

end

end
