(* ===== verification/Normalization.thy ===== *)
theory Normalization
  imports Quotes Stable_Sorting
begin

text \<open>
  Making the quotes of different venues comparable: \<open>src/domain/entities/quote_normalizer.rs\<close> and
  \<open>src/domain/services/quote_normalizer.rs\<close>. Currency conversion, contract multiplier, fees and
  latency. The arithmetic operators of the decimal package panic where the checked operation
  has no result: \<open>None\<close> stands for the panic.
\<close>

section \<open>Rates and configuration\<close>

datatype quote_type = Firm | Indicative | LastLookQuote

definition qt_is_executable :: "quote_type \<Rightarrow> bool" where
  "qt_is_executable t = (case t of Firm \<Rightarrow> True | LastLookQuote \<Rightarrow> True | Indicative \<Rightarrow> False)"

definition qt_requires_last_look :: "quote_type \<Rightarrow> bool" where
  "qt_requires_last_look t = (case t of LastLookQuote \<Rightarrow> True | _ \<Rightarrow> False)"

definition qt_is_indicative :: "quote_type \<Rightarrow> bool" where
  "qt_is_indicative t = (case t of Indicative \<Rightarrow> True | _ \<Rightarrow> False)"

record 'd fx_rate =
  fx_from_currency :: string
  fx_to_currency :: string
  fx_rate_value :: 'd
  fx_timestamp :: timestamp

definition fx_with_timestamp :: "string \<Rightarrow> string \<Rightarrow> 'd \<Rightarrow> timestamp \<Rightarrow> 'd fx_rate" where
  "fx_with_timestamp f t r now = \<lparr> fx_from_currency = f, fx_to_currency = t, fx_rate_value = r,
     fx_timestamp = now \<rparr>"

definition fx_convert :: "'d dec \<Rightarrow> 'd fx_rate \<Rightarrow> 'd \<Rightarrow> ('d) option" where
  "fx_convert D r amount = dmul D amount (fx_rate_value r)"

definition fx_inverse :: "'d dec \<Rightarrow> 'd fx_rate \<Rightarrow> ('d fx_rate) option" where
  "fx_inverse D r =
     Option.bind (if dis_zero D (fx_rate_value r) then Some (dzero D) else ddiv D (d_one D) (fx_rate_value r))
       (\<lambda>v. Some \<lparr> fx_from_currency = fx_to_currency r, fx_to_currency = fx_from_currency r,
          fx_rate_value = v, fx_timestamp = fx_timestamp r \<rparr>)"

record 'd normalization_config =
  nc_venue_id :: "venue_id option"
  nc_base_currency :: string
  nc_include_fees :: bool
  nc_fees_included_in_quote :: bool
  nc_default_fee_rate :: 'd
  nc_contract_multiplier :: 'd
  nc_latency_adjustment_ms :: int

text \<open>\<open>Decimal::new(1, 3)\<close>, 0.1%.\<close>

definition nc_default :: "'d dec \<Rightarrow> 'd normalization_config option" where
  "nc_default D = map_option (\<lambda>rate. \<lparr> nc_venue_id = None, nc_base_currency = ''USD'',
     nc_include_fees = True, nc_fees_included_in_quote = False, nc_default_fee_rate = rate,
     nc_contract_multiplier = d_one D, nc_latency_adjustment_ms = 0 \<rparr>) (dnew D 1 3)"

definition nc_new :: "'d dec \<Rightarrow> venue_id \<Rightarrow> 'd normalization_config option" where
  "nc_new D v = map_option (\<lambda>c. c\<lparr> nc_venue_id := Some v \<rparr>) (nc_default D)"

record 'd normalization_config_builder =
  ncb_venue_id :: "venue_id option"
  ncb_base_currency :: "string option"
  ncb_include_fees :: "bool option"
  ncb_fees_included_in_quote :: "bool option"
  ncb_default_fee_rate :: "'d option"
  ncb_contract_multiplier :: "'d option"
  ncb_latency_adjustment_ms :: "int option"

fun unwrap_or :: "'a option \<Rightarrow> 'a \<Rightarrow> 'a" where
  "unwrap_or (Some a) b = a"
| "unwrap_or None b = b"

definition ncb_build :: "'d dec \<Rightarrow> 'd normalization_config_builder \<Rightarrow> 'd normalization_config option" where
  "ncb_build D b = map_option (\<lambda>c. \<lparr> nc_venue_id = ncb_venue_id b,
     nc_base_currency = unwrap_or (ncb_base_currency b) (nc_base_currency c),
     nc_include_fees = unwrap_or (ncb_include_fees b) (nc_include_fees c),
     nc_fees_included_in_quote = unwrap_or (ncb_fees_included_in_quote b) (nc_fees_included_in_quote c),
     nc_default_fee_rate = unwrap_or (ncb_default_fee_rate b) (nc_default_fee_rate c),
     nc_contract_multiplier = unwrap_or (ncb_contract_multiplier b) (nc_contract_multiplier c),
     nc_latency_adjustment_ms = unwrap_or (ncb_latency_adjustment_ms b) (nc_latency_adjustment_ms c) \<rparr>)
     (nc_default D)"

record 'd normalization_registry =
  ncr_configs :: "venue_id \<rightharpoonup> 'd normalization_config"
  ncr_default_config :: "'d normalization_config"

definition ncr_with_default :: "'d normalization_config \<Rightarrow> 'd normalization_registry" where
  "ncr_with_default c = \<lparr> ncr_configs = Map.empty, ncr_default_config = c \<rparr>"

definition ncr_register :: "venue_id \<Rightarrow> 'd normalization_config \<Rightarrow> 'd normalization_registry
    \<Rightarrow> 'd normalization_registry" where
  "ncr_register v c R = R\<lparr> ncr_configs := (ncr_configs R)(v \<mapsto> c) \<rparr>"

definition ncr_get :: "venue_id \<Rightarrow> 'd normalization_registry \<Rightarrow> 'd normalization_config" where
  "ncr_get v R = (case ncr_configs R v of Some c \<Rightarrow> c | None \<Rightarrow> ncr_default_config R)"

section \<open>Normalized quotes\<close>

record 'd normalized_quote =
  nq_quote_id :: uuid
  nq_rfq_id :: uuid
  nq_venue_id :: venue_id
  nq_symbol :: "symbol option"
  nq_quote_type :: quote_type
  nq_original_price :: "'d price"
  nq_normalized_price :: "'d price"
  nq_original_quantity :: "'d quantity"
  nq_normalized_quantity :: "'d quantity"
  nq_all_in_price :: "'d price"
  nq_fee_amount :: 'd
  nq_fee_rate :: 'd
  nq_original_timestamp :: timestamp
  nq_adjusted_timestamp :: timestamp
  nq_valid_until :: timestamp
  nq_is_executable :: bool
  nq_requires_last_look :: bool
  nq_currency :: string
  nq_fx_rate_used :: "'d option"

definition nq_new :: "uuid \<Rightarrow> uuid \<Rightarrow> venue_id \<Rightarrow> quote_type \<Rightarrow> 'd price \<Rightarrow> 'd price \<Rightarrow> 'd quantity
    \<Rightarrow> 'd quantity \<Rightarrow> 'd price \<Rightarrow> 'd \<Rightarrow> 'd \<Rightarrow> timestamp \<Rightarrow> timestamp \<Rightarrow> timestamp \<Rightarrow> string
    \<Rightarrow> 'd normalized_quote" where
  "nq_new qid rid venue t op np oq n_q allin fee rate ots ats until currency =
     \<lparr> nq_quote_id = qid, nq_rfq_id = rid, nq_venue_id = venue, nq_symbol = None, nq_quote_type = t,
       nq_original_price = op, nq_normalized_price = np, nq_original_quantity = oq,
       nq_normalized_quantity = n_q, nq_all_in_price = allin, nq_fee_amount = fee, nq_fee_rate = rate,
       nq_original_timestamp = ots, nq_adjusted_timestamp = ats, nq_valid_until = until,
       nq_is_executable = qt_is_executable t, nq_requires_last_look = qt_requires_last_look t,
       nq_currency = currency, nq_fx_rate_used = None \<rparr>"

definition nq_with_symbol :: "symbol \<Rightarrow> 'd normalized_quote \<Rightarrow> 'd normalized_quote" where
  "nq_with_symbol s n = n\<lparr> nq_symbol := Some s \<rparr>"

definition nq_with_fx_rate :: "'d \<Rightarrow> 'd normalized_quote \<Rightarrow> 'd normalized_quote" where
  "nq_with_fx_rate r n = n\<lparr> nq_fx_rate_used := Some r \<rparr>"

definition nq_is_expired :: "timestamp \<Rightarrow> 'd normalized_quote \<Rightarrow> bool" where
  "nq_is_expired now n \<longleftrightarrow> nq_valid_until n < now"

section \<open>The normalizer\<close>

record 'd quote_normalizer =
  qn_config_registry :: "'d normalization_registry"
  qn_fx_rates :: "string \<rightharpoonup> 'd fx_rate"

definition qn_with_config_registry :: "'d normalization_registry \<Rightarrow> 'd quote_normalizer" where
  "qn_with_config_registry R = \<lparr> qn_config_registry = R, qn_fx_rates = Map.empty \<rparr>"

definition fx_key :: "string \<Rightarrow> string \<Rightarrow> string" where
  "fx_key f t = f @ ''/'' @ t"

definition qn_add_fx_rate :: "'d fx_rate \<Rightarrow> 'd quote_normalizer \<Rightarrow> 'd quote_normalizer" where
  "qn_add_fx_rate r N =
     N\<lparr> qn_fx_rates := (qn_fx_rates N)(fx_key (fx_from_currency r) (fx_to_currency r) \<mapsto> r) \<rparr>"

definition qn_get_fx_rate :: "string \<Rightarrow> string \<Rightarrow> 'd quote_normalizer \<Rightarrow> 'd fx_rate option" where
  "qn_get_fx_rate f t N = qn_fx_rates N (fx_key f t)"

definition qn_normalize_price :: "'d dec \<Rightarrow> 'd quote_normalizer \<Rightarrow> 'd price \<Rightarrow> 'd normalization_config
    \<Rightarrow> string option \<Rightarrow> ('d price \<times> 'd option \<times> string) option" where
  "qn_normalize_price D N p c source_currency =
     (let source = unwrap_or source_currency (nc_base_currency c) in
      if source = nc_base_currency c then Some (p, None, nc_base_currency c)
      else case qn_get_fx_rate source (nc_base_currency c) N of
          None \<Rightarrow> Some (p, None, source)
        | Some r \<Rightarrow> Option.bind (fx_convert D r (price_get p)) (\<lambda>converted.
            case price_from_decimal D converted of
              Inr new_price \<Rightarrow> Some (new_price, Some (fx_rate_value r), nc_base_currency c)
            | Inl _ \<Rightarrow> Some (p, None, source)))"

definition qn_normalize_quantity :: "'d dec \<Rightarrow> 'd quantity \<Rightarrow> 'd normalization_config
    \<Rightarrow> ('d quantity) option" where
  "qn_normalize_quantity D q c =
     (if deq D (nc_contract_multiplier c) (d_one D) then Some q
      else Option.bind (dmul D (quantity_get q) (nc_contract_multiplier c)) (\<lambda>v.
        Some (case quantity_from_decimal D v of Inr q' \<Rightarrow> q' | Inl _ \<Rightarrow> q)))"

definition qn_fee_rate :: "'d dec \<Rightarrow> 'd price \<Rightarrow> 'd quantity \<Rightarrow> 'd quote \<Rightarrow> 'd normalization_config
    \<Rightarrow> ('d) option" where
  "qn_fee_rate D p q quote c =
     (case quote_commission quote of
        None \<Rightarrow> Some (nc_default_fee_rate c)
      | Some commission \<Rightarrow> Option.bind (dmul D (price_get p) (quantity_get q)) (\<lambda>notional.
          if dis_zero D notional then Some (dzero D) else ddiv D (price_get commission) notional))"

definition qn_normalize_fees :: "'d dec \<Rightarrow> 'd price \<Rightarrow> 'd quantity \<Rightarrow> 'd quote \<Rightarrow> 'd normalization_config
    \<Rightarrow> ('d price \<times> 'd \<times> 'd) option" where
  "qn_normalize_fees D p q quote c =
     (if nc_fees_included_in_quote c \<or> \<not> nc_include_fees c then Some (p, dzero D, dzero D)
      else
        Option.bind (qn_fee_rate D p q quote c) (\<lambda>rate.
        Option.bind (dmul D (price_get p) rate) (\<lambda>fee.
        Option.bind (dadd D (price_get p) fee) (\<lambda>all_in.
          Some (case price_from_decimal D all_in of Inr a \<Rightarrow> a | Inl _ \<Rightarrow> p, fee, rate)))))"

definition qn_normalize_timestamp :: "timestamp \<Rightarrow> 'd normalization_config \<Rightarrow> timestamp" where
  "qn_normalize_timestamp t c =
     (if nc_latency_adjustment_ms c = 0 then t else ts_add_millis t (nc_latency_adjustment_ms c))"

definition qn_normalize_with_config :: "'d dec \<Rightarrow> 'd quote_normalizer \<Rightarrow> 'd quote \<Rightarrow> 'd normalization_config
    \<Rightarrow> quote_type \<Rightarrow> string option \<Rightarrow> ('d normalized_quote) option" where
  "qn_normalize_with_config D N quote c t source_currency =
     Option.bind (qn_normalize_price D N (quote_price quote) c source_currency) (\<lambda>(np, fx, currency).
     Option.bind (qn_normalize_quantity D (quote_quantity quote) c) (\<lambda>n_q.
     Option.bind (qn_normalize_fees D np n_q quote c) (\<lambda>(all_in, fee, rate).
       let n = nq_new (quote_id quote) (quote_rfq_id quote) (quote_venue_id quote) t (quote_price quote)
             np (quote_quantity quote) n_q all_in fee rate (quote_created_at quote)
             (qn_normalize_timestamp (quote_created_at quote) c) (quote_valid_until quote) currency in
       Some (case fx of Some r \<Rightarrow> nq_with_fx_rate r n | None \<Rightarrow> n))))"

definition qn_normalize :: "'d dec \<Rightarrow> 'd quote_normalizer \<Rightarrow> 'd quote \<Rightarrow> quote_type \<Rightarrow> string option
    \<Rightarrow> ('d normalized_quote) option" where
  "qn_normalize D N quote = qn_normalize_with_config D N quote
     (ncr_get (quote_venue_id quote) (qn_config_registry N))"

definition qn_normalize_batch :: "'d dec \<Rightarrow> 'd quote_normalizer \<Rightarrow> 'd quote list \<Rightarrow> (uuid \<rightharpoonup> quote_type)
    \<Rightarrow> string option \<Rightarrow> ('d normalized_quote list) option" where
  "qn_normalize_batch D N quotes types source_currency =
     those (map (\<lambda>q. qn_normalize D N q (unwrap_or (types (quote_id q)) Firm) source_currency) quotes)"

definition qn_filter_executable :: "'d normalized_quote list \<Rightarrow> 'd normalized_quote list" where
  "qn_filter_executable ns = filter nq_is_executable ns"

text \<open>Each \<open>is_expired\<close> reads the clock.\<close>

definition qn_filter_valid :: "('d normalized_quote \<Rightarrow> timestamp) \<Rightarrow> 'd normalized_quote list
    \<Rightarrow> 'd normalized_quote list" where
  "qn_filter_valid clk ns = filter (\<lambda>n. \<not> nq_is_expired (clk n) n) ns"

definition qn_sort_by_price :: "'d dec \<Rightarrow> bool \<Rightarrow> 'd normalized_quote list \<Rightarrow> 'd normalized_quote list" where
  "qn_sort_by_price D is_buy_side ns = sort_stable (\<lambda>a b.
     if is_buy_side then price_lt D (nq_all_in_price a) (nq_all_in_price b)
     else price_lt D (nq_all_in_price b) (nq_all_in_price a)) ns"

lemma those_eq_Some_iff: "those xs = Some ys \<longleftrightarrow> list_all2 (\<lambda>x y. x = Some y) xs ys"
proof (induction xs arbitrary: ys)
  case (Cons x xs)
  then show ?case by (cases ys) (auto simp: list_all2_Cons1 split: option.splits)
qed auto

lemma nq_new_sel [simp]:
  "nq_quote_id (nq_new qid rid v t op np oq n_q al fee rate ots ats until cur) = qid"
  "nq_rfq_id (nq_new qid rid v t op np oq n_q al fee rate ots ats until cur) = rid"
  "nq_venue_id (nq_new qid rid v t op np oq n_q al fee rate ots ats until cur) = v"
  "nq_original_price (nq_new qid rid v t op np oq n_q al fee rate ots ats until cur) = op"
  "nq_normalized_price (nq_new qid rid v t op np oq n_q al fee rate ots ats until cur) = np"
  "nq_original_quantity (nq_new qid rid v t op np oq n_q al fee rate ots ats until cur) = oq"
  "nq_normalized_quantity (nq_new qid rid v t op np oq n_q al fee rate ots ats until cur) = n_q"
  "nq_all_in_price (nq_new qid rid v t op np oq n_q al fee rate ots ats until cur) = al"
  "nq_fee_amount (nq_new qid rid v t op np oq n_q al fee rate ots ats until cur) = fee"
  "nq_valid_until (nq_new qid rid v t op np oq n_q al fee rate ots ats until cur) = until"
  "nq_is_executable (nq_new qid rid v t op np oq n_q al fee rate ots ats until cur) = qt_is_executable t"
  "nq_currency (nq_new qid rid v t op np oq n_q al fee rate ots ats until cur) = cur"
  by (simp_all add: nq_new_def)

lemma nq_with_fx_rate_sel [simp]:
  "nq_quote_id (nq_with_fx_rate r n) = nq_quote_id n" "nq_rfq_id (nq_with_fx_rate r n) = nq_rfq_id n"
  "nq_venue_id (nq_with_fx_rate r n) = nq_venue_id n"
  "nq_original_price (nq_with_fx_rate r n) = nq_original_price n"
  "nq_normalized_price (nq_with_fx_rate r n) = nq_normalized_price n"
  "nq_original_quantity (nq_with_fx_rate r n) = nq_original_quantity n"
  "nq_normalized_quantity (nq_with_fx_rate r n) = nq_normalized_quantity n"
  "nq_all_in_price (nq_with_fx_rate r n) = nq_all_in_price n"
  "nq_fee_amount (nq_with_fx_rate r n) = nq_fee_amount n"
  "nq_valid_until (nq_with_fx_rate r n) = nq_valid_until n"
  "nq_is_executable (nq_with_fx_rate r n) = nq_is_executable n"
  "nq_currency (nq_with_fx_rate r n) = nq_currency n"
  by (simp_all add: nq_with_fx_rate_def)

text \<open>The parts of a normalized quote.\<close>

definition nq_of_parts :: "'d quote \<Rightarrow> quote_type \<Rightarrow> 'd normalization_config \<Rightarrow> 'd price \<times> 'd option \<times> string
    \<Rightarrow> 'd quantity \<Rightarrow> 'd price \<times> 'd \<times> 'd \<Rightarrow> 'd normalized_quote" where
  "nq_of_parts quote t c pr n_q fees = (case (pr, fees) of ((np, fx, currency), (all_in, fee, rate)) \<Rightarrow>
     let n = nq_new (quote_id quote) (quote_rfq_id quote) (quote_venue_id quote) t (quote_price quote)
       np (quote_quantity quote) n_q all_in fee rate (quote_created_at quote)
       (qn_normalize_timestamp (quote_created_at quote) c) (quote_valid_until quote) currency in
     case fx of Some r \<Rightarrow> nq_with_fx_rate r n | None \<Rightarrow> n)"

lemma nq_of_parts_sel [simp]:
  "nq_quote_id (nq_of_parts quote t c pr n_q fees) = quote_id quote"
  "nq_rfq_id (nq_of_parts quote t c pr n_q fees) = quote_rfq_id quote"
  "nq_venue_id (nq_of_parts quote t c pr n_q fees) = quote_venue_id quote"
  "nq_original_price (nq_of_parts quote t c pr n_q fees) = quote_price quote"
  "nq_original_quantity (nq_of_parts quote t c pr n_q fees) = quote_quantity quote"
  "nq_valid_until (nq_of_parts quote t c pr n_q fees) = quote_valid_until quote"
  "nq_is_executable (nq_of_parts quote t c pr n_q fees) = qt_is_executable t"
  "nq_normalized_price (nq_of_parts quote t c pr n_q fees) = fst pr"
  "nq_currency (nq_of_parts quote t c pr n_q fees) = snd (snd pr)"
  "nq_normalized_quantity (nq_of_parts quote t c pr n_q fees) = n_q"
  "nq_all_in_price (nq_of_parts quote t c pr n_q fees) = fst fees"
  by (simp_all add: nq_of_parts_def Let_def split: prod.split option.split)

lemma normalize_Some_iff:
  "qn_normalize D N quote t cur = Some n \<longleftrightarrow>
    (let c = ncr_get (quote_venue_id quote) (qn_config_registry N) in
     \<exists>pr n_q fees. qn_normalize_price D N (quote_price quote) c cur = Some pr
      \<and> qn_normalize_quantity D (quote_quantity quote) c = Some n_q
      \<and> qn_normalize_fees D (fst pr) n_q quote c = Some fees
      \<and> n = nq_of_parts quote t c pr n_q fees)"
  unfolding qn_normalize_def qn_normalize_with_config_def bind_eq_Some_conv Let_def nq_of_parts_def
    split_paired_Ex prod.case fst_conv option.inject
  by (simp only: eq_commute [of n] ex_simps conj_assoc)

text \<open>What a normalization keeps of its quote.\<close>

lemma normalize_keeps:
  assumes "qn_normalize D N quote t cur = Some n"
  shows "nq_quote_id n = quote_id quote \<and> nq_rfq_id n = quote_rfq_id quote
    \<and> nq_venue_id n = quote_venue_id quote \<and> nq_original_price n = quote_price quote
    \<and> nq_original_quantity n = quote_quantity quote \<and> nq_valid_until n = quote_valid_until quote
    \<and> nq_is_executable n = qt_is_executable t"
  using assms unfolding normalize_Some_iff Let_def by - (elim exE conjE, simp)

end
