(* ===== verification/Ranking.thy ===== *)
theory Ranking
  imports Normalization Float64 Rfq_Aggregate
begin

text \<open>
  \<open>src/application/services/ranking_strategy.rs\<close>: scores in \<open>f64\<close>, a stable sort with the best score
  first, ranks from 1. The conversion of a decimal to \<open>f64\<close> (\<open>to_f64\<close> of the decimal package) is a
  parameter \<open>T\<close>. What every strategy promises of its result is the locale \<open>ranking\<close>; the
  aggregation and the filling of quotes build on it.
\<close>

section \<open>Comparing scores\<close>

text \<open>The comparison of scores, \<open>b.1.partial_cmp(&a.1).unwrap_or(Equal)\<close>: the greater score first.\<close>

definition score_before :: "'i \<times> f64 \<Rightarrow> 'i \<times> f64 \<Rightarrow> bool" where
  "score_before a b \<longleftrightarrow> f_lt (snd b) (snd a)"

lemma f_lt_asym: "f_lt a b \<Longrightarrow> \<not> f_lt b a"
  by (cases a; cases b) auto

lemma f_lt_neg_trans: "a \<noteq> NaN \<Longrightarrow> b \<noteq> NaN \<Longrightarrow> c \<noteq> NaN \<Longrightarrow> \<not> f_lt a b \<Longrightarrow> \<not> f_lt b c \<Longrightarrow> \<not> f_lt a c"
  by (cases a; cases b; cases c) auto

interpretation scores: sorting_order "\<lambda>a. snd a \<noteq> NaN" score_before
  by unfold_locales (simp_all add: score_before_def f_lt_asym, metis f_lt_neg_trans)

section \<open>Ranked quotes\<close>

record 'a ranked =
  rank_item :: 'a
  rank_no :: nat
  rank_score :: f64

type_synonym 'd ranked_quote = "'d quote ranked"
type_synonym 'd ranked_normalized_quote = "'d normalized_quote ranked"

definition rk_new :: "'a \<Rightarrow> nat \<Rightarrow> f64 \<Rightarrow> 'a ranked" where
  "rk_new q n s = \<lparr> rank_item = q, rank_no = n, rank_score = s \<rparr>"

definition rk_is_best :: "'a ranked \<Rightarrow> bool" where
  "rk_is_best r \<longleftrightarrow> rank_no r = 1"

text \<open>
  The end of every \<open>rank\<close>: sort the scored indices, number them, and look the quotes up.
\<close>

definition ranked_from :: "'a list \<Rightarrow> (nat \<times> f64) list \<Rightarrow> 'a ranked list" where
  "ranked_from qs scored = List.map_filter (\<lambda>(k, i, s).
       if i < length qs then Some (rk_new (qs ! i) (k + 1) s) else None)
     (enumerate 0 (sort_stable score_before scored))"

definition scored_by :: "('a \<Rightarrow> f64) \<Rightarrow> 'a list \<Rightarrow> (nat \<times> f64) list" where
  "scored_by score qs = map (\<lambda>(i, q). (i, score q)) (enumerate 0 qs)"

text \<open>\<open>rank_normalized\<close>, the default of the trait.\<close>

definition rank_normalized :: "('d normalized_quote \<Rightarrow> order_side \<Rightarrow> f64) \<Rightarrow> 'd normalized_quote list
    \<Rightarrow> order_side \<Rightarrow> 'd ranked_normalized_quote list" where
  "rank_normalized score_normalized qs side =
     (if qs = [] then [] else ranked_from qs (scored_by (\<lambda>q. score_normalized q side) qs))"

section \<open>The strategies\<close>

text \<open>\<open>to_f64().unwrap_or(0.0)\<close>.\<close>

definition f_of_dec :: "('d \<Rightarrow> f64 option) \<Rightarrow> 'd \<Rightarrow> f64" where
  "f_of_dec T d = unwrap_or (T d) (lit 0)"

abbreviation price_f :: "('d \<Rightarrow> f64 option) \<Rightarrow> 'd quote \<Rightarrow> f64" where
  "price_f T q \<equiv> f_of_dec T (price_get (quote_price q))"

abbreviation quantity_f :: "('d \<Rightarrow> f64 option) \<Rightarrow> 'd quote \<Rightarrow> f64" where
  "quantity_f T q \<equiv> f_of_dec T (quantity_get (quote_quantity q))"

abbreviation all_in_f :: "('d \<Rightarrow> f64 option) \<Rightarrow> 'd normalized_quote \<Rightarrow> f64" where
  "all_in_f T q \<equiv> f_of_dec T (price_get (nq_all_in_price q))"

abbreviation norm_quantity_f :: "('d \<Rightarrow> f64 option) \<Rightarrow> 'd normalized_quote \<Rightarrow> f64" where
  "norm_quantity_f T q \<equiv> f_of_dec T (quantity_get (nq_normalized_quantity q))"

text \<open>\<open>fold(INFINITY, f64::min)\<close> and \<open>fold(NEG_INFINITY, f64::max)\<close>.\<close>

definition f_minimum :: "f64 list \<Rightarrow> f64" where
  "f_minimum xs = foldl f_min (Inf False) xs"

definition f_maximum :: "f64 list \<Rightarrow> f64" where
  "f_maximum xs = foldl f_max (Inf True) xs"

subsection \<open>\<open>BestPriceStrategy\<close>\<close>

definition bp_score :: "order_side \<Rightarrow> f64 \<Rightarrow> f64" where
  "bp_score side p = (case side of Buy \<Rightarrow> f_neg p | Sell \<Rightarrow> p)"

definition best_price_rank :: "('d \<Rightarrow> f64 option) \<Rightarrow> 'd quote list \<Rightarrow> order_side \<Rightarrow> 'd ranked_quote list" where
  "best_price_rank T qs side =
     (if qs = [] then [] else ranked_from qs (scored_by (\<lambda>q. bp_score side (price_f T q)) qs))"

definition best_price_score_normalized :: "('d \<Rightarrow> f64 option) \<Rightarrow> 'd normalized_quote \<Rightarrow> order_side \<Rightarrow> f64" where
  "best_price_score_normalized T q side = bp_score side (all_in_f T q)"

subsection \<open>\<open>WeightedScoreStrategy\<close>\<close>

record weighted_score =
  ws_price_weight :: f64
  ws_quantity_weight :: f64

definition ws_default :: weighted_score where
  "ws_default = \<lparr> ws_price_weight = lit (7 / 10), ws_quantity_weight = lit (3 / 10) \<rparr>"

definition weighted_score_rank :: "weighted_score \<Rightarrow> ('d \<Rightarrow> f64 option) \<Rightarrow> 'd quote list \<Rightarrow> order_side
    \<Rightarrow> 'd ranked_quote list" where
  "weighted_score_rank W T qs side =
     (if qs = [] then []
      else
        let prices = map (price_f T) qs; quantities = map (quantity_f T) qs;
            min_price = f_minimum prices; max_price = f_maximum prices;
            min_qty = f_minimum quantities; max_qty = f_maximum quantities;
            price_range = f_max (f_sub max_price min_price) (lit 1);
            qty_range = f_max (f_sub max_qty min_qty) (lit 1);
            score = (\<lambda>q.
              let price_score = (case side of
                      Buy \<Rightarrow> f_div (f_sub max_price (price_f T q)) price_range
                    | Sell \<Rightarrow> f_div (f_sub (price_f T q) min_price) price_range);
                  qty_score = f_div (f_sub (quantity_f T q) min_qty) qty_range in
              f_add (f_mul (ws_price_weight W) price_score) (f_mul (ws_quantity_weight W) qty_score)) in
        ranked_from qs (scored_by score qs))"

definition weighted_score_normalized :: "weighted_score \<Rightarrow> ('d \<Rightarrow> f64 option) \<Rightarrow> 'd normalized_quote
    \<Rightarrow> order_side \<Rightarrow> f64" where
  "weighted_score_normalized W T q side = f_add (f_mul (ws_price_weight W) (all_in_f T q))
     (f_mul (ws_quantity_weight W) (norm_quantity_f T q))"

subsection \<open>\<open>LowestSlippageStrategy\<close>\<close>

definition calculate_slippage :: "f64 \<Rightarrow> f64 \<Rightarrow> f64" where
  "calculate_slippage price best =
     (if f_eq best (lit 0) then lit 0 else f_abs (f_div (f_sub price best) best))"

definition lowest_slippage_rank :: "('d \<Rightarrow> f64 option) \<Rightarrow> 'd quote list \<Rightarrow> order_side \<Rightarrow> 'd ranked_quote list" where
  "lowest_slippage_rank T qs side =
     (if qs = [] then []
      else
        let prices = map (price_f T) qs;
            best = (case side of Buy \<Rightarrow> f_minimum prices | Sell \<Rightarrow> f_maximum prices) in
        ranked_from qs (scored_by (\<lambda>q.
          f_sub (lit 1) (f_min (calculate_slippage (price_f T q) best) (lit 1))) qs))"

definition slippage_score_normalized :: "('d \<Rightarrow> f64 option) \<Rightarrow> 'd normalized_quote \<Rightarrow> order_side \<Rightarrow> f64" where
  "slippage_score_normalized T q side = f_div (lit 1) (f_add (lit 1) (all_in_f T q))"

subsection \<open>\<open>LowestCostStrategy\<close>\<close>

record cost_config =
  cost_commission_rate :: f64
  cost_gas_cost :: f64

definition cost_default :: cost_config where
  "cost_default = \<lparr> cost_commission_rate = lit (1 / 1000), cost_gas_cost = lit 0 \<rparr>"

definition calculate_total_cost :: "cost_config \<Rightarrow> f64 \<Rightarrow> f64 \<Rightarrow> f64" where
  "calculate_total_cost C price quantity =
     (let base = f_mul price quantity; commission = f_mul base (cost_commission_rate C) in
      f_add (f_add base commission) (cost_gas_cost C))"

definition lowest_cost_rank :: "cost_config \<Rightarrow> ('d \<Rightarrow> f64 option) \<Rightarrow> 'd quote list \<Rightarrow> order_side
    \<Rightarrow> 'd ranked_quote list" where
  "lowest_cost_rank C T qs side =
     (if qs = [] then []
      else
        let cost = (\<lambda>q. calculate_total_cost C (price_f T q) (quantity_f T q));
            costs = map cost qs; min_cost = f_minimum costs; max_cost = f_maximum costs;
            cost_range = f_max (f_sub max_cost min_cost) (lit 1) in
        ranked_from qs (scored_by (\<lambda>q. case side of
            Buy \<Rightarrow> f_div (f_sub max_cost (cost q)) cost_range
          | Sell \<Rightarrow> f_div (f_sub (cost q) min_cost) cost_range) qs))"

definition cost_score_normalized :: "('d \<Rightarrow> f64 option) \<Rightarrow> 'd normalized_quote \<Rightarrow> order_side \<Rightarrow> f64" where
  "cost_score_normalized T q side =
     (let total = f_mul (all_in_f T q) (norm_quantity_f T q) in
      case side of Buy \<Rightarrow> f_neg total | Sell \<Rightarrow> total)"

subsection \<open>\<open>WeightedMultiFactorStrategy\<close>\<close>

record ranking_weights =
  rw_price :: f64
  rw_quantity :: f64
  rw_reliability :: f64
  rw_freshness :: f64

definition rw_default :: ranking_weights where
  "rw_default = \<lparr> rw_price = lit (70 / 100), rw_quantity = lit (15 / 100),
     rw_reliability = lit (10 / 100), rw_freshness = lit (5 / 100) \<rparr>"

definition rw_sum :: "ranking_weights \<Rightarrow> f64" where
  "rw_sum w = f_add (f_add (f_add (rw_price w) (rw_quantity w)) (rw_reliability w)) (rw_freshness w)"

record multi_factor =
  mf_weights :: ranking_weights
  mf_reliability_scores :: "string \<rightharpoonup> f64"
  mf_requested_quantity :: "f64 option"

definition mf_with_weights :: "ranking_weights \<Rightarrow> multi_factor" where
  "mf_with_weights w = \<lparr> mf_weights = w, mf_reliability_scores = Map.empty, mf_requested_quantity = None \<rparr>"

definition mf_new :: multi_factor where
  "mf_new = mf_with_weights rw_default"

definition mf_with_requested_quantity :: "f64 \<Rightarrow> multi_factor \<Rightarrow> multi_factor" where
  "mf_with_requested_quantity q M = M\<lparr> mf_requested_quantity := Some q \<rparr>"

definition mf_add_reliability_score :: "string \<Rightarrow> f64 \<Rightarrow> multi_factor \<Rightarrow> multi_factor" where
  "mf_add_reliability_score v s M = M\<lparr> mf_reliability_scores := (mf_reliability_scores M)(v \<mapsto> s) \<rparr>"

definition compute_reliability_score :: "f64 option \<Rightarrow> f64 option \<Rightarrow> f64" where
  "compute_reliability_score response_pct reject_pct =
     (let response = f_div (f_clamp (unwrap_or response_pct (lit 50)) (lit 0) (lit 100)) (lit 100);
          reject = f_div (f_clamp (unwrap_or reject_pct (lit 0)) (lit 0) (lit 100)) (lit 100) in
      f_clamp (f_div (f_add response (f_sub (lit 1) reject)) (lit 2)) (lit 0) (lit 1))"

definition mf_normalize_price :: "f64 \<Rightarrow> f64 \<Rightarrow> f64 \<Rightarrow> order_side \<Rightarrow> f64" where
  "mf_normalize_price price min_price max_price side =
     (let price_range = f_max (f_sub max_price min_price) f_epsilon in
      case side of Buy \<Rightarrow> f_div (f_sub max_price price) price_range
      | Sell \<Rightarrow> f_div (f_sub price min_price) price_range)"

definition mf_quantity_score :: "multi_factor \<Rightarrow> f64 \<Rightarrow> f64" where
  "mf_quantity_score M quoted = (case mf_requested_quantity M of
       Some requested \<Rightarrow> if f_lt (lit 0) requested then f_min (f_div quoted requested) (lit 1) else lit 1
     | None \<Rightarrow> lit 1)"

definition mf_reliability_score :: "multi_factor \<Rightarrow> string \<Rightarrow> f64" where
  "mf_reliability_score M v = f_clamp (unwrap_or (mf_reliability_scores M v) (lit (1 / 2))) (lit 0) (lit 1)"

text \<open>Milliseconds, whose differences an \<open>i64\<close> holds.\<close>

definition mf_freshness_score :: "int \<Rightarrow> int \<Rightarrow> int \<Rightarrow> f64" where
  "mf_freshness_score created oldest newest =
     f_sub (lit 1) (f_div (f_of_int (newest - created)) (f_of_int (max (newest - oldest) 1)))"

definition mf_total :: "multi_factor \<Rightarrow> f64 \<Rightarrow> f64 \<Rightarrow> f64 \<Rightarrow> f64 \<Rightarrow> f64" where
  "mf_total M p q r f = f_add (f_add (f_add (f_mul (rw_price (mf_weights M)) p)
     (f_mul (rw_quantity (mf_weights M)) q)) (f_mul (rw_reliability (mf_weights M)) r))
     (f_mul (rw_freshness (mf_weights M)) f)"

definition ts_millis :: "timestamp \<Rightarrow> int" where
  "ts_millis t = t div 1000000"

definition multi_factor_rank :: "multi_factor \<Rightarrow> ('d \<Rightarrow> f64 option) \<Rightarrow> 'd quote list \<Rightarrow> order_side
    \<Rightarrow> 'd ranked_quote list" where
  "multi_factor_rank M T qs side =
     (if qs = [] then []
      else
        let prices = map (price_f T) qs; stamps = map (\<lambda>q. ts_millis (quote_created_at q)) qs;
            min_price = f_minimum prices; max_price = f_maximum prices;
            oldest = Min (set stamps); newest = Max (set stamps) in
        ranked_from qs (scored_by (\<lambda>q. mf_total M
            (mf_normalize_price (price_f T q) min_price max_price side)
            (mf_quantity_score M (quantity_f T q))
            (mf_reliability_score M (quote_venue_id q))
            (mf_freshness_score (ts_millis (quote_created_at q)) oldest newest)) qs))"

definition multi_factor_score_normalized :: "multi_factor \<Rightarrow> ('d \<Rightarrow> f64 option) \<Rightarrow> 'd normalized_quote
    \<Rightarrow> order_side \<Rightarrow> f64" where
  "multi_factor_score_normalized M T q side =
     (let price_score = (case side of
            Buy \<Rightarrow> f_div (lit 1) (f_add (lit 1) (all_in_f T q)) | Sell \<Rightarrow> all_in_f T q) in
      mf_total M price_score (mf_quantity_score M (norm_quantity_f T q))
        (mf_reliability_score M (nq_venue_id q))
        (f_sub (lit 1) (f_fract (f_div (f_of_int (ts_millis (nq_adjusted_timestamp q))) (lit 1000000000)))))"

subsection \<open>\<open>CompositeStrategy\<close>\<close>

text \<open>A strategy behind the trait.\<close>

record 'd ranking_strategy =
  st_rank :: "'d quote list \<Rightarrow> order_side \<Rightarrow> 'd ranked_quote list"
  st_score_normalized :: "'d normalized_quote \<Rightarrow> order_side \<Rightarrow> f64"

text \<open>Each ranked quote adds to the score at the first position with its identifier.\<close>

definition position_of :: "'d quote list \<Rightarrow> uuid \<Rightarrow> nat option" where
  "position_of qs i = map_option fst (find (\<lambda>(k, q). quote_id q = i) (enumerate 0 qs))"

definition add_score :: "'d quote list \<Rightarrow> f64 \<Rightarrow> f64 list \<Rightarrow> 'd ranked_quote \<Rightarrow> f64 list" where
  "add_score qs weight scores r = (case position_of qs (quote_id (rank_item r)) of
       Some k \<Rightarrow> if k < length scores then scores[k := f_add (scores ! k) (f_mul (rank_score r) weight)] else scores
     | None \<Rightarrow> scores)"

definition combine_strategies :: "('d ranking_strategy \<times> f64) list \<Rightarrow> 'd quote list \<Rightarrow> order_side \<Rightarrow> f64 list \<times> f64" where
  "combine_strategies ss qs side = foldl (\<lambda>(scores, total) (s, weight).
       (foldl (add_score qs weight) scores (st_rank s qs side), f_add total weight))
     (replicate (length qs) (lit 0), lit 0) ss"

definition composite_rank :: "('d ranking_strategy \<times> f64) list \<Rightarrow> 'd quote list \<Rightarrow> order_side \<Rightarrow> 'd ranked_quote list" where
  "composite_rank ss qs side =
     (if qs = [] \<or> ss = [] then []
      else
        let (scores, total) = combine_strategies ss qs side;
            scores = (if f_lt (lit 0) total then map (\<lambda>s. f_div s total) scores else scores) in
        ranked_from qs (enumerate 0 scores))"

definition composite_score_normalized :: "('d ranking_strategy \<times> f64) list \<Rightarrow> 'd normalized_quote \<Rightarrow> order_side \<Rightarrow> f64" where
  "composite_score_normalized ss q side =
     (if ss = [] then lit 0
      else
        let (score, total) = foldl (\<lambda>(score, total) (s, weight).
              (f_add score (f_mul (st_score_normalized s q side) weight), f_add total weight))
              (lit 0, lit 0) ss in
        if f_lt (lit 0) total then f_div score total else lit 0)"

text \<open>The strategies as the builder adds them.\<close>

definition best_price_strategy :: "('d \<Rightarrow> f64 option) \<Rightarrow> 'd ranking_strategy" where
  "best_price_strategy T = \<lparr> st_rank = best_price_rank T, st_score_normalized = best_price_score_normalized T \<rparr>"

definition lowest_slippage_strategy :: "('d \<Rightarrow> f64 option) \<Rightarrow> 'd ranking_strategy" where
  "lowest_slippage_strategy T = \<lparr> st_rank = lowest_slippage_rank T,
     st_score_normalized = slippage_score_normalized T \<rparr>"

definition lowest_cost_strategy :: "cost_config \<Rightarrow> ('d \<Rightarrow> f64 option) \<Rightarrow> 'd ranking_strategy" where
  "lowest_cost_strategy C T = \<lparr> st_rank = lowest_cost_rank C T, st_score_normalized = cost_score_normalized T \<rparr>"

definition composite_strategy :: "('d ranking_strategy \<times> f64) list \<Rightarrow> 'd ranking_strategy" where
  "composite_strategy ss = \<lparr> st_rank = composite_rank ss, st_score_normalized = composite_score_normalized ss \<rparr>"

section \<open>What a ranking promises\<close>

text \<open>
  Every quote once, ranks from 1 in order, and, where no score is NaN, no score below a later one.
\<close>

locale ranking =
  fixes rank :: "'a list \<Rightarrow> 'a ranked list"
  assumes permutes: "mset (map rank_item (rank qs)) = mset qs"
    and numbers: "map rank_no (rank qs) = [1..<Suc (length qs)]"
    and best_first: "\<forall>r\<in>set (rank qs). rank_score r \<noteq> NaN
      \<Longrightarrow> sorted_wrt (\<lambda>a b. \<not> f_lt (rank_score a) (rank_score b)) (rank qs)"
begin

lemma length_rank [simp]: "length (rank qs) = length qs"
  by (metis length_map permutes size_mset)

lemma items_rank: "rank_item ` set (rank qs) = set qs"
  by (metis permutes set_map set_mset_mset)

lemma rank_no_nth: "k < length qs \<Longrightarrow> rank_no (rank qs ! k) = Suc k"
  using nth_map [of k "rank qs" rank_no] by (simp add: numbers del: upt_Suc)

lemma best_is_head:
  assumes "r \<in> set (rank qs)"
  shows "rk_is_best r \<longleftrightarrow> r = hd (rank qs)"
proof -
  obtain k where k: "k < length qs" "r = rank qs ! k" using assms by (metis in_set_conv_nth length_rank)
  then have "rank qs \<noteq> []" by (metis length_rank length_0_conv not_less0)
  then have "hd (rank qs) = rank qs ! 0" by (simp add: hd_conv_nth)
  moreover have "rank_no r = Suc k" using rank_no_nth k by simp
  moreover have "rank_no (rank qs ! 0) = 1" using rank_no_nth [of 0 qs] k(1) by (cases qs) auto
  ultimately show ?thesis using k by (cases k) (auto simp: rk_is_best_def)
qed

text \<open>Cutting the ranking to its first quotes keeps the best ones.\<close>

lemma truncated:
  "map rank_no (take m (rank qs)) = [1..<Suc (min m (length qs))]"
  "set (map rank_item (take m (rank qs))) \<subseteq> set qs"
proof -
  show "map rank_no (take m (rank qs)) = [1..<Suc (min m (length qs))]"
  proof (cases "m \<le> length qs")
    case True
    then show ?thesis using take_upt [of 1 m "Suc (length qs)"]
      by (simp add: take_map [symmetric] numbers min_def del: upt_Suc)
  next
    case False
    then show ?thesis using numbers [of qs] by (simp add: min_def del: upt_Suc)
  qed
  show "set (map rank_item (take m (rank qs))) \<subseteq> set qs"
    using items_rank [of qs] set_take_subset [of m "rank qs"] by auto
qed

end

lemma map_filter_all: "\<forall>x\<in>set xs. f x = Some (g x) \<Longrightarrow> List.map_filter f xs = map g xs"
  by (induction xs) auto

lemma ranked_from_map:
  assumes "map fst scored = [0..<length qs]"
  shows "ranked_from qs scored = map (\<lambda>(k, i, s). rk_new (qs ! i) (k + 1) s) (enumerate 0 (sort_stable score_before scored))"
proof -
  have "i < length qs" if "(k, i, s) \<in> set (enumerate 0 (sort_stable score_before scored))" for k i s
  proof -
    have "k < length (sort_stable score_before scored)" "sort_stable score_before scored ! k = (i, s)"
      using that by (auto simp: in_set_enumerate_eq)
    then have "(i, s) \<in> set (sort_stable score_before scored)" by (metis nth_mem)
    then have "i \<in> set (map fst scored)" by force
    then show ?thesis unfolding assms by simp
  qed
  then show ?thesis unfolding ranked_from_def by (intro map_filter_all) auto
qed

lemma ranked_from_items:
  assumes "map fst scored = [0..<length qs]"
  shows "map rank_item (ranked_from qs scored) = map (\<lambda>(i, s). qs ! i) (sort_stable score_before scored)"
    and "map rank_no (ranked_from qs scored) = [1..<Suc (length qs)]"
    and "map rank_score (ranked_from qs scored) = map snd (sort_stable score_before scored)"
proof -
  have len: "length scored = length qs" by (metis assms length_map diff_zero length_upt)
  show "map rank_item (ranked_from qs scored) = map (\<lambda>(i, s). qs ! i) (sort_stable score_before scored)"
    "map rank_score (ranked_from qs scored) = map snd (sort_stable score_before scored)"
    by (auto simp: ranked_from_map [OF assms] rk_new_def nth_enumerate_eq intro!: nth_equalityI split: prod.split)
  show "map rank_no (ranked_from qs scored) = [1..<Suc (length qs)]"
    by (rule nth_equalityI) (auto simp: ranked_from_map [OF assms] rk_new_def nth_enumerate_eq len simp del: upt_Suc split: prod.split)
qed

lemma ranking_ranked_from:
  assumes "\<And>qs. qs \<noteq> [] \<Longrightarrow> map fst (f qs) = [0..<length qs]"
  shows "ranking (\<lambda>qs. if qs = [] then [] else ranked_from qs (f qs))"
proof
  fix qs :: "'a list"
  let ?r = "if qs = [] then [] else ranked_from qs (f qs)"
  show "map rank_no ?r = [1..<Suc (length qs)]" proof (cases "qs = []")
    case False
    then show ?thesis by (simp only: if_False ranked_from_items(2) [OF assms [OF False]])
  qed simp
  show "mset (map rank_item ?r) = mset qs"
  proof (cases "qs = []")
    case False
    note idx = assms [OF this]
    have "mset (map rank_item ?r) = image_mset (\<lambda>(i, s). qs ! i) (mset (f qs))"
      using False by (simp add: ranked_from_items(1) [OF idx])
    also have "\<dots> = mset (map ((!) qs) (map fst (f qs)))" by (simp add: case_prod_unfold comp_def flip: mset_map)
    also have "\<dots> = mset qs" unfolding idx by (simp add: map_nth)
    finally show ?thesis .
  qed simp
  assume fin: "\<forall>r\<in>set ?r. rank_score r \<noteq> NaN"
  show "sorted_wrt (\<lambda>a b. \<not> f_lt (rank_score a) (rank_score b)) ?r"
  proof (cases "qs = []")
    case False
    note idx = assms [OF this]
    have scores: "map rank_score ?r = map snd (sort_stable score_before (f qs))"
      using False ranked_from_items(3) [OF idx] by simp
    have "rank_score ` set ?r = snd ` set (f qs)"
      using arg_cong [OF scores, of set] by simp
    then have "\<forall>x\<in>set (f qs). snd x \<noteq> NaN" using fin by (metis image_iff)
    from scores.sorted_sort_stable [OF this]
    have "sorted_wrt (\<lambda>a b. \<not> f_lt a b) (map rank_score ?r)"
      unfolding scores by (simp add: sorted_wrt_map score_before_def)
    then show ?thesis by (simp only: sorted_wrt_map)
  qed simp
qed

lemma scored_by_indices [simp]: "map fst (scored_by score qs) = [0..<length qs]"
  by (simp add: scored_by_def case_prod_unfold comp_def)

lemma enumerate_indices [simp]: "length xs = n \<Longrightarrow> map fst (enumerate 0 xs) = [0..<n]"
  by simp

interpretation best_price: ranking "\<lambda>qs. best_price_rank T qs side" for T side
  unfolding best_price_rank_def by (rule ranking_ranked_from) simp

interpretation weighted: ranking "\<lambda>qs. weighted_score_rank W T qs side" for W T side
  unfolding weighted_score_rank_def Let_def by (rule ranking_ranked_from) simp

interpretation slippage: ranking "\<lambda>qs. lowest_slippage_rank T qs side" for T side
  unfolding lowest_slippage_rank_def Let_def by (rule ranking_ranked_from) simp

interpretation cost: ranking "\<lambda>qs. lowest_cost_rank C T qs side" for C T side
  unfolding lowest_cost_rank_def Let_def by (rule ranking_ranked_from) simp

interpretation multi: ranking "\<lambda>qs. multi_factor_rank M T qs side" for M T side
  unfolding multi_factor_rank_def Let_def by (rule ranking_ranked_from) simp

interpretation normalized: ranking "\<lambda>qs. rank_normalized score qs side" for score side
  unfolding rank_normalized_def by (rule ranking_ranked_from) simp

text \<open>A composite of at least one strategy.\<close>

lemma length_add_score [simp]: "length (add_score qs w scores r) = length scores"
  by (simp add: add_score_def split: option.split)

lemma length_add_scores [simp]: "length (foldl (add_score qs w) scores rs) = length scores"
  by (induction rs arbitrary: scores) auto

lemma length_combined: "length (fst (combine_strategies ss qs side)) = length qs"
proof -
  have "length (fst (foldl (\<lambda>(scores, total) (s, weight). (foldl (add_score qs weight) scores (st_rank s qs side), f_add total weight))
      (xs, t) ss)) = length xs" for xs t
    by (induction ss arbitrary: xs t) (auto split: prod.split)
  then show ?thesis by (simp add: combine_strategies_def)
qed

interpretation composite: ranking "\<lambda>qs. composite_rank (s # ss) qs side" for s ss side
proof -
  let ?f = "\<lambda>qs. let (scores, total) = combine_strategies (s # ss) qs side in
      enumerate 0 (if f_lt (lit 0) total then map (\<lambda>s. f_div s total) scores else scores)"
  have "composite_rank (s # ss) qs side = (if qs = [] then [] else ranked_from qs (?f qs))" for qs
    by (simp add: composite_rank_def Let_def split: prod.split)
  moreover have "ranking (\<lambda>qs. if qs = [] then [] else ranked_from qs (?f qs))"
    by (rule ranking_ranked_from) (use length_combined [of "s # ss"] in \<open>simp split: prod.split, metis fst_conv\<close>)
  ultimately show "ranking (\<lambda>qs. composite_rank (s # ss) qs side)" by simp
qed

lemma scored_by_entry: "(i, s) \<in> set (scored_by score qs) \<Longrightarrow> i < length qs \<and> s = score (qs ! i)"
  by (auto simp: scored_by_def in_set_enumerate_eq)

lemma ranked_score:
  assumes "r \<in> set (ranked_from qs (scored_by score qs))"
  shows "rank_score r = score (rank_item r)"
proof -
  obtain k i s where r: "(k, i, s) \<in> set (enumerate 0 (sort_stable score_before (scored_by score qs)))"
      "r = rk_new (qs ! i) (k + 1) s"
    using assms by (auto simp: ranked_from_map)
  have "k < length (sort_stable score_before (scored_by score qs))"
    "sort_stable score_before (scored_by score qs) ! k = (i, s)"
    using r(1) by (auto simp: in_set_enumerate_eq)
  then have "(i, s) \<in> set (sort_stable score_before (scored_by score qs))" by (metis nth_mem)
  then show ?thesis using scored_by_entry r(2) by (fastforce simp: rk_new_def)
qed

text \<open>Items with equal scores keep their order.\<close>

lemma ranked_ties:
  assumes "\<And>q. q \<in> set qs \<Longrightarrow> P q \<Longrightarrow> score q = x"
  shows "filter P (map rank_item (ranked_from qs (scored_by score qs))) = filter P qs"
proof -
  let ?P = "\<lambda>(i, s). P (qs ! i)" and ?sc = "scored_by score qs"
  have "filter ?P (sort_stable score_before ?sc) = filter ?P ?sc"
  proof (rule sort_stable_is_stable, intro ballI impI)
    fix a b assume "a \<in> set ?sc" "b \<in> set ?sc" "?P a" "?P b"
    then have "snd a = x" "snd b = x" using scored_by_entry assms by (metis case_prod_unfold nth_mem prod.collapse)+
    then show "\<not> score_before a b" using f_lt_asym [of x x] by (auto simp: score_before_def)
  qed
  then have "map (\<lambda>(i, s). qs ! i) (filter ?P (sort_stable score_before ?sc)) = map (\<lambda>(i, s). qs ! i) (filter ?P ?sc)"
    by simp
  moreover have "map (\<lambda>(i, s). qs ! i) (filter ?P xs) = filter P (map (\<lambda>(i, s). qs ! i) xs)" for xs
    by (induction xs) auto
  moreover have "map (\<lambda>(i, s). qs ! i) ?sc = qs"
    by (auto simp: scored_by_def nth_enumerate_eq intro!: nth_equalityI)
  ultimately show ?thesis unfolding ranked_from_items(1) [OF scored_by_indices] by metis
qed

section \<open>Properties\<close>

text \<open>Documented of \<open>to_f64\<close>: every decimal has a finite value, and the conversion keeps the order.\<close>

definition f_monotone :: "'d dec \<Rightarrow> ('d \<Rightarrow> f64 option) \<Rightarrow> bool" where
  "f_monotone D T \<longleftrightarrow> (\<forall>d. \<exists>x. T d = Some (Fin x))
     \<and> (\<forall>a b x y. T a = Some (Fin x) \<longrightarrow> T b = Some (Fin y) \<longrightarrow> dle D a b \<longrightarrow> x \<le> y)"

lemma f_monotone_le:
  assumes "f_monotone D T" "dle D a b"
  shows "\<exists>x y. f_of_dec T a = Fin x \<and> f_of_dec T b = Fin y \<and> x \<le> y"
proof -
  obtain x y where "T a = Some (Fin x)" "T b = Some (Fin y)" using assms(1) unfolding f_monotone_def by metis
  then show ?thesis using assms unfolding f_monotone_def by (auto simp: f_of_dec_def)
qed

text \<open>A quote is strictly better than another for the side that asks.\<close>

definition better_price :: "'d dec \<Rightarrow> order_side \<Rightarrow> 'd quote \<Rightarrow> 'd quote \<Rightarrow> bool" where
  "better_price D side a b = (case side of
       Buy \<Rightarrow> price_lt D (quote_price a) (quote_price b)
     | Sell \<Rightarrow> price_lt D (quote_price b) (quote_price a))"

lemma bp_score_finite: "f_monotone D T \<Longrightarrow> bp_score side (f_of_dec T d) \<noteq> NaN"
proof -
  assume "f_monotone D T"
  then obtain x where "T d = Some (Fin x)" unfolding f_monotone_def by blast
  then show ?thesis by (simp add: f_of_dec_def bp_score_def split: order_side.split)
qed

lemma better_price_score:
  assumes "f_monotone D T" "dec_order D" "better_price D side a b"
  shows "\<not> f_lt (bp_score side (price_f T a)) (bp_score side (price_f T b))"
    and "\<not> f_lt (bp_score side (price_f T b)) (bp_score side (price_f T a)) \<Longrightarrow> price_f T a = price_f T b"
proof -
  have le: "dlt D x y \<Longrightarrow> dle D x y" for x y using assms(2) by (auto simp: dlt_def dec_order_def)
  show "\<not> f_lt (bp_score side (price_f T a)) (bp_score side (price_f T b))"
    "\<not> f_lt (bp_score side (price_f T b)) (bp_score side (price_f T a)) \<Longrightarrow> price_f T a = price_f T b"
    using f_monotone_le [OF assms(1), of "price_get (quote_price a)" "price_get (quote_price b)"]
      f_monotone_le [OF assms(1), of "price_get (quote_price b)" "price_get (quote_price a)"] assms(3) le
    by (cases side; fastforce simp: better_price_def price_lt_def bp_score_def)+
qed

text \<open>Exact values of whole numbers.\<close>

definition whole_f64 :: "int \<Rightarrow> f64 option" where
  "whole_f64 n = Some (Fin (of_int n))"

lemma whole_f64_monotone: "f_monotone whole_dec whole_f64"
  by (simp add: f_monotone_def whole_f64_def)

lemma f_of_whole [simp]: "f_of_dec whole_f64 n = Fin (of_int n)"
  by (simp add: f_of_dec_def whole_f64_def)

definition priced :: "uuid \<Rightarrow> int \<Rightarrow> int \<Rightarrow> int quote" where
  "priced i p n = (sample_quote i p 300)\<lparr> quote_quantity := Quantity n \<rparr>"

text \<open>
  Every strategy ranks every quote exactly once, with the ranks 1 to n in order, the best at
  the head and nowhere else, and, as long as no score is NaN, no quote with a lower score
  before one with a higher.
\<close>

theorem strategies_rank_completely:
  assumes "rank \<in> {\<lambda>qs. best_price_rank T qs side, \<lambda>qs. weighted_score_rank W T qs side,
      \<lambda>qs. lowest_slippage_rank T qs side, \<lambda>qs. lowest_cost_rank C T qs side,
      \<lambda>qs. multi_factor_rank M T qs side, \<lambda>qs. composite_rank (s # ss) qs side}"
  shows "mset (map rank_item (rank qs)) = mset qs \<and> map rank_no (rank qs) = [1..<Suc (length qs)]
    \<and> (\<forall>r\<in>set (rank qs). rk_is_best r \<longleftrightarrow> r = hd (rank qs))
    \<and> ((\<forall>r\<in>set (rank qs). rank_score r \<noteq> NaN)
        \<longrightarrow> sorted_wrt (\<lambda>a b. \<not> f_lt (rank_score a) (rank_score b)) (rank qs))"
proof -
  have "ranking rank" using assms
    by (auto intro: best_price.ranking_axioms weighted.ranking_axioms slippage.ranking_axioms
        cost.ranking_axioms multi.ranking_axioms composite.ranking_axioms)
  then show ?thesis
    using ranking.permutes ranking.numbers ranking.best_is_head ranking.best_first by blast
qed

lemma strategies_rank_completely_witness:
  "mset (map rank_item (best_price_rank whole_f64 [priced 1 50 5, priced 2 40 5] Buy))
     = mset [priced 1 50 5, priced 2 40 5]
   \<and> map rank_no (best_price_rank whole_f64 [priced 1 50 5, priced 2 40 5] Buy) = [1, 2]"
  using strategies_rank_completely [of "\<lambda>qs. best_price_rank whole_f64 qs Buy" whole_f64 Buy ws_default
      cost_default mf_new "(best_price_strategy whole_f64, lit 1)" "[]" "[priced 1 50 5, priced 2 40 5]"]
  by (simp add: upt_rec)

lemma best_price_sorted:
  assumes "f_monotone D T" "dec_order D"
  shows "sorted_wrt (\<lambda>a b. better_price D side b a \<longrightarrow> price_f T b = price_f T a)
      (map rank_item (best_price_rank T qs side))"
proof (cases "qs = []")
  case False
  let ?r = "ranked_from qs (scored_by (\<lambda>q. bp_score side (price_f T q)) qs)"
  have r: "best_price_rank T qs side = ?r" using False by (simp add: best_price_rank_def)
  have "sorted_wrt (\<lambda>a b. \<not> f_lt (rank_score a) (rank_score b)) ?r"
    using best_price.best_first [of T qs side] bp_score_finite [OF assms(1)] ranked_score by (fastforce simp: r)
  then have "sorted_wrt (\<lambda>a b. better_price D side (rank_item b) (rank_item a)
      \<longrightarrow> price_f T (rank_item b) = price_f T (rank_item a)) ?r"
    by (rule sorted_wrt_mono_rel [rotated])
      (intro impI, rule better_price_score(2) [OF assms], assumption, simp add: ranked_score)
  then show ?thesis by (simp add: r sorted_wrt_map)
qed (simp add: best_price_rank_def)

lemma best_price_ties:
  "filter (\<lambda>q. price_f T q = x) (map rank_item (best_price_rank T qs side)) = filter (\<lambda>q. price_f T q = x) qs"
proof (cases "qs = []")
  case False
  then show ?thesis by (simp add: best_price_rank_def) (rule ranked_ties, simp)
qed (simp add: best_price_rank_def)

text \<open>
  The best-price ranking puts better prices first, as far as \<open>f64\<close> distinguishes them: a
  quote that comes after one with a strictly worse price has a price with the same \<open>f64\<close>
  value, and quotes whose prices have one \<open>f64\<close> value stay in the order they arrived in,
  whatever their decimal prices.
\<close>

theorem best_price_order:
  assumes "f_monotone D T" "dec_order D"
  shows "sorted_wrt (\<lambda>a b. better_price D side b a \<longrightarrow> price_f T b = price_f T a)
      (map rank_item (best_price_rank T qs side))
    \<and> filter (\<lambda>q. price_f T q = x) (map rank_item (best_price_rank T qs side))
      = filter (\<lambda>q. price_f T q = x) qs"
  using best_price_sorted [OF assms] best_price_ties by blast

lemma best_price_order_witness:
  "sorted_wrt (\<lambda>a b. better_price whole_dec Buy b a \<longrightarrow> price_f whole_f64 b = price_f whole_f64 a)
      (map rank_item (best_price_rank whole_f64 [priced 1 50 5, priced 2 40 5] Buy))"
  using best_price_order [OF whole_f64_monotone whole_dec_order] by blast

lemma rnd64_int: "\<bar>n\<bar> < 2 ^ 53 \<Longrightarrow> rnd64 (of_int n) = Fin (of_int n)"
proof -
  assume n: "\<bar>n\<bar> < 2 ^ 53"
  then have "\<bar>of_int n :: rat\<bar> < of_int (2 ^ 53)" by (simp only: of_int_abs [symmetric] of_int_less_iff)
  also have "(of_int (2 ^ 53) :: rat) < 2 ^ 1024" by simp
  finally show ?thesis by (simp add: rnd64_def rnd_int [OF n] not_le)
qed

lemma rnd64_01 [simp]: "rnd64 0 = Fin 0" "rnd64 1 = Fin 1"
  using rnd64_int [of 0] rnd64_int [of 1] by simp_all

text \<open>
  The lowest-cost ranking compares what the whole quoted quantities cost: without commission
  and gas, of two quotes the one with the smaller product of price and quantity is ranked
  first for a buyer, in either order of arrival, also when its price is the higher one.
\<close>

theorem lowest_cost_ranks_by_notional:
  assumes "price_f T a = Fin (of_int p)" "quantity_f T a = Fin (of_int m)"
    and "price_f T b = Fin (of_int p')" "quantity_f T b = Fin (of_int m')"
    and "0 \<le> p' * m'" "p' * m' < p * m" "p * m < 2 ^ 53"
    and "C = \<lparr> cost_commission_rate = lit 0, cost_gas_cost = lit 0 \<rparr>" "qs \<in> {[a, b], [b, a]}"
  shows "map rank_item (lowest_cost_rank C T qs Buy) = [b, a]"
proof -
  let ?c = "of_int (p * m) :: rat" and ?c' = "of_int (p' * m') :: rat"
  have exact: "rnd64 (of_int p * of_int m) = Fin ?c" "rnd64 (of_int p' * of_int m') = Fin ?c'"
    "rnd64 ?c = Fin ?c" "rnd64 ?c' = Fin ?c'"
    using rnd64_int [of "p * m"] rnd64_int [of "p' * m'"] assms(5-7) by simp_all
  have cost: "calculate_total_cost C (price_f T a) (quantity_f T a) = Fin ?c"
    "calculate_total_cost C (price_f T b) (quantity_f T b) = Fin ?c'"
    using exact by (simp_all add: assms calculate_total_cost_def Let_def)
  have "1 \<le> ?c - ?c'" using assms(6) by (simp flip: of_int_diff of_int_mult add: int_one_le_iff_zero_less)
  moreover have "rnd64 (?c - ?c') = Fin (?c - ?c')"
    using rnd64_int [of "p * m - p' * m'"] assms(5-7) by simp
  ultimately have "f_sub (Fin ?c) (Fin ?c') = Fin (?c - ?c')" "f_max (Fin (?c - ?c')) (lit 1) = Fin (?c - ?c')"
    "f_sub (Fin ?c) (Fin ?c) = Fin 0" "f_div (Fin 0) (Fin (?c - ?c')) = Fin 0"
    "f_div (Fin (?c - ?c')) (Fin (?c - ?c')) = Fin 1"
    by (simp_all add: f_sub_def)
  moreover have "f_minimum [Fin ?c, Fin ?c'] = Fin ?c'" "f_maximum [Fin ?c, Fin ?c'] = Fin ?c"
    "f_minimum [Fin ?c', Fin ?c] = Fin ?c'" "f_maximum [Fin ?c', Fin ?c] = Fin ?c"
    using \<open>1 \<le> ?c - ?c'\<close> by (simp_all add: f_minimum_def f_maximum_def)
  ultimately show ?thesis using assms(9)
    by (auto simp: lowest_cost_rank_def cost ranked_from_items scored_by_def sort_stable_def score_before_def
        simp del: of_int_mult)
qed

lemma lowest_cost_ranks_by_notional_witness:
  "map rank_item (lowest_cost_rank \<lparr> cost_commission_rate = lit 0, cost_gas_cost = lit 0 \<rparr> whole_f64
      [priced 1 100 10, priced 2 200 1] Buy) = [priced 2 200 1, priced 1 100 10]"
  by (rule lowest_cost_ranks_by_notional [of whole_f64 "priced 1 100 10" 100 10 "priced 2 200 1" 200 1])
    (simp_all add: priced_def sample_quote_def qb_build_def qb_new_def)

text \<open>Addition is commutative.\<close>

definition dec_add_comm :: "'d dec \<Rightarrow> bool" where
  "dec_add_comm D \<longleftrightarrow> (\<forall>a b. dadd D a b = dadd D b a)"

lemma all_in_with_fee:
  assumes "dec_order D" "dec_signs D" "dec_mono D" "price_is_positive D p"
    and "nc_include_fees c" "\<not> nc_fees_included_in_quote c" "dle D (dzero D) fee"
    and "qn_normalize_fees D p n_q quote c = Some (a, fee, rate)"
  shows "dadd D (price_get p) fee = Some (price_get a)"
proof -
  obtain all_in where add: "dadd D (price_get p) fee = Some all_in"
      "a = (case price_from_decimal D all_in of Inr a \<Rightarrow> a | Inl _ \<Rightarrow> p)"
    using assms(5,6,8) by (auto simp: qn_normalize_fees_def bind_eq_Some_conv)
  have "dlt D (dzero D) (price_get p)" by (rule price_positive_gt_zero [OF assms(1,2,4)])
  moreover have "dle D (price_get p) all_in" using assms(3,7) add(1) unfolding dec_mono_def by blast
  ultimately have "\<not> dle D all_in (dzero D)" using assms(1) unfolding dlt_def dec_order_def by blast
  then have "\<not> dneg_sign D all_in" using assms(2) by (auto simp: dec_signs_def)
  then show ?thesis using add by (simp add: price_from_decimal_def)
qed

text \<open>
  Normalization adds the fee to the price whatever the side, and the best-price score takes
  the highest price for a seller: of two quotes with the same normalized price the one with the
  higher fee is ranked first for a seller, when \<open>f64\<close> tells the all-in prices apart.
\<close>

theorem seller_ranks_higher_fee_first:
  assumes "qn_normalize D N q1 t1 cur1 = Some n1" "qn_normalize D N q2 t2 cur2 = Some n2"
    and "nq_normalized_price n1 = nq_normalized_price n2" "price_is_positive D (nq_normalized_price n1)"
    and "\<forall>v. nc_include_fees (ncr_get v (qn_config_registry N))
      \<and> \<not> nc_fees_included_in_quote (ncr_get v (qn_config_registry N))"
    and "dle D (dzero D) (nq_fee_amount n1)" "dlt D (nq_fee_amount n1) (nq_fee_amount n2)"
    and "dec_order D" "dec_signs D" "dec_mono D" "dec_add_comm D" "f_monotone D T" "all_in_f T n1 \<noteq> all_in_f T n2"
  shows "map rank_item (rank_normalized (best_price_score_normalized T) [n1, n2] Sell) = [n2, n1]"
proof -
  have fee: "\<exists>c n_q r. qn_normalize_fees D (nq_normalized_price n) n_q q c = Some (nq_all_in_price n, nq_fee_amount n, r)
      \<and> nc_include_fees c \<and> \<not> nc_fees_included_in_quote c" if "qn_normalize D N q t cur = Some n" for q t cur n
  proof -
    let ?c = "ncr_get (quote_venue_id q) (qn_config_registry N)"
    obtain pr n_q fees where n: "qn_normalize_fees D (fst pr) n_q q ?c = Some fees" "n = nq_of_parts q t ?c pr n_q fees"
      using \<open>qn_normalize D N q t cur = Some n\<close> unfolding normalize_Some_iff Let_def by blast
    moreover have "nq_fee_amount n = fst (snd fees)"
      by (simp add: n(2) nq_of_parts_def Let_def split: prod.split option.split)
    ultimately show ?thesis using assms(5)
      by (intro exI [of _ ?c] exI [of _ n_q] exI [of _ "snd (snd fees)"]) simp
  qed
  have le: "dle D (nq_fee_amount n1) (nq_fee_amount n2)" "dle D (dzero D) (nq_fee_amount n2)"
    using assms(6,7,8) unfolding dlt_def dec_order_def by blast+
  have "dadd D (price_get (nq_normalized_price n1)) (nq_fee_amount n1) = Some (price_get (nq_all_in_price n1))"
    using fee [OF assms(1)] all_in_with_fee [OF assms(8-10,4) _ _ assms(6)] by blast
  moreover have "dadd D (price_get (nq_normalized_price n1)) (nq_fee_amount n2) = Some (price_get (nq_all_in_price n2))"
    using fee [OF assms(2)] all_in_with_fee [OF assms(8-10,4) _ _ le(2)] assms(3) by metis
  ultimately have "dle D (price_get (nq_all_in_price n1)) (price_get (nq_all_in_price n2))"
    using assms(10,11) le(1) unfolding dec_mono_def dec_add_comm_def by metis
  then obtain x y where "all_in_f T n1 = Fin x" "all_in_f T n2 = Fin y" "x < y"
    using f_monotone_le [OF assms(12)] assms(13) by fastforce
  then show ?thesis
    by (simp add: rank_normalized_def ranked_from_items scored_by_def sort_stable_def score_before_def
        best_price_score_normalized_def bp_score_def)
qed

definition sample_normalizer :: "int quote_normalizer" where
  "sample_normalizer = qn_with_config_registry (ncr_register ''dear''
     \<lparr> nc_venue_id = None, nc_base_currency = ''USD'', nc_include_fees = True, nc_fees_included_in_quote = False,
       nc_default_fee_rate = 1, nc_contract_multiplier = 1, nc_latency_adjustment_ms = 0 \<rparr>
     (ncr_with_default \<lparr> nc_venue_id = None, nc_base_currency = ''USD'', nc_include_fees = True,
       nc_fees_included_in_quote = False, nc_default_fee_rate = 0, nc_contract_multiplier = 1,
       nc_latency_adjustment_ms = 0 \<rparr>))"

lemma seller_ranks_higher_fee_first_witness:
  "\<exists>n1 n2. qn_normalize whole_dec sample_normalizer (priced 1 50 5) Firm None = Some n1
    \<and> qn_normalize whole_dec sample_normalizer ((priced 2 50 5)\<lparr> quote_venue_id := ''dear'' \<rparr>) Firm None = Some n2
    \<and> map rank_item (rank_normalized (best_price_score_normalized whole_f64) [n1, n2] Sell) = [n2, n1]"
proof -
  let ?q2 = "(priced 2 50 5)\<lparr> quote_venue_id := ''dear'' \<rparr>"
  have quotes: "quote_price (priced i p n) = Price p" "quote_quantity (priced i p n) = Quantity n"
    "quote_venue_id (priced i p n) = ''venue''" "quote_commission (priced i p n) = None" for i p n
    by (simp_all add: priced_def sample_quote_def qb_build_def qb_new_def)
  obtain n1 where n1: "qn_normalize whole_dec sample_normalizer (priced 1 50 5) Firm None = Some n1"
      "nq_normalized_price n1 = Price 50" "nq_fee_amount n1 = 0" "nq_all_in_price n1 = Price 50"
    by (simp add: qn_normalize_def qn_normalize_with_config_def qn_normalize_price_def qn_normalize_quantity_def
        qn_normalize_fees_def qn_fee_rate_def quotes sample_normalizer_def qn_with_config_registry_def ncr_register_def
        ncr_with_default_def ncr_get_def deq_def whole_fit_def price_from_decimal_def whole_dec_def)
  obtain n2 where n2: "qn_normalize whole_dec sample_normalizer ?q2 Firm None = Some n2"
      "nq_normalized_price n2 = Price 50" "nq_fee_amount n2 = 50" "nq_all_in_price n2 = Price 100"
    by (simp add: qn_normalize_def qn_normalize_with_config_def qn_normalize_price_def qn_normalize_quantity_def
        qn_normalize_fees_def qn_fee_rate_def quotes sample_normalizer_def qn_with_config_registry_def ncr_register_def
        ncr_with_default_def ncr_get_def deq_def whole_fit_def price_from_decimal_def whole_dec_def)
  have "map rank_item (rank_normalized (best_price_score_normalized whole_f64) [n1, n2] Sell) = [n2, n1]"
    by (rule seller_ranks_higher_fee_first [OF n1(1) n2(1) _ _ _ _ _ whole_dec_order whole_dec_signs
          whole_dec_mono _ whole_f64_monotone])
      (simp_all add: n1 n2 price_is_positive_def dlt_def dec_add_comm_def add.commute sample_normalizer_def
        qn_with_config_registry_def ncr_register_def ncr_with_default_def ncr_get_def)
  then show ?thesis using n1(1) n2(1) by - (intro exI conjI, assumption+)
qed

end
