(* ===== verification/Exact_Decimals.thy ===== *)
theory Exact_Decimals
  imports Values Complex_Main
begin

text \<open>
  The numbers that decimals stand for. Where the decimals of a set are added and subtracted without
  rounding, amounts can be reasoned about as rational numbers.
\<close>

text \<open>
  Documented of the decimals: those of \<open>S\<close> (the whole numbers, say) are added and subtracted exactly, where there
  is a result, and \<open>val\<close> is the number a decimal stands for.
\<close>

definition dec_exact_on :: "'d dec \<Rightarrow> 'd set \<Rightarrow> ('d \<Rightarrow> rat) \<Rightarrow> bool" where
  "dec_exact_on D S val \<longleftrightarrow> (\<forall>a b. dle D a b \<longleftrightarrow> val a \<le> val b) \<and> val (dzero D) = 0 \<and> dzero D \<in> S
     \<and> (\<forall>a\<in>S. \<forall>b\<in>S. \<forall>r. dadd D a b = Some r \<longrightarrow> r \<in> S \<and> val r = val a + val b)
     \<and> (\<forall>a\<in>S. \<forall>b\<in>S. \<forall>r. dsub D a b = Some r \<longrightarrow> r \<in> S \<and> val r = val a - val b)"

lemma exact_laws:
  assumes "dec_exact_on D S val"
  shows "dle D a b \<longleftrightarrow> val a \<le> val b" and "val (dzero D) = 0"
    and "a \<in> S \<Longrightarrow> b \<in> S \<Longrightarrow> dsub D a b = Some r \<Longrightarrow> r \<in> S \<and> val r = val a - val b"
  using assms unfolding dec_exact_on_def by blast+

lemma exact_order: "dec_exact_on D S val \<Longrightarrow> dec_order D"
  unfolding dec_order_def by (simp only: exact_laws(1)) force

lemma exact_zero:
  assumes "dec_exact_on D S val" "dec_signs D"
  shows "dis_zero D a \<longleftrightarrow> val a = 0"
  using assms(2) unfolding dec_signs_def deq_def exact_laws(1) [OF assms(1)] exact_laws(2) [OF assms(1)]
  by (metis order_antisym order_refl)

lemma exact_positive:
  assumes "dec_exact_on D S val" "dec_signs D"
  shows "quantity_is_positive D q \<longleftrightarrow> 0 < val (quantity_get q)"
proof -
  have "val a < 0 \<Longrightarrow> dneg_sign D a" "dneg_sign D a \<Longrightarrow> val a \<le> 0" for a
    using assms(2) unfolding dec_signs_def dlt_def exact_laws(1) [OF assms(1)] exact_laws(2) [OF assms(1)] by auto
  then show ?thesis unfolding quantity_is_positive_def exact_zero [OF assms] by (metis linorder_cases not_less)
qed

lemma exact_add:
  assumes "dec_exact_on D S val" "price_safe_add D a b = Inr c" "price_get a \<in> S" "price_get b \<in> S"
  shows "price_get c \<in> S \<and> val (price_get c) = val (price_get a) + val (price_get b)"
proof -
  have "dadd D (price_get a) (price_get b) = Some (price_get c)"
    using assms(2) by (auto simp: price_safe_add_def dec_safe_add_def)
  then show ?thesis using assms(1,3,4) unfolding dec_exact_on_def by blast
qed

lemma exact_price_sub:
  assumes "dec_exact_on D S val" "price_safe_sub D a b = Inr c" "price_get a \<in> S" "price_get b \<in> S"
  shows "price_get c \<in> S \<and> val (price_get c) = val (price_get a) - val (price_get b)"
proof -
  have "dsub D (price_get a) (price_get b) = Some (price_get c)"
    using assms(2) by (auto simp: price_safe_sub_def dec_safe_sub_def split: if_splits)
  then show ?thesis using exact_laws(3) [OF assms(1,3,4)] by blast
qed

lemma exact_zero_in: "dec_exact_on D S val \<Longrightarrow> dzero D \<in> S"
  unfolding dec_exact_on_def by blast

lemma whole_dec_exact: "dec_exact_on whole_dec UNIV of_int"
  by (auto simp: dec_exact_on_def whole_fit_def split: if_splits)

end
