(* ===== verification/Fills.thy ===== *)
theory Fills
  imports Ranking Exact_Decimals "HOL-Library.Sublist"
begin

text \<open>
  \<open>src/application/services/fill_strategy.rs\<close> with \<open>src/domain/entities/allocation.rs\<close> and
  \<open>src/domain/value_objects/size_negotiation_mode.rs\<close>: a target quantity is distributed over the
  ranked quotes. What every strategy promises of its allocations is the locale \<open>fill_strategy\<close>.
\<close>

section \<open>\<open>Allocation\<close>\<close>

record 'd allocation =
  al_venue_id :: venue_id
  al_quote_id :: uuid
  al_quantity :: "'d quantity"
  al_price :: "'d price"

definition al_from_parts :: "venue_id \<Rightarrow> uuid \<Rightarrow> 'd quantity \<Rightarrow> 'd price \<Rightarrow> 'd allocation" where
  "al_from_parts v i q p = \<lparr> al_venue_id = v, al_quote_id = i, al_quantity = q, al_price = p \<rparr>"

definition al_new :: "'d dec \<Rightarrow> venue_id \<Rightarrow> uuid \<Rightarrow> 'd quantity \<Rightarrow> 'd price
    \<Rightarrow> 'd domain_error + 'd allocation" where
  "al_new D v i q p =
     (if \<not> quantity_is_positive D q
      then Inl (InvalidQuantity (Txt ''allocated quantity must be positive''))
      else if \<not> price_is_positive D p
      then Inl (InvalidPrice (Txt ''allocation price must be positive''))
      else Inr (al_from_parts v i q p))"

definition al_notional_value :: "'d dec \<Rightarrow> 'd allocation \<Rightarrow> 'd price option" where
  "al_notional_value D a = res_ok (price_safe_mul D (al_price a) (quantity_get (al_quantity a)))"

section \<open>\<open>SizeNegotiationMode\<close>\<close>

datatype 'd size_mode = AllOrNothing | MinQuantity "'d quantity" | FillOrKill | BestEffort

definition sm_requires_full_fill :: "'d size_mode \<Rightarrow> bool" where
  "sm_requires_full_fill m \<longleftrightarrow> (case m of AllOrNothing \<Rightarrow> True | FillOrKill \<Rightarrow> True | _ \<Rightarrow> False)"

definition sm_allows_partial_fill :: "'d size_mode \<Rightarrow> bool" where
  "sm_allows_partial_fill m \<longleftrightarrow> (case m of BestEffort \<Rightarrow> True | MinQuantity _ \<Rightarrow> True | _ \<Rightarrow> False)"

definition sm_min_quantity :: "'d size_mode \<Rightarrow> 'd quantity option" where
  "sm_min_quantity m = (case m of MinQuantity q \<Rightarrow> Some q | _ \<Rightarrow> None)"

definition sm_default :: "'d size_mode" where
  "sm_default = AllOrNothing"

section \<open>The strategies\<close>

definition quantity_min :: "'d dec \<Rightarrow> 'd quantity \<Rightarrow> 'd quantity \<Rightarrow> 'd quantity" where
  "quantity_min D a b = (if dle D (quantity_get a) (quantity_get b) then a else b)"

definition validate_preconditions :: "'d dec \<Rightarrow> 'd ranked_quote list \<Rightarrow> 'd quantity \<Rightarrow> 'd domain_error + unit" where
  "validate_preconditions D quotes target =
     (if \<not> quantity_is_positive D target
      then Inl (InvalidQuantity (Txt ''target quantity must be positive''))
      else if quotes = [] then Inl (InvalidQuantity (Txt ''no quotes available for allocation''))
      else Inr ())"

text \<open>The loops that add quantities up from \<open>acc\<close>.\<close>

fun add_quantities :: "'d dec \<Rightarrow> 'd quantity \<Rightarrow> 'd quantity list \<Rightarrow> 'd domain_error + 'd quantity" where
  "add_quantities D acc [] = Inr acc"
| "add_quantities D acc (q # qs) =
     rbind (de_of_arith (quantity_safe_add D acc q)) (\<lambda>acc. add_quantities D acc qs)"

abbreviation rk_quantity :: "'d ranked_quote \<Rightarrow> 'd quantity" where
  "rk_quantity r \<equiv> quote_quantity (rank_item r)"

definition total_quoted_quantity :: "'d dec \<Rightarrow> 'd ranked_quote list \<Rightarrow> 'd domain_error + 'd quantity" where
  "total_quoted_quantity D quotes = add_quantities D (quantity_zero D) (map rk_quantity quotes)"

fun enforce_mode :: "'d dec \<Rightarrow> 'd size_mode \<Rightarrow> 'd quantity \<Rightarrow> 'd quantity \<Rightarrow> 'd domain_error + 'd quantity" where
  "enforce_mode D (MinQuantity m) target available =
     (let fillable = quantity_min D target available in
      if dlt D (quantity_get fillable) (quantity_get m) then Inl (MinQuantityNotMet fillable m)
      else Inr fillable)"
| "enforce_mode D BestEffort target available =
     (if quantity_is_zero D available then Inl (InsufficientLiquidity target available)
      else Inr (quantity_min D target available))"
| "enforce_mode D _ target available =
     (if dlt D (quantity_get available) (quantity_get target)
      then Inl (InsufficientLiquidity target available) else Inr target)"

definition validate_allocation_sum :: "'d dec \<Rightarrow> 'd allocation list \<Rightarrow> 'd quantity \<Rightarrow> 'd domain_error + unit" where
  "validate_allocation_sum D allocs expected =
     rbind (add_quantities D (quantity_zero D) (map al_quantity allocs)) (\<lambda>total.
       if \<not> deq D (quantity_get total) (quantity_get expected)
       then Inl (AllocationMismatch total expected) else Inr ())"

text \<open>The allocation of one ranked quote.\<close>

definition allocate_to :: "'d dec \<Rightarrow> 'd ranked_quote \<Rightarrow> 'd quantity \<Rightarrow> 'd domain_error + 'd allocation" where
  "allocate_to D r q = al_new D (quote_venue_id (rank_item r)) (quote_id (rank_item r)) q
     (quote_price (rank_item r))"

text \<open>\<open>ProRataStrategy\<close>: the last quote gets what is left.\<close>

fun pro_rata_loop :: "'d dec \<Rightarrow> 'd quantity \<Rightarrow> 'd \<Rightarrow> 'd quantity \<Rightarrow> 'd ranked_quote list
    \<Rightarrow> 'd domain_error + 'd allocation list" where
  "pro_rata_loop D effective total_d so_far [] = Inr []"
| "pro_rata_loop D effective total_d so_far (r # rs) =
     rbind (de_of_arith (if rs = [] then quantity_safe_sub D effective so_far
         else rbind (quantity_safe_mul D effective (quantity_get (rk_quantity r))) (\<lambda>raw.
              rbind (quantity_safe_div D raw total_d) (\<lambda>raw.
                Inr (quantity_min D raw (rk_quantity r)))))) (\<lambda>q.
       if quantity_is_positive D q
       then rbind (de_of_arith (quantity_safe_add D so_far q)) (\<lambda>so_far.
            rbind (allocate_to D r q) (\<lambda>a.
            rbind (pro_rata_loop D effective total_d so_far rs) (\<lambda>as. Inr (a # as))))
       else pro_rata_loop D effective total_d so_far rs)"

definition pro_rata_allocate :: "'d dec \<Rightarrow> 'd ranked_quote list \<Rightarrow> 'd quantity \<Rightarrow> 'd size_mode \<Rightarrow> order_side
    \<Rightarrow> 'd domain_error + 'd allocation list" where
  "pro_rata_allocate D quotes target mode side =
     rbind (validate_preconditions D quotes target) (\<lambda>_.
     rbind (total_quoted_quantity D quotes) (\<lambda>available.
     rbind (enforce_mode D mode target available) (\<lambda>effective.
       if dis_zero D (quantity_get available)
       then Inl (InvalidQuantity (Txt ''total quoted quantity is zero''))
       else rbind (pro_rata_loop D effective (quantity_get available) (quantity_zero D) quotes) (\<lambda>allocs.
            rbind (validate_allocation_sum D allocs effective) (\<lambda>_. Inr allocs)))))"

text \<open>\<open>BestPriceFillStrategy\<close>: as much as possible from the first quotes.\<close>

fun best_price_loop :: "'d dec \<Rightarrow> 'd quantity \<Rightarrow> 'd ranked_quote list \<Rightarrow> 'd domain_error + 'd allocation list" where
  "best_price_loop D remaining [] = Inr []"
| "best_price_loop D remaining (r # rs) =
     (if quantity_is_zero D remaining then Inr []
      else
        let q = quantity_min D (rk_quantity r) remaining in
        if quantity_is_positive D q
        then rbind (de_of_arith (quantity_safe_sub D remaining q)) (\<lambda>remaining.
             rbind (allocate_to D r q) (\<lambda>a.
             rbind (best_price_loop D remaining rs) (\<lambda>as. Inr (a # as))))
        else best_price_loop D remaining rs)"

definition best_price_allocate :: "'d dec \<Rightarrow> 'd ranked_quote list \<Rightarrow> 'd quantity \<Rightarrow> 'd size_mode \<Rightarrow> order_side
    \<Rightarrow> 'd domain_error + 'd allocation list" where
  "best_price_allocate D quotes target mode side =
     rbind (validate_preconditions D quotes target) (\<lambda>_.
     rbind (total_quoted_quantity D quotes) (\<lambda>available.
     rbind (enforce_mode D mode target available) (\<lambda>effective.
     rbind (best_price_loop D effective quotes) (\<lambda>allocs.
     rbind (validate_allocation_sum D allocs effective) (\<lambda>_. Inr allocs)))))"

section \<open>What a fill promises\<close>

text \<open>What an allocation takes over from its quote.\<close>

definition quote_terms :: "'d ranked_quote \<Rightarrow> venue_id \<times> uuid \<times> 'd price" where
  "quote_terms r = (quote_venue_id (rank_item r), quote_id (rank_item r), quote_price (rank_item r))"

definition al_terms :: "'d allocation \<Rightarrow> venue_id \<times> uuid \<times> 'd price" where
  "al_terms a = (al_venue_id a, al_quote_id a, al_price a)"

definition al_positive :: "'d dec \<Rightarrow> 'd allocation \<Rightarrow> bool" where
  "al_positive D a \<longleftrightarrow> quantity_is_positive D (al_quantity a) \<and> price_is_positive D (al_price a)"

text \<open>The effective quantity that a mode allows.\<close>

definition mode_allows :: "'d dec \<Rightarrow> 'd size_mode \<Rightarrow> 'd quantity \<Rightarrow> 'd quantity \<Rightarrow> 'd quantity \<Rightarrow> bool" where
  "mode_allows D mode target available effective \<longleftrightarrow>
     dle D (quantity_get effective) (quantity_get target)
     \<and> dle D (quantity_get effective) (quantity_get available)
     \<and> (sm_requires_full_fill mode \<longrightarrow> effective = target)
     \<and> (\<forall>m. sm_min_quantity mode = Some m \<longrightarrow> dle D (quantity_get m) (quantity_get effective))"

lemma enforce_mode_allows:
  "dec_order D \<Longrightarrow> enforce_mode D mode target available = Inr effective
    \<Longrightarrow> mode_allows D mode target available effective"
  by (cases mode) (auto simp: mode_allows_def sm_requires_full_fill_def sm_min_quantity_def quantity_min_def
      dlt_def Let_def dec_order_def split: if_splits)

text \<open>How much is filled: all that was asked, or in the partial modes as much of it as was quoted.\<close>

definition effective_quantity :: "'d dec \<Rightarrow> 'd size_mode \<Rightarrow> 'd quantity \<Rightarrow> 'd quantity \<Rightarrow> 'd quantity" where
  "effective_quantity D mode target available = (if sm_requires_full_fill mode then target
     else if dle D (quantity_get target) (quantity_get available) then target else available)"

lemma enforce_mode_effective:
  "enforce_mode D mode target available = Inr effective \<Longrightarrow> effective = effective_quantity D mode target available"
  by (cases mode) (auto simp: effective_quantity_def sm_requires_full_fill_def quantity_min_def Let_def split: if_splits)

lemma enforce_mode_refuses:
  "enforce_mode D mode target available = Inl e \<Longrightarrow>
    e = InsufficientLiquidity target available \<and> \<not> (\<exists>m. mode = MinQuantity m)
    \<or> (\<exists>m. mode = MinQuantity m \<and> e = MinQuantityNotMet (quantity_min D target available) m)"
  by (cases mode) (auto simp: Let_def split: if_splits)

locale fill_strategy =
  fixes D :: "'d dec"
    and allocate :: "'d ranked_quote list \<Rightarrow> 'd quantity \<Rightarrow> 'd size_mode \<Rightarrow> order_side \<Rightarrow> 'd domain_error + 'd allocation list"
  assumes checks: "allocate quotes target mode side = Inr allocs \<Longrightarrow> \<exists>available effective.
        validate_preconditions D quotes target = Inr ()
      \<and> total_quoted_quantity D quotes = Inr available
      \<and> enforce_mode D mode target available = Inr effective
      \<and> validate_allocation_sum D allocs effective = Inr ()"
    and terms_kept: "allocate quotes target mode side = Inr allocs
      \<Longrightarrow> subseq (map al_terms allocs) (map quote_terms quotes)"
    and all_positive: "allocate quotes target mode side = Inr allocs \<Longrightarrow> \<forall>a\<in>set allocs. al_positive D a"
    and refuses: "validate_preconditions D quotes target = Inr () \<Longrightarrow> total_quoted_quantity D quotes = Inr available
      \<Longrightarrow> enforce_mode D mode target available = Inl e \<Longrightarrow> allocate quotes target mode side = Inl e"
begin

lemma sum_and_mode:
  assumes "dec_order D" "allocate quotes target mode side = Inr allocs"
  shows "\<exists>available effective added. total_quoted_quantity D quotes = Inr available
    \<and> mode_allows D mode target available effective \<and> effective = effective_quantity D mode target available
    \<and> add_quantities D (quantity_zero D) (map al_quantity allocs) = Inr added
    \<and> deq D (quantity_get added) (quantity_get effective)"
proof -
  obtain available effective where run: "total_quoted_quantity D quotes = Inr available"
      "enforce_mode D mode target available = Inr effective" "validate_allocation_sum D allocs effective = Inr ()"
    using checks [OF assms(2)] by blast
  obtain added where "add_quantities D (quantity_zero D) (map al_quantity allocs) = Inr added"
      "deq D (quantity_get added) (quantity_get effective)"
    using run(3) by (auto simp: validate_allocation_sum_def split: if_splits)
  then show ?thesis using run(1) enforce_mode_allows [OF assms(1) run(2)] enforce_mode_effective [OF run(2)] by blast
qed

lemma ids_kept: "allocate quotes target mode side = Inr allocs
    \<Longrightarrow> subseq (map al_quote_id allocs) (map (\<lambda>r. quote_id (rank_item r)) quotes)"
  using subseq_map [OF terms_kept, of quotes target mode side allocs "\<lambda>(v, i, p). i"]
  by (simp add: comp_def al_terms_def quote_terms_def)

lemma each_quote_once:
  "allocate quotes target mode side = Inr allocs \<Longrightarrow> distinct (map (\<lambda>r. quote_id (rank_item r)) quotes)
    \<Longrightarrow> distinct (map al_quote_id allocs)"
  using ids_kept by (metis subseq_conv_nths distinct_nthsI)

lemma short_of_liquidity:
  assumes "dec_order D" "quantity_is_positive D target" "quotes \<noteq> []" "total_quoted_quantity D quotes = Inr available"
    and "dlt D (quantity_get available) (quantity_get target)" "sm_requires_full_fill mode"
  shows "allocate quotes target mode side = Inl (InsufficientLiquidity target available)"
proof (rule refuses [OF _ assms(4)])
  show "enforce_mode D mode target available = Inl (InsufficientLiquidity target available)"
    using assms(5,6) by (cases mode) (auto simp: sm_requires_full_fill_def)
qed (use assms(2,3) in \<open>simp add: validate_preconditions_def\<close>)

lemma below_minimum:
  assumes "quantity_is_positive D target" "quotes \<noteq> []" "total_quoted_quantity D quotes = Inr available"
    and "dlt D (quantity_get (effective_quantity D (MinQuantity m) target available)) (quantity_get m)"
  shows "allocate quotes target (MinQuantity m) side
    = Inl (MinQuantityNotMet (effective_quantity D (MinQuantity m) target available) m)"
proof (rule refuses [OF _ assms(3)])
  show "enforce_mode D (MinQuantity m) target available = Inl (MinQuantityNotMet (effective_quantity D (MinQuantity m) target available) m)"
    using assms(4) by (simp add: effective_quantity_def sm_requires_full_fill_def quantity_min_def Let_def split: if_splits)
qed (use assms(1,2) in \<open>simp add: validate_preconditions_def\<close>)

end

lemma allocate_to_Inr:
  "allocate_to D r q = Inr a \<Longrightarrow> al_terms a = quote_terms r \<and> al_quantity a = q \<and> al_positive D a"
  by (auto simp: allocate_to_def al_new_def al_from_parts_def al_terms_def quote_terms_def al_positive_def split: if_splits)

lemma pro_rata_loop_kept:
  "pro_rata_loop D eff t so_far rs = Inr allocs \<Longrightarrow>
    subseq (map al_terms allocs) (map quote_terms rs) \<and> (\<forall>a\<in>set allocs. al_positive D a)"
proof (induction rs arbitrary: so_far allocs)
  case (Cons r rs)
  from Cons.prems show ?case by (auto dest!: allocate_to_Inr Cons.IH split: if_splits)
qed simp

lemma best_price_loop_kept:
  "best_price_loop D rem rs = Inr allocs \<Longrightarrow>
    subseq (map al_terms allocs) (map quote_terms rs) \<and> (\<forall>a\<in>set allocs. al_positive D a)"
proof (induction rs arbitrary: rem allocs)
  case (Cons r rs)
  from Cons.prems show ?case by (auto simp: Let_def dest!: allocate_to_Inr Cons.IH split: if_splits)
qed simp

interpretation pro_rata: fill_strategy D "pro_rata_allocate D" for D
  by unfold_locales (auto simp: pro_rata_allocate_def dest: pro_rata_loop_kept split: if_splits)

interpretation best_fill: fill_strategy D "best_price_allocate D" for D
  by unfold_locales (auto simp: best_price_allocate_def dest: best_price_loop_kept split: if_splits)

section \<open>Filling the best quotes first is optimal\<close>

lemma exact_min: "dec_exact_on D S val \<Longrightarrow>
    val (quantity_get (quantity_min D a b)) = min (val (quantity_get a)) (val (quantity_get b))"
  by (simp add: quantity_min_def exact_laws(1))

lemma exact_sub:
  assumes "dec_exact_on D S val" "quantity_safe_sub D a b = Inr c" "quantity_get a \<in> S" "quantity_get b \<in> S"
  shows "quantity_get c \<in> S \<and> val (quantity_get c) = val (quantity_get a) - val (quantity_get b)"
proof -
  have "dsub D (quantity_get a) (quantity_get b) = Some (quantity_get c)"
    using assms(2) by (auto simp: quantity_safe_sub_def dec_safe_sub_def split: if_splits)
  then show ?thesis using exact_laws(3) [OF assms(1,3,4)] by blast
qed

text \<open>What filling \<open>r\<close> from offers of an amount at a price costs when the first offers are taken first.\<close>

fun fill_cost :: "rat \<Rightarrow> (rat \<times> rat) list \<Rightarrow> rat" where
  "fill_cost r [] = 0"
| "fill_cost r ((q, p) # ls) = min q r * p + fill_cost (r - min q r) ls"

definition cost_of :: "rat list \<Rightarrow> (rat \<times> rat) list \<Rightarrow> rat" where
  "cost_of xs ls = sum_list (map2 (\<lambda>x (q, p). x * p) xs ls)"

text \<open>Amounts that the offers allow.\<close>

definition fits_offers :: "rat list \<Rightarrow> (rat \<times> rat) list \<Rightarrow> bool" where
  "fits_offers xs ls \<longleftrightarrow> list_all2 (\<lambda>x (q, p). 0 \<le> x \<and> x \<le> q) xs ls"

lemma fill_cost_zero: "\<forall>l\<in>set ls. 0 \<le> fst l \<Longrightarrow> fill_cost 0 ls = 0"
  by (induction ls) auto

lemma fill_cost_least:
  assumes "0 \<le> r" "fits_offers xs ls" "r \<le> sum_list xs" "sorted (map snd ls)" "\<forall>l\<in>set ls. p \<le> snd l"
  shows "fill_cost r ls + p * (sum_list xs - r) \<le> cost_of xs ls"
  using assms
proof (induction ls arbitrary: r xs p)
  case Nil
  then show ?case by (simp add: fits_offers_def cost_of_def)
next
  case (Cons l ls)
  obtain q p0 where l: "l = (q, p0)" by (cases l)
  obtain x ys where xs: "xs = x # ys" "0 \<le> x" "x \<le> q" "fits_offers ys ls"
    using Cons.prems(2) by (auto simp: fits_offers_def l list_all2_Cons2)
  let ?g = "min q r"
  have nonneg: "0 \<le> sum_list ys"
    using xs(4) unfolding fits_offers_def by (induction rule: list_all2_induct) auto
  have rest: "r - ?g \<le> sum_list ys" using Cons.prems(3) xs nonneg by (simp add: min_def)
  have "fill_cost (r - ?g) ls + p0 * (sum_list ys - (r - ?g)) \<le> cost_of ys ls"
    using Cons.IH [OF _ xs(4) rest, of p0] Cons.prems(4) by (simp add: l)
  moreover have "p * (sum_list xs - r) \<le> p0 * (sum_list xs - r)"
    using Cons.prems(3,5) by (intro mult_right_mono) (auto simp: l)
  ultimately show ?case by (simp add: l xs(1) cost_of_def algebra_simps)
qed

lemma fill_cost_neg: "fill_cost r (map (apsnd uminus) ls) = - fill_cost r ls"
  by (induction ls arbitrary: r) auto

lemma cost_of_neg: "cost_of xs (map (apsnd uminus) ls) = - cost_of xs ls"
  by (induction xs ls rule: list_induct2') (auto simp: cost_of_def)

lemma fits_offers_neg: "fits_offers xs (map (apsnd uminus) ls) \<longleftrightarrow> fits_offers xs ls"
  by (simp add: fits_offers_def list_all2_map2 case_prod_unfold)

lemma sorted_neg: "sorted_wrt (\<lambda>x y. y \<le> (x::rat)) (map snd ls) \<Longrightarrow> sorted (map snd (map (apsnd uminus) ls))"
  by (induction ls) auto

lemma fill_cost_best:
  assumes "0 \<le> r" "fits_offers xs ls" "sum_list xs = r"
  shows "sorted (map snd ls) \<Longrightarrow> fill_cost r ls \<le> cost_of xs ls"
    and "sorted_wrt (\<lambda>x y. y \<le> x) (map snd ls) \<Longrightarrow> cost_of xs ls \<le> fill_cost r ls"
proof -
  have least: "fill_cost r ls' \<le> cost_of xs ls'" if "sorted (map snd ls')" "fits_offers xs ls'" for ls'
  proof (cases ls')
    case (Cons l ls)
    then show ?thesis using fill_cost_least [OF assms(1) that(2) _ that(1), of "snd l"] that(1) assms(3) by simp
  qed (simp add: cost_of_def)
  show "fill_cost r ls \<le> cost_of xs ls" if "sorted (map snd ls)" by (rule least [OF that assms(2)])
  show "cost_of xs ls \<le> fill_cost r ls" if "sorted_wrt (\<lambda>x y. y \<le> x) (map snd ls)"
    using least [OF sorted_neg [OF that]] assms(2) by (simp add: fill_cost_neg cost_of_neg fits_offers_neg)
qed

text \<open>The offers of the ranked quotes, and what the loop of the strategy spends on them.\<close>

definition offers :: "('d \<Rightarrow> rat) \<Rightarrow> 'd ranked_quote list \<Rightarrow> (rat \<times> rat) list" where
  "offers val rs = map (\<lambda>r. (val (quantity_get (rk_quantity r)), val (price_get (quote_price (rank_item r))))) rs"

definition spent :: "('d \<Rightarrow> rat) \<Rightarrow> 'd allocation list \<Rightarrow> rat" where
  "spent val allocs = sum_list (map (\<lambda>a. val (quantity_get (al_quantity a)) * val (price_get (al_price a))) allocs)"

definition filled :: "('d \<Rightarrow> rat) \<Rightarrow> 'd allocation list \<Rightarrow> rat" where
  "filled val allocs = sum_list (map (\<lambda>a. val (quantity_get (al_quantity a))) allocs)"

lemma best_price_loop_cost:
  assumes "dec_exact_on D S val" "dec_signs D" "quantity_get rem \<in> S" "0 \<le> val (quantity_get rem)"
    and "\<forall>r\<in>set rs. quantity_get (rk_quantity r) \<in> S \<and> 0 \<le> val (quantity_get (rk_quantity r))"
    and "best_price_loop D rem rs = Inr allocs"
  shows "spent val allocs = fill_cost (val (quantity_get rem)) (offers val rs)"
  using assms(3-)
proof (induction rs arbitrary: rem allocs)
  case Nil
  then show ?case by (simp add: offers_def spent_def)
next
  case (Cons r rs)
  let ?v = "\<lambda>q. val (quantity_get q)" and ?q = "quantity_min D (rk_quantity r) rem"
  have rest: "\<forall>r\<in>set rs. quantity_get (rk_quantity r) \<in> S \<and> 0 \<le> ?v (rk_quantity r)"
    and head: "quantity_get (rk_quantity r) \<in> S" "0 \<le> ?v (rk_quantity r)" using Cons.prems(3) by auto
  have q: "?v ?q = min (?v (rk_quantity r)) (?v rem)" "quantity_get ?q \<in> S"
    using exact_min [OF assms(1)] head(1) Cons.prems(1) by (auto simp: quantity_min_def)
  show ?case
  proof (cases "?v rem = 0")
    case True
    then have "allocs = []" using Cons.prems(4) by (simp add: quantity_is_zero_def exact_zero [OF assms(1,2)])
    then show ?thesis using True fill_cost_zero [of "offers val (r # rs)"] Cons.prems(3)
      by (auto simp: offers_def spent_def)
  next
    case nonzero: False
    show ?thesis
    proof (cases "0 < ?v ?q")
      case True
      obtain rem' a as where run: "quantity_safe_sub D rem ?q = Inr rem'" "allocate_to D r ?q = Inr a"
          "best_price_loop D rem' rs = Inr as" "allocs = a # as"
        using Cons.prems(4) nonzero True
        by (auto simp: Let_def quantity_is_zero_def exact_zero [OF assms(1,2)] exact_positive [OF assms(1,2)])
      have rem': "quantity_get rem' \<in> S" "?v rem' = ?v rem - ?v ?q"
        using exact_sub [OF assms(1) run(1) Cons.prems(1) q(2)] by auto
      have "spent val as = fill_cost (?v rem') (offers val rs)"
        by (rule Cons.IH [OF rem'(1) _ rest run(3)]) (simp add: rem'(2) q(1))
      moreover have "al_quantity a = ?q" "al_price a = quote_price (rank_item r)"
        using allocate_to_Inr [OF run(2)] by (auto simp: al_terms_def quote_terms_def)
      ultimately show ?thesis by (simp add: run(4) rem'(2) q(1) spent_def offers_def)
    next
      case False
      then have "best_price_loop D rem rs = Inr allocs" using Cons.prems(4) nonzero
        by (simp add: Let_def quantity_is_zero_def exact_zero [OF assms(1,2)] exact_positive [OF assms(1,2)])
      moreover have "?v (rk_quantity r) = 0" using False q(1) head(2) nonzero Cons.prems(2) by (simp add: min_def split: if_splits)
      ultimately show ?thesis using Cons.IH [OF Cons.prems(1,2) rest] Cons.prems(2) by (simp add: offers_def)
    qed
  qed
qed

lemma best_price_ranked_sorted:
  assumes "f_monotone D T" "dec_exact_on D S val"
    and "\<forall>a\<in>set qs. \<forall>b\<in>set qs. price_f T a = price_f T b \<longrightarrow>
      val (price_get (quote_price a)) = val (price_get (quote_price b))"
  shows "side = Buy \<Longrightarrow> sorted (map snd (offers val (best_price_rank T qs side)))"
    and "side = Sell \<Longrightarrow> sorted_wrt (\<lambda>x y. y \<le> x) (map snd (offers val (best_price_rank T qs side)))"
proof -
  let ?r = "best_price_rank T qs side" and ?p = "\<lambda>q. val (price_get (quote_price q))"
  have items: "set (map rank_item ?r) = set qs" using best_price.items_rank by simp
  have prices: "map snd (offers val ?r) = map ?p (map rank_item ?r)" by (simp add: offers_def)
  have "sorted_wrt (\<lambda>a b. \<not> better_price D side b a \<or> ?p a = ?p b) (map rank_item ?r)"
    by (rule sorted_wrt_mono_rel [OF _ best_price_sorted [OF assms(1) exact_order [OF assms(2)]]])
      (use assms(3) items in metis)
  then have ord: "sorted_wrt (\<lambda>a b. case side of Buy \<Rightarrow> ?p a \<le> ?p b | Sell \<Rightarrow> ?p b \<le> ?p a) (map rank_item ?r)"
    by (rule sorted_wrt_mono_rel [rotated])
      (cases side; auto simp: better_price_def price_lt_def dlt_def exact_laws(1) [OF assms(2)])
  show "side = Buy \<Longrightarrow> sorted (map snd (offers val ?r))"
    "side = Sell \<Longrightarrow> sorted_wrt (\<lambda>x y. y \<le> x) (map snd (offers val ?r))"
    using ord unfolding prices by (simp_all add: sorted_wrt_map)
qed

text \<open>The effective quantity of a fill is what it filled.\<close>

lemma add_quantities_exact:
  assumes "dec_exact_on D S val" "add_quantities D acc qs = Inr added" "quantity_get acc \<in> S" "\<forall>q\<in>set qs. quantity_get q \<in> S"
  shows "quantity_get added \<in> S \<and> val (quantity_get added) = val (quantity_get acc) + sum_list (map (\<lambda>q. val (quantity_get q)) qs)"
  using assms(2-)
proof (induction qs arbitrary: acc)
  case (Cons q qs)
  obtain acc' where acc': "quantity_safe_add D acc q = Inr acc'" "add_quantities D acc' qs = Inr added"
    using Cons.prems(1) by auto
  have "dadd D (quantity_get acc) (quantity_get q) = Some (quantity_get acc')"
    using acc'(1) by (auto simp: quantity_safe_add_def dec_safe_add_def)
  then have "quantity_get acc' \<in> S \<and> val (quantity_get acc') = val (quantity_get acc) + val (quantity_get q)"
    using assms(1) Cons.prems(2,3) unfolding dec_exact_on_def by (metis list.set_intros(1))
  then show ?case using Cons.IH [OF acc'(2)] Cons.prems(3) by simp
qed simp

lemma best_price_loop_in:
  assumes "dec_exact_on D S val"
  shows "quantity_get rem \<in> S \<Longrightarrow> \<forall>r\<in>set rs. quantity_get (rk_quantity r) \<in> S \<Longrightarrow> best_price_loop D rem rs = Inr allocs
    \<Longrightarrow> \<forall>a\<in>set allocs. quantity_get (al_quantity a) \<in> S"
proof (induction rs arbitrary: rem allocs)
  case (Cons r rs)
  let ?q = "quantity_min D (rk_quantity r) rem"
  have q: "quantity_get ?q \<in> S" using Cons.prems by (simp add: quantity_min_def)
  have left: "quantity_get rem' \<in> S" if "quantity_safe_sub D rem ?q = Inr rem'" for rem'
    using exact_sub [OF assms that Cons.prems(1) q] by blast
  have IH: "\<forall>a\<in>set as. quantity_get (al_quantity a) \<in> S"
    if "quantity_safe_sub D rem ?q = Inr rem'" "best_price_loop D rem' rs = Inr as" for rem' as
    using Cons.IH [OF left [OF that(1)] _ that(2)] Cons.prems(2) by simp
  from Cons.prems q show ?case
    by (auto simp: Let_def dest!: allocate_to_Inr dest: Cons.IH bspec [OF IH] split: if_splits)
qed simp

lemma best_price_fill_effective:
  assumes "dec_exact_on D S val" "dec_signs D" "quantity_get target \<in> S"
    and "best_price_allocate D quotes target mode side = Inr allocs"
    and "\<forall>r\<in>set quotes. quantity_get (rk_quantity r) \<in> S \<and> 0 \<le> val (quantity_get (rk_quantity r))"
  obtains effective where "best_price_loop D effective quotes = Inr allocs" "quantity_get effective \<in> S"
    "0 \<le> val (quantity_get effective)" "val (quantity_get effective) = filled val allocs"
proof -
  note zero = exact_laws(2) [OF assms(1)]
  have zero_in: "quantity_get (quantity_zero D) \<in> S" "val (quantity_get (quantity_zero D)) = 0"
    using assms(1) zero unfolding dec_exact_on_def quantity_zero_def quantity.sel by blast+
  obtain available effective where run: "quantity_is_positive D target" "total_quoted_quantity D quotes = Inr available"
      "enforce_mode D mode target available = Inr effective" "best_price_loop D effective quotes = Inr allocs"
      "validate_allocation_sum D allocs effective = Inr ()"
    using assms(4) by (auto simp: best_price_allocate_def validate_preconditions_def split: if_splits)
  have "quantity_get available \<in> S \<and> 0 \<le> val (quantity_get available)"
    using add_quantities_exact [OF assms(1) run(2) [unfolded total_quoted_quantity_def] zero_in(1)] assms(5) zero_in(2)
    by (auto simp: comp_def intro!: sum_list_nonneg)
  then have eff: "quantity_get effective \<in> S" "0 \<le> val (quantity_get effective)"
    using run(1,3) assms(3) exact_positive [OF assms(1,2)]
    by (cases mode; auto simp: Let_def quantity_min_def split: if_splits)+
  have allocated: "\<forall>a\<in>set allocs. quantity_get (al_quantity a) \<in> S"
    using best_price_loop_in [OF assms(1) eff(1) _ run(4)] assms(5) by blast
  obtain added where "add_quantities D (quantity_zero D) (map al_quantity allocs) = Inr added"
      "deq D (quantity_get added) (quantity_get effective)"
    using run(5) by (auto simp: validate_allocation_sum_def split: if_splits)
  then have "val (quantity_get effective) = filled val allocs"
    using add_quantities_exact [OF assms(1) _ zero_in(1), of "map al_quantity allocs" added] allocated zero_in(2)
    by (simp add: filled_def deq_def exact_laws(1) [OF assms(1)] comp_def)
  then show ?thesis using that run(4) eff by blast
qed

section \<open>Properties\<close>

text \<open>
  C18. Both strategies keep the contract of a fill: the allocations are for quotes of the list, in its
  order, each quote at most once, at the quoted price and with positive quantity; they add up
  exactly to the whole target in the full-fill modes, and in the partial modes to the target or, when less was quoted, to all that was quoted, and
  no less than the minimum of the minimum mode. With too little quoted a full-fill mode is refused for lack of liquidity, and
  the minimum mode because its minimum is not met.
\<close>

theorem fills_keep_contract:
  assumes "allocate \<in> {pro_rata_allocate D, best_price_allocate D}" "dec_order D"
    and "total_quoted_quantity D quotes = Inr available" "distinct (map (\<lambda>r. quote_id (rank_item r)) quotes)"
  shows "case allocate quotes target mode side of
      Inr allocs \<Rightarrow> subseq (map al_terms allocs) (map quote_terms quotes)
        \<and> distinct (map al_quote_id allocs) \<and> list_all (al_positive D) allocs
        \<and> (\<exists>added. add_quantities D (quantity_zero D) (map al_quantity allocs) = Inr added
            \<and> deq D (quantity_get added) (quantity_get (effective_quantity D mode target available)))
        \<and> (sm_requires_full_fill mode \<longrightarrow> dle D (quantity_get target) (quantity_get available))
        \<and> (\<forall>m. mode = MinQuantity m \<longrightarrow> dle D (quantity_get m) (quantity_get (effective_quantity D mode target available)))
    | Inl e \<Rightarrow> quantity_is_positive D target \<and> quotes \<noteq> [] \<longrightarrow>
        (sm_requires_full_fill mode \<and> dlt D (quantity_get available) (quantity_get target)
          \<longrightarrow> e = InsufficientLiquidity target available)
        \<and> (\<forall>m. mode = MinQuantity m \<and> dlt D (quantity_get (effective_quantity D mode target available)) (quantity_get m)
          \<longrightarrow> e = MinQuantityNotMet (effective_quantity D mode target available) m)"
proof -
  have strategy: "fill_strategy D allocate"
    using assms(1) pro_rata.fill_strategy_axioms best_fill.fill_strategy_axioms by blast
  show ?thesis
  proof (cases "allocate quotes target mode side")
    case (Inl e)
    then show ?thesis using fill_strategy.short_of_liquidity [OF strategy assms(2) _ _ assms(3)]
        fill_strategy.below_minimum [OF strategy _ _ assms(3)] by auto
  next
    case (Inr allocs)
    obtain added where "mode_allows D mode target available (effective_quantity D mode target available)"
        "add_quantities D (quantity_zero D) (map al_quantity allocs) = Inr added"
        "deq D (quantity_get added) (quantity_get (effective_quantity D mode target available))"
      using fill_strategy.sum_and_mode [OF strategy assms(2) Inr] assms(3) by auto
    then show ?thesis using Inr fill_strategy.terms_kept [OF strategy Inr]
        fill_strategy.each_quote_once [OF strategy Inr assms(4)] fill_strategy.all_positive [OF strategy Inr]
      by (auto simp: list_all_iff mode_allows_def sm_min_quantity_def)
  qed
qed

text \<open>Two quotes, the second cheaper, and the fill of eight from them.\<close>

lemma priced_sel [simp]: "quote_price (priced i p n) = Price p" "quote_quantity (priced i p n) = Quantity n"
  "quote_id (priced i p n) = i" "quote_venue_id (priced i p n) = ''venue''"
  by (simp_all add: priced_def sample_quote_def qb_build_def qb_new_def)

definition two_quotes :: "int quote list" where
  "two_quotes = [priced 1 50 5, priced 2 40 7]"

lemma two_ranked: "map rank_item (best_price_rank whole_f64 two_quotes Buy) = [priced 2 40 7, priced 1 50 5]"
  by (simp add: two_quotes_def best_price_rank_def ranked_from_items scored_by_def sort_stable_def score_before_def bp_score_def)

lemma two_ranked_cases:
  obtains r1 r2 where "best_price_rank whole_f64 two_quotes Buy = [r1, r2]"
    "rank_item r1 = priced 2 40 7" "rank_item r2 = priced 1 50 5"
  using two_ranked by (auto simp: map_eq_Cons_conv)

lemma two_filled: "\<exists>a b. best_price_allocate whole_dec (best_price_rank whole_f64 two_quotes Buy) (Quantity 8) AllOrNothing Buy
    = Inr [a, b] \<and> al_quantity a = Quantity 7 \<and> al_quantity b = Quantity 1
      \<and> al_price a = Price 40 \<and> al_price b = Price 50"
proof -
  obtain r1 r2 where r: "best_price_rank whole_f64 two_quotes Buy = [r1, r2]"
    "rank_item r1 = priced 2 40 7" "rank_item r2 = priced 1 50 5" by (rule two_ranked_cases)
  show ?thesis unfolding r(1)
    by (simp add: best_price_allocate_def validate_preconditions_def total_quoted_quantity_def quantity_is_positive_def
        quantity_safe_add_def quantity_safe_sub_def dec_safe_add_def dec_safe_sub_def whole_fit_def quantity_zero_def
        quantity_min_def allocate_to_def al_new_def al_from_parts_def price_is_positive_def quantity_is_zero_def
        validate_allocation_sum_def dlt_def deq_def de_of_arith_def r)
qed

lemma two_total: "total_quoted_quantity whole_dec (best_price_rank whole_f64 two_quotes Buy) = Inr (Quantity 12)"
proof -
  obtain r1 r2 where r: "best_price_rank whole_f64 two_quotes Buy = [r1, r2]"
    "rank_item r1 = priced 2 40 7" "rank_item r2 = priced 1 50 5" by (rule two_ranked_cases)
  show ?thesis unfolding r(1)
    by (simp add: total_quoted_quantity_def quantity_safe_add_def dec_safe_add_def whole_fit_def quantity_zero_def de_of_arith_def r)
qed

lemma fills_keep_contract_witness:
  "\<exists>allocs. best_price_allocate whole_dec (best_price_rank whole_f64 two_quotes Buy) (Quantity 8) AllOrNothing Buy = Inr allocs
    \<and> distinct (map al_quote_id allocs) \<and> list_all (al_positive whole_dec) allocs
    \<and> add_quantities whole_dec (quantity_zero whole_dec) (map al_quantity allocs) = Inr (Quantity 8)"
proof -
  have "distinct (map (\<lambda>r. quote_id (rank_item r)) (best_price_rank whole_f64 two_quotes Buy))"
    using arg_cong [OF two_ranked, of "map quote_id"] by (simp add: comp_def)
  note filled = fills_keep_contract [of "best_price_allocate whole_dec" whole_dec, OF _ whole_dec_order two_total this,
      of "Quantity 8" AllOrNothing Buy]
  have "q = Quantity 8" if "deq whole_dec (quantity_get q) 8" for q
    using that by (cases q) (simp add: deq_def)
  then show ?thesis using filled two_filled by (auto simp: effective_quantity_def sm_requires_full_fill_def)
qed

text \<open>
  C19. Ranking by best price and then filling the best quotes first is optimal: when quantities
  are whole numbers of a unit, so that the decimals add and subtract them exactly, and \<open>f64\<close> tells the
  prices apart, no other way to take the filled amount from the quotes, none beyond what it
  offers, costs a buyer less or brings a seller more.
\<close>

theorem best_price_fill_optimal:
  assumes "f_monotone D T" "dec_exact_on D S val" "dec_signs D"
    and "\<forall>a\<in>set qs. \<forall>b\<in>set qs. price_f T a = price_f T b \<longrightarrow>
      val (price_get (quote_price a)) = val (price_get (quote_price b))"
    and "\<forall>q\<in>set qs. quantity_get (quote_quantity q) \<in> S \<and> 0 \<le> val (quantity_get (quote_quantity q))"
    and "quantity_get target \<in> S" "best_price_allocate D (best_price_rank T qs side) target mode side = Inr allocs"
    and "fits_offers xs (offers val (best_price_rank T qs side))" "sum_list xs = filled val allocs"
  shows "case side of Buy \<Rightarrow> spent val allocs \<le> cost_of xs (offers val (best_price_rank T qs side))
    | Sell \<Rightarrow> cost_of xs (offers val (best_price_rank T qs side)) \<le> spent val allocs"
proof -
  let ?r = "best_price_rank T qs side"
  have items: "\<forall>r\<in>set ?r. rank_item r \<in> set qs" using best_price.items_rank by fastforce
  have offered: "\<forall>r\<in>set ?r. quantity_get (rk_quantity r) \<in> S \<and> 0 \<le> val (quantity_get (rk_quantity r))"
    using items assms(5) by blast
  obtain effective where run: "best_price_loop D effective ?r = Inr allocs" "quantity_get effective \<in> S"
      "0 \<le> val (quantity_get effective)" "val (quantity_get effective) = filled val allocs"
    by (rule best_price_fill_effective [OF assms(2,3,6,7) offered])
  have spent: "spent val allocs = fill_cost (filled val allocs) (offers val ?r)"
    using best_price_loop_cost [OF assms(2,3) run(2,3) offered run(1)] run(4) by simp
  show ?thesis
    using fill_cost_best [OF _ assms(8,9)] best_price_ranked_sorted [OF assms(1,2,4), of side] run(3,4)
    by (cases side) (simp_all add: spent)
qed

lemma best_price_fill_optimal_witness:
  "\<exists>allocs. best_price_allocate whole_dec (best_price_rank whole_f64 two_quotes Buy) (Quantity 8) AllOrNothing Buy = Inr allocs
    \<and> spent of_int allocs \<le> cost_of [3, 5] (offers of_int (best_price_rank whole_f64 two_quotes Buy))"
proof -
  obtain allocs where run: "best_price_allocate whole_dec (best_price_rank whole_f64 two_quotes Buy) (Quantity 8) AllOrNothing Buy
      = Inr allocs" "filled of_int allocs = 8"
    using two_filled by (auto simp: filled_def)
  obtain r1 r2 where r: "best_price_rank whole_f64 two_quotes Buy = [r1, r2]"
    "rank_item r1 = priced 2 40 7" "rank_item r2 = priced 1 50 5" by (rule two_ranked_cases)
  have "case Buy of Buy \<Rightarrow> spent of_int allocs \<le> cost_of [3, 5] (offers of_int (best_price_rank whole_f64 two_quotes Buy))
    | Sell \<Rightarrow> cost_of [3, 5] (offers of_int (best_price_rank whole_f64 two_quotes Buy)) \<le> spent of_int allocs"
    by (rule best_price_fill_optimal [OF whole_f64_monotone whole_dec_exact whole_dec_signs _ _ _ run(1)])
      (auto simp: run(2) fits_offers_def offers_def r, auto simp: two_quotes_def)
  then show ?thesis using run(1) by auto
qed

end
