(* ===== verification/Aggregation.thy ===== *)
theory Aggregation
  imports Ranking Use_Cases
begin

text \<open>
  \<open>src/application/services/quote_aggregation.rs\<close>: every available venue is asked, expired quotes
  are dropped, the others ranked, by the raw price or after normalization, and cut to a
  maximum. The registry is asked twice, so the venues of the two answers are separate inputs, with
  the time that ran out, the readings of the clock and the text of a panicked task.
\<close>

section \<open>Configuration and results\<close>

record aggregation_config =
  ac_timeout_ms :: u64
  ac_min_quotes :: nat
  ac_max_quotes :: "nat option"
  ac_per_venue_timeout_ms :: u64

definition ac_default :: aggregation_config where
  "ac_default = \<lparr> ac_timeout_ms = 10000, ac_min_quotes = 1, ac_max_quotes = None, ac_per_venue_timeout_ms = 5000 \<rparr>"

definition ac_with_timeout :: "u64 \<Rightarrow> aggregation_config" where
  "ac_with_timeout t = ac_default\<lparr> ac_timeout_ms := t \<rparr>"

definition ac_with_min_quotes :: "nat \<Rightarrow> aggregation_config \<Rightarrow> aggregation_config" where
  "ac_with_min_quotes n c = c\<lparr> ac_min_quotes := n \<rparr>"

definition ac_with_max_quotes :: "nat \<Rightarrow> aggregation_config \<Rightarrow> aggregation_config" where
  "ac_with_max_quotes n c = c\<lparr> ac_max_quotes := Some n \<rparr>"

definition ac_with_per_venue_timeout :: "u64 \<Rightarrow> aggregation_config \<Rightarrow> aggregation_config" where
  "ac_with_per_venue_timeout t c = c\<lparr> ac_per_venue_timeout_ms := t \<rparr>"

text \<open>The counts: quotes collected, venues asked, venues that answered, expired quotes.\<close>

record aggregation_counts =
  an_total_collected :: nat
  an_venues_queried :: nat
  an_venues_responded :: nat
  an_filtered_count :: nat

datatype 'd aggregation_result =
    AggRaw "'d ranked_quote list" aggregation_counts
  | AggNormalized "'d ranked_normalized_quote list" aggregation_counts

definition agr_quote_count :: "'d aggregation_result \<Rightarrow> nat" where
  "agr_quote_count r = (case r of AggRaw rs _ \<Rightarrow> length rs | AggNormalized rs _ \<Rightarrow> length rs)"

definition agr_has_sufficient_quotes :: "nat \<Rightarrow> 'd aggregation_result \<Rightarrow> bool" where
  "agr_has_sufficient_quotes n r \<longleftrightarrow> (case r of AggRaw rs _ \<Rightarrow> n \<le> length rs | AggNormalized rs _ \<Rightarrow> n \<le> length rs)"

definition agr_total_collected :: "'d aggregation_result \<Rightarrow> nat" where
  "agr_total_collected r = (case r of AggRaw _ c \<Rightarrow> an_total_collected c | AggNormalized _ c \<Rightarrow> an_total_collected c)"

definition agr_venues_queried :: "'d aggregation_result \<Rightarrow> nat" where
  "agr_venues_queried r = (case r of AggRaw _ c \<Rightarrow> an_venues_queried c | AggNormalized _ c \<Rightarrow> an_venues_queried c)"

datatype 'd aggregation_error =
    NoVenuesAvailable | AggInsufficientQuotes nat nat | AggTimeout | AllVenuesFailed "'d msg list"

section \<open>The engine\<close>

record 'd aggregation_engine =
  ge_ranking_strategy :: "'d ranking_strategy"
  ge_config :: aggregation_config
  ge_quote_normalizer :: "'d quote_normalizer option"

definition ge_new :: "'d ranking_strategy \<Rightarrow> aggregation_config \<Rightarrow> 'd aggregation_engine" where
  "ge_new s c = \<lparr> ge_ranking_strategy = s, ge_config = c, ge_quote_normalizer = None \<rparr>"

definition ge_with_defaults :: "'d ranking_strategy \<Rightarrow> 'd aggregation_engine" where
  "ge_with_defaults s = ge_new s ac_default"

definition ge_with_normalizer :: "'d ranking_strategy \<Rightarrow> aggregation_config \<Rightarrow> 'd quote_normalizer \<Rightarrow> 'd aggregation_engine" where
  "ge_with_normalizer s c N = \<lparr> ge_ranking_strategy = s, ge_config = c, ge_quote_normalizer = Some N \<rparr>"

record 'd aggregation_inputs =
  gi_venues :: "'d venue_adapter list"
  gi_venues_again :: "'d venue_adapter list"
  gi_time_ran_out :: bool
  gi_clock :: "'d quote \<Rightarrow> timestamp"
  gi_join_error :: "'d msg"

definition collected_quotes :: "'d venue_answer list \<Rightarrow> 'd quote list" where
  "collected_quotes as = List.map_filter (\<lambda>a. case a of Answered q \<Rightarrow> Some q | _ \<Rightarrow> None) as"

definition collected_errors :: "'d msg \<Rightarrow> 'd venue_answer list \<Rightarrow> 'd msg list" where
  "collected_errors join_error as = List.map_filter (\<lambda>a. case a of
       Answered _ \<Rightarrow> None
     | Refused e \<Rightarrow> Some (ve_display e)
     | TimedOut \<Rightarrow> Some (Txt ''venue request timed out'')
     | TaskPanicked \<Rightarrow> Some (Fmt ''task panicked: {}'' [ArgMsg join_error])) as"

definition collect_from_venues :: "aggregation_config \<Rightarrow> 'd msg \<Rightarrow> 'd rfq \<Rightarrow> 'd venue_adapter list
    \<Rightarrow> 'd quote list \<times> 'd msg list" where
  "collect_from_venues c join_error r venues =
     (let answers = map (\<lambda>v. va_request_quote v (ac_per_venue_timeout_ms c) r) venues in
      (collected_quotes answers, collected_errors join_error answers))"

text \<open>\<open>truncate\<close>.\<close>

definition truncate_to :: "nat option \<Rightarrow> 'a list \<Rightarrow> 'a list" where
  "truncate_to m xs = (case m of Some k \<Rightarrow> take k xs | None \<Rightarrow> xs)"

definition normalize_for_ranking :: "'d dec \<Rightarrow> 'd quote_normalizer \<Rightarrow> 'd quote \<Rightarrow> 'd normalized_quote option" where
  "normalize_for_ranking D N q = qn_normalize D N q
     (if quote_last_look_required q then LastLookQuote else Firm)
     (case quote_metadata q of Some m \<Rightarrow> m ''currency'' | None \<Rightarrow> None)"

definition rank_collected :: "'d dec \<Rightarrow> 'd aggregation_engine \<Rightarrow> 'd quote list \<Rightarrow> order_side \<Rightarrow> aggregation_counts
    \<Rightarrow> ('d aggregation_error, 'd aggregation_result) outcome" where
  "rank_collected D E quotes side counts = (case ge_quote_normalizer E of
       Some N \<Rightarrow> obind (or_panic (those (map (normalize_for_ranking D N) quotes))) (\<lambda>ns.
         Ret (AggNormalized (truncate_to (ac_max_quotes (ge_config E))
           (rank_normalized (st_score_normalized (ge_ranking_strategy E)) ns side)) counts))
     | None \<Rightarrow> Ret (AggRaw (truncate_to (ac_max_quotes (ge_config E))
           (st_rank (ge_ranking_strategy E) quotes side)) counts))"

definition collect_and_rank :: "'d dec \<Rightarrow> 'd aggregation_engine \<Rightarrow> 'd aggregation_inputs \<Rightarrow> 'd rfq
    \<Rightarrow> ('d aggregation_error, 'd aggregation_result) outcome" where
  "collect_and_rank D E i r =
     (let venues_queried = length (gi_venues i) in
      if gi_venues i = [] then Err NoVenuesAvailable
      else if gi_time_ran_out i then Err AggTimeout
      else
        let (quotes, errors) = collect_from_venues (ge_config E) (gi_join_error i) r (gi_venues_again i);
            total_collected = length quotes in
        if venues_queried < length errors then Panic
        else
          let venues_responded = venues_queried - length errors;
              valid = filter (\<lambda>q. \<not> quote_is_expired (gi_clock i q) q) quotes;
              filtered_count = total_collected - length valid in
          if valid = [] \<and> errors \<noteq> [] then Err (AllVenuesFailed errors)
          else if length valid < ac_min_quotes (ge_config E)
          then Err (AggInsufficientQuotes (length valid) (ac_min_quotes (ge_config E)))
          else rank_collected D E valid (rfq_side r) \<lparr> an_total_collected = total_collected,
                 an_venues_queried = venues_queried, an_venues_responded = venues_responded,
                 an_filtered_count = filtered_count \<rparr>)"

section \<open>What the engine collected\<close>

abbreviation answers_of :: "'d aggregation_engine \<Rightarrow> 'd aggregation_inputs \<Rightarrow> 'd rfq \<Rightarrow> 'd venue_answer list" where
  "answers_of E i r \<equiv> map (\<lambda>v. va_request_quote v (ac_per_venue_timeout_ms (ge_config E)) r) (gi_venues_again i)"

definition valid_quotes :: "'d aggregation_engine \<Rightarrow> 'd aggregation_inputs \<Rightarrow> 'd rfq \<Rightarrow> 'd quote list" where
  "valid_quotes E i r = filter (\<lambda>q. \<not> quote_is_expired (gi_clock i q) q) (collected_quotes (answers_of E i r))"

lemma every_venue_counts_once:
  "length (collected_quotes as) + length (collected_errors m as) = length as"
  unfolding collected_quotes_def collected_errors_def
  by (induction as) (auto simp: List.map_filter_simps split: venue_answer.splits)

lemma length_collected_errors:
  "length (collected_errors m as) = length (filter (\<lambda>a. \<forall>q. a \<noteq> Answered q) as)"
  unfolding collected_errors_def by (induction as) (auto simp: List.map_filter_simps split: venue_answer.splits)

lemma collected_quotes_set: "q \<in> set (collected_quotes as) \<longleftrightarrow> Answered q \<in> set as"
  unfolding collected_quotes_def by (induction as) (auto simp: List.map_filter_simps split: venue_answer.splits)

abbreviation failures_of :: "'d aggregation_engine \<Rightarrow> 'd aggregation_inputs \<Rightarrow> 'd rfq \<Rightarrow> 'd msg list" where
  "failures_of E i r \<equiv> collected_errors (gi_join_error i) (answers_of E i r)"

text \<open>The true counts: answers, venues the registry listed at first, those of them that did not fail, and expired answers.\<close>

definition counts_of :: "'d aggregation_engine \<Rightarrow> 'd aggregation_inputs \<Rightarrow> 'd rfq \<Rightarrow> aggregation_counts" where
  "counts_of E i r =
     \<lparr> an_total_collected = length (collected_quotes (answers_of E i r)), an_venues_queried = length (gi_venues i),
       an_venues_responded = length (gi_venues i) - length (failures_of E i r),
       an_filtered_count = length (filter (\<lambda>q. quote_is_expired (gi_clock i q) q) (collected_quotes (answers_of E i r))) \<rparr>"

lemma collect_and_rank_unfold:
  "collect_and_rank D E i r =
     (if gi_venues i = [] then Err NoVenuesAvailable
      else if gi_time_ran_out i then Err AggTimeout
      else if length (gi_venues i) < length (failures_of E i r) then Panic
      else if valid_quotes E i r = [] \<and> failures_of E i r \<noteq> [] then Err (AllVenuesFailed (failures_of E i r))
      else if length (valid_quotes E i r) < ac_min_quotes (ge_config E)
      then Err (AggInsufficientQuotes (length (valid_quotes E i r)) (ac_min_quotes (ge_config E)))
      else rank_collected D E (valid_quotes E i r) (rfq_side r) (counts_of E i r))"
proof -
  let ?qs = "collected_quotes (answers_of E i r)"
  have "length ?qs - length (valid_quotes E i r) = length (filter (\<lambda>q. quote_is_expired (gi_clock i q) q) ?qs)"
    using sum_length_filter_compl [of "\<lambda>q. quote_is_expired (gi_clock i q) q" ?qs] by (simp add: valid_quotes_def)
  then show ?thesis
    by (simp add: collect_and_rank_def collect_from_venues_def counts_of_def valid_quotes_def Let_def)
qed

section \<open>What the engine returns\<close>

definition agr_counts :: "'d aggregation_result \<Rightarrow> aggregation_counts" where
  "agr_counts r = (case r of AggRaw _ c \<Rightarrow> c | AggNormalized _ c \<Rightarrow> c)"

definition kept_quotes :: "aggregation_config \<Rightarrow> nat \<Rightarrow> nat" where
  "kept_quotes c n = (case ac_max_quotes c of Some m \<Rightarrow> min m n | None \<Rightarrow> n)"

text \<open>A complete ranking of some items: each of them once, numbered from 1, and a better score before a worse one.\<close>

definition ranks_all :: "'a ranked list \<Rightarrow> 'a list \<Rightarrow> bool" where
  "ranks_all rs items \<longleftrightarrow> mset (map rank_item rs) = mset items \<and> map rank_no rs = [1..<Suc (length items)]
     \<and> ((\<forall>x\<in>set rs. rank_score x \<noteq> NaN) \<longrightarrow> sorted_wrt (\<lambda>a b. \<not> f_lt (rank_score a) (rank_score b)) rs)"

definition trait_strategies :: "('d \<Rightarrow> f64 option) \<Rightarrow> cost_config \<Rightarrow> ('d ranking_strategy \<times> f64) list \<Rightarrow> 'd ranking_strategy set" where
  "trait_strategies T C ss = {best_price_strategy T, lowest_slippage_strategy T, lowest_cost_strategy C T}
     \<union> (if ss = [] then {} else {composite_strategy ss})"

lemma trait_strategies_rank:
  assumes "s \<in> trait_strategies T C ss"
  shows "ranking (\<lambda>qs. st_rank s qs side)"
proof -
  have "ranking (\<lambda>qs. st_rank (composite_strategy ss) qs side)" if "ss \<noteq> []"
    using that composite.ranking_axioms [of "hd ss" "tl ss" side] by (simp add: composite_strategy_def)
  then show ?thesis using assms best_price.ranking_axioms slippage.ranking_axioms cost.ranking_axioms
    by (auto simp: trait_strategies_def best_price_strategy_def lowest_slippage_strategy_def lowest_cost_strategy_def
        split: if_splits)
qed

lemma ranking_ranks_all: "ranking rank \<Longrightarrow> ranks_all (rank qs) qs"
  unfolding ranks_all_def by (intro conjI impI ranking.permutes ranking.numbers ranking.best_first)

lemma length_ranks_all: "ranks_all rs items \<Longrightarrow> length rs = length items"
  unfolding ranks_all_def by (metis length_map size_mset)

lemma length_truncate_to: "length (truncate_to m xs) = (case m of Some k \<Rightarrow> min k (length xs) | None \<Rightarrow> length xs)"
  by (simp add: truncate_to_def min.commute split: option.split)

lemma those_map: "those (map f xs) = Some ys \<Longrightarrow> map f xs = map Some ys"
  by (induction xs arbitrary: ys) (auto split: option.splits)

lemma those_map_None: "those (map f xs) = None \<Longrightarrow> \<exists>x\<in>set xs. f x = None"
  by (induction xs) (auto split: option.splits)

text \<open>What is returned for the quotes \<open>qs\<close>: the ranking of all of them, or of all of them normalized, cut to the maximum.\<close>

definition ranked_truthfully :: "'d dec \<Rightarrow> 'd aggregation_engine \<Rightarrow> 'd quote list \<Rightarrow> order_side \<Rightarrow> 'd aggregation_result \<Rightarrow> bool" where
  "ranked_truthfully D E qs side res \<longleftrightarrow> (case res of
       AggRaw rs _ \<Rightarrow> ge_quote_normalizer E = None
         \<and> (\<exists>ranked. ranked = st_rank (ge_ranking_strategy E) qs side \<and> ranks_all ranked qs
              \<and> rs = truncate_to (ac_max_quotes (ge_config E)) ranked)
     | AggNormalized rs _ \<Rightarrow> (\<exists>N ns ranked. ge_quote_normalizer E = Some N \<and> map (normalize_for_ranking D N) qs = map Some ns
         \<and> ranks_all ranked ns \<and> (\<forall>x\<in>set ranked. rank_score x = st_score_normalized (ge_ranking_strategy E) (rank_item x) side)
         \<and> rs = truncate_to (ac_max_quotes (ge_config E)) ranked))"

lemma normalized_scores:
  "x \<in> set (rank_normalized score ns side) \<Longrightarrow> rank_score x = score (rank_item x) side"
  by (auto simp: rank_normalized_def split: if_splits dest: ranked_score)

lemma rank_collected_cases:
  assumes "ranking (\<lambda>qs. st_rank (ge_ranking_strategy E) qs side)"
  shows "case rank_collected D E qs side counts of
      Panic \<Rightarrow> \<exists>N q. ge_quote_normalizer E = Some N \<and> q \<in> set qs \<and> normalize_for_ranking D N q = None
    | Err _ \<Rightarrow> False
    | Ret res \<Rightarrow> agr_counts res = counts \<and> agr_quote_count res = kept_quotes (ge_config E) (length qs)
        \<and> ranked_truthfully D E qs side res"
proof (cases "ge_quote_normalizer E")
  case None
  then show ?thesis using ranking_ranks_all [OF assms, of qs] length_ranks_all [OF ranking_ranks_all [OF assms], of qs]
    by (simp add: rank_collected_def agr_counts_def agr_quote_count_def kept_quotes_def length_truncate_to ranked_truthfully_def
        split: option.split)
next
  case (Some N)
  show ?thesis
  proof (cases "those (map (normalize_for_ranking D N) qs)")
    case None
    then show ?thesis using those_map_None [OF None] Some by (auto simp: rank_collected_def)
  next
    case ns: (Some ns)
    define ranked where "ranked = rank_normalized (st_score_normalized (ge_ranking_strategy E)) ns side"
    have all: "ranks_all ranked ns"
      unfolding ranked_def by (rule ranking_ranks_all [of "\<lambda>ns. rank_normalized _ ns side"]) (rule normalized.ranking_axioms)
    have norm: "map (normalize_for_ranking D N) qs = map Some ns" by (rule those_map [OF ns])
    then have len: "length ns = length qs" by (metis length_map)
    have run: "rank_collected D E qs side counts = Ret (AggNormalized (truncate_to (ac_max_quotes (ge_config E)) ranked) counts)"
      by (simp add: rank_collected_def Some ns ranked_def)
    have "\<forall>x\<in>set ranked. rank_score x = st_score_normalized (ge_ranking_strategy E) (rank_item x) side"
      unfolding ranked_def using normalized_scores by blast
    then have "ranked_truthfully D E qs side (AggNormalized (truncate_to (ac_max_quotes (ge_config E)) ranked) counts)"
      unfolding ranked_truthfully_def using Some norm all by auto
    then show ?thesis
      unfolding run by (simp add: agr_counts_def agr_quote_count_def kept_quotes_def length_truncate_to length_ranks_all [OF all] len
          split: option.split)
  qed
qed

text \<open>Raw quotes ranked by price: none has a strictly better price than one before it, as far as \<open>f64\<close> tells prices apart.\<close>

definition price_order :: "'d dec \<Rightarrow> ('d \<Rightarrow> f64 option) \<Rightarrow> order_side \<Rightarrow> 'd aggregation_result \<Rightarrow> bool" where
  "price_order D T side res \<longleftrightarrow> (\<forall>rs c. res = AggRaw rs c \<longrightarrow>
     sorted_wrt (\<lambda>a b. better_price D side b a \<longrightarrow> price_f T b = price_f T a) (map rank_item rs))"

lemma truncated_price_order:
  assumes "ranked_truthfully D E qs side res" "ge_ranking_strategy E = best_price_strategy T" "f_monotone D T" "dec_order D"
  shows "price_order D T side res"
  unfolding price_order_def
proof (intro allI impI)
  fix rs c assume "res = AggRaw rs c"
  then have rs: "rs = truncate_to (ac_max_quotes (ge_config E)) (best_price_rank T qs side)"
    using assms(1,2) by (simp add: ranked_truthfully_def best_price_strategy_def)
  show "sorted_wrt (\<lambda>a b. better_price D side b a \<longrightarrow> price_f T b = price_f T a) (map rank_item rs)"
    using best_price_sorted [OF assms(3,4), of side qs]
    unfolding rs by (simp add: truncate_to_def take_map [symmetric] sorted_wrt_take split: option.split)
qed

section \<open>Properties\<close>


definition answering :: "'d venue_answer \<Rightarrow> 'd venue_adapter" where
  "answering a = \<lparr> va_venue_id = ''venue'', va_timeout_ms = 0, va_request_quote = (\<lambda>_ _. a) \<rparr>"

definition asking :: "int venue_answer list \<Rightarrow> int venue_answer list \<Rightarrow> int aggregation_inputs" where
  "asking as bs = \<lparr> gi_venues = map answering as, gi_venues_again = map answering bs, gi_time_ran_out = False,
     gi_clock = (\<lambda>_. 200), gi_join_error = Txt [] \<rparr>"


text \<open>
  The registry is asked once for the number of venues and again for the venues to ask: when
  the second answer has more failing venues than the first had venues, the subtraction that
  counts the answering venues underflows and the engine panics, whatever good quotes it got.
\<close>

theorem aggregation_panics_when_registry_grows:
  assumes "gi_venues i \<noteq> []" "\<not> gi_time_ran_out i"
    and "length (gi_venues i) < length (filter (\<lambda>a. \<forall>q. a \<noteq> Answered q) (answers_of E i r))"
  shows "collect_and_rank D E i r = Panic"
  using assms by (simp add: collect_and_rank_def collect_from_venues_def Let_def length_collected_errors)

lemma aggregation_panics_when_registry_grows_witness:
  "collect_and_rank whole_dec (ge_with_defaults (best_price_strategy whole_f64))
      (asking [Answered (sample_quote 1 50 300)] [Answered (sample_quote 1 50 300), TimedOut, TimedOut]) sample_rfq = Panic"
  by (rule aggregation_panics_when_registry_grows) (simp_all add: asking_def answering_def)

end
