(* ===== verification/Fees.thy ===== *)
theory Fees
  imports Errors Stable_Sorting
begin

text \<open>
  \<open>src/domain/services/fee_engine.rs\<close> with \<open>src/domain/value_objects/trade_type.rs\<close>, and
  \<open>price_improvement.rs\<close>: fee schedules with volume tiers, and the improvement of a quote over
  a reference price. Volumes and overrides come from providers, which are parameters.
\<close>

section \<open>Trade types and rates\<close>

datatype trade_type = RfqTrade | BlockTrade

definition tt_default :: trade_type where
  "tt_default = RfqTrade"

definition tt_is_rfq :: "trade_type \<Rightarrow> bool" where
  "tt_is_rfq t \<longleftrightarrow> t = RfqTrade"

definition tt_is_block :: "trade_type \<Rightarrow> bool" where
  "tt_is_block t \<longleftrightarrow> t = BlockTrade"

text \<open>Signed basis points, an \<open>i32\<close>: negative rates are rebates.\<close>

type_synonym i32 = "32 word"

record fee_rates =
  fr_taker_rate_bps :: i32
  fr_maker_rate_bps :: i32

definition fr_new :: "i32 \<Rightarrow> i32 \<Rightarrow> fee_rates" where
  "fr_new t m = \<lparr> fr_taker_rate_bps = t, fr_maker_rate_bps = m \<rparr>"

definition fr_symmetric :: "i32 \<Rightarrow> fee_rates" where
  "fr_symmetric r = fr_new r r"

definition fr_default :: fee_rates where
  "fr_default = fr_new 3 (- 1)"

definition bps_decimal :: "'d dec \<Rightarrow> i32 \<Rightarrow> ('e, 'd) outcome" where
  "bps_decimal D r = dover D (dof_int D (sint r)) (dof_int D 10000)"

definition fr_taker_rate_decimal :: "'d dec \<Rightarrow> fee_rates \<Rightarrow> ('e, 'd) outcome" where
  "fr_taker_rate_decimal D r = bps_decimal D (fr_taker_rate_bps r)"

definition fr_maker_rate_decimal :: "'d dec \<Rightarrow> fee_rates \<Rightarrow> ('e, 'd) outcome" where
  "fr_maker_rate_decimal D r = bps_decimal D (fr_maker_rate_bps r)"

section \<open>Volume tiers\<close>

record volume_discount =
  vd_threshold_usd :: u64
  vd_discount_pct :: u8

definition vd_new :: "u64 \<Rightarrow> u8 \<Rightarrow> volume_discount" where
  "vd_new t p = \<lparr> vd_threshold_usd = t, vd_discount_pct = p \<rparr>"

definition vd_discount_decimal :: "'d dec \<Rightarrow> volume_discount \<Rightarrow> ('e, 'd) outcome" where
  "vd_discount_decimal D d = dover D (dof_int D (uint (vd_discount_pct d))) (dof_int D 100)"

record fee_schedule =
  fs_rfq_rates :: fee_rates
  fs_block_rates :: fee_rates
  fs_volume_discounts :: "volume_discount list"

text \<open>\<open>sort_by_key\<close> on the threshold, which is stable.\<close>

definition tier_before :: "volume_discount \<Rightarrow> volume_discount \<Rightarrow> bool" where
  "tier_before a b \<longleftrightarrow> vd_threshold_usd a < vd_threshold_usd b"

definition fs_new :: "fee_rates \<Rightarrow> fee_rates \<Rightarrow> volume_discount list \<Rightarrow> fee_schedule" where
  "fs_new rfq block ds = \<lparr> fs_rfq_rates = rfq, fs_block_rates = block,
     fs_volume_discounts = sort_stable tier_before ds \<rparr>"

definition fs_default :: fee_schedule where
  "fs_default = fs_new (fr_new 3 (- 1)) (fr_symmetric 2)
     [vd_new 1000000 10, vd_new 10000000 25, vd_new 100000000 50]"

definition fs_rates_for :: "trade_type \<Rightarrow> fee_schedule \<Rightarrow> fee_rates" where
  "fs_rates_for t s = (case t of RfqTrade \<Rightarrow> fs_rfq_rates s | BlockTrade \<Rightarrow> fs_block_rates s)"

definition reaches :: "'d dec \<Rightarrow> 'd \<Rightarrow> volume_discount \<Rightarrow> bool" where
  "reaches D volume d \<longleftrightarrow> dle D (dof_int D (uint (vd_threshold_usd d))) volume"

definition fs_find_discount :: "'d dec \<Rightarrow> 'd \<Rightarrow> fee_schedule \<Rightarrow> volume_discount option" where
  "fs_find_discount D volume s = find (reaches D volume) (rev (fs_volume_discounts s))"

section \<open>The fee of a trade\<close>

record 'd fee_breakdown =
  fb_taker_fee :: 'd
  fb_maker_fee :: 'd
  fb_net_fee :: 'd
  fb_volume_discount_applied :: "u8 option"

definition fb_new :: "'d dec \<Rightarrow> 'd \<Rightarrow> 'd \<Rightarrow> u8 option \<Rightarrow> 'd domain_error + 'd fee_breakdown" where
  "fb_new D taker maker discount =
     rbind (ok_or (FeeCalculationFailed (Txt ''net fee calculation overflow'')) (dadd D taker maker)) (\<lambda>net.
       Inr \<lparr> fb_taker_fee = taker, fb_maker_fee = maker, fb_net_fee = net, fb_volume_discount_applied = discount \<rparr>)"

definition fb_zero :: "'d dec \<Rightarrow> 'd fee_breakdown" where
  "fb_zero D = \<lparr> fb_taker_fee = dzero D, fb_maker_fee = dzero D, fb_net_fee = dzero D,
     fb_volume_discount_applied = None \<rparr>"

record 'd fee_engine =
  fe_schedule :: fee_schedule
  fe_volume_provider :: "counterparty_id \<Rightarrow> 'd domain_error + 'd"
  fe_override_provider :: "(counterparty_id \<Rightarrow> 'd domain_error + fee_rates option) option"

definition noop_volume :: "'d dec \<Rightarrow> counterparty_id \<Rightarrow> 'd domain_error + 'd" where
  "noop_volume D c = Inr (dzero D)"

definition noop_override :: "counterparty_id \<Rightarrow> 'd domain_error + fee_rates option" where
  "noop_override c = Inr None"

definition fe_default_with_noop :: "'d dec \<Rightarrow> 'd fee_engine" where
  "fe_default_with_noop D = \<lparr> fe_schedule = fs_default, fe_volume_provider = noop_volume D,
     fe_override_provider = None \<rparr>"

definition checked_fee :: "'d dec \<Rightarrow> string \<Rightarrow> 'd \<Rightarrow> 'd \<Rightarrow> ('d domain_error, 'd) outcome" where
  "checked_fee D what a b = of_result (ok_or (FeeCalculationFailed (Txt (what @ '' overflow''))) (dmul D a b))"

definition compute_fees :: "'d dec \<Rightarrow> 'd \<Rightarrow> fee_rates \<Rightarrow> volume_discount option \<Rightarrow> ('d domain_error, 'd \<times> 'd) outcome" where
  "compute_fees D notional rates discount =
     obind (fr_taker_rate_decimal D rates) (\<lambda>taker_rate.
     obind (checked_fee D ''taker fee'' notional taker_rate) (\<lambda>base_taker.
     obind (fr_maker_rate_decimal D rates) (\<lambda>maker_rate.
     obind (checked_fee D ''maker fee'' notional maker_rate) (\<lambda>base_maker.
     case discount of
       None \<Rightarrow> Ret (base_taker, base_maker)
     | Some d \<Rightarrow>
         obind (vd_discount_decimal D d) (\<lambda>share.
         obind (dminus D (d_one D) share) (\<lambda>multiplier.
         obind (checked_fee D ''discounted taker fee'' base_taker multiplier) (\<lambda>taker.
         obind (checked_fee D ''discounted maker fee'' base_maker multiplier) (\<lambda>maker.
           Ret (taker, maker)))))))))"

definition fe_base_rates :: "'d fee_engine \<Rightarrow> trade_type \<Rightarrow> counterparty_id \<Rightarrow> 'd domain_error + fee_rates" where
  "fe_base_rates E t c = (case fe_override_provider E of
       Some get_override \<Rightarrow> rbind (get_override c) (\<lambda>found. case found of
           Some rates \<Rightarrow> Inr rates
         | None \<Rightarrow> Inr (fs_rates_for t (fe_schedule E)))
     | None \<Rightarrow> Inr (fs_rates_for t (fe_schedule E)))"

definition fe_calculate :: "'d dec \<Rightarrow> 'd fee_engine \<Rightarrow> trade_type \<Rightarrow> 'd \<Rightarrow> counterparty_id
    \<Rightarrow> ('d domain_error, 'd fee_breakdown) outcome" where
  "fe_calculate D E t notional c =
     (if dis_zero D notional then Ret (fb_zero D)
      else
        obind (of_result (fe_base_rates E t c)) (\<lambda>rates.
        obind (of_result (fe_volume_provider E c)) (\<lambda>volume.
          let discount = fs_find_discount D volume (fe_schedule E) in
          obind (compute_fees D notional rates discount) (\<lambda>(taker, maker).
            of_result (fb_new D taker maker (map_option vd_discount_pct discount))))))"

section \<open>\<open>PriceImprovement\<close>\<close>

datatype improvement_source = ClobMid | ClobBestBid | ClobBestAsk | LastTrade

definition is_all :: "improvement_source list" where
  "is_all = [ClobMid, ClobBestBid, ClobBestAsk, LastTrade]"

definition is_display :: "improvement_source \<Rightarrow> string" where
  "is_display s = (case s of ClobMid \<Rightarrow> ''CLOB_MID'' | ClobBestBid \<Rightarrow> ''CLOB_BEST_BID''
     | ClobBestAsk \<Rightarrow> ''CLOB_BEST_ASK'' | LastTrade \<Rightarrow> ''LAST_TRADE'')"

record 'd price_improvement =
  pi_quote_price :: "'d price"
  pi_reference_price :: "'d price"
  pi_source :: improvement_source
  pi_side :: order_side
  pi_improvement_bps :: 'd

definition pi_calculate :: "'d dec \<Rightarrow> 'd price \<Rightarrow> 'd price \<Rightarrow> improvement_source \<Rightarrow> order_side \<Rightarrow> 'd price_improvement option" where
  "pi_calculate D quote reference source side =
     (let ref_value = price_get reference; quote_value = price_get quote in
      if dis_zero D ref_value then None
      else
        Option.bind (case side of Buy \<Rightarrow> dsub D ref_value quote_value | Sell \<Rightarrow> dsub D quote_value ref_value) (\<lambda>diff.
        Option.bind (ddiv D diff ref_value) (\<lambda>ratio.
        Option.bind (dmul D ratio (dof_int D 10000)) (\<lambda>bps.
          Some \<lparr> pi_quote_price = quote, pi_reference_price = reference, pi_source = source, pi_side = side,
            pi_improvement_bps = bps \<rparr>))))"

definition pi_is_positive :: "'d dec \<Rightarrow> 'd price_improvement \<Rightarrow> bool" where
  "pi_is_positive D p \<longleftrightarrow> \<not> dneg_sign D (pi_improvement_bps p) \<and> \<not> dis_zero D (pi_improvement_bps p)"

definition pi_is_negative :: "'d dec \<Rightarrow> 'd price_improvement \<Rightarrow> bool" where
  "pi_is_negative D p \<longleftrightarrow> dneg_sign D (pi_improvement_bps p)"

definition pi_is_zero :: "'d dec \<Rightarrow> 'd price_improvement \<Rightarrow> bool" where
  "pi_is_zero D p \<longleftrightarrow> dis_zero D (pi_improvement_bps p)"

definition pi_as_percentage :: "'d dec \<Rightarrow> 'd price_improvement \<Rightarrow> ('e, 'd) outcome" where
  "pi_as_percentage D p = dover D (pi_improvement_bps p) (dof_int D 100)"

section \<open>The tier that applies\<close>

interpretation tiers: sorting_order "\<lambda>_. True" tier_before
  by unfold_locales (auto simp: tier_before_def)

lemma find_rev_sorted:
  assumes "sorted_wrt R xs" "find P (rev xs) = Some x"
  shows "P x \<and> x \<in> set xs \<and> (\<forall>y\<in>set xs. P y \<longrightarrow> y = x \<or> R y x)"
  using assms by (induction xs rule: rev_induct) (auto simp: sorted_wrt_append split: if_splits)

lemma find_discount_greatest:
  assumes "fs_find_discount D volume (fs_new rfq block ds) = Some d"
  shows "reaches D volume d \<and> d \<in> set ds \<and> (\<forall>e\<in>set ds. reaches D volume e \<longrightarrow> vd_threshold_usd e \<le> vd_threshold_usd d)"
  using find_rev_sorted [OF tiers.sorted_sort_stable [of ds], of "reaches D volume" d] assms
  by (auto simp: fs_find_discount_def fs_new_def tier_before_def not_less)

lemma find_discount_none:
  "fs_find_discount D volume (fs_new rfq block ds) = None \<longleftrightarrow> (\<forall>e\<in>set ds. \<not> reaches D volume e)"
  by (auto simp: fs_find_discount_def fs_new_def find_None_iff)

text \<open>The reference for the search: one pass over the tiers as they were given.\<close>

primrec best_tier :: "'d dec \<Rightarrow> 'd \<Rightarrow> volume_discount list \<Rightarrow> volume_discount option" where
  "best_tier D volume [] = None"
| "best_tier D volume (d # ds) = (case best_tier D volume ds of
     None \<Rightarrow> if reaches D volume d then Some d else None
   | Some e \<Rightarrow> if reaches D volume d \<and> vd_threshold_usd e < vd_threshold_usd d then Some d else Some e)"

lemma find_append: "find P (xs @ ys) = (case find P xs of None \<Rightarrow> find P ys | Some x \<Rightarrow> Some x)"
  by (induction xs) auto

lemma find_rev_insert_stable:
  assumes "sorted_wrt (\<lambda>a b. \<not> tier_before b a) xs"
  shows "find P (rev (insert_stable tier_before d xs)) = (case find P (rev xs) of
     None \<Rightarrow> if P d then Some d else None
   | Some e \<Rightarrow> if P d \<and> tier_before e d then Some d else Some e)"
  using assms
proof (induction xs)
  case (Cons x xs)
  show ?case
  proof (cases "tier_before x d")
    case True
    then show ?thesis using Cons by (auto simp: find_append split: option.splits)
  next
    case False
    have "\<not> tier_before e d" if "find P (rev (x # xs)) = Some e" for e
      using find_rev_sorted [OF Cons.prems that] Cons.prems False by (fastforce simp: tier_before_def)
    then show ?thesis using False by (auto simp: find_append split: option.splits)
  qed
qed simp

lemma fs_new_rates [simp]: "fs_rates_for t (fs_new rfq block ds) = (case t of RfqTrade \<Rightarrow> rfq | BlockTrade \<Rightarrow> block)"
  by (simp add: fs_rates_for_def fs_new_def split: trade_type.split)

text \<open>A fee as the schedule documents it: basis points of the notional, less the percentage of the tier.\<close>

definition fee_of :: "'d dec \<Rightarrow> 'd \<Rightarrow> i32 \<Rightarrow> u8 option \<Rightarrow> ('d domain_error, 'd) outcome" where
  "fee_of D notional bps pct =
     obind (bps_decimal D bps) (\<lambda>rate.
     obind (dtimes D notional rate) (\<lambda>base. case pct of
       None \<Rightarrow> Ret base
     | Some p \<Rightarrow> obind (dover D (dof_int D (uint p)) (dof_int D 100)) (\<lambda>share.
         obind (dminus D (d_one D) share) (dtimes D base))))"

lemma checked_fee_Ret [simp]: "checked_fee D w a b = Ret r \<longleftrightarrow> dmul D a b = Some r"
  by (cases "dmul D a b") (simp_all add: checked_fee_def)

lemma of_result_Ret [simp]: "of_result m = Ret a \<longleftrightarrow> m = Inr a"
  by (cases m) simp_all

lemma compute_fees_Ret:
  "compute_fees D notional rates discount = Ret (taker, maker) \<Longrightarrow>
    fee_of D notional (fr_taker_rate_bps rates) (map_option vd_discount_pct discount) = Ret taker
  \<and> fee_of D notional (fr_maker_rate_bps rates) (map_option vd_discount_pct discount) = Ret maker"
  by (cases discount) (auto simp: compute_fees_def fee_of_def fr_taker_rate_decimal_def fr_maker_rate_decimal_def
      bps_decimal_def dtimes_def dover_def dminus_def vd_discount_decimal_def)

lemma fe_calculate_Ret:
  assumes "fe_calculate D E t notional c = Ret b" "\<not> dis_zero D notional"
  obtains rates volume where "fe_base_rates E t c = Inr rates" "fe_volume_provider E c = Inr volume"
    "compute_fees D notional rates (fs_find_discount D volume (fe_schedule E)) = Ret (fb_taker_fee b, fb_maker_fee b)"
    "fb_volume_discount_applied b = map_option vd_discount_pct (fs_find_discount D volume (fe_schedule E))"
    "dadd D (fb_taker_fee b) (fb_maker_fee b) = Some (fb_net_fee b)"
  using assms by (auto simp: fe_calculate_def fb_new_def Let_def)

section \<open>Properties\<close>

text \<open>
  The fee of a trade follows the schedule: each side pays the basis points of its rate on
  the notional, the rates of the client's override or else those of the trade type, less the percentage of
  the highest volume tier the client reaches, in whatever order the tiers were given; the net fee is their sum, and a zero
  notional costs nothing.
\<close>

theorem fees_follow_schedule:
  assumes "fe_calculate D E t notional c = Ret b" "fe_schedule E = fs_new rfq block ds"
  shows "if dis_zero D notional then b = fb_zero D
    else dadd D (fb_taker_fee b) (fb_maker_fee b) = Some (fb_net_fee b)
      \<and> (\<exists>rates. fe_base_rates E t c = Inr rates
          \<and> (fe_override_provider E = None \<longrightarrow> rates = (case t of RfqTrade \<Rightarrow> rfq | BlockTrade \<Rightarrow> block))
          \<and> fee_of D notional (fr_taker_rate_bps rates) (fb_volume_discount_applied b) = Ret (fb_taker_fee b)
          \<and> fee_of D notional (fr_maker_rate_bps rates) (fb_volume_discount_applied b) = Ret (fb_maker_fee b))
      \<and> (\<exists>volume. fe_volume_provider E c = Inr volume
          \<and> (case fb_volume_discount_applied b of
              None \<Rightarrow> \<forall>d\<in>set ds. \<not> reaches D volume d
            | Some p \<Rightarrow> \<exists>d\<in>set ds. vd_discount_pct d = p \<and> reaches D volume d
                \<and> (\<forall>e\<in>set ds. reaches D volume e \<longrightarrow> vd_threshold_usd e \<le> vd_threshold_usd d)))"
proof (cases "dis_zero D notional")
  case True
  then show ?thesis using assms(1) by (simp add: fe_calculate_def)
next
  case False
  obtain rates volume where run: "fe_base_rates E t c = Inr rates" "fe_volume_provider E c = Inr volume"
    "compute_fees D notional rates (fs_find_discount D volume (fe_schedule E)) = Ret (fb_taker_fee b, fb_maker_fee b)"
    "fb_volume_discount_applied b = map_option vd_discount_pct (fs_find_discount D volume (fe_schedule E))"
    "dadd D (fb_taker_fee b) (fb_maker_fee b) = Some (fb_net_fee b)"
    by (rule fe_calculate_Ret [OF assms(1) False])
  have "fe_override_provider E = None \<longrightarrow> rates = (case t of RfqTrade \<Rightarrow> rfq | BlockTrade \<Rightarrow> block)"
    using run(1) by (auto simp: fe_base_rates_def assms(2))
  moreover have "case fb_volume_discount_applied b of
      None \<Rightarrow> \<forall>d\<in>set ds. \<not> reaches D volume d
    | Some p \<Rightarrow> \<exists>d\<in>set ds. vd_discount_pct d = p \<and> reaches D volume d
        \<and> (\<forall>e\<in>set ds. reaches D volume e \<longrightarrow> vd_threshold_usd e \<le> vd_threshold_usd d)"
    using find_discount_greatest [of D volume rfq block ds] find_discount_none [of D volume rfq block ds]
    by (cases "fs_find_discount D volume (fs_new rfq block ds)") (auto simp: run(4) assms(2))
  ultimately show ?thesis using False run compute_fees_Ret [OF run(3)] by auto
qed

definition sample_engine :: "int \<Rightarrow> u8 \<Rightarrow> int fee_engine" where
  "sample_engine volume pct = \<lparr> fe_schedule = fs_new (fr_new 20000 (- 10000)) (fr_symmetric 10000)
     [vd_new 1000 100, vd_new 500 pct], fe_volume_provider = (\<lambda>_. Inr volume), fe_override_provider = None \<rparr>"

lemma sample_fee: "fe_calculate whole_dec (sample_engine 700 100) RfqTrade 30 ''client''
    = Ret \<lparr> fb_taker_fee = 0, fb_maker_fee = 0, fb_net_fee = 0, fb_volume_discount_applied = Some 100 \<rparr>"
  by (simp add: fe_calculate_def sample_engine_def fe_base_rates_def fs_new_def fs_rates_for_def fs_find_discount_def
      sort_stable_def tier_before_def vd_new_def reaches_def compute_fees_def fr_taker_rate_decimal_def
      fr_maker_rate_decimal_def bps_decimal_def fr_new_def fr_symmetric_def dover_def whole_fit_def trunc_div_def
      checked_fee_def vd_discount_decimal_def dminus_def fb_new_def whole_dec_def)

lemma fees_follow_schedule_witness:
  "\<exists>d\<in>set [vd_new 1000 100, vd_new 500 100]. reaches whole_dec 700 d
    \<and> (\<forall>e\<in>set [vd_new 1000 100, vd_new 500 100]. reaches whole_dec 700 e \<longrightarrow> vd_threshold_usd e \<le> vd_threshold_usd d)"
  using fees_follow_schedule [OF sample_fee, of "fr_new 20000 (- 10000)" "fr_symmetric 10000" "[vd_new 1000 100, vd_new 500 100]"]
  by (auto simp: sample_engine_def)

text \<open>Documented of the decimals: the signs of products, quotients and differences.\<close>

definition dec_signed_ops :: "'d dec \<Rightarrow> bool" where
  "dec_signed_ops D \<longleftrightarrow>
     (\<forall>a b r. dle D (dzero D) a \<longrightarrow> dle D b (dzero D) \<longrightarrow> dmul D a b = Some r \<longrightarrow> dle D r (dzero D))
     \<and> (\<forall>a b r. dle D (dzero D) a \<longrightarrow> dle D (dzero D) b \<longrightarrow> dmul D a b = Some r \<longrightarrow> dle D (dzero D) r)
     \<and> (\<forall>m n r. 0 \<le> m \<longrightarrow> 0 < n \<longrightarrow> ddiv D (dof_int D m) (dof_int D n) = Some r \<longrightarrow> dle D (dzero D) r)
     \<and> (\<forall>m n r. 0 < n \<longrightarrow> n \<le> m \<longrightarrow> ddiv D (dof_int D m) (dof_int D n) = Some r \<longrightarrow> dle D (d_one D) r)
     \<and> (\<forall>a b r. dle D a b \<longrightarrow> dsub D a b = Some r \<longrightarrow> dle D r (dzero D))"

text \<open>
  C26. Sorting the tiers once and searching them from the top is the same as one pass over the
  tiers as they were given that keeps the highest one reached, and of equal ones the last.
\<close>

theorem discount_search_is_one_pass:
  "fs_find_discount D volume (fs_new rfq block ds) = best_tier D volume ds"
proof (induction ds)
  case (Cons d ds)
  show ?case
    using find_rev_insert_stable [OF tiers.sorted_sort_stable [of ds], of "reaches D volume" d] Cons
    by (simp add: fs_find_discount_def fs_new_def sort_stable_def tier_before_def cong: option.case_cong)
qed (simp add: fs_find_discount_def fs_new_def sort_stable_def)

text \<open>
  The percentage of a tier is not bounded: a client on a tier of 100 or more percent pays no taker
  fee at all, and beyond that is paid one, whatever positive rate the schedule has.
\<close>

theorem discount_over_hundred_pays_taker:
  assumes "fe_calculate D E t notional c = Ret b" "dec_signed_ops D"
    and "fe_base_rates E t c = Inr rates" "0 \<le> sint (fr_taker_rate_bps rates)" "dle D (dzero D) notional"
    and "fb_volume_discount_applied b = Some p" "100 \<le> p"
  shows "dle D (fb_taker_fee b) (dzero D)"
proof -
  have "\<not> dis_zero D notional" using assms(1,6) by (auto simp: fe_calculate_def fb_zero_def)
  obtain rates' volume where run: "fe_base_rates E t c = Inr rates'"
    "compute_fees D notional rates' (fs_find_discount D volume (fe_schedule E)) = Ret (fb_taker_fee b, fb_maker_fee b)"
    "fb_volume_discount_applied b = map_option vd_discount_pct (fs_find_discount D volume (fe_schedule E))"
    by (rule fe_calculate_Ret [OF assms(1) \<open>\<not> dis_zero D notional\<close>])
  have "fee_of D notional (fr_taker_rate_bps rates) (Some p) = Ret (fb_taker_fee b)"
    using compute_fees_Ret [OF run(2)] run(1,3) assms(3,6) by simp
  then obtain rate base share m where fee: "ddiv D (dof_int D (sint (fr_taker_rate_bps rates))) (dof_int D 10000) = Some rate"
      "dmul D notional rate = Some base" "ddiv D (dof_int D (uint p)) (dof_int D 100) = Some share"
      "dsub D (d_one D) share = Some m" "dmul D base m = Some (fb_taker_fee b)"
    by (auto simp: fee_of_def bps_decimal_def dover_def dtimes_def dminus_def)
  have "(100::int) \<le> uint p" using assms(7) by (simp add: word_le_def)
  then have "dle D (d_one D) share" "dle D (dzero D) rate"
    using fee(1,3) assms(2,4) unfolding dec_signed_ops_def by (metis zero_less_numeral)+
  moreover have "dle D m (dzero D)" "dle D (dzero D) base"
    using fee(2,4) calculation assms(2,5) unfolding dec_signed_ops_def by blast+
  ultimately show ?thesis using fee(5) assms(2) unfolding dec_signed_ops_def by blast
qed

lemma whole_signed_ops: "dec_signed_ops whole_dec"
  unfolding dec_signed_ops_def
  by (auto simp: whole_fit_def trunc_div_def whole_dec_def mult_nonneg_nonpos int_one_le_iff_zero_less
      pos_imp_zdiv_pos_iff pos_imp_zdiv_nonneg_iff sgn_if split: if_splits)

lemma discount_over_hundred_pays_taker_witness: "\<exists>b. fe_calculate whole_dec (sample_engine 700 200) RfqTrade 30 ''client'' = Ret b
    \<and> fb_taker_fee b \<le> 0"
proof -
  have run: "fe_calculate whole_dec (sample_engine 700 200) RfqTrade 30 ''client''
    = Ret \<lparr> fb_taker_fee = - 60, fb_maker_fee = 30, fb_net_fee = - 30, fb_volume_discount_applied = Some 200 \<rparr>"
    by (simp add: fe_calculate_def sample_engine_def fe_base_rates_def fs_new_def fs_rates_for_def fs_find_discount_def
      sort_stable_def tier_before_def vd_new_def reaches_def compute_fees_def fr_taker_rate_decimal_def
      fr_maker_rate_decimal_def bps_decimal_def fr_new_def fr_symmetric_def dover_def whole_fit_def trunc_div_def
      checked_fee_def vd_discount_decimal_def dminus_def fb_new_def whole_dec_def)
  show ?thesis
    using discount_over_hundred_pays_taker [OF run whole_signed_ops, of "fr_new 20000 (- 10000)" 200] run
    by (simp add: fe_base_rates_def sample_engine_def fs_new_def fs_rates_for_def fr_new_def)
qed

end
