(* ===== verification/Text_Functions.thy ===== *)
theory Text_Functions
  imports Errors
begin

text \<open>The functions of the standard library on strings that the components share.\<close>

text \<open>How the standard library prints a number, joins strings and looks for a substring.\<close>

fun nat_str :: "nat \<Rightarrow> string" where
  "nat_str n = (if n < 10 then [char_of (48 + n)] else nat_str (n div 10) @ [char_of (48 + n mod 10)])"

declare nat_str.simps [simp del]

fun join_with :: "string \<Rightarrow> string list \<Rightarrow> string" where
  "join_with s [] = []"
| "join_with s [x] = x"
| "join_with s (x # y # xs) = x @ s @ join_with s (y # xs)"

definition contains_str :: "string \<Rightarrow> string \<Rightarrow> bool" where
  "contains_str s p \<longleftrightarrow> list_ex (\<lambda>k. take (length p) (drop k s) = p) [0..<Suc (length s)]"

text \<open>\<open>split\<close> on a character: the pieces between its occurrences, at least one.\<close>

fun split_char :: "char \<Rightarrow> string \<Rightarrow> string list" where
  "split_char c [] = [[]]"
| "split_char c (x # xs) =
     (if x = c then [] # split_char c xs
      else case split_char c xs of p # ps \<Rightarrow> (x # p) # ps | [] \<Rightarrow> [[x]])"

definition starts_with :: "string \<Rightarrow> string \<Rightarrow> bool" where
  "starts_with p s \<longleftrightarrow> take (length p) s = p"

text \<open>Joining formatted messages.\<close>

definition msg_join :: "string \<Rightarrow> 'd msg list \<Rightarrow> 'd msg" where
  "msg_join s ms = Fmt (join_with s (replicate (length ms) ''{}'')) (map ArgMsg ms)"

lemma split_char_not_empty: "split_char c s \<noteq> []"
  by (induction s) (auto split: list.split)

lemma join_with_split: "join_with [c] (split_char c s) = s"
proof (induction c s rule: split_char.induct)
  case (2 c x xs)
  obtain p ps where "split_char c xs = p # ps"
    using split_char_not_empty [of c xs] by (cases "split_char c xs") auto
  then show ?case using 2 by (cases ps) auto
qed simp

end
