(* ===== verification/Counterparties.thy ===== *)
theory Counterparties
  imports Errors Instruments Exact_Decimals Text_Functions
begin

text \<open>
  \<open>src/domain/entities/counterparty.rs\<close> with \<open>src/domain/value_objects/notification_preferences.rs\<close>
  and the channels of \<open>confirmation.rs\<close>: who may trade, the trading limits of a day, wallets, and
  the checks on how a counterparty is notified.
\<close>

section \<open>Notification preferences\<close>

datatype confirmation_channel = WebSocketChannel | EmailChannel | ApiCallbackChannel | GrpcChannel

definition ch_all :: "confirmation_channel list" where
  "ch_all = [WebSocketChannel, EmailChannel, ApiCallbackChannel, GrpcChannel]"

definition ch_as_str :: "confirmation_channel \<Rightarrow> string" where
  "ch_as_str c = (case c of WebSocketChannel \<Rightarrow> ''WEBSOCKET'' | EmailChannel \<Rightarrow> ''EMAIL''
     | ApiCallbackChannel \<Rightarrow> ''API_CALLBACK'' | GrpcChannel \<Rightarrow> ''GRPC'')"

record notification_preferences =
  np_enabled_channels :: "confirmation_channel list"
  np_email_address :: "string option"
  np_webhook_url :: "string option"
  np_grpc_endpoint :: "string option"

definition np_error :: "string \<Rightarrow> 'd domain_error + 'a" where
  "np_error s = Inl (InvalidNotificationPreferences (Txt s))"

definition np_validate_email :: "string \<Rightarrow> 'd domain_error + unit" where
  "np_validate_email email =
     (if email = [] then np_error ''Email address cannot be empty''
      else if CHR ''@'' \<notin> set email then np_error ''Invalid email address format''
      else case split_char (CHR ''@'') email of
          [local_part, domain] \<Rightarrow>
            if local_part = [] \<or> domain = [] then np_error ''Invalid email address format''
            else if CHR ''.'' \<notin> set domain then np_error ''Invalid email domain''
            else Inr ()
        | _ \<Rightarrow> np_error ''Invalid email address format'')"

definition np_validate_url :: "string \<Rightarrow> 'd domain_error + unit" where
  "np_validate_url url =
     (if url = [] then np_error ''URL cannot be empty''
      else if \<not> starts_with ''http://'' url \<and> \<not> starts_with ''https://'' url
      then np_error ''URL must start with http:// or https://''
      else Inr ())"

definition np_validate_channel :: "notification_preferences \<Rightarrow> confirmation_channel \<Rightarrow> 'd domain_error + unit" where
  "np_validate_channel p c = (case c of
       EmailChannel \<Rightarrow> (case np_email_address p of
           Some email \<Rightarrow> np_validate_email email
         | None \<Rightarrow> np_error ''Email channel enabled but no email address provided'')
     | ApiCallbackChannel \<Rightarrow> (case np_webhook_url p of
           Some url \<Rightarrow> np_validate_url url
         | None \<Rightarrow> np_error ''ApiCallback channel enabled but no webhook URL provided'')
     | GrpcChannel \<Rightarrow> if np_grpc_endpoint p = None
         then np_error ''Grpc channel enabled but no gRPC endpoint provided'' else Inr ()
     | WebSocketChannel \<Rightarrow> Inr ())"

text \<open>A loop that stops at the first error.\<close>

fun check_each :: "('a \<Rightarrow> 'e + unit) \<Rightarrow> 'a list \<Rightarrow> 'e + unit" where
  "check_each f [] = Inr ()"
| "check_each f (x # xs) = rbind (f x) (\<lambda>_. check_each f xs)"

definition np_validate :: "notification_preferences \<Rightarrow> 'd domain_error + unit" where
  "np_validate p = check_each (np_validate_channel p) (np_enabled_channels p)"

definition np_new :: "confirmation_channel list \<Rightarrow> string option \<Rightarrow> string option \<Rightarrow> string option
    \<Rightarrow> 'd domain_error + notification_preferences" where
  "np_new cs email url endpoint =
     (let p = \<lparr> np_enabled_channels = cs, np_email_address = email, np_webhook_url = url, np_grpc_endpoint = endpoint \<rparr> in
      rbind (np_validate p) (\<lambda>_. Inr p))"

definition np_none :: notification_preferences where
  "np_none = \<lparr> np_enabled_channels = [], np_email_address = None, np_webhook_url = None, np_grpc_endpoint = None \<rparr>"

definition np_email_only :: "string \<Rightarrow> 'd domain_error + notification_preferences" where
  "np_email_only email = np_new [EmailChannel] (Some email) None None"

definition np_webhook_only :: "string \<Rightarrow> 'd domain_error + notification_preferences" where
  "np_webhook_only url = np_new [ApiCallbackChannel] None (Some url) None"

definition np_is_channel_enabled :: "confirmation_channel \<Rightarrow> notification_preferences \<Rightarrow> bool" where
  "np_is_channel_enabled c p \<longleftrightarrow> c \<in> set (np_enabled_channels p)"

definition np_has_any_enabled :: "notification_preferences \<Rightarrow> bool" where
  "np_has_any_enabled p \<longleftrightarrow> np_enabled_channels p \<noteq> []"

section \<open>Types and statuses\<close>

datatype counterparty_type = CtClient | CtMarketMaker | CtDex | CtInternal

definition ct_requires_kyc :: "counterparty_type \<Rightarrow> bool" where
  "ct_requires_kyc t \<longleftrightarrow> t = CtClient \<or> t = CtMarketMaker"

definition ct_as_u8 :: "counterparty_type \<Rightarrow> u8" where
  "ct_as_u8 t = (case t of CtClient \<Rightarrow> 0 | CtMarketMaker \<Rightarrow> 1 | CtDex \<Rightarrow> 2 | CtInternal \<Rightarrow> 3)"

definition ct_from_u8 :: "u8 \<Rightarrow> u8 + counterparty_type" where
  "ct_from_u8 v = (if v = 0 then Inr CtClient else if v = 1 then Inr CtMarketMaker
     else if v = 2 then Inr CtDex else if v = 3 then Inr CtInternal else Inl v)"

datatype kyc_status = KycNotStarted | KycPending | KycApproved | KycRejected

definition kyc_is_approved :: "kyc_status \<Rightarrow> bool" where
  "kyc_is_approved k \<longleftrightarrow> k = KycApproved"

definition kyc_as_u8 :: "kyc_status \<Rightarrow> u8" where
  "kyc_as_u8 k = (case k of KycNotStarted \<Rightarrow> 0 | KycPending \<Rightarrow> 1 | KycApproved \<Rightarrow> 2 | KycRejected \<Rightarrow> 3)"

definition kyc_from_u8 :: "u8 \<Rightarrow> u8 + kyc_status" where
  "kyc_from_u8 v = (if v = 0 then Inr KycNotStarted else if v = 1 then Inr KycPending
     else if v = 2 then Inr KycApproved else if v = 3 then Inr KycRejected else Inl v)"

lemma ct_from_as_u8 [simp]: "ct_from_u8 (ct_as_u8 t) = Inr t"
  by (cases t) (simp_all add: ct_as_u8_def ct_from_u8_def)

lemma kyc_from_as_u8 [simp]: "kyc_from_u8 (kyc_as_u8 k) = Inr k"
  by (cases k) (simp_all add: kyc_as_u8_def kyc_from_u8_def)

section \<open>Limits\<close>

record 'd counterparty_limits =
  cl_max_trade_amount :: "'d price"
  cl_daily_limit :: "'d price"
  cl_daily_used :: "'d price"

definition cl_new :: "'d dec \<Rightarrow> 'd price \<Rightarrow> 'd price \<Rightarrow> 'd counterparty_limits" where
  "cl_new D max_trade daily = \<lparr> cl_max_trade_amount = max_trade, cl_daily_limit = daily, cl_daily_used = price_zero D \<rparr>"

definition cl_unlimited :: "'d dec \<Rightarrow> 'd counterparty_limits" where
  "cl_unlimited D =
     (let m = (case price_from_decimal D (dof_int D 1000000000000) of Inr p \<Rightarrow> p | Inl _ \<Rightarrow> price_zero D) in
      cl_new D m m)"

definition cl_daily_remaining :: "'d dec \<Rightarrow> 'd counterparty_limits \<Rightarrow> 'd price" where
  "cl_daily_remaining D l =
     (case price_safe_sub D (cl_daily_limit l) (cl_daily_used l) of Inr p \<Rightarrow> p | Inl _ \<Rightarrow> price_zero D)"

definition cl_check_trade_amount :: "'d dec \<Rightarrow> 'd counterparty_limits \<Rightarrow> 'd price \<Rightarrow> bool" where
  "cl_check_trade_amount D l a = price_le D a (cl_max_trade_amount l)"

definition cl_check_daily_limit :: "'d dec \<Rightarrow> 'd counterparty_limits \<Rightarrow> 'd price \<Rightarrow> bool" where
  "cl_check_daily_limit D l a = price_le D a (cl_daily_remaining D l)"

definition cl_check_limits :: "'d dec \<Rightarrow> 'd counterparty_limits \<Rightarrow> 'd price \<Rightarrow> bool" where
  "cl_check_limits D l a \<longleftrightarrow> cl_check_trade_amount D l a \<and> cl_check_daily_limit D l a"

definition cl_record_trade :: "'d dec \<Rightarrow> 'd price \<Rightarrow> 'd counterparty_limits \<Rightarrow> 'd counterparty_limits" where
  "cl_record_trade D a l = l\<lparr> cl_daily_used :=
     (case price_safe_add D (cl_daily_used l) a of Inr p \<Rightarrow> p | Inl _ \<Rightarrow> cl_daily_limit l) \<rparr>"

definition cl_reset_daily :: "'d dec \<Rightarrow> 'd counterparty_limits \<Rightarrow> 'd counterparty_limits" where
  "cl_reset_daily D l = l\<lparr> cl_daily_used := price_zero D \<rparr>"

section \<open>Wallets\<close>

record wallet_address =
  wa_chain :: blockchain
  wa_address :: string
  wa_label :: "string option"
  wa_is_primary :: bool

definition wa_new :: "blockchain \<Rightarrow> string \<Rightarrow> wallet_address" where
  "wa_new c a = \<lparr> wa_chain = c, wa_address = a, wa_label = None, wa_is_primary = False \<rparr>"

definition wa_primary :: "blockchain \<Rightarrow> string \<Rightarrow> wallet_address" where
  "wa_primary c a = \<lparr> wa_chain = c, wa_address = a, wa_label = None, wa_is_primary = True \<rparr>"

definition wa_with_label :: "blockchain \<Rightarrow> string \<Rightarrow> string \<Rightarrow> wallet_address" where
  "wa_with_label c a l = \<lparr> wa_chain = c, wa_address = a, wa_label = Some l, wa_is_primary = False \<rparr>"

definition wa_set_primary :: "bool \<Rightarrow> wallet_address \<Rightarrow> wallet_address" where
  "wa_set_primary b w = w\<lparr> wa_is_primary := b \<rparr>"

definition wa_set_label :: "string \<Rightarrow> wallet_address \<Rightarrow> wallet_address" where
  "wa_set_label l w = w\<lparr> wa_label := Some l \<rparr>"

definition wa_at :: "blockchain \<Rightarrow> string \<Rightarrow> wallet_address \<Rightarrow> bool" where
  "wa_at c a w \<longleftrightarrow> wa_chain w = c \<and> wa_address w = a"

section \<open>\<open>Counterparty\<close>\<close>

record 'd counterparty =
  cp_id :: counterparty_id
  cp_name :: string
  cp_type :: counterparty_type
  cp_kyc_status :: kyc_status
  cp_limits :: "'d counterparty_limits"
  cp_wallet_addresses :: "wallet_address list"
  cp_notification_preferences :: notification_preferences
  cp_active :: bool
  cp_created_at :: timestamp
  cp_updated_at :: timestamp

definition cp_new :: "'d dec \<Rightarrow> timestamp \<Rightarrow> counterparty_id \<Rightarrow> string \<Rightarrow> counterparty_type \<Rightarrow> 'd counterparty" where
  "cp_new D now i n t = \<lparr> cp_id = i, cp_name = n, cp_type = t, cp_kyc_status = KycNotStarted,
     cp_limits = cl_unlimited D, cp_wallet_addresses = [], cp_notification_preferences = np_none, cp_active = True,
     cp_created_at = now, cp_updated_at = now \<rparr>"

definition cp_can_trade :: "'d counterparty \<Rightarrow> bool" where
  "cp_can_trade c =
     (if \<not> cp_active c then False
      else if ct_requires_kyc (cp_type c) then kyc_is_approved (cp_kyc_status c) else True)"

definition cp_primary_wallet :: "blockchain \<Rightarrow> 'd counterparty \<Rightarrow> wallet_address option" where
  "cp_primary_wallet ch c =
     (case find (\<lambda>w. wa_chain w = ch \<and> wa_is_primary w) (cp_wallet_addresses c) of
        Some w \<Rightarrow> Some w
      | None \<Rightarrow> find (\<lambda>w. wa_chain w = ch) (cp_wallet_addresses c))"

definition cp_with_limits :: "timestamp \<Rightarrow> ('d counterparty_limits \<Rightarrow> 'd counterparty_limits) \<Rightarrow> 'd counterparty \<Rightarrow> 'd counterparty" where
  "cp_with_limits now f c = c\<lparr> cp_updated_at := now, cp_limits := f (cp_limits c) \<rparr>"

definition cp_set_notification_preferences :: "timestamp \<Rightarrow> notification_preferences \<Rightarrow> 'd counterparty \<Rightarrow> 'd counterparty" where
  "cp_set_notification_preferences now p c = c\<lparr> cp_notification_preferences := p, cp_updated_at := now \<rparr>"

definition cp_set_name :: "timestamp \<Rightarrow> string \<Rightarrow> 'd counterparty \<Rightarrow> 'd counterparty" where
  "cp_set_name now n c = c\<lparr> cp_name := n, cp_updated_at := now \<rparr>"

definition cp_set_kyc_status :: "timestamp \<Rightarrow> kyc_status \<Rightarrow> 'd counterparty \<Rightarrow> 'd counterparty" where
  "cp_set_kyc_status now k c = c\<lparr> cp_kyc_status := k, cp_updated_at := now \<rparr>"

definition cp_set_active :: "timestamp \<Rightarrow> bool \<Rightarrow> 'd counterparty \<Rightarrow> 'd counterparty" where
  "cp_set_active now b c = c\<lparr> cp_active := b, cp_updated_at := now \<rparr>"

definition cp_add_wallet :: "timestamp \<Rightarrow> wallet_address \<Rightarrow> 'd counterparty \<Rightarrow> 'd counterparty" where
  "cp_add_wallet now w c =
     (if \<exists>v\<in>set (cp_wallet_addresses c). wa_at (wa_chain w) (wa_address w) v then c
      else c\<lparr> cp_wallet_addresses := cp_wallet_addresses c @ [w], cp_updated_at := now \<rparr>)"

fun remove_first :: "('a \<Rightarrow> bool) \<Rightarrow> 'a list \<Rightarrow> 'a list" where
  "remove_first P [] = []"
| "remove_first P (x # xs) = (if P x then xs else x # remove_first P xs)"

definition cp_remove_wallet :: "timestamp \<Rightarrow> blockchain \<Rightarrow> string \<Rightarrow> 'd counterparty \<Rightarrow> 'd counterparty" where
  "cp_remove_wallet now ch a c =
     (if \<exists>v\<in>set (cp_wallet_addresses c). wa_at ch a v
      then c\<lparr> cp_wallet_addresses := remove_first (wa_at ch a) (cp_wallet_addresses c), cp_updated_at := now \<rparr>
      else c)"

definition cp_clear_wallets :: "timestamp \<Rightarrow> 'd counterparty \<Rightarrow> 'd counterparty" where
  "cp_clear_wallets now c =
     (if cp_wallet_addresses c \<noteq> [] then c\<lparr> cp_wallet_addresses := [], cp_updated_at := now \<rparr> else c)"

section \<open>Histories\<close>

datatype 'd cp_call =
    TryTrade timestamp "'d price" | ResetDaily timestamp
  | SetName timestamp string | SetKyc timestamp kyc_status | SetActive timestamp bool
  | SetPreferences timestamp notification_preferences
  | AddWallet timestamp wallet_address | RemoveWallet timestamp blockchain string | ClearWallets timestamp

text \<open>A trade is recorded when the limits allow it.\<close>

fun cp_apply :: "'d dec \<Rightarrow> 'd cp_call \<Rightarrow> 'd counterparty \<Rightarrow> 'd counterparty" where
  "cp_apply D (TryTrade now a) c =
     (if cl_check_limits D (cp_limits c) a then cp_with_limits now (cl_record_trade D a) c else c)"
| "cp_apply D (ResetDaily now) c = cp_with_limits now (cl_reset_daily D) c"
| "cp_apply D (SetName now n) c = cp_set_name now n c"
| "cp_apply D (SetKyc now k) c = cp_set_kyc_status now k c"
| "cp_apply D (SetActive now b) c = cp_set_active now b c"
| "cp_apply D (SetPreferences now p) c = cp_set_notification_preferences now p c"
| "cp_apply D (AddWallet now w) c = cp_add_wallet now w c"
| "cp_apply D (RemoveWallet now ch a) c = cp_remove_wallet now ch a c"
| "cp_apply D (ClearWallets now) c = cp_clear_wallets now c"

text \<open>What was spent since the last reset, on the trades the limits allowed.\<close>

definition limits_inv :: "'d dec \<Rightarrow> 'd set \<Rightarrow> ('d \<Rightarrow> rat) \<Rightarrow> 'd counterparty \<Rightarrow> bool" where
  "limits_inv D S val c \<longleftrightarrow> price_get (cl_daily_limit (cp_limits c)) \<in> S \<and> price_get (cl_daily_used (cp_limits c)) \<in> S
     \<and> 0 \<le> val (price_get (cl_daily_used (cp_limits c)))
     \<and> val (price_get (cl_daily_used (cp_limits c))) \<le> val (price_get (cl_daily_limit (cp_limits c)))"

definition wallets_inv :: "'d counterparty \<Rightarrow> bool" where
  "wallets_inv c \<longleftrightarrow> distinct (map (\<lambda>w. (wa_chain w, wa_address w)) (cp_wallet_addresses c))"

lemma remove_first_subset: "set (remove_first P xs) \<subseteq> set xs"
  by (induction xs) auto

lemma distinct_map_remove_first: "distinct (map f xs) \<Longrightarrow> distinct (map f (remove_first P xs))"
  by (induction xs) (use remove_first_subset in fastforce)+

lemma wallets_inv_step: "wallets_inv c \<Longrightarrow> wallets_inv (cp_apply D call c)"
  by (cases call) (auto simp: wallets_inv_def cp_with_limits_def cp_set_name_def cp_set_kyc_status_def cp_set_active_def
      cp_set_notification_preferences_def cp_add_wallet_def cp_remove_wallet_def cp_clear_wallets_def wa_at_def
      distinct_map_remove_first)

lemma remaining_bound:
  assumes "dec_exact_on D S val" "limits_inv D S val c"
  shows "val (price_get (cl_daily_remaining D (cp_limits c)))
    \<le> val (price_get (cl_daily_limit (cp_limits c))) - val (price_get (cl_daily_used (cp_limits c)))"
  using assms(2) exact_price_sub [OF assms(1), of "cl_daily_limit (cp_limits c)" "cl_daily_used (cp_limits c)"]
  by (auto simp: cl_daily_remaining_def limits_inv_def price_zero_def exact_laws(2) [OF assms(1)] split: sum.split)

lemma limits_inv_step:
  assumes "dec_exact_on D S val" "limits_inv D S val c"
    and "\<forall>now a. call = TryTrade now a \<longrightarrow> price_get a \<in> S \<and> 0 \<le> val (price_get a)"
  shows "limits_inv D S val (cp_apply D call c)"
proof (cases call)
  case (TryTrade now a)
  let ?l = "cp_limits c"
  show ?thesis
  proof (cases "cl_check_limits D ?l a \<and> (\<exists>p. price_safe_add D (cl_daily_used ?l) a = Inr p)")
    case True
    then obtain p where p: "price_safe_add D (cl_daily_used ?l) a = Inr p" by blast
    have "price_get p \<in> S" "val (price_get p) = val (price_get (cl_daily_used ?l)) + val (price_get a)"
      using exact_add [OF assms(1) p] assms(2,3) TryTrade by (auto simp: limits_inv_def)
    moreover have "val (price_get a) \<le> val (price_get (cl_daily_remaining D ?l))"
      using True exact_laws(1) [OF assms(1)] by (auto simp: cl_check_limits_def cl_check_daily_limit_def price_le_def)
    ultimately show ?thesis using assms(2,3) TryTrade True p remaining_bound [OF assms(1,2)]
      by (auto simp: limits_inv_def cp_with_limits_def cl_record_trade_def)
  next
    case False
    then show ?thesis using assms(2) TryTrade
      by (auto simp: limits_inv_def cp_with_limits_def cl_record_trade_def split: sum.split)
  qed
next
  case ResetDaily
  then show ?thesis using assms(2) exact_laws(2) [OF assms(1)] exact_zero_in [OF assms(1)]
    by (auto simp: limits_inv_def cp_with_limits_def cl_reset_daily_def price_zero_def)
qed (use assms(2) in \<open>auto simp: limits_inv_def cp_set_name_def cp_set_kyc_status_def cp_set_active_def
      cp_set_notification_preferences_def cp_add_wallet_def cp_remove_wallet_def cp_clear_wallets_def\<close>)

section \<open>Properties\<close>

text \<open>
  Over any history of calls a counterparty never trades beyond its daily limit: when amounts
  are whole numbers of a unit, what was recorded since the last reset stays between zero and
  the limit, as long as trades are recorded only when the limits allow them; and no two of its
  wallets have the same chain and address.
\<close>

theorem counterparty_history_keeps_limits:
  assumes "dec_exact_on D S val" "limits_inv D S val c" "wallets_inv c"
    and "\<forall>now a. TryTrade now a \<in> set calls \<longrightarrow> price_get a \<in> S \<and> 0 \<le> val (price_get a)"
  shows "limits_inv D S val (fold (cp_apply D) calls c) \<and> wallets_inv (fold (cp_apply D) calls c)"
  using assms(2-)
proof (induction calls arbitrary: c)
  case (Cons call calls)
  have "limits_inv D S val (cp_apply D call c)"
    using limits_inv_step [OF assms(1) Cons.prems(1)] Cons.prems(3) by simp
  then show ?case using Cons.IH wallets_inv_step [OF Cons.prems(2)] Cons.prems(3) by simp
qed simp

definition sample_counterparty :: "int counterparty" where
  "sample_counterparty = cp_with_limits 100 (\<lambda>_. cl_new whole_dec (Price 50) (Price 80))
     (cp_new whole_dec 100 ''client'' ''Client'' CtClient)"

lemma counterparty_history_keeps_limits_witness:
  "limits_inv whole_dec UNIV of_int (fold (cp_apply whole_dec)
     [TryTrade 101 (Price 50), TryTrade 102 (Price 40), AddWallet 103 (wa_new Ethereum ''0x1''),
      AddWallet 104 (wa_primary Ethereum ''0x1'')] sample_counterparty)"
  using counterparty_history_keeps_limits [OF whole_dec_exact, of sample_counterparty
      "[TryTrade 101 (Price 50), TryTrade 102 (Price 40), AddWallet 103 (wa_new Ethereum ''0x1''),
      AddWallet 104 (wa_primary Ethereum ''0x1'')]"]
  by (auto simp: sample_counterparty_def limits_inv_def wallets_inv_def cp_with_limits_def cl_new_def cp_new_def price_zero_def)

end
