(* ===== verification/Compliance.thy ===== *)
theory Compliance
  imports Intake Text_Functions
begin

text \<open>
  \<open>src/application/services/compliance.rs\<close>, the compliance gate of a new RFQ over providers for
  KYC, AML, sanctions and limits, and the verdicts of \<open>src/domain/value_objects/compliance.rs\<close>.
  The providers are calls on a state \<open>'x\<close> of the world.
\<close>

section \<open>Verdicts of the providers\<close>

datatype kyc_verdict = KvVerified | KvPending | KvExpired | KvFailed | KvNotSubmitted

definition kv_allows_trading :: "kyc_verdict \<Rightarrow> bool" where
  "kv_allows_trading k \<longleftrightarrow> k = KvVerified"

record aml_result =
  am_passed :: bool
  am_risk_score :: u8
  am_alert :: "string option"

definition aml_passed :: "u8 \<Rightarrow> aml_result" where
  "aml_passed s = \<lparr> am_passed = True, am_risk_score = s, am_alert = None \<rparr>"

definition aml_failed :: "u8 \<Rightarrow> string \<Rightarrow> aml_result" where
  "aml_failed s a = \<lparr> am_passed = False, am_risk_score = s, am_alert = Some a \<rparr>"

record sanctions_result =
  sx_passed :: bool
  sx_matched_lists :: "string list"

definition sanctions_passed :: sanctions_result where
  "sanctions_passed = \<lparr> sx_passed = True, sx_matched_lists = [] \<rparr>"

definition sanctions_failed :: "string list \<Rightarrow> sanctions_result" where
  "sanctions_failed ls = \<lparr> sx_passed = False, sx_matched_lists = ls \<rparr>"

record 'd limits_result =
  lm_passed :: bool
  lm_daily_volume_used :: 'd
  lm_daily_volume_limit :: 'd
  lm_per_trade_limit :: 'd
  lm_exceeded_limits :: "string list"

definition limits_passed :: "'d \<Rightarrow> 'd \<Rightarrow> 'd \<Rightarrow> 'd limits_result" where
  "limits_passed u l p = \<lparr> lm_passed = True, lm_daily_volume_used = u, lm_daily_volume_limit = l,
     lm_per_trade_limit = p, lm_exceeded_limits = [] \<rparr>"

definition limits_failed :: "'d \<Rightarrow> 'd \<Rightarrow> 'd \<Rightarrow> string list \<Rightarrow> 'd limits_result" where
  "limits_failed u l p ls = \<lparr> lm_passed = False, lm_daily_volume_used = u, lm_daily_volume_limit = l,
     lm_per_trade_limit = p, lm_exceeded_limits = ls \<rparr>"

section \<open>Flags\<close>

datatype compliance_severity = SevInfo | SevWarning | SevBlocking

datatype compliance_flag_type = KycNotVerifiedFlag | KycExpiredFlag | KycPendingFlag | AmlAlertFlag | AmlHighRiskFlag
  | SanctionsHitFlag | DailyLimitExceededFlag | PerTradeLimitExceededFlag | InstrumentNotAllowedFlag

record compliance_flag =
  cf_flag_type :: compliance_flag_type
  cf_severity :: compliance_severity
  cf_message :: string

definition cf_new :: "compliance_flag_type \<Rightarrow> compliance_severity \<Rightarrow> string \<Rightarrow> compliance_flag" where
  "cf_new t s m = \<lparr> cf_flag_type = t, cf_severity = s, cf_message = m \<rparr>"

definition cf_blocking :: "compliance_flag_type \<Rightarrow> string \<Rightarrow> compliance_flag" where
  "cf_blocking t m = cf_new t SevBlocking m"

definition cf_warning :: "compliance_flag_type \<Rightarrow> string \<Rightarrow> compliance_flag" where
  "cf_warning t m = cf_new t SevWarning m"

definition cf_info :: "compliance_flag_type \<Rightarrow> string \<Rightarrow> compliance_flag" where
  "cf_info t m = cf_new t SevInfo m"

definition cf_is_blocking :: "compliance_flag \<Rightarrow> bool" where
  "cf_is_blocking f \<longleftrightarrow> cf_severity f = SevBlocking"

record 'd compliance_check_result =
  cc_passed :: bool
  cc_kyc_status :: kyc_verdict
  cc_aml_result :: aml_result
  cc_sanctions_result :: sanctions_result
  cc_limits_result :: "'d limits_result"
  cc_flags :: "compliance_flag list"

definition cc_blocking_flags :: "'d compliance_check_result \<Rightarrow> compliance_flag list" where
  "cc_blocking_flags r = filter cf_is_blocking (cc_flags r)"

definition cc_has_blocking_flags :: "'d compliance_check_result \<Rightarrow> bool" where
  "cc_has_blocking_flags r \<longleftrightarrow> (\<exists>f\<in>set (cc_flags r). cf_is_blocking f)"

definition cc_to_domain_result :: "timestamp \<Rightarrow> 'd compliance_check_result \<Rightarrow> compliance_result" where
  "cc_to_domain_result now r =
     (if cc_passed r then compliance_passed now
      else compliance_failed now (case cc_blocking_flags r of
          f # _ \<Rightarrow> cf_message f | [] \<Rightarrow> ''compliance check failed''))"

section \<open>The service\<close>

record compliance_config =
  cg_aml_warning_threshold :: u8
  cg_aml_blocking_threshold :: u8

definition cg_default :: compliance_config where
  "cg_default = \<lparr> cg_aml_warning_threshold = 50, cg_aml_blocking_threshold = 80 \<rparr>"

record ('x, 'd) compliance_env =
  co_check_kyc_status :: "counterparty_id \<Rightarrow> ('x, 'd application_error, kyc_verdict) op"
  co_screen_transaction :: "counterparty_id \<Rightarrow> 'd \<Rightarrow> ('x, 'd application_error, aml_result) op"
  co_check_sanctions :: "counterparty_id \<Rightarrow> ('x, 'd application_error, sanctions_result) op"
  co_check_limits :: "counterparty_id \<Rightarrow> 'd \<Rightarrow> ('x, 'd application_error, 'd limits_result) op"

definition evaluate_kyc_status :: "kyc_verdict \<Rightarrow> compliance_flag list" where
  "evaluate_kyc_status k = (case k of
       KvVerified \<Rightarrow> []
     | KvPending \<Rightarrow> [cf_blocking KycPendingFlag ''KYC verification is pending'']
     | KvExpired \<Rightarrow> [cf_blocking KycExpiredFlag ''KYC verification has expired'']
     | KvFailed \<Rightarrow> [cf_blocking KycNotVerifiedFlag ''KYC verification not completed'']
     | KvNotSubmitted \<Rightarrow> [cf_blocking KycNotVerifiedFlag ''KYC verification not completed''])"

definition evaluate_aml_result :: "compliance_config \<Rightarrow> aml_result \<Rightarrow> compliance_flag list" where
  "evaluate_aml_result c r =
     (if \<not> am_passed r
      then [cf_blocking AmlAlertFlag (case am_alert r of Some a \<Rightarrow> a | None \<Rightarrow> ''AML screening failed'')]
      else if cg_aml_blocking_threshold c \<le> am_risk_score r
      then [cf_blocking AmlHighRiskFlag (''AML risk score '' @ nat_str (unat (am_risk_score r)) @ '' exceeds threshold'')]
      else if cg_aml_warning_threshold c \<le> am_risk_score r
      then [cf_warning AmlHighRiskFlag (''Elevated AML risk score: '' @ nat_str (unat (am_risk_score r)))]
      else [])"

definition evaluate_sanctions_result :: "sanctions_result \<Rightarrow> compliance_flag list" where
  "evaluate_sanctions_result r =
     (if \<not> sx_passed r
      then [cf_blocking SanctionsHitFlag (''Sanctions list match: '' @ join_with '', '' (sx_matched_lists r))] else [])"

definition evaluate_limits_result :: "'d limits_result \<Rightarrow> compliance_flag list" where
  "evaluate_limits_result r = map (\<lambda>l. cf_blocking
     (if contains_str l ''daily'' then DailyLimitExceededFlag else PerTradeLimitExceededFlag) l) (lm_exceeded_limits r)"

definition compliance_check :: "('x, 'd) compliance_env \<Rightarrow> compliance_config \<Rightarrow> counterparty_id \<Rightarrow> 'd
    \<Rightarrow> ('x, 'd application_error, 'd compliance_check_result) op" where
  "compliance_check E c client amount =
     op_then (co_check_kyc_status E client) (\<lambda>kyc.
     op_then (co_screen_transaction E client amount) (\<lambda>aml.
     op_then (co_check_sanctions E client) (\<lambda>sanctions.
     op_then (co_check_limits E client amount) (\<lambda>limits.
       let flags = evaluate_kyc_status kyc @ evaluate_aml_result c aml
             @ evaluate_sanctions_result sanctions @ evaluate_limits_result limits in
       op_ret \<lparr> cc_passed = \<not> (\<exists>f\<in>set flags. cf_is_blocking f), cc_kyc_status = kyc, cc_aml_result = aml,
         cc_sanctions_result = sanctions, cc_limits_result = limits, cc_flags = flags \<rparr>))))"

text \<open>The text of an error and of a failed conversion are the arguments \<open>display\<close> and \<open>no_decimal\<close>.\<close>

definition pre_check :: "('x, 'd) compliance_env \<Rightarrow> compliance_config \<Rightarrow> ('f, 'd) float_ops \<Rightarrow> ('f \<Rightarrow> 'd msg)
    \<Rightarrow> ('d application_error \<Rightarrow> 'd msg) \<Rightarrow> timestamp \<Rightarrow> counterparty_id \<Rightarrow> string \<Rightarrow> string \<Rightarrow> 'f
    \<Rightarrow> ('x, 'd msg, compliance_result) op" where
  "pre_check E c F no_decimal display now client base quoted quantity =
     op_then (lift_result (ok_or (no_decimal quantity) (fl_to_decimal F quantity))) (\<lambda>amount.
     op_then (map_err display (compliance_check E c client amount)) (\<lambda>r.
       op_ret (cc_to_domain_result now r)))"

section \<open>Recorded verdicts (\<open>value_objects/compliance.rs\<close>)\<close>

datatype 'd regulatory_flag =
    HighNotional "'d price" "'d price"
  | LargeTradeNotification
  | SuspiciousPattern string
  | CounterpartyWatchlist string
  | CounterpartyBlacklist string
  | ManualReviewRequired string

definition rg_is_blocking :: "'d regulatory_flag \<Rightarrow> bool" where
  "rg_is_blocking f \<longleftrightarrow> (case f of CounterpartyBlacklist _ \<Rightarrow> True | ManualReviewRequired _ \<Rightarrow> True | _ \<Rightarrow> False)"

definition rg_is_informational :: "'d regulatory_flag \<Rightarrow> bool" where
  "rg_is_informational f \<longleftrightarrow> \<not> rg_is_blocking f"

definition rg_flag_type :: "'d regulatory_flag \<Rightarrow> string" where
  "rg_flag_type f = (case f of
       HighNotional _ _ \<Rightarrow> ''HIGH_NOTIONAL'' | LargeTradeNotification \<Rightarrow> ''LARGE_TRADE_NOTIFICATION''
     | SuspiciousPattern _ \<Rightarrow> ''SUSPICIOUS_PATTERN'' | CounterpartyWatchlist _ \<Rightarrow> ''COUNTERPARTY_WATCHLIST''
     | CounterpartyBlacklist _ \<Rightarrow> ''COUNTERPARTY_BLACKLIST'' | ManualReviewRequired _ \<Rightarrow> ''MANUAL_REVIEW_REQUIRED'')"

record 'd compliance_check_results =
  cs_kyc_passed :: bool
  cs_aml_passed :: bool
  cs_limits_checked :: bool
  cs_sanctions_passed :: bool
  cs_regulatory_flags :: "'d regulatory_flag list"
  cs_checked_at :: timestamp

definition cs_all_checks_passed :: "timestamp \<Rightarrow> 'd compliance_check_results" where
  "cs_all_checks_passed now = \<lparr> cs_kyc_passed = True, cs_aml_passed = True, cs_limits_checked = True,
     cs_sanctions_passed = True, cs_regulatory_flags = [], cs_checked_at = now \<rparr>"

definition cs_has_blocking_flags :: "'d compliance_check_results \<Rightarrow> bool" where
  "cs_has_blocking_flags r \<longleftrightarrow> (\<exists>f\<in>set (cs_regulatory_flags r). rg_is_blocking f)"

definition cs_all_passed :: "'d compliance_check_results \<Rightarrow> bool" where
  "cs_all_passed r \<longleftrightarrow> cs_kyc_passed r \<and> cs_aml_passed r \<and> cs_limits_checked r \<and> cs_sanctions_passed r
     \<and> \<not> cs_has_blocking_flags r"

definition cs_has_flags :: "'d compliance_check_results \<Rightarrow> bool" where
  "cs_has_flags r \<longleftrightarrow> cs_regulatory_flags r \<noteq> []"

definition cs_blocking_flags :: "'d compliance_check_results \<Rightarrow> 'd regulatory_flag list" where
  "cs_blocking_flags r = filter rg_is_blocking (cs_regulatory_flags r)"

definition cs_informational_flags :: "'d compliance_check_results \<Rightarrow> 'd regulatory_flag list" where
  "cs_informational_flags r = filter rg_is_informational (cs_regulatory_flags r)"

record 'd compliance_check_results_builder =
  cb_kyc_passed :: bool
  cb_aml_passed :: bool
  cb_limits_checked :: bool
  cb_sanctions_passed :: bool
  cb_regulatory_flags :: "'d regulatory_flag list"

definition csb_new :: "'d compliance_check_results_builder" where
  "csb_new = \<lparr> cb_kyc_passed = False, cb_aml_passed = False, cb_limits_checked = False, cb_sanctions_passed = False,
     cb_regulatory_flags = [] \<rparr>"

definition csb_add_flag :: "'d regulatory_flag \<Rightarrow> 'd compliance_check_results_builder \<Rightarrow> 'd compliance_check_results_builder" where
  "csb_add_flag f b = b\<lparr> cb_regulatory_flags := cb_regulatory_flags b @ [f] \<rparr>"

definition csb_build :: "timestamp \<Rightarrow> 'd compliance_check_results_builder \<Rightarrow> 'd compliance_check_results" where
  "csb_build now b = \<lparr> cs_kyc_passed = cb_kyc_passed b, cs_aml_passed = cb_aml_passed b,
     cs_limits_checked = cb_limits_checked b, cs_sanctions_passed = cb_sanctions_passed b,
     cs_regulatory_flags = cb_regulatory_flags b, cs_checked_at = now \<rparr>"

lemma fresh_builder_blocks: "\<not> cs_all_passed (csb_build now csb_new)"
  by (simp add: cs_all_passed_def csb_build_def csb_new_def)

section \<open>What passes the gate\<close>

definition verdict_clear :: "compliance_config \<Rightarrow> 'd compliance_check_result \<Rightarrow> bool" where
  "verdict_clear c r \<longleftrightarrow> cc_kyc_status r = KvVerified
     \<and> am_passed (cc_aml_result r) \<and> am_risk_score (cc_aml_result r) < cg_aml_blocking_threshold c
     \<and> sx_passed (cc_sanctions_result r) \<and> lm_exceeded_limits (cc_limits_result r) = []"

lemma blocking_simps [simp]:
  "cf_is_blocking (cf_blocking t m)" "\<not> cf_is_blocking (cf_warning t m)" "\<not> cf_is_blocking (cf_info t m)"
  by (simp_all add: cf_is_blocking_def cf_blocking_def cf_warning_def cf_info_def cf_new_def)

lemma kyc_flags: "(\<exists>f\<in>set (evaluate_kyc_status k). cf_is_blocking f) \<longleftrightarrow> k \<noteq> KvVerified"
  by (cases k) (simp_all add: evaluate_kyc_status_def)

lemma aml_flags: "(\<exists>f\<in>set (evaluate_aml_result c r). cf_is_blocking f)
    \<longleftrightarrow> \<not> (am_passed r \<and> am_risk_score r < cg_aml_blocking_threshold c)"
  by (auto simp: evaluate_aml_result_def not_le)

lemma sanctions_flags: "(\<exists>f\<in>set (evaluate_sanctions_result r). cf_is_blocking f) \<longleftrightarrow> \<not> sx_passed r"
  by (simp add: evaluate_sanctions_result_def)

lemma limits_flags: "(\<exists>f\<in>set (evaluate_limits_result r). cf_is_blocking f) \<longleftrightarrow> lm_exceeded_limits r \<noteq> []"
  by (cases "lm_exceeded_limits r") (auto simp: evaluate_limits_result_def)

text \<open>What the providers were asked and answered, in order.\<close>

definition providers_said :: "('x, 'd) compliance_env \<Rightarrow> counterparty_id \<Rightarrow> 'd \<Rightarrow> 'd compliance_check_result \<Rightarrow> 'x \<Rightarrow> 'x \<Rightarrow> bool" where
  "providers_said E client amount r x x' \<longleftrightarrow> (\<exists>x1 x2 x3. co_check_kyc_status E client x = (Inr (cc_kyc_status r), x1)
     \<and> co_screen_transaction E client amount x1 = (Inr (cc_aml_result r), x2)
     \<and> co_check_sanctions E client x2 = (Inr (cc_sanctions_result r), x3)
     \<and> co_check_limits E client amount x3 = (Inr (cc_limits_result r), x'))"

lemma compliance_check_Inr:
  assumes "compliance_check E c client amount x = (Inr r, x')"
  shows "providers_said E client amount r x x' \<and> (cc_passed r \<longleftrightarrow> verdict_clear c r)
    \<and> (cc_passed r \<longleftrightarrow> \<not> cc_has_blocking_flags r)"
proof -
  obtain kyc aml sanctions limits x1 x2 x3 where run: "co_check_kyc_status E client x = (Inr kyc, x1)"
      "co_screen_transaction E client amount x1 = (Inr aml, x2)"
      "co_check_sanctions E client x2 = (Inr sanctions, x3)" "co_check_limits E client amount x3 = (Inr limits, x')"
      and r: "r = (let flags = evaluate_kyc_status kyc @ evaluate_aml_result c aml
             @ evaluate_sanctions_result sanctions @ evaluate_limits_result limits in
        \<lparr> cc_passed = \<not> (\<exists>f\<in>set flags. cf_is_blocking f), cc_kyc_status = kyc, cc_aml_result = aml,
         cc_sanctions_result = sanctions, cc_limits_result = limits, cc_flags = flags \<rparr>)"
    using assms by (auto simp: compliance_check_def op_then_Inr_iff Let_def)
  have "cc_passed r \<longleftrightarrow> verdict_clear c r"
    using kyc_flags [of kyc] aml_flags [of c aml] sanctions_flags [of sanctions] limits_flags [of limits]
    by (simp add: r Let_def verdict_clear_def ball_Un) blast
  then show ?thesis using run by (auto simp: providers_said_def r Let_def cc_has_blocking_flags_def)
qed

lemma compliance_gate_lemma:
  assumes "pre_check E c F no_decimal display now client base quoted quantity x = (Inr result, x')"
  shows "\<exists>amount r. fl_to_decimal F quantity = Some amount \<and> providers_said E client amount r x x'
    \<and> (cr_passed result \<longleftrightarrow> verdict_clear c r) \<and> (cr_reason result = None \<longleftrightarrow> cr_passed result)"
proof -
  obtain amount r where run: "fl_to_decimal F quantity = Some amount" "compliance_check E c client amount x = (Inr r, x')"
      "result = cc_to_domain_result now r"
    using assms by (auto simp: pre_check_def op_then_Inr_iff)
  then show ?thesis using compliance_check_Inr [OF run(2)]
    by (auto simp: cc_to_domain_result_def compliance_passed_def compliance_failed_def)
qed

section \<open>Properties\<close>

text \<open>
  The gate passes a client exactly when KYC is verified, the AML screening passed with a
  score below the blocking threshold, sanctions passed and no limit is listed as exceeded: it asks
  all four providers, in order, about this client and amount, and it does not look at the
  limits provider's own verdict. A refusal carries a reason.
\<close>

theorem compliance_gate:
  assumes "pre_check E c F no_decimal display now client base quoted quantity x = (Inr result, x')"
  shows "\<exists>amount r. fl_to_decimal F quantity = Some amount \<and> providers_said E client amount r x x'
    \<and> (cr_passed result \<longleftrightarrow> verdict_clear c r) \<and> (cr_reason result = None \<longleftrightarrow> cr_passed result)"
  by (rule compliance_gate_lemma [OF assms])

text \<open>A world of providers that answer the same to everyone, and one whole-number conversion.\<close>

definition saying :: "kyc_verdict \<Rightarrow> aml_result \<Rightarrow> sanctions_result \<Rightarrow> int limits_result \<Rightarrow> (unit, int) compliance_env" where
  "saying k a s l = \<lparr> co_check_kyc_status = (\<lambda>_. op_ret k), co_screen_transaction = (\<lambda>_ _. op_ret a),
     co_check_sanctions = (\<lambda>_. op_ret s), co_check_limits = (\<lambda>_ _. op_ret l) \<rparr>"

definition whole_floats :: "(int, int) float_ops" where
  "whole_floats = \<lparr> fl_not_positive = (\<lambda>n. n \<le> 0), fl_to_decimal = Some \<rparr>"

lemma compliance_gate_witness:
  "\<exists>amount r. providers_said (saying KvVerified (aml_passed 10) sanctions_passed
      \<lparr> lm_passed = False, lm_daily_volume_used = 5, lm_daily_volume_limit = 3, lm_per_trade_limit = 3, lm_exceeded_limits = [] \<rparr>)
      ''client'' amount r () () \<and> verdict_clear cg_default r"
proof -
  let ?E = "saying KvVerified (aml_passed 10) sanctions_passed
      \<lparr> lm_passed = False, lm_daily_volume_used = 5, lm_daily_volume_limit = 3, lm_per_trade_limit = 3, lm_exceeded_limits = [] \<rparr>"
  have "pre_check ?E cg_default whole_floats (\<lambda>_. Txt []) (\<lambda>_. Txt []) 100 ''client'' ''BTC'' ''USD'' 9 ()
      = (Inr (compliance_passed 100), ())"
    by (simp add: pre_check_def compliance_check_def saying_def whole_floats_def op_then_def op_ret_def lift_result_def
        map_err_def Let_def evaluate_kyc_status_def evaluate_aml_result_def evaluate_sanctions_result_def
        evaluate_limits_result_def aml_passed_def sanctions_passed_def cg_default_def cc_to_domain_result_def)
  from compliance_gate [OF this] show ?thesis by (auto simp: compliance_passed_def)
qed

text \<open>
  C9. No RFQ without compliance: when creating an RFQ behind this gate succeeds, the four providers had been asked, in order,
  about the client and the quantity of this very RFQ, and before it was saved they had answered that KYC is verified, that the AML screening passed
  with a score below the blocking threshold, that sanctions passed, and with a report on limits in which no exceeded limit is listed.
  (The flag of that report is not read: a provider that says the limits failed without listing one does not stop the RFQ.)
\<close>

theorem created_rfq_passed_compliance:
  assumes "create_rfq D F (E\<lparr> ce_pre_check := pre_check K c F no_decimal display now \<rparr>) i q x = (Inr response, x')"
  shows "\<exists>amount r x1 x2 y1 y2 rfq. fl_to_decimal F (crq_quantity q) = Some amount
    \<and> providers_said K (crq_client_id q) amount r x1 x2 \<and> verdict_clear c r
    \<and> rfq_client_id rfq = crq_client_id q \<and> rfq_quantity rfq = Quantity amount
    \<and> ce_save_rfq E rfq x2 = (Inr y1, y2) \<and> rfq_id rfq = crr_rfq_id response"
proof -
  let ?E = "E\<lparr> ce_pre_check := pre_check K c F no_decimal display now \<rparr>"
  obtain compliance rfq x1 x2 y1 y2 where run:
      "ce_pre_check ?E (crq_client_id q) (crq_base_asset q) (crq_quote_asset q) (crq_quantity q) x1 = (Inr compliance, x2)"
      "cr_passed compliance" "created_for D F q i rfq" "ce_save_rfq ?E rfq x2 = (Inr y1, y2)" "rfq_id rfq = crr_rfq_id response"
    using assms unfolding create_rfq_def file_rfq_def guard_or_def
    by (auto simp: op_then_Inr_iff split: if_splits prod.splits dest!: try_build_created)
  then obtain amount r where "fl_to_decimal F (crq_quantity q) = Some amount"
      "providers_said K (crq_client_id q) amount r x1 x2" "verdict_clear c r"
    using compliance_gate_lemma [of K c F no_decimal display now "crq_client_id q" "crq_base_asset q" "crq_quote_asset q"
        "crq_quantity q" x1 compliance x2] by auto
  moreover from run(3) this(1) have "rfq_client_id rfq = crq_client_id q" "rfq_quantity rfq = Quantity amount"
    by (auto simp: created_for_def)
  ultimately show ?thesis using run(4,5) by - (intro exI conjI, assumption+, simp)
qed

definition clear_world :: "(unit, int) compliance_env" where
  "clear_world = saying KvVerified (aml_passed 10) sanctions_passed
     \<lparr> lm_passed = True, lm_daily_volume_used = 0, lm_daily_volume_limit = 3, lm_per_trade_limit = 3, lm_exceeded_limits = [] \<rparr>"

lemma clear_world_passes:
  "pre_check clear_world cg_default whole_floats (\<lambda>_. Txt []) (\<lambda>_. Txt []) 100 client base quoted n x
    = (Inr (compliance_passed 100), x)"
  by (simp add: clear_world_def pre_check_def compliance_check_def saying_def whole_floats_def op_then_def op_ret_def
      lift_result_def map_err_def Let_def evaluate_kyc_status_def evaluate_aml_result_def evaluate_sanctions_result_def
      evaluate_limits_result_def aml_passed_def sanctions_passed_def cg_default_def cc_to_domain_result_def)

lemma created_rfq_passed_compliance_witness:
  "\<exists>amount r. providers_said clear_world (crq_client_id sample_request) amount r () () \<and> verdict_clear cg_default r"
proof -
  have "symbol_new ''A/B'' = Inr \<lparr> sym_value = ''A/B'', sym_separator_index = 1 \<rparr>"
    by code_simp
  then obtain resp where "create_rfq whole_dec whole_floats (sample_create_env\<lparr> ce_pre_check :=
        pre_check clear_world cg_default whole_floats (\<lambda>_. Txt []) (\<lambda>_. Txt []) 100 \<rparr>)
      sample_create_inputs sample_request () = (Inr resp, ())"
    by (simp add: create_rfq_def sample_create_env_def op_then_def map_err_def
        lift_result_def op_ret_def guard_or_def file_rfq_def crq_validate_def sample_request_def
        whole_floats_def crq_to_domain_types_def quantity_of_float_def quantity_from_decimal_def
        rb_try_build_def rb_new_def rb_with_anonymity_level_def rfq_validate_quantity_def
        rfq_validate_expiry_def quantity_is_positive_def ts_is_expired_def ts_add_secs_def
        sample_create_inputs_def clear_world_passes [unfolded whole_floats_def] compliance_passed_def)
  from created_rfq_passed_compliance [OF this] show ?thesis by auto
qed

end
