(* ===== verification/Block_Trades.thy ===== *)
theory Block_Trades
  imports Counterparties Float64
begin

text \<open>
  Block trades agreed off the book: the aggregate of \<open>src/domain/entities/block_trade.rs\<close> with the
  events of \<open>block_trade_events.rs\<close>, thresholds and reporting tiers of
  \<open>src/domain/services/block_trade.rs\<close>, the validator of \<open>block_trade_service.rs\<close> and the in-memory
  repository.
\<close>

section \<open>States\<close>

datatype block_trade_state = BtSubmitted | BtValidating | BtApproved | BtRejected | BtExecuting | BtExecuted | BtFailed

definition bts_is_terminal :: "block_trade_state \<Rightarrow> bool" where
  "bts_is_terminal s \<longleftrightarrow> s = BtExecuted \<or> s = BtFailed \<or> s = BtRejected"

fun bts_can_transition_to :: "block_trade_state \<Rightarrow> block_trade_state \<Rightarrow> bool" where
  "bts_can_transition_to BtSubmitted BtValidating = True"
| "bts_can_transition_to BtValidating BtApproved = True"
| "bts_can_transition_to BtValidating BtRejected = True"
| "bts_can_transition_to BtApproved BtExecuting = True"
| "bts_can_transition_to BtApproved BtRejected = True"
| "bts_can_transition_to BtExecuting BtExecuted = True"
| "bts_can_transition_to BtExecuting BtFailed = True"
| "bts_can_transition_to _ _ = False"

definition bts_as_u8 :: "block_trade_state \<Rightarrow> u8" where
  "bts_as_u8 s = (case s of BtSubmitted \<Rightarrow> 0 | BtValidating \<Rightarrow> 1 | BtApproved \<Rightarrow> 2 | BtRejected \<Rightarrow> 3
     | BtExecuting \<Rightarrow> 4 | BtExecuted \<Rightarrow> 5 | BtFailed \<Rightarrow> 6)"

definition bts_from_u8 :: "u8 \<Rightarrow> u8 + block_trade_state" where
  "bts_from_u8 v = (if v = 0 then Inr BtSubmitted else if v = 1 then Inr BtValidating else if v = 2 then Inr BtApproved
     else if v = 3 then Inr BtRejected else if v = 4 then Inr BtExecuting else if v = 5 then Inr BtExecuted
     else if v = 6 then Inr BtFailed else Inl v)"

definition bts_display :: "block_trade_state \<Rightarrow> string" where
  "bts_display s = (case s of BtSubmitted \<Rightarrow> ''SUBMITTED'' | BtValidating \<Rightarrow> ''VALIDATING'' | BtApproved \<Rightarrow> ''APPROVED''
     | BtRejected \<Rightarrow> ''REJECTED'' | BtExecuting \<Rightarrow> ''EXECUTING'' | BtExecuted \<Rightarrow> ''EXECUTED'' | BtFailed \<Rightarrow> ''FAILED'')"

lemma bts_from_as_u8 [simp]: "bts_from_u8 (bts_as_u8 s) = Inr s"
  by (cases s) (simp_all add: bts_as_u8_def bts_from_u8_def)

section \<open>Thresholds and reporting tiers\<close>

datatype reporting_tier = StandardTier | LargeTier | VeryLargeTier

definition tier_delay_minutes :: "reporting_tier \<Rightarrow> u32" where
  "tier_delay_minutes t = (case t of StandardTier \<Rightarrow> 15 | LargeTier \<Rightarrow> 60 | VeryLargeTier \<Rightarrow> 1440)"

record tier_multipliers =
  tm_large :: f64
  tm_very_large :: f64

datatype tier_multiplier_error = TmNotFinite | TmNotPositive | TmLargeTooSmall | TmInvalidOrdering

definition tm_new :: "f64 \<Rightarrow> f64 \<Rightarrow> tier_multiplier_error + tier_multipliers" where
  "tm_new large very_large =
     (if \<not> f_finite large \<or> \<not> f_finite very_large then Inl TmNotFinite
      else if f_le large (lit 0) \<or> f_le very_large (lit 0) then Inl TmNotPositive
      else if f_lt large (lit 1) then Inl TmLargeTooSmall
      else if f_le very_large large then Inl TmInvalidOrdering
      else Inr \<lparr> tm_large = large, tm_very_large = very_large \<rparr>)"

definition tm_default :: tier_multipliers where
  "tm_default = \<lparr> tm_large = lit 5, tm_very_large = lit 10 \<rparr>"

record 'd block_trade_config =
  bc_thresholds :: "string \<rightharpoonup> 'd quantity"
  bc_default_threshold :: "'d quantity option"
  bc_tier_multipliers :: tier_multipliers

text \<open>\<open>Decimal::new\<close> may panic; a threshold that is no quantity is only logged.\<close>

definition bc_insert :: "'d dec \<Rightarrow> string \<Rightarrow> 'd \<Rightarrow> (string \<rightharpoonup> 'd quantity) \<Rightarrow> (string \<rightharpoonup> 'd quantity)" where
  "bc_insert D name v m = (case quantity_from_decimal D v of Inr q \<Rightarrow> m(name \<mapsto> q) | Inl _ \<Rightarrow> m)"

definition bc_default :: "'d dec \<Rightarrow> ('e, 'd block_trade_config) outcome" where
  "bc_default D = obind (or_panic (dnew D 25 0)) (\<lambda>btc. obind (or_panic (dnew D 250 0)) (\<lambda>eth.
     Ret \<lparr> bc_thresholds = bc_insert D ''ETH'' eth (bc_insert D ''BTC'' btc Map.empty), bc_default_threshold = None,
       bc_tier_multipliers = tm_default \<rparr>))"

definition bc_get_threshold :: "'d instrument \<Rightarrow> 'd block_trade_config \<Rightarrow> 'd quantity option" where
  "bc_get_threshold ins c = (case bc_thresholds c (base_asset (ins_symbol ins)) of
       Some t \<Rightarrow> Some t | None \<Rightarrow> bc_default_threshold c)"

definition bc_qualifies :: "'d dec \<Rightarrow> 'd instrument \<Rightarrow> 'd quantity \<Rightarrow> 'd block_trade_config \<Rightarrow> bool" where
  "bc_qualifies D ins q c = (case bc_get_threshold ins c of
       Some t \<Rightarrow> dle D (quantity_get t) (quantity_get q) | None \<Rightarrow> False)"

text \<open>\<open>conv\<close> is \<open>Decimal::try_from\<close> on an \<open>f64\<close>.\<close>

definition bc_determine_tier :: "'d dec \<Rightarrow> (f64 \<Rightarrow> 'd option) \<Rightarrow> 'd instrument \<Rightarrow> 'd quantity \<Rightarrow> 'd block_trade_config
    \<Rightarrow> reporting_tier option" where
  "bc_determine_tier D conv ins q c =
     Option.bind (bc_get_threshold ins c) (\<lambda>t.
       if dlt D (quantity_get q) (quantity_get t) then None
       else
         Option.bind (conv (tm_large (bc_tier_multipliers c))) (\<lambda>l.
         Option.bind (dmul D (quantity_get t) l) (\<lambda>large.
         Option.bind (conv (tm_very_large (bc_tier_multipliers c))) (\<lambda>v.
         Option.bind (dmul D (quantity_get t) v) (\<lambda>very_large.
           Some (if dle D very_large (quantity_get q) then VeryLargeTier
             else if dle D large (quantity_get q) then LargeTier else StandardTier))))))"

section \<open>Validation results and events\<close>

record 'd block_trade_validation =
  bv_buyer_eligible :: bool
  bv_seller_eligible :: bool
  bv_collateral_sufficient :: bool
  bv_instrument_valid :: bool
  bv_price_valid :: bool
  bv_size_qualifies :: bool
  bv_failure_reasons :: "'d msg list"

definition bv_passed :: "'d block_trade_validation" where
  "bv_passed = \<lparr> bv_buyer_eligible = True, bv_seller_eligible = True, bv_collateral_sufficient = True,
     bv_instrument_valid = True, bv_price_valid = True, bv_size_qualifies = True, bv_failure_reasons = [] \<rparr>"

definition bv_failed :: "'d msg list \<Rightarrow> 'd block_trade_validation" where
  "bv_failed reasons = \<lparr> bv_buyer_eligible = False, bv_seller_eligible = False, bv_collateral_sufficient = False,
     bv_instrument_valid = False, bv_price_valid = False, bv_size_qualifies = False, bv_failure_reasons = reasons \<rparr>"

definition bv_is_valid :: "'d block_trade_validation \<Rightarrow> bool" where
  "bv_is_valid v \<longleftrightarrow> bv_buyer_eligible v \<and> bv_seller_eligible v \<and> bv_collateral_sufficient v \<and> bv_instrument_valid v
     \<and> bv_price_valid v \<and> bv_size_qualifies v"

datatype block_trade_role = BuyerRole | SellerRole

text \<open>The events without their identifier and time stamp.\<close>

datatype 'd block_trade_event =
    BeSubmitted uuid counterparty_id counterparty_id "'d instrument" "'d price" "'d quantity" timestamp
  | BeValidated uuid bool "'d block_trade_validation" "reporting_tier option"
  | BeConfirmed uuid counterparty_id block_trade_role bool
  | BeApproved uuid reporting_tier
  | BeRejected uuid "'d msg" block_trade_state
  | BeExecuted uuid "'d price" "'d quantity" reporting_tier
  | BeFailed uuid "'d msg"

section \<open>The aggregate\<close>

record 'd block_trade =
  bt_id :: uuid
  bt_buyer_id :: counterparty_id
  bt_seller_id :: counterparty_id
  bt_instrument :: "'d instrument"
  bt_price :: "'d price"
  bt_quantity :: "'d quantity"
  bt_state :: block_trade_state
  bt_reporting_tier :: "reporting_tier option"
  bt_buyer_confirmed :: bool
  bt_seller_confirmed :: bool
  bt_validation_result :: "'d block_trade_validation option"
  bt_agreed_at :: timestamp
  bt_created_at :: timestamp
  bt_updated_at :: timestamp
  bt_rejection_reason :: "'d msg option"
  bt_pending_events :: "'d block_trade_event list"

text \<open>\<open>clone\<close> drops the pending events.\<close>

definition bt_clone :: "'d block_trade \<Rightarrow> 'd block_trade" where
  "bt_clone t = t\<lparr> bt_pending_events := [] \<rparr>"

definition bt_new :: "timestamp \<Rightarrow> uuid \<Rightarrow> counterparty_id \<Rightarrow> counterparty_id \<Rightarrow> 'd instrument \<Rightarrow> 'd price \<Rightarrow> 'd quantity
    \<Rightarrow> timestamp \<Rightarrow> ('e, 'd block_trade) outcome" where
  "bt_new now fresh buyer seller ins p q agreed_at =
     (if now < agreed_at then Panic
      else Ret \<lparr> bt_id = fresh, bt_buyer_id = buyer, bt_seller_id = seller, bt_instrument = ins, bt_price = p,
        bt_quantity = q, bt_state = BtSubmitted, bt_reporting_tier = None, bt_buyer_confirmed = False,
        bt_seller_confirmed = False, bt_validation_result = None, bt_agreed_at = agreed_at, bt_created_at = now,
        bt_updated_at = now, bt_rejection_reason = None,
        bt_pending_events = [BeSubmitted fresh buyer seller ins p q agreed_at] \<rparr>)"

definition bt_is_fully_confirmed :: "'d block_trade \<Rightarrow> bool" where
  "bt_is_fully_confirmed t \<longleftrightarrow> bt_buyer_confirmed t \<and> bt_seller_confirmed t"

definition bt_take_events :: "'d block_trade \<Rightarrow> 'd block_trade_event list \<times> 'd block_trade" where
  "bt_take_events t = (bt_pending_events t, t\<lparr> bt_pending_events := [] \<rparr>)"

definition bt_add_event :: "'d block_trade_event \<Rightarrow> 'd block_trade \<Rightarrow> 'd block_trade" where
  "bt_add_event e t = t\<lparr> bt_pending_events := bt_pending_events t @ [e] \<rparr>"

definition bt_transition_to :: "timestamp \<Rightarrow> block_trade_state \<Rightarrow> ('d block_trade, 'd) mutation" where
  "bt_transition_to now target t =
     (if \<not> bts_can_transition_to (bt_state t) target
      then (Inl (GenericStateTransitionError (Txt (bts_display (bt_state t))) (Txt (bts_display target))), t)
      else (Inr (), t\<lparr> bt_state := target, bt_updated_at := now \<rparr>))"

text \<open>A call that must succeed, and then an event.\<close>

definition and_event :: "('d block_trade, 'd) mutation \<Rightarrow> ('d block_trade \<Rightarrow> 'd block_trade) \<Rightarrow> ('d block_trade, 'd) mutation" where
  "and_event m f = op_then m (\<lambda>_ t. (Inr (), f t))"

definition bt_start_validation :: "timestamp \<Rightarrow> ('d block_trade, 'd) mutation" where
  "bt_start_validation now = bt_transition_to now BtValidating"

definition bt_record_validation :: "timestamp \<Rightarrow> 'd block_trade_validation \<Rightarrow> reporting_tier option \<Rightarrow> ('d block_trade, 'd) mutation" where
  "bt_record_validation now result tier t =
     (if bt_state t \<noteq> BtValidating
      then (Inl (OperationNotAllowed (Fmt ''Cannot record validation when in state {} (expected Validating)''
             [ArgStr (bts_display (bt_state t))])), t)
      else
        let t = t\<lparr> bt_reporting_tier := tier \<rparr> in
        if \<not> bv_is_valid result
        then let reason = msg_join ''; '' (bv_failure_reasons result) in
          and_event (bt_transition_to now BtRejected) (\<lambda>t. bt_add_event (BeRejected (bt_id t) reason BtValidating) t)
            (t\<lparr> bt_rejection_reason := Some reason, bt_validation_result := Some result \<rparr>)
        else (Inr (), bt_add_event (BeValidated (bt_id t) (bv_is_valid result) result tier)
               (t\<lparr> bt_validation_result := Some result \<rparr>)))"

definition bt_confirm :: "timestamp \<Rightarrow> timestamp \<Rightarrow> counterparty_id \<Rightarrow> ('d block_trade, 'd) mutation" where
  "bt_confirm now now_state c t =
     (if bt_state t \<noteq> BtValidating
      then (Inl (OperationNotAllowed (Fmt ''Cannot confirm trade when in state {} (expected Validating)''
             [ArgStr (bts_display (bt_state t))])), t)
      else case bt_validation_result t of
          None \<Rightarrow> (Inl (ValidationFailed (Txt ''Cannot confirm before validation is complete'')), t)
        | Some v \<Rightarrow>
            if \<not> bv_is_valid v then (Inl (ValidationFailed (Txt ''Cannot confirm a trade that failed validation'')), t)
            else if c \<noteq> bt_buyer_id t \<and> c \<noteq> bt_seller_id t then (Inl (UnauthorizedCounterparty (Txt c)), t)
            else
              let (role, t) = (if c = bt_buyer_id t then (BuyerRole, t\<lparr> bt_buyer_confirmed := True \<rparr>)
                     else (SellerRole, t\<lparr> bt_seller_confirmed := True \<rparr>));
                  t = bt_add_event (BeConfirmed (bt_id t) c role (bt_is_fully_confirmed t)) (t\<lparr> bt_updated_at := now \<rparr>) in
              if bt_is_fully_confirmed t
              then and_event (bt_transition_to now_state BtApproved) (\<lambda>t. case bt_reporting_tier t of
                  Some tier \<Rightarrow> bt_add_event (BeApproved (bt_id t) tier) t | None \<Rightarrow> t) t
              else (Inr (), t))"

definition bt_start_execution :: "timestamp \<Rightarrow> ('d block_trade, 'd) mutation" where
  "bt_start_execution now = bt_transition_to now BtExecuting"

definition bt_mark_executed :: "timestamp \<Rightarrow> ('d block_trade, 'd) mutation" where
  "bt_mark_executed now = and_event (bt_transition_to now BtExecuted) (\<lambda>t. case bt_reporting_tier t of
       Some tier \<Rightarrow> bt_add_event (BeExecuted (bt_id t) (bt_price t) (bt_quantity t) tier) t | None \<Rightarrow> t)"

definition bt_mark_failed :: "timestamp \<Rightarrow> 'd msg \<Rightarrow> ('d block_trade, 'd) mutation" where
  "bt_mark_failed now reason t =
     and_event (bt_transition_to now BtFailed) (\<lambda>t. bt_add_event (BeFailed (bt_id t) reason) t)
       (t\<lparr> bt_rejection_reason := Some reason \<rparr>)"

definition bt_reject :: "timestamp \<Rightarrow> 'd msg \<Rightarrow> ('d block_trade, 'd) mutation" where
  "bt_reject now reason t =
     and_event (bt_transition_to now BtRejected) (\<lambda>t'. bt_add_event (BeRejected (bt_id t') reason (bt_state t)) t')
       (t\<lparr> bt_rejection_reason := Some reason \<rparr>)"

section \<open>The validator\<close>

datatype 'd block_trade_validation_failure =
    BuyerNotEligible "'d msg" | SellerNotEligible "'d msg" | BuyerInsufficientCollateral | SellerInsufficientCollateral
  | InstrumentNotTradeable "'d msg" | BtPriceOutOfBounds "'d price" "'d price" | SizeNotQualified "'d quantity" "'d quantity"

definition bvf_display :: "'d block_trade_validation_failure \<Rightarrow> 'd msg" where
  "bvf_display f = (case f of
       BuyerNotEligible m \<Rightarrow> Fmt ''buyer not eligible: {}'' [ArgMsg m]
     | SellerNotEligible m \<Rightarrow> Fmt ''seller not eligible: {}'' [ArgMsg m]
     | BuyerInsufficientCollateral \<Rightarrow> Txt ''buyer has insufficient collateral''
     | SellerInsufficientCollateral \<Rightarrow> Txt ''seller has insufficient collateral''
     | InstrumentNotTradeable m \<Rightarrow> Fmt ''instrument not tradeable: {}'' [ArgMsg m]
     | BtPriceOutOfBounds p r \<Rightarrow> Fmt ''price out of bounds: proposed {}, reference {}'' [ArgPrice p, ArgPrice r]
     | SizeNotQualified q t \<Rightarrow> Fmt ''size {} does not meet block trade threshold {}'' [ArgQuantity q, ArgQuantity t])"

record 'd block_trade_context =
  bx_buyer :: "'d counterparty"
  bx_seller :: "'d counterparty"
  bx_reference_price :: "'d price option"
  bx_instrument_tradeable :: bool
  bx_instrument_halt_reason :: "string option"
  bx_buyer_collateral :: "'d price"
  bx_seller_collateral :: "'d price"
  bx_required_collateral :: "'d price"

definition bx_new :: "'d dec \<Rightarrow> 'd counterparty \<Rightarrow> 'd counterparty \<Rightarrow> 'd block_trade_context" where
  "bx_new D b s = \<lparr> bx_buyer = b, bx_seller = s, bx_reference_price = None, bx_instrument_tradeable = True,
     bx_instrument_halt_reason = None, bx_buyer_collateral = price_zero D, bx_seller_collateral = price_zero D,
     bx_required_collateral = price_zero D \<rparr>"

definition bx_with_reference_price :: "'d price \<Rightarrow> 'd block_trade_context \<Rightarrow> 'd block_trade_context" where
  "bx_with_reference_price p x = x\<lparr> bx_reference_price := Some p \<rparr>"

definition bx_with_instrument_halted :: "string \<Rightarrow> 'd block_trade_context \<Rightarrow> 'd block_trade_context" where
  "bx_with_instrument_halted r x = x\<lparr> bx_instrument_tradeable := False, bx_instrument_halt_reason := Some r \<rparr>"

definition bx_with_collateral :: "'d price \<Rightarrow> 'd price \<Rightarrow> 'd price \<Rightarrow> 'd block_trade_context \<Rightarrow> 'd block_trade_context" where
  "bx_with_collateral b s r x = x\<lparr> bx_buyer_collateral := b, bx_seller_collateral := s, bx_required_collateral := r \<rparr>"

definition kyc_debug :: "kyc_status \<Rightarrow> string" where
  "kyc_debug k = (case k of KycNotStarted \<Rightarrow> ''NotStarted'' | KycPending \<Rightarrow> ''Pending'' | KycApproved \<Rightarrow> ''Approved''
     | KycRejected \<Rightarrow> ''Rejected'')"

definition validate_counterparty_eligibility :: "'d counterparty \<Rightarrow> string \<Rightarrow> 'd block_trade_validation_failure + unit" where
  "validate_counterparty_eligibility c role =
     (let failure = (\<lambda>m. if role = ''buyer'' then BuyerNotEligible m else SellerNotEligible m) in
      if \<not> cp_active c then Inl (failure (Txt ''account not active''))
      else if cp_kyc_status c \<noteq> KycApproved
      then Inl (failure (Fmt ''KYC status is {}, must be Approved'' [ArgStr (kyc_debug (cp_kyc_status c))]))
      else Inr ())"

definition validate_collateral :: "'d dec \<Rightarrow> 'd block_trade_context \<Rightarrow> 'd block_trade_validation_failure list" where
  "validate_collateral D x =
     (if price_lt D (bx_buyer_collateral x) (bx_required_collateral x) then [BuyerInsufficientCollateral] else [])
   @ (if price_lt D (bx_seller_collateral x) (bx_required_collateral x) then [SellerInsufficientCollateral] else [])"

definition validate_block_price :: "'d dec \<Rightarrow> 'd option \<Rightarrow> 'd price \<Rightarrow> 'd block_trade_context
    \<Rightarrow> ('d block_trade_validation_failure, unit) outcome" where
  "validate_block_price D max_deviation proposed x = (case bx_reference_price x of
       None \<Rightarrow> Ret ()
     | Some reference \<Rightarrow> (case max_deviation of
         None \<Rightarrow> Ret ()
       | Some limit \<Rightarrow>
           if dis_zero D (price_get reference) then Ret ()
           else obind (dminus D (price_get proposed) (price_get reference)) (\<lambda>diff.
             case ddiv D (dabs D diff) (price_get reference) of
               None \<Rightarrow> Ret ()
             | Some deviation \<Rightarrow>
                 if dlt D limit deviation then Err (BtPriceOutOfBounds proposed reference) else Ret ())))"

definition dbv_new :: "'d dec \<Rightarrow> ('e, 'd option) outcome" where
  "dbv_new D = obind (or_panic (dnew D 5 2)) (\<lambda>d. Ret (Some d))"

fun failure_of :: "'e + unit \<Rightarrow> 'e list" where
  "failure_of (Inl e) = [e]"
| "failure_of (Inr _) = []"

definition bv_from_failures :: "'d block_trade_validation_failure list \<Rightarrow> 'd block_trade_validation_failure list
    \<Rightarrow> 'd block_trade_validation_failure list \<Rightarrow> 'd block_trade_validation_failure list
    \<Rightarrow> 'd block_trade_validation_failure list \<Rightarrow> 'd block_trade_validation_failure list \<Rightarrow> 'd block_trade_validation" where
  "bv_from_failures buyer seller collateral tradeable price size_ok =
     \<lparr> bv_buyer_eligible = (buyer = []), bv_seller_eligible = (seller = []),
       bv_collateral_sufficient = (collateral = []), bv_instrument_valid = (tradeable = []),
       bv_price_valid = (price = []), bv_size_qualifies = (size_ok = []),
       bv_failure_reasons = map bvf_display (buyer @ seller @ collateral @ tradeable @ price @ size_ok) \<rparr>"

definition validate_tradeable :: "'d block_trade_context \<Rightarrow> 'd block_trade_validation_failure list" where
  "validate_tradeable x = (if bx_instrument_tradeable x then []
     else [InstrumentNotTradeable (Txt (case bx_instrument_halt_reason x of
         Some r \<Rightarrow> r | None \<Rightarrow> ''instrument halted''))])"

definition validate_size :: "'d dec \<Rightarrow> 'd instrument \<Rightarrow> 'd quantity \<Rightarrow> 'd block_trade_config \<Rightarrow> 'd block_trade_validation_failure list" where
  "validate_size D ins q c = (if bc_qualifies D ins q c then []
     else [SizeNotQualified q (case bc_get_threshold ins c of Some h \<Rightarrow> h | None \<Rightarrow> quantity_zero D)])"

definition validate_block_trade :: "'d dec \<Rightarrow> 'd option \<Rightarrow> 'd block_trade \<Rightarrow> 'd block_trade_context \<Rightarrow> 'd block_trade_config
    \<Rightarrow> ('d domain_error, 'd block_trade_validation) outcome" where
  "validate_block_trade D max_deviation t x c =
     (let finish = (\<lambda>price. Ret (bv_from_failures
            (failure_of (validate_counterparty_eligibility (bx_buyer x) ''buyer''))
            (failure_of (validate_counterparty_eligibility (bx_seller x) ''seller''))
            (validate_collateral D x) (validate_tradeable x) price
            (validate_size D (bt_instrument t) (bt_quantity t) c))) in
      case validate_block_price D max_deviation (bt_price t) x of
        Panic \<Rightarrow> Panic | Err e \<Rightarrow> finish [e] | Ret _ \<Rightarrow> finish [])"

section \<open>The repository\<close>

type_synonym 'd block_trade_repo = "uuid \<rightharpoonup> 'd block_trade"

definition btr_save :: "'d block_trade \<Rightarrow> 'd block_trade_repo \<Rightarrow> 'd block_trade_repo" where
  "btr_save t R = R(bt_id t \<mapsto> bt_clone t)"

definition btr_find_by_id :: "uuid \<Rightarrow> 'd block_trade_repo \<Rightarrow> 'd block_trade option" where
  "btr_find_by_id i R = map_option bt_clone (R i)"

definition btr_delete :: "uuid \<Rightarrow> 'd block_trade_repo \<Rightarrow> bool \<times> 'd block_trade_repo" where
  "btr_delete i R = (R i \<noteq> None, R(i := None))"

section \<open>Histories\<close>

datatype 'd bt_call =
    StartValidation timestamp
  | RecordValidation timestamp "'d block_trade_validation" "reporting_tier option"
  | Confirm timestamp timestamp counterparty_id
  | StartExecution timestamp | MarkExecuted timestamp | MarkFailed timestamp "'d msg" | RejectTrade timestamp "'d msg"

fun bt_apply :: "'d bt_call \<Rightarrow> ('d block_trade, 'd) mutation" where
  "bt_apply (StartValidation now) = bt_start_validation now"
| "bt_apply (RecordValidation now v tier) = bt_record_validation now v tier"
| "bt_apply (Confirm now now' c) = bt_confirm now now' c"
| "bt_apply (StartExecution now) = bt_start_execution now"
| "bt_apply (MarkExecuted now) = bt_mark_executed now"
| "bt_apply (MarkFailed now r) = bt_mark_failed now r"
| "bt_apply (RejectTrade now r) = bt_reject now r"

lemmas bt_op_defs = bt_start_validation_def bt_record_validation_def bt_confirm_def bt_start_execution_def
  bt_mark_executed_def bt_mark_failed_def bt_reject_def and_event_def op_then_def bt_transition_to_def bt_add_event_def
  bt_is_fully_confirmed_def

lemma bts_from_approved: "bts_can_transition_to s BtExecuting \<longleftrightarrow> s = BtApproved"
  "bts_can_transition_to s BtExecuted \<longleftrightarrow> s = BtExecuting" "bts_can_transition_to s BtFailed \<longleftrightarrow> s = BtExecuting"
  "bts_can_transition_to s BtApproved \<longleftrightarrow> s = BtValidating" "bts_can_transition_to s BtValidating \<longleftrightarrow> s = BtSubmitted"
  "bts_can_transition_to s BtRejected \<longleftrightarrow> s = BtValidating \<or> s = BtApproved"
  "\<not> bts_can_transition_to s BtSubmitted"
  by (cases s; simp)+

text \<open>
  Confirmed by its own parties on a valid validation wherever it may execute; \<open>C\<close> are the
  counterparties that called \<open>confirm\<close>.
\<close>

definition bt_inv :: "counterparty_id set \<Rightarrow> 'd block_trade \<Rightarrow> bool" where
  "bt_inv C t \<longleftrightarrow> (bt_buyer_confirmed t \<longrightarrow> bt_buyer_id t \<in> C) \<and> (bt_seller_confirmed t \<longrightarrow> bt_seller_id t \<in> C)
     \<and> (bt_seller_confirmed t \<longrightarrow> bt_buyer_id t \<noteq> bt_seller_id t)
     \<and> (bt_state t = BtValidating \<longrightarrow> \<not> bt_is_fully_confirmed t)
     \<and> (bt_state t \<in> {BtApproved, BtExecuting, BtExecuted, BtFailed} \<longrightarrow> bt_is_fully_confirmed t
          \<and> (\<exists>v. bt_validation_result t = Some v \<and> bv_is_valid v))
     \<and> (bt_state t = BtSubmitted \<longrightarrow> \<not> bt_buyer_confirmed t \<and> \<not> bt_seller_confirmed t)"

definition confirmer :: "'d bt_call \<Rightarrow> counterparty_id set" where
  "confirmer call = (case call of Confirm _ _ c \<Rightarrow> {c} | _ \<Rightarrow> {})"

lemma bt_new_inv: "bt_new now i b s ins p q a = Ret t \<Longrightarrow> bt_inv {} t"
  by (auto simp: bt_new_def bt_inv_def split: if_splits)

lemma bt_inv_mono: "bt_inv C t \<Longrightarrow> C \<subseteq> C' \<Longrightarrow> bt_inv C' t"
  by (auto simp: bt_inv_def)

lemma bt_confirm_inv: "bt_inv C t \<Longrightarrow> bt_inv (insert c C) (snd (bt_confirm now now' c t))"
  by (auto simp: bt_inv_def bt_op_defs bts_from_approved Let_def split: option.splits prod.splits if_splits)

lemma bt_record_inv: "bt_inv C t \<Longrightarrow> bt_inv C (snd (bt_record_validation now v tier t))"
  by (auto simp: bt_inv_def bt_op_defs bts_from_approved Let_def split: prod.splits if_splits)

lemma bt_inv_step: "bt_inv C t \<Longrightarrow> bt_inv (C \<union> confirmer call) (snd (bt_apply call t))"
proof (cases call)
  case (Confirm now now' c)
  then show "bt_inv C t \<Longrightarrow> ?thesis" using bt_confirm_inv [of C t c now now'] by (simp add: confirmer_def)
next
  case (RecordValidation now v tier)
  then show "bt_inv C t \<Longrightarrow> ?thesis" using bt_record_inv [of C t now v tier] by (simp add: confirmer_def)
qed (auto simp: bt_inv_def bt_op_defs bts_from_approved confirmer_def split: option.splits)

lemma bt_inv_run: "bt_inv C t \<Longrightarrow> bt_inv (C \<union> (\<Union>c\<in>set calls. confirmer c)) (run_ops bt_apply calls t)"
proof (induction calls arbitrary: C t)
  case (Cons c cs)
  show ?case using Cons.IH [OF bt_inv_step [OF Cons.prems, of c]] by (simp add: Un_assoc)
qed simp

lemma bt_parties_kept: "bt_buyer_id (snd (bt_apply call t)) = bt_buyer_id t \<and> bt_seller_id (snd (bt_apply call t)) = bt_seller_id t"
  by (cases call) (auto simp: bt_op_defs Let_def split: option.splits)

lemma bt_parties_run: "bt_buyer_id (run_ops bt_apply calls t) = bt_buyer_id t \<and> bt_seller_id (run_ops bt_apply calls t) = bt_seller_id t"
  by (induction calls arbitrary: t) (auto simp: bt_parties_kept)

text \<open>A call that fails changes nothing but the reason.\<close>

lemma bt_errors_keep:
  "bt_apply call t = (Inl e, t') \<Longrightarrow> t'\<lparr> bt_rejection_reason := r \<rparr> = t\<lparr> bt_rejection_reason := r \<rparr>
    \<and> (bt_rejection_reason t' \<noteq> bt_rejection_reason t \<longrightarrow> (\<exists>now m. call = MarkFailed now m \<or> call = RejectTrade now m))"
  by (cases call) (auto simp: bt_op_defs bts_from_approved Let_def split: option.splits prod.splits if_splits)

section \<open>Properties\<close>

text \<open>
  C20. A block trade executes only by agreement: after any history of calls on a submitted trade,
  it is approved, executing, executed or failed only when a validation passed and
  its buyer and its seller, two different parties, each confirmed; and a call that
  fails changes nothing, the reason written by \<open>mark_failed\<close> and \<open>reject\<close> apart.
\<close>

theorem block_trade_executes_only_when_agreed:
  assumes "bt_new now i buyer seller ins p q agreed = Ret t0" "t = run_ops bt_apply calls t0"
  shows "(bt_state t \<in> {BtApproved, BtExecuting, BtExecuted, BtFailed} \<longrightarrow> buyer \<noteq> seller
      \<and> (\<exists>n n'. Confirm n n' buyer \<in> set calls) \<and> (\<exists>n n'. Confirm n n' seller \<in> set calls)
      \<and> (\<exists>v. bt_validation_result t = Some v \<and> bv_is_valid v))
    \<and> (\<forall>call e t' r. bt_apply call t = (Inl e, t') \<longrightarrow> t'\<lparr> bt_rejection_reason := r \<rparr> = t\<lparr> bt_rejection_reason := r \<rparr>)"
proof -
  have inv: "bt_inv (\<Union>c\<in>set calls. confirmer c) t"
    using bt_inv_run [OF bt_new_inv [OF assms(1)], of calls] assms(2) by simp
  have parties: "bt_buyer_id t = buyer" "bt_seller_id t = seller"
    using bt_parties_run [of calls t0] assms by (auto simp: bt_new_def split: if_splits)
  have called: "\<exists>n n'. Confirm n n' c \<in> set calls" if "c \<in> (\<Union>c\<in>set calls. confirmer c)" for c
  proof -
    obtain call where "call \<in> set calls" "c \<in> confirmer call" using \<open>c \<in> (\<Union>c\<in>set calls. confirmer c)\<close> by blast
    moreover from \<open>c \<in> confirmer call\<close> obtain n n' where "call = Confirm n n' c"
      by (auto simp: confirmer_def split: bt_call.splits)
    ultimately show ?thesis by blast
  qed
  show ?thesis using inv called bt_errors_keep [of _ t] by (auto simp: bt_inv_def parties bt_is_fully_confirmed_def)
qed

text \<open>A trade between two clients, and the calls that execute it.\<close>

definition block_sample :: "int block_trade" where
  "block_sample = \<lparr> bt_id = 9, bt_buyer_id = ''buyer'', bt_seller_id = ''seller'',
     bt_instrument = instrument_default_build \<lparr> sym_value = ''BTC/USD'', sym_separator_index = 3 \<rparr> CryptoSpot,
     bt_price = Price 50, bt_quantity = Quantity 30, bt_state = BtSubmitted, bt_reporting_tier = None,
     bt_buyer_confirmed = False, bt_seller_confirmed = False, bt_validation_result = None, bt_agreed_at = 90,
     bt_created_at = 100, bt_updated_at = 100, bt_rejection_reason = None,
     bt_pending_events = [BeSubmitted 9 ''buyer'' ''seller''
       (instrument_default_build \<lparr> sym_value = ''BTC/USD'', sym_separator_index = 3 \<rparr> CryptoSpot) (Price 50) (Quantity 30) 90] \<rparr>"

definition block_calls :: "int bt_call list" where
  "block_calls = [StartValidation 101, RecordValidation 102 bv_passed (Some StandardTier), Confirm 103 103 ''seller'',
     Confirm 104 104 ''buyer'', StartExecution 105, MarkExecuted 106]"

lemma block_sample_new: "bt_new 100 9 ''buyer'' ''seller''
    (instrument_default_build \<lparr> sym_value = ''BTC/USD'', sym_separator_index = 3 \<rparr> CryptoSpot)
    (Price 50) (Quantity 30) 90 = Ret block_sample"
  by (simp add: bt_new_def block_sample_def)

lemma block_executed: "bt_state (run_ops bt_apply block_calls block_sample) = BtExecuted"
  by (simp add: block_calls_def block_sample_def bt_op_defs bv_is_valid_def bv_passed_def Let_def)

lemma block_trade_executes_only_when_agreed_witness:
  "bt_state (run_ops bt_apply block_calls block_sample) = BtExecuted
   \<and> (\<exists>n n'. Confirm n n' ''buyer'' \<in> set block_calls)
   \<and> (\<exists>v. bt_validation_result (run_ops bt_apply block_calls block_sample) = Some v \<and> bv_is_valid v)"
  using block_trade_executes_only_when_agreed [OF block_sample_new refl, of block_calls] block_executed by simp

text \<open>
  The validator passes a block trade exactly when both parties of the context are active and
  approved, both have the collateral, the instrument is tradeable, the price is near enough the
  reference, where the deviation can be computed, and the quantity reaches the threshold. The
  parties it examines are the context's: for whom the trade itself is plays no part.
\<close>

theorem block_trade_validation_verdict:
  assumes "validate_block_trade D max_deviation t x c = Ret v" "dec_order D"
  shows "(bv_is_valid v \<longleftrightarrow> cp_active (bx_buyer x) \<and> cp_kyc_status (bx_buyer x) = KycApproved
      \<and> cp_active (bx_seller x) \<and> cp_kyc_status (bx_seller x) = KycApproved
      \<and> price_le D (bx_required_collateral x) (bx_buyer_collateral x)
      \<and> price_le D (bx_required_collateral x) (bx_seller_collateral x)
      \<and> bx_instrument_tradeable x \<and> validate_block_price D max_deviation (bt_price t) x = Ret ()
      \<and> bc_qualifies D (bt_instrument t) (bt_quantity t) c)
    \<and> (bv_is_valid v \<longleftrightarrow> bv_failure_reasons v = [])
    \<and> validate_block_trade D max_deviation (t\<lparr> bt_buyer_id := b, bt_seller_id := s \<rparr>) x c = Ret v"
proof -
  have lt: "price_lt D a b \<longleftrightarrow> \<not> price_le D b a" for a b by (simp add: price_lt_def price_le_def dlt_def)
  have elig: "failure_of (validate_counterparty_eligibility cp role) = [] \<longleftrightarrow> cp_active cp \<and> cp_kyc_status cp = KycApproved"
    for cp :: "'a counterparty" and role by (simp add: validate_counterparty_eligibility_def Let_def)
  have coll: "validate_collateral D x = [] \<longleftrightarrow> price_le D (bx_required_collateral x) (bx_buyer_collateral x)
      \<and> price_le D (bx_required_collateral x) (bx_seller_collateral x)"
    by (simp add: validate_collateral_def lt)
  have other: "validate_tradeable x = [] \<longleftrightarrow> bx_instrument_tradeable x"
    "validate_size D (bt_instrument t) (bt_quantity t) c = [] \<longleftrightarrow> bc_qualifies D (bt_instrument t) (bt_quantity t) c"
    by (simp_all add: validate_tradeable_def validate_size_def)
  obtain price where price: "price = [] \<longleftrightarrow> validate_block_price D max_deviation (bt_price t) x = Ret ()"
      and v: "v = bv_from_failures (failure_of (validate_counterparty_eligibility (bx_buyer x) ''buyer''))
            (failure_of (validate_counterparty_eligibility (bx_seller x) ''seller''))
            (validate_collateral D x) (validate_tradeable x) price (validate_size D (bt_instrument t) (bt_quantity t) c)"
    using assms(1) unfolding validate_block_trade_def Let_def
    by (cases "validate_block_price D max_deviation (bt_price t) x") auto
  have valid: "bv_is_valid v \<longleftrightarrow> cp_active (bx_buyer x) \<and> cp_kyc_status (bx_buyer x) = KycApproved
      \<and> cp_active (bx_seller x) \<and> cp_kyc_status (bx_seller x) = KycApproved
      \<and> price_le D (bx_required_collateral x) (bx_buyer_collateral x)
      \<and> price_le D (bx_required_collateral x) (bx_seller_collateral x)
      \<and> bx_instrument_tradeable x \<and> validate_block_price D max_deviation (bt_price t) x = Ret ()
      \<and> bc_qualifies D (bt_instrument t) (bt_quantity t) c"
    by (simp add: v bv_from_failures_def bv_is_valid_def elig coll other price)
  have "bv_is_valid v \<longleftrightarrow> bv_failure_reasons v = []"
    unfolding v bv_from_failures_def bv_is_valid_def by simp
  moreover have "validate_block_trade D max_deviation (t\<lparr> bt_buyer_id := b, bt_seller_id := s \<rparr>) x c = Ret v"
    using assms(1) by (simp add: validate_block_trade_def)
  ultimately show ?thesis using valid by blast
qed

definition good_party :: "string \<Rightarrow> int counterparty" where
  "good_party n = cp_set_kyc_status 100 KycApproved (cp_new whole_dec 100 n n CtClient)"

definition good_context :: "int block_trade_context" where
  "good_context = bx_with_collateral (Price 10) (Price 10) (Price 5) (bx_new whole_dec (good_party ''x'') (good_party ''y''))"

definition good_config :: "int block_trade_config" where
  "good_config = \<lparr> bc_thresholds = [''BTC'' \<mapsto> Quantity 25], bc_default_threshold = None, bc_tier_multipliers = tm_default \<rparr>"

lemma block_trade_validation_verdict_witness:
  "\<exists>v. validate_block_trade whole_dec None block_sample good_context good_config = Ret v \<and> bv_is_valid v
    \<and> validate_block_trade whole_dec None (block_sample\<lparr> bt_buyer_id := ''nobody'', bt_seller_id := ''nobody'' \<rparr>)
        good_context good_config = Ret v"
proof -
  obtain v where v: "validate_block_trade whole_dec None block_sample good_context good_config = Ret v"
    by (simp add: validate_block_trade_def validate_block_price_def good_context_def bx_with_collateral_def bx_new_def Let_def)
  have "cp_active (bx_buyer good_context)" "cp_kyc_status (bx_buyer good_context) = KycApproved"
    "cp_active (bx_seller good_context)" "cp_kyc_status (bx_seller good_context) = KycApproved"
    "price_le whole_dec (bx_required_collateral good_context) (bx_buyer_collateral good_context)"
    "price_le whole_dec (bx_required_collateral good_context) (bx_seller_collateral good_context)"
    "bx_instrument_tradeable good_context"
    "validate_block_price whole_dec None (bt_price block_sample) good_context = Ret ()"
    by (simp_all add: good_context_def bx_with_collateral_def bx_new_def good_party_def cp_set_kyc_status_def cp_new_def
        price_le_def validate_block_price_def)
  moreover have "bc_qualifies whole_dec (bt_instrument block_sample) (bt_quantity block_sample) good_config"
    by (simp add: bc_qualifies_def bc_get_threshold_def good_config_def block_sample_def instrument_default_build_def base_asset_def)
  ultimately show ?thesis
    using block_trade_validation_verdict [OF v whole_dec_order, of "''nobody''" "''nobody''"] v
    by (intro exI [of _ v]) simp
qed

end
