(* ===== verification/Off_Book.thy ===== *)
theory Off_Book
  imports Block_Trades Effects
begin

text \<open>
  Off-book execution of block trades, \<open>src/domain/services/off_book_executor.rs\<close>: lock the collateral
  of both parties, settle, update the positions, schedule the report, release, with what the
  executor undoes when a step fails. The four services are calls on a state \<open>'x\<close> of the world;
  their data is of \<open>collateral_lock.rs\<close>, \<open>settlement.rs\<close>, \<open>report_scheduler.rs\<close> and
  \<open>off_book_events.rs\<close>, and the services in \<open>mock_services.rs\<close> are one implementation.
\<close>

section \<open>Data of the services\<close>

record 'd collateral_lock =
  col_lock_id :: uuid
  col_buyer_id :: counterparty_id
  col_seller_id :: counterparty_id
  col_buyer_amount :: 'd
  col_seller_amount :: 'd
  col_locked_at :: timestamp

definition col_new :: "timestamp \<Rightarrow> uuid \<Rightarrow> counterparty_id \<Rightarrow> counterparty_id \<Rightarrow> 'd \<Rightarrow> 'd \<Rightarrow> 'd collateral_lock" where
  "col_new now fresh buyer seller a b = \<lparr> col_lock_id = fresh, col_buyer_id = buyer, col_seller_id = seller,
     col_buyer_amount = a, col_seller_amount = b, col_locked_at = now \<rparr>"

record 'd settlement_fees =
  sf_platform_fee :: 'd
  sf_network_fee :: 'd

definition sf_zero :: "'d dec \<Rightarrow> 'd settlement_fees" where
  "sf_zero D = \<lparr> sf_platform_fee = dzero D, sf_network_fee = dzero D \<rparr>"

text \<open>A trade hash is a string; \<open>'d msg\<close> because the mock hashes print the trade's identifier.\<close>

type_synonym 'd trade_hash = "'d msg"

record 'd settlement_result =
  stl_trade_hash :: "'d trade_hash"
  stl_settlement_timestamp :: timestamp
  stl_buyer_position_delta :: 'd
  stl_seller_position_delta :: 'd
  stl_fees :: "'d settlement_fees"

definition stl_new :: "'d trade_hash \<Rightarrow> timestamp \<Rightarrow> 'd \<Rightarrow> 'd \<Rightarrow> 'd settlement_fees \<Rightarrow> 'd settlement_result" where
  "stl_new h now b s f = \<lparr> stl_trade_hash = h, stl_settlement_timestamp = now, stl_buyer_position_delta = b,
     stl_seller_position_delta = s, stl_fees = f \<rparr>"

record scheduled_report =
  sr_block_trade_id :: uuid
  sr_tier :: reporting_tier
  sr_publish_at :: timestamp
  sr_published :: bool

definition sr_new :: "uuid \<Rightarrow> reporting_tier \<Rightarrow> timestamp \<Rightarrow> scheduled_report" where
  "sr_new t tier due = \<lparr> sr_block_trade_id = t, sr_tier = tier, sr_publish_at = due, sr_published = False \<rparr>"

definition sr_mark_published :: "scheduled_report \<Rightarrow> scheduled_report" where
  "sr_mark_published r = r\<lparr> sr_published := True \<rparr>"

definition sr_is_ready :: "timestamp \<Rightarrow> scheduled_report \<Rightarrow> bool" where
  "sr_is_ready now r \<longleftrightarrow> \<not> sr_published r \<and> sr_publish_at r \<le> now"

text \<open>Delays in whole seconds; a \<open>Duration\<close> has up to \<open>2 ^ 64\<close> of them.\<close>

record report_scheduler_config =
  rs_standard_delay :: u64
  rs_large_delay :: u64
  rs_very_large_delay :: u64

definition rsc_default :: report_scheduler_config where
  "rsc_default = \<lparr> rs_standard_delay = 15 * 60, rs_large_delay = 60 * 60, rs_very_large_delay = 8 * 60 * 60 \<rparr>"

definition rsc_delay_for_tier :: "reporting_tier \<Rightarrow> report_scheduler_config \<Rightarrow> u64" where
  "rsc_delay_for_tier tier c = (case tier of
     StandardTier \<Rightarrow> rs_standard_delay c | LargeTier \<Rightarrow> rs_large_delay c | VeryLargeTier \<Rightarrow> rs_very_large_delay c)"

datatype execution_step = RiskCheckStep | CollateralLockStep | SettlementStep | PositionUpdateStep | ReportSchedulingStep

definition step_display :: "execution_step \<Rightarrow> string" where
  "step_display s = (case s of RiskCheckStep \<Rightarrow> ''RISK_CHECK'' | CollateralLockStep \<Rightarrow> ''COLLATERAL_LOCK''
     | SettlementStep \<Rightarrow> ''SETTLEMENT'' | PositionUpdateStep \<Rightarrow> ''POSITION_UPDATE''
     | ReportSchedulingStep \<Rightarrow> ''REPORT_SCHEDULING'')"

text \<open>The events without their identifier and time stamp.\<close>

datatype 'd off_book_event =
    OffBookExecutionStarted uuid counterparty_id counterparty_id
  | CollateralLocked uuid uuid 'd 'd
  | OffBookSettled uuid "'d trade_hash" timestamp
  | OffBookFailed uuid "'d msg" execution_step
  | CollateralReleased uuid uuid "'d msg"

section \<open>The executor\<close>

record off_book_config =
  oc_enable_on_chain_settlement :: bool
  oc_settlement_timeout_secs :: u64
  oc_max_retry_attempts :: u32

definition oc_default :: off_book_config where
  "oc_default = \<lparr> oc_enable_on_chain_settlement = True, oc_settlement_timeout_secs = 30, oc_max_retry_attempts = 3 \<rparr>"

definition oc_for_testing :: off_book_config where
  "oc_for_testing = \<lparr> oc_enable_on_chain_settlement = False, oc_settlement_timeout_secs = 5, oc_max_retry_attempts = 1 \<rparr>"

text \<open>The services behind the executor.\<close>

record ('x, 'd) off_book_env =
  oe_lock_both :: "counterparty_id \<Rightarrow> counterparty_id \<Rightarrow> 'd instrument \<Rightarrow> 'd quantity \<Rightarrow> 'd price
    \<Rightarrow> ('x, 'd domain_error, 'd collateral_lock) op"
  oe_release :: "'d collateral_lock \<Rightarrow> ('x, 'd domain_error, unit) op"
  oe_verify_price_bounds :: "'d block_trade \<Rightarrow> ('x, 'd domain_error, bool) op"
  oe_settle :: "'d block_trade \<Rightarrow> ('x, 'd domain_error, 'd settlement_result) op"
  oe_update_both :: "'d block_trade \<Rightarrow> 'd settlement_result \<Rightarrow> ('x, 'd domain_error, unit) op"
  oe_schedule :: "'d block_trade \<Rightarrow> ('x, 'd domain_error, scheduled_report) op"

text \<open>The readings of the clock; \<open>oi_elapsed\<close> is what the stop watch shows in the end.\<close>

record off_book_inputs =
  oi_now_start :: timestamp
  oi_now_mock :: timestamp
  oi_now_failed :: timestamp
  oi_now_placeholder :: timestamp
  oi_now_executed :: timestamp
  oi_elapsed :: nat

record 'd executed_block_trade =
  ex_trade :: "'d block_trade"
  ex_settlement :: "'d settlement_result"
  ex_report :: scheduled_report
  ex_execution_time :: nat
  ex_events :: "'d off_book_event list"

definition ob_lock_collateral :: "('x, 'd) off_book_env \<Rightarrow> 'd block_trade \<Rightarrow> ('x, 'd domain_error, 'd collateral_lock) op" where
  "ob_lock_collateral E t = oe_lock_both E (bt_buyer_id t) (bt_seller_id t) (bt_instrument t) (bt_quantity t) (bt_price t)"

definition ob_execute_settlement :: "'d dec \<Rightarrow> ('x, 'd) off_book_env \<Rightarrow> off_book_config \<Rightarrow> timestamp \<Rightarrow> 'd block_trade
    \<Rightarrow> ('x, 'd domain_error, 'd settlement_result) op" where
  "ob_execute_settlement D E c now t =
     (if \<not> oc_enable_on_chain_settlement c
      then op_ret (stl_new (Fmt ''mock-{}'' [ArgUuid (bt_id t)]) now (quantity_get (bt_quantity t))
             (dnegate D (quantity_get (bt_quantity t))) (sf_zero D))
      else op_then (oe_verify_price_bounds E t) (\<lambda>ok.
           if \<not> ok then op_fail (PriceBoundsVerificationFailed (Txt ''Trade price outside oracle bounds''))
           else oe_settle E t))"

text \<open>The trade with its events so far, and the world.\<close>

type_synonym ('x, 'd) off_book_run = "'d block_trade \<times> 'd off_book_event list \<times> 'x"

definition ob_rollback_collateral :: "('x, 'd) off_book_env \<Rightarrow> 'd collateral_lock \<Rightarrow> 'd domain_error
    \<Rightarrow> ('x, 'd) off_book_run \<Rightarrow> ('x, 'd) off_book_run" where
  "ob_rollback_collateral E l e = (\<lambda>(t, events, x).
     (t, events @ [CollateralReleased (bt_id t) (col_lock_id l) (de_display e)], snd (oe_release E l x)))"

definition ob_handle_failure :: "timestamp \<Rightarrow> execution_step \<Rightarrow> 'd domain_error
    \<Rightarrow> ('x, 'd) off_book_run \<Rightarrow> ('x, 'd) off_book_run" where
  "ob_handle_failure now step e = (\<lambda>(t, events, x).
     (snd (bt_mark_failed now (de_display e) t), events @ [OffBookFailed (bt_id t) (de_display e) step], x))"

text \<open>
  \<open>execute\<close> changes the trade it is lent and the world; the events it collected are lost when
  it fails.
\<close>

definition ob_execute :: "'d dec \<Rightarrow> ('x, 'd) off_book_env \<Rightarrow> off_book_config \<Rightarrow> off_book_inputs
    \<Rightarrow> ('d block_trade \<times> 'x, 'd domain_error, 'd executed_block_trade) op" where
  "ob_execute D E c i = (\<lambda>(t, x).
     if bt_state t \<noteq> BtApproved
     then (Inl (InvalidTradeStateForExecution (Txt (bts_display BtApproved)) (Txt (bts_display (bt_state t)))), t, x)
     else
       let fail = (\<lambda>e (t, events, x). (Inl e, t, x));
           events = [OffBookExecutionStarted (bt_id t) (bt_buyer_id t) (bt_seller_id t)] in
       case bt_start_execution (oi_now_start i) t of
         (Inl e, t) \<Rightarrow> (Inl e, t, x)
       | (Inr _, t) \<Rightarrow>
         case ob_lock_collateral E t x of
           (Inl e, x) \<Rightarrow> fail e (ob_handle_failure (oi_now_failed i) CollateralLockStep e (t, events, x))
         | (Inr lock, x) \<Rightarrow>
           let events = events @ [CollateralLocked (bt_id t) (col_lock_id lock) (col_buyer_amount lock) (col_seller_amount lock)] in
           case ob_execute_settlement D E c (oi_now_mock i) t x of
             (Inl e, x) \<Rightarrow> fail e (ob_handle_failure (oi_now_failed i) SettlementStep e
                 (ob_rollback_collateral E lock e (t, events, x)))
           | (Inr settlement, x) \<Rightarrow>
             case oe_update_both E t settlement x of
               (Inl e, x) \<Rightarrow> fail e (ob_handle_failure (oi_now_failed i) PositionUpdateStep e
                   (ob_rollback_collateral E lock e (t, events, x)))
             | (Inr _, x) \<Rightarrow>
               let (report, t, events, x) =
                 (case oe_schedule E t x of
                    (Inr report, x) \<Rightarrow> (report, t, events, x)
                  | (Inl e, x) \<Rightarrow>
                      let (t, events, x) = ob_handle_failure (oi_now_failed i) ReportSchedulingStep e (t, events, x) in
                      (sr_new (bt_id t) (case bt_reporting_tier t of Some tier \<Rightarrow> tier | None \<Rightarrow> StandardTier)
                        (oi_now_placeholder i), t, events, x)) in
               case bt_mark_executed (oi_now_executed i) t of
                 (Inl e, t) \<Rightarrow> (Inl e, t, x)
               | (Inr _, t) \<Rightarrow>
                   let events = events @ [OffBookSettled (bt_id t) (stl_trade_hash settlement) (stl_settlement_timestamp settlement)];
                       x = snd (oe_release E lock x) in
                   (Inr \<lparr> ex_trade = bt_clone t, ex_settlement = settlement, ex_report = report,
                      ex_execution_time = oi_elapsed i, ex_events = events \<rparr>, t, x))"

section \<open>The mock services\<close>

text \<open>
  What the mocks answer is set by their flags; they keep no other state. A mutex that a panic
  has poisoned does not occur here.
\<close>

definition mock_lock_both :: "'d dec \<Rightarrow> bool \<Rightarrow> string option \<Rightarrow> timestamp \<Rightarrow> uuid \<Rightarrow> counterparty_id \<Rightarrow> counterparty_id
    \<Rightarrow> ('d domain_error, 'd collateral_lock) outcome" where
  "mock_lock_both D should_pass reason now fresh buyer seller =
     (if should_pass
      then obind (or_panic (dnew D 10000 2)) (\<lambda>a. obind (or_panic (dnew D 10000 2)) (\<lambda>b. Ret (col_new now fresh buyer seller a b)))
      else Err (CollateralLockFailed (Txt (case reason of Some r \<Rightarrow> r | None \<Rightarrow> ''Mock collateral lock failure''))))"

definition mock_settle :: "'d dec \<Rightarrow> bool \<Rightarrow> timestamp \<Rightarrow> 'd block_trade \<Rightarrow> 'd domain_error + 'd settlement_result" where
  "mock_settle D should_pass now t =
     (if should_pass
      then Inr (stl_new (Fmt ''0x{}'' [ArgUuid (bt_id t)]) now (quantity_get (bt_quantity t))
             (dnegate D (quantity_get (bt_quantity t))) (sf_zero D))
      else Inl (SettlementFailed (Txt ''Mock settlement failure'')))"

definition mock_update_both :: "bool \<Rightarrow> 'd domain_error + unit" where
  "mock_update_both should_pass =
     (if should_pass then Inr () else Inl (PositionUpdateFailed (Txt ''Mock position update failure'')))"

definition mock_schedule :: "report_scheduler_config \<Rightarrow> timestamp \<Rightarrow> 'd block_trade \<Rightarrow> scheduled_report" where
  "mock_schedule c now t =
     (let tier = (case bt_reporting_tier t of Some tier \<Rightarrow> tier | None \<Rightarrow> StandardTier);
          delay = uint (rsc_delay_for_tier tier c) in
      sr_new (bt_id t) tier (ts_add_secs now (if delay < 2 ^ 63 then delay else 2 ^ 63 - 1)))"

section \<open>What the executor asks for\<close>

datatype 'd off_book_call =
    LockedBoth "'d collateral_lock option"
  | VerifiedBounds "bool option"
  | Settled "'d settlement_result option"
  | UpdatedBoth "'d settlement_result" bool
  | ScheduledIt bool
  | ReleasedLock "'d collateral_lock"

definition ok_of :: "'e + 'a \<Rightarrow> 'a option" where
  "ok_of r = (case r of Inl _ \<Rightarrow> None | Inr a \<Rightarrow> Some a)"

lemma ok_of_simps [simp]: "ok_of (Inr a) = Some a" "ok_of (Inl e) = None"
  by (simp_all add: ok_of_def)

text \<open>A call entered in the log with its result.\<close>

definition log_result :: "('e + 'a \<Rightarrow> 'c) \<Rightarrow> ('x, 'e, 'a) op \<Rightarrow> ('x \<times> 'c list, 'e, 'a) op" where
  "log_result f m = (\<lambda>(x, lg). case m x of (a, x') \<Rightarrow> (a, x', lg @ [f a]))"

lemma log_result_iff [simp]:
  "log_result f m (x, lg) = (a, x', lg') \<longleftrightarrow> m x = (a, x') \<and> lg' = lg @ [f a]"
  by (auto simp: log_result_def split: prod.split)

lemma snd_log_result [simp]: "snd (log_result f m (x, lg)) = (snd (m x), lg @ [f (fst (m x))])"
  by (simp add: log_result_def split: prod.split)

definition logged_off_book :: "('x, 'd) off_book_env \<Rightarrow> ('x \<times> 'd off_book_call list, 'd) off_book_env" where
  "logged_off_book E = \<lparr>
     oe_lock_both = (\<lambda>b s ins q p. log_result (LockedBoth \<circ> ok_of) (oe_lock_both E b s ins q p)),
     oe_release = (\<lambda>l. log_result (\<lambda>_. ReleasedLock l) (oe_release E l)),
     oe_verify_price_bounds = (\<lambda>t. log_result (VerifiedBounds \<circ> ok_of) (oe_verify_price_bounds E t)),
     oe_settle = (\<lambda>t. log_result (Settled \<circ> ok_of) (oe_settle E t)),
     oe_update_both = (\<lambda>t s. log_result (\<lambda>r. UpdatedBoth s (r = Inr ())) (oe_update_both E t s)),
     oe_schedule = (\<lambda>t. log_result (\<lambda>r. ScheduledIt (ok_of r \<noteq> None)) (oe_schedule E t)) \<rparr>"

lemma logged_off_book_sel:
  "oe_lock_both (logged_off_book E) b s ins q p = log_result (LockedBoth \<circ> ok_of) (oe_lock_both E b s ins q p)"
  "oe_release (logged_off_book E) l = log_result (\<lambda>_. ReleasedLock l) (oe_release E l)"
  "oe_verify_price_bounds (logged_off_book E) t = log_result (VerifiedBounds \<circ> ok_of) (oe_verify_price_bounds E t)"
  "oe_settle (logged_off_book E) t = log_result (Settled \<circ> ok_of) (oe_settle E t)"
  "oe_update_both (logged_off_book E) t st = log_result (\<lambda>r. UpdatedBoth st (r = Inr ())) (oe_update_both E t st)"
  "oe_schedule (logged_off_book E) t = log_result (\<lambda>r. ScheduledIt (ok_of r \<noteq> None)) (oe_schedule E t)"
  by (simp_all add: logged_off_book_def)

text \<open>The calls of a settlement that was made, and of one that was not.\<close>

definition settled_calls :: "off_book_config \<Rightarrow> 'd settlement_result \<Rightarrow> 'd off_book_call list" where
  "settled_calls c s = (if oc_enable_on_chain_settlement c then [VerifiedBounds (Some True), Settled (Some s)] else [])"

definition refused_calls :: "off_book_config \<Rightarrow> 'd off_book_call list set" where
  "refused_calls c = (if oc_enable_on_chain_settlement c
     then {[VerifiedBounds None], [VerifiedBounds (Some False)], [VerifiedBounds (Some True), Settled None]} else {})"

lemma settlement_calls:
  assumes "ob_execute_settlement D (logged_off_book E) c now t (x, lg) = (a, x', lg')"
  shows "case a of Inr s \<Rightarrow> lg' = lg @ settled_calls c s | Inl e \<Rightarrow> \<exists>p\<in>refused_calls c. lg' = lg @ p"
  using assms unfolding ob_execute_settlement_def
  by (auto simp: settled_calls_def refused_calls_def op_then_def logged_off_book_sel split: if_splits prod.splits sum.splits)

lemma mark_failed_executing:
  "bt_state t = BtExecuting \<Longrightarrow> bt_state (snd (bt_mark_failed now m t)) = BtFailed"
  by (simp add: bt_mark_failed_def and_event_def op_then_def bt_transition_to_def bt_add_event_def)

lemma mark_executed_executing:
  "bt_state t = BtExecuting \<Longrightarrow> \<exists>t'. bt_mark_executed now t = (Inr (), t') \<and> bt_state t' = BtExecuted"
  by (auto simp: bt_mark_executed_def and_event_def op_then_def bt_transition_to_def bt_add_event_def split: option.split)

lemma mark_executed_failed:
  "bt_state t = BtFailed \<Longrightarrow> bt_mark_executed now t
    = (Inl (GenericStateTransitionError (Txt (bts_display BtFailed)) (Txt (bts_display BtExecuted))), t)"
  by (simp add: bt_mark_executed_def and_event_def op_then_def bt_transition_to_def)

section \<open>Properties\<close>

text \<open>What an execution of an approved trade can have called, by its outcome.\<close>

definition executed_calls :: "off_book_config \<Rightarrow> 'd executed_block_trade \<Rightarrow> 'd off_book_call list set" where
  "executed_calls c r = {LockedBoth (Some l) # settled_calls c (ex_settlement r)
     @ [UpdatedBoth (ex_settlement r) True, ScheduledIt True, ReleasedLock l] | l. True}"

definition failed_calls :: "off_book_config \<Rightarrow> 'd off_book_call list set" where
  "failed_calls c = {[LockedBoth None]}
     \<union> {LockedBoth (Some l) # p @ [ReleasedLock l] | l p. p \<in> refused_calls c}
     \<union> {LockedBoth (Some l) # settled_calls c s @ [UpdatedBoth s False, ReleasedLock l] | l s. True}
     \<union> {LockedBoth (Some l) # settled_calls c s @ [UpdatedBoth s True, ScheduledIt False] | l s. True}"

definition execution_truthful :: "off_book_config \<Rightarrow> 'd domain_error + 'd executed_block_trade \<Rightarrow> 'd block_trade
    \<Rightarrow> 'd off_book_call list \<Rightarrow> bool" where
  "execution_truthful c a t' cs = (case a of
       Inr r \<Rightarrow> bt_state t' = BtExecuted \<and> ex_trade r = bt_clone t' \<and> cs \<in> executed_calls c r
     | Inl e \<Rightarrow> bt_state t' = BtFailed \<and> cs \<in> failed_calls c)"

text \<open>The calls of a failed execution, unless it was the scheduling that failed.\<close>

lemma failed_calls_undone:
  assumes "cs \<in> failed_calls c" "ScheduledIt False \<notin> set cs"
  shows "(\<forall>s. UpdatedBoth s True \<notin> set cs) \<and> ScheduledIt True \<notin> set cs
    \<and> (cs = [LockedBoth None] \<or> (\<exists>l mid. cs = LockedBoth (Some l) # mid @ [ReleasedLock l]
         \<and> (\<forall>k. LockedBoth k \<notin> set mid) \<and> (\<forall>k. ReleasedLock k \<notin> set mid)))"
proof -
  consider "cs = [LockedBoth None]"
    | l p where "cs = LockedBoth (Some l) # p @ [ReleasedLock l]" "p \<in> refused_calls c"
    | l s where "cs = LockedBoth (Some l) # (settled_calls c s @ [UpdatedBoth s False]) @ [ReleasedLock l]"
    using assms unfolding failed_calls_def by auto
  then show ?thesis
  proof cases
    case (2 l p)
    then have "(\<forall>s. UpdatedBoth s True \<notin> set p) \<and> ScheduledIt True \<notin> set p
        \<and> (\<forall>k. LockedBoth k \<notin> set p) \<and> (\<forall>k. ReleasedLock k \<notin> set p)"
      by (auto simp: refused_calls_def split: if_splits)
    then show ?thesis using 2(1) by auto
  next
    case (3 l s)
    then have "(\<forall>s. UpdatedBoth s True \<notin> set (settled_calls c s @ [UpdatedBoth s False])) \<and> ScheduledIt True \<notin> set (settled_calls c s)
        \<and> (\<forall>k. LockedBoth k \<notin> set (settled_calls c s @ [UpdatedBoth s False]))
        \<and> (\<forall>k. ReleasedLock k \<notin> set (settled_calls c s @ [UpdatedBoth s False]))"
      by (auto simp: settled_calls_def)
    then show ?thesis using 3 by (auto simp: settled_calls_def)
  qed simp
qed

lemma start_approved:
  "bt_state t = BtApproved \<Longrightarrow> bt_start_execution now t = (Inr (), t\<lparr> bt_state := BtExecuting, bt_updated_at := now \<rparr>)"
  by (simp add: bt_start_execution_def bt_transition_to_def)

lemma approved_execution:
  assumes "bt_state t = BtApproved"
    and "ob_execute D (logged_off_book E) c i (t, x, []) = (a, t', x', cs)"
  shows "execution_truthful c a t' cs"
proof -
  let ?E = "logged_off_book E"
  let ?t = "t\<lparr> bt_state := BtExecuting, bt_updated_at := oi_now_start i \<rparr>"
  have exec: "bt_state ?t = BtExecuting" by simp
  note run = assms(2) [unfolded ob_execute_def] assms(1) start_approved [OF assms(1), of "oi_now_start i"]
  obtain la xl cl where l: "ob_lock_collateral ?E ?t (x, []) = (la, xl, cl)" by (metis prod.collapse)
  then have cl: "cl = [LockedBoth (ok_of la)]" by (simp add: ob_lock_collateral_def logged_off_book_sel)
  show ?thesis
  proof (cases la)
    case (Inl e)
    then show ?thesis using run l cl mark_failed_executing [OF exec]
      by (auto simp: ob_handle_failure_def execution_truthful_def failed_calls_def)
  next
    case lock: (Inr lk)
    obtain sa xs cset where st: "ob_execute_settlement D ?E c (oi_now_mock i) ?t (xl, cl) = (sa, xs, cset)" by (metis prod.collapse)
    note sc = settlement_calls [OF st]
    show ?thesis
    proof (cases sa)
      case (Inl e)
      then obtain p where "p \<in> refused_calls c" "cset = cl @ p" using sc by auto
      then show ?thesis using run l cl lock st Inl mark_failed_executing [OF exec]
        by (auto simp: logged_off_book_sel(2) ob_handle_failure_def ob_rollback_collateral_def execution_truthful_def failed_calls_def)
    next
      case settled: (Inr s)
      obtain ua xu cu where u: "oe_update_both ?E ?t s (xs, cset) = (ua, xu, cu)" by (metis prod.collapse)
      obtain ra xr cr where r: "oe_schedule ?E ?t (xu, cu) = (ra, xr, cr)" by (metis prod.collapse)
      obtain t2 where t2: "bt_mark_executed (oi_now_executed i) ?t = (Inr (), t2)" "bt_state t2 = BtExecuted"
        using mark_executed_executing [OF exec] by blast
      have "cset = cl @ settled_calls c s" using sc settled by simp
      then have cu: "cu = cl @ settled_calls c s @ [UpdatedBoth s (ua = Inr ())]" "cr = cu @ [ScheduledIt (ok_of ra \<noteq> None)]"
        using u r by (simp_all add: logged_off_book_sel)
      show ?thesis
      proof (cases ua)
        case (Inl e)
        then show ?thesis using run l cl lock st settled u cu(1) mark_failed_executing [OF exec]
          by (auto simp: logged_off_book_sel(2) ob_handle_failure_def ob_rollback_collateral_def execution_truthful_def failed_calls_def)
      next
        case upd: (Inr un)
        show ?thesis
        proof (cases ra)
          case (Inl e)
          then show ?thesis using run l cl lock st settled u upd r cu mark_failed_executing [OF exec]
            by (auto simp: ob_handle_failure_def execution_truthful_def failed_calls_def mark_executed_failed)
        next
          case (Inr rep)
          then show ?thesis using run l cl lock st settled u upd r cu t2
            by (auto simp: logged_off_book_sel(2) execution_truthful_def executed_calls_def)
        qed
      qed
    qed
  qed
qed

text \<open>
  A trade that is not approved is refused without any call. When only the scheduling of the report
  fails, the trade is failed although it was settled and the positions have moved, and its
  collateral stays locked.
\<close>

theorem off_book_outcomes:
  assumes "ob_execute D (logged_off_book E) c i (t, x, []) = (a, t', x', cs)"
  shows "if bt_state t = BtApproved then execution_truthful c a t' cs else cs = [] \<and> t' = t \<and> x' = x \<and> (\<exists>e. a = Inl e)"
  using approved_execution [OF _ assms] assms by (auto simp: ob_execute_def)


definition mock_env :: "bool \<Rightarrow> bool \<Rightarrow> (unit, int) off_book_env" where
  "mock_env positions_ok schedule_ok = \<lparr>
     oe_lock_both = (\<lambda>b s _ _ _. op_ret (col_new 200 77 b s 10000 10000)),
     oe_release = (\<lambda>_. op_ret ()), oe_verify_price_bounds = (\<lambda>_. op_ret True),
     oe_settle = (\<lambda>t. lift_result (mock_settle whole_dec True 201 t)),
     oe_update_both = (\<lambda>_ _. lift_result (mock_update_both positions_ok)),
     oe_schedule = (\<lambda>t. if schedule_ok then op_ret (mock_schedule rsc_default 202 t)
       else op_fail (InvalidState (Txt ''scheduler down''))) \<rparr>"

definition off_book_sample :: off_book_inputs where
  "off_book_sample = \<lparr> oi_now_start = 199, oi_now_mock = 200, oi_now_failed = 203, oi_now_placeholder = 204,
     oi_now_executed = 205, oi_elapsed = 6 \<rparr>"

lemma off_book_outcomes_witness:
  "\<exists>e t' cs. ob_execute whole_dec (logged_off_book (mock_env True False)) oc_default off_book_sample
      (block_sample\<lparr> bt_state := BtApproved \<rparr>, (), []) = (Inl e, t', (), cs)
    \<and> execution_truthful oc_default (Inl e :: int domain_error + int executed_block_trade) t' cs \<and> last cs = ScheduledIt False"
proof -
  let ?t = "block_sample\<lparr> bt_state := BtApproved \<rparr>"
  obtain e t' cs where run: "ob_execute whole_dec (logged_off_book (mock_env True False)) oc_default off_book_sample
      (?t, (), []) = (Inl e, t', (), cs)" "last cs = ScheduledIt False"
    by (simp add: ob_execute_def logged_off_book_sel mock_env_def ob_lock_collateral_def ob_execute_settlement_def
        start_approved log_result_def op_ret_def op_fail_def lift_result_def op_then_def mock_settle_def mock_update_both_def
        ob_handle_failure_def oc_default_def Let_def bt_mark_failed_def bt_mark_executed_def and_event_def bt_transition_to_def
        bt_add_event_def)
  show ?thesis using off_book_outcomes [OF run(1)] run by auto
qed


end
