(* ===== verification/Market_Calendar.thy ===== *)
theory Market_Calendar
  imports Values
begin

text \<open>
  \<open>src/domain/services/market_calendar.rs\<close>: the next close of the market. The calendar is that
  of the \<open>chrono\<close> package, a parameter with its documented laws.
\<close>

datatype weekday = Mon | Tue | Wed | Thu | Fri | Sat | Sun

primrec next_weekday :: "weekday \<Rightarrow> weekday" where
  "next_weekday Mon = Tue"
| "next_weekday Tue = Wed"
| "next_weekday Wed = Thu"
| "next_weekday Thu = Fri"
| "next_weekday Fri = Sat"
| "next_weekday Sat = Sun"
| "next_weekday Sun = Mon"

definition is_business_day :: "weekday \<Rightarrow> bool" where
  "is_business_day w \<longleftrightarrow> w \<notin> {Sat, Sun}"

section \<open>The calendar package\<close>

text \<open>
  Dates \<open>'n\<close> of UTC, and instants in milliseconds: the date of an instant (\<open>None\<close> out of range),
  the instant of an hour and minute on a date, and the instants that \<open>Timestamp::from_millis\<close> takes. A date
  that has no successor is the last one, and every minute of a date is an instant.
\<close>

record 'n calendar =
  cal_date_of :: "int \<Rightarrow> 'n option"
  cal_weekday :: "'n \<Rightarrow> weekday"
  cal_succ :: "'n \<Rightarrow> 'n option"
  cal_at :: "'n \<Rightarrow> nat \<times> nat \<Rightarrow> int"
  cal_from_millis :: "int \<Rightarrow> bool"

definition day_ms :: int where
  "day_ms = 86400000"

definition calendar_laws :: "'n calendar \<Rightarrow> bool" where
  "calendar_laws C \<longleftrightarrow>
     (\<forall>ms d. cal_date_of C ms = Some d \<longrightarrow> cal_at C d (0, 0) \<le> ms \<and> ms < cal_at C d (0, 0) + day_ms)
   \<and> (\<forall>d d'. cal_succ C d = Some d' \<longrightarrow> cal_weekday C d' = next_weekday (cal_weekday C d)
       \<and> cal_at C d' (0, 0) = cal_at C d (0, 0) + day_ms)
   \<and> (\<forall>d h m. h < 24 \<longrightarrow> m < 60 \<longrightarrow> cal_at C d (h, m) = cal_at C d (0, 0) + (int h * 60 + int m) * 60000)
   \<and> (\<forall>d. day_ms dvd cal_at C d (0, 0))
   \<and> (\<forall>d d'. cal_at C d (0, 0) = cal_at C d' (0, 0) \<longrightarrow> d = d')
   \<and> (\<forall>d d'. cal_succ C d = None \<longrightarrow> cal_at C d' (0, 0) \<le> cal_at C d (0, 0))
   \<and> (\<forall>d h m. h < 24 \<longrightarrow> m < 60 \<longrightarrow> cal_from_millis C (cal_at C d (h, m)))"

section \<open>The next close\<close>

record market_calendar_config =
  mk_close_hour :: u32
  mk_close_minute :: u32

definition mk_default :: market_calendar_config where
  "mk_default = \<lparr> mk_close_hour = 21, mk_close_minute = 0 \<rparr>"

definition mk_new :: "u32 \<Rightarrow> u32 \<Rightarrow> market_calendar_config" where
  "mk_new h m = \<lparr> mk_close_hour = min h 23, mk_close_minute = min m 59 \<rparr>"

text \<open>\<open>starthms_opt\<close> fails for an hour or minute out of range; then the close is at 21:00.\<close>

definition close_time :: "market_calendar_config \<Rightarrow> nat \<times> nat" where
  "close_time c = (if unat (mk_close_hour c) < 24 \<and> unat (mk_close_minute c) < 60
     then (unat (mk_close_hour c), unat (mk_close_minute c)) else (21, 0))"

text \<open>The loop over the days; it returns \<open>Some None\<close> at the end of the calendar.\<close>

partial_function (option) skip_to_business_day :: "'n calendar \<Rightarrow> 'n \<Rightarrow> 'n option option" where
  "skip_to_business_day C d =
     (if is_business_day (cal_weekday C d) then Some (Some d)
      else case cal_succ C d of None \<Rightarrow> Some None | Some d' \<Rightarrow> skip_to_business_day C d')"

definition ts_millis :: "timestamp \<Rightarrow> int" where
  "ts_millis t = t div 1000000"

definition ts_from_millis :: "'n calendar \<Rightarrow> int \<Rightarrow> timestamp option" where
  "ts_from_millis C ms = (if cal_from_millis C ms then Some (ms * 1000000) else None)"

text \<open>\<open>None\<close> would be a loop that does not end.\<close>

definition next_market_close :: "'n calendar \<Rightarrow> timestamp \<Rightarrow> market_calendar_config \<Rightarrow> timestamp option" where
  "next_market_close C start c =
     (case cal_date_of C (ts_millis start) of
        None \<Rightarrow> Some start
      | Some today \<Rightarrow>
          let today_close = cal_at C today (close_time c) in
          if ts_millis start < today_close \<and> is_business_day (cal_weekday C today)
          then Some (case ts_from_millis C today_close of Some ts \<Rightarrow> ts | None \<Rightarrow> start)
          else case cal_succ C today of
              None \<Rightarrow> Some start
            | Some next_day \<Rightarrow>
                (case skip_to_business_day C next_day of
                   None \<Rightarrow> None
                 | Some None \<Rightarrow> Some start
                 | Some (Some d) \<Rightarrow> Some (case ts_from_millis C (cal_at C d (close_time c)) of
                     Some ts \<Rightarrow> ts | None \<Rightarrow> start)))"

definition delay_until_market_close :: "'n calendar \<Rightarrow> timestamp \<Rightarrow> market_calendar_config \<Rightarrow> int option" where
  "delay_until_market_close C start c = map_option (\<lambda>close.
     if ts_millis close \<le> ts_millis start then 0 else ts_millis close - ts_millis start) (next_market_close C start c)"

section \<open>The loop ends\<close>

lemma calendar_lawsD:
  assumes "calendar_laws C"
  shows "cal_date_of C ms = Some d \<Longrightarrow> cal_at C d (0, 0) \<le> ms \<and> ms < cal_at C d (0, 0) + day_ms"
    and "cal_succ C d = Some d' \<Longrightarrow> cal_weekday C d' = next_weekday (cal_weekday C d)"
    and "cal_succ C d = Some d' \<Longrightarrow> cal_at C d' (0, 0) = cal_at C d (0, 0) + day_ms"
    and "day_ms dvd cal_at C d (0, 0)"
    and "cal_at C d (0, 0) = cal_at C d' (0, 0) \<Longrightarrow> d = d'"
    and "cal_succ C d = None \<Longrightarrow> cal_at C d' (0, 0) \<le> cal_at C d (0, 0)"
    and "h < 24 \<Longrightarrow> m < 60 \<Longrightarrow> cal_from_millis C (cal_at C d (h, m))"
  using assms unfolding calendar_laws_def by blast+

lemma close_offset:
  assumes "calendar_laws C"
  obtains k where "0 \<le> k" "k < day_ms" "\<And>d. cal_at C d (close_time c) = cal_at C d (0, 0) + k"
proof -
  have "\<exists>h m. close_time c = (h, m) \<and> h < 24 \<and> m < 60" by (simp add: close_time_def)
  then obtain h m where hm: "close_time c = (h, m)" "h < 24" "m < 60" by blast
  have "cal_at C d (close_time c) = cal_at C d (0, 0) + (int h * 60 + int m) * 60000" for d
    using assms hm unfolding calendar_laws_def by metis
  moreover have "0 \<le> (int h * 60 + int m) * 60000" by simp
  moreover have "(int h * 60 + int m) * 60000 < day_ms" using hm(2,3) by (simp add: day_ms_def)
  ultimately show thesis using that by blast
qed

lemma skip_business: "is_business_day (cal_weekday C d) \<Longrightarrow> skip_to_business_day C d = Some (Some d)"
  by (simp add: skip_to_business_day.simps)

lemma skip_other: "\<not> is_business_day (cal_weekday C d) \<Longrightarrow> skip_to_business_day C d
    = (case cal_succ C d of None \<Rightarrow> Some None | Some d' \<Rightarrow> skip_to_business_day C d')"
  by (simp add: skip_to_business_day.simps)

text \<open>After a Saturday and a Sunday comes a Monday: at most two days are skipped.\<close>

definition skips_to :: "'n calendar \<Rightarrow> 'n \<Rightarrow> 'n \<Rightarrow> bool" where
  "skips_to C d d' \<longleftrightarrow> is_business_day (cal_weekday C d') \<and> cal_at C d (0, 0) \<le> cal_at C d' (0, 0)
     \<and> (\<forall>e. cal_at C d (0, 0) \<le> cal_at C e (0, 0) \<longrightarrow> cal_at C e (0, 0) < cal_at C d' (0, 0)
          \<longrightarrow> \<not> is_business_day (cal_weekday C e))"

lemma no_date_between:
  assumes "calendar_laws C" "cal_at C d (0, 0) \<le> cal_at C e (0, 0)" "cal_at C e (0, 0) < cal_at C d (0, 0) + day_ms"
  shows "e = d"
proof -
  obtain a b where "cal_at C d (0, 0) = day_ms * a" "cal_at C e (0, 0) = day_ms * b"
    using calendar_lawsD(4) [OF assms(1)] by (metis dvdE)
  then have "a = b" using assms(2,3) by (auto simp: day_ms_def)
  then show ?thesis using calendar_lawsD(5) [OF assms(1)] \<open>cal_at C d (0, 0) = _\<close> \<open>cal_at C e (0, 0) = _\<close> by metis
qed

lemma dates_apart:
  assumes "calendar_laws C" "cal_at C d (0, 0) < cal_at C e (0, 0) + day_ms"
  shows "cal_at C d (0, 0) \<le> cal_at C e (0, 0)"
proof -
  obtain a b where "cal_at C d (0, 0) = day_ms * a" "cal_at C e (0, 0) = day_ms * b"
    using calendar_lawsD(4) [OF assms(1)] by (metis dvdE)
  then show ?thesis using assms(2) by (auto simp: day_ms_def)
qed

lemma skips_to_step:
  assumes "calendar_laws C" "\<not> is_business_day (cal_weekday C d)" "cal_succ C d = Some d1" "skips_to C d1 d'"
  shows "skips_to C d d'"
proof -
  have nx: "cal_at C d1 (0, 0) = cal_at C d (0, 0) + day_ms" by (rule calendar_lawsD(3) [OF assms(1,3)])
  have "\<not> is_business_day (cal_weekday C e)"
    if "cal_at C d (0, 0) \<le> cal_at C e (0, 0)" "cal_at C e (0, 0) < cal_at C d' (0, 0)" for e
  proof (cases "cal_at C e (0, 0) < cal_at C d1 (0, 0)")
    case True
    then show ?thesis using no_date_between [OF assms(1) that(1)] nx assms(2) by simp
  next
    case False
    then show ?thesis using assms(4) that(2) by (simp add: skips_to_def)
  qed
  then show ?thesis using assms(4) nx by (simp add: skips_to_def day_ms_def)
qed

primrec weekend_left :: "weekday \<Rightarrow> nat" where
  "weekend_left Sat = 2"
| "weekend_left Sun = 1"
| "weekend_left Mon = 0"
| "weekend_left Tue = 0"
| "weekend_left Wed = 0"
| "weekend_left Thu = 0"
| "weekend_left Fri = 0"

lemma weekend_left_business: "is_business_day w \<longleftrightarrow> weekend_left w = 0"
  by (cases w) (auto simp: is_business_day_def)

lemma weekend_left_next: "\<not> is_business_day w \<Longrightarrow> weekend_left (next_weekday w) < weekend_left w"
  by (cases w) (auto simp: is_business_day_def)

lemma skip_ends:
  assumes "calendar_laws C"
  shows "\<exists>r. skip_to_business_day C d = Some r \<and> (\<forall>d'. r = Some d' \<longrightarrow> skips_to C d d')
    \<and> (r = None \<longrightarrow> (\<forall>e. cal_at C d (0, 0) \<le> cal_at C e (0, 0) \<longrightarrow> \<not> is_business_day (cal_weekday C e)))"
proof (induction "weekend_left (cal_weekday C d)" arbitrary: d rule: less_induct)
  case less
  show ?case
  proof (cases "is_business_day (cal_weekday C d)")
    case True
    then show ?thesis by (auto simp: skip_business skips_to_def)
  next
    case False
    show ?thesis
    proof (cases "cal_succ C d")
      case None
      have "\<not> is_business_day (cal_weekday C e)" if "cal_at C d (0, 0) \<le> cal_at C e (0, 0)" for e
        using that calendar_lawsD(6) [OF assms None, of e] calendar_lawsD(5) [OF assms, of e d] False by simp
      then show ?thesis using None False by (simp add: skip_other)
    next
      case (Some d1)
      have fewer: "weekend_left (cal_weekday C d1) < weekend_left (cal_weekday C d)"
        using calendar_lawsD(2) [OF assms Some] weekend_left_next [OF False] by simp
      obtain r where r: "skip_to_business_day C d1 = Some r" "\<forall>d'. r = Some d' \<longrightarrow> skips_to C d1 d'"
          "r = None \<longrightarrow> (\<forall>e. cal_at C d1 (0, 0) \<le> cal_at C e (0, 0) \<longrightarrow> \<not> is_business_day (cal_weekday C e))"
        using less [OF fewer] by blast
      have "\<not> is_business_day (cal_weekday C e)" if "r = None" "cal_at C d (0, 0) \<le> cal_at C e (0, 0)" for e
      proof (cases "cal_at C d1 (0, 0) \<le> cal_at C e (0, 0)")
        case True
        then show ?thesis using r(3) that(1) by simp
      next
        case early: False
        then have "e = d" using no_date_between [OF assms that(2)] calendar_lawsD(3) [OF assms Some] by simp
        then show ?thesis using False by simp
      qed
      then show ?thesis using Some False r skips_to_step [OF assms False Some] by (simp add: skip_other)
    qed
  qed
qed

text \<open>The day of the first close after an instant.\<close>

definition first_close_after :: "'n calendar \<Rightarrow> market_calendar_config \<Rightarrow> timestamp \<Rightarrow> 'n \<Rightarrow> bool" where
  "first_close_after C c start d \<longleftrightarrow> cal_weekday C d \<notin> {Sat, Sun} \<and> start < cal_at C d (close_time c) * 1000000
     \<and> (\<forall>e. cal_weekday C e \<notin> {Sat, Sun} \<longrightarrow> start < cal_at C e (close_time c) * 1000000
          \<longrightarrow> cal_at C d (close_time c) \<le> cal_at C e (close_time c))"

lemma close_after_millis: "start < n * 1000000 \<longleftrightarrow> ts_millis start < n"
  by (auto simp: ts_millis_def)

lemma close_is_instant:
  assumes "calendar_laws C"
  shows "ts_from_millis C (cal_at C d (close_time c)) = Some (cal_at C d (close_time c) * 1000000)"
proof -
  have "\<exists>h m. close_time c = (h, m) \<and> h < 24 \<and> m < 60" by (simp add: close_time_def)
  then show ?thesis using calendar_lawsD(7) [OF assms] by (auto simp: ts_from_millis_def)
qed

lemma first_close_afterI:
  assumes "calendar_laws C" "is_business_day (cal_weekday C d)" "ts_millis start < cal_at C d (close_time c)"
    and "\<And>e. is_business_day (cal_weekday C e) \<Longrightarrow> ts_millis start < cal_at C e (close_time c) \<Longrightarrow> cal_at C d (0, 0) \<le> cal_at C e (0, 0)"
  shows "first_close_after C c start d"
proof -
  obtain k where "\<And>d. cal_at C d (close_time c) = cal_at C d (0, 0) + k"
    by (rule close_offset [OF assms(1), of c]) blast
  then show ?thesis using assms(2-) unfolding first_close_after_def close_after_millis is_business_day_def by simp
qed

lemma today_is_first:
  assumes "calendar_laws C" "cal_date_of C ms = Some today" "ms < cal_at C e (close_time c)"
  shows "cal_at C today (0, 0) \<le> cal_at C e (0, 0)"
proof -
  obtain k where "k < day_ms" "\<And>d. cal_at C d (close_time c) = cal_at C d (0, 0) + k"
    by (rule close_offset [OF assms(1), of c]) blast
  then show ?thesis using calendar_lawsD(1) [OF assms(1,2)] assms(3)
    by (intro dates_apart [OF assms(1)]) (metis add_strict_left_mono le_less_trans less_trans)
qed

lemma skipped_is_first:
  assumes "calendar_laws C" "cal_date_of C ms = Some today"
    and "\<not> (ms < cal_at C today (close_time c) \<and> is_business_day (cal_weekday C today))"
    and "cal_succ C today = Some n" "skips_to C n d"
  shows "is_business_day (cal_weekday C d)" "ms < cal_at C d (close_time c)"
    and "is_business_day (cal_weekday C e) \<Longrightarrow> ms < cal_at C e (close_time c) \<Longrightarrow> cal_at C d (0, 0) \<le> cal_at C e (0, 0)"
proof -
  obtain k where k: "0 \<le> k" "\<And>d. cal_at C d (close_time c) = cal_at C d (0, 0) + k"
    by (rule close_offset [OF assms(1), of c]) blast
  have n: "cal_at C n (0, 0) = cal_at C today (0, 0) + day_ms" by (rule calendar_lawsD(3) [OF assms(1,4)])
  show "is_business_day (cal_weekday C d)" "ms < cal_at C d (close_time c)"
    using assms(5) n k(1) k(2) [of d] calendar_lawsD(1) [OF assms(1,2)] by (auto simp: skips_to_def)
  assume e: "is_business_day (cal_weekday C e)" "ms < cal_at C e (close_time c)"
  have "cal_at C today (0, 0) \<noteq> cal_at C e (0, 0)" using calendar_lawsD(5) [OF assms(1)] e assms(3) by metis
  then have "cal_at C n (0, 0) \<le> cal_at C e (0, 0)"
    using n today_is_first [OF assms(1,2) e(2)] by (intro dates_apart [OF assms(1)]) simp
  then show "cal_at C d (0, 0) \<le> cal_at C e (0, 0)" using assms(5) e(1) by (auto simp: skips_to_def not_less)
qed

text \<open>After the last date that has a business day to come there is no close.\<close>

lemma no_close_after:
  assumes "calendar_laws C" "cal_date_of C (ts_millis start) = Some today"
    and "\<not> (ts_millis start < cal_at C today (close_time c) \<and> is_business_day (cal_weekday C today))"
    and "\<And>n e. cal_succ C today = Some n \<Longrightarrow> cal_at C n (0, 0) \<le> cal_at C e (0, 0) \<Longrightarrow> \<not> is_business_day (cal_weekday C e)"
  shows "\<not> first_close_after C c start d"
proof
  assume "first_close_after C c start d"
  then have d: "is_business_day (cal_weekday C d)" "ts_millis start < cal_at C d (close_time c)"
    by (auto simp: first_close_after_def close_after_millis is_business_day_def)
  have later: "cal_at C today (0, 0) \<le> cal_at C d (0, 0)" by (rule today_is_first [OF assms(1,2) d(2)])
  have other: "cal_at C today (0, 0) \<noteq> cal_at C d (0, 0)" using calendar_lawsD(5) [OF assms(1)] d assms(3) by metis
  show False
  proof (cases "cal_succ C today")
    case None
    then show False using calendar_lawsD(6) [OF assms(1) None, of d] later other by simp
  next
    case (Some n)
    have "cal_at C n (0, 0) \<le> cal_at C d (0, 0)"
      using calendar_lawsD(3) [OF assms(1) Some] later other by (intro dates_apart [OF assms(1)]) simp
    then show False using assms(4) [OF Some] d(1) by blast
  qed
qed

section \<open>Properties\<close>

text \<open>
  C14. The search for the next close ends, also over weekends, and it finds the next one: when the calendar still has a close
  of a business day after the instant, the answer is the close of such a day and no business day closes in between. Only when the calendar
  has no date for the instant or no close after it is the answer the instant itself.
\<close>

theorem next_market_close_is_next:
  assumes "calendar_laws C"
  shows "\<exists>r. next_market_close C start c = Some r
    \<and> (if cal_date_of C (ts_millis start) \<noteq> None \<and> (\<exists>d. first_close_after C c start d)
       then \<exists>d. first_close_after C c start d \<and> r = cal_at C d (close_time c) * 1000000
       else r = start)"
proof (cases "cal_date_of C (ts_millis start)")
  case None
  then show ?thesis by (simp add: next_market_close_def)
next
  case (Some today)
  note close = close_is_instant [OF assms, where c = c]
  show ?thesis
  proof (cases "ts_millis start < cal_at C today (close_time c) \<and> is_business_day (cal_weekday C today)")
    case True
    then have "first_close_after C c start today"
      using first_close_afterI [OF assms] today_is_first [OF assms Some] by blast
    then show ?thesis using True Some close by (auto simp: next_market_close_def Let_def)
  next
    case False
    show ?thesis
    proof (cases "cal_succ C today")
      case None
      then show ?thesis using Some False no_close_after [OF assms Some False] by (auto simp: next_market_close_def Let_def)
    next
      case succ: (Some n)
      obtain r where r: "skip_to_business_day C n = Some r" "\<And>d. r = Some d \<Longrightarrow> skips_to C n d"
          "\<And>e. r = None \<Longrightarrow> cal_at C n (0, 0) \<le> cal_at C e (0, 0) \<Longrightarrow> \<not> is_business_day (cal_weekday C e)"
        using skip_ends [OF assms] by blast
      show ?thesis
      proof (cases r)
        case None
        then have "\<not> first_close_after C c start d" for d using no_close_after [OF assms Some False] r(3) succ by simp
        then show ?thesis using Some False succ r(1) None by (auto simp: next_market_close_def Let_def)
      next
        case d: (Some d)
        have "first_close_after C c start d"
          using first_close_afterI [OF assms] skipped_is_first [OF assms Some False succ r(2) [OF d]] by blast
        then show ?thesis using Some False succ r(1) d close by (auto simp: next_market_close_def Let_def)
      qed
    qed
  qed
qed

text \<open>Days since a Thursday at 0, as in Unix time.\<close>

definition unix_weekday :: "int \<Rightarrow> weekday" where
  "unix_weekday d = (let k = d mod 7 in if k = 0 then Thu else if k = 1 then Fri else if k = 2 then Sat
     else if k = 3 then Sun else if k = 4 then Mon else if k = 5 then Tue else Wed)"

definition unix_calendar :: "int calendar" where
  "unix_calendar = \<lparr> cal_date_of = (\<lambda>ms. Some (ms div day_ms)), cal_weekday = unix_weekday,
     cal_succ = (\<lambda>d. Some (d + 1)), cal_at = (\<lambda>d (h, m). d * day_ms + (int h * 60 + int m) * 60000),
     cal_from_millis = (\<lambda>_. True) \<rparr>"

lemma unix_next_weekday: "unix_weekday (d + 1) = next_weekday (unix_weekday d)"
proof -
  have "(d + 1) mod 7 = (d mod 7 + 1) mod 7" by (simp add: mod_add_left_eq)
  moreover have "d mod 7 \<in> {0, 1, 2, 3, 4, 5, 6}" by auto
  ultimately show ?thesis by (auto simp: unix_weekday_def)
qed

lemma unix_calendar_laws: "calendar_laws unix_calendar"
  by (auto simp: calendar_laws_def unix_calendar_def unix_next_weekday day_ms_def)

lemma unix_first_close: "first_close_after unix_calendar mk_default (2 * 86400 * 1000000000) 4"
proof -
  have "4 \<le> e" if "2 * 86400000 < e * 86400000 + 75600000" "unix_weekday e \<notin> {Sat, Sun}" for e
  proof (rule ccontr)
    assume "\<not> 4 \<le> e"
    then have "e = 2 \<or> e = 3" using that(1) by auto
    then show False using that(2) by (auto simp: unix_weekday_def)
  qed
  then show ?thesis
    by (auto simp: first_close_after_def unix_calendar_def close_time_def mk_default_def day_ms_def unix_weekday_def)
qed

lemma next_market_close_is_next_witness:
  "next_market_close unix_calendar (2 * 86400 * 1000000000) mk_default = Some ((4 * 86400 + 21 * 3600) * 1000000000)
    \<and> (\<exists>d. first_close_after unix_calendar mk_default (2 * 86400 * 1000000000) d
        \<and> (4 * 86400 + 21 * 3600) * 1000000000 = cal_at unix_calendar d (21, 0) * 1000000)"
proof -
  have close: "next_market_close unix_calendar (2 * 86400 * 1000000000) mk_default = Some ((4 * 86400 + 21 * 3600) * 1000000000)"
    by (simp add: next_market_close_def unix_calendar_def ts_millis_def ts_from_millis_def day_ms_def close_time_def
        mk_default_def Let_def unix_weekday_def is_business_day_def skip_to_business_day.simps)
  have closing: "close_time mk_default = (21, 0)" by (simp add: close_time_def mk_default_def)
  have dated: "cal_date_of unix_calendar ms \<noteq> None" for ms by (simp add: unix_calendar_def)
  obtain r where r: "next_market_close unix_calendar (2 * 86400 * 1000000000) mk_default = Some r"
      "if cal_date_of unix_calendar (ts_millis (2 * 86400 * 1000000000)) \<noteq> None
          \<and> (\<exists>d. first_close_after unix_calendar mk_default (2 * 86400 * 1000000000) d)
       then \<exists>d. first_close_after unix_calendar mk_default (2 * 86400 * 1000000000) d
          \<and> r = cal_at unix_calendar d (close_time mk_default) * 1000000
       else r = 2 * 86400 * 1000000000"
    using next_market_close_is_next [OF unix_calendar_laws, of "2 * 86400 * 1000000000" mk_default] by blast
  have "\<exists>d. first_close_after unix_calendar mk_default (2 * 86400 * 1000000000) d
      \<and> r = cal_at unix_calendar d (21, 0) * 1000000"
    using r(2) dated unix_first_close unfolding closing by (auto split: if_splits)
  then obtain d where d: "first_close_after unix_calendar mk_default (2 * 86400 * 1000000000) d"
      "r = cal_at unix_calendar d (21, 0) * 1000000" by blast
  have reached: "r = (4 * 86400 + 21 * 3600) * 1000000000" using r(1) close by (simp only: option.inject)
  then have "\<exists>d. first_close_after unix_calendar mk_default (2 * 86400 * 1000000000) d
      \<and> (4 * 86400 + 21 * 3600) * 1000000000 = cal_at unix_calendar d (21, 0) * 1000000" using d reached by (intro exI [of _ d] conjI) (assumption, erule trans [OF sym])
  with close show ?thesis by (rule conjI)
qed

end
