(* ===== verification/Reporting.thy ===== *)
theory Reporting
  imports Off_Book Market_Calendar Repositories
begin

text \<open>
  Delayed reports of block trades: \<open>src/domain/entities/delayed_report.rs\<close>, the publisher of
  \<open>src/domain/services/report_publisher.rs\<close> over a repository, the events of
  \<open>src/domain/events/reporting_events.rs\<close>, and the in-memory repository,
  \<open>src/infrastructure/persistence/in_memory/delayed_report_repository.rs\<close>.
\<close>

section \<open>Delayed reports\<close>

record 'd trade_summary =
  tsm_instrument :: "'d instrument"
  tsm_price :: "'d price"
  tsm_quantity :: "'d quantity"
  tsm_executed_at :: timestamp

record 'd delayed_report =
  dr_id :: uuid
  dr_trade_id :: uuid
  dr_reporting_tier :: reporting_tier
  dr_trade_summary :: "'d trade_summary"
  dr_publish_at :: timestamp
  dr_published_at :: "timestamp option"
  dr_created_at :: timestamp

definition dr_new :: "timestamp \<Rightarrow> uuid \<Rightarrow> uuid \<Rightarrow> reporting_tier \<Rightarrow> 'd trade_summary \<Rightarrow> timestamp \<Rightarrow> 'd delayed_report" where
  "dr_new now fresh t tier summary due = \<lparr> dr_id = fresh, dr_trade_id = t, dr_reporting_tier = tier,
     dr_trade_summary = summary, dr_publish_at = due, dr_published_at = None, dr_created_at = now \<rparr>"

definition dr_is_published :: "'d delayed_report \<Rightarrow> bool" where
  "dr_is_published r \<longleftrightarrow> dr_published_at r \<noteq> None"

definition dr_is_ready :: "timestamp \<Rightarrow> 'd delayed_report \<Rightarrow> bool" where
  "dr_is_ready now r \<longleftrightarrow> \<not> dr_is_published r \<and> dr_publish_at r \<le> now"

definition dr_mark_published :: "timestamp \<Rightarrow> 'd delayed_report \<Rightarrow> 'd delayed_report" where
  "dr_mark_published now r = r\<lparr> dr_published_at := Some now \<rparr>"

text \<open>The remaining delay in nanoseconds; the clock is read once in \<open>is_ready\<close>'s place here.\<close>

definition dr_delay_remaining :: "timestamp \<Rightarrow> 'd delayed_report \<Rightarrow> int option" where
  "dr_delay_remaining now r = (if dr_is_published r then None else if dr_publish_at r \<le> now then None
     else Some (max 0 (dr_publish_at r - now)))"

text \<open>The events without their metadata.\<close>

record 'd block_trade_reported =
  be_report_id :: uuid
  be_trade_id :: uuid
  be_reporting_tier :: reporting_tier
  be_trade_summary :: "'d trade_summary"
  be_scheduled_at :: timestamp
  be_published_at :: timestamp

record report_scheduled =
  bs_report_id :: uuid
  bs_trade_id :: uuid
  bs_reporting_tier :: reporting_tier
  bs_publish_at :: timestamp

section \<open>The repository\<close>

type_synonym 'd report_store = "uuid \<rightharpoonup> 'd delayed_report"

definition drr_save :: "'d delayed_report \<Rightarrow> ('d report_store, 'd repository_error, unit) op" where
  "drr_save r S = (Inr (), S(dr_id r \<mapsto> r))"

definition drr_find_by_id :: "uuid \<Rightarrow> 'd report_store \<Rightarrow> 'd delayed_report option" where
  "drr_find_by_id i S = S i"

definition drr_find_pending :: "uuid list \<Rightarrow> 'd report_store \<Rightarrow> 'd delayed_report list" where
  "drr_find_pending order S = walk order S (\<lambda>r. \<not> dr_is_published r)"

definition drr_find_ready_to_publish :: "uuid list \<Rightarrow> timestamp \<Rightarrow> 'd report_store \<Rightarrow> 'd delayed_report list" where
  "drr_find_ready_to_publish order now S = walk order S (\<lambda>r. \<not> dr_is_published r \<and> dr_publish_at r \<le> now)"

definition drr_mark_published :: "uuid \<Rightarrow> timestamp \<Rightarrow> ('d report_store, 'd repository_error, unit) op" where
  "drr_mark_published i now S = (case S i of
     None \<Rightarrow> (Inl (RepoNotFound ''DelayedReport'' (Fmt ''{}'' [ArgUuid i])), S)
   | Some r \<Rightarrow> (Inr (), S(i \<mapsto> dr_mark_published now r)))"

definition drr_delete :: "uuid \<Rightarrow> 'd report_store \<Rightarrow> bool \<times> 'd report_store" where
  "drr_delete i S = (S i \<noteq> None, S(i := None))"

definition drr_count_pending :: "uuid list \<Rightarrow> 'd report_store \<Rightarrow> nat" where
  "drr_count_pending order S = length (walk order S (\<lambda>r. \<not> dr_is_published r))"

section \<open>The publisher\<close>

text \<open>What the publisher asks of its repository.\<close>

record ('x, 'd) report_env =
  pe_save :: "'d delayed_report \<Rightarrow> ('x, 'd repository_error, unit) op"
  pe_find_ready_to_publish :: "timestamp \<Rightarrow> ('x, 'd repository_error, 'd delayed_report list) op"
  pe_mark_published :: "uuid \<Rightarrow> timestamp \<Rightarrow> ('x, 'd repository_error, unit) op"
  pe_find_pending :: "('x, 'd repository_error, 'd delayed_report list) op"

definition validation_error :: "string \<Rightarrow> 'd repository_error \<Rightarrow> 'd domain_error" where
  "validation_error text e = ValidationError (Fmt text [ArgMsg (re_display e)])"

text \<open>\<open>as_secs() as i64\<close> reinterprets the 64 bits.\<close>

definition calculate_publish_time :: "'n calendar \<Rightarrow> report_scheduler_config \<Rightarrow> market_calendar_config
    \<Rightarrow> timestamp \<Rightarrow> reporting_tier \<Rightarrow> timestamp option" where
  "calculate_publish_time C sc mc now tier = (case tier of
     StandardTier \<Rightarrow> Some (ts_add_secs now (sint (rs_standard_delay sc)))
   | LargeTier \<Rightarrow> Some (ts_add_secs now (sint (rs_large_delay sc)))
   | VeryLargeTier \<Rightarrow> next_market_close C now mc)"

record schedule_inputs =
  ri_now_publish :: timestamp
  ri_now_summary :: timestamp
  ri_now_created :: timestamp
  ri_report_id :: uuid

text \<open>\<open>None\<close> would be a calendar loop that does not end.\<close>

definition rp_schedule :: "'n calendar \<Rightarrow> report_scheduler_config \<Rightarrow> market_calendar_config \<Rightarrow> ('x, 'd) report_env
    \<Rightarrow> schedule_inputs \<Rightarrow> 'd block_trade \<Rightarrow> ('x, 'd domain_error, 'd delayed_report \<times> report_scheduled) op option" where
  "rp_schedule C sc mc E i t =
     (let tier = (case bt_reporting_tier t of Some tier \<Rightarrow> tier | None \<Rightarrow> StandardTier) in
      map_option (\<lambda>publish_at.
        let summary = \<lparr> tsm_instrument = bt_instrument t, tsm_price = bt_price t, tsm_quantity = bt_quantity t,
              tsm_executed_at = ri_now_summary i \<rparr>;
            report = dr_new (ri_now_created i) (ri_report_id i) (bt_id t) tier summary publish_at in
        op_then (map_err (validation_error ''Failed to save delayed report: {}'') (pe_save E report)) (\<lambda>_.
        op_ret (report, \<lparr> bs_report_id = dr_id report, bs_trade_id = bt_id t, bs_reporting_tier = tier,
          bs_publish_at = publish_at \<rparr>)))
        (calculate_publish_time C sc mc (ri_now_publish i) tier))"

definition rp_publish_report :: "('x, 'd) report_env \<Rightarrow> timestamp \<Rightarrow> 'd delayed_report
    \<Rightarrow> ('x, 'd domain_error, 'd block_trade_reported) op" where
  "rp_publish_report E published_at r =
     op_then (map_err (validation_error ''Failed to mark report as published: {}'')
         (pe_mark_published E (dr_id r) published_at)) (\<lambda>_.
     op_ret \<lparr> be_report_id = dr_id r, be_trade_id = dr_trade_id r, be_reporting_tier = dr_reporting_tier r,
       be_trade_summary = dr_trade_summary r, be_scheduled_at = dr_created_at r, be_published_at = published_at \<rparr>)"

text \<open>
  The loop over the ready reports: a report that cannot be marked is skipped. \<open>clock\<close> gives the
  reading at each of its steps.
\<close>

fun rp_publish_each :: "('x, 'd) report_env \<Rightarrow> (nat \<Rightarrow> timestamp) \<Rightarrow> nat \<Rightarrow> 'd delayed_report list \<Rightarrow> 'x
    \<Rightarrow> 'd block_trade_reported list \<times> 'x" where
  "rp_publish_each E clock k [] x = ([], x)"
| "rp_publish_each E clock k (r # rs) x =
     (case rp_publish_report E (clock k) r x of
        (Inr e, x) \<Rightarrow> (case rp_publish_each E clock (Suc k) rs x of (es, x) \<Rightarrow> (e # es, x))
      | (Inl _, x) \<Rightarrow> rp_publish_each E clock (Suc k) rs x)"

record 'd publish_result =
  pr_published_count :: nat
  pr_events :: "'d block_trade_reported list"

definition rp_process_ready :: "('x, 'd) report_env \<Rightarrow> timestamp \<Rightarrow> (nat \<Rightarrow> timestamp)
    \<Rightarrow> ('x, 'd domain_error, 'd publish_result) op" where
  "rp_process_ready E now clock =
     op_then (map_err (validation_error ''Failed to find ready reports: {}'') (pe_find_ready_to_publish E now)) (\<lambda>ready x.
       if ready = [] then (Inr \<lparr> pr_published_count = 0, pr_events = [] \<rparr>, x)
       else case rp_publish_each E clock 0 ready x of
         (events, x) \<Rightarrow> (Inr \<lparr> pr_published_count = length events, pr_events = events \<rparr>, x))"

text \<open>Delays in milliseconds.\<close>

definition rp_next_check_delay :: "('x, 'd) report_env \<Rightarrow> timestamp \<Rightarrow> 'x \<Rightarrow> int \<times> 'x" where
  "rp_next_check_delay E now x = (case pe_find_pending E x of
     (Inl _, x) \<Rightarrow> (60000, x)
   | (Inr pending, x) \<Rightarrow>
       if pending = [] then (60000, x)
       else (max 1000 (Min (set (map (\<lambda>r. max 0 (ts_millis (dr_publish_at r) - ts_millis now)) pending))), x))"

text \<open>The environment that the in-memory repository is; \<open>order\<close> walks the keys of the hash map.\<close>

definition memory_reports :: "('d report_store \<Rightarrow> uuid list) \<Rightarrow> ('d report_store, 'd) report_env" where
  "memory_reports order = \<lparr> pe_save = drr_save,
     pe_find_ready_to_publish = (\<lambda>now S. (Inr (drr_find_ready_to_publish (order S) now S), S)),
     pe_mark_published = drr_mark_published,
     pe_find_pending = (\<lambda>S. (Inr (drr_find_pending (order S) S), S)) \<rparr>"

definition walks_all :: "('d report_store \<Rightarrow> uuid list) \<Rightarrow> bool" where
  "walks_all order \<longleftrightarrow> (\<forall>S. finite (dom S) \<longrightarrow> set (order S) = dom S \<and> distinct (order S))"

definition reports_ok :: "'d report_store \<Rightarrow> bool" where
  "reports_ok S \<longleftrightarrow> finite (dom S) \<and> (\<forall>i r. S i = Some r \<longrightarrow> dr_id r = i)"

section \<open>Histories\<close>

text \<open>The report that scheduling a trade saves.\<close>

definition report_of :: "'n calendar \<Rightarrow> report_scheduler_config \<Rightarrow> market_calendar_config \<Rightarrow> schedule_inputs
    \<Rightarrow> 'd block_trade \<Rightarrow> 'd delayed_report option" where
  "report_of C sc mc i t = (let tier = (case bt_reporting_tier t of Some tier \<Rightarrow> tier | None \<Rightarrow> StandardTier) in
     map_option (dr_new (ri_now_created i) (ri_report_id i) (bt_id t) tier
       \<lparr> tsm_instrument = bt_instrument t, tsm_price = bt_price t, tsm_quantity = bt_quantity t, tsm_executed_at = ri_now_summary i \<rparr>)
       (calculate_publish_time C sc mc (ri_now_publish i) tier))"

datatype 'd report_call = ScheduleReport schedule_inputs "'d block_trade" | ProcessReady timestamp "nat \<Rightarrow> timestamp"

fun report_apply :: "'n calendar \<Rightarrow> report_scheduler_config \<Rightarrow> market_calendar_config \<Rightarrow> ('x, 'd) report_env
    \<Rightarrow> 'd report_call \<Rightarrow> 'x \<Rightarrow> 'd block_trade_reported list \<times> 'x" where
  "report_apply C sc mc E (ScheduleReport i t) x = (case rp_schedule C sc mc E i t of
     None \<Rightarrow> ([], x) | Some m \<Rightarrow> ([], snd (m x)))"
| "report_apply C sc mc E (ProcessReady now clock) x = (case rp_process_ready E now clock x of
     (Inr res, x) \<Rightarrow> (pr_events res, x) | (Inl _, x) \<Rightarrow> ([], x))"

fun report_run :: "'n calendar \<Rightarrow> report_scheduler_config \<Rightarrow> market_calendar_config \<Rightarrow> ('x, 'd) report_env
    \<Rightarrow> 'd report_call list \<Rightarrow> 'x \<Rightarrow> 'd block_trade_reported list \<times> 'x" where
  "report_run C sc mc E [] x = ([], x)"
| "report_run C sc mc E (c # cs) x = (case report_apply C sc mc E c x of
     (es, x) \<Rightarrow> case report_run C sc mc E cs x of (es', x) \<Rightarrow> (es @ es', x))"

text \<open>The identifiers that scheduling draws, which are fresh, and a clock that does not go back.\<close>

fun drawn_ids :: "'d report_call list \<Rightarrow> uuid list" where
  "drawn_ids [] = []"
| "drawn_ids (ScheduleReport i t # cs) = ri_report_id i # drawn_ids cs"
| "drawn_ids (ProcessReady now clock # cs) = drawn_ids cs"

definition clock_forward :: "'d report_call list \<Rightarrow> bool" where
  "clock_forward cs \<longleftrightarrow> (\<forall>now clock k. ProcessReady now clock \<in> set cs \<longrightarrow> now \<le> clock k)"

lemma rp_schedule_saves:
  "rp_schedule C sc mc E i t = Some m \<Longrightarrow> \<exists>r. report_of C sc mc i t = Some r \<and> dr_id r = ri_report_id i
     \<and> \<not> dr_is_published r \<and> snd (m x) = snd (pe_save E r x)"
  by (auto simp: rp_schedule_def report_of_def Let_def dr_new_def dr_is_published_def op_then_def map_err_def op_ret_def
      split: prod.splits sum.splits)

section \<open>What the publisher relies on\<close>

definition published_in :: "'d report_store \<Rightarrow> uuid \<Rightarrow> bool" where
  "published_in S i \<longleftrightarrow> (\<exists>r. S i = Some r \<and> dr_is_published r)"

text \<open>The event is about the report.\<close>

definition reports_it :: "'d delayed_report \<Rightarrow> 'd block_trade_reported \<Rightarrow> bool" where
  "reports_it r e \<longleftrightarrow> be_report_id e = dr_id r \<and> be_trade_id e = dr_trade_id r
     \<and> be_reporting_tier e = dr_reporting_tier r \<and> be_trade_summary e = dr_trade_summary r"

text \<open>The event is about an unpublished report of the store or one that a call schedules, and not early.\<close>

definition due_event :: "'n calendar \<Rightarrow> report_scheduler_config \<Rightarrow> market_calendar_config \<Rightarrow> 'd report_call list
    \<Rightarrow> 'd report_store \<Rightarrow> 'd block_trade_reported \<Rightarrow> bool" where
  "due_event C sc mc cs S e \<longleftrightarrow> (\<exists>r. (S (dr_id r) = Some r \<and> \<not> dr_is_published r
        \<or> (\<exists>i t. ScheduleReport i t \<in> set cs \<and> report_of C sc mc i t = Some r))
      \<and> reports_it r e \<and> dr_publish_at r \<le> be_published_at e)"

lemma due_event_mono:
  assumes "due_event C sc mc cs S e" "set cs \<subseteq> set cs'"
    and "\<And>r. S (dr_id r) = Some r \<Longrightarrow> \<not> dr_is_published r \<Longrightarrow> S' (dr_id r) = Some r
      \<or> (\<exists>i t. ScheduleReport i t \<in> set cs' \<and> report_of C sc mc i t = Some r)"
  shows "due_event C sc mc cs' S' e"
  using assms unfolding due_event_def by blast

locale report_store =
  fixes E :: "('x, 'd) report_env" and view :: "'x \<Rightarrow> 'd report_store" and ok :: "'x \<Rightarrow> bool"
  assumes save: "ok x \<Longrightarrow> pe_save E r x = (a, x') \<Longrightarrow>
      ok x' \<and> view x' = (case a of Inl _ \<Rightarrow> view x | Inr _ \<Rightarrow> (view x)(dr_id r \<mapsto> r))"
    and find_ready: "ok x \<Longrightarrow> pe_find_ready_to_publish E now x = (found, x') \<Longrightarrow>
      ok x' \<and> view x' = view x \<and> (\<forall>rs. found = Inr rs \<longrightarrow> distinct (map dr_id rs)
        \<and> set rs = {r. view x (dr_id r) = Some r \<and> \<not> dr_is_published r \<and> dr_publish_at r \<le> now})"
    and mark: "ok x \<Longrightarrow> pe_mark_published E i t x = (a, x') \<Longrightarrow>
      ok x' \<and> (case a of Inl _ \<Rightarrow> view x' = view x
        | Inr _ \<Rightarrow> \<exists>r. view x i = Some r \<and> view x' = (view x)(i \<mapsto> dr_mark_published t r))"
begin

lemma publish_each:
  assumes "ok x" "rp_publish_each E clock k rs x = (es, x')"
  shows "ok x' \<and> dom (view x') = dom (view x)
    \<and> be_report_id ` set es \<subseteq> dr_id ` set rs \<and> (distinct (map dr_id rs) \<longrightarrow> distinct (map be_report_id es))
    \<and> (\<forall>e\<in>set es. \<exists>r\<in>set rs. reports_it r e \<and> (\<exists>j. be_published_at e = clock j))
    \<and> (\<forall>i. published_in (view x') i \<longleftrightarrow> published_in (view x) i \<or> i \<in> be_report_id ` set es)
    \<and> (\<forall>i r. view x' i = Some r \<longrightarrow> \<not> dr_is_published r \<longrightarrow> view x i = Some r)"
  using assms
proof (induction rs arbitrary: k x x' es)
  case (Cons r rs)
  obtain a x1 where a: "pe_mark_published E (dr_id r) (clock k) x = (a, x1)" by (metis prod.collapse)
  note m = mark [OF Cons.prems(1) a]
  obtain es1 x2 where rest: "rp_publish_each E clock (Suc k) rs x1 = (es1, x2)" by (metis prod.collapse)
  note ih = Cons.IH [OF conjunct1 [OF m] rest]
  show ?case
  proof (cases a)
    case (Inl e)
    then have "es = es1" "x' = x2" "view x1 = view x"
      using Cons.prems(2) a rest m by (auto simp: rp_publish_report_def op_then_def map_err_def)
    then show ?thesis using ih by auto
  next
    case (Inr u)
    then obtain e where e: "es = e # es1" "x' = x2" "reports_it r e" "be_published_at e = clock k"
      using Cons.prems(2) a rest
      by (auto simp: rp_publish_report_def op_then_def map_err_def op_ret_def reports_it_def)
    obtain r' where r': "view x (dr_id r) = Some r'" "view x1 = (view x)(dr_id r \<mapsto> dr_mark_published (clock k) r')"
      using m Inr by auto
    then have pub: "published_in (view x1) i \<longleftrightarrow> published_in (view x) i \<or> i = dr_id r" for i
      by (auto simp: published_in_def dr_is_published_def dr_mark_published_def)
    have doms: "dom (view x1) = dom (view x)" using r' by auto
    have kept: "view x i = Some q" if "view x1 i = Some q" "\<not> dr_is_published q" for i q
      using r'(2) that by (auto simp: dr_is_published_def dr_mark_published_def split: if_splits)
    have "be_report_id e = dr_id r" using e(3) by (simp add: reports_it_def)
    then show ?thesis using ih e(3,4) kept unfolding e(1,2) pub doms by auto
  qed
qed simp

lemma process_ready:
  assumes "ok x" "rp_process_ready E now clock x = (a, x')"
  shows "ok x' \<and> dom (view x') = dom (view x)
    \<and> (\<forall>i r. view x' i = Some r \<longrightarrow> \<not> dr_is_published r \<longrightarrow> view x i = Some r) \<and> (case a of
      Inl _ \<Rightarrow> view x' = view x
    | Inr res \<Rightarrow> distinct (map be_report_id (pr_events res))
        \<and> (\<forall>e\<in>set (pr_events res). \<not> published_in (view x) (be_report_id e)
            \<and> (\<exists>r. view x (dr_id r) = Some r \<and> reports_it r e \<and> dr_publish_at r \<le> now) \<and> (\<exists>j. be_published_at e = clock j))
        \<and> (\<forall>i. published_in (view x') i \<longleftrightarrow> published_in (view x) i \<or> i \<in> be_report_id ` set (pr_events res)))"
proof -
  obtain b x1 where b: "pe_find_ready_to_publish E now x = (b, x1)" by (metis prod.collapse)
  note f = find_ready [OF assms(1) b]
  show ?thesis
  proof (cases b)
    case (Inl e)
    then show ?thesis using assms(2) b f by (auto simp: rp_process_ready_def op_then_def map_err_def)
  next
    case (Inr rs)
    obtain es x2 where run: "rp_publish_each E clock 0 rs x1 = (es, x2)" by (metis prod.collapse)
    have res: "a = Inr \<lparr> pr_published_count = length es, pr_events = es \<rparr>" "x' = x2"
      using assms(2) b Inr run by (auto simp: rp_process_ready_def op_then_def map_err_def split: if_splits)
    have rs: "distinct (map dr_id rs)"
        "\<And>r. r \<in> set rs \<Longrightarrow> view x (dr_id r) = Some r \<and> \<not> dr_is_published r \<and> dr_publish_at r \<le> now"
      using f Inr by auto
    note each = publish_each [OF conjunct1 [OF f] run]
    have view1: "view x1 = view x" using f by blast
    have ids: "distinct (map be_report_id es)" using each rs(1) by blast
    have from_ready: "\<forall>e\<in>set es. \<exists>r\<in>set rs. reports_it r e \<and> (\<exists>j. be_published_at e = clock j)"
      using each by (elim conjE)
    have new: "\<not> published_in (view x) (be_report_id e)
            \<and> (\<exists>r. view x (dr_id r) = Some r \<and> reports_it r e \<and> dr_publish_at r \<le> now) \<and> (\<exists>j. be_published_at e = clock j)"
      if mem: "e \<in> set es" for e
    proof -
      obtain r j where r: "r \<in> set rs" "reports_it r e" "be_published_at e = clock j" using from_ready mem by blast
      then have "\<not> published_in (view x) (be_report_id e)" using rs(2) [OF r(1)] by (auto simp: published_in_def reports_it_def)
      then show ?thesis using r rs(2) [OF r(1)] by blast
    qed
    have "ok x'" "dom (view x') = dom (view x)"
      "\<forall>i r. view x' i = Some r \<longrightarrow> \<not> dr_is_published r \<longrightarrow> view x i = Some r"
      "\<forall>i. published_in (view x') i \<longleftrightarrow> published_in (view x) i \<or> i \<in> be_report_id ` set es"
      using each unfolding res(2) view1 by simp_all
    then show ?thesis using ids new by (intro conjI, simp_all only: res(1) sum.case publish_result.simps simp_thms) blast
  qed
qed

lemma schedule_step:
  assumes "ok x" "report_apply C sc mc E (ScheduleReport i t) x = (es, x')"
  shows "es = [] \<and> ok x' \<and> (view x' = view x \<or> (\<exists>r. report_of C sc mc i t = Some r \<and> dr_id r = ri_report_id i
      \<and> \<not> dr_is_published r \<and> view x' = (view x)(dr_id r \<mapsto> r)))"
proof (cases "rp_schedule C sc mc E i t")
  case None
  then show ?thesis using assms by simp
next
  case (Some m)
  obtain r where r: "report_of C sc mc i t = Some r" "dr_id r = ri_report_id i" "\<not> dr_is_published r"
      "snd (m x) = snd (pe_save E r x)" using rp_schedule_saves [OF Some] by blast
  obtain a x3 where s: "pe_save E r x = (a, x3)" by (metis prod.collapse)
  have "x' = x3" "es = []" using assms(2) Some r(4) s by auto
  then show ?thesis using save [OF assms(1) s] r by (auto split: sum.splits)
qed

lemma process_step:
  assumes "ok x" "report_apply C sc mc E (ProcessReady now clock) x = (es, x')"
  shows "ok x' \<and> dom (view x') = dom (view x) \<and> distinct (map be_report_id es)
    \<and> (\<forall>i r. view x' i = Some r \<longrightarrow> \<not> dr_is_published r \<longrightarrow> view x i = Some r)
    \<and> (\<forall>e\<in>set es. \<not> published_in (view x) (be_report_id e)
        \<and> (\<exists>r. view x (dr_id r) = Some r \<and> reports_it r e \<and> dr_publish_at r \<le> now) \<and> (\<exists>j. be_published_at e = clock j))
    \<and> (\<forall>i. published_in (view x') i \<longleftrightarrow> published_in (view x) i \<or> i \<in> be_report_id ` set es)"
proof -
  obtain a x3 where p: "rp_process_ready E now clock x = (a, x3)" by (metis prod.collapse)
  have res: "x' = x3" "es = (case a of Inl _ \<Rightarrow> [] | Inr res \<Rightarrow> pr_events res)"
    using assms(2) p by (auto split: sum.splits)
  show ?thesis
  proof (cases a)
    case (Inl e)
    have none: "es = []" using res(2) Inl by simp
    have "ok x3 \<and> view x3 = view x" using process_ready [OF assms(1) p] Inl by (simp only: sum.case)
    then show ?thesis unfolding res(1) none by (auto simp only: list.set list.map distinct.simps image_empty)
  next
    case (Inr v)
    then show ?thesis using process_ready [OF assms(1) p] unfolding res by (simp only: sum.case) blast
  qed
qed

lemma report_history:
  assumes "ok x" "report_run C sc mc E cs x = (es, x')"
    and "distinct (drawn_ids cs)" "set (drawn_ids cs) \<inter> dom (view x) = {}" "clock_forward cs"
  shows "distinct (map be_report_id es)
    \<and> (\<forall>e\<in>set es. \<not> published_in (view x) (be_report_id e) \<and> due_event C sc mc cs (view x) e)"
  using assms
proof (induction cs arbitrary: x es x')
  case (Cons c cs)
  obtain es1 x1 where one: "report_apply C sc mc E c x = (es1, x1)" by (metis prod.collapse)
  obtain es2 x2 where rest: "report_run C sc mc E cs x1 = (es2, x2)" by (metis prod.collapse)
  have es: "es = es1 @ es2" using Cons.prems(2) one rest by simp
  have fwd: "clock_forward cs" using Cons.prems(5) by (auto simp: clock_forward_def)
  have more: "set cs \<subseteq> set (c # cs)" by auto
  show ?case
  proof (cases c)
    case (ScheduleReport i t)
    have ids: "distinct (drawn_ids cs)" "ri_report_id i \<notin> dom (view x)" "ri_report_id i \<notin> set (drawn_ids cs)"
        "set (drawn_ids cs) \<inter> dom (view x) = {}" using Cons.prems(3,4) ScheduleReport by auto
    have "report_apply C sc mc E (ScheduleReport i t) x = (es1, x1)" using one ScheduleReport by simp
    from schedule_step [OF Cons.prems(1) this] have none: "es1 = []" and ok1: "ok x1"
      and view1: "view x1 = view x \<or> (\<exists>r. report_of C sc mc i t = Some r \<and> dr_id r = ri_report_id i
        \<and> \<not> dr_is_published r \<and> view x1 = (view x)(dr_id r \<mapsto> r))" by blast+
    have pub: "published_in (view x1) j \<longleftrightarrow> published_in (view x) j" for j
      using view1 ids(2) by (cases "j = ri_report_id i") (auto simp: published_in_def)
    have dis: "set (drawn_ids cs) \<inter> dom (view x1) = {}" using view1 ids by (auto split: if_splits)
    note ih = Cons.IH [OF ok1 rest ids(1) dis fwd]
    have stored: "view x (dr_id q) = Some q \<or> report_of C sc mc i t = Some q" if "view x1 (dr_id q) = Some q" for q
      using view1 that by (auto split: if_splits)
    have mine: "ScheduleReport i t \<in> set (c # cs)" using ScheduleReport by simp
    have "due_event C sc mc (c # cs) (view x) e" if "due_event C sc mc cs (view x1) e" for e
      by (rule due_event_mono [OF that more]) (use stored mine in blast)
    then show ?thesis using ih by (simp add: es none pub)
  next
    case (ProcessReady now clock)
    have ids: "distinct (drawn_ids cs)" "set (drawn_ids cs) \<inter> dom (view x) = {}"
      using Cons.prems(3,4) ProcessReady by auto
    have "report_apply C sc mc E (ProcessReady now clock) x = (es1, x1)" using one ProcessReady by simp
    note d = process_step [OF Cons.prems(1) this]
    have ok1: "ok x1" "dom (view x1) = dom (view x)" using d by simp_all
    have kept: "view x (dr_id q) = Some q" if "view x1 (dr_id q) = Some q" "\<not> dr_is_published q" for q
      using d that by blast
    have events: "distinct (map be_report_id es1)"
        "\<And>i. published_in (view x1) i \<longleftrightarrow> published_in (view x) i \<or> i \<in> be_report_id ` set es1"
        "\<And>e. e \<in> set es1 \<Longrightarrow> \<not> published_in (view x) (be_report_id e) \<and> (\<exists>r. view x (dr_id r) = Some r
          \<and> reports_it r e \<and> dr_publish_at r \<le> now) \<and> (\<exists>j. be_published_at e = clock j)"
      using d by simp_all
    have "due_event C sc mc (c # cs) (view x) e" if mem: "e \<in> set es1" for e
    proof -
      obtain r j where "view x (dr_id r) = Some r" "reports_it r e" "dr_publish_at r \<le> now" "be_published_at e = clock j"
          "\<not> published_in (view x) (be_report_id e)"
        using events(3) [OF mem] by blast
      moreover have "now \<le> clock j" using Cons.prems(5) ProcessReady by (auto simp: clock_forward_def)
      ultimately show ?thesis unfolding due_event_def by (intro exI [of _ r]) (auto simp: published_in_def reports_it_def)
    qed
    moreover have "due_event C sc mc (c # cs) (view x) e" if "due_event C sc mc cs (view x1) e" for e
      using due_event_mono [OF that more] kept by blast
    moreover have dis: "set (drawn_ids cs) \<inter> dom (view x1) = {}" using ids ok1(2) by simp
    note ih = Cons.IH [OF ok1(1) rest ids(1) dis fwd]
    moreover have "be_report_id q \<notin> be_report_id ` set es1" if "q \<in> set es2" for q
      using conjunct2 [OF ih] that events(2) by blast
    then have "be_report_id ` set es1 \<inter> be_report_id ` set es2 = {}" unfolding disjoint_iff by (metis imageE)
    ultimately show ?thesis using ih events(1,3) by (simp add: es events(2) ball_Un)
  qed
qed simp

lemma run_keeps_ok: "ok x \<Longrightarrow> ok (snd (report_run C sc mc E cs x))"
proof (induction cs arbitrary: x)
  case (Cons c cs)
  have "ok (snd (report_apply C sc mc E c x))"
  proof (cases c)
    case (ScheduleReport i t)
    have "ok (snd (m x))" if m: "rp_schedule C sc mc E i t = Some m" for m
      using rp_schedule_saves [OF m] save [OF Cons.prems prod.collapse [symmetric]] by metis
    then show ?thesis using Cons.prems ScheduleReport by (simp split: option.split)
  next
    case (ProcessReady now clock)
    then show ?thesis using process_ready [OF Cons.prems prod.collapse [symmetric], of now clock]
      by (auto split: prod.split sum.split)
  qed
  from Cons.IH [OF this] show ?case by (simp split: prod.split add: prod.case_eq_if)
qed simp

end

section \<open>The in-memory repository keeps the contract\<close>

lemma set_walk: "set (walk order S P) = {r. \<exists>i\<in>set order. S i = Some r \<and> P r}"
  by (induction order) (auto simp: walk_def List.map_filter_simps split: option.splits)

lemma distinct_walk:
  "distinct order \<Longrightarrow> (\<And>i r. S i = Some r \<Longrightarrow> dr_id r = i) \<Longrightarrow> distinct (map dr_id (walk order S P))"
proof (induction order)
  case (Cons i order)
  have "dr_id r \<noteq> i" if "r \<in> set (walk order S P)" for r
    using that Cons.prems by (auto simp: set_walk)
  then show ?case using Cons by (auto simp: walk_def List.map_filter_simps split: option.splits)
qed (simp add: walk_def List.map_filter_simps)

lemma memory_report_store: "walks_all order \<Longrightarrow> report_store (memory_reports order) (\<lambda>S. S) reports_ok"
  by unfold_locales
    (auto simp: memory_reports_def drr_save_def drr_mark_published_def drr_find_ready_to_publish_def reports_ok_def
      walks_all_def set_walk distinct_walk dr_mark_published_def intro!: bexI [OF _ domI] split: option.splits if_splits)

definition sorted_order :: "'d report_store \<Rightarrow> uuid list" where
  "sorted_order S = sorted_list_of_set (dom S)"

lemma sorted_order_walks: "walks_all sorted_order"
  by (simp add: walks_all_def sorted_order_def)

interpretation memory: report_store "memory_reports sorted_order" "\<lambda>S. S" reports_ok
  by (rule memory_report_store [OF sorted_order_walks])

lemma memory_publish_each:
  assumes "rp_publish_each (memory_reports order) clock k rs S = (es, S')" "\<forall>r\<in>set rs. S (dr_id r) \<noteq> None"
  shows "map be_report_id es = map dr_id rs"
  using assms
proof (induction rs arbitrary: k S es S')
  case (Cons r rs)
  obtain q where q: "S (dr_id r) = Some q" using Cons.prems(2) by auto
  let ?S1 = "S(dr_id r \<mapsto> dr_mark_published (clock k) q)"
  obtain es1 S2 where rest: "rp_publish_each (memory_reports order) clock (Suc k) rs ?S1 = (es1, S2)" by (metis prod.collapse)
  have "map be_report_id es1 = map dr_id rs" using Cons.IH [OF rest] Cons.prems(2) by auto
  then show ?case using Cons.prems(1) rest q
    by (auto simp: rp_publish_report_def memory_reports_def drr_mark_published_def op_then_def map_err_def op_ret_def)
qed simp

lemma memory_process_ready:
  assumes "walks_all order" "reports_ok S" "rp_process_ready (memory_reports order) now clock S = (a, S')"
  shows "\<exists>res. a = Inr res \<and> be_report_id ` set (pr_events res) = {i. \<exists>r. S i = Some r \<and> dr_is_ready now r}"
proof -
  let ?ready = "drr_find_ready_to_publish (order S) now S"
  obtain es S2 where run: "rp_publish_each (memory_reports order) clock 0 ?ready S = (es, S2)" by (metis prod.collapse)
  have ready: "set ?ready = {r. S (dr_id r) = Some r \<and> \<not> dr_is_published r \<and> dr_publish_at r \<le> now}"
    using report_store.find_ready [OF memory_report_store [OF assms(1)], OF assms(2), of now "Inr ?ready" S]
    by (simp add: memory_reports_def)
  have "map be_report_id es = map dr_id ?ready"
    by (rule memory_publish_each [OF run]) (simp add: ready)
  then have "be_report_id ` set es = dr_id ` set ?ready" by (metis list.set_map)
  also have "\<dots> = {i. \<exists>r. S i = Some r \<and> dr_is_ready now r}"
    using assms(2) unfolding ready by (auto simp: reports_ok_def dr_is_ready_def image_iff)
  moreover have "\<exists>res. a = Inr res \<and> pr_events res = es"
    using assms(3) run by (auto simp: rp_process_ready_def memory_reports_def op_then_def map_err_def split: if_splits)
  ultimately show ?thesis by auto
qed

lemma report_run_snoc:
  "report_run C sc mc E (cs @ [c]) x = (case report_run C sc mc E cs x of (es, x) \<Rightarrow>
     case report_apply C sc mc E c x of (es', x) \<Rightarrow> (es @ es', x))"
  by (induction cs arbitrary: x) (auto split: prod.split)

lemma nothing_left_ready:
  assumes "walks_all order" "reports_ok S" "report_run C sc mc (memory_reports order) (cs @ [ProcessReady now clock]) S = (es, S')"
    and "S' i = Some r"
  shows "dr_is_published r \<or> now < dr_publish_at r"
proof -
  note store = memory_report_store [OF assms(1)]
  obtain es1 S1 where run: "report_run C sc mc (memory_reports order) cs S = (es1, S1)" by (metis prod.collapse)
  have ok: "reports_ok S1" using report_store.run_keeps_ok [OF store, OF assms(2), of C sc mc cs] by (simp add: run)
  obtain a S2 where p: "rp_process_ready (memory_reports order) now clock S1 = (a, S2)" by (metis prod.collapse)
  obtain res where res: "a = Inr res" "be_report_id ` set (pr_events res) = {i. \<exists>r. S1 i = Some r \<and> dr_is_ready now r}"
    using memory_process_ready [OF assms(1) ok p] by blast
  have "S' = S2" using assms(3) run p res(1) by (simp add: report_run_snoc)
  then have "S1 i = Some r \<or> dr_is_published r" "published_in S' i \<longleftrightarrow> published_in S1 i \<or> i \<in> be_report_id ` set (pr_events res)"
    using report_store.process_ready [OF store, OF ok p] res(1) assms(4) by auto
  then show ?thesis using res(2) assms(4) by (fastforce simp: published_in_def dr_is_ready_def)
qed

section \<open>Properties\<close>

text \<open>
  C13. Reports are published once and on time: over any history of scheduling and processing on an
  empty in-memory repository, with fresh identifiers and a clock that does not go back, every event is
  about a report that a call scheduled and not before its time, no report is published twice, and
  after processing no report is left that was due.
\<close>

theorem reports_published_once_on_time:
  assumes "walks_all order" "distinct (drawn_ids cs)" "clock_forward cs"
    and "report_run C sc mc (memory_reports order) cs Map.empty = (es, S)"
  shows "distinct (map be_report_id es)
    \<and> (\<forall>e\<in>set es. \<exists>i t r. ScheduleReport i t \<in> set cs \<and> report_of C sc mc i t = Some r
        \<and> reports_it r e \<and> dr_publish_at r \<le> be_published_at e)
    \<and> (\<forall>cs' now clock i r. cs = cs' @ [ProcessReady now clock] \<longrightarrow> S i = Some r
        \<longrightarrow> dr_is_published r \<or> now < dr_publish_at r)"
proof -
  have ok: "reports_ok Map.empty" by (simp add: reports_ok_def)
  note history = report_store.report_history [OF memory_report_store [OF assms(1)], OF ok assms(4,2) _ assms(3)]
  have "distinct (map be_report_id es)" "\<forall>e\<in>set es. due_event C sc mc cs Map.empty e"
    using history by simp_all
  moreover have "dr_is_published r \<or> now < dr_publish_at r"
    if "cs = cs' @ [ProcessReady now clock]" "S i = Some r" for cs' now clock i r
    by (rule nothing_left_ready [OF assms(1) ok, where S' = S and i = i]) (use assms(4) that in auto)
  ultimately show ?thesis unfolding due_event_def by (intro conjI) (simp, fastforce, blast)
qed

text \<open>
  Marking a report published does not look whether it is: when a second publisher runs while the
  first has found the ready reports and not yet marked them, every report the first one announces
  has been announced by the second.
\<close>

theorem concurrent_publishers_report_twice:
  assumes "walks_all order" "reports_ok S" "now \<le> now'"
    and "pe_find_ready_to_publish (memory_reports order) now S = (Inr ready, S1)"
    and "rp_process_ready (memory_reports order) now' clock' S1 = (Inr res, S2)"
    and "rp_publish_each (memory_reports order) clock 0 ready S2 = (es, S3)"
  shows "map be_report_id es = map dr_id ready \<and> be_report_id ` set es \<subseteq> be_report_id ` set (pr_events res)"
proof -
  note store = memory_report_store [OF assms(1)]
  note found = report_store.find_ready [OF store, OF assms(2,4)]
  have ready: "S (dr_id r) = Some r \<and> dr_is_ready now' r" if "r \<in> set ready" for r
    using found that assms(3) by (auto simp: dr_is_ready_def)
  have S1: "S1 = S" "reports_ok S1" using found assms(2) by auto
  have "dom S2 = dom S" using report_store.process_ready [OF store, OF S1(2) assms(5)] S1(1) by simp
  then have ids: "map be_report_id es = map dr_id ready"
    using memory_publish_each [OF assms(6)] ready by blast
  moreover have "be_report_id ` set (pr_events res) = {i. \<exists>r. S i = Some r \<and> dr_is_ready now' r}"
    using memory_process_ready [OF assms(1) S1(2) assms(5)] S1(1) by auto
  moreover have "be_report_id ` set es = dr_id ` set ready" using ids by (metis list.set_map)
  ultimately show ?thesis using ready by auto
qed

text \<open>A trade scheduled, processed too early, then twice when it is due.\<close>

definition sample_schedule :: "int report_call list" where
  "sample_schedule = [ScheduleReport \<lparr> ri_now_publish = 0, ri_now_summary = 0, ri_now_created = 0, ri_report_id = 5 \<rparr> block_sample,
     ProcessReady 10 (\<lambda>_. 10), ProcessReady 900000000000 (\<lambda>_. 900000000001), ProcessReady 900000000002 (\<lambda>_. 900000000003)]"

lemmas report_defs = rp_schedule_def calculate_publish_time_def rp_process_ready_def rp_publish_report_def memory_reports_def
  drr_save_def drr_mark_published_def drr_find_ready_to_publish_def op_then_def map_err_def op_ret_def dr_new_def
  dr_is_published_def dr_mark_published_def walk_def sorted_order_def List.map_filter_simps

lemma sample_run:
  "\<exists>e S. report_run unix_calendar rsc_default mk_default (memory_reports sorted_order) sample_schedule Map.empty = ([e], S)
     \<and> be_report_id e = 5"
  by (simp add: sample_schedule_def report_defs Let_def block_sample_def rsc_default_def ts_add_secs_def)

lemma reports_published_once_on_time_witness:
  "\<exists>e S. report_run unix_calendar rsc_default mk_default (memory_reports sorted_order) sample_schedule Map.empty = ([e], S)
     \<and> (\<exists>i t r. ScheduleReport i t \<in> set sample_schedule \<and> report_of unix_calendar rsc_default mk_default i t = Some r
       \<and> reports_it r e \<and> dr_publish_at r \<le> be_published_at e)"
proof -
  obtain e S where run: "report_run unix_calendar rsc_default mk_default (memory_reports sorted_order) sample_schedule Map.empty = ([e], S)"
    using sample_run by blast
  have "distinct (drawn_ids sample_schedule)" "clock_forward sample_schedule"
    by (auto simp: sample_schedule_def clock_forward_def)
  from reports_published_once_on_time [OF sorted_order_walks this run] run show ?thesis by auto
qed

text \<open>One ready report, announced by both of two publishers.\<close>

lemma concurrent_publishers_report_twice_witness:
  "\<exists>res S2 es S3. let S = [5 \<mapsto> dr_new 0 5 9 StandardTier \<lparr> tsm_instrument = bt_instrument block_sample, tsm_price = Price 3,
        tsm_quantity = Quantity 4, tsm_executed_at = 0 \<rparr> 100] in
      rp_process_ready (memory_reports sorted_order) 100 (\<lambda>_. 100) S = (Inr res, S2)
    \<and> rp_publish_each (memory_reports sorted_order) (\<lambda>_. 101) 0 (drr_find_ready_to_publish (sorted_order S) 100 S) S2 = (es, S3)
    \<and> es \<noteq> [] \<and> be_report_id ` set es \<subseteq> be_report_id ` set (pr_events res)"
proof -
  let ?r = "dr_new 0 5 9 StandardTier \<lparr> tsm_instrument = bt_instrument block_sample, tsm_price = Price 3,
        tsm_quantity = Quantity 4, tsm_executed_at = 0 \<rparr> 100 :: int delayed_report"
  let ?S = "[5 \<mapsto> ?r]"
  let ?found = "drr_find_ready_to_publish (sorted_order ?S) 100 ?S"
  have found: "pe_find_ready_to_publish (memory_reports sorted_order) 100 ?S = (Inr ?found, ?S)"
    by (simp add: memory_reports_def)
  have ok: "reports_ok ?S" by (simp add: reports_ok_def dr_new_def)
  obtain a S2 where p: "rp_process_ready (memory_reports sorted_order) 100 (\<lambda>_. 100) ?S = (a, S2)" by (metis prod.collapse)
  obtain res where res: "a = Inr res" using memory_process_ready [OF sorted_order_walks ok p] by blast
  obtain es S3 where e: "rp_publish_each (memory_reports sorted_order) (\<lambda>_. 101) 0 ?found S2 = (es, S3)" by (metis prod.collapse)
  have "?found = [?r]" by (simp add: report_defs)
  then show ?thesis
    using concurrent_publishers_report_twice [OF sorted_order_walks ok _ found p [unfolded res] e] p res e by (auto simp: Let_def)
qed

end
