(* ===== verification/Mm_Performance.thy ===== *)
theory Mm_Performance
  imports Lifecycle Float64
begin

text \<open>
  Market-maker performance: the events and metrics of \<open>src/domain/entities/mm_performance.rs\<close>, the
  tracker of \<open>src/domain/services/mm_performance.rs\<close> and the in-memory repository,
  \<open>src/infrastructure/persistence/in_memory/mm_performance_repository.rs\<close>.
\<close>

section \<open>Events\<close>

datatype mm_event_kind = RfqSent | QuoteReceived u64 u64 | TradeExecutedMm | LastLookReject | AcceptRequested

definition mek_as_u8 :: "mm_event_kind \<Rightarrow> u8" where
  "mek_as_u8 k = (case k of RfqSent \<Rightarrow> 0 | QuoteReceived _ _ \<Rightarrow> 1 | TradeExecutedMm \<Rightarrow> 2 | LastLookReject \<Rightarrow> 3
     | AcceptRequested \<Rightarrow> 4)"

record mm_event =
  mme_mm_id :: counterparty_id
  mme_kind :: mm_event_kind
  mme_timestamp :: timestamp

definition mme_new :: "counterparty_id \<Rightarrow> mm_event_kind \<Rightarrow> timestamp \<Rightarrow> mm_event" where
  "mme_new m k t = \<lparr> mme_mm_id = m, mme_kind = k, mme_timestamp = t \<rparr>"

definition mme_is_within_window :: "timestamp \<Rightarrow> timestamp \<Rightarrow> mm_event \<Rightarrow> bool" where
  "mme_is_within_window a b e \<longleftrightarrow> \<not> mme_timestamp e < a \<and> \<not> b < mme_timestamp e"

section \<open>Metrics\<close>

record mm_metrics =
  mmm_mm_id :: counterparty_id
  mmm_response_rate_pct :: "f64 option"
  mmm_avg_response_time_ms :: "f64 option"
  mmm_quote_to_trade_pct :: "f64 option"
  mmm_competitiveness_score :: "f64 option"
  mmm_reject_rate_pct :: "f64 option"
  mmm_total_rfqs_received :: u64
  mmm_total_quotes_provided :: u64
  mmm_total_trades_executed :: u64
  mmm_total_accepts_requested :: u64
  mmm_total_last_look_rejects :: u64
  mmm_window_start :: timestamp
  mmm_window_end :: timestamp

text \<open>The counters of the loop, which saturate.\<close>

record mm_totals =
  mt_rfqs :: u64
  mt_quotes :: u64
  mt_trades :: u64
  mt_accepts :: u64
  mt_rejects :: u64
  mt_response_time :: u64
  mt_rank :: u64

definition mt_zero :: mm_totals where
  "mt_zero = \<lparr> mt_rfqs = 0, mt_quotes = 0, mt_trades = 0, mt_accepts = 0, mt_rejects = 0, mt_response_time = 0, mt_rank = 0 \<rparr>"

definition mt_count :: "mm_event_kind \<Rightarrow> mm_totals \<Rightarrow> mm_totals" where
  "mt_count k t = (case k of
     RfqSent \<Rightarrow> t\<lparr> mt_rfqs := sat_add (mt_rfqs t) 1 \<rparr>
   | QuoteReceived ms r \<Rightarrow> t\<lparr> mt_quotes := sat_add (mt_quotes t) 1, mt_response_time := sat_add (mt_response_time t) ms,
       mt_rank := sat_add (mt_rank t) r \<rparr>
   | TradeExecutedMm \<Rightarrow> t\<lparr> mt_trades := sat_add (mt_trades t) 1 \<rparr>
   | LastLookReject \<Rightarrow> t\<lparr> mt_rejects := sat_add (mt_rejects t) 1 \<rparr>
   | AcceptRequested \<Rightarrow> t\<lparr> mt_accepts := sat_add (mt_accepts t) 1 \<rparr>)"

fun mt_count_window :: "timestamp \<Rightarrow> timestamp \<Rightarrow> mm_event list \<Rightarrow> mm_totals \<Rightarrow> mm_totals" where
  "mt_count_window a b [] t = t"
| "mt_count_window a b (e # es) t =
     mt_count_window a b es (if \<not> mme_is_within_window a b e then t else mt_count (mme_kind e) t)"

definition f_of_u64 :: "u64 \<Rightarrow> f64" where
  "f_of_u64 n = f_of_int (uint n)"

definition mmm_compute :: "counterparty_id \<Rightarrow> mm_event list \<Rightarrow> timestamp \<Rightarrow> timestamp \<Rightarrow> mm_metrics" where
  "mmm_compute m es a b =
     (let t = mt_count_window a b es mt_zero;
          ratio = (\<lambda>n d. if 0 < d then Some (f_div (f_of_u64 n) (f_of_u64 d)) else None);
          percent = (\<lambda>n d. map_option (\<lambda>r. f_mul r (lit 100)) (ratio n d)) in
      \<lparr> mmm_mm_id = m, mmm_response_rate_pct = percent (mt_quotes t) (mt_rfqs t),
        mmm_avg_response_time_ms = ratio (mt_response_time t) (mt_quotes t),
        mmm_quote_to_trade_pct = percent (mt_trades t) (mt_quotes t),
        mmm_competitiveness_score = ratio (mt_rank t) (mt_quotes t),
        mmm_reject_rate_pct = percent (mt_rejects t) (mt_accepts t),
        mmm_total_rfqs_received = mt_rfqs t, mmm_total_quotes_provided = mt_quotes t,
        mmm_total_trades_executed = mt_trades t, mmm_total_accepts_requested = mt_accepts t,
        mmm_total_last_look_rejects = mt_rejects t, mmm_window_start = a, mmm_window_end = b \<rparr>)"

definition mmm_has_data :: "mm_metrics \<Rightarrow> bool" where
  "mmm_has_data m \<longleftrightarrow> 0 < mmm_total_rfqs_received m \<or> 0 < mmm_total_quotes_provided m \<or> 0 < mmm_total_trades_executed m
     \<or> 0 < mmm_total_accepts_requested m \<or> 0 < mmm_total_last_look_rejects m"

definition mmm_is_eligible :: "f64 \<Rightarrow> mm_metrics \<Rightarrow> bool" where
  "mmm_is_eligible minimum m = (case mmm_response_rate_pct m of
     Some rate \<Rightarrow> f_lt minimum rate \<or> f_eq minimum rate | None \<Rightarrow> True)"

section \<open>The repository\<close>

text \<open>The order in which the hash map is walked is an argument, the keys in that order.\<close>

type_synonym mm_store = "counterparty_id \<rightharpoonup> mm_event list"

definition mmr_record_event :: "mm_event \<Rightarrow> mm_store \<Rightarrow> mm_store" where
  "mmr_record_event e S = S(mme_mm_id e \<mapsto> (case S (mme_mm_id e) of Some es \<Rightarrow> es | None \<Rightarrow> []) @ [e])"

definition mmr_get_events :: "counterparty_id \<Rightarrow> timestamp \<Rightarrow> timestamp \<Rightarrow> mm_store \<Rightarrow> mm_event list" where
  "mmr_get_events m a b S = (case S m of Some es \<Rightarrow> filter (mme_is_within_window a b) es | None \<Rightarrow> [])"

definition mmr_trim_before :: "counterparty_id list \<Rightarrow> timestamp \<Rightarrow> mm_store \<Rightarrow> u64 \<times> mm_store" where
  "mmr_trim_before order before S =
     (foldl (\<lambda>n m. case S m of Some es \<Rightarrow> sat_add n (of_nat (length es) - of_nat (length (filter (\<lambda>e. \<not> mme_timestamp e < before) es)))
        | None \<Rightarrow> n) 0 order,
      map_option (filter (\<lambda>e. \<not> mme_timestamp e < before)) \<circ> S)"

section \<open>The tracker\<close>

text \<open>Over the in-memory repository, whose calls do not fail; \<open>days\<close> is the window.\<close>

definition window_start_of :: "u32 \<Rightarrow> timestamp \<Rightarrow> timestamp" where
  "window_start_of days now = now - uint days * 86400 * 1000000000"

definition mpt_record :: "counterparty_id \<Rightarrow> mm_event_kind \<Rightarrow> timestamp \<Rightarrow> mm_store \<Rightarrow> mm_store" where
  "mpt_record m k now S = mmr_record_event (mme_new m k now) S"

definition mpt_get_metrics :: "u32 \<Rightarrow> timestamp \<Rightarrow> counterparty_id \<Rightarrow> mm_store \<Rightarrow> mm_metrics" where
  "mpt_get_metrics days now m S =
     (let a = window_start_of days now in mmm_compute m (mmr_get_events m a now S) a now)"

definition mpt_get_eligible_mms :: "u32 \<Rightarrow> (nat \<Rightarrow> timestamp) \<Rightarrow> f64 \<Rightarrow> counterparty_id list \<Rightarrow> mm_store \<Rightarrow> counterparty_id list" where
  "mpt_get_eligible_mms days clock minimum order S =
     map snd (filter (\<lambda>(k, m). mmm_is_eligible minimum (mpt_get_metrics days (clock k) m S)) (enumerate 0 order))"

definition mpt_get_all_metrics :: "u32 \<Rightarrow> timestamp \<Rightarrow> counterparty_id list \<Rightarrow> mm_store \<Rightarrow> mm_metrics list" where
  "mpt_get_all_metrics days now order S =
     (let a = window_start_of days now in map (\<lambda>m. mmm_compute m (mmr_get_events m a now S) a now) order)"

definition mpt_trim_old_events :: "u32 \<Rightarrow> timestamp \<Rightarrow> counterparty_id list \<Rightarrow> mm_store \<Rightarrow> u64 \<times> mm_store" where
  "mpt_trim_old_events days now order S = mmr_trim_before order (window_start_of days now) S"

section \<open>Histories\<close>

datatype mm_call = RecordMm counterparty_id mm_event_kind timestamp | TrimMm timestamp "counterparty_id list"

fun mm_apply :: "u32 \<Rightarrow> mm_call \<Rightarrow> mm_store \<Rightarrow> mm_store" where
  "mm_apply days (RecordMm m k t) S = mpt_record m k t S"
| "mm_apply days (TrimMm now order) S = snd (mpt_trim_old_events days now order S)"

text \<open>What was recorded for a market maker in the window, straight from the calls.\<close>

fun recorded :: "mm_call \<Rightarrow> mm_event list" where
  "recorded (RecordMm m k t) = [mme_new m k t]"
| "recorded (TrimMm now order) = []"

definition window_events :: "counterparty_id \<Rightarrow> timestamp \<Rightarrow> timestamp \<Rightarrow> mm_call list \<Rightarrow> mm_event list" where
  "window_events m a b cs = filter (\<lambda>e. mme_mm_id e = m \<and> mme_is_within_window a b e) (concat (map recorded cs))"

definition trims_until :: "timestamp \<Rightarrow> mm_call list \<Rightarrow> bool" where
  "trims_until now cs \<longleftrightarrow> (\<forall>t order. TrimMm t order \<in> set cs \<longrightarrow> t \<le> now)"

lemma get_events_record:
  "mmr_get_events m a b (mpt_record m' k t S)
    = mmr_get_events m a b S @ filter (\<lambda>e. mme_mm_id e = m \<and> mme_is_within_window a b e) [mme_new m' k t]"
  by (auto simp: mmr_get_events_def mpt_record_def mmr_record_event_def mme_new_def split: option.split)

lemma get_events_trim:
  assumes "t \<le> now"
  shows "mmr_get_events m (window_start_of days now) now (snd (mpt_trim_old_events days t order S))
    = mmr_get_events m (window_start_of days now) now S"
proof -
  have "window_start_of days t \<le> window_start_of days now" using assms by (simp add: window_start_of_def)
  then show ?thesis
    by (auto simp: mmr_get_events_def mpt_trim_old_events_def mmr_trim_before_def mme_is_within_window_def
        split: option.split intro!: filter_cong)
qed

lemma run_events:
  assumes "trims_until now cs"
  shows "mmr_get_events m (window_start_of days now) now (fold (mm_apply days) cs S)
    = mmr_get_events m (window_start_of days now) now S @ window_events m (window_start_of days now) now cs"
  using assms
proof (induction cs arbitrary: S)
  case (Cons c cs)
  have rest: "trims_until now cs" using Cons.prems by (auto simp: trims_until_def)
  show ?case
  proof (cases c)
    case (RecordMm m' k t)
    then show ?thesis using Cons.IH [OF rest] by (simp add: get_events_record window_events_def)
  next
    case (TrimMm t order)
    then have "t \<le> now" using Cons.prems by (auto simp: trims_until_def)
    then show ?thesis using Cons.IH [OF rest] TrimMm by (simp add: get_events_trim window_events_def)
  qed
qed (simp add: window_events_def)

text \<open>The counters count, up to the greatest \<open>u64\<close>.\<close>

lemma min_sat: "min (min n (2 ^ 64 - 1) + 1) (2 ^ 64 - 1) = min (Suc n) (2 ^ 64 - 1)" for n :: nat
  by simp

lemma count_rfqs:
  "unat (mt_rfqs (mt_count_window a b es t)) = min (unat (mt_rfqs t)
     + length (filter (\<lambda>e. mme_is_within_window a b e \<and> mme_kind e = RfqSent) es)) (2 ^ 64 - 1)"
proof (induction es arbitrary: t)
  case Nil
  have "unat (mt_rfqs t) < 2 ^ LENGTH(64)" by (rule unsigned_less)
  then show ?case by simp
next
  case (Cons e es)
  show ?case using Cons [of "if \<not> mme_is_within_window a b e then t else mt_count (mme_kind e) t"]
    by (auto simp: mt_count_def unat_sat_add split: mm_event_kind.split)
qed

lemma count_rejects:
  "unat (mt_rejects (mt_count_window a b es t)) = min (unat (mt_rejects t)
     + length (filter (\<lambda>e. mme_is_within_window a b e \<and> mme_kind e = LastLookReject) es)) (2 ^ 64 - 1)"
proof (induction es arbitrary: t)
  case Nil
  have "unat (mt_rejects t) < 2 ^ LENGTH(64)" by (rule unsigned_less)
  then show ?case by simp
next
  case (Cons e es)
  show ?case using Cons [of "if \<not> mme_is_within_window a b e then t else mt_count (mme_kind e) t"]
    by (auto simp: mt_count_def unat_sat_add split: mm_event_kind.split)
qed

section \<open>Properties\<close>

text \<open>
  C25. Metrics see exactly the window: after any history of recording and trimming, at any time
  not before the last trim, the metrics of a market maker are those of the events recorded for it
  from \<open>days\<close> days ago until now, whatever was trimmed and whatever other market makers did; requests
  and rejects are counted up to the greatest \<open>u64\<close>, and the response rate is absent exactly when no request was sent.
\<close>
theorem metrics_of_window:
  assumes "trims_until now cs"
  shows "let a = window_start_of days now; M = mpt_get_metrics days now m (fold (mm_apply days) cs Map.empty);
      W = window_events m a now cs in
    M = mmm_compute m W a now
    \<and> unat (mmm_total_rfqs_received M) = min (length (filter (\<lambda>e. mme_kind e = RfqSent) W)) (2 ^ 64 - 1)
    \<and> unat (mmm_total_last_look_rejects M) = min (length (filter (\<lambda>e. mme_kind e = LastLookReject) W)) (2 ^ 64 - 1)
    \<and> (mmm_response_rate_pct M = None \<longleftrightarrow> RfqSent \<notin> mme_kind ` set W)"
proof -
  let ?a = "window_start_of days now"
  let ?W = "window_events m ?a now cs"
  have M: "mpt_get_metrics days now m (fold (mm_apply days) cs Map.empty) = mmm_compute m ?W ?a now"
    using run_events [OF assms, of m days Map.empty] by (simp add: mpt_get_metrics_def mmr_get_events_def Let_def)
  have inside: "filter (\<lambda>e. mme_is_within_window ?a now e \<and> P e) ?W = filter P ?W" for P
    by (auto simp: window_events_def intro: filter_cong)
  have rfqs: "unat (mt_rfqs (mt_count_window ?a now ?W mt_zero)) = min (length (filter (\<lambda>e. mme_kind e = RfqSent) ?W)) (2 ^ 64 - 1)"
    using count_rfqs [of ?a now ?W mt_zero] by (simp add: inside mt_zero_def)
  have rejects: "unat (mt_rejects (mt_count_window ?a now ?W mt_zero)) = min (length (filter (\<lambda>e. mme_kind e = LastLookReject) ?W)) (2 ^ 64 - 1)"
    using count_rejects [of ?a now ?W mt_zero] by (simp add: inside mt_zero_def)
  have "mt_rfqs (mt_count_window ?a now ?W mt_zero) = 0
      \<longleftrightarrow> min (length (filter (\<lambda>e. mme_kind e = RfqSent) ?W)) (2 ^ 64 - 1) = 0"
    using rfqs by (simp add: unat_eq_zero [symmetric])
  also have "\<dots> \<longleftrightarrow> filter (\<lambda>e. mme_kind e = RfqSent) ?W = []"
    by (simp only: min_def length_0_conv split: if_split) auto
  also have "\<dots> \<longleftrightarrow> RfqSent \<notin> mme_kind ` set ?W"
    by (force simp: filter_empty_conv)
  finally have "mt_rfqs (mt_count_window ?a now ?W mt_zero) = 0 \<longleftrightarrow> RfqSent \<notin> mme_kind ` set ?W" .
  then have "mmm_response_rate_pct (mmm_compute m ?W ?a now) = None \<longleftrightarrow> RfqSent \<notin> mme_kind ` set ?W"
    by (simp add: mmm_compute_def Let_def word_neq_0_conv [symmetric])
  then show ?thesis using rfqs rejects unfolding Let_def M by (simp add: mmm_compute_def Let_def)
qed

definition mm_sample :: "mm_call list" where
  "mm_sample = [RecordMm ''mm'' RfqSent 10, RecordMm ''mm'' (QuoteReceived 20 1) 12, RecordMm ''other'' RfqSent 13,
     TrimMm 86400000000011 [''mm'', ''other''], RecordMm ''mm'' RfqSent 86400000000011]"

lemma metrics_of_window_witness:
  "unat (mmm_total_rfqs_received (mpt_get_metrics 1 86400000000012 ''mm'' (fold (mm_apply 1) mm_sample Map.empty))) = 1"
proof -
  have "trims_until 86400000000012 mm_sample" by (auto simp: trims_until_def mm_sample_def)
  note M = metrics_of_window [OF this, of 1 "''mm''", unfolded Let_def]
  have W: "window_events ''mm'' (window_start_of 1 86400000000012) 86400000000012 mm_sample
      = [mme_new ''mm'' (QuoteReceived 20 1) 12, mme_new ''mm'' RfqSent 86400000000011]"
    by (simp add: mm_sample_def window_events_def window_start_of_def mme_new_def mme_is_within_window_def)
  show ?thesis using conjunct1 [OF conjunct2 [OF M]] unfolding W by (simp add: mme_new_def)
qed

end
