(* ===== verification/Incentives.thy ===== *)
theory Incentives
  imports Mm_Performance Exact_Decimals
begin

text \<open>
  Market-maker incentives: \<open>src/domain/entities/mm_incentive.rs\<close> with the volume tiers, rebates and
  penalties, and the status service \<open>src/domain/services/mm_incentive_service.rs\<close>.
\<close>

section \<open>Tiers\<close>

datatype incentive_tier = Bronze | Silver | Gold | Platinum

record 'd incentive_config =
  ic_silver_threshold :: 'd
  ic_gold_threshold :: 'd
  ic_platinum_threshold :: 'd
  ic_bronze_rebate_bps :: 'd
  ic_silver_rebate_bps :: 'd
  ic_gold_rebate_bps :: 'd
  ic_platinum_rebate_bps :: 'd
  ic_spread_bonus_threshold_bps :: 'd
  ic_spread_bonus_bps :: 'd
  ic_low_response_rate_pct :: f64
  ic_high_reject_rate_pct :: f64
  ic_capacity_penalty_pct :: 'd

text \<open>\<open>Decimal::new\<close> panics for a scale it does not support.\<close>

definition ic_default :: "'d dec \<Rightarrow> ('e, 'd incentive_config) outcome" where
  "ic_default D =
     obind (or_panic (dnew D (- 10) 1)) (\<lambda>bronze.
     obind (or_panic (dnew D (- 20) 1)) (\<lambda>silver.
     obind (or_panic (dnew D (- 30) 1)) (\<lambda>gold.
     obind (or_panic (dnew D (- 50) 1)) (\<lambda>platinum.
     obind (or_panic (dnew D 50 1)) (\<lambda>bonus_threshold.
     obind (or_panic (dnew D (- 5) 1)) (\<lambda>bonus.
     obind (or_panic (dnew D 25 2)) (\<lambda>penalty.
     Ret \<lparr> ic_silver_threshold = dof_int D 1000000, ic_gold_threshold = dof_int D 10000000,
       ic_platinum_threshold = dof_int D 50000000, ic_bronze_rebate_bps = bronze, ic_silver_rebate_bps = silver,
       ic_gold_rebate_bps = gold, ic_platinum_rebate_bps = platinum, ic_spread_bonus_threshold_bps = bonus_threshold,
       ic_spread_bonus_bps = bonus, ic_low_response_rate_pct = lit 80, ic_high_reject_rate_pct = lit 20,
       ic_capacity_penalty_pct = penalty \<rparr>)))))))"

definition ic_new :: "'d dec \<Rightarrow> 'd \<Rightarrow> 'd \<Rightarrow> 'd \<Rightarrow> ('e, 'd incentive_config) outcome" where
  "ic_new D silver gold platinum = obind (ic_default D) (\<lambda>c. Ret (c\<lparr> ic_silver_threshold := silver,
     ic_gold_threshold := gold, ic_platinum_threshold := platinum \<rparr>))"

definition it_from_volume :: "'d dec \<Rightarrow> 'd \<Rightarrow> 'd incentive_config \<Rightarrow> incentive_tier" where
  "it_from_volume D volume c =
     (if dle D (ic_platinum_threshold c) volume then Platinum
      else if dle D (ic_gold_threshold c) volume then Gold
      else if dle D (ic_silver_threshold c) volume then Silver
      else Bronze)"

definition it_rebate_bps :: "incentive_tier \<Rightarrow> 'd incentive_config \<Rightarrow> 'd" where
  "it_rebate_bps t c = (case t of Bronze \<Rightarrow> ic_bronze_rebate_bps c | Silver \<Rightarrow> ic_silver_rebate_bps c
     | Gold \<Rightarrow> ic_gold_rebate_bps c | Platinum \<Rightarrow> ic_platinum_rebate_bps c)"

definition it_downgrade :: "incentive_tier \<Rightarrow> incentive_tier" where
  "it_downgrade t = (case t of Platinum \<Rightarrow> Gold | Gold \<Rightarrow> Silver | Silver \<Rightarrow> Bronze | Bronze \<Rightarrow> Bronze)"

definition it_as_u8 :: "incentive_tier \<Rightarrow> u8" where
  "it_as_u8 t = (case t of Bronze \<Rightarrow> 0 | Silver \<Rightarrow> 1 | Gold \<Rightarrow> 2 | Platinum \<Rightarrow> 3)"

definition it_next_tier :: "incentive_tier \<Rightarrow> incentive_tier option" where
  "it_next_tier t = (case t of Bronze \<Rightarrow> Some Silver | Silver \<Rightarrow> Some Gold | Gold \<Rightarrow> Some Platinum | Platinum \<Rightarrow> None)"

definition it_threshold :: "'d dec \<Rightarrow> incentive_tier \<Rightarrow> 'd incentive_config \<Rightarrow> 'd" where
  "it_threshold D t c = (case t of Bronze \<Rightarrow> dzero D | Silver \<Rightarrow> ic_silver_threshold c
     | Gold \<Rightarrow> ic_gold_threshold c | Platinum \<Rightarrow> ic_platinum_threshold c)"

definition volume_to_next_tier :: "'d dec \<Rightarrow> 'd \<Rightarrow> incentive_tier \<Rightarrow> 'd incentive_config \<Rightarrow> 'd option" where
  "volume_to_next_tier D volume t c = map_option (\<lambda>n.
     if dle D (it_threshold D n c) volume then dzero D
     else case dsub D (it_threshold D n c) volume of Some d \<Rightarrow> d | None \<Rightarrow> dzero D) (it_next_tier t)"

section \<open>Rebates\<close>

record 'd incentive_result =
  ir_tier :: incentive_tier
  ir_base_rebate_bps :: 'd
  ir_spread_bonus_bps :: 'd
  ir_total_rebate_bps :: 'd
  ir_rebate_amount :: 'd

definition compute_incentive :: "'d dec \<Rightarrow> incentive_tier \<Rightarrow> 'd \<Rightarrow> 'd option \<Rightarrow> 'd incentive_config
    \<Rightarrow> ('e, 'd incentive_result) outcome" where
  "compute_incentive D tier notional spread c =
     (let base = it_rebate_bps tier c;
          bonus = (case spread of
            Some s \<Rightarrow> if dle D s (ic_spread_bonus_threshold_bps c) then ic_spread_bonus_bps c else dzero D
          | None \<Rightarrow> dzero D) in
      obind (dplus D base bonus) (\<lambda>total.
      obind (dtimes D notional total) (\<lambda>product.
      obind (dover D product (dof_int D 10000)) (\<lambda>amount.
      Ret \<lparr> ir_tier = tier, ir_base_rebate_bps = base, ir_spread_bonus_bps = bonus,
        ir_total_rebate_bps = total, ir_rebate_amount = amount \<rparr>))))"

section \<open>Penalties\<close>

text \<open>The reason's text as its parts, which the code joins with a semicolon.\<close>

datatype penalty_reason = LowResponseRate f64 f64 | HighRejectRate f64 f64

record 'd penalty_result =
  pn_should_reduce_capacity :: bool
  pn_capacity_reduction_pct :: 'd
  pn_should_downgrade_tier :: bool
  pn_reason :: "penalty_reason list option"

definition pn_none :: "'d dec \<Rightarrow> 'd penalty_result" where
  "pn_none D = \<lparr> pn_should_reduce_capacity = False, pn_capacity_reduction_pct = dzero D,
     pn_should_downgrade_tier = False, pn_reason = None \<rparr>"

definition pn_has_penalty :: "'d penalty_result \<Rightarrow> bool" where
  "pn_has_penalty p \<longleftrightarrow> pn_should_reduce_capacity p \<or> pn_should_downgrade_tier p"

definition evaluate_penalties :: "'d dec \<Rightarrow> mm_metrics \<Rightarrow> 'd incentive_config \<Rightarrow> 'd penalty_result" where
  "evaluate_penalties D m c =
     (let low = (case mmm_response_rate_pct m of
            Some r \<Rightarrow> if f_lt r (ic_low_response_rate_pct c) then [LowResponseRate r (ic_low_response_rate_pct c)] else []
          | None \<Rightarrow> []);
          high = (case mmm_reject_rate_pct m of
            Some r \<Rightarrow> if f_lt (ic_high_reject_rate_pct c) r then [HighRejectRate r (ic_high_reject_rate_pct c)] else []
          | None \<Rightarrow> []) in
      if low @ high = [] then pn_none D
      else \<lparr> pn_should_reduce_capacity = (low \<noteq> []),
             pn_capacity_reduction_pct = (if low \<noteq> [] then ic_capacity_penalty_pct c else dzero D),
             pn_should_downgrade_tier = (high \<noteq> []), pn_reason = Some (low @ high) \<rparr>)"

section \<open>The status service\<close>

datatype mm_incentive_error = MmNotFound counterparty_id

record 'd mm_incentive_status =
  mis_mm_id :: counterparty_id
  mis_current_tier :: incentive_tier
  mis_rebate_rate_bps :: 'd
  mis_monthly_volume_usd :: 'd
  mis_volume_to_next_tier_usd :: "'d option"
  mis_next_tier :: "incentive_tier option"
  mis_current_period_rebates_usd :: 'd
  mis_penalty_result :: "'d penalty_result"
  mis_computed_at :: timestamp

text \<open>Over the in-memory performance repository, so that the tracker does not fail.\<close>

definition mis_get_status :: "'d dec \<Rightarrow> u32 \<Rightarrow> 'd incentive_config \<Rightarrow> timestamp \<Rightarrow> timestamp \<Rightarrow> counterparty_id \<Rightarrow> mm_store
    \<Rightarrow> mm_incentive_error + 'd mm_incentive_status" where
  "mis_get_status D days c now_metrics now m S =
     (let metrics = mpt_get_metrics days now_metrics m S in
      if \<not> mmm_has_data metrics then Inl (MmNotFound m)
      else
        let volume = dzero D; tier = it_from_volume D volume c in
        Inr \<lparr> mis_mm_id = m, mis_current_tier = tier, mis_rebate_rate_bps = it_rebate_bps tier c,
          mis_monthly_volume_usd = volume, mis_volume_to_next_tier_usd = volume_to_next_tier D volume tier c,
          mis_next_tier = it_next_tier tier, mis_current_period_rebates_usd = dzero D,
          mis_penalty_result = evaluate_penalties D metrics c, mis_computed_at = now \<rparr>)"

definition mis_mm_exists :: "u32 \<Rightarrow> timestamp \<Rightarrow> counterparty_id \<Rightarrow> mm_store \<Rightarrow> bool" where
  "mis_mm_exists days now m S = mmm_has_data (mpt_get_metrics days now m S)"

section \<open>Properties\<close>

definition thresholds_ordered :: "'d dec \<Rightarrow> 'd incentive_config \<Rightarrow> bool" where
  "thresholds_ordered D c \<longleftrightarrow> dle D (dzero D) (ic_silver_threshold c)
     \<and> dle D (ic_silver_threshold c) (ic_gold_threshold c) \<and> dle D (ic_gold_threshold c) (ic_platinum_threshold c)"

text \<open>
  The tier is the highest one reached: with thresholds in order, a volume that is not negative has reached
  the threshold of its tier and not that of the next; and where volumes and thresholds are
  whole numbers of a unit, the volume reported as missing is positive and leads exactly to the next threshold.
\<close>

theorem tier_is_highest_reached:
  assumes "dec_exact_on D S val" "thresholds_ordered D c" "dle D (dzero D) volume"
    and "{volume, ic_silver_threshold c, ic_gold_threshold c, ic_platinum_threshold c} \<subseteq> S"
  shows "dle D (it_threshold D (it_from_volume D volume c) c) volume
    \<and> (case it_next_tier (it_from_volume D volume c) of
        None \<Rightarrow> volume_to_next_tier D volume (it_from_volume D volume c) c = None
      | Some n \<Rightarrow> \<not> dle D (it_threshold D n c) volume
        \<and> (\<forall>d. volume_to_next_tier D volume (it_from_volume D volume c) c = Some d
            \<longrightarrow> dsub D (it_threshold D n c) volume = Some d \<longrightarrow> 0 < val d \<and> val volume + val d = val (it_threshold D n c)))"
proof -
  let ?t = "it_from_volume D volume c"
  note le = exact_laws(1) [OF assms(1)]
  have reached: "dle D (it_threshold D ?t c) volume"
    using assms(3) by (simp add: it_from_volume_def it_threshold_def)
  show ?thesis
  proof (cases "it_next_tier ?t")
    case None
    then show ?thesis using reached by (simp add: volume_to_next_tier_def)
  next
    case (Some n)
    have below: "\<not> dle D (it_threshold D n c) volume"
      using Some assms(2) by (auto simp: it_from_volume_def it_threshold_def it_next_tier_def split: if_splits)
    have "0 < val d \<and> val volume + val d = val (it_threshold D n c)"
      if "dsub D (it_threshold D n c) volume = Some d" for d
    proof -
      have "it_threshold D n c \<in> S" "volume \<in> S"
        using assms(4) exact_zero_in [OF assms(1)] by (cases n; simp add: it_threshold_def)+
      from exact_laws(3) [OF assms(1) this that] below show ?thesis by (simp add: le)
    qed
    then show ?thesis using reached below Some by simp
  qed
qed

definition sample_incentives :: "int incentive_config" where
  "sample_incentives = \<lparr> ic_silver_threshold = 100, ic_gold_threshold = 200, ic_platinum_threshold = 300,
     ic_bronze_rebate_bps = - 1, ic_silver_rebate_bps = - 2, ic_gold_rebate_bps = - 3, ic_platinum_rebate_bps = - 5,
     ic_spread_bonus_threshold_bps = 5, ic_spread_bonus_bps = - 1, ic_low_response_rate_pct = lit 80,
     ic_high_reject_rate_pct = lit 20, ic_capacity_penalty_pct = 25 \<rparr>"

lemma sample_thresholds:
  "ic_silver_threshold sample_incentives = 100" "ic_gold_threshold sample_incentives = 200"
  "ic_platinum_threshold sample_incentives = 300"
  by (simp_all add: sample_incentives_def)

lemma tier_is_highest_reached_witness:
  "it_from_volume whole_dec 250 sample_incentives = Gold \<and> volume_to_next_tier whole_dec 250 Gold sample_incentives = Some 50
    \<and> \<not> dle whole_dec (it_threshold whole_dec Platinum sample_incentives) 250"
proof -
  have gold: "it_from_volume whole_dec 250 sample_incentives = Gold"
    "it_next_tier Gold = Some Platinum" "volume_to_next_tier whole_dec 250 Gold sample_incentives = Some 50"
    by (simp_all add: it_from_volume_def sample_thresholds it_next_tier_def volume_to_next_tier_def it_threshold_def whole_fit_def)
  have "thresholds_ordered whole_dec sample_incentives" by (simp add: thresholds_ordered_def sample_thresholds)
  from tier_is_highest_reached [OF whole_dec_exact this, of 250] show ?thesis by (simp add: gold)
qed

end
