(* ===== verification/Settlements.thy ===== *)
theory Settlements
  imports Incentives Effects
begin

text \<open>
  Monthly incentive settlements: the aggregate of \<open>src/domain/entities/settlement.rs\<close>, the service
  \<open>src/domain/services/incentive_settlement_service.rs\<close> over a repository parameter, and the reports of
  \<open>src/domain/services/incentive_report_service.rs\<close>. A method on \<open>&mut self\<close> that fails half way leaves the
  fields it has written.
\<close>

section \<open>Periods\<close>

record settlement_period =
  sp_start :: timestamp
  sp_end :: timestamp

definition sp_new :: "timestamp \<Rightarrow> timestamp \<Rightarrow> settlement_period option" where
  "sp_new a b = (if a < b then Some \<lparr> sp_start = a, sp_end = b \<rparr> else None)"

text \<open>
  The calendar package: the first instant of a month, \<open>None\<close> out of range, and the year and month of an instant.
\<close>

record month_calendar =
  mo_first :: "int \<Rightarrow> nat \<Rightarrow> timestamp option"
  mo_of :: "timestamp \<Rightarrow> int \<times> nat"

definition next_month :: "int \<times> nat \<Rightarrow> int \<times> nat" where
  "next_month ym = (if snd ym = 12 then (fst ym + 1, 1) else (fst ym, snd ym + 1))"

definition month_laws :: "month_calendar \<Rightarrow> bool" where
  "month_laws C \<longleftrightarrow> (\<forall>t. snd (mo_of C t) \<in> {1..12})
     \<and> (\<forall>t a. mo_first C (fst (mo_of C t)) (snd (mo_of C t)) = Some a \<longrightarrow> a \<le> t)
     \<and> (\<forall>t b. mo_first C (fst (next_month (mo_of C t))) (snd (next_month (mo_of C t))) = Some b \<longrightarrow> t < b)"

text \<open>\<open>checked_add\<close> on a year of type \<open>i32\<close>.\<close>

definition sp_from_month_year :: "month_calendar \<Rightarrow> int \<Rightarrow> nat \<Rightarrow> settlement_period option" where
  "sp_from_month_year C year month =
     (if month < 1 \<or> 12 < month then None
      else if month = 12 \<and> year = 2 ^ 31 - 1 then None
      else
        let next_m = (if month = 12 then 1 else month + 1); next_y = (if month = 12 then year + 1 else year) in
        case mo_first C year month of None \<Rightarrow> None
        | Some a \<Rightarrow> (case mo_first C next_y next_m of None \<Rightarrow> None
            | Some b \<Rightarrow> Some \<lparr> sp_start = a, sp_end = b \<rparr>))"

definition sp_contains :: "timestamp \<Rightarrow> settlement_period \<Rightarrow> bool" where
  "sp_contains t p \<longleftrightarrow> sp_start p \<le> t \<and> t < sp_end p"

definition sp_is_complete :: "timestamp \<Rightarrow> settlement_period \<Rightarrow> bool" where
  "sp_is_complete now p \<longleftrightarrow> sp_end p \<le> now"

section \<open>The aggregate\<close>

datatype settlement_status = SmOpen | SmFinalizing | SmFinalized | SmPaid

datatype 'd incentive_event = TradeIncentiveEarned
  (ie_trade_id: uuid) (ie_mm_id: counterparty_id) (ie_result: "'d incentive_result") (ie_notional: 'd) (ie_timestamp: timestamp)

datatype settlement_error =
    AlreadyFinalized
  | SettlementClosed settlement_status
  | NotFinalized
  | SettlementNotFound counterparty_id settlement_period
  | MismatchedMarketMaker counterparty_id counterparty_id
  | SettlementOverflow string
  | InvalidPeriod int nat
  | SettlementRepository string

record 'd incentive_settlement =
  is_id :: uuid
  is_mm_id :: counterparty_id
  is_period :: settlement_period
  is_status :: settlement_status
  is_total_trades :: u64
  is_total_volume_usd :: 'd
  is_total_base_rebates_usd :: 'd
  is_total_bonuses_usd :: 'd
  is_net_payout_usd :: 'd
  is_events :: "'d incentive_event list"
  is_applied_trade_ids :: "uuid set"
  is_version :: u64

definition is_new :: "'d dec \<Rightarrow> uuid \<Rightarrow> counterparty_id \<Rightarrow> settlement_period \<Rightarrow> 'd incentive_settlement" where
  "is_new D fresh m p = \<lparr> is_id = fresh, is_mm_id = m, is_period = p, is_status = SmOpen, is_total_trades = 0,
     is_total_volume_usd = dzero D, is_total_base_rebates_usd = dzero D, is_total_bonuses_usd = dzero D,
     is_net_payout_usd = dzero D, is_events = [], is_applied_trade_ids = {}, is_version = 0 \<rparr>"

text \<open>\<open>round8\<close>: to eight decimal places, midpoints away from zero.\<close>

definition amount_from_bps :: "'d dec \<Rightarrow> ('d \<Rightarrow> 'd) \<Rightarrow> 'd \<Rightarrow> 'd \<Rightarrow> settlement_error + 'd" where
  "amount_from_bps D round8 notional bps = ok_or (SettlementOverflow ''amount_from_bps'')
     (map_option round8 (Option.bind (dmul D notional bps) (\<lambda>p. ddiv D p (dof_int D 10000))))"

text \<open>\<open>self.field = self.field.checked_add(x).ok_or(Overflow(name))?\<close>, for the field read by \<open>get\<close> and written by \<open>put\<close>.\<close>

definition add_field :: "string \<Rightarrow> ('s \<Rightarrow> 'a) \<Rightarrow> ('a \<Rightarrow> 's \<Rightarrow> 's) \<Rightarrow> ('a \<Rightarrow> 'a option) \<Rightarrow> ('s, settlement_error, unit) op" where
  "add_field name get put add s = (case add (get s) of
     None \<Rightarrow> (Inl (SettlementOverflow name), s) | Some v \<Rightarrow> (Inr (), put v s))"

definition is_apply_event :: "'d dec \<Rightarrow> ('d \<Rightarrow> 'd) \<Rightarrow> 'd incentive_event \<Rightarrow> ('d incentive_settlement, settlement_error, unit) op" where
  "is_apply_event D round8 e s =
     (if is_status s \<noteq> SmOpen then (Inl (SettlementClosed (is_status s)), s)
      else if ie_mm_id e \<noteq> is_mm_id s then (Inl (MismatchedMarketMaker (is_mm_id s) (ie_mm_id e)), s)
      else if ie_trade_id e \<in> is_applied_trade_ids s then (Inr (), s)
      else
        op_then (add_field ''total_trades'' is_total_trades (\<lambda>v. is_total_trades_update (\<lambda>_. v)) (\<lambda>n. w_checked_add n 1)) (\<lambda>_.
        op_then (add_field ''total_volume_usd'' is_total_volume_usd (\<lambda>v. is_total_volume_usd_update (\<lambda>_. v))
          (\<lambda>v. dadd D v (ie_notional e))) (\<lambda>_.
        op_then (lift_result (amount_from_bps D round8 (ie_notional e) (ir_base_rebate_bps (ie_result e)))) (\<lambda>base.
        op_then (add_field ''total_base_rebates_usd'' is_total_base_rebates_usd (\<lambda>v. is_total_base_rebates_usd_update (\<lambda>_. v))
          (\<lambda>v. dadd D v base)) (\<lambda>_.
        op_then (lift_result (amount_from_bps D round8 (ie_notional e) (ir_spread_bonus_bps (ie_result e)))) (\<lambda>bonus.
        op_then (add_field ''total_bonuses_usd'' is_total_bonuses_usd (\<lambda>v. is_total_bonuses_usd_update (\<lambda>_. v))
          (\<lambda>v. dadd D v bonus)) (\<lambda>_ s.
        add_field ''version'' is_version (\<lambda>v. is_version_update (\<lambda>_. v)) (\<lambda>n. w_checked_add n 1)
          (s\<lparr> is_applied_trade_ids := insert (ie_trade_id e) (is_applied_trade_ids s),
              is_events := is_events s @ [e] \<rparr>))))))) s)"

definition is_finalize :: "'d dec \<Rightarrow> ('d incentive_settlement, settlement_error, unit) op" where
  "is_finalize D s =
     (if is_status s \<noteq> SmOpen then (Inl AlreadyFinalized, s)
      else op_then (add_field ''net_payout_usd'' is_total_base_rebates_usd (\<lambda>v. is_net_payout_usd_update (\<lambda>_. v))
          (\<lambda>v. dadd D v (is_total_bonuses_usd s))) (\<lambda>_ s. (Inr (), s\<lparr> is_status := SmFinalized \<rparr>)) s)"

definition is_mark_as_paid :: "('d incentive_settlement, settlement_error, unit) op" where
  "is_mark_as_paid s = (if is_status s \<noteq> SmFinalized then (Inl NotFinalized, s) else (Inr (), s\<lparr> is_status := SmPaid \<rparr>))"

section \<open>The service\<close>

record ('x, 'd) settlement_env =
  se_save :: "'d incentive_settlement \<Rightarrow> ('x, settlement_error, unit) op"
  se_find_by_mm_and_period :: "counterparty_id \<Rightarrow> settlement_period \<Rightarrow> ('x, settlement_error, 'd incentive_settlement option) op"
  se_find_all_by_period :: "settlement_period \<Rightarrow> ('x, settlement_error, 'd incentive_settlement list) op"

definition sv_get_or_create :: "'d dec \<Rightarrow> ('x, 'd) settlement_env \<Rightarrow> uuid \<Rightarrow> counterparty_id \<Rightarrow> settlement_period
    \<Rightarrow> ('x, settlement_error, 'd incentive_settlement) op" where
  "sv_get_or_create D E fresh m p = op_then (se_find_by_mm_and_period E m p) (\<lambda>found. case found of
     Some s \<Rightarrow> op_ret s
   | None \<Rightarrow> let s = is_new D fresh m p in op_then (se_save E s) (\<lambda>_. op_ret s))"

definition sv_period_from_timestamp :: "month_calendar \<Rightarrow> timestamp \<Rightarrow> settlement_error + settlement_period" where
  "sv_period_from_timestamp C t = (let (year, month) = mo_of C t in ok_or (InvalidPeriod year month) (sp_from_month_year C year month))"

text \<open>A call on a local copy, whose result is the changed copy.\<close>

definition on_copy :: "('s, 'e, unit) op \<Rightarrow> 's \<Rightarrow> 'e + 's" where
  "on_copy m s = (case m s of (Inl e, _) \<Rightarrow> Inl e | (Inr _, s') \<Rightarrow> Inr s')"

lemma on_copy_Inr: "on_copy m s = Inr s' \<longleftrightarrow> m s = (Inr (), s')"
  by (cases "m s"; cases "fst (m s)") (auto simp: on_copy_def)

text \<open>Recording in its two halves: reading the settlement, and changing and saving the copy.\<close>

definition sv_load :: "'d dec \<Rightarrow> month_calendar \<Rightarrow> ('x, 'd) settlement_env \<Rightarrow> uuid \<Rightarrow> counterparty_id \<Rightarrow> 'd incentive_event
    \<Rightarrow> ('x, settlement_error, 'd incentive_settlement) op" where
  "sv_load D C E fresh m e =
     (if ie_mm_id e \<noteq> m then op_fail (MismatchedMarketMaker m (ie_mm_id e))
      else op_then (lift_result (sv_period_from_timestamp C (ie_timestamp e))) (sv_get_or_create D E fresh m))"

definition sv_apply :: "'d dec \<Rightarrow> ('d \<Rightarrow> 'd) \<Rightarrow> ('x, 'd) settlement_env \<Rightarrow> 'd incentive_event \<Rightarrow> 'd incentive_settlement
    \<Rightarrow> ('x, settlement_error, unit) op" where
  "sv_apply D round8 E e s =
     (if is_status s \<noteq> SmOpen then op_fail (SettlementClosed (is_status s))
      else op_then (lift_result (on_copy (is_apply_event D round8 e) s)) (se_save E))"

definition sv_record_incentive :: "'d dec \<Rightarrow> ('d \<Rightarrow> 'd) \<Rightarrow> month_calendar \<Rightarrow> ('x, 'd) settlement_env \<Rightarrow> uuid \<Rightarrow> counterparty_id
    \<Rightarrow> 'd incentive_event \<Rightarrow> ('x, settlement_error, unit) op" where
  "sv_record_incentive D round8 C E fresh m e = op_then (sv_load D C E fresh m e) (sv_apply D round8 E e)"

definition sv_finalize_settlement :: "'d dec \<Rightarrow> ('x, 'd) settlement_env \<Rightarrow> counterparty_id \<Rightarrow> settlement_period
    \<Rightarrow> ('x, settlement_error, 'd incentive_settlement) op" where
  "sv_finalize_settlement D E m p =
     op_then (se_find_by_mm_and_period E m p) (\<lambda>found.
     op_then (lift_result (ok_or (SettlementNotFound m p) found)) (\<lambda>s.
     op_then (lift_result (on_copy (is_finalize D) s)) (\<lambda>s.
     op_then (se_save E s) (\<lambda>_. op_ret s))))"

fun sv_finalize_each :: "'d dec \<Rightarrow> ('x, 'd) settlement_env \<Rightarrow> 'd incentive_settlement list \<Rightarrow> 'x \<Rightarrow> 'd incentive_settlement list \<times> 'x" where
  "sv_finalize_each D E [] x = ([], x)"
| "sv_finalize_each D E (s # ss) x =
     (if is_status s \<noteq> SmOpen then (case sv_finalize_each D E ss x of (fs, x) \<Rightarrow> (s # fs, x))
      else case on_copy (is_finalize D) s of
          Inl _ \<Rightarrow> sv_finalize_each D E ss x
        | Inr s \<Rightarrow> (case se_save E s x of
            (Inl _, x) \<Rightarrow> sv_finalize_each D E ss x
          | (Inr _, x) \<Rightarrow> (case sv_finalize_each D E ss x of (fs, x) \<Rightarrow> (s # fs, x))))"

definition sv_finalize_all_for_period :: "'d dec \<Rightarrow> ('x, 'd) settlement_env \<Rightarrow> settlement_period
    \<Rightarrow> ('x, settlement_error, 'd incentive_settlement list) op" where
  "sv_finalize_all_for_period D E p = op_then (se_find_all_by_period E p) (\<lambda>ss x.
     case sv_finalize_each D E ss x of (fs, x) \<Rightarrow> (Inr fs, x))"

section \<open>Reports\<close>

datatype report_detail_level = SummaryReport | DetailedReport

record 'd incentive_summary =
  su_total_trades :: u64
  su_total_volume_usd :: 'd
  su_total_base_rebates_usd :: 'd
  su_total_bonuses_usd :: 'd
  su_net_payout_usd :: 'd

record 'd trade_incentive_detail =
  td_trade_id :: uuid
  td_timestamp :: timestamp
  td_notional :: 'd
  td_tier :: incentive_tier
  td_base_rebate_bps :: 'd
  td_spread_bonus_bps :: 'd
  td_rebate_amount :: 'd

record 'd incentive_report =
  rt_settlement_id :: uuid
  rt_mm_id :: counterparty_id
  rt_period :: settlement_period
  rt_generated_at :: timestamp
  rt_current_tier :: incentive_tier
  rt_summary :: "'d incentive_summary"
  rt_penalties :: "'d penalty_result option"
  rt_trade_details :: "'d trade_incentive_detail list option"

definition is_trade_detail :: "'d incentive_event \<Rightarrow> 'd trade_incentive_detail" where
  "is_trade_detail e = \<lparr> td_trade_id = ie_trade_id e, td_timestamp = ie_timestamp e, td_notional = ie_notional e,
     td_tier = ir_tier (ie_result e), td_base_rebate_bps = ir_base_rebate_bps (ie_result e),
     td_spread_bonus_bps = ir_spread_bonus_bps (ie_result e), td_rebate_amount = ir_rebate_amount (ie_result e) \<rparr>"

text \<open>Over the in-memory performance store \<open>S\<close>, whose calls do not fail.\<close>

definition rv_report_from_settlement :: "'d dec \<Rightarrow> u32 \<Rightarrow> 'd incentive_config \<Rightarrow> timestamp \<Rightarrow> timestamp \<Rightarrow> mm_store
    \<Rightarrow> report_detail_level \<Rightarrow> 'd incentive_settlement \<Rightarrow> 'd incentive_report" where
  "rv_report_from_settlement D days c now now_metrics S level s =
     \<lparr> rt_settlement_id = is_id s, rt_mm_id = is_mm_id s, rt_period = is_period s, rt_generated_at = now,
       rt_current_tier = (if is_events s = [] then Bronze else ir_tier (ie_result (last (is_events s)))),
       rt_summary = \<lparr> su_total_trades = is_total_trades s, su_total_volume_usd = is_total_volume_usd s,
         su_total_base_rebates_usd = is_total_base_rebates_usd s, su_total_bonuses_usd = is_total_bonuses_usd s,
         su_net_payout_usd = is_net_payout_usd s \<rparr>,
       rt_penalties = Some (evaluate_penalties D (mpt_get_metrics days now_metrics (is_mm_id s) S) c),
       rt_trade_details = (if level = DetailedReport then Some (map is_trade_detail (is_events s)) else None) \<rparr>"

definition rv_generate_report :: "'d dec \<Rightarrow> ('x, 'd) settlement_env \<Rightarrow> u32 \<Rightarrow> 'd incentive_config \<Rightarrow> timestamp \<Rightarrow> timestamp \<Rightarrow> mm_store
    \<Rightarrow> counterparty_id \<Rightarrow> settlement_period \<Rightarrow> report_detail_level \<Rightarrow> ('x, settlement_error, 'd incentive_report) op" where
  "rv_generate_report D E days c now now_metrics S m p level =
     op_then (se_find_by_mm_and_period E m p) (\<lambda>found.
     op_then (lift_result (ok_or (SettlementNotFound m p) found)) (\<lambda>s.
     op_ret (rv_report_from_settlement D days c now now_metrics S level s)))"

section \<open>What a settlement promises\<close>

text \<open>The total of an amount over the events, added in their order; \<open>None\<close> where that overflows.\<close>

definition total_of :: "'d dec \<Rightarrow> ('a \<Rightarrow> 'd option) \<Rightarrow> 'a list \<Rightarrow> 'd option" where
  "total_of D f es = foldl (\<lambda>acc e. Option.bind acc (\<lambda>a. Option.bind (f e) (dadd D a))) (Some (dzero D)) es"

lemma total_of_simps [simp]:
  "total_of D f [] = Some (dzero D)"
  "total_of D f (es @ [e]) = Option.bind (total_of D f es) (\<lambda>a. Option.bind (f e) (dadd D a))"
  by (simp_all add: total_of_def)

definition amount_of :: "'d dec \<Rightarrow> ('d \<Rightarrow> 'd) \<Rightarrow> ('d incentive_result \<Rightarrow> 'd) \<Rightarrow> 'd incentive_event \<Rightarrow> 'd option" where
  "amount_of D round8 bps e = (case amount_from_bps D round8 (ie_notional e) (bps (ie_result e)) of Inl _ \<Rightarrow> None | Inr v \<Rightarrow> Some v)"

definition books_kept :: "'d dec \<Rightarrow> ('d \<Rightarrow> 'd) \<Rightarrow> 'd incentive_settlement \<Rightarrow> bool" where
  "books_kept D round8 s \<longleftrightarrow> distinct (map ie_trade_id (is_events s))
     \<and> is_applied_trade_ids s = ie_trade_id ` set (is_events s)
     \<and> unat (is_total_trades s) = length (is_events s) \<and> unat (is_version s) = length (is_events s)
     \<and> (\<forall>e\<in>set (is_events s). ie_mm_id e = is_mm_id s)
     \<and> total_of D (\<lambda>e. Some (ie_notional e)) (is_events s) = Some (is_total_volume_usd s)
     \<and> total_of D (amount_of D round8 ir_base_rebate_bps) (is_events s) = Some (is_total_base_rebates_usd s)
     \<and> total_of D (amount_of D round8 ir_spread_bonus_bps) (is_events s) = Some (is_total_bonuses_usd s)
     \<and> (if is_status s = SmOpen then is_net_payout_usd s = dzero D
        else dadd D (is_total_base_rebates_usd s) (is_total_bonuses_usd s) = Some (is_net_payout_usd s))"

definition settlement_inv :: "'d dec \<Rightarrow> ('d \<Rightarrow> 'd) \<Rightarrow> 'd incentive_settlement \<Rightarrow> bool" where
  "settlement_inv D round8 s \<longleftrightarrow> books_kept D round8 s \<and> (\<forall>e\<in>set (is_events s). sp_contains (ie_timestamp e) (is_period s))"

lemma is_new_books: "books_kept D round8 (is_new D fresh m p)"
  by (simp add: books_kept_def is_new_def)

lemma add_field_Inr: "add_field n g w ad s = (Inr (), s') \<longleftrightarrow> (\<exists>v. ad (g s) = Some v \<and> s' = w v s)"
  by (auto simp: add_field_def split: option.split)

lemma apply_event_Inr:
  assumes "is_apply_event D round8 e s = (Inr (), s')"
  shows "is_status s = SmOpen \<and> ie_mm_id e = is_mm_id s
    \<and> (if ie_trade_id e \<in> is_applied_trade_ids s then s' = s
       else \<exists>base bonus n ver vol tb tx. amount_from_bps D round8 (ie_notional e) (ir_base_rebate_bps (ie_result e)) = Inr base
         \<and> amount_from_bps D round8 (ie_notional e) (ir_spread_bonus_bps (ie_result e)) = Inr bonus
         \<and> w_checked_add (is_total_trades s) 1 = Some n \<and> w_checked_add (is_version s) 1 = Some ver
         \<and> dadd D (is_total_volume_usd s) (ie_notional e) = Some vol
         \<and> dadd D (is_total_base_rebates_usd s) base = Some tb \<and> dadd D (is_total_bonuses_usd s) bonus = Some tx
         \<and> s' = s\<lparr> is_total_trades := n, is_total_volume_usd := vol, is_total_base_rebates_usd := tb, is_total_bonuses_usd := tx,
              is_events := is_events s @ [e], is_applied_trade_ids := insert (ie_trade_id e) (is_applied_trade_ids s), is_version := ver \<rparr>)"
  using assms unfolding is_apply_event_def
  by (auto simp: op_then_Inr_iff add_field_Inr split: if_splits)

lemma apply_event_inv:
  assumes "is_apply_event D round8 e s = (Inr (), s')" "settlement_inv D round8 s" "sp_contains (ie_timestamp e) (is_period s)"
  shows "settlement_inv D round8 s' \<and> is_mm_id s' = is_mm_id s \<and> is_period s' = is_period s
    \<and> is_events s' = (if ie_trade_id e \<in> is_applied_trade_ids s then is_events s else is_events s @ [e])"
proof (cases "ie_trade_id e \<in> is_applied_trade_ids s")
  case True
  then show ?thesis using apply_event_Inr [OF assms(1)] assms(2) by simp
next
  case False
  have one: "unat (1 :: u64) = 1" by simp
  show ?thesis using apply_event_Inr [OF assms(1)] False assms(2,3)
    by (auto simp: settlement_inv_def books_kept_def amount_of_def dest!: w_checked_add_Some)
qed

lemma finalize_inv:
  assumes "is_finalize D s = (Inr (), s')" "settlement_inv D round8 s"
  shows "settlement_inv D round8 s' \<and> is_status s = SmOpen \<and> is_mm_id s' = is_mm_id s \<and> is_period s' = is_period s"
  using assms unfolding is_finalize_def
  by (auto simp: op_then_Inr_iff add_field_Inr settlement_inv_def books_kept_def split: if_splits)

section \<open>What the service relies on\<close>

text \<open>Documented of the repository: it stores one settlement per market maker and period, a failed call changes nothing.\<close>

type_synonym 'd settlement_view = "counterparty_id \<times> settlement_period \<rightharpoonup> 'd incentive_settlement"

definition settlement_store_laws :: "('x, 'd) settlement_env \<Rightarrow> ('x \<Rightarrow> 'd settlement_view) \<Rightarrow> bool" where
  "settlement_store_laws E view \<longleftrightarrow>
     (\<forall>s x a x'. se_save E s x = (a, x') \<longrightarrow>
        view x' = (case a of Inl _ \<Rightarrow> view x | Inr _ \<Rightarrow> (view x)((is_mm_id s, is_period s) \<mapsto> s)))
   \<and> (\<forall>m p x a x'. se_find_by_mm_and_period E m p x = (a, x') \<longrightarrow> view x' = view x \<and> (\<forall>f. a = Inr f \<longrightarrow> f = view x (m, p)))
   \<and> (\<forall>p x a x'. se_find_all_by_period E p x = (a, x') \<longrightarrow> view x' = view x
        \<and> (\<forall>ss. a = Inr ss \<longrightarrow> distinct (map is_mm_id ss) \<and> (\<forall>s\<in>set ss. view x (is_mm_id s, p) = Some s)))"

text \<open>Every stored settlement is in order and under its key; and what is closed has not changed.\<close>

definition settlements_ok :: "'d dec \<Rightarrow> ('d \<Rightarrow> 'd) \<Rightarrow> 'd settlement_view \<Rightarrow> bool" where
  "settlements_ok D round8 V \<longleftrightarrow> (\<forall>m p s. V (m, p) = Some s \<longrightarrow> settlement_inv D round8 s \<and> is_mm_id s = m \<and> is_period s = p)"

definition closed_kept :: "'d settlement_view \<Rightarrow> 'd settlement_view \<Rightarrow> bool" where
  "closed_kept V V' \<longleftrightarrow> (\<forall>k s. V k = Some s \<longrightarrow> is_status s \<noteq> SmOpen \<longrightarrow> V' k = Some s)"

definition view_step :: "'d dec \<Rightarrow> ('d \<Rightarrow> 'd) \<Rightarrow> 'd settlement_view \<Rightarrow> 'd settlement_view \<Rightarrow> bool" where
  "view_step D round8 V V' \<longleftrightarrow> (settlements_ok D round8 V \<longrightarrow> settlements_ok D round8 V' \<and> closed_kept V V')"

lemma view_step_refl [simp]: "view_step D round8 V V"
  by (simp add: view_step_def closed_kept_def)

lemma view_step_trans: "view_step D round8 U V \<Longrightarrow> view_step D round8 V W \<Longrightarrow> view_step D round8 U W"
  unfolding view_step_def closed_kept_def by blast

lemma view_step_save:
  assumes "settlements_ok D round8 V \<Longrightarrow> settlement_inv D round8 s"
    and "\<And>s0. V (is_mm_id s, is_period s) = Some s0 \<Longrightarrow> is_status s0 = SmOpen"
  shows "view_step D round8 V (V((is_mm_id s, is_period s) \<mapsto> s))"
  using assms unfolding view_step_def settlements_ok_def closed_kept_def by auto

lemma storeD:
  assumes "settlement_store_laws E view"
  shows "se_save E s x = (a, x') \<Longrightarrow> view x' = (case a of Inl _ \<Rightarrow> view x | Inr _ \<Rightarrow> (view x)((is_mm_id s, is_period s) \<mapsto> s))"
    and "se_find_by_mm_and_period E m p x = (b, x') \<Longrightarrow> view x' = view x \<and> (\<forall>f. b = Inr f \<longrightarrow> f = view x (m, p))"
    and "se_find_all_by_period E p x = (c, x') \<Longrightarrow> view x' = view x
      \<and> (\<forall>ss. c = Inr ss \<longrightarrow> distinct (map is_mm_id ss) \<and> (\<forall>s\<in>set ss. view x (is_mm_id s, p) = Some s))"
proof -
  note laws = assms [unfolded settlement_store_laws_def]
  show "se_save E s x = (a, x') \<Longrightarrow> view x' = (case a of Inl _ \<Rightarrow> view x | Inr _ \<Rightarrow> (view x)((is_mm_id s, is_period s) \<mapsto> s))"
    using conjunct1 [OF laws] by blast
  show "se_find_by_mm_and_period E m p x = (b, x') \<Longrightarrow> view x' = view x \<and> (\<forall>f. b = Inr f \<longrightarrow> f = view x (m, p))"
    using conjunct1 [OF conjunct2 [OF laws]] by blast
  show "se_find_all_by_period E p x = (c, x') \<Longrightarrow> view x' = view x
      \<and> (\<forall>ss. c = Inr ss \<longrightarrow> distinct (map is_mm_id ss) \<and> (\<forall>s\<in>set ss. view x (is_mm_id s, p) = Some s))"
    using conjunct2 [OF conjunct2 [OF laws]] by blast
qed

lemma get_or_create_step:
  assumes "settlement_store_laws E view" "sv_get_or_create D E fresh m p x = (a, x')"
  shows "view_step D round8 (view x) (view x') \<and> (\<forall>s. a = Inr s \<longrightarrow> view x' (m, p) = Some s)"
proof -
  obtain b x1 where f: "se_find_by_mm_and_period E m p x = (b, x1)" by (metis prod.collapse)
  note found = storeD(2) [OF assms(1) f]
  show ?thesis
  proof (cases "\<exists>e. b = Inl e \<or> (\<exists>s. b = Inr (Some s))")
    case True
    then show ?thesis using assms(2) f found by (auto simp: sv_get_or_create_def op_then_def op_ret_def)
  next
    case False
    then have b: "b = Inr None" by (cases b) auto
    obtain c x2 where sv: "se_save E (is_new D fresh m p) x1 = (c, x2)" by (metis prod.collapse)
    note saved = storeD(1) [OF assms(1) sv]
    have "view_step D round8 (view x1) ((view x1)((is_mm_id (is_new D fresh m p), is_period (is_new D fresh m p)) \<mapsto> is_new D fresh m p))"
      using found b is_new_books [of D round8 fresh m p]
      by (intro view_step_save) (auto simp: settlement_inv_def is_new_def)
    then show ?thesis using assms(2) f b sv saved found
      by (auto simp: sv_get_or_create_def op_then_def op_ret_def Let_def is_new_def split: sum.splits)
  qed
qed

lemma period_contains:
  assumes "month_laws C" "sv_period_from_timestamp C t = Inr p"
  shows "sp_contains t p"
proof -
  obtain year month where ym: "mo_of C t = (year, month)" by (cases "mo_of C t")
  then show ?thesis using assms unfolding sv_period_from_timestamp_def month_laws_def sp_from_month_year_def
    by (auto simp: sp_contains_def next_month_def Let_def split: option.splits if_splits; metis fst_conv snd_conv)
qed

lemma load_step:
  assumes "settlement_store_laws E view" "month_laws C" "sv_load D C E fresh m e x = (a, x')"
  shows "view_step D round8 (view x) (view x')
    \<and> (\<forall>s. a = Inr s \<longrightarrow> (\<exists>p. view x' (m, p) = Some s \<and> sp_contains (ie_timestamp e) p))"
proof (cases "ie_mm_id e \<noteq> m \<or> (\<exists>er. sv_period_from_timestamp C (ie_timestamp e) = Inl er)")
  case True
  then show ?thesis using assms(3) by (auto simp: sv_load_def op_then_def lift_result_def split: if_splits)
next
  case False
  then obtain p where p: "sv_period_from_timestamp C (ie_timestamp e) = Inr p" "ie_mm_id e = m"
    by (cases "sv_period_from_timestamp C (ie_timestamp e)") auto
  then have "sv_get_or_create D E fresh m p x = (a, x')" using assms(3) by (simp add: sv_load_def op_then_def lift_result_def)
  from get_or_create_step [OF assms(1) this] period_contains [OF assms(2) p(1)] show ?thesis by blast
qed

lemma apply_step:
  assumes "settlement_store_laws E view" "sv_apply D round8 E e s x = (a, x')"
    and "view x (m, p) = Some s" "sp_contains (ie_timestamp e) p"
  shows "view_step D round8 (view x) (view x')"
proof (cases "is_status s = SmOpen \<and> (\<exists>s'. is_apply_event D round8 e s = (Inr (), s'))")
  case False
  then have "view x' = view x"
    using assms(2) by (auto simp: sv_apply_def op_then_def lift_result_def on_copy_def op_fail_def split: if_splits sum.splits prod.splits)
  then show ?thesis by simp
next
  case True
  then obtain s' where s': "is_apply_event D round8 e s = (Inr (), s')" by blast
  then have sv: "se_save E s' x = (a, x')" using True assms(2) by (simp add: sv_apply_def op_then_def lift_result_def on_copy_def)
  show ?thesis
  proof (cases "settlements_ok D round8 (view x)")
    case ok: True
    then have s: "settlement_inv D round8 s" "is_mm_id s = m" "is_period s = p"
      using assms(3) unfolding settlements_ok_def by auto
    have s2: "settlement_inv D round8 s'" "is_mm_id s' = m" "is_period s' = p"
      using apply_event_inv [OF s' s(1)] assms(4) s by auto
    have "view_step D round8 (view x) ((view x)((is_mm_id s', is_period s') \<mapsto> s'))"
      using s2 assms(3) True by (intro view_step_save) auto
    then show ?thesis using storeD(1) [OF assms(1) sv] by (auto split: sum.splits)
  qed (simp add: view_step_def)
qed

lemma record_step:
  assumes "settlement_store_laws E view" "month_laws C" "sv_record_incentive D round8 C E fresh m e x = (a, x')"
  shows "view_step D round8 (view x) (view x')"
  using assms(3) unfolding sv_record_incentive_def
proof (cases rule: op_then_cases)
  case (failed er)
  then show ?thesis using load_step [OF assms(1,2)] by blast
next
  case (went_on s x1)
  obtain p where "view_step D round8 (view x) (view x1)" "view x1 (m, p) = Some s" "sp_contains (ie_timestamp e) p"
    using load_step [OF assms(1,2) went_on(1)] by blast
  then show ?thesis using apply_step [OF assms(1) went_on(2)] view_step_trans by blast
qed

lemma finalized_step:
  assumes "settlement_store_laws E view" "on_copy (is_finalize D) s = Inr s'" "se_save E s' x = (a, x')"
    and "view x (is_mm_id s, is_period s) = Some s"
  shows "view_step D round8 (view x) (view x') \<and> is_mm_id s' = is_mm_id s \<and> is_period s' = is_period s
    \<and> view x' = (case a of Inl _ \<Rightarrow> view x | Inr _ \<Rightarrow> (view x)((is_mm_id s', is_period s') \<mapsto> s'))"
proof -
  have f: "is_finalize D s = (Inr (), s')" using assms(2) by (auto simp: on_copy_def split: prod.splits sum.splits)
  then have keys: "is_status s = SmOpen" "is_mm_id s' = is_mm_id s" "is_period s' = is_period s"
    by (auto simp: is_finalize_def op_then_Inr_iff add_field_Inr split: if_splits)
  have "settlement_inv D round8 s'" if "settlements_ok D round8 (view x)"
    using finalize_inv [OF f] that assms(4) unfolding settlements_ok_def by blast
  then have "view_step D round8 (view x) ((view x)((is_mm_id s', is_period s') \<mapsto> s'))"
    using keys assms(4) by (intro view_step_save) auto
  then show ?thesis using storeD(1) [OF assms(1,3)] keys by (auto split: sum.splits)
qed

lemma finalize_one_step:
  assumes "settlement_store_laws E view" "sv_finalize_settlement D E m p x = (a, x')"
  shows "view_step D round8 (view x) (view x')"
proof (cases "settlements_ok D round8 (view x)")
  case ok: True
  obtain b x1 where f: "se_find_by_mm_and_period E m p x = (b, x1)" by (metis prod.collapse)
  note found = storeD(2) [OF assms(1) f]
  show ?thesis
  proof (cases "\<exists>s s'. b = Inr (Some s) \<and> on_copy (is_finalize D) s = Inr s'")
    case False
    have "x' = x1" using assms(2) f False
      by (cases b; cases "projr b") (auto simp: sv_finalize_settlement_def op_then_def lift_result_def split: sum.splits)
    then show ?thesis using found by simp
  next
    case True
    then obtain s s' where s: "b = Inr (Some s)" "on_copy (is_finalize D) s = Inr s'" by blast
    obtain c x2 where sv: "se_save E s' x1 = (c, x2)" by (metis prod.collapse)
    have "x' = x2" using assms(2) f s sv
      by (auto simp: sv_finalize_settlement_def op_then_def lift_result_def op_ret_def split: sum.splits)
    moreover have "view x1 (m, p) = Some s" using found s(1) by simp
    then have "view x1 (is_mm_id s, is_period s) = Some s" using ok found unfolding settlements_ok_def by auto
    from finalized_step [OF assms(1) s(2) sv this] have "view_step D round8 (view x1) (view x2)" by blast
    ultimately show ?thesis using found by simp
  qed
qed (simp add: view_step_def)

lemma finalize_each_step:
  assumes "settlement_store_laws E view" "sv_finalize_each D E ss x = (fs, x')"
    and "distinct (map is_mm_id ss)" "\<forall>s\<in>set ss. view x (is_mm_id s, is_period s) = Some s"
  shows "view_step D round8 (view x) (view x')"
  using assms(2-)
proof (induction ss arbitrary: x fs)
  case (Cons s ss)
  have skip: ?case if "sv_finalize_each D E ss x = (gs, x')" for gs
    using Cons.IH [OF that] Cons.prems(2,3) by simp
  show ?case
  proof (cases "is_status s = SmOpen \<and> (\<exists>s'. on_copy (is_finalize D) s = Inr s')")
    case False
    then show ?thesis using Cons.prems(1) skip by (auto split: if_splits prod.splits sum.splits)
  next
    case True
    then obtain s' where s': "on_copy (is_finalize D) s = Inr s'" by blast
    obtain c x1 where sv: "se_save E s' x = (c, x1)" by (metis prod.collapse)
    have "view x (is_mm_id s, is_period s) = Some s" using Cons.prems(3) by simp
    note step = finalized_step [OF assms(1) s' sv this]
    obtain gs where rest: "sv_finalize_each D E ss x1 = (gs, x')"
      using Cons.prems(1) True s' sv by (auto split: prod.splits sum.splits)
    have "view x1 (is_mm_id q, is_period q) = Some q" if "q \<in> set ss" for q
    proof -
      have "is_mm_id q \<noteq> is_mm_id s'" using Cons.prems(2) that step by (auto simp: image_iff)
      then show ?thesis using step Cons.prems(3) that by (auto split: sum.splits)
    qed
    then have "view_step D round8 (view x1) (view x')" using Cons.IH [OF rest] Cons.prems(2) by simp
    then show ?thesis using step view_step_trans by blast
  qed
qed simp

lemma finalize_all_step:
  assumes "settlement_store_laws E view" "sv_finalize_all_for_period D E p x = (a, x')"
  shows "view_step D round8 (view x) (view x')"
proof (cases "settlements_ok D round8 (view x)")
  case ok: True
  obtain b x1 where f: "se_find_all_by_period E p x = (b, x1)" by (metis prod.collapse)
  note found = storeD(3) [OF assms(1) f]
  show ?thesis
  proof (cases b)
    case (Inl er)
    then show ?thesis using assms(2) f found by (auto simp: sv_finalize_all_for_period_def op_then_def)
  next
    case (Inr ss)
    obtain fs x2 where each: "sv_finalize_each D E ss x1 = (fs, x2)" by (metis prod.collapse)
    have "x' = x2" using assms(2) f Inr each by (auto simp: sv_finalize_all_for_period_def op_then_def)
    moreover have "view x1 (is_mm_id s, is_period s) = Some s" if "s \<in> set ss" for s
    proof -
      have "view x (is_mm_id s, p) = Some s" using found Inr that by blast
      moreover from this have "is_period s = p" using ok unfolding settlements_ok_def by blast
      ultimately show ?thesis using found by simp
    qed
    ultimately show ?thesis using finalize_each_step [OF assms(1) each] found Inr by auto
  qed
qed (simp add: view_step_def)

datatype 'd settlement_call = RecordEvent uuid counterparty_id "'d incentive_event"
  | FinalizeOne counterparty_id settlement_period | FinalizeAll settlement_period

fun settlement_apply :: "'d dec \<Rightarrow> ('d \<Rightarrow> 'd) \<Rightarrow> month_calendar \<Rightarrow> ('x, 'd) settlement_env \<Rightarrow> 'd settlement_call \<Rightarrow> 'x \<Rightarrow> 'x" where
  "settlement_apply D round8 C E (RecordEvent fresh m e) x = snd (sv_record_incentive D round8 C E fresh m e x)"
| "settlement_apply D round8 C E (FinalizeOne m p) x = snd (sv_finalize_settlement D E m p x)"
| "settlement_apply D round8 C E (FinalizeAll p) x = snd (sv_finalize_all_for_period D E p x)"

lemma settlement_call_step:
  assumes "settlement_store_laws E view" "month_laws C"
  shows "view_step D round8 (view x) (view (settlement_apply D round8 C E c x))"
  using record_step [OF assms prod.collapse [symmetric]] finalize_one_step [OF assms(1) prod.collapse [symmetric]]
    finalize_all_step [OF assms(1) prod.collapse [symmetric]]
  by (cases c) simp_all

section \<open>Properties\<close>

text \<open>
  C22. The books are kept: over any history of recording and finalizing through the service, starting
  with an empty repository, every stored settlement has each trade once, of its market maker and its
  month, with totals that are the sums over its trades, and a closed one pays base rebates plus bonuses;
  and what is closed before a call is the same after it. A recording that fails stores nothing wrong.
\<close>

theorem settlement_books_are_kept:
  assumes "settlement_store_laws E view" "month_laws C" "view x = Map.empty"
    and "xs = fold (settlement_apply D round8 C E) calls x"
  shows "settlements_ok D round8 (view xs) \<and> closed_kept (view xs) (view (settlement_apply D round8 C E c xs))"
proof -
  have "view_step D round8 (view y) (view (fold (settlement_apply D round8 C E) calls y))" for y
  proof (induction calls arbitrary: y)
    case (Cons call calls)
    show ?case using view_step_trans [OF settlement_call_step [OF assms(1,2)] Cons] by simp
  qed simp
  then have "view_step D round8 (view x) (view xs)" using assms(4) by simp
  moreover have "settlements_ok D round8 (view x)" using assms(3) by (simp add: settlements_ok_def)
  ultimately have "settlements_ok D round8 (view xs)" unfolding view_step_def by blast
  then show ?thesis using settlement_call_step [OF assms(1,2), of D round8 xs c] by (simp add: view_step_def)
qed

text \<open>
  Recordings are not isolated: the version of a settlement is counted but never compared, so when
  another event is recorded between the two halves of a recording, both report success and
  the settlement that is left has lost the other event.
\<close>

theorem concurrent_recording_loses_event:
  assumes "settlement_store_laws E view" "month_laws C" "settlements_ok D round8 (view x)"
    and "sv_load D C E fresh m e x = (Inr s, x1)"
    and "sv_record_incentive D round8 C E fresh' m e' x1 = (Inr (), x2)"
    and "sv_apply D round8 E e s x2 = (Inr (), x3)"
    and "ie_trade_id e \<notin> is_applied_trade_ids s" "e' \<notin> set (is_events s)" "e' \<noteq> e"
  shows "\<exists>s3. view x3 (m, is_period s) = Some s3 \<and> is_events s3 = is_events s @ [e] \<and> e' \<notin> set (is_events s3)"
proof -
  obtain p where p: "view_step D round8 (view x) (view x1)" "view x1 (m, p) = Some s" "sp_contains (ie_timestamp e) p"
    using load_step [OF assms(1,2,4)] by blast
  then have s: "settlement_inv D round8 s" "is_mm_id s = m" "is_period s = p"
    using assms(3) unfolding view_step_def settlements_ok_def by blast+
  obtain s' where s': "is_apply_event D round8 e s = (Inr (), s')" "se_save E s' x2 = (Inr (), x3)"
    using assms(6) unfolding sv_apply_def by (auto simp: op_then_Inr_iff on_copy_Inr split: if_splits)
  have "is_mm_id s' = m" "is_period s' = p" "is_events s' = is_events s @ [e]"
    using apply_event_inv [OF s'(1) s(1)] p(3) s assms(7) by simp_all
  then show ?thesis using storeD(1) [OF assms(1) s'(2)] s assms(8,9) by auto
qed

text \<open>A repository that keeps a map, and a calendar of months of ten units.\<close>

definition map_settlements :: "(('d settlement_view), 'd) settlement_env" where
  "map_settlements = \<lparr> se_save = (\<lambda>s V. (Inr (), V((is_mm_id s, is_period s) \<mapsto> s))),
     se_find_by_mm_and_period = (\<lambda>m p V. (Inr (V (m, p)), V)), se_find_all_by_period = (\<lambda>_ V. (Inr [], V)) \<rparr>"

lemma map_settlements_laws: "settlement_store_laws map_settlements (\<lambda>V. V)"
  by (auto simp: settlement_store_laws_def map_settlements_def)

definition ten_unit_months :: month_calendar where
  "ten_unit_months = \<lparr> mo_first = (\<lambda>y m. Some (120 * y + 10 * (int m - 1))),
     mo_of = (\<lambda>t. (t div 120, nat (t mod 120 div 10) + 1)) \<rparr>"

lemma ten_unit_month_laws: "month_laws ten_unit_months"
proof -
  have bounds: "t mod 120 div 10 < 12" "0 \<le> t mod 120 div 10" for t :: int by (simp_all add: zdiv_mono1 div_less_iff_less_mult)
  have "120 * (t div 120) + 10 * (t mod 120 div 10) \<le> t" "t < 120 * (t div 120) + 10 * (t mod 120 div 10) + 10" for t :: int
    by presburger+
  then show ?thesis using bounds unfolding month_laws_def ten_unit_months_def next_month_def
    by (auto simp: nat_less_iff ac_simps)
qed

definition earned :: "uuid \<Rightarrow> int incentive_event" where
  "earned i = TradeIncentiveEarned i ''mm'' \<lparr> ir_tier = Gold, ir_base_rebate_bps = - 3, ir_spread_bonus_bps = - 1,
     ir_total_rebate_bps = - 4, ir_rebate_amount = - 40 \<rparr> 100000 25"

lemmas settlement_defs = sv_record_incentive_def sv_load_def sv_apply_def sv_get_or_create_def sv_period_from_timestamp_def
  sp_from_month_year_def sv_finalize_settlement_def map_settlements_def ten_unit_months_def on_copy_def op_then_def op_ret_def
  lift_result_def is_apply_event_def add_field_def amount_from_bps_def is_new_def is_finalize_def earned_def w_checked_add_def

abbreviation march :: settlement_period where
  "march \<equiv> \<lparr> sp_start = 20, sp_end = 30 \<rparr>"

abbreviation opened :: "int incentive_settlement" where
  "opened \<equiv> is_new whole_dec 1 ''mm'' march"

abbreviation holding :: "uuid \<Rightarrow> int incentive_settlement" where
  "holding i \<equiv> \<lparr> is_id = 1, is_mm_id = ''mm'', is_period = march, is_status = SmOpen, is_total_trades = 1,
     is_total_volume_usd = 100000, is_total_base_rebates_usd = - 30, is_total_bonuses_usd = - 10, is_net_payout_usd = 0,
     is_events = [earned i], is_applied_trade_ids = {i}, is_version = 1 \<rparr>"

lemma earned_applied: "is_apply_event whole_dec (\<lambda>d. d) (earned i) opened = (Inr (), holding i)"
  by (simp add: settlement_defs whole_fit_def whole_dec_def trunc_div_def)

lemma opened_loaded:
  "sv_load whole_dec ten_unit_months map_settlements 1 ''mm'' (earned i) Map.empty = (Inr opened, [(''mm'', march) \<mapsto> opened])"
  "sv_load whole_dec ten_unit_months map_settlements n ''mm'' (earned i) [(''mm'', march) \<mapsto> opened]
     = (Inr opened, [(''mm'', march) \<mapsto> opened])"
  by (simp_all add: settlement_defs whole_fit_def whole_dec_def trunc_div_def Let_def)

lemma opened_applied:
  assumes "x (''mm'', march) \<noteq> None"
  shows "sv_apply whole_dec (\<lambda>d. d) map_settlements (earned i) opened x = (Inr (), x((''mm'', march) \<mapsto> holding i))"
  using earned_applied [of i]
  by (simp add: sv_apply_def on_copy_def op_then_def lift_result_def map_settlements_def is_new_def)

theorem settlement_books_are_kept_witness:
  "\<exists>x. x = fold (settlement_apply whole_dec (\<lambda>d. d) ten_unit_months map_settlements)
        [RecordEvent 1 ''mm'' (earned 7), RecordEvent 2 ''mm'' (earned 7), FinalizeOne ''mm'' march] Map.empty
    \<and> settlements_ok whole_dec (\<lambda>d. d) x"
  using settlement_books_are_kept [OF map_settlements_laws ten_unit_month_laws, where x = Map.empty, OF refl refl] by blast

theorem concurrent_recording_loses_event_witness:
  "\<exists>s3. [(''mm'', march) \<mapsto> holding 7] (''mm'', march) = Some s3 \<and> is_events s3 = [earned 7] \<and> earned 8 \<notin> set (is_events s3)"
proof -
  have load: "sv_load whole_dec ten_unit_months map_settlements 1 ''mm'' (earned 7) Map.empty
      = (Inr opened, [(''mm'', march) \<mapsto> opened])" by (rule opened_loaded)
  have other: "sv_record_incentive whole_dec (\<lambda>d. d) ten_unit_months map_settlements 2 ''mm'' (earned 8) [(''mm'', march) \<mapsto> opened]
      = (Inr (), [(''mm'', march) \<mapsto> holding 8])"
    by (simp add: sv_record_incentive_def op_then_def opened_loaded opened_applied)
  have last: "sv_apply whole_dec (\<lambda>d. d) map_settlements (earned 7) opened [(''mm'', march) \<mapsto> holding 8]
      = (Inr (), [(''mm'', march) \<mapsto> holding 7])" by (simp add: opened_applied)
  have "settlements_ok whole_dec (\<lambda>d. d) (Map.empty :: int settlement_view)" by (simp add: settlements_ok_def)
  from concurrent_recording_loses_event [OF map_settlements_laws ten_unit_month_laws this load other last]
  show ?thesis by (simp add: is_new_def earned_def)
qed

end
