(* ===== verification/Streaming.thy ===== *)
theory Streaming
  imports Errors Instruments Exact_Decimals "HOL-Library.List_Lexorder" "HOL-Library.Char_ord"
begin

text \<open>
  Streaming quotes: the entities of \<open>src/domain/entities/streaming_quote.rs\<close>, the results of
  \<open>src/domain/services/streaming_quote.rs\<close> and the service of \<open>src/infrastructure/streaming/composite.rs\<close>, which
  keeps the latest quote of each market maker and caches the best prices.

  Every reading of the clock is an argument; a loop has one reading per iteration. The order in which a
  hash map is walked is an argument too, a function from its keys. The rate limiter is a package: its
  check of a key is a parameter over its own state. An instrument is a key as it is written.
\<close>

section \<open>Quotes\<close>

record 'd price_level =
  pl_price :: "'d price"
  pl_size :: "'d quantity"

definition pl_new :: "'d dec \<Rightarrow> 'd price \<Rightarrow> 'd quantity \<Rightarrow> 'd domain_error + 'd price_level" where
  "pl_new D p s =
     (if \<not> price_is_positive D p then Inl (InvalidPrice (Txt ''price must be positive''))
      else if \<not> quantity_is_positive D s then Inl (InvalidQuantity (Txt ''size must be positive''))
      else Inr \<lparr> pl_price = p, pl_size = s \<rparr>)"

record 'd streaming_quote =
  sq_id :: uuid
  sq_mm_id :: counterparty_id
  sq_instrument :: "'d instrument"
  sq_bid :: "'d price_level"
  sq_ask :: "'d price_level"
  sq_timestamp :: timestamp
  sq_received_at :: timestamp
  sq_ttl_ms :: u64

abbreviation bid_of :: "'d streaming_quote \<Rightarrow> 'd" where
  "bid_of q \<equiv> price_get (pl_price (sq_bid q))"

abbreviation ask_of :: "'d streaming_quote \<Rightarrow> 'd" where
  "ask_of q \<equiv> price_get (pl_price (sq_ask q))"

definition sq_with_timestamps :: "'d dec \<Rightarrow> uuid \<Rightarrow> counterparty_id \<Rightarrow> 'd instrument \<Rightarrow> 'd price_level \<Rightarrow> 'd price_level
    \<Rightarrow> timestamp \<Rightarrow> timestamp \<Rightarrow> u64 \<Rightarrow> 'd domain_error + 'd streaming_quote" where
  "sq_with_timestamps D fresh m inst bid ask t received ttl =
     (if dle D (price_get (pl_price ask)) (price_get (pl_price bid))
      then Inl (InvalidPrice (Txt ''bid price must be less than ask price (crossed market)''))
      else if ttl = 0 then Inl (InvalidQuantity (Txt ''TTL must be positive''))
      else Inr \<lparr> sq_id = fresh, sq_mm_id = m, sq_instrument = inst, sq_bid = bid, sq_ask = ask, sq_timestamp = t,
        sq_received_at = received, sq_ttl_ms = ttl \<rparr>)"

definition sq_new :: "'d dec \<Rightarrow> uuid \<Rightarrow> timestamp \<Rightarrow> counterparty_id \<Rightarrow> 'd instrument \<Rightarrow> 'd price_level \<Rightarrow> 'd price_level
    \<Rightarrow> u64 \<Rightarrow> 'd domain_error + 'd streaming_quote" where
  "sq_new D fresh now m inst bid ask ttl = sq_with_timestamps D fresh m inst bid ask now now ttl"

definition sq_expiry :: "'d streaming_quote \<Rightarrow> timestamp" where
  "sq_expiry q = ts_add_millis (sq_received_at q) (min (uint (sq_ttl_ms q)) (2 ^ 63 - 1))"

definition sq_is_stale :: "timestamp \<Rightarrow> 'd streaming_quote \<Rightarrow> bool" where
  "sq_is_stale now q \<longleftrightarrow> sq_expiry q < now"

definition sq_time_remaining_ms :: "timestamp \<Rightarrow> 'd streaming_quote \<Rightarrow> u64" where
  "sq_time_remaining_ms now q =
     (if sq_expiry q \<le> now then 0 else of_nat (ts_duration_until now (sq_expiry q) div 1000000))"

text \<open>The same arithmetic for a quote and for a best quote.\<close>

definition mid_of :: "'d dec \<Rightarrow> 'd \<Rightarrow> 'd \<Rightarrow> 'd option" where
  "mid_of D bid ask = Option.bind (dadd D bid ask) (\<lambda>s. ddiv D s (dof_int D 2))"

definition spread_bps_of :: "'d dec \<Rightarrow> 'd \<Rightarrow> 'd \<Rightarrow> 'd option" where
  "spread_bps_of D bid ask =
     Option.bind (dsub D ask bid) (\<lambda>spread. Option.bind (mid_of D bid ask) (\<lambda>mid.
     if dis_zero D mid then None
     else Option.bind (ddiv D spread mid) (\<lambda>ratio. dmul D ratio (dof_int D 10000))))"

definition price_of_mid :: "'d dec \<Rightarrow> 'd \<Rightarrow> 'd \<Rightarrow> 'd price option" where
  "price_of_mid D bid ask = Option.bind (mid_of D bid ask) (\<lambda>mid. case price_from_decimal D mid of Inl _ \<Rightarrow> None | Inr p \<Rightarrow> Some p)"

definition sq_spread_bps :: "'d dec \<Rightarrow> 'd streaming_quote \<Rightarrow> 'd option" where
  "sq_spread_bps D q = spread_bps_of D (bid_of q) (ask_of q)"

definition sq_mid_price :: "'d dec \<Rightarrow> 'd streaming_quote \<Rightarrow> 'd price option" where
  "sq_mid_price D q = price_of_mid D (bid_of q) (ask_of q)"

record 'd streaming_config =
  sg_default_ttl_ms :: u64
  sg_max_quotes_per_second :: u32
  sg_max_spread_bps :: 'd
  sg_min_size :: 'd
  sg_staleness_check_interval_ms :: u64

definition sg_default :: "'d dec \<Rightarrow> 'd streaming_config" where
  "sg_default D = \<lparr> sg_default_ttl_ms = 5000, sg_max_quotes_per_second = 100, sg_max_spread_bps = dof_int D 500,
     sg_min_size = dzero D, sg_staleness_check_interval_ms = 1000 \<rparr>"

text \<open>\<open>build\<close> of the builder, whose setters fill the fields of \<open>c\<close>.\<close>

definition sg_build :: "'d streaming_config \<Rightarrow> 'd streaming_config" where
  "sg_build c =
     (let c = (if sg_default_ttl_ms c = 0 then c\<lparr> sg_default_ttl_ms := 1 \<rparr> else c);
          c = (if sg_max_quotes_per_second c = 0 then c\<lparr> sg_max_quotes_per_second := 1 \<rparr> else c) in
      if sg_staleness_check_interval_ms c = 0 then c\<lparr> sg_staleness_check_interval_ms := sg_default_ttl_ms c \<rparr> else c)"

record 'd best_quote =
  bq_bid :: "'d price_level"
  bq_bid_mm :: counterparty_id
  bq_ask :: "'d price_level"
  bq_ask_mm :: counterparty_id
  bq_computed_at :: timestamp

definition bq_new :: "timestamp \<Rightarrow> 'd price_level \<Rightarrow> counterparty_id \<Rightarrow> 'd price_level \<Rightarrow> counterparty_id \<Rightarrow> 'd best_quote" where
  "bq_new now b bm a am = \<lparr> bq_bid = b, bq_bid_mm = bm, bq_ask = a, bq_ask_mm = am, bq_computed_at = now \<rparr>"

definition bq_spread_bps :: "'d dec \<Rightarrow> 'd best_quote \<Rightarrow> 'd option" where
  "bq_spread_bps D b = spread_bps_of D (price_get (pl_price (bq_bid b))) (price_get (pl_price (bq_ask b)))"

definition bq_mid_price :: "'d dec \<Rightarrow> 'd best_quote \<Rightarrow> 'd price option" where
  "bq_mid_price D b = price_of_mid D (price_get (pl_price (bq_bid b))) (price_get (pl_price (bq_ask b)))"

record streaming_stats =
  st_received :: u64
  st_accepted :: u64
  st_rejected :: u64
  st_expired :: u64
  st_rate_limited :: u64

definition st_zero :: streaming_stats where
  "st_zero = \<lparr> st_received = 0, st_accepted = 0, st_rejected = 0, st_expired = 0, st_rate_limited = 0 \<rparr>"

definition st_record_received :: "streaming_stats \<Rightarrow> streaming_stats" where
  "st_record_received t = t\<lparr> st_received := sat_add (st_received t) 1 \<rparr>"

definition st_record_accepted :: "streaming_stats \<Rightarrow> streaming_stats" where
  "st_record_accepted t = t\<lparr> st_accepted := sat_add (st_accepted t) 1 \<rparr>"

definition st_record_rejected :: "streaming_stats \<Rightarrow> streaming_stats" where
  "st_record_rejected t = t\<lparr> st_rejected := sat_add (st_rejected t) 1 \<rparr>"

definition st_record_expired :: "streaming_stats \<Rightarrow> streaming_stats" where
  "st_record_expired t = t\<lparr> st_expired := sat_add (st_expired t) 1 \<rparr>"

definition st_record_rate_limited :: "streaming_stats \<Rightarrow> streaming_stats" where
  "st_record_rate_limited t = t\<lparr> st_rate_limited := sat_add (st_rate_limited t) 1 \<rparr>"

section \<open>Results\<close>

datatype 'd reject_reason =
    QuoteStale
  | RateLimitExceeded u32 u32
  | InvalidSpread 'd 'd
  | InvalidSize 'd 'd
  | UnknownMM
  | InstrumentNotSupported
  | StreamInternalError string

datatype 'd streaming_result = StreamAccepted uuid bool | StreamRejected "'d reject_reason"

section \<open>The book of an instrument\<close>

type_synonym 'd best_side = "(counterparty_id \<times> 'd price_level) option"

record 'd instrument_book =
  ib_quotes :: "counterparty_id \<rightharpoonup> 'd streaming_quote"
  ib_best_bid :: "'d best_side"
  ib_best_ask :: "'d best_side"

definition ib_new :: "'d instrument_book" where
  "ib_new = \<lparr> ib_quotes = Map.empty, ib_best_bid = None, ib_best_ask = None \<rparr>"

definition better_bid :: "'d dec \<Rightarrow> counterparty_id \<Rightarrow> 'd streaming_quote \<Rightarrow> 'd best_side \<Rightarrow> 'd best_side" where
  "better_bid D m q best = (case best of None \<Rightarrow> Some (m, sq_bid q)
     | Some (_, current) \<Rightarrow> if dlt D (price_get (pl_price current)) (bid_of q) then Some (m, sq_bid q) else best)"

definition better_ask :: "'d dec \<Rightarrow> counterparty_id \<Rightarrow> 'd streaming_quote \<Rightarrow> 'd best_side \<Rightarrow> 'd best_side" where
  "better_ask D m q best = (case best of None \<Rightarrow> Some (m, sq_ask q)
     | Some (_, current) \<Rightarrow> if dlt D (ask_of q) (price_get (pl_price current)) then Some (m, sq_ask q) else best)"

text \<open>The loop over the quotes; \<open>skip k\<close> is the test of the \<open>k\<close>-th iteration that continues with the next quote.\<close>

fun scan_best :: "'d dec \<Rightarrow> (nat \<Rightarrow> counterparty_id \<Rightarrow> 'd streaming_quote \<Rightarrow> bool) \<Rightarrow> nat \<Rightarrow> (counterparty_id \<times> 'd streaming_quote) list
    \<Rightarrow> 'd best_side \<times> 'd best_side \<Rightarrow> 'd best_side \<times> 'd best_side" where
  "scan_best D skip k [] best = best"
| "scan_best D skip k ((m, q) # qs) (bid, ask) =
     scan_best D skip (Suc k) qs (if skip k m q then (bid, ask) else (better_bid D m q bid, better_ask D m q ask))"

definition ib_entries :: "(counterparty_id set \<Rightarrow> counterparty_id list) \<Rightarrow> (counterparty_id \<rightharpoonup> 'd streaming_quote)
    \<Rightarrow> (counterparty_id \<times> 'd streaming_quote) list" where
  "ib_entries walk Q = map (\<lambda>m. (m, the (Q m))) (walk (dom Q))"

definition ib_recalculate_best :: "'d dec \<Rightarrow> (counterparty_id set \<Rightarrow> counterparty_id list) \<Rightarrow> (nat \<Rightarrow> timestamp)
    \<Rightarrow> 'd instrument_book \<Rightarrow> 'd instrument_book" where
  "ib_recalculate_best D walk clk b =
     (case scan_best D (\<lambda>k _ q. sq_is_stale (clk k) q) 0 (ib_entries walk (ib_quotes b)) (None, None) of
        (bid, ask) \<Rightarrow> b\<lparr> ib_best_bid := bid, ib_best_ask := ask \<rparr>)"

definition held_by :: "counterparty_id \<Rightarrow> 'd best_side \<Rightarrow> bool" where
  "held_by m best \<longleftrightarrow> (case best of Some (i, _) \<Rightarrow> i = m | None \<Rightarrow> False)"

definition ib_update_quote :: "'d dec \<Rightarrow> (counterparty_id set \<Rightarrow> counterparty_id list) \<Rightarrow> (nat \<Rightarrow> timestamp) \<Rightarrow> 'd streaming_quote
    \<Rightarrow> 'd instrument_book \<Rightarrow> bool \<times> 'd instrument_book" where
  "ib_update_quote D walk clk q b =
     (let m = sq_mm_id q; b = ib_recalculate_best D walk clk (b\<lparr> ib_quotes := (ib_quotes b)(m \<mapsto> q) \<rparr>) in
      (held_by m (ib_best_bid b) \<or> held_by m (ib_best_ask b), b))"

text \<open>\<open>clk1\<close> is read while the stale quotes are collected, \<open>clk2\<close> in the recalculation.\<close>

definition ib_remove_stale :: "'d dec \<Rightarrow> (counterparty_id set \<Rightarrow> counterparty_id list) \<Rightarrow> (nat \<Rightarrow> timestamp) \<Rightarrow> (nat \<Rightarrow> timestamp)
    \<Rightarrow> counterparty_id set \<Rightarrow> 'd instrument_book \<Rightarrow> nat \<times> 'd instrument_book" where
  "ib_remove_stale D walk clk1 clk2 registered b =
     (let stale = map (fst \<circ> snd) (filter (\<lambda>(k, m, q). sq_is_stale (clk1 k) q \<or> m \<notin> registered)
            (enumerate 0 (ib_entries walk (ib_quotes b))));
          b = b\<lparr> ib_quotes := ib_quotes b |` (- set stale) \<rparr> in
      (length stale, if 0 < length stale then ib_recalculate_best D walk clk2 b else b))"

definition best_pair :: "timestamp \<Rightarrow> 'd best_side \<times> 'd best_side \<Rightarrow> 'd best_quote option" where
  "best_pair now best = (case best of (Some (bm, b), Some (am, a)) \<Rightarrow> Some (bq_new now b bm a am) | _ \<Rightarrow> None)"

definition ib_best_quote :: "timestamp \<Rightarrow> 'd instrument_book \<Rightarrow> 'd best_quote option" where
  "ib_best_quote now b = best_pair now (ib_best_bid b, ib_best_ask b)"

section \<open>The service\<close>

record ('g, 'd) streaming_service =
  ss_books :: "'d instrument \<rightharpoonup> 'd instrument_book"
  ss_limiter :: 'g
  ss_registered :: "counterparty_id \<rightharpoonup> bool"
  ss_config :: "'d streaming_config"
  ss_stats :: streaming_stats
  ss_mm_stats :: "counterparty_id \<rightharpoonup> streaming_stats"

definition ss_new :: "'g \<Rightarrow> 'd streaming_config \<Rightarrow> ('g, 'd) streaming_service" where
  "ss_new g c = \<lparr> ss_books = Map.empty, ss_limiter = g, ss_registered = Map.empty, ss_config = c, ss_stats = st_zero,
     ss_mm_stats = Map.empty \<rparr>"

definition ss_is_mm_registered :: "counterparty_id \<Rightarrow> ('g, 'd) streaming_service \<Rightarrow> bool" where
  "ss_is_mm_registered m s \<longleftrightarrow> m \<in> dom (ss_registered s)"

definition ss_validate_quote :: "'d dec \<Rightarrow> timestamp \<Rightarrow> 'd streaming_quote \<Rightarrow> ('g, 'd) streaming_service \<Rightarrow> 'd reject_reason + unit" where
  "ss_validate_quote D now q s =
     (let c = ss_config s in
      if \<not> ss_is_mm_registered (sq_mm_id q) s then Inl UnknownMM
      else if sq_is_stale now q then Inl QuoteStale
      else case sq_spread_bps D q of
          None \<Rightarrow> Inl (InvalidSpread (sg_max_spread_bps c) (sg_max_spread_bps c))
        | Some spread \<Rightarrow>
            if dlt D (sg_max_spread_bps c) spread then Inl (InvalidSpread spread (sg_max_spread_bps c))
            else if \<not> dis_zero D (sg_min_size c) \<and> dlt D (quantity_get (pl_size (sq_bid q))) (sg_min_size c)
            then Inl (InvalidSize (quantity_get (pl_size (sq_bid q))) (sg_min_size c))
            else if \<not> dis_zero D (sg_min_size c) \<and> dlt D (quantity_get (pl_size (sq_ask q))) (sg_min_size c)
            then Inl (InvalidSize (quantity_get (pl_size (sq_ask q))) (sg_min_size c))
            else Inr ())"

type_synonym 'g rate_check = "timestamp \<Rightarrow> counterparty_id \<Rightarrow> 'g \<Rightarrow> bool \<times> 'g"

definition ss_check_rate_limit :: "'g rate_check \<Rightarrow> timestamp \<Rightarrow> counterparty_id
    \<Rightarrow> ('g, 'd) streaming_service \<Rightarrow> ('d reject_reason + unit) \<times> ('g, 'd) streaming_service" where
  "ss_check_rate_limit L now m s = (case L now m (ss_limiter s) of (ok, g) \<Rightarrow>
     (if ok then Inr ()
      else let max_rate = sg_max_quotes_per_second (ss_config s) in Inl (RateLimitExceeded (sat_add max_rate 1) max_rate),
      s\<lparr> ss_limiter := g \<rparr>))"

definition st_record_result :: "'d streaming_result \<Rightarrow> streaming_stats \<Rightarrow> streaming_stats" where
  "st_record_result r t = (let t = st_record_received t in case r of
     StreamAccepted _ _ \<Rightarrow> st_record_accepted t
   | StreamRejected reason \<Rightarrow> (case reason of RateLimitExceeded _ _ \<Rightarrow> st_record_rate_limited t | _ \<Rightarrow> st_record_rejected t))"

definition ss_record_stats :: "counterparty_id \<Rightarrow> 'd streaming_result \<Rightarrow> ('g, 'd) streaming_service \<Rightarrow> ('g, 'd) streaming_service" where
  "ss_record_stats m r s = s\<lparr> ss_stats := st_record_result r (ss_stats s),
     ss_mm_stats := (ss_mm_stats s)(m \<mapsto> st_record_result r (case ss_mm_stats s m of Some t \<Rightarrow> t | None \<Rightarrow> st_zero)) \<rparr>"

text \<open>The readings of one call.\<close>

record stream_input =
  sin_limit_now :: timestamp
  sin_now :: timestamp
  sin_clock :: "nat \<Rightarrow> timestamp"
  sin_walk :: "counterparty_id set \<Rightarrow> counterparty_id list"

definition ss_receive_quote :: "'d dec \<Rightarrow> 'g rate_check \<Rightarrow> stream_input \<Rightarrow> 'd streaming_quote \<Rightarrow> ('g, 'd) streaming_service
    \<Rightarrow> 'd streaming_result \<times> ('g, 'd) streaming_service" where
  "ss_receive_quote D L i q s =
     (let m = sq_mm_id q in
      case ss_check_rate_limit L (sin_limit_now i) m s of
        (Inl reason, s) \<Rightarrow> (let r = StreamRejected reason in (r, ss_record_stats m r s))
      | (Inr _, s) \<Rightarrow>
          (case ss_validate_quote D (sin_now i) q s of
             Inl reason \<Rightarrow> (let r = StreamRejected reason in (r, ss_record_stats m r s))
           | Inr _ \<Rightarrow>
               (case ib_update_quote D (sin_walk i) (sin_clock i) q
                   (case ss_books s (sq_instrument q) of Some b \<Rightarrow> b | None \<Rightarrow> ib_new) of
                  (is_best, b) \<Rightarrow>
                    let s = s\<lparr> ss_books := (ss_books s)(sq_instrument q \<mapsto> b) \<rparr>; r = StreamAccepted (sq_id q) is_best in
                    (r, ss_record_stats m r s))))"

definition ss_calculate_best_filtered :: "'d dec \<Rightarrow> (counterparty_id set \<Rightarrow> counterparty_id list) \<Rightarrow> (nat \<Rightarrow> timestamp) \<Rightarrow> timestamp
    \<Rightarrow> 'd instrument_book \<Rightarrow> ('g, 'd) streaming_service \<Rightarrow> 'd best_quote option" where
  "ss_calculate_best_filtered D walk clk now b s = best_pair now
     (scan_best D (\<lambda>k m q. sq_is_stale (clk k) q \<or> \<not> ss_is_mm_registered m s) 0 (ib_entries walk (ib_quotes b)) (None, None))"

definition ss_best_quote :: "'d dec \<Rightarrow> (counterparty_id set \<Rightarrow> counterparty_id list) \<Rightarrow> (nat \<Rightarrow> timestamp) \<Rightarrow> timestamp
    \<Rightarrow> 'd instrument \<Rightarrow> ('g, 'd) streaming_service \<Rightarrow> 'd best_quote option" where
  "ss_best_quote D walk clk now inst s = Option.bind (ss_books s inst) (\<lambda>b. Option.bind (ib_best_quote now b) (\<lambda>best.
     if ss_is_mm_registered (bq_bid_mm best) s \<and> ss_is_mm_registered (bq_ask_mm best) s then Some best
     else ss_calculate_best_filtered D walk clk now b s))"

definition ss_active_quotes :: "(counterparty_id set \<Rightarrow> counterparty_id list) \<Rightarrow> (nat \<Rightarrow> timestamp)
    \<Rightarrow> 'd instrument \<Rightarrow> ('g, 'd) streaming_service \<Rightarrow> 'd streaming_quote list" where
  "ss_active_quotes walk clk inst s = (case ss_books s inst of None \<Rightarrow> []
     | Some b \<Rightarrow> map (snd \<circ> snd) (filter (\<lambda>(k, _, q). \<not> sq_is_stale (clk k) q \<and> ss_is_mm_registered (sq_mm_id q) s)
         (enumerate 0 (ib_entries walk (ib_quotes b)))))"

definition ss_mm_quote :: "timestamp \<Rightarrow> 'd instrument \<Rightarrow> counterparty_id \<Rightarrow> ('g, 'd) streaming_service \<Rightarrow> 'd streaming_quote option" where
  "ss_mm_quote now inst m s =
     (if \<not> ss_is_mm_registered m s then None
      else Option.bind (ss_books s inst) (\<lambda>b. Option.bind (ib_quotes b m) (\<lambda>q. if sq_is_stale now q then None else Some q)))"

definition ss_register_mm :: "counterparty_id \<Rightarrow> ('g, 'd) streaming_service \<Rightarrow> ('g, 'd) streaming_service" where
  "ss_register_mm m s = s\<lparr> ss_registered := (ss_registered s)(m \<mapsto> True),
     ss_mm_stats := (ss_mm_stats s)(m \<mapsto> (case ss_mm_stats s m of Some t \<Rightarrow> t | None \<Rightarrow> st_zero)) \<rparr>"

definition ss_unregister_mm :: "counterparty_id \<Rightarrow> ('g, 'd) streaming_service \<Rightarrow> ('g, 'd) streaming_service" where
  "ss_unregister_mm m s = s\<lparr> ss_registered := (ss_registered s)(m := None) \<rparr>"

text \<open>The readings and walks of the sweep, one family per book; \<open>books\<close> is the order in which the books are swept.\<close>

record 'd sweep_input =
  sw_books :: "'d instrument list"
  sw_collect :: "'d instrument \<Rightarrow> nat \<Rightarrow> timestamp"
  sw_recalculate :: "'d instrument \<Rightarrow> nat \<Rightarrow> timestamp"
  sw_walk :: "'d instrument \<Rightarrow> counterparty_id set \<Rightarrow> counterparty_id list"

fun sweep_books :: "'d dec \<Rightarrow> 'd sweep_input \<Rightarrow> counterparty_id set \<Rightarrow> 'd instrument list \<Rightarrow> ('d instrument \<rightharpoonup> 'd instrument_book)
    \<Rightarrow> nat \<times> ('d instrument \<rightharpoonup> 'd instrument_book)" where
  "sweep_books D i registered [] B = (0, B)"
| "sweep_books D i registered (x # xs) B = (case B x of
     None \<Rightarrow> sweep_books D i registered xs B
   | Some b \<Rightarrow> (case ib_remove_stale D (sw_walk i x) (sw_collect i x) (sw_recalculate i x) registered b of
       (n, b) \<Rightarrow> (case sweep_books D i registered xs (B(x \<mapsto> b)) of (n', B) \<Rightarrow> (n + n', B))))"

definition ss_remove_stale_quotes :: "'d dec \<Rightarrow> 'd sweep_input \<Rightarrow> ('g, 'd) streaming_service \<Rightarrow> nat \<times> ('g, 'd) streaming_service" where
  "ss_remove_stale_quotes D i s = (case sweep_books D i (dom (ss_registered s)) (sw_books i) (ss_books s) of
     (n, B) \<Rightarrow> (n, s\<lparr> ss_books := B, ss_stats := (st_record_expired ^^ n) (ss_stats s) \<rparr>))"

definition live_count :: "(counterparty_id set \<Rightarrow> counterparty_id list) \<Rightarrow> (nat \<Rightarrow> timestamp) \<Rightarrow> 'd instrument_book
    \<Rightarrow> ('g, 'd) streaming_service \<Rightarrow> nat" where
  "live_count walk clk b s = length (filter (\<lambda>(k, m, q). \<not> sq_is_stale (clk k) q \<and> ss_is_mm_registered m s)
     (enumerate 0 (ib_entries walk (ib_quotes b))))"

definition ss_total_active_quotes :: "'d sweep_input \<Rightarrow> ('g, 'd) streaming_service \<Rightarrow> nat" where
  "ss_total_active_quotes i s = sum_list (map (\<lambda>x. case ss_books s x of None \<Rightarrow> 0
     | Some b \<Rightarrow> live_count (sw_walk i x) (sw_collect i x) b s) (sw_books i))"

definition ss_active_instruments :: "'d sweep_input \<Rightarrow> ('g, 'd) streaming_service \<Rightarrow> 'd instrument list" where
  "ss_active_instruments i s = filter (\<lambda>x. case ss_books s x of None \<Rightarrow> False
     | Some b \<Rightarrow> 0 < live_count (sw_walk i x) (sw_collect i x) b s) (sw_books i)"

section \<open>The scan finds the best\<close>

definition walks :: "(counterparty_id set \<Rightarrow> counterparty_id list) \<Rightarrow> bool" where
  "walks w \<longleftrightarrow> (\<forall>S. finite S \<longrightarrow> distinct (w S) \<and> set (w S) = S)"

lemma ib_entries_set: "walks w \<Longrightarrow> finite (dom Q) \<Longrightarrow> set (ib_entries w Q) = {(m, q). Q m = Some q}"
  by (force simp: walks_def ib_entries_def)

text \<open>\<open>best\<close> is a greatest one of the set \<open>E\<close> of quotes, on the side read by \<open>lev\<close> and ordered by \<open>le\<close>.\<close>

definition tops :: "('d \<Rightarrow> 'd \<Rightarrow> bool) \<Rightarrow> ('d streaming_quote \<Rightarrow> 'd price_level) \<Rightarrow> (counterparty_id \<times> 'd streaming_quote) set
    \<Rightarrow> 'd best_side \<Rightarrow> bool" where
  "tops le lev E best \<longleftrightarrow> (case best of None \<Rightarrow> E = {}
     | Some (m, l) \<Rightarrow> (\<exists>q. (m, q) \<in> E \<and> l = lev q)
         \<and> (\<forall>(m', q)\<in>E. le (price_get (pl_price (lev q))) (price_get (pl_price l))))"

definition better :: "('d \<Rightarrow> 'd \<Rightarrow> bool) \<Rightarrow> ('d streaming_quote \<Rightarrow> 'd price_level) \<Rightarrow> counterparty_id \<Rightarrow> 'd streaming_quote
    \<Rightarrow> 'd best_side \<Rightarrow> 'd best_side" where
  "better le lev m q best = (case best of None \<Rightarrow> Some (m, lev q)
     | Some (_, current) \<Rightarrow> if \<not> le (price_get (pl_price (lev q))) (price_get (pl_price current)) then Some (m, lev q) else best)"

lemma better_sides:
  "better_bid D = better (dle D) sq_bid"
  "better_ask D = better (\<lambda>a b. dle D b a) sq_ask"
  by (auto simp: fun_eq_iff better_bid_def better_ask_def better_def dlt_def split: option.split)

lemma tops_better:
  assumes "\<And>a b. le a b \<or> le b a" "\<And>a b c. le a b \<Longrightarrow> le b c \<Longrightarrow> le a c" "tops le lev E best"
  shows "tops le lev (insert (m, q) E) (better le lev m q best)"
proof (cases best)
  case None
  then show ?thesis using assms(1,3) by (auto simp: tops_def better_def)
next
  case (Some b)
  then obtain i l where b: "best = Some (i, l)" by (cases b) auto
  show ?thesis
  proof (cases "le (price_get (pl_price (lev q))) (price_get (pl_price l))")
    case True
    then show ?thesis using assms(3) b by (auto simp: tops_def better_def)
  next
    case False
    then have above: "le (price_get (pl_price l)) (price_get (pl_price (lev q)))" using assms(1) by blast
    have "le (price_get (pl_price (lev q'))) (price_get (pl_price (lev q)))" if mem: "(m', q') \<in> E" for m' q'
      using assms(2) [OF _ above] assms(3) b mem by (fastforce simp: tops_def)
    then show ?thesis using b False assms(1) by (auto simp: tops_def better_def)
  qed
qed

fun kept :: "(nat \<Rightarrow> counterparty_id \<Rightarrow> 'd streaming_quote \<Rightarrow> bool) \<Rightarrow> nat \<Rightarrow> (counterparty_id \<times> 'd streaming_quote) list
    \<Rightarrow> (counterparty_id \<times> 'd streaming_quote) set" where
  "kept skip k [] = {}"
| "kept skip k ((m, q) # qs) = (if skip k m q then {} else {(m, q)}) \<union> kept skip (Suc k) qs"

lemma kept_subset: "kept skip k qs \<subseteq> set qs"
  by (induction skip k qs rule: kept.induct) auto

lemma kept_if: "(m, q) \<in> set qs \<Longrightarrow> (\<And>j. \<not> skip j m q) \<Longrightarrow> (m, q) \<in> kept skip k qs"
  by (induction skip k qs rule: kept.induct) auto

lemma kept_only: "(m, q) \<in> kept skip k qs \<Longrightarrow> \<exists>j. \<not> skip j m q"
  by (induction skip k qs rule: kept.induct) (auto split: if_splits)

lemma scan_best_tops:
  assumes "dec_order D" "scan_best D skip k qs (bid, ask) = (bid', ask')"
    and "tops (dle D) sq_bid E bid" "tops (\<lambda>a b. dle D b a) sq_ask E ask"
  shows "tops (dle D) sq_bid (E \<union> kept skip k qs) bid' \<and> tops (\<lambda>a b. dle D b a) sq_ask (E \<union> kept skip k qs) ask'"
  using assms(2-)
proof (induction qs arbitrary: k bid ask E)
  case (Cons x qs)
  obtain m q where x: "x = (m, q)" by fastforce
  have le: "dle D a b \<or> dle D b a" "dle D a b \<Longrightarrow> dle D b c \<Longrightarrow> dle D a c" for a b c
    using assms(1) unfolding dec_order_def by blast+
  show ?case
  proof (cases "skip k m q")
    case True
    then show ?thesis using Cons.IH [of "Suc k" bid ask E] Cons.prems x by simp
  next
    case False
    have "tops (dle D) sq_bid (insert (m, q) E) (better_bid D m q bid)"
      unfolding better_sides by (rule tops_better) (use le Cons.prems(2) in blast)+
    moreover have "tops (\<lambda>a b. dle D b a) sq_ask (insert (m, q) E) (better_ask D m q ask)"
      unfolding better_sides by (rule tops_better) (use le Cons.prems(3) in blast)+
    ultimately show ?thesis using Cons.IH [of "Suc k" "better_bid D m q bid" "better_ask D m q ask" "insert (m, q) E"]
        Cons.prems(1) x False by simp
  qed
qed simp

lemma scan_from_nothing:
  assumes "dec_order D" "scan_best D skip 0 qs (None, None) = (bid, ask)"
  shows "tops (dle D) sq_bid (kept skip 0 qs) bid \<and> tops (\<lambda>a b. dle D b a) sq_ask (kept skip 0 qs) ask"
  using scan_best_tops [OF assms, of "{}"] by (simp add: tops_def)

section \<open>Books\<close>

definition acceptable :: "'d dec \<Rightarrow> 'd streaming_config \<Rightarrow> 'd streaming_quote \<Rightarrow> bool" where
  "acceptable D c q \<longleftrightarrow> (\<exists>spread. sq_spread_bps D q = Some spread \<and> dle D spread (sg_max_spread_bps c))
     \<and> (\<not> dis_zero D (sg_min_size c) \<longrightarrow> dle D (sg_min_size c) (quantity_get (pl_size (sq_bid q)))
          \<and> dle D (sg_min_size c) (quantity_get (pl_size (sq_ask q))))"

text \<open>
  The cached prices are the best of a set that holds every quote fresh at \<open>T\<close>, a time not before any reading so far.
\<close>

definition bests_ok :: "'d dec \<Rightarrow> timestamp \<Rightarrow> 'd instrument_book \<Rightarrow> bool" where
  "bests_ok D T b \<longleftrightarrow> (\<exists>E. E \<subseteq> {(m, q). ib_quotes b m = Some q}
     \<and> (\<forall>m q. ib_quotes b m = Some q \<longrightarrow> \<not> sq_is_stale T q \<longrightarrow> (m, q) \<in> E)
     \<and> tops (dle D) sq_bid E (ib_best_bid b) \<and> tops (\<lambda>a b. dle D b a) sq_ask E (ib_best_ask b))"

definition book_ok :: "'d dec \<Rightarrow> 'd streaming_config \<Rightarrow> timestamp \<Rightarrow> 'd instrument \<Rightarrow> 'd instrument_book \<Rightarrow> bool" where
  "book_ok D c T inst b \<longleftrightarrow> finite (dom (ib_quotes b))
     \<and> (\<forall>m q. ib_quotes b m = Some q \<longrightarrow> sq_mm_id q = m \<and> sq_instrument q = inst \<and> acceptable D c q)
     \<and> bests_ok D T b"

lemma stale_stays: "sq_is_stale t q \<Longrightarrow> t \<le> T \<Longrightarrow> sq_is_stale T q"
  by (simp add: sq_is_stale_def)

lemma recalculated_quotes [simp]: "ib_quotes (ib_recalculate_best D w clk b) = ib_quotes b"
  by (simp add: ib_recalculate_best_def split: prod.split)

lemma recalculated_bests:
  assumes "dec_order D" "walks w" "finite (dom (ib_quotes b))" "\<And>k. clk k \<le> T"
  shows "bests_ok D T (ib_recalculate_best D w clk b)"
proof -
  let ?skip = "\<lambda>k (_ :: counterparty_id) q. sq_is_stale (clk k) q" and ?qs = "ib_entries w (ib_quotes b)"
  obtain bid ask where run: "scan_best D ?skip 0 ?qs (None, None) = (bid, ask)" by fastforce
  note tops = scan_from_nothing [OF assms(1) run]
  have "kept ?skip 0 ?qs \<subseteq> {(m, q). ib_quotes b m = Some q}"
    using kept_subset ib_entries_set [OF assms(2,3)] by fastforce
  moreover have "(m, q) \<in> kept ?skip 0 ?qs" if "ib_quotes b m = Some q" "\<not> sq_is_stale T q" for m q
    using that ib_entries_set [OF assms(2,3)] stale_stays [OF _ assms(4)] by (intro kept_if) blast+
  ultimately show ?thesis using tops run unfolding bests_ok_def ib_recalculate_best_def by auto
qed

lemma updated_book:
  assumes "dec_order D" "walks w" "\<And>k. clk k \<le> T" "book_ok D c T (sq_instrument q) b" "acceptable D c q"
    and "ib_update_quote D w clk q b = (best, b')"
  shows "book_ok D c T (sq_instrument q) b'"
proof -
  have b': "b' = ib_recalculate_best D w clk (b\<lparr> ib_quotes := (ib_quotes b)(sq_mm_id q \<mapsto> q) \<rparr>)"
    using assms(6) by (simp add: ib_update_quote_def Let_def)
  have "finite (dom (ib_quotes b))" using assms(4) by (simp add: book_ok_def)
  then have "bests_ok D T b'" unfolding b' by (intro recalculated_bests assms(1-3)) simp
  then show ?thesis using assms(4,5) b' by (auto simp: book_ok_def)
qed

lemma swept_book:
  assumes "dec_order D" "walks w" "\<And>k. clk2 k \<le> T" "book_ok D c T inst b"
    and "ib_remove_stale D w clk1 clk2 registered b = (n, b')"
  shows "book_ok D c T inst b'"
proof -
  obtain xs where b': "b' = (if 0 < length xs then ib_recalculate_best D w clk2 (b\<lparr> ib_quotes := ib_quotes b |` (- set xs) \<rparr>)
      else b\<lparr> ib_quotes := ib_quotes b |` (- set xs) \<rparr>)"
    using assms(5) unfolding ib_remove_stale_def Let_def by blast
  have fin: "finite (dom (ib_quotes b))" using assms(4) by (simp add: book_ok_def)
  show ?thesis
  proof (cases "xs = []")
    case True
    have "ib_quotes b |` UNIV = ib_quotes b" by (simp add: restrict_map_def)
    then show ?thesis using assms(4) b' True by simp
  next
    case False
    then have q: "ib_quotes b' = ib_quotes b |` (- set xs)" using b' by simp
    have "bests_ok D T b'" using False fin unfolding b' by (simp, intro recalculated_bests assms(1-3)) simp
    moreover have "finite (dom (ib_quotes b'))" using fin by (simp add: q)
    ultimately show ?thesis using assms(4) by (auto simp: book_ok_def q restrict_map_def split: if_splits)
  qed
qed

section \<open>Histories\<close>

definition stats_add_up :: "streaming_stats \<Rightarrow> bool" where
  "stats_add_up t \<longleftrightarrow> unat (st_received t) = 2 ^ 64 - 1
     \<or> unat (st_received t) = unat (st_accepted t) + unat (st_rejected t) + unat (st_rate_limited t)"

lemma stats_counted: "stats_add_up t \<Longrightarrow> stats_add_up (st_record_result r t)"
proof -
  assume t: "stats_add_up t"
  have one: "unat (1 :: u64) = 1" by simp
  have lt: "unat (st_received t) < 2 ^ 64" using unsigned_less [of "st_received t"] by simp
  show ?thesis using t lt
    by (cases r; cases "case r of StreamRejected x \<Rightarrow> x | _ \<Rightarrow> QuoteStale")
      (auto simp: stats_add_up_def st_record_result_def st_record_received_def st_record_accepted_def
        st_record_rejected_def st_record_rate_limited_def unat_sat_add one Let_def)
qed

lemma stats_expired: "stats_add_up t \<Longrightarrow> stats_add_up ((st_record_expired ^^ n) t)"
  by (induction n) (auto simp: stats_add_up_def st_record_expired_def)

definition service_ok :: "'d dec \<Rightarrow> timestamp \<Rightarrow> ('g, 'd) streaming_service \<Rightarrow> bool" where
  "service_ok D T s \<longleftrightarrow> (\<forall>inst b. ss_books s inst = Some b \<longrightarrow> book_ok D (ss_config s) T inst b)
     \<and> stats_add_up (ss_stats s) \<and> (\<forall>m t. ss_mm_stats s m = Some t \<longrightarrow> stats_add_up t)"

datatype 'd stream_call = ReceiveQuote stream_input "'d streaming_quote" | RegisterMm counterparty_id | UnregisterMm counterparty_id
  | RemoveStale "'d sweep_input"

fun stream_apply :: "'d dec \<Rightarrow> 'g rate_check \<Rightarrow> 'd stream_call \<Rightarrow> ('g, 'd) streaming_service \<Rightarrow> ('g, 'd) streaming_service" where
  "stream_apply D L (ReceiveQuote i q) s = snd (ss_receive_quote D L i q s)"
| "stream_apply D L (RegisterMm m) s = ss_register_mm m s"
| "stream_apply D L (UnregisterMm m) s = ss_unregister_mm m s"
| "stream_apply D L (RemoveStale i) s = snd (ss_remove_stale_quotes D i s)"

text \<open>The recalculations of a call read the clock not after \<open>T\<close> and walk all keys.\<close>

fun reads_until :: "timestamp \<Rightarrow> 'd stream_call \<Rightarrow> bool" where
  "reads_until T (ReceiveQuote i q) \<longleftrightarrow> walks (sin_walk i) \<and> (\<forall>k. sin_clock i k \<le> T)"
| "reads_until T (RegisterMm m) \<longleftrightarrow> True"
| "reads_until T (UnregisterMm m) \<longleftrightarrow> True"
| "reads_until T (RemoveStale i) \<longleftrightarrow> (\<forall>x. walks (sw_walk i x) \<and> (\<forall>k. sw_recalculate i x k \<le> T))"

lemma validated_acceptable:
  "dec_order D \<Longrightarrow> ss_validate_quote D now q s = Inr () \<Longrightarrow> acceptable D (ss_config s) q \<and> ss_is_mm_registered (sq_mm_id q) s
    \<and> \<not> sq_is_stale now q"
  by (auto simp: ss_validate_quote_def acceptable_def Let_def dlt_def split: if_splits option.splits)

lemma new_book: "book_ok D c T inst ib_new"
  by (auto simp: book_ok_def bests_ok_def ib_new_def tops_def)

lemma stats_zero: "stats_add_up st_zero"
  by (simp add: stats_add_up_def st_zero_def)

lemma record_stats_ok: "service_ok D T s \<Longrightarrow> service_ok D T (ss_record_stats m r s)"
  by (auto simp: service_ok_def ss_record_stats_def stats_counted stats_zero split: option.split)

lemma receive_ok:
  assumes "dec_order D" "service_ok D T s" "reads_until T (ReceiveQuote i q)"
  shows "service_ok D T (snd (ss_receive_quote D L i q s))"
proof -
  obtain a s1 where lim: "ss_check_rate_limit L (sin_limit_now i) (sq_mm_id q) s = (a, s1)" by fastforce
  then have ok1: "service_ok D T s1" using assms(2)
    by (auto simp: ss_check_rate_limit_def service_ok_def split: prod.splits)
  show ?thesis
  proof (cases "a = Inr () \<and> ss_validate_quote D (sin_now i) q s1 = Inr ()")
    case False
    then show ?thesis using lim record_stats_ok [OF ok1]
      by (auto simp: ss_receive_quote_def Let_def split: sum.split)
  next
    case True
    let ?b = "case ss_books s1 (sq_instrument q) of Some b \<Rightarrow> b | None \<Rightarrow> ib_new"
    obtain best b where up: "ib_update_quote D (sin_walk i) (sin_clock i) q ?b = (best, b)" by fastforce
    have "book_ok D (ss_config s1) T (sq_instrument q) ?b" using ok1 new_book by (auto simp: service_ok_def split: option.split)
    moreover have "acceptable D (ss_config s1) q" using True validated_acceptable [OF assms(1)] by blast
    ultimately have "book_ok D (ss_config s1) T (sq_instrument q) b"
      using assms(3) by (intro updated_book [OF assms(1) _ _ _ _ up]) simp_all
    then have "service_ok D T (s1\<lparr> ss_books := (ss_books s1)(sq_instrument q \<mapsto> b) \<rparr>)"
      using ok1 by (auto simp: service_ok_def)
    from record_stats_ok [OF this] show ?thesis using lim True up by (simp add: ss_receive_quote_def Let_def)
  qed
qed

lemma sweep_ok:
  assumes "dec_order D" "reads_until T (RemoveStale i)" "sweep_books D i registered xs B = (n, B')"
    and "\<forall>inst b. B inst = Some b \<longrightarrow> book_ok D c T inst b"
  shows "\<forall>inst b. B' inst = Some b \<longrightarrow> book_ok D c T inst b"
  using assms(3,4)
proof (induction xs arbitrary: B n)
  case (Cons x xs)
  show ?case
  proof (cases "B x")
    case None
    then show ?thesis using Cons by simp
  next
    case (Some b)
    obtain k b1 where rm: "ib_remove_stale D (sw_walk i x) (sw_collect i x) (sw_recalculate i x) registered b = (k, b1)" by fastforce
    obtain n2 where rest: "sweep_books D i registered xs (B(x \<mapsto> b1)) = (n2, B')"
      using Cons.prems(1) Some rm by (auto split: prod.splits)
    have "book_ok D c T x b" using Cons.prems(2) Some by blast
    from swept_book [OF assms(1) _ _ this rm] have "book_ok D c T x b1" using assms(2) by simp
    then have "\<forall>inst b. (B(x \<mapsto> b1)) inst = Some b \<longrightarrow> book_ok D c T inst b" using Cons.prems(2) by simp
    from Cons.IH [OF rest this] show ?thesis .
  qed
qed simp

lemma stream_apply_ok:
  assumes "dec_order D" "service_ok D T s" "reads_until T call"
  shows "service_ok D T (stream_apply D L call s)"
proof (cases call)
  case (ReceiveQuote i q)
  then show ?thesis using receive_ok [OF assms(1,2)] assms(3) by simp
next
  case (RegisterMm m)
  then show ?thesis using assms(2) by (auto simp: service_ok_def ss_register_mm_def stats_zero split: option.split)
next
  case (UnregisterMm m)
  then show ?thesis using assms(2) by (simp add: service_ok_def ss_unregister_mm_def)
next
  case (RemoveStale i)
  obtain n B where sw: "sweep_books D i (dom (ss_registered s)) (sw_books i) (ss_books s) = (n, B)" by fastforce
  have "\<forall>inst b. B inst = Some b \<longrightarrow> book_ok D (ss_config s) T inst b"
    using sweep_ok [OF assms(1) _ sw] assms(2,3) RemoveStale by (simp add: service_ok_def)
  then show ?thesis using assms(2) RemoveStale sw stats_expired by (simp add: service_ok_def ss_remove_stale_quotes_def)
qed

lemma fold_stream_ok:
  assumes "dec_order D" "\<forall>call\<in>set calls. reads_until T call" "service_ok D T s"
  shows "service_ok D T (fold (stream_apply D L) calls s)"
  using assms(2,3)
proof (induction calls arbitrary: s)
  case (Cons call calls)
  have "service_ok D T (stream_apply D L call s)" using stream_apply_ok [OF assms(1) Cons.prems(2)] Cons.prems(1) by simp
  then show ?case using Cons.IH Cons.prems(1) by simp
qed simp

lemma new_service_ok: "service_ok D T (ss_new g c)"
  by (simp add: service_ok_def ss_new_def stats_zero)

section \<open>Properties\<close>

text \<open>A quote of a registered market maker that is kept for the instrument; live when it is not expired at \<open>T\<close>.\<close>

definition in_book :: "'d instrument \<Rightarrow> ('g, 'd) streaming_service \<Rightarrow> counterparty_id \<Rightarrow> 'd streaming_quote \<Rightarrow> bool" where
  "in_book inst s m q \<longleftrightarrow> ss_is_mm_registered m s \<and> (\<exists>b. ss_books s inst = Some b \<and> ib_quotes b m = Some q)"

definition is_best_of :: "'d dec \<Rightarrow> (counterparty_id \<times> 'd streaming_quote) set \<Rightarrow> 'd best_quote option \<Rightarrow> bool" where
  "is_best_of D E r \<longleftrightarrow> (\<forall>(m, q)\<in>E. \<exists>best. r = Some best \<and> dle D (bid_of q) (price_get (pl_price (bq_bid best)))
       \<and> dle D (price_get (pl_price (bq_ask best))) (ask_of q))
     \<and> (\<forall>best. r = Some best \<longrightarrow> (\<exists>q. (bq_bid_mm best, q) \<in> E \<and> bq_bid best = sq_bid q)
          \<and> (\<exists>q. (bq_ask_mm best, q) \<in> E \<and> bq_ask best = sq_ask q))"

lemma is_best_ofD:
  assumes "is_best_of D E r" "(m, q) \<in> E"
  shows "\<exists>best. r = Some best \<and> dle D (bid_of q) (price_get (pl_price (bq_bid best)))
    \<and> dle D (price_get (pl_price (bq_ask best))) (ask_of q)"
  using assms by (auto simp: is_best_of_def)

lemma is_best_of_prices:
  assumes "is_best_of D E r" "r = Some best"
  shows "(\<exists>q. (bq_bid_mm best, q) \<in> E \<and> bq_bid best = sq_bid q) \<and> (\<exists>q. (bq_ask_mm best, q) \<in> E \<and> bq_ask best = sq_ask q)"
  using assms by (simp add: is_best_of_def)

lemma best_pair_is_best:
  assumes "tops (dle D) sq_bid E bid" "tops (\<lambda>a b. dle D b a) sq_ask E ask"
  shows "is_best_of D E (best_pair now (bid, ask))"
proof (cases "bid = None \<or> ask = None")
  case True
  then show ?thesis using assms by (auto simp: tops_def is_best_of_def best_pair_def split: option.splits)
next
  case False
  then obtain bm b am a where "bid = Some (bm, b)" "ask = Some (am, a)" by auto
  then show ?thesis using assms by (auto simp: tops_def is_best_of_def best_pair_def bq_new_def)
qed

lemma best_quote_cases:
  assumes "dec_order D" "walks w" "book_ok D c T inst b" "ss_books s inst = Some b" "\<And>k. clk k \<le> T"
  shows "\<exists>E. E \<subseteq> {(m, q). ib_quotes b m = Some q} \<and> {(m, q). in_book inst s m q \<and> \<not> sq_is_stale T q} \<subseteq> E
    \<and> is_best_of D E (ss_best_quote D w clk now inst s)
    \<and> (\<forall>best. ss_best_quote D w clk now inst s = Some best
        \<longrightarrow> ss_is_mm_registered (bq_bid_mm best) s \<and> ss_is_mm_registered (bq_ask_mm best) s)"
proof (cases "\<exists>best. ib_best_quote now b = Some best
    \<and> \<not> (ss_is_mm_registered (bq_bid_mm best) s \<and> ss_is_mm_registered (bq_ask_mm best) s)")
  case False
  then have best: "ss_best_quote D w clk now inst s = ib_best_quote now b"
    using assms(4) by (cases "ib_best_quote now b") (auto simp: ss_best_quote_def)
  obtain E where E: "E \<subseteq> {(m, q). ib_quotes b m = Some q}"
      "\<forall>m q. ib_quotes b m = Some q \<longrightarrow> \<not> sq_is_stale T q \<longrightarrow> (m, q) \<in> E"
      "tops (dle D) sq_bid E (ib_best_bid b)" "tops (\<lambda>a b. dle D b a) sq_ask E (ib_best_ask b)"
    using assms(3) unfolding book_ok_def bests_ok_def by blast
  have "is_best_of D E (ib_best_quote now b)" unfolding ib_best_quote_def by (rule best_pair_is_best [OF E(3,4)])
  moreover have "{(m, q). in_book inst s m q \<and> \<not> sq_is_stale T q} \<subseteq> E" using E(2) assms(4) by (auto simp: in_book_def)
  ultimately show ?thesis using E(1) False unfolding best by blast
next
  case True
  let ?skip = "\<lambda>k m q. sq_is_stale (clk k) q \<or> \<not> ss_is_mm_registered m s" and ?qs = "ib_entries w (ib_quotes b)"
  obtain bid ask where run: "scan_best D ?skip 0 ?qs (None, None) = (bid, ask)" by fastforce
  have best: "ss_best_quote D w clk now inst s = best_pair now (bid, ask)"
    using True assms(4) run by (auto simp: ss_best_quote_def ss_calculate_best_filtered_def)
  have entries: "set ?qs = {(m, q). ib_quotes b m = Some q}"
    using ib_entries_set [OF assms(2), of "ib_quotes b"] assms(3) unfolding book_ok_def by blast
  have "is_best_of D (kept ?skip 0 ?qs) (best_pair now (bid, ask))"
    using scan_from_nothing [OF assms(1) run] best_pair_is_best by blast
  moreover have "{(m, q). in_book inst s m q \<and> \<not> sq_is_stale T q} \<subseteq> kept ?skip 0 ?qs"
    using entries assms(4) stale_stays [OF _ assms(5)] by (auto simp: in_book_def intro!: kept_if)
  moreover have "kept ?skip 0 ?qs \<subseteq> {(m, q). ib_quotes b m = Some q}" using kept_subset entries by blast
  moreover have "ss_is_mm_registered m s" if "(m, q) \<in> kept ?skip 0 ?qs" for m q using kept_only [OF that] by blast
  ultimately show ?thesis unfolding best is_best_of_def by (intro exI [of _ "kept ?skip 0 ?qs"] conjI) blast+
qed

text \<open>
  C16. The best quote is the best: after any history of quotes, registrations and sweeps, whatever the
  rate limiter admits, every kept quote is the latest of its market maker, for its instrument and within the limits
  of the configuration; as long as one registered market maker has a quote that is not
  expired there is a best quote, no live quote has a higher bid or a lower ask, and its two
  prices are those of kept quotes of registered market makers. The counters add up.
\<close>

theorem best_quote_is_best:
  assumes "dec_order D" "\<forall>call\<in>set calls. reads_until T call"
    and "s = fold (stream_apply D L) calls (ss_new g c)" "walks w" "\<forall>k. clk k \<le> T"
  shows "(\<forall>m q. in_book inst s m q \<longrightarrow> sq_mm_id q = m \<and> sq_instrument q = inst \<and> acceptable D (ss_config s) q)
    \<and> (\<forall>m q. in_book inst s m q \<longrightarrow> \<not> sq_is_stale T q \<longrightarrow> (\<exists>best. ss_best_quote D w clk now inst s = Some best
        \<and> dle D (bid_of q) (price_get (pl_price (bq_bid best))) \<and> dle D (price_get (pl_price (bq_ask best))) (ask_of q)))
    \<and> (\<forall>best. ss_best_quote D w clk now inst s = Some best
        \<longrightarrow> (\<exists>q. in_book inst s (bq_bid_mm best) q \<and> bq_bid best = sq_bid q)
          \<and> (\<exists>q. in_book inst s (bq_ask_mm best) q \<and> bq_ask best = sq_ask q))
    \<and> stats_add_up (ss_stats s)"
proof -
  have ok: "service_ok D T s" unfolding assms(3) by (rule fold_stream_ok [OF assms(1,2) new_service_ok])
  show ?thesis
  proof (cases "ss_books s inst")
    case None
    then show ?thesis using ok by (simp add: in_book_def ss_best_quote_def service_ok_def)
  next
    case (Some b)
    then have b: "book_ok D (ss_config s) T inst b" using ok by (simp add: service_ok_def)
    obtain E where E: "E \<subseteq> {(m, q). ib_quotes b m = Some q}" "{(m, q). in_book inst s m q \<and> \<not> sq_is_stale T q} \<subseteq> E"
        "is_best_of D E (ss_best_quote D w clk now inst s)"
        "\<forall>best. ss_best_quote D w clk now inst s = Some best
          \<longrightarrow> ss_is_mm_registered (bq_bid_mm best) s \<and> ss_is_mm_registered (bq_ask_mm best) s"
      using best_quote_cases [where clk = clk and now = now, OF assms(1,4) b Some spec [OF assms(5)]] by (elim exE conjE)
    have "\<forall>m q. in_book inst s m q \<longrightarrow> sq_mm_id q = m \<and> sq_instrument q = inst \<and> acceptable D (ss_config s) q"
    proof (intro allI impI)
      fix m q
      assume "in_book inst s m q"
      then have "ib_quotes b m = Some q" using Some by (simp add: in_book_def)
      then show "sq_mm_id q = m \<and> sq_instrument q = inst \<and> acceptable D (ss_config s) q" using b unfolding book_ok_def by blast
    qed
    moreover have "\<forall>m q. in_book inst s m q \<longrightarrow> \<not> sq_is_stale T q \<longrightarrow> (\<exists>best. ss_best_quote D w clk now inst s = Some best
        \<and> dle D (bid_of q) (price_get (pl_price (bq_bid best))) \<and> dle D (price_get (pl_price (bq_ask best))) (ask_of q))"
    proof (intro allI impI)
      fix m q
      assume "in_book inst s m q" "\<not> sq_is_stale T q"
      then have "(m, q) \<in> E" using E(2) by blast
      from is_best_ofD [OF E(3) this] show "\<exists>best. ss_best_quote D w clk now inst s = Some best
        \<and> dle D (bid_of q) (price_get (pl_price (bq_bid best))) \<and> dle D (price_get (pl_price (bq_ask best))) (ask_of q)" .
    qed
    moreover have "(\<exists>q. in_book inst s (bq_bid_mm best) q \<and> bq_bid best = sq_bid q)
          \<and> (\<exists>q. in_book inst s (bq_ask_mm best) q \<and> bq_ask best = sq_ask q)"
      if served: "ss_best_quote D w clk now inst s = Some best" for best
    proof -
      obtain q1 q2 where q: "(bq_bid_mm best, q1) \<in> E" "bq_bid best = sq_bid q1" "(bq_ask_mm best, q2) \<in> E" "bq_ask best = sq_ask q2"
        using is_best_of_prices [OF E(3) served] by blast
      have reg: "ss_is_mm_registered (bq_bid_mm best) s" "ss_is_mm_registered (bq_ask_mm best) s" using E(4) served by blast+
      have "in_book inst s (bq_bid_mm best) q1" "in_book inst s (bq_ask_mm best) q2"
        using subsetD [OF E(1) q(1)] subsetD [OF E(1) q(3)] reg Some by (simp_all add: in_book_def)
      then show ?thesis using q by blast
    qed
    moreover have "stats_add_up (ss_stats s)" using ok by (simp add: service_ok_def)
    ultimately show ?thesis by blast
  qed
qed

lemma walks_singleton:
  assumes "walks w"
  shows "w {m} = [m]"
proof -
  have "distinct (w {m})" "set (w {m}) = {m}" using assms by (simp_all add: walks_def)
  then show ?thesis by (cases "w {m}"; cases "tl (w {m})") (auto simp: insert_eq_iff)
qed

text \<open>
  The best quote may be dead: the cached prices are not checked against the clock, so a quote accepted into an
  empty book is returned as the best of its instrument at any later time, also when it has
  expired and the service itself lists no active quote any more.
\<close>

theorem expired_quote_is_still_best:
  assumes "ss_receive_quote D L i q s = (StreamAccepted k True, s')" "ss_books s (sq_instrument q) = None" "walks (sin_walk i)"
    and "\<forall>j. sq_expiry q < clk j" "walks w"
  shows "ss_best_quote D w clk now (sq_instrument q) s' = Some \<lparr> bq_bid = sq_bid q, bq_bid_mm = sq_mm_id q, bq_ask = sq_ask q,
      bq_ask_mm = sq_mm_id q, bq_computed_at = now \<rparr>
    \<and> ss_active_quotes w clk (sq_instrument q) s' = []"
proof -
  obtain a s1 where lim: "ss_check_rate_limit L (sin_limit_now i) (sq_mm_id q) s = (a, s1)" by fastforce
  then have s1: "ss_books s1 = ss_books s" by (auto simp: ss_check_rate_limit_def split: prod.splits)
  obtain best b where up: "ib_update_quote D (sin_walk i) (sin_clock i) q ib_new = (best, b)" by fastforce
  have go: "a = Inr ()" "ss_validate_quote D (sin_now i) q s1 = Inr ()"
    using assms(1) lim by (auto simp: ss_receive_quote_def Let_def split: sum.splits prod.splits)
  have res: "best" "s' = ss_record_stats (sq_mm_id q) (StreamAccepted k best)
      (s1\<lparr> ss_books := (ss_books s1)(sq_instrument q \<mapsto> b) \<rparr>)"
    using assms(1,2) lim up go s1 by (auto simp: ss_receive_quote_def Let_def)
  have one: "ib_entries (sin_walk i) (ib_quotes b) = [(sq_mm_id q, q)]" "ib_entries w (ib_quotes b) = [(sq_mm_id q, q)]"
    "ib_quotes b = [sq_mm_id q \<mapsto> q]"
    using up walks_singleton [OF assms(3)] walks_singleton [OF assms(5)]
    by (auto simp: ib_update_quote_def ib_new_def ib_entries_def Let_def)
  have "ib_best_bid b = Some (sq_mm_id q, sq_bid q) \<and> ib_best_ask b = Some (sq_mm_id q, sq_ask q)"
    using up res(1) walks_singleton [OF assms(3)]
    by (auto simp: ib_update_quote_def ib_recalculate_best_def ib_new_def ib_entries_def Let_def held_by_def
        better_bid_def better_ask_def split: if_splits)
  moreover have "ss_is_mm_registered (sq_mm_id q) s1" using go(2) by (simp add: ss_validate_quote_def Let_def split: if_splits)
  ultimately show ?thesis using one assms(4)
    by (simp add: res(2) ss_record_stats_def ss_best_quote_def ib_best_quote_def best_pair_def bq_new_def
        ss_is_mm_registered_def ss_active_quotes_def sq_is_stale_def)
qed

section \<open>Witnesses\<close>

lemma sorted_walks: "walks sorted_list_of_set"
  by (simp add: walks_def)

definition one_quote :: "int streaming_quote" where
  "one_quote = \<lparr> sq_id = 7, sq_mm_id = ''mm'', sq_instrument = instrument_default_build \<lparr> sym_value = ''BTC/USD'', sym_separator_index = 3 \<rparr> CryptoSpot,
     sq_bid = \<lparr> pl_price = Price 1000, pl_size = Quantity 5 \<rparr>, sq_ask = \<lparr> pl_price = Price 1010, pl_size = Quantity 5 \<rparr>,
     sq_timestamp = 0, sq_received_at = 0, sq_ttl_ms = 5000 \<rparr>"

lemma one_quote_sel [simp]:
  "sq_id one_quote = 7" "sq_mm_id one_quote = ''mm''" "bid_of one_quote = 1000" "ask_of one_quote = 1010"
  "pl_size (sq_bid one_quote) = Quantity 5" "pl_size (sq_ask one_quote) = Quantity 5"
  "sq_expiry one_quote = 5000000000"
  by (simp_all add: one_quote_def sq_expiry_def ts_add_millis_def)

definition one_input :: stream_input where
  "one_input = \<lparr> sin_limit_now = 1, sin_now = 1, sin_clock = (\<lambda>_. 1), sin_walk = sorted_list_of_set \<rparr>"

definition with_mm :: "(unit, int) streaming_service" where
  "with_mm = ss_register_mm ''mm'' (ss_new () (sg_default whole_dec))"

definition admit_all :: "unit rate_check" where
  "admit_all now m g = (True, g)"

definition one_book :: "int instrument_book" where
  "one_book = \<lparr> ib_quotes = [''mm'' \<mapsto> one_quote], ib_best_bid = Some (''mm'', sq_bid one_quote),
     ib_best_ask = Some (''mm'', sq_ask one_quote) \<rparr>"

lemma one_received:
  "ss_receive_quote whole_dec admit_all one_input one_quote with_mm
     = (StreamAccepted 7 True, ss_record_stats ''mm'' (StreamAccepted 7 True) (with_mm\<lparr> ss_books := [sq_instrument one_quote \<mapsto> one_book] \<rparr>))"
proof -
  have "sq_spread_bps whole_dec one_quote = Some 0"
    by (simp add: sq_spread_bps_def spread_bps_of_def mid_of_def whole_fit_def whole_dec_def trunc_div_def)
  then have valid: "ss_validate_quote whole_dec 1 one_quote with_mm = Inr ()"
    by (simp add: ss_validate_quote_def with_mm_def ss_register_mm_def ss_new_def ss_is_mm_registered_def sq_is_stale_def
        sg_default_def dlt_def Let_def whole_dec_def)
  have "ib_update_quote whole_dec sorted_list_of_set (\<lambda>_. 1) one_quote ib_new = (True, one_book)"
    by (simp add: ib_update_quote_def ib_recalculate_best_def ib_new_def ib_entries_def walks_singleton [OF sorted_walks]
        sq_is_stale_def better_bid_def better_ask_def held_by_def one_book_def Let_def)
  then show ?thesis using valid
    by (simp add: Let_def ss_receive_quote_def ss_check_rate_limit_def admit_all_def one_input_def with_mm_def ss_register_mm_def ss_new_def)
qed

lemma expired_quote_is_still_best_witness:
  "\<exists>s'. ss_receive_quote whole_dec admit_all one_input one_quote with_mm = (StreamAccepted 7 True, s')
    \<and> ss_best_quote whole_dec sorted_list_of_set (\<lambda>_. 6000000000) 6000000000 (sq_instrument one_quote) s' \<noteq> None
    \<and> ss_active_quotes sorted_list_of_set (\<lambda>_. 6000000000) (sq_instrument one_quote) s' = []"
proof -
  have "ss_books with_mm (sq_instrument one_quote) = None" by (simp add: with_mm_def ss_register_mm_def ss_new_def)
  from expired_quote_is_still_best [OF one_received this, where clk = "\<lambda>_. 6000000000" and w = sorted_list_of_set]
  show ?thesis using sorted_walks one_received by (simp add: one_input_def)
qed

lemma best_quote_is_best_witness:
  "\<exists>best. ss_best_quote whole_dec sorted_list_of_set (\<lambda>_. 2) 2 (sq_instrument one_quote)
      (fold (stream_apply whole_dec admit_all) [RegisterMm ''mm'', ReceiveQuote one_input one_quote] (ss_new () (sg_default whole_dec)))
      = Some best \<and> 1000 \<le> price_get (pl_price (bq_bid best)) \<and> price_get (pl_price (bq_ask best)) \<le> 1010"
proof -
  let ?calls = "[RegisterMm ''mm'', ReceiveQuote one_input one_quote]"
  let ?s = "fold (stream_apply whole_dec admit_all) ?calls (ss_new () (sg_default whole_dec))"
  have reads: "\<forall>call\<in>set ?calls. reads_until 2 call" by (simp add: one_input_def sorted_walks)
  have s: "?s = ss_record_stats ''mm'' (StreamAccepted 7 True) (with_mm\<lparr> ss_books := [sq_instrument one_quote \<mapsto> one_book] \<rparr>)"
    using one_received by (simp add: with_mm_def)
  have book: "in_book (sq_instrument one_quote) ?s ''mm'' one_quote"
    unfolding s by (simp add: in_book_def ss_record_stats_def ss_is_mm_registered_def with_mm_def ss_register_mm_def one_book_def)
  have "\<not> sq_is_stale 2 one_quote" by (simp add: sq_is_stale_def)
  with best_quote_is_best [where L = admit_all and g = "()" and c = "sg_default whole_dec" and clk = "\<lambda>_. 2" and now = 2
      and inst = "sq_instrument one_quote", OF whole_dec_order reads refl sorted_walks] book
  have "\<exists>best. ss_best_quote whole_dec sorted_list_of_set (\<lambda>_. 2) 2 (sq_instrument one_quote) ?s = Some best
      \<and> dle whole_dec (bid_of one_quote) (price_get (pl_price (bq_bid best)))
      \<and> dle whole_dec (price_get (pl_price (bq_ask best))) (ask_of one_quote)" by blast
  then show ?thesis by (simp only: whole_dec_sel one_quote_sel)
qed

end
