(* ===== verification/Package_Pricing.thy ===== *)
theory Package_Pricing
  imports Packages Ranking Application_Errors Exact_Decimals
begin

text \<open>
  Quotes for packages: the collector of \<open>src/application/services/multi_leg_quote_collector.rs\<close>, the validator of
  \<open>src/domain/services/package_quote_validator.rs\<close> and the rankings of \<open>src/application/services/package_ranking.rs\<close>.
  Venues and the clock are inputs; an operator of the decimal package that overflows panics.
\<close>

section \<open>Collection\<close>

text \<open>
  A venue: its answers to a package request and to the \<open>k\<close>-th request for a single quote, whether the whole
  exchange outlasts the time-out, and the identifier and the readings of the clock for a synthetic package.
\<close>

record 'd package_venue =
  pv_venue_id :: venue_id
  pv_supports_multi_leg :: bool
  pv_multi_leg :: "'d strategy \<Rightarrow> 'd rfq \<Rightarrow> 'd venue_error + 'd package_quote"
  pv_quote :: "nat \<Rightarrow> 'd rfq \<Rightarrow> 'd venue_error + 'd quote"
  pv_times_out :: bool
  pv_fresh :: uuid
  pv_now :: timestamp
  pv_now_check :: timestamp
  pv_now_created :: timestamp

datatype 'd venue_package_result =
    PackageSuccess "'d package_quote"
  | PackageFallback "'d package_quote"
  | PackageFailed venue_id "'d msg"
  | PackageTimeout venue_id

text \<open>A leg whose notional overflows adds nothing; every leg asks for a quote of the same RFQ.\<close>

definition add_leg_notional :: "'d dec \<Rightarrow> order_side \<Rightarrow> 'd leg_price \<Rightarrow> 'd \<Rightarrow> ('e, 'd) outcome" where
  "add_leg_notional D side l net = (case lp_notional D l of None \<Rightarrow> Ret net
     | Some n \<Rightarrow> (case side of Buy \<Rightarrow> dminus D net (price_get n) | Sell \<Rightarrow> dplus D net (price_get n)))"

fun fallback_legs :: "'d dec \<Rightarrow> 'd package_venue \<Rightarrow> 'd rfq \<Rightarrow> nat \<Rightarrow> 'd strategy_leg list \<Rightarrow> 'd \<Rightarrow> 'd leg_price list
    \<Rightarrow> ('d venue_error, 'd \<times> 'd leg_price list) outcome" where
  "fallback_legs D V r k [] net acc = Ret (net, acc)"
| "fallback_legs D V r k (leg # legs) net acc = (case pv_quote V k r of
     Inl e \<Rightarrow> Err e
   | Inr q \<Rightarrow>
       let l = \<lparr> lp_instrument = sl_instrument leg, lp_side = sl_side leg, lp_price = quote_price q, lp_quantity = rfq_quantity r \<rparr> in
       obind (add_leg_notional D (sl_side leg) l net) (\<lambda>net. fallback_legs D V r (Suc k) legs net (acc @ [l])))"

definition fallback_to_individual_legs :: "'d dec \<Rightarrow> 'd package_venue \<Rightarrow> 'd strategy \<Rightarrow> 'd rfq
    \<Rightarrow> ('d domain_error, 'd venue_package_result) outcome" where
  "fallback_to_individual_legs D V s r = (case fallback_legs D V r 0 (str_legs s) (dzero D) [] of
     Panic \<Rightarrow> Panic
   | Err e \<Rightarrow> Ret (PackageFailed (pv_venue_id V) (Fmt ''Failed to get quote for leg: {}'' [ArgMsg (ve_display e)]))
   | Ret (net, legs) \<Rightarrow>
       (case pq_new (pv_fresh V) (pv_now_check V) (pv_now_created V) (rfq_id r) (pv_venue_id V) s net legs
           (ts_add_secs (pv_now V) 300) of
          Inr q \<Rightarrow> Ret (PackageFallback q)
        | Inl e \<Rightarrow> Ret (PackageFailed (pv_venue_id V)
            (Fmt ''Failed to create synthetic package quote: {}'' [ArgMsg (de_display e)]))))"

definition request_quote_from_venue :: "'d dec \<Rightarrow> 'd package_venue \<Rightarrow> 'd strategy \<Rightarrow> 'd rfq
    \<Rightarrow> ('d domain_error, 'd venue_package_result) outcome" where
  "request_quote_from_venue D V s r =
     (if pv_supports_multi_leg V
      then (case pv_multi_leg V s r of Inr q \<Rightarrow> Ret (PackageSuccess q) | Inl _ \<Rightarrow> fallback_to_individual_legs D V s r)
      else fallback_to_individual_legs D V s r)"

definition collect_from_venue :: "'d dec \<Rightarrow> 'd strategy \<Rightarrow> 'd rfq \<Rightarrow> 'd package_venue \<Rightarrow> ('d domain_error, 'd venue_package_result) outcome" where
  "collect_from_venue D s r V =
     (if pv_times_out V then Ret (PackageTimeout (pv_venue_id V)) else request_quote_from_venue D V s r)"

fun collect_with_details :: "'d dec \<Rightarrow> 'd strategy \<Rightarrow> 'd rfq \<Rightarrow> 'd package_venue list
    \<Rightarrow> ('d domain_error, 'd venue_package_result list) outcome" where
  "collect_with_details D s r [] = Ret []"
| "collect_with_details D s r (V # Vs) =
     obind (collect_from_venue D s r V) (\<lambda>x. obind (collect_with_details D s r Vs) (\<lambda>xs. Ret (x # xs)))"

fun package_of :: "'d venue_package_result \<Rightarrow> 'd package_quote option" where
  "package_of (PackageSuccess q) = Some q"
| "package_of (PackageFallback q) = Some q"
| "package_of (PackageFailed _ _) = None"
| "package_of (PackageTimeout _) = None"

definition collect_package_quotes :: "'d dec \<Rightarrow> 'd strategy \<Rightarrow> 'd rfq \<Rightarrow> 'd package_venue list
    \<Rightarrow> ('d domain_error, 'd package_quote list) outcome" where
  "collect_package_quotes D s r Vs = obind (collect_with_details D s r Vs) (\<lambda>xs. Ret (List.map_filter package_of xs))"

section \<open>Validation\<close>

text \<open>The greatest decimal stands for an infinite deviation.\<close>

definition dec_max :: "'d dec \<Rightarrow> 'd" where
  "dec_max D = dof_int D (2 ^ 96 - 1)"

definition decimal_deviation_bps :: "'d dec \<Rightarrow> 'd \<Rightarrow> 'd \<Rightarrow> ('e, 'd) outcome" where
  "decimal_deviation_bps D v reference =
     (if deq D reference (dzero D) then Ret (if deq D v (dzero D) then dzero D else dec_max D)
      else obind (dminus D v reference) (\<lambda>diff. obind (dover D (dabs D diff) (dabs D reference)) (\<lambda>x.
        dtimes D x (dof_int D 10000))))"

definition price_deviation_bps :: "'d dec \<Rightarrow> 'd price \<Rightarrow> 'd price \<Rightarrow> ('e, 'd) outcome" where
  "price_deviation_bps D p reference = decimal_deviation_bps D (price_get p) (price_get reference)"

definition pv_validate_leg_count :: "'d package_quote \<Rightarrow> 'd price list \<Rightarrow> ('d domain_error, unit) outcome" where
  "pv_validate_leg_count q market =
     (if length (pq_leg_prices q) \<noteq> length market
      then Err (InvalidPackageQuote (Fmt ''market price count ({}) does not match leg count ({})''
        [ArgNat (length market), ArgNat (length (pq_leg_prices q))]))
      else Ret ())"

fun validate_legs_from :: "'d dec \<Rightarrow> u32 \<Rightarrow> nat \<Rightarrow> ('d leg_price \<times> 'd price) list \<Rightarrow> ('d domain_error, unit) outcome" where
  "validate_legs_from D tol k [] = Ret ()"
| "validate_legs_from D tol k ((l, market) # rest) =
     obind (price_deviation_bps D (lp_price l) market) (\<lambda>dev.
     if dlt D (dof_int D (uint tol)) dev
     then Err (InconsistentLegPrices k (Fmt ''leg price {} deviates {}bps from market price {} (tolerance: {}bps)''
        [ArgPrice (lp_price l), ArgDec dev, ArgPrice market, ArgNat (unat tol)]))
     else validate_legs_from D tol (Suc k) rest)"

definition pv_validate_leg_prices :: "'d dec \<Rightarrow> u32 \<Rightarrow> 'd package_quote \<Rightarrow> 'd price list \<Rightarrow> ('d domain_error, unit) outcome" where
  "pv_validate_leg_prices D tol q market = validate_legs_from D tol 0 (zip (pq_leg_prices q) market)"

definition validate_net_price_consistency :: "'d dec \<Rightarrow> u32 \<Rightarrow> 'd package_quote \<Rightarrow> ('d domain_error, unit) outcome" where
  "validate_net_price_consistency D tol q = obind (pq_calculated_net_from_legs D q) (\<lambda>c. case c of
     None \<Rightarrow> Err (InvalidPackageQuote (Txt ''could not calculate net price from legs''))
   | Some net \<Rightarrow>
       if deq D net (dzero D)
       then (if deq D (pq_net_price q) (dzero D) then Ret ()
             else Err (InvalidPackageQuote (Fmt ''net price {} is inconsistent with calculated net {} from legs''
               [ArgDec (pq_net_price q), ArgDec net])))
       else obind (decimal_deviation_bps D (pq_net_price q) net) (\<lambda>dev.
         if dlt D (dof_int D (uint tol)) dev
         then Err (InvalidPackageQuote (Fmt ''net price {} deviates {}bps from calculated net {} (tolerance: {}bps)''
            [ArgDec (pq_net_price q), ArgDec dev, ArgDec net, ArgNat (unat tol)]))
         else Ret ()))"

definition pv_validate :: "'d dec \<Rightarrow> u32 \<Rightarrow> 'd package_quote \<Rightarrow> 'd price list \<Rightarrow> ('d domain_error, unit) outcome" where
  "pv_validate D tol q market = obind (pv_validate_leg_count q market) (\<lambda>_.
     obind (pv_validate_leg_prices D tol q market) (\<lambda>_. validate_net_price_consistency D tol q))"

definition pv_is_consistent :: "'d dec \<Rightarrow> u32 \<Rightarrow> 'd package_quote \<Rightarrow> ('d domain_error, bool) outcome" where
  "pv_is_consistent D tol q = (case validate_net_price_consistency D tol q of Panic \<Rightarrow> Panic | Ret _ \<Rightarrow> Ret True | Err _ \<Rightarrow> Ret False)"

section \<open>Ranking\<close>

type_synonym 'd ranked_package_quote = "'d package_quote ranked"

text \<open>A quote whose net price has no \<open>f64\<close> is left out.\<close>

definition scored_packages :: "('d \<Rightarrow> f64 option) \<Rightarrow> (f64 \<Rightarrow> f64) \<Rightarrow> 'd package_quote list \<Rightarrow> (nat \<times> f64) list" where
  "scored_packages T score qs =
     List.map_filter (\<lambda>(i, q). map_option (\<lambda>n. (i, score n)) (T (pq_net_price q))) (enumerate 0 qs)"

definition best_net_price_rank :: "('d \<Rightarrow> f64 option) \<Rightarrow> 'd package_quote list \<Rightarrow> order_side \<Rightarrow> 'd ranked_package_quote list" where
  "best_net_price_rank T qs side = (if qs = [] then [] else ranked_from qs (scored_packages T f_neg qs))"

record weighted_package =
  wp_price_weight :: f64
  wp_reliability_weight :: f64

definition f_ge_zero :: "f64 \<Rightarrow> bool" where
  "f_ge_zero x \<longleftrightarrow> f_lt (lit 0) x \<or> f_eq (lit 0) x"

text \<open>The assertions panic.\<close>

definition wp_new :: "f64 \<Rightarrow> f64 \<Rightarrow> ('e, weighted_package) outcome" where
  "wp_new p r = (if \<not> f_ge_zero p then Panic else if \<not> f_ge_zero r then Panic else if \<not> f_lt (lit 0) (f_add p r) then Panic
     else Ret \<lparr> wp_price_weight = p, wp_reliability_weight = r \<rparr>)"

definition wp_price_only :: "('e, weighted_package) outcome" where
  "wp_price_only = wp_new (lit 1) (lit 0)"

definition wp_balanced :: "('e, weighted_package) outcome" where
  "wp_balanced = wp_new (lit (1/2)) (lit (1/2))"

definition wp_score :: "weighted_package \<Rightarrow> f64 \<Rightarrow> f64" where
  "wp_score W n = f_div (f_add (f_mul (wp_price_weight W) (f_neg n)) (f_mul (wp_reliability_weight W) (lit 1)))
     (f_add (wp_price_weight W) (wp_reliability_weight W))"

definition weighted_package_rank :: "weighted_package \<Rightarrow> ('d \<Rightarrow> f64 option) \<Rightarrow> 'd package_quote list \<Rightarrow> order_side
    \<Rightarrow> 'd ranked_package_quote list" where
  "weighted_package_rank W T qs side = (if qs = [] then [] else ranked_from qs (scored_packages T (wp_score W) qs))"

section \<open>What a collected package is\<close>

text \<open>
  Documented of decimals: a difference is the sum with the negated number, a number minus itself is zero, and zero
  divided by another number or multiplied is zero.
\<close>

definition dec_differences :: "'d dec \<Rightarrow> bool" where
  "dec_differences D \<longleftrightarrow> (\<forall>a b. dsub D a b = dadd D a (dnegate D b))
     \<and> (\<forall>a. \<exists>z. dsub D a a = Some z \<and> deq D z (dzero D))
     \<and> (\<forall>z w. deq D z (dzero D) \<longrightarrow> \<not> deq D w (dzero D) \<longrightarrow> (\<exists>x. ddiv D (dabs D z) (dabs D w) = Some x \<and> deq D x (dzero D)))
     \<and> (\<forall>z. deq D z (dzero D) \<longrightarrow> (\<exists>x. dmul D z (dof_int D 10000) = Some x \<and> deq D x (dzero D)))
     \<and> (\<forall>n\<ge>0. dle D (dzero D) (dof_int D n))"

definition priced_leg :: "'d package_venue \<Rightarrow> 'd rfq \<Rightarrow> 'd strategy_leg \<Rightarrow> 'd leg_price \<Rightarrow> bool" where
  "priced_leg V r leg l \<longleftrightarrow> lp_instrument l = sl_instrument leg \<and> lp_side l = sl_side leg \<and> lp_quantity l = rfq_quantity r
     \<and> (\<exists>k q. pv_quote V k r = Inr q \<and> lp_price l = quote_price q)"

text \<open>One step of the loop, with the leg that is added.\<close>

lemma fallback_step:
  fixes D :: "'d dec"
  assumes "fallback_legs D V r k (leg # legs) net acc = Ret res"
  obtains l net1 where "priced_leg V r leg l" "fallback_legs D V r (Suc k) legs net1 (acc @ [l]) = Ret res"
    and "(add_leg_notional D (sl_side leg) l net :: ('d venue_error, 'd) outcome) = Ret net1"
proof -
  obtain q where q: "pv_quote V k r = Inr q" using assms by (auto split: sum.splits)
  let ?l = "\<lparr> lp_instrument = sl_instrument leg, lp_side = sl_side leg, lp_price = quote_price q, lp_quantity = rfq_quantity r \<rparr>"
  have "priced_leg V r leg ?l" using q by (auto simp: priced_leg_def)
  moreover obtain net1 where "(add_leg_notional D (sl_side leg) ?l net :: ('d venue_error, 'd) outcome) = Ret net1"
      "fallback_legs D V r (Suc k) legs net1 (acc @ [?l]) = Ret res"
    using assms unfolding fallback_legs.simps q sum.case Let_def obind_Ret_iff by (elim exE conjE)
  ultimately show ?thesis by (intro that)
qed

lemma add_leg_Ret:
  assumes "add_leg_notional D side l net = Ret net1" "lp_notional D l = Some n"
  shows "(case side of Buy \<Rightarrow> dsub D net (price_get n) | Sell \<Rightarrow> dadd D net (price_get n)) = Some net1"
  using assms by (cases side) (simp_all add: add_leg_notional_def dminus_def dplus_def)

abbreviation net_of :: "'d dec \<Rightarrow> 'd \<Rightarrow> 'd leg_price list \<Rightarrow> ('d domain_error, 'd option) outcome" where
  "net_of \<equiv> net_from_legs"

lemma fallback_legs_spec:
  fixes D :: "'d dec"
  assumes "fallback_legs D V r k legs net acc = Ret (net', acc')"
  shows "\<exists>new. acc' = acc @ new \<and> list_all2 (priced_leg V r) legs new
    \<and> (dec_differences D \<longrightarrow> (\<forall>l\<in>set new. lp_notional D l \<noteq> None) \<longrightarrow> net_of D net new = Ret (Some net'))"
  using assms
proof (induction legs arbitrary: k net acc)
  case (Cons leg legs)
  from Cons.prems obtain l net1 where l: "priced_leg V r leg l" "fallback_legs D V r (Suc k) legs net1 (acc @ [l]) = Ret (net', acc')"
    and step: "(add_leg_notional D (sl_side leg) l net :: ('d venue_error, 'd) outcome) = Ret net1"
    by (rule fallback_step)
  obtain new where new: "acc' = (acc @ [l]) @ new" "list_all2 (priced_leg V r) legs new"
      "dec_differences D \<longrightarrow> (\<forall>l\<in>set new. lp_notional D l \<noteq> None) \<longrightarrow> net_of D net1 new = Ret (Some net')"
    using Cons.IH [OF l(2)] by blast
  have "net_of D net (l # new) = Ret (Some net')"
    if laws: "dec_differences D" and all: "\<forall>x\<in>set (l # new). lp_notional D x \<noteq> None"
  proof -
    obtain n where n: "lp_notional D l = Some n" using all by auto
    note add = add_leg_Ret [OF step n]
    have diff: "dsub D a b = dadd D a (dnegate D b)" for a b using laws unfolding dec_differences_def by blast
    have side: "lp_side l = sl_side leg" using l(1) by (simp add: priced_leg_def)
    have rest: "net_of D net1 new = Ret (Some net')" using new(3) laws all by simp
    show ?thesis
    proof (cases "sl_side leg")
      case Buy
      then have "dadd D net (dnegate D (price_get n)) = Some net1" using add diff by simp
      then show ?thesis using rest side Buy n by (simp add: lp_signed_notional_def dplus_def)
    next
      case Sell
      then have "dadd D net (price_get n) = Some net1" using add by simp
      then show ?thesis using rest side Sell n by (simp add: lp_signed_notional_def dplus_def)
    qed
  qed
  then show ?case using new l(1) by (intro exI [of _ "l # new"]) simp
qed simp

text \<open>A package made of the quotes for single legs.\<close>

definition synthetic :: "'d package_venue \<Rightarrow> 'd strategy \<Rightarrow> 'd rfq \<Rightarrow> 'd package_quote \<Rightarrow> bool" where
  "synthetic V s r q \<longleftrightarrow> pq_rfq_id q = rfq_id r \<and> pq_venue_id q = pv_venue_id V \<and> pq_strategy q = s
     \<and> pq_valid_until q = ts_add_secs (pv_now V) 300 \<and> list_all2 (priced_leg V r) (str_legs s) (pq_leg_prices q)"

lemma fallback_package:
  assumes "fallback_to_individual_legs D V s r = Ret (PackageFallback q)"
  shows "synthetic V s r q \<and> fallback_legs D V r 0 (str_legs s) (dzero D) [] = Ret (pq_net_price q, pq_leg_prices q)"
proof -
  obtain net legs where run: "fallback_legs D V r 0 (str_legs s) (dzero D) [] = Ret (net, legs)"
    using assms by (auto simp: fallback_to_individual_legs_def split: outcome.splits)
  then have q: "pq_new (pv_fresh V) (pv_now_check V) (pv_now_created V) (rfq_id r) (pv_venue_id V) s net legs
      (ts_add_secs (pv_now V) 300) = Inr q"
    using assms by (auto simp: fallback_to_individual_legs_def split: sum.splits)
  then have "pq_net_price q = net" "pq_leg_prices q = legs" "pq_rfq_id q = rfq_id r" "pq_venue_id q = pv_venue_id V"
    "pq_strategy q = s" "pq_valid_until q = ts_add_secs (pv_now V) 300" by (auto simp: pq_new_def)
  moreover obtain new where "legs = [] @ new" "list_all2 (priced_leg V r) (str_legs s) new"
    using fallback_legs_spec [OF run] by blast
  ultimately show ?thesis using run by (simp add: synthetic_def)
qed

lemma fallback_not_success: "fallback_to_individual_legs D V s r \<noteq> Ret (PackageSuccess q)"
  by (auto simp: fallback_to_individual_legs_def split: outcome.splits sum.splits)

lemma collected_from:
  assumes "collect_package_quotes D s r Vs = Ret qs" "q \<in> set qs"
  shows "\<exists>V\<in>set Vs. \<not> pv_times_out V \<and> (pv_supports_multi_leg V \<and> pv_multi_leg V s r = Inr q
    \<or> fallback_to_individual_legs D V s r = Ret (PackageFallback q))"
proof -
  have "\<exists>V\<in>set Vs. collect_from_venue D s r V = Ret x" if "collect_with_details D s r Vs = Ret xs" "x \<in> set xs" for x xs
    using that by (induction Vs arbitrary: xs) auto
  moreover obtain xs where "collect_with_details D s r Vs = Ret xs" "qs = List.map_filter package_of xs"
    using assms(1) by (auto simp: collect_package_quotes_def)
  moreover from this obtain x where "x \<in> set xs" "package_of x = Some q"
    using assms(2) by (auto simp: List.map_filter_def)
  ultimately obtain V where V: "V \<in> set Vs" "collect_from_venue D s r V = Ret x" "package_of x = Some q" by blast
  then show ?thesis
    by (intro bexI [of _ V]; cases x)
      (auto simp: fallback_not_success collect_from_venue_def request_quote_from_venue_def split: if_splits sum.splits)
qed

lemma consistent_net:
  assumes "dec_order D" "dec_differences D" "pq_calculated_net_from_legs D q = (Ret (Some (pq_net_price q)) :: ('d domain_error, 'd option) outcome)"
  shows "validate_net_price_consistency D tol q = Ret ()"
proof (cases "deq D (pq_net_price q) (dzero D)")
  case True
  then show ?thesis using assms(3) by (simp add: validate_net_price_consistency_def)
next
  case False
  have laws: "\<exists>z. dsub D a a = Some z \<and> deq D z (dzero D)"
      "deq D z (dzero D) \<Longrightarrow> \<not> deq D w (dzero D) \<Longrightarrow> \<exists>x. ddiv D (dabs D z) (dabs D w) = Some x \<and> deq D x (dzero D)"
      "deq D z (dzero D) \<Longrightarrow> \<exists>x. dmul D z (dof_int D 10000) = Some x \<and> deq D x (dzero D)"
      "dle D (dzero D) (dof_int D (uint tol))" for a z w
    using assms(2) unfolding dec_differences_def by (blast, blast, blast, simp)
  obtain z where z: "dsub D (pq_net_price q) (pq_net_price q) = Some z" "deq D z (dzero D)" using laws(1) by blast
  obtain x where x: "ddiv D (dabs D z) (dabs D (pq_net_price q)) = Some x" "deq D x (dzero D)" using laws(2) [OF z(2) False] by blast
  obtain y where y: "dmul D x (dof_int D 10000) = Some y" "deq D y (dzero D)" using laws(3) [OF x(2)] by blast
  have "dle D y (dof_int D (uint tol))" using y(2) laws(4) dec_order_trans [OF assms(1)] unfolding deq_def by blast
  then show ?thesis using assms(3) False z x y
    by (simp add: validate_net_price_consistency_def decimal_deviation_bps_def dminus_def dover_def dtimes_def dlt_def)
qed

section \<open>What packages cost\<close>

text \<open>The numbers the notionals of the legs stand for, added up.\<close>

definition package_cost :: "'d dec \<Rightarrow> ('d \<Rightarrow> rat) \<Rightarrow> 'd leg_price list \<Rightarrow> rat" where
  "package_cost D val legs = (\<Sum>l\<leftarrow>legs. case lp_notional D l of None \<Rightarrow> 0 | Some n \<Rightarrow> val (price_get n))"

lemma bought_legs_cost:
  fixes D :: "'d dec"
  assumes "dec_exact_on D S val" "fallback_legs D V r k legs net acc = Ret (net', acc')" "\<forall>leg\<in>set legs. sl_side leg = Buy"
    and "\<And>l leg n. priced_leg V r leg l \<Longrightarrow> lp_notional D l = Some n \<Longrightarrow> price_get n \<in> S" "net \<in> S"
  shows "\<exists>new. acc' = acc @ new \<and> net' \<in> S \<and> val net' = val net - package_cost D val new"
  using assms(2,3,5)
proof (induction legs arbitrary: k net acc)
  case (Cons leg legs)
  from Cons.prems(1) obtain l net1 where l: "priced_leg V r leg l" "fallback_legs D V r (Suc k) legs net1 (acc @ [l]) = Ret (net', acc')"
    and step: "(add_leg_notional D (sl_side leg) l net :: ('d venue_error, 'd) outcome) = Ret net1"
    by (rule fallback_step)
  have net1: "net1 \<in> S \<and> val net1 = val net - package_cost D val [l]"
  proof (cases "lp_notional D l")
    case None
    then show ?thesis using step Cons.prems(3) by (simp add: add_leg_notional_def package_cost_def)
  next
    case (Some n)
    then have "dsub D net (price_get n) = Some net1" using add_leg_Ret [OF step Some] Cons.prems(2) by simp
    then show ?thesis using exact_laws(3) [OF assms(1) Cons.prems(3) assms(4) [OF l(1) Some]] Some by (simp add: package_cost_def)
  qed
  obtain new where "acc' = (acc @ [l]) @ new" "net' \<in> S" "val net' = val net1 - package_cost D val new"
    using Cons.IH [OF l(2) _ conjunct1 [OF net1]] Cons.prems(2) by auto
  then show ?case using net1 by (intro exI [of _ "l # new"]) (simp add: package_cost_def)
qed (simp add: package_cost_def)

lemma scored_all:
  assumes "\<And>d. T d \<noteq> None"
  shows "scored_packages T score qs = scored_by (\<lambda>q. score (the (T (pq_net_price q)))) qs"
  unfolding scored_packages_def scored_by_def
proof (intro map_filter_all ballI)
  fix x
  obtain i q d where "x = (i, q)" "T (pq_net_price q) = Some d" using assms by (metis not_None_eq surj_pair)
  then show "(case x of (i, q) \<Rightarrow> map_option (\<lambda>n. (i, score n)) (T (pq_net_price q)))
      = Some ((case x of (i, q) \<Rightarrow> (i, score (the (T (pq_net_price q))))))" by simp
qed

text \<open>Where every net price has an \<open>f64\<close> both strategies keep the contract of a ranking.\<close>

lemma package_rankings:
  assumes "\<And>d. T d \<noteq> None"
  shows "ranking (\<lambda>qs. best_net_price_rank T qs side)" "ranking (\<lambda>qs. weighted_package_rank W T qs side)"
  unfolding best_net_price_rank_def weighted_package_rank_def scored_all [OF assms] by (rule ranking_ranked_from, simp)+

lemma net_price_sorted:
  assumes "f_monotone D T"
  shows "sorted_wrt (\<lambda>a b. dle D (pq_net_price b) (pq_net_price a) \<longrightarrow> T (pq_net_price b) = T (pq_net_price a))
    (map rank_item (best_net_price_rank T qs side))"
proof (cases "qs = []")
  case False
  have all: "T d \<noteq> None" for d using assms unfolding f_monotone_def by (metis option.distinct(1))
  let ?score = "\<lambda>q. f_neg (the (T (pq_net_price q)))"
  let ?r = "ranked_from qs (scored_by ?score qs)"
  have r: "best_net_price_rank T qs side = ?r" using False by (simp add: best_net_price_rank_def scored_all [OF all])
  have finite: "\<exists>x. T (pq_net_price q) = Some (Fin x)" for q using assms unfolding f_monotone_def by blast
  have "rank_score x \<noteq> NaN" if "x \<in> set ?r" for x
    using ranked_score [OF that] finite [of "rank_item x"] by auto
  then have "sorted_wrt (\<lambda>a b. \<not> f_lt (rank_score a) (rank_score b)) ?r"
    using ranking.best_first [OF package_rankings(1) [where T = T and side = side, OF all], of qs] by (simp add: r)
  then have "sorted_wrt (\<lambda>a b. dle D (pq_net_price (rank_item b)) (pq_net_price (rank_item a))
      \<longrightarrow> T (pq_net_price (rank_item b)) = T (pq_net_price (rank_item a))) ?r"
  proof (rule sorted_wrt_mono_rel [rotated], intro impI)
    fix a b
    assume ab: "a \<in> set ?r" "b \<in> set ?r" "\<not> f_lt (rank_score a) (rank_score b)"
      and le: "dle D (pq_net_price (rank_item b)) (pq_net_price (rank_item a))"
    obtain x y where xy: "T (pq_net_price (rank_item a)) = Some (Fin x)" "T (pq_net_price (rank_item b)) = Some (Fin y)"
      using finite by blast
    have "y \<le> x" using assms le xy unfolding f_monotone_def by blast
    moreover have "x \<le> y" using ab xy ranked_score [OF ab(1)] ranked_score [OF ab(2)] by simp
    ultimately show "T (pq_net_price (rank_item b)) = T (pq_net_price (rank_item a))" using xy by simp
  qed
  then show ?thesis by (simp add: r sorted_wrt_map)
qed (simp add: best_net_price_rank_def)

section \<open>Properties\<close>

text \<open>
  Collected packages are genuine: each comes from a venue that answered in time, as its own package quote
  or, made of its quotes for single legs, for the RFQ and with the legs of the strategy in order, on their sides, at
  quoted prices and at the quantity of the RFQ; and such a synthetic package, if no notional
  overflows, passes the consistency check of the validator with any tolerance.
\<close>

theorem collected_packages_genuine:
  assumes "dec_order D" "dec_differences D" "collect_package_quotes D s r Vs = Ret qs" "q \<in> set qs"
  shows "\<exists>V\<in>set Vs. \<not> pv_times_out V \<and> (pv_supports_multi_leg V \<and> pv_multi_leg V s r = Inr q
    \<or> synthetic V s r q \<and> ((\<forall>l\<in>set (pq_leg_prices q). lp_notional D l \<noteq> None)
        \<longrightarrow> pv_is_consistent D tol q = Ret True))"
proof -
  obtain V where V: "V \<in> set Vs" "\<not> pv_times_out V" "pv_supports_multi_leg V \<and> pv_multi_leg V s r = Inr q
      \<or> fallback_to_individual_legs D V s r = Ret (PackageFallback q)"
    using collected_from [OF assms(3,4)] by blast
  have "synthetic V s r q \<and> ((\<forall>l\<in>set (pq_leg_prices q). lp_notional D l \<noteq> None) \<longrightarrow> pv_is_consistent D tol q = Ret True)"
    if "fallback_to_individual_legs D V s r = Ret (PackageFallback q)"
  proof -
    note fb = fallback_package [OF that]
    have "validate_net_price_consistency D tol q = Ret ()" if "\<forall>l\<in>set (pq_leg_prices q). lp_notional D l \<noteq> None"
      using fallback_legs_spec [OF conjunct2 [OF fb]] that assms(2)
      by (intro consistent_net [OF assms(1,2)]) (auto simp: pq_calculated_net_from_legs_def)
    then show ?thesis using fb by (simp add: pv_is_consistent_def)
  qed
  then show ?thesis using V by blast
qed

text \<open>
  The dearest package comes first: a leg that is bought counts negatively in the net price of a synthetic package,
  while the package and its ranking take a positive net price for what the buyer pays. So for a strategy that
  only buys, every collected synthetic package has minus its cost as net price, and the
  ranking puts a package before a dearer one only where their \<open>f64\<close> values agree.
\<close>

theorem dearest_package_ranks_first:
  assumes "dec_exact_on D S val" "f_monotone D T" "\<forall>leg\<in>set (str_legs s). sl_side leg = Buy"
    and "\<forall>V\<in>set Vs. \<not> pv_supports_multi_leg V \<and> (\<forall>leg l n. priced_leg V r leg l \<longrightarrow> lp_notional D l = Some n \<longrightarrow> price_get n \<in> S)"
    and "collect_package_quotes D s r Vs = Ret qs"
  shows "(\<forall>q\<in>set qs. val (pq_net_price q) = - package_cost D val (pq_leg_prices q))
    \<and> sorted_wrt (\<lambda>a b. package_cost D val (pq_leg_prices a) \<le> package_cost D val (pq_leg_prices b)
        \<longrightarrow> T (pq_net_price b) = T (pq_net_price a)) (map rank_item (best_net_price_rank T qs side))"
proof -
  have cost: "val (pq_net_price q) = - package_cost D val (pq_leg_prices q)" if mem: "q \<in> set qs" for q
  proof -
    obtain V where V: "V \<in> set Vs" "fallback_to_individual_legs D V s r = Ret (PackageFallback q)"
      using collected_from [OF assms(5) mem] assms(4) by blast
    have S: "price_get n \<in> S" if "priced_leg V r leg l" "lp_notional D l = Some n" for l leg n using assms(4) V(1) that by blast
    from bought_legs_cost [OF assms(1) conjunct2 [OF fallback_package [OF V(2)]] assms(3) S exact_zero_in [OF assms(1)]]
    show ?thesis using exact_laws(2) [OF assms(1)] by auto
  qed
  let ?rs = "map rank_item (best_net_price_rank T qs side)"
  have "T d \<noteq> None" for d using assms(2) unfolding f_monotone_def by (metis option.distinct(1))
  then have "set ?rs = set qs" using ranking.items_rank [OF package_rankings(1)] by (metis set_map)
  then have "sorted_wrt (\<lambda>a b. package_cost D val (pq_leg_prices a) \<le> package_cost D val (pq_leg_prices b)
        \<longrightarrow> T (pq_net_price b) = T (pq_net_price a)) ?rs"
    using cost by (intro sorted_wrt_mono_rel [OF _ net_price_sorted [OF assms(2)]]) (auto simp: exact_laws(1) [OF assms(1)])
  then show ?thesis using cost by blast
qed

section \<open>Witnesses\<close>

lemma whole_differences: "dec_differences whole_dec"
  by (auto simp: dec_differences_def deq_def dabs_def whole_dec_def whole_fit_def trunc_div_def)

definition two_calls :: "int strategy" where
  "two_calls = (let leg = \<lparr> sl_instrument = sample_leg_instrument, sl_side = Buy, sl_ratio = 1 \<rparr> in
     \<lparr> str_strategy_type = Straddle, str_legs = [leg, leg], str_underlying = ''BTC'', str_description = None \<rparr>)"

definition venue_at :: "int \<Rightarrow> int package_venue" where
  "venue_at p = \<lparr> pv_venue_id = ''venue'', pv_supports_multi_leg = False, pv_multi_leg = (\<lambda>_ _. Inl (VeUnknown (Txt []))),
     pv_quote = (\<lambda>k _. Inr (sample_quote 1 p 300)), pv_times_out = False, pv_fresh = 9, pv_now = 0, pv_now_check = 1,
     pv_now_created = 2 \<rparr>"

lemma venue_at_sel [simp]:
  "pv_venue_id (venue_at p) = ''venue''" "\<not> pv_supports_multi_leg (venue_at p)" "pv_quote (venue_at p) k r = Inr (sample_quote 1 p 300)"
  "\<not> pv_times_out (venue_at p)" "pv_fresh (venue_at p) = 9" "pv_now (venue_at p) = 0" "pv_now_check (venue_at p) = 1"
  "pv_now_created (venue_at p) = 2"
  by (simp_all add: venue_at_def)

definition two_calls_at :: "int \<Rightarrow> int package_quote" where
  "two_calls_at p = (let l = \<lparr> lp_instrument = sample_leg_instrument, lp_side = Buy, lp_price = Price p, lp_quantity = Quantity 5 \<rparr> in
     \<lparr> pq_id = 9, pq_rfq_id = rfq_id sample_rfq, pq_venue_id = ''venue'', pq_strategy = two_calls, pq_net_price = - (10 * p),
       pq_leg_prices = [l, l], pq_valid_until = 300000000000, pq_created_at = 2 \<rparr>)"

lemma at_notional: "p \<in> {40, 50} \<Longrightarrow> lp_notional whole_dec \<lparr> lp_instrument = i, lp_side = Buy, lp_price = Price p, lp_quantity = Quantity 5 \<rparr>
    = Some (Price (5 * p))"
  by (auto simp: lp_notional_def res_ok_def price_safe_mul_def dec_safe_mul_def whole_fit_def price_from_decimal_def)

lemma venue_at_falls_back:
  assumes "p \<in> {40, 50}"
  shows "collect_from_venue whole_dec two_calls sample_rfq (venue_at p) = Ret (PackageFallback (two_calls_at p))"
proof -
  have q: "quote_price (sample_quote 1 p 300) = Price p" "rfq_quantity sample_rfq = Quantity 5"
    by (simp_all add: sample_quote_def qb_build_def qb_new_def sample_rfq_def rb_build_def rb_new_def)
  have run: "fallback_legs whole_dec (venue_at p) sample_rfq 0 (str_legs two_calls) 0 [] = Ret (- (10 * p), pq_leg_prices (two_calls_at p))"
    using assms by (auto simp: two_calls_def q add_leg_notional_def at_notional dminus_def whole_fit_def two_calls_at_def Let_def)
  have "length (pq_leg_prices (two_calls_at p)) = 2" "str_leg_count two_calls = 2"
    by (simp_all add: two_calls_at_def two_calls_def str_leg_count_def Let_def)
  then have "pq_new 9 1 2 (rfq_id sample_rfq) ''venue'' two_calls (- (10 * p)) (pq_leg_prices (two_calls_at p)) (ts_add_secs 0 300)
      = Inr (two_calls_at p)"
    by (auto simp: pq_new_def pq_validate_legs_def pq_validate_expiry_def ts_is_expired_def ts_add_secs_def two_calls_at_def Let_def)
  then show ?thesis using run by (simp add: collect_from_venue_def request_quote_from_venue_def fallback_to_individual_legs_def)
qed

lemma two_venues_collected:
  "collect_package_quotes whole_dec two_calls sample_rfq [venue_at 40, venue_at 50] = Ret [two_calls_at 40, two_calls_at 50]"
  by (simp add: collect_package_quotes_def venue_at_falls_back)

lemma collected_packages_genuine_witness:
  "pv_is_consistent whole_dec 0 (two_calls_at 40) = Ret True"
proof -
  have all: "\<forall>l\<in>set (pq_leg_prices (two_calls_at 40)). lp_notional whole_dec l \<noteq> None"
    by (simp add: two_calls_at_def at_notional Let_def)
  have "\<not> pv_supports_multi_leg V" if "V \<in> set [venue_at 40, venue_at 50]" for V using that by auto
  then show ?thesis
    using collected_packages_genuine [OF whole_dec_order whole_differences two_venues_collected, of "two_calls_at 40" 0] all by auto
qed

lemma two_orders: "mset xs = mset [a, b] \<Longrightarrow> xs \<in> {[a, b], rev [a, b]}"
proof -
  assume xs: "mset xs = mset [a, b]"
  then have "length xs = 2" by (metis length_Cons list.size(3) mset_eq_length numeral_2_eq_2)
  then obtain x y where "xs = [x, y]" by (auto simp: numeral_2_eq_2 length_Suc_conv)
  then show ?thesis using xs by (auto simp: add_eq_conv_ex)
qed

lemma dearest_package_ranks_first_witness:
  "\<exists>qs. collect_package_quotes whole_dec two_calls sample_rfq [venue_at 40, venue_at 50] = Ret qs
    \<and> map (package_cost whole_dec of_int \<circ> pq_leg_prices) qs = [400, 500]
    \<and> map rank_item (best_net_price_rank whole_f64 qs Buy) = rev qs"
proof -
  let ?qs = "[two_calls_at 40, two_calls_at 50]"
  have cost: "package_cost whole_dec of_int (pq_leg_prices (two_calls_at p)) = 10 * of_int p" if "p \<in> {40, 50}" for p
    using that by (auto simp: package_cost_def two_calls_at_def at_notional Let_def)
  have "sorted_wrt (\<lambda>a b. package_cost whole_dec of_int (pq_leg_prices a) \<le> package_cost whole_dec of_int (pq_leg_prices b)
        \<longrightarrow> whole_f64 (pq_net_price b) = whole_f64 (pq_net_price a)) (map rank_item (best_net_price_rank whole_f64 ?qs Buy))"
    using dearest_package_ranks_first [OF whole_dec_exact whole_f64_monotone _ _ two_venues_collected, of Buy]
    by (simp add: two_calls_def Let_def)
  moreover have "mset (map rank_item (best_net_price_rank whole_f64 ?qs Buy)) = mset ?qs"
    by (rule ranking.permutes [OF package_rankings(1)]) (simp add: whole_f64_def)
  then have "map rank_item (best_net_price_rank whole_f64 ?qs Buy) \<in> {?qs, rev ?qs}"
    by (rule two_orders)
  ultimately have "map rank_item (best_net_price_rank whole_f64 ?qs Buy) = rev ?qs"
    using cost by (auto simp: whole_f64_def two_calls_at_def Let_def)
  then show ?thesis using two_venues_collected cost by auto
qed

end
