(* ===== verification/Field_Codec.thy ===== *)
theory Field_Codec
  imports Sbe_Codec
begin

text \<open>
  The style in which \<open>src/api/sbe/types.rs\<close> encodes and decodes its messages: field after field at a running
  offset. A field is written by a function from its offset to the offset of the next one, and read by
  a function from the buffer and its offset to its value and the offset of the next one. The offsets stay
  within the buffer, so the checked additions of the code cannot overflow. What a field
  writes, what is read back and where reading a truncated field panics are laws that compose.
\<close>

type_synonym field_write = "nat \<Rightarrow> nat sbe_write"
type_synonym 'a field_read = "bytes \<Rightarrow> nat \<Rightarrow> ('a \<times> nat) reads"

section \<open>Writing fields\<close>

definition w_bytes :: "bytes \<Rightarrow> field_write" where
  "w_bytes bs off = pop_then (put_bytes off bs) (\<lambda>_. pop_ret (off + length bs))"

definition w_uuid :: "uuid \<Rightarrow> field_write" where
  "w_uuid u off = pop_then (put_uuid off u) (\<lambda>_. pop_ret (off + 16))"

definition w_decimal :: "'d dec \<Rightarrow> 'd \<Rightarrow> field_write" where
  "w_decimal D d off = pop_then (put_decimal D off d) (\<lambda>_. pop_ret (off + 9))"

definition w_string :: "string \<Rightarrow> field_write" where
  "w_string s off = pop_then (at_offset off (encode_var_string s)) (\<lambda>n. pop_ret (off + n))"

definition encode_timestamp_nanos :: "timestamp \<Rightarrow> string \<Rightarrow> sbe_error + u64" where
  "encode_timestamp_nanos t field_name = (case s_checked TYPE(64) t of
       None \<Rightarrow> Inl (InvalidTimestamp (DetailText (field_name @ '' out of range'')))
     | Some w \<Rightarrow> if t < 0 then Inl (InvalidTimestamp (DetailText (field_name @ '' cannot be negative''))) else Inr w)"

definition w_timestamp :: "timestamp \<Rightarrow> string \<Rightarrow> field_write" where
  "w_timestamp t field_name off = (case encode_timestamp_nanos t field_name of
       Inl e \<Rightarrow> pop_read (\<lambda>_. Err e)
     | Inr w \<Rightarrow> w_bytes (to_le_bytes w) off)"

text \<open>The header of a repeating group: the block length, then the number of entries, if it fits 16 bits.\<close>

definition w_group_header :: "u16 \<Rightarrow> nat \<Rightarrow> field_write" where
  "w_group_header block_length count off =
     pop_then (put_bytes off (to_le_bytes block_length)) (\<lambda>_.
       if 2 ^ 16 \<le> count then pop_read (\<lambda>_. Err (InvalidFieldValue (DetailText ''quotes count exceeds u16'')))
       else pop_then (put_bytes (off + 2) (to_le_bytes (of_nat count :: u16))) (\<lambda>_. pop_ret (off + 4)))"

fun write_fields :: "field_write list \<Rightarrow> field_write" where
  "write_fields [] off = pop_ret off"
| "write_fields (w # ws) off = pop_then (w off) (write_fields ws)"

text \<open>The header of the API's schema, version 1.\<close>

definition api_encode_header :: "u16 \<Rightarrow> u16 \<Rightarrow> unit sbe_write" where
  "api_encode_header block_length template_id buf =
     (if length buf < 8 then (Err (BufferTooSmall 8 (length buf)), buf)
      else pop_then (put_bytes 0 (to_le_bytes block_length)) (\<lambda>_.
           pop_then (put_bytes 2 (to_le_bytes template_id)) (\<lambda>_.
           pop_then (put_bytes 4 (to_le_bytes (1 :: u16))) (\<lambda>_.
             put_bytes 6 (to_le_bytes (1 :: u16))))) buf)"

text \<open>A message: the size check, the header, the fields.\<close>

definition message_encode :: "nat \<Rightarrow> u16 \<Rightarrow> u16 \<Rightarrow> field_write list \<Rightarrow> nat sbe_write" where
  "message_encode needed block_length template_id ws =
     sized needed (pop_then (api_encode_header block_length template_id) (\<lambda>_. write_fields ws 8))"

section \<open>Reading fields\<close>

definition r_uuid :: "uuid field_read" where
  "r_uuid buf off = obind (uuid_at off buf) (\<lambda>u. Ret (u, off + 16))"

definition r_enum :: "(u8 \<Rightarrow> 'a reads) \<Rightarrow> 'a field_read" where
  "r_enum dec buf off = obind (byte_at off buf) (\<lambda>b. obind (dec b) (\<lambda>a. Ret (a, off + 1)))"

definition r_decimal :: "'d dec \<Rightarrow> 'd field_read" where
  "r_decimal D buf off = obind (decimal_at D off buf) (\<lambda>d. Ret (d, off + 9))"

definition as_field_error :: "string \<Rightarrow> arithmetic_error + 'a \<Rightarrow> 'a reads" where
  "as_field_error what r = (case r of Inl e \<Rightarrow> Err (InvalidFieldValue (DetailFmt what e)) | Inr a \<Rightarrow> Ret a)"

definition r_price :: "'d dec \<Rightarrow> string \<Rightarrow> 'd price field_read" where
  "r_price D what buf off = obind (decimal_at D off buf) (\<lambda>d.
     obind (as_field_error what (price_from_decimal D d)) (\<lambda>p. Ret (p, off + 9)))"

definition r_quantity :: "'d dec \<Rightarrow> string \<Rightarrow> 'd quantity field_read" where
  "r_quantity D what buf off = obind (decimal_at D off buf) (\<lambda>d.
     obind (as_field_error what (quantity_from_decimal D d)) (\<lambda>q. Ret (q, off + 9)))"

text \<open>\<open>buffer.get(offset..offset + n)\<close>, an error where the range ends outside.\<close>

definition r_get :: "nat \<Rightarrow> bytes field_read" where
  "r_get n buf off = (if off + n \<le> length buf then Ret (take n (drop off buf), off + n)
     else Err (BufferTooSmall (off + n) (length buf)))"

definition r_word :: "nat \<Rightarrow> 'w::len word field_read" where
  "r_word n buf off = obind (r_get n buf off) (\<lambda>(bs, off). Ret (from_le_bytes bs, off))"

definition r_timestamp :: "string \<Rightarrow> timestamp field_read" where
  "r_timestamp what buf off = obind (r_get 8 buf off) (\<lambda>(bs, off).
     obind (of_result (ok_or (InvalidTimestamp (DetailText what)) (ts_from_nanos (sint (from_le_bytes bs :: u64)))))
       (\<lambda>t. Ret (t, off)))"

definition r_string :: "string field_read" where
  "r_string buf off = obind (var_string_at off buf) (\<lambda>(s, n). Ret (s, off + n))"

definition r_group_header :: "u16 \<Rightarrow> nat field_read" where
  "r_group_header block_length buf off = obind (r_get 4 buf off) (\<lambda>(bs, off).
     let quote_block_length = from_le_bytes (take 2 bs) :: u16; quote_count = from_le_bytes (drop 2 bs) :: u16 in
     if quote_block_length \<noteq> block_length
     then Err (InvalidHeader (DetailNumber ''unexpected quotes block length: {}'' (unat quote_block_length)))
     else Ret (unat quote_count, off))"

definition r_then :: "'a field_read \<Rightarrow> ('a \<Rightarrow> 'b field_read) \<Rightarrow> 'b field_read" where
  "r_then r f buf off = obind (r buf off) (\<lambda>(a, off). f a buf off)"

definition r_ret :: "'a \<Rightarrow> 'a field_read" where
  "r_ret a buf off = Ret (a, off)"

fun r_many :: "'a field_read \<Rightarrow> nat \<Rightarrow> 'a list field_read" where
  "r_many r 0 = r_ret []"
| "r_many r (Suc n) = r_then r (\<lambda>x. r_then (r_many r n) (\<lambda>xs. r_ret (x # xs)))"

definition message_decode :: "u16 \<Rightarrow> 'a field_read \<Rightarrow> bytes \<Rightarrow> 'a reads" where
  "message_decode template r buf = obind (decode_header buf) (\<lambda>(_, template_id, _, _).
     if template_id \<noteq> template then Err (UnknownTemplateId template_id)
     else obind (r buf 8) (\<lambda>(a, _). Ret a))"

section \<open>What fields write\<close>

definition field_writes :: "field_write \<Rightarrow> bytes \<Rightarrow> bool" where
  "field_writes w bs \<longleftrightarrow> (\<forall>off. writes off (w off) bs (off + length bs))"

named_theorems field_intros "what the fields write, read back and refuse"

lemma field_writesI:
  assumes "\<And>off. writes off (m off) bs ()" "\<And>off. w off = pop_then (m off) (\<lambda>_. pop_ret (off + length bs))"
  shows "field_writes w bs"
  unfolding field_writes_def assms(2) by (rule allI, rule writes_last [OF assms(1)]) simp_all

lemma field_bytes [field_intros]: "field_writes (w_bytes bs) bs"
  by (rule field_writesI [OF writes_put]) (simp add: w_bytes_def)

lemma field_uuid [field_intros]: "field_writes (w_uuid u) (uuid_bytes u)"
  by (rule field_writesI [OF writes_uuid]) (simp add: w_uuid_def)

lemma field_decimal [field_intros]: "field_writes (w_decimal D d) (sd_bytes D d)"
  by (rule field_writesI [OF writes_decimal]) (simp add: w_decimal_def)

lemma field_string [field_intros]: "field_writes (w_string s) (var_bytes s)"
  unfolding field_writes_def w_string_def
  by (rule allI, rule writes_last [OF writes_at [OF writes_var]]) simp_all

definition ts_encodable :: "timestamp \<Rightarrow> bool" where
  "ts_encodable t \<longleftrightarrow> 0 \<le> t \<and> t < 2 ^ 63"

definition ts_bytes :: "timestamp \<Rightarrow> bytes" where
  "ts_bytes t = to_le_bytes (ts_nanos t)"

lemma length_ts_bytes [simp]: "length (ts_bytes t) = 8"
  by (simp add: ts_bytes_def)

lemma field_timestamp [field_intros]: "ts_encodable t \<Longrightarrow> field_writes (w_timestamp t n) (ts_bytes t)"
  using field_bytes [of "to_le_bytes (ts_nanos t)"]
  by (simp add: ts_encodable_def ts_bytes_def field_writes_def w_timestamp_def encode_timestamp_nanos_def ts_nanos_def
      s_checked_def)

definition group_bytes :: "u16 \<Rightarrow> nat \<Rightarrow> bytes" where
  "group_bytes block_length count = to_le_bytes block_length @ to_le_bytes (of_nat count :: u16)"

lemma length_group_bytes [simp]: "length (group_bytes b n) = 4"
  by (simp add: group_bytes_def)

lemma writes_ret_last: "writes off m bs () \<Longrightarrow> writes off (pop_then m (\<lambda>_. pop_ret a)) bs a"
  by (rule writes_last) simp_all

lemma field_group [field_intros]:
  assumes "n < 2 ^ 16"
  shows "field_writes (w_group_header b n) (group_bytes b n)"
  unfolding field_writes_def
proof
  fix off
  have "w_group_header b n off = pop_then (put_bytes off (to_le_bytes b)) (\<lambda>_.
      pop_then (put_bytes (off + 2) (to_le_bytes (of_nat n :: u16))) (\<lambda>_. pop_ret (off + 4)))"
    using assms by (simp add: w_group_header_def fun_eq_iff)
  moreover have "writes off \<dots> (to_le_bytes b @ to_le_bytes (of_nat n :: u16)) (off + 4)"
    by (rule writes_then [OF writes_put _ writes_ret_last [OF writes_put]]) simp
  ultimately show "writes off (w_group_header b n off) (group_bytes b n) (off + length (group_bytes b n))"
    by (simp add: group_bytes_def)
qed

lemma field_then: "field_writes w bs \<Longrightarrow> field_writes v bs' \<Longrightarrow> field_writes (\<lambda>off. pop_then (w off) v) (bs @ bs')"
  unfolding field_writes_def
proof
  fix off
  assume w: "\<forall>off. writes off (w off) bs (off + length bs)" and v: "\<forall>off. writes off (v off) bs' (off + length bs')"
  show "writes off (pop_then (w off) v) (bs @ bs') (off + length (bs @ bs'))"
    by (rule writes_then [where a = "off + length bs" and off' = "off + length bs"])
      (simp_all add: w v add.assoc [symmetric])
qed

lemma field_fields: "list_all2 field_writes ws bss \<Longrightarrow> field_writes (write_fields ws) (concat bss)"
proof (induction ws bss rule: list_all2_induct)
  case Nil
  then show ?case by (simp add: field_writes_def writes_ret)
next
  case (Cons w ws bs bss)
  have "write_fields (w # ws) = (\<lambda>off. pop_then (w off) (write_fields ws))" by (rule ext) simp
  then show ?case using field_then [OF Cons.hyps(1) Cons.IH] by simp
qed

definition api_header_bytes :: "u16 \<Rightarrow> u16 \<Rightarrow> bytes" where
  "api_header_bytes b t = to_le_bytes b @ to_le_bytes t @ to_le_bytes (1 :: u16) @ to_le_bytes (1 :: u16)"

lemma length_api_header [simp]: "length (api_header_bytes b t) = 8"
  by (simp add: api_header_bytes_def)

lemma writes_api_header: "writes 0 (api_encode_header b t) (api_header_bytes b t) ()"
  unfolding api_encode_header_def [abs_def] api_header_bytes_def
  by (rule writes_guard, rule writes_then [OF writes_put _ writes_then [OF writes_put _
        writes_then [OF writes_put _ writes_put]]]) simp_all

lemma writes_message:
  assumes "list_all2 field_writes ws bss" "n = 8 + length (concat bss)"
  shows "writes 0 (message_encode n b t ws) (api_header_bytes b t @ concat bss) n"
  unfolding message_encode_def
proof (rule writes_sized)
  show "writes 0 (pop_then (api_encode_header b t) (\<lambda>_. write_fields ws 8)) (api_header_bytes b t @ concat bss) n"
    using writes_then [OF writes_api_header _ field_fields [OF assms(1), unfolded field_writes_def, rule_format]] assms(2)
    by simp
qed (simp add: assms(2))

section \<open>Encoders do not panic\<close>

text \<open>The errors a field may give: a time stamp outside the format, or too many entries of a group.\<close>

fun field_error :: "sbe_error \<Rightarrow> bool" where
  "field_error (InvalidTimestamp _) = True"
| "field_error (InvalidFieldValue _) = True"
| "field_error _ = False"

fun field_outcome :: "nat \<Rightarrow> nat \<Rightarrow> (sbe_error, nat) outcome \<times> bytes \<Rightarrow> bool" where
  "field_outcome off' len (Ret k, buf) \<longleftrightarrow> k = off' \<and> length buf = len"
| "field_outcome off' len (Err e, buf) \<longleftrightarrow> field_error e \<and> length buf = len"
| "field_outcome off' len (Panic, buf) \<longleftrightarrow> False"

definition field_safe :: "field_write \<Rightarrow> nat \<Rightarrow> bool" where
  "field_safe w n \<longleftrightarrow> (\<forall>off buf. off + n \<le> length buf \<longrightarrow> field_outcome (off + n) (length buf) (w off buf))"

lemma safe_writes: "field_writes w bs \<Longrightarrow> length bs = n \<Longrightarrow> field_safe w n"
  by (auto simp: field_safe_def field_writes_def writes_def)

lemma safe_timestamp: "field_safe (w_timestamp t n) 8"
proof (cases "encode_timestamp_nanos t n")
  case (Inl e)
  then show ?thesis
    by (auto simp: field_safe_def w_timestamp_def pop_read_def encode_timestamp_nanos_def split: option.splits if_splits)
next
  case (Inr w)
  then have "w_timestamp t n = w_bytes (to_le_bytes w)" by (simp add: fun_eq_iff w_timestamp_def)
  then show ?thesis using safe_writes [OF field_bytes, of "to_le_bytes w" 8] by simp
qed

lemma safe_group: "field_safe (w_group_header b n) 4"
proof (cases "n < 2 ^ 16")
  case True
  then show ?thesis by (intro safe_writes [OF field_group]) simp_all
next
  case False
  then show ?thesis
    by (auto simp: field_safe_def w_group_header_def pop_then_def put_bytes_def pop_read_def)
qed

lemmas safe_intros = safe_writes [OF field_bytes] safe_writes [OF field_uuid] safe_writes [OF field_decimal]
  safe_writes [OF field_string] safe_timestamp safe_group

lemma safe_then:
  assumes "field_safe w n" "field_safe v k"
  shows "field_safe (\<lambda>off. pop_then (w off) v) (n + k)"
  unfolding field_safe_def
proof (intro allI impI)
  fix off and buf :: bytes
  assume len: "off + (n + k) \<le> length buf"
  obtain r buf1 where w: "w off buf = (r, buf1)" by fastforce
  then have first: "field_outcome (off + n) (length buf) (r, buf1)"
    using assms(1) len unfolding field_safe_def by (metis add_leD1 add.assoc)
  show "field_outcome (off + (n + k)) (length buf) (pop_then (w off) v buf)"
  proof (cases r)
    case (Ret off1)
    then have "off1 = off + n" "length buf1 = length buf" using first by simp_all
    moreover have "field_outcome (off + n + k) (length buf1) (v (off + n) buf1)"
      using assms(2) [unfolded field_safe_def, rule_format, of "off + n" buf1] len calculation(2) by simp
    ultimately show ?thesis using w Ret by (simp add: pop_then_def add.assoc)
  qed (use first w in \<open>simp_all add: pop_then_def\<close>)
qed

lemma safe_fields: "list_all2 field_safe ws ns \<Longrightarrow> field_safe (write_fields ws) (sum_list ns)"
proof (induction ws ns rule: list_all2_induct)
  case Nil
  then show ?case by (simp add: field_safe_def pop_ret_def)
next
  case (Cons w ws n ns)
  have "write_fields (w # ws) = (\<lambda>off. pop_then (w off) (write_fields ws))" by (rule ext) simp
  then show ?case using safe_then [OF Cons.hyps(1) Cons.IH] by simp
qed

lemma message_encode_too_small:
  "length buf < n \<Longrightarrow> message_encode n b t ws buf = (Err (BufferTooSmall n (length buf)), buf)"
  by (simp add: message_encode_def sized_def)

lemma message_encode_safe:
  assumes "list_all2 field_safe ws ns" "n = 8 + sum_list ns" "n \<le> length buf"
  shows "field_outcome n (length buf) (message_encode n b t ws buf)"
proof -
  let ?buf = "api_header_bytes b t @ drop 8 buf"
  have "api_encode_header b t buf = (Ret (), ?buf)"
    using writes_apply [OF writes_api_header, of b t buf] assms(2,3) by simp
  then have "message_encode n b t ws buf = write_fields ws 8 ?buf"
    using assms(3) by (simp add: message_encode_def sized_def pop_then_def)
  moreover have "length ?buf = length buf" "8 + sum_list ns \<le> length ?buf" using assms(2,3) by simp_all
  ultimately show ?thesis
    using safe_fields [OF assms(1)] assms(2) unfolding field_safe_def by metis
qed

section \<open>What fields read\<close>

definition field_reads :: "'a field_read \<Rightarrow> bytes \<Rightarrow> 'a \<Rightarrow> bool" where
  "field_reads r bs a \<longleftrightarrow> (\<forall>pre rest. r (pre @ bs @ rest) (length pre) = Ret (a, length pre + length bs))"

lemma reads_ret [field_intros]: "field_reads (r_ret a) [] a"
  by (simp add: field_reads_def r_ret_def)

lemma reads_then:
  assumes "field_reads r bs a" "field_reads (f a) bs' b"
  shows "field_reads (r_then r f) (bs @ bs') b"
  unfolding field_reads_def
proof (intro allI)
  fix pre rest
  have "r (pre @ bs @ bs' @ rest) (length pre) = Ret (a, length pre + length bs)"
    using assms(1) by (simp add: field_reads_def)
  moreover have "f a ((pre @ bs) @ bs' @ rest) (length (pre @ bs)) = Ret (b, length (pre @ bs) + length bs')"
    using assms(2) unfolding field_reads_def by blast
  ultimately show "r_then r f (pre @ (bs @ bs') @ rest) (length pre) = Ret (b, length pre + length (bs @ bs'))"
    by (simp add: r_then_def add.assoc)
qed

lemma reads_uuid [field_intros]: "field_reads r_uuid (uuid_bytes u) u"
  by (simp add: field_reads_def r_uuid_def uuid_at_bytes)

lemma reads_enum: "dec b = Ret a \<Longrightarrow> field_reads (r_enum dec) [b] a"
  by (simp add: field_reads_def r_enum_def byte_at_append)

lemma reads_decimal [field_intros]: "dec_fits D d \<Longrightarrow> field_reads (r_decimal D) (sd_bytes D d) d"
  by (simp add: field_reads_def r_decimal_def decimal_at_bytes)

lemma reads_price [field_intros]:
  "price_fits D p \<Longrightarrow> field_reads (r_price D what) (sd_bytes D (price_get p)) p"
  by (cases p)
    (simp add: field_reads_def r_price_def decimal_at_bytes price_fits_def as_field_error_def price_from_decimal_def)

lemma reads_quantity [field_intros]:
  "quantity_fits D q \<Longrightarrow> field_reads (r_quantity D what) (sd_bytes D (quantity_get q)) q"
  by (cases q)
    (simp add: field_reads_def r_quantity_def decimal_at_bytes quantity_fits_def as_field_error_def quantity_from_decimal_def)

lemma reads_get: "length bs = n \<Longrightarrow> field_reads (r_get n) bs bs"
  by (auto simp: field_reads_def r_get_def)

lemma r_get_append [simp]: "length bs = n \<Longrightarrow> r_get n (pre @ bs @ rest) (length pre) = Ret (bs, length pre + n)"
  using reads_get [of bs n] by (simp add: field_reads_def)

lemma reads_u64 [field_intros]: "field_reads (r_word 8) (to_le_bytes (w :: u64)) w"
  by (simp add: field_reads_def r_word_def)

lemma reads_u32 [field_intros]: "field_reads (r_word 4) (to_le_bytes (w :: u32)) w"
  by (simp add: field_reads_def r_word_def)

lemma reads_timestamp [field_intros]: "ts_encodable t \<Longrightarrow> field_reads (r_timestamp what) (ts_bytes t) t"
proof -
  assume "ts_encodable t"
  then have "ts_fits t" by (simp add: ts_encodable_def ts_fits_def)
  then show ?thesis
    by (simp add: field_reads_def r_timestamp_def ts_bytes_def ts_nanos_fits)
      (simp add: ts_fits_def ts_from_nanos_fits)
qed

lemma reads_string [field_intros]: "str_fits s \<Longrightarrow> field_reads r_string (var_bytes s) s"
  by (simp add: field_reads_def r_string_def var_string_at_bytes)

lemma reads_group [field_intros]: "n < 2 ^ 16 \<Longrightarrow> field_reads (r_group_header b) (group_bytes b n) n"
  by (simp add: field_reads_def r_group_header_def) (simp add: group_bytes_def unat_of_nat_small)

lemma reads_many:
  "list_all2 (field_reads r) bss xs \<Longrightarrow> field_reads (r_many r (length xs)) (concat bss) xs"
proof (induction bss xs rule: list_all2_induct)
  case Nil
  then show ?case by (simp add: reads_ret)
next
  case (Cons bs bss x xs)
  have "field_reads (r_then r (\<lambda>x. r_then (r_many r (length xs)) (\<lambda>xs. r_ret (x # xs)))) (bs @ concat bss @ []) (x # xs)"
    by (intro reads_then [OF Cons.hyps(1)] reads_then [OF Cons.IH] reads_ret)
  then show ?case by simp
qed

lemma api_header_decode [simp]: "decode_header (api_header_bytes b t @ rest) = Ret (b, t, 1, 1)"
  by (simp add: decode_header_def api_header_bytes_def)

lemma message_decode_bytes:
  assumes "field_reads r bs a"
  shows "message_decode t r (api_header_bytes b t @ bs @ rest) = Ret a"
  using assms [unfolded field_reads_def, rule_format, of "api_header_bytes b t" rest]
  by (simp add: message_decode_def)

section \<open>Reading truncated messages\<close>

text \<open>
  Reading a field that is cut off after \<open>m\<close> of its bytes fails; it panics when \<open>m\<close> is in \<open>S\<close> and
  returns an error otherwise.
\<close>

definition field_cut :: "'a field_read \<Rightarrow> bytes \<Rightarrow> nat set \<Rightarrow> bool" where
  "field_cut r bs S \<longleftrightarrow> (\<forall>pre m. m < length bs \<longrightarrow>
     (if m \<in> S then r (pre @ take m bs) (length pre) = Panic else \<exists>e. r (pre @ take m bs) (length pre) = Err e))"

named_theorems cut_intros "where reading a truncated field panics"

lemma cut_uuid [cut_intros]: "field_cut r_uuid (uuid_bytes u) {}"
  by (auto simp: field_cut_def r_uuid_def uuid_at_def slice_from_def su_decode_def)

lemma cut_enum [cut_intros]: "field_cut (r_enum dec) [b] {0}"
  by (auto simp: field_cut_def r_enum_def byte_at_def)

lemma cut_decimal:
  assumes "\<And>buf off. r buf off = obind (decimal_at D off buf) (f off)"
  shows "field_cut r (sd_bytes D d) {}"
  unfolding field_cut_def assms by (auto simp: decimal_at_def slice_from_def sd_decode_def)

lemma cut_decimals [cut_intros]:
  "field_cut (r_decimal D) (sd_bytes D d) {}"
  "field_cut (r_price D what) (sd_bytes D d) {}"
  "field_cut (r_quantity D what) (sd_bytes D d) {}"
  by (rule cut_decimal, simp add: r_decimal_def r_price_def r_quantity_def)+

lemma cut_word [cut_intros]: "length bs = n \<Longrightarrow> field_cut (r_word n) bs {}"
  by (auto simp: field_cut_def r_word_def r_get_def)

lemma cut_timestamp [cut_intros]: "length bs = 8 \<Longrightarrow> field_cut (r_timestamp what) bs {}"
  by (auto simp: field_cut_def r_timestamp_def r_get_def)

lemma cut_string [cut_intros]:
  assumes "length s < 2 ^ 32"
  shows "field_cut r_string (var_bytes s) {}"
  unfolding field_cut_def
proof (intro allI impI)
  fix pre m
  assume m: "m < length (var_bytes s)"
  let ?b = "take m (var_bytes s)"
  have "\<exists>e. decode_var_string ?b = Err e"
  proof (cases "m < 4")
    case False
    then have "take 4 ?b = to_le_bytes (of_nat (length s) :: u32)" by (simp add: var_bytes_def)
    then show ?thesis using False m assms by (simp add: decode_var_string_def unat_of_nat_small Let_def)
  qed (simp add: decode_var_string_def)
  then show "if m \<in> {} then r_string (pre @ ?b) (length pre) = Panic else \<exists>e. r_string (pre @ ?b) (length pre) = Err e"
    by (auto simp: r_string_def var_string_at_def slice_from_def)
qed

lemma cut_ret: "field_cut (r_ret a) [] {}"
  by (simp add: field_cut_def)

lemma cut_then:
  assumes "field_cut r bs S" "field_reads r bs a" "field_cut (f a) bs' S'"
    and T: "T = {m\<in>S. m < length bs} \<union> (\<lambda>m. length bs + m) ` S'"
  shows "field_cut (r_then r f) (bs @ bs') T"
  unfolding field_cut_def
proof (intro allI impI)
  fix pre m
  assume m: "m < length (bs @ bs')"
  let ?x = "r_then r f (pre @ take m (bs @ bs')) (length pre)"
  show "if m \<in> T then ?x = Panic else \<exists>e. ?x = Err e"
  proof (cases "m < length bs")
    case True
    then have "m \<in> T \<longleftrightarrow> m \<in> S" by (auto simp: T)
    moreover have "?x = obind (r (pre @ take m bs) (length pre)) (\<lambda>(a, off). f a (pre @ take m bs) off)"
      using True by (simp add: r_then_def)
    moreover have "if m \<in> S then r (pre @ take m bs) (length pre) = Panic else \<exists>e. r (pre @ take m bs) (length pre) = Err e"
      using assms(1) True unfolding field_cut_def by blast
    ultimately show ?thesis by (auto split: if_splits)
  next
    case False
    let ?k = "m - length bs"
    have "m \<in> T \<longleftrightarrow> ?k \<in> S'" using False by (force simp: T image_iff)
    moreover have "?x = f a ((pre @ bs) @ take ?k bs') (length (pre @ bs))"
      using False assms(2) by (simp add: r_then_def field_reads_def)
    moreover have "?k < length bs'" using m False by simp
    ultimately show ?thesis using assms(3) unfolding field_cut_def by (smt (verit))
  qed
qed

lemma message_decode_cut:
  fixes b t :: u16
  assumes "field_cut r bs S" "k < 8 + length bs"
  defines "x \<equiv> message_decode t r (take k (api_header_bytes b t @ bs))"
  shows "if 8 \<le> k \<and> k - 8 \<in> S then x = Panic else \<exists>e. x = Err e"
proof (cases "k < 8")
  case True
  then show ?thesis by (simp add: x_def message_decode_def decode_header_def)
next
  case False
  let ?buf = "api_header_bytes b t @ take (k - 8) bs"
  have "x = obind (r ?buf 8) (\<lambda>(a, _). Ret a)"
    using False by (simp add: x_def message_decode_def)
  moreover have "k - 8 < length bs" using assms(2) False by simp
  then have "if k - 8 \<in> S then r ?buf (length (api_header_bytes b t)) = Panic
      else \<exists>e. r ?buf (length (api_header_bytes b t)) = Err e"
    using assms(1) unfolding field_cut_def by blast
  then have "if k - 8 \<in> S then r ?buf 8 = Panic else \<exists>e. r ?buf 8 = Err e" by (simp only: length_api_header)
  ultimately show ?thesis using False by (auto split: if_splits)
qed

section \<open>The contract of a message\<close>

text \<open>
  A message that the format can carry is written into any buffer large enough and read back, whatever follows it; a
  buffer that is too small is refused untouched; any other message is refused with the error of one of its fields,
  never with a panic.
\<close>

locale api_message =
  fixes encoded_size :: "'m \<Rightarrow> nat"
    and encode :: "'m \<Rightarrow> nat sbe_write"
    and decode :: "bytes \<Rightarrow> 'm reads"
    and message :: "'m \<Rightarrow> bytes"
    and fits :: "'m \<Rightarrow> bool"
  assumes too_small: "length buf < encoded_size m \<Longrightarrow>
      encode m buf = (Err (BufferTooSmall (encoded_size m) (length buf)), buf)"
    and safe: "encoded_size m \<le> length buf \<Longrightarrow> field_outcome (encoded_size m) (length buf) (encode m buf)"
    and writes_fitting: "fits m \<Longrightarrow> writes 0 (encode m) (message m) (encoded_size m)"
    and message_size: "fits m \<Longrightarrow> length (message m) = encoded_size m"
    and decode_fitting: "fits m \<Longrightarrow> decode (message m @ rest) = Ret m"
begin

lemma encode_fits:
  "fits m \<Longrightarrow> encoded_size m \<le> length buf \<Longrightarrow>
    encode m buf = (Ret (encoded_size m), message m @ drop (encoded_size m) buf)"
  using writes_apply [OF writes_fitting, of m buf] by (simp add: message_size)

lemma roundtrip:
  "fits m \<Longrightarrow> encoded_size m \<le> length buf \<Longrightarrow>
    fst (encode m buf) = Ret (encoded_size m) \<and> decode (snd (encode m buf)) = Ret m"
  by (simp add: encode_fits decode_fitting)

lemma never_panics: "fst (encode m buf) \<noteq> Panic"
proof (cases "length buf < encoded_size m")
  case False
  then have "field_outcome (encoded_size m) (length buf) (encode m buf)" by (intro safe) simp
  then show ?thesis by (cases "encode m buf") auto
qed (simp add: too_small)

lemma to_vec: "fits m \<Longrightarrow> encode_to_vec encoded_size encode m = Ret (message m)"
  by (simp add: encode_to_vec_def encode_fits message_size)

lemma to_vec_roundtrip: "fits m \<Longrightarrow> obind (encode_to_vec encoded_size encode m) decode = Ret m"
  using decode_fitting [of m "[]"] by (simp add: to_vec)

lemma to_vec_safe: "encode_to_vec encoded_size encode m \<noteq> Panic"
  using never_panics [of m "replicate (encoded_size m) 0"]
  by (auto simp: encode_to_vec_def split: prod.splits outcome.splits)

end

end
