(* ===== verification/Api_Messages.thy ===== *)
theory Api_Messages
  imports Field_Codec
begin

text \<open>
  The messages of the binary interface, \<open>src/api/sbe/types.rs\<close>: their records, the size, the encoder
  and the decoder of each. \<open>p_fields\<close> lists what the fields of a message with prefix \<open>p\<close> are on the wire, and
  \<open>p_fits\<close> says when the format carries it without loss; every message meets the contract
  \<open>api_message\<close>.
\<close>

section \<open>Enumerations\<close>

datatype venue_type = InternalMM | ExternalMM | DexAggregator | Protocol | RfqProtocol

definition encode_asset_class :: "asset_class \<Rightarrow> u8" where
  "encode_asset_class c = (case c of CryptoSpot \<Rightarrow> 0 | CryptoDerivs \<Rightarrow> 1 | Stock \<Rightarrow> 2 | Forex \<Rightarrow> 3 | Commodity \<Rightarrow> 4)"

definition decode_asset_class :: "u8 \<Rightarrow> asset_class reads" where
  "decode_asset_class v = (if v = 0 then Ret CryptoSpot else if v = 1 then Ret CryptoDerivs
     else if v = 2 then Ret Stock else if v = 3 then Ret Forex else if v = 4 then Ret Commodity
     else Err (InvalidEnumValue v))"

definition encode_rfq_state :: "rfq_state \<Rightarrow> u8" where
  "encode_rfq_state s = (case s of Created \<Rightarrow> 0 | QuoteRequesting \<Rightarrow> 1 | QuotesReceived \<Rightarrow> 2 | ClientSelecting \<Rightarrow> 3
     | Executing \<Rightarrow> 4 | Executed \<Rightarrow> 5 | Failed \<Rightarrow> 6 | Cancelled \<Rightarrow> 7 | Expired \<Rightarrow> 8 | Negotiating \<Rightarrow> 9)"

definition decode_rfq_state :: "u8 \<Rightarrow> rfq_state reads" where
  "decode_rfq_state v = (if v = 0 then Ret Created else if v = 1 then Ret QuoteRequesting
     else if v = 2 then Ret QuotesReceived else if v = 3 then Ret ClientSelecting else if v = 4 then Ret Executing
     else if v = 5 then Ret Executed else if v = 6 then Ret Failed else if v = 7 then Ret Cancelled
     else if v = 8 then Ret Expired else if v = 9 then Ret Negotiating else Err (InvalidEnumValue v))"

definition encode_venue_type :: "venue_type \<Rightarrow> u8" where
  "encode_venue_type t = (case t of InternalMM \<Rightarrow> 0 | ExternalMM \<Rightarrow> 1 | DexAggregator \<Rightarrow> 2 | Protocol \<Rightarrow> 3
     | RfqProtocol \<Rightarrow> 4)"

definition decode_venue_type :: "u8 \<Rightarrow> venue_type reads" where
  "decode_venue_type v = (if v = 0 then Ret InternalMM else if v = 1 then Ret ExternalMM
     else if v = 2 then Ret DexAggregator else if v = 3 then Ret Protocol else if v = 4 then Ret RfqProtocol
     else Err (InvalidEnumValue v))"

lemma reads_side [field_intros]: "field_reads (r_enum decode_order_side) [encode_order_side s] s"
  by (rule reads_enum) simp

lemma reads_class [field_intros]: "field_reads (r_enum decode_asset_class) [encode_asset_class c] c"
  by (rule reads_enum) (cases c, simp_all add: encode_asset_class_def decode_asset_class_def)

lemma reads_state [field_intros]: "field_reads (r_enum decode_rfq_state) [encode_rfq_state s] s"
  by (rule reads_enum) (cases s, simp_all add: encode_rfq_state_def decode_rfq_state_def)

lemma reads_venue_type [field_intros]: "field_reads (r_enum decode_venue_type) [encode_venue_type t] t"
  by (rule reads_enum) (cases t, simp_all add: encode_venue_type_def decode_venue_type_def)

lemma reads_bool [field_intros]: "field_reads (r_enum (\<lambda>b. Ret (b \<noteq> 0))) [if x then 1 else 0] x"
  by (rule reads_enum) simp

lemma reads_record: "a = b \<Longrightarrow> field_reads (r_ret a) [] b"
  by (simp add: reads_ret)

definition var_string_size :: "string \<Rightarrow> nat" where
  "var_string_size s = 4 + length s"

lemma concat_concat_map: "concat (concat (map f xs)) = concat (map (\<lambda>x. concat (f x)) xs)"
  by (induction xs) simp_all

text \<open>A message given by the fields it writes and the reader of their bytes meets the contract.\<close>

lemma api_messageI:
  assumes encode: "\<And>m. encode m = message_encode (needed m) b t (ws m)"
    and decode: "decode = message_decode t r"
    and needed: "\<And>m. needed m = 8 + sum_list (map length (wire m))"
    and safe: "\<And>m. list_all2 field_safe (ws m) (map length (wire m))"
    and "\<And>m. fits m \<Longrightarrow> list_all2 field_writes (ws m) (wire m)"
    and "\<And>m. fits m \<Longrightarrow> field_reads r (concat (wire m)) m"
  shows "api_message needed encode decode (\<lambda>m. api_header_bytes b t @ concat (wire m)) fits"
proof unfold_locales
  fix m buf rest
  show "length buf < needed m \<Longrightarrow> encode m buf = (Err (BufferTooSmall (needed m) (length buf)), buf)"
    by (simp add: encode message_encode_too_small)
  show "needed m \<le> length buf \<Longrightarrow> field_outcome (needed m) (length buf) (encode m buf)"
    unfolding encode by (rule message_encode_safe [OF safe needed])
  show "fits m \<Longrightarrow> writes 0 (encode m) (api_header_bytes b t @ concat (wire m)) (needed m)"
    unfolding encode by (rule writes_message) (simp_all add: assms length_concat)
  show "fits m \<Longrightarrow> length (api_header_bytes b t @ concat (wire m)) = needed m"
    by (simp add: needed length_concat)
  show "fits m \<Longrightarrow> decode ((api_header_bytes b t @ concat (wire m)) @ rest) = Ret m"
    unfolding decode append_assoc by (rule message_decode_bytes) (rule assms)
qed

lemmas field_safe_simps = safe_intros var_string_size_def
lemmas field_writes_simps = field_bytes field_uuid field_decimal field_string field_timestamp field_group
lemmas field_list_unfold = concat_conv_foldr foldr.simps comp_apply id_apply

section \<open>\<open>CreateRfqRequest\<close>\<close>

record 'd create_rfq_message =
  crm_request_id :: uuid
  crm_client_id :: string
  crm_symbol :: string
  crm_base_asset :: string
  crm_quote_asset :: string
  crm_side :: order_side
  crm_quantity :: "'d quantity"
  crm_timeout_seconds :: u64
  crm_asset_class :: asset_class

definition crm_encoded_size :: "'d create_rfq_message \<Rightarrow> nat" where
  "crm_encoded_size m = 8 + 35 + var_string_size (crm_client_id m) + var_string_size (crm_symbol m)
      + var_string_size (crm_base_asset m) + var_string_size (crm_quote_asset m)"

definition crm_encode :: "'d dec \<Rightarrow> 'd create_rfq_message \<Rightarrow> nat sbe_write" where
  "crm_encode D m = message_encode (crm_encoded_size m) 35 20
     [w_uuid (crm_request_id m), w_bytes [encode_order_side (crm_side m)],
      w_decimal D (quantity_get (crm_quantity m)), w_bytes (to_le_bytes (crm_timeout_seconds m)),
      w_bytes [encode_asset_class (crm_asset_class m)], w_string (crm_client_id m),
      w_string (crm_symbol m), w_string (crm_base_asset m), w_string (crm_quote_asset m)]"

definition crm_read :: "'d dec \<Rightarrow> 'd create_rfq_message field_read" where
  "crm_read D =
     r_then r_uuid (\<lambda>request_id.
     r_then (r_enum decode_order_side) (\<lambda>side.
     r_then (r_quantity D ''invalid quantity: {}'') (\<lambda>quantity.
     r_then (r_word 8) (\<lambda>timeout_seconds.
     r_then (r_enum decode_asset_class) (\<lambda>asset_class.
     r_then r_string (\<lambda>client_id.
     r_then r_string (\<lambda>symb.
     r_then r_string (\<lambda>base_asset.
     r_then r_string (\<lambda>quote_asset.
     r_ret \<lparr> crm_request_id = request_id, crm_client_id = client_id, crm_symbol = symb,
      crm_base_asset = base_asset, crm_quote_asset = quote_asset, crm_side = side,
      crm_quantity = quantity, crm_timeout_seconds = timeout_seconds, crm_asset_class = asset_class \<rparr>)))))))))"

definition crm_decode :: "'d dec \<Rightarrow> bytes \<Rightarrow> 'd create_rfq_message reads" where
  "crm_decode D = message_decode 20 (crm_read D)"

definition crm_fits :: "'d dec \<Rightarrow> 'd create_rfq_message \<Rightarrow> bool" where
  "crm_fits D m \<longleftrightarrow> quantity_fits D (crm_quantity m) \<and> str_fits (crm_client_id m) \<and> str_fits (crm_symbol m)
      \<and> str_fits (crm_base_asset m) \<and> str_fits (crm_quote_asset m)"

definition crm_fields :: "'d dec \<Rightarrow> 'd create_rfq_message \<Rightarrow> bytes list" where
  "crm_fields D m =
     [uuid_bytes (crm_request_id m), [encode_order_side (crm_side m)],
      sd_bytes D (quantity_get (crm_quantity m)), to_le_bytes (crm_timeout_seconds m),
      [encode_asset_class (crm_asset_class m)], var_bytes (crm_client_id m),
      var_bytes (crm_symbol m), var_bytes (crm_base_asset m), var_bytes (crm_quote_asset m)]"

definition crm_bytes :: "'d dec \<Rightarrow> 'd create_rfq_message \<Rightarrow> bytes" where
  "crm_bytes D = (\<lambda>m. api_header_bytes 35 20 @ concat (crm_fields D m))"

lemma crm_reads: "crm_fits D m \<Longrightarrow> field_reads (crm_read D) (concat (crm_fields D m)) m"
  unfolding crm_read_def crm_fields_def field_list_unfold
  by (rule reads_then field_intros reads_record | (simp add: crm_fits_def; fail))+

interpretation crm: api_message crm_encoded_size "crm_encode D" "crm_decode D" "crm_bytes D" "crm_fits D" for D
  unfolding crm_bytes_def
  by (rule api_messageI [OF crm_encode_def crm_decode_def _ _ _ crm_reads])
    (simp_all add: crm_fields_def crm_encoded_size_def crm_fits_def field_safe_simps field_writes_simps)

section \<open>\<open>GetRfqRequest\<close>\<close>

record get_rfq_message =
  grr_request_id :: uuid
  grr_rfq_id :: uuid

definition grr_encoded_size :: "get_rfq_message \<Rightarrow> nat" where
  "grr_encoded_size m = 8 + 32"

definition grr_encode :: "get_rfq_message \<Rightarrow> nat sbe_write" where
  "grr_encode m = message_encode (grr_encoded_size m) 32 22
     [w_uuid (grr_request_id m), w_uuid (grr_rfq_id m)]"

definition grr_read :: "get_rfq_message field_read" where
  "grr_read =
     r_then r_uuid (\<lambda>request_id.
     r_then r_uuid (\<lambda>rfq_id.
     r_ret \<lparr> grr_request_id = request_id, grr_rfq_id = rfq_id \<rparr>))"

definition grr_decode :: "bytes \<Rightarrow> get_rfq_message reads" where
  "grr_decode = message_decode 22 grr_read"

definition grr_fits :: "get_rfq_message \<Rightarrow> bool" where
  "grr_fits m \<longleftrightarrow> True"

definition grr_fields :: "get_rfq_message \<Rightarrow> bytes list" where
  "grr_fields m =
     [uuid_bytes (grr_request_id m), uuid_bytes (grr_rfq_id m)]"

definition grr_bytes :: "get_rfq_message \<Rightarrow> bytes" where
  "grr_bytes = (\<lambda>m. api_header_bytes 32 22 @ concat (grr_fields m))"

lemma grr_reads: "grr_fits m \<Longrightarrow> field_reads grr_read (concat (grr_fields m)) m"
  unfolding grr_read_def grr_fields_def field_list_unfold
  by (rule reads_then field_intros reads_record | (simp add: grr_fits_def; fail))+

interpretation grr: api_message grr_encoded_size grr_encode grr_decode grr_bytes grr_fits
  unfolding grr_bytes_def
  by (rule api_messageI [OF grr_encode_def grr_decode_def _ _ _ grr_reads])
    (simp_all add: grr_fields_def grr_encoded_size_def grr_fits_def field_safe_simps field_writes_simps)

section \<open>\<open>ExecuteTradeRequest\<close>\<close>

record execute_trade_message =
  etr_rfq_id :: uuid
  etr_quote_id :: uuid

definition etr_encoded_size :: "execute_trade_message \<Rightarrow> nat" where
  "etr_encoded_size m = 8 + 32"

definition etr_encode :: "execute_trade_message \<Rightarrow> nat sbe_write" where
  "etr_encode m = message_encode (etr_encoded_size m) 32 26
     [w_uuid (etr_rfq_id m), w_uuid (etr_quote_id m)]"

definition etr_read :: "execute_trade_message field_read" where
  "etr_read =
     r_then r_uuid (\<lambda>rfq_id.
     r_then r_uuid (\<lambda>quote_id.
     r_ret \<lparr> etr_rfq_id = rfq_id, etr_quote_id = quote_id \<rparr>))"

definition etr_decode :: "bytes \<Rightarrow> execute_trade_message reads" where
  "etr_decode = message_decode 26 etr_read"

definition etr_fits :: "execute_trade_message \<Rightarrow> bool" where
  "etr_fits m \<longleftrightarrow> True"

definition etr_fields :: "execute_trade_message \<Rightarrow> bytes list" where
  "etr_fields m =
     [uuid_bytes (etr_rfq_id m), uuid_bytes (etr_quote_id m)]"

definition etr_bytes :: "execute_trade_message \<Rightarrow> bytes" where
  "etr_bytes = (\<lambda>m. api_header_bytes 32 26 @ concat (etr_fields m))"

lemma etr_reads: "etr_fits m \<Longrightarrow> field_reads etr_read (concat (etr_fields m)) m"
  unfolding etr_read_def etr_fields_def field_list_unfold
  by (rule reads_then field_intros reads_record | (simp add: etr_fits_def; fail))+

interpretation etr: api_message etr_encoded_size etr_encode etr_decode etr_bytes etr_fits
  unfolding etr_bytes_def
  by (rule api_messageI [OF etr_encode_def etr_decode_def _ _ _ etr_reads])
    (simp_all add: etr_fields_def etr_encoded_size_def etr_fits_def field_safe_simps field_writes_simps)

section \<open>\<open>SubscribeQuotesRequest\<close>\<close>

record subscribe_quotes_message =
  sqr_rfq_id :: uuid

definition sqr_encoded_size :: "subscribe_quotes_message \<Rightarrow> nat" where
  "sqr_encoded_size m = 8 + 16"

definition sqr_encode :: "subscribe_quotes_message \<Rightarrow> nat sbe_write" where
  "sqr_encode m = message_encode (sqr_encoded_size m) 16 30
     [w_uuid (sqr_rfq_id m)]"

definition sqr_read :: "subscribe_quotes_message field_read" where
  "sqr_read =
     r_then r_uuid (\<lambda>rfq_id.
     r_ret \<lparr> sqr_rfq_id = rfq_id \<rparr>)"

definition sqr_decode :: "bytes \<Rightarrow> subscribe_quotes_message reads" where
  "sqr_decode = message_decode 30 sqr_read"

definition sqr_fits :: "subscribe_quotes_message \<Rightarrow> bool" where
  "sqr_fits m \<longleftrightarrow> True"

definition sqr_fields :: "subscribe_quotes_message \<Rightarrow> bytes list" where
  "sqr_fields m =
     [uuid_bytes (sqr_rfq_id m)]"

definition sqr_bytes :: "subscribe_quotes_message \<Rightarrow> bytes" where
  "sqr_bytes = (\<lambda>m. api_header_bytes 16 30 @ concat (sqr_fields m))"

lemma sqr_reads: "sqr_fits m \<Longrightarrow> field_reads sqr_read (concat (sqr_fields m)) m"
  unfolding sqr_read_def sqr_fields_def field_list_unfold
  by (rule reads_then field_intros reads_record | (simp add: sqr_fits_def; fail))+

interpretation sqr: api_message sqr_encoded_size sqr_encode sqr_decode sqr_bytes sqr_fits
  unfolding sqr_bytes_def
  by (rule api_messageI [OF sqr_encode_def sqr_decode_def _ _ _ sqr_reads])
    (simp_all add: sqr_fields_def sqr_encoded_size_def sqr_fits_def field_safe_simps field_writes_simps)

section \<open>\<open>SubscribeRfqStatusRequest\<close>\<close>

record subscribe_status_message =
  ssr_rfq_id :: uuid

definition ssr_encoded_size :: "subscribe_status_message \<Rightarrow> nat" where
  "ssr_encoded_size m = 8 + 16"

definition ssr_encode :: "subscribe_status_message \<Rightarrow> nat sbe_write" where
  "ssr_encode m = message_encode (ssr_encoded_size m) 16 32
     [w_uuid (ssr_rfq_id m)]"

definition ssr_read :: "subscribe_status_message field_read" where
  "ssr_read =
     r_then r_uuid (\<lambda>rfq_id.
     r_ret \<lparr> ssr_rfq_id = rfq_id \<rparr>)"

definition ssr_decode :: "bytes \<Rightarrow> subscribe_status_message reads" where
  "ssr_decode = message_decode 32 ssr_read"

definition ssr_fits :: "subscribe_status_message \<Rightarrow> bool" where
  "ssr_fits m \<longleftrightarrow> True"

definition ssr_fields :: "subscribe_status_message \<Rightarrow> bytes list" where
  "ssr_fields m =
     [uuid_bytes (ssr_rfq_id m)]"

definition ssr_bytes :: "subscribe_status_message \<Rightarrow> bytes" where
  "ssr_bytes = (\<lambda>m. api_header_bytes 16 32 @ concat (ssr_fields m))"

lemma ssr_reads: "ssr_fits m \<Longrightarrow> field_reads ssr_read (concat (ssr_fields m)) m"
  unfolding ssr_read_def ssr_fields_def field_list_unfold
  by (rule reads_then field_intros reads_record | (simp add: ssr_fits_def; fail))+

interpretation ssr: api_message ssr_encoded_size ssr_encode ssr_decode ssr_bytes ssr_fits
  unfolding ssr_bytes_def
  by (rule api_messageI [OF ssr_encode_def ssr_decode_def _ _ _ ssr_reads])
    (simp_all add: ssr_fields_def ssr_encoded_size_def ssr_fits_def field_safe_simps field_writes_simps)

section \<open>\<open>UnsubscribeRequest\<close>\<close>

record unsubscribe_message =
  unr_rfq_id :: uuid

definition unr_encoded_size :: "unsubscribe_message \<Rightarrow> nat" where
  "unr_encoded_size m = 8 + 16"

definition unr_encode :: "unsubscribe_message \<Rightarrow> nat sbe_write" where
  "unr_encode m = message_encode (unr_encoded_size m) 16 40
     [w_uuid (unr_rfq_id m)]"

definition unr_read :: "unsubscribe_message field_read" where
  "unr_read =
     r_then r_uuid (\<lambda>rfq_id.
     r_ret \<lparr> unr_rfq_id = rfq_id \<rparr>)"

definition unr_decode :: "bytes \<Rightarrow> unsubscribe_message reads" where
  "unr_decode = message_decode 40 unr_read"

definition unr_fits :: "unsubscribe_message \<Rightarrow> bool" where
  "unr_fits m \<longleftrightarrow> True"

definition unr_fields :: "unsubscribe_message \<Rightarrow> bytes list" where
  "unr_fields m =
     [uuid_bytes (unr_rfq_id m)]"

definition unr_bytes :: "unsubscribe_message \<Rightarrow> bytes" where
  "unr_bytes = (\<lambda>m. api_header_bytes 16 40 @ concat (unr_fields m))"

lemma unr_reads: "unr_fits m \<Longrightarrow> field_reads unr_read (concat (unr_fields m)) m"
  unfolding unr_read_def unr_fields_def field_list_unfold
  by (rule reads_then field_intros reads_record | (simp add: unr_fits_def; fail))+

interpretation unr: api_message unr_encoded_size unr_encode unr_decode unr_bytes unr_fits
  unfolding unr_bytes_def
  by (rule api_messageI [OF unr_encode_def unr_decode_def _ _ _ unr_reads])
    (simp_all add: unr_fields_def unr_encoded_size_def unr_fits_def field_safe_simps field_writes_simps)

section \<open>\<open>CancelRfqRequest\<close>\<close>

record cancel_rfq_message =
  cnr_request_id :: uuid
  cnr_rfq_id :: uuid
  cnr_reason :: string

definition cnr_encoded_size :: "cancel_rfq_message \<Rightarrow> nat" where
  "cnr_encoded_size m = 8 + 32 + var_string_size (cnr_reason m)"

definition cnr_encode :: "cancel_rfq_message \<Rightarrow> nat sbe_write" where
  "cnr_encode m = message_encode (cnr_encoded_size m) 32 24
     [w_uuid (cnr_request_id m), w_uuid (cnr_rfq_id m), w_string (cnr_reason m)]"

definition cnr_read :: "cancel_rfq_message field_read" where
  "cnr_read =
     r_then r_uuid (\<lambda>request_id.
     r_then r_uuid (\<lambda>rfq_id.
     r_then r_string (\<lambda>reason.
     r_ret \<lparr> cnr_request_id = request_id, cnr_rfq_id = rfq_id, cnr_reason = reason \<rparr>)))"

definition cnr_decode :: "bytes \<Rightarrow> cancel_rfq_message reads" where
  "cnr_decode = message_decode 24 cnr_read"

definition cnr_fits :: "cancel_rfq_message \<Rightarrow> bool" where
  "cnr_fits m \<longleftrightarrow> str_fits (cnr_reason m)"

definition cnr_fields :: "cancel_rfq_message \<Rightarrow> bytes list" where
  "cnr_fields m =
     [uuid_bytes (cnr_request_id m), uuid_bytes (cnr_rfq_id m), var_bytes (cnr_reason m)]"

definition cnr_bytes :: "cancel_rfq_message \<Rightarrow> bytes" where
  "cnr_bytes = (\<lambda>m. api_header_bytes 32 24 @ concat (cnr_fields m))"

lemma cnr_reads: "cnr_fits m \<Longrightarrow> field_reads cnr_read (concat (cnr_fields m)) m"
  unfolding cnr_read_def cnr_fields_def field_list_unfold
  by (rule reads_then field_intros reads_record | (simp add: cnr_fits_def; fail))+

interpretation cnr: api_message cnr_encoded_size cnr_encode cnr_decode cnr_bytes cnr_fits
  unfolding cnr_bytes_def
  by (rule api_messageI [OF cnr_encode_def cnr_decode_def _ _ _ cnr_reads])
    (simp_all add: cnr_fields_def cnr_encoded_size_def cnr_fits_def field_safe_simps field_writes_simps)

section \<open>\<open>RfqResponse\<close>\<close>

record 'd rfq_quote_entry =
  rqe_quote_id :: uuid
  rqe_price :: "'d price"
  rqe_quantity :: "'d quantity"
  rqe_commission :: 'd
  rqe_valid_until :: timestamp
  rqe_created_at :: timestamp
  rqe_venue_type :: venue_type
  rqe_venue_id :: string

text \<open>The template distinguishes the responses to the creation, the query and the cancellation of an RFQ.\<close>

record 'd rfq_response =
  rrs_request_id :: uuid
  rrs_rfq_id :: uuid
  rrs_side :: order_side
  rrs_quantity :: "'d quantity"
  rrs_state :: rfq_state
  rrs_expires_at :: timestamp
  rrs_created_at :: timestamp
  rrs_updated_at :: timestamp
  rrs_asset_class :: asset_class
  rrs_selected_quote_id :: uuid
  rrs_quotes :: "'d rfq_quote_entry list"
  rrs_client_id :: string
  rrs_symbol :: string
  rrs_base_asset :: string
  rrs_quote_asset :: string

definition rrs_encoded_size :: "'d rfq_response \<Rightarrow> nat" where
  "rrs_encoded_size m = 8 + 84 + 4 + (\<Sum>q\<leftarrow>rrs_quotes m. 60 + var_string_size (rqe_venue_id q))
      + var_string_size (rrs_client_id m) + var_string_size (rrs_symbol m)
      + var_string_size (rrs_base_asset m) + var_string_size (rrs_quote_asset m)"

definition rqe_writers :: "'d dec \<Rightarrow> 'd rfq_quote_entry \<Rightarrow> field_write list" where
  "rqe_writers D q =
     [w_uuid (rqe_quote_id q), w_decimal D (price_get (rqe_price q)),
      w_decimal D (quantity_get (rqe_quantity q)), w_decimal D (rqe_commission q),
      w_timestamp (rqe_valid_until q) ''valid_until'', w_timestamp (rqe_created_at q) ''quote created_at'',
      w_bytes [encode_venue_type (rqe_venue_type q)], w_string (rqe_venue_id q)]"

definition rrs_writers :: "'d dec \<Rightarrow> 'd rfq_response \<Rightarrow> field_write list" where
  "rrs_writers D m =
     [w_uuid (rrs_request_id m), w_uuid (rrs_rfq_id m), w_bytes [encode_order_side (rrs_side m)],
      w_decimal D (quantity_get (rrs_quantity m)), w_bytes [encode_rfq_state (rrs_state m)],
      w_timestamp (rrs_expires_at m) ''expires_at'', w_timestamp (rrs_created_at m) ''created_at'',
      w_timestamp (rrs_updated_at m) ''updated_at'', w_bytes [encode_asset_class (rrs_asset_class m)],
      w_uuid (rrs_selected_quote_id m), w_group_header 60 (length (rrs_quotes m))]
     @ concat (map (rqe_writers D) (rrs_quotes m))
     @ [w_string (rrs_client_id m), w_string (rrs_symbol m), w_string (rrs_base_asset m),
        w_string (rrs_quote_asset m)]"

definition rrs_encode :: "'d dec \<Rightarrow> u16 \<Rightarrow> 'd rfq_response \<Rightarrow> nat sbe_write" where
  "rrs_encode D template m = message_encode (rrs_encoded_size m) 84 template (rrs_writers D m)"

definition rqe_read :: "'d dec \<Rightarrow> 'd rfq_quote_entry field_read" where
  "rqe_read D =
     r_then r_uuid (\<lambda>quote_id.
     r_then (r_price D ''invalid quote price: {}'') (\<lambda>price.
     r_then (r_quantity D ''invalid quote quantity: {}'') (\<lambda>quantity.
     r_then (r_decimal D) (\<lambda>commission.
     r_then (r_timestamp ''validUntil out of range'') (\<lambda>valid_until.
     r_then (r_timestamp ''quote createdAt out of range'') (\<lambda>created_at.
     r_then (r_enum decode_venue_type) (\<lambda>venue_type.
     r_then r_string (\<lambda>venue_id.
     r_ret \<lparr> rqe_quote_id = quote_id, rqe_price = price, rqe_quantity = quantity, rqe_commission = commission,
       rqe_valid_until = valid_until, rqe_created_at = created_at, rqe_venue_type = venue_type,
       rqe_venue_id = venue_id \<rparr>))))))))"

definition rrs_read :: "'d dec \<Rightarrow> 'd rfq_response field_read" where
  "rrs_read D =
     r_then r_uuid (\<lambda>request_id.
     r_then r_uuid (\<lambda>rfq_id.
     r_then (r_enum decode_order_side) (\<lambda>side.
     r_then (r_quantity D ''invalid quantity: {}'') (\<lambda>quantity.
     r_then (r_enum decode_rfq_state) (\<lambda>state.
     r_then (r_timestamp ''expiresAt out of range'') (\<lambda>expires_at.
     r_then (r_timestamp ''createdAt out of range'') (\<lambda>created_at.
     r_then (r_timestamp ''updatedAt out of range'') (\<lambda>updated_at.
     r_then (r_enum decode_asset_class) (\<lambda>asset_class.
     r_then r_uuid (\<lambda>selected_quote_id.
     r_then (r_group_header 60) (\<lambda>quote_count.
     r_then (r_many (rqe_read D) quote_count) (\<lambda>quotes.
     r_then r_string (\<lambda>client_id.
     r_then r_string (\<lambda>symb.
     r_then r_string (\<lambda>base_asset.
     r_then r_string (\<lambda>quote_asset.
     r_ret \<lparr> rrs_request_id = request_id, rrs_rfq_id = rfq_id, rrs_side = side, rrs_quantity = quantity,
       rrs_state = state, rrs_expires_at = expires_at, rrs_created_at = created_at, rrs_updated_at = updated_at,
       rrs_asset_class = asset_class, rrs_selected_quote_id = selected_quote_id, rrs_quotes = quotes,
       rrs_client_id = client_id, rrs_symbol = symb, rrs_base_asset = base_asset,
       rrs_quote_asset = quote_asset \<rparr>))))))))))))))))"

definition rrs_decode :: "'d dec \<Rightarrow> u16 \<Rightarrow> bytes \<Rightarrow> 'd rfq_response reads" where
  "rrs_decode D template = message_decode template (rrs_read D)"

definition rqe_fits :: "'d dec \<Rightarrow> 'd rfq_quote_entry \<Rightarrow> bool" where
  "rqe_fits D q \<longleftrightarrow> price_fits D (rqe_price q) \<and> quantity_fits D (rqe_quantity q) \<and> dec_fits D (rqe_commission q)
      \<and> ts_encodable (rqe_valid_until q) \<and> ts_encodable (rqe_created_at q) \<and> str_fits (rqe_venue_id q)"

definition rrs_fits :: "'d dec \<Rightarrow> 'd rfq_response \<Rightarrow> bool" where
  "rrs_fits D m \<longleftrightarrow> quantity_fits D (rrs_quantity m) \<and> ts_encodable (rrs_expires_at m)
      \<and> ts_encodable (rrs_created_at m) \<and> ts_encodable (rrs_updated_at m) \<and> length (rrs_quotes m) < 2 ^ 16
      \<and> list_all (rqe_fits D) (rrs_quotes m) \<and> str_fits (rrs_client_id m) \<and> str_fits (rrs_symbol m)
      \<and> str_fits (rrs_base_asset m) \<and> str_fits (rrs_quote_asset m)"

definition rqe_fields :: "'d dec \<Rightarrow> 'd rfq_quote_entry \<Rightarrow> bytes list" where
  "rqe_fields D q =
     [uuid_bytes (rqe_quote_id q), sd_bytes D (price_get (rqe_price q)), sd_bytes D (quantity_get (rqe_quantity q)),
      sd_bytes D (rqe_commission q), ts_bytes (rqe_valid_until q), ts_bytes (rqe_created_at q),
      [encode_venue_type (rqe_venue_type q)], var_bytes (rqe_venue_id q)]"

definition rrs_head :: "'d dec \<Rightarrow> 'd rfq_response \<Rightarrow> bytes list" where
  "rrs_head D m =
     [uuid_bytes (rrs_request_id m), uuid_bytes (rrs_rfq_id m), [encode_order_side (rrs_side m)],
      sd_bytes D (quantity_get (rrs_quantity m)), [encode_rfq_state (rrs_state m)], ts_bytes (rrs_expires_at m),
      ts_bytes (rrs_created_at m), ts_bytes (rrs_updated_at m), [encode_asset_class (rrs_asset_class m)],
      uuid_bytes (rrs_selected_quote_id m), group_bytes 60 (length (rrs_quotes m))]"

definition rrs_tail :: "'d rfq_response \<Rightarrow> bytes list" where
  "rrs_tail m = [var_bytes (rrs_client_id m), var_bytes (rrs_symbol m), var_bytes (rrs_base_asset m),
     var_bytes (rrs_quote_asset m)]"

definition rrs_fields :: "'d dec \<Rightarrow> 'd rfq_response \<Rightarrow> bytes list" where
  "rrs_fields D m = rrs_head D m @ concat (map (rqe_fields D) (rrs_quotes m)) @ rrs_tail m"

definition rrs_bytes :: "'d dec \<Rightarrow> u16 \<Rightarrow> 'd rfq_response \<Rightarrow> bytes" where
  "rrs_bytes D template = (\<lambda>m. api_header_bytes 84 template @ concat (rrs_fields D m))"

lemma rqe_reads: "rqe_fits D q \<Longrightarrow> field_reads (rqe_read D) (concat (rqe_fields D q)) q"
  unfolding rqe_read_def rqe_fields_def field_list_unfold
  by (rule reads_then field_intros reads_record | (simp add: rqe_fits_def; fail))+

lemma rqe_size: "sum_list (map length (rqe_fields D q)) = 60 + var_string_size (rqe_venue_id q)"
  by (simp add: rqe_fields_def var_string_size_def)

lemma rqe_safe: "list_all2 field_safe (concat (map (rqe_writers D) qs)) (map length (concat (map (rqe_fields D) qs)))"
proof (induction qs)
  case (Cons q qs)
  have "list_all2 field_safe (rqe_writers D q) (map length (rqe_fields D q))"
    by (simp add: rqe_writers_def rqe_fields_def field_safe_simps)
  then show ?case using Cons by (simp add: list_all2_appendI)
qed simp

lemma rqe_writes:
  "list_all (rqe_fits D) qs \<Longrightarrow>
    list_all2 field_writes (concat (map (rqe_writers D) qs)) (concat (map (rqe_fields D) qs))"
proof (induction qs)
  case (Cons q qs)
  then have "list_all2 field_writes (rqe_writers D q) (rqe_fields D q)"
    by (simp add: rqe_writers_def rqe_fields_def rqe_fits_def field_writes_simps)
  then show ?case using Cons by (simp add: list_all2_appendI)
qed simp

lemma rrs_reads:
  assumes "rrs_fits D m"
  shows "field_reads (rrs_read D) (concat (rrs_fields D m)) m"
proof -
  let ?qs = "concat (map (\<lambda>q. concat (rqe_fields D q)) (rrs_quotes m))"
  have quotes: "field_reads (r_many (rqe_read D) (length (rrs_quotes m))) ?qs (rrs_quotes m)"
    using assms by (intro reads_many) (auto simp: list_all2_conv_all_nth rrs_fits_def list_all_length rqe_reads)
  have "concat (rrs_fields D m) = foldr (@) (rrs_head D m) (?qs @ foldr (@) (rrs_tail m) [])"
    by (simp add: rrs_fields_def rrs_head_def rrs_tail_def concat_concat_map)
  then show ?thesis
    unfolding rrs_read_def rrs_head_def rrs_tail_def foldr.simps comp_apply id_apply
    by (elim ssubst)
      (rule reads_then quotes field_intros reads_record | (use assms in \<open>simp add: rrs_fits_def; fail\<close>))+
qed

interpretation rrs: api_message rrs_encoded_size "rrs_encode D template" "rrs_decode D template" "rrs_bytes D template"
    "rrs_fits D" for D template
  unfolding rrs_bytes_def
proof (rule api_messageI [OF rrs_encode_def rrs_decode_def _ _ _ rrs_reads])
  fix m :: "'a rfq_response"
  have "sum_list (map length (concat (map (rqe_fields D) qs))) = (\<Sum>q\<leftarrow>qs. 60 + var_string_size (rqe_venue_id q))"
    for qs
    by (induction qs) (simp_all add: rqe_size)
  then show "rrs_encoded_size m = 8 + sum_list (map length (rrs_fields D m))"
    by (simp add: rrs_encoded_size_def rrs_fields_def rrs_head_def rrs_tail_def var_string_size_def)
  show "list_all2 field_safe (rrs_writers D m) (map length (rrs_fields D m))"
    unfolding rrs_writers_def rrs_fields_def map_append
    by (intro list_all2_appendI rqe_safe) (simp_all add: rrs_head_def rrs_tail_def field_safe_simps)
  show "rrs_fits D m \<Longrightarrow> list_all2 field_writes (rrs_writers D m) (rrs_fields D m)"
    unfolding rrs_writers_def rrs_fields_def
    by (intro list_all2_appendI rqe_writes) (simp_all add: rrs_head_def rrs_tail_def rrs_fits_def field_writes_simps)
qed

section \<open>\<open>ExecuteTradeResponse\<close>\<close>

record 'd execute_trade_reply =
  ets_trade_id :: uuid
  ets_rfq_id :: uuid
  ets_quote_id :: uuid
  ets_price :: "'d price"
  ets_quantity :: "'d quantity"
  ets_created_at :: timestamp
  ets_venue_id :: string
  ets_venue_execution_ref :: string

definition ets_encoded_size :: "'d execute_trade_reply \<Rightarrow> nat" where
  "ets_encoded_size m = 8 + 74 + var_string_size (ets_venue_id m)
      + var_string_size (ets_venue_execution_ref m)"

definition ets_encode :: "'d dec \<Rightarrow> 'd execute_trade_reply \<Rightarrow> nat sbe_write" where
  "ets_encode D m = message_encode (ets_encoded_size m) 74 27
     [w_uuid (ets_trade_id m), w_uuid (ets_rfq_id m), w_uuid (ets_quote_id m),
      w_decimal D (price_get (ets_price m)), w_decimal D (quantity_get (ets_quantity m)),
      w_timestamp (ets_created_at m) ''created_at'', w_string (ets_venue_id m),
      w_string (ets_venue_execution_ref m)]"

definition ets_read :: "'d dec \<Rightarrow> 'd execute_trade_reply field_read" where
  "ets_read D =
     r_then r_uuid (\<lambda>trade_id.
     r_then r_uuid (\<lambda>rfq_id.
     r_then r_uuid (\<lambda>quote_id.
     r_then (r_price D ''invalid price: {}'') (\<lambda>price.
     r_then (r_quantity D ''invalid quantity: {}'') (\<lambda>quantity.
     r_then (r_timestamp ''timestamp out of range'') (\<lambda>created_at.
     r_then r_string (\<lambda>venue_id.
     r_then r_string (\<lambda>venue_execution_ref.
     r_ret \<lparr> ets_trade_id = trade_id, ets_rfq_id = rfq_id, ets_quote_id = quote_id, ets_price = price,
      ets_quantity = quantity, ets_created_at = created_at, ets_venue_id = venue_id,
      ets_venue_execution_ref = venue_execution_ref \<rparr>))))))))"

definition ets_decode :: "'d dec \<Rightarrow> bytes \<Rightarrow> 'd execute_trade_reply reads" where
  "ets_decode D = message_decode 27 (ets_read D)"

definition ets_fits :: "'d dec \<Rightarrow> 'd execute_trade_reply \<Rightarrow> bool" where
  "ets_fits D m \<longleftrightarrow> price_fits D (ets_price m) \<and> quantity_fits D (ets_quantity m)
      \<and> ts_encodable (ets_created_at m) \<and> str_fits (ets_venue_id m)
      \<and> str_fits (ets_venue_execution_ref m)"

definition ets_fields :: "'d dec \<Rightarrow> 'd execute_trade_reply \<Rightarrow> bytes list" where
  "ets_fields D m =
     [uuid_bytes (ets_trade_id m), uuid_bytes (ets_rfq_id m), uuid_bytes (ets_quote_id m),
      sd_bytes D (price_get (ets_price m)), sd_bytes D (quantity_get (ets_quantity m)),
      ts_bytes (ets_created_at m), var_bytes (ets_venue_id m), var_bytes (ets_venue_execution_ref m)]"

definition ets_bytes :: "'d dec \<Rightarrow> 'd execute_trade_reply \<Rightarrow> bytes" where
  "ets_bytes D = (\<lambda>m. api_header_bytes 74 27 @ concat (ets_fields D m))"

lemma ets_reads: "ets_fits D m \<Longrightarrow> field_reads (ets_read D) (concat (ets_fields D m)) m"
  unfolding ets_read_def ets_fields_def field_list_unfold
  by (rule reads_then field_intros reads_record | (simp add: ets_fits_def; fail))+

interpretation ets: api_message ets_encoded_size "ets_encode D" "ets_decode D" "ets_bytes D" "ets_fits D" for D
  unfolding ets_bytes_def
  by (rule api_messageI [OF ets_encode_def ets_decode_def _ _ _ ets_reads])
    (simp_all add: ets_fields_def ets_encoded_size_def ets_fits_def field_safe_simps field_writes_simps)

section \<open>\<open>QuoteUpdate\<close>\<close>

record 'd quote_update =
  qup_quote_id :: uuid
  qup_rfq_id :: uuid
  qup_price :: "'d price"
  qup_quantity :: "'d quantity"
  qup_commission :: "'d"
  qup_valid_until :: timestamp
  qup_created_at :: timestamp
  qup_venue_type :: venue_type
  qup_is_final :: bool
  qup_venue_id :: string

definition qup_encoded_size :: "'d quote_update \<Rightarrow> nat" where
  "qup_encoded_size m = 8 + 77 + var_string_size (qup_venue_id m)"

definition qup_encode :: "'d dec \<Rightarrow> 'd quote_update \<Rightarrow> nat sbe_write" where
  "qup_encode D m = message_encode (qup_encoded_size m) 77 31
     [w_uuid (qup_quote_id m), w_uuid (qup_rfq_id m), w_decimal D (price_get (qup_price m)),
      w_decimal D (quantity_get (qup_quantity m)), w_decimal D (qup_commission m),
      w_timestamp (qup_valid_until m) ''valid_until'',
      w_timestamp (qup_created_at m) ''created_at'',
      w_bytes [encode_venue_type (qup_venue_type m)], w_bytes [if qup_is_final m then 1 else 0],
      w_string (qup_venue_id m)]"

definition qup_read :: "'d dec \<Rightarrow> 'd quote_update field_read" where
  "qup_read D =
     r_then r_uuid (\<lambda>quote_id.
     r_then r_uuid (\<lambda>rfq_id.
     r_then (r_price D ''invalid price: {}'') (\<lambda>price.
     r_then (r_quantity D ''invalid quantity: {}'') (\<lambda>quantity.
     r_then (r_decimal D) (\<lambda>commission.
     r_then (r_timestamp ''timestamp out of range'') (\<lambda>valid_until.
     r_then (r_timestamp ''timestamp out of range'') (\<lambda>created_at.
     r_then (r_enum decode_venue_type) (\<lambda>venue_type.
     r_then (r_enum (\<lambda>b. Ret (b \<noteq> 0))) (\<lambda>is_final.
     r_then r_string (\<lambda>venue_id.
     r_ret \<lparr> qup_quote_id = quote_id, qup_rfq_id = rfq_id, qup_price = price, qup_quantity = quantity,
      qup_commission = commission, qup_valid_until = valid_until, qup_created_at = created_at,
      qup_venue_type = venue_type, qup_is_final = is_final, qup_venue_id = venue_id \<rparr>))))))))))"

definition qup_decode :: "'d dec \<Rightarrow> bytes \<Rightarrow> 'd quote_update reads" where
  "qup_decode D = message_decode 31 (qup_read D)"

definition qup_fits :: "'d dec \<Rightarrow> 'd quote_update \<Rightarrow> bool" where
  "qup_fits D m \<longleftrightarrow> price_fits D (qup_price m) \<and> quantity_fits D (qup_quantity m)
      \<and> dec_fits D (qup_commission m) \<and> ts_encodable (qup_valid_until m)
      \<and> ts_encodable (qup_created_at m) \<and> str_fits (qup_venue_id m)"

definition qup_fields :: "'d dec \<Rightarrow> 'd quote_update \<Rightarrow> bytes list" where
  "qup_fields D m =
     [uuid_bytes (qup_quote_id m), uuid_bytes (qup_rfq_id m), sd_bytes D (price_get (qup_price m)),
      sd_bytes D (quantity_get (qup_quantity m)), sd_bytes D (qup_commission m),
      ts_bytes (qup_valid_until m), ts_bytes (qup_created_at m),
      [encode_venue_type (qup_venue_type m)], [if qup_is_final m then 1 else 0],
      var_bytes (qup_venue_id m)]"

definition qup_bytes :: "'d dec \<Rightarrow> 'd quote_update \<Rightarrow> bytes" where
  "qup_bytes D = (\<lambda>m. api_header_bytes 77 31 @ concat (qup_fields D m))"

lemma qup_reads: "qup_fits D m \<Longrightarrow> field_reads (qup_read D) (concat (qup_fields D m)) m"
  unfolding qup_read_def qup_fields_def field_list_unfold
  by (rule reads_then field_intros reads_record | (simp add: qup_fits_def; fail))+

interpretation qup: api_message qup_encoded_size "qup_encode D" "qup_decode D" "qup_bytes D" "qup_fits D" for D
  unfolding qup_bytes_def
  by (rule api_messageI [OF qup_encode_def qup_decode_def _ _ _ qup_reads])
    (simp_all add: qup_fields_def qup_encoded_size_def qup_fits_def field_safe_simps field_writes_simps)

section \<open>\<open>RfqStatusUpdate\<close>\<close>

record rfq_status_update =
  rsu_rfq_id :: uuid
  rsu_previous_state :: rfq_state
  rsu_current_state :: rfq_state
  rsu_timestamp :: timestamp
  rsu_message :: string

definition rsu_encoded_size :: "rfq_status_update \<Rightarrow> nat" where
  "rsu_encoded_size m = 8 + 26 + var_string_size (rsu_message m)"

definition rsu_encode :: "rfq_status_update \<Rightarrow> nat sbe_write" where
  "rsu_encode m = message_encode (rsu_encoded_size m) 26 33
     [w_uuid (rsu_rfq_id m), w_bytes [encode_rfq_state (rsu_previous_state m)],
      w_bytes [encode_rfq_state (rsu_current_state m)],
      w_timestamp (rsu_timestamp m) ''timestamp'', w_string (rsu_message m)]"

definition rsu_read :: "rfq_status_update field_read" where
  "rsu_read =
     r_then r_uuid (\<lambda>rfq_id.
     r_then (r_enum decode_rfq_state) (\<lambda>previous_state.
     r_then (r_enum decode_rfq_state) (\<lambda>current_state.
     r_then (r_timestamp ''timestamp out of range'') (\<lambda>timestamp.
     r_then r_string (\<lambda>message.
     r_ret \<lparr> rsu_rfq_id = rfq_id, rsu_previous_state = previous_state, rsu_current_state = current_state,
      rsu_timestamp = timestamp, rsu_message = message \<rparr>)))))"

definition rsu_decode :: "bytes \<Rightarrow> rfq_status_update reads" where
  "rsu_decode = message_decode 33 rsu_read"

definition rsu_fits :: "rfq_status_update \<Rightarrow> bool" where
  "rsu_fits m \<longleftrightarrow> ts_encodable (rsu_timestamp m) \<and> str_fits (rsu_message m)"

definition rsu_fields :: "rfq_status_update \<Rightarrow> bytes list" where
  "rsu_fields m =
     [uuid_bytes (rsu_rfq_id m), [encode_rfq_state (rsu_previous_state m)],
      [encode_rfq_state (rsu_current_state m)], ts_bytes (rsu_timestamp m),
      var_bytes (rsu_message m)]"

definition rsu_bytes :: "rfq_status_update \<Rightarrow> bytes" where
  "rsu_bytes = (\<lambda>m. api_header_bytes 26 33 @ concat (rsu_fields m))"

lemma rsu_reads: "rsu_fits m \<Longrightarrow> field_reads rsu_read (concat (rsu_fields m)) m"
  unfolding rsu_read_def rsu_fields_def field_list_unfold
  by (rule reads_then field_intros reads_record | (simp add: rsu_fits_def; fail))+

interpretation rsu: api_message rsu_encoded_size rsu_encode rsu_decode rsu_bytes rsu_fits
  unfolding rsu_bytes_def
  by (rule api_messageI [OF rsu_encode_def rsu_decode_def _ _ _ rsu_reads])
    (simp_all add: rsu_fields_def rsu_encoded_size_def rsu_fits_def field_safe_simps field_writes_simps)

section \<open>\<open>ErrorResponse\<close>\<close>

record error_reply =
  ers_request_id :: uuid
  ers_rfq_id :: uuid
  ers_code :: u32
  ers_message :: string
  ers_metadata :: string

definition ers_encoded_size :: "error_reply \<Rightarrow> nat" where
  "ers_encoded_size m = 8 + 36 + var_string_size (ers_message m) + var_string_size (ers_metadata m)"

definition ers_encode :: "error_reply \<Rightarrow> nat sbe_write" where
  "ers_encode m = message_encode (ers_encoded_size m) 36 50
     [w_uuid (ers_request_id m), w_uuid (ers_rfq_id m), w_bytes (to_le_bytes (ers_code m)),
      w_string (ers_message m), w_string (ers_metadata m)]"

definition ers_read :: "error_reply field_read" where
  "ers_read =
     r_then r_uuid (\<lambda>request_id.
     r_then r_uuid (\<lambda>rfq_id.
     r_then (r_word 4) (\<lambda>code.
     r_then r_string (\<lambda>message.
     r_then r_string (\<lambda>metadata.
     r_ret \<lparr> ers_request_id = request_id, ers_rfq_id = rfq_id, ers_code = code, ers_message = message,
      ers_metadata = metadata \<rparr>)))))"

definition ers_decode :: "bytes \<Rightarrow> error_reply reads" where
  "ers_decode = message_decode 50 ers_read"

definition ers_fits :: "error_reply \<Rightarrow> bool" where
  "ers_fits m \<longleftrightarrow> str_fits (ers_message m) \<and> str_fits (ers_metadata m)"

definition ers_fields :: "error_reply \<Rightarrow> bytes list" where
  "ers_fields m =
     [uuid_bytes (ers_request_id m), uuid_bytes (ers_rfq_id m), to_le_bytes (ers_code m),
      var_bytes (ers_message m), var_bytes (ers_metadata m)]"

definition ers_bytes :: "error_reply \<Rightarrow> bytes" where
  "ers_bytes = (\<lambda>m. api_header_bytes 36 50 @ concat (ers_fields m))"

lemma ers_reads: "ers_fits m \<Longrightarrow> field_reads ers_read (concat (ers_fields m)) m"
  unfolding ers_read_def ers_fields_def field_list_unfold
  by (rule reads_then field_intros reads_record | (simp add: ers_fits_def; fail))+

interpretation ers: api_message ers_encoded_size ers_encode ers_decode ers_bytes ers_fits
  unfolding ers_bytes_def
  by (rule api_messageI [OF ers_encode_def ers_decode_def _ _ _ ers_reads])
    (simp_all add: ers_fields_def ers_encoded_size_def ers_fits_def field_safe_simps field_writes_simps)

section \<open>Properties\<close>

lemma crm_cut: "crm_fits D m \<Longrightarrow> field_cut (crm_read D) (concat (crm_fields D m)) {16, 34}"
  unfolding crm_read_def crm_fields_def field_list_unfold
  by (rule cut_then cut_ret cut_intros field_intros | (simp add: crm_fits_def str_fits_def; fail) | auto)+

lemma crm_panics_at:
  assumes "crm_fits D m" "k < crm_encoded_size m"
  shows "if k \<in> {24, 42} then crm_decode D (take k (crm_bytes D m)) = Panic
    else \<exists>e. crm_decode D (take k (crm_bytes D m)) = Err e"
proof -
  have "8 + length (concat (crm_fields D m)) = crm_encoded_size m"
    using crm.message_size [OF assms(1)] by (simp add: crm_bytes_def)
  then show ?thesis
    using message_decode_cut [OF crm_cut [OF assms(1)], of k 20 35] assms(2)
    by (auto simp: crm_decode_def crm_bytes_def split: if_splits)
qed

lemma cut_requests:
  "field_cut grr_read (concat (grr_fields g)) {}"
  "field_cut etr_read (concat (etr_fields x)) {}"
  "cnr_fits c \<Longrightarrow> field_cut cnr_read (concat (cnr_fields c)) {}"
  unfolding grr_read_def grr_fields_def etr_read_def etr_fields_def cnr_read_def cnr_fields_def cnr_fits_def field_list_unfold
  by (rule cut_then cut_ret cut_intros field_intros | (simp add: str_fits_def; fail))+

lemma requests_cut:
  "k < grr_encoded_size g \<Longrightarrow> \<exists>e. grr_decode (take k (grr_bytes g)) = Err e"
  "k < etr_encoded_size x \<Longrightarrow> \<exists>e. etr_decode (take k (etr_bytes x)) = Err e"
  "cnr_fits c \<Longrightarrow> k < cnr_encoded_size c \<Longrightarrow> \<exists>e. cnr_decode (take k (cnr_bytes c)) = Err e"
proof -
  have g: "8 + length (concat (grr_fields g)) = grr_encoded_size g"
    using grr.message_size [of g] by (simp add: grr_bytes_def grr_fits_def)
  show "k < grr_encoded_size g \<Longrightarrow> \<exists>e. grr_decode (take k (grr_bytes g)) = Err e"
    using message_decode_cut [OF cut_requests(1), of k g 22 32] g by (simp add: grr_decode_def grr_bytes_def)
  have x: "8 + length (concat (etr_fields x)) = etr_encoded_size x"
    using etr.message_size [of x] by (simp add: etr_bytes_def etr_fits_def)
  show "k < etr_encoded_size x \<Longrightarrow> \<exists>e. etr_decode (take k (etr_bytes x)) = Err e"
    using message_decode_cut [OF cut_requests(2), of k x 26 32] x by (simp add: etr_decode_def etr_bytes_def)
  assume c: "cnr_fits c"
  then have "8 + length (concat (cnr_fields c)) = cnr_encoded_size c"
    using cnr.message_size [of c] by (simp add: cnr_bytes_def)
  then show "k < cnr_encoded_size c \<Longrightarrow> \<exists>e. cnr_decode (take k (cnr_bytes c)) = Err e"
    using message_decode_cut [OF cut_requests(3) [OF c], of k 24 32] by (simp add: cnr_decode_def cnr_bytes_def)
qed

text \<open>
  C33. Round trip of the response that describes an RFQ with all its quotes, for each of the three templates: into
  any buffer of at least the encoded size \<open>encode\<close> succeeds with that size, and \<open>decode\<close> of the buffer, whatever
  follows the message, gives the response back, when its numbers, times and texts fit the format and it has less
  than 65536 quotes.
\<close>
theorem rfq_response_roundtrip:
  assumes "rrs_fits D m" "rrs_encoded_size m \<le> length buf"
  shows "fst (rrs_encode D template m buf) = Ret (rrs_encoded_size m)
    \<and> rrs_decode D template (snd (rrs_encode D template m buf)) = Ret m"
  by (rule rrs.roundtrip [OF assms])

definition sample_entry :: "nat \<Rightarrow> int rfq_quote_entry" where
  "sample_entry k = \<lparr> rqe_quote_id = of_nat k, rqe_price = Price 100, rqe_quantity = Quantity 5, rqe_commission = 0,
     rqe_valid_until = 2000000000, rqe_created_at = 1, rqe_venue_type = InternalMM, rqe_venue_id = ''V1'' \<rparr>"

definition sample_response :: "int rfq_response" where
  "sample_response = \<lparr> rrs_request_id = 1, rrs_rfq_id = 2, rrs_side = Sell, rrs_quantity = Quantity 5,
     rrs_state = QuotesReceived, rrs_expires_at = 3000000000, rrs_created_at = 0, rrs_updated_at = 1,
     rrs_asset_class = Forex, rrs_selected_quote_id = 0, rrs_quotes = [sample_entry 3, sample_entry 4],
     rrs_client_id = ''ACME'', rrs_symbol = ''V1'', rrs_base_asset = ''V1'', rrs_quote_asset = ''V1'' \<rparr>"

lemma sample_response_fits: "rrs_fits whole_dec sample_response" "rrs_encoded_size sample_response = 254"
  by (simp_all add: rrs_fits_def sample_response_def sample_entry_def rqe_fits_def quantity_fits_def price_fits_def
      whole_dec_fits ts_encodable_def str_fits_sample rrs_encoded_size_def var_string_size_def)

lemma rfq_response_roundtrip_witness:
  "rrs_decode whole_dec 23 (snd (rrs_encode whole_dec 23 sample_response (replicate 260 7))) = Ret sample_response"
  by (rule rfq_response_roundtrip [THEN conjunct2]) (simp_all add: sample_response_fits)

text \<open>
  No encoder of the interface panics, whatever the message and the buffer: all twelve either write the
  message or return an error.
\<close>
theorem api_encoders_never_panic:
  "fst (crm_encode D create buf) \<noteq> Panic \<and> fst (grr_encode get buf) \<noteq> Panic \<and> fst (cnr_encode cancel buf) \<noteq> Panic
   \<and> fst (etr_encode exec buf) \<noteq> Panic \<and> fst (sqr_encode quotes buf) \<noteq> Panic \<and> fst (ssr_encode status buf) \<noteq> Panic
   \<and> fst (unr_encode unsubscribe buf) \<noteq> Panic \<and> fst (rrs_encode D template response buf) \<noteq> Panic
   \<and> fst (ets_encode D trade buf) \<noteq> Panic \<and> fst (qup_encode D update buf) \<noteq> Panic
   \<and> fst (rsu_encode change buf) \<noteq> Panic \<and> fst (ers_encode problem buf) \<noteq> Panic"
  by (intro conjI crm.never_panics grr.never_panics cnr.never_panics etr.never_panics sqr.never_panics ssr.never_panics
      unr.never_panics rrs.never_panics ets.never_panics qup.never_panics rsu.never_panics ers.never_panics)

text \<open>
  What a request that was cut off does to the server: a request to create an RFQ of which only the first 24 or the
  first 42 bytes arrived panics the decoder, because the side and the asset class are read by indexing; cut off
  anywhere else it is refused with an error, as the other requests are wherever they are cut off.
\<close>
theorem truncated_requests:
  assumes "crm_fits D m" "cnr_fits c"
  shows "(\<forall>k < crm_encoded_size m. crm_decode D (take k (crm_bytes D m)) = Panic \<longleftrightarrow> k \<in> {24, 42})
    \<and> (\<forall>k < crm_encoded_size m. \<forall>r. crm_decode D (take k (crm_bytes D m)) \<noteq> Ret r)
    \<and> (\<forall>k < grr_encoded_size g. \<exists>e. grr_decode (take k (grr_bytes g)) = Err e)
    \<and> (\<forall>k < etr_encoded_size x. \<exists>e. etr_decode (take k (etr_bytes x)) = Err e)
    \<and> (\<forall>k < cnr_encoded_size c. \<exists>e. cnr_decode (take k (cnr_bytes c)) = Err e)"
  using crm_panics_at [OF assms(1)] requests_cut assms(2)
  by (intro conjI allI impI) (fastforce split: if_splits)+

definition sample_create :: "int create_rfq_message" where
  "sample_create = \<lparr> crm_request_id = 1, crm_client_id = ''ACME'', crm_symbol = ''V1'', crm_base_asset = ''V1'',
     crm_quote_asset = ''V1'', crm_side = Buy, crm_quantity = Quantity 5, crm_timeout_seconds = 60,
     crm_asset_class = Stock \<rparr>"

lemma sample_create_fits: "crm_fits whole_dec sample_create" "crm_encoded_size sample_create = 69"
  by (simp_all add: crm_fits_def sample_create_def quantity_fits_def whole_dec_fits str_fits_sample
      crm_encoded_size_def var_string_size_def)

lemma truncated_requests_witness:
  "crm_decode whole_dec (take 24 (crm_bytes whole_dec sample_create)) = Panic"
proof -
  have "cnr_fits \<lparr> cnr_request_id = 1, cnr_rfq_id = 2, cnr_reason = ''V1'' \<rparr>"
    by (simp add: cnr_fits_def str_fits_sample)
  from truncated_requests [OF sample_create_fits(1) this, THEN conjunct1, rule_format, of 24]
  show ?thesis by (simp add: sample_create_fits)
qed

lemma scale_of_exponent:
  fixes e :: u8
  assumes "sint e < - 28"
  shows "28 < unat (scast (- e) :: u32)"
proof -
  define k where "k = - sint e"
  have "- (2 ^ 7) \<le> sint e" using sint_greater_eq [of e] by simp
  then have k: "28 < k" "k \<le> 128" using assms by (simp_all add: k_def)
  have "- e = word_of_int k" by (simp only: k_def of_int_minus of_int_sint scast_id)
  then have s: "sint (- e) = signed_take_bit 7 k" by (simp add: signed_of_int)
  show ?thesis
  proof (cases "k = 128")
    case True
    then have "sint (- e) = - 128" using s by simp
    then show ?thesis by (simp add: scast_eq)
  next
    case False
    then have "(scast (- e) :: u32) = word_of_int k" using s k by (simp add: scast_eq signed_take_bit_int_eq_self)
    moreover have "unat (word_of_int k :: u32) = nat k" using k by (simp add: unsigned_of_int take_bit_int_eq_self)
    ultimately show ?thesis using k by simp
  qed
qed

text \<open>
  One byte of a request to create an RFQ stops the server's decoder: with an exponent below -28 in the byte of the
  quantity, 34th of the message, decoding panics in the constructor of the decimal package, whatever else the request says.
\<close>
theorem exponent_panics_decoder:
  assumes scale: "\<And>n s. 28 < s \<Longrightarrow> dnew D n s = None" and e: "sint e < - 28"
  shows "crm_decode D ((crm_bytes D m)[33 := e]) = Panic"
proof -
  let ?q = "to_le_bytes (sd_mantissa (sd_from_decimal D (quantity_get (crm_quantity m))))"
  obtain rest where bytes: "(crm_bytes D m)[33 := e]
      = api_header_bytes 35 20 @ uuid_bytes (crm_request_id m) @ [encode_order_side (crm_side m)] @ ?q @ e # rest"
    by (simp add: crm_bytes_def crm_fields_def sd_bytes_def list_update_append)
  have "28 < unat (scast (- e) :: u32)" using e by (rule scale_of_exponent)
  then have "sd_to_decimal D \<lparr> sd_mantissa = x, sd_exponent = e \<rparr> = Panic" for x
    using e by (simp add: sd_to_decimal_def scale)
  then show ?thesis
    by (simp add: bytes crm_decode_def message_decode_def crm_read_def r_then_def r_uuid_def uuid_at_bytes r_enum_def
        byte_at_def r_quantity_def decimal_at_def slice_from_def sd_decode_def nth_append)
qed

lemma exponent_panics_decoder_witness:
  "crm_decode whole_dec ((crm_bytes whole_dec sample_create)[33 := 0xE0]) = Panic"
  by (rule exponent_panics_decoder) simp_all

end
