(* ===== verification/Sbe_Server.thy ===== *)
theory Sbe_Server
  imports Api_Messages Use_Cases
begin

text \<open>
  The server of the binary interface: the errors of \<open>src/api/sbe/error.rs\<close>, the conversions of \<open>conversions.rs\<close>, the
  subscriptions of a session (\<open>subscriptions.rs\<close>), the handlers (\<open>handlers.rs\<close>), and of \<open>server.rs\<close> the dispatch of a
  message, the loop that reads the frames of a connection, the filter of the updates it is sent and the framing.
  The RFQ repository is a parameter, a call on a state of the world; so are the calendar of the date
  package, whose instants \<open>add_secs\<close> cannot leave without a panic, the text of a formatted message, fresh
  identifiers and readings of the clock.
\<close>

section \<open>Errors\<close>

datatype 'd api_error =
    MissingField string
  | InvalidValue string "'d msg"
  | ApiInvalidUuid string
  | ApiInvalidDecimal string
  | InvalidEnum string u8
  | SbeEncoding sbe_error
  | ApiDomain "'d msg"
  | ApiIo
  | FrameTooLarge nat nat
  | ConnectionClosed
  | ApiTimeout
  | NotImplemented u16

section \<open>Subscriptions\<close>

record subscriptions =
  sub_quotes :: "uuid set"
  sub_status :: "uuid set"
  sub_max :: nat

definition sub_new :: "nat \<Rightarrow> subscriptions" where
  "sub_new max_subscriptions = \<lparr> sub_quotes = {}, sub_status = {}, sub_max = max_subscriptions \<rparr>"

definition sub_count :: "subscriptions \<Rightarrow> nat" where
  "sub_count s = card (sub_quotes s) + card (sub_status s)"

definition subscription_limit_error :: "'d api_error" where
  "subscription_limit_error = InvalidValue ''subscription'' (Txt ''subscription limit reached'')"

definition subscribe_quotes :: "uuid \<Rightarrow> (subscriptions, 'd api_error, unit) op" where
  "subscribe_quotes i s = (if sub_max s \<le> sub_count s \<and> i \<notin> sub_quotes s then (Inl subscription_limit_error, s)
     else (Inr (), s\<lparr> sub_quotes := insert i (sub_quotes s) \<rparr>))"

definition subscribe_status :: "uuid \<Rightarrow> (subscriptions, 'd api_error, unit) op" where
  "subscribe_status i s = (if sub_max s \<le> sub_count s \<and> i \<notin> sub_status s then (Inl subscription_limit_error, s)
     else (Inr (), s\<lparr> sub_status := insert i (sub_status s) \<rparr>))"

definition unsubscribe :: "uuid \<Rightarrow> subscriptions \<Rightarrow> subscriptions" where
  "unsubscribe i s = s\<lparr> sub_quotes := sub_quotes s - {i}, sub_status := sub_status s - {i} \<rparr>"

section \<open>Conversions\<close>

definition grr_from_domain :: "uuid \<Rightarrow> uuid \<Rightarrow> get_rfq_message" where
  "grr_from_domain request_id i = \<lparr> grr_request_id = request_id, grr_rfq_id = i \<rparr>"

definition etr_from_domain :: "uuid \<Rightarrow> uuid \<Rightarrow> execute_trade_message" where
  "etr_from_domain i q = \<lparr> etr_rfq_id = i, etr_quote_id = q \<rparr>"

definition sqr_from_domain :: "uuid \<Rightarrow> subscribe_quotes_message" where
  "sqr_from_domain i = \<lparr> sqr_rfq_id = i \<rparr>"

definition ssr_from_domain :: "uuid \<Rightarrow> subscribe_status_message" where
  "ssr_from_domain i = \<lparr> ssr_rfq_id = i \<rparr>"

definition unr_from_domain :: "uuid \<Rightarrow> unsubscribe_message" where
  "unr_from_domain i = \<lparr> unr_rfq_id = i \<rparr>"

definition cnr_from_domain :: "uuid \<Rightarrow> uuid \<Rightarrow> string \<Rightarrow> cancel_rfq_message" where
  "cnr_from_domain request_id i reason = \<lparr> cnr_request_id = request_id, cnr_rfq_id = i, cnr_reason = reason \<rparr>"

section \<open>Handlers\<close>

record ('x, 'd) sbe_app =
  ap_find :: "uuid \<Rightarrow> ('x, 'd msg, 'd rfq option) op"
  ap_save :: "'d rfq \<Rightarrow> ('x, 'd msg, unit) op"
  ap_publish_status :: "rfq_status_update \<Rightarrow> 'x \<Rightarrow> 'x"
  ap_calendar :: "timestamp \<Rightarrow> bool"
  ap_render :: "'d msg \<Rightarrow> string"

text \<open>What the handling of one message reads of the clock and draws as identifiers.\<close>

record server_inputs =
  vi_fresh :: uuid
  vi_now :: timestamp           \<comment> \<open>\<open>Timestamp::now()\<close> where the handler reads it first\<close>
  vi_now_built :: timestamp     \<comment> \<open>the reading in the constructor or the transition\<close>
  vi_stamp :: timestamp    \<comment> \<open>the time stamp of the published update\<close>

definition pop_fail :: "'e \<Rightarrow> ('s, 'e, 'a) pop" where
  "pop_fail e = pop_read (\<lambda>_. Err e)"

definition pop_call :: "('e \<Rightarrow> 'f) \<Rightarrow> ('s, 'e, 'a) op \<Rightarrow> ('s, 'f, 'a) pop" where
  "pop_call f m = (\<lambda>s. case map_err f m s of (r, s') \<Rightarrow> (of_result r, s'))"

definition sym_base_asset :: "symbol \<Rightarrow> string" where
  "sym_base_asset s = take (sym_separator_index s) (sym_value s)"

definition sym_quote_asset :: "symbol \<Rightarrow> string" where
  "sym_quote_asset s = drop (sym_separator_index s + 1) (sym_value s)"

definition quote_to_entry :: "'d dec \<Rightarrow> 'd quote \<Rightarrow> 'd rfq_quote_entry" where
  "quote_to_entry D q = \<lparr> rqe_quote_id = quote_id q, rqe_price = quote_price q, rqe_quantity = quote_quantity q,
     rqe_commission = dzero D, rqe_valid_until = quote_valid_until q, rqe_created_at = quote_created_at q,
     rqe_venue_type = InternalMM, rqe_venue_id = quote_venue_id q \<rparr>"

definition rfq_to_response :: "'d dec \<Rightarrow> 'd rfq \<Rightarrow> uuid \<Rightarrow> 'd rfq_response" where
  "rfq_to_response D r request_id = (let symb = ins_symbol (rfq_instrument r) in
     \<lparr> rrs_request_id = request_id, rrs_rfq_id = rfq_id r, rrs_side = rfq_side r, rrs_quantity = rfq_quantity r,
       rrs_state = rfq_state r, rrs_expires_at = rfq_expires_at r, rrs_created_at = rfq_created_at r,
       rrs_updated_at = rfq_updated_at r, rrs_asset_class = ins_asset_class (rfq_instrument r),
       rrs_selected_quote_id = (case rfq_selected_quote_id r of Some i \<Rightarrow> i | None \<Rightarrow> 0),
       rrs_quotes = map (quote_to_entry D) (rfq_quotes r), rrs_client_id = rfq_client_id r,
       rrs_symbol = sym_value symb, rrs_base_asset = sym_base_asset symb, rrs_quote_asset = sym_quote_asset symb \<rparr>)"

definition status_update :: "server_inputs \<Rightarrow> 'd rfq \<Rightarrow> rfq_state \<Rightarrow> string \<Rightarrow> rfq_status_update" where
  "status_update i r previous message = \<lparr> rsu_rfq_id = rfq_id r, rsu_previous_state = previous,
     rsu_current_state = rfq_state r, rsu_timestamp = vi_stamp i, rsu_message = message \<rparr>"

definition find_rfq :: "('x, 'd) sbe_app \<Rightarrow> uuid \<Rightarrow> ('x, 'd api_error, 'd rfq) pop" where
  "find_rfq A i = pop_then (pop_call (\<lambda>e. ApiDomain (Fmt ''failed to find RFQ: {}'' [ArgMsg e])) (ap_find A i))
     (\<lambda>found. case found of None \<Rightarrow> pop_fail (InvalidValue ''rfq_id'' (Fmt ''RFQ not found: {}'' [ArgUuid i]))
        | Some r \<Rightarrow> pop_ret r)"

definition save_rfq :: "('x, 'd) sbe_app \<Rightarrow> 'd rfq \<Rightarrow> ('x, 'd api_error, unit) pop" where
  "save_rfq A r = pop_call (\<lambda>e. ApiDomain (Fmt ''failed to save RFQ: {}'' [ArgMsg e])) (ap_save A r)"

definition handle_create_rfq :: "'d dec \<Rightarrow> ('x, 'd) sbe_app \<Rightarrow> server_inputs \<Rightarrow> 'd create_rfq_message
    \<Rightarrow> ('x, 'd api_error, 'd rfq_response) pop" where
  "handle_create_rfq D A i m =
     (if crm_client_id m = [] then pop_fail (InvalidValue ''client_id'' (Txt ''cannot be empty''))
      else if crm_symbol m = [] then pop_fail (InvalidValue ''symbol'' (Txt ''cannot be empty''))
      else case symbol_new (crm_symbol m) of
        Inl e \<Rightarrow> pop_fail (InvalidValue ''symbol'' (sym_error_display e))
      | Inr symb \<Rightarrow>
          let expires_at = ts_add_secs (vi_now i) (sint (crm_timeout_seconds m)) in
          if \<not> ap_calendar A expires_at then pop_read (\<lambda>_. Panic)
          else
            let r = rb_build (vi_fresh i) (vi_now_built i) (rb_new (crm_client_id m)
                  (instrument_new symb (crm_asset_class m) settlement_method_default)
                  (crm_side m) (crm_quantity m) expires_at) in
            pop_then (save_rfq A r) (\<lambda>_.
            pop_then (pop_modify (ap_publish_status A (status_update i r Created ''RFQ created''))) (\<lambda>_.
              pop_ret (rfq_to_response D r (crm_request_id m)))))"

definition handle_get_rfq :: "'d dec \<Rightarrow> ('x, 'd) sbe_app \<Rightarrow> get_rfq_message \<Rightarrow> ('x, 'd api_error, 'd rfq_response) pop" where
  "handle_get_rfq D A m = pop_then (find_rfq A (grr_rfq_id m)) (\<lambda>r. pop_ret (rfq_to_response D r (grr_request_id m)))"

definition handle_cancel_rfq :: "'d dec \<Rightarrow> ('x, 'd) sbe_app \<Rightarrow> server_inputs \<Rightarrow> cancel_rfq_message
    \<Rightarrow> ('x, 'd api_error, 'd rfq_response) pop" where
  "handle_cancel_rfq D A i m =
     pop_then (find_rfq A (cnr_rfq_id m)) (\<lambda>r0. case rfq_cancel (vi_now_built i) r0 of
         (Inl e, _) \<Rightarrow> pop_fail (InvalidValue ''state'' (Fmt ''invalid RFQ state for cancellation: {}'' [ArgMsg (de_display e)]))
       | (Inr _, r) \<Rightarrow>
           pop_then (save_rfq A r) (\<lambda>_.
           pop_then (pop_modify (ap_publish_status A (status_update i r (rfq_state r0) ''RFQ cancelled''))) (\<lambda>_.
             pop_ret (rfq_to_response D r (cnr_request_id m)))))"

definition handle_execute_trade :: "('x, 'd) sbe_app \<Rightarrow> server_inputs \<Rightarrow> execute_trade_message
    \<Rightarrow> ('x, 'd api_error, 'd execute_trade_reply) pop" where
  "handle_execute_trade A i m =
     pop_then (find_rfq A (etr_rfq_id m)) (\<lambda>r. case find (\<lambda>q. quote_id q = etr_quote_id m) (rfq_quotes r) of
         None \<Rightarrow> pop_fail (InvalidValue ''quote_id'' (Fmt ''quote not found: {}'' [ArgUuid (etr_quote_id m)]))
       | Some q \<Rightarrow>
           if quote_is_expired (vi_now i) q
           then pop_fail (InvalidValue ''valid_until'' (Fmt ''quote has expired: {}'' [ArgUuid (etr_quote_id m)]))
           else
             let t = trade_new (vi_fresh i) (vi_now_built i) (etr_rfq_id m) (etr_quote_id m) (quote_venue_id q)
                   (quote_price q) (quote_quantity q) in
             pop_then (pop_modify (ap_publish_status A (status_update i r (rfq_state r) ''Trade executed''))) (\<lambda>_.
               pop_ret \<lparr> ets_trade_id = trade_id t, ets_rfq_id = trade_rfq_id t, ets_quote_id = trade_quote_id t,
                 ets_price = trade_price t, ets_quantity = trade_quantity t, ets_created_at = trade_created_at t,
                 ets_venue_id = trade_venue_id t,
                 ets_venue_execution_ref = (case trade_venue_execution_ref t of Some v \<Rightarrow> v | None \<Rightarrow> []) \<rparr>))"

section \<open>Dispatch\<close>

fun as_api :: "'a reads \<Rightarrow> ('d api_error, 'a) outcome" where
  "as_api (Ret a) = Ret a"
| "as_api (Err e) = Err (SbeEncoding e)"
| "as_api Panic = Panic"

definition template_of :: "bytes \<Rightarrow> u16" where
  "template_of frame = from_le_bytes (take 2 (drop 2 frame))"

text \<open>One arm of the dispatch: decode, handle, encode the response.\<close>

definition serve :: "(bytes \<Rightarrow> 'm reads) \<Rightarrow> ('m \<Rightarrow> ('x, 'd api_error, 'r) pop) \<Rightarrow> ('r \<Rightarrow> bytes reads) \<Rightarrow> bytes
    \<Rightarrow> ('x, 'd api_error, bytes) pop" where
  "serve dec handle enc frame =
     pop_then (pop_read (\<lambda>_. as_api (dec frame))) (\<lambda>m.
     pop_then (handle m) (\<lambda>r. pop_read (\<lambda>_. as_api (enc r))))"

definition dispatch_message :: "'d dec \<Rightarrow> ('x, 'd) sbe_app \<Rightarrow> server_inputs \<Rightarrow> bytes \<Rightarrow> ('x, 'd api_error, bytes) pop" where
  "dispatch_message D A i frame =
     (if length frame < 8 then pop_fail (SbeEncoding (BufferTooSmall 8 (length frame)))
      else
        let template = template_of frame in
        if template = 20 then serve (crm_decode D) (handle_create_rfq D A i)
          (encode_to_vec rrs_encoded_size (rrs_encode D 21)) frame
        else if template = 22 then serve grr_decode (handle_get_rfq D A)
          (encode_to_vec rrs_encoded_size (rrs_encode D 23)) frame
        else if template = 24 then serve cnr_decode (handle_cancel_rfq D A i)
          (encode_to_vec rrs_encoded_size (rrs_encode D 25)) frame
        else if template = 26 then serve etr_decode (handle_execute_trade A i)
          (encode_to_vec ets_encoded_size (ets_encode D)) frame
        else if template \<in> {30, 32, 40} then pop_fail (NotImplemented template)
        else pop_fail (SbeEncoding (UnknownTemplateId template)))"

definition error_to_response :: "('d msg \<Rightarrow> string) \<Rightarrow> 'd api_error \<Rightarrow> error_reply" where
  "error_to_response render err =
     (let (code, message) = (case err of
          SbeEncoding e \<Rightarrow> (case e of
              UnknownTemplateId t \<Rightarrow> (400, Fmt ''unknown template id: {}'' [ArgNat (unat t)])
            | InvalidEnumValue v \<Rightarrow> (400, Fmt ''invalid enum value: {}'' [ArgNat (unat v)])
            | _ \<Rightarrow> (400, Txt ''invalid message format''))
        | InvalidValue field message \<Rightarrow> (400, Fmt ''invalid {}: {}'' [ArgStr field, ArgMsg message])
        | FrameTooLarge n m \<Rightarrow> (413, Fmt ''frame too large: {} > {}'' [ArgNat n, ArgNat m])
        | NotImplemented _ \<Rightarrow> (501, Txt ''not implemented'')
        | _ \<Rightarrow> (500, Txt ''internal error'')) in
      \<lparr> ers_request_id = 0, ers_rfq_id = 0, ers_code = code, ers_message = render message, ers_metadata = [] \<rparr>)"

definition subscription_ack :: "uuid \<Rightarrow> string \<Rightarrow> bytes reads" where
  "subscription_ack i message = encode_to_vec ers_encoded_size ers_encode
     \<lparr> ers_request_id = 0, ers_rfq_id = i, ers_code = 0, ers_message = message, ers_metadata = [] \<rparr>"

definition error_frame :: "('d msg \<Rightarrow> string) \<Rightarrow> 'd api_error \<Rightarrow> bytes reads" where
  "error_frame render e = encode_to_vec ers_encoded_size ers_encode (error_to_response render e)"

section \<open>A session\<close>

text \<open>Handling a subscription message: the answer, and the subscriptions it leaves.\<close>

definition subscription_reply :: "('d msg \<Rightarrow> string) \<Rightarrow> (bytes \<Rightarrow> 'm reads) \<Rightarrow> ('m \<Rightarrow> uuid)
    \<Rightarrow> (uuid \<Rightarrow> (subscriptions, 'd api_error, unit) op) \<Rightarrow> string \<Rightarrow> bytes \<Rightarrow> (subscriptions, sbe_error, bytes) pop" where
  "subscription_reply render dec target act message frame s = (case dec frame of
       Panic \<Rightarrow> (Panic, s)
     | Err e \<Rightarrow> (error_frame render (SbeEncoding e), s)
     | Ret m \<Rightarrow> (case act (target m) s of
           (Inr _, s') \<Rightarrow> (subscription_ack (target m) message, s')
         | (Inl e, s') \<Rightarrow> (error_frame render e, s')))"

definition session_response :: "'d dec \<Rightarrow> ('x, 'd) sbe_app \<Rightarrow> server_inputs \<Rightarrow> bytes
    \<Rightarrow> (subscriptions \<times> 'x, sbe_error, bytes) pop" where
  "session_response D A i frame = (\<lambda>(s, x).
     let template = template_of frame; render = ap_render A in
     if template = 30 then (case subscription_reply render sqr_decode sqr_rfq_id subscribe_quotes
         ''subscribed to quotes'' frame s of (r, s') \<Rightarrow> (r, s', x))
     else if template = 32 then (case subscription_reply render ssr_decode ssr_rfq_id subscribe_status
         ''subscribed to status'' frame s of (r, s') \<Rightarrow> (r, s', x))
     else if template = 40 then (case subscription_reply render unr_decode unr_rfq_id
         (\<lambda>i s. (Inr (), unsubscribe i s)) ''unsubscribed'' frame s of (r, s') \<Rightarrow> (r, s', x))
     else (case dispatch_message D A i frame x of
         (Ret r, x') \<Rightarrow> (Ret r, s, x')
       | (Err e, x') \<Rightarrow> (error_frame render e, s, x')
       | (Panic, x') \<Rightarrow> (Panic, s, x')))"

text \<open>
  What reading the next frame gives within the time-out. \<open>Ended None\<close> is the orderly end of the reader, \<open>Ended (Some e)\<close>
  its end with an error, \<open>Crashed\<close> a panic of the task. \<open>se_queued\<close> lists the replies the reader put on the control
  channel, and the flag \<open>queued\<close> of a step says whether the channel still has its receiver. What is queued is not yet
  answered: the writer task takes the replies in this order, but it stops at the first write that fails, and the end
  of the reader aborts it. A frame shorter than a header is skipped without a reply.
\<close>

datatype 'd read_event = FrameRead bytes | ReadFailed "'d api_error" | ReadTimeout

datatype 'd session_status = Open | Ended "'d api_error option" | Crashed

record 'x session =
  se_subs :: subscriptions
  se_world :: 'x
  se_queued :: "bytes list"

definition session_step :: "'d dec \<Rightarrow> ('x, 'd) sbe_app \<Rightarrow> server_inputs \<Rightarrow> 'd read_event \<Rightarrow> bool \<Rightarrow> 'x session
    \<Rightarrow> 'd session_status \<times> 'x session" where
  "session_step D A i ev queued c = (case ev of
       ReadFailed e \<Rightarrow> (Ended (if e = ConnectionClosed then None else Some e), c)
     | ReadTimeout \<Rightarrow> (if 0 < sub_count (se_subs c) then Open else Ended None, c)
     | FrameRead frame \<Rightarrow>
         if length frame < 8 then (Open, c)
         else (case session_response D A i frame (se_subs c, se_world c) of
             (Ret r, s, x) \<Rightarrow>
               if queued then (Open, c\<lparr> se_subs := s, se_world := x, se_queued := se_queued c @ [r] \<rparr>)
               else (Ended None, c\<lparr> se_subs := s, se_world := x \<rparr>)
           | (Err e, s, x) \<Rightarrow> (Ended (Some (SbeEncoding e)), c\<lparr> se_subs := s, se_world := x \<rparr>)
           | (Panic, s, x) \<Rightarrow> (Crashed, c\<lparr> se_subs := s, se_world := x \<rparr>)))"

text \<open>\<open>handle_reader\<close>: the loop over what is read, until the session ends.\<close>

fun run_session :: "'d dec \<Rightarrow> ('x, 'd) sbe_app \<Rightarrow> (server_inputs \<times> 'd read_event \<times> bool) list \<Rightarrow> 'x session
    \<Rightarrow> 'd session_status \<times> 'x session" where
  "run_session D A [] c = (Open, c)"
| "run_session D A ((i, ev, queued) # evs) c = (case session_step D A i ev queued c of
       (Open, c') \<Rightarrow> run_session D A evs c'
     | ended \<Rightarrow> ended)"

definition session_new :: "nat \<Rightarrow> 'x \<Rightarrow> 'x session" where
  "session_new max_subscriptions x = \<lparr> se_subs = sub_new max_subscriptions, se_world = x, se_queued = [] \<rparr>"

text \<open>The forwarder: the frame of an update that the session is subscribed to.\<close>

definition forward_quote :: "'d dec \<Rightarrow> subscriptions \<Rightarrow> 'd quote_update \<Rightarrow> bytes option" where
  "forward_quote D s u = (if qup_rfq_id u \<in> sub_quotes s
     then (case encode_to_vec qup_encoded_size (qup_encode D) u of Ret bs \<Rightarrow> Some bs | _ \<Rightarrow> None) else None)"

definition forward_status :: "subscriptions \<Rightarrow> rfq_status_update \<Rightarrow> bytes option" where
  "forward_status s u = (if rsu_rfq_id u \<in> sub_status s
     then (case encode_to_vec rsu_encoded_size rsu_encode u of Ret bs \<Rightarrow> Some bs | _ \<Rightarrow> None) else None)"

section \<open>Framing\<close>

definition write_frame :: "bytes \<Rightarrow> 'd api_error + bytes" where
  "write_frame data = (if 2 ^ 32 \<le> length data then Inl (FrameTooLarge (length data) (2 ^ 32 - 1))
     else Inr (rev (to_le_bytes (of_nat (length data) :: u32)) @ data))"

text \<open>\<open>read_frame\<close> on the bytes that arrive before the connection closes.\<close>

definition read_frame :: "nat \<Rightarrow> bytes \<Rightarrow> 'd api_error + (bytes \<times> bytes)" where
  "read_frame max_size stream =
     (if length stream < 4 then Inl ConnectionClosed
      else
        let n = unat (from_le_bytes (rev (take 4 stream)) :: u32); rest = drop 4 stream in
        if max_size < n then Inl (FrameTooLarge n max_size)
        else if length rest < n then Inl ConnectionClosed
        else Inr (take n rest, drop n rest))"

section \<open>Replies\<close>

text \<open>Error replies and acknowledgements always encode: they have no field that can fail.\<close>

lemma ers_to_vec [simp]: "encode_to_vec ers_encoded_size ers_encode m = Ret (ers_bytes m)"
proof -
  have "ers_encoded_size m = 8 + length (concat (ers_fields m))"
    by (simp add: ers_encoded_size_def ers_fields_def var_string_size_def)
  then have "writes 0 (ers_encode m) (ers_bytes m) (ers_encoded_size m)"
    unfolding ers_encode_def ers_bytes_def
    by (intro writes_message) (simp_all add: ers_fields_def field_writes_simps)
  moreover have "length (ers_bytes m) = ers_encoded_size m"
    by (simp add: ers_bytes_def ers_fields_def ers_encoded_size_def var_string_size_def)
  ultimately show ?thesis by (simp add: encode_to_vec_def writes_apply)
qed

lemma error_frame_Ret [simp]: "error_frame render e = Ret (ers_bytes (error_to_response render e))"
  by (simp add: error_frame_def)

lemma subscription_ack_Ret [simp]: "\<exists>bs. subscription_ack i message = Ret bs"
  by (simp add: subscription_ack_def)

lemma subscription_reply_not_Err [simp]: "subscription_reply render dec target act message frame s \<noteq> (Err e, s')"
  by (auto simp: subscription_reply_def subscription_ack_def split: outcome.split sum.split prod.split)

lemma session_response_not_Err [simp]: "session_response D A i frame (s, x) \<noteq> (Err e, c)"
  by (auto simp: session_response_def Let_def split: prod.split outcome.split)

section \<open>Subscriptions\<close>

definition sub_inv :: "nat \<Rightarrow> subscriptions \<Rightarrow> bool" where
  "sub_inv n s \<longleftrightarrow> sub_max s = n \<and> finite (sub_quotes s) \<and> finite (sub_status s) \<and> sub_count s \<le> n"

lemma sub_new_inv: "sub_inv n (sub_new n)"
  by (simp add: sub_inv_def sub_new_def sub_count_def)

lemma subscribe_quotes_inv: "sub_inv n s \<Longrightarrow> sub_inv n (snd (subscribe_quotes i s))"
  by (auto simp: sub_inv_def subscribe_quotes_def sub_count_def card_insert_if)

lemma subscribe_status_inv: "sub_inv n s \<Longrightarrow> sub_inv n (snd (subscribe_status i s))"
  by (auto simp: sub_inv_def subscribe_status_def sub_count_def card_insert_if)

lemma unsubscribe_inv: "sub_inv n s \<Longrightarrow> sub_inv n (unsubscribe i s)"
proof -
  assume inv: "sub_inv n s"
  have "card (sub_quotes s - {i}) \<le> card (sub_quotes s)" "card (sub_status s - {i}) \<le> card (sub_status s)"
    using inv by (simp_all add: sub_inv_def card_mono)
  then show ?thesis using inv by (simp add: sub_inv_def unsubscribe_def sub_count_def)
qed

lemma subscription_reply_inv:
  assumes "subscription_reply render dec target act message frame s = (r, s')" "sub_inv n s"
    "\<And>i. sub_inv n (snd (act i s))"
  shows "sub_inv n s'"
proof (cases "dec frame")
  case (Ret m)
  obtain a s1 where act: "act (target m) s = (a, s1)" by fastforce
  then have "sub_inv n s1" using assms(3) [of "target m"] by simp
  then show ?thesis using assms(1) Ret act by (cases a) (auto simp: subscription_reply_def)
qed (use assms in \<open>auto simp: subscription_reply_def\<close>)

lemma session_response_inv:
  assumes "session_response D A i frame (s, x) = (r, s', x')" "sub_inv n s"
  shows "sub_inv n s'"
  using assms
  by (auto simp: session_response_def Let_def subscribe_quotes_inv subscribe_status_inv unsubscribe_inv
      elim!: subscription_reply_inv split: prod.splits outcome.splits if_splits)

lemma session_step_inv:
  assumes "session_step D A i ev queued c = (st, c')" "sub_inv n (se_subs c)"
  shows "sub_inv n (se_subs c')"
  using assms
  by (auto simp: session_step_def elim: session_response_inv
      split: read_event.splits prod.splits outcome.splits if_splits)

text \<open>
  The reply a frame calls for. A subscription request that decodes is acknowledged when the client has the subscription
  already or a place is free, and refused without effect otherwise; a cancellation is acknowledged; of the other
  templates those of the four requests are dispatched, and an error of theirs becomes an error reply, as does an unknown
  template or a frame that does not decode, with no effect at all.
\<close>

definition reply_due :: "'d dec \<Rightarrow> ('x, 'd) sbe_app \<Rightarrow> server_inputs \<Rightarrow> bytes \<Rightarrow> subscriptions \<times> 'x
    \<Rightarrow> bytes \<Rightarrow> subscriptions \<times> 'x \<Rightarrow> bool" where
  "reply_due D A i frame before r after =
     (let s = fst before; x = snd before; room = sub_count s < sub_max s;
          refusal = (\<lambda>e. error_frame (ap_render A) e = Ret r \<and> after = before);
          ack = (\<lambda>m message s'. subscription_ack m message = Ret r \<and> after = (s', x)) in
      if template_of frame = 30 then (case sqr_decode frame of
          Ret m \<Rightarrow> if sqr_rfq_id m \<in> sub_quotes s \<or> room
            then ack (sqr_rfq_id m) ''subscribed to quotes'' (s\<lparr> sub_quotes := insert (sqr_rfq_id m) (sub_quotes s) \<rparr>)
            else refusal subscription_limit_error
        | Err e \<Rightarrow> refusal (SbeEncoding e) | Panic \<Rightarrow> False)
      else if template_of frame = 32 then (case ssr_decode frame of
          Ret m \<Rightarrow> if ssr_rfq_id m \<in> sub_status s \<or> room
            then ack (ssr_rfq_id m) ''subscribed to status'' (s\<lparr> sub_status := insert (ssr_rfq_id m) (sub_status s) \<rparr>)
            else refusal subscription_limit_error
        | Err e \<Rightarrow> refusal (SbeEncoding e) | Panic \<Rightarrow> False)
      else if template_of frame = 40 then (case unr_decode frame of
          Ret m \<Rightarrow> ack (unr_rfq_id m) ''unsubscribed''
            (s\<lparr> sub_quotes := sub_quotes s - {unr_rfq_id m}, sub_status := sub_status s - {unr_rfq_id m} \<rparr>)
        | Err e \<Rightarrow> refusal (SbeEncoding e) | Panic \<Rightarrow> False)
      else if template_of frame \<in> {20, 22, 24, 26} then fst after = s \<and>
        (dispatch_message D A i frame x = (Ret r, snd after)
         \<or> (\<exists>e. dispatch_message D A i frame x = (Err e, snd after) \<and> error_frame (ap_render A) e = Ret r))
      else refusal (SbeEncoding (UnknownTemplateId (template_of frame))))"

fun served :: "'d dec \<Rightarrow> ('x, 'd) sbe_app \<Rightarrow> (server_inputs \<times> 'd read_event \<times> bool) list \<Rightarrow> subscriptions \<times> 'x
    \<Rightarrow> bytes list \<Rightarrow> subscriptions \<times> 'x \<Rightarrow> bool" where
  "served D A [] before rs after \<longleftrightarrow> rs = [] \<and> after = before"
| "served D A ((i, FrameRead frame, _) # evs) before rs after \<longleftrightarrow>
     (if length frame < 8 then served D A evs before rs after
      else \<exists>r rs' between. rs = r # rs' \<and> reply_due D A i frame before r between \<and> served D A evs between rs' after)"
| "served D A ((_, _, _) # evs) before rs after \<longleftrightarrow> served D A evs before rs after"

lemma session_response_due:
  assumes "session_response D A i frame (s, x) = (Ret r, after)" "8 \<le> length frame"
  shows "reply_due D A i frame (s, x) r after"
proof -
  consider "template_of frame = 30" | "template_of frame = 32" | "template_of frame = 40"
    | "template_of frame \<in> {20, 22, 24, 26}" | "template_of frame \<notin> {20, 22, 24, 26, 30, 32, 40}" by blast
  then show ?thesis
  proof cases
    case 1
    then show ?thesis using assms
      by (cases "sqr_decode frame")
        (auto simp: session_response_def reply_due_def subscription_reply_def subscribe_quotes_def Let_def split: if_splits)
  next
    case 2
    then show ?thesis using assms
      by (cases "ssr_decode frame")
        (auto simp: session_response_def reply_due_def subscription_reply_def subscribe_status_def Let_def split: if_splits)
  next
    case 3
    then show ?thesis using assms
      by (cases "unr_decode frame")
        (auto simp: session_response_def reply_due_def subscription_reply_def unsubscribe_def Let_def)
  next
    case 4
    obtain a x' where "dispatch_message D A i frame x = (a, x')" by fastforce
    then show ?thesis using assms 4
      by (cases a) (auto simp: session_response_def reply_due_def Let_def)
  next
    case 5
    then have "dispatch_message D A i frame x = (Err (SbeEncoding (UnknownTemplateId (template_of frame))), x)"
      using assms(2) by (simp add: dispatch_message_def pop_fail_def Let_def)
    then show ?thesis using assms(1) 5 by (simp add: session_response_def reply_due_def Let_def)
  qed
qed

lemma session_step_served:
  assumes "session_step D A i ev queued c = (Open, c')"
    "served D A evs (se_subs c', se_world c') rs after"
  shows "\<exists>rs'. se_queued c' @ rs = se_queued c @ rs' \<and> served D A ((i, ev, queued) # evs) (se_subs c, se_world c) rs' after"
proof (cases ev)
  case (FrameRead frame)
  show ?thesis
  proof (cases "length frame < 8")
    case False
    then obtain r s x where reply: "session_response D A i frame (se_subs c, se_world c) = (Ret r, s, x)"
      and c': "c' = c\<lparr> se_subs := s, se_world := x, se_queued := se_queued c @ [r] \<rparr>"
      using assms(1) FrameRead by (auto simp: session_step_def split: prod.splits outcome.splits if_splits)
    have "reply_due D A i frame (se_subs c, se_world c) r (s, x)"
      using session_response_due [OF reply] False by simp
    then show ?thesis using assms(2) False FrameRead c' by (intro exI [of _ "r # rs"]) auto
  qed (use assms FrameRead in \<open>auto simp: session_step_def\<close>)
qed (use assms in \<open>auto simp: session_step_def split: if_splits\<close>)

lemma session_step_error:
  assumes "session_step D A i ev queued c = (Ended (Some e), c')"
  shows "ev = ReadFailed e"
  using assms
  by (auto simp: session_step_def split: read_event.splits prod.splits outcome.splits if_splits)

lemma run_session_cons:
  "run_session D A ((i, ev, d) # evs) c = (st, c') \<Longrightarrow>
    (\<exists>c1. session_step D A i ev d c = (Open, c1) \<and> run_session D A evs c1 = (st, c'))
    \<or> (session_step D A i ev d c = (st, c') \<and> st \<noteq> Open)"
  by (auto split: prod.splits session_status.splits)

lemma run_session_keeps:
  "run_session D A evs c = (st, c') \<Longrightarrow> sub_inv n (se_subs c) \<Longrightarrow>
    sub_inv n (se_subs c')
    \<and> (\<forall>e. st = Ended (Some e) \<longrightarrow> ReadFailed e \<in> fst ` snd ` set evs)"
proof (induction evs arbitrary: c)
  case (Cons x evs)
  obtain i ev d where x: "x = (i, ev, d)" by (cases x) auto
  from run_session_cons [OF Cons.prems(1) [unfolded x]] show ?case
  proof (elim disjE exE conjE)
    fix c1
    assume step: "session_step D A i ev d c = (Open, c1)" and rest: "run_session D A evs c1 = (st, c')"
    show ?thesis
      using Cons.IH [OF rest session_step_inv [OF step Cons.prems(2)]] by (auto simp: x)
  next
    assume step: "session_step D A i ev d c = (st, c')" and "st \<noteq> Open"
    then show ?thesis using session_step_inv [OF step Cons.prems(2)] session_step_error [of D A i ev d c _ c'] by (auto simp: x)
  qed
qed simp

lemma session_step_stops:
  "session_step D A i ev queued c = (st, c') \<Longrightarrow> st \<noteq> Open \<Longrightarrow> se_queued c' = se_queued c"
  by (auto simp: session_step_def split: read_event.splits prod.splits outcome.splits if_splits)

lemma run_session_served:
  "run_session D A evs c = (st, c') \<Longrightarrow>
    \<exists>done left rs after. evs = done @ left \<and> se_queued c' = se_queued c @ rs
      \<and> served D A done (se_subs c, se_world c) rs after \<and> (st = Open \<longrightarrow> left = [] \<and> after = (se_subs c', se_world c'))"
proof (induction evs arbitrary: c)
  case (Cons e evs)
  obtain i ev d where e: "e = (i, ev, d)" by (cases e) auto
  from run_session_cons [OF Cons.prems [unfolded e]] show ?case
  proof (elim disjE exE conjE)
    fix c1
    assume step: "session_step D A i ev d c = (Open, c1)" and "run_session D A evs c1 = (st, c')"
    from Cons.IH [OF this(2)] obtain processed left rs after where
      split: "evs = processed @ left" and queue: "se_queued c' = se_queued c1 @ rs"
      and rest: "served D A processed (se_subs c1, se_world c1) rs after"
      and live: "st = Open \<longrightarrow> left = [] \<and> after = (se_subs c', se_world c')" by blast
    from session_step_served [OF step rest] obtain rs' where
      "se_queued c' = se_queued c @ rs'" "served D A ((i, ev, d) # processed) (se_subs c, se_world c) rs' after"
      using queue by auto
    then show ?thesis using split live
      by (intro exI [of _ "(i, ev, d) # processed"] exI [of _ left] exI [of _ rs'] exI [of _ after]) (simp add: e)
  next
    assume "session_step D A i ev d c = (st, c')" "st \<noteq> Open"
    then show ?thesis using session_step_stops [of D A i ev d c st c']
      by (intro exI [of _ "[]"] exI [of _ "e # evs"] exI [of _ "[]"] exI [of _ "(se_subs c, se_world c)"]) simp
  qed
qed simp

section \<open>The server on the development store\<close>

text \<open>
  The repository that \<open>main.rs\<close> gives to the interfaces: a map that takes every save, without a check of versions. The
  world of the server is this map and the status updates broadcast so far.
\<close>

definition dev_rfq_save :: "'d rfq \<Rightarrow> ('d rfq_store, 'd msg, unit) op" where
  "dev_rfq_save r S = (Inr (), S(rfq_id r \<mapsto> r))"

definition dev_rfq_find :: "uuid \<Rightarrow> ('d rfq_store, 'd msg, 'd rfq option) op" where
  "dev_rfq_find i S = (Inr (S i), S)"

definition memory_app :: "(timestamp \<Rightarrow> bool) \<Rightarrow> ('d msg \<Rightarrow> string) \<Rightarrow> ('d rfq_store \<times> rfq_status_update list, 'd) sbe_app" where
  "memory_app calendar render = \<lparr> ap_find = (\<lambda>i (S, us). case dev_rfq_find i S of (a, S') \<Rightarrow> (a, S', us)),
     ap_save = (\<lambda>r (S, us). case dev_rfq_save r S of (a, S') \<Rightarrow> (a, S', us)),
     ap_publish_status = (\<lambda>u (S, us). (S, us @ [u])), ap_calendar = calendar, ap_render = render \<rparr>"

lemma memory_app_sel [simp]:
  "ap_find (memory_app calendar render) i (S, us) = (Inr (S i), S, us)"
  "ap_save (memory_app calendar render) r (S, us) = (Inr (), S(rfq_id r \<mapsto> r), us)"
  "ap_publish_status (memory_app calendar render) u (S, us) = (S, us @ [u])"
  "ap_calendar (memory_app calendar render) = calendar" "ap_render (memory_app calendar render) = render"
  by (simp_all add: memory_app_def dev_rfq_find_def dev_rfq_save_def)

lemmas handler_defs = pop_then_def pop_ret_def pop_read_def pop_modify_def pop_fail_def pop_call_def map_err_def

lemma find_rfq_memory:
  "find_rfq (memory_app calendar render) i (S, us) = (case S i of
       None \<Rightarrow> (Err (InvalidValue ''rfq_id'' (Fmt ''RFQ not found: {}'' [ArgUuid i])), S, us)
     | Some r \<Rightarrow> (Ret r, S, us))"
  by (simp add: find_rfq_def handler_defs split: option.split)

section \<open>Properties\<close>

text \<open>
  C29. A session over any events. Its subscriptions never exceed the configured number. The replies it queued for the
  writer are those its frames call for, one for each frame in order, in the state the frames before it left: all frames
  that were read while it is open, those up to some point once it ended. Frames under eight bytes are skipped: they
  have no reply and no effect. A session ends with an error only when reading failed with that error, never because
  of what a frame says.
\<close>
theorem session_serves_within_limits:
  assumes "run_session D A evs (session_new n x) = (st, c)"
  shows "sub_count (se_subs c) \<le> n
    \<and> (\<exists>done left sx. evs = done @ left \<and> served D A done (sub_new n, x) (se_queued c) sx
        \<and> (st = Open \<longrightarrow> left = [] \<and> sx = (se_subs c, se_world c)))
    \<and> (\<forall>e. st = Ended (Some e) \<longrightarrow> ReadFailed e \<in> fst ` snd ` set evs)"
proof -
  have "sub_inv n (se_subs (session_new n x))" by (simp add: session_new_def sub_new_inv)
  from run_session_keeps [OF assms this] show ?thesis
    using run_session_served [OF assms] by (simp add: session_new_def sub_inv_def)
qed

text \<open>
  C30. The query of an RFQ over the wire: a session that reads the encoded request for an RFQ the repository finds answers
  with one frame, which decodes to the response that describes this RFQ under the identifier of the request, and
  nothing else changes.
\<close>
theorem get_rfq_over_the_wire:
  assumes "ap_find A i (se_world c) = (Inr (Some r), x)" "rrs_fits D (rfq_to_response D r request)"
  shows "\<exists>frame. session_step D A inputs (FrameRead (grr_bytes (grr_from_domain request i))) True c
        = (Open, c\<lparr> se_world := x, se_queued := se_queued c @ [frame] \<rparr>)
      \<and> rrs_decode D 23 frame = Ret (rfq_to_response D r request)"
proof -
  let ?m = "grr_from_domain request i" and ?r = "rfq_to_response D r request"
  have fits: "grr_fits ?m" by (simp add: grr_fits_def)
  have len: "length (grr_bytes ?m) = 40"
    using grr.message_size [OF fits] by (simp add: grr_encoded_size_def)
  have template: "template_of (grr_bytes ?m) = 22"
    by (simp add: template_of_def grr_bytes_def api_header_bytes_def)
  have dec: "grr_decode (grr_bytes ?m) = Ret ?m" using grr.decode_fitting [OF fits, of "[]"] by simp
  have enc: "encode_to_vec rrs_encoded_size (rrs_encode D 23) ?r = Ret (rrs_bytes D 23 ?r)"
    by (rule rrs.to_vec [OF assms(2)])
  have "dispatch_message D A inputs (grr_bytes ?m) (se_world c) = (Ret (rrs_bytes D 23 ?r), x)"
    using assms(1)
    by (simp add: dispatch_message_def len template serve_def dec enc handle_get_rfq_def find_rfq_def handler_defs)
      (simp add: grr_from_domain_def enc handler_defs)
  then have "session_step D A inputs (FrameRead (grr_bytes ?m)) True c
      = (Open, c\<lparr> se_world := x, se_queued := se_queued c @ [rrs_bytes D 23 ?r] \<rparr>)"
    by (simp add: session_step_def session_response_def len template)
  moreover have "rrs_decode D 23 (rrs_bytes D 23 ?r) = Ret ?r"
    using rrs.decode_fitting [OF assms(2), of 23 "[]"] by simp
  ultimately show ?thesis by blast
qed

definition sample_rfq :: "int rfq" where
  "sample_rfq = rb_build 5 1 (rb_new ''ACME'' (instrument_new \<lparr> sym_value = ''BTC/USD'', sym_separator_index = 3 \<rparr>
     Stock settlement_method_default) Buy (Quantity 5) 90)"

definition sample_server_inputs :: server_inputs where
  "sample_server_inputs = \<lparr> vi_fresh = 9, vi_now = 0, vi_now_built = 1, vi_stamp = 2 \<rparr>"

definition sample_app :: "(int rfq_store \<times> rfq_status_update list, int) sbe_app" where
  "sample_app = memory_app (\<lambda>t. t < 8000000000000000000) (\<lambda>_. [])"

lemma session_serves_within_limits_witness:
  fixes c :: "(int rfq_store \<times> rfq_status_update list) session"
  defines "c \<equiv> snd (run_session whole_dec sample_app
     [(sample_server_inputs, FrameRead [1, 2, 3], True), (sample_server_inputs, FrameRead (sqr_bytes (sqr_from_domain 5)), True),
      (sample_server_inputs, FrameRead (sqr_bytes (sqr_from_domain 6)), True)] (session_new 1 (Map.empty, [])))"
  shows "sub_quotes (se_subs c) = {5} \<and> (\<exists>r refusal. se_queued c = [r, refusal]
    \<and> subscription_ack 5 ''subscribed to quotes'' = Ret r
    \<and> error_frame (\<lambda>_. []) (subscription_limit_error :: int api_error) = Ret refusal)"
proof -
  have target: "sqr_rfq_id (sqr_from_domain i) = i" for i by (simp add: sqr_from_domain_def)
  have dec: "sqr_decode (sqr_bytes (sqr_from_domain i)) = Ret (sqr_from_domain i)" for i
    using sqr.decode_fitting [of "sqr_from_domain i" "[]"] by (simp add: sqr_fits_def)
  have len: "length (sqr_bytes (sqr_from_domain i)) = 24" for i
    using sqr.message_size [of "sqr_from_domain i"] by (simp add: sqr_fits_def sqr_encoded_size_def)
  have template: "template_of (sqr_bytes (sqr_from_domain i)) = 30" for i
    by (simp add: template_of_def sqr_bytes_def api_header_bytes_def)
  let ?frame = "\<lambda>f. (sample_server_inputs, FrameRead f, True)"
  let ?evs = "[?frame [1, 2, 3], ?frame (sqr_bytes (sqr_from_domain 5)), ?frame (sqr_bytes (sqr_from_domain 6))]"
  have "fst (run_session whole_dec sample_app ?evs (session_new 1 (Map.empty, []))) = Open"
    by (simp add: session_step_def session_response_def template len subscription_reply_def dec Let_def session_new_def
        subscribe_quotes_def target sub_new_def sub_count_def subscription_ack_def)
  then have run: "run_session whole_dec sample_app ?evs (session_new 1 (Map.empty, [])) = (Open, c)"
    by (simp add: c_def prod_eq_iff)
  from session_serves_within_limits [OF run]
  have "served whole_dec sample_app ?evs (sub_new 1, Map.empty, []) (se_queued c) (se_subs c, se_world c)" by fastforce
  then show ?thesis
    by (auto simp: len reply_due_def template dec Let_def target sub_new_def sub_count_def sample_app_def
        del: error_frame_Ret)
qed

lemma get_rfq_over_the_wire_witness:
  "\<exists>frame. rrs_decode whole_dec 23 frame = Ret (rfq_to_response whole_dec sample_rfq 7)"
proof -
  let ?c = "session_new 10 (Map.empty(5 \<mapsto> sample_rfq), [])"
  have found: "ap_find sample_app 5 (se_world ?c) = (Inr (Some sample_rfq), Map.empty(5 \<mapsto> sample_rfq), [])"
    by (simp add: sample_app_def session_new_def)
  have "rrs_fits whole_dec (rfq_to_response whole_dec sample_rfq 7)"
    by (simp add: rrs_fits_def rfq_to_response_def sample_rfq_def rb_build_def rb_new_def instrument_new_def Let_def
        quantity_fits_def whole_dec_fits ts_encodable_def str_fits_def utf8_valid_ascii sym_base_asset_def sym_quote_asset_def)
  from get_rfq_over_the_wire [where inputs = sample_server_inputs, OF found this] show ?thesis by blast
qed

text \<open>
  The request to execute a trade executes none: whatever the state of the RFQ, also when it was cancelled or is
  executed already, a quote of it that has not expired is answered as a trade at the quote's price and quantity under a
  fresh identifier and published as executed, while the store of RFQs stays as it was and no venue is asked.
\<close>
theorem sbe_execution_executes_nothing:
  assumes "S (etr_rfq_id m) = Some r" "find (\<lambda>q. quote_id q = etr_quote_id m) (rfq_quotes r) = Some q"
    "vi_now i \<le> quote_valid_until q"
  shows "\<exists>reply. handle_execute_trade (memory_app calendar render) i m (S, us)
        = (Ret reply, S, us @ [status_update i r (rfq_state r) ''Trade executed''])
      \<and> ets_trade_id reply = vi_fresh i \<and> ets_price reply = quote_price q \<and> ets_quantity reply = quote_quantity q"
  using assms
  by (simp add: handle_execute_trade_def find_rfq_memory pop_then_def quote_is_expired_def ts_is_expired_def Let_def
      pop_modify_def pop_ret_def trade_new_def)

definition sample_live_quote :: "int quote" where
  "sample_live_quote = \<lparr> quote_id = 3, quote_rfq_id = 5, quote_venue_id = ''V1'', quote_price = Price 100, quote_quantity = Quantity 5,
     quote_commission = None, quote_valid_until = 50, quote_metadata = None, quote_created_at = 0,
     quote_last_look_required = False \<rparr>"

lemma sbe_execution_executes_nothing_witness:
  "\<exists>reply. handle_execute_trade (memory_app (\<lambda>_. True) (\<lambda>_. [])) sample_server_inputs (etr_from_domain 5 3)
      (Map.empty(5 \<mapsto> sample_rfq\<lparr> rfq_quotes := [sample_live_quote], rfq_state := Cancelled \<rparr>), [])
    = (Ret reply, Map.empty(5 \<mapsto> sample_rfq\<lparr> rfq_quotes := [sample_live_quote], rfq_state := Cancelled \<rparr>),
        [status_update sample_server_inputs (sample_rfq\<lparr> rfq_quotes := [sample_live_quote], rfq_state := Cancelled \<rparr>)
          Cancelled ''Trade executed''])"
  using sbe_execution_executes_nothing [where m = "etr_from_domain 5 3" and i = sample_server_inputs
      and r = "sample_rfq\<lparr> rfq_quotes := [sample_live_quote], rfq_state := Cancelled \<rparr>" and q = sample_live_quote
      and S = "Map.empty(5 \<mapsto> sample_rfq\<lparr> rfq_quotes := [sample_live_quote], rfq_state := Cancelled \<rparr>)"
      and us = "[]" and calendar = "\<lambda>_. True" and render = "\<lambda>_. []"]
  by (simp add: etr_from_domain_def sample_live_quote_def sample_server_inputs_def) blast

text \<open>
  Creating an RFQ over the binary interface skips the validation of the aggregate: a request whose quantity is not positive
  or whose expiry lies in the past, which the validating builder refuses, is stored and answered as created.
\<close>
theorem sbe_create_skips_validation:
  assumes "crm_client_id m \<noteq> []" "symbol_new (crm_symbol m) = Inr symb" "calendar (ts_add_secs (vi_now i) (sint (crm_timeout_seconds m)))"
    "\<not> quantity_is_positive D (crm_quantity m) \<or> ts_add_secs (vi_now i) (sint (crm_timeout_seconds m)) < now"
  shows "\<exists>r. handle_create_rfq D (memory_app calendar render) i m (S, us)
        = (Ret (rfq_to_response D r (crm_request_id m)), S(vi_fresh i \<mapsto> r), us @ [status_update i r Created ''RFQ created''])
      \<and> rfq_quantity r = crm_quantity m
      \<and> (\<exists>e. rb_try_build D (vi_fresh i) now built (rb_new (rfq_client_id r) (rfq_instrument r) (rfq_side r)
            (rfq_quantity r) (rfq_expires_at r)) = Inl e)"
proof -
  let ?b = "rb_new (crm_client_id m) (instrument_new symb (crm_asset_class m) settlement_method_default) (crm_side m)
      (crm_quantity m) (ts_add_secs (vi_now i) (sint (crm_timeout_seconds m)))"
  let ?r = "rb_build (vi_fresh i) (vi_now_built i) ?b"
  have "crm_symbol m \<noteq> []"
  proof
    assume "crm_symbol m = []"
    then show False using assms(2) by (simp add: symbol_new_def Let_def) (code_simp)
  qed
  then have "handle_create_rfq D (memory_app calendar render) i m (S, us)
      = (Ret (rfq_to_response D ?r (crm_request_id m)), S(vi_fresh i \<mapsto> ?r), us @ [status_update i ?r Created ''RFQ created''])"
    using assms(1-3)
    by (simp add: handle_create_rfq_def Let_def save_rfq_def handler_defs rb_build_def)
  moreover have "\<exists>e. rb_try_build D (vi_fresh i) now built ?b = Inl e"
    using assms(4)
    by (auto simp: rb_try_build_def rfq_validate_quantity_def rfq_validate_expiry_def rb_new_def ts_is_expired_def)
  ultimately show ?thesis by (intro exI [of _ ?r]) (simp add: rb_build_def rb_new_def)
qed

definition empty_order :: "int create_rfq_message" where
  "empty_order = \<lparr> crm_request_id = 1, crm_client_id = ''ACME'', crm_symbol = ''BTC/USD'', crm_base_asset = [],
     crm_quote_asset = [], crm_side = Buy, crm_quantity = Quantity 0, crm_timeout_seconds = 60, crm_asset_class = Stock \<rparr>"

lemma sample_symbol_new: "symbol_new ''BTC/USD'' = Inr \<lparr> sym_value = ''BTC/USD'', sym_separator_index = 3 \<rparr>"
  by code_simp

lemma sbe_create_skips_validation_witness:
  "\<exists>r. fst (snd (handle_create_rfq whole_dec sample_app sample_server_inputs empty_order (Map.empty, []))) = Map.empty(9 \<mapsto> r)
     \<and> rfq_quantity r = Quantity 0"
proof -
  have symbol: "symbol_new (crm_symbol empty_order) = Inr \<lparr> sym_value = ''BTC/USD'', sym_separator_index = 3 \<rparr>"
    by (simp add: empty_order_def sample_symbol_new)
  have timeout: "sint (60 :: u64) = 60" by simp
  from sbe_create_skips_validation [where S = Map.empty and us = "[]" and i = sample_server_inputs and D = whole_dec
      and calendar = "\<lambda>t. t < 8000000000000000000" and render = "\<lambda>_. []" and now = 0 and built = 0, OF _ symbol]
  show ?thesis
    by (simp add: empty_order_def sample_server_inputs_def sample_app_def ts_add_secs_def timeout quantity_is_positive_def)
      (metis fst_conv snd_conv)
qed

text \<open>
  Two frames that crash the session of the client that sends them: the first 24 bytes of a request to create an RFQ, and a
  complete request whose time-out leads beyond the calendar of the date package.
\<close>
theorem client_crashes_session:
  assumes "crm_fits D m" "crm_client_id m \<noteq> []" "symbol_new (crm_symbol m) = Inr symb"
    "\<not> ap_calendar A (ts_add_secs (vi_now i) (sint (crm_timeout_seconds m)))"
  shows "fst (session_step D A i (FrameRead (take 24 (crm_bytes D m))) queued c) = Crashed
    \<and> fst (session_step D A i (FrameRead (crm_bytes D m)) queued c) = Crashed"
proof -
  have len: "length (crm_bytes D m) = crm_encoded_size m" by (rule crm.message_size [OF assms(1)])
  have size: "43 \<le> crm_encoded_size m" by (simp add: crm_encoded_size_def)
  have template: "template_of (crm_bytes D m) = 20" "template_of (take 24 (crm_bytes D m)) = 20"
    by (simp_all add: template_of_def crm_bytes_def api_header_bytes_def)
  have cut: "crm_decode D (take 24 (crm_bytes D m)) = Panic"
    using crm_panics_at [OF assms(1), of 24] size by simp
  have dec: "crm_decode D (crm_bytes D m) = Ret m" using crm.decode_fitting [OF assms(1), of "[]"] by simp
  have "crm_symbol m \<noteq> []"
  proof
    assume "crm_symbol m = []"
    then show False using assms(3) by (simp add: symbol_new_def Let_def) (code_simp)
  qed
  then have "handle_create_rfq D A i m x = (Panic, x)" for x
    using assms(2-4) by (simp add: handle_create_rfq_def Let_def pop_read_def)
  then have "dispatch_message D A i (crm_bytes D m) x = (Panic, x)" for x
    using size by (simp add: dispatch_message_def len template serve_def dec pop_then_def pop_read_def)
  moreover have "dispatch_message D A i (take 24 (crm_bytes D m)) x = (Panic, x)" for x
    using size by (simp add: dispatch_message_def len template serve_def cut pop_then_def pop_read_def)
  ultimately show ?thesis using size by (simp add: session_step_def session_response_def len template)
qed

lemma client_crashes_session_witness:
  "fst (session_step whole_dec (memory_app (\<lambda>t. t < 60) (\<lambda>_. [])) sample_server_inputs
     (FrameRead (take 24 (crm_bytes whole_dec empty_order))) True (session_new 10 (Map.empty, []))) = Crashed"
proof (rule client_crashes_session [THEN conjunct1])
  show "crm_fits whole_dec empty_order"
    by (simp add: crm_fits_def empty_order_def quantity_fits_def whole_dec_fits str_fits_def utf8_valid_ascii)
  show "symbol_new (crm_symbol empty_order) = Inr \<lparr> sym_value = ''BTC/USD'', sym_separator_index = 3 \<rparr>"
    by (simp add: empty_order_def sample_symbol_new)
qed (simp_all add: empty_order_def ts_add_secs_def sample_server_inputs_def)

text \<open>
  Framing: a written frame is read back from the stream whatever follows it, one longer than the limit is refused before
  its bytes are read, and one that is cut off ends the connection.
\<close>
theorem frame_roundtrip:
  fixes bs :: bytes
  defines "read \<equiv> read_frame :: nat \<Rightarrow> bytes \<Rightarrow> 'd api_error + (bytes \<times> bytes)"
  assumes "write_frame data = Inr bs"
  shows "(length data \<le> max_size \<longrightarrow> read max_size (bs @ rest) = Inr (data, rest))
    \<and> (max_size < length data \<longrightarrow> read max_size (bs @ rest) = Inl (FrameTooLarge (length data) max_size))
    \<and> (\<forall>k < length bs. length data \<le> max_size \<longrightarrow> read max_size (take k bs) = Inl ConnectionClosed)"
proof -
  have len: "length data < 2 ^ 32" and bs: "bs = rev (to_le_bytes (of_nat (length data) :: u32)) @ data"
    using assms by (auto simp: write_frame_def split: if_splits)
  have prefix: "unat (from_le_bytes (rev (take 4 (bs @ more))) :: u32) = length data" for more
    using len by (simp add: bs unat_of_nat_small)
  have "read max_size (take k bs) = Inl ConnectionClosed" if "k < length bs" "length data \<le> max_size" for k
  proof (cases "k < 4")
    case False
    then have "take 4 (take k bs) = take 4 (bs @ [])" by (simp add: min_def)
    then have "unat (from_le_bytes (rev (take 4 (take k bs))) :: u32) = length data" by (simp only: prefix)
    then show ?thesis using that False by (simp add: read_def read_frame_def Let_def bs)
  qed (auto simp: read_def read_frame_def min_less_iff_disj)
  moreover have "read max_size (bs @ rest)
      = (if max_size < length data then Inl (FrameTooLarge (length data) max_size) else Inr (data, rest))"
    using prefix [of rest] by (simp add: read_def read_frame_def Let_def) (simp add: bs)
  ultimately show ?thesis by (intro conjI allI impI) simp_all
qed

lemma frame_roundtrip_witness: "(read_frame 10 ([0, 0, 0, 2, 7, 8] @ [9]) :: int api_error + _) = Inr ([7, 8], [9])"
proof -
  have "to_le_bytes (2 :: u32) = [2, 0, 0, 0]" by code_simp
  then have "write_frame [7, 8] = Inr [0, 0, 0, 2, 7, 8]" by (simp add: write_frame_def)
  then show ?thesis by (intro frame_roundtrip [THEN conjunct1, rule_format]) simp_all
qed

end
