(* ===== verification/Gatekeeping.thy ===== *)
theory Gatekeeping
  imports Text_Functions Instruments
begin

text \<open>
  Who may call the interface and how often: \<open>src/api/middleware/auth.rs\<close> and \<open>rate_limit.rs\<close>. The package that decodes
  tokens is a parameter, a function from the secret, the required issuer and audience and the token to the claims or the text of
  its error. A request is given by the headers and the query that the middleware reads; the extension with the claims is a
  field of it. Instants of the monotonic clock are natural numbers.
\<close>

section \<open>Authentication\<close>

record auth_config =
  ac_secret :: string
  ac_issuer :: "string option"
  ac_audience :: "string option"
  ac_allow_api_keys :: bool
  ac_api_keys :: "string set"
  ac_required :: bool

definition ac_new :: "string \<Rightarrow> auth_config" where
  "ac_new secret = \<lparr> ac_secret = secret, ac_issuer = None, ac_audience = None, ac_allow_api_keys = False,
     ac_api_keys = {}, ac_required = True \<rparr>"

definition ac_with_issuer :: "string \<Rightarrow> auth_config \<Rightarrow> auth_config" where
  "ac_with_issuer issuer c = c\<lparr> ac_issuer := Some issuer \<rparr>"

definition ac_with_audience :: "string \<Rightarrow> auth_config \<Rightarrow> auth_config" where
  "ac_with_audience audience c = c\<lparr> ac_audience := Some audience \<rparr>"

definition ac_with_api_keys :: "string list \<Rightarrow> auth_config \<Rightarrow> auth_config" where
  "ac_with_api_keys keys c = c\<lparr> ac_allow_api_keys := True, ac_api_keys := set keys \<rparr>"

definition ac_optional :: "auth_config \<Rightarrow> auth_config" where
  "ac_optional c = c\<lparr> ac_required := False \<rparr>"

record claims =
  cl_sub :: string
  cl_iss :: "string option"
  cl_aud :: "string option"
  cl_exp :: u64
  cl_iat :: u64
  cl_roles :: "string list"
  cl_permissions :: "string list"
  cl_client_id :: "string option"
  cl_org_id :: "string option"

definition claims_new :: "string \<Rightarrow> u64 \<Rightarrow> u64 \<Rightarrow> claims" where
  "claims_new sub ex iat = \<lparr> cl_sub = sub, cl_iss = None, cl_aud = None, cl_exp = ex, cl_iat = iat, cl_roles = [],
     cl_permissions = [], cl_client_id = None, cl_org_id = None \<rparr>"

definition claims_with_roles :: "string list \<Rightarrow> claims \<Rightarrow> claims" where
  "claims_with_roles roles c = c\<lparr> cl_roles := roles \<rparr>"

definition claims_has_role :: "string \<Rightarrow> claims \<Rightarrow> bool" where
  "claims_has_role role c \<longleftrightarrow> list_ex (\<lambda>r. r = role) (cl_roles c)"

definition claims_has_permission :: "string \<Rightarrow> claims \<Rightarrow> bool" where
  "claims_has_permission permission c \<longleftrightarrow> list_ex (\<lambda>p. p = permission) (cl_permissions c)"

definition claims_is_expired :: "u64 \<Rightarrow> claims \<Rightarrow> bool" where
  "claims_is_expired now c \<longleftrightarrow> cl_exp c < now"

datatype auth_error = MissingCredentials | InvalidTokenFormat | JwtValidationFailed string | TokenExpired
  | InvalidApiKey | InsufficientPermissions

text \<open>The status and the code of the response an error becomes.\<close>

definition auth_error_status :: "auth_error \<Rightarrow> nat \<times> string" where
  "auth_error_status e = (case e of
       MissingCredentials \<Rightarrow> (401, ''MISSING_CREDENTIALS'')
     | InvalidTokenFormat \<Rightarrow> (401, ''INVALID_TOKEN'')
     | JwtValidationFailed _ \<Rightarrow> (401, ''VALIDATION_FAILED'')
     | TokenExpired \<Rightarrow> (401, ''TOKEN_EXPIRED'')
     | InvalidApiKey \<Rightarrow> (401, ''INVALID_API_KEY'')
     | InsufficientPermissions \<Rightarrow> (403, ''FORBIDDEN''))"

definition strip_prefix :: "string \<Rightarrow> string \<Rightarrow> string option" where
  "strip_prefix p s = (if starts_with p s then Some (drop (length p) s) else None)"

definition or_else :: "'a option \<Rightarrow> 'a option \<Rightarrow> 'a option" where
  "or_else a b = (case a of None \<Rightarrow> b | Some _ \<Rightarrow> a)"

definition extract_bearer_token :: "string \<Rightarrow> string option" where
  "extract_bearer_token h = or_else (strip_prefix ''Bearer '' h) (strip_prefix ''bearer '' h)"

definition extract_api_key_from_header :: "string \<Rightarrow> string option" where
  "extract_api_key_from_header h = or_else (or_else (strip_prefix ''ApiKey '' h) (strip_prefix ''apikey '' h))
     (strip_prefix ''X-API-Key '' h)"

type_synonym jwt_decode = "string \<Rightarrow> string option \<Rightarrow> string option \<Rightarrow> string \<Rightarrow> string + claims"

definition validate_jwt :: "jwt_decode \<Rightarrow> string \<Rightarrow> auth_config \<Rightarrow> auth_error + claims" where
  "validate_jwt decode token c = (case decode (ac_secret c) (ac_issuer c) (ac_audience c) token of
       Inr cl \<Rightarrow> Inr cl
     | Inl text \<Rightarrow> if contains_str text ''ExpiredSignature'' then Inl TokenExpired else Inl (JwtValidationFailed text))"

text \<open>The pairs of a query: each piece between ampersands that has an equals sign, split at the first one.\<close>

definition split_pair :: "string \<Rightarrow> (string \<times> string) option" where
  "split_pair s = (case dropWhile (\<lambda>ch. ch \<noteq> CHR ''='') s of [] \<Rightarrow> None
     | _ # v \<Rightarrow> Some (takeWhile (\<lambda>ch. ch \<noteq> CHR ''='') s, v))"

definition query_pairs :: "string \<Rightarrow> (string \<times> string) list" where
  "query_pairs q = List.map_filter split_pair (split_char CHR ''&'' q)"

definition query_value :: "string \<Rightarrow> string option \<Rightarrow> string option" where
  "query_value key q = Option.bind q (\<lambda>q. map_option snd (find (\<lambda>(k, _). k = key) (query_pairs q)))"

record request =
  rq_authorization :: "string option"
  rq_query :: "string option"
  rq_forwarded_for :: "string option"
  rq_real_ip :: "string option"
  rq_claims :: "claims option"

text \<open>The middleware up to the call of the next handler: the request it passes on, or the error it answers with.\<close>

definition auth_middleware :: "jwt_decode \<Rightarrow> u64 \<Rightarrow> auth_config \<Rightarrow> request \<Rightarrow> auth_error + request" where
  "auth_middleware decode now c r =
     (case or_else (Option.bind (rq_authorization r) extract_bearer_token) (query_value ''token'' (rq_query r)) of
        Some token \<Rightarrow> rbind (validate_jwt decode token c) (\<lambda>cl. Inr (r\<lparr> rq_claims := Some cl \<rparr>))
      | None \<Rightarrow>
          (case (if ac_allow_api_keys c
                then or_else (Option.bind (rq_authorization r) extract_api_key_from_header)
                  (query_value ''api_key'' (rq_query r)) else None) of
             Some key \<Rightarrow>
               if key \<in> ac_api_keys c
               then Inr (r\<lparr> rq_claims := Some (claims_with_roles [''api-key''] (claims_new ''api-key-user'' (now + 3600) now)) \<rparr>)
               else Inl InvalidApiKey
           | None \<Rightarrow> if ac_required c then Inl MissingCredentials else Inr r))"

definition require_role :: "claims \<Rightarrow> string \<Rightarrow> auth_error + unit" where
  "require_role c role = (if claims_has_role role c then Inr () else Inl InsufficientPermissions)"

definition require_permission :: "claims \<Rightarrow> string \<Rightarrow> auth_error + unit" where
  "require_permission c permission =
     (if claims_has_permission permission c then Inr () else Inl InsufficientPermissions)"

definition authenticated_user :: "request \<Rightarrow> auth_error + claims" where
  "authenticated_user r = ok_or MissingCredentials (rq_claims r)"

section \<open>Rate limits\<close>

datatype client_tier = Standard | Professional | Enterprise

definition rfq_limit_per_minute :: "client_tier \<Rightarrow> u32" where
  "rfq_limit_per_minute t = (case t of Standard \<Rightarrow> 60 | Professional \<Rightarrow> 300 | Enterprise \<Rightarrow> 1000)"

definition quote_limit_per_minute :: "client_tier \<Rightarrow> u32" where
  "quote_limit_per_minute t = (case t of Standard \<Rightarrow> 300 | Professional \<Rightarrow> 1500 | Enterprise \<Rightarrow> 5000)"

definition api_limit_per_minute :: "client_tier \<Rightarrow> u32" where
  "api_limit_per_minute t = (case t of Standard \<Rightarrow> 600 | Professional \<Rightarrow> 3000 | Enterprise \<Rightarrow> 10000)"

datatype rate_limit_type = LimitRfq | LimitQuote | LimitApi

definition limit_for_tier :: "rate_limit_type \<Rightarrow> client_tier \<Rightarrow> u32" where
  "limit_for_tier k t = (case k of LimitRfq \<Rightarrow> rfq_limit_per_minute t | LimitQuote \<Rightarrow> quote_limit_per_minute t
     | LimitApi \<Rightarrow> api_limit_per_minute t)"

text \<open>Durations in nanoseconds.\<close>

definition sat_sub :: "u32 \<Rightarrow> u32 \<Rightarrow> u32" where
  "sat_sub a b = (if a < b then 0 else a - b)"

record rate_limit_config =
  rl_window :: nat
  rl_include_headers :: bool
  rl_enabled :: bool

definition rl_default :: rate_limit_config where
  "rl_default = \<lparr> rl_window = 60000000000, rl_include_headers = True, rl_enabled = True \<rparr>"

datatype rate_limit_error = LimitExceeded u32 u32 u64 | RateLimitInternal string

record rate_limit_info =
  ri_limit :: u32
  ri_remaining :: u32
  ri_reset_at :: u64

record counter_entry =
  ce_count :: u32
  ce_window_start :: nat
  ce_reset_at :: u64

definition ce_new :: "nat \<Rightarrow> u64 \<Rightarrow> counter_entry" where
  "ce_new start reset_at = \<lparr> ce_count = 0, ce_window_start = start, ce_reset_at = reset_at \<rparr>"

type_synonym counters = "string \<times> rate_limit_type \<rightharpoonup> counter_entry"

text \<open>
  What one check reads: \<open>now\<close> before it waits for the lock, \<open>insert\<close> and \<open>restart\<close> where a new entry is made
  under the lock, and the reset time computed from the wall clock.
\<close>

record rate_inputs =
  rn_now :: nat
  rn_insert :: nat
  rn_restart :: nat
  rn_reset_at :: u64

text \<open>\<open>duration_since\<close> is zero when the instants are the other way round, as subtraction is here.\<close>

definition check_and_increment :: "rate_limit_config \<Rightarrow> rate_inputs \<Rightarrow> string \<Rightarrow> client_tier \<Rightarrow> rate_limit_type
    \<Rightarrow> (counters, rate_limit_error, rate_limit_info) op" where
  "check_and_increment c i client tier kind cs =
     (if \<not> rl_enabled c then (Inr \<lparr> ri_limit = - 1, ri_remaining = - 1, ri_reset_at = 0 \<rparr>, cs)
      else
        let limit = limit_for_tier kind tier; key = (client, kind);
            entry = (case cs key of Some e \<Rightarrow> e | None \<Rightarrow> ce_new (rn_insert i) (rn_reset_at i));
            entry = (if rl_window c \<le> rn_now i - ce_window_start entry then ce_new (rn_restart i) (rn_reset_at i) else entry) in
        if limit \<le> ce_count entry then (Inl (LimitExceeded limit 0 (ce_reset_at entry)), cs(key \<mapsto> entry))
        else
          let entry = entry\<lparr> ce_count := ce_count entry + 1 \<rparr> in
          (Inr \<lparr> ri_limit = limit, ri_remaining = sat_sub limit (ce_count entry), ri_reset_at = ce_reset_at entry \<rparr>,
           cs(key \<mapsto> entry)))"

definition rl_get_info :: "rate_limit_config \<Rightarrow> rate_inputs \<Rightarrow> string \<Rightarrow> client_tier \<Rightarrow> rate_limit_type \<Rightarrow> counters
    \<Rightarrow> rate_limit_info" where
  "rl_get_info c i client tier kind cs =
     (if \<not> rl_enabled c then \<lparr> ri_limit = - 1, ri_remaining = - 1, ri_reset_at = 0 \<rparr>
      else
        let limit = limit_for_tier kind tier;
            fresh = \<lparr> ri_limit = limit, ri_remaining = limit, ri_reset_at = rn_reset_at i \<rparr> in
        case cs (client, kind) of
          Some e \<Rightarrow> if rn_now i - ce_window_start e < rl_window c
              then \<lparr> ri_limit = limit, ri_remaining = sat_sub limit (ce_count e), ri_reset_at = ce_reset_at e \<rparr> else fresh
        | None \<Rightarrow> fresh)"

definition rl_cleanup_expired :: "rate_limit_config \<Rightarrow> nat \<Rightarrow> counters \<Rightarrow> counters" where
  "rl_cleanup_expired c now cs = (\<lambda>key. case cs key of
       Some e \<Rightarrow> if now - ce_window_start e < rl_window c then Some e else None | None \<Rightarrow> None)"

definition extract_client_id :: "request \<Rightarrow> string" where
  "extract_client_id r = (case rq_claims r of
       Some cl \<Rightarrow> (case cl_client_id cl of Some i \<Rightarrow> i | None \<Rightarrow> cl_sub cl)
     | None \<Rightarrow> (case or_else (map_option (\<lambda>s. trim (hd (split_char CHR '','' s))) (rq_forwarded_for r)) (rq_real_ip r) of
           Some i \<Rightarrow> i | None \<Rightarrow> ''anonymous''))"

definition lower_char :: "char \<Rightarrow> char" where
  "lower_char ch = (if is_upper ch then char_of ((of_char ch :: nat) + 32) else ch)"

definition tier_of_role :: "string \<Rightarrow> client_tier option" where
  "tier_of_role role = (let r = map lower_char role in
     if r = ''enterprise'' then Some Enterprise else if r = ''professional'' then Some Professional
     else if r = ''standard'' then Some Standard else None)"

definition extract_tier :: "request \<Rightarrow> client_tier option" where
  "extract_tier r = Option.bind (rq_claims r) (\<lambda>cl. case List.map_filter tier_of_role (cl_roles cl) of
       t # _ \<Rightarrow> Some t | [] \<Rightarrow> None)"

record rate_limit_state =
  rs_config :: rate_limit_config
  rs_default_tier :: client_tier
  rs_default_limit_type :: rate_limit_type

definition rs_new :: rate_limit_state where
  "rs_new = \<lparr> rs_config = rl_default, rs_default_tier = Standard, rs_default_limit_type = LimitApi \<rparr>"

text \<open>The middleware up to the next handler, with the in-memory limiter.\<close>

definition rate_limit_middleware :: "rate_limit_state \<Rightarrow> rate_inputs \<Rightarrow> request \<Rightarrow> (counters, rate_limit_error, rate_limit_info) op" where
  "rate_limit_middleware s i r = check_and_increment (rs_config s) i (extract_client_id r)
     (case extract_tier r of Some t \<Rightarrow> t | None \<Rightarrow> rs_default_tier s) (rs_default_limit_type s)"

section \<open>Histories of the limiter\<close>

datatype rate_call = RateCheck rate_inputs string client_tier rate_limit_type | RateCleanup nat

text \<open>The counters a call leaves, and whether it was a check of \<open>key\<close> that was granted.\<close>

fun rate_step :: "rate_limit_config \<Rightarrow> string \<times> rate_limit_type \<Rightarrow> rate_call \<Rightarrow> counters \<Rightarrow> nat \<times> counters" where
  "rate_step c key (RateCheck i client tier kind) cs = (case check_and_increment c i client tier kind cs of
       (r, cs') \<Rightarrow> (if (client, kind) = key \<and> r \<in> range Inr then 1 else 0, cs'))"
| "rate_step c key (RateCleanup now) cs = (0, rl_cleanup_expired c now cs)"

fun granted :: "rate_limit_config \<Rightarrow> string \<times> rate_limit_type \<Rightarrow> rate_call list \<Rightarrow> counters \<Rightarrow> nat" where
  "granted c key [] cs = 0"
| "granted c key (x # xs) cs = (case rate_step c key x cs of (n, cs') \<Rightarrow> n + granted c key xs cs')"

text \<open>All readings of a call lie in the \<open>w\<close> nanoseconds from \<open>a\<close>, and a check is made for at most \<open>L\<close> grants.\<close>

fun call_within :: "nat \<Rightarrow> nat \<Rightarrow> nat \<Rightarrow> rate_call \<Rightarrow> bool" where
  "call_within a w L (RateCheck i client tier kind) \<longleftrightarrow> rn_now i < a + w \<and> a \<le> rn_insert i \<and> a \<le> rn_restart i
     \<and> unat (limit_for_tier kind tier) \<le> L"
| "call_within a w L (RateCleanup now) \<longleftrightarrow> now < a + w"

definition room :: "nat \<Rightarrow> counter_entry option \<Rightarrow> nat" where
  "room L e = (case e of None \<Rightarrow> L | Some e \<Rightarrow> L - unat (ce_count e))"

text \<open>The entry of the key was started within the period, so no call of it restarts the window.\<close>

definition young :: "nat \<Rightarrow> counter_entry option \<Rightarrow> bool" where
  "young a e \<longleftrightarrow> (case e of None \<Rightarrow> True | Some e \<Rightarrow> a \<le> ce_window_start e)"

lemma count_grows: "(n :: u32) < limit \<Longrightarrow> unat limit \<le> L \<Longrightarrow> unat (n + 1) = unat n + 1 \<and> unat n < L"
proof -
  assume "n < limit" "unat limit \<le> L"
  moreover have "unat limit < 2 ^ LENGTH(32)" by (rule unsigned_less)
  ultimately show ?thesis by (simp add: word_less_nat_alt unat_word_ariths)
qed

text \<open>What a check does to the entry of its key.\<close>

lemma check_entry:
  assumes "rl_enabled c" "check_and_increment c i client tier kind cs = (r, cs')" "unat (limit_for_tier kind tier) \<le> L"
  defines "e0 \<equiv> case cs (client, kind) of Some e \<Rightarrow> e | None \<Rightarrow> ce_new (rn_insert i) (rn_reset_at i)"
  defines "e1 \<equiv> if rl_window c \<le> rn_now i - ce_window_start e0 then ce_new (rn_restart i) (rn_reset_at i) else e0"
  shows "\<exists>e. cs' = cs((client, kind) \<mapsto> e) \<and> ce_window_start e = ce_window_start e1
    \<and> (if r \<in> range Inr then 1 else 0) + room L (Some e) \<le> room L (Some e1)"
proof (cases "limit_for_tier kind tier \<le> ce_count e1")
  case True
  then have "r = Inl (LimitExceeded (limit_for_tier kind tier) 0 (ce_reset_at e1))" "cs' = cs((client, kind) \<mapsto> e1)"
    using assms(1,2) unfolding check_and_increment_def Let_def e0_def [symmetric] e1_def [symmetric] by simp_all
  then show ?thesis by auto
next
  case False
  then have "r \<in> range Inr" "cs' = cs((client, kind) \<mapsto> e1\<lparr> ce_count := ce_count e1 + 1 \<rparr>)"
    using assms(1,2) unfolding check_and_increment_def Let_def e0_def [symmetric] e1_def [symmetric] by auto
  moreover have "unat (ce_count e1 + 1) = unat (ce_count e1) + 1 \<and> unat (ce_count e1) < L"
    using False assms(3) by (intro count_grows) simp_all
  ultimately show ?thesis by (intro exI [of _ "e1\<lparr> ce_count := ce_count e1 + 1 \<rparr>"]) (auto simp: room_def)
qed

lemma rate_step_young:
  assumes "rl_enabled c" "call_within a (rl_window c) L x" "young a (cs key)" "0 < rl_window c"
  shows "young a (snd (rate_step c key x cs) key)
    \<and> fst (rate_step c key x cs) + room L (snd (rate_step c key x cs) key) \<le> room L (cs key)"
proof (cases x)
  case (RateCheck i client tier kind)
  obtain r cs' where check: "check_and_increment c i client tier kind cs = (r, cs')" by fastforce
  define e0 where "e0 = (case cs (client, kind) of Some e \<Rightarrow> e | None \<Rightarrow> ce_new (rn_insert i) (rn_reset_at i))"
  have within: "rn_now i < a + rl_window c" "a \<le> rn_insert i" "unat (limit_for_tier kind tier) \<le> L"
    using assms(2) by (simp_all add: RateCheck)
  obtain e where e: "cs' = cs((client, kind) \<mapsto> e)"
      "ce_window_start e = ce_window_start (if rl_window c \<le> rn_now i - ce_window_start e0 then ce_new (rn_restart i) (rn_reset_at i) else e0)"
      "(if r \<in> range Inr then 1 else 0) + room L (Some e)
        \<le> room L (Some (if rl_window c \<le> rn_now i - ce_window_start e0 then ce_new (rn_restart i) (rn_reset_at i) else e0))"
    using check_entry [OF assms(1) check within(3)] unfolding e0_def by blast
  show ?thesis
  proof (cases "(client, kind) = key")
    case True
    have "a \<le> ce_window_start e0"
      using assms(3) within(2) True by (auto simp: e0_def young_def ce_new_def split: option.splits)
    moreover have "room L (Some e0) = room L (cs key)"
      using True by (auto simp: e0_def room_def ce_new_def split: option.splits)
    moreover have "\<not> rl_window c \<le> rn_now i - ce_window_start e0" using calculation(1) within(1) assms(4) by simp
    ultimately show ?thesis using e True check by (simp add: RateCheck young_def)
  qed (use assms(3) e check in \<open>simp add: RateCheck\<close>)
next
  case (RateCleanup now)
  then show ?thesis using assms by (auto simp: rl_cleanup_expired_def young_def room_def split: option.splits)
qed

lemma rate_step_old:
  assumes "rl_enabled c" "call_within a (rl_window c) L x"
  shows "(young a (snd (rate_step c key x cs) key)
      \<and> fst (rate_step c key x cs) + room L (snd (rate_step c key x cs) key) \<le> L)
    \<or> fst (rate_step c key x cs) + room L (snd (rate_step c key x cs) key) \<le> room L (cs key)"
proof (cases x)
  case (RateCheck i client tier kind)
  obtain r cs' where check: "check_and_increment c i client tier kind cs = (r, cs')" by fastforce
  define e0 where "e0 = (case cs (client, kind) of Some e \<Rightarrow> e | None \<Rightarrow> ce_new (rn_insert i) (rn_reset_at i))"
  define e1 where "e1 = (if rl_window c \<le> rn_now i - ce_window_start e0 then ce_new (rn_restart i) (rn_reset_at i) else e0)"
  have within: "a \<le> rn_insert i" "a \<le> rn_restart i" "unat (limit_for_tier kind tier) \<le> L"
    using assms(2) by (simp_all add: RateCheck)
  obtain e where e: "cs' = cs((client, kind) \<mapsto> e)" "ce_window_start e = ce_window_start e1"
      "(if r \<in> range Inr then 1 else 0) + room L (Some e) \<le> room L (Some e1)"
    using check_entry [OF assms(1) check within(3)] unfolding e0_def e1_def by blast
  have e1: "(a \<le> ce_window_start e1 \<and> room L (Some e1) \<le> L) \<or> Some e1 = cs (client, kind)"
    using within by (auto simp: e1_def e0_def ce_new_def room_def split: option.splits)
  show ?thesis
  proof (cases "(client, kind) = key")
    case True
    then show ?thesis using e e1 check by (auto simp: RateCheck young_def)
  qed (use e check in \<open>simp add: RateCheck\<close>)
next
  case (RateCleanup now)
  then show ?thesis by (auto simp: rl_cleanup_expired_def young_def room_def split: option.splits)
qed

lemma granted_young:
  "\<forall>x\<in>set xs. call_within a (rl_window c) L x \<Longrightarrow> rl_enabled c \<Longrightarrow> 0 < rl_window c \<Longrightarrow> young a (cs key) \<Longrightarrow> granted c key xs cs \<le> room L (cs key)"
proof (induction xs arbitrary: cs)
  case (Cons x xs)
  obtain n cs' where step: "rate_step c key x cs = (n, cs')" by fastforce
  have "young a (cs' key) \<and> n + room L (cs' key) \<le> room L (cs key)"
    using rate_step_young [of c a L x cs key] Cons.prems step by simp
  moreover have "granted c key xs cs' \<le> room L (cs' key)" using Cons calculation by simp
  ultimately show ?case by (simp add: step)
qed simp

lemma granted_bound:
  "\<forall>x\<in>set xs. call_within a (rl_window c) L x \<Longrightarrow> rl_enabled c \<Longrightarrow> 0 < rl_window c \<Longrightarrow> granted c key xs cs \<le> L + room L (cs key)"
proof (induction xs arbitrary: cs)
  case (Cons x xs)
  obtain n cs' where step: "rate_step c key x cs = (n, cs')" by fastforce
  have "(young a (cs' key) \<and> n + room L (cs' key) \<le> L) \<or> n + room L (cs' key) \<le> room L (cs key)"
    using rate_step_old [of c a L x key cs] Cons.prems step by simp
  then show ?case
  proof
    assume young: "young a (cs' key) \<and> n + room L (cs' key) \<le> L"
    then have "granted c key xs cs' \<le> room L (cs' key)" using granted_young [of xs a c L cs' key] Cons.prems by simp
    then show ?case using young by (simp add: step)
  next
    assume "n + room L (cs' key) \<le> room L (cs key)"
    moreover have "granted c key xs cs' \<le> L + room L (cs' key)" using Cons by simp
    ultimately show ?case by (simp add: step)
  qed
qed simp

section \<open>Properties\<close>

text \<open>
  C35. The rate limiter: whatever was counted before, and whatever other clients call or sweep meanwhile, within any period of
  one window a client whose tiers allow at most \<open>L\<close> requests is granted at most \<open>2 * L\<close>.
\<close>
theorem rate_limit_bound:
  assumes "rl_enabled c" "0 < rl_window c" "\<forall>x\<in>set calls. call_within a (rl_window c) L x"
  shows "granted c key calls cs \<le> 2 * L"
proof -
  have "granted c key calls cs \<le> L + room L (cs key)" by (rule granted_bound [OF assms(3,1,2)])
  moreover have "room L (cs key) \<le> L" by (auto simp: room_def split: option.split)
  ultimately show ?thesis by simp
qed

definition rate_inputs_at :: "nat \<Rightarrow> rate_inputs" where
  "rate_inputs_at t = \<lparr> rn_now = t, rn_insert = t, rn_restart = t, rn_reset_at = 0 \<rparr>"

text \<open>A window of three nanoseconds, to evaluate.\<close>

definition burst :: "nat \<Rightarrow> rate_call list" where
  "burst t = replicate 70 (RateCheck (rate_inputs_at t) ''ACME'' Standard LimitRfq)"

lemma rate_limit_bound_witness:
  "granted (rl_default\<lparr> rl_window := 3 \<rparr>) (''ACME'', LimitRfq) (burst 2 @ burst 3) (Map.empty((''ACME'', LimitRfq) \<mapsto> ce_new 0 0))
     \<le> 2 * 60"
  by (rule rate_limit_bound [where a = 2])
    (simp_all add: rl_default_def burst_def rate_inputs_at_def limit_for_tier_def rfq_limit_per_minute_def)

lemma fresh_name:
  assumes "finite N"
  shows "\<exists>s. s \<notin> N \<and> trim s = s \<and> split_char CHR '','' s = [s]"
proof -
  have "inj (\<lambda>n. replicate n CHR ''a'')" by (rule injI) (metis length_replicate)
  then obtain n where n: "replicate n CHR ''a'' \<notin> N"
    using assms finite_subset [of "range (\<lambda>n. replicate n CHR ''a'')" N] finite_imageD [of _ UNIV] by auto
  have "dropWhile is_space (replicate n CHR ''a'') = replicate n CHR ''a''"
    by (cases n) (simp_all add: is_space_def code_def)
  then have "trim (replicate n CHR ''a'') = replicate n CHR ''a''" by (simp add: trim_def)
  moreover have "split_char CHR '','' (replicate n CHR ''a'') = [replicate n CHR ''a'']"
    by (induction n) simp_all
  ultimately show ?thesis using n by blast
qed

text \<open>
  The limit binds only clients that keep their name: without claims the limiter counts by a header that the client sends, so
  for any counters there is a header with which the next request is granted.
\<close>
theorem forwarded_header_evades_limit:
  assumes "finite (dom cs)" "rl_enabled (rs_config s)" "0 < rl_window (rs_config s)" "rn_now i \<le> rn_insert i"
  shows "\<exists>header. fst (rate_limit_middleware s i (r\<lparr> rq_claims := None, rq_forwarded_for := Some header \<rparr>) cs) \<in> range Inr"
proof -
  obtain n where n: "n \<notin> fst ` dom cs" "trim n = n" "split_char CHR '','' n = [n]"
    using fresh_name [of "fst ` dom cs"] assms(1) by blast
  then have none: "cs (n, kind) = None" for kind by (metis domIff fst_conv image_eqI)
  have limit: "\<not> limit_for_tier kind tier \<le> 0" for kind tier
    by (cases kind; cases tier)
      (simp_all add: limit_for_tier_def rfq_limit_per_minute_def quote_limit_per_minute_def api_limit_per_minute_def)
  have "extract_client_id (r\<lparr> rq_claims := None, rq_forwarded_for := Some n \<rparr>) = n"
    using n(2,3) by (simp add: extract_client_id_def or_else_def)
  then have "fst (rate_limit_middleware s i (r\<lparr> rq_claims := None, rq_forwarded_for := Some n \<rparr>) cs) \<in> range Inr"
    using assms none limit by (simp add: rate_limit_middleware_def check_and_increment_def Let_def ce_new_def)
  then show ?thesis by blast
qed

definition plain_request :: request where
  "plain_request = \<lparr> rq_authorization = None, rq_query = None, rq_forwarded_for = None, rq_real_ip = None, rq_claims = None \<rparr>"

lemma forwarded_header_evades_limit_witness:
  "\<exists>header. fst (rate_limit_middleware rs_new (rate_inputs_at 5)
     (plain_request\<lparr> rq_claims := None, rq_forwarded_for := Some header \<rparr>)
     (Map.empty((''anonymous'', LimitApi) \<mapsto> (ce_new 0 0)\<lparr> ce_count := 600 \<rparr>))) \<in> range Inr"
  by (rule forwarded_header_evades_limit) (simp_all add: rs_new_def rl_default_def rate_inputs_at_def)

text \<open>
  What the authentication lets pass: a request whose token the package accepted, with the claims of the token; with API keys
  allowed, one that carries no token and a listed key, always under the same subject whatever the key; and, when
  authentication is optional, one without credentials, unchanged.
\<close>
theorem auth_admits:
  assumes "auth_middleware decode now c r = Inr r'"
  shows "(\<exists>token cl. decode (ac_secret c) (ac_issuer c) (ac_audience c) token = Inr cl \<and> r' = r\<lparr> rq_claims := Some cl \<rparr>
        \<and> or_else (Option.bind (rq_authorization r) extract_bearer_token) (query_value ''token'' (rq_query r)) = Some token)
    \<or> (\<exists>key\<in>ac_api_keys c. ac_allow_api_keys c \<and> extract_client_id r' = ''api-key-user''
        \<and> or_else (Option.bind (rq_authorization r) extract_api_key_from_header) (query_value ''api_key'' (rq_query r)) = Some key)
    \<or> (\<not> ac_required c \<and> r' = r)"
  using assms
  by (auto simp: auth_middleware_def validate_jwt_def extract_client_id_def claims_with_roles_def claims_new_def
      split: option.splits if_splits sum.splits)

lemma auth_admits_witness:
  "\<exists>key\<in>{''k1'', ''k2''}. or_else None (query_value ''api_key'' (Some ''x=1&api_key=k2'')) = Some key"
proof -
  let ?r = "plain_request\<lparr> rq_query := Some ''x=1&api_key=k2'' \<rparr>" and ?c = "ac_with_api_keys [''k1'', ''k2''] (ac_new [])"
  have "query_value ''token'' (Some ''x=1&api_key=k2'') = None" "query_value ''api_key'' (Some ''x=1&api_key=k2'') = Some ''k2''"
    by code_simp+
  then have "auth_middleware (\<lambda>_ _ _ _. Inl []) 0 ?c ?r
      = Inr (?r\<lparr> rq_claims := Some (claims_with_roles [''api-key''] (claims_new ''api-key-user'' 3600 0)) \<rparr>)"
    by (simp add: auth_middleware_def plain_request_def or_else_def ac_with_api_keys_def ac_new_def)
  from auth_admits [OF this] show ?thesis by (simp add: plain_request_def or_else_def ac_with_api_keys_def ac_new_def)
qed

end
