(* ===== verification/Price_Bounds.thy ===== *)
theory Price_Bounds
  imports Exact_Decimals Errors Instruments Effects
begin

text \<open>
  How far a price may lie from the market: the reference prices and tolerances of
  \<open>src/domain/value_objects/reference_price.rs\<close> and \<open>liquidity_classification.rs\<close>, the providers and the validator of
  \<open>src/application/services/price_bounds.rs\<close>, and the spreads of \<open>value_objects/spread_metrics.rs\<close>. A provider is a call on a
  state of the world. Decimal constants are built by the operation of the package.
\<close>

section \<open>Reference prices and tolerances\<close>

datatype liquidity_classification = Liquid | SemiLiquid | Illiquid

datatype reference_price_source = ClobMid | TheoreticalSource | ChainlinkIndex

definition rps_priority :: "reference_price_source \<Rightarrow> u8" where
  "rps_priority s = (case s of ClobMid \<Rightarrow> 0 | TheoreticalSource \<Rightarrow> 1 | ChainlinkIndex \<Rightarrow> 2)"

record 'd price_bounds_config =
  pbc_liquid_tolerance_pct :: 'd
  pbc_semi_liquid_tolerance_pct :: 'd
  pbc_illiquid_tolerance_pct :: 'd

definition pbc_new :: "'d dec \<Rightarrow> 'd \<Rightarrow> 'd \<Rightarrow> 'd \<Rightarrow> 'd price_bounds_config option" where
  "pbc_new D liquid semi_liquid illiquid =
     (if dneg_sign D liquid \<or> dneg_sign D semi_liquid \<or> dneg_sign D illiquid then None
      else Some \<lparr> pbc_liquid_tolerance_pct = liquid, pbc_semi_liquid_tolerance_pct = semi_liquid,
        pbc_illiquid_tolerance_pct = illiquid \<rparr>)"

definition pbc_default :: "'d dec \<Rightarrow> ('e, 'd price_bounds_config) outcome" where
  "pbc_default D =
     obind (or_panic (dnew D 5 2)) (\<lambda>liquid.
     obind (or_panic (dnew D 75 3)) (\<lambda>semi_liquid.
     obind (or_panic (dnew D 10 2)) (\<lambda>illiquid.
     Ret \<lparr> pbc_liquid_tolerance_pct = liquid, pbc_semi_liquid_tolerance_pct = semi_liquid,
       pbc_illiquid_tolerance_pct = illiquid \<rparr>)))"

definition tolerance_for :: "liquidity_classification \<Rightarrow> 'd price_bounds_config \<Rightarrow> 'd" where
  "tolerance_for l c = (case l of Liquid \<Rightarrow> pbc_liquid_tolerance_pct c
     | SemiLiquid \<Rightarrow> pbc_semi_liquid_tolerance_pct c | Illiquid \<Rightarrow> pbc_illiquid_tolerance_pct c)"

record 'd price_bounds_result =
  pbr_reference :: "'d price"
  pbr_source :: reference_price_source
  pbr_deviation_pct :: 'd

section \<open>Providers and the validator\<close>

type_synonym ('x, 'd) reference_provider =
  "'d instrument \<Rightarrow> ('x, 'd domain_error, ('d price \<times> reference_price_source) option) op"

text \<open>\<open>FallbackReferencePriceProvider::get_reference\<close>: the loop over the providers.\<close>

fun fallback_reference :: "('x, 'd) reference_provider list \<Rightarrow> ('x, 'd) reference_provider" where
  "fallback_reference [] ins = op_ret None"
| "fallback_reference (p # ps) ins = (\<lambda>x. case p ins x of
       (Inr (Some r), x') \<Rightarrow> (Inr (Some r), x')
     | (Inr None, x') \<Rightarrow> fallback_reference ps ins x'
     | (Inl e, x') \<Rightarrow> fallback_reference ps ins x')"

definition compute_deviation :: "'d dec \<Rightarrow> 'd price \<Rightarrow> 'd price \<Rightarrow> 'd domain_error + 'd" where
  "compute_deviation D proposed reference =
     (if dis_zero D (price_get reference) then Inl DivisionByZero
      else
        rbind (de_of_arith (dec_safe_sub D (price_get proposed) (price_get reference))) (\<lambda>diff.
        de_of_arith (dec_safe_div D (dabs D diff) (price_get reference))))"

definition pb_validate :: "'d dec \<Rightarrow> 'd price_bounds_config \<Rightarrow> ('x, 'd) reference_provider \<Rightarrow> 'd instrument
    \<Rightarrow> 'd price \<Rightarrow> liquidity_classification \<Rightarrow> ('x, 'd domain_error, 'd price_bounds_result) op" where
  "pb_validate D c provider ins proposed l =
     op_then (provider ins) (\<lambda>found.
     op_then (lift_result (ok_or NoReferencePrice found)) (\<lambda>(reference, source).
     op_then (lift_result (compute_deviation D proposed reference)) (\<lambda>deviation.
       let tolerance = tolerance_for l c in
       if dlt D tolerance deviation then op_fail (PriceOutOfBounds proposed reference deviation tolerance)
       else op_ret \<lparr> pbr_reference = reference, pbr_source = source, pbr_deviation_pct = deviation \<rparr>)))"

section \<open>Spreads\<close>

record 'd spread_metrics =
  sm_bid_price :: "'d price"
  sm_ask_price :: "'d price"
  sm_mid_price :: "'d price"
  sm_spread_bps :: 'd
  sm_half_spread_bps :: 'd

text \<open>The constants \<open>TWO\<close> and \<open>BPS_MULTIPLIER\<close> are whole numbers.\<close>

definition d_two :: "'d dec \<Rightarrow> 'd" where
  "d_two D = dof_int D 2"

definition bps_multiplier :: "'d dec \<Rightarrow> 'd" where
  "bps_multiplier D = dof_int D 10000"

definition spread_calculate :: "'d dec \<Rightarrow> 'd price \<Rightarrow> 'd price \<Rightarrow> 'd spread_metrics option" where
  "spread_calculate D bid ask =
     (if dlt D (price_get ask) (price_get bid) then None
      else
        Option.bind (dadd D (price_get bid) (price_get ask)) (\<lambda>total.
        Option.bind (ddiv D total (d_two D)) (\<lambda>mid_value.
        if dis_zero D mid_value then None
        else
          Option.bind (dsub D (price_get ask) (price_get bid)) (\<lambda>spread.
          Option.bind (ddiv D spread mid_value) (\<lambda>ratio.
          Option.bind (dmul D ratio (bps_multiplier D)) (\<lambda>spread_bps.
          Option.bind (ddiv D spread_bps (d_two D)) (\<lambda>half_spread_bps.
          case price_from_decimal D mid_value of
            Inl _ \<Rightarrow> None
          | Inr mid_price \<Rightarrow> Some \<lparr> sm_bid_price = bid, sm_ask_price = ask, sm_mid_price = mid_price,
              sm_spread_bps = spread_bps, sm_half_spread_bps = half_spread_bps \<rparr>)))))))"

definition sm_is_crossed :: "'d dec \<Rightarrow> 'd spread_metrics \<Rightarrow> bool" where
  "sm_is_crossed D m = dlt D (price_get (sm_ask_price m)) (price_get (sm_bid_price m))"

definition sm_is_locked :: "'d dec \<Rightarrow> 'd spread_metrics \<Rightarrow> bool" where
  "sm_is_locked D m = dis_zero D (sm_spread_bps m)"

definition sm_spread_percentage :: "'d dec \<Rightarrow> 'd spread_metrics \<Rightarrow> ('e, 'd) outcome" where
  "sm_spread_percentage D m = dover D (sm_spread_bps m) (dof_int D 100)"

record 'd effective_spread =
  es_execution_price :: "'d price"
  es_mid_price :: "'d price"
  es_effective_spread_bps :: 'd
  es_side :: order_side

definition es_calculate :: "'d dec \<Rightarrow> 'd price \<Rightarrow> 'd price \<Rightarrow> order_side \<Rightarrow> 'd effective_spread option" where
  "es_calculate D execution_price mid_price side =
     (let exec_value = price_get execution_price; mid_value = price_get mid_price in
      if dis_zero D mid_value then None
      else
        Option.bind (if dle D mid_value exec_value then dsub D exec_value mid_value else dsub D mid_value exec_value) (\<lambda>diff.
        Option.bind (dmul D diff (d_two D)) (\<lambda>doubled.
        Option.bind (ddiv D doubled mid_value) (\<lambda>ratio.
        Option.bind (dmul D ratio (bps_multiplier D)) (\<lambda>bps.
        Some \<lparr> es_execution_price = execution_price, es_mid_price = mid_price, es_effective_spread_bps = bps, es_side = side \<rparr>)))))"

definition es_is_better_than_quoted :: "'d dec \<Rightarrow> 'd \<Rightarrow> 'd effective_spread \<Rightarrow> ('e, bool) outcome" where
  "es_is_better_than_quoted D quoted_half_spread_bps e =
     obind (dover D (es_effective_spread_bps e) (d_two D)) (\<lambda>half. Ret (dlt D half quoted_half_spread_bps))"

record 'd realized_spread =
  rsp_effective_spread_bps :: 'd
  rsp_price_movement_bps :: 'd
  rsp_realized_spread_bps :: 'd
  rsp_side :: order_side

definition rsp_calculate :: "'d dec \<Rightarrow> 'd effective_spread \<Rightarrow> 'd price \<Rightarrow> 'd price \<Rightarrow> 'd realized_spread option" where
  "rsp_calculate D e mid_before mid_after =
     (let before_value = price_get mid_before; after_value = price_get mid_after in
      if dis_zero D before_value then None
      else
        Option.bind (dsub D after_value before_value) (\<lambda>diff.
        Option.bind (ddiv D diff before_value) (\<lambda>ratio.
        Option.bind (dmul D ratio (bps_multiplier D)) (\<lambda>movement.
        Option.bind (case es_side e of
            Buy \<Rightarrow> dsub D (es_effective_spread_bps e) movement
          | Sell \<Rightarrow> dadd D (es_effective_spread_bps e) movement) (\<lambda>realized.
        Some \<lparr> rsp_effective_spread_bps = es_effective_spread_bps e, rsp_price_movement_bps = movement,
          rsp_realized_spread_bps = realized, rsp_side = es_side e \<rparr>)))))"

definition rsp_has_adverse_selection :: "'d dec \<Rightarrow> 'd realized_spread \<Rightarrow> bool" where
  "rsp_has_adverse_selection D r = dlt D (rsp_effective_spread_bps r) (rsp_realized_spread_bps r)"

definition rsp_adverse_selection_bps :: "'d dec \<Rightarrow> 'd realized_spread \<Rightarrow> ('e, 'd) outcome" where
  "rsp_adverse_selection_bps D r = dminus D (rsp_realized_spread_bps r) (rsp_effective_spread_bps r)"

section \<open>Rounded arithmetic\<close>

text \<open>
  Documented of the decimals: an operation gives the exact result rounded by \<open>fl\<close>, where there is one, and it fails only beyond
  some magnitude; rounding is monotone and does not cross a decimal; negation and small whole numbers are exact.
\<close>

definition dec_rounded :: "'d dec \<Rightarrow> ('d \<Rightarrow> rat) \<Rightarrow> (rat \<Rightarrow> rat option) \<Rightarrow> bool" where
  "dec_rounded D val fl \<longleftrightarrow> (\<forall>a b. dle D a b \<longleftrightarrow> val a \<le> val b) \<and> val (dzero D) = 0
     \<and> (\<forall>x y u v. x \<le> y \<longrightarrow> fl x = Some u \<longrightarrow> fl y = Some v \<longrightarrow> u \<le> v)
     \<and> (\<forall>x u a. val a \<le> x \<longrightarrow> fl x = Some u \<longrightarrow> val a \<le> u)
     \<and> (\<forall>x u a. x \<le> val a \<longrightarrow> fl x = Some u \<longrightarrow> u \<le> val a)
     \<and> (\<forall>x y v. \<bar>x\<bar> \<le> \<bar>y\<bar> \<longrightarrow> fl y = Some v \<longrightarrow> (\<exists>u. fl x = Some u))
     \<and> (\<forall>a b. map_option val (dadd D a b) = fl (val a + val b))
     \<and> (\<forall>a b. map_option val (dsub D a b) = fl (val a - val b))
     \<and> (\<forall>a b. map_option val (dmul D a b) = fl (val a * val b))
     \<and> (\<forall>a b. val b \<noteq> 0 \<longrightarrow> map_option val (ddiv D a b) = fl (val a / val b))
     \<and> (\<forall>a. val (dnegate D a) = - val a)
     \<and> (\<forall>n. \<bar>n\<bar> \<le> 10000 \<longrightarrow> val (dof_int D n) = of_int n)"

lemma rounded_laws:
  assumes "dec_rounded D val fl"
  shows "dle D a b \<longleftrightarrow> val a \<le> val b" "val (dzero D) = 0"
    "x \<le> y \<Longrightarrow> fl x = Some u \<Longrightarrow> fl y = Some v \<Longrightarrow> u \<le> v"
    "val a \<le> x \<Longrightarrow> fl x = Some u \<Longrightarrow> val a \<le> u" "x \<le> val a \<Longrightarrow> fl x = Some u \<Longrightarrow> u \<le> val a"
    "dadd D a b = Some r \<Longrightarrow> fl (val a + val b) = Some (val r)"
    "dsub D a b = Some r \<Longrightarrow> fl (val a - val b) = Some (val r)"
    "dmul D a b = Some r \<Longrightarrow> fl (val a * val b) = Some (val r)"
    "ddiv D a b = Some r \<Longrightarrow> val b \<noteq> 0 \<Longrightarrow> fl (val a / val b) = Some (val r)"
    "val (dnegate D a) = - val a" "\<bar>n\<bar> \<le> 10000 \<Longrightarrow> val (dof_int D n) = of_int n"
proof -
  show "dle D a b \<longleftrightarrow> val a \<le> val b" "val (dzero D) = 0" "val (dnegate D a) = - val a"
    using assms unfolding dec_rounded_def by simp_all
  show "\<bar>n\<bar> \<le> 10000 \<Longrightarrow> val (dof_int D n) = of_int n" using assms unfolding dec_rounded_def by simp
  show "x \<le> y \<Longrightarrow> fl x = Some u \<Longrightarrow> fl y = Some v \<Longrightarrow> u \<le> v" using assms unfolding dec_rounded_def by metis
  show "val a \<le> x \<Longrightarrow> fl x = Some u \<Longrightarrow> val a \<le> u" "x \<le> val a \<Longrightarrow> fl x = Some u \<Longrightarrow> u \<le> val a"
    using assms unfolding dec_rounded_def by metis+
  have "map_option val (dadd D a b) = fl (val a + val b)" "map_option val (dsub D a b) = fl (val a - val b)"
    "map_option val (dmul D a b) = fl (val a * val b)" "val b \<noteq> 0 \<Longrightarrow> map_option val (ddiv D a b) = fl (val a / val b)"
    using assms unfolding dec_rounded_def by simp_all
  then show "dadd D a b = Some r \<Longrightarrow> fl (val a + val b) = Some (val r)"
    "dsub D a b = Some r \<Longrightarrow> fl (val a - val b) = Some (val r)"
    "dmul D a b = Some r \<Longrightarrow> fl (val a * val b) = Some (val r)"
    "ddiv D a b = Some r \<Longrightarrow> val b \<noteq> 0 \<Longrightarrow> fl (val a / val b) = Some (val r)"
    by simp_all
qed

lemma rounded_defined:
  assumes "dec_rounded D val fl" "\<bar>x\<bar> \<le> \<bar>y\<bar>" "fl y = Some v"
  shows "\<exists>u. fl x = Some u"
  using assms unfolding dec_rounded_def by metis

lemma rounded_operations:
  assumes "dec_rounded D val fl"
  shows "fl (val a - val b) = Some u \<Longrightarrow> \<exists>r. dsub D a b = Some r"
    "val b \<noteq> 0 \<Longrightarrow> fl (val a / val b) = Some u \<Longrightarrow> \<exists>r. ddiv D a b = Some r"
proof -
  have "map_option val (dsub D a b) = fl (val a - val b)" "val b \<noteq> 0 \<Longrightarrow> map_option val (ddiv D a b) = fl (val a / val b)"
    using assms unfolding dec_rounded_def by simp_all
  then show "fl (val a - val b) = Some u \<Longrightarrow> \<exists>r. dsub D a b = Some r"
    "val b \<noteq> 0 \<Longrightarrow> fl (val a / val b) = Some u \<Longrightarrow> \<exists>r. ddiv D a b = Some r" by auto
qed

lemma rounded_sign:
  assumes "dec_rounded D val fl" "fl x = Some u"
  shows "0 \<le> x \<Longrightarrow> 0 \<le> u" "x \<le> 0 \<Longrightarrow> u \<le> 0"
  using rounded_laws(4) [OF assms(1) _ assms(2), of "dzero D"] rounded_laws(5) [OF assms(1) _ assms(2), of "dzero D"]
  by (simp_all add: rounded_laws(2) [OF assms(1)])

lemma rounded_zero:
  assumes "dec_rounded D val fl" "dec_signs D"
  shows "dis_zero D a \<longleftrightarrow> val a = 0"
  using assms(2) unfolding dec_signs_def deq_def rounded_laws(1) [OF assms(1)] rounded_laws(2) [OF assms(1)]
  by (metis order_antisym order_refl)

lemma rounded_abs:
  assumes "dec_rounded D val fl" "dec_signs D"
  shows "val (dabs D a) = \<bar>val a\<bar>"
proof -
  have "val a < 0 \<Longrightarrow> dneg_sign D a" "dneg_sign D a \<Longrightarrow> val a \<le> 0"
    using assms(2) unfolding dec_signs_def dlt_def rounded_laws(1) [OF assms(1)] rounded_laws(2) [OF assms(1)] by auto
  then show ?thesis by (auto simp: dabs_def rounded_laws(10) [OF assms(1)] abs_if not_less)
qed

text \<open>Whole numbers round towards zero.\<close>

definition whole_round :: "rat \<Rightarrow> rat option" where
  "whole_round x = map_option of_int (whole_fit (if 0 \<le> x then \<lfloor>x\<rfloor> else \<lceil>x\<rceil>))"

lemma trunc_div_toward_zero:
  assumes "b \<noteq> 0"
  shows "trunc_div a b = (if 0 \<le> (of_int a / of_int b :: rat) then \<lfloor>of_int a / of_int b :: rat\<rfloor> else \<lceil>of_int a / of_int b :: rat\<rceil>)"
proof -
  have f: "\<lfloor>of_int x / of_int y :: rat\<rfloor> = x div y" for x y by (rule floor_divide_of_int_eq)
  have c: "\<lceil>of_int x / of_int y :: rat\<rceil> = - ((- x) div y)" for x y
    using f [of "- x" y] by (simp add: ceiling_def)
  consider "0 < b" "0 \<le> a" | "0 < b" "a < 0" | "b < 0" "0 < a" | "b < 0" "a \<le> 0" using assms by linarith
  then show ?thesis
  proof cases
    case 1 then show ?thesis by (auto simp: f trunc_div_def sgn_if)
  next
    case 2 then show ?thesis by (auto simp: c trunc_div_def sgn_if zero_le_divide_iff)
  next
    case 3 then show ?thesis by (auto simp: c trunc_div_def sgn_if zero_le_divide_iff div_minus_right)
  next
    case 4 then show ?thesis by (auto simp: f trunc_div_def sgn_if zero_le_divide_iff)
  qed
qed

lemma toward_zero_mono:
  fixes x y :: rat
  shows "x \<le> y \<Longrightarrow> (if 0 \<le> x then \<lfloor>x\<rfloor> else \<lceil>x\<rceil>) \<le> (if 0 \<le> y then \<lfloor>y\<rfloor> else \<lceil>y\<rceil>)"
proof -
  assume le: "x \<le> y"
  show ?thesis
  proof (cases "x < 0 \<and> 0 \<le> y")
    case True
    then have "\<lceil>x\<rceil> \<le> 0" "0 \<le> \<lfloor>y\<rfloor>" by (simp_all add: ceiling_le_zero)
    then have "\<lceil>x\<rceil> \<le> \<lfloor>y\<rfloor>" by (rule order_trans)
    then show ?thesis using True by simp
  next
    case False
    then show ?thesis using le floor_mono [of x y] ceiling_mono [of x y] by auto
  qed
qed

lemma whole_rounded: "dec_rounded whole_dec of_int whole_round"
proof -
  have int: "whole_round (of_int n) = map_option of_int (whole_fit n)" for n by (simp add: whole_round_def)
  have mono: "u \<le> v" if "whole_round x = Some u" "whole_round y = Some v" "x \<le> y" for x y u v
    using toward_zero_mono [OF that(3)] that(1,2) unfolding whole_round_def whole_fit_def
    by (auto simp del: of_int_le_iff simp: of_int_le_iff [where 'a = rat] split: if_split_asm)
  have fixed: "\<exists>r. whole_round x = Some u \<longrightarrow> u = of_int r \<and> r = (if 0 \<le> x then \<lfloor>x\<rfloor> else \<lceil>x\<rceil>)" for x u
    by (auto simp: whole_round_def whole_fit_def split: if_split_asm)
  have low: "of_int a \<le> u" if "of_int a \<le> x" "whole_round x = Some u" for a x u
    using fixed [of x u] that toward_zero_mono [OF that(1)] by (auto split: if_split_asm)
  have high: "u \<le> of_int a" if "x \<le> of_int a" "whole_round x = Some u" for a x u
    using fixed [of x u] that toward_zero_mono [OF that(1)] by (auto split: if_split_asm)
  have defined: "\<exists>u. whole_round x = Some u" if "\<bar>x\<bar> \<le> \<bar>y\<bar>" "whole_round y = Some v" for x y v
  proof -
    define big where "big z \<longleftrightarrow> 79228162514264337593543950336 \<le> \<lfloor>\<bar>z\<bar>\<rfloor>" for z :: rat
    have "\<bar>if 0 \<le> z then \<lfloor>z\<rfloor> else \<lceil>z\<rceil>\<bar> = \<lfloor>\<bar>z\<bar>\<rfloor>" for z :: rat by (simp add: ceiling_def)
    then have none: "whole_round z = None \<longleftrightarrow> big z" for z
      unfolding whole_round_def whole_fit_def big_def by (simp add: not_less)
    have "\<lfloor>\<bar>x\<bar>\<rfloor> \<le> \<lfloor>\<bar>y\<bar>\<rfloor>" using that(1) by (rule floor_mono)
    then have "big x \<Longrightarrow> big y" unfolding big_def by (rule order_trans [rotated])
    then show ?thesis using none [of x] none [of y] that(2) by auto
  qed
  have div: "map_option of_int (ddiv whole_dec a b) = whole_round (of_int a / of_int b)" if "b \<noteq> 0" for a b
    using that by (simp add: whole_dec_def whole_round_def trunc_div_toward_zero)
  have ops: "map_option of_int (dadd whole_dec a b) = whole_round (of_int a + of_int b)"
    "map_option of_int (dsub whole_dec a b) = whole_round (of_int a - of_int b)"
    "map_option of_int (dmul whole_dec a b) = whole_round (of_int a * of_int b)" for a b
    using int [of "a + b"] int [of "a - b"] int [of "a * b"] by simp_all
  have simple: "dle whole_dec a b \<longleftrightarrow> (of_int a :: rat) \<le> of_int b" "of_int (dzero whole_dec) = (0 :: rat)"
    "of_int (dnegate whole_dec a) = (- of_int a :: rat)" "of_int (dof_int whole_dec a) = (of_int a :: rat)" for a b
    by (simp_all add: whole_dec_def)
  show ?thesis
    unfolding dec_rounded_def
    by (intro conjI allI impI; (rule ops simple div | (erule mono low high defined, assumption) | (rule mono, assumption+) | assumption | simp)+)
qed

section \<open>Providers asked in turn\<close>

text \<open>What a call of a provider gives and leaves, whatever the state it is made in.\<close>

lemma fallback_never_fails: "fst (fallback_reference ps ins x) \<in> range Inr"
  by (induction ps arbitrary: x) (auto simp: op_ret_def split: prod.split sum.split option.split)

lemma fallback_skips:
  "fst (p ins x) \<in> {Inr None} \<union> range Inl \<Longrightarrow> fallback_reference (p # ps) ins x = fallback_reference ps ins (snd (p ins x))"
  by (auto split: prod.split sum.split option.split)

lemma fallback_answers:
  "fst (p ins x) = Inr (Some r) \<Longrightarrow> fallback_reference (p # ps) ins x = (Inr (Some r), snd (p ins x))"
  by (auto split: prod.split)

text \<open>The answers of the providers in a state that no call changes, and the first price among them.\<close>

definition ask_all :: "('d instrument \<Rightarrow> 'd domain_error + ('d price \<times> reference_price_source) option) list
    \<Rightarrow> (nat list, 'd) reference_provider" where
  "ask_all answers = fallback_reference (map (\<lambda>(k, answer) ins asked. (answer ins, asked @ [k])) (enumerate 0 answers))"

definition is_price :: "'d domain_error + ('d price \<times> reference_price_source) option \<Rightarrow> bool" where
  "is_price a \<longleftrightarrow> (case a of Inr (Some _) \<Rightarrow> True | _ \<Rightarrow> False)"

lemma fallback_asks:
  "fallback_reference (map (\<lambda>(k, answer) ins asked. (answer ins, asked @ [k])) (enumerate n answers)) ins asked
     = (case dropWhile (\<lambda>answer. \<not> is_price (answer ins)) answers of
          [] \<Rightarrow> (Inr None, asked @ [n..<n + length answers])
        | answer # _ \<Rightarrow> (answer ins, asked @ [n..<n + length (takeWhile (\<lambda>answer. \<not> is_price (answer ins)) answers) + 1]))"
proof (induction answers arbitrary: n asked)
  case (Cons answer answers)
  have from_n: "[n..<n + Suc k] = n # [Suc n..<Suc n + k]" for k by (simp add: upt_conv_Cons del: upt_Suc)
  show ?case
  proof (cases "is_price (answer ins)")
    case True
    then show ?thesis by (auto simp: is_price_def split: sum.splits option.splits)
  next
    case False
    then have "fallback_reference (map (\<lambda>(k, answer) ins asked. (answer ins, asked @ [k])) (enumerate n (answer # answers))) ins asked
        = fallback_reference (map (\<lambda>(k, answer) ins asked. (answer ins, asked @ [k])) (enumerate (Suc n) answers)) ins (asked @ [n])"
      by (auto simp: is_price_def split: sum.splits option.splits)
    note step = this [unfolded Cons.IH]
    show ?thesis
      unfolding step using False from_n [of "length answers"] from_n [of "length (takeWhile (\<lambda>answer. \<not> is_price (answer ins)) answers) + 1"]
      by (simp del: upt_Suc dropWhile_eq_Nil_conv split: list.split)
  qed
qed (simp add: op_ret_def)

lemma first_price:
  assumes "dropWhile (\<lambda>answer. \<not> is_price (answer ins)) answers = answer # rest"
  defines "k \<equiv> length (takeWhile (\<lambda>answer. \<not> is_price (answer ins)) answers)"
  shows "k < length answers \<and> answers ! k = answer \<and> is_price (answer ins) \<and> (\<forall>j<k. \<not> is_price ((answers ! j) ins))"
proof -
  have split: "answers = takeWhile (\<lambda>answer. \<not> is_price (answer ins)) answers @ answer # rest"
    using assms(1) by (metis takeWhile_dropWhile_id)
  have "is_price (answer ins)" using assms(1) by (simp add: dropWhile_eq_Cons_conv)
  moreover have "answers ! k = answer" "k < length answers"
    by (subst split, simp add: k_def nth_append) (subst split, simp add: k_def)
  moreover have "\<not> is_price ((answers ! j) ins)" if "j < k" for j
  proof -
    have "takeWhile (\<lambda>answer. \<not> is_price (answer ins)) answers ! j \<in> set (takeWhile (\<lambda>answer. \<not> is_price (answer ins)) answers)"
      using that unfolding k_def by (rule nth_mem)
    then show ?thesis using takeWhile_nth [OF that [unfolded k_def]] set_takeWhileD by metis
  qed
  ultimately show ?thesis by blast
qed

section \<open>Properties\<close>

text \<open>
  The verdict on a price: it passes only against the price of the first provider that has one, with a deviation within the
  tolerance of the instrument's liquidity; it is refused only without any reference price, against a reference of zero, when the
  deviation cannot be computed, or beyond the tolerance. A provider that fails is passed over, and none is asked after the
  one that answered.
\<close>
theorem price_bounds_verdict:
  assumes "pb_validate D c (ask_all answers) ins proposed l [] = (r, asked)"
  shows "(\<forall>e. r = Inl e \<longrightarrow> (\<forall>answer\<in>set answers. \<not> is_price (answer ins)) \<longrightarrow> e = NoReferencePrice \<and> asked = [0..<length answers])
    \<and> (\<forall>res. r = Inr res \<longrightarrow> (\<exists>answer\<in>set answers. is_price (answer ins)))
    \<and> (\<forall>k < length answers. \<forall>ref src. (answers ! k) ins = Inr (Some (ref, src)) \<and> (\<forall>j<k. \<not> is_price ((answers ! j) ins)) \<longrightarrow>
        asked = [0..<k + 1]
        \<and> r = (case compute_deviation D proposed ref of Inl e \<Rightarrow> Inl e
            | Inr d \<Rightarrow> if dlt D (tolerance_for l c) d then Inl (PriceOutOfBounds proposed ref d (tolerance_for l c))
                else Inr \<lparr> pbr_reference = ref, pbr_source = src, pbr_deviation_pct = d \<rparr>))"
proof (cases "dropWhile (\<lambda>answer. \<not> is_price (answer ins)) answers")
  case Nil
  then have none: "\<forall>answer\<in>set answers. \<not> is_price (answer ins)" by (simp add: dropWhile_eq_Nil_conv)
  have "r = Inl NoReferencePrice" "asked = [0..<length answers]"
    using assms by (auto simp: pb_validate_def ask_all_def fallback_asks Nil op_then_def lift_result_def)
  moreover have "(answers ! k) ins \<noteq> Inr (Some x)" if "k < length answers" for k x
    using none nth_mem [OF that] by (auto simp: is_price_def)
  ultimately show ?thesis using none by blast
next
  case (Cons answer rest)
  define k where "k = length (takeWhile (\<lambda>answer. \<not> is_price (answer ins)) answers)"
  have k: "k < length answers" "answers ! k = answer" "is_price (answer ins)" "\<forall>j<k. \<not> is_price ((answers ! j) ins)"
    using first_price [OF Cons] by (simp_all add: k_def)
  obtain ref src where price: "answer ins = Inr (Some (ref, src))"
    using k(3) by (auto simp: is_price_def split: sum.splits option.splits)
  have "asked = [0..<k + 1]" and "r = (case compute_deviation D proposed ref of Inl e \<Rightarrow> Inl e
        | Inr d \<Rightarrow> if dlt D (tolerance_for l c) d then Inl (PriceOutOfBounds proposed ref d (tolerance_for l c))
            else Inr \<lparr> pbr_reference = ref, pbr_source = src, pbr_deviation_pct = d \<rparr>)"
    using assms by (auto simp: pb_validate_def ask_all_def fallback_asks Cons price op_then_def lift_result_def Let_def
        op_fail_def op_ret_def k_def split: sum.splits if_splits)
  moreover have "j = k \<and> ref' = ref \<and> src' = src"
    if "j < length answers" "(answers ! j) ins = Inr (Some (ref', src'))" "\<forall>i<j. \<not> is_price ((answers ! i) ins)" for j ref' src'
  proof -
    have "is_price ((answers ! j) ins)" using that(2) by (simp add: is_price_def)
    then have "j = k" using that(1,3) k by (metis linorder_neqE_nat)
    then show ?thesis using that(2) k(2) price by simp
  qed
  moreover have "answer \<in> set answers" using k by auto
  ultimately show ?thesis using k(3) by blast
qed

definition sample_instrument :: "int instrument" where
  "sample_instrument = instrument_new \<lparr> sym_value = ''BTC/USD'', sym_separator_index = 3 \<rparr> Stock settlement_method_default"

definition sample_bounds :: "int price_bounds_config" where
  "sample_bounds = \<lparr> pbc_liquid_tolerance_pct = 0, pbc_semi_liquid_tolerance_pct = 1, pbc_illiquid_tolerance_pct = 2 \<rparr>"

text \<open>Three providers: the first fails, the second has no price, the third answers.\<close>

definition sample_answers :: "(int instrument \<Rightarrow> int domain_error + (int price \<times> reference_price_source) option) list" where
  "sample_answers = [\<lambda>_. Inl DivisionByZero, \<lambda>_. Inr None, \<lambda>_. Inr (Some (Price 100, TheoreticalSource)), \<lambda>_. Inr None]"

lemma price_bounds_verdict_witness:
  "pb_validate whole_dec sample_bounds (ask_all sample_answers) sample_instrument (Price 350) Illiquid []
     = (Inr \<lparr> pbr_reference = Price 100, pbr_source = TheoreticalSource, pbr_deviation_pct = 2 \<rparr>, [0, 1, 2])
   \<and> pb_validate whole_dec sample_bounds (ask_all sample_answers) sample_instrument (Price 350) SemiLiquid []
     = (Inl (PriceOutOfBounds (Price 350) (Price 100) 2 1), [0, 1, 2])"
proof -
  have verdict: "snd run = [0, 1, 2] \<and> fst run = (if tolerance_for l sample_bounds < 2
        then Inl (PriceOutOfBounds (Price 350) (Price 100) 2 (tolerance_for l sample_bounds))
        else Inr \<lparr> pbr_reference = Price 100, pbr_source = TheoreticalSource, pbr_deviation_pct = 2 \<rparr>)"
    if "run = pb_validate whole_dec sample_bounds (ask_all sample_answers) sample_instrument (Price 350) l []" for l run
  proof -
    have deviation: "compute_deviation whole_dec (Price 350) (Price 100) = Inr 2" by code_simp
    have "j < 2 \<Longrightarrow> \<not> is_price ((sample_answers ! j) sample_instrument)" for j
      by (cases j) (auto simp: sample_answers_def is_price_def less_Suc_eq numeral_2_eq_2)
    then show ?thesis
      using price_bounds_verdict [of whole_dec sample_bounds sample_answers sample_instrument "Price 350" l "fst run" "snd run",
          THEN conjunct2, THEN conjunct2, rule_format, of 2 "Price 100" TheoreticalSource] that
      by (simp add: deviation sample_answers_def dlt_def upt_rec not_le)
  qed
  show ?thesis
    using verdict [OF refl, of Illiquid] verdict [OF refl, of SemiLiquid] by (simp add: prod_eq_iff tolerance_for_def sample_bounds_def)
qed

text \<open>
  The prices accepted against a reference form an interval around it: when a price passes, so does every price between it and the
  reference it was checked against. The decimals may round, as documented of them.
\<close>
theorem accepted_prices_form_interval:
  assumes laws: "dec_rounded D val fl" "dec_signs D"
    and passed: "fst (pb_validate D c provider ins p l x) = Inr res"
    and reference: "0 \<le> val (price_get (pbr_reference res))"
    and between: "val (price_get p) \<le> val (price_get p') \<and> val (price_get p') \<le> val (price_get (pbr_reference res))
      \<or> val (price_get (pbr_reference res)) \<le> val (price_get p') \<and> val (price_get p') \<le> val (price_get p)"
  shows "fst (pb_validate D c provider ins p' l x) \<in> range Inr"
proof -
  let ?r = "price_get (pbr_reference res)" and ?t = "tolerance_for l c"
  note zero = rounded_zero [OF laws] and abs = rounded_abs [OF laws] and L = rounded_laws [OF laws(1)]
  obtain src x' d where found: "provider ins x = (Inr (Some (pbr_reference res, src)), x')"
    and dev: "compute_deviation D p (pbr_reference res) = Inr d" and le: "\<not> dlt D ?t d"
    using passed by (auto simp: pb_validate_def op_then_def lift_result_def Let_def op_fail_def op_ret_def
        split: prod.splits sum.splits option.splits if_splits)
  obtain diff where diff: "dsub D (price_get p) ?r = Some diff" "ddiv D (dabs D diff) ?r = Some d" and r: "val ?r \<noteq> 0"
    using dev by (auto simp: compute_deviation_def dec_safe_sub_def dec_safe_div_def zero split: if_splits)
  have small: "\<bar>val (price_get p') - val ?r\<bar> \<le> \<bar>val (price_get p) - val ?r\<bar>" using between by linarith
  obtain diff' where diff': "dsub D (price_get p') ?r = Some diff'"
    using rounded_defined [OF laws(1) small L(7) [OF diff(1)]] rounded_operations(1) [OF laws(1)] by blast
  have near: "\<bar>val diff'\<bar> \<le> \<bar>val diff\<bar>"
  proof -
    note v = L(7) [OF diff(1)] and v' = L(7) [OF diff']
    show ?thesis
      using between rounded_sign [OF laws(1) v] rounded_sign [OF laws(1) v'] L(3) [OF _ v v'] L(3) [OF _ v' v] by auto
  qed
  have quotient: "\<bar>val (dabs D diff') / val ?r\<bar> \<le> \<bar>val (dabs D diff) / val ?r\<bar>"
    using near by (simp add: abs abs_divide divide_right_mono)
  obtain d' where d': "ddiv D (dabs D diff') ?r = Some d'"
    using rounded_defined [OF laws(1) quotient L(9) [OF diff(2) r]] rounded_operations(2) [OF laws(1) r] by blast
  have "val (dabs D diff') / val ?r \<le> val (dabs D diff) / val ?r"
    using near reference r by (simp add: abs divide_right_mono)
  then have "val d' \<le> val d" using L(3) [OF _ L(9) [OF d' r] L(9) [OF diff(2) r]] by simp
  then have "\<not> dlt D ?t d'" using le by (auto simp: dlt_def L(1))
  moreover have "compute_deviation D p' (pbr_reference res) = Inr d'"
    using diff' d' r by (simp add: compute_deviation_def dec_safe_sub_def dec_safe_div_def zero)
  ultimately show ?thesis using found by (simp add: pb_validate_def lift_result_def Let_def op_ret_def)
qed

lemma accepted_prices_form_interval_witness:
  "fst (pb_validate whole_dec sample_bounds (ask_all sample_answers) sample_instrument (Price 250) Illiquid []) \<in> range Inr"
proof (rule accepted_prices_form_interval [OF whole_rounded whole_dec_signs, where p = "Price 350"
      and res = "\<lparr> pbr_reference = Price 100, pbr_source = TheoreticalSource, pbr_deviation_pct = 2 \<rparr>"])
  have "compute_deviation whole_dec (Price 350) (Price 100) = Inr 2" by code_simp
  then show "fst (pb_validate whole_dec sample_bounds (ask_all sample_answers) sample_instrument (Price 350) Illiquid [])
      = Inr \<lparr> pbr_reference = Price 100, pbr_source = TheoreticalSource, pbr_deviation_pct = 2 \<rparr>"
    by (simp add: pb_validate_def op_then_def lift_result_def ask_all_def sample_answers_def op_ret_def Let_def tolerance_for_def
        sample_bounds_def dlt_def)
qed simp_all

text \<open>
  The spread of a market: when it can be calculated the market is not crossed, the mid price is positive and, where the two prices are
  added without rounding, lies between them, the half spread lies between zero and the spread, and equal prices give a locked market.
\<close>
theorem spread_metrics_sane:
  assumes laws: "dec_rounded D val fl" "dec_signs D" and some: "spread_calculate D bid ask = Some m"
    and exact: "\<forall>t. dadd D (price_get bid) (price_get ask) = Some t \<longrightarrow> val t = val (price_get bid) + val (price_get ask)"
  shows "\<not> sm_is_crossed D m
    \<and> price_le D bid (sm_mid_price m) \<and> price_le D (sm_mid_price m) ask \<and> price_is_positive D (sm_mid_price m)
    \<and> dle D (dzero D) (sm_half_spread_bps m) \<and> dle D (sm_half_spread_bps m) (sm_spread_bps m)
    \<and> (val (price_get bid) = val (price_get ask) \<longrightarrow> sm_is_locked D m)"
proof -
  note zero = rounded_zero [OF laws] and L = rounded_laws [OF laws(1)] and sign = rounded_sign [OF laws(1)]
  let ?b = "price_get bid" and ?a = "price_get ask"
  obtain t mid sp ratio bps half where
    le: "dle D ?b ?a" and t: "dadd D ?b ?a = Some t" and mid: "ddiv D t (d_two D) = Some mid" "\<not> dis_zero D mid" "\<not> dneg_sign D mid"
    and sp: "dsub D ?a ?b = Some sp" and ratio: "ddiv D sp mid = Some ratio" and bps: "dmul D ratio (bps_multiplier D) = Some bps"
    and half: "ddiv D bps (d_two D) = Some half"
    and m: "m = \<lparr> sm_bid_price = bid, sm_ask_price = ask, sm_mid_price = Price mid, sm_spread_bps = bps, sm_half_spread_bps = half \<rparr>"
    using some by (auto simp: spread_calculate_def dlt_def price_from_decimal_def bind_eq_Some_conv split: if_splits)
  have two: "val (d_two D) = 2" and tenk: "val (bps_multiplier D) = 10000"
    using L(11) [of 2] L(11) [of 10000] by (simp_all add: d_two_def bps_multiplier_def)
  have le': "val ?b \<le> val ?a" using le by (simp add: L(1))
  have vt: "val t = val ?b + val ?a" using exact t by blast
  note vmid = L(9) [OF mid(1), unfolded two, simplified]
  have "val ?b \<le> val mid" "val mid \<le> val ?a"
    using L(4) [OF _ vmid, of ?b] L(5) [OF _ vmid, of ?a] vt le' by simp_all
  moreover have pos: "0 < val mid"
    using mid(2,3) laws(2) zero unfolding dec_signs_def dlt_def L(1) L(2) by (metis linorder_cases not_less)
  moreover have sp0: "0 \<le> val sp" using sign(1) [OF L(7) [OF sp]] le' by simp
  moreover have bps0: "0 \<le> val bps"
    using sign(1) [OF L(8) [OF bps]] sign(1) [OF L(9) [OF ratio]] sp0 pos by (simp add: tenk)
  moreover have "0 \<le> val half" "val half \<le> val bps"
    using sign(1) [OF L(9) [OF half]] L(5) [OF _ L(9) [OF half], of bps] bps0 by (simp_all add: two)
  moreover have "val bps = 0" if "val ?b = val ?a"
  proof -
    have "val sp = 0" using sign [OF L(7) [OF sp]] that by simp
    then have "val ratio = 0" using sign [OF L(9) [OF ratio]] pos by simp
    then show ?thesis using sign [OF L(8) [OF bps]] by simp
  qed
  ultimately show ?thesis using mid le
    by (simp add: m sm_is_crossed_def sm_is_locked_def price_le_def price_is_positive_def dlt_def zero L(1) L(2))
qed

lemma spread_metrics_sane_witness:
  "\<exists>m. spread_calculate whole_dec (Price 3) (Price 5) = Some m \<and> price_le whole_dec (Price 3) (sm_mid_price m)"
proof -
  obtain m where m: "spread_calculate whole_dec (Price 3) (Price 5) = Some m"
  proof
    show "spread_calculate whole_dec (Price 3) (Price 5)
        = Some \<lparr> sm_bid_price = Price 3, sm_ask_price = Price 5, sm_mid_price = Price 4, sm_spread_bps = 0, sm_half_spread_bps = 0 \<rparr>"
      by code_simp
  qed
  from spread_metrics_sane [OF whole_rounded whole_dec_signs m] m show ?thesis by (simp add: whole_fit_def)
qed

end
