(* ===== verification/Price_Discovery.thy ===== *)
theory Price_Discovery
  imports Ranking Events
begin

text \<open>
  Finding a price where no book gives one: \<open>src/domain/value_objects/price_discovery.rs\<close>, the pricer of options
  \<open>src/domain/services/theoretical_pricer.rs\<close>, the service \<open>price_discovery_service.rs\<close> and its events. The conversions between
  decimals and \<open>f64\<close> (\<open>T\<close> and \<open>F\<close>) and the functions of the platform's mathematics library (\<open>M\<close>) are parameters.
\<close>

section \<open>Methods and prices\<close>

datatype price_discovery_method = Clob | Indicative | InterestGathering | Theoretical

definition pdm_priority :: "price_discovery_method \<Rightarrow> u8" where
  "pdm_priority m = (case m of Clob \<Rightarrow> 0 | Indicative \<Rightarrow> 1 | InterestGathering \<Rightarrow> 2 | Theoretical \<Rightarrow> 3)"

definition pdm_is_firm :: "price_discovery_method \<Rightarrow> bool" where
  "pdm_is_firm m \<longleftrightarrow> m = Clob"

record 'd theoretical_price =
  tp_price :: "'d price"
  tp_implied_volatility :: f64
  tp_method :: price_discovery_method
  tp_confidence :: f64

definition tp_new :: "'d price \<Rightarrow> f64 \<Rightarrow> price_discovery_method \<Rightarrow> f64 \<Rightarrow> 'd theoretical_price" where
  "tp_new p iv m confidence = \<lparr> tp_price = p, tp_implied_volatility = f_max iv (lit 0), tp_method = m,
     tp_confidence = f_clamp confidence (lit 0) (lit 1) \<rparr>"

definition tp_is_reliable :: "'d theoretical_price \<Rightarrow> bool" where
  "tp_is_reliable p = f_le (lit (1 / 2)) (tp_confidence p)"

section \<open>The pricer\<close>

record libm =
  m_ln :: "f64 \<Rightarrow> f64"
  m_exp :: "f64 \<Rightarrow> f64"
  m_sqrt :: "f64 \<Rightarrow> f64"

text \<open>\<open>value.get().to_f64().ok_or_else(..)\<close>, and \<open>Price::new\<close>.\<close>

definition to_float :: "('d \<Rightarrow> f64 option) \<Rightarrow> string \<Rightarrow> 'd price \<Rightarrow> 'd domain_error + f64" where
  "to_float T problem p = ok_or (ValidationError (Txt problem)) (T (price_get p))"

definition price_new :: "'d dec \<Rightarrow> (f64 \<Rightarrow> 'd option) \<Rightarrow> f64 \<Rightarrow> arithmetic_error + 'd price" where
  "price_new D F v = rbind (ok_or (AeInvalidValue ''invalid float'') (F v)) (price_from_decimal D)"

definition price_or :: "'d dec \<Rightarrow> (f64 \<Rightarrow> 'd option) \<Rightarrow> string \<Rightarrow> f64 \<Rightarrow> 'd domain_error + 'd price" where
  "price_or D F problem v = (case price_new D F v of Inr p \<Rightarrow> Inr p
     | Inl e \<Rightarrow> Inl (ValidationError (Fmt problem [ArgMsg (arith_error_display e)])))"

text \<open>The comparison of the sort by distance, \<open>a.0.partial_cmp(&b.0).unwrap_or(Equal)\<close>.\<close>

definition nearer :: "f64 \<times> 'a \<Rightarrow> f64 \<times> 'a \<Rightarrow> bool" where
  "nearer a b = f_lt (fst a) (fst b)"

text \<open>The loop that pairs every reference with its distance from the strike.\<close>

fun with_distances :: "('d \<Rightarrow> f64 option) \<Rightarrow> f64 \<Rightarrow> ('d price \<times> f64) list \<Rightarrow> 'd domain_error + (f64 \<times> 'd price \<times> f64) list" where
  "with_distances T strike [] = Inr []"
| "with_distances T strike ((s, iv) # refs) =
     rbind (to_float T ''Failed to convert reference strike to f64'' s) (\<lambda>v.
     rbind (with_distances T strike refs) (\<lambda>rest. Inr ((f_abs (f_sub v strike), s, iv) # rest)))"

text \<open>The volatility from the two nearest references: between them linear, outside that of the nearer bound.\<close>

definition between_nearest :: "f64 \<Rightarrow> f64 \<Rightarrow> f64 \<Rightarrow> f64 \<Rightarrow> f64 \<Rightarrow> f64" where
  "between_nearest k v1 iv1 v2 iv2 =
     (let (lower, upper, lower_iv, upper_iv) = (if f_lt v1 v2 then (v1, v2, iv1, iv2) else (v2, v1, iv2, iv1)) in
      if f_le lower k \<and> f_le k upper
      then f_add lower_iv (f_mul (f_div (f_sub k lower) (f_sub upper lower)) (f_sub upper_iv lower_iv))
      else if f_lt k lower then lower_iv else upper_iv)"

definition interpolate_iv :: "('d \<Rightarrow> f64 option) \<Rightarrow> 'd price \<Rightarrow> ('d price \<times> f64) list \<Rightarrow> 'd domain_error + f64" where
  "interpolate_iv T strike nearby =
     (if nearby = [] then Inl (ValidationError (Txt ''No reference IVs provided''))
      else
        rbind (to_float T ''Failed to convert strike price to f64'' strike) (\<lambda>k.
        rbind (with_distances T k nearby) (\<lambda>refs. case sort_stable nearer refs of
            [] \<Rightarrow> Inl (ValidationError (Txt ''No reference IVs available''))
          | [(_, _, iv)] \<Rightarrow> Inr (f_max iv (lit (1 / 100)))
          | (_, s1, iv1) # (_, s2, iv2) # _ \<Rightarrow>
              rbind (to_float T ''Failed to convert s1 strike to f64'' s1) (\<lambda>v1.
              rbind (to_float T ''Failed to convert s2 strike to f64'' s2) (\<lambda>v2.
              Inr (f_max (between_nearest k v1 iv1 v2 iv2) (lit (1 / 100))))))))"

definition erf :: "libm \<Rightarrow> f64 \<Rightarrow> f64" where
  "erf M x =
     (let sg = (if f_le (lit 0) x then lit 1 else lit (- 1));
          x = f_abs x;
          a1 = lit (254829592 / 1000000000); a2 = lit (- (284496736 / 1000000000)); a3 = lit (1421413741 / 1000000000);
          a4 = lit (- (1453152027 / 1000000000)); a5 = lit (1061405429 / 1000000000); p = lit (3275911 / 10000000);
          t = f_div (lit 1) (f_add (lit 1) (f_mul p x));
          t2 = f_mul t t; t3 = f_mul t2 t; t4 = f_mul t3 t; t5 = f_mul t4 t;
          poly = f_add (f_add (f_add (f_add (f_mul a1 t) (f_mul a2 t2)) (f_mul a3 t3)) (f_mul a4 t4)) (f_mul a5 t5) in
      f_mul sg (f_sub (lit 1) (f_mul poly (m_exp M (f_mul (f_neg x) x)))))"

definition norm_cdf :: "libm \<Rightarrow> f64 \<Rightarrow> f64" where
  "norm_cdf M x = f_mul (lit (1 / 2)) (f_add (lit 1)
     (erf M (f_div x (lit (141421356237309504880168872420969807857 / 10 ^ 38)))))"

definition black_scholes :: "libm \<Rightarrow> f64 \<Rightarrow> f64 \<Rightarrow> f64 \<Rightarrow> f64 \<Rightarrow> f64 \<Rightarrow> bool \<Rightarrow> 'd domain_error + f64" where
  "black_scholes M spot strike time rate volatility is_call =
     (if f_le spot (lit 0) \<or> f_le strike (lit 0) \<or> f_le time (lit 0) \<or> f_le volatility (lit 0)
      then Inl (ValidationError (Txt ''All Black-Scholes parameters must be positive''))
      else
        let vol_sqrt_time = f_mul volatility (m_sqrt M time);
            drift = f_mul (f_add rate (f_mul (f_mul (lit (1 / 2)) volatility) volatility)) time;
            d1 = f_div (f_add (m_ln M (f_div spot strike)) drift) vol_sqrt_time;
            d2 = f_sub d1 vol_sqrt_time;
            discounted = f_mul strike (m_exp M (f_mul (f_neg rate) time));
            price = (if is_call
              then f_sub (f_mul spot (norm_cdf M d1)) (f_mul discounted (norm_cdf M d2))
              else f_sub (f_mul discounted (norm_cdf M (f_neg d2))) (f_mul spot (norm_cdf M (f_neg d1)))) in
        if \<not> f_finite price then Inl (ValidationError (Txt ''Black-Scholes produced non-finite result''))
        else Inr (f_max price (lit 0)))"

text \<open>\<open>min_by\<close> with the comparison above keeps the first of elements that compare equal; \<open>f64::MAX\<close> for no elements.\<close>

definition min_distance :: "f64 list \<Rightarrow> f64" where
  "min_distance ds = (case ds of [] \<Rightarrow> Fin (2 ^ 1024 - 2 ^ 971) | d # ds \<Rightarrow> foldl (\<lambda>a b. if f_lt b a then b else a) d ds)"

definition compute_confidence :: "('d \<Rightarrow> f64 option) \<Rightarrow> libm \<Rightarrow> 'd price \<Rightarrow> ('d price \<times> f64) list \<Rightarrow> f64 \<Rightarrow> f64" where
  "compute_confidence T M strike nearby time =
     (let k = f_of_dec T (price_get strike);
          distance = min_distance (map (\<lambda>(s, _). f_abs (f_sub (f_of_dec T (price_get s)) k)) nearby);
          distance_score = (if f_eq distance (lit 0) then lit 1 else f_div (lit 1) (f_add (lit 1) (f_div distance k)));
          time_score = m_exp M (f_neg time);
          data_score = f_min (f_div (f_of_int (int (length nearby))) (lit 10)) (lit 1) in
      f_clamp (f_mul (f_mul distance_score time_score) data_score) (lit 0) (lit 1))"

definition tpr_compute :: "'d dec \<Rightarrow> ('d \<Rightarrow> f64 option) \<Rightarrow> (f64 \<Rightarrow> 'd option) \<Rightarrow> libm \<Rightarrow> 'd price \<Rightarrow> 'd price \<Rightarrow> f64 \<Rightarrow> f64
    \<Rightarrow> ('d price \<times> f64) list \<Rightarrow> bool \<Rightarrow> 'd domain_error + 'd theoretical_price" where
  "tpr_compute D T F M underlying strike time rate nearby is_call =
     (if f_le time (lit 0) then Inl (ValidationError (Txt ''Time to expiry must be positive''))
      else if length nearby < 2 then Inl (ValidationError (Txt ''Need at least 2 reference IVs for interpolation''))
      else
        rbind (interpolate_iv T strike nearby) (\<lambda>iv.
        rbind (to_float T ''Failed to convert underlying price to f64'' underlying) (\<lambda>spot.
        rbind (to_float T ''Failed to convert strike to f64'' strike) (\<lambda>k.
        rbind (black_scholes M spot k time rate iv is_call) (\<lambda>v.
        rbind (price_or D F ''Invalid theoretical price: {}'' v) (\<lambda>p.
        Inr (tp_new p iv Theoretical (compute_confidence T M strike nearby time))))))))"

section \<open>The service\<close>

record 'd price_discovery_config =
  pdc_min_clob_depth :: "'d quantity"
  pdc_max_spread_ratio :: f64
  pdc_min_recent_volume :: "'d quantity"
  pdc_theoretical_spread_multiplier :: f64

text \<open>The constructor of the default unwraps what \<open>Quantity::from_decimal\<close> returns.\<close>

definition pdc_default :: "'d dec \<Rightarrow> ('e, 'd price_discovery_config) outcome" where
  "pdc_default D =
     obind (or_panic (dnew D 10000 0)) (\<lambda>depth.
     obind (or_panic (dnew D 5000 0)) (\<lambda>volume.
     case (quantity_from_decimal D depth, quantity_from_decimal D volume) of
       (Inr depth, Inr volume) \<Rightarrow> Ret \<lparr> pdc_min_clob_depth = depth, pdc_max_spread_ratio = lit (2 / 100),
         pdc_min_recent_volume = volume, pdc_theoretical_spread_multiplier = lit (3 / 2) \<rparr>
     | _ \<Rightarrow> Panic))"

record 'd liquidity_metrics =
  lm_clob_depth :: "'d quantity"
  lm_spread_ratio :: f64
  lm_recent_volume :: "'d quantity"
  lm_active_mm_count :: nat

definition lm_is_liquid :: "'d dec \<Rightarrow> 'd price_discovery_config \<Rightarrow> 'd liquidity_metrics \<Rightarrow> bool" where
  "lm_is_liquid D c m \<longleftrightarrow> dle D (quantity_get (pdc_min_clob_depth c)) (quantity_get (lm_clob_depth m))
     \<and> f_le (lm_spread_ratio m) (pdc_max_spread_ratio c)
     \<and> dle D (quantity_get (pdc_min_recent_volume c)) (quantity_get (lm_recent_volume m))"

record 'd method_selected =
  ms_metadata :: event_metadata
  ms_rfq_id :: uuid
  ms_instrument :: "'d instrument"
  ms_method :: price_discovery_method
  ms_reason :: string

record 'd theoretical_price_computed =
  tpc_metadata :: event_metadata
  tpc_rfq_id :: uuid
  tpc_instrument :: "'d instrument"
  tpc_theoretical_price :: "'d theoretical_price"
  tpc_reference_count :: nat

record 'd indicative_quote_requested =
  iqr_metadata :: event_metadata
  iqr_rfq_id :: uuid
  iqr_instrument :: "'d instrument"
  iqr_mm_count :: nat

record 'd interest_gathered =
  ig_metadata :: event_metadata
  ig_rfq_id :: uuid
  ig_instrument :: "'d instrument"
  ig_interested_count :: nat
  ig_total_contacted :: nat

definition ig_interest_rate :: "'d interest_gathered \<Rightarrow> f64" where
  "ig_interest_rate e = (if ig_total_contacted e = 0 then lit 0
     else f_div (f_of_int (int (ig_interested_count e))) (f_of_int (int (ig_total_contacted e))))"

definition pds_select_method :: "'d dec \<Rightarrow> 'd price_discovery_config \<Rightarrow> uuid \<Rightarrow> timestamp \<Rightarrow> uuid \<Rightarrow> 'd instrument
    \<Rightarrow> 'd liquidity_metrics \<Rightarrow> price_discovery_method \<times> 'd method_selected" where
  "pds_select_method D c event_id now i ins m =
     (let (method, reason) =
        (if lm_is_liquid D c m then (Clob, ''Sufficient CLOB liquidity'')
         else if 3 \<le> lm_active_mm_count m then (Indicative, ''Multiple MMs available for indicative quotes'')
         else if 0 < lm_active_mm_count m then (InterestGathering, ''Limited MMs - gather interest first'')
         else (Theoretical, ''No CLOB liquidity or active MMs - use theoretical pricing'')) in
      (method, \<lparr> ms_metadata = em_for_rfq event_id i now, ms_rfq_id = i, ms_instrument = ins, ms_method = method,
         ms_reason = reason \<rparr>))"

definition pds_compute_theoretical_price :: "'d dec \<Rightarrow> ('d \<Rightarrow> f64 option) \<Rightarrow> (f64 \<Rightarrow> 'd option) \<Rightarrow> libm \<Rightarrow> uuid \<Rightarrow> timestamp
    \<Rightarrow> uuid \<Rightarrow> 'd instrument \<Rightarrow> 'd price \<Rightarrow> 'd price \<Rightarrow> f64 \<Rightarrow> f64 \<Rightarrow> ('d price \<times> f64) list \<Rightarrow> bool
    \<Rightarrow> 'd domain_error + 'd theoretical_price \<times> 'd theoretical_price_computed" where
  "pds_compute_theoretical_price D T F M event_id now i ins underlying strike time rate nearby is_call =
     rbind (tpr_compute D T F M underlying strike time rate nearby is_call) (\<lambda>p.
       Inr (p, \<lparr> tpc_metadata = em_for_rfq event_id i now, tpc_rfq_id = i, tpc_instrument = ins,
         tpc_theoretical_price = p, tpc_reference_count = length nearby \<rparr>))"

definition pds_apply_spread_widening :: "'d dec \<Rightarrow> ('d \<Rightarrow> f64 option) \<Rightarrow> (f64 \<Rightarrow> 'd option) \<Rightarrow> 'd price_discovery_config
    \<Rightarrow> 'd price \<Rightarrow> f64 \<Rightarrow> 'd domain_error + 'd price \<times> 'd price" where
  "pds_apply_spread_widening D T F c base_price confidence =
     (let base_spread_ratio = f_mul (pdc_theoretical_spread_multiplier c) (lit (1 / 100));
          confidence_multiplier = f_div (lit 1) (f_max confidence (lit (1 / 10)));
          total_spread_ratio = f_mul base_spread_ratio confidence_multiplier in
      rbind (to_float T ''Failed to convert price to f64'' base_price) (\<lambda>base_value.
      let half_spread = f_div (f_mul base_value total_spread_ratio) (lit 2);
          bid_value = f_sub base_value half_spread; ask_value = f_add base_value half_spread in
      rbind (price_or D F ''Invalid bid price: {}'' (f_max bid_value (lit 0))) (\<lambda>bid.
      rbind (price_or D F ''Invalid ask price: {}'' ask_value) (\<lambda>ask. Inr (bid, ask)))))"

section \<open>Floats that are not NaN\<close>

lemma rnd64_not_nan [simp]: "rnd64 x \<noteq> NaN"
  by (simp add: rnd64_def Let_def)

lemma lit_int [simp]: "lit 0 = Fin 0" "lit 1 = Fin 1" "lit 2 = Fin 2" "lit (- 1) = Fin (- 1)"
  using rnd_int [of 1] rnd_int [of 2] by (simp_all add: rnd64_def Let_def)

lemma nan_absorbs [simp]: "f_mul x NaN = NaN" "f_add x NaN = NaN" "f_div x NaN = NaN" "f_sub x NaN = NaN" "f_sub NaN x = NaN"
  by (cases x; simp add: f_sub_def)+

lemma rnd_unit: "0 \<le> x \<Longrightarrow> x \<le> 1 \<Longrightarrow> 0 \<le> rnd x \<and> rnd x \<le> 1"
  using rnd_mono [of x 1] rnd_nonneg [of x] rnd_int [of 1] by simp

lemma rnd64_le:
  assumes "0 \<le> x" "x \<le> of_int n" "0 \<le> n" "n < 2 ^ 53"
  shows "rnd64 x = Fin (rnd x) \<and> 0 \<le> rnd x \<and> rnd x \<le> of_int n"
proof -
  have "rnd x \<le> of_int n" using rnd_mono [OF assms(2)] rnd_int [of n] assms(3,4) by simp
  moreover have "(of_int n :: rat) < 2 ^ 53" using assms(4) by (metis of_int_less_numeral_power_cancel_iff)
  moreover have "(2 :: rat) ^ 53 \<le> 2 ^ 1024" by (rule power_increasing) simp_all
  ultimately show ?thesis using rnd_nonneg [OF assms(1)] by (simp add: rnd64_def Let_def)
qed

lemma rnd64_nonneg: "0 \<le> x \<Longrightarrow> (\<exists>r\<ge>0. rnd64 x = Fin r) \<or> rnd64 x = Inf False"
  using rnd_nonneg [of x] by (auto simp: rnd64_def Let_def)

definition f_nonneg :: "f64 \<Rightarrow> bool" where
  "f_nonneg x \<longleftrightarrow> (\<exists>r\<ge>0. x = Fin r) \<or> x = Inf False"

lemma f_nonneg_rnd64: "0 \<le> x \<Longrightarrow> f_nonneg (rnd64 x)"
  using rnd64_nonneg [of x] by (simp add: f_nonneg_def)

lemma f_nonneg_div:
  assumes "f_nonneg d" "0 < k"
  shows "f_nonneg (f_div d (Fin k))"
proof -
  consider r where "d = Fin r" "0 \<le> r" | "d = Inf False" using assms(1) by (auto simp: f_nonneg_def)
  then show ?thesis
  proof cases
    case 1
    then show ?thesis using f_nonneg_rnd64 [of "r / k"] assms(2) by simp
  qed (use assms(2) in \<open>simp add: f_nonneg_def\<close>)
qed

lemma f_nonneg_abs_diff: "f_nonneg (f_abs (f_sub (Fin a) (Fin b)))"
  by (auto simp: f_nonneg_def f_sub_def rnd64_def Let_def)

lemma min_distance_nonneg: "\<forall>d\<in>set ds. f_nonneg d \<Longrightarrow> ds \<noteq> [] \<Longrightarrow> f_nonneg (min_distance ds)"
proof -
  have "f_nonneg a \<Longrightarrow> \<forall>d\<in>set ds. f_nonneg d \<Longrightarrow> f_nonneg (foldl (\<lambda>a b. if f_lt b a then b else a) a ds)" for a ds
    by (induction ds arbitrary: a) auto
  then show "\<forall>d\<in>set ds. f_nonneg d \<Longrightarrow> ds \<noteq> [] \<Longrightarrow> f_nonneg (min_distance ds)"
    by (cases ds) (auto simp: min_distance_def)
qed

lemma distance_score_unit:
  assumes "f_nonneg d" "0 < k"
  shows "\<exists>r. f_div (Fin 1) (f_add (Fin 1) (f_div d (Fin k))) = Fin r \<and> 0 \<le> r \<and> r \<le> 1"
proof -
  have "f_nonneg (f_div d (Fin k))" using assms by (rule f_nonneg_div)
  then consider q where "f_div d (Fin k) = Fin q" "0 \<le> q" | "f_div d (Fin k) = Inf False" by (auto simp: f_nonneg_def)
  then show ?thesis
  proof cases
    case 1
    have "1 \<le> rnd (1 + q)" using rnd_mono [of 1 "1 + q"] rnd_int [of 1] 1(2) by simp
    then have "(\<exists>s\<ge>1. f_add (Fin 1) (Fin q) = Fin s) \<or> f_add (Fin 1) (Fin q) = Inf False"
      by (auto simp: rnd64_def Let_def)
    then show ?thesis
    proof
      assume "\<exists>s\<ge>1. f_add (Fin 1) (Fin q) = Fin s"
      then obtain s where s: "1 \<le> s" "f_add (Fin 1) (Fin q) = Fin s" by blast
      then show ?thesis using rnd64_le [of "1 / s" 1] 1 by auto
    qed (simp add: 1)
  qed simp
qed

lemma f_clamp_unit: "x \<noteq> NaN \<Longrightarrow> \<exists>r. f_clamp x (Fin 0) (Fin 1) = Fin r \<and> 0 \<le> r \<and> r \<le> 1"
  by (cases x) (auto simp: f_clamp_def)

lemma f_max_ge: "b \<noteq> NaN \<Longrightarrow> f_le b (f_max a b)"
  by (cases a; cases b) (auto simp: f_le_def)

lemma f_max_ge_trans: "f_le c a \<Longrightarrow> f_le c (f_max a b)"
  by (cases a; cases b; cases c) (auto simp: f_le_def)

section \<open>The volatility\<close>

interpretation distances: sorting_order "\<lambda>a. fst a \<noteq> NaN" nearer
  by unfold_locales (simp_all add: nearer_def f_lt_asym, metis f_lt_neg_trans)

text \<open>Documented of the conversion: every decimal has a value, which is a finite \<open>f64\<close>.\<close>

definition finite_floats :: "('d \<Rightarrow> f64 option) \<Rightarrow> bool" where
  "finite_floats T \<longleftrightarrow> (\<forall>d. \<exists>x. T d = Some (Fin x) \<and> rnd x = x)"

definition fl_of :: "('d \<Rightarrow> f64 option) \<Rightarrow> 'd price \<Rightarrow> rat" where
  "fl_of T p = (case T (price_get p) of Some (Fin x) \<Rightarrow> x | _ \<Rightarrow> 0)"

lemma finite_to_float: "finite_floats T \<Longrightarrow> to_float T e p = Inr (Fin (fl_of T p))"
proof -
  assume "finite_floats T"
  then obtain x where "T (price_get p) = Some (Fin x)" unfolding finite_floats_def by blast
  then show ?thesis by (simp add: to_float_def fl_of_def)
qed

lemma finite_of_dec: "finite_floats T \<Longrightarrow> f_of_dec T (price_get p) = Fin (fl_of T p)"
proof -
  assume "finite_floats T"
  then obtain x where "T (price_get p) = Some (Fin x)" unfolding finite_floats_def by blast
  then show ?thesis by (simp add: f_of_dec_def fl_of_def)
qed

lemma fl_of_float: "finite_floats T \<Longrightarrow> rnd (fl_of T p) = fl_of T p"
proof -
  assume "finite_floats T"
  then obtain x where "T (price_get p) = Some (Fin x)" "rnd x = x" unfolding finite_floats_def by blast
  then show ?thesis by (simp add: fl_of_def)
qed

text \<open>Floats are multiples of the least one, so their difference rounds to zero only when they are equal.\<close>

lemma unit_exp_ge: "- 1074 \<le> unit_exp x"
  by (simp add: unit_exp_def)

lemma float_multiple:
  assumes "rnd x = x"
  shows "\<exists>m::int. x = of_int m * 2 powi (- 1074)"
proof (cases "x = 0")
  case False
  obtain k where k: "(2 :: rat) powi (unit_exp x + 1074) = of_int k"
    using powi_int_multiple [of "unit_exp x + 1074"] unit_exp_ge [of x] by auto
  define h where "h = half_even (x / 2 powi unit_exp x)"
  have "x = of_int h * 2 powi unit_exp x" using assms False by (simp add: rnd_def h_def)
  moreover have "(2 :: rat) powi unit_exp x = of_int k * 2 powi (- 1074)"
    unfolding k [symmetric] by (subst power_int_add [symmetric]) simp_all
  ultimately have "x = of_int (h * k) * 2 powi (- 1074)" by (simp only: of_int_mult mult.assoc)
  then show ?thesis by blast
qed (auto intro: exI [of _ 0])

lemma rnd_diff_zero:
  assumes "rnd a = a" "rnd b = b" "rnd (a - b) = 0"
  shows "a = b"
proof (rule ccontr)
  assume ne: "a \<noteq> b"
  let ?u = "2 powi (- 1074) :: rat"
  have u: "0 < ?u" by simp
  have "binexp ?u \<le> - 1074"
  proof (rule ccontr)
    assume "\<not> binexp ?u \<le> - 1074"
    then have "(2 :: rat) powi (- 1074) < 2 powi binexp ?u" by (intro power_int_strict_increasing) simp_all
    then show False using binexp_bounds(1) [OF u] by simp
  qed
  then have least: "?u \<le> rnd ?u" by (intro rnd_ge_bound) (simp_all add: unit_exp_def)
  obtain m n where mn: "a = of_int m * ?u" "b = of_int n * ?u" using float_multiple assms(1,2) by metis
  then have "a - b = of_int (m - n) * ?u" by (simp add: left_diff_distrib)
  moreover have "1 \<le> \<bar>m - n\<bar>" using ne mn by auto
  then have "1 * ?u \<le> of_int \<bar>m - n\<bar> * ?u" by (intro mult_right_mono) simp_all
  ultimately have "?u \<le> \<bar>a - b\<bar>" using u by (simp only: abs_mult of_int_abs)
  then have "?u \<le> rnd \<bar>a - b\<bar>" using least rnd_mono by (metis order_trans)
  moreover have "rnd \<bar>a - b\<bar> = 0" using assms(3) rnd_uminus [of "a - b"] by (simp add: abs_if)
  ultimately show False using u by simp
qed

lemma with_distances_finite:
  assumes "finite_floats T"
  shows "with_distances T k refs = Inr (map (\<lambda>(s, iv). (f_abs (f_sub (Fin (fl_of T s)) k), s, iv)) refs)"
  by (induction refs) (auto simp: finite_to_float [OF assms])

lemma interpolated_at_least:
  "interpolate_iv T strike nearby = Inr iv \<Longrightarrow> f_le (lit (1 / 100)) iv"
  by (auto simp: interpolate_iv_def split: if_splits) (auto simp: f_max_ge split: list.split_asm)

text \<open>Two elements at distance zero come first in the sorted list.\<close>

lemma two_nearest:
  assumes "sorted_wrt (\<lambda>a b. \<not> nearer b a) xs" "\<forall>x\<in>set xs. f_nonneg (fst x)"
    and "2 \<le> length (filter (\<lambda>x. fst x = Fin 0) xs)"
  shows "\<exists>a b rest. xs = (Fin 0, a) # (Fin 0, b) # rest"
proof -
  have far: "nearer y x" if "f_nonneg (fst x)" "fst x \<noteq> Fin 0" "fst y = Fin 0" for x y :: "f64 \<times> 'a"
    using that by (auto simp: f_nonneg_def nearer_def)
  have first: "fst x = Fin 0" if "sorted_wrt (\<lambda>a b. \<not> nearer b a) (x # ys)" "f_nonneg (fst x)"
    "filter (\<lambda>x. fst x = Fin 0) ys \<noteq> []" for x and ys :: "(f64 \<times> 'a) list"
    using that far [of x] by (auto simp: filter_empty_conv)
  obtain x xs' where xs: "xs = x # xs'" using assms(3) by (cases xs) auto
  have "filter (\<lambda>x. fst x = Fin 0) xs' \<noteq> []" using assms(3) by (auto simp: xs split: if_splits)
  then have x: "fst x = Fin 0" using first assms xs by auto
  then have some: "1 \<le> length (filter (\<lambda>x. fst x = Fin 0) xs')" using assms(3) by (simp add: xs)
  obtain y ys where ys: "xs' = y # ys" using some by (cases xs') auto
  have "fst y = Fin 0"
  proof (cases "filter (\<lambda>x. fst x = Fin 0) ys = []")
    case True
    then show ?thesis using some by (auto simp: ys split: if_splits)
  next
    case False
    then show ?thesis using first [of y ys] assms(1,2) by (auto simp: xs ys)
  qed
  then show ?thesis using x xs ys by (metis prod.collapse)
qed

section \<open>Properties\<close>

text \<open>Documented of the exponential function: of a number that is not positive it is between zero and one.\<close>

definition exp_law :: "libm \<Rightarrow> bool" where
  "exp_law M \<longleftrightarrow> (\<forall>x. f_le x (Fin 0) \<longrightarrow> (\<exists>r. m_exp M x = Fin r \<and> 0 \<le> r \<and> r \<le> 1))"

lemma erf_nan [simp]: "erf M NaN = NaN" "norm_cdf M NaN = NaN"
  by (simp_all add: erf_def norm_cdf_def Let_def)

lemma black_scholes_positive:
  assumes "black_scholes M spot strike time rate volatility is_call = Inr v"
  shows "\<not> f_le strike (Fin 0) \<and> \<not> f_le time (Fin 0) \<and> time \<noteq> NaN"
  using assms by (auto simp: black_scholes_def Let_def split: if_splits)

lemma confidence_unit:
  assumes "finite_floats T" "exp_law M" "0 < fl_of T strike" "f_le (f_neg time) (Fin 0)" "nearby \<noteq> []"
  shows "\<exists>r. compute_confidence T M strike nearby time = Fin r \<and> 0 \<le> r \<and> r \<le> 1"
proof -
  note dec = finite_of_dec [OF assms(1)]
  let ?d = "min_distance (map (\<lambda>(s, _). f_abs (f_sub (f_of_dec T (price_get s)) (f_of_dec T (price_get strike)))) nearby)"
  have "f_nonneg ?d" using assms(5) by (intro min_distance_nonneg) (auto simp: dec f_nonneg_abs_diff)
  then have "\<exists>a. f_div (Fin 1) (f_add (Fin 1) (f_div ?d (Fin (fl_of T strike)))) = Fin a \<and> 0 \<le> a \<and> a \<le> 1"
    using assms(3) by (rule distance_score_unit)
  then obtain a where a: "(if f_eq ?d (lit 0) then lit 1 else f_div (lit 1) (f_add (lit 1) (f_div ?d (f_of_dec T (price_get strike))))) = Fin a"
      "0 \<le> a" "a \<le> 1"
    unfolding dec lit_int by (cases "f_eq ?d (Fin 0)") (auto simp: dec)
  obtain b where b: "m_exp M (f_neg time) = Fin b" "0 \<le> b" "b \<le> 1" using assms(2,4) unfolding exp_law_def by blast
  have "a * b \<le> 1" using a(2,3) b(2,3) by (simp add: mult_le_one)
  then obtain c where c: "f_mul (Fin a) (Fin b) = Fin c" using rnd64_le [of "a * b" 1] a b by auto
  have "f_min (f_div (f_of_int n) (lit 10)) (lit 1) \<noteq> NaN" for n
    by (cases "f_div (f_of_int n) (lit 10)") auto
  moreover have "f_mul (Fin c) x \<noteq> NaN" if "x = Fin y" for x y using that by simp
  moreover have "\<exists>y. f_min (f_div (f_of_int (int n)) (lit 10)) (lit 1) = Fin y" for n
  proof -
    have ten: "lit 10 = Fin 10" using rnd_int [of 10] by (simp add: rnd64_def Let_def)
    have "f_nonneg (f_div (f_of_int (int n)) (Fin 10))" by (intro f_nonneg_div f_nonneg_rnd64) simp_all
    then show ?thesis by (auto simp: f_nonneg_def ten)
  qed
  ultimately have "f_mul (Fin c) (f_min (f_div (f_of_int (int (length nearby))) (lit 10)) (lit 1)) \<noteq> NaN" by metis
  then show ?thesis
    unfolding compute_confidence_def Let_def a(1) b(1) c using f_clamp_unit by simp
qed

text \<open>
  C32. What the pricer returns is a price that is not negative, a volatility of at least one per cent and a confidence
  between zero and one, never NaN: inputs that are not numbers, or that overflow, are refused.
\<close>
theorem theoretical_price_sane:
  assumes "finite_floats T" "exp_law M" "tpr_compute D T F M underlying strike time rate nearby is_call = Inr p"
  shows "\<not> dneg_sign D (price_get (tp_price p)) \<and> tp_method p = Theoretical
    \<and> f_le (lit (1 / 100)) (tp_implied_volatility p)
    \<and> (\<exists>r. tp_confidence p = Fin r \<and> 0 \<le> r \<and> r \<le> 1)"
proof -
  obtain iv v pr where iv: "interpolate_iv T strike nearby = Inr iv"
    and bs: "black_scholes M (Fin (fl_of T underlying)) (Fin (fl_of T strike)) time rate iv is_call = (Inr v :: 'a domain_error + f64)"
    and pr: "price_or D F ''Invalid theoretical price: {}'' v = Inr pr"
    and p: "p = tp_new pr iv Theoretical (compute_confidence T M strike nearby time)" and refs: "2 \<le> length nearby"
    using assms(3) by (auto simp: tpr_compute_def finite_to_float [OF assms(1)] split: if_splits)
  have k: "0 < fl_of T strike" and t: "f_le (f_neg time) (Fin 0)"
  proof -
    have "\<not> f_le (Fin (fl_of T strike)) (Fin 0)" "\<not> f_le time (Fin 0)" "time \<noteq> NaN"
      using black_scholes_positive [OF bs] by simp_all
    then show "0 < fl_of T strike" "f_le (f_neg time) (Fin 0)" by (simp add: f_le_def not_le, cases time, auto simp: f_le_def)
  qed
  have "nearby \<noteq> []" using refs by auto
  from confidence_unit [OF assms(1,2) k t this]
  obtain r where r: "compute_confidence T M strike nearby time = Fin r" "0 \<le> r" "r \<le> 1" by blast
  have "\<not> dneg_sign D (price_get pr)"
    using pr by (auto simp: price_or_def price_new_def price_from_decimal_def split: sum.splits if_splits)
  moreover have "f_clamp (Fin r) (lit 0) (lit 1) = Fin r" using r by (simp add: f_clamp_def)
  ultimately show ?thesis
    using r interpolated_at_least [OF iv] by (simp add: p tp_new_def f_max_ge_trans)
qed

definition small_float :: "int \<Rightarrow> f64 option" where
  "small_float d = Some (Fin (if \<bar>d\<bar> < 2 ^ 53 then of_int d else 0))"

definition floor_float :: "f64 \<Rightarrow> int option" where
  "floor_float x = (case x of Fin r \<Rightarrow> Some \<lfloor>r\<rfloor> | _ \<Rightarrow> None)"

text \<open>Logarithm and exponential that are constant, enough to price at an infinite rate.\<close>

definition flat_libm :: libm where
  "flat_libm = \<lparr> m_ln = \<lambda>_. Fin 0, m_exp = \<lambda>_. Fin 0, m_sqrt = \<lambda>x. x \<rparr>"

lemma small_float_finite: "finite_floats small_float"
  by (auto simp: finite_floats_def small_float_def rnd_int)

lemma flat_libm_exp: "exp_law flat_libm"
  by (auto simp: exp_law_def flat_libm_def)

lemma rnd_power:
  assumes "- 1074 \<le> e"
  shows "rnd (2 powi e) = 2 powi e"
proof -
  have pos: "(0 :: rat) < 2 powi e" by simp
  have "binexp (2 powi e) \<le> e"
  proof (rule ccontr)
    assume "\<not> binexp (2 powi e) \<le> e"
    then have "(2 :: rat) powi e < 2 powi binexp (2 powi e)" by (intro power_int_strict_increasing) simp_all
    then show False using binexp_bounds(1) [OF pos] by simp
  qed
  then have "unit_exp (2 powi e) \<le> e" using assms by (simp add: unit_exp_def)
  then show ?thesis using rnd_le_bound [OF pos, of e] rnd_ge_bound [OF pos, of e] by simp
qed

lemma lit_half: "lit (1 / 2) = Fin (1 / 2)"
proof -
  have "rnd (1 / 2) = 1 / 2" using rnd_power [of "- 1"] by (simp add: power_int_minus)
  then show ?thesis using rnd64_le [of "1 / 2" 1] by simp
qed

lemma lit_small:
  assumes "\<bar>x\<bar> \<le> 2"
  shows "\<exists>r. lit x = Fin r"
proof -
  have "rnd x \<le> 2" "- rnd x \<le> 2" using rnd_mono [of x 2] rnd_mono [of "- x" 2] assms rnd_int [of 2] by simp_all
  moreover have "(2 :: rat) < 2 ^ 1024" using power_strict_increasing [of 1 1024 "2 :: rat"] by simp
  ultimately have "\<not> 2 ^ 1024 \<le> \<bar>rnd x\<bar>" by linarith
  then show ?thesis by (simp add: rnd64_def Let_def)
qed

lemma lit_third: "\<exists>r>0. lit (3275911 / 10000000) = Fin r"
proof -
  have "2 powi (- 2) \<le> rnd (1 / 4)" using rnd_power [of "- 2"] by (simp add: power_int_minus)
  also have "\<dots> \<le> rnd (3275911 / 10000000)" by (rule rnd_mono) simp
  finally have "0 < rnd (3275911 / 10000000)" by (simp add: power_int_minus)
  then show ?thesis using rnd64_le [of "3275911 / 10000000" 1] by auto
qed

lemma norm_cdf_infinity: "norm_cdf flat_libm (Inf False) = Fin 1"
proof -
  obtain r where r: "0 < r" "lit (3275911 / 10000000) = Fin r" using lit_third by blast
  have "1 \<le> rnd (141421356237309504880168872420969807857 / 10 ^ 38)"
    using rnd_mono [of 1 "141421356237309504880168872420969807857 / 10 ^ 38"] rnd_int [of 1] by simp
  then obtain q where q: "0 < q" "lit (141421356237309504880168872420969807857 / 10 ^ 38) = Fin q"
    using rnd64_le [of "141421356237309504880168872420969807857 / 10 ^ 38" 2] by auto
  have at_zero: "f_mul (lit a) (Fin 0) = Fin 0" if "\<bar>a\<bar> \<le> 2" for a using lit_small [OF that] by auto
  have one: "erf flat_libm (Inf False) = Fin 1"
    unfolding erf_def Let_def r(2) using r(1) by (simp add: at_zero flat_libm_def f_le_def f_sub_def)
  have "f_div (Inf False) (lit (141421356237309504880168872420969807857 / 10 ^ 38)) = Inf False"
    unfolding q(2) using q(1) by simp
  then show ?thesis unfolding norm_cdf_def by (simp add: one lit_half)
qed

lemma lit_numeral: "numeral n < (2 :: int) ^ 53 \<Longrightarrow> lit (numeral n) = Fin (numeral n)"
  using rnd_int [of "numeral n"] rnd64_le [of "numeral n" "numeral n"] by simp

lemma theoretical_price_sane_witness:
  "\<exists>p. tpr_compute whole_dec small_float floor_float flat_libm (Price 120) (Price 100) (Fin 1) (Inf False)
       [(Price 120, Fin 1), (Price 110, Fin 1)] True = Inr p
     \<and> f_le (lit (1 / 100)) (tp_implied_volatility p)"
proof -
  obtain c where c: "lit (1 / 100) = Fin c" "c \<le> 1" using rnd64_le [of "1 / 100" 1] by auto
  have iv: "interpolate_iv small_float (Price 100) [(Price 120, Fin 1), (Price 110, Fin 1)] = Inr (Fin 1)"
    using c by (simp add: interpolate_iv_def to_float_def small_float_def f_sub_def lit_numeral sort_stable_def nearer_def
        between_nearest_def f_le_def)
  have price: "(black_scholes flat_libm (Fin 120) (Fin 100) (Fin 1) (Inf False) (Fin 1) True :: int domain_error + f64) = Inr (Fin 120)"
    by (simp add: black_scholes_def f_le_def flat_libm_def norm_cdf_infinity [unfolded flat_libm_def] lit_half lit_numeral f_sub_def)
  obtain p where "tpr_compute whole_dec small_float floor_float flat_libm (Price 120) (Price 100) (Fin 1) (Inf False)
       [(Price 120, Fin 1), (Price 110, Fin 1)] True = Inr p"
    by (simp add: tpr_compute_def f_le_def iv to_float_def small_float_def price price_or_def price_new_def floor_float_def
        price_from_decimal_def)
  with theoretical_price_sane [OF small_float_finite flat_libm_exp this] show ?thesis by blast
qed

text \<open>
  Two references at the very strike lose the volatility: whatever their volatilities, the interpolation divides zero by
  zero and the result falls to the minimum of one per cent.
\<close>
theorem duplicate_strikes_lose_volatility:
  assumes "finite_floats T" "2 \<le> length (filter (\<lambda>(s, _). fl_of T s = fl_of T strike) nearby)"
  shows "interpolate_iv T strike nearby = Inr (lit (1 / 100))"
proof -
  let ?k = "Fin (fl_of T strike)"
  define refs where "refs = map (\<lambda>(s, iv). (f_abs (f_sub (Fin (fl_of T s)) ?k), s, iv)) nearby"
  have at: "f_abs (f_sub (Fin a) (Fin b)) = Fin 0 \<longleftrightarrow> rnd (a - b) = 0" for a b
    by (auto simp: f_sub_def rnd64_def Let_def)
  have zero: "fl_of T s = fl_of T strike \<Longrightarrow> f_abs (f_sub (Fin (fl_of T s)) ?k) = Fin 0" for s by (simp add: at)
  have "length (filter (\<lambda>(s, _). fl_of T s = fl_of T strike) nearby) \<le> length (filter (\<lambda>x. fst x = Fin 0) refs)"
    unfolding refs_def using zero by (induction nearby) auto
  moreover have "filter (\<lambda>x. fst x = Fin 0) (sort_stable nearer refs) = filter (\<lambda>x. fst x = Fin 0) refs"
    by (rule sort_stable_is_stable) (simp add: nearer_def)
  moreover have ok: "\<forall>x\<in>set refs. f_nonneg (fst x)" by (auto simp: refs_def f_nonneg_abs_diff)
  moreover have "sorted_wrt (\<lambda>a b. \<not> nearer b a) (sort_stable nearer refs)"
    using ok by (intro distances.sorted_sort_stable) (auto simp: f_nonneg_def)
  ultimately obtain a b rest where sorted: "sort_stable nearer refs = (Fin 0, a) # (Fin 0, b) # rest"
    using two_nearest [of "sort_stable nearer refs"] assms(2) by fastforce
  have same: "fl_of T (fst c) = fl_of T strike" if "(Fin 0, c) \<in> set refs" for c
  proof (rule rnd_diff_zero [OF fl_of_float fl_of_float])
    show "rnd (fl_of T (fst c) - fl_of T strike) = 0" using that at [THEN iffD1, OF sym] by (auto simp: refs_def)
  qed (rule assms(1))+
  have "set (sort_stable nearer refs) = set refs" by simp
  then have "(Fin 0, a) \<in> set refs" "(Fin 0, b) \<in> set refs" unfolding sorted by auto
  note near = this [THEN same]
  obtain s1 iv1 s2 iv2 where ab: "a = (s1, iv1)" "b = (s2, iv2)" by (cases a; cases b)
  have some: "nearby \<noteq> []" using assms(2) by auto
  have "interpolate_iv T strike nearby = Inr (f_max (between_nearest ?k ?k iv1 ?k iv2) (lit (1 / 100)))"
    unfolding interpolate_iv_def finite_to_float [OF assms(1)] with_distances_finite [OF assms(1)] refs_def [symmetric] rbind.simps
      sorted ab list.case prod.case
    using near some by (simp add: ab)
  moreover have "between_nearest ?k ?k iv1 ?k iv2 = NaN" for iv1 iv2
    by (simp add: between_nearest_def f_le_def f_sub_def)
  ultimately show ?thesis by simp
qed

lemma duplicate_strikes_lose_volatility_witness:
  "interpolate_iv small_float (Price 100) [(Price 90, Fin 3), (Price 100, Fin (1 / 2)), (Price 100, Fin (1 / 2))] = Inr (lit (1 / 100))"
  by (rule duplicate_strikes_lose_volatility [OF small_float_finite]) (simp add: fl_of_def small_float_def)

section \<open>Spreads around a theoretical price\<close>

lemma f_le_simps [simp]: "f_le (Fin a) (Fin b) \<longleftrightarrow> a \<le> b" "x \<noteq> NaN \<Longrightarrow> f_le x (Inf False)" "x \<noteq> NaN \<Longrightarrow> f_le (Inf True) x"
  by (auto simp: f_le_def) (cases x; auto)+

lemma f_le_overflow:
  fixes u v bound :: rat
  assumes "u \<le> v" "0 < bound"
  shows "f_le (if bound \<le> \<bar>u\<bar> then Inf (u < 0) else Fin u) (if bound \<le> \<bar>v\<bar> then Inf (v < 0) else Fin v)"
  using assms by (auto simp: f_le_def)

lemma f_le_rnd64: "x \<le> y \<Longrightarrow> f_le (rnd64 x) (rnd64 y)"
  unfolding rnd64_def Let_def by (rule f_le_overflow [OF rnd_mono]) simp_all

lemma f_halve_mono:
  assumes "f_nonneg x" "f_nonneg y" "f_le x y"
  shows "f_le (f_div x (Fin 2)) (f_div y (Fin 2))"
proof -
  consider a b where "x = Fin a" "y = Fin b" "a \<le> b" | "y = Inf False" using assms by (auto simp: f_nonneg_def f_le_def)
  then show ?thesis
  proof cases
    case 1
    then show ?thesis using f_le_rnd64 [of "a / 2" "b / 2"] by simp
  next
    case 2
    have "f_div x (Fin 2) \<noteq> NaN" using assms(1) by (auto simp: f_nonneg_def)
    then show ?thesis using 2 by simp
  qed
qed

lemma f_around_mono:
  assumes "f_nonneg x" "f_nonneg y" "f_le x y"
  shows "f_le (f_sub (Fin b) y) (f_sub (Fin b) x)" "f_le (f_add (Fin b) x) (f_add (Fin b) y)" "f_le (f_sub (Fin b) x) (f_add (Fin b) x)"
proof -
  consider a c where "x = Fin a" "y = Fin c" "a \<le> c" "0 \<le> a" | "y = Inf False" using assms by (auto simp: f_nonneg_def f_le_def)
  then show "f_le (f_sub (Fin b) y) (f_sub (Fin b) x)"
    using assms(1) by cases (auto simp: f_sub_def f_nonneg_def intro: f_le_rnd64)
  show "f_le (f_add (Fin b) x) (f_add (Fin b) y)"
  proof (cases "y = Inf False")
    case False
    then obtain r s where "x = Fin r" "y = Fin s" "r \<le> s" using assms by (auto simp: f_nonneg_def f_le_def)
    then show ?thesis by (simp add: f_le_rnd64)
  qed (use assms(1) in \<open>auto simp: f_nonneg_def\<close>)
  show "f_le (f_sub (Fin b) x) (f_add (Fin b) x)"
  proof (cases "x = Inf False")
    case False
    then obtain r where "x = Fin r" "b - r \<le> b + r" using assms(1) by (auto simp: f_nonneg_def)
    then show ?thesis using f_le_rnd64 [of "b - r" "b + r"] by (simp add: f_sub_def)
  qed (simp add: f_sub_def)
qed

lemma f_max_mono: "f_le a c \<Longrightarrow> f_le (f_max a b) (f_max c b)"
  by (cases a; cases b; cases c) (auto simp: f_le_def)

lemma f_max_le: "f_le a c \<Longrightarrow> f_le b c \<Longrightarrow> f_le (f_max a b) c"
  by (cases a; cases b; cases c) (auto simp: f_le_def)

lemma lit_tenth: "\<exists>t. lit (1 / 10) = Fin t \<and> 1 / 16 \<le> t \<and> t \<le> 1"
proof -
  have "1 / 16 = rnd (1 / 16)" using rnd_power [of "- 4"] by (simp add: power_int_minus)
  also have "\<dots> \<le> rnd (1 / 10)" by (rule rnd_mono) simp
  finally show ?thesis using rnd64_le [of "1 / 10" 1] by simp
qed

text \<open>The ratio that a confidence gives, for a multiplier up to a hundred: it is finite and falls with the confidence.\<close>

lemma widening_ratio:
  assumes "0 \<le> m" "m \<le> 100"
  shows "\<exists>ratio. (\<forall>x. f_mul (f_mul (Fin m) (lit (1 / 100))) (f_div (lit 1) (f_max (Fin x) (lit (1 / 10)))) = Fin (ratio x))
    \<and> (\<forall>x. 0 \<le> ratio x) \<and> (\<forall>x y. x \<le> y \<longrightarrow> ratio y \<le> ratio x)"
proof -
  obtain t where t: "lit (1 / 10) = Fin t" "1 / 16 \<le> t" using lit_tenth by blast
  obtain h where h: "lit (1 / 100) = Fin h" "0 \<le> h" "h \<le> 1" using rnd64_le [of "1 / 100" 1] by auto
  have "m * h \<le> 100 * 1" using assms h by (intro mult_mono) simp_all
  then obtain r where r: "f_mul (Fin m) (lit (1 / 100)) = Fin r" "0 \<le> r" "r \<le> 100"
    using rnd64_le [of "m * h" 100] assms h by auto
  define c where "c x = rnd (1 / max x t)" for x
  have low: "1 / max x t \<le> 16" "0 \<le> 1 / max x t" for x
  proof -
    have "1 / 16 \<le> max x t" using t(2) by simp
    then have "1 / max x t \<le> 1 / (1 / 16)" by (intro divide_left_mono) simp_all
    then show "1 / max x t \<le> 16" by simp
    show "0 \<le> 1 / max x t" using t(2) by simp
  qed
  have c: "f_div (lit 1) (f_max (Fin x) (lit (1 / 10))) = Fin (c x)" "0 \<le> c x" "c x \<le> 16" for x
  proof -
    have "f_max (Fin x) (Fin t) = Fin (max x t)" by (auto simp: max_def)
    moreover have "max x t \<noteq> 0" using t(2) by (auto simp: max_def)
    ultimately show "f_div (lit 1) (f_max (Fin x) (lit (1 / 10))) = Fin (c x)" "0 \<le> c x" "c x \<le> 16"
      using rnd64_le [of "1 / max x t" 16] low [of x] by (simp_all add: t c_def)
  qed
  have anti: "c y \<le> c x" if "x \<le> y" for x y
    unfolding c_def using that t(2) by (intro rnd_mono divide_left_mono mult_pos_pos) (auto simp: max_def)
  have bound: "r * c x \<le> 100 * 16" for x using r c(2,3) [of x] by (intro mult_mono) simp_all
  have "f_mul (Fin r) (Fin (c x)) = Fin (rnd (r * c x)) \<and> 0 \<le> rnd (r * c x)" for x
    using rnd64_le [of "r * c x" 1600] bound [of x] r(2) c(2) [of x] by simp
  moreover have "rnd (r * c y) \<le> rnd (r * c x)" if "x \<le> y" for x y
    using r(2) anti [OF that] by (intro rnd_mono mult_left_mono)
  ultimately show ?thesis unfolding r(1) c(1) by (intro exI [of _ "\<lambda>x. rnd (r * c x)"]) simp
qed

text \<open>Documented of the conversion from \<open>f64\<close>: it keeps the order.\<close>

definition from_float_mono :: "'d dec \<Rightarrow> (f64 \<Rightarrow> 'd option) \<Rightarrow> bool" where
  "from_float_mono D F \<longleftrightarrow> (\<forall>x y a b. F x = Some a \<longrightarrow> F y = Some b \<longrightarrow> f_le x y \<longrightarrow> dle D a b)"

lemma price_or_mono:
  "from_float_mono D F \<Longrightarrow> price_or D F e x = Inr p \<Longrightarrow> price_or D F e' y = Inr q \<Longrightarrow> f_le x y \<Longrightarrow> price_le D p q"
  unfolding from_float_mono_def price_or_def price_new_def price_from_decimal_def price_le_def
  by (auto split: sum.splits if_splits)

text \<open>
  The quotes around a theoretical price are not crossed, and the less it is trusted the further they lie apart: with a
  lower confidence the bid is not higher and the ask not lower.
\<close>
theorem spread_widens_with_doubt:
  assumes "finite_floats T" "from_float_mono D F" "pdc_theoretical_spread_multiplier c = Fin m" "0 \<le> m" "m \<le> 100"
    and "0 \<le> fl_of T base_price" "x \<le> y"
    and doubt: "pds_apply_spread_widening D T F c base_price (Fin x) = Inr (bid, ask)"
    and trust: "pds_apply_spread_widening D T F c base_price (Fin y) = Inr (bid', ask')"
  shows "price_le D bid bid' \<and> price_le D bid' ask' \<and> price_le D ask' ask"
proof -
  let ?b = "fl_of T base_price"
  obtain ratio where ratio: "\<And>x. f_mul (f_mul (Fin m) (lit (1 / 100))) (f_div (lit 1) (f_max (Fin x) (lit (1 / 10)))) = Fin (ratio x)"
      "\<And>x. 0 \<le> ratio x" "\<And>x y. x \<le> y \<Longrightarrow> ratio y \<le> ratio x"
    using widening_ratio [OF assms(4,5)] by blast
  define half where "half x = f_div (f_mul (Fin ?b) (Fin (ratio x))) (Fin 2)" for x
  have quotes: "price_or D F ''Invalid bid price: {}'' (f_max (f_sub (Fin ?b) (half x)) (Fin 0)) = Inr bid
      \<and> price_or D F ''Invalid ask price: {}'' (f_add (Fin ?b) (half x)) = Inr ask"
    if "pds_apply_spread_widening D T F c base_price (Fin x) = Inr (bid, ask)" for x bid ask
    using that unfolding pds_apply_spread_widening_def Let_def finite_to_float [OF assms(1)] assms(3) ratio(1)
    by (auto simp: half_def)
  have nonneg: "f_nonneg (f_mul (Fin ?b) (Fin (ratio z)))" "f_nonneg (half z)" for z
    using f_nonneg_rnd64 [of "?b * ratio z"] assms(6) ratio(2) [of z] by (simp_all add: half_def f_nonneg_div)
  have "f_le (f_mul (Fin ?b) (Fin (ratio y))) (f_mul (Fin ?b) (Fin (ratio x)))"
    using f_le_rnd64 [OF mult_left_mono [OF ratio(3) [OF assms(7)] assms(6)]] by simp
  then have le: "f_le (half y) (half x)" unfolding half_def using nonneg(1) by (intro f_halve_mono)
  note around = f_around_mono [OF nonneg(2) nonneg(2) le, of ?b]
  have "f_le (Fin 0) (f_add (Fin ?b) (half y))"
    using nonneg(2) [of y] f_le_rnd64 [of 0] assms(6) by (auto simp: f_nonneg_def)
  then have crossed: "f_le (f_max (f_sub (Fin ?b) (half y)) (Fin 0)) (f_add (Fin ?b) (half y))" using around(3) by (intro f_max_le)
  note q = quotes [OF doubt] quotes [OF trust]
  show ?thesis
    using price_or_mono [OF assms(2) q(1) [THEN conjunct1] q(2) [THEN conjunct1] f_max_mono [OF around(1)]]
      price_or_mono [OF assms(2) q(2) [THEN conjunct1] q(2) [THEN conjunct2] crossed]
      price_or_mono [OF assms(2) q(2) [THEN conjunct2] q(1) [THEN conjunct2] around(2)] by blast
qed

lemma floor_float_mono: "from_float_mono whole_dec floor_float"
  by (auto simp: from_float_mono_def floor_float_def floor_mono split: f64.splits)

lemma spread_widens_with_doubt_witness:
  "\<exists>bid ask. pds_apply_spread_widening whole_dec small_float floor_float
      \<lparr> pdc_min_clob_depth = Quantity 0, pdc_max_spread_ratio = Fin 0, pdc_min_recent_volume = Quantity 0,
        pdc_theoretical_spread_multiplier = Fin 0 \<rparr> (Price 100) (Fin 0) = Inr (bid, ask) \<and> price_le whole_dec bid ask"
proof -
  let ?c = "\<lparr> pdc_min_clob_depth = Quantity 0, pdc_max_spread_ratio = Fin 0, pdc_min_recent_volume = Quantity 0,
        pdc_theoretical_spread_multiplier = Fin 0 \<rparr> :: int price_discovery_config"
  obtain h where h: "lit (1 / 100) = Fin h" using rnd64_le [of "1 / 100" 1] by auto
  obtain t where t: "lit (1 / 10) = Fin t" "1 / 16 \<le> t" using lit_tenth by blast
  have pos: "0 < t" using t(2) by simp
  have "rnd64 (1 / t) = Fin (rnd (1 / t))"
  proof -
    have "1 / t \<le> 1 / (1 / 16)" using t(2) by (intro divide_left_mono) simp_all
    then show ?thesis using rnd64_le [of "1 / t" 16] pos by simp
  qed
  then have widened: "pds_apply_spread_widening whole_dec small_float floor_float ?c (Price 100) (Fin 0) = Inr (Price 100, Price 100)"
    using pos by (simp add: pds_apply_spread_widening_def h t(1) to_float_def small_float_def Let_def f_sub_def lit_numeral price_or_def
        price_new_def floor_float_def price_from_decimal_def)
  have "price_le whole_dec (Price 100) (Price 100) \<and> price_le whole_dec (Price 100) (Price 100) \<and> price_le whole_dec (Price 100) (Price 100)"
    by (rule spread_widens_with_doubt [OF small_float_finite floor_float_mono _ _ _ _ _ widened widened, of 0])
      (simp_all add: fl_of_def small_float_def)
  then show ?thesis using widened by blast
qed

end
