(* ===== verification/Confirmations.thy ===== *)
theory Confirmations
  imports Counterparties Use_Cases Retrying
begin

text \<open>
  Telling the parties of a trade: the statuses of \<open>src/domain/value_objects/confirmation.rs\<close>, the service with retries of
  \<open>src/domain/services/confirmation_service.rs\<close>, and of \<open>src/infrastructure/notifications\<close> the callback adapter and the adapters
  over sessions (\<open>websocket_confirmation.rs\<close>, \<open>grpc_confirmation.rs\<close>) with their registries. What a channel answers is input:
  an adapter gives the answer to each of its attempts.
\<close>

section \<open>Statuses\<close>

datatype notification_destination = DestEmail string | DestWebhook string | DestWebSocket | DestGrpc "string option"

record 'd channel_delivery_status =
  cds_channel :: confirmation_channel
  cds_success :: bool
  cds_error :: "'d msg option"
  cds_retry_attempts :: u32

definition cds_succeeded :: "confirmation_channel \<Rightarrow> u32 \<Rightarrow> 'd channel_delivery_status" where
  "cds_succeeded c n = \<lparr> cds_channel = c, cds_success = True, cds_error = None, cds_retry_attempts = n \<rparr>"

definition cds_failed :: "confirmation_channel \<Rightarrow> 'd msg \<Rightarrow> u32 \<Rightarrow> 'd channel_delivery_status" where
  "cds_failed c e n = \<lparr> cds_channel = c, cds_success = False, cds_error = Some e, cds_retry_attempts = n \<rparr>"

datatype 'd confirmation_status = AllSent | PartialSuccess "'d channel_delivery_status list"
  | AllFailed "'d channel_delivery_status list"

definition from_results :: "'d channel_delivery_status list \<Rightarrow> 'd confirmation_status" where
  "from_results results = (let failed = filter (\<lambda>r. \<not> cds_success r) results in
     if failed = [] then AllSent
     else if length failed = length results then AllFailed results
     else PartialSuccess failed)"

section \<open>The service\<close>

text \<open>Durations in nanoseconds.\<close>

record confirmation_config =
  cfc_max_retry_attempts :: u32
  cfc_initial_retry_delay :: nat
  cfc_max_retry_delay :: nat
  cfc_timeout_per_channel :: nat

definition cfc_default :: confirmation_config where
  "cfc_default = \<lparr> cfc_max_retry_attempts = 3, cfc_initial_retry_delay = 1000000000,
     cfc_max_retry_delay = 30000000000, cfc_timeout_per_channel = 10000000000 \<rparr>"

text \<open>Whole milliseconds, as \<open>u128\<close> with saturation.\<close>

definition cfc_retry_delay :: "u32 \<Rightarrow> confirmation_config \<Rightarrow> nat" where
  "cfc_retry_delay attempt c =
     (let capped_attempt = min attempt 10;
          delay_ms = min (cfc_initial_retry_delay c div 1000000 * 2 ^ unat capped_attempt) (2 ^ 128 - 1);
          delay = min delay_ms (2 ^ 64 - 1) * 1000000 in
      min delay (cfc_max_retry_delay c))"

text \<open>What one attempt gives within the time-out of the channel.\<close>

datatype 'd send_answer = Returned "'d domain_error + unit" | NoAnswer | SendPanics

record 'd channel_adapter =
  ca_channel_type :: confirmation_channel
  ca_send :: "'d trade_confirmation \<Rightarrow> notification_destination \<Rightarrow> nat \<Rightarrow> 'd send_answer"

definition send_with_timeout :: "confirmation_channel \<Rightarrow> 'd send_answer \<Rightarrow> ('d domain_error, unit) outcome" where
  "send_with_timeout ch a = (case a of
       Returned r \<Rightarrow> of_result r
     | NoAnswer \<Rightarrow> Err (ConfirmationFailed (Txt (ch_as_str ch)) (Txt ''Timeout''))
     | SendPanics \<Rightarrow> Panic)"

text \<open>
  The loop of \<open>send_with_retry_static\<close>: \<open>answers\<close> from the attempt that is made now, \<open>slept\<close> the pauses so far. \<open>None\<close> where the
  loop does not end, an outcome \<open>Panic\<close> where the task ends by a panic.
\<close>

partial_function (option) send_with_retry :: "confirmation_config \<Rightarrow> confirmation_channel \<Rightarrow> (nat \<Rightarrow> 'd send_answer)
    \<Rightarrow> u32 \<Rightarrow> nat list \<Rightarrow> ((unit, 'd channel_delivery_status) outcome \<times> nat list) option" where
  "send_with_retry c ch answers attempts slept =
     (case send_with_timeout ch (answers (length slept)) of
        Ret _ \<Rightarrow> Some (Ret (cds_succeeded ch attempts), slept)
      | Panic \<Rightarrow> Some (Panic, slept)
      | Err e \<Rightarrow>
          if cfc_max_retry_attempts c < sat_add attempts 1
          then Some (Ret (cds_failed ch (Fmt ''Failed after {} attempts: {}''
            [ArgNat (unat (sat_add attempts 1)), ArgMsg (de_display e)]) (sat_add attempts 1 - 1)), slept)
          else send_with_retry c ch answers (sat_add attempts 1) (slept @ [cfc_retry_delay (sat_add attempts 1 - 1) c]))"

definition channel_destination :: "notification_preferences \<Rightarrow> confirmation_channel \<Rightarrow> notification_destination option" where
  "channel_destination p ch = (case ch of
       EmailChannel \<Rightarrow> map_option DestEmail (np_email_address p)
     | ApiCallbackChannel \<Rightarrow> map_option DestWebhook (np_webhook_url p)
     | WebSocketChannel \<Rightarrow> Some DestWebSocket
     | GrpcChannel \<Rightarrow> Some (DestGrpc (np_grpc_endpoint p)))"

text \<open>The task of one adapter.\<close>

definition deliver :: "confirmation_config \<Rightarrow> 'd trade_confirmation \<Rightarrow> notification_preferences \<Rightarrow> 'd channel_adapter
    \<Rightarrow> (unit, 'd channel_delivery_status) outcome option" where
  "deliver c confirmation p a = (let ch = ca_channel_type a in
     case channel_destination p ch of
       Some dest \<Rightarrow> map_option fst (send_with_retry c ch (ca_send a confirmation dest) 0 [])
     | None \<Rightarrow> Some (Ret (cds_failed ch (Fmt ''Missing required destination for channel {}'' [ArgStr (ch_as_str ch)]) 0)))"

text \<open>Waiting for all the tasks: those that panicked leave no status.\<close>

fun await_all :: "(unit, 'd channel_delivery_status) outcome option list \<Rightarrow> 'd channel_delivery_status list option" where
  "await_all [] = Some []"
| "await_all (None # ts) = None"
| "await_all (Some (Ret s) # ts) = map_option (\<lambda>rest. s # rest) (await_all ts)"
| "await_all (Some _ # ts) = await_all ts"

definition send_confirmation :: "confirmation_config \<Rightarrow> 'd channel_adapter list \<Rightarrow> 'd trade_confirmation
    \<Rightarrow> notification_preferences \<Rightarrow> 'd confirmation_status option" where
  "send_confirmation c adapters confirmation p =
     (if \<not> np_has_any_enabled p then Some AllSent
      else
        let active = filter (\<lambda>a. ca_channel_type a \<in> set (np_enabled_channels p)) adapters in
        if active = [] then Some AllSent
        else map_option from_results (await_all (map (deliver c confirmation p) active)))"

section \<open>The callback adapter\<close>

text \<open>What the request gives: no response, or a status code with its standard reason.\<close>

datatype http_answer = NoResponse string | HttpStatus nat "string option"

definition webhook_send :: "(string + string) \<Rightarrow> http_answer \<Rightarrow> notification_destination \<Rightarrow> 'd domain_error + unit" where
  "webhook_send json answer dest = (case dest of
       DestWebhook url \<Rightarrow>
         rbind (case json of Inl e \<Rightarrow> Inl (ConfirmationFailed (Txt ''API_CALLBACK'') (Fmt ''JSON serialization failed: {}'' [ArgStr e]))
           | Inr body \<Rightarrow> Inr body) (\<lambda>body.
         case answer of
           NoResponse e \<Rightarrow> Inl (ConfirmationFailed (Txt ''API_CALLBACK'') (Fmt ''HTTP request failed: {}'' [ArgStr e]))
         | HttpStatus status reason \<Rightarrow>
             if 200 \<le> status \<and> status < 300 then Inr ()
             else if 500 \<le> status \<and> status < 600
             then Inl (ConfirmationFailed (Txt ''API_CALLBACK'') (case reason of
                 Some r \<Rightarrow> Fmt ''Server error {}: {}'' [ArgNat status, ArgStr r] | None \<Rightarrow> Fmt ''Server error {}'' [ArgNat status]))
             else Inl (ConfirmationFailed (Txt ''API_CALLBACK'') (case reason of
                 Some r \<Rightarrow> Fmt ''Client error {}: {}'' [ArgNat status, ArgStr r] | None \<Rightarrow> Fmt ''Client error {}'' [ArgNat status])))
     | _ \<Rightarrow> Inl (InvalidNotificationPreferences (Txt ''Expected Webhook destination'')))"

section \<open>Adapters over sessions\<close>

text \<open>A session or stream: its printed form, whether it is up, and what sending to it gives.\<close>

record 'd client_session =
  ss_name :: string
  ss_is_up :: bool
  ss_send :: "'d domain_error + unit"

type_synonym 'd session_registry = "counterparty_id \<rightharpoonup> 'd client_session list"

definition reg_get :: "'d session_registry \<Rightarrow> counterparty_id \<Rightarrow> 'd client_session list" where
  "reg_get R i = (case R i of Some ss \<Rightarrow> ss | None \<Rightarrow> [])"

definition reg_register :: "counterparty_id \<Rightarrow> 'd client_session \<Rightarrow> 'd session_registry \<Rightarrow> 'd session_registry" where
  "reg_register i s R = R(i \<mapsto> reg_get R i @ [s])"

definition reg_remove :: "counterparty_id \<Rightarrow> string \<Rightarrow> 'd session_registry \<Rightarrow> 'd session_registry" where
  "reg_remove i name R = (case R i of None \<Rightarrow> R
     | Some ss \<Rightarrow> (let rest = filter (\<lambda>s. ss_name s \<noteq> name) ss in if rest = [] then R(i := None) else R(i \<mapsto> rest)))"

definition reg_cleanup :: "'d session_registry \<Rightarrow> 'd session_registry" where
  "reg_cleanup R = (\<lambda>i. case R i of None \<Rightarrow> None
     | Some ss \<Rightarrow> (let up = filter ss_is_up ss in if up = [] then None else Some up))"

text \<open>The texts in which the two adapters differ.\<close>

record session_texts =
  st_channel :: string
  st_no_sessions :: string
  st_all_down :: string
  st_all_failed :: string
  st_error :: string

definition websocket_texts :: session_texts where
  "websocket_texts = \<lparr> st_channel = ''WEBSOCKET'', st_no_sessions = ''No active WebSocket sessions found for counterparties'',
     st_all_down = ''All WebSocket sessions are disconnected'', st_all_failed = ''Failed to send to any session: {}'',
     st_error = ''Session error for {}: {}'' \<rparr>"

definition grpc_texts :: session_texts where
  "grpc_texts = \<lparr> st_channel = ''GRPC'', st_no_sessions = ''No active gRPC streams found for counterparties'',
     st_all_down = ''All gRPC streams are inactive'', st_all_failed = ''Failed to send to any stream: {}'',
     st_error = ''Stream error for {}: {}'' \<rparr>"

definition participant_counterparty :: "trade_participant \<Rightarrow> counterparty_id option" where
  "participant_counterparty p = (case p of ParticipantCounterparty i \<Rightarrow> Some i | ParticipantVenue _ \<Rightarrow> None)"

definition confirmed_counterparties :: "'d trade_confirmation \<Rightarrow> counterparty_id list" where
  "confirmed_counterparties c = List.map_filter participant_counterparty [tc_buyer c, tc_seller c]"

text \<open>The sessions that are up with their counterparty, in the order in which they are sent to, and the errors of those that failed.\<close>

definition live_sessions :: "'d session_registry \<Rightarrow> counterparty_id list \<Rightarrow> (counterparty_id \<times> 'd client_session) list" where
  "live_sessions R ids = filter (\<lambda>(_, s). ss_is_up s) (concat (map (\<lambda>i. map (Pair i) (reg_get R i)) ids))"

fun session_error :: "session_texts \<Rightarrow> counterparty_id \<times> 'd client_session \<Rightarrow> 'd msg option" where
  "session_error t (i, s) = (case ss_send s of Inr _ \<Rightarrow> None | Inl e \<Rightarrow> Some (Fmt (st_error t) [ArgStr i, ArgMsg (de_display e)]))"

text \<open>\<open>join(\", \")\<close>.\<close>

definition join_msgs :: "'d msg list \<Rightarrow> 'd msg" where
  "join_msgs ms = Fmt (concat (map (\<lambda>(k, _). if k = 0 then ''{}'' else '', {}'') (enumerate 0 ms))) (map ArgMsg ms)"

definition send_to_sessions :: "session_texts \<Rightarrow> 'd session_registry \<Rightarrow> 'd trade_confirmation \<Rightarrow> 'd domain_error + unit" where
  "send_to_sessions t R c =
     (let ids = confirmed_counterparties c; fail = (\<lambda>reason. Inl (ConfirmationFailed (Txt (st_channel t)) reason)) in
      if ids = [] then fail (Txt ''No counterparties found in trade participants'')
      else
        let live = live_sessions R ids;
            sent_count = length (filter (\<lambda>s. session_error t s = None) live);
            errors = List.map_filter (session_error t) live;
            total = sum_list (map (\<lambda>i. length (reg_get R i)) ids) in
        if sent_count = 0 then fail
          (if total = 0 then Txt (st_no_sessions t)
           else if errors = [] then Txt (st_all_down t)
           else Fmt (st_all_failed t) [ArgMsg (join_msgs errors)])
        else Inr ())"

definition websocket_send :: "(string + string) \<Rightarrow> 'd session_registry \<Rightarrow> 'd trade_confirmation \<Rightarrow> notification_destination
    \<Rightarrow> 'd domain_error + unit" where
  "websocket_send json R c dest = (case dest of
       DestWebSocket \<Rightarrow> (case json of
           Inl e \<Rightarrow> Inl (ConfirmationFailed (Txt ''WEBSOCKET'') (Fmt ''JSON serialization failed: {}'' [ArgStr e]))
         | Inr _ \<Rightarrow> send_to_sessions websocket_texts R c)
     | _ \<Rightarrow> Inl (InvalidNotificationPreferences (Txt ''Expected WebSocket destination'')))"

definition grpc_send :: "'d session_registry \<Rightarrow> 'd trade_confirmation \<Rightarrow> notification_destination \<Rightarrow> 'd domain_error + unit" where
  "grpc_send R c dest = (case dest of
       DestGrpc _ \<Rightarrow> send_to_sessions grpc_texts R c
     | _ \<Rightarrow> Inl (InvalidNotificationPreferences (Txt ''Expected Grpc destination'')))"

section \<open>The loop of retries\<close>

text \<open>An answer that ends the loop, and the first one among the attempts that the configuration allows.\<close>

definition settles :: "'d send_answer \<Rightarrow> bool" where
  "settles a = (case a of Returned (Inr _) \<Rightarrow> True | Returned (Inl _) \<Rightarrow> False | NoAnswer \<Rightarrow> False | SendPanics \<Rightarrow> True)"

definition first_settled :: "confirmation_config \<Rightarrow> (nat \<Rightarrow> 'd send_answer) \<Rightarrow> nat option" where
  "first_settled c answers = find (\<lambda>k. settles (answers k)) [0..<unat (cfc_max_retry_attempts c) + 1]"

definition pauses :: "confirmation_config \<Rightarrow> nat \<Rightarrow> nat list" where
  "pauses c k = map (\<lambda>j. cfc_retry_delay (of_nat j) c) [0..<k]"

definition error_of :: "confirmation_channel \<Rightarrow> 'd send_answer \<Rightarrow> 'd domain_error" where
  "error_of ch a = (case a of Returned (Inl e) \<Rightarrow> e | _ \<Rightarrow> ConfirmationFailed (Txt (ch_as_str ch)) (Txt ''Timeout''))"

definition retries_spec :: "confirmation_config \<Rightarrow> confirmation_channel \<Rightarrow> (nat \<Rightarrow> 'd send_answer)
    \<Rightarrow> (unit, 'd channel_delivery_status) outcome \<times> nat list" where
  "retries_spec c ch answers = (let m = unat (cfc_max_retry_attempts c) in
     case first_settled c answers of
       Some k \<Rightarrow> (if answers k = SendPanics then Panic else Ret (cds_succeeded ch (of_nat k)), pauses c k)
     | None \<Rightarrow> (Ret (cds_failed ch (Fmt ''Failed after {} attempts: {}'' [ArgNat (m + 1), ArgMsg (de_display (error_of ch (answers m)))])
         (cfc_max_retry_attempts c)), pauses c m))"

lemma send_with_timeout_cases:
  "send_with_timeout ch a = (if settles a then if a = SendPanics then Panic else Ret () else Err (error_of ch a))"
  by (auto simp: send_with_timeout_def settles_def error_of_def split: send_answer.split sum.split)

lemma find_first:
  assumes "k < n" "P k" "\<forall>i<k. \<not> P i"
  shows "find P [0..<n] = Some k"
proof -
  have "[0..<n] = [0..<k] @ k # [Suc k..<n]" using assms(1) upt_add_eq_append [of 0 k "n - k"] by (simp add: upt_conv_Cons)
  moreover have "find P (xs @ ys) = (case find P xs of None \<Rightarrow> find P ys | Some x \<Rightarrow> Some x)" for xs ys by (induction xs) auto
  moreover have "find P [0..<k] = None" using assms(3) by (simp add: find_None_all)
  ultimately show ?thesis using assms(2) by simp
qed

lemma retries_from:
  assumes "cfc_max_retry_attempts c \<noteq> - 1" "k \<le> unat (cfc_max_retry_attempts c)" "\<forall>i<k. \<not> settles (answers i)"
  shows "send_with_retry c ch answers (of_nat k) (pauses c k) = Some (retries_spec c ch answers)"
  using assms(2,3)
proof (induction "unat (cfc_max_retry_attempts c) - k" arbitrary: k rule: less_induct)
  case less
  let ?m = "cfc_max_retry_attempts c"
  have top: "unat (- 1 :: u32) = 2 ^ 32 - 1" by (simp add: unsigned_minus_1_eq_mask mask_eq_exp_minus_1)
  have "unat ?m \<noteq> 2 ^ 32 - 1" using assms(1) by (simp only: word_unat_eq_iff top) simp
  moreover have "unat ?m < 2 ^ 32" using unsigned_less [of ?m] by simp
  ultimately have m: "unat ?m + 1 < 2 ^ 32" by linarith
  have len: "length (pauses c k) = k" by (simp add: pauses_def)
  have small: "k + 1 < 2 ^ 32" using m less.prems(1) by linarith
  have nxt: "sat_add (of_nat k :: u32) 1 = of_nat (k + 1)" using small by (rule sat_add_of_nat_u32)
  have less_one: "(of_nat (k + 1) :: u32) - 1 = of_nat k" by simp
  have more: "?m < of_nat (k + 1) \<longleftrightarrow> unat ?m < k + 1" unfolding word_less_nat_alt unat_of_nat_u32 [OF small] ..
  note unfold = send_with_retry.simps [of c ch answers "of_nat k" "pauses c k", unfolded len nxt less_one more unat_of_nat_u32 [OF small]
      send_with_timeout_cases]
  show ?case
  proof (cases "settles (answers k)")
    case True
    then have "first_settled c answers = Some k"
      unfolding first_settled_def using less.prems by (intro find_first) simp_all
    then show ?thesis using True by (simp add: unfold retries_spec_def Let_def del: of_nat_add)
  next
    case False
    show ?thesis
    proof (cases "k = unat ?m")
      case True
      have "first_settled c answers = None"
        using less.prems(2) False True by (auto simp: first_settled_def find_None_all less_Suc_eq)
      moreover have "(of_nat k :: u32) = ?m" using True by simp
      ultimately show ?thesis using True False unfolding unfold by (simp add: retries_spec_def Let_def del: of_nat_add)
    next
      case differ: False
      have none: "\<forall>i<k + 1. \<not> settles (answers i)" using less.prems(2) False by (simp add: less_Suc_eq)
      have "pauses c k @ [cfc_retry_delay (of_nat k) c] = pauses c (k + 1)" by (simp add: pauses_def)
      then have "send_with_retry c ch answers (of_nat k) (pauses c k) = send_with_retry c ch answers (of_nat (k + 1)) (pauses c (k + 1))"
        using False differ less.prems(1) by (simp add: unfold del: of_nat_add)
      also have "\<dots> = Some (retries_spec c ch answers)"
        using differ less.prems(1) none by (intro less.hyps) simp_all
      finally show ?thesis .
    qed
  qed
qed

text \<open>With the greatest number of attempts the counter stays at its bound and the loop does not end.\<close>

lemma await_all_Some:
  "\<forall>t\<in>set ts. \<exists>r. t = Some r \<and> (r = Panic \<or> (\<exists>s. r = Ret s))
    \<Longrightarrow> await_all ts = Some (List.map_filter (\<lambda>t. case t of Some (Ret s) \<Rightarrow> Some s | _ \<Rightarrow> None) ts)"
  by (induction ts rule: await_all.induct) (auto simp: map_filter_simps)

lemma await_all_Ret: "\<forall>a\<in>set as. g a = Some (Ret (f a)) \<Longrightarrow> await_all (map g as) = Some (map f as)"
  by (induction as) simp_all

lemma in_map_filter: "y \<in> set (List.map_filter f xs) \<longleftrightarrow> (\<exists>x\<in>set xs. f x = Some y)"
  by (force simp: map_filter_def)

lemma from_results_AllSent: "from_results rs = AllSent \<longleftrightarrow> (\<forall>r\<in>set rs. cds_success r)"
  by (auto simp: from_results_def Let_def filter_empty_conv)

lemma from_results_map:
  assumes "\<And>a. a \<in> set as \<Longrightarrow> cds_channel (f a) = ch a" "\<And>a. a \<in> set as \<Longrightarrow> cds_success (f a) \<longleftrightarrow> ok a"
  shows "let missed = filter (\<lambda>a. \<not> ok a) as in
    if missed = [] then from_results (map f as) = AllSent
    else \<exists>failures. from_results (map f as) = (if missed = as then AllFailed failures else PartialSuccess failures)
      \<and> map cds_channel failures = map ch missed \<and> (\<forall>r\<in>set failures. \<not> cds_success r)"
proof -
  let ?missed = "filter (\<lambda>a. \<not> ok a) as"
  have failed: "filter (\<lambda>r. \<not> cds_success r) (map f as) = map f ?missed"
  proof -
    have "filter (\<lambda>a. \<not> cds_success (f a)) as = ?missed" by (intro filter_cong) (simp_all add: assms(2))
    then show ?thesis by (simp only: filter_map o_def)
  qed
  have same: "length ?missed = length as \<longleftrightarrow> ?missed = as"
    by (metis filter_id_conv length_filter_less nless_le)
  have "map cds_channel (map f ?missed) = map ch ?missed" using assms(1) by simp
  moreover have "\<forall>r\<in>set (map f ?missed). \<not> cds_success r" using assms(2) by simp
  ultimately have "\<exists>failures. from_results (map f as) = (if ?missed = as then AllFailed failures else PartialSuccess failures)
      \<and> map cds_channel failures = map ch ?missed \<and> (\<forall>r\<in>set failures. \<not> cds_success r)" if "?missed \<noteq> []"
    using that by (intro exI [of _ "map f ?missed"]) (simp only: from_results_def Let_def failed length_map same map_is_Nil_conv
        if_False simp_thms, metis)
  then show ?thesis by (simp only: Let_def from_results_def failed) simp
qed

section \<open>Properties\<close>

text \<open>
  The retries of a channel end, unless the configuration allows the greatest number of them: the result is that of the first attempt
  that is answered with success, or panics, among one more than the configured retries, after the pauses before it; without
  such an attempt it is the failure that tells the last error.
\<close>
theorem confirmation_retries_end:
  assumes "cfc_max_retry_attempts c \<noteq> - 1"
  shows "send_with_retry c ch answers 0 [] = Some (retries_spec c ch answers)"
  using retries_from [OF assms, of 0 answers ch] by (simp add: pauses_def)

text \<open>How the task of an adapter ends.\<close>

definition delivery :: "confirmation_config \<Rightarrow> 'd trade_confirmation \<Rightarrow> notification_preferences \<Rightarrow> 'd channel_adapter
    \<Rightarrow> 'd send_answer option" where
  "delivery c confirmation p a = (case channel_destination p (ca_channel_type a) of None \<Rightarrow> None
     | Some dest \<Rightarrow> map_option (ca_send a confirmation dest) (first_settled c (ca_send a confirmation dest)))"

lemma find_settled: "first_settled c answers = Some k \<Longrightarrow> settles (answers k)"
  unfolding first_settled_def by (drule find_Some_iff_mem) simp

lemma deliver_delivery:
  assumes "cfc_max_retry_attempts c \<noteq> - 1"
  shows "\<exists>r. deliver c confirmation p a = Some r \<and> (r = Panic \<and> delivery c confirmation p a = Some SendPanics
    \<or> (\<exists>s. r = Ret s \<and> cds_channel s = ca_channel_type a
        \<and> (cds_success s \<longleftrightarrow> delivery c confirmation p a = Some (Returned (Inr ())))
        \<and> delivery c confirmation p a \<noteq> Some SendPanics))"
proof (cases "channel_destination p (ca_channel_type a)")
  case None
  then show ?thesis by (simp add: deliver_def delivery_def cds_failed_def Let_def)
next
  case (Some dest)
  let ?answers = "ca_send a confirmation dest"
  have run: "deliver c confirmation p a = Some (fst (retries_spec c (ca_channel_type a) ?answers))"
    using retries_from [OF assms, of 0 ?answers "ca_channel_type a"] Some by (simp add: deliver_def pauses_def)
  show ?thesis
  proof (cases "first_settled c ?answers")
    case None
    then show ?thesis using run Some by (simp add: retries_spec_def delivery_def cds_failed_def Let_def)
  next
    case (Some k)
    then have "settles (?answers k)" by (rule find_settled)
    then consider "?answers k = SendPanics" | "?answers k = Returned (Inr ())"
      by (auto simp: settles_def split: send_answer.splits sum.splits)
    then show ?thesis
      by cases (use run Some \<open>channel_destination p (ca_channel_type a) = Some dest\<close> in
        \<open>simp_all add: retries_spec_def delivery_def cds_succeeded_def Let_def\<close>)
  qed
qed

text \<open>
  With panics among the deliveries \<open>AllSent\<close> says less: each adapter of an enabled channel delivered the confirmation or its
  task panicked, and an enabled channel without an adapter does not count.
\<close>
theorem all_sent_despite_panics:
  assumes "cfc_max_retry_attempts c \<noteq> - 1"
  shows "\<exists>st. send_confirmation c adapters confirmation p = Some st
    \<and> (st = AllSent \<longleftrightarrow> (\<forall>a\<in>set adapters. ca_channel_type a \<in> set (np_enabled_channels p) \<longrightarrow>
          delivery c confirmation p a \<in> {Some (Returned (Inr ())), Some SendPanics}))"
proof -
  let ?active = "filter (\<lambda>a. ca_channel_type a \<in> set (np_enabled_channels p)) adapters"
  let ?st = "\<lambda>t. case t of Some (Ret s) \<Rightarrow> Some s | _ \<Rightarrow> None"
  have "await_all (map (deliver c confirmation p) ?active) = Some (List.map_filter ?st (map (deliver c confirmation p) ?active))"
    using deliver_delivery [OF assms] by (intro await_all_Some) (fastforce simp del: split_paired_Ex)
  moreover have "from_results (List.map_filter ?st (map (deliver c confirmation p) ?active)) = AllSent
      \<longleftrightarrow> (\<forall>a\<in>set ?active. delivery c confirmation p a \<in> {Some (Returned (Inr ())), Some SendPanics})"
    unfolding from_results_AllSent
  proof -
    have "(\<forall>s. ?st (deliver c confirmation p a) = Some s \<longrightarrow> cds_success s)
        \<longleftrightarrow> delivery c confirmation p a \<in> {Some (Returned (Inr ())), Some SendPanics}" for a
      using deliver_delivery [OF assms, of confirmation p a] by auto
    then show "(\<forall>s\<in>set (List.map_filter ?st (map (deliver c confirmation p) ?active)). cds_success s)
        \<longleftrightarrow> (\<forall>a\<in>set ?active. delivery c confirmation p a \<in> {Some (Returned (Inr ())), Some SendPanics})"
      unfolding Ball_def in_map_filter set_map image_iff Bex_def by metis
  qed
  ultimately show ?thesis
    by (auto simp: send_confirmation_def np_has_any_enabled_def Let_def filter_empty_conv)
qed

text \<open>
  C34. The status of a trade's confirmation, where each enabled channel has an adapter and no delivery task panics. It is \<open>AllSent\<close>
  exactly when every adapter of an enabled channel delivered the confirmation in one of its attempts; \<open>AllFailed\<close>
  when none did, with the failure of each; and otherwise \<open>PartialSuccess\<close> with the failures of exactly those that did not.
\<close>
theorem all_sent_means:
  assumes "cfc_max_retry_attempts c \<noteq> - 1"
    and "set (np_enabled_channels p) \<subseteq> ca_channel_type ` set adapters"
    and "\<forall>a\<in>set adapters. delivery c confirmation p a \<noteq> Some SendPanics"
  shows "\<exists>st. send_confirmation c adapters confirmation p = Some st
    \<and> (let active = filter (\<lambda>a. ca_channel_type a \<in> set (np_enabled_channels p)) adapters;
           missed = filter (\<lambda>a. delivery c confirmation p a \<noteq> Some (Returned (Inr ()))) active in
       if missed = [] then st = AllSent
       else \<exists>failures. st = (if missed = active then AllFailed failures else PartialSuccess failures)
         \<and> map cds_channel failures = map ca_channel_type missed \<and> (\<forall>f\<in>set failures. \<not> cds_success f))"
proof -
  let ?active = "filter (\<lambda>a. ca_channel_type a \<in> set (np_enabled_channels p)) adapters"
  let ?ok = "\<lambda>a. delivery c confirmation p a = Some (Returned (Inr ()))"
  have "\<forall>a. \<exists>s. a \<in> set adapters \<longrightarrow> deliver c confirmation p a = Some (Ret s) \<and> cds_channel s = ca_channel_type a
      \<and> (cds_success s \<longleftrightarrow> ?ok a)"
    using deliver_delivery [OF assms(1), of confirmation p] assms(3) by blast
  then obtain f where f: "\<And>a. a \<in> set adapters \<Longrightarrow> deliver c confirmation p a = Some (Ret (f a))"
      "\<And>a. a \<in> set adapters \<Longrightarrow> cds_channel (f a) = ca_channel_type a"
      "\<And>a. a \<in> set adapters \<Longrightarrow> cds_success (f a) \<longleftrightarrow> ?ok a"
    by metis
  have awaited: "await_all (map (deliver c confirmation p) ?active) = Some (map f ?active)"
    using f(1) by (intro await_all_Ret) simp
  have "np_enabled_channels p \<noteq> [] \<Longrightarrow> ?active \<noteq> []"
    using assms(2) by (cases "np_enabled_channels p") (auto simp: filter_empty_conv)
  then have sent: "send_confirmation c adapters confirmation p = Some (from_results (map f ?active))"
    using awaited by (auto simp: send_confirmation_def np_has_any_enabled_def Let_def from_results_def)
  show ?thesis
    using from_results_map [of ?active f ca_channel_type ?ok] f(2,3) unfolding sent by (simp add: Let_def)
qed

text \<open>
  An adapter over sessions succeeds as soon as one session of one party takes the message: the other party of the trade
  may have none, or only sessions that failed.
\<close>
theorem one_session_is_enough:
  "send_to_sessions t R c = Inr () \<longleftrightarrow> (\<exists>i\<in>set (confirmed_counterparties c). \<exists>s\<in>set (reg_get R i). ss_is_up s \<and> ss_send s = Inr ())"
proof -
  have ok: "session_error t (i, s) = None \<longleftrightarrow> ss_send s = Inr ()" for i s by (auto split: sum.split)
  have "send_to_sessions t R c = Inr () \<longleftrightarrow> confirmed_counterparties c \<noteq> []
      \<and> filter (\<lambda>s. session_error t s = None) (live_sessions R (confirmed_counterparties c)) \<noteq> []"
    by (simp add: send_to_sessions_def Let_def)
  also have "\<dots> \<longleftrightarrow> (\<exists>i\<in>set (confirmed_counterparties c). \<exists>s\<in>set (reg_get R i). ss_is_up s \<and> ss_send s = Inr ())"
    by (auto simp: live_sessions_def filter_empty_conv ok simp del: session_error.simps)
  finally show ?thesis .
qed

lemma one_session_is_enough_witness:
  "send_to_sessions grpc_texts (Map.empty(''A'' \<mapsto> [\<lparr> ss_name = ''s1'', ss_is_up = True, ss_send = Inr () \<rparr>]))
     (tc_new 0 1 2 (Price 3) (Quantity 4) 0 0 0 OffChain (ParticipantCounterparty ''A'') (ParticipantCounterparty ''B'')
       :: int trade_confirmation) = Inr ()"
  by (rule one_session_is_enough [THEN iffD2])
    (simp add: confirmed_counterparties_def tc_new_def map_filter_simps participant_counterparty_def reg_get_def)

definition sample_confirmation :: "int trade_confirmation" where
  "sample_confirmation = tc_new 0 1 2 (Price 3) (Quantity 4) 0 0 0 OffChain (ParticipantCounterparty ''A'') (ParticipantVenue ''V'')"

lemma confirmation_retries_end_witness:
  "(send_with_retry cfc_default EmailChannel (\<lambda>k. if k = 1 then Returned (Inr ()) else NoAnswer) 0 []
      :: ((unit, int channel_delivery_status) outcome \<times> nat list) option)
     = Some (Ret (cds_succeeded EmailChannel 1), [1000000000])"
proof -
  have "cfc_retry_delay 0 cfc_default = 1000000000" by (simp add: cfc_retry_delay_def cfc_default_def)
  then show ?thesis
    by (subst confirmation_retries_end)
      (simp_all add: cfc_default_def retries_spec_def first_settled_def upt_rec settles_def pauses_def)
qed

lemma all_sent_despite_panics_witness:
  "send_confirmation cfc_default [\<lparr> ca_channel_type = EmailChannel, ca_send = \<lambda>_ _ _. SendPanics \<rparr>] sample_confirmation
     \<lparr> np_enabled_channels = [EmailChannel, GrpcChannel], np_email_address = Some ''a@b.c'', np_webhook_url = None,
       np_grpc_endpoint = Some ''host'' \<rparr> = Some AllSent"
proof -
  let ?a = "\<lparr> ca_channel_type = EmailChannel, ca_send = \<lambda>_ _ _. SendPanics \<rparr> :: int channel_adapter"
  let ?p = "\<lparr> np_enabled_channels = [EmailChannel, GrpcChannel], np_email_address = Some ''a@b.c'', np_webhook_url = None,
       np_grpc_endpoint = Some ''host'' \<rparr>"
  have "delivery cfc_default sample_confirmation ?p ?a = Some SendPanics"
    by (simp add: delivery_def channel_destination_def first_settled_def settles_def upt_rec cfc_default_def)
  moreover have "cfc_max_retry_attempts cfc_default \<noteq> - 1" by (simp add: cfc_default_def)
  from all_sent_despite_panics [OF this, of "[?a]" sample_confirmation ?p]
  obtain st where "send_confirmation cfc_default [?a] sample_confirmation ?p = Some st"
    and "st = AllSent \<longleftrightarrow> (\<forall>a\<in>set [?a]. ca_channel_type a \<in> set (np_enabled_channels ?p) \<longrightarrow>
          delivery cfc_default sample_confirmation ?p a \<in> {Some (Returned (Inr ())), Some SendPanics})" by blast
  ultimately show ?thesis by simp
qed

lemma all_sent_means_witness:
  "\<exists>f. send_confirmation cfc_default
       [\<lparr> ca_channel_type = EmailChannel, ca_send = \<lambda>_ _ k. if k = 2 then Returned (Inr ()) else NoAnswer \<rparr>,
        \<lparr> ca_channel_type = WebSocketChannel, ca_send = \<lambda>_ _ _. NoAnswer \<rparr>] sample_confirmation
       \<lparr> np_enabled_channels = [EmailChannel, WebSocketChannel], np_email_address = Some ''a@b.c'', np_webhook_url = None,
         np_grpc_endpoint = None \<rparr> = Some (PartialSuccess [f]) \<and> cds_channel f = WebSocketChannel"
proof -
  let ?a = "\<lparr> ca_channel_type = EmailChannel, ca_send = \<lambda>_ _ k. if k = 2 then Returned (Inr ()) else NoAnswer \<rparr> :: int channel_adapter"
  let ?b = "\<lparr> ca_channel_type = WebSocketChannel, ca_send = \<lambda>_ _ _. NoAnswer \<rparr> :: int channel_adapter"
  let ?p = "\<lparr> np_enabled_channels = [EmailChannel, WebSocketChannel], np_email_address = Some ''a@b.c'', np_webhook_url = None,
       np_grpc_endpoint = None \<rparr>"
  have ends: "delivery cfc_default sample_confirmation ?p ?a = Some (Returned (Inr ()))"
      "delivery cfc_default sample_confirmation ?p ?b = None"
    by (simp_all add: delivery_def channel_destination_def first_settled_def settles_def upt_rec cfc_default_def)
  have "cfc_max_retry_attempts cfc_default \<noteq> - 1" by (simp add: cfc_default_def)
  from all_sent_means [OF this, of ?p "[?a, ?b]" sample_confirmation] show ?thesis
    by (auto simp: ends Let_def map_eq_Cons_conv)
qed

text \<open>
  Errors that the callback adapter calls permanent are retried like the others: a receiver that answers every attempt with a status between
  400 and 499 is asked once more than the configured retries, after all the pauses.
\<close>
theorem client_errors_are_retried:
  assumes "cfc_max_retry_attempts c \<noteq> - 1" "400 \<le> status" "status < 500"
  shows "\<exists>e :: 'd msg. send_with_retry c ApiCallbackChannel (\<lambda>_. Returned (webhook_send json (HttpStatus status reason) dest)) 0 []
    = Some (Ret (cds_failed ApiCallbackChannel e (cfc_max_retry_attempts c)), pauses c (unat (cfc_max_retry_attempts c)))"
proof -
  have "\<exists>e. (webhook_send json (HttpStatus status reason) dest :: 'd domain_error + unit) = Inl e"
    using assms(2,3) by (auto simp: webhook_send_def split: notification_destination.split sum.split)
  then obtain e where "(webhook_send json (HttpStatus status reason) dest :: 'd domain_error + unit) = Inl e" by blast
  then have none: "first_settled c (\<lambda>_. Returned (webhook_send json (HttpStatus status reason) dest :: 'd domain_error + unit)) = None"
    by (simp add: first_settled_def find_None_all settles_def)
  show ?thesis
    using retries_from [OF assms(1), of 0 "\<lambda>_. Returned (webhook_send json (HttpStatus status reason) dest :: 'd domain_error + unit)" ApiCallbackChannel]
    by (simp add: retries_spec_def none Let_def pauses_def) (rule exI, rule refl)
qed

lemma client_errors_are_retried_witness:
  "\<exists>e. (send_with_retry cfc_default ApiCallbackChannel
       (\<lambda>_. Returned (webhook_send (Inr ''body'') (HttpStatus 404 None) (DestWebhook ''http://a''))) 0 []
       :: ((unit, int channel_delivery_status) outcome \<times> nat list) option)
     = Some (Ret (cds_failed ApiCallbackChannel e 3), [1000000000, 2000000000, 4000000000])"
proof -
  have delays: "cfc_retry_delay 0 cfc_default = 1000000000" "cfc_retry_delay 1 cfc_default = 2000000000"
      "cfc_retry_delay 2 cfc_default = 4000000000" by (simp_all add: cfc_retry_delay_def cfc_default_def)
  have "cfc_max_retry_attempts cfc_default = 3" by (simp add: cfc_default_def)
  then show ?thesis
    using client_errors_are_retried [of cfc_default 404 "Inr ''body''" None "DestWebhook ''http://a''"] delays
    by (simp add: pauses_def upt_rec)
qed

end
