(* ===== verification/Anonymity.thy ===== *)
theory Anonymity
  imports Repositories Events Effects
begin

text \<open>
  Anonymous RFQs: the view and the identity mapping of \<open>src/domain/entities/anonymity.rs\<close>, the service of
  \<open>src/domain/services/anonymity_service.rs\<close> over an identity repository that is a parameter (the trait of
  \<open>src/infrastructure/persistence/traits.rs\<close> has no implementation outside the tests), and the events of
  \<open>src/domain/events/anonymity_events.rs\<close>.
\<close>

section \<open>Views and mappings\<close>

definition al_is_full_anonymous :: "anonymity_level \<Rightarrow> bool" where
  "al_is_full_anonymous l \<longleftrightarrow> l = FullAnonymous"

definition al_hides_identity :: "anonymity_level \<Rightarrow> bool" where
  "al_hides_identity l \<longleftrightarrow> l = FullAnonymous \<or> l = SemiAnonymous"

record 'd anonymous_rfq_view =
  av_rfq_id :: uuid
  av_instrument :: "'d instrument"
  av_side :: order_side
  av_quantity :: "'d quantity"
  av_expires_at :: timestamp
  av_anonymity_level :: anonymity_level
  av_created_at :: timestamp

definition av_new :: "timestamp \<Rightarrow> uuid \<Rightarrow> 'd instrument \<Rightarrow> order_side \<Rightarrow> 'd quantity \<Rightarrow> timestamp \<Rightarrow> anonymity_level
    \<Rightarrow> 'd anonymous_rfq_view" where
  "av_new now i ins side q expires_at l = \<lparr> av_rfq_id = i, av_instrument = ins, av_side = side, av_quantity = q,
     av_expires_at = expires_at, av_anonymity_level = l, av_created_at = now \<rparr>"

definition to_anonymous_view :: "timestamp \<Rightarrow> 'd rfq \<Rightarrow> 'd anonymous_rfq_view" where
  "to_anonymous_view now r = av_new now (rfq_id r) (rfq_instrument r) (rfq_side r) (rfq_quantity r) (rfq_expires_at r)
     (rfq_anonymity_level r)"

record identity_mapping =
  im_rfq_id :: uuid
  im_requester_id :: counterparty_id
  im_anonymity_level :: anonymity_level
  im_created_at :: timestamp
  im_revealed_at :: "timestamp option"
  im_revealed_to :: "counterparty_id list"

definition im_new :: "timestamp \<Rightarrow> uuid \<Rightarrow> counterparty_id \<Rightarrow> anonymity_level \<Rightarrow> identity_mapping" where
  "im_new now i who l = \<lparr> im_rfq_id = i, im_requester_id = who, im_anonymity_level = l, im_created_at = now,
     im_revealed_at = None, im_revealed_to = [] \<rparr>"

definition im_is_revealed :: "identity_mapping \<Rightarrow> bool" where
  "im_is_revealed m \<longleftrightarrow> im_revealed_at m \<noteq> None"

definition im_is_revealed_to :: "identity_mapping \<Rightarrow> counterparty_id \<Rightarrow> bool" where
  "im_is_revealed_to m p \<longleftrightarrow> list_ex (\<lambda>q. q = p) (im_revealed_to m)"

definition im_reveal_to :: "timestamp \<Rightarrow> counterparty_id \<Rightarrow> identity_mapping \<Rightarrow> identity_mapping" where
  "im_reveal_to now p m =
     (let m = (if im_revealed_at m = None then m\<lparr> im_revealed_at := Some now \<rparr> else m) in
      if \<not> im_is_revealed_to m p then m\<lparr> im_revealed_to := im_revealed_to m @ [p] \<rparr> else m)"

section \<open>The service\<close>

text \<open>The calls of the repository that the service makes, on a state \<open>'x\<close> of the world.\<close>

record ('x, 'd) identity_repository =
  idr_save :: "identity_mapping \<Rightarrow> ('x, 'd repository_error, unit) op"
  idr_get :: "uuid \<Rightarrow> ('x, 'd repository_error, identity_mapping option) op"
  idr_record_reveal :: "uuid \<Rightarrow> counterparty_id \<Rightarrow> ('x, 'd repository_error, unit) op"

datatype 'd anonymity_error = NotAnonymous uuid | MappingNotFound uuid | AlreadyRevealed uuid counterparty_id
  | InvalidStateForReveal uuid rfq_state | AnonRepository "'d msg"

text \<open>\<open>From<RepositoryError>\<close>, applied by the question mark.\<close>

definition anon_call :: "('x, 'd repository_error, 'a) op \<Rightarrow> ('x, 'd anonymity_error, 'a) op" where
  "anon_call = map_err (\<lambda>e. AnonRepository (re_display e))"

definition create_mapping :: "('x, 'd) identity_repository \<Rightarrow> timestamp \<Rightarrow> 'd rfq \<Rightarrow> ('x, 'd anonymity_error, identity_mapping) op" where
  "create_mapping E now r =
     (if \<not> al_is_anonymous (rfq_anonymity_level r) then op_fail (NotAnonymous (rfq_id r))
      else let mapping = im_new now (rfq_id r) (rfq_client_id r) (rfq_anonymity_level r) in
        op_then (anon_call (idr_save E mapping)) (\<lambda>_. op_ret mapping))"

definition should_anonymize :: "'d rfq \<Rightarrow> bool" where
  "should_anonymize r = al_hides_identity (rfq_anonymity_level r)"

definition get_mapping :: "('x, 'd) identity_repository \<Rightarrow> uuid \<Rightarrow> ('x, 'd anonymity_error, identity_mapping) op" where
  "get_mapping E i = op_then (anon_call (idr_get E i)) (\<lambda>found. lift_result (ok_or (MappingNotFound i) found))"

definition reveal_identity :: "('x, 'd) identity_repository \<Rightarrow> uuid \<Rightarrow> counterparty_id \<Rightarrow> ('x, 'd anonymity_error, counterparty_id) op" where
  "reveal_identity E i p =
     op_then (get_mapping E i) (\<lambda>mapping.
     op_then (anon_call (idr_record_reveal E i p)) (\<lambda>_. op_ret (im_requester_id mapping)))"

definition can_reveal_identity :: "'d rfq \<Rightarrow> bool" where
  "can_reveal_identity r \<longleftrightarrow> (case rfq_state r of Executing \<Rightarrow> True | Executed \<Rightarrow> True | _ \<Rightarrow> False)"

definition reveal_identity_if_valid :: "('x, 'd) identity_repository \<Rightarrow> 'd rfq \<Rightarrow> counterparty_id
    \<Rightarrow> ('x, 'd anonymity_error, counterparty_id) op" where
  "reveal_identity_if_valid E r p =
     (if \<not> al_is_anonymous (rfq_anonymity_level r) then op_fail (NotAnonymous (rfq_id r))
      else if \<not> can_reveal_identity r then op_fail (InvalidStateForReveal (rfq_id r) (rfq_state r))
      else reveal_identity E (rfq_id r) p)"

definition an_is_revealed_to :: "('x, 'd) identity_repository \<Rightarrow> uuid \<Rightarrow> counterparty_id \<Rightarrow> ('x, 'd anonymity_error, bool) op" where
  "an_is_revealed_to E i p = op_then (get_mapping E i) (\<lambda>m. op_ret (im_is_revealed_to m p))"

definition get_requester_identity :: "('x, 'd) identity_repository \<Rightarrow> uuid \<Rightarrow> ('x, 'd anonymity_error, counterparty_id) op" where
  "get_requester_identity E i = op_then (get_mapping E i) (\<lambda>m. op_ret (im_requester_id m))"

section \<open>Events\<close>

record 'd anonymous_rfq_broadcast =
  ab_metadata :: event_metadata
  ab_instrument :: "'d instrument"
  ab_side :: order_side
  ab_quantity :: "'d quantity"
  ab_expires_at :: timestamp
  ab_anonymity_level :: anonymity_level
  ab_venue_ids :: "venue_id list"

definition ab_new :: "uuid \<Rightarrow> timestamp \<Rightarrow> 'd anonymous_rfq_view \<Rightarrow> venue_id list \<Rightarrow> 'd anonymous_rfq_broadcast" where
  "ab_new fresh now v venues = \<lparr> ab_metadata = em_for_rfq fresh (av_rfq_id v) now, ab_instrument = av_instrument v,
     ab_side = av_side v, ab_quantity = av_quantity v, ab_expires_at = av_expires_at v,
     ab_anonymity_level = av_anonymity_level v, ab_venue_ids = venues \<rparr>"

record identity_revealed =
  ir_metadata :: event_metadata
  ir_revealed_to :: counterparty_id
  ir_requester_id :: counterparty_id
  ir_anonymity_level :: anonymity_level
  ir_reason :: string

definition ir_new :: "uuid \<Rightarrow> timestamp \<Rightarrow> uuid \<Rightarrow> counterparty_id \<Rightarrow> counterparty_id \<Rightarrow> anonymity_level \<Rightarrow> string
    \<Rightarrow> identity_revealed" where
  "ir_new fresh now i p who l reason = \<lparr> ir_metadata = em_for_rfq fresh i now, ir_revealed_to = p, ir_requester_id = who,
     ir_anonymity_level = l, ir_reason = reason \<rparr>"

definition ir_for_settlement :: "uuid \<Rightarrow> timestamp \<Rightarrow> uuid \<Rightarrow> counterparty_id \<Rightarrow> counterparty_id \<Rightarrow> anonymity_level \<Rightarrow> identity_revealed" where
  "ir_for_settlement fresh now i p who l = ir_new fresh now i p who l ''settlement''"

definition ir_for_compliance :: "uuid \<Rightarrow> timestamp \<Rightarrow> uuid \<Rightarrow> counterparty_id \<Rightarrow> counterparty_id \<Rightarrow> anonymity_level \<Rightarrow> identity_revealed" where
  "ir_for_compliance fresh now i p who l = ir_new fresh now i p who l ''compliance''"

section \<open>Histories\<close>

text \<open>
  What the trait documents of a repository, over the mappings \<open>V x\<close> that it holds in a state \<open>x\<close>: a mapping is saved once, a
  reveal is only appended, and a call that fails changes nothing.
\<close>

definition identity_laws :: "('x, 'd) identity_repository \<Rightarrow> ('x \<Rightarrow> uuid \<rightharpoonup> identity_mapping) \<Rightarrow> bool" where
  "identity_laws E V \<longleftrightarrow>
     (\<forall>m x r x'. idr_save E m x = (r, x') \<longrightarrow>
        (case r of Inr _ \<Rightarrow> V x (im_rfq_id m) = None \<and> V x' = (V x)(im_rfq_id m \<mapsto> m) | Inl _ \<Rightarrow> V x' = V x)) \<and>
     (\<forall>i x r x'. idr_get E i x = (r, x') \<longrightarrow> V x' = V x \<and> (\<forall>found. r = Inr found \<longrightarrow> found = V x i)) \<and>
     (\<forall>i p x r x'. idr_record_reveal E i p x = (r, x') \<longrightarrow>
        (case r of Inr _ \<Rightarrow> \<exists>m now. V x i = Some m \<and> V x' = (V x)(i \<mapsto> im_reveal_to now p m) | Inl _ \<Rightarrow> V x' = V x))"

text \<open>
  The life of an anonymous RFQ: its own methods and every call of the service, the creation of its mapping, the checked and the unchecked
  call that tell an identity (the second for any RFQ), and the two queries. Kept are the RFQ, the world and what was told.
\<close>

datatype 'd anonymity_call = RfqCall "'d rfq_cmd" | CreateMapping timestamp | AskIdentity counterparty_id
  | RevealDirectly uuid counterparty_id | QueryRevealed uuid counterparty_id | QueryRequester uuid

text \<open>Which call told the identity of which RFQ to whom, and the identity.\<close>

datatype telling = ByCheckedCall uuid counterparty_id counterparty_id | ByDirectCall uuid counterparty_id counterparty_id

fun anonymity_step :: "('x, 'd) identity_repository \<Rightarrow> 'd anonymity_call \<Rightarrow> 'd rfq \<times> 'x \<times> telling list
    \<Rightarrow> 'd rfq \<times> 'x \<times> telling list" where
  "anonymity_step E (RfqCall c) (r, x, told) = (snd (rfq_apply c r), x, told)"
| "anonymity_step E (CreateMapping now) (r, x, told) = (r, snd (create_mapping E now r x), told)"
| "anonymity_step E (AskIdentity p) (r, x, told) = (case reveal_identity_if_valid E r p x of
       (Inr who, x') \<Rightarrow> (r, x', told @ [ByCheckedCall (rfq_id r) p who])
     | (Inl _, x') \<Rightarrow> (r, x', told))"
| "anonymity_step E (RevealDirectly i p) (r, x, told) = (case reveal_identity E i p x of
       (Inr who, x') \<Rightarrow> (r, x', told @ [ByDirectCall i p who])
     | (Inl _, x') \<Rightarrow> (r, x', told))"
| "anonymity_step E (QueryRevealed i p) (r, x, told) = (r, snd (an_is_revealed_to E i p x), told)"
| "anonymity_step E (QueryRequester i) (r, x, told) = (r, snd (get_requester_identity E i x), told)"

definition run_anonymity :: "('x, 'd) identity_repository \<Rightarrow> 'd anonymity_call list
    \<Rightarrow> 'd rfq \<times> 'x \<times> telling list \<Rightarrow> 'd rfq \<times> 'x \<times> telling list" where
  "run_anonymity E cs s = foldl (\<lambda>s c. anonymity_step E c s) s cs"

lemma run_anonymity_snoc: "run_anonymity E (cs @ [c]) s = anonymity_step E c (run_anonymity E cs s)"
  by (simp add: run_anonymity_def)

lemma run_anonymity_append: "run_anonymity E (as @ bs) s = run_anonymity E bs (run_anonymity E as s)"
  by (simp add: run_anonymity_def)

text \<open>The methods of the RFQ among the calls.\<close>

fun rfq_calls :: "'d anonymity_call list \<Rightarrow> 'd rfq_cmd list" where
  "rfq_calls [] = []"
| "rfq_calls (RfqCall c # cs) = c # rfq_calls cs"
| "rfq_calls (_ # cs) = rfq_calls cs"

lemma rfq_calls_append [simp]: "rfq_calls (as @ bs) = rfq_calls as @ rfq_calls bs"
  by (induction as rule: rfq_calls.induct) auto

lemma rfq_calls_split: "rfq_calls cs = as @ c # bs \<Longrightarrow> \<exists>as' bs'. cs = as' @ RfqCall c # bs' \<and> rfq_calls as' = as"
proof (induction cs arbitrary: as)
  case (Cons d ds)
  show ?case
  proof (cases "\<exists>e. d = RfqCall e")
    case True
    then obtain e where d: "d = RfqCall e" by blast
    show ?thesis
    proof (cases as)
      case Nil
      then show ?thesis using Cons.prems d by (intro exI [of _ "[]"] exI [of _ ds]) simp
    next
      case (Cons a rest)
      then obtain as' bs' where "ds = as' @ RfqCall c # bs'" "rfq_calls as' = rest" "e = a"
        using Cons.IH [of rest] Cons.prems d by auto
      then show ?thesis using d Cons by (intro exI [of _ "d # as'"] exI [of _ bs']) simp
    qed
  next
    case False
    then have skip: "rfq_calls (d # es) = rfq_calls es" for es by (cases d) auto
    then obtain as' bs' where "ds = as' @ RfqCall c # bs'" "rfq_calls as' = as" using Cons.IH [of as] Cons.prems by auto
    then show ?thesis using skip by (intro exI [of _ "d # as'"] exI [of _ bs']) simp
  qed
qed simp

lemma rfq_of_run: "fst (run_anonymity E cs (r, x, told)) = run_ops rfq_apply (rfq_calls cs) r"
proof (induction cs rule: rev_induct)
  case (snoc c cs)
  then show ?case
    by (cases "run_anonymity E cs (r, x, told)"; cases c)
      (auto simp: run_anonymity_snoc split: prod.split sum.split)
qed (simp add: run_anonymity_def)

lemma reveal_to_simps:
  "im_requester_id (im_reveal_to now p m) = im_requester_id m"
  "set (im_revealed_to (im_reveal_to now p m)) = insert p (set (im_revealed_to m))"
  "distinct (im_revealed_to (im_reveal_to now p m)) = distinct (im_revealed_to m)"
  "im_revealed_at (im_reveal_to now p m) \<noteq> None"
  by (auto simp: im_reveal_to_def Let_def im_is_revealed_to_def list_ex_iff)

definition mapping_inv :: "counterparty_id \<Rightarrow> identity_mapping \<Rightarrow> bool" where
  "mapping_inv client m \<longleftrightarrow> im_requester_id m = client \<and> distinct (im_revealed_to m)
     \<and> (im_revealed_at m = None \<longleftrightarrow> im_revealed_to m = [])"

lemma mapping_inv_reveal: "mapping_inv client m \<Longrightarrow> mapping_inv client (im_reveal_to now p m)"
  using reveal_to_simps [of now p m] by (force simp: mapping_inv_def)

text \<open>How a call of the service moves the mapping of its RFQ, and what it tells.\<close>

lemma save_law:
  assumes "identity_laws E V" "idr_save E m x = (r, x')"
  shows "case r of Inr _ \<Rightarrow> V x (im_rfq_id m) = None \<and> V x' = (V x)(im_rfq_id m \<mapsto> m) | Inl _ \<Rightarrow> V x' = V x"
  using assms(1) [unfolded identity_laws_def, THEN conjunct1] assms(2) by blast

lemma get_mapping_laws:
  assumes "identity_laws E V" "get_mapping E i x = (a, x')"
  shows "V x' = V x" "a = Inr m \<Longrightarrow> V x i = Some m"
proof -
  obtain b y where get: "idr_get E i x = (b, y)" by (cases "idr_get E i x")
  then have "V y = V x" "b = Inr found \<Longrightarrow> found = V x i" for found using assms(1) by (auto simp: identity_laws_def)
  with get assms(2) show "V x' = V x" "a = Inr m \<Longrightarrow> V x i = Some m"
    by (auto simp: get_mapping_def op_then_def anon_call_def map_err_def lift_result_def ok_or_Inr_iff split: sum.splits)
qed

lemma reveal_laws:
  assumes "identity_laws E V" "reveal_identity E i p x = (a, x')"
  shows "case a of Inl _ \<Rightarrow> V x' = V x
    | Inr who \<Rightarrow> \<exists>m now. V x i = Some m \<and> who = im_requester_id m \<and> V x' = (V x)(i \<mapsto> im_reveal_to now p m)"
proof -
  obtain b y where found: "get_mapping E i x = (b, y)" by (cases "get_mapping E i x")
  note L = get_mapping_laws [OF assms(1) found]
  show ?thesis
  proof (cases b)
    case (Inl e)
    then show ?thesis using assms(2) found L(1) by (auto simp: reveal_identity_def op_then_def)
  next
    case (Inr m)
    obtain c z where rec: "idr_record_reveal E i p y = (c, z)" by (cases "idr_record_reveal E i p y")
    then have "case c of Inr _ \<Rightarrow> \<exists>m now. V y i = Some m \<and> V z = (V y)(i \<mapsto> im_reveal_to now p m) | Inl _ \<Rightarrow> V z = V y"
      using assms(1) unfolding identity_laws_def by blast
    then show ?thesis using assms(2) found L Inr rec
      by (auto simp: reveal_identity_def op_then_def anon_call_def map_err_def op_ret_def split: sum.splits)
  qed
qed

text \<open>A query leaves the mappings.\<close>

lemma query_laws:
  assumes "identity_laws E V"
  shows "V (snd (an_is_revealed_to E i p x)) = V x" "V (snd (get_requester_identity E i x)) = V x"
  using get_mapping_laws(1) [OF assms, of i x]
  by (cases "get_mapping E i x"; cases "fst (get_mapping E i x)";
      simp add: an_is_revealed_to_def get_requester_identity_def op_then_def op_ret_def)+

text \<open>The entry for the RFQ \<open>i\<close>, if the telling is about it.\<close>

fun told_of :: "uuid \<Rightarrow> telling \<Rightarrow> (counterparty_id \<times> counterparty_id) option" where
  "told_of i (ByCheckedCall j p who) = (if j = i then Some (p, who) else None)"
| "told_of i (ByDirectCall j p who) = (if j = i then Some (p, who) else None)"

definition told_inv :: "('x \<Rightarrow> uuid \<rightharpoonup> identity_mapping) \<Rightarrow> 'd rfq \<Rightarrow> 'x \<Rightarrow> telling list \<Rightarrow> bool" where
  "told_inv V r x told \<longleftrightarrow> (\<forall>m. V x (rfq_id r) = Some m \<longrightarrow> mapping_inv (rfq_client_id r) m)
     \<and> (\<forall>t p who. t \<in> set told \<longrightarrow> told_of (rfq_id r) t = Some (p, who)
          \<longrightarrow> who = rfq_client_id r \<and> (\<exists>m. V x (rfq_id r) = Some m \<and> p \<in> set (im_revealed_to m)))"

lemma told_inv_kept:
  "told_inv V r x told \<Longrightarrow> V x' = V x \<Longrightarrow> told_inv V r x' told"
  by (simp add: told_inv_def)

text \<open>A reveal of the service, checked or not, keeps the invariant.\<close>

lemma told_inv_reveal:
  assumes "told_inv V r x told" "t = ByCheckedCall i p who \<or> t = ByDirectCall i p who"
    and "V x i = Some m" "who = im_requester_id m" "V y = (V x)(i \<mapsto> im_reveal_to now p m)"
  shows "told_inv V r y (told @ [t])"
proof (cases "i = rfq_id r")
  case True
  then have old: "mapping_inv (rfq_client_id r) m" using assms(1,3) by (simp add: told_inv_def)
  have "who = rfq_client_id r" using old assms(4) by (simp add: mapping_inv_def)
  moreover have "V y (rfq_id r) = Some (im_reveal_to now p m)" using assms(5) True by simp
  moreover have "mapping_inv (rfq_client_id r) (im_reveal_to now p m)" by (rule mapping_inv_reveal [OF old])
  moreover have "p' \<in> set (im_revealed_to (im_reveal_to now p m)) \<longleftrightarrow> p' = p \<or> p' \<in> set (im_revealed_to m)" for p'
    by (simp add: reveal_to_simps)
  ultimately show ?thesis using assms(1,2,3) True by (auto simp: told_inv_def)
next
  case False
  then have "V y (rfq_id r) = V x (rfq_id r)" "told_of (rfq_id r) t = None" using assms(2,5) by auto
  then show ?thesis using assms(1) by (auto simp: told_inv_def)
qed

lemma told_inv_step:
  assumes "identity_laws E V" "told_inv V r x told" "anonymity_step E c (r, x, told) = (r', x', told')"
  shows "told_inv V r' x' told'"
proof (cases c)
  case (RfqCall c')
  then show ?thesis using assms(2,3) by (auto simp: told_inv_def rfq_apply_frame)
next
  case (CreateMapping now)
  show ?thesis
  proof (cases "al_is_anonymous (rfq_anonymity_level r)")
    case False
    then show ?thesis using assms(2,3) CreateMapping by (auto simp: create_mapping_def op_fail_def)
  next
    case True
    let ?m = "im_new now (rfq_id r) (rfq_client_id r) (rfq_anonymity_level r)"
    obtain b y where save: "idr_save E ?m x = (b, y)" by (cases "idr_save E ?m x")
    then have "snd (create_mapping E now r x) = y" using True
      by (cases b) (simp_all add: create_mapping_def op_then_def anon_call_def map_err_def op_ret_def Let_def)
    then have "x' = y" using assms(3) CreateMapping by simp
    moreover have "case b of Inr _ \<Rightarrow> V x (im_rfq_id ?m) = None \<and> V y = (V x)(im_rfq_id ?m \<mapsto> ?m) | Inl _ \<Rightarrow> V y = V x"
      by (rule save_law [OF assms(1) save])
    moreover have "im_rfq_id ?m = rfq_id r" "mapping_inv (rfq_client_id r) ?m" by (simp_all add: im_new_def mapping_inv_def)
    moreover have "r' = r" "told' = told" using assms(3) CreateMapping by simp_all
    ultimately have "(V x (rfq_id r) = None \<and> V x' = (V x)(rfq_id r \<mapsto> ?m)) \<or> V x' = V x" "r' = r" "told' = told"
      "mapping_inv (rfq_client_id r) ?m" by (cases b; simp)+
    then show ?thesis using assms(2) by (elim disjE conjE) (auto simp: told_inv_def)
  qed
next
  case (AskIdentity p)
  show ?thesis
  proof (cases "al_is_anonymous (rfq_anonymity_level r) \<and> can_reveal_identity r")
    case True
    obtain a y where ask: "reveal_identity E (rfq_id r) p x = (a, y)" by (cases "reveal_identity E (rfq_id r) p x")
    from reveal_laws [OF assms(1) ask] show ?thesis
      using assms(2,3) AskIdentity True ask
      by (cases a) (auto simp: reveal_identity_if_valid_def intro: told_inv_kept told_inv_reveal)
  next
    case False
    then show ?thesis using assms(2,3) AskIdentity
      by (auto simp: reveal_identity_if_valid_def op_fail_def split: if_splits)
  qed
next
  case (RevealDirectly i p)
  obtain a y where ask: "reveal_identity E i p x = (a, y)" by (cases "reveal_identity E i p x")
  from reveal_laws [OF assms(1) ask] show ?thesis
    using assms(2,3) RevealDirectly ask by (cases a) (auto intro: told_inv_kept told_inv_reveal)
qed (use assms(2,3) query_laws [OF assms(1)] in \<open>auto intro: told_inv_kept\<close>)

lemma told_inv_run:
  assumes "identity_laws E V" "told_inv V r x told"
  shows "told_inv V (fst (run_anonymity E cs (r, x, told))) (fst (snd (run_anonymity E cs (r, x, told))))
    (snd (snd (run_anonymity E cs (r, x, told))))"
proof (induction cs rule: rev_induct)
  case (snoc c cs)
  show ?case
    using told_inv_step [OF assms(1) snoc, of c] by (simp add: run_anonymity_snoc)
qed (use assms(2) in \<open>simp add: run_anonymity_def\<close>)

text \<open>The checked call tells in the states of an execution only, and of its own RFQ.\<close>

lemma checked_telling:
  assumes "ByCheckedCall i p who \<in> set (snd (snd (run_anonymity E cs (r, x, []))))"
  shows "\<exists>as bs. cs = as @ AskIdentity p # bs \<and> i = rfq_id (fst (run_anonymity E as (r, x, [])))
    \<and> rfq_in_execution (fst (run_anonymity E as (r, x, [])))"
  using assms
proof (induction cs rule: rev_induct)
  case (snoc c cs)
  let ?s = "run_anonymity E cs (r, x, [])"
  show ?case
  proof (cases "ByCheckedCall i p who \<in> set (snd (snd ?s))")
    case True
    then obtain as bs where "cs = as @ AskIdentity p # bs" "i = rfq_id (fst (run_anonymity E as (r, x, [])))"
        "rfq_in_execution (fst (run_anonymity E as (r, x, [])))" using snoc.IH by blast
    then show ?thesis by (intro exI [of _ as] exI [of _ "bs @ [c]"]) simp
  next
    case False
    obtain r1 x1 told1 where s: "?s = (r1, x1, told1)" by (cases ?s)
    have "c = AskIdentity p \<and> i = rfq_id r1 \<and> can_reveal_identity r1"
      using snoc.prems False s by (cases c)
        (auto simp: run_anonymity_snoc reveal_identity_if_valid_def op_fail_def split: if_splits prod.splits sum.splits)
    then show ?thesis using s
      by (intro exI [of _ cs] exI [of _ "[]"]) (auto simp: can_reveal_identity_def rfq_in_execution_def split: rfq_state.splits)
  qed
qed (simp add: run_anonymity_def)

lemma execution_in_history:
  assumes "rfq_inv r" "\<not> rfq_in_execution r" "rfq_in_execution (fst (run_anonymity E cs (r, x, [])))"
  shows "\<exists>as n u bs. cs = as @ RfqCall (StartExecution n u) # bs
    \<and> fst (rfq_start_execution n u (fst (run_anonymity E as (r, x, [])))) = Inr ()"
proof -
  obtain as n u bs where split: "rfq_calls cs = as @ StartExecution n u # bs"
    and ok: "fst (rfq_start_execution n u (run_ops rfq_apply as r)) = Inr ()"
    using rfq_execution_history [OF assms(1,2)] assms(3) unfolding rfq_of_run by blast
  obtain as' bs' where "cs = as' @ RfqCall (StartExecution n u) # bs'" "rfq_calls as' = as"
    using rfq_calls_split [OF split] by blast
  with ok show ?thesis by (intro exI [of _ as'] exI [of _ n] exI [of _ u] exI [of _ bs']) (simp add: rfq_of_run)
qed

section \<open>Properties\<close>

text \<open>
  C17. Over any history of an anonymous RFQ in which its own methods and every method of the service may be called, the unchecked \<open>reveal_identity\<close>
  included: an identity told by the checked call \<open>reveal_identity_if_valid\<close> was told about this RFQ, after a call of \<open>start_execution\<close> had succeeded and while
  the RFQ was executing or executed. By whichever of the two calls some party was told the identity of this RFQ, what it was told is the client of the RFQ, and
  the party is among those recorded in the mapping, each once and with the time of the first. (The unchecked call itself asks for no
  state.) The repository keeps what its trait documents.
\<close>
theorem identity_told_only_in_execution:
  assumes "rb_try_build D fresh now_check now b = Inr r" "identity_laws E V" "V x (rfq_id r) = None"
    and "run_anonymity E cs (r, x, []) = (r', x', told)"
  shows "(\<forall>i p who. ByCheckedCall i p who \<in> set told \<longrightarrow> i = rfq_id r
      \<and> (\<exists>as n u bs ds. cs = as @ RfqCall (StartExecution n u) # bs @ AskIdentity p # ds
          \<and> fst (rfq_start_execution n u (fst (run_anonymity E as (r, x, [])))) = Inr ()
          \<and> rfq_state (fst (run_anonymity E (as @ RfqCall (StartExecution n u) # bs) (r, x, []))) \<in> {Executing, Executed}))
    \<and> (\<forall>p who. ByCheckedCall (rfq_id r) p who \<in> set told \<or> ByDirectCall (rfq_id r) p who \<in> set told \<longrightarrow>
        who = rfq_client_id r
        \<and> (\<exists>m. V x' (rfq_id r) = Some m \<and> p \<in> set (im_revealed_to m) \<and> distinct (im_revealed_to m) \<and> im_is_revealed m))"
proof (intro conjI allI impI)
  have new: "rfq_inv r" "\<not> rfq_in_execution r"
    using assms(1) by (auto simp: rb_try_build_def rfq_inv_def rs_has_quotes_def rfq_in_execution_def)
  have same: "rfq_id (fst (run_anonymity E ds (r, x, []))) = rfq_id r"
    "rfq_client_id (fst (run_anonymity E ds (r, x, []))) = rfq_client_id r" for ds
    by (simp_all add: rfq_of_run run_ops_invariant [where P = "\<lambda>s. rfq_id s = rfq_id r"]
        run_ops_invariant [where P = "\<lambda>s. rfq_client_id s = rfq_client_id r"] rfq_apply_frame)
  fix p who
  {
    fix i assume "ByCheckedCall i p who \<in> set told"
    then have "ByCheckedCall i p who \<in> set (snd (snd (run_anonymity E cs (r, x, []))))" using assms(4) by simp
    from checked_telling [OF this] obtain before ds where cs: "cs = before @ AskIdentity p # ds"
        "i = rfq_id (fst (run_anonymity E before (r, x, [])))" "rfq_in_execution (fst (run_anonymity E before (r, x, [])))"
      by blast
    show "i = rfq_id r" using cs(2) same by simp
    obtain as n u bs where "before = as @ RfqCall (StartExecution n u) # bs"
        "fst (rfq_start_execution n u (fst (run_anonymity E as (r, x, [])))) = Inr ()"
      using execution_in_history [OF new cs(3)] by blast
    then show "\<exists>as n u bs ds. cs = as @ RfqCall (StartExecution n u) # bs @ AskIdentity p # ds
          \<and> fst (rfq_start_execution n u (fst (run_anonymity E as (r, x, [])))) = Inr ()
          \<and> rfq_state (fst (run_anonymity E (as @ RfqCall (StartExecution n u) # bs) (r, x, []))) \<in> {Executing, Executed}"
      using cs(1,3) by (intro exI [of _ as] exI [of _ n] exI [of _ u] exI [of _ bs] exI [of _ ds])
        (auto simp: rfq_in_execution_def)
  }
  assume "ByCheckedCall (rfq_id r) p who \<in> set told \<or> ByDirectCall (rfq_id r) p who \<in> set told"
  then obtain t where t: "t \<in> set told" "told_of (rfq_id r) t = Some (p, who)" by fastforce
  have "told_inv V r x []" using assms(3) by (simp add: told_inv_def)
  then have "told_inv V r' x' told" "rfq_id r' = rfq_id r" "rfq_client_id r' = rfq_client_id r"
    using told_inv_run [OF assms(2), of r x "[]" cs] same [of cs] assms(4) by simp_all
  note T = this(1) [unfolded told_inv_def this(2,3)]
  have inv: "\<forall>m. V x' (rfq_id r) = Some m \<longrightarrow> mapping_inv (rfq_client_id r) m" using T by (rule conjunct1)
  moreover have told_true: "who = rfq_client_id r \<and> (\<exists>m. V x' (rfq_id r) = Some m \<and> p \<in> set (im_revealed_to m))"
    using T t by blast
  ultimately show "who = rfq_client_id r" by blast
  show "\<exists>m. V x' (rfq_id r) = Some m \<and> p \<in> set (im_revealed_to m) \<and> distinct (im_revealed_to m) \<and> im_is_revealed m"
    using inv told_true by (fastforce simp: mapping_inv_def im_is_revealed_def)
qed

text \<open>A repository that keeps its mappings in a map, as the trait documents.\<close>

definition map_identities :: "(uuid \<rightharpoonup> identity_mapping, 'd) identity_repository" where
  "map_identities = \<lparr>
     idr_save = (\<lambda>m S. if S (im_rfq_id m) = None then (Inr (), S(im_rfq_id m \<mapsto> m))
       else (Inl (RepoDuplicate ''IdentityMapping'' (Txt ''rfq'')), S)),
     idr_get = (\<lambda>i S. (Inr (S i), S)),
     idr_record_reveal = (\<lambda>i p S. case S i of None \<Rightarrow> (Inl (RepoNotFound ''IdentityMapping'' (Txt ''rfq'')), S)
       | Some m \<Rightarrow> (Inr (), S(i \<mapsto> im_reveal_to 50 p m))) \<rparr>"

lemma map_identities_laws: "identity_laws map_identities (\<lambda>S. S)"
  by (auto simp: identity_laws_def map_identities_def split: if_splits option.splits)

definition anonymous_rfq :: "int rfq" where
  "anonymous_rfq = rb_build 7 100 (rb_anonymous (rb_new ''client'' (instrument_default_build sample_symbol CryptoSpot)
     Buy (Quantity 5) 900))"

lemma anonymous_rfq_built:
  "rb_try_build whole_dec 7 99 100 (rb_anonymous (rb_new ''client'' (instrument_default_build sample_symbol CryptoSpot)
     Buy (Quantity 5) 900)) = Inr anonymous_rfq"
  by (simp add: rb_try_build_def rfq_validate_quantity_def rfq_validate_expiry_def rb_anonymous_def
      quantity_is_positive_def ts_is_expired_def anonymous_rfq_def rb_build_def rb_new_def)

definition anonymous_history :: "int anonymity_call list" where
  "anonymous_history = [CreateMapping 101, AskIdentity ''eager'', RfqCall (StartQuoteCollection 101),
     RfqCall (ReceiveQuote 102 103 (sample_quote 1 50 300)), RfqCall (SelectQuote 104 105 1),
     RfqCall (StartExecution 106 107), AskIdentity ''maker'', RevealDirectly 7 ''custodian'']"

lemma anonymous_history_told: "snd (snd (run_anonymity map_identities anonymous_history (anonymous_rfq, Map.empty, [])))
    = [ByCheckedCall 7 ''maker'' ''client'', ByDirectCall 7 ''custodian'' ''client'']"
proof -
  let ?m = "im_new 101 7 ''client'' FullAnonymous"
  note service = run_anonymity_def create_mapping_def reveal_identity_if_valid_def can_reveal_identity_def reveal_identity_def
    get_mapping_def anon_call_def map_err_def op_then_def op_ret_def op_fail_def lift_result_def map_identities_def
    al_is_anonymous_def im_new_def
  have early: "run_anonymity map_identities [CreateMapping 101, AskIdentity ''eager''] (anonymous_rfq, Map.empty, [])
      = (anonymous_rfq, [7 \<mapsto> ?m], [])"
    by (simp add: service anonymous_rfq_def rb_build_def rb_anonymous_def rb_new_def Let_def)
  obtain r where r: "run_anonymity map_identities [RfqCall (StartQuoteCollection 101),
       RfqCall (ReceiveQuote 102 103 (sample_quote 1 50 300)), RfqCall (SelectQuote 104 105 1), RfqCall (StartExecution 106 107)]
       (anonymous_rfq, [7 \<mapsto> ?m], []) = (r, [7 \<mapsto> ?m], [])"
    and state: "rfq_state r = Executing" "rfq_id r = 7" "rfq_anonymity_level r = FullAnonymous"
    by (simp add: run_anonymity_def anonymous_rfq_def rb_build_def rb_anonymous_def rb_new_def rfq_op_defs rs_can_transition_to_def
        sample_quote_def qb_build_def qb_new_def quote_is_expired_def ts_is_expired_def)
  have "anonymous_history = [CreateMapping 101, AskIdentity ''eager''] @ [RfqCall (StartQuoteCollection 101),
       RfqCall (ReceiveQuote 102 103 (sample_quote 1 50 300)), RfqCall (SelectQuote 104 105 1), RfqCall (StartExecution 106 107)]
       @ [AskIdentity ''maker'', RevealDirectly 7 ''custodian'']" by (simp add: anonymous_history_def)
  then have tail: "run_anonymity map_identities anonymous_history (anonymous_rfq, Map.empty, [])
      = run_anonymity map_identities [AskIdentity ''maker'', RevealDirectly 7 ''custodian''] (r, [7 \<mapsto> ?m], [])"
    using early r by (metis run_anonymity_append)
  have "snd (snd (run_anonymity map_identities [AskIdentity ''maker'', RevealDirectly 7 ''custodian''] (r, [7 \<mapsto> ?m], [])))
      = [ByCheckedCall 7 ''maker'' ''client'', ByDirectCall 7 ''custodian'' ''client'']"
    using state by (simp add: service im_reveal_to_def Let_def im_is_revealed_to_def)
  then show ?thesis unfolding tail .
qed

lemma identity_told_only_in_execution_witness:
  "(\<exists>as n u bs ds. anonymous_history = as @ RfqCall (StartExecution n u) # bs @ AskIdentity ''maker'' # ds
     \<and> fst (rfq_start_execution n u (fst (run_anonymity map_identities as (anonymous_rfq, Map.empty, [])))) = Inr ())
   \<and> (\<exists>m. fst (snd (run_anonymity map_identities anonymous_history (anonymous_rfq, Map.empty, []))) 7 = Some m
     \<and> ''custodian'' \<in> set (im_revealed_to m))"
proof -
  obtain r x told where run: "run_anonymity map_identities anonymous_history (anonymous_rfq, Map.empty, []) = (r, x, told)"
    by (cases "run_anonymity map_identities anonymous_history (anonymous_rfq, Map.empty, [])")
  have seven: "rfq_id anonymous_rfq = 7" by (simp add: anonymous_rfq_def rb_build_def rb_anonymous_def rb_new_def)
  have "ByCheckedCall 7 ''maker'' ''client'' \<in> set told" "ByDirectCall 7 ''custodian'' ''client'' \<in> set told"
    using run anonymous_history_told by simp_all
  with identity_told_only_in_execution [OF anonymous_rfq_built map_identities_laws _ run] show ?thesis
    unfolding run seven by (simp add: split del: if_split) blast
qed

text \<open>
  The identity can be told before anything was traded, to anybody: while execution runs every party that asks is answered, whether it quoted or not,
  and the execution may fail afterwards.
\<close>
theorem identity_told_without_trade:
  assumes "rfq_state r = Executing" "al_is_anonymous (rfq_anonymity_level r)"
    and "idr_get E (rfq_id r) x = (Inr (Some m), y)" "idr_record_reveal E (rfq_id r) p y = (Inr (), z)"
  shows "run_anonymity E [AskIdentity p, RfqCall (MarkFailed now reason)] (r, x, told)
      = (snd (rfq_mark_failed now reason r), z, told @ [ByCheckedCall (rfq_id r) p (im_requester_id m)])
    \<and> rfq_state (snd (rfq_mark_failed now reason r)) = Failed"
  using assms
  by (simp add: run_anonymity_def reveal_identity_if_valid_def can_reveal_identity_def reveal_identity_def get_mapping_def
      anon_call_def map_err_def op_then_def op_ret_def lift_result_def rfq_op_defs rs_can_transition_to_def)

lemma identity_told_without_trade_witness:
  "rfq_state (snd (rfq_mark_failed 9 ''venue down'' (anonymous_rfq\<lparr> rfq_state := Executing \<rparr>))) = Failed"
  using identity_told_without_trade [of "anonymous_rfq\<lparr> rfq_state := Executing \<rparr>" map_identities
      "Map.empty(7 \<mapsto> im_new 1 7 ''client'' FullAnonymous)" "im_new 1 7 ''client'' FullAnonymous"
      "Map.empty(7 \<mapsto> im_new 1 7 ''client'' FullAnonymous)" "''anybody''"
      "Map.empty(7 \<mapsto> im_reveal_to 50 ''anybody'' (im_new 1 7 ''client'' FullAnonymous))" 9 "''venue down''" "[]"]
  by (simp add: anonymous_rfq_def rb_build_def rb_anonymous_def rb_new_def al_is_anonymous_def map_identities_def)

end
