(* ===== verification/Last_Look_Channels.thy ===== *)
theory Last_Look_Channels
  imports Acceptance
begin

text \<open>
  Who answers a last look: the clients of \<open>src/infrastructure/last_look/websocket.rs\<close>, \<open>grpc.rs\<close> and \<open>fix.rs\<close>, and the composite
  service of \<open>composite.rs\<close> that routes a request by the venue. They implement the trait that the acceptance flow asks
  (\<open>Acceptance\<close>). Durations are nanoseconds; the pauses are not modelled.
\<close>

section \<open>What the statistics say\<close>

definition lls_record :: "last_look_result \<Rightarrow> last_look_stats \<Rightarrow> last_look_stats" where
  "lls_record res s = (case res of
       LookConfirmed _ _ \<Rightarrow> lls_record_confirmation s
     | LookRejected _ _ _ \<Rightarrow> lls_record_rejection s
     | LookTimeout _ _ _ \<Rightarrow> lls_record_timeout s)"

section \<open>Market makers\<close>

record mm_last_look_config =
  mml_mm_id :: counterparty_id
  mml_enabled :: bool
  mml_max_window_ms :: u64

definition mml_new :: "counterparty_id \<Rightarrow> mm_last_look_config" where
  "mml_new m = \<lparr> mml_mm_id = m, mml_enabled = True, mml_max_window_ms = 200 \<rparr>"

definition mml_disabled :: "counterparty_id \<Rightarrow> mm_last_look_config" where
  "mml_disabled m = \<lparr> mml_mm_id = m, mml_enabled = False, mml_max_window_ms = 200 \<rparr>"

definition mml_timeout :: "mm_last_look_config \<Rightarrow> nat" where
  "mml_timeout c = unat (mml_max_window_ms c) * 1000000"

section \<open>The clients\<close>

datatype last_look_channel = LookWebSocket | LookGrpc | LookFix

definition llch_display :: "last_look_channel \<Rightarrow> string" where
  "llch_display c = (case c of LookWebSocket \<Rightarrow> ''websocket'' | LookGrpc \<Rightarrow> ''grpc'' | LookFix \<Rightarrow> ''fix'')"

text \<open>A client holds which venues need a last look, and its statistics. The three differ in the time they wait.\<close>

record look_client =
  lkc_channel :: last_look_channel
  lkc_request_timeout :: nat
  lkc_venues :: "venue_id \<rightharpoonup> bool"
  lkc_stats :: last_look_stats

definition websocket_client :: look_client where
  "websocket_client = \<lparr> lkc_channel = LookWebSocket, lkc_request_timeout = 0, lkc_venues = Map.empty, lkc_stats = lls_new \<rparr>"

definition grpc_client :: "nat \<Rightarrow> look_client" where
  "grpc_client request_timeout = \<lparr> lkc_channel = LookGrpc, lkc_request_timeout = request_timeout, lkc_venues = Map.empty,
     lkc_stats = lls_new \<rparr>"

definition fix_client :: look_client where
  "fix_client = \<lparr> lkc_channel = LookFix, lkc_request_timeout = 0, lkc_venues = Map.empty, lkc_stats = lls_new \<rparr>"

definition lkc_register_venue :: "venue_id \<Rightarrow> bool \<Rightarrow> look_client \<Rightarrow> look_client" where
  "lkc_register_venue v requires c = c\<lparr> lkc_venues := (lkc_venues c)(v \<mapsto> requires) \<rparr>"

definition websocket_request :: "timestamp \<Rightarrow> 'd quote \<Rightarrow> nat \<Rightarrow> last_look_result" where
  "websocket_request now q timeout = LookTimeout (quote_id q) timeout now"

definition grpc_request :: "timestamp \<Rightarrow> look_client \<Rightarrow> 'd quote \<Rightarrow> nat \<Rightarrow> last_look_result" where
  "grpc_request now c q timeout = (let effective_timeout = min timeout (lkc_request_timeout c) in
     LookTimeout (quote_id q) effective_timeout now)"

definition fix_request :: "timestamp \<Rightarrow> 'd quote \<Rightarrow> nat \<Rightarrow> last_look_result" where
  "fix_request now q timeout = LookTimeout (quote_id q) timeout now"

text \<open>The call of a client behind the trait.\<close>

definition client_request :: "timestamp \<Rightarrow> look_client \<Rightarrow> 'd quote \<Rightarrow> nat \<Rightarrow> last_look_result" where
  "client_request now c q timeout = (case lkc_channel c of
       LookWebSocket \<Rightarrow> websocket_request now q timeout
     | LookGrpc \<Rightarrow> grpc_request now c q timeout
     | LookFix \<Rightarrow> fix_request now q timeout)"

definition client_requires :: "look_client \<Rightarrow> venue_id \<Rightarrow> bool" where
  "client_requires c v = (case lkc_venues c v of Some b \<Rightarrow> b | None \<Rightarrow> False)"

definition client_record :: "last_look_result \<Rightarrow> look_client \<Rightarrow> look_client" where
  "client_record res c = c\<lparr> lkc_stats := lls_record res (lkc_stats c) \<rparr>"

section \<open>The composite\<close>

record venue_routing =
  vr_channel :: last_look_channel
  vr_requires_last_look :: bool

text \<open>The clients are objects behind the trait: what they answer to a request, on a state \<open>'x\<close> of the world.\<close>

type_synonym ('x, 'd) look_request = "'d quote \<Rightarrow> nat \<Rightarrow> 'x \<Rightarrow> last_look_result \<times> 'x"

record ('x, 'd) look_channels =
  lc_websocket :: "('x, 'd) look_request option"
  lc_grpc :: "('x, 'd) look_request option"
  lc_fix :: "('x, 'd) look_request option"

definition no_channels :: "('x, 'd) look_channels" where
  "no_channels = \<lparr> lc_websocket = None, lc_grpc = None, lc_fix = None \<rparr>"

definition get_client :: "('x, 'd) look_channels \<Rightarrow> last_look_channel \<Rightarrow> ('x, 'd) look_request option" where
  "get_client S c = (case c of LookWebSocket \<Rightarrow> lc_websocket S | LookGrpc \<Rightarrow> lc_grpc S | LookFix \<Rightarrow> lc_fix S)"

record look_router =
  lr_routing :: "venue_id \<rightharpoonup> venue_routing"
  lr_stats :: last_look_stats

definition look_router_new :: look_router where
  "look_router_new = \<lparr> lr_routing = Map.empty, lr_stats = lls_new \<rparr>"

definition lr_register_venue :: "venue_id \<Rightarrow> venue_routing \<Rightarrow> look_router \<Rightarrow> look_router" where
  "lr_register_venue v routing c = c\<lparr> lr_routing := (lr_routing c)(v \<mapsto> routing) \<rparr>"

text \<open>The router lies beside the world of the clients; \<open>now\<close> is the clock where the composite answers itself.\<close>

definition composite_request :: "('x, 'd) look_channels \<Rightarrow> timestamp \<Rightarrow> (look_router \<times> 'x, 'd) look_request" where
  "composite_request S now q timeout w = (case w of (c, x) \<Rightarrow>
     (case lr_routing c (quote_venue_id q) of
        None \<Rightarrow> (LookConfirmed (quote_id q) now, w)
      | Some routing \<Rightarrow>
          if \<not> vr_requires_last_look routing then (LookConfirmed (quote_id q) now, w)
          else (case get_client S (vr_channel routing) of
              None \<Rightarrow> (LookRejected (quote_id q)
                (OtherReason (''channel '' @ llch_display (vr_channel routing) @ '' not configured'')) now, w)
            | Some client \<Rightarrow> (case client q timeout x of (res, x') \<Rightarrow> (res, c, x')))))"

definition composite_requires :: "look_router \<Rightarrow> venue_id \<Rightarrow> bool" where
  "composite_requires c v = (case lr_routing c v of Some routing \<Rightarrow> vr_requires_last_look routing | None \<Rightarrow> False)"

definition composite_get_stats :: "look_router \<Rightarrow> venue_id \<Rightarrow> last_look_stats option" where
  "composite_get_stats c v = Some (lr_stats c)"

definition composite_record :: "venue_id \<Rightarrow> last_look_result \<Rightarrow> look_router \<Rightarrow> look_router" where
  "composite_record v res c = c\<lparr> lr_stats := lls_record res (lr_stats c) \<rparr>"

section \<open>The contract of a channel\<close>

text \<open>
  What the acceptance relies on: the answer is about the quote that was asked about, and a time-out was not longer than asked for.
\<close>

locale look_channel =
  fixes request :: "('x, 'd) look_request"
  assumes own_quote: "ll_quote_id (fst (request q t x)) = quote_id q"
    and in_time: "fst (request q t x) = LookTimeout i t' n \<Longrightarrow> t' \<le> t"
begin

text \<open>Then the flow never takes a last look for longer than the time it has left, nor one of another quote.\<close>

lemma look_of_flow:
  assumes "ae_request_look E = request" "af_perform_last_look E cfg i q x = (a, x')"
  shows "a = Inr (Some k) \<Longrightarrow> ll_quote_id k = quote_id q"
    and "a = Inl (LastLookTimeout m) \<Longrightarrow>
      \<exists>t. m = Fmt ''Timed out after {}ms'' [ArgNat (t div 1000000)] \<and> t \<le> afc_total_timeout cfg - ai_remaining_at i"
proof -
  let ?t = "llc_effective_timeout (afc_last_look_config cfg)
    (Some (min (afc_remaining_time cfg (ai_remaining_at i)) (llc_default_timeout (afc_last_look_config cfg))))"
  obtain res y where req: "request q ?t x = (res, y)" by (cases "request q ?t x")
  have t: "?t \<le> afc_total_timeout cfg - ai_remaining_at i" by (simp add: llc_effective_timeout_def afc_remaining_time_def)
  have own: "ll_quote_id res = quote_id q" and early: "\<And>i t' n. res = LookTimeout i t' n \<Longrightarrow> t' \<le> ?t"
    using own_quote [of q ?t x] in_time [of q ?t x] req by simp_all
  show "ll_quote_id k = quote_id q" if "a = Inr (Some k)"
    using assms req own that by (auto simp: af_perform_last_look_def Let_def split: if_splits last_look_result.splits)
  show "\<exists>t. m = Fmt ''Timed out after {}ms'' [ArgNat (t div 1000000)] \<and> t \<le> afc_total_timeout cfg - ai_remaining_at i"
    if "a = Inl (LastLookTimeout m)"
    using assms req early t that order.trans
    by (fastforce simp: af_perform_last_look_def Let_def split: if_splits last_look_result.splits)
qed

end

definition client_channel :: "timestamp \<Rightarrow> look_client \<Rightarrow> ('x, 'd) look_request" where
  "client_channel now c q timeout x = (client_request now c q timeout, x)"

lemma client_request_cases:
  "\<exists>t'\<le>timeout. client_request now c q timeout = LookTimeout (quote_id q) t' now"
  by (cases "lkc_channel c") (auto simp: client_request_def websocket_request_def grpc_request_def fix_request_def Let_def)

interpretation client: look_channel "client_channel now c"
proof
  fix q :: "'a quote" and t :: nat and x :: 'b
  obtain t' where "t' \<le> t" "client_request now c q t = LookTimeout (quote_id q) t' now"
    using client_request_cases [of t now c q] by blast
  then show "ll_quote_id (fst (client_channel now c q t x)) = quote_id q"
    "fst (client_channel now c q t x) = LookTimeout i t'' n \<Longrightarrow> t'' \<le> t" for i t'' n
    by (simp_all add: client_channel_def)
qed

text \<open>The composite keeps the contract when its channels do.\<close>

lemma composite_channel:
  fixes S :: "('x, 'd) look_channels"
  assumes "\<And>c client. get_client S c = Some client \<Longrightarrow> look_channel client"
  shows "look_channel (composite_request S now)"
proof
  fix q :: "'d quote" and t and w :: "look_router \<times> 'x" and i t' n
  obtain c x where w: "w = (c, x)" by (cases w)
  have ch: "get_client S k = Some client \<Longrightarrow> ll_quote_id (fst (client q t x)) = quote_id q
      \<and> (fst (client q t x) = LookTimeout i t' n \<longrightarrow> t' \<le> t)" for k client
    using look_channel.own_quote [OF assms] look_channel.in_time [OF assms] by metis
  show "ll_quote_id (fst (composite_request S now q t w)) = quote_id q"
    using ch by (auto simp: composite_request_def w split: option.split prod.split) (metis fst_conv)
  show "t' \<le> t" if "fst (composite_request S now q t w) = LookTimeout i t' n"
    using ch that by (auto simp: composite_request_def w split: option.splits if_splits prod.splits)
qed

text \<open>The service as it is built from the clients of the repository, each present or not.\<close>

definition shipped_channels :: "timestamp \<Rightarrow> bool \<Rightarrow> nat option \<Rightarrow> bool \<Rightarrow> ('x, 'd) look_channels" where
  "shipped_channels now ws grpc fix = \<lparr> lc_websocket = (if ws then Some (client_channel now websocket_client) else None),
     lc_grpc = map_option (\<lambda>t. client_channel now (grpc_client t)) grpc,
     lc_fix = (if fix then Some (client_channel now fix_client) else None) \<rparr>"

lemma shipped_clients: "get_client (shipped_channels now ws grpc fx) k = Some client \<Longrightarrow> \<exists>c. client = client_channel now c"
  by (cases k) (auto simp: get_client_def shipped_channels_def split: if_splits)

interpretation shipped: look_channel "composite_request (shipped_channels now ws grpc fx) now"
  by (rule composite_channel) (auto dest!: shipped_clients intro: client.look_channel_axioms)

lemma shipped_get_client:
  "get_client (shipped_channels now ws grpc fx) k = Some client \<Longrightarrow> \<exists>t'\<le>t. client q t x = (LookTimeout (quote_id q) t' now, x)"
  using shipped_clients [of now ws grpc fx k client] client_request_cases [of t now _ q] by (fastforce simp: client_channel_def)

section \<open>Properties\<close>

text \<open>
  With the clients as they are, a last look passes exactly when the venue needs none and there is no reason to stop before: where the venue
  needs one the answer is a rejection if its channel is missing and otherwise a time-out, so no quote of such a venue is ever executed.
\<close>
theorem required_look_never_passes:
  fixes q :: "'d quote" and x :: 'x
  assumes "ae_requires_last_look E = (\<lambda>v w. composite_requires (fst w) v)"
    and "ae_request_look E = composite_request (shipped_channels now ws grpc fx) now"
    and "af_perform_last_look E cfg i q (c, x) = (a, w')"
    and "routing = lr_routing c (quote_venue_id q)"
    and "channel = get_client (shipped_channels now ws grpc fx :: ('x, 'd) look_channels) (vr_channel (the routing))"
  shows "(a \<in> range Inr \<longleftrightarrow> \<not> composite_requires c (quote_venue_id q)
      \<and> (llc_skip_if_not_required (afc_last_look_config cfg) \<or> \<not> afc_is_timed_out cfg (ai_at_look i)))
    \<and> (composite_requires c (quote_venue_id q) \<and> \<not> afc_is_timed_out cfg (ai_at_look i) \<longrightarrow>
        (case channel of None \<Rightarrow> \<exists>m. a = Inl (LastLookRejected m) | Some _ \<Rightarrow> \<exists>m. a = Inl (LastLookTimeout m)))"
proof (cases "composite_requires c (quote_venue_id q)")
  case False
  then have "composite_request S now q t (c, x) = (LookConfirmed (quote_id q) now, c, x)" for S :: "('x, 'd) look_channels" and t
    by (auto simp: composite_requires_def composite_request_def split: option.splits)
  then show ?thesis using False assms(1-3) by (auto simp: af_perform_last_look_def Let_def split: if_splits)
next
  case True
  then obtain ro where ro: "routing = Some ro" "vr_requires_last_look ro"
    using assms(4) by (auto simp: composite_requires_def split: option.splits)
  show ?thesis
  proof (cases channel)
    case None
    then have "composite_request (shipped_channels now ws grpc fx) now q t (c, x) = (LookRejected (quote_id q)
        (OtherReason (''channel '' @ llch_display (vr_channel ro) @ '' not configured'')) now, c, x)" for t
      using ro assms(4,5) by (simp add: composite_request_def)
    then show ?thesis using True None assms(1-3) by (auto simp: af_perform_last_look_def Let_def split: if_splits)
  next
    case (Some client)
    have "\<exists>t'. composite_request (shipped_channels now ws grpc fx) now q t (c, x) = (LookTimeout (quote_id q) t' now, c, x)" for t
    proof -
      have "get_client (shipped_channels now ws grpc fx) (vr_channel ro) = Some client" using Some assms(5) ro(1) by simp
      moreover from shipped_get_client [OF this] obtain t' where "client q t x = (LookTimeout (quote_id q) t' now, x)" by blast
      ultimately show ?thesis using ro assms(4) by (auto simp: composite_request_def)
    qed
    then obtain t' where "\<And>t. composite_request (shipped_channels now ws grpc fx) now q t (c, x)
        = (LookTimeout (quote_id q) (t' t) now, c, x)" by metis
    then show ?thesis using True Some assms(1-3) by (auto simp: af_perform_last_look_def Let_def split: if_splits)
  qed
qed

text \<open>
  The statistics of the composite are of all venues together: what it gives for a venue counts the results recorded for any venue, as far as
  the counters reach.
\<close>
theorem look_statistics_of_all_venues:
  assumes "length rs < 2 ^ 64"
  shows "\<exists>s. composite_get_stats (foldl (\<lambda>c (v, res). composite_record v res c) look_router_new rs) v = Some s
    \<and> unat (lls_total_requests s) = length rs
    \<and> unat (lls_confirmations s) = length (filter (\<lambda>(_, res). ll_is_confirmed res) rs)
    \<and> unat (lls_confirmations s) + unat (lls_rejections s) + unat (lls_timeouts s) = length rs"
proof -
  let ?c = "\<lambda>rs. foldl (\<lambda>c (v, res). composite_record v res c) look_router_new rs"
  have "unat (lls_total_requests (lr_stats (?c rs))) = length rs
    \<and> unat (lls_confirmations (lr_stats (?c rs))) = length (filter (\<lambda>(_, res). ll_is_confirmed res) rs)
    \<and> unat (lls_confirmations (lr_stats (?c rs))) + unat (lls_rejections (lr_stats (?c rs)))
        + unat (lls_timeouts (lr_stats (?c rs))) = length rs"
    using assms
  proof (induction rs rule: rev_induct)
    case Nil
    then show ?case by (simp add: look_router_new_def lls_new_def)
  next
    case (snoc r rs)
    have inc: "unat (sat_add w 1) = unat w + 1" if "unat w \<le> length rs" for w :: u64
      using that snoc.prems by (subst unat_sat_add) simp_all
    show ?case using snoc.IH snoc.prems
      by (cases r; cases "snd r")
        (auto simp: composite_record_def lls_record_def lls_record_confirmation_def lls_record_rejection_def
          lls_record_timeout_def ll_is_confirmed_def inc)
  qed
  then show ?thesis by (simp add: composite_get_stats_def)
qed

text \<open>A venue routed to the channel without client, and one routed to a client.\<close>

definition routed :: "last_look_channel \<Rightarrow> look_router" where
  "routed k = lr_register_venue ''venue'' \<lparr> vr_channel = k, vr_requires_last_look = True \<rparr> look_router_new"

definition shipped_services :: "(look_router \<times> unit, int) accept_env" where
  "shipped_services = \<lparr> ae_lock = (\<lambda>q h ttl. op_ret (ql_new q h 50 ttl)), ae_release = (\<lambda>_. op_ret ()),
     ae_check_risk = (\<lambda>r q x. (rk_pass (rfq_id r) (quote_id q), x)),
     ae_requires_last_look = (\<lambda>v w. composite_requires (fst w) v),
     ae_request_look = composite_request (shipped_channels 9 True None False) 9,
     ae_record_look = (\<lambda>v res (c, x). (composite_record v res c, x)),
     ae_execute = (\<lambda>_ _ _. op_ret sample_trade) \<rparr>"

lemma required_look_never_passes_witness:
  "\<exists>m. fst (af_perform_last_look shipped_services sample_flow_config (sample_accept_inputs 5) (sample_quote 1 50 300)
     (routed LookWebSocket, ())) = Inl (LastLookTimeout m)"
proof -
  obtain a w' where run: "af_perform_last_look shipped_services sample_flow_config (sample_accept_inputs 5) (sample_quote 1 50 300)
     (routed LookWebSocket, ()) = (a, w')" by (cases "af_perform_last_look shipped_services sample_flow_config
      (sample_accept_inputs 5) (sample_quote 1 50 300) (routed LookWebSocket, ())")
  have needs: "composite_requires (routed LookWebSocket) (quote_venue_id (sample_quote 1 50 300))"
    "\<not> afc_is_timed_out sample_flow_config (ai_at_look (sample_accept_inputs 5))"
    by (simp_all add: composite_requires_def routed_def lr_register_venue_def sample_quote_def qb_build_def qb_new_def
        afc_is_timed_out_def sample_flow_config_def sample_accept_inputs_def)
  have "get_client (shipped_channels 9 True None False :: (unit, int) look_channels)
      (vr_channel (the (lr_routing (routed LookWebSocket) (quote_venue_id (sample_quote 1 50 300))))) \<noteq> None"
    by (simp add: get_client_def shipped_channels_def routed_def lr_register_venue_def sample_quote_def qb_build_def qb_new_def)
  then show ?thesis
    using required_look_never_passes [OF _ _ run refl refl, of 9 True None False] needs run
    by (auto simp: shipped_services_def split: option.splits)
qed

lemma look_statistics_of_all_venues_witness:
  "\<exists>s. composite_get_stats (composite_record ''B'' (LookTimeout 2 7 9) (composite_record ''A'' (LookConfirmed 1 8) look_router_new)) ''B''
     = Some s \<and> unat (lls_total_requests s) = 2 \<and> unat (lls_confirmations s) = 1"
  using look_statistics_of_all_venues [of "[(''A'', LookConfirmed 1 8), (''B'', LookTimeout 2 7 9)]" "''B''"]
  by (auto simp: ll_is_confirmed_def)

end
