(* ===== verification/Venues.thy ===== *)
theory Venues
  imports Api_Messages Rfq_Aggregate Float64 Stable_Sorting
begin

text \<open>
  Venues: the entity of \<open>src/domain/entities/venue.rs\<close> with its health, configuration and metrics, the health reports of
  \<open>src/infrastructure/venues/traits.rs\<close>, and the registry of adapters of \<open>src/infrastructure/venues/registry.rs\<close>. The walk over
  the registry's hash map is an argument, the keys in some order; an adapter is its identifier and its answer to
  \<open>is_available\<close>.
\<close>

section \<open>Health\<close>

datatype venue_health = VenueHealthy | VenueDegraded | VenueUnhealthy | VenueUnknown

definition vh_is_operational :: "venue_health \<Rightarrow> bool" where
  "vh_is_operational h \<longleftrightarrow> h = VenueHealthy \<or> h = VenueDegraded"

definition vh_as_u8 :: "venue_health \<Rightarrow> u8" where
  "vh_as_u8 h = (case h of VenueHealthy \<Rightarrow> 0 | VenueDegraded \<Rightarrow> 1 | VenueUnhealthy \<Rightarrow> 2 | VenueUnknown \<Rightarrow> 3)"

definition vh_try_from :: "u8 \<Rightarrow> u8 + venue_health" where
  "vh_try_from v = (if v = 0 then Inr VenueHealthy else if v = 1 then Inr VenueDegraded
     else if v = 2 then Inr VenueUnhealthy else if v = 3 then Inr VenueUnknown else Inl v)"

interpretation venue_health_code: coded_enum vh_as_u8 vh_try_from
  by unfold_locales (auto simp: vh_try_from_def vh_as_u8_def split: venue_health.splits if_splits)

text \<open>The report of a health check.\<close>

record health_report =
  hr_venue_id :: venue_id
  hr_status :: venue_health
  hr_latency_ms :: "u64 option"
  hr_message :: "string option"
  hr_checked_at :: timestamp

definition hr_healthy :: "timestamp \<Rightarrow> venue_id \<Rightarrow> health_report" where
  "hr_healthy now v = \<lparr> hr_venue_id = v, hr_status = VenueHealthy, hr_latency_ms = None, hr_message = None, hr_checked_at = now \<rparr>"

definition hr_healthy_with_latency :: "timestamp \<Rightarrow> venue_id \<Rightarrow> u64 \<Rightarrow> health_report" where
  "hr_healthy_with_latency now v ms = \<lparr> hr_venue_id = v, hr_status = VenueHealthy, hr_latency_ms = Some ms, hr_message = None,
     hr_checked_at = now \<rparr>"

definition hr_degraded :: "timestamp \<Rightarrow> venue_id \<Rightarrow> string \<Rightarrow> health_report" where
  "hr_degraded now v m = \<lparr> hr_venue_id = v, hr_status = VenueDegraded, hr_latency_ms = None, hr_message = Some m, hr_checked_at = now \<rparr>"

definition hr_unhealthy :: "timestamp \<Rightarrow> venue_id \<Rightarrow> string \<Rightarrow> health_report" where
  "hr_unhealthy now v m = \<lparr> hr_venue_id = v, hr_status = VenueUnhealthy, hr_latency_ms = None, hr_message = Some m, hr_checked_at = now \<rparr>"

definition hr_unknown :: "timestamp \<Rightarrow> venue_id \<Rightarrow> health_report" where
  "hr_unknown now v = \<lparr> hr_venue_id = v, hr_status = VenueUnknown, hr_latency_ms = None, hr_message = None, hr_checked_at = now \<rparr>"

definition hr_is_operational :: "health_report \<Rightarrow> bool" where
  "hr_is_operational r = vh_is_operational (hr_status r)"

text \<open>\<open>is_available\<close> of an adapter that does not say otherwise: its health check passes.\<close>

definition adapter_is_available :: "'e + health_report \<Rightarrow> bool" where
  "adapter_is_available checked = (case checked of Inr r \<Rightarrow> hr_is_operational r | Inl _ \<Rightarrow> False)"

section \<open>Configuration and metrics\<close>

record venue_config =
  vcf_settings :: "string \<rightharpoonup> string"
  vcf_timeout_ms :: u64
  vcf_max_concurrent_requests :: u32
  vcf_use_tls :: bool

definition vcf_with_defaults :: "u64 \<Rightarrow> u32 \<Rightarrow> bool \<Rightarrow> venue_config" where
  "vcf_with_defaults timeout maxc tls = \<lparr> vcf_settings = Map.empty, vcf_timeout_ms = timeout, vcf_max_concurrent_requests = maxc,
     vcf_use_tls = tls \<rparr>"

definition vcf_new :: venue_config where
  "vcf_new = vcf_with_defaults 5000 10 True"

record venue_metrics =
  vm_total_requests :: u64
  vm_successful_requests :: u64
  vm_failed_requests :: u64
  vm_total_latency_ms :: u64
  vm_last_request_at :: "timestamp option"
  vm_last_success_at :: "timestamp option"
  vm_last_failure_at :: "timestamp option"

definition vm_new :: venue_metrics where
  "vm_new = \<lparr> vm_total_requests = 0, vm_successful_requests = 0, vm_failed_requests = 0, vm_total_latency_ms = 0,
     vm_last_request_at = None, vm_last_success_at = None, vm_last_failure_at = None \<rparr>"

definition vm_record_request :: "timestamp \<Rightarrow> u64 \<Rightarrow> bool \<Rightarrow> venue_metrics \<Rightarrow> venue_metrics" where
  "vm_record_request now latency_ms success m =
     (let m = m\<lparr> vm_total_requests := sat_add (vm_total_requests m) 1,
                vm_total_latency_ms := sat_add (vm_total_latency_ms m) latency_ms, vm_last_request_at := Some now \<rparr> in
      if success then m\<lparr> vm_successful_requests := sat_add (vm_successful_requests m) 1, vm_last_success_at := Some now \<rparr>
      else m\<lparr> vm_failed_requests := sat_add (vm_failed_requests m) 1, vm_last_failure_at := Some now \<rparr>)"

definition vm_average_latency_ms :: "venue_metrics \<Rightarrow> u64 option" where
  "vm_average_latency_ms m = (if vm_total_requests m = 0 then None else Some (vm_total_latency_ms m div vm_total_requests m))"

definition vm_success_rate :: "venue_metrics \<Rightarrow> f64 option" where
  "vm_success_rate m = (if vm_total_requests m = 0 then None
     else Some (f_mul (f_div (rnd64 (of_nat (unat (vm_successful_requests m)))) (rnd64 (of_nat (unat (vm_total_requests m))))) (rnd64 100)))"

section \<open>The entity\<close>

record 'd venue =
  vn_id :: venue_id
  vn_name :: string
  vn_venue_type :: venue_type
  vn_enabled :: bool
  vn_health :: venue_health
  vn_config :: venue_config
  vn_metrics :: venue_metrics
  vn_supported_instruments :: "'d instrument list"
  vn_created_at :: timestamp
  vn_updated_at :: timestamp

definition vn_new :: "timestamp \<Rightarrow> venue_id \<Rightarrow> string \<Rightarrow> venue_type \<Rightarrow> 'd venue" where
  "vn_new now i name t = \<lparr> vn_id = i, vn_name = name, vn_venue_type = t, vn_enabled = True, vn_health = VenueHealthy,
     vn_config = vcf_new, vn_metrics = vm_new, vn_supported_instruments = [], vn_created_at = now, vn_updated_at = now \<rparr>"

definition vt_is_market_maker :: "venue_type \<Rightarrow> bool" where
  "vt_is_market_maker t \<longleftrightarrow> t = InternalMM \<or> t = ExternalMM"

definition vt_is_defi :: "venue_type \<Rightarrow> bool" where
  "vt_is_defi t \<longleftrightarrow> t = DexAggregator \<or> t = Protocol \<or> t = RfqProtocol"

definition vn_is_available :: "'d venue \<Rightarrow> bool" where
  "vn_is_available v \<longleftrightarrow> vn_enabled v \<and> vh_is_operational (vn_health v)"

definition vn_supports_instrument :: "'d venue \<Rightarrow> 'd instrument \<Rightarrow> bool" where
  "vn_supports_instrument v i = list_ex (\<lambda>j. j = i) (vn_supported_instruments v)"

definition vn_set_enabled :: "timestamp \<Rightarrow> bool \<Rightarrow> 'd venue \<Rightarrow> 'd venue" where
  "vn_set_enabled now e v = v\<lparr> vn_enabled := e, vn_updated_at := now \<rparr>"

definition vn_set_health :: "timestamp \<Rightarrow> venue_health \<Rightarrow> 'd venue \<Rightarrow> 'd venue" where
  "vn_set_health now h v = v\<lparr> vn_health := h, vn_updated_at := now \<rparr>"

definition vn_add_instrument :: "timestamp \<Rightarrow> 'd instrument \<Rightarrow> 'd venue \<Rightarrow> 'd venue" where
  "vn_add_instrument now i v = (if i \<notin> set (vn_supported_instruments v)
     then v\<lparr> vn_supported_instruments := vn_supported_instruments v @ [i], vn_updated_at := now \<rparr> else v)"

text \<open>\<open>position\<close> and \<open>remove\<close>: the first occurrence.\<close>

definition vn_remove_instrument :: "timestamp \<Rightarrow> 'd instrument \<Rightarrow> 'd venue \<Rightarrow> 'd venue" where
  "vn_remove_instrument now i v = (if i \<in> set (vn_supported_instruments v)
     then v\<lparr> vn_supported_instruments := remove1 i (vn_supported_instruments v), vn_updated_at := now \<rparr> else v)"

definition vn_clear_instruments :: "timestamp \<Rightarrow> 'd venue \<Rightarrow> 'd venue" where
  "vn_clear_instruments now v = (if vn_supported_instruments v \<noteq> []
     then v\<lparr> vn_supported_instruments := [], vn_updated_at := now \<rparr> else v)"

text \<open>Writing through \<open>metrics_mut\<close> leaves the time of the last change, \<open>config_mut\<close> renews it.\<close>

definition vn_with_metrics :: "(venue_metrics \<Rightarrow> venue_metrics) \<Rightarrow> 'd venue \<Rightarrow> 'd venue" where
  "vn_with_metrics f v = v\<lparr> vn_metrics := f (vn_metrics v) \<rparr>"

definition vn_with_config :: "timestamp \<Rightarrow> (venue_config \<Rightarrow> venue_config) \<Rightarrow> 'd venue \<Rightarrow> 'd venue" where
  "vn_with_config now f v = v\<lparr> vn_config := f (vn_config v), vn_updated_at := now \<rparr>"

section \<open>The registry\<close>

record 'd registry_config =
  rgc_venue_id :: venue_id
  rgc_enabled :: bool
  rgc_priority :: u32
  rgc_supported_instruments :: "'d instrument list"

definition rgc_new :: "venue_id \<Rightarrow> 'd registry_config" where
  "rgc_new v = \<lparr> rgc_venue_id = v, rgc_enabled = True, rgc_priority = 100, rgc_supported_instruments = [] \<rparr>"

definition rgc_disabled :: "venue_id \<Rightarrow> 'd registry_config" where
  "rgc_disabled v = \<lparr> rgc_venue_id = v, rgc_enabled = False, rgc_priority = 100, rgc_supported_instruments = [] \<rparr>"

definition rgc_supports_instrument :: "'d registry_config \<Rightarrow> 'd instrument \<Rightarrow> bool" where
  "rgc_supports_instrument c i \<longleftrightarrow> rgc_supported_instruments c = [] \<or> list_ex (\<lambda>j. j = i) (rgc_supported_instruments c)"

text \<open>An adapter, with what it answers and does to the world when it is asked whether it is available.\<close>

record 'x venue_adapter =
  vad_venue_id :: venue_id
  vad_is_available :: "'x \<Rightarrow> bool \<times> 'x"

record ('x, 'd) registry_entry =
  rge_adapter :: "'x venue_adapter"
  rge_config :: "'d registry_config"

type_synonym ('x, 'd) venue_registry = "venue_id \<rightharpoonup> ('x, 'd) registry_entry"

definition rg_register_with_config :: "'x venue_adapter \<Rightarrow> 'd registry_config \<Rightarrow> ('x, 'd) venue_registry \<Rightarrow> ('x, 'd) venue_registry" where
  "rg_register_with_config a c R = R(vad_venue_id a \<mapsto> \<lparr> rge_adapter = a, rge_config = c \<rparr>)"

definition rg_register :: "'x venue_adapter \<Rightarrow> ('x, 'd) venue_registry \<Rightarrow> ('x, 'd) venue_registry" where
  "rg_register a R = rg_register_with_config a (rgc_new (vad_venue_id a)) R"

definition rg_unregister :: "venue_id \<Rightarrow> ('x, 'd) venue_registry \<Rightarrow> bool \<times> ('x, 'd) venue_registry" where
  "rg_unregister v R = (R v \<noteq> None, R(v := None))"

definition rg_get :: "venue_id \<Rightarrow> ('x, 'd) venue_registry \<Rightarrow> 'x venue_adapter option" where
  "rg_get v R = map_option rge_adapter (R v)"

definition rg_get_config :: "venue_id \<Rightarrow> ('x, 'd) venue_registry \<Rightarrow> 'd registry_config option" where
  "rg_get_config v R = map_option rge_config (R v)"

definition rg_update_config :: "venue_id \<Rightarrow> 'd registry_config \<Rightarrow> ('x, 'd) venue_registry \<Rightarrow> bool \<times> ('x, 'd) venue_registry" where
  "rg_update_config v c R = (case R v of Some e \<Rightarrow> (True, R(v \<mapsto> e\<lparr> rge_config := c \<rparr>)) | None \<Rightarrow> (False, R))"

definition rg_set_enabled :: "venue_id \<Rightarrow> bool \<Rightarrow> ('x, 'd) venue_registry \<Rightarrow> bool \<times> ('x, 'd) venue_registry" where
  "rg_set_enabled v enabled R = (case R v of
       Some e \<Rightarrow> (True, R(v \<mapsto> e\<lparr> rge_config := (rge_config e)\<lparr> rgc_enabled := enabled \<rparr> \<rparr>))
     | None \<Rightarrow> (False, R))"

definition rg_values :: "venue_id list \<Rightarrow> ('x, 'd) venue_registry \<Rightarrow> ('x, 'd) registry_entry list" where
  "rg_values walk R = List.map_filter R walk"

definition rg_get_all :: "venue_id list \<Rightarrow> ('x, 'd) venue_registry \<Rightarrow> 'x venue_adapter list" where
  "rg_get_all walk R = map rge_adapter (rg_values walk R)"

definition rg_get_enabled :: "venue_id list \<Rightarrow> ('x, 'd) venue_registry \<Rightarrow> 'x venue_adapter list" where
  "rg_get_enabled walk R = map rge_adapter (filter (\<lambda>e. rgc_enabled (rge_config e)) (rg_values walk R))"

text \<open>The loop that asks one adapter after the other.\<close>

fun ask_available :: "'x venue_adapter list \<Rightarrow> 'x \<Rightarrow> 'x venue_adapter list \<times> 'x" where
  "ask_available [] x = ([], x)"
| "ask_available (a # rest) x = (case vad_is_available a x of (up, x') \<Rightarrow>
     (case ask_available rest x' of (found, x'') \<Rightarrow> (if up then a # found else found, x'')))"

definition rg_get_available :: "venue_id list \<Rightarrow> ('x, 'd) venue_registry \<Rightarrow> 'x \<Rightarrow> 'x venue_adapter list \<times> 'x" where
  "rg_get_available walk R x = ask_available (rg_get_enabled walk R) x"

definition rg_get_for_instrument :: "venue_id list \<Rightarrow> 'd instrument \<Rightarrow> ('x, 'd) venue_registry \<Rightarrow> 'x venue_adapter list" where
  "rg_get_for_instrument walk i R = map rge_adapter
     (filter (\<lambda>e. rgc_enabled (rge_config e) \<and> rgc_supports_instrument (rge_config e) i) (rg_values walk R))"

definition rg_get_available_for_instrument :: "venue_id list \<Rightarrow> 'd instrument \<Rightarrow> ('x, 'd) venue_registry \<Rightarrow> 'x
    \<Rightarrow> 'x venue_adapter list \<times> 'x" where
  "rg_get_available_for_instrument walk i R x = ask_available (rg_get_for_instrument walk i R) x"

definition priority_before :: "('x, 'd) registry_entry \<Rightarrow> ('x, 'd) registry_entry \<Rightarrow> bool" where
  "priority_before a b \<longleftrightarrow> rgc_priority (rge_config a) < rgc_priority (rge_config b)"

definition rg_get_by_priority :: "venue_id list \<Rightarrow> ('x, 'd) venue_registry \<Rightarrow> 'x venue_adapter list" where
  "rg_get_by_priority walk R = map rge_adapter
     (sort_stable priority_before (filter (\<lambda>e. rgc_enabled (rge_config e)) (rg_values walk R)))"

definition rg_len :: "('x, 'd) venue_registry \<Rightarrow> nat" where
  "rg_len R = card (dom R)"

interpretation priorities: sorting_order "\<lambda>_. True" priority_before
  by unfold_locales (auto simp: priority_before_def)

section \<open>Histories\<close>

datatype 'd venue_call = SetEnabled timestamp bool | SetHealth timestamp venue_health | AddInstrument timestamp "'d instrument"
  | RemoveInstrument timestamp "'d instrument" | ClearInstruments timestamp | RecordRequest timestamp u64 bool
  | ChangeConfig timestamp "venue_config \<Rightarrow> venue_config"

fun venue_apply :: "'d venue_call \<Rightarrow> 'd venue \<Rightarrow> 'd venue" where
  "venue_apply (SetEnabled now e) v = vn_set_enabled now e v"
| "venue_apply (SetHealth now h) v = vn_set_health now h v"
| "venue_apply (AddInstrument now i) v = vn_add_instrument now i v"
| "venue_apply (RemoveInstrument now i) v = vn_remove_instrument now i v"
| "venue_apply (ClearInstruments now) v = vn_clear_instruments now v"
| "venue_apply (RecordRequest now ms ok) v = vn_with_metrics (vm_record_request now ms ok) v"
| "venue_apply (ChangeConfig now f) v = vn_with_config now f v"

text \<open>The abstract venue: switched on or off, its health, the set of its instruments, and the requests recorded.\<close>

fun venue_spec :: "'d venue_call \<Rightarrow> bool \<times> venue_health \<times> 'd instrument set \<times> bool list
    \<Rightarrow> bool \<times> venue_health \<times> 'd instrument set \<times> bool list" where
  "venue_spec (SetEnabled _ e) (_, h, I, rs) = (e, h, I, rs)"
| "venue_spec (SetHealth _ h) (e, _, I, rs) = (e, h, I, rs)"
| "venue_spec (AddInstrument _ i) (e, h, I, rs) = (e, h, insert i I, rs)"
| "venue_spec (RemoveInstrument _ i) (e, h, I, rs) = (e, h, I - {i}, rs)"
| "venue_spec (ClearInstruments _) (e, h, I, rs) = (e, h, {}, rs)"
| "venue_spec (RecordRequest _ _ ok) (e, h, I, rs) = (e, h, I, rs @ [ok])"
| "venue_spec (ChangeConfig _ _) a = a"

text \<open>A venue implements an abstract one.\<close>

definition venue_implements :: "'d venue \<Rightarrow> bool \<times> venue_health \<times> 'd instrument set \<times> bool list \<Rightarrow> bool" where
  "venue_implements v a \<longleftrightarrow> (case a of (e, h, I, rs) \<Rightarrow>
     vn_enabled v = e \<and> vn_health v = h \<and> distinct (vn_supported_instruments v) \<and> set (vn_supported_instruments v) = I
     \<and> (length rs < 2 ^ 64 \<longrightarrow> unat (vm_total_requests (vn_metrics v)) = length rs
        \<and> unat (vm_successful_requests (vn_metrics v)) = length (filter id rs)
        \<and> unat (vm_failed_requests (vn_metrics v)) = length (filter Not rs)))"

lemmas venue_ops = vn_set_enabled_def vn_set_health_def vn_add_instrument_def vn_remove_instrument_def vn_clear_instruments_def
  vn_with_metrics_def vn_with_config_def

lemma count_one_more: "unat w = n \<Longrightarrow> Suc n < 2 ^ 64 \<Longrightarrow> unat (sat_add w (1 :: u64)) = Suc n"
  by (simp add: unat_sat_add)

lemma filter_length_less: "length rs < m \<Longrightarrow> length (filter P rs) < m"
  using length_filter_le [of P rs] by linarith

lemma venue_implements_step:
  assumes "venue_implements v a"
  shows "venue_implements (venue_apply c v) (venue_spec c a)"
proof -
  obtain e h I rs where a: "a = (e, h, I, rs)" by (cases a)
  show ?thesis
  proof (cases c)
    case (RecordRequest now ms ok)
    have "length (rs @ [ok]) < 2 ^ 64 \<Longrightarrow> length rs < 2 ^ 64" by simp
    moreover have "length (rs @ [ok]) < 2 ^ 64 \<Longrightarrow> Suc (length (filter P rs)) < 2 ^ 64" for P
      using length_filter_le [of P rs] by (simp del: length_filter_le)
    ultimately show ?thesis using assms a RecordRequest
      by (auto simp: venue_implements_def venue_ops vm_record_request_def Let_def count_one_more)
  qed (use assms a in \<open>auto simp: venue_implements_def venue_ops distinct_remove1\<close>)
qed

datatype ('x, 'd) registry_call = Register "'x venue_adapter" | RegisterWithConfig "'x venue_adapter" "'d registry_config"
  | Unregister venue_id | UpdateConfig venue_id "'d registry_config" | SetVenueEnabled venue_id bool | ClearRegistry

fun registry_apply :: "('x, 'd) registry_call \<Rightarrow> ('x, 'd) venue_registry \<Rightarrow> ('x, 'd) venue_registry" where
  "registry_apply (Register a) R = rg_register a R"
| "registry_apply (RegisterWithConfig a c) R = rg_register_with_config a c R"
| "registry_apply (Unregister v) R = snd (rg_unregister v R)"
| "registry_apply (UpdateConfig v c) R = snd (rg_update_config v c R)"
| "registry_apply (SetVenueEnabled v e) R = snd (rg_set_enabled v e R)"
| "registry_apply ClearRegistry R = Map.empty"

lemmas registry_ops = rg_register_def rg_register_with_config_def rg_unregister_def rg_update_config_def rg_set_enabled_def

definition registry_inv :: "('x, 'd) venue_registry \<Rightarrow> bool" where
  "registry_inv R \<longleftrightarrow> (\<forall>v e. R v = Some e \<longrightarrow> vad_venue_id (rge_adapter e) = v)"

lemma registry_inv_step: "registry_inv R \<Longrightarrow> registry_inv (registry_apply c R)"
  by (cases c) (auto simp: registry_inv_def registry_ops split: if_splits option.splits)

lemma registry_inv_run: "registry_inv R \<Longrightarrow> registry_inv (fold registry_apply cs R)"
  by (induction cs arbitrary: R) (simp_all add: registry_inv_step)

lemma registry_walk:
  assumes "registry_inv R" "set walk \<subseteq> dom R"
  shows "map (\<lambda>e. vad_venue_id (rge_adapter e)) (filter P (rg_values walk R)) = filter (\<lambda>v. \<exists>e. R v = Some e \<and> P e) walk"
  using assms(2)
proof (induction walk)
  case (Cons v walk)
  then obtain e where "R v = Some e" by auto
  then show ?case using assms(1) Cons by (auto simp: rg_values_def map_filter_simps registry_inv_def)
qed (simp add: rg_values_def map_filter_simps)

section \<open>Properties\<close>


text \<open>
  After any history of the registry the venues by priority are exactly the enabled ones, each once, a lower number first, and among equal numbers in
  the order of the hash map.
\<close>
theorem registry_by_priority:
  assumes "R = fold registry_apply cs Map.empty" "distinct walk" "set walk = dom R"
  shows "\<exists>es. rg_get_by_priority walk R = map rge_adapter es
    \<and> sorted_wrt (\<lambda>a b. rgc_priority (rge_config a) \<le> rgc_priority (rge_config b)) es
    \<and> mset (map (\<lambda>e. vad_venue_id (rge_adapter e)) es) = mset (filter (\<lambda>v. \<exists>e. R v = Some e \<and> rgc_enabled (rge_config e)) walk)
    \<and> (\<forall>p. filter (\<lambda>e. rgc_priority (rge_config e) = p) es
         = filter (\<lambda>e. rgc_enabled (rge_config e) \<and> rgc_priority (rge_config e) = p) (rg_values walk R))"
proof -
  let ?on = "filter (\<lambda>e. rgc_enabled (rge_config e)) (rg_values walk R)"
  let ?es = "sort_stable priority_before ?on"
  have inv: "registry_inv R" unfolding assms(1) by (rule registry_inv_run) (simp add: registry_inv_def)
  have "sorted_wrt (\<lambda>a b. rgc_priority (rge_config a) \<le> rgc_priority (rge_config b)) ?es"
    using priorities.sorted_sort_stable [of ?on] by (simp add: priority_before_def not_less)
  moreover have "mset (map (\<lambda>e. vad_venue_id (rge_adapter e)) ?es)
      = mset (filter (\<lambda>v. \<exists>e. R v = Some e \<and> rgc_enabled (rge_config e)) walk)"
    unfolding registry_walk [OF inv equalityD1 [OF assms(3)], of "\<lambda>e. rgc_enabled (rge_config e)", symmetric] by simp
  moreover have "filter (\<lambda>e. rgc_priority (rge_config e) = p) ?es
      = filter (\<lambda>e. rgc_enabled (rge_config e) \<and> rgc_priority (rge_config e) = p) (rg_values walk R)" for p
    by (subst sort_stable_is_stable) (auto simp: priority_before_def conj_commute)
  ultimately show ?thesis unfolding rg_get_by_priority_def by blast
qed

definition sample_adapter :: "venue_id \<Rightarrow> unit venue_adapter" where
  "sample_adapter v = \<lparr> vad_venue_id = v, vad_is_available = (\<lambda>x. (True, x)) \<rparr>"

definition sample_registry :: "(unit, int) venue_registry" where
  "sample_registry = fold registry_apply [Register (sample_adapter ''A''),
     RegisterWithConfig (sample_adapter ''B'') ((rgc_new ''B'')\<lparr> rgc_priority := 7 \<rparr>), Register (sample_adapter ''C''),
     SetVenueEnabled ''C'' False] Map.empty"

lemma sample_registry_eq:
  "sample_registry = [''A'' \<mapsto> \<lparr> rge_adapter = sample_adapter ''A'', rge_config = rgc_new ''A'' \<rparr>,
     ''B'' \<mapsto> \<lparr> rge_adapter = sample_adapter ''B'', rge_config = (rgc_new ''B'')\<lparr> rgc_priority := 7 \<rparr> \<rparr>,
     ''C'' \<mapsto> \<lparr> rge_adapter = sample_adapter ''C'', rge_config = rgc_disabled ''C'' \<rparr>]"
  by (simp add: sample_registry_def registry_ops sample_adapter_def rgc_new_def rgc_disabled_def)

lemma registry_by_priority_witness:
  "\<exists>es :: (unit, int) registry_entry list. rg_get_by_priority [''A'', ''B'', ''C''] sample_registry = map rge_adapter es
    \<and> sorted_wrt (\<lambda>a b. rgc_priority (rge_config a) \<le> rgc_priority (rge_config b)) es
    \<and> mset (map (\<lambda>e. vad_venue_id (rge_adapter e)) es) = {#''A'', ''B''#}"
proof -
  let ?walk = "[''A'', ''B'', ''C'']"
  have walk: "distinct ?walk" "set ?walk = dom sample_registry" by (auto simp: sample_registry_eq)
  have on: "filter (\<lambda>v. \<exists>e. sample_registry v = Some e \<and> rgc_enabled (rge_config e)) ?walk = [''A'', ''B'']"
    by (simp add: sample_registry_eq rgc_new_def rgc_disabled_def)
  have two: "mset [''A'', ''B''] = {#''A'', ''B''#}" by simp
  show ?thesis
    using registry_by_priority [OF sample_registry_def walk] unfolding on two by (elim exE conjE) (intro exI conjI, assumption+)
qed

text \<open>
  The two readings of an empty list of instruments contradict each other: the registry sends a venue without a list every RFQ, the entity says of
  itself that it supports none. For every other list they agree.
\<close>
theorem empty_instruments_disagree:
  assumes "rgc_supported_instruments c = vn_supported_instruments v"
  shows "rgc_supports_instrument c i = vn_supports_instrument v i \<longleftrightarrow> vn_supported_instruments v \<noteq> []"
  using assms by (auto simp: rgc_supports_instrument_def vn_supports_instrument_def)

lemma empty_instruments_disagree_witness:
  "rgc_supports_instrument (rgc_new ''A'' :: int registry_config) (instrument_default_build sample_symbol CryptoSpot)
     \<noteq> vn_supports_instrument (vn_new 1 ''A'' ''venue'' InternalMM :: int venue) (instrument_default_build sample_symbol CryptoSpot)"
  using empty_instruments_disagree [of "rgc_new ''A''" "vn_new 1 ''A'' ''venue'' InternalMM :: int venue"
    "instrument_default_build sample_symbol CryptoSpot"]
  by (simp add: rgc_new_def vn_new_def)

end
