(* ===== verification/Fix_Messages.thy ===== *)
theory Fix_Messages
  imports Price_Discovery Text_Functions
begin

text \<open>
  The messages exchanged with FIX venues, \<open>src/infrastructure/venues/fix_messages.rs\<close>: what is sent as a list of tags with texts, what arrives as
  a map from tags to texts. How a decimal prints and which decimal a float converts to are parameters; the parser of floats is that of
  the standard library.
\<close>

section \<open>Reading floats\<close>

text \<open>
  \<open>str::parse::<f64>\<close>: a sign, then \<open>inf\<close>, \<open>infinity\<close> or \<open>nan\<close> in any case, or digits with a point and an exponent, of which at least one digit
  is given before the exponent; the value is rounded once.
\<close>

definition digit_of :: "char \<Rightarrow> nat option" where
  "digit_of c = (let n = of_char c :: nat in if 48 \<le> n \<and> n \<le> 57 then Some (n - 48) else None)"

fun take_digits :: "string \<Rightarrow> nat list \<times> string" where
  "take_digits [] = ([], [])"
| "take_digits (c # cs) = (case digit_of c of None \<Rightarrow> ([], c # cs)
     | Some d \<Rightarrow> (case take_digits cs of (ds, rest) \<Rightarrow> (d # ds, rest)))"

definition digits_value :: "nat list \<Rightarrow> nat" where
  "digits_value = foldl (\<lambda>n d. 10 * n + d) 0"

definition take_sign :: "string \<Rightarrow> bool \<times> string" where
  "take_sign s = (case s of [] \<Rightarrow> (False, []) | c # cs \<Rightarrow>
     if c = CHR ''-'' then (True, cs) else if c = CHR ''+'' then (False, cs) else (False, c # cs))"

definition to_lower_ascii :: "char \<Rightarrow> char" where
  "to_lower_ascii c = (let n = of_char c :: nat in if 65 \<le> n \<and> n \<le> 90 then char_of (n + 32) else c)"

definition take_exponent :: "string \<Rightarrow> int option" where
  "take_exponent s = (case s of [] \<Rightarrow> Some 0 | c # cs \<Rightarrow>
     if c = CHR ''e'' \<or> c = CHR ''E'' then
       (case take_sign cs of (neg, rest) \<Rightarrow> (case take_digits rest of (ds, left) \<Rightarrow>
          if ds = [] \<or> left \<noteq> [] then None else Some ((if neg then - 1 else 1) * int (digits_value ds))))
     else None)"

definition parse_f64 :: "string \<Rightarrow> f64 option" where
  "parse_f64 s = (case take_sign s of (neg, body) \<Rightarrow>
     (let word = map to_lower_ascii body in
      if word = ''inf'' \<or> word = ''infinity'' then Some (Inf neg)
      else if word = ''nan'' then Some NaN
      else (case take_digits body of (ds, rest) \<Rightarrow>
        (case (case rest of [] \<Rightarrow> ([], []) | c # cs \<Rightarrow> if c = CHR ''.'' then take_digits cs else ([], rest)) of (fs, rest') \<Rightarrow>
          if ds = [] \<and> fs = [] then None
          else map_option (\<lambda>e. rnd64 ((if neg then - 1 else 1) * of_nat (digits_value (ds @ fs)) * 10 powi (e - int (length fs))))
            (take_exponent rest')))))"

section \<open>Tags and values\<close>

type_synonym fix_field = "u32 \<times> string"

abbreviation "TAG_MSG_TYPE \<equiv> 35 :: u32"
abbreviation "TAG_QUOTE_REQ_ID \<equiv> 131 :: u32"
abbreviation "TAG_QUOTE_ID \<equiv> 117 :: u32"
abbreviation "TAG_SYMBOL \<equiv> 55 :: u32"
abbreviation "TAG_SIDE \<equiv> 54 :: u32"
abbreviation "TAG_ORDER_QTY \<equiv> 38 :: u32"
abbreviation "TAG_TRANSACT_TIME \<equiv> 60 :: u32"
abbreviation "TAG_BID_PX \<equiv> 132 :: u32"
abbreviation "TAG_OFFER_PX \<equiv> 133 :: u32"
abbreviation "TAG_BID_SIZE \<equiv> 134 :: u32"
abbreviation "TAG_OFFER_SIZE \<equiv> 135 :: u32"
abbreviation "TAG_VALID_UNTIL_TIME \<equiv> 62 :: u32"
abbreviation "TAG_CL_ORD_ID \<equiv> 11 :: u32"
abbreviation "TAG_ORDER_ID \<equiv> 37 :: u32"
abbreviation "TAG_ORD_TYPE \<equiv> 40 :: u32"
abbreviation "TAG_PRICE \<equiv> 44 :: u32"
abbreviation "TAG_TIME_IN_FORCE \<equiv> 59 :: u32"
abbreviation "TAG_EXEC_ID \<equiv> 17 :: u32"
abbreviation "TAG_EXEC_TYPE \<equiv> 150 :: u32"
abbreviation "TAG_ORD_STATUS \<equiv> 39 :: u32"
abbreviation "TAG_LAST_PX \<equiv> 31 :: u32"
abbreviation "TAG_LAST_QTY \<equiv> 32 :: u32"
abbreviation "TAG_LEAVES_QTY \<equiv> 151 :: u32"
abbreviation "TAG_CUM_QTY \<equiv> 14 :: u32"
abbreviation "TAG_AVG_PX \<equiv> 6 :: u32"
abbreviation "TAG_TEXT \<equiv> 58 :: u32"
abbreviation "TAG_ACCOUNT \<equiv> 1 :: u32"
abbreviation "TAG_CURRENCY \<equiv> 15 :: u32"

definition order_side_to_fix :: "order_side \<Rightarrow> string" where
  "order_side_to_fix s = (case s of Buy \<Rightarrow> ''1'' | Sell \<Rightarrow> ''2'')"

definition fix_to_order_side :: "string \<Rightarrow> order_side option" where
  "fix_to_order_side s = (if s = ''1'' then Some Buy else if s = ''2'' then Some Sell else None)"

text \<open>How decimals are written and read: \<open>to_string\<close>, and \<open>Decimal::try_from\<close> of a float.\<close>

record 'd decimal_text =
  dx_show :: "'d \<Rightarrow> string"
  dx_of_f64 :: "f64 \<Rightarrow> 'd option"

text \<open>\<open>get(..).and_then(parse).and_then(new)\<close>; quantities are validated like prices.\<close>

definition fix_price :: "'d dec \<Rightarrow> 'd decimal_text \<Rightarrow> string option \<Rightarrow> 'd price option" where
  "fix_price D X field = Option.bind (Option.bind field parse_f64)
     (\<lambda>v. case price_new D (dx_of_f64 X) v of Inr p \<Rightarrow> Some p | Inl _ \<Rightarrow> None)"

definition quantity_new_f64 :: "'d dec \<Rightarrow> (f64 \<Rightarrow> 'd option) \<Rightarrow> f64 \<Rightarrow> arithmetic_error + 'd quantity" where
  "quantity_new_f64 D F v = rbind (ok_or (AeInvalidValue ''invalid float'') (F v)) (quantity_from_decimal D)"

definition fix_quantity :: "'d dec \<Rightarrow> 'd decimal_text \<Rightarrow> string option \<Rightarrow> 'd quantity option" where
  "fix_quantity D X field = Option.bind (Option.bind field parse_f64)
     (\<lambda>v. case quantity_new_f64 D (dx_of_f64 X) v of Inr q \<Rightarrow> Some q | Inl _ \<Rightarrow> None)"

definition push_opt :: "u32 \<Rightarrow> string option \<Rightarrow> fix_field list" where
  "push_opt t v = (case v of Some s \<Rightarrow> [(t, s)] | None \<Rightarrow> [])"

section \<open>Quote requests\<close>

record 'd quote_request_builder =
  qrb_quote_req_id :: string
  qrb_symbol :: string
  qrb_side :: "order_side option"
  qrb_quantity :: "'d option"
  qrb_transact_time :: "string option"
  qrb_account :: "string option"
  qrb_currency :: "string option"

definition qrb_new :: "string \<Rightarrow> string \<Rightarrow> 'd quote_request_builder" where
  "qrb_new i s = \<lparr> qrb_quote_req_id = i, qrb_symbol = s, qrb_side = None, qrb_quantity = None, qrb_transact_time = None,
     qrb_account = None, qrb_currency = None \<rparr>"

text \<open>\<open>now\<close> is the text of the clock.\<close>

definition qrb_build :: "'d decimal_text \<Rightarrow> string \<Rightarrow> 'd quote_request_builder \<Rightarrow> fix_field list" where
  "qrb_build X now b =
     [(TAG_MSG_TYPE, ''R''), (TAG_QUOTE_REQ_ID, qrb_quote_req_id b), (TAG_SYMBOL, qrb_symbol b)]
     @ push_opt TAG_SIDE (map_option order_side_to_fix (qrb_side b))
     @ push_opt TAG_ORDER_QTY (map_option (dx_show X) (qrb_quantity b))
     @ [(TAG_TRANSACT_TIME, case qrb_transact_time b of Some t \<Rightarrow> t | None \<Rightarrow> now)]
     @ push_opt TAG_ACCOUNT (qrb_account b)
     @ push_opt TAG_CURRENCY (qrb_currency b)"

section \<open>Quotes\<close>

record 'd fix_quote =
  fq_quote_req_id :: string
  fq_quote_id :: string
  fq_symbol :: string
  fq_bid_px :: "'d price option"
  fq_offer_px :: "'d price option"
  fq_bid_size :: "'d quantity option"
  fq_offer_size :: "'d quantity option"
  fq_valid_until_time :: "string option"
  fq_text :: "string option"

definition fq_from_fields :: "'d dec \<Rightarrow> 'd decimal_text \<Rightarrow> (u32 \<rightharpoonup> string) \<Rightarrow> 'd fix_quote option" where
  "fq_from_fields D X fs =
     Option.bind (fs TAG_QUOTE_REQ_ID) (\<lambda>quote_req_id.
     Option.bind (fs TAG_QUOTE_ID) (\<lambda>quote_id.
     Option.bind (fs TAG_SYMBOL) (\<lambda>symbol.
       Some \<lparr> fq_quote_req_id = quote_req_id, fq_quote_id = quote_id, fq_symbol = symbol,
         fq_bid_px = fix_price D X (fs TAG_BID_PX), fq_offer_px = fix_price D X (fs TAG_OFFER_PX),
         fq_bid_size = fix_quantity D X (fs TAG_BID_SIZE), fq_offer_size = fix_quantity D X (fs TAG_OFFER_SIZE),
         fq_valid_until_time = fs TAG_VALID_UNTIL_TIME, fq_text = fs TAG_TEXT \<rparr>)))"

definition fq_price_for_side :: "'d fix_quote \<Rightarrow> order_side \<Rightarrow> 'd price option" where
  "fq_price_for_side q s = (case s of Buy \<Rightarrow> fq_offer_px q | Sell \<Rightarrow> fq_bid_px q)"

definition fq_size_for_side :: "'d fix_quote \<Rightarrow> order_side \<Rightarrow> 'd quantity option" where
  "fq_size_for_side q s = (case s of Buy \<Rightarrow> fq_offer_size q | Sell \<Rightarrow> fq_bid_size q)"

record 'd fix_quote_builder =
  fqb_quote_req_id :: string
  fqb_quote_id :: string
  fqb_symbol :: string
  fqb_bid_px :: "'d option"
  fqb_offer_px :: "'d option"
  fqb_bid_size :: "'d option"
  fqb_offer_size :: "'d option"
  fqb_valid_until_time :: "string option"

definition fqb_new :: "string \<Rightarrow> string \<Rightarrow> string \<Rightarrow> 'd fix_quote_builder" where
  "fqb_new r i s = \<lparr> fqb_quote_req_id = r, fqb_quote_id = i, fqb_symbol = s, fqb_bid_px = None, fqb_offer_px = None,
     fqb_bid_size = None, fqb_offer_size = None, fqb_valid_until_time = None \<rparr>"

definition fqb_build :: "'d decimal_text \<Rightarrow> 'd fix_quote_builder \<Rightarrow> fix_field list" where
  "fqb_build X b =
     [(TAG_MSG_TYPE, ''S''), (TAG_QUOTE_REQ_ID, fqb_quote_req_id b), (TAG_QUOTE_ID, fqb_quote_id b), (TAG_SYMBOL, fqb_symbol b)]
     @ push_opt TAG_BID_PX (map_option (dx_show X) (fqb_bid_px b))
     @ push_opt TAG_OFFER_PX (map_option (dx_show X) (fqb_offer_px b))
     @ push_opt TAG_BID_SIZE (map_option (dx_show X) (fqb_bid_size b))
     @ push_opt TAG_OFFER_SIZE (map_option (dx_show X) (fqb_offer_size b))
     @ push_opt TAG_VALID_UNTIL_TIME (fqb_valid_until_time b)"

section \<open>Orders\<close>

record 'd order_builder =
  ob_cl_ord_id :: string
  ob_symbol :: string
  ob_side :: "order_side option"
  ob_quantity :: "'d option"
  ob_ord_type :: string
  ob_price :: "'d option"
  ob_time_in_force :: string
  ob_quote_id :: "string option"
  ob_transact_time :: "string option"
  ob_account :: "string option"

definition ordb_new :: "string \<Rightarrow> string \<Rightarrow> 'd order_builder" where
  "ordb_new i s = \<lparr> ob_cl_ord_id = i, ob_symbol = s, ob_side = None, ob_quantity = None, ob_ord_type = ''D'', ob_price = None,
     ob_time_in_force = ''3'', ob_quote_id = None, ob_transact_time = None, ob_account = None \<rparr>"

definition ordb_previously_quoted :: "string \<Rightarrow> 'd order_builder \<Rightarrow> 'd order_builder" where
  "ordb_previously_quoted i b = b\<lparr> ob_ord_type := ''D'', ob_quote_id := Some i \<rparr>"

definition ordb_limit_order :: "'d order_builder \<Rightarrow> 'd order_builder" where
  "ordb_limit_order b = b\<lparr> ob_ord_type := ''2'' \<rparr>"

definition ordb_market_order :: "'d order_builder \<Rightarrow> 'd order_builder" where
  "ordb_market_order b = b\<lparr> ob_ord_type := ''1'' \<rparr>"

definition ordb_fok :: "'d order_builder \<Rightarrow> 'd order_builder" where
  "ordb_fok b = b\<lparr> ob_time_in_force := ''4'' \<rparr>"

definition ordb_build :: "'d decimal_text \<Rightarrow> string \<Rightarrow> 'd order_builder \<Rightarrow> fix_field list" where
  "ordb_build X now b =
     [(TAG_MSG_TYPE, ''D''), (TAG_CL_ORD_ID, ob_cl_ord_id b), (TAG_SYMBOL, ob_symbol b)]
     @ push_opt TAG_SIDE (map_option order_side_to_fix (ob_side b))
     @ push_opt TAG_ORDER_QTY (map_option (dx_show X) (ob_quantity b))
     @ [(TAG_ORD_TYPE, ob_ord_type b), (TAG_TIME_IN_FORCE, ob_time_in_force b)]
     @ push_opt TAG_PRICE (map_option (dx_show X) (ob_price b))
     @ push_opt TAG_QUOTE_ID (ob_quote_id b)
     @ [(TAG_TRANSACT_TIME, case ob_transact_time b of Some t \<Rightarrow> t | None \<Rightarrow> now)]
     @ push_opt TAG_ACCOUNT (ob_account b)"

section \<open>Execution reports\<close>

record 'd execution_report =
  xr_exec_id :: string
  xr_cl_ord_id :: string
  xr_order_id :: string
  xr_exec_type :: string
  xr_ord_status :: string
  xr_symbol :: string
  xr_side :: "order_side option"
  xr_last_px :: "'d price option"
  xr_last_qty :: "'d quantity option"
  xr_leaves_qty :: "'d quantity option"
  xr_cum_qty :: "'d quantity option"
  xr_avg_px :: "'d price option"
  xr_text :: "string option"

definition xr_from_fields :: "'d dec \<Rightarrow> 'd decimal_text \<Rightarrow> (u32 \<rightharpoonup> string) \<Rightarrow> 'd execution_report option" where
  "xr_from_fields D X fs =
     Option.bind (fs TAG_EXEC_ID) (\<lambda>exec_id.
     Option.bind (fs TAG_CL_ORD_ID) (\<lambda>cl_ord_id.
     Option.bind (fs TAG_ORDER_ID) (\<lambda>order_id.
     Option.bind (fs TAG_EXEC_TYPE) (\<lambda>exec_type.
     Option.bind (fs TAG_ORD_STATUS) (\<lambda>ord_status.
     Option.bind (fs TAG_SYMBOL) (\<lambda>symbol.
       Some \<lparr> xr_exec_id = exec_id, xr_cl_ord_id = cl_ord_id, xr_order_id = order_id, xr_exec_type = exec_type,
         xr_ord_status = ord_status, xr_symbol = symbol, xr_side = Option.bind (fs TAG_SIDE) fix_to_order_side,
         xr_last_px = fix_price D X (fs TAG_LAST_PX), xr_last_qty = fix_quantity D X (fs TAG_LAST_QTY),
         xr_leaves_qty = fix_quantity D X (fs TAG_LEAVES_QTY), xr_cum_qty = fix_quantity D X (fs TAG_CUM_QTY),
         xr_avg_px = fix_price D X (fs TAG_AVG_PX), xr_text = fs TAG_TEXT \<rparr>))))))"

definition xr_is_fill :: "'d execution_report \<Rightarrow> bool" where
  "xr_is_fill r \<longleftrightarrow> xr_exec_type r = ''2'' \<or> xr_exec_type r = ''F''"

definition xr_is_partial_fill :: "'d execution_report \<Rightarrow> bool" where
  "xr_is_partial_fill r \<longleftrightarrow> xr_exec_type r = ''1''"

definition xr_is_rejected :: "'d execution_report \<Rightarrow> bool" where
  "xr_is_rejected r \<longleftrightarrow> xr_exec_type r = ''8'' \<or> xr_ord_status r = ''8''"

definition xr_is_fully_filled :: "'d execution_report \<Rightarrow> bool" where
  "xr_is_fully_filled r \<longleftrightarrow> xr_ord_status r = ''2''"

record 'd report_builder =
  xb_exec_id :: string
  xb_cl_ord_id :: string
  xb_order_id :: string
  xb_exec_type :: string
  xb_ord_status :: string
  xb_symbol :: string
  xb_side :: "order_side option"
  xb_last_px :: "'d option"
  xb_last_qty :: "'d option"
  xb_leaves_qty :: "'d option"
  xb_cum_qty :: "'d option"
  xb_avg_px :: "'d option"
  xb_text :: "string option"

definition xb_new :: "string \<Rightarrow> string \<Rightarrow> string \<Rightarrow> string \<Rightarrow> 'd report_builder" where
  "xb_new e c i s = \<lparr> xb_exec_id = e, xb_cl_ord_id = c, xb_order_id = i, xb_exec_type = ''0'', xb_ord_status = ''0'', xb_symbol = s,
     xb_side = None, xb_last_px = None, xb_last_qty = None, xb_leaves_qty = None, xb_cum_qty = None, xb_avg_px = None,
     xb_text = None \<rparr>"

definition xb_fill :: "'d dec \<Rightarrow> 'd \<Rightarrow> 'd \<Rightarrow> 'd report_builder \<Rightarrow> 'd report_builder" where
  "xb_fill D price quantity b = b\<lparr> xb_exec_type := ''2'', xb_ord_status := ''2'', xb_last_px := Some price,
     xb_last_qty := Some quantity, xb_leaves_qty := Some (dzero D) \<rparr>"

definition xb_rejected :: "string \<Rightarrow> 'd report_builder \<Rightarrow> 'd report_builder" where
  "xb_rejected reason b = b\<lparr> xb_exec_type := ''8'', xb_ord_status := ''8'', xb_text := Some reason \<rparr>"

definition xb_build :: "'d decimal_text \<Rightarrow> 'd report_builder \<Rightarrow> fix_field list" where
  "xb_build X b =
     [(TAG_MSG_TYPE, ''8''), (TAG_EXEC_ID, xb_exec_id b), (TAG_CL_ORD_ID, xb_cl_ord_id b), (TAG_ORDER_ID, xb_order_id b),
      (TAG_EXEC_TYPE, xb_exec_type b), (TAG_ORD_STATUS, xb_ord_status b), (TAG_SYMBOL, xb_symbol b)]
     @ push_opt TAG_SIDE (map_option order_side_to_fix (xb_side b))
     @ push_opt TAG_LAST_PX (map_option (dx_show X) (xb_last_px b))
     @ push_opt TAG_LAST_QTY (map_option (dx_show X) (xb_last_qty b))
     @ push_opt TAG_LEAVES_QTY (map_option (dx_show X) (xb_leaves_qty b))
     @ push_opt TAG_CUM_QTY (map_option (dx_show X) (xb_cum_qty b))
     @ push_opt TAG_AVG_PX (map_option (dx_show X) (xb_avg_px b))
     @ push_opt TAG_TEXT (xb_text b)"

section \<open>What a message carries\<close>

lemma map_of_push_opt: "map_of (push_opt t v @ rest) k = (if k = t \<and> v \<noteq> None then v else map_of rest k)"
  by (cases v) (auto simp: push_opt_def)

lemma map_of_push_opt_end: "map_of (push_opt t v) k = (if k = t then v else None)"
  by (cases v) (auto simp: push_opt_def)

lemma side_roundtrip: "Option.bind (map_option order_side_to_fix s) fix_to_order_side = s"
  by (cases s) (auto simp: order_side_to_fix_def fix_to_order_side_def split: order_side.split)

text \<open>What becomes of a decimal that is written and read again: it passes through a float.\<close>

definition price_via_text :: "'d dec \<Rightarrow> 'd decimal_text \<Rightarrow> 'd option \<Rightarrow> 'd price option" where
  "price_via_text D X v = fix_price D X (map_option (dx_show X) v)"

definition quantity_via_text :: "'d dec \<Rightarrow> 'd decimal_text \<Rightarrow> 'd option \<Rightarrow> 'd quantity option" where
  "quantity_via_text D X v = fix_quantity D X (map_option (dx_show X) v)"

section \<open>Whole numbers as text\<close>

lemma digit_of_digit: "d < 10 \<Longrightarrow> digit_of (char_of (48 + d)) = Some d"
  by (simp add: digit_of_def Let_def)

lemma digits_value_snoc: "digits_value (ds @ [d]) = 10 * digits_value ds + d"
  by (simp add: digits_value_def)

lemma take_digits_append:
  assumes "take_digits s = (ds, [])"
  shows "take_digits (s @ t) = (case take_digits t of (es, rest) \<Rightarrow> (ds @ es, rest))"
  using assms by (induction s arbitrary: ds) (auto split: option.splits prod.splits)

lemma take_digits_nat_str: "\<exists>ds. take_digits (nat_str n) = (ds, []) \<and> digits_value ds = n \<and> ds \<noteq> []"
proof (induction n rule: nat_str.induct)
  case (1 n)
  show ?case
  proof (cases "n < 10")
    case True
    then show ?thesis by (simp add: nat_str.simps [of n] digit_of_digit) (simp add: digits_value_def)
  next
    case False
    with 1 obtain ds where "take_digits (nat_str (n div 10)) = (ds, [])" "digits_value ds = n div 10" by blast
    then show ?thesis using False
      by (simp add: nat_str.simps [of n] take_digits_append digit_of_digit digits_value_snoc)
  qed
qed

lemma nat_str_first: "\<exists>d cs. d < (10 :: nat) \<and> nat_str n = char_of (48 + d) # cs"
proof (induction n rule: nat_str.induct)
  case (1 n)
  show ?case
  proof (cases "n < 10")
    case False
    with 1 obtain d :: nat and cs where "d < 10" "nat_str (n div 10) = char_of (48 + d) # cs" by blast
    then have "nat_str n = char_of (48 + d) # cs @ [char_of (48 + n mod 10)]" using False by (simp add: nat_str.simps [of n])
    then show ?thesis using \<open>d < 10\<close> by blast
  qed (auto simp: nat_str.simps [of n])
qed

lemma digit_chars:
  assumes "d < (10 :: nat)"
  shows "char_of (48 + d) \<noteq> CHR ''-''" "char_of (48 + d) \<noteq> CHR ''+''"
    and "to_lower_ascii (char_of (48 + d)) \<noteq> CHR ''i''" "to_lower_ascii (char_of (48 + d)) \<noteq> CHR ''n''"
proof -
  have c: "of_char (char_of (48 + d) :: char) = 48 + d" using assms by simp
  then have "to_lower_ascii (char_of (48 + d)) = char_of (48 + d)" using assms by (simp add: to_lower_ascii_def)
  moreover have "char_of (48 + d) \<noteq> x" if "of_char x \<notin> {48..<58 :: nat}" for x :: char
    using c assms that by auto
  ultimately show "char_of (48 + d) \<noteq> CHR ''-''" "char_of (48 + d) \<noteq> CHR ''+''"
    "to_lower_ascii (char_of (48 + d)) \<noteq> CHR ''i''" "to_lower_ascii (char_of (48 + d)) \<noteq> CHR ''n''" by simp_all
qed

text \<open>A whole number that is printed reads as this number, rounded.\<close>

lemma parse_nat_str: "parse_f64 (nat_str n) = Some (rnd64 (of_nat n))"
proof -
  obtain d :: nat and cs where first: "d < 10" "nat_str n = char_of (48 + d) # cs" using nat_str_first by blast
  obtain ds where ds: "take_digits (nat_str n) = (ds, [])" "digits_value ds = n" "ds \<noteq> []" using take_digits_nat_str by blast
  have "take_sign (nat_str n) = (False, nat_str n)" using first digit_chars by (simp add: take_sign_def)
  moreover have "map to_lower_ascii (nat_str n) \<notin> {''inf'', ''infinity'', ''nan''}" using first digit_chars by simp
  ultimately show ?thesis using ds by (simp add: parse_f64_def Let_def take_exponent_def)
qed

section \<open>Properties\<close>

text \<open>
  A quote that is built and read back carries the same identifiers, symbol and expiry, and its prices and sizes as they come through text and
  a float.
\<close>
theorem fix_quote_roundtrip:
  "fq_from_fields D X (map_of (fqb_build X b)) = Some \<lparr> fq_quote_req_id = fqb_quote_req_id b, fq_quote_id = fqb_quote_id b,
     fq_symbol = fqb_symbol b, fq_bid_px = price_via_text D X (fqb_bid_px b), fq_offer_px = price_via_text D X (fqb_offer_px b),
     fq_bid_size = quantity_via_text D X (fqb_bid_size b), fq_offer_size = quantity_via_text D X (fqb_offer_size b),
     fq_valid_until_time = fqb_valid_until_time b, fq_text = None \<rparr>"
  by (simp add: fq_from_fields_def fqb_build_def map_of_push_opt map_of_push_opt_end price_via_text_def quantity_via_text_def
      del: map_of_append)

text \<open>
  An execution report that is built and read back carries the same identifiers, kind, status, symbol, side and text, and its prices and quantities
  as they come through text and a float.
\<close>
theorem execution_report_roundtrip:
  "xr_from_fields D X (map_of (xb_build X b)) = Some \<lparr> xr_exec_id = xb_exec_id b, xr_cl_ord_id = xb_cl_ord_id b,
     xr_order_id = xb_order_id b, xr_exec_type = xb_exec_type b, xr_ord_status = xb_ord_status b, xr_symbol = xb_symbol b,
     xr_side = xb_side b, xr_last_px = price_via_text D X (xb_last_px b), xr_last_qty = quantity_via_text D X (xb_last_qty b),
     xr_leaves_qty = quantity_via_text D X (xb_leaves_qty b), xr_cum_qty = quantity_via_text D X (xb_cum_qty b),
     xr_avg_px = price_via_text D X (xb_avg_px b), xr_text = xb_text b \<rparr>"
  by (simp add: xr_from_fields_def xb_build_def map_of_push_opt map_of_push_opt_end price_via_text_def quantity_via_text_def
      side_roundtrip del: map_of_append)

lemma rnd64_halfway: "rnd64 9007199254740993 = Fin 9007199254740992"
proof -
  let ?x = "9007199254740993 :: rat"
  have "binexp ?x = 53"
  proof (rule ccontr)
    assume "binexp ?x \<noteq> 53"
    then consider "binexp ?x + 1 \<le> 53" | "54 \<le> binexp ?x" by linarith
    then show False
    proof cases
      case 1
      then have "(2 :: rat) powi (binexp ?x + 1) \<le> 2 powi 53" by (intro power_int_increasing) simp_all
      then show False using binexp_bounds(2) [of ?x] by simp
    next
      case 2
      then have "(2 :: rat) powi 54 \<le> 2 powi binexp ?x" by (intro power_int_increasing) simp_all
      then show False using binexp_bounds(1) [of ?x] by simp
    qed
  qed
  then have "rnd ?x = of_int (half_even (?x / 2)) * 2" by (simp add: rnd_def unit_exp_def)
  also have "half_even (?x / 2) = 4503599627370496"
  proof -
    have "\<lfloor>?x / 2\<rfloor> = 4503599627370496" by (simp add: floor_eq_iff)
    then show ?thesis by (simp add: half_even_def Let_def)
  qed
  finally show ?thesis by (simp add: rnd64_def)
qed

text \<open>Whole numbers as decimals, printed by their digits, and the floor of a float.\<close>

definition whole_text :: "int decimal_text" where
  "whole_text = \<lparr> dx_show = (\<lambda>d. nat_str (nat d)), dx_of_f64 = (\<lambda>v. case v of Fin r \<Rightarrow> Some \<lfloor>r\<rfloor> | _ \<Rightarrow> None) \<rparr>"

text \<open>
  The decimals of the domain do not survive the way through a float: of the whole prices those below 2^53 do, the next one but
  one does not.
\<close>
theorem fix_prices_lose_digits:
  "(\<forall>n < 2 ^ 53. price_via_text whole_dec whole_text (Some (int n)) = Some (Price (int n)))
    \<and> price_via_text whole_dec whole_text (Some (2 ^ 53 + 1)) = Some (Price (2 ^ 53))"
proof (intro conjI allI impI)
  have via: "price_via_text whole_dec whole_text (Some (int n)) = (case rnd64 (of_nat n) of Fin r \<Rightarrow>
      (if \<lfloor>r\<rfloor> < 0 then None else Some (Price \<lfloor>r\<rfloor>)) | _ \<Rightarrow> None)" for n
    by (auto simp: price_via_text_def fix_price_def whole_text_def parse_nat_str price_new_def price_from_decimal_def whole_dec_def
        split: f64.split)
  fix n :: nat
  assume "n < 2 ^ 53"
  then have "int n < 2 ^ 53" by (simp flip: of_nat_less_iff)
  then have "rnd64 (of_nat n) = Fin (of_nat n)" using rnd_int [of "int n"] by (simp add: rnd64_def Let_def)
  then show "price_via_text whole_dec whole_text (Some (int n)) = Some (Price (int n))" by (simp add: via)
next
  have "rnd64 9007199254740993 = Fin 9007199254740992" by (rule rnd64_halfway)
  then show "price_via_text whole_dec whole_text (Some (2 ^ 53 + 1)) = Some (Price (2 ^ 53))"
    using parse_nat_str [of 9007199254740993]
    by (simp add: price_via_text_def fix_price_def whole_text_def price_new_def price_from_decimal_def whole_dec_def)
qed

lemma fix_prices_lose_digits_witness:
  "price_via_text whole_dec whole_text (Some 50000) = Some (Price 50000)"
  using fix_prices_lose_digits [THEN conjunct1, THEN spec, of 50000] by simp

end
