(* ===== verification/Fix_Venue.thy ===== *)
theory Fix_Venue
  imports Fix_Messages Venues Use_Cases
begin

text \<open>
  A market maker reached over FIX: the configuration and the session of \<open>src/infrastructure/venues/fix_config.rs\<close> and \<open>fix_session.rs\<close>, and the
  adapter of \<open>fix_adapter.rs\<close> with its pending requests. The engine and
  its counters are a package: the counters of a session are calls on a parameter, encoding a frame may fail, and what arrives while a request waits is
  input, messages as maps of their fields.
\<close>

section \<open>Configuration\<close>

datatype fix_version = Fix40 | Fix42 | Fix44 | Fix50Sp2

definition fxv_as_str :: "fix_version \<Rightarrow> string" where
  "fxv_as_str v = (case v of Fix40 \<Rightarrow> ''FIX.4.0'' | Fix42 \<Rightarrow> ''FIX.4.2'' | Fix44 \<Rightarrow> ''FIX.4.4'' | Fix50Sp2 \<Rightarrow> ''FIXT.1.1'')"

record fix_session_config =
  fxc_sender_comp_id :: string
  fxc_target_comp_id :: string
  fxc_fix_version :: fix_version
  fxc_host :: string
  fxc_port :: u16
  fxc_heartbeat_interval :: u32
  fxc_reconnect_interval :: u32
  fxc_reset_on_logon :: bool
  fxc_reset_on_logout :: bool
  fxc_reset_on_disconnect :: bool

definition fxc_new :: "string \<Rightarrow> string \<Rightarrow> fix_session_config" where
  "fxc_new sender target = \<lparr> fxc_sender_comp_id = sender, fxc_target_comp_id = target, fxc_fix_version = Fix44, fxc_host = [],
     fxc_port = 9876, fxc_heartbeat_interval = 30, fxc_reconnect_interval = 5, fxc_reset_on_logon = True,
     fxc_reset_on_logout = True, fxc_reset_on_disconnect = True \<rparr>"

record fix_mm_config =
  fmc_venue_id :: venue_id
  fmc_session :: fix_session_config
  fmc_quote_timeout_ms :: u64
  fmc_execution_timeout_ms :: u64
  fmc_enabled :: bool

definition fmc_new :: "venue_id \<Rightarrow> fix_session_config \<Rightarrow> fix_mm_config" where
  "fmc_new v c = \<lparr> fmc_venue_id = v, fmc_session = c, fmc_quote_timeout_ms = 5000, fmc_execution_timeout_ms = 10000,
     fmc_enabled = True \<rparr>"

section \<open>The session\<close>

text \<open>The counters of the engine, a state \<open>'q\<close>.\<close>

record ('q, 'e) sequence_manager =
  sqm_new :: 'q
  sqm_with_initial :: "u64 \<Rightarrow> u64 \<Rightarrow> 'q"
  sqm_next_sender :: "'q \<Rightarrow> u64"
  sqm_next_target :: "'q \<Rightarrow> u64"
  sqm_allocate_sender :: "'q \<Rightarrow> ('e + u64) \<times> 'q"
  sqm_increment_target :: "'q \<Rightarrow> ('e + unit) \<times> 'q"
  sqm_reset :: "'q \<Rightarrow> 'q"
  sqm_set_sender :: "u64 \<Rightarrow> 'q \<Rightarrow> 'q"
  sqm_set_target :: "u64 \<Rightarrow> 'q \<Rightarrow> 'q"

datatype fix_session_state = FxDisconnected | FxConnecting | FxLogonSent | FxActive | FxResending | FxLogoutPending

record 'q fix_session =
  fxs_config :: fix_session_config
  fxs_sequences :: 'q
  fxs_state :: fix_session_state

definition fxs_new :: "('q, 'e) sequence_manager \<Rightarrow> fix_session_config \<Rightarrow> 'q fix_session" where
  "fxs_new M c = \<lparr> fxs_config = c, fxs_sequences = sqm_new M, fxs_state = FxDisconnected \<rparr>"

text \<open>\<open>NonZeroU64::new(..).unwrap_or(MIN)\<close>: a zero counts as one.\<close>

definition fxs_with_initial_sequences :: "('q, 'e) sequence_manager \<Rightarrow> fix_session_config \<Rightarrow> u64 \<Rightarrow> u64 \<Rightarrow> 'q fix_session" where
  "fxs_with_initial_sequences M c sender target = \<lparr> fxs_config = c,
     fxs_sequences = sqm_with_initial M (if sender = 0 then 1 else sender) (if target = 0 then 1 else target),
     fxs_state = FxDisconnected \<rparr>"

definition fxs_is_active :: "'q fix_session \<Rightarrow> bool" where
  "fxs_is_active s \<longleftrightarrow> fxs_state s = FxActive"

definition fxs_allocate_sender_seq :: "('q, 'e) sequence_manager \<Rightarrow> 'q fix_session \<Rightarrow> ('e + u64) \<times> 'q fix_session" where
  "fxs_allocate_sender_seq M s = (case sqm_allocate_sender M (fxs_sequences s) of (r, q) \<Rightarrow> (r, s\<lparr> fxs_sequences := q \<rparr>))"

definition fxs_increment_target_seq :: "('q, 'e) sequence_manager \<Rightarrow> 'q fix_session \<Rightarrow> ('e + unit) \<times> 'q fix_session" where
  "fxs_increment_target_seq M s = (case sqm_increment_target M (fxs_sequences s) of (r, q) \<Rightarrow> (r, s\<lparr> fxs_sequences := q \<rparr>))"

definition fxs_reset_sequences :: "('q, 'e) sequence_manager \<Rightarrow> 'q fix_session \<Rightarrow> 'q fix_session" where
  "fxs_reset_sequences M s = s\<lparr> fxs_sequences := sqm_reset M (fxs_sequences s) \<rparr>"

definition fxs_connect :: "'q fix_session \<Rightarrow> 'q fix_session" where
  "fxs_connect s = s\<lparr> fxs_state := FxConnecting \<rparr>"

definition fxs_send_logon :: "'q fix_session \<Rightarrow> 'q fix_session" where
  "fxs_send_logon s = s\<lparr> fxs_state := FxLogonSent \<rparr>"

definition fxs_logon_confirmed :: "('q, 'e) sequence_manager \<Rightarrow> 'q fix_session \<Rightarrow> 'q fix_session" where
  "fxs_logon_confirmed M s = (let s = s\<lparr> fxs_state := FxActive \<rparr> in
     if fxc_reset_on_logon (fxs_config s) then fxs_reset_sequences M s else s)"

definition fxs_send_logout :: "'q fix_session \<Rightarrow> 'q fix_session" where
  "fxs_send_logout s = s\<lparr> fxs_state := FxLogoutPending \<rparr>"

definition fxs_disconnect :: "('q, 'e) sequence_manager \<Rightarrow> 'q fix_session \<Rightarrow> 'q fix_session" where
  "fxs_disconnect M s = (let s = (if fxc_reset_on_disconnect (fxs_config s) then fxs_reset_sequences M s else s) in
     s\<lparr> fxs_state := FxDisconnected \<rparr>)"

section \<open>The adapter\<close>

datatype fix_link_state = LinkDisconnected | LinkConnecting | LinkConnected | LinkLoggingOn | LinkLoggedOn | LinkLoggingOut

definition link_display :: "fix_link_state \<Rightarrow> string" where
  "link_display s = (case s of LinkDisconnected \<Rightarrow> ''DISCONNECTED'' | LinkConnecting \<Rightarrow> ''CONNECTING'' | LinkConnected \<Rightarrow> ''CONNECTED''
     | LinkLoggingOn \<Rightarrow> ''LOGGING_ON'' | LinkLoggedOn \<Rightarrow> ''LOGGED_ON'' | LinkLoggingOut \<Rightarrow> ''LOGGING_OUT'')"

definition fix_version_to_static :: "string \<Rightarrow> string" where
  "fix_version_to_static v = (if v \<in> {''FIX.4.0'', ''FIX.4.2'', ''FIX.4.4'', ''FIXT.1.1''} then v else ''FIX.4.4'')"

text \<open>
  What is shared between the adapter and the callbacks of the engine: the state of the session, the counter, and for each pending request or order what
  it is about. \<open>fxa_engine\<close>: no engine, or one that takes messages or has gone. \<open>fxa_sent\<close> are the messages given to it.
\<close>

datatype engine = NoEngine | EngineRuns | EngineGone

record fix_adapter =
  fxa_config :: fix_mm_config
  fxa_link :: fix_link_state
  fxa_seq_num :: u64
  fxa_pending_quotes :: "string \<rightharpoonup> uuid"
  fxa_pending_orders :: "string \<rightharpoonup> uuid"
  fxa_engine :: engine
  fxa_sent :: "fix_field list list"

definition fxa_new :: "fix_mm_config \<Rightarrow> fix_adapter" where
  "fxa_new c = \<lparr> fxa_config = c, fxa_link = LinkDisconnected, fxa_seq_num = 1, fxa_pending_quotes = Map.empty,
     fxa_pending_orders = Map.empty, fxa_engine = NoEngine, fxa_sent = [] \<rparr>"

definition fxa_with_engine :: "fix_mm_config \<Rightarrow> fix_adapter" where
  "fxa_with_engine c = (fxa_new c)\<lparr> fxa_engine := EngineRuns \<rparr>"

text \<open>\<open>fetch_add\<close> wraps.\<close>

definition fxa_next_seq_num :: "fix_adapter \<Rightarrow> u64 \<times> fix_adapter" where
  "fxa_next_seq_num a = (fxa_seq_num a, a\<lparr> fxa_seq_num := fxa_seq_num a + 1 \<rparr>)"

text \<open>How the packages print and encode: an identifier, and a frame of a version.\<close>

record fix_codec =
  fxk_uuid :: "uuid \<Rightarrow> string"
  fxk_encode :: "string \<Rightarrow> fix_field list \<Rightarrow> string + string"

definition fxa_generate_id :: "fix_codec \<Rightarrow> string \<Rightarrow> uuid \<Rightarrow> fix_adapter \<Rightarrow> string \<times> fix_adapter" where
  "fxa_generate_id K prefix i a = (case fxa_next_seq_num a of (n, a) \<Rightarrow> (prefix @ fxk_uuid K i @ ''-'' @ nat_str (unat n), a))"

text \<open>The fields of a message in the order they are put, with the texts of the two readings of the clock.\<close>

definition session_fields :: "fix_session_config \<Rightarrow> string \<Rightarrow> u64 \<Rightarrow> string \<Rightarrow> fix_field list" where
  "session_fields c kind n t = [(TAG_MSG_TYPE, kind), (49, fxc_sender_comp_id c), (56, fxc_target_comp_id c),
     (34, nat_str (unat n)), (52, t)]"

definition encode_quote_request :: "'d decimal_text \<Rightarrow> fix_codec \<Rightarrow> string \<Rightarrow> string \<Rightarrow> 'd rfq \<Rightarrow> string \<Rightarrow> fix_adapter
    \<Rightarrow> ('d venue_error + fix_field list) \<times> fix_adapter" where
  "encode_quote_request X K t1 t2 r quote_req_id a = (case fxa_next_seq_num a of (n, a) \<Rightarrow>
     (let c = fmc_session (fxa_config a);
          fs = session_fields c ''R'' n t1 @ [(TAG_QUOTE_REQ_ID, quote_req_id), (TAG_SYMBOL, sym_value (ins_symbol (rfq_instrument r))),
            (TAG_SIDE, order_side_to_fix (rfq_side r)), (TAG_ORDER_QTY, dx_show X (quantity_get (rfq_quantity r))),
            (TAG_TRANSACT_TIME, t2)] in
      (case fxk_encode K (fix_version_to_static (fxv_as_str (fxc_fix_version c))) fs of
         Inl e \<Rightarrow> Inl (VeProtocolError (Fmt ''FIX encode failed: {e}'' [ArgStr e])) | Inr _ \<Rightarrow> Inr fs, a)))"

definition encode_new_order_single :: "'d decimal_text \<Rightarrow> fix_codec \<Rightarrow> string \<Rightarrow> string \<Rightarrow> 'd quote \<Rightarrow> string \<Rightarrow> string \<Rightarrow> string
    \<Rightarrow> order_side \<Rightarrow> fix_adapter \<Rightarrow> ('d venue_error + fix_field list) \<times> fix_adapter" where
  "encode_new_order_single X K t1 t2 q cl_ord_id venue_quote_id symbol side a = (case fxa_next_seq_num a of (n, a) \<Rightarrow>
     (let c = fmc_session (fxa_config a);
          fs = session_fields c ''D'' n t1 @ [(TAG_CL_ORD_ID, cl_ord_id), (TAG_QUOTE_ID, venue_quote_id), (TAG_SYMBOL, symbol),
            (TAG_SIDE, order_side_to_fix side), (TAG_ORDER_QTY, dx_show X (quantity_get (quote_quantity q))), (TAG_ORD_TYPE, ''D''),
            (TAG_PRICE, dx_show X (price_get (quote_price q))), (TAG_TIME_IN_FORCE, ''4''), (TAG_TRANSACT_TIME, t2)] in
      (case fxk_encode K (fix_version_to_static (fxv_as_str (fxc_fix_version c))) fs of
         Inl e \<Rightarrow> Inl (VeProtocolError (Fmt ''FIX encode failed: {e}'' [ArgStr e])) | Inr _ \<Rightarrow> Inr fs, a)))"

definition fxa_send_message :: "fix_field list \<Rightarrow> fix_adapter \<Rightarrow> ('d venue_error + unit) \<times> fix_adapter" where
  "fxa_send_message fs a = (case fxa_engine a of
       NoEngine \<Rightarrow> (Inl (VeInternalError (Txt ''FIX engine not configured'')), a)
     | EngineGone \<Rightarrow> (Inl (VeInternalError (Txt ''Failed to send FIX message: channel closed'')), a)
     | EngineRuns \<Rightarrow> (Inr (), a\<lparr> fxa_sent := fxa_sent a @ [fs] \<rparr>))"

text \<open>\<open>if has_engine { send_message()? }\<close>.\<close>

definition fxa_send_if_engine :: "fix_field list \<Rightarrow> fix_adapter \<Rightarrow> ('d venue_error + unit) \<times> fix_adapter" where
  "fxa_send_if_engine fs a = (if fxa_engine a = NoEngine then (Inr (), a) else fxa_send_message fs a)"

section \<open>Callbacks of the engine\<close>

text \<open>What a callback sends to those that wait.\<close>

datatype 'd fix_answer = QuoteAnswer string "'d venue_error + 'd quote" | OrderAnswer string "'d venue_error + 'd execution_result"

type_synonym fix_message = "u32 \<rightharpoonup> string"

definition fx_handle_quote :: "fix_message \<Rightarrow> fix_adapter \<Rightarrow> 'd fix_answer list \<times> fix_adapter" where
  "fx_handle_quote m a = (case m TAG_QUOTE_REQ_ID of None \<Rightarrow> ([], a)
     | Some i \<Rightarrow> (case fxa_pending_quotes a i of None \<Rightarrow> ([], a)
       | Some _ \<Rightarrow> ([QuoteAnswer i (Inl (VeInternalError (Txt ''Quote parsing requires RFQ context - not yet implemented'')))],
           a\<lparr> fxa_pending_quotes := (fxa_pending_quotes a)(i := None) \<rparr>)))"

text \<open>The quantity of a fill: no text, no number or no valid quantity is zero.\<close>

definition fill_quantity :: "'d dec \<Rightarrow> 'd decimal_text \<Rightarrow> string option \<Rightarrow> 'd quantity" where
  "fill_quantity D X text = (case quantity_new_f64 D (dx_of_f64 X)
       (case Option.bind text parse_f64 of Some v \<Rightarrow> v | None \<Rightarrow> lit 0) of
       Inr q \<Rightarrow> q | Inl _ \<Rightarrow> quantity_zero D)"

definition fx_handle_execution_report :: "'d dec \<Rightarrow> 'd decimal_text \<Rightarrow> uuid \<Rightarrow> timestamp \<Rightarrow> fix_message \<Rightarrow> fix_adapter
    \<Rightarrow> 'd fix_answer list \<times> fix_adapter" where
  "fx_handle_execution_report D X fresh now m a = (case m TAG_CL_ORD_ID of None \<Rightarrow> ([], a)
     | Some i \<Rightarrow> (case fxa_pending_orders a i of None \<Rightarrow> ([], a)
       | Some quote \<Rightarrow>
           let removed = a\<lparr> fxa_pending_orders := (fxa_pending_orders a)(i := None) \<rparr> in
           if m TAG_ORD_STATUS = Some ''2'' then
             (case fix_price D X (m TAG_LAST_PX) of
                Some price \<Rightarrow>
                  ([OrderAnswer i (Inr ((er_new fresh now quote (fmc_venue_id (fxa_config a)) price
                      (fill_quantity D X (m TAG_LAST_QTY)) OffChain)
                      \<lparr> er_venue_execution_id := Some (case m TAG_EXEC_ID of Some e \<Rightarrow> e | None \<Rightarrow> ''unknown'') \<rparr>))], removed)
              | None \<Rightarrow> ([OrderAnswer i (Inl (VeProtocolError (Txt ''Invalid price in ExecutionReport'')))], removed))
           else if m TAG_ORD_STATUS = Some ''8'' then
             ([OrderAnswer i (Inl (VeExecutionFailed (Txt (case m TAG_TEXT of Some t \<Rightarrow> t | None \<Rightarrow> ''Order rejected'')) None))], removed)
           else ([], removed\<lparr> fxa_pending_orders := (fxa_pending_orders removed)(i \<mapsto> quote) \<rparr>)))"

definition fx_handle_quote_reject :: "fix_message \<Rightarrow> fix_adapter \<Rightarrow> 'd fix_answer list \<times> fix_adapter" where
  "fx_handle_quote_reject m a = (case m TAG_QUOTE_REQ_ID of None \<Rightarrow> ([], a)
     | Some i \<Rightarrow> (case fxa_pending_quotes a i of None \<Rightarrow> ([], a)
       | Some _ \<Rightarrow> ([QuoteAnswer i (Inl (VeQuoteUnavailable (Txt (case m TAG_TEXT of Some t \<Rightarrow> t | None \<Rightarrow> ''Quote request rejected''))))],
           a\<lparr> fxa_pending_quotes := (fxa_pending_quotes a)(i := None) \<rparr>)))"

definition fx_on_logon :: "fix_adapter \<Rightarrow> fix_adapter" where
  "fx_on_logon a = a\<lparr> fxa_link := LinkLoggedOn \<rparr>"

definition fx_on_logout :: "fix_adapter \<Rightarrow> fix_adapter" where
  "fx_on_logout a = a\<lparr> fxa_link := LinkDisconnected \<rparr>"

definition fx_from_app :: "'d dec \<Rightarrow> 'd decimal_text \<Rightarrow> uuid \<Rightarrow> timestamp \<Rightarrow> fix_message \<Rightarrow> fix_adapter
    \<Rightarrow> 'd fix_answer list \<times> fix_adapter" where
  "fx_from_app D X fresh now m a =
     (if m TAG_MSG_TYPE = Some ''S'' then fx_handle_quote m a
      else if m TAG_MSG_TYPE = Some ''8'' then fx_handle_execution_report D X fresh now m a
      else if m TAG_MSG_TYPE = Some ''AG'' then fx_handle_quote_reject m a
      else ([], a))"

section \<open>The handlers of the adapter itself\<close>

text \<open>
  A second way in, for an engine that hands over fields: it answers quotes and execution reports with errors. Two parsers return what the tests expect
  whatever the fields say, and two builders give the fields without a frame.
\<close>

definition fxa_handle_quote_message :: "fix_field list \<Rightarrow> fix_adapter \<Rightarrow> 'd fix_answer list \<times> fix_adapter" where
  "fxa_handle_quote_message fs a = (case map_of fs TAG_QUOTE_REQ_ID of None \<Rightarrow> ([], a)
     | Some i \<Rightarrow> (case fxa_pending_quotes a i of None \<Rightarrow> ([], a)
       | Some _ \<Rightarrow> ([QuoteAnswer i (Inl (VeInternalError (Txt ''Quote parsing not implemented'')))],
           a\<lparr> fxa_pending_quotes := (fxa_pending_quotes a)(i := None) \<rparr>)))"

definition fxa_handle_execution_report :: "fix_field list \<Rightarrow> fix_adapter \<Rightarrow> 'd fix_answer list \<times> fix_adapter" where
  "fxa_handle_execution_report fs a = (case map_of fs TAG_CL_ORD_ID of None \<Rightarrow> ([], a)
     | Some i \<Rightarrow> (case fxa_pending_orders a i of None \<Rightarrow> ([], a)
       | Some _ \<Rightarrow> ([OrderAnswer i (Inl (VeInternalError (Txt ''Execution report parsing not implemented'')))],
           a\<lparr> fxa_pending_orders := (fxa_pending_orders a)(i := None) \<rparr>)))"

definition fxa_handle_quote_reject :: "fix_field list \<Rightarrow> fix_adapter \<Rightarrow> 'd fix_answer list \<times> fix_adapter" where
  "fxa_handle_quote_reject fs a =
     (let t = (case map_of fs TAG_TEXT of Some t \<Rightarrow> t | None \<Rightarrow> ''Quote request rejected'') in
      case map_of fs TAG_QUOTE_REQ_ID of None \<Rightarrow> ([], a)
      | Some i \<Rightarrow> (case fxa_pending_quotes a i of None \<Rightarrow> ([], a)
        | Some _ \<Rightarrow> ([QuoteAnswer i (Inl (VeQuoteUnavailable (Txt t)))],
            a\<lparr> fxa_pending_quotes := (fxa_pending_quotes a)(i := None) \<rparr>)))"

definition fxa_handle_incoming_message :: "string \<Rightarrow> fix_field list \<Rightarrow> fix_adapter \<Rightarrow> 'd fix_answer list \<times> fix_adapter" where
  "fxa_handle_incoming_message k fs a =
     (if k = ''S'' then fxa_handle_quote_message fs a
      else if k = ''8'' then fxa_handle_execution_report fs a
      else if k = ''AG'' then fxa_handle_quote_reject fs a
      else ([], a))"

definition fxa_parse_quote_response :: "'d dec \<Rightarrow> 'd decimal_text \<Rightarrow> uuid \<Rightarrow> timestamp \<Rightarrow> timestamp \<Rightarrow> fix_field list \<Rightarrow> 'd rfq
    \<Rightarrow> fix_adapter \<Rightarrow> 'd venue_error + 'd quote" where
  "fxa_parse_quote_response D X fresh now created fs r a = (case price_new D (dx_of_f64 X) (lit 50000) of
       Inl _ \<Rightarrow> Inl (VeProtocolError (Txt ''Invalid price in quote''))
     | Inr p \<Rightarrow> Inr (qb_build fresh created (qb_new (rfq_id r) (fmc_venue_id (fxa_config a)) p (rfq_quantity r) (ts_add_secs now 60))))"

definition fxa_parse_execution_report :: "fix_codec \<Rightarrow> uuid \<Rightarrow> uuid \<Rightarrow> timestamp \<Rightarrow> fix_field list \<Rightarrow> 'd quote \<Rightarrow> fix_adapter
    \<Rightarrow> 'd venue_error + 'd execution_result" where
  "fxa_parse_execution_report K fresh exec_uuid now fs q a =
     Inr ((er_new fresh now (quote_id q) (fmc_venue_id (fxa_config a)) (quote_price q) (quote_quantity q) OffChain)
       \<lparr> er_venue_execution_id := Some (''FIX-'' @ fxk_uuid K exec_uuid) \<rparr>)"

definition fxa_build_quote_request :: "'d decimal_text \<Rightarrow> string \<Rightarrow> 'd rfq \<Rightarrow> string \<Rightarrow> fix_field list" where
  "fxa_build_quote_request X t r quote_req_id = [(TAG_QUOTE_REQ_ID, quote_req_id), (TAG_SYMBOL, sym_value (ins_symbol (rfq_instrument r))),
     (TAG_SIDE, order_side_to_fix (rfq_side r)), (TAG_ORDER_QTY, dx_show X (quantity_get (rfq_quantity r))), (TAG_TRANSACT_TIME, t)]"

definition fxa_build_new_order_single :: "'d decimal_text \<Rightarrow> string \<Rightarrow> 'd quote \<Rightarrow> string \<Rightarrow> string \<Rightarrow> fix_field list" where
  "fxa_build_new_order_single X t q cl_ord_id venue_quote_id = [(TAG_CL_ORD_ID, cl_ord_id), (TAG_QUOTE_ID, venue_quote_id),
     (TAG_SYMBOL, ''BTC/USD''), (TAG_SIDE, ''1''), (TAG_ORDER_QTY, dx_show X (quantity_get (quote_quantity q))), (TAG_ORD_TYPE, ''D''),
     (TAG_PRICE, dx_show X (price_get (quote_price q))), (TAG_TIME_IN_FORCE, ''4''), (TAG_TRANSACT_TIME, t)]"

section \<open>Asking and executing\<close>

text \<open>
  What happens while a request waits: callbacks of the engine, or the end of its time, or its channel being dropped. A result for the key ends the
  wait.
\<close>

datatype fix_event = FixMessage uuid timestamp fix_message | FixIncoming string "fix_field list" | FixLogon | FixLogout

fun fix_step :: "'d dec \<Rightarrow> 'd decimal_text \<Rightarrow> fix_event \<Rightarrow> fix_adapter \<Rightarrow> 'd fix_answer list \<times> fix_adapter" where
  "fix_step D X (FixMessage fresh now m) a = fx_from_app D X fresh now m a"
| "fix_step D X (FixIncoming k fs) a = fxa_handle_incoming_message k fs a"
| "fix_step D X FixLogon a = ([], fx_on_logon a)"
| "fix_step D X FixLogout a = ([], fx_on_logout a)"

fun order_answer :: "string \<Rightarrow> 'd fix_answer list \<Rightarrow> ('d venue_error + 'd execution_result) option" where
  "order_answer i [] = None"
| "order_answer i (OrderAnswer j r # rest) = (if j = i then Some r else order_answer i rest)"
| "order_answer i (_ # rest) = order_answer i rest"

fun quote_answer :: "string \<Rightarrow> 'd fix_answer list \<Rightarrow> ('d venue_error + 'd quote) option" where
  "quote_answer i [] = None"
| "quote_answer i (QuoteAnswer j r # rest) = (if j = i then Some r else quote_answer i rest)"
| "quote_answer i (_ # rest) = quote_answer i rest"

fun fix_wait :: "('d fix_answer list \<Rightarrow> 'r option) \<Rightarrow> 'd dec \<Rightarrow> 'd decimal_text \<Rightarrow> fix_event list \<Rightarrow> fix_adapter
    \<Rightarrow> 'r option \<times> fix_adapter" where
  "fix_wait answered D X [] a = (None, a)"
| "fix_wait answered D X (e # es) a = (case fix_step D X e a of (answers, a') \<Rightarrow>
     (case answered answers of Some r \<Rightarrow> (Some r, a') | None \<Rightarrow> fix_wait answered D X es a'))"

definition not_logged_on :: "fix_adapter \<Rightarrow> 'd venue_error" where
  "not_logged_on a = VeVenueUnavailable (fmc_venue_id (fxa_config a))
     (Fmt ''FIX session not logged on (state: {})'' [ArgStr (link_display (fxa_link a))])"

text \<open>A channel that is dropped never happens here: the sender stays in the map until a callback takes it out to answer.\<close>

definition fx_request_quote :: "'d dec \<Rightarrow> 'd decimal_text \<Rightarrow> fix_codec \<Rightarrow> string \<Rightarrow> string \<Rightarrow> fix_event list \<Rightarrow> 'd rfq
    \<Rightarrow> fix_adapter \<Rightarrow> ('d venue_error + 'd quote) \<times> fix_adapter" where
  "fx_request_quote D X K t1 t2 events r a =
     (if \<not> fmc_enabled (fxa_config a)
      then (Inl (VeVenueUnavailable (fmc_venue_id (fxa_config a)) (Txt ''FIX adapter is disabled'')), a)
      else if fxa_link a \<noteq> LinkLoggedOn then (Inl (not_logged_on a), a)
      else case fxa_generate_id K ''QR-'' (rfq_id r) a of (i, a) \<Rightarrow>
        let a = a\<lparr> fxa_pending_quotes := (fxa_pending_quotes a)(i \<mapsto> rfq_id r) \<rparr> in
        case encode_quote_request X K t1 t2 r i a of
          (Inl e, a) \<Rightarrow> (Inl e, a)
        | (Inr fs, a) \<Rightarrow> (case fxa_send_if_engine fs a of
            (Inl e, a) \<Rightarrow> (Inl e, a)
          | (Inr _, a) \<Rightarrow> (case fix_wait (quote_answer i) D X events a of
              (Some res, a) \<Rightarrow> (res, a)
            | (None, a) \<Rightarrow> (Inl (VeTimeout (Txt ''Quote request timed out'') (Some (fmc_quote_timeout_ms (fxa_config a)))),
                a\<lparr> fxa_pending_quotes := (fxa_pending_quotes a)(i := None) \<rparr>))))"

definition order_symbol :: "'d quote \<Rightarrow> string" where
  "order_symbol q = (case Option.bind (quote_metadata q) (\<lambda>m. m ''symbol'') of Some s \<Rightarrow> s | None \<Rightarrow> ''BTC/USD'')"

definition order_side_of :: "'d quote \<Rightarrow> order_side" where
  "order_side_of q = (case Option.bind (Option.bind (quote_metadata q) (\<lambda>m. m ''side'')) fix_to_order_side of Some s \<Rightarrow> s | None \<Rightarrow> Buy)"

definition fx_execute_trade :: "'d dec \<Rightarrow> 'd decimal_text \<Rightarrow> fix_codec \<Rightarrow> timestamp \<Rightarrow> string \<Rightarrow> string \<Rightarrow> fix_event list \<Rightarrow> 'd quote
    \<Rightarrow> fix_adapter \<Rightarrow> ('d venue_error + 'd execution_result) \<times> fix_adapter" where
  "fx_execute_trade D X K now t1 t2 events q a =
     (if \<not> fmc_enabled (fxa_config a)
      then (Inl (VeVenueUnavailable (fmc_venue_id (fxa_config a)) (Txt ''FIX adapter is disabled'')), a)
      else if fxa_link a \<noteq> LinkLoggedOn then (Inl (not_logged_on a), a)
      else if quote_is_expired now q then (Inl (VeQuoteExpired (Txt ''Quote has expired'')), a)
      else if quote_venue_id q \<noteq> fmc_venue_id (fxa_config a) then (Inl (VeInvalidRequest (Txt ''Quote is not from this venue'')), a)
      else case fxa_generate_id K ''ORD-'' (quote_id q) a of (i, a) \<Rightarrow>
        let a = a\<lparr> fxa_pending_orders := (fxa_pending_orders a)(i \<mapsto> quote_id q) \<rparr> in
        case encode_new_order_single X K t1 t2 q i (fxk_uuid K (quote_id q)) (order_symbol q) (order_side_of q) a of
          (Inl e, a) \<Rightarrow> (Inl e, a)
        | (Inr fs, a) \<Rightarrow> (case fxa_send_if_engine fs a of
            (Inl e, a) \<Rightarrow> (Inl e, a)
          | (Inr _, a) \<Rightarrow> (case fix_wait (order_answer i) D X events a of
              (Some res, a) \<Rightarrow> (res, a)
            | (None, a) \<Rightarrow> (Inl (VeTimeout (Txt ''Order execution timed out'') (Some (fmc_execution_timeout_ms (fxa_config a)))),
                a\<lparr> fxa_pending_orders := (fxa_pending_orders a)(i := None) \<rparr>))))"

definition fx_health_check :: "timestamp \<Rightarrow> fix_adapter \<Rightarrow> health_report" where
  "fx_health_check now a = (let v = fmc_venue_id (fxa_config a) in case fxa_link a of
       LinkLoggedOn \<Rightarrow> hr_healthy now v
     | LinkConnecting \<Rightarrow> hr_degraded now v ''Session connecting''
     | LinkLoggingOn \<Rightarrow> hr_degraded now v ''Session connecting''
     | s \<Rightarrow> hr_unhealthy now v (''Session state: '' @ link_display s))"

definition fx_is_available :: "fix_adapter \<Rightarrow> bool" where
  "fx_is_available a \<longleftrightarrow> fmc_enabled (fxa_config a) \<and> fxa_link a = LinkLoggedOn"

section \<open>What the callbacks leave alone\<close>

lemmas incoming_defs = fxa_handle_incoming_message_def fxa_handle_quote_message_def fxa_handle_execution_report_def
  fxa_handle_quote_reject_def

lemma callbacks_keep:
  assumes "fix_step D X e a = (answers, a')"
  shows "fxa_config a' = fxa_config a" "fxa_seq_num a' = fxa_seq_num a" "fxa_sent a' = fxa_sent a" "fxa_engine a' = fxa_engine a"
  using assms
  by (cases e; auto simp: fx_from_app_def fx_handle_quote_def fx_handle_execution_report_def fx_handle_quote_reject_def incoming_defs
      fx_on_logon_def fx_on_logout_def Let_def split: if_splits option.splits)+

lemma wait_keeps:
  assumes "fix_wait f D X es a = (r, a')"
  shows "fxa_config a' = fxa_config a \<and> fxa_seq_num a' = fxa_seq_num a \<and> fxa_sent a' = fxa_sent a \<and> fxa_engine a' = fxa_engine a"
  using assms
proof (induction es arbitrary: a)
  case (Cons e es)
  obtain ans b where step: "fix_step D X e a = (ans, b)" by (cases "fix_step D X e a")
  then show ?case using Cons callbacks_keep [OF step] by (auto split: option.splits)
qed simp

text \<open>Quotes are only ever refused.\<close>

lemma quote_answers_refuse:
  assumes "fix_step D X e a = (answers, a')" "quote_answer i answers = Some r"
  shows "r \<notin> range Inr"
  using assms by (cases e)
    (auto simp: fx_from_app_def fx_handle_quote_def fx_handle_execution_report_def fx_handle_quote_reject_def incoming_defs Let_def
      split: if_splits option.splits)

lemma wait_refuses: "fix_wait (quote_answer i) D X es a = (Some r, a') \<Longrightarrow> r \<notin> range Inr"
proof (induction es arbitrary: a)
  case (Cons e es)
  obtain ans b where step: "fix_step D X e a = (ans, b)" by (cases "fix_step D X e a")
  then show ?case using Cons quote_answers_refuse [OF step] by (auto split: option.splits)
qed simp

text \<open>The report that fills an order.\<close>

definition fills :: "'d dec \<Rightarrow> 'd decimal_text \<Rightarrow> string \<Rightarrow> fix_message \<Rightarrow> 'd execution_result \<Rightarrow> bool" where
  "fills D X i m res \<longleftrightarrow> m TAG_MSG_TYPE = Some ''8'' \<and> m TAG_CL_ORD_ID = Some i \<and> m TAG_ORD_STATUS = Some ''2''
     \<and> fix_price D X (m TAG_LAST_PX) = Some (er_execution_price res)
     \<and> er_executed_quantity res = fill_quantity D X (m TAG_LAST_QTY)"

lemma fill_answer:
  assumes "fix_step D X e a = (answers, a')" "order_answer i answers = Some (Inr res)"
  shows "\<exists>fresh now m. e = FixMessage fresh now m \<and> fills D X i m res \<and> er_trade_id res = fresh
    \<and> er_venue_id res = fmc_venue_id (fxa_config a) \<and> fxa_pending_orders a i = Some (er_quote_id res)"
  using assms by (cases e)
    (auto simp: fx_from_app_def fx_handle_quote_def fx_handle_execution_report_def fx_handle_quote_reject_def incoming_defs Let_def fills_def er_new_def
      split: if_splits option.splits)

lemma unanswered_keeps_pending:
  assumes "fix_step D X e a = (answers, a')" "order_answer i answers = None"
  shows "fxa_pending_orders a' i = fxa_pending_orders a i"
  using assms by (cases e)
    (auto simp: fx_from_app_def fx_handle_quote_def fx_handle_execution_report_def fx_handle_quote_reject_def incoming_defs Let_def
      fx_on_logon_def fx_on_logout_def split: if_splits option.splits)

lemma answered_not_pending:
  assumes "fix_step D X e a = (answers, a')" "order_answer i answers = Some r"
  shows "fxa_pending_orders a' i = None"
  using assms by (cases e)
    (auto simp: fx_from_app_def fx_handle_quote_def fx_handle_execution_report_def fx_handle_quote_reject_def incoming_defs Let_def
      split: if_splits option.splits)

lemma wait_fills:
  assumes "fix_wait (order_answer i) D X es a = (Some (Inr res), a')"
  shows "\<exists>fresh now m. FixMessage fresh now m \<in> set es \<and> fills D X i m res
    \<and> er_venue_id res = fmc_venue_id (fxa_config a) \<and> fxa_pending_orders a i = Some (er_quote_id res)"
  using assms
proof (induction es arbitrary: a)
  case (Cons e es)
  obtain ans b where step: "fix_step D X e a = (ans, b)" by (cases "fix_step D X e a")
  show ?case
  proof (cases "order_answer i ans")
    case None
    then have "fix_wait (order_answer i) D X es b = (Some (Inr res), a')" using Cons.prems step by simp
    from Cons.IH [OF this] show ?thesis
      using callbacks_keep(1) [OF step] unanswered_keeps_pending [OF step None] by auto
  next
    case (Some r)
    then have "order_answer i ans = Some (Inr res)" using Cons.prems step by simp
    from fill_answer [OF step this] show ?thesis by auto
  qed
qed simp

lemma wait_ends:
  assumes "fix_wait (order_answer i) D X es a = (Some r, a')"
  shows "fxa_pending_orders a' i = None"
  using assms
proof (induction es arbitrary: a)
  case (Cons e es)
  obtain ans b where step: "fix_step D X e a = (ans, b)" by (cases "fix_step D X e a")
  show ?case using Cons step answered_not_pending [OF step] by (auto split: option.splits)
qed simp

text \<open>The order as it is sent for a quote, with the numbers \<open>n\<close> and \<open>n + 1\<close> taken for its identifier and its frame.\<close>

definition order_id_of :: "fix_codec \<Rightarrow> 'd quote \<Rightarrow> u64 \<Rightarrow> string" where
  "order_id_of K q n = ''ORD-'' @ fxk_uuid K (quote_id q) @ ''-'' @ nat_str (unat n)"

definition order_message :: "'d decimal_text \<Rightarrow> fix_codec \<Rightarrow> fix_session_config \<Rightarrow> string \<Rightarrow> string \<Rightarrow> 'd quote \<Rightarrow> u64 \<Rightarrow> fix_field list" where
  "order_message X K c t1 t2 q n = session_fields c ''D'' (n + 1) t1
     @ [(TAG_CL_ORD_ID, order_id_of K q n), (TAG_QUOTE_ID, fxk_uuid K (quote_id q)), (TAG_SYMBOL, order_symbol q),
        (TAG_SIDE, order_side_to_fix (order_side_of q)), (TAG_ORDER_QTY, dx_show X (quantity_get (quote_quantity q))), (TAG_ORD_TYPE, ''D''),
        (TAG_PRICE, dx_show X (price_get (quote_price q))), (TAG_TIME_IN_FORCE, ''4''), (TAG_TRANSACT_TIME, t2)]"

definition may_execute :: "timestamp \<Rightarrow> 'd quote \<Rightarrow> fix_adapter \<Rightarrow> bool" where
  "may_execute now q a \<longleftrightarrow> fmc_enabled (fxa_config a) \<and> fxa_link a = LinkLoggedOn \<and> \<not> quote_is_expired now q
     \<and> quote_venue_id q = fmc_venue_id (fxa_config a)"

text \<open>The adapter when the order has been handed over, with its answer pending.\<close>

definition order_placed :: "'d decimal_text \<Rightarrow> fix_codec \<Rightarrow> string \<Rightarrow> string \<Rightarrow> 'd quote \<Rightarrow> fix_adapter \<Rightarrow> fix_adapter" where
  "order_placed X K t1 t2 q a = a\<lparr> fxa_seq_num := fxa_seq_num a + 2,
     fxa_pending_orders := (fxa_pending_orders a)(order_id_of K q (fxa_seq_num a) \<mapsto> quote_id q),
     fxa_sent := (if fxa_engine a = EngineRuns then fxa_sent a @ [order_message X K (fmc_session (fxa_config a)) t1 t2 q (fxa_seq_num a)]
       else fxa_sent a) \<rparr>"

lemma execute_trade_eq:
  "fx_execute_trade D X K now t1 t2 events q a =
     (let i = order_id_of K q (fxa_seq_num a); c = fmc_session (fxa_config a);
          fs = order_message X K c t1 t2 q (fxa_seq_num a);
          kept = a\<lparr> fxa_seq_num := fxa_seq_num a + 2, fxa_pending_orders := (fxa_pending_orders a)(i \<mapsto> quote_id q) \<rparr> in
      if \<not> fmc_enabled (fxa_config a)
      then (Inl (VeVenueUnavailable (fmc_venue_id (fxa_config a)) (Txt ''FIX adapter is disabled'')), a)
      else if fxa_link a \<noteq> LinkLoggedOn then (Inl (not_logged_on a), a)
      else if quote_is_expired now q then (Inl (VeQuoteExpired (Txt ''Quote has expired'')), a)
      else if quote_venue_id q \<noteq> fmc_venue_id (fxa_config a) then (Inl (VeInvalidRequest (Txt ''Quote is not from this venue'')), a)
      else case fxk_encode K (fix_version_to_static (fxv_as_str (fxc_fix_version c))) fs of
          Inl e \<Rightarrow> (Inl (VeProtocolError (Fmt ''FIX encode failed: {e}'' [ArgStr e])), kept)
        | Inr _ \<Rightarrow> if fxa_engine a = EngineGone then (Inl (VeInternalError (Txt ''Failed to send FIX message: channel closed'')), kept)
            else (case fix_wait (order_answer i) D X events (order_placed X K t1 t2 q a) of
              (Some res, a) \<Rightarrow> (res, a)
            | (None, a) \<Rightarrow> (Inl (VeTimeout (Txt ''Order execution timed out'') (Some (fmc_execution_timeout_ms (fxa_config a)))),
                a\<lparr> fxa_pending_orders := (fxa_pending_orders a)(i := None) \<rparr>)))"
proof -
  have order: "b\<lparr> fxa_pending_orders := P, fxa_seq_num := n \<rparr> = b\<lparr> fxa_seq_num := n, fxa_pending_orders := P \<rparr>" for b P n
    by (cases b) simp
  show ?thesis
    by (cases "fxa_engine a"; cases "fxk_encode K (fix_version_to_static (fxv_as_str (fxc_fix_version (fmc_session (fxa_config a)))))
        (order_message X K (fmc_session (fxa_config a)) t1 t2 q (fxa_seq_num a))")
      (simp_all add: fx_execute_trade_def fxa_generate_id_def fxa_next_seq_num_def encode_new_order_single_def Let_def order_id_of_def
        order_message_def order_placed_def fxa_send_if_engine_def fxa_send_message_def order add.commute)
qed

section \<open>Properties\<close>

text \<open>An adapter after logon, with an engine, whose numbers start at one; a quote of its venue; the report that fills the order for it.\<close>

definition sample_codec :: fix_codec where
  "sample_codec = \<lparr> fxk_uuid = (\<lambda>_. ''Q''), fxk_encode = (\<lambda>_ _. Inr []) \<rparr>"

definition sample_fix_config :: fix_mm_config where
  "sample_fix_config = fmc_new ''MM'' (fxc_new ''OTC'' ''MM'')"

definition sample_fix_adapter :: fix_adapter where
  "sample_fix_adapter = fx_on_logon (fxa_with_engine sample_fix_config)"

definition sample_fix_quote :: "int quote" where
  "sample_fix_quote = \<lparr> quote_id = 7, quote_rfq_id = 8, quote_venue_id = ''MM'', quote_price = Price 3, quote_quantity = Quantity 2,
     quote_commission = None, quote_valid_until = 1000, quote_metadata = None, quote_created_at = 0, quote_last_look_required = False \<rparr>"

definition sample_report :: fix_message where
  "sample_report = map_of [(TAG_MSG_TYPE, ''8''), (TAG_CL_ORD_ID, ''ORD-Q-1''), (TAG_ORD_STATUS, ''2''), (TAG_LAST_PX, ''3''), (TAG_LAST_QTY, ''2'')]"

lemmas sample_fix_defs = sample_codec_def sample_fix_config_def sample_fix_adapter_def sample_fix_quote_def fmc_new_def fxc_new_def
  fx_on_logon_def fxa_with_engine_def fxa_new_def

lemma sample_texts: "nat_str (Suc 0) = ''1''" "nat_str 2 = ''2''" "nat_str 3 = ''3''" by code_simp+

lemma parse_samples: "parse_f64 ''3'' = Some (Fin 3)" "parse_f64 ''2'' = Some (Fin 2)"
  using parse_nat_str [of 3] parse_nat_str [of 2] rnd_int [of 3] rnd_int [of 2]
  unfolding sample_texts by (simp_all add: rnd64_def Let_def)

text \<open>
  A FIX venue never quotes: whatever happens while the adapter waits, a request for a quote ends with an error, since a quote that arrives is answered
  with one.
\<close>
theorem fix_never_quotes:
  "fst (fx_request_quote D X K t1 t2 events r a) \<notin> range Inr"
  unfolding fx_request_quote_def Let_def
  by (auto split: prod.split sum.split option.split dest!: wait_refuses)

text \<open>
  C40. An execution over FIX succeeds only for a live quote of this venue while logged on, on a report of this very order that says filled and has a
  valid price; the result carries the quote, the reported price, and the reported quantity or zero; and the order is no longer pending.
\<close>
theorem fix_execution_truthful:
  assumes "fx_execute_trade D X K now t1 t2 events q a = (Inr res, a')"
  shows "may_execute now q a \<and> er_quote_id res = quote_id q \<and> er_venue_id res = quote_venue_id q
    \<and> (\<exists>fresh arrived m. FixMessage fresh arrived m \<in> set events \<and> fills D X (order_id_of K q (fxa_seq_num a)) m res)
    \<and> fxa_pending_orders a' (order_id_of K q (fxa_seq_num a)) = None"
proof -
  let ?i = "order_id_of K q (fxa_seq_num a)" and ?p = "order_placed X K t1 t2 q a"
  have may: "may_execute now q a" and wait: "fix_wait (order_answer ?i) D X events ?p = (Some (Inr res), a')"
    using assms by (auto simp: execute_trade_eq Let_def may_execute_def split: if_splits sum.splits prod.splits option.splits)
  have "fxa_pending_orders ?p ?i = Some (quote_id q)" "fxa_config ?p = fxa_config a" by (simp_all add: order_placed_def)
  then show ?thesis
    using may wait_fills [OF wait] wait_ends [OF wait] by (fastforce simp: may_execute_def)
qed

lemma fix_execution_truthful_witness:
  "\<exists>res a'. fx_execute_trade whole_dec whole_text sample_codec 5 ''t'' ''t'' [FixMessage 9 6 sample_report] sample_fix_quote sample_fix_adapter
      = (Inr res, a') \<and> er_execution_price res = Price 3 \<and> er_quote_id res = 7 \<and> er_venue_id res = ''MM''"
proof -
  obtain res a' where run: "fx_execute_trade whole_dec whole_text sample_codec 5 ''t'' ''t'' [FixMessage 9 6 sample_report] sample_fix_quote
      sample_fix_adapter = (Inr res, a')" and price: "er_execution_price res = Price 3"
    by (simp add: execute_trade_eq order_placed_def order_id_of_def sample_fix_defs sample_report_def sample_texts fx_from_app_def
        fx_handle_execution_report_def fix_price_def parse_samples price_new_def price_from_decimal_def whole_text_def er_new_def
        quote_is_expired_def ts_is_expired_def Let_def)
  from fix_execution_truthful [OF run] run price show ?thesis by (simp add: sample_fix_quote_def)
qed

section \<open>Numbers of messages\<close>

text \<open>A history of requests, executions and callbacks.\<close>

datatype 'd fix_call = AskQuote "'d rfq" string string "fix_event list"
  | ExecuteQuote timestamp "'d quote" string string "fix_event list" | Callback fix_event

fun fix_apply :: "'d dec \<Rightarrow> 'd decimal_text \<Rightarrow> fix_codec \<Rightarrow> 'd fix_call \<Rightarrow> fix_adapter \<Rightarrow> fix_adapter" where
  "fix_apply D X K (AskQuote r t1 t2 es) a = snd (fx_request_quote D X K t1 t2 es r a)"
| "fix_apply D X K (ExecuteQuote now q t1 t2 es) a = snd (fx_execute_trade D X K now t1 t2 es q a)"
| "fix_apply D X K (Callback e) a = snd (fix_step D X e a)"

definition even_numbers :: "fix_adapter \<Rightarrow> bool" where
  "even_numbers a \<longleftrightarrow> odd (unat (fxa_seq_num a))
     \<and> (\<forall>fs\<in>set (fxa_sent a). \<exists>n. even n \<and> map_of fs 34 = Some (nat_str n))"

lemma parity_next:
  assumes "odd (unat (w :: u64))"
  shows "even (unat (w + 1))" "odd (unat (w + 2))"
proof -
  have "even (n mod 2 ^ 64) \<longleftrightarrow> even n" for n :: nat by (simp add: dvd_mod_iff)
  then show "even (unat (w + 1))" "odd (unat (w + 2))"
    using assms by (simp_all add: unat_word_ariths)
qed

text \<open>A request leaves number and messages alone, or takes two numbers and sends at most one message, with the second.\<close>

definition takes_two :: "fix_adapter \<Rightarrow> fix_adapter \<Rightarrow> bool" where
  "takes_two a a' \<longleftrightarrow> fxa_seq_num a' = fxa_seq_num a \<and> fxa_sent a' = fxa_sent a
     \<or> fxa_seq_num a' = fxa_seq_num a + 2 \<and> (fxa_sent a' = fxa_sent a
        \<or> (\<exists>fs. fxa_sent a' = fxa_sent a @ [fs] \<and> map_of fs 34 = Some (nat_str (unat (fxa_seq_num a + 1)))))"

lemma number_of_session_fields: "map_of (session_fields c k n t @ fs) 34 = Some (nat_str (unat n))"
  by (simp add: session_fields_def)

lemma wait_takes_none:
  assumes "fix_wait f D X es b = (r, b')" "takes_two a b"
  shows "takes_two a b'" "takes_two a (b'\<lparr> fxa_pending_orders := P \<rparr>)" "takes_two a (b'\<lparr> fxa_pending_quotes := P \<rparr>)"
  using assms(2) wait_keeps [OF assms(1)] by (auto simp: takes_two_def)

lemma execute_takes_two: "takes_two a (snd (fx_execute_trade D X K now t1 t2 es q a))"
proof -
  have "takes_two a (order_placed X K t1 t2 q a)"
    by (auto simp: takes_two_def order_placed_def order_message_def number_of_session_fields simp del: map_of_append)
  then show ?thesis using wait_takes_none
    by (auto simp: execute_trade_eq Let_def split: sum.split option.split prod.split) (simp_all add: takes_two_def)
qed

lemma request_takes_two: "takes_two a (snd (fx_request_quote D X K t1 t2 es r a))"
proof -
  obtain i where gen: "fxa_generate_id K ''QR-'' (rfq_id r) a = (i, a\<lparr> fxa_seq_num := fxa_seq_num a + 1 \<rparr>)"
    by (simp add: fxa_generate_id_def fxa_next_seq_num_def)
  let ?a = "a\<lparr> fxa_seq_num := fxa_seq_num a + 1, fxa_pending_quotes := (fxa_pending_quotes a)(i \<mapsto> rfq_id r) \<rparr>"
  obtain e b where enc: "encode_quote_request X K t1 t2 r i ?a = (e, b)" by (cases "encode_quote_request X K t1 t2 r i ?a")
  then have b: "fxa_seq_num b = fxa_seq_num a + 2" "fxa_sent b = fxa_sent a"
    and fs: "e = Inr fs \<Longrightarrow> map_of fs 34 = Some (nat_str (unat (fxa_seq_num a + 1)))" for fs
    by (auto simp: encode_quote_request_def fxa_next_seq_num_def Let_def number_of_session_fields simp del: map_of_append
        split: sum.splits)
  have sent: "takes_two a c" if "fxa_send_if_engine fs b = (s, c)" "e = Inr fs" for fs s c
    using that b fs by (auto simp: fxa_send_if_engine_def fxa_send_message_def takes_two_def split: if_splits engine.splits)
  have kept: "takes_two a b" using b by (simp add: takes_two_def)
  have same: "takes_two a a" by (simp add: takes_two_def)
  have "fx_request_quote D X K t1 t2 es r a =
     (if \<not> fmc_enabled (fxa_config a)
      then (Inl (VeVenueUnavailable (fmc_venue_id (fxa_config a)) (Txt ''FIX adapter is disabled'')), a)
      else if fxa_link a \<noteq> LinkLoggedOn then (Inl (not_logged_on a), a)
      else case e of Inl e \<Rightarrow> (Inl e, b)
        | Inr fs \<Rightarrow> (case fxa_send_if_engine fs b of
            (Inl e, a) \<Rightarrow> (Inl e, a)
          | (Inr _, a) \<Rightarrow> (case fix_wait (quote_answer i) D X es a of
              (Some res, a) \<Rightarrow> (res, a)
            | (None, a) \<Rightarrow> (Inl (VeTimeout (Txt ''Quote request timed out'') (Some (fmc_quote_timeout_ms (fxa_config a)))),
                a\<lparr> fxa_pending_quotes := (fxa_pending_quotes a)(i := None) \<rparr>))))"
    using enc by (simp add: fx_request_quote_def gen Let_def)
  moreover have "takes_two a (snd (case e of Inl e \<Rightarrow> (Inl e, b)
        | Inr fs \<Rightarrow> (case fxa_send_if_engine fs b of
            (Inl e, a) \<Rightarrow> (Inl e, a)
          | (Inr _, a) \<Rightarrow> (case fix_wait (quote_answer i) D X es a of
              (Some res, a) \<Rightarrow> (res, a)
            | (None, a) \<Rightarrow> (Inl (VeTimeout (Txt ''Quote request timed out'') (Some (fmc_quote_timeout_ms (fxa_config a)))),
                a\<lparr> fxa_pending_quotes := (fxa_pending_quotes a)(i := None) \<rparr>)))))"
  proof (cases e)
    case (Inr fs)
    obtain s c where send: "(fxa_send_if_engine fs b :: ('a venue_error + unit) \<times> fix_adapter) = (s, c)"
      by (cases "fxa_send_if_engine fs b :: ('a venue_error + unit) \<times> fix_adapter")
    obtain w d where wait: "fix_wait (quote_answer i) D X es c = (w, d)" by (cases "fix_wait (quote_answer i) D X es c")
    note c = sent [OF send Inr]
    show ?thesis using Inr send wait c wait_takes_none [OF wait c] by (cases s; cases w) simp_all
  qed (simp add: kept)
  ultimately show ?thesis using same by simp
qed

lemma even_numbers_step: "even_numbers a \<Longrightarrow> even_numbers (fix_apply D X K c a)"
proof -
  assume even: "even_numbers a"
  have two: "even_numbers a'" if "takes_two a a'" for a'
    using that even parity_next [of "fxa_seq_num a"] by (auto simp: takes_two_def even_numbers_def)
  show ?thesis
  proof (cases c)
    case (Callback e)
    obtain ans b where "fix_step D X e a = (ans, b)" by (cases "fix_step D X e a")
    then show ?thesis using Callback even callbacks_keep by (fastforce simp: even_numbers_def)
  qed (simp_all add: two execute_takes_two request_takes_two)
qed

text \<open>
  The numbers of the messages leave gaps: the counter that numbers the messages also makes the identifiers of requests, so over any history of an adapter
  every message it sends has an even number, and no two of them follow each other.
\<close>
theorem fix_numbers_leave_gaps:
  assumes "fs \<in> set (fxa_sent (fold (fix_apply D X K) cs (fxa_with_engine c)))"
  shows "\<exists>n. even n \<and> map_of fs 34 = Some (nat_str n)"
proof -
  have "even_numbers (fxa_with_engine c)" by (simp add: even_numbers_def fxa_with_engine_def fxa_new_def)
  then have "even_numbers (fold (fix_apply D X K) cs (fxa_with_engine c))"
    by (induction cs arbitrary: c rule: rev_induct) (simp_all add: even_numbers_step)
  then show ?thesis using assms by (simp add: even_numbers_def)
qed

lemma fix_numbers_leave_gaps_witness:
  "\<exists>fs n. fs \<in> set (fxa_sent (fold (fix_apply whole_dec whole_text sample_codec)
      [Callback FixLogon, ExecuteQuote 5 sample_fix_quote ''t'' ''t'' []] (fxa_with_engine sample_fix_config)))
    \<and> even n \<and> map_of fs 34 = Some (nat_str n)"
proof -
  let ?fs = "order_message whole_text sample_codec (fxc_new ''OTC'' ''MM'') ''t'' ''t'' sample_fix_quote 1"
  have "?fs \<in> set (fxa_sent (fold (fix_apply whole_dec whole_text sample_codec)
      [Callback FixLogon, ExecuteQuote 5 sample_fix_quote ''t'' ''t'' []] (fxa_with_engine sample_fix_config)))"
    by (simp add: execute_trade_eq order_placed_def sample_fix_defs quote_is_expired_def ts_is_expired_def Let_def)
  from fix_numbers_leave_gaps [OF this] this show ?thesis by blast
qed

text \<open>
  An order whose message cannot be handed over stays pending for ever: the failure is returned at once, and its entry is left behind.
\<close>
theorem failed_order_stays_pending:
  assumes "may_execute now q a" "fxa_engine a = EngineGone"
  shows "\<exists>e. fst (fx_execute_trade D X K now t1 t2 events q a) = Inl e
    \<and> fxa_pending_orders (snd (fx_execute_trade D X K now t1 t2 events q a)) (order_id_of K q (fxa_seq_num a)) = Some (quote_id q)"
  using assms by (auto simp: execute_trade_eq Let_def may_execute_def split: sum.split)

text \<open>
  An order that is sent for a quote without metadata buys BTC/USD, whatever was asked for: the adapter knows neither the instrument nor the side of the
  RFQ.
\<close>
theorem fix_orders_default:
  assumes "may_execute now q a" "fxa_engine a = EngineRuns" "quote_metadata q = None"
    and "fxk_encode K (fix_version_to_static (fxv_as_str (fxc_fix_version (fmc_session (fxa_config a)))))
      (order_message X K (fmc_session (fxa_config a)) t1 t2 q (fxa_seq_num a)) = Inr bytes"
  shows "\<exists>fs. fxa_sent (snd (fx_execute_trade D X K now t1 t2 events q a)) = fxa_sent a @ [fs]
    \<and> map_of fs TAG_SYMBOL = Some ''BTC/USD'' \<and> map_of fs TAG_SIDE = Some ''1''"
proof -
  let ?p = "order_placed X K t1 t2 q a" and ?i = "order_id_of K q (fxa_seq_num a)"
  obtain r b where wait: "fix_wait (order_answer ?i) D X events ?p = (r, b)" by (cases "fix_wait (order_answer ?i) D X events ?p")
  have "fxa_sent ?p = fxa_sent a @ [order_message X K (fmc_session (fxa_config a)) t1 t2 q (fxa_seq_num a)]"
    using assms(2) by (simp add: order_placed_def)
  moreover have "fxa_sent (snd (fx_execute_trade D X K now t1 t2 events q a)) = fxa_sent ?p"
    using assms(1,2,4) wait wait_keeps [OF wait] by (auto simp: execute_trade_eq Let_def may_execute_def split: option.split)
  ultimately show ?thesis using assms(3)
    by (simp add: order_message_def session_fields_def order_symbol_def order_side_of_def order_side_to_fix_def)
qed

section \<open>The session and its numbers\<close>

text \<open>
  What is documented of the counters: they start at one and are reset to one, and allocating gives the next number and goes on by one.
\<close>

definition sequence_laws :: "('q, 'e) sequence_manager \<Rightarrow> bool" where
  "sequence_laws M \<longleftrightarrow> sqm_next_sender M (sqm_new M) = 1 \<and> (\<forall>q. sqm_next_sender M (sqm_reset M q) = 1)
     \<and> (\<forall>q. sqm_next_sender M q < - 1 \<longrightarrow> (\<exists>q'. sqm_allocate_sender M q = (Inr (sqm_next_sender M q), q')
        \<and> sqm_next_sender M q' = sqm_next_sender M q + 1))"

text \<open>
  A session that resets its numbers on logon sends its first message under the number of the logon again: the numbers are reset when the logon
  is confirmed, after it was sent.
\<close>
theorem logon_number_is_reused:
  assumes "sequence_laws M" "fxc_reset_on_logon c"
  shows "\<exists>s s'. fxs_allocate_sender_seq M (fxs_connect (fxs_new M c)) = (Inr 1, s)
    \<and> fxs_allocate_sender_seq M (fxs_logon_confirmed M (fxs_send_logon s)) = (Inr 1, s') \<and> fxs_is_active s'"
proof -
  have small: "(1 :: u64) < - 1" by (simp add: word_less_nat_alt unsigned_minus_1_eq_mask mask_eq_exp_minus_1)
  obtain q where q: "sqm_allocate_sender M (sqm_new M) = (Inr 1, q)" using assms(1) small unfolding sequence_laws_def by metis
  obtain q' where "sqm_allocate_sender M (sqm_reset M q) = (Inr 1, q')" using assms(1) small unfolding sequence_laws_def by metis
  then show ?thesis using q assms(2)
    by (simp add: fxs_allocate_sender_seq_def fxs_connect_def fxs_new_def fxs_logon_confirmed_def fxs_send_logon_def
        fxs_reset_sequences_def fxs_is_active_def)
qed

end
