(* ===== verification/Fix_Simulator.thy ===== *)
theory Fix_Simulator
  imports Fix_Venue
begin

text \<open>
  The simulator of a market maker that the tests of the FIX adapter talk to, \<open>src/infrastructure/venues/fix_simulator.rs\<close>: it counts and records the
  messages it gets and answers requests for quotes and orders from its configuration. How a float and a time print are parameters, and so
  are the readings of the clock.
\<close>

section \<open>Configuration\<close>

record simulator_config =
  smc_sender_comp_id :: string
  smc_target_comp_id :: string
  smc_bid_price :: f64
  smc_ask_price :: f64
  smc_bid_size :: f64
  smc_ask_size :: f64
  smc_quote_validity_secs :: u64
  smc_latency_ms :: u64
  smc_reject_quotes :: bool
  smc_quote_reject_reason :: "string option"
  smc_reject_orders :: bool
  smc_order_reject_reason :: "string option"
  smc_simulate_timeout :: bool
  smc_simulate_sequence_gap :: bool
  smc_max_recorded_messages :: u64
  smc_recording_enabled :: bool

definition smc_default :: simulator_config where
  "smc_default = \<lparr> smc_sender_comp_id = ''SIMULATOR'', smc_target_comp_id = ''CLIENT'', smc_bid_price = lit 49950,
     smc_ask_price = lit 50050, smc_bid_size = lit 10, smc_ask_size = lit 10, smc_quote_validity_secs = 60, smc_latency_ms = 0,
     smc_reject_quotes = False, smc_quote_reject_reason = None, smc_reject_orders = False, smc_order_reject_reason = None,
     smc_simulate_timeout = False, smc_simulate_sequence_gap = False, smc_max_recorded_messages = 1000,
     smc_recording_enabled = True \<rparr>"

definition smc_new :: "string \<Rightarrow> string \<Rightarrow> simulator_config" where
  "smc_new sender target = smc_default\<lparr> smc_sender_comp_id := sender, smc_target_comp_id := target \<rparr>"

definition smc_with_quote_rejection :: "string \<Rightarrow> simulator_config \<Rightarrow> simulator_config" where
  "smc_with_quote_rejection reason c = c\<lparr> smc_reject_quotes := True, smc_quote_reject_reason := Some reason \<rparr>"

definition smc_with_order_rejection :: "string \<Rightarrow> simulator_config \<Rightarrow> simulator_config" where
  "smc_with_order_rejection reason c = c\<lparr> smc_reject_orders := True, smc_order_reject_reason := Some reason \<rparr>"

definition smc_with_timeout_simulation :: "simulator_config \<Rightarrow> simulator_config" where
  "smc_with_timeout_simulation c = c\<lparr> smc_simulate_timeout := True \<rparr>"

definition smc_with_sequence_gap_simulation :: "simulator_config \<Rightarrow> simulator_config" where
  "smc_with_sequence_gap_simulation c = c\<lparr> smc_simulate_sequence_gap := True \<rparr>"

definition smc_without_recording :: "simulator_config \<Rightarrow> simulator_config" where
  "smc_without_recording c = c\<lparr> smc_recording_enabled := False \<rparr>"

section \<open>Recorded messages\<close>

datatype message_direction = Inbound | Outbound

record recorded_message =
  rcm_timestamp :: timestamp
  rcm_direction :: message_direction
  rcm_msg_type :: string
  rcm_fields :: "fix_field list"
  rcm_seq_num :: u64

definition rcm_new :: "timestamp \<Rightarrow> message_direction \<Rightarrow> string \<Rightarrow> fix_field list \<Rightarrow> u64 \<Rightarrow> recorded_message" where
  "rcm_new now d k fs n = \<lparr> rcm_timestamp = now, rcm_direction = d, rcm_msg_type = k, rcm_fields = fs, rcm_seq_num = n \<rparr>"

text \<open>The first field of a tag.\<close>

definition rcm_get_field :: "recorded_message \<Rightarrow> u32 \<Rightarrow> string option" where
  "rcm_get_field m t = map_of (rcm_fields m) t"

record fix_simulator =
  sim_config :: simulator_config
  sim_running :: bool
  sim_outbound_seq_num :: u64
  sim_inbound_seq_num :: u64
  sim_recorded_messages :: "recorded_message list"
  sim_quote_counter :: u64
  sim_exec_counter :: u64

definition sim_new :: "simulator_config \<Rightarrow> fix_simulator" where
  "sim_new c = \<lparr> sim_config = c, sim_running = False, sim_outbound_seq_num = 1, sim_inbound_seq_num = 1,
     sim_recorded_messages = [], sim_quote_counter = 1, sim_exec_counter = 1 \<rparr>"

definition sim_start :: "fix_simulator \<Rightarrow> fix_simulator" where
  "sim_start s = s\<lparr> sim_running := True \<rparr>"

definition sim_stop :: "fix_simulator \<Rightarrow> fix_simulator" where
  "sim_stop s = s\<lparr> sim_running := False \<rparr>"

definition sim_reset :: "fix_simulator \<Rightarrow> fix_simulator" where
  "sim_reset s = s\<lparr> sim_outbound_seq_num := 1, sim_inbound_seq_num := 1, sim_quote_counter := 1, sim_exec_counter := 1,
     sim_recorded_messages := [] \<rparr>"

text \<open>The counters wrap.\<close>

definition sim_next_outbound_seq_num :: "fix_simulator \<Rightarrow> u64 \<times> fix_simulator" where
  "sim_next_outbound_seq_num s = (sim_outbound_seq_num s, s\<lparr> sim_outbound_seq_num :=
     (if smc_simulate_sequence_gap (sim_config s) then sim_outbound_seq_num s + 2 else sim_outbound_seq_num s + 1) \<rparr>)"

definition sim_next_inbound_seq_num :: "fix_simulator \<Rightarrow> u64 \<times> fix_simulator" where
  "sim_next_inbound_seq_num s = (sim_inbound_seq_num s, s\<lparr> sim_inbound_seq_num := sim_inbound_seq_num s + 1 \<rparr>)"

definition sim_generate_quote_id :: "fix_simulator \<Rightarrow> string \<times> fix_simulator" where
  "sim_generate_quote_id s = (''SIM-Q-'' @ nat_str (unat (sim_quote_counter s)), s\<lparr> sim_quote_counter := sim_quote_counter s + 1 \<rparr>)"

definition sim_generate_exec_id :: "fix_simulator \<Rightarrow> string \<times> fix_simulator" where
  "sim_generate_exec_id s = (''SIM-E-'' @ nat_str (unat (sim_exec_counter s)), s\<lparr> sim_exec_counter := sim_exec_counter s + 1 \<rparr>)"

definition sim_record_message :: "recorded_message \<Rightarrow> fix_simulator \<Rightarrow> fix_simulator" where
  "sim_record_message m s =
     (if \<not> smc_recording_enabled (sim_config s) then s
      else let ms = sim_recorded_messages s;
               kept = (if unat (smc_max_recorded_messages (sim_config s)) \<le> length ms then tl ms else ms) in
        s\<lparr> sim_recorded_messages := kept @ [m] \<rparr>)"

definition sim_get_messages_by_type :: "string \<Rightarrow> fix_simulator \<Rightarrow> recorded_message list" where
  "sim_get_messages_by_type k s = filter (\<lambda>m. rcm_msg_type m = k) (sim_recorded_messages s)"

definition sim_clear_recorded_messages :: "fix_simulator \<Rightarrow> fix_simulator" where
  "sim_clear_recorded_messages s = s\<lparr> sim_recorded_messages := [] \<rparr>"

section \<open>Answers\<close>

text \<open>How floats and times print, and the readings of the clock in the order they are made: when a message arrives, for the expiry, for the time of the
  transaction and when the answer is recorded.\<close>

record sim_text =
  sx_float :: "f64 \<Rightarrow> string"
  sx_time :: "timestamp \<Rightarrow> string"

record sim_clock =
  ck_inbound :: timestamp
  ck_validity :: timestamp
  ck_transact :: timestamp
  ck_outbound :: timestamp

definition field_or :: "fix_field list \<Rightarrow> u32 \<Rightarrow> string \<Rightarrow> string" where
  "field_or fs t other = (case map_of fs t of Some v \<Rightarrow> v | None \<Rightarrow> other)"

definition sim_process_quote_request :: "sim_text \<Rightarrow> sim_clock \<Rightarrow> fix_field list \<Rightarrow> fix_simulator
    \<Rightarrow> (string \<times> fix_field list) option \<times> fix_simulator" where
  "sim_process_quote_request X ck fs s = (case sim_next_inbound_seq_num s of (in_seq, s) \<Rightarrow>
     let s = sim_record_message (rcm_new (ck_inbound ck) Inbound ''R'' fs in_seq) s; c = sim_config s in
     if smc_simulate_timeout c then (None, s)
     else
       let quote_req_id = field_or fs TAG_QUOTE_REQ_ID ''UNKNOWN''; symbol = field_or fs TAG_SYMBOL ''BTC/USD'';
           req_side = field_or fs TAG_SIDE ''1''; order_qty = field_or fs TAG_ORDER_QTY ''1.0'' in
       case sim_next_outbound_seq_num s of (out_seq, s) \<Rightarrow>
       if smc_reject_quotes c then
         let reason = (case smc_quote_reject_reason c of Some r \<Rightarrow> r | None \<Rightarrow> ''Quote request rejected'');
             out = [(TAG_QUOTE_REQ_ID, quote_req_id), (TAG_TEXT, reason)] in
         (Some (''AG'', out), sim_record_message (rcm_new (ck_outbound ck) Outbound ''AG'' out out_seq) s)
       else case sim_generate_quote_id s of (venue_quote_id, s) \<Rightarrow>
         let valid_until = ts_add_secs (ck_validity ck) (sint (smc_quote_validity_secs c));
             price = (if req_side = ''1'' then smc_ask_price c else smc_bid_price c);
             out = [(TAG_QUOTE_REQ_ID, quote_req_id), (TAG_QUOTE_ID, venue_quote_id), (TAG_SYMBOL, symbol), (TAG_SIDE, req_side),
               (TAG_BID_PX, sx_float X (smc_bid_price c)), (TAG_OFFER_PX, sx_float X (smc_ask_price c)),
               (TAG_BID_SIZE, sx_float X (smc_bid_size c)), (TAG_OFFER_SIZE, sx_float X (smc_ask_size c)),
               (TAG_ORDER_QTY, order_qty), (TAG_PRICE, sx_float X price), (TAG_VALID_UNTIL_TIME, sx_time X valid_until),
               (TAG_TRANSACT_TIME, sx_time X (ck_transact ck))] in
         (Some (''S'', out), sim_record_message (rcm_new (ck_outbound ck) Outbound ''S'' out out_seq) s))"

definition sim_process_new_order_single :: "sim_text \<Rightarrow> sim_clock \<Rightarrow> fix_field list \<Rightarrow> fix_simulator
    \<Rightarrow> (string \<times> fix_field list) option \<times> fix_simulator" where
  "sim_process_new_order_single X ck fs s = (case sim_next_inbound_seq_num s of (in_seq, s) \<Rightarrow>
     let s = sim_record_message (rcm_new (ck_inbound ck) Inbound ''D'' fs in_seq) s; c = sim_config s in
     if smc_simulate_timeout c then (None, s)
     else
       let cl_ord_id = field_or fs TAG_CL_ORD_ID ''UNKNOWN''; venue_quote_id = field_or fs TAG_QUOTE_ID ''UNKNOWN'';
           symbol = field_or fs TAG_SYMBOL ''BTC/USD''; order_side = field_or fs TAG_SIDE ''1'';
           order_qty = field_or fs TAG_ORDER_QTY ''1.0''; price = field_or fs TAG_PRICE (sx_float X (smc_ask_price c)) in
       case sim_next_outbound_seq_num s of (out_seq, s) \<Rightarrow>
       case sim_generate_exec_id s of (exec_id, s) \<Rightarrow>
       if smc_reject_orders c then
         let reason = (case smc_order_reject_reason c of Some r \<Rightarrow> r | None \<Rightarrow> ''Order rejected'');
             out = [(TAG_CL_ORD_ID, cl_ord_id), (TAG_EXEC_ID, exec_id), (TAG_EXEC_TYPE, ''8''), (TAG_ORD_STATUS, ''8''),
               (TAG_SYMBOL, symbol), (TAG_SIDE, order_side), (TAG_ORDER_QTY, order_qty), (TAG_TEXT, reason),
               (TAG_TRANSACT_TIME, sx_time X (ck_transact ck))] in
         (Some (''8'', out), sim_record_message (rcm_new (ck_outbound ck) Outbound ''8'' out out_seq) s)
       else
         let out = [(TAG_CL_ORD_ID, cl_ord_id), (TAG_QUOTE_ID, venue_quote_id), (TAG_EXEC_ID, exec_id), (TAG_EXEC_TYPE, ''2''),
               (TAG_ORD_STATUS, ''2''), (TAG_SYMBOL, symbol), (TAG_SIDE, order_side), (TAG_ORDER_QTY, order_qty),
               (TAG_LAST_PX, price), (TAG_LAST_QTY, order_qty), (TAG_TRANSACT_TIME, sx_time X (ck_transact ck))] in
         (Some (''8'', out), sim_record_message (rcm_new (ck_outbound ck) Outbound ''8'' out out_seq) s))"

definition sim_process_message :: "sim_text \<Rightarrow> sim_clock \<Rightarrow> string \<Rightarrow> fix_field list \<Rightarrow> fix_simulator
    \<Rightarrow> (string \<times> fix_field list) option \<times> fix_simulator" where
  "sim_process_message X ck k fs s =
     (if k = ''R'' then sim_process_quote_request X ck fs s
      else if k = ''D'' then sim_process_new_order_single X ck fs s
      else (case sim_next_inbound_seq_num s of (in_seq, s) \<Rightarrow>
        (None, sim_record_message (rcm_new (ck_inbound ck) Inbound k fs in_seq) s)))"

section \<open>Messages of the tests and frames\<close>

definition sim_create_quote_request :: "sim_text \<Rightarrow> timestamp \<Rightarrow> string \<Rightarrow> string \<Rightarrow> string \<Rightarrow> f64 \<Rightarrow> fix_field list" where
  "sim_create_quote_request X now i symbol side_code q = [(TAG_QUOTE_REQ_ID, i), (TAG_SYMBOL, symbol), (TAG_SIDE, side_code),
     (TAG_ORDER_QTY, sx_float X q), (TAG_TRANSACT_TIME, sx_time X now)]"

definition sim_create_new_order_single :: "sim_text \<Rightarrow> timestamp \<Rightarrow> string \<Rightarrow> string \<Rightarrow> string \<Rightarrow> string \<Rightarrow> f64 \<Rightarrow> f64
    \<Rightarrow> fix_field list" where
  "sim_create_new_order_single X now i venue_quote_id symbol side_code q p = [(TAG_CL_ORD_ID, i), (TAG_QUOTE_ID, venue_quote_id),
     (TAG_SYMBOL, symbol), (TAG_SIDE, side_code), (TAG_ORDER_QTY, sx_float X q), (TAG_ORD_TYPE, ''D''), (TAG_PRICE, sx_float X p),
     (TAG_TIME_IN_FORCE, ''4''), (TAG_TRANSACT_TIME, sx_time X now)]"

text \<open>The fields every frame starts with; \<open>sent\<close> is the time it is sent.\<close>

definition sim_session_fields :: "sim_text \<Rightarrow> timestamp \<Rightarrow> string \<Rightarrow> fix_simulator \<Rightarrow> fix_field list \<times> fix_simulator" where
  "sim_session_fields X sent k s = (case sim_next_outbound_seq_num s of (n, s') \<Rightarrow>
     ([(TAG_MSG_TYPE, k), (49, smc_sender_comp_id (sim_config s)), (56, smc_target_comp_id (sim_config s)), (34, nat_str (unat n)),
       (52, sx_time X sent)], s'))"

definition sim_frame :: "fix_codec \<Rightarrow> sim_text \<Rightarrow> timestamp \<Rightarrow> string \<Rightarrow> fix_field list \<Rightarrow> fix_simulator
    \<Rightarrow> (string + string) \<times> fix_simulator" where
  "sim_frame K X sent k body s = (case sim_session_fields X sent k s of (hd_fields, s) \<Rightarrow>
     (fxk_encode K ''FIX.4.4'' (hd_fields @ body), s))"

definition sim_encode_logon :: "fix_codec \<Rightarrow> sim_text \<Rightarrow> timestamp \<Rightarrow> fix_simulator \<Rightarrow> (string + string) \<times> fix_simulator" where
  "sim_encode_logon K X sent s = sim_frame K X sent ''A'' [(98, ''0''), (108, ''30''), (141, ''Y'')] s"

definition sim_encode_logout :: "fix_codec \<Rightarrow> sim_text \<Rightarrow> timestamp \<Rightarrow> string option \<Rightarrow> fix_simulator
    \<Rightarrow> (string + string) \<times> fix_simulator" where
  "sim_encode_logout K X sent t s = sim_frame K X sent ''5'' (push_opt TAG_TEXT t) s"

definition sim_encode_heartbeat :: "fix_codec \<Rightarrow> sim_text \<Rightarrow> timestamp \<Rightarrow> string option \<Rightarrow> fix_simulator
    \<Rightarrow> (string + string) \<times> fix_simulator" where
  "sim_encode_heartbeat K X sent i s = sim_frame K X sent ''0'' (push_opt 112 i) s"

definition sim_encode_test_request :: "fix_codec \<Rightarrow> sim_text \<Rightarrow> timestamp \<Rightarrow> string \<Rightarrow> fix_simulator
    \<Rightarrow> (string + string) \<times> fix_simulator" where
  "sim_encode_test_request K X sent i s = sim_frame K X sent ''1'' [(112, i)] s"

definition sim_encode_quote :: "fix_codec \<Rightarrow> sim_text \<Rightarrow> timestamp \<Rightarrow> sim_clock \<Rightarrow> string \<Rightarrow> string \<Rightarrow> string \<Rightarrow> string \<Rightarrow> string
    \<Rightarrow> fix_simulator \<Rightarrow> (string + string) \<times> fix_simulator" where
  "sim_encode_quote K X sent ck quote_req_id venue_quote_id symbol req_side order_qty s = (let c = sim_config s in
     sim_frame K X sent ''S''
       [(TAG_QUOTE_REQ_ID, quote_req_id), (TAG_QUOTE_ID, venue_quote_id), (TAG_SYMBOL, symbol), (TAG_SIDE, req_side),
        (TAG_BID_PX, sx_float X (smc_bid_price c)), (TAG_OFFER_PX, sx_float X (smc_ask_price c)),
        (TAG_BID_SIZE, sx_float X (smc_bid_size c)), (TAG_OFFER_SIZE, sx_float X (smc_ask_size c)), (TAG_ORDER_QTY, order_qty),
        (TAG_VALID_UNTIL_TIME, sx_time X (ts_add_secs (ck_validity ck) (sint (smc_quote_validity_secs c)))),
        (TAG_TRANSACT_TIME, sx_time X (ck_transact ck))] s)"

definition sim_encode_execution_report_fill :: "fix_codec \<Rightarrow> sim_text \<Rightarrow> timestamp \<Rightarrow> sim_clock \<Rightarrow> string \<Rightarrow> string \<Rightarrow> string
    \<Rightarrow> string \<Rightarrow> string \<Rightarrow> string \<Rightarrow> string \<Rightarrow> fix_simulator \<Rightarrow> (string + string) \<times> fix_simulator" where
  "sim_encode_execution_report_fill K X sent ck cl_ord_id venue_quote_id exec_id symbol order_side order_qty price s = sim_frame K X sent ''8''
     [(TAG_CL_ORD_ID, cl_ord_id), (TAG_QUOTE_ID, venue_quote_id), (TAG_EXEC_ID, exec_id), (TAG_EXEC_TYPE, ''2''), (TAG_ORD_STATUS, ''2''),
      (TAG_SYMBOL, symbol), (TAG_SIDE, order_side), (TAG_ORDER_QTY, order_qty), (TAG_LAST_PX, price), (TAG_LAST_QTY, order_qty),
      (TAG_TRANSACT_TIME, sx_time X (ck_transact ck))] s"

definition sim_encode_execution_report_reject :: "fix_codec \<Rightarrow> sim_text \<Rightarrow> timestamp \<Rightarrow> sim_clock \<Rightarrow> string \<Rightarrow> string \<Rightarrow> string
    \<Rightarrow> string \<Rightarrow> string \<Rightarrow> string \<Rightarrow> fix_simulator \<Rightarrow> (string + string) \<times> fix_simulator" where
  "sim_encode_execution_report_reject K X sent ck cl_ord_id exec_id symbol order_side order_qty reason s = sim_frame K X sent ''8''
     [(TAG_CL_ORD_ID, cl_ord_id), (TAG_EXEC_ID, exec_id), (TAG_EXEC_TYPE, ''8''), (TAG_ORD_STATUS, ''8''), (TAG_SYMBOL, symbol),
      (TAG_SIDE, order_side), (TAG_ORDER_QTY, order_qty), (TAG_TEXT, reason), (TAG_TRANSACT_TIME, sx_time X (ck_transact ck))] s"

section \<open>What the simulator keeps\<close>

lemma record_message_keeps [simp]:
  "sim_config (sim_record_message m s) = sim_config s"
  "sim_outbound_seq_num (sim_record_message m s) = sim_outbound_seq_num s"
  "sim_inbound_seq_num (sim_record_message m s) = sim_inbound_seq_num s"
  "sim_exec_counter (sim_record_message m s) = sim_exec_counter s"
  "sim_quote_counter (sim_record_message m s) = sim_quote_counter s"
  by (simp_all add: sim_record_message_def Let_def)

text \<open>What is recorded stays within the limit, where a limit of zero counts as one: the oldest goes when there is no room.\<close>

definition recorded_bounded :: "fix_simulator \<Rightarrow> bool" where
  "recorded_bounded s \<longleftrightarrow> length (sim_recorded_messages s) \<le> max 1 (unat (smc_max_recorded_messages (sim_config s)))"

lemma record_message_bounded: "recorded_bounded s \<Longrightarrow> recorded_bounded (sim_record_message m s)"
  by (auto simp: recorded_bounded_def sim_record_message_def Let_def)

lemma counters_bounded:
  assumes "recorded_bounded s"
  shows "recorded_bounded (s\<lparr> sim_inbound_seq_num := n \<rparr>)" "recorded_bounded (s\<lparr> sim_outbound_seq_num := n \<rparr>)"
    and "recorded_bounded (s\<lparr> sim_quote_counter := n \<rparr>)" "recorded_bounded (s\<lparr> sim_exec_counter := n \<rparr>)"
  using assms by (simp_all add: recorded_bounded_def)

lemma process_message_bounded:
  assumes "recorded_bounded s"
  shows "recorded_bounded (snd (sim_process_message X ck k fs s))"
  using assms
  by (simp add: sim_process_message_def sim_process_quote_request_def sim_process_new_order_single_def Let_def
      sim_next_inbound_seq_num_def sim_next_outbound_seq_num_def sim_generate_quote_id_def sim_generate_exec_id_def
      record_message_bounded counters_bounded)

section \<open>Properties\<close>

text \<open>A history of messages to a new simulator.\<close>

definition sim_history :: "sim_text \<Rightarrow> (sim_clock \<times> string \<times> fix_field list) list \<Rightarrow> fix_simulator \<Rightarrow> fix_simulator" where
  "sim_history X = fold (\<lambda>(ck, k, fs) s. snd (sim_process_message X ck k fs s))"

text \<open>
  Whatever messages arrive, a simulator keeps no more than its limit of recorded messages, and one message when the limit is zero.
\<close>
theorem simulator_records_bounded:
  "length (sim_recorded_messages (sim_history X ms (sim_new c))) \<le> max 1 (unat (smc_max_recorded_messages c))"
proof -
  have cfg: "sim_config (snd (sim_process_message X ck k fs s)) = sim_config s" for ck k fs s
    by (simp add: sim_process_message_def sim_process_quote_request_def sim_process_new_order_single_def Let_def
        sim_next_inbound_seq_num_def sim_next_outbound_seq_num_def sim_generate_quote_id_def sim_generate_exec_id_def)
  have "recorded_bounded (sim_history X ms s) \<and> sim_config (sim_history X ms s) = sim_config s" if "recorded_bounded s" for s
    using that by (induction ms arbitrary: s) (auto simp: sim_history_def process_message_bounded cfg)
  moreover have "recorded_bounded (sim_new c)" "sim_config (sim_new c) = c" by (simp_all add: recorded_bounded_def sim_new_def)
  ultimately have "recorded_bounded (sim_history X ms (sim_new c))" "sim_config (sim_history X ms (sim_new c)) = c" by metis+
  then show ?thesis by (simp only: recorded_bounded_def)
qed

text \<open>
  The fill that the simulator sends for an order is not a report that the parser of reports accepts, whatever the order: it has no identifier of the order at the
  venue.
\<close>
theorem simulated_fill_is_refused:
  assumes "sim_process_new_order_single X ck fs s = (Some (k, out), s')"
  shows "xr_from_fields D Y (map_of out) = None"
  using assms
  by (auto simp: sim_process_new_order_single_def Let_def sim_next_inbound_seq_num_def sim_next_outbound_seq_num_def
      sim_generate_exec_id_def xr_from_fields_def Option.bind_eq_None_conv split: if_splits)

end
