(* ===== verification/Rest_Handlers.thy ===== *)
theory Rest_Handlers
  imports Fix_Messages Venues Trades Use_Cases Incentives Fees
begin

text \<open>
  The handlers of the REST interface, \<open>src/api/rest/handlers.rs\<close>: pages of lists, and the requests on RFQs, venues, trades, market makers and fees, each with
  the status and error it answers. The repositories are parameters; how identifiers, decimals and times print is a parameter too. Routing and the
  serialization of bodies are left to the web framework.
\<close>

section \<open>Errors\<close>

text \<open>The text of an error, where one that quotes a domain error keeps it.\<close>

datatype 'd rest_text = RestMsg "'d msg" | RestDomain string "'d domain_error" | RestApp "'d application_error"

text \<open>The details are never filled.\<close>

record 'd error_response =
  ersp_code :: string
  ersp_message :: "'d rest_text"

definition ersp_new :: "string \<Rightarrow> 'd rest_text \<Rightarrow> 'd error_response" where
  "ersp_new c m = \<lparr> ersp_code = c, ersp_message = m \<rparr>"

type_synonym 'd rest_error = "nat \<times> 'd error_response"

definition validation_error :: "'d msg \<Rightarrow> 'd rest_error" where
  "validation_error m = (400, ersp_new ''VALIDATION_ERROR'' (RestMsg m))"

definition rest_not_found :: "string \<Rightarrow> string \<Rightarrow> 'd rest_error" where
  "rest_not_found resource i = (404, ersp_new ''NOT_FOUND'' (RestMsg (Fmt ''{resource} not found: {id}'' [ArgStr resource, ArgStr i])))"

definition conflict_error :: "'d rest_text \<Rightarrow> 'd rest_error" where
  "conflict_error m = (409, ersp_new ''CONFLICT'' m)"

definition not_implemented :: "string \<Rightarrow> 'd rest_error" where
  "not_implemented m = (501, ersp_new ''NOT_IMPLEMENTED'' (RestMsg (Txt m)))"

definition internal_error :: "'d msg \<Rightarrow> 'd rest_error" where
  "internal_error m = (500, ersp_new ''INTERNAL_ERROR'' (RestMsg m))"

definition rest_of_application_error :: "'d application_error \<Rightarrow> 'd rest_error" where
  "rest_of_application_error e = (case (case e of
       AppValidation _ \<Rightarrow> (400, ''VALIDATION_ERROR'')
     | AppNotFound _ _ \<Rightarrow> (404, ''NOT_FOUND'') | AppClientNotFound _ \<Rightarrow> (404, ''NOT_FOUND'')
     | AppRfqNotFound _ \<Rightarrow> (404, ''NOT_FOUND'') | AppQuoteNotFound _ \<Rightarrow> (404, ''NOT_FOUND'')
     | AppUnauthorized \<Rightarrow> (401, ''UNAUTHORIZED'')
     | AppQuoteExpired _ \<Rightarrow> (409, ''CONFLICT'') | AppInvalidState _ \<Rightarrow> (409, ''CONFLICT'')
     | AppComplianceFailed _ \<Rightarrow> (403, ''FORBIDDEN'')
     | _ \<Rightarrow> (500, ''INTERNAL_ERROR'')) of (status, c) \<Rightarrow> (status, ersp_new c (RestApp e)))"

section \<open>Pages\<close>

record pagination_params =
  pgp_page :: u32
  pgp_page_size :: u32

definition default_page :: u32 where
  "default_page = 1"

definition default_page_size :: u32 where
  "default_page_size = 20"

text \<open>Both profiles of the build check overflow: the product panics.\<close>

definition pgp_offset :: "pagination_params \<Rightarrow> ('e, u32) outcome" where
  "pgp_offset p = or_panic (w_checked_mul (if pgp_page p = 0 then 0 else pgp_page p - 1) (pgp_page_size p))"

definition pgp_limit :: "pagination_params \<Rightarrow> u32" where
  "pgp_limit p = min (pgp_page_size p) 100"

record pagination_meta =
  pgm_page :: u32
  pgm_page_size :: u32
  pgm_total_items :: u64
  pgm_total_pages :: u32

text \<open>\<open>ceil\<close>, and \<open>as u32\<close>, which saturates and takes NaN to zero.\<close>

fun f_ceil :: "f64 \<Rightarrow> f64" where
  "f_ceil (Fin r) = Fin (of_int \<lceil>r\<rceil>)"
| "f_ceil v = v"

fun f_to_u32 :: "f64 \<Rightarrow> u32" where
  "f_to_u32 (Fin r) = (let n = (if r < 0 then 0 else \<lfloor>r\<rfloor>) in if n < 2 ^ 32 then word_of_int n else - 1)"
| "f_to_u32 (Inf neg) = (if neg then 0 else - 1)"
| "f_to_u32 NaN = 0"

definition pgm_new :: "u32 \<Rightarrow> u32 \<Rightarrow> u64 \<Rightarrow> pagination_meta" where
  "pgm_new page page_sz n = \<lparr> pgm_page = page, pgm_page_size = page_sz, pgm_total_items = n,
     pgm_total_pages = (if n = 0 then 1
       else f_to_u32 (f_ceil (f_div (f_of_u64 n) (rnd64 (of_nat (unat page_sz)))))) \<rparr>"

record 'a paginated_response =
  pgr_data :: "'a list"
  pgr_pagination :: pagination_meta

text \<open>The lines that both lists share.\<close>

definition paginate :: "pagination_params \<Rightarrow> ('b \<Rightarrow> 'a) \<Rightarrow> 'b list \<Rightarrow> ('e, 'a paginated_response) outcome" where
  "paginate p f items =
     (let count = of_nat (length items) in
      obind (pgp_offset p) (\<lambda>off.
        Ret \<lparr> pgr_data = map f (take (unat (pgp_limit p)) (drop (unat off) items)),
              pgr_pagination = pgm_new (pgp_page p) (pgp_limit p) count \<rparr>))"

section \<open>What the responses show\<close>

record 'd rest_print =
  rtx_uuid :: "uuid \<Rightarrow> string"
  rtx_dec :: "'d \<Rightarrow> string"
  rtx_time :: "timestamp \<Rightarrow> string"
  rtx_iso8601 :: "timestamp \<Rightarrow> string"
  rtx_parse_uuid :: "string \<Rightarrow> uuid option"

record rest_rfq =
  rrf_id :: string
  rrf_client_id :: string
  rrf_symbol :: string
  rrf_side :: order_side
  rrf_quantity :: string
  rrf_state :: rfq_state
  rrf_expires_at :: string
  rrf_quote_count :: nat
  rrf_created_at :: string
  rrf_updated_at :: string

definition rrf_of :: "'d rest_print \<Rightarrow> 'd rfq \<Rightarrow> rest_rfq" where
  "rrf_of X r = \<lparr> rrf_id = rtx_uuid X (rfq_id r), rrf_client_id = rfq_client_id r, rrf_symbol = sym_value (ins_symbol (rfq_instrument r)),
     rrf_side = rfq_side r, rrf_quantity = rtx_dec X (quantity_get (rfq_quantity r)), rrf_state = rfq_state r,
     rrf_expires_at = rtx_time X (rfq_expires_at r), rrf_quote_count = length (rfq_quotes r),
     rrf_created_at = rtx_time X (rfq_created_at r), rrf_updated_at = rtx_time X (rfq_updated_at r) \<rparr>"

record rest_venue =
  rvn_id :: string
  rvn_name :: string
  rvn_venue_type :: venue_type
  rvn_enabled :: bool
  rvn_health :: venue_health
  rvn_supported_instruments :: nat

definition rvn_of :: "'d venue \<Rightarrow> rest_venue" where
  "rvn_of v = \<lparr> rvn_id = vn_id v, rvn_name = vn_name v, rvn_venue_type = vn_venue_type v, rvn_enabled = vn_enabled v,
     rvn_health = vn_health v, rvn_supported_instruments = length (vn_supported_instruments v) \<rparr>"

definition ss_display :: "settlement_state \<Rightarrow> string" where
  "ss_display s = (case s of SsPending \<Rightarrow> ''PENDING'' | SsInProgress \<Rightarrow> ''IN_PROGRESS'' | SsSettled \<Rightarrow> ''SETTLED'' | SsFailed \<Rightarrow> ''FAILED'')"

record rest_trade =
  rtr_id :: string
  rtr_rfq_id :: string
  rtr_quote_id :: string
  rtr_venue_id :: string
  rtr_price :: string
  rtr_quantity :: string
  rtr_settlement_state :: string
  rtr_created_at :: string

definition rtr_of :: "'d rest_print \<Rightarrow> 'd trade \<Rightarrow> rest_trade" where
  "rtr_of X t = \<lparr> rtr_id = rtx_uuid X (trade_id t), rtr_rfq_id = rtx_uuid X (trade_rfq_id t), rtr_quote_id = rtx_uuid X (trade_quote_id t),
     rtr_venue_id = trade_venue_id t, rtr_price = rtx_dec X (price_get (trade_price t)),
     rtr_quantity = rtx_dec X (quantity_get (trade_quantity t)), rtr_settlement_state = ss_display (trade_settlement_state t),
     rtr_created_at = rtx_time X (trade_created_at t) \<rparr>"

record rest_performance =
  rpf_mm_id :: string
  rpf_response_rate_pct :: "f64 option"
  rpf_avg_response_time_ms :: "f64 option"
  rpf_quote_to_trade_pct :: "f64 option"
  rpf_competitiveness_score :: "f64 option"
  rpf_reject_rate_pct :: "f64 option"
  rpf_total_rfqs_received :: u64
  rpf_total_quotes_provided :: u64
  rpf_total_trades_executed :: u64
  rpf_window_start :: string
  rpf_window_end :: string

definition rpf_of :: "'d rest_print \<Rightarrow> mm_metrics \<Rightarrow> rest_performance" where
  "rpf_of X m = \<lparr> rpf_mm_id = mmm_mm_id m, rpf_response_rate_pct = mmm_response_rate_pct m,
     rpf_avg_response_time_ms = mmm_avg_response_time_ms m, rpf_quote_to_trade_pct = mmm_quote_to_trade_pct m,
     rpf_competitiveness_score = mmm_competitiveness_score m, rpf_reject_rate_pct = mmm_reject_rate_pct m,
     rpf_total_rfqs_received = mmm_total_rfqs_received m, rpf_total_quotes_provided = mmm_total_quotes_provided m,
     rpf_total_trades_executed = mmm_total_trades_executed m, rpf_window_start = rtx_iso8601 X (mmm_window_start m),
     rpf_window_end = rtx_iso8601 X (mmm_window_end m) \<rparr>"

definition it_display :: "incentive_tier \<Rightarrow> string" where
  "it_display t = (case t of Bronze \<Rightarrow> ''BRONZE'' | Silver \<Rightarrow> ''SILVER'' | Gold \<Rightarrow> ''GOLD'' | Platinum \<Rightarrow> ''PLATINUM'')"

record rest_penalty =
  rpn_has_penalty :: bool
  rpn_capacity_reduced :: bool
  rpn_tier_downgraded :: bool
  rpn_reason :: "penalty_reason list option"

record rest_incentive =
  ric_mm_id :: string
  ric_current_tier :: string
  ric_rebate_rate_bps :: string
  ric_monthly_volume_usd :: string
  ric_volume_to_next_tier_usd :: "string option"
  ric_next_tier :: "string option"
  ric_current_period_rebates_usd :: string
  ric_penalty_status :: rest_penalty
  ric_computed_at :: string

definition ric_of :: "'d rest_print \<Rightarrow> 'd mm_incentive_status \<Rightarrow> rest_incentive" where
  "ric_of X s = (let p = mis_penalty_result s in
     \<lparr> ric_mm_id = mis_mm_id s, ric_current_tier = it_display (mis_current_tier s), ric_rebate_rate_bps = rtx_dec X (mis_rebate_rate_bps s),
       ric_monthly_volume_usd = rtx_dec X (mis_monthly_volume_usd s),
       ric_volume_to_next_tier_usd = map_option (rtx_dec X) (mis_volume_to_next_tier_usd s),
       ric_next_tier = map_option it_display (mis_next_tier s),
       ric_current_period_rebates_usd = rtx_dec X (mis_current_period_rebates_usd s),
       ric_penalty_status = \<lparr> rpn_has_penalty = pn_has_penalty p, rpn_capacity_reduced = pn_should_reduce_capacity p,
         rpn_tier_downgraded = pn_should_downgrade_tier p, rpn_reason = pn_reason p \<rparr>,
       ric_computed_at = rtx_iso8601 X (mis_computed_at s) \<rparr>)"

section \<open>Requests\<close>

record rest_create_request =
  rcq_client_id :: string
  rcq_base_asset :: string
  rcq_quote_asset :: string
  rcq_side :: order_side
  rcq_quantity :: f64
  rcq_expiry_seconds :: u64

record rfq_filter =
  rfl_client_id :: "string option"
  rfl_state :: "rfq_state option"
  rfl_base_asset :: "string option"
  rfl_quote_asset :: "string option"

record update_venue_request =
  uvr_enabled :: "bool option"
  uvr_priority :: "u32 option"

record trade_filter =
  tfl_rfq_id :: "string option"
  tfl_venue_id :: "string option"

text \<open>\<open>is_none_or\<close>.\<close>

definition none_or :: "'a option \<Rightarrow> ('a \<Rightarrow> bool) \<Rightarrow> bool" where
  "none_or v f = (case v of None \<Rightarrow> True | Some a \<Rightarrow> f a)"

definition rfl_matches :: "rfq_filter \<Rightarrow> 'd rfq \<Rightarrow> bool" where
  "rfl_matches f r \<longleftrightarrow> none_or (rfl_client_id f) (\<lambda>i. rfq_client_id r = i) \<and> none_or (rfl_state f) (\<lambda>s. rfq_state r = s)
     \<and> none_or (rfl_base_asset f) (\<lambda>a. base_asset (ins_symbol (rfq_instrument r)) = a)
     \<and> none_or (rfl_quote_asset f) (\<lambda>a. quote_asset (ins_symbol (rfq_instrument r)) = a)"

text \<open>
  What the handlers share. The trackers and engines are those of the domain, the tracker over the in-memory store with its window in days; \<open>order\<close> is that of
  its hash map.
\<close>

record ('x, 'd) app_state =
  aps_rfq_save :: "'d rfq \<Rightarrow> ('x, 'd msg, unit) op"
  aps_rfq_find :: "uuid \<Rightarrow> ('x, 'd msg, 'd rfq option) op"
  aps_venue_find_all :: "('x, 'd msg, 'd venue list) op"
  aps_venue_find :: "venue_id \<Rightarrow> ('x, 'd msg, 'd venue option) op"
  aps_venue_save :: "'d venue \<Rightarrow> ('x, 'd msg, unit) op"
  aps_trade_find_all :: "trade_filter \<Rightarrow> ('x, 'd msg, 'd trade list) op"
  aps_trade_find :: "uuid \<Rightarrow> ('x, 'd msg, 'd trade option) op"
  aps_mm_performance_tracker :: "(u32 \<times> mm_store) option"
  aps_mm_incentive_service :: "(u32 \<times> 'd incentive_config \<times> mm_store) option"
  aps_fee_engine :: "'d fee_engine option"

section \<open>RFQs\<close>

definition parse_rfq_id :: "'d rest_print \<Rightarrow> string \<Rightarrow> 'd rest_error + uuid" where
  "parse_rfq_id X i = ok_or (validation_error (Fmt ''invalid RFQ ID: {id}'' [ArgStr i])) (rtx_parse_uuid X i)"

definition parse_trade_id :: "'d rest_print \<Rightarrow> string \<Rightarrow> 'd rest_error + uuid" where
  "parse_trade_id X i = ok_or (validation_error (Fmt ''invalid Trade ID: {id}'' [ArgStr i])) (rtx_parse_uuid X i)"

definition validate_create_rfq_request :: "rest_create_request \<Rightarrow> 'd rest_error + unit" where
  "validate_create_rfq_request q =
     (if rcq_client_id q = [] then Inl (validation_error (Txt ''client_id cannot be empty''))
      else if rcq_base_asset q = [] then Inl (validation_error (Txt ''base_asset cannot be empty''))
      else if rcq_quote_asset q = [] then Inl (validation_error (Txt ''quote_asset cannot be empty''))
      else if f_le (rcq_quantity q) (lit 0) then Inl (validation_error (Txt ''quantity must be positive''))
      else if rcq_expiry_seconds q = 0 then Inl (validation_error (Txt ''expiry_seconds must be greater than 0''))
      else Inr ())"

text \<open>A placeholder of the code: there is nothing to list.\<close>

definition fetch_all_rfqs :: "'d rest_error + 'd rfq list" where
  "fetch_all_rfqs = Inr []"

definition rest_list_rfqs :: "'d rest_print \<Rightarrow> pagination_params \<Rightarrow> rfq_filter \<Rightarrow> ('d rest_error, rest_rfq paginated_response) outcome" where
  "rest_list_rfqs X p f = obind (of_result fetch_all_rfqs) (\<lambda>all_rfqs.
     paginate p (rrf_of X) (filter (rfl_matches f) all_rfqs))"

definition found :: "'d rest_error \<Rightarrow> ('x, 'd msg, 'a option) op \<Rightarrow> ('x, 'd rest_error, 'a) op" where
  "found e m = op_then (map_err internal_error m) (\<lambda>v. lift_result (ok_or e v))"

definition rest_get_rfq :: "'d rest_print \<Rightarrow> ('x, 'd) app_state \<Rightarrow> string \<Rightarrow> ('x, 'd rest_error, rest_rfq) op" where
  "rest_get_rfq X E i =
     op_then (lift_result (parse_rfq_id X i)) (\<lambda>rid.
     op_then (found (rest_not_found ''RFQ'' i) (aps_rfq_find E rid)) (\<lambda>r. op_ret (rrf_of X r)))"

text \<open>\<open>now_expiry\<close> and \<open>now_build\<close> are the two readings of the clock, \<open>fresh\<close> the identifier drawn.\<close>

definition rest_create_rfq :: "'d dec \<Rightarrow> (f64 \<Rightarrow> 'd option) \<Rightarrow> 'd rest_print \<Rightarrow> ('x, 'd) app_state \<Rightarrow> uuid \<Rightarrow> timestamp \<Rightarrow> timestamp
    \<Rightarrow> rest_create_request \<Rightarrow> ('x, 'd rest_error, nat \<times> rest_rfq) op" where
  "rest_create_rfq D F X E fresh now_expiry now_build q =
     op_then (lift_result (validate_create_rfq_request q)) (\<lambda>_.
     op_then (map_err (\<lambda>e. validation_error (Fmt ''invalid symbol: {e}'' [ArgMsg (sym_error_display e)]))
         (lift_result (symbol_new (rcq_base_asset q @ ''/'' @ rcq_quote_asset q)))) (\<lambda>symbol.
     op_then (map_err (\<lambda>e. validation_error (Fmt ''invalid quantity: {e}'' [ArgMsg (arith_error_display e)]))
         (lift_result (quantity_new_f64 D F (rcq_quantity q)))) (\<lambda>quantity.
       let r = rb_build fresh now_build (rb_new (rcq_client_id q) (instrument_default_build symbol CryptoSpot) (rcq_side q) quantity
             (ts_add_secs now_expiry (sint (rcq_expiry_seconds q)))) in
       op_then (map_err internal_error (aps_rfq_save E r)) (\<lambda>_. op_ret (201, rrf_of X r)))))"

definition rest_cancel_rfq :: "'d rest_print \<Rightarrow> ('x, 'd) app_state \<Rightarrow> timestamp \<Rightarrow> string \<Rightarrow> ('x, 'd rest_error, rest_rfq) op" where
  "rest_cancel_rfq X E now i =
     op_then (lift_result (parse_rfq_id X i)) (\<lambda>rid.
     op_then (found (rest_not_found ''RFQ'' i) (aps_rfq_find E rid)) (\<lambda>r.
       (case rfq_cancel now r of
          (Inl e, _) \<Rightarrow> op_fail (conflict_error (RestDomain ''cannot cancel RFQ: {e}'' e))
        | (Inr _, r') \<Rightarrow> op_then (map_err internal_error (aps_rfq_save E r')) (\<lambda>_. op_ret (rrf_of X r')))))"

section \<open>Venues and trades\<close>

definition rest_list_venues :: "('x, 'd) app_state \<Rightarrow> ('x, 'd rest_error, rest_venue list) op" where
  "rest_list_venues E = op_then (map_err internal_error (aps_venue_find_all E)) (\<lambda>vs. op_ret (map rvn_of vs))"

text \<open>The priority is read and ignored.\<close>

definition rest_update_venue :: "('x, 'd) app_state \<Rightarrow> timestamp \<Rightarrow> string \<Rightarrow> update_venue_request \<Rightarrow> ('x, 'd rest_error, rest_venue) op" where
  "rest_update_venue E now i q =
     op_then (found (rest_not_found ''Venue'' i) (aps_venue_find E i)) (\<lambda>v.
       let v = (case uvr_enabled q of Some b \<Rightarrow> vn_set_enabled now b v | None \<Rightarrow> v) in
       op_then (map_err internal_error (aps_venue_save E v)) (\<lambda>_. op_ret (rvn_of v)))"

definition rest_list_trades :: "'d rest_print \<Rightarrow> ('x, 'd) app_state \<Rightarrow> pagination_params \<Rightarrow> trade_filter
    \<Rightarrow> ('x, 'd rest_error, rest_trade paginated_response) pop" where
  "rest_list_trades X E p f x = (case aps_trade_find_all E f x of
       (Inl e, x) \<Rightarrow> (Err (internal_error e), x)
     | (Inr ts, x) \<Rightarrow> (paginate p (rtr_of X) ts, x))"

definition rest_get_trade :: "'d rest_print \<Rightarrow> ('x, 'd) app_state \<Rightarrow> string \<Rightarrow> ('x, 'd rest_error, rest_trade) op" where
  "rest_get_trade X E i =
     op_then (lift_result (parse_trade_id X i)) (\<lambda>tid.
     op_then (found (rest_not_found ''Trade'' i) (aps_trade_find E tid)) (\<lambda>t. op_ret (rtr_of X t)))"

section \<open>Market makers and fees\<close>

definition rest_list_mm_performance :: "'d rest_print \<Rightarrow> ('x, 'd) app_state \<Rightarrow> counterparty_id list \<Rightarrow> timestamp \<Rightarrow> f64 option
    \<Rightarrow> 'd rest_error + rest_performance list" where
  "rest_list_mm_performance X E order now min_response_rate = (case aps_mm_performance_tracker E of
       None \<Rightarrow> Inl (not_implemented ''mm performance tracker not configured'')
     | Some (days, S) \<Rightarrow> Inr (map (rpf_of X) (filter (\<lambda>m. none_or min_response_rate (\<lambda>least.
         case mmm_response_rate_pct m of Some rate \<Rightarrow> f_le least rate | None \<Rightarrow> False)) (mpt_get_all_metrics days now order S))))"

definition rest_get_mm_performance :: "'d rest_print \<Rightarrow> ('x, 'd) app_state \<Rightarrow> timestamp \<Rightarrow> string \<Rightarrow> 'd rest_error + rest_performance" where
  "rest_get_mm_performance X E now m =
     (if m = [] then Inl (validation_error (Txt ''mm_id cannot be empty''))
      else case aps_mm_performance_tracker E of
        None \<Rightarrow> Inl (not_implemented ''mm performance tracker not configured'')
      | Some (days, S) \<Rightarrow> (let metrics = mpt_get_metrics days now m S in
          if \<not> mmm_has_data metrics then Inl (rest_not_found ''market maker'' m) else Inr (rpf_of X metrics)))"

definition rest_get_mm_incentive_status :: "'d dec \<Rightarrow> 'd rest_print \<Rightarrow> ('x, 'd) app_state \<Rightarrow> timestamp \<Rightarrow> timestamp \<Rightarrow> string
    \<Rightarrow> 'd rest_error + rest_incentive" where
  "rest_get_mm_incentive_status D X E now_metrics now m =
     (if m = [] then Inl (validation_error (Txt ''mm_id cannot be empty''))
      else case aps_mm_incentive_service E of
        None \<Rightarrow> Inl (not_implemented ''mm incentive service not configured'')
      | Some (days, c, S) \<Rightarrow> (case mis_get_status D days c now_metrics now m S of
          Inl (MmNotFound _) \<Rightarrow> Inl (rest_not_found ''market maker'' m)
        | Inr s \<Rightarrow> Inr (ric_of X s)))"

definition rest_get_fee_schedule :: "('x, 'd) app_state \<Rightarrow> 'd rest_error + fee_schedule" where
  "rest_get_fee_schedule E = (case aps_fee_engine E of
       None \<Rightarrow> Inl (not_implemented ''fee engine not configured'') | Some e \<Rightarrow> Inr (fe_schedule e))"

text \<open>The counterparty is ignored.\<close>

definition rest_get_counterparty_fee_schedule :: "('x, 'd) app_state \<Rightarrow> string \<Rightarrow> 'd rest_error + fee_schedule" where
  "rest_get_counterparty_fee_schedule E counterparty = (case aps_fee_engine E of
       None \<Rightarrow> Inl (not_implemented ''fee engine not configured'') | Some e \<Rightarrow> Inr (fe_schedule e))"

section \<open>The number of pages\<close>

text \<open>Multiples of \<open>1 / 128\<close> of at most 53 bits are exact.\<close>

lemma rnd_dyadic:
  assumes "\<bar>n\<bar> < 2 ^ 53"
  shows "rnd (of_int n / 128) = of_int n / 128"
proof (cases "n = 0")
  case False
  let ?x = "of_int n / 128 :: rat"
  have "2 powi binexp \<bar>?x\<bar> \<le> \<bar>?x\<bar>" using False by (intro binexp_bounds) simp
  also have "\<dots> < 2 powi 46"
  proof -
    have "(of_int \<bar>n\<bar> :: rat) < of_int (2 ^ 53)" using assms by (simp only: of_int_less_iff)
    then show ?thesis by simp
  qed
  finally have less: "(2 :: rat) powi binexp \<bar>?x\<bar> < 2 powi 46" .
  have "binexp \<bar>?x\<bar> < 46"
    by (rule ccontr) (use less power_int_increasing [of 46 "binexp \<bar>?x\<bar>" "2 :: rat"] in simp)
  then have u: "0 \<le> - 7 - unit_exp ?x" by (simp add: unit_exp_def)
  obtain k where k: "(2 :: rat) powi (- 7 - unit_exp ?x) = of_int k" using powi_int_multiple [OF u] by auto
  have split: "(2 :: rat) powi (- 7 - unit_exp ?x) = 1 / 128 / 2 powi unit_exp ?x"
    by (subst power_int_diff) (simp_all add: power_int_minus)
  have exact: "?x / 2 powi unit_exp ?x = of_int (n * k)"
    unfolding of_int_mult k [symmetric] split by simp
  then have "rnd ?x = of_int (n * k) * 2 powi unit_exp ?x" using False exact
    by (simp add: rnd_def del: of_int_mult)
  also have "\<dots> = ?x" unfolding of_int_mult k [symmetric] split by simp
  finally show ?thesis .
qed simp

lemma page_count:
  fixes n s :: nat
  assumes "0 < s"
  defines "m \<equiv> (n + s - 1) div s"
  shows "n \<le> m * s" "m * s < n + s" "m \<le> n"
proof -
  have "(n + s - 1) mod s < s" using assms(1) by simp
  moreover have "m * s + (n + s - 1) mod s + 1 = n + s" using div_mult_mod_eq [of "n + s - 1" s] assms(1) unfolding m_def by linarith
  ultimately show m: "n \<le> m * s" "m * s < n + s" by linarith+
  show "m \<le> n"
  proof (cases "n = 0")
    case False
    have "(m - 1) * s < n" using m(2) False by (simp add: diff_mult_distrib)
    moreover have "m - 1 \<le> (m - 1) * s" using assms(1) by simp
    ultimately show ?thesis by linarith
  qed (use m(2) in simp)
qed

text \<open>A quotient by at most 100 is not rounded across a whole number.\<close>

lemma ceiling_rnd_quotient:
  fixes n s :: nat
  assumes "0 < s" "s \<le> 100" "n < 2 ^ 32"
  shows "\<lceil>rnd (of_nat n / of_nat s)\<rceil> = int ((n + s - 1) div s)"
proof -
  let ?q = "of_nat n / of_nat s :: rat" and ?m = "(n + s - 1) div s"
  note m = page_count [OF assms(1), of n]
  from m(3) have "?m \<le> n" .
  then have small: "int ?m < 2 ^ 32" using assms(3) by (simp flip: of_nat_less_iff)
  have "?q \<le> of_nat ?m" using m(1) assms(1) by (simp add: field_simps flip: of_nat_mult)
  then have up: "rnd ?q \<le> of_int (int ?m)" using rnd_mono [of ?q "of_int (int ?m)"] rnd_int [of "int ?m"] small by simp
  have "of_int (int ?m) - 1 < rnd ?q"
  proof (cases "n = 0")
    case False
    have "of_int (128 * int ?m - 127) / 128 \<le> ?q"
    proof -
      have "?m * s + 1 \<le> n + s" using m(2) by simp
      then have "(of_nat (?m * s + 1) :: rat) \<le> of_nat (n + s)" by (simp only: of_nat_le_iff)
      then have a: "of_nat ?m * of_nat s + 1 \<le> (of_nat n + of_nat s :: rat)" by simp
      have b: "(of_nat s :: rat) \<le> 100" using assms(2) by (metis of_nat_le_iff of_nat_numeral)
      have "(of_nat ?m - 127 / 128) * of_nat s \<le> (of_nat n :: rat)" using a b by (simp add: algebra_simps)
      then have "of_nat ?m - 127 / 128 \<le> ?q" using assms(1) by (simp add: pos_le_divide_eq)
      then show ?thesis by (simp add: diff_divide_distrib)
    qed
    moreover have "rnd (of_int (128 * int ?m - 127) / 128) = of_int (128 * int ?m - 127) / 128"
      using small by (intro rnd_dyadic) auto
    ultimately have "of_int (128 * int ?m - 127) / 128 \<le> rnd ?q" using rnd_mono by metis
    then show ?thesis by (simp add: diff_divide_distrib)
  qed (use assms(1) in simp)
  with up show ?thesis by (intro ceiling_unique) simp_all
qed


lemma rnd64_nat:
  assumes "n < 2 ^ 53"
  shows "rnd64 (of_nat n) = Fin (of_nat n)"
proof -
  have "(of_nat n :: rat) < of_nat (2 ^ 53)" using assms by (simp only: of_nat_less_iff)
  then have "\<bar>of_nat n :: rat\<bar> < 2 ^ 1024" by simp
  moreover have "rnd (of_nat n) = of_nat n" using rnd_int [of "int n"] assms by simp
  ultimately show ?thesis by (simp add: rnd64_def Let_def)
qed

lemma total_pages_eq:
  fixes s :: u32
  assumes "0 < s" "s \<le> 100" "0 < n" "n < 2 ^ 32"
  shows "unat (pgm_total_pages (pgm_new p s (of_nat n))) = (n + unat s - 1) div unat s"
proof -
  let ?m = "(n + unat s - 1) div unat s" and ?q = "of_nat n / of_nat (unat s) :: rat"
  have s: "0 < unat s" "unat s \<le> 100" using assms(1,2) by (simp_all add: word_less_nat_alt word_le_nat_alt unat_gt_0)
  have n64: "unat (of_nat n :: u64) = n" using assms(4) by (intro unat_of_nat_small) simp
  then have nz: "(of_nat n :: u64) \<noteq> 0" using assms(3) by auto
  have top: "f_of_u64 (of_nat n) = Fin (of_nat n)"
    using rnd64_nat [of n] assms(4) n64 by (simp add: f_of_u64_def uint_nat)
  have bottom: "rnd64 (of_nat (unat s)) = Fin (of_nat (unat s))"
    by (rule rnd64_nat) (use s(2) in simp)
  have ceil: "\<lceil>rnd ?q\<rceil> = int ?m" by (rule ceiling_rnd_quotient [OF s assms(4)])
  have "?m \<le> n" by (rule page_count [OF s(1)])
  then have small: "int ?m < 2 ^ 32" using assms(4) by (simp flip: of_nat_less_iff)
  have "rnd ?q \<le> of_int (int ?m)" using ceil le_of_int_ceiling [of "rnd ?q"] by simp
  moreover have "0 \<le> rnd ?q" by (rule rnd_nonneg, rule divide_nonneg_nonneg) (rule of_nat_0_le_iff)+
  moreover have "(of_int (int ?m) :: rat) < of_int (2 ^ 32)" using small by (simp only: of_int_less_iff)
  ultimately have "rnd64 ?q = Fin (rnd ?q)" by (simp add: rnd64_def Let_def)
  moreover have "(unsigned s :: rat) \<noteq> 0" using s(1) by (metis of_nat_eq_0_iff of_nat_unat less_irrefl)
  ultimately show ?thesis
    using nz top bottom ceil small s(1) by (simp add: pgm_new_def Let_def unat_of_nat_small)
qed

section \<open>Properties\<close>

lemma concat_pages: "concat (map (\<lambda>k. take s (drop (k * s) xs)) [0..<N]) = take (N * s) xs"
proof (induction N)
  case (Suc N)
  have "take (Suc N * s) xs = take (N * s) xs @ take s (drop (N * s) xs)" using take_add [of "N * s" s xs] by (simp add: add.commute)
  with Suc show ?case by simp
qed simp

text \<open>
  C31. The pages of a list, asked for in turn with a size of at most 100, are all returned without a panic, each tells the number of pages, and together they
  show every item once and in order.
\<close>
theorem pages_cover_all:
  fixes s :: u32
  assumes "0 < s" "s \<le> 100" "length items < 2 ^ 32"
  shows "\<exists>pages. concat pages = map f items \<and> (\<forall>k < length pages.
      paginate \<lparr> pgp_page = of_nat (Suc k), pgp_page_size = s \<rparr> f items = (Ret \<lparr> pgr_data = pages ! k,
        pgr_pagination = \<lparr> pgm_page = of_nat (Suc k), pgm_page_size = s, pgm_total_items = of_nat (length items),
          pgm_total_pages = of_nat (length pages) \<rparr> \<rparr> :: ('e, 'a paginated_response) outcome))"
proof -
  let ?n = "length items"
  define N where "N = (if ?n = 0 then 1 else (?n + unat s - 1) div unat s)"
  define pages where "pages = map (\<lambda>k. map f (take (unat s) (drop (k * unat s) items))) [0..<N]"
  have s: "0 < unat s" "unat s \<le> 100" using assms(1,2) by (simp_all add: word_less_nat_alt word_le_nat_alt unat_gt_0)
  have N: "?n \<le> N * unat s" "(N - 1) * unat s \<le> ?n" "N < 2 ^ 32"
    using page_count [OF s(1), of ?n] assms(3) s by (auto simp: N_def diff_mult_distrib)
  have "concat pages = map f items"
    using N(1) arg_cong [OF concat_pages [of "unat s" items N], of "map f"] by (simp add: pages_def map_concat comp_def)
  moreover have "paginate \<lparr> pgp_page = of_nat (Suc k), pgp_page_size = s \<rparr> f items = (Ret \<lparr> pgr_data = pages ! k,
        pgr_pagination = \<lparr> pgm_page = of_nat (Suc k), pgm_page_size = s, pgm_total_items = of_nat (length items),
          pgm_total_pages = of_nat (length pages) \<rparr> \<rparr> :: ('e, 'a paginated_response) outcome)" if "k < length pages" for k
  proof -
    have k: "k < N" using that by (simp add: pages_def)
    then have "k * unat s \<le> (N - 1) * unat s" by (intro mult_le_mono1) simp
    then have off: "k * unat s < 2 ^ 32" using N(2) assms(3) by linarith
    have kw: "unat (of_nat k :: u32) = k" "(of_nat (Suc k) :: u32) \<noteq> 0"
      using k N(3) unat_of_nat_small [of k, where 'w = 32] unat_of_nat_small [of "Suc k", where 'w = 32] by auto
    have mul: "unat (of_nat k * s) = k * unat s" using off kw(1) by (simp add: unat_word_ariths)
    have "pgm_total_pages (pgm_new (of_nat (Suc k)) s (of_nat ?n)) = of_nat N"
    proof (cases "?n = 0")
      case False
      have "unat (pgm_total_pages (pgm_new (of_nat (Suc k)) s (of_nat ?n))) = N"
        using total_pages_eq [OF assms(1,2) _ assms(3), of "of_nat (Suc k)"] False by (simp add: N_def)
      then show ?thesis using N(3) by (simp add: word_unat_eq_iff unat_of_nat_small)
    qed (simp add: N_def pgm_new_def)
    then have meta: "pgm_new (of_nat (Suc k)) s (of_nat ?n) = \<lparr> pgm_page = of_nat (Suc k), pgm_page_size = s,
        pgm_total_items = of_nat ?n, pgm_total_pages = of_nat N \<rparr>" by (simp add: pgm_new_def)
    have limit: "pgp_limit \<lparr> pgp_page = p, pgp_page_size = s \<rparr> = s" for p using assms(2) by (simp add: pgp_limit_def)
    have offset: "(pgp_offset \<lparr> pgp_page = of_nat (Suc k), pgp_page_size = s \<rparr> :: ('e, u32) outcome) = Ret (of_nat k * s)"
      using kw off by (simp add: pgp_offset_def w_checked_mul_def)
    show ?thesis using k mul by (simp only: paginate_def offset limit meta Let_def obind.simps pagination_params.simps) (simp add: pages_def)
  qed
  ultimately show ?thesis by blast
qed


lemma pages_cover_all_witness:
  "\<exists>pages. concat pages = map Suc [4, 5, 6] \<and> paginate \<lparr> pgp_page = 1, pgp_page_size = 2 \<rparr> Suc [4, 5, 6]
      = (Ret \<lparr> pgr_data = pages ! 0, pgr_pagination = \<lparr> pgm_page = 1, pgm_page_size = 2, pgm_total_items = 3,
          pgm_total_pages = of_nat (length pages) \<rparr> \<rparr> :: (unit, nat paginated_response) outcome)"
proof -
  obtain pages where p: "concat pages = map Suc [4, 5, 6]" and all: "\<forall>k < length pages.
      paginate \<lparr> pgp_page = of_nat (Suc k), pgp_page_size = 2 \<rparr> Suc [4, 5, 6] = (Ret \<lparr> pgr_data = pages ! k,
        pgr_pagination = \<lparr> pgm_page = of_nat (Suc k), pgm_page_size = 2, pgm_total_items = of_nat (length [4, 5, 6 :: nat]),
          pgm_total_pages = of_nat (length pages) \<rparr> \<rparr> :: (unit, nat paginated_response) outcome)"
    using pages_cover_all [of 2 "[4, 5, 6 :: nat]" Suc] by (auto simp: word_less_nat_alt word_le_nat_alt)
  have "0 < length pages" using p by (cases pages) auto
  from all [rule_format, OF this] p show ?thesis by (intro exI [of _ pages]) simp
qed

text \<open>
  A list asked for in pages of more than 100 loses items: a page starts where its size puts it and is cut at 100, so an item beyond the first hundred of its
  page is on no page at all.
\<close>
theorem large_pages_lose_items:
  assumes "100 < pgp_page_size p" "(paginate p f items :: ('e, 'a paginated_response) outcome) = Ret resp"
  shows "\<exists>shown. pgr_data resp = map (\<lambda>i. f (items ! i)) shown \<and> (\<forall>i\<in>set shown. i mod unat (pgp_page_size p) < 100)"
proof -
  let ?s = "unat (pgp_page_size p)"
  have big: "100 < ?s" using assms(1) by (simp add: word_less_nat_alt)
  have limit: "unat (pgp_limit p) = 100" using assms(1) by (auto simp: pgp_limit_def min_def dest: leD)
  obtain off where off: "(pgp_offset p :: ('e, u32) outcome) = Ret off"
    and data: "pgr_data resp = map f (take 100 (drop (unat off) items))"
    using assms(2) limit by (auto simp: paginate_def Let_def)
  obtain k where k: "unat off = k * ?s"
  proof (cases "pgp_page p = 0")
    case True
    then have "unat off = 0 * ?s" using off by (auto simp: pgp_offset_def w_checked_mul_def)
    then show ?thesis by (rule that)
  next
    case False
    then have "unat off = unat (pgp_page p - 1) * ?s"
      using off by (auto simp: pgp_offset_def w_checked_mul_def unat_word_ariths split: if_splits)
    then show ?thesis by (rule that)
  qed
  let ?shown = "[unat off ..< min (unat off + 100) (length items)]"
  have "take 100 (drop (unat off) items) = map ((!) items) ?shown"
    by (rule nth_equalityI) (auto simp: min_def split: if_splits)
  moreover have "i mod ?s < 100" if "i \<in> set ?shown" for i
  proof -
    have "i = k * ?s + (i - k * ?s)" "i - k * ?s < 100" using that k by auto
    then show ?thesis using big by (metis mod_less mod_mult_self3 order_less_trans)
  qed
  ultimately show ?thesis using data by (intro exI [of _ ?shown]) (simp add: comp_def)
qed

text \<open>
  A request for a page far beyond the list panics: the offset of the page does not fit 32 bits, and the build checks overflow.
\<close>
theorem far_page_panics:
  fixes X :: "'d rest_print"
  assumes "2 ^ 32 \<le> (unat (pgp_page p) - 1) * unat (pgp_page_size p)"
  shows "rest_list_rfqs X p flt = Panic"
proof -
  have "0 < unat (pgp_page p)" using assms by (cases "unat (pgp_page p)") auto
  then have "unat (pgp_page p - 1) = unat (pgp_page p) - 1" "pgp_page p \<noteq> 0" by (auto simp: unat_minus_one unat_gt_0)
  then have "(pgp_offset p :: ('d rest_error, u32) outcome) = Panic" using assms by (simp add: pgp_offset_def w_checked_mul_def)
  then show ?thesis by (simp add: rest_list_rfqs_def fetch_all_rfqs_def paginate_def Let_def)
qed

text \<open>
  Creating an RFQ over REST refuses a bad request without effect, and otherwise saves a new RFQ with the fields of the request and answers with it: no other
  call is made, so neither the client nor the instrument is looked up, no compliance check runs and no event is published.
\<close>
theorem rest_create_effects:
  "(\<exists>m. rest_create_rfq D F X E fresh now_expiry now_build q x = (Inl (validation_error m), x))
    \<or> (\<exists>r. rfq_id r = fresh \<and> rfq_client_id r = rcq_client_id q \<and> rfq_side r = rcq_side q \<and> rfq_state r = Created \<and> rfq_quotes r = []
        \<and> quantity_new_f64 D F (rcq_quantity q) = Inr (rfq_quantity r) \<and> rfq_compliance_result r = None
        \<and> rfq_expires_at r = ts_add_secs now_expiry (sint (rcq_expiry_seconds q))
        \<and> rest_create_rfq D F X E fresh now_expiry now_build q x = (case aps_rfq_save E r x of
            (Inl e, y) \<Rightarrow> (Inl (internal_error e), y) | (Inr _, y) \<Rightarrow> (Inr (201, rrf_of X r), y)))"
proof (cases "validate_create_rfq_request q :: 'a rest_error + unit")
  case (Inl e)
  then show ?thesis
    by (auto simp: rest_create_rfq_def op_then_def lift_result_def validate_create_rfq_request_def split: if_splits)
next
  case valid: (Inr u)
  let ?quantity = "quantity_new_f64 D F (rcq_quantity q)"
  show ?thesis
  proof (cases "symbol_new (rcq_base_asset q @ ''/'' @ rcq_quote_asset q)")
    case (Inl e)
    then show ?thesis using valid by (auto simp: rest_create_rfq_def op_then_def lift_result_def map_err_def)
  next
    case symbol: (Inr symbol)
    show ?thesis
    proof (cases ?quantity)
      case (Inl e)
      then show ?thesis using valid symbol by (auto simp: rest_create_rfq_def op_then_def lift_result_def map_err_def)
    next
      case (Inr n)
      let ?r = "rb_build fresh now_build (rb_new (rcq_client_id q) (instrument_default_build symbol CryptoSpot) (rcq_side q) n
        (ts_add_secs now_expiry (sint (rcq_expiry_seconds q))))"
      have "rest_create_rfq D F X E fresh now_expiry now_build q x = (case aps_rfq_save E ?r x of
            (Inl e, y) \<Rightarrow> (Inl (internal_error e), y) | (Inr _, y) \<Rightarrow> (Inr (201, rrf_of X ?r), y))"
        using valid symbol Inr
        by (simp add: rest_create_rfq_def op_then_def lift_result_def map_err_def op_ret_def Let_def split: prod.split sum.split)
      then show ?thesis using Inr by (intro disjI2 exI [of _ ?r]) (simp add: rb_build_def rb_new_def)
    qed
  qed
qed

text \<open>
  Cancelling an RFQ over REST succeeds only when the RFQ is found and could be cancelled; then exactly the cancelled RFQ was saved, and the
  answer shows it. When it is not found or cannot be cancelled nothing is saved.
\<close>
theorem rest_cancel_effects:
  assumes "rtx_parse_uuid X i = Some rid" "aps_rfq_find E rid x = (Inr found_rfq, y)"
  shows "rest_cancel_rfq X E now i x = (case found_rfq of None \<Rightarrow> (Inl (rest_not_found ''RFQ'' i), y)
    | Some r \<Rightarrow> if rs_can_transition_to (rfq_state r) Cancelled then
        (case aps_rfq_save E (snd (rfq_cancel now r)) y of
          (Inl e, z) \<Rightarrow> (Inl (internal_error e), z)
        | (Inr _, z) \<Rightarrow> (Inr (rrf_of X (snd (rfq_cancel now r))), z))
      else (Inl (conflict_error (RestDomain ''cannot cancel RFQ: {e}'' (InvalidStateTransition (rfq_state r) Cancelled))), y))"
  using assms
  by (cases found_rfq)
    (simp_all add: rest_cancel_rfq_def parse_rfq_id_def found_def op_then_def lift_result_def map_err_def op_ret_def op_fail_def
      rfq_cancel_def rfq_transition_to_def split: prod.split sum.split)

end
