(* ===== verification/Web_Socket.thy ===== *)
theory Web_Socket
  imports Use_Cases Text_Functions "HOL-Library.Sublist"
begin

text \<open>
  The WebSocket interface, \<open>src/api/websocket/handlers.rs\<close>: names of channels, the messages of a connection and its subscriptions, and the forwarding of
  events. The connection has three receivers of broadcast events with their bounded buffers, a task that takes events from them and forwards those
  that are subscribed, a task that reads the frames of the client and one that writes. The order in which these tasks
  run, the frames and the events that are published are the input; reading and writing JSON is a parameter.
\<close>

section \<open>Channels\<close>

datatype ws_channel = RfqQuotes string | RfqStatus string | TradeChannel string

definition wch_parse :: "string \<Rightarrow> string + ws_channel" where
  "wch_parse s = (case split_char CHR ''.'' s of
       [a, i, b] \<Rightarrow> if a = ''rfq'' \<and> b = ''quotes'' then Inr (RfqQuotes i)
         else if a = ''rfq'' \<and> b = ''status'' then Inr (RfqStatus i)
         else Inl (''invalid channel format: '' @ s)
     | [a, i] \<Rightarrow> if a = ''trades'' then Inr (TradeChannel i) else Inl (''invalid channel format: '' @ s)
     | _ \<Rightarrow> Inl (''invalid channel format: '' @ s))"

definition wch_to_channel_string :: "ws_channel \<Rightarrow> string" where
  "wch_to_channel_string c = (case c of RfqQuotes i \<Rightarrow> ''rfq.'' @ i @ ''.quotes'' | RfqStatus i \<Rightarrow> ''rfq.'' @ i @ ''.status''
     | TradeChannel i \<Rightarrow> ''trades.'' @ i)"

section \<open>Events and messages\<close>

record quote_ws_event =
  qwe_rfq_id :: string
  qwe_quote_id :: string
  qwe_venue_id :: string
  qwe_price :: string
  qwe_quantity :: string
  qwe_valid_until :: string
  qwe_timestamp :: string

text \<open>How identifiers, decimals and times print; \<open>now\<close> is the reading of the clock.\<close>

record 'd ws_print =
  wsp_uuid :: "uuid \<Rightarrow> string"
  wsp_dec :: "'d \<Rightarrow> string"
  wsp_time :: "timestamp \<Rightarrow> string"

definition qwe_of :: "'d ws_print \<Rightarrow> timestamp \<Rightarrow> 'd quote \<Rightarrow> quote_ws_event" where
  "qwe_of X now q = \<lparr> qwe_rfq_id = wsp_uuid X (quote_rfq_id q), qwe_quote_id = wsp_uuid X (quote_id q), qwe_venue_id = quote_venue_id q,
     qwe_price = wsp_dec X (price_get (quote_price q)), qwe_quantity = wsp_dec X (quantity_get (quote_quantity q)),
     qwe_valid_until = wsp_time X (quote_valid_until q), qwe_timestamp = wsp_time X now \<rparr>"

record rfq_status_event =
  rse_rfq_id :: string
  rse_previous_state :: "rfq_state option"
  rse_current_state :: rfq_state
  rse_timestamp :: string

record trade_ws_event =
  twe_trade_id :: string
  twe_rfq_id :: string
  twe_settlement_state :: string
  twe_timestamp :: string

datatype message_type = MtSubscribe | MtUnsubscribe | MtEvent | MtError | MtPing | MtPong | MtAck

text \<open>\<open>Debug\<close>.\<close>

definition mt_debug :: "message_type \<Rightarrow> string" where
  "mt_debug t = (case t of MtSubscribe \<Rightarrow> ''Subscribe'' | MtUnsubscribe \<Rightarrow> ''Unsubscribe'' | MtEvent \<Rightarrow> ''Event'' | MtError \<Rightarrow> ''Error''
     | MtPing \<Rightarrow> ''Ping'' | MtPong \<Rightarrow> ''Pong'' | MtAck \<Rightarrow> ''Ack'')"

record 'j incoming_message =
  inm_msg_type :: message_type
  inm_channel :: "string option"
  inm_payload :: "'j option"

record 'j outgoing_message =
  ogm_msg_type :: message_type
  ogm_channel :: "string option"
  ogm_payload :: "'j option"
  ogm_error :: "string option"

definition ogm_ack :: "string \<Rightarrow> 'j outgoing_message" where
  "ogm_ack c = \<lparr> ogm_msg_type = MtAck, ogm_channel = Some c, ogm_payload = None, ogm_error = None \<rparr>"

definition ogm_event :: "string \<Rightarrow> 'j \<Rightarrow> 'j outgoing_message" where
  "ogm_event c v = \<lparr> ogm_msg_type = MtEvent, ogm_channel = Some c, ogm_payload = Some v, ogm_error = None \<rparr>"

definition ogm_error_of :: "string \<Rightarrow> 'j outgoing_message" where
  "ogm_error_of m = \<lparr> ogm_msg_type = MtError, ogm_channel = None, ogm_payload = None, ogm_error = Some m \<rparr>"

definition ogm_pong :: "'j outgoing_message" where
  "ogm_pong = \<lparr> ogm_msg_type = MtPong, ogm_channel = None, ogm_payload = None, ogm_error = None \<rparr>"

text \<open>The JSON package: reading a message, with the text of its error, and writing an event (\<open>Null\<close> where it fails).\<close>

record 'j ws_json =
  wsj_parse :: "string \<Rightarrow> string + 'j incoming_message"
  wsj_quote :: "quote_ws_event \<Rightarrow> 'j"
  wsj_status :: "rfq_status_event \<Rightarrow> 'j"
  wsj_trade :: "trade_ws_event \<Rightarrow> 'j"

section \<open>A connection\<close>

record web_socket_config =
  wsc_heartbeat_interval_secs :: u64
  wsc_connection_timeout_secs :: u64
  wsc_max_message_size :: u64
  wsc_max_subscriptions :: u64

definition wsc_default :: web_socket_config where
  "wsc_default = \<lparr> wsc_heartbeat_interval_secs = 30, wsc_connection_timeout_secs = 60, wsc_max_message_size = 65536,
     wsc_max_subscriptions = 100 \<rparr>"

definition ws_validate_token :: "string \<Rightarrow> bool" where
  "ws_validate_token t \<longleftrightarrow> t \<noteq> []"

text \<open>Whether the connection is upgraded: the check of the token only logs.\<close>

definition ws_handler :: "string option \<Rightarrow> bool" where
  "ws_handler token = (case token of Some t \<Rightarrow> if \<not> ws_validate_token t then True else True | None \<Rightarrow> True)"

text \<open>The three broadcast channels with their events, and the channel of the client to which an event belongs.\<close>

datatype ws_topic = QuoteTopic | StatusTopic | TradeTopic

datatype ws_event = QuoteEvent quote_ws_event | StatusEvent rfq_status_event | TradeEvent trade_ws_event

definition ws_topic_of :: "ws_event \<Rightarrow> ws_topic" where
  "ws_topic_of e = (case e of QuoteEvent _ \<Rightarrow> QuoteTopic | StatusEvent _ \<Rightarrow> StatusTopic | TradeEvent _ \<Rightarrow> TradeTopic)"

definition event_channel :: "ws_event \<Rightarrow> ws_channel" where
  "event_channel e = (case e of QuoteEvent q \<Rightarrow> RfqQuotes (qwe_rfq_id q) | StatusEvent s \<Rightarrow> RfqStatus (rse_rfq_id s)
     | TradeEvent t \<Rightarrow> TradeChannel (twe_trade_id t))"

definition event_message :: "'j ws_json \<Rightarrow> ws_event \<Rightarrow> 'j outgoing_message" where
  "event_message J e = ogm_event (wch_to_channel_string (event_channel e))
     (case e of QuoteEvent q \<Rightarrow> wsj_quote J q | StatusEvent s \<Rightarrow> wsj_status J s | TradeEvent t \<Rightarrow> wsj_trade J t)"

definition broadcast_capacity :: nat where
  "broadcast_capacity = 1024"

text \<open>
  \<open>wsk_sent\<close> are the messages taken over for the task that writes to the client, as long as it runs (\<open>wsk_writing\<close>). Of each receiver there is the buffer of events not
  yet taken, and whether events were dropped from it since. The forwarding task has taken an event (\<open>wsk_taken\<close>), or waits for one in its \<open>select\<close>, where the
  receivers in \<open>wsk_disabled\<close> have answered with an error and are not asked again.
\<close>

record 'j ws_connection =
  wsk_open :: bool
  wsk_subscriptions :: "ws_channel set"
  wsk_sent :: "'j outgoing_message list"
  wsk_writing :: bool
  wsk_buffers :: "ws_topic \<Rightarrow> ws_event list"
  wsk_lagged :: "ws_topic set"
  wsk_forwarding :: bool
  wsk_disabled :: "ws_topic set"
  wsk_taken :: "ws_event option"

definition wsk_new :: "'j ws_connection" where
  "wsk_new = \<lparr> wsk_open = True, wsk_subscriptions = {}, wsk_sent = [], wsk_writing = True, wsk_buffers = (\<lambda>_. []),
     wsk_lagged = {}, wsk_forwarding = True, wsk_disabled = {}, wsk_taken = None \<rparr>"

text \<open>A message for a task that has ended is dropped.\<close>

definition wsk_send :: "'j outgoing_message \<Rightarrow> 'j ws_connection \<Rightarrow> 'j ws_connection" where
  "wsk_send m k = (if wsk_writing k then k\<lparr> wsk_sent := wsk_sent k @ [m] \<rparr> else k)"

text \<open>A published event enters the buffer of its receiver; of more than the capacity the oldest is dropped.\<close>

definition ws_broadcast :: "ws_event \<Rightarrow> 'j ws_connection \<Rightarrow> 'j ws_connection" where
  "ws_broadcast e k = (let t = ws_topic_of e; b = wsk_buffers k t @ [e] in
     if broadcast_capacity < length b
     then k\<lparr> wsk_buffers := (wsk_buffers k)(t := tl b), wsk_lagged := insert t (wsk_lagged k) \<rparr>
     else k\<lparr> wsk_buffers := (wsk_buffers k)(t := b) \<rparr>)"

text \<open>
  The \<open>select\<close> of the forwarding task asks one receiver. A receiver that has lost events says so once, with an error that
  does not match \<open>Ok\<close>: it is disabled until the next turn of the loop, and when all three are, the loop ends.
\<close>

definition ws_poll :: "ws_topic \<Rightarrow> 'j ws_connection \<Rightarrow> 'j ws_connection" where
  "ws_poll t k =
     (if \<not> wsk_forwarding k \<or> wsk_taken k \<noteq> None \<or> t \<in> wsk_disabled k then k
      else if t \<in> wsk_lagged k
      then (let d = insert t (wsk_disabled k) in
        k\<lparr> wsk_lagged := wsk_lagged k - {t}, wsk_disabled := d,
           wsk_forwarding := \<not> (QuoteTopic \<in> d \<and> StatusTopic \<in> d \<and> TradeTopic \<in> d) \<rparr>)
      else (case wsk_buffers k t of [] \<Rightarrow> k
        | e # es \<Rightarrow> k\<lparr> wsk_buffers := (wsk_buffers k)(t := es), wsk_taken := Some e, wsk_disabled := {} \<rparr>))"

text \<open>The forwarding task holds the lock on the subscriptions while it hands its event over.\<close>

definition forward_event :: "'j ws_json \<Rightarrow> ws_event \<Rightarrow> 'j ws_connection \<Rightarrow> 'j ws_connection" where
  "forward_event J e k = (if event_channel e \<in> wsk_subscriptions k then wsk_send (event_message J e) k else k)"

definition ws_deliver :: "'j ws_json \<Rightarrow> 'j ws_connection \<Rightarrow> 'j ws_connection" where
  "ws_deliver J k = (case wsk_taken k of None \<Rightarrow> k | Some e \<Rightarrow> forward_event J e (k\<lparr> wsk_taken := None \<rparr>))"

definition handle_text_message :: "'j ws_json \<Rightarrow> u64 \<Rightarrow> string \<Rightarrow> 'j ws_connection \<Rightarrow> (string + unit) \<times> 'j ws_connection" where
  "handle_text_message J max_subscriptions frame k = (case wsj_parse J frame of
       Inl e \<Rightarrow> (Inl (''invalid JSON: '' @ e), k)
     | Inr msg \<Rightarrow>
         if inm_msg_type msg = MtSubscribe then
           (case inm_channel msg of None \<Rightarrow> (Inl ''channel required for subscribe'', k)
            | Some channel_str \<Rightarrow> (case wch_parse channel_str of Inl e \<Rightarrow> (Inl e, k)
              | Inr channel \<Rightarrow>
                  if unat max_subscriptions \<le> card (wsk_subscriptions k)
                  then (Inl (''maximum subscriptions ('' @ nat_str (unat max_subscriptions) @ '') reached''), k)
                  else (Inr (), wsk_send (ogm_ack channel_str) (k\<lparr> wsk_subscriptions := insert channel (wsk_subscriptions k) \<rparr>))))
         else if inm_msg_type msg = MtUnsubscribe then
           (case inm_channel msg of None \<Rightarrow> (Inl ''channel required for unsubscribe'', k)
            | Some channel_str \<Rightarrow> (case wch_parse channel_str of Inl e \<Rightarrow> (Inl e, k)
              | Inr channel \<Rightarrow>
                  (Inr (), wsk_send (ogm_ack channel_str) (k\<lparr> wsk_subscriptions := wsk_subscriptions k - {channel} \<rparr>))))
         else if inm_msg_type msg = MtPing then (Inr (), wsk_send ogm_pong k)
         else (Inl (''unsupported message type: '' @ mt_debug (inm_msg_type msg)), k))"

text \<open>
  What happens next: a frame of the client, the failure or the end of the socket, the end of the writing task, an event that is published, or
  a step of the forwarding task.
\<close>

datatype ws_input = TextFrame string | BinaryFrame | PingFrame | PongFrame | CloseFrame | SocketFailed | StreamEnded | WriterEnded
  | Published ws_event | PollReceiver ws_topic | DeliverTaken

definition ws_take :: "'j ws_json \<Rightarrow> u64 \<Rightarrow> ws_input \<Rightarrow> 'j ws_connection \<Rightarrow> 'j ws_connection" where
  "ws_take J max_subscriptions i k = (case i of
       TextFrame frame \<Rightarrow> (case handle_text_message J max_subscriptions frame k of
           (Inl e, k) \<Rightarrow> wsk_send (ogm_error_of e) k | (Inr _, k) \<Rightarrow> k)
     | BinaryFrame \<Rightarrow> wsk_send (ogm_error_of ''binary messages not supported'') k
     | PingFrame \<Rightarrow> k
     | PongFrame \<Rightarrow> k
     | CloseFrame \<Rightarrow> k\<lparr> wsk_open := False \<rparr>
     | SocketFailed \<Rightarrow> k\<lparr> wsk_open := False \<rparr>
     | StreamEnded \<Rightarrow> k\<lparr> wsk_open := False \<rparr>
     | WriterEnded \<Rightarrow> k\<lparr> wsk_writing := False \<rparr>
     | Published e \<Rightarrow> ws_broadcast e k
     | PollReceiver t \<Rightarrow> ws_poll t k
     | DeliverTaken \<Rightarrow> ws_deliver J k)"

text \<open>After the loop both tasks are aborted.\<close>

definition ws_step :: "'j ws_json \<Rightarrow> u64 \<Rightarrow> ws_input \<Rightarrow> 'j ws_connection \<Rightarrow> 'j ws_connection" where
  "ws_step J max_subscriptions i k = (if wsk_open k then ws_take J max_subscriptions i k else k)"

definition handle_socket :: "'j ws_json \<Rightarrow> u64 \<Rightarrow> ws_input list \<Rightarrow> 'j ws_connection" where
  "handle_socket J max_subscriptions is = fold (ws_step J max_subscriptions) is wsk_new"

text \<open>The counter of connections: the increment is checked, the decrement saturates.\<close>

definition ws_connected :: "u64 \<Rightarrow> u64 option" where
  "ws_connected n = w_checked_add n 1"

definition ws_disconnected :: "u64 \<Rightarrow> u64" where
  "ws_disconnected n = (if n = 0 then 0 else n - 1)"

section \<open>Names of channels\<close>

definition wch_id :: "ws_channel \<Rightarrow> string" where
  "wch_id c = (case c of RfqQuotes i \<Rightarrow> i | RfqStatus i \<Rightarrow> i | TradeChannel i \<Rightarrow> i)"

lemma split_char_append: "split_char c (xs @ c # ys) = split_char c xs @ split_char c ys"
proof (induction xs)
  case (Cons x xs)
  obtain p ps where "split_char c xs = p # ps" using split_char_not_empty [of c xs] by (cases "split_char c xs") auto
  with Cons show ?case by simp
qed simp

lemma split_char_free: "c \<notin> set xs \<Longrightarrow> split_char c xs = [xs]"
  by (induction xs) auto

lemma split_char_single: "split_char c xs = [ys] \<Longrightarrow> c \<notin> set xs"
proof (induction xs arbitrary: ys)
  case (Cons x xs)
  obtain p ps where "split_char c xs = p # ps" using split_char_not_empty [of c xs] by (cases "split_char c xs") auto
  with Cons show ?case by (auto split: if_splits)
qed simp

lemma channel_pieces: "split_char CHR ''.'' (wch_to_channel_string c) = (case c of
      RfqQuotes i \<Rightarrow> ''rfq'' # split_char CHR ''.'' i @ [''quotes''] | RfqStatus i \<Rightarrow> ''rfq'' # split_char CHR ''.'' i @ [''status'']
    | TradeChannel i \<Rightarrow> ''trades'' # split_char CHR ''.'' i)"
  using split_char_append [of "CHR ''.''" _ "''quotes''"] split_char_append [of "CHR ''.''" _ "''status''"]
  by (cases c) (simp_all add: wch_to_channel_string_def)

section \<open>Properties\<close>

text \<open>
  The name of a channel is parsed back to the channel exactly when its identifier has no dot.
\<close>
theorem channel_name_roundtrip:
  "wch_parse (wch_to_channel_string c) = Inr c \<longleftrightarrow> CHR ''.'' \<notin> set (wch_id c)"
proof
  assume "CHR ''.'' \<notin> set (wch_id c)"
  then show "wch_parse (wch_to_channel_string c) = Inr c"
    by (cases c) (simp_all add: wch_parse_def channel_pieces wch_id_def split_char_free)
next
  assume "wch_parse (wch_to_channel_string c) = Inr c"
  then have "\<exists>y. split_char CHR ''.'' (wch_id c) = [y]"
    using split_char_not_empty [of "CHR ''.''" "wch_id c"]
    by (cases c) (auto simp: wch_parse_def channel_pieces wch_id_def neq_Nil_conv split: list.splits if_splits)
  then show "CHR ''.'' \<notin> set (wch_id c)" using split_char_single by blast
qed

section \<open>Subscriptions and events\<close>

text \<open>A frame that asks to subscribe or unsubscribe a channel.\<close>

definition asks :: "'j ws_json \<Rightarrow> message_type \<Rightarrow> ws_channel \<Rightarrow> string \<Rightarrow> bool" where
  "asks J t c frame \<longleftrightarrow> (\<exists>msg s. wsj_parse J frame = Inr msg \<and> inm_msg_type msg = t \<and> inm_channel msg = Some s \<and> wch_parse s = Inr c)"

lemma asks_unique: "asks J t c frame \<Longrightarrow> asks J t' c' frame \<Longrightarrow> t' = t \<and> c' = c"
  by (auto simp: asks_def)

text \<open>A text is refused, subscribes, unsubscribes, or is a ping.\<close>

lemma text_cases:
  assumes "handle_text_message J m frame k = (res, k')"
  obtains (refused) e where "res = Inl e" "k' = k" "\<And>c. \<not> asks J MtUnsubscribe c frame"
  | (subscribed) c s where "asks J MtSubscribe c frame" "card (wsk_subscriptions k) < unat m"
      "k' = wsk_send (ogm_ack s) (k\<lparr> wsk_subscriptions := insert c (wsk_subscriptions k) \<rparr>)"
  | (unsubscribed) c s where "asks J MtUnsubscribe c frame"
      "k' = wsk_send (ogm_ack s) (k\<lparr> wsk_subscriptions := wsk_subscriptions k - {c} \<rparr>)"
  | (pinged) "k' = wsk_send ogm_pong k" "\<And>c. \<not> asks J MtUnsubscribe c frame"
proof (cases "wsj_parse J frame")
  case (Inl e)
  then show thesis using assms refused by (auto simp: handle_text_message_def asks_def)
next
  case parsed: (Inr msg)
  show thesis
  proof (cases "inm_msg_type msg")
    case MtSubscribe
    show thesis
    proof (cases "inm_channel msg")
      case (Some s)
      show thesis
      proof (cases "wch_parse s")
        case (Inr c)
        then have "asks J MtSubscribe c frame" using parsed MtSubscribe Some by (simp add: asks_def)
        then show thesis using assms parsed MtSubscribe Some Inr refused subscribed asks_unique
          by (cases "unat m \<le> card (wsk_subscriptions k)") (fastforce simp: handle_text_message_def not_le)+
      qed (use assms parsed MtSubscribe Some refused in \<open>auto simp: handle_text_message_def asks_def\<close>)
    qed (use assms parsed MtSubscribe refused in \<open>auto simp: handle_text_message_def asks_def\<close>)
  next
    case MtUnsubscribe
    show thesis
    proof (cases "inm_channel msg")
      case (Some s)
      show thesis
      proof (cases "wch_parse s")
        case (Inr c)
        then have "asks J MtUnsubscribe c frame" using parsed MtUnsubscribe Some by (simp add: asks_def)
        then show thesis using assms parsed MtUnsubscribe Some Inr unsubscribed by (auto simp: handle_text_message_def)
      qed (use assms parsed MtUnsubscribe Some refused in \<open>auto simp: handle_text_message_def asks_def\<close>)
    qed (use assms parsed MtUnsubscribe refused in \<open>auto simp: handle_text_message_def asks_def\<close>)
  next
    case MtPing
    then show thesis using assms parsed pinged by (simp add: handle_text_message_def asks_def)
  qed (use assms parsed refused in \<open>auto simp: handle_text_message_def asks_def\<close>)
qed

text \<open>The events among the messages to the client.\<close>

definition sent_events :: "'j ws_connection \<Rightarrow> 'j outgoing_message list" where
  "sent_events k = filter (\<lambda>msg. ogm_msg_type msg = MtEvent) (wsk_sent k)"

lemma wsk_send_keeps [simp]:
  "wsk_open (wsk_send msg k) = wsk_open k" "wsk_subscriptions (wsk_send msg k) = wsk_subscriptions k"
  "wsk_writing (wsk_send msg k) = wsk_writing k" "wsk_buffers (wsk_send msg k) = wsk_buffers k"
  "wsk_lagged (wsk_send msg k) = wsk_lagged k" "wsk_forwarding (wsk_send msg k) = wsk_forwarding k"
  "wsk_disabled (wsk_send msg k) = wsk_disabled k" "wsk_taken (wsk_send msg k) = wsk_taken k"
  "sent_events (wsk_send msg k)
    = sent_events k @ (if wsk_writing k \<and> ogm_msg_type msg = MtEvent then [msg] else [])"
  by (simp_all add: wsk_send_def sent_events_def)

lemma sent_events_update [simp]:
  "sent_events (k\<lparr> wsk_subscriptions := s \<rparr>) = sent_events k" "sent_events (k\<lparr> wsk_open := b \<rparr>) = sent_events k"
  "sent_events (k\<lparr> wsk_writing := b \<rparr>) = sent_events k" "sent_events (k\<lparr> wsk_buffers := f \<rparr>) = sent_events k"
  "sent_events (k\<lparr> wsk_lagged := d \<rparr>) = sent_events k" "sent_events (k\<lparr> wsk_forwarding := b \<rparr>) = sent_events k"
  "sent_events (k\<lparr> wsk_disabled := d \<rparr>) = sent_events k" "sent_events (k\<lparr> wsk_taken := e \<rparr>) = sent_events k"
  by (simp_all add: sent_events_def)

lemma message_types [simp]:
  "ogm_msg_type (ogm_ack s) = MtAck" "ogm_msg_type (ogm_error_of s) = MtError" "ogm_msg_type ogm_pong = MtPong"
  "ogm_msg_type (event_message J e) = MtEvent"
  by (simp_all add: ogm_ack_def ogm_error_of_def ogm_pong_def event_message_def ogm_event_def)

text \<open>What a frame of the client leaves alone.\<close>

definition same_forwarding :: "'j ws_connection \<Rightarrow> 'j ws_connection \<Rightarrow> bool" where
  "same_forwarding k k' \<longleftrightarrow> wsk_open k' = wsk_open k \<and> sent_events k' = sent_events k \<and> wsk_buffers k' = wsk_buffers k
     \<and> wsk_taken k' = wsk_taken k \<and> wsk_forwarding k' = wsk_forwarding k"

lemma text_keeps:
  assumes "handle_text_message J m frame k = (res, k')"
  shows "(\<forall>c. c \<in> wsk_subscriptions k' \<longrightarrow> c \<in> wsk_subscriptions k \<and> \<not> asks J MtUnsubscribe c frame \<or> asks J MtSubscribe c frame)
    \<and> (finite (wsk_subscriptions k) \<and> card (wsk_subscriptions k) \<le> unat m
      \<longrightarrow> finite (wsk_subscriptions k') \<and> card (wsk_subscriptions k') \<le> unat m)
    \<and> same_forwarding k k'"
  using assms
proof (cases rule: text_cases)
  case (subscribed d s)
  have "\<not> asks J MtUnsubscribe x frame" for x using asks_unique [OF subscribed(1)] by blast
  then show ?thesis using subscribed by (auto simp: card_insert_if same_forwarding_def)
next
  case (unsubscribed d s)
  have other: "asks J MtUnsubscribe x frame \<Longrightarrow> x = d" for x using asks_unique [OF unsubscribed(1)] by blast
  have "card (wsk_subscriptions k - {d}) \<le> card (wsk_subscriptions k)" by (rule card_Diff1_le)
  then show ?thesis using unsubscribed(2) other by (simp add: same_forwarding_def del: card_Diff_singleton_if) fastforce
qed (auto simp: same_forwarding_def)

lemma text_subscribes:
  assumes "handle_text_message J m frame k = (res, k')"
  shows "c \<in> wsk_subscriptions k' \<Longrightarrow> c \<in> wsk_subscriptions k \<and> \<not> asks J MtUnsubscribe c frame \<or> asks J MtSubscribe c frame"
    and "finite (wsk_subscriptions k) \<and> card (wsk_subscriptions k) \<le> unat m
      \<Longrightarrow> finite (wsk_subscriptions k') \<and> card (wsk_subscriptions k') \<le> unat m"
    and "same_forwarding k k'"
  using text_keeps [OF assms] by blast+

lemma take_text:
  obtains k' res where "handle_text_message J m frame k = (res, k')"
    "wsk_subscriptions (ws_take J m (TextFrame frame) k) = wsk_subscriptions k'"
    "same_forwarding k (ws_take J m (TextFrame frame) k)"
proof -
  obtain res k' where run: "handle_text_message J m frame k = (res, k')" by (cases "handle_text_message J m frame k")
  from text_subscribes(3) [OF run] show thesis
    by (intro that [OF run]) (cases res; simp add: ws_take_def run same_forwarding_def)+
qed

text \<open>The steps of the forwarding task.\<close>

lemma forward_keeps [simp]:
  "wsk_subscriptions (ws_broadcast e k) = wsk_subscriptions k" "wsk_subscriptions (ws_poll t k) = wsk_subscriptions k"
  "wsk_subscriptions (ws_deliver J k) = wsk_subscriptions k" "wsk_open (ws_broadcast e k) = wsk_open k"
  "wsk_open (ws_poll t k) = wsk_open k" "wsk_open (ws_deliver J k) = wsk_open k"
  "sent_events (ws_broadcast e k) = sent_events k" "sent_events (ws_poll t k) = sent_events k"
  "wsk_taken (ws_broadcast e k) = wsk_taken k" "wsk_buffers (ws_deliver J k) = wsk_buffers k"
  by (auto simp: ws_broadcast_def ws_poll_def ws_deliver_def forward_event_def Let_def split: list.split option.split)

lemma poll_takes:
  obtains "wsk_buffers (ws_poll t k) = wsk_buffers k" "wsk_taken (ws_poll t k) = wsk_taken k"
  | e es where "wsk_taken k = None" "wsk_buffers k t = e # es" "wsk_taken (ws_poll t k) = Some e"
      "wsk_buffers (ws_poll t k) = (wsk_buffers k)(t := es)"
proof (cases "\<not> wsk_forwarding k \<or> wsk_taken k \<noteq> None \<or> t \<in> wsk_disabled k \<or> t \<in> wsk_lagged k \<or> wsk_buffers k t = []")
  case True
  then show thesis by (intro that(1)) (auto simp: ws_poll_def Let_def)
next
  case False
  then obtain e es where "wsk_buffers k t = e # es" by (cases "wsk_buffers k t") auto
  then show thesis using False by (intro that(2)) (auto simp: ws_poll_def)
qed

lemma deliver_sends:
  "wsk_taken (ws_deliver J k) = None"
  "sent_events (ws_deliver J k) = sent_events k @ map (event_message J)
     (case wsk_taken k of Some e \<Rightarrow> if event_channel e \<in> wsk_subscriptions k \<and> wsk_writing k then [e] else [] | None \<Rightarrow> [])"
  by (auto simp: ws_deliver_def forward_event_def split: option.split)

lemma step_subscriptions:
  assumes "wsk_open k" "c \<in> wsk_subscriptions (ws_step J m i k)"
  shows "c \<in> wsk_subscriptions k \<and> (\<forall>frame. i = TextFrame frame \<longrightarrow> \<not> asks J MtUnsubscribe c frame)
    \<or> (\<exists>frame. i = TextFrame frame \<and> asks J MtSubscribe c frame)"
proof (cases i)
  case (TextFrame frame)
  obtain k' res where run: "handle_text_message J m frame k = (res, k')"
      "wsk_subscriptions (ws_take J m (TextFrame frame) k) = wsk_subscriptions k'"
    by (rule take_text)
  from text_subscribes(1) [OF run(1)] run(2) assms TextFrame show ?thesis by (auto simp: ws_step_def)
qed (use assms in \<open>simp_all add: ws_step_def ws_take_def\<close>)

lemma step_open: "wsk_open (ws_step J m i k) \<Longrightarrow> wsk_open k"
  by (simp add: ws_step_def split: if_splits)

lemma socket_snoc: "handle_socket J m (is @ [i]) = ws_step J m i (handle_socket J m is)"
  by (simp add: handle_socket_def)

text \<open>A subscription that is held was asked for, and not given up since.\<close>

lemma held_subscription:
  assumes "wsk_open (handle_socket J m is)" "c \<in> wsk_subscriptions (handle_socket J m is)"
  shows "\<exists>as frame bs. is = as @ TextFrame frame # bs \<and> asks J MtSubscribe c frame
    \<and> (\<forall>t. TextFrame t \<in> set bs \<longrightarrow> \<not> asks J MtUnsubscribe c t)"
  using assms
proof (induction "is" rule: rev_induct)
  case (snoc i "is")
  let ?k = "handle_socket J m is"
  have up: "wsk_open ?k" using snoc.prems(1) step_open unfolding socket_snoc by blast
  from step_subscriptions [OF up] snoc.prems consider
      (old) "c \<in> wsk_subscriptions ?k" "\<forall>frame. i = TextFrame frame \<longrightarrow> \<not> asks J MtUnsubscribe c frame"
    | (new) frame where "i = TextFrame frame" "asks J MtSubscribe c frame" unfolding socket_snoc by blast
  then show ?case
  proof cases
    case old
    from snoc.IH [OF up old(1)] obtain as frame bs where "is = as @ TextFrame frame # bs" "asks J MtSubscribe c frame"
      "\<forall>t. TextFrame t \<in> set bs \<longrightarrow> \<not> asks J MtUnsubscribe c t" by blast
    then have "is @ [i] = as @ TextFrame frame # (bs @ [i])" "asks J MtSubscribe c frame"
      "\<forall>t. TextFrame t \<in> set (bs @ [i]) \<longrightarrow> \<not> asks J MtUnsubscribe c t" using old(2) by auto
    then show ?thesis by blast
  next
    case new
    then have "is @ [i] = is @ TextFrame frame # []" "\<forall>t. TextFrame t \<in> set [] \<longrightarrow> \<not> asks J MtUnsubscribe c t" by simp_all
    with new(2) show ?thesis by blast
  qed
qed (simp add: handle_socket_def wsk_new_def)

section \<open>What is forwarded\<close>

lemma in_tail: "x \<in> set (tl xs) \<Longrightarrow> x \<in> set xs"
  by (cases xs) auto

lemma subseq_member: "subseq xs ys \<Longrightarrow> x \<in> set xs \<Longrightarrow> x \<in> set ys"
  by (erule list_emb_set) auto

text \<open>The events of one broadcast channel that were published, in order.\<close>

definition published_on :: "ws_topic \<Rightarrow> ws_input list \<Rightarrow> ws_event list" where
  "published_on t is = List.map_filter (\<lambda>i. case i of Published e \<Rightarrow> if ws_topic_of e = t then Some e else None | _ \<Rightarrow> None) is"

definition events_on :: "ws_topic \<Rightarrow> ws_event list \<Rightarrow> ws_event list" where
  "events_on t es = filter (\<lambda>e. ws_topic_of e = t) es"

text \<open>The event was forwarded at a moment when its channel was subscribed and not unsubscribed since, after it was published.\<close>

definition forwarded_subscribed :: "'j ws_json \<Rightarrow> ws_input list \<Rightarrow> ws_event \<Rightarrow> bool" where
  "forwarded_subscribed J is e \<longleftrightarrow> (\<exists>as frame bs cs. is = as @ TextFrame frame # bs @ DeliverTaken # cs
     \<and> asks J MtSubscribe (event_channel e) frame \<and> (\<forall>t. TextFrame t \<in> set bs \<longrightarrow> \<not> asks J MtUnsubscribe (event_channel e) t)
     \<and> Published e \<in> set (as @ bs))"

lemma published_snoc:
  "published_on t (is @ [i]) = published_on t is @ (case i of Published e \<Rightarrow> if ws_topic_of e = t then [e] else [] | _ \<Rightarrow> [])"
  by (cases i) (simp_all add: published_on_def List.map_filter_def)

lemma published_mem: "e \<in> set (published_on t is) \<Longrightarrow> Published e \<in> set is"
  by (induction "is" rule: rev_induct) (auto simp: published_snoc published_on_def [of _ "[]"] List.map_filter_def split: ws_input.splits if_splits)

lemma forwarded_append: "forwarded_subscribed J is e \<Longrightarrow> forwarded_subscribed J (is @ [i]) e"
proof -
  assume "forwarded_subscribed J is e"
  then obtain as frame bs cs where "is = as @ TextFrame frame # bs @ DeliverTaken # cs" and
      rest: "asks J MtSubscribe (event_channel e) frame" "\<forall>t. TextFrame t \<in> set bs \<longrightarrow> \<not> asks J MtUnsubscribe (event_channel e) t"
        "Published e \<in> set (as @ bs)"
    unfolding forwarded_subscribed_def by blast
  then have "is @ [i] = as @ TextFrame frame # bs @ DeliverTaken # (cs @ [i])" by simp
  with rest show ?thesis unfolding forwarded_subscribed_def by blast
qed

definition taken_list :: "'j ws_connection \<Rightarrow> ws_event list" where
  "taken_list k = (case wsk_taken k of None \<Rightarrow> [] | Some e \<Rightarrow> [e])"

text \<open>What was forwarded, taken and is still to be taken of each broadcast channel is part of what was published, in order.\<close>

definition forwarding_inv :: "'j ws_json \<Rightarrow> ws_input list \<Rightarrow> ws_event list \<Rightarrow> 'j ws_connection \<Rightarrow> bool" where
  "forwarding_inv J is es k \<longleftrightarrow> sent_events k = map (event_message J) es
     \<and> (\<forall>t. subseq (events_on t (es @ taken_list k) @ wsk_buffers k t) (published_on t is))
     \<and> (\<forall>t. \<forall>e\<in>set (wsk_buffers k t). ws_topic_of e = t)
     \<and> (\<forall>e\<in>set es. forwarded_subscribed J is e)"

lemma forwarding_invD:
  assumes "forwarding_inv J is es k"
  shows "sent_events k = map (event_message J) es"
    and "subseq (events_on t (es @ taken_list k) @ wsk_buffers k t) (published_on t is)"
    and "e \<in> set (wsk_buffers k t) \<Longrightarrow> ws_topic_of e = t"
    and "e \<in> set es \<Longrightarrow> forwarded_subscribed J is e"
  using assms by (auto simp: forwarding_inv_def)

text \<open>A step that only shortens what is to be forwarded.\<close>

lemma forwarding_inv_shorter:
  assumes "forwarding_inv J is es k" "sent_events k' = map (event_message J) (es @ xs)"
    and "\<And>t. subseq (events_on t (xs @ taken_list k') @ wsk_buffers k' t) (events_on t (taken_list k) @ wsk_buffers k t)"
    and "\<And>t. set (wsk_buffers k' t) \<subseteq> set (wsk_buffers k t)" "\<forall>e\<in>set xs. forwarded_subscribed J (is @ [i]) e"
  shows "forwarding_inv J (is @ [i]) (es @ xs) k'"
proof -
  have "subseq (events_on t ((es @ xs) @ taken_list k') @ wsk_buffers k' t) (published_on t (is @ [i]))" for t
  proof -
    have "subseq (events_on t es @ events_on t (xs @ taken_list k') @ wsk_buffers k' t) (events_on t es @ events_on t (taken_list k) @ wsk_buffers k t)"
      by (rule list_emb_append_mono [OF subseq_order.refl assms(3)])
    moreover have "subseq (events_on t es @ events_on t (taken_list k) @ wsk_buffers k t) (published_on t is)"
      using forwarding_invD(2) [OF assms(1), of t] by (simp add: events_on_def)
    ultimately have "subseq (events_on t es @ events_on t (xs @ taken_list k') @ wsk_buffers k' t) (published_on t is)"
      by (rule subseq_order.trans)
    from list_emb_append_mono [OF this list_emb_Nil] show ?thesis unfolding published_snoc by (simp add: events_on_def)
  qed
  moreover have "ws_topic_of e = t" if "e \<in> set (wsk_buffers k' t)" for e t
    using that assms(4) forwarding_invD(3) [OF assms(1)] by blast
  moreover have "forwarded_subscribed J (is @ [i]) e" if "e \<in> set (es @ xs)" for e
    using that assms(5) forwarded_append [OF forwarding_invD(4) [OF assms(1)]] by auto
  ultimately show ?thesis using assms(2) by (simp add: forwarding_inv_def)
qed

lemma same_forwarding_inv:
  "forwarding_inv J is es k \<Longrightarrow> same_forwarding k k' \<Longrightarrow> forwarding_inv J (is @ [i]) es k'"
  using forwarding_inv_shorter [of J "is" es k k' "[]" i] forwarding_invD(1) [of J "is" es k]
  by (auto simp: same_forwarding_def taken_list_def events_on_def)

lemma broadcast_inv:
  assumes "forwarding_inv J is es k"
  shows "forwarding_inv J (is @ [Published e]) es (ws_broadcast e k)"
proof -
  let ?k = "ws_broadcast e k" and ?t = "ws_topic_of e"
  have buffers: "wsk_buffers ?k = (wsk_buffers k)(?t := wsk_buffers k ?t @ [e])
      \<or> wsk_buffers ?k = (wsk_buffers k)(?t := tl (wsk_buffers k ?t @ [e]))"
    by (simp add: ws_broadcast_def Let_def)
  have taken: "taken_list ?k = taken_list k" by (simp add: taken_list_def)
  have part: "subseq (wsk_buffers ?k t) (wsk_buffers k t @ (if ?t = t then [e] else []))" for t
    using buffers by (elim disjE) (auto intro: subseq_order.trans [OF _ subseq_order.refl] list_emb_Cons simp: tl_append split: list.split)
  have "subseq (events_on t (es @ taken_list ?k) @ wsk_buffers ?k t) (published_on t (is @ [Published e]))" for t
  proof -
    have "subseq (events_on t (es @ taken_list k) @ wsk_buffers ?k t)
        (events_on t (es @ taken_list k) @ wsk_buffers k t @ (if ?t = t then [e] else []))"
      by (rule list_emb_append_mono [OF subseq_order.refl part])
    moreover have "subseq ((events_on t (es @ taken_list k) @ wsk_buffers k t) @ (if ?t = t then [e] else []))
        (published_on t is @ (if ?t = t then [e] else []))"
      by (rule list_emb_append_mono [OF forwarding_invD(2) [OF assms] subseq_order.refl])
    ultimately show ?thesis unfolding published_snoc taken ws_input.case append_assoc by (rule subseq_order.trans)
  qed
  moreover have "ws_topic_of x = t" if "x \<in> set (wsk_buffers ?k t)" for x t
    using that buffers forwarding_invD(3) [OF assms] by (auto split: if_splits dest!: in_tail)
  moreover have "forwarded_subscribed J (is @ [Published e]) x" if "x \<in> set es" for x
    using that forwarded_append forwarding_invD(4) [OF assms] by blast
  ultimately show ?thesis using forwarding_invD(1) [OF assms] by (simp add: forwarding_inv_def)
qed

lemma step_inv:
  assumes "forwarding_inv J is es (handle_socket J m is)"
  shows "\<exists>es'. forwarding_inv J (is @ [i]) es' (handle_socket J m (is @ [i]))"
proof -
  let ?k = "handle_socket J m is"
  note sent = forwarding_invD(1) [OF assms]
  have quiet: "\<exists>es'. forwarding_inv J (is @ [i]) es' k'" if "same_forwarding ?k k'" for k'
    using same_forwarding_inv [OF assms that] by blast
  have part: "\<exists>es'. forwarding_inv J (is @ [i]) es' k'" if "sent_events k' = sent_events ?k" "wsk_buffers k' = wsk_buffers ?k"
      "wsk_taken k' = wsk_taken ?k" for k'
    using forwarding_inv_shorter [OF assms, of k' "[]" i] that sent by (auto simp: taken_list_def events_on_def)
  show ?thesis
  proof (cases "wsk_open ?k")
    case False
    then show ?thesis unfolding socket_snoc using quiet by (simp add: ws_step_def same_forwarding_def)
  next
    case up: True
    then have step: "handle_socket J m (is @ [i]) = ws_take J m i ?k" by (simp add: socket_snoc ws_step_def)
    show ?thesis unfolding step
    proof (cases i)
      case (TextFrame frame)
      then show "\<exists>es'. forwarding_inv J (is @ [i]) es' (ws_take J m i ?k)" using quiet take_text [of J m frame ?k] by metis
    next
      case (Published e)
      then show "\<exists>es'. forwarding_inv J (is @ [i]) es' (ws_take J m i ?k)" using broadcast_inv [OF assms] by (auto simp: ws_take_def)
    next
      case (PollReceiver t)
      have "\<exists>es'. forwarding_inv J (is @ [i]) es' (ws_poll t ?k)"
      proof (cases rule: poll_takes [of t ?k])
        case 1
        then show ?thesis by (intro part) simp_all
      next
        case (2 e es2)
        have "ws_topic_of e = t" using forwarding_invD(3) [OF assms, of e t] 2(2) by simp
        then have "subseq (events_on t' ([] @ taken_list (ws_poll t ?k)) @ wsk_buffers (ws_poll t ?k) t')
            (events_on t' (taken_list ?k) @ wsk_buffers ?k t')" for t'
          using 2 by (auto simp: taken_list_def events_on_def)
        moreover have "set (wsk_buffers (ws_poll t ?k) t') \<subseteq> set (wsk_buffers ?k t')" for t' using 2 by auto
        ultimately show ?thesis using forwarding_inv_shorter [OF assms, of "ws_poll t ?k" "[]" i] sent by auto
      qed
      then show "\<exists>es'. forwarding_inv J (is @ [i]) es' (ws_take J m i ?k)" using PollReceiver by (simp add: ws_take_def)
    next
      case DeliverTaken
      define xs where "xs = (case wsk_taken ?k of Some e \<Rightarrow> if event_channel e \<in> wsk_subscriptions ?k \<and> wsk_writing ?k then [e] else []
        | None \<Rightarrow> [])"
      note sends = deliver_sends [of J ?k, folded xs_def]
      have xs: "xs = [] \<or> (\<exists>e. wsk_taken ?k = Some e \<and> xs = [e] \<and> event_channel e \<in> wsk_subscriptions ?k)"
        by (simp add: xs_def split: option.split)
      have "subseq (events_on t (xs @ taken_list (ws_deliver J ?k)) @ wsk_buffers (ws_deliver J ?k) t)
          (events_on t (taken_list ?k) @ wsk_buffers ?k t)" for t
        using xs sends(1) by (elim disjE) (auto simp: taken_list_def events_on_def intro: list_emb_append2 split: option.split)
      moreover have "forwarded_subscribed J (is @ [i]) e" if "e \<in> set xs" for e
      proof -
        have e: "wsk_taken ?k = Some e" "event_channel e \<in> wsk_subscriptions ?k" using xs that by auto
        obtain as frame bs where split: "is = as @ TextFrame frame # bs" and asked: "asks J MtSubscribe (event_channel e) frame"
            "\<forall>t. TextFrame t \<in> set bs \<longrightarrow> \<not> asks J MtUnsubscribe (event_channel e) t"
          using held_subscription [OF up e(2)] by blast
        have "e \<in> set (events_on (ws_topic_of e) (es @ taken_list ?k) @ wsk_buffers ?k (ws_topic_of e))"
          using e(1) by (simp add: taken_list_def events_on_def)
        then have "e \<in> set (published_on (ws_topic_of e) is)"
          by (rule subseq_member [OF forwarding_invD(2) [OF assms]])
        then have "Published e \<in> set is" by (rule published_mem)
        then have "Published e \<in> set (as @ bs)" using split by auto
        then show ?thesis unfolding forwarded_subscribed_def using split asked DeliverTaken
          by (intro exI [of _ as] exI [of _ frame] exI [of _ bs] exI [of _ "[]"]) simp
      qed
      ultimately have "forwarding_inv J (is @ [i]) (es @ xs) (ws_deliver J ?k)"
        using sends(2) sent by (intro forwarding_inv_shorter [OF assms]) simp_all
      then show "\<exists>es'. forwarding_inv J (is @ [i]) es' (ws_take J m i ?k)" using DeliverTaken by (auto simp: ws_take_def)
    qed (intro part; simp add: ws_take_def)+
  qed
qed

lemma forwarding_inv_exists: "\<exists>es. forwarding_inv J is es (handle_socket J m is)"
proof (induction "is" rule: rev_induct)
  case Nil
  have "forwarding_inv J [] [] (handle_socket J m [])"
    by (simp add: forwarding_inv_def handle_socket_def wsk_new_def sent_events_def events_on_def taken_list_def)
  then show ?case by blast
next
  case (snoc i "is")
  then obtain es where "forwarding_inv J is es (handle_socket J m is)" by blast
  then show ?case by (rule step_inv)
qed

text \<open>
  C23. The events that a connection hands over to its client, in any order of the tasks and with any events lost for want of room in the buffers: they are messages for
  published events; of each of the three broadcast channels they come in the order in which they were published, none more often than it was
  published; and each was forwarded, after it was published, at a moment when the client had subscribed to its channel and
  not unsubscribed from it since.
\<close>
theorem events_were_subscribed:
  "\<exists>es. filter (\<lambda>msg. ogm_msg_type msg = MtEvent) (wsk_sent (handle_socket J m is)) = map (event_message J) es
    \<and> (\<forall>t. subseq (filter (\<lambda>e. ws_topic_of e = t) es) (published_on t is))
    \<and> (\<forall>e\<in>set es. forwarded_subscribed J is e)"
proof -
  obtain es where inv: "forwarding_inv J is es (handle_socket J m is)" using forwarding_inv_exists by blast
  have "subseq (filter (\<lambda>e. ws_topic_of e = t) es) (published_on t is)" for t
  proof (rule subseq_order.trans [OF subseq_rev_drop_many [OF subseq_order.refl]])
    show "subseq (filter (\<lambda>e. ws_topic_of e = t) es @ events_on t (taken_list (handle_socket J m is)) @ wsk_buffers (handle_socket J m is) t)
        (published_on t is)"
      using forwarding_invD(2) [OF inv, of t] by (simp add: events_on_def)
  qed
  then show ?thesis using forwarding_invD(1,4) [OF inv] unfolding sent_events_def by blast
qed

text \<open>
  A connection never holds more subscriptions than its limit, whatever arrives.
\<close>
theorem subscriptions_within_limit:
  "card (wsk_subscriptions (handle_socket J m is)) \<le> unat m"
proof -
  let ?ok = "\<lambda>k. finite (wsk_subscriptions k) \<and> card (wsk_subscriptions k) \<le> unat m"
  have step: "?ok (ws_step J m i k)" if "?ok k" for i and k :: "'a ws_connection"
  proof (cases i)
    case (TextFrame frame)
    obtain k' res where run: "handle_text_message J m frame k = (res, k')"
        "wsk_subscriptions (ws_take J m (TextFrame frame) k) = wsk_subscriptions k'"
      by (rule take_text)
    from text_subscribes(2) [OF run(1) that] show ?thesis using run(2) TextFrame that by (simp add: ws_step_def)
  qed (use that in \<open>simp_all add: ws_step_def ws_take_def\<close>)
  have "?ok (fold (ws_step J m) is k)" if "?ok k" for k :: "'a ws_connection"
    using that by (induction "is" arbitrary: k) (simp_all add: step del: One_nat_def)
  from this [of wsk_new] show ?thesis by (simp add: handle_socket_def wsk_new_def)
qed

text \<open>
  Once all three receivers have lost events since the forwarding task took one, it ends: the connection stays open and acknowledges subscriptions,
  but it never hands over an event again.
\<close>
theorem lagging_ends_forwarding:
  assumes "wsk_forwarding k" "wsk_taken k = None" "wsk_disabled k = {}" "wsk_lagged k = {QuoteTopic, StatusTopic, TradeTopic}"
    and "set polls = {PollReceiver QuoteTopic, PollReceiver StatusTopic, PollReceiver TradeTopic}" "distinct polls"
    and "wsk_open k"
  shows "sent_events (fold (ws_step J m) (polls @ is) k) = sent_events k"
proof -
  let ?stopped = "\<lambda>k' :: 'a ws_connection. sent_events k' = sent_events k \<and> \<not> wsk_forwarding k' \<and> wsk_taken k' = None"
  have step: "?stopped (ws_step J m i k')" if "?stopped k'" for i k'
  proof (cases i)
    case (TextFrame frame)
    have "same_forwarding k' (ws_take J m (TextFrame frame) k')" by (rule take_text)
    then show ?thesis using that TextFrame by (simp add: ws_step_def same_forwarding_def)
  qed (use that in \<open>simp_all add: ws_step_def ws_take_def ws_poll_def ws_deliver_def ws_broadcast_def Let_def\<close>)
  have "?stopped (fold (ws_step J m) is k')" if "?stopped k'" for k'
    using that by (induction "is" arbitrary: k') (simp_all add: step)
  moreover have "?stopped (fold (ws_step J m) polls k)"
  proof -
    have "card (set polls) = 3" by (simp add: assms(5))
    then obtain a b c where p: "polls = [a, b, c]"
      using assms(6) by (metis distinct_card length_Suc_conv length_0_conv numeral_3_eq_3)
    have "{a, b, c} = {PollReceiver QuoteTopic, PollReceiver StatusTopic, PollReceiver TradeTopic}" "distinct [a, b, c]"
      using assms(5,6) p by simp_all
    then consider "(a, b, c) = (PollReceiver QuoteTopic, PollReceiver StatusTopic, PollReceiver TradeTopic)"
      | "(a, b, c) = (PollReceiver QuoteTopic, PollReceiver TradeTopic, PollReceiver StatusTopic)"
      | "(a, b, c) = (PollReceiver StatusTopic, PollReceiver QuoteTopic, PollReceiver TradeTopic)"
      | "(a, b, c) = (PollReceiver StatusTopic, PollReceiver TradeTopic, PollReceiver QuoteTopic)"
      | "(a, b, c) = (PollReceiver TradeTopic, PollReceiver QuoteTopic, PollReceiver StatusTopic)"
      | "(a, b, c) = (PollReceiver TradeTopic, PollReceiver StatusTopic, PollReceiver QuoteTopic)"
      by (simp add: set_eq_iff) (metis ws_input.inject(3))
    then show ?thesis using assms(1,2,3,4,7) p
      by cases (simp_all add: ws_step_def ws_take_def ws_poll_def Let_def)
  qed
  ultimately show ?thesis by simp
qed

text \<open>
  A connection at its limit is refused also when it asks for a channel it already has.
\<close>
theorem full_connection_refuses_again:
  assumes "asks J MtSubscribe c frame" "card (wsk_subscriptions k) = unat m" "c \<in> wsk_subscriptions k"
  shows "handle_text_message J m frame k = (Inl (''maximum subscriptions ('' @ nat_str (unat m) @ '') reached''), k)"
  using assms by (auto simp: asks_def handle_text_message_def)

text \<open>JSON for the examples: every text asks for the quotes of \<open>r\<close>.\<close>

definition sample_json :: "unit ws_json" where
  "sample_json = \<lparr> wsj_parse = (\<lambda>_. Inr \<lparr> inm_msg_type = MtSubscribe, inm_channel = Some ''rfq.r.quotes'', inm_payload = None \<rparr>),
     wsj_quote = (\<lambda>_. ()), wsj_status = (\<lambda>_. ()), wsj_trade = (\<lambda>_. ()) \<rparr>"

definition sample_quote_event :: quote_ws_event where
  "sample_quote_event = \<lparr> qwe_rfq_id = ''r'', qwe_quote_id = ''q'', qwe_venue_id = ''v'', qwe_price = ''1'', qwe_quantity = ''1'',
     qwe_valid_until = ''t'', qwe_timestamp = ''t'' \<rparr>"

text \<open>The event is published before the client subscribes, and taken after: it is forwarded.\<close>

definition sample_inputs_ws :: "ws_input list" where
  "sample_inputs_ws = [Published (QuoteEvent sample_quote_event), TextFrame ''subscribe'', PollReceiver QuoteTopic, DeliverTaken]"

lemma sample_run_ws: "filter (\<lambda>msg. ogm_msg_type msg = MtEvent) (wsk_sent (handle_socket sample_json 3 sample_inputs_ws))
    = [ogm_event ''rfq.r.quotes'' ()]"
  by (simp add: sample_inputs_ws_def handle_socket_def wsk_new_def ws_step_def ws_take_def handle_text_message_def sample_json_def
      wch_parse_def wsk_send_def ws_broadcast_def broadcast_capacity_def ws_poll_def ws_deliver_def forward_event_def event_channel_def
      ws_topic_of_def event_message_def sample_quote_event_def ogm_event_def ogm_ack_def wch_to_channel_string_def Let_def)

lemma events_were_subscribed_witness:
  "\<exists>e. ogm_event ''rfq.r.quotes'' () = event_message sample_json e \<and> forwarded_subscribed sample_json sample_inputs_ws e"
proof -
  obtain es where es: "[ogm_event ''rfq.r.quotes'' ()] = map (event_message sample_json) es"
      "\<forall>e\<in>set es. forwarded_subscribed sample_json sample_inputs_ws e"
    using events_were_subscribed [of sample_json 3 sample_inputs_ws] unfolding sample_run_ws by (elim exE conjE) (rule that)
  then show ?thesis by (cases es) auto
qed

lemma lagging_ends_forwarding_witness:
  "sent_events (fold (ws_step sample_json 3) [PollReceiver TradeTopic, PollReceiver QuoteTopic, PollReceiver StatusTopic,
      Published (QuoteEvent sample_quote_event), PollReceiver QuoteTopic, DeliverTaken]
      (wsk_new\<lparr> wsk_subscriptions := {RfqQuotes ''r''}, wsk_lagged := {QuoteTopic, StatusTopic, TradeTopic} \<rparr>)) = []"
proof -
  let ?k = "wsk_new\<lparr> wsk_subscriptions := {RfqQuotes ''r''}, wsk_lagged := {QuoteTopic, StatusTopic, TradeTopic} \<rparr> :: unit ws_connection"
  have "sent_events (fold (ws_step sample_json 3) ([PollReceiver TradeTopic, PollReceiver QuoteTopic, PollReceiver StatusTopic]
      @ [Published (QuoteEvent sample_quote_event), PollReceiver QuoteTopic, DeliverTaken]) ?k) = sent_events ?k"
    by (rule lagging_ends_forwarding) (auto simp: wsk_new_def)
  moreover have "sent_events ?k = []" by (simp add: sent_events_def wsk_new_def)
  ultimately show ?thesis by simp
qed

end
