(* ===== verification/Spec2Isabelle.thy ===== *)
theory Spec2Isabelle
  imports Rfq_Aggregate Negotiations Trades Retrying Circuit_Breaking Lock_Manager Capacity
    Multi_Leg Sbe_Codec Orchestration Intake Quote_Locks Acceptance Matching Ranking Fills
    Aggregation Fees Counterparties Compliance Block_Trades Off_Book Reporting Settlements
    Streaming Package_Pricing Sbe_Server Gatekeeping Price_Bounds Price_Discovery Confirmations
    Anonymity Last_Look_Channels Venues Fix_Messages Fix_Venue Fix_Simulator Rest_Handlers
    Web_Socket
begin

text \<open>
  Verification development for otc-rfq, a server for over-the-counter trading by request for quote
  (RFQ), written in Rust. Paths below are relative to the crate, \<open>src/\<close> of the repository.

  The program. A client opens an RFQ; the venues are asked for quotes; the quotes are normalised,
  ranked and, when the size asks for it, filled from several of them; one is accepted under a lock,
  after a risk check and the market maker's last look; the trade is executed at the venue, stored
  and published. Beside this run negotiations in rounds, packages of several legs, block trades
  agreed off the book with delayed reports, streaming quotes, and the books kept on market makers:
  capacity, performance, incentives and their settlement. The code is layered: \<open>domain\<close> holds the
  aggregates and domain services, \<open>application\<close> the use cases and services over them,
  \<open>infrastructure\<close> the stores, codecs and adapters, \<open>api\<close> the interfaces.

  How the code is modelled.

  \<^item> Structs are records, enums datatypes, in the order and with the names of the source;
    a field carries a short prefix of its struct. Integers are words of their width (\<open>u8\<close> .. \<open>u64\<close>),
    with the checked, wrapping or saturating operation the source calls. Strings are strings of bytes.
    Formatted messages keep the format string and its arguments.
  \<^item> A fallible function returns a sum, \<open>Inl\<close> the error; one that may panic returns an
    \<open>outcome\<close> (\<open>Ret\<close>, \<open>Err\<close> or \<open>Panic\<close>). A function on \<open>&mut self\<close> returns its result
    and the object it leaves, also when it fails, so that what a failing call changed is visible.
    Theory \<open>Prelude\<close> has these types and their rules, \<open>Effects\<close> the calls made on the
    world behind a trait, with the log of the calls made.
  \<^item> \<open>rust_decimal\<close> is not part of the repository: its operations are the fields of a
    record \<open>'d dec\<close> (\<open>Values\<close>) that the definitions take. Where a theorem needs a law of it the
    law is a named hypothesis, and the witness uses whole numbers (\<open>whole_dec\<close>) or
    another concrete instance. \<open>Exact_Decimals\<close> states the laws by the rational number a
    decimal stands for. In the same way identifiers drawn by \<open>uuid\<close>, readings of the clock, random
    numbers and the answers of venues, stores and channels are arguments; the walk of a hash
    map is a function argument that lists its keys in some order.
  \<^item> \<open>f64\<close> is IEEE binary64 with round to nearest even, as executable arithmetic on rationals
    (\<open>Float64\<close>), with infinities; all NaNs are one value and so are the two zeros.
  \<^item> Asynchronous code is sequential between the points where it awaits something shared. Where
    interleaving matters it is written out: the lock manager as a step relation over holders
    (\<open>Lock_Manager\<close>), overlapping publishers and recordings as sequences of calls whose reads
    and writes are separated (\<open>Reporting\<close>, \<open>Settlements\<close>), a connection and the broadcasts it receives as
    a sequence of inputs with the buffers between them (\<open>Web_Socket\<close>).

  The theories, by layer.

  \<^item> Values: \<open>Values\<close> (\<open>value_objects/arithmetic, price, quantity, timestamp, ids\<close>), \<open>Instruments\<close> (symbols,
    instruments, enumerations), \<open>Lifecycle\<close> (the transition tables; their lemmas say which
    states are final and which are reached), \<open>Errors\<close>, \<open>Application_Errors\<close>, \<open>Text_Functions\<close>, \<open>Stable_Sorting\<close>.
  \<^item> Aggregates: \<open>Rfq_Aggregate\<close>, \<open>Quotes\<close>, \<open>Negotiations\<close>, \<open>Trades\<close>, \<open>Packages\<close>, \<open>Counterparties\<close>, \<open>Block_Trades\<close>. Each
    has the constructor, every operation, an invariant, its preservation by every operation and hence along any
    history of calls, and what a failing call leaves behind.
  \<^item> Domain services: \<open>Lock_Manager\<close> (mutual exclusion, no deadlock, time to live), \<open>Quote_Locks\<close> and
    \<open>Acceptance\<close> (the acceptance of a quote under its lock), \<open>Matching\<close> (conflicts, execution under all the
    locks of a trade), \<open>Multi_Leg\<close> (legs in turn with roll-back), \<open>Capacity\<close> (limits of market makers), \<open>Fees\<close>,
    \<open>Normalization\<close>, \<open>Off_Book\<close> (collateral, settlement, positions, report), \<open>Market_Calendar\<close> and \<open>Reporting\<close> (delayed reports),
    \<open>Mm_Performance\<close>, \<open>Incentives\<close>, \<open>Settlements\<close>, \<open>Confirmations\<close> (notices of trades with their retries),
    \<open>Anonymity\<close> (when and to whom the client of an anonymous RFQ is told).
  \<^item> Application services: \<open>Retrying\<close> (retries with their back-off in \<open>f64\<close>), \<open>Circuit_Breaking\<close>, \<open>Ranking\<close>,
    \<open>Fills\<close>, \<open>Aggregation\<close>, \<open>Compliance\<close>, \<open>Package_Pricing\<close>, \<open>Price_Bounds\<close> (tolerances and spreads), \<open>Price_Discovery\<close> (the
    theoretical pricer); the use cases in \<open>Use_Cases\<close> with what they do
    to the world in \<open>Intake\<close> and \<open>Orchestration\<close>.
  \<^item> Infrastructure: \<open>Repositories\<close> (in-memory stores with their version check), \<open>Events\<close>, \<open>Byte_Codec\<close> and
    \<open>Sbe_Codec\<close> (the binary codec, with its in-place writes and its panics), \<open>Streaming\<close>, \<open>Last_Look_Channels\<close> (the router of last looks and its clients),
    \<open>Venues\<close> (the venue entity and the registry), \<open>Fix_Messages\<close>, \<open>Fix_Venue\<close> (the FIX adapter over its engine, with
    what arrives while a request waits as a list of events) and \<open>Fix_Simulator\<close> (the market maker that answers in tests).
  \<^item> Interfaces: \<open>Field_Codec\<close> and \<open>Api_Messages\<close> (the messages of the binary interface as sequences of fields that
    are written and read in turn, with their round trips and what truncation does), \<open>Sbe_Server\<close> (handlers, dispatch, the loop
    of a session, subscriptions, framing), \<open>Gatekeeping\<close> (authentication and rate limits), \<open>Rest_Handlers\<close> (the REST
    requests and the pages of lists), \<open>Web_Socket\<close> (subscriptions of a connection, its buffered broadcasts and the events forwarded to it).

  How they fit together. The interfaces between components are locales, each interpreted on the
  definitions of the component that provides it: the stores that the use cases and the capacity manager work on, the
  lock service below the acceptance flow, the codec of a message, histories of calls that keep an invariant. A property
  of a client rests on the facts of these interpretations. The statements that span components are
  in the theories of the client: \<open>Acceptance\<close> over \<open>Quote_Locks\<close>, \<open>Matching\<close> over \<open>Lock_Manager\<close>,
  \<open>Orchestration\<close> over the aggregates and use cases, \<open>Compliance\<close> over \<open>Intake\<close>, \<open>Off_Book\<close> over \<open>Block_Trades\<close>.

  Loops and bounds. Loops are structural recursions over the list they walk, with these exceptions: retries recurse on the
  attempts that remain (\<open>max_retries\<close>), the roll-back of a leg likewise; the search for the next business day
  is a \<open>partial_function\<close>, proved to return (a business day comes within three days, or the calendar ends), and so is the
  loop that sends a confirmation, proved to return unless the greatest number of attempts is configured. No
  definition uses fuel.

  What is not modelled. Network and database code (routing, PostgreSQL, the FIX engine, chain and
  HTTP clients, mail and message channels) is calls into packages outside the repository; the models take it as the
  parameters named above. Serialization by serde, \<open>Display\<close> beyond the messages that the code reads, logging and
  start-up are left out. The power function of \<open>retry.rs\<close> and the exponential, logarithm and square root that \<open>theoretical_pricer.rs\<close> calls are
  parameters. Each component's note says what else is missing.
\<close>

end
